(* ===== verification/Prelude.thy ===== *)
theory Prelude
  imports Complex_Main "HOL-Library.AList" "HOL-Library.List_Lexorder" "HOL-Library.Char_ord"
begin

text \<open>
  Shared vocabulary of the development: the exceptions the Python sources raise and the
  result type that carries them, dictionaries (insertion-ordered, as Python's are), the
  string operations the sources use, and the lemma collections the component theories
  feed and use.

  \<^item> \<open>res\<close> is the result of code that may raise: \<open>Inl\<close> carries the exception.
    \<open>rbind\<close> is sequencing, \<open>catch_value_error\<close> is \<^verbatim>\<open>try: ... except ValueError as exc: ...\<close>.
  \<^item> \<open>dict\<close> is a Python \<^verbatim>\<open>dict[str, v]\<close>: an association list in insertion order;
    \<open>dset\<close> is \<^verbatim>\<open>{**d, k: v}\<close> (it keeps the position of an existing key and appends a new one).
  \<^item> strings are character lists; \<open>str_int\<close>, \<open>fmt_0f\<close>, \<open>lower\<close>, \<open>strip\<close>, \<open>contains_str\<close> are the
    f-string and \<^verbatim>\<open>str\<close> operations in use.
\<close>

section \<open>Exceptions and results\<close>

datatype py_exn =
    ValueError string
  | RuntimeError string
  | KeyError string
  | IndexError
  | OSError string

type_synonym 'a res = "py_exn + 'a"

named_theorems res_simps \<open>equations that take a result apart\<close>
named_theorems state_simps \<open>what the state-updating operations do to each field\<close>
named_theorems route_intros \<open>where a routing helper may send the run\<close>

definition rbind :: "'a res \<Rightarrow> ('a \<Rightarrow> 'b res) \<Rightarrow> 'b res" where
  "rbind m f = (case m of Inl e \<Rightarrow> Inl e | Inr x \<Rightarrow> f x)"

definition catch_value_error :: "'a res \<Rightarrow> (string \<Rightarrow> 'a res) \<Rightarrow> 'a res" where
  "catch_value_error m h = (case m of Inl (ValueError msg) \<Rightarrow> h msg | _ \<Rightarrow> m)"

lemma rbind_simps [simp]:
  "rbind (Inr x) f = f x"
  "rbind (Inl e) f = Inl e"
  by (simp_all add: rbind_def)

lemma rbind_Inr_iff [res_simps]:
  "rbind m f = Inr y \<longleftrightarrow> (\<exists>x. m = Inr x \<and> f x = Inr y)"
  by (cases m) auto

lemma rbind_Inl_iff [res_simps]:
  "rbind m f = Inl e \<longleftrightarrow> m = Inl e \<or> (\<exists>x. m = Inr x \<and> f x = Inl e)"
  by (cases m) auto

lemma rbind_InrE [elim!]:
  assumes "rbind m f = Inr y"
  obtains x where "m = Inr x" and "f x = Inr y"
  using assms by (auto simp: res_simps)

lemma catch_value_error_simps [simp]:
  "catch_value_error (Inr x) h = Inr x"
  "catch_value_error (Inl (ValueError msg)) h = h msg"
  "catch_value_error (Inl (RuntimeError msg)) h = Inl (RuntimeError msg)"
  "catch_value_error (Inl (KeyError msg)) h = Inl (KeyError msg)"
  "catch_value_error (Inl IndexError) h = Inl IndexError"
  "catch_value_error (Inl (OSError msg)) h = Inl (OSError msg)"
  by (simp_all add: catch_value_error_def)

lemma catch_value_error_InrE [elim!]:
  assumes "catch_value_error m h = Inr y"
  obtains (ok) "m = Inr y" | (caught) msg where "m = Inl (ValueError msg)" and "h msg = Inr y"
  using assms by (auto simp: catch_value_error_def split: sum.splits py_exn.splits)

section \<open>Dictionaries\<close>

type_synonym ('k, 'v) pydict = "('k \<times> 'v) list"
type_synonym 'v dict = "(string, 'v) pydict"

definition dget :: "('k, 'v) pydict \<Rightarrow> 'k \<Rightarrow> 'v option" where
  "dget d k = map_of d k"

definition dget_or :: "('k, 'v) pydict \<Rightarrow> 'k \<Rightarrow> 'v \<Rightarrow> 'v" where
  "dget_or d k v = (case dget d k of None \<Rightarrow> v | Some x \<Rightarrow> x)"

definition dset :: "'k \<Rightarrow> 'v \<Rightarrow> ('k, 'v) pydict \<Rightarrow> ('k, 'v) pydict" where
  "dset k v d = AList.update k v d"

definition ddel :: "'k \<Rightarrow> ('k, 'v) pydict \<Rightarrow> ('k, 'v) pydict" where
  "ddel k d = AList.delete k d"

definition din :: "'k \<Rightarrow> ('k, 'v) pydict \<Rightarrow> bool" where
  "din k d = (dget d k \<noteq> None)"

definition dkeys :: "('k, 'v) pydict \<Rightarrow> 'k list" where
  "dkeys d = map fst d"

lemma dget_dset [simp]: "dget (dset k v d) k' = (if k' = k then Some v else dget d k')"
  by (simp add: dget_def dset_def AList.update_conv')

lemma dget_ddel [simp]: "dget (ddel k d) k' = (if k' = k then None else dget d k')"
  by (simp add: dget_def ddel_def AList.delete_conv')

lemma dget_or_dset [simp]: "dget_or (dset k v d) k' x = (if k' = k then v else dget_or d k' x)"
  by (simp add: dget_or_def)

lemma dget_Nil [simp]: "dget [] k = None"
  by (simp add: dget_def)

lemma dget_or_Nil [simp]: "dget_or [] k x = x"
  by (simp add: dget_or_def)

lemma din_iff: "din k d \<longleftrightarrow> k \<in> set (dkeys d)"
  by (induction d) (auto simp: din_def dkeys_def dget_def)

lemma din_dset [simp]: "din k' (dset k v d) \<longleftrightarrow> k' = k \<or> din k' d"
  by (simp add: din_def)

lemma dkeys_Nil [simp]: "dkeys [] = []"
  by (simp add: dkeys_def)

lemma dget_map_values: "dget (map (\<lambda>(k, v). (k, f v)) d) x = map_option f (dget d x)"
  by (induction d) (auto simp: dget_def)

lemma dget_SomeD: "dget d k = Some v \<Longrightarrow> (k, v) \<in> set d"
  by (simp add: dget_def map_of_SomeD)

lemma dget_Some_din [simp, intro]: "dget d k = Some v \<Longrightarrow> din k d"
  by (simp add: din_def)

lemma dict_all_valuesD: "list_all (\<lambda>(_, v). Q v) d \<Longrightarrow> dget d k = Some v \<Longrightarrow> Q v"
  by (auto simp: list_all_iff dest: dget_SomeD)

lemma dkeys_dset: "dkeys (dset k v d) = (if din k d then dkeys d else dkeys d @ [k])"
  by (induction d) (auto simp: dkeys_def dset_def din_def dget_def)

lemma distinct_dkeys_dset: "distinct (dkeys (dset k v d)) = distinct (dkeys d)"
  by (simp add: dkeys_dset din_iff)

lemma dset_fresh: "\<not> din k d \<Longrightarrow> dset k v d = d @ [(k, v)]"
  unfolding dset_def din_def dget_def
  by (induction d) (auto split: if_splits)

section \<open>Optional values\<close>

text \<open>Python truthiness of an optional string: \<^verbatim>\<open>None\<close> and the empty string are false.\<close>

definition truthy :: "string option \<Rightarrow> bool" where
  "truthy x = (case x of None \<Rightarrow> False | Some s \<Rightarrow> s \<noteq> [])"

text \<open>\<open>is_set P x\<close> is \<^verbatim>\<open>x is not None and P(x)\<close>.\<close>

definition is_set :: "('a \<Rightarrow> bool) \<Rightarrow> 'a option \<Rightarrow> bool" where
  "is_set P x = (case x of None \<Rightarrow> False | Some v \<Rightarrow> P v)"

definition or_else :: "string option \<Rightarrow> string \<Rightarrow> string" where
  "or_else x d = (case x of None \<Rightarrow> d | Some s \<Rightarrow> if s = [] then d else s)"

lemma truthy_simps [simp]: "\<not> truthy None" "truthy (Some s) \<longleftrightarrow> s \<noteq> []"
  by (simp_all add: truthy_def)

lemma or_else_simps [simp]: "or_else None d = d" "or_else (Some s) d = (if s = [] then d else s)"
  by (simp_all add: or_else_def)

section \<open>Strings\<close>

fun contains_str :: "string \<Rightarrow> string \<Rightarrow> bool" where
  "contains_str [] p = (p = [])"
| "contains_str (c # cs) p = (take (length p) (c # cs) = p \<or> contains_str cs p)"

text \<open>\<open>contains_str s p\<close> is Python's \<^verbatim>\<open>p in s\<close>.\<close>

lemma contains_str_iff: "contains_str s p \<longleftrightarrow> (\<exists>u v. s = u @ p @ v)"
proof (induction s)
  case Nil
  show ?case by auto
next
  case (Cons c cs)
  show ?case
  proof
    assume "contains_str (c # cs) p"
    then consider "take (length p) (c # cs) = p" | "contains_str cs p"
      by auto
    then show "\<exists>u v. c # cs = u @ p @ v"
    proof cases
      case 1
      then have "c # cs = [] @ p @ drop (length p) (c # cs)"
        by (metis append_Nil append_take_drop_id)
      then show ?thesis by blast
    next
      case 2
      then obtain u v where "cs = u @ p @ v" using Cons.IH by blast
      then have "c # cs = (c # u) @ p @ v" by simp
      then show ?thesis by blast
    qed
  next
    assume "\<exists>u v. c # cs = u @ p @ v"
    then obtain u v where uv: "c # cs = u @ p @ v" by blast
    show "contains_str (c # cs) p"
    proof (cases u)
      case Nil
      with uv have "take (length p) (c # cs) = p" by simp
      then show ?thesis by (simp del: take_Suc_Cons)
    next
      case (Cons a u')
      with uv have "cs = u' @ p @ v" by simp
      then show ?thesis using Cons.IH by auto
    qed
  qed
qed

definition lower_char :: "char \<Rightarrow> char" where
  "lower_char c = (let n = of_char c :: nat in if 65 \<le> n \<and> n \<le> 90 then char_of (n + 32) else c)"

definition lower :: "string \<Rightarrow> string" where
  "lower s = map lower_char s"

definition is_space :: "char \<Rightarrow> bool" where
  "is_space c = (let n = of_char c :: nat in n = 32 \<or> (9 \<le> n \<and> n \<le> 13) \<or> (28 \<le> n \<and> n \<le> 31))"

definition strip :: "string \<Rightarrow> string" where
  "strip s = rev (dropWhile is_space (rev (dropWhile is_space s)))"

definition ends_with :: "string \<Rightarrow> string \<Rightarrow> bool" where
  "ends_with s p = (length p \<le> length s \<and> drop (length s - length p) s = p)"

fun join_str :: "string \<Rightarrow> string list \<Rightarrow> string" where
  "join_str sep [] = []"
| "join_str sep [x] = x"
| "join_str sep (x # y # xs) = x @ sep @ join_str sep (y # xs)"

fun str_nat :: "nat \<Rightarrow> string" where
  "str_nat n = (if n < 10 then [char_of (48 + n)] else str_nat (n div 10) @ [char_of (48 + n mod 10)])"

declare str_nat.simps [simp del]

definition str_int :: "int \<Rightarrow> string" where
  "str_int i = (if i < 0 then ''-'' @ str_nat (nat (- i)) else str_nat (nat i))"

definition quoted :: "string \<Rightarrow> string" where
  "quoted s = [CHR 0x27] @ s @ [CHR 0x27]"

text \<open>\<open>str_opt\<close> is an optional string inside an f-string.\<close>

definition str_opt :: "string option \<Rightarrow> string" where
  "str_opt x = (case x of None \<Rightarrow> ''None'' | Some s \<Rightarrow> s)"

text \<open>The format \<^verbatim>\<open>{x:.0f}\<close>: round half to even.\<close>

definition round_half_even :: "real \<Rightarrow> int" where
  "round_half_even x =
     (let f = \<lfloor>x\<rfloor>; d = x - of_int f
      in if d < 1/2 then f else if d > 1/2 then f + 1 else if even f then f else f + 1)"

definition fmt_0f :: "real \<Rightarrow> string" where
  "fmt_0f x = (if x < 0 then ''-'' @ str_int (round_half_even (- x)) else str_int (round_half_even x))"

text \<open>The slice \<^verbatim>\<open>xs[i:]\<close> and the slice \<^verbatim>\<open>xs[-n:]\<close> for a positive \<open>n\<close>.\<close>

definition slice_from :: "'a list \<Rightarrow> int \<Rightarrow> 'a list" where
  "slice_from xs i = (if i < 0 then drop (nat (int (length xs) + i)) xs else drop (nat i) xs)"

definition slice_last :: "'a list \<Rightarrow> nat \<Rightarrow> 'a list" where
  "slice_last xs n = drop (length xs - n) xs"

section \<open>Numbers read from text and decoded JSON\<close>

text \<open>
  \<open>py_trunc\<close> is \<^verbatim>\<open>int(x)\<close> on a float.  \<open>py_int\<close> and \<open>py_float\<close> are \<^verbatim>\<open>int(s)\<close> and
  \<^verbatim>\<open>float(s)\<close> on a string: surrounding blanks, a sign, decimal digits with single underscores
  between them and, for floats, a fraction and an exponent.  \<open>None\<close> is the \<^verbatim>\<open>ValueError\<close>.
  Floats are exact reals, so the spellings of infinities and of not-a-number have no value here.
\<close>

definition py_trunc :: "real \<Rightarrow> int" where
  "py_trunc x = (if x < 0 then \<lceil>x\<rceil> else \<lfloor>x\<rfloor>)"

definition is_digit :: "char \<Rightarrow> bool" where
  "is_digit c = (let n = of_char c :: nat in 48 \<le> n \<and> n \<le> 57)"

definition digit_val :: "char \<Rightarrow> nat" where
  "digit_val c = (of_char c :: nat) - 48"

fun digit_run :: "nat \<Rightarrow> bool \<Rightarrow> string \<Rightarrow> nat option" where
  "digit_run acc prev [] = (if prev then Some acc else None)"
| "digit_run acc prev (c # cs) =
     (if is_digit c then digit_run (10 * acc + digit_val c) True cs
      else if c = CHR ''_'' \<and> prev then digit_run acc False cs else None)"

definition split_sign :: "string \<Rightarrow> int \<times> string" where
  "split_sign s = (case s of [] \<Rightarrow> (1, [])
     | c # cs \<Rightarrow> if c = CHR ''-'' then (-1, cs) else if c = CHR ''+'' then (1, cs) else (1, s))"

definition py_int :: "string \<Rightarrow> int option" where
  "py_int s = (let (sg, ds) = split_sign (strip s)
               in map_option (\<lambda>n. sg * int n) (digit_run 0 False ds))"

definition float_exponent :: "string \<Rightarrow> int option" where
  "float_exponent s = (case s of [] \<Rightarrow> Some 0
     | _ # cs \<Rightarrow> (let (sg, ds) = split_sign cs
                 in map_option (\<lambda>n. sg * int n) (digit_run 0 False ds)))"

definition float_mantissa :: "string \<Rightarrow> real option" where
  "float_mantissa s =
     (let ip = takeWhile (\<lambda>c. c \<noteq> CHR ''.'') s; rest = dropWhile (\<lambda>c. c \<noteq> CHR ''.'') s;
          fp = drop 1 rest;
          iv = (if ip = [] then Some 0 else digit_run 0 False ip);
          fv = (if fp = [] then Some 0 else digit_run 0 False fp)
      in if ip = [] \<and> fp = [] then None
         else case (iv, fv) of
           (Some i, Some f) \<Rightarrow> Some (of_nat i + of_nat f / 10 ^ length (filter is_digit fp))
         | _ \<Rightarrow> None)"

definition py_float :: "string \<Rightarrow> real option" where
  "py_float s =
     (let (sg, body) = split_sign (strip s);
          is_e = (\<lambda>c. c = CHR ''e'' \<or> c = CHR ''E'')
      in case (float_mantissa (takeWhile (\<lambda>c. \<not> is_e c) body),
               float_exponent (dropWhile (\<lambda>c. \<not> is_e c) body)) of
           (Some m, Some e) \<Rightarrow> Some (of_int sg * m * power_int 10 e)
         | _ \<Rightarrow> None)"

datatype json =
    JNull | JBool bool | JInt int | JFloat real | JStr string
  | JList "json list" | JObj "(string \<times> json) list"

text \<open>Python truthiness of a decoded value.\<close>

definition json_bool :: "json \<Rightarrow> bool" where
  "json_bool j = (case j of JNull \<Rightarrow> False | JBool b \<Rightarrow> b | JInt i \<Rightarrow> i \<noteq> 0 | JFloat r \<Rightarrow> r \<noteq> 0
     | JStr s \<Rightarrow> s \<noteq> [] | JList xs \<Rightarrow> xs \<noteq> [] | JObj xs \<Rightarrow> xs \<noteq> [])"

section \<open>The clock\<close>

text \<open>One reading of the injected clock: \<^verbatim>\<open>monotonic()\<close> and \<^verbatim>\<open>epoch()\<close>, in seconds.\<close>

record clock =
  monotonic :: real
  epoch :: real

definition mono_ms :: "clock \<Rightarrow> int" where
  "mono_ms c = py_trunc (monotonic c * 1000)"

definition epoch_ms :: "clock \<Rightarrow> int" where
  "epoch_ms c = py_trunc (epoch c * 1000)"

lemma py_trunc_mono: "x \<le> y \<Longrightarrow> py_trunc x \<le> py_trunc y"
  by (auto simp: py_trunc_def ceiling_mono floor_mono intro: order_trans [of _ 0])

lemma py_trunc_nonneg [simp]: "0 \<le> x \<Longrightarrow> 0 \<le> py_trunc x"
  by (simp add: py_trunc_def)

lemma py_trunc_of_int [simp]: "py_trunc (of_int i) = i"
  by (simp add: py_trunc_def)

lemma find_member: "List.find P xs = Some x \<Longrightarrow> x \<in> set xs \<and> P x"
  by (auto simp: find_Some_iff)

end
