(* ===== verification/Policy.thy ===== *)
theory Policy
  imports Prelude
begin

text \<open>
  The pipeline policy (\<^verbatim>\<open>ralph/policy/models\<close>): the phase graph the reducer routes on, with the
  model validators of \<^verbatim>\<open>PipelinePolicy\<close> as bool-valued functions.  A \<^verbatim>\<open>PipelinePolicy\<close> object
  exists only when every one of its validators passed, so \<open>validate_policy\<close> is the type
  invariant of the class; the theorems about routing use it as such.

  Fields that no modelled operation reads (prompt templates, display styles, artifact
  history, verification gating, authoring-time blocks) are left out of the records.
  Seconds are Python floats in the source and \<open>real\<close> here.

  The lemmas give the router what validation promises (every target a phase declares is a
  known phase) and show that the walk of the cycle-timebox validator computes reachability.
\<close>

section \<open>The policy documents\<close>

datatype phase_role =
    Execution | Analysis | Review | Commit | Verification | Terminal | Fanout_join | Commit_cleanup

record phase_transition =
  on_success :: string
  on_failure :: "string option"
  on_loopback :: "string option"

record phase_loop_policy =
  iteration_state_field :: string
  loopback_review_outcome :: "string option"

record phase_decision_route =
  dr_target :: string
  reset_loop :: bool
  dr_cycle_outcome :: "string option"
  dr_increments_counter :: "string option"

record phase_commit_policy =
  requires_artifact :: bool
  skipped_advances_progress :: bool
  cp_increments_counter :: "string option"
  route_counter :: "string option"
  cp_loop_resets :: "string list"

record phase_invocation_gate =
  upstream_execution_phase :: string
  minimum_elapsed_seconds :: real
  always_invoke_statuses :: "string list"

record phase_retry_policy =
  max_retries :: nat
  retry_delay_ms :: nat
  retry_in_session_default :: bool

record phase_workflow_fallback =
  wf_target :: string
  wf_note :: "string option"

record phase_parallelization =
  agent_subagents :: bool
  max_parallel_workers :: nat
  post_fanout_verification :: bool

record phase_definition =
  drain :: string
  transitions :: phase_transition
  role :: "phase_role option"
  skip_invocation :: bool
  retry_policy :: "phase_retry_policy option"
  loop_policy :: "phase_loop_policy option"
  decisions :: "phase_decision_route dict"
  commit_policy :: "phase_commit_policy option"
  terminal_outcome :: "string option"
  bypass_routes :: "string dict"
  result_status_post_commit :: "string dict"
  clean_outcome :: "string option"
  issues_outcome :: "string option"
  parallelization :: "phase_parallelization option"
  workflow_fallback :: "phase_workflow_fallback option"
  invocation_gate :: "phase_invocation_gate option"

record cycle_timebox_policy =
  ct_duration_seconds :: real
  ct_start_source :: string
  ct_start_entry :: string
  ct_guarded_entry :: string
  ct_end_entry :: string
  ct_finalization_target :: string
  finalization_cycle_outcome :: string

record development_timebox_policy =
  dt_duration_seconds :: real
  warning_seconds :: real
  dt_start_source :: string
  dt_start_entry :: string
  dt_guarded_entry :: string
  dt_end_entry :: string
  dt_finalization_target :: string

record recovery_policy =
  policy_cycle_cap :: nat
  failed_route :: string
  terminal_failure_phase :: "string option"

record loop_counter_config =
  lc_default_max :: int

record budget_counter_config =
  tracks_budget :: bool
  bc_default_max :: int

record post_commit_route =
  when_phase :: string
  when_budget_state :: string
  when_cycle_outcome :: "string option"
  pc_target :: string

record lifecycle_phase_policy =
  lifecycle_name :: string
  completion_block :: string
  lf_increments_counter :: "string option"
  lf_loop_resets :: "string list"

record pipeline_policy =
  phases :: "phase_definition dict"
  entry_block :: "string option"
  entry_phase :: string
  terminal_phase :: string
  loop_counters :: "loop_counter_config dict"
  budget_counters :: "budget_counter_config dict"
  post_commit_routes :: "post_commit_route list"
  lifecycle_phases :: "lifecycle_phase_policy dict"
  default_phase_retry_policy :: phase_retry_policy
  recovery :: recovery_policy
  development_timebox :: "development_timebox_policy option"
  cycle_timebox :: "cycle_timebox_policy option"

text \<open>The derived soft-warning point of a cycle: 80\% of its duration.\<close>

definition warning_threshold_seconds :: "cycle_timebox_policy \<Rightarrow> real" where
  "warning_threshold_seconds ct = ct_duration_seconds ct * (8 / 10)"

section \<open>Terminal states and known phases\<close>

definition terminal_phase_names :: "pipeline_policy \<Rightarrow> string list" where
  "terminal_phase_names p =
     [terminal_phase p, failed_route (recovery p)]
     @ map fst (filter (\<lambda>(_, d). role d = Some Terminal) (phases p))"

definition terminal_states :: "pipeline_policy \<Rightarrow> string set" where
  "terminal_states p = set (terminal_phase_names p)"

definition known_phase :: "pipeline_policy \<Rightarrow> string \<Rightarrow> bool" where
  "known_phase p t = (t \<in> terminal_states p \<or> din t (phases p))"

definition known_option :: "pipeline_policy \<Rightarrow> string option \<Rightarrow> bool" where
  "known_option p t = (case t of None \<Rightarrow> True | Some x \<Rightarrow> known_phase p x)"

section \<open>The validators of PipelinePolicy\<close>

text \<open>Each function is one \<^verbatim>\<open>model_validator\<close>: \<open>False\<close> is the \<^verbatim>\<open>ValueError\<close> it raises.\<close>

definition all_transitions_reference_known_phases :: "pipeline_policy \<Rightarrow> bool" where
  "all_transitions_reference_known_phases p =
     list_all (\<lambda>(_, d). known_phase p (on_success (transitions d))
                      \<and> known_option p (on_failure (transitions d))
                      \<and> known_option p (on_loopback (transitions d))) (phases p)"

definition entry_phase_exists :: "pipeline_policy \<Rightarrow> bool" where
  "entry_phase_exists p = din (entry_phase p) (phases p)"

definition no_phase_cycles_without_loopback :: "pipeline_policy \<Rightarrow> bool" where
  "no_phase_cycles_without_loopback p =
     list_all (\<lambda>(n, d). n \<in> terminal_states p
        \<or> \<not> (on_success (transitions d) = n \<and> on_loopback (transitions d) = None)) (phases p)"

definition post_commit_routes_reference_known_targets :: "pipeline_policy \<Rightarrow> bool" where
  "post_commit_routes_reference_known_targets p =
     list_all (\<lambda>r. known_phase p (pc_target r)) (post_commit_routes p)"

definition post_commit_routes_unique_conditions :: "pipeline_policy \<Rightarrow> bool" where
  "post_commit_routes_unique_conditions p =
     distinct (map (\<lambda>r. (when_phase r, when_budget_state r, when_cycle_outcome r))
                   (post_commit_routes p))"

definition parallelization_targets_non_terminal_phases :: "pipeline_policy \<Rightarrow> bool" where
  "parallelization_targets_non_terminal_phases p =
     list_all (\<lambda>(_, d). \<not> (parallelization d \<noteq> None \<and> role d = Some Terminal)) (phases p)"

definition decision_routes_target_known_phases :: "pipeline_policy \<Rightarrow> bool" where
  "decision_routes_target_known_phases p =
     list_all (\<lambda>(_, d). list_all (\<lambda>(_, r). known_phase p (dr_target r)) (decisions d)) (phases p)"

definition bypass_routes_target_known_phases :: "pipeline_policy \<Rightarrow> bool" where
  "bypass_routes_target_known_phases p =
     list_all (\<lambda>(_, d). list_all (\<lambda>(_, t). known_phase p t) (bypass_routes d)) (phases p)"

definition result_status_post_commit_targets_known_phases :: "pipeline_policy \<Rightarrow> bool" where
  "result_status_post_commit_targets_known_phases p =
     list_all (\<lambda>(_, d). list_all (\<lambda>(_, t). known_phase p t) (result_status_post_commit d)) (phases p)"

definition loop_counter_references_valid :: "pipeline_policy \<Rightarrow> bool" where
  "loop_counter_references_valid p =
     (loop_counters p = [] \<or>
      list_all (\<lambda>(_, d). case loop_policy d of None \<Rightarrow> True
                         | Some lp \<Rightarrow> din (iteration_state_field lp) (loop_counters p)) (phases p))"

definition budget_counter_references_valid :: "pipeline_policy \<Rightarrow> bool" where
  "budget_counter_references_valid p =
     (budget_counters p = [] \<or>
      list_all (\<lambda>(_, d). case commit_policy d of None \<Rightarrow> True
                         | Some cp \<Rightarrow> (case cp_increments_counter cp of None \<Rightarrow> True
                             | Some c \<Rightarrow> din c (budget_counters p))) (phases p))"

definition workflow_fallback_targets_valid :: "pipeline_policy \<Rightarrow> bool" where
  "workflow_fallback_targets_valid p =
     list_all (\<lambda>(_, d). case workflow_fallback d of None \<Rightarrow> True
                         | Some f \<Rightarrow> known_phase p (wf_target f)) (phases p)"

definition terminal_failure_phase_valid :: "pipeline_policy \<Rightarrow> bool" where
  "terminal_failure_phase_valid p =
     (case terminal_failure_phase (recovery p) of None \<Rightarrow> True
      | Some t \<Rightarrow> (case dget (phases p) t of None \<Rightarrow> False
          | Some d \<Rightarrow> role d = Some Terminal \<and> terminal_outcome d = Some ''failure''))"

definition cycle_timebox_references_known_phases :: "pipeline_policy \<Rightarrow> bool" where
  "cycle_timebox_references_known_phases p =
     (case cycle_timebox p of None \<Rightarrow> True
      | Some ct \<Rightarrow> list_all (known_phase p)
          [ct_start_source ct, ct_start_entry ct, ct_guarded_entry ct, ct_end_entry ct,
           ct_finalization_target ct])"

definition development_timebox_references_known_phases :: "pipeline_policy \<Rightarrow> bool" where
  "development_timebox_references_known_phases p =
     (case development_timebox p of None \<Rightarrow> True
      | Some dt \<Rightarrow> list_all (known_phase p)
          [dt_start_source dt, dt_start_entry dt, dt_guarded_entry dt, dt_end_entry dt,
           dt_finalization_target dt])"

definition recordable_cycle_outcomes :: "pipeline_policy \<Rightarrow> string list" where
  "recordable_cycle_outcomes p =
     (case cycle_timebox p of None \<Rightarrow> [] | Some ct \<Rightarrow> [finalization_cycle_outcome ct])
     @ List.map_filter (\<lambda>r. if dr_target r \<notin> terminal_states p then dr_cycle_outcome r else None)
         (concat (map (\<lambda>(_, d). map snd (decisions d)) (phases p)))"

definition recordable_cycle_outcomes_are_routable :: "pipeline_policy \<Rightarrow> bool" where
  "recordable_cycle_outcomes_are_routable p =
     (post_commit_routes p = [] \<or>
      list_all (\<lambda>ph. case dget (phases p) ph of None \<Rightarrow> True
        | Some _ \<Rightarrow> (let routes = filter (\<lambda>r. when_phase r = ph) (post_commit_routes p)
                    in list_all (\<lambda>out. list_all (\<lambda>bs.
                         list_ex (\<lambda>r. when_budget_state r = bs
                           \<and> (when_cycle_outcome r = None \<or> when_cycle_outcome r = Some out)) routes)
                       (map when_budget_state routes)) (recordable_cycle_outcomes p)))
        (map when_phase (post_commit_routes p)))"

text \<open>
  \<^verbatim>\<open>_reachable_avoiding\<close>: a depth-first walk over success and decision edges.  The Python
  stack pops from the end of the list; here the top of the stack is the head.
\<close>

definition forward_targets :: "phase_definition \<Rightarrow> string list" where
  "forward_targets d = on_success (transitions d) # map (\<lambda>(_, r). dr_target r) (decisions d)"

lemma card_unseen_decreases:
  assumes "din x d" and "x \<notin> set seen"
  shows "card (set (dkeys d) - insert x (set seen)) < card (set (dkeys d) - set seen)"
proof -
  have "set (dkeys d) - insert x (set seen) \<subset> set (dkeys d) - set seen"
    using assms by (auto simp: din_iff)
  then show ?thesis by (intro psubset_card_mono) auto
qed

function reach_loop ::
  "pipeline_policy \<Rightarrow> string list \<Rightarrow> bool \<Rightarrow> string list \<Rightarrow> string list \<Rightarrow> bool \<Rightarrow> string list" where
  "reach_loop p avoid exclude_start seen [] first = seen"
| "reach_loop p avoid exclude_start seen (ph # frontier) first =
     (if ph \<in> set avoid \<or> \<not> din ph (phases p)
        then reach_loop p avoid exclude_start seen frontier False
      else if ph \<in> set seen then reach_loop p avoid exclude_start seen frontier first
      else (case dget (phases p) ph of
              None \<Rightarrow> seen
            | Some d \<Rightarrow>
                if first \<and> exclude_start
                  then reach_loop p avoid exclude_start seen (rev (forward_targets d) @ frontier) False
                else reach_loop p avoid exclude_start (ph # seen)
                       (rev (forward_targets d) @ frontier) False))"
  by pat_completeness auto
termination
  by (relation "measures [\<lambda>(p, a, e, seen, fr, first). if first \<and> e then 1 else 0,
                          \<lambda>(p, a, e, seen, fr, first). card (set (dkeys (phases p)) - set seen),
                          \<lambda>(p, a, e, seen, fr, first). length fr]")
     (auto intro: card_unseen_decreases)

definition reachable_avoiding ::
  "pipeline_policy \<Rightarrow> string list \<Rightarrow> string list \<Rightarrow> bool \<Rightarrow> string list" where
  "reachable_avoiding p starts avoid exclude_start =
     reach_loop p avoid exclude_start [] (rev starts) True"

definition phases_inside_cycle :: "pipeline_policy \<Rightarrow> cycle_timebox_policy \<Rightarrow> string list" where
  "phases_inside_cycle p ct =
     (let pre = [entry_phase p, ct_start_source ct];
          forward = reachable_avoiding p [ct_start_entry ct, ct_guarded_entry ct] pre False
      in filter (\<lambda>ph. ct_guarded_entry ct \<in> set (reachable_avoiding p [ph] pre True)) forward)"

definition cycle_timebox_ends_outside_the_cycle :: "pipeline_policy \<Rightarrow> bool" where
  "cycle_timebox_ends_outside_the_cycle p =
     (case cycle_timebox p of None \<Rightarrow> True
      | Some ct \<Rightarrow> (let inside = phases_inside_cycle p ct
                    in ct_end_entry ct \<notin> set inside \<and> ct_finalization_target ct \<notin> set inside))"

definition phase_declares_edge :: "pipeline_policy \<Rightarrow> string \<Rightarrow> string \<Rightarrow> bool" where
  "phase_declares_edge p src t =
     ((case dget (phases p) src of None \<Rightarrow> False
       | Some d \<Rightarrow>
           on_success (transitions d) = t \<or> on_failure (transitions d) = Some t
           \<or> on_loopback (transitions d) = Some t
           \<or> list_ex (\<lambda>(_, r). dr_target r = t) (decisions d)
           \<or> list_ex (\<lambda>(_, x). x = t) (bypass_routes d)
           \<or> list_ex (\<lambda>(_, x). x = t) (result_status_post_commit d))
      \<or> list_ex (\<lambda>r. when_phase r = src \<and> pc_target r = t) (post_commit_routes p))"

definition cycle_timebox_start_edge_declared :: "pipeline_policy \<Rightarrow> bool" where
  "cycle_timebox_start_edge_declared p =
     (case cycle_timebox p of None \<Rightarrow> True
      | Some ct \<Rightarrow> phase_declares_edge p (ct_start_source ct) (ct_start_entry ct)
          \<and> (case development_timebox p of None \<Rightarrow> True
             | Some dt \<Rightarrow> phase_declares_edge p (dt_start_source dt) (dt_start_entry dt)))"

text \<open>The field constraints (\<^verbatim>\<open>ge=\<close> bounds and the timebox duration validators).\<close>

definition policy_fields_valid :: "pipeline_policy \<Rightarrow> bool" where
  "policy_fields_valid p =
     (list_all (\<lambda>(_, c). 0 \<le> lc_default_max c) (loop_counters p)
      \<and> list_all (\<lambda>(_, c). 0 \<le> bc_default_max c) (budget_counters p)
      \<and> 1 \<le> policy_cycle_cap (recovery p)
      \<and> (case cycle_timebox p of None \<Rightarrow> True | Some ct \<Rightarrow> 0 < ct_duration_seconds ct)
      \<and> (case development_timebox p of None \<Rightarrow> True
         | Some dt \<Rightarrow> 0 < dt_duration_seconds dt \<and> 0 \<le> warning_seconds dt
             \<and> warning_seconds dt < dt_duration_seconds dt))"

definition validate_policy :: "pipeline_policy \<Rightarrow> bool" where
  "validate_policy p =
     (policy_fields_valid p
      \<and> all_transitions_reference_known_phases p
      \<and> entry_phase_exists p
      \<and> no_phase_cycles_without_loopback p
      \<and> post_commit_routes_reference_known_targets p
      \<and> post_commit_routes_unique_conditions p
      \<and> parallelization_targets_non_terminal_phases p
      \<and> decision_routes_target_known_phases p
      \<and> bypass_routes_target_known_phases p
      \<and> result_status_post_commit_targets_known_phases p
      \<and> loop_counter_references_valid p
      \<and> budget_counter_references_valid p
      \<and> workflow_fallback_targets_valid p
      \<and> terminal_failure_phase_valid p
      \<and> cycle_timebox_references_known_phases p
      \<and> development_timebox_references_known_phases p
      \<and> recordable_cycle_outcomes_are_routable p
      \<and> cycle_timebox_ends_outside_the_cycle p
      \<and> cycle_timebox_start_edge_declared p)"

definition effective_retry_policy :: "pipeline_policy \<Rightarrow> string \<Rightarrow> phase_retry_policy" where
  "effective_retry_policy p ph =
     (case dget (phases p) ph of
        Some d \<Rightarrow> (case retry_policy d of Some r \<Rightarrow> r | None \<Rightarrow> default_phase_retry_policy p)
      | None \<Rightarrow> default_phase_retry_policy p)"

section \<open>What validation gives the router\<close>

text \<open>
  Every phase name a validated policy can route to is a known phase.  The router's proofs use
  these facts and never unfold a validator.
\<close>

lemma known_terminal [route_intros]: "known_phase p (terminal_phase p)"
  by (simp add: known_phase_def terminal_states_def terminal_phase_names_def)

lemma known_failed_route [route_intros]: "known_phase p (failed_route (recovery p))"
  by (simp add: known_phase_def terminal_states_def terminal_phase_names_def)

lemma known_declared [route_intros]: "dget (phases p) n = Some d \<Longrightarrow> known_phase p n"
  by (auto simp: known_phase_def)

lemma known_entry [route_intros]: "validate_policy p \<Longrightarrow> known_phase p (entry_phase p)"
  by (simp add: validate_policy_def entry_phase_exists_def known_phase_def)

lemma known_option_Some [simp]: "known_option p (Some t) = known_phase p t"
  by (simp add: known_option_def)

lemma all_phasesD:
  "list_all (\<lambda>(n, d). Q n d) (phases p) \<Longrightarrow> dget (phases p) n = Some d \<Longrightarrow> Q n d"
  by (auto simp: list_all_iff dest: dget_SomeD)

lemma known_on_success [route_intros]:
  assumes "validate_policy p" and "dget (phases p) n = Some d"
  shows "known_phase p (on_success (transitions d))"
  using assms(1) all_phasesD [OF _ assms(2)]
  by (fastforce simp: validate_policy_def all_transitions_reference_known_phases_def)

lemma known_on_failure [route_intros]:
  assumes "validate_policy p" and "dget (phases p) n = Some d" and "on_failure (transitions d) = Some t"
  shows "known_phase p t"
  using assms(1,3) all_phasesD [OF _ assms(2)]
  by (fastforce simp: validate_policy_def all_transitions_reference_known_phases_def)

lemma known_on_loopback [route_intros]:
  assumes "validate_policy p" and "dget (phases p) n = Some d" and "on_loopback (transitions d) = Some t"
  shows "known_phase p t"
  using assms(1,3) all_phasesD [OF _ assms(2)]
  by (fastforce simp: validate_policy_def all_transitions_reference_known_phases_def)

lemma known_decision_target [route_intros]:
  assumes "validate_policy p" and "dget (phases p) n = Some d" and "dget (decisions d) k = Some r"
  shows "known_phase p (dr_target r)"
  using assms(1) all_phasesD [OF _ assms(2)] dict_all_valuesD [OF _ assms(3)]
  by (fastforce simp: validate_policy_def decision_routes_target_known_phases_def)

lemma known_bypass_target [route_intros]:
  assumes "validate_policy p" and "dget (phases p) n = Some d" and "dget (bypass_routes d) k = Some t"
  shows "known_phase p t"
  using assms(1) all_phasesD [OF _ assms(2)] dict_all_valuesD [OF _ assms(3)]
  by (fastforce simp: validate_policy_def bypass_routes_target_known_phases_def)

lemma known_result_status_target [route_intros]:
  assumes "validate_policy p" and "dget (phases p) n = Some d"
    and "dget (result_status_post_commit d) k = Some t"
  shows "known_phase p t"
  using assms(1) all_phasesD [OF _ assms(2)] dict_all_valuesD [OF _ assms(3)]
  by (fastforce simp: validate_policy_def result_status_post_commit_targets_known_phases_def)

lemma known_fallback_target [route_intros]:
  assumes "validate_policy p" and "dget (phases p) n = Some d" and "workflow_fallback d = Some f"
  shows "known_phase p (wf_target f)"
  using assms(1,3) all_phasesD [OF _ assms(2)]
  by (fastforce simp: validate_policy_def workflow_fallback_targets_valid_def)

lemma known_post_commit_target [route_intros]:
  "validate_policy p \<Longrightarrow> r \<in> set (post_commit_routes p) \<Longrightarrow> known_phase p (pc_target r)"
  by (auto simp: validate_policy_def post_commit_routes_reference_known_targets_def list_all_iff)

lemma known_terminal_failure [route_intros]:
  "validate_policy p \<Longrightarrow> terminal_failure_phase (recovery p) = Some t \<Longrightarrow> known_phase p t"
  by (auto simp: validate_policy_def terminal_failure_phase_valid_def known_phase_def
      split: option.splits)

lemma known_cycle_timebox [route_intros]:
  assumes "validate_policy p" and "cycle_timebox p = Some ct"
  shows "known_phase p (ct_finalization_target ct)" and "known_phase p (ct_guarded_entry ct)"
    and "known_phase p (ct_end_entry ct)" and "known_phase p (ct_start_entry ct)"
  using assms by (simp_all add: validate_policy_def cycle_timebox_references_known_phases_def)

lemma known_development_timebox [route_intros]:
  assumes "validate_policy p" and "development_timebox p = Some dt"
  shows "known_phase p (dt_finalization_target dt)" and "known_phase p (dt_guarded_entry dt)"
    and "known_phase p (dt_end_entry dt)" and "known_phase p (dt_start_entry dt)"
  using assms by (simp_all add: validate_policy_def development_timebox_references_known_phases_def)

lemma terminal_failure_is_terminal:
  assumes "validate_policy p" and "terminal_failure_phase (recovery p) = Some t"
  shows "\<exists>d. dget (phases p) t = Some d \<and> role d = Some Terminal
           \<and> terminal_outcome d = Some ''failure''"
  using assms by (auto simp: validate_policy_def terminal_failure_phase_valid_def split: option.splits)

lemma default_max_nonneg:
  "validate_policy p \<Longrightarrow> dget (loop_counters p) k = Some c \<Longrightarrow> 0 \<le> lc_default_max c"
  by (auto simp: validate_policy_def policy_fields_valid_def dest: dict_all_valuesD)

lemma loop_field_declared:
  assumes "validate_policy p" and "dget (phases p) n = Some d" and "loop_policy d = Some lp"
    and "loop_counters p \<noteq> []"
  shows "din (iteration_state_field lp) (loop_counters p)"
  using assms(1,3,4) all_phasesD [OF _ assms(2)]
  by (fastforce simp: validate_policy_def loop_counter_references_valid_def)

section \<open>The cycle walk computes reachability\<close>

text \<open>
  \<open>walk p avoid x y\<close>: the walk may expand \<open>x\<close> (a declared phase it does not avoid) and one
  of \<open>x\<close>'s success or decision edges leads to \<open>y\<close>, which it may expand as well.
\<close>

definition walkable :: "pipeline_policy \<Rightarrow> string list \<Rightarrow> string \<Rightarrow> bool" where
  "walkable p avoid x = (x \<notin> set avoid \<and> din x (phases p))"

definition walk :: "pipeline_policy \<Rightarrow> string list \<Rightarrow> string \<Rightarrow> string \<Rightarrow> bool" where
  "walk p avoid x y =
     (walkable p avoid x \<and> walkable p avoid y
      \<and> (case dget (phases p) x of None \<Rightarrow> False | Some d \<Rightarrow> y \<in> set (forward_targets d)))"

lemma walkable_dget: "walkable p avoid x \<Longrightarrow> \<exists>d. dget (phases p) x = Some d"
  by (auto simp: walkable_def din_def)

lemma walk_iff:
  "dget (phases p) x = Some d \<Longrightarrow> x \<notin> set avoid \<Longrightarrow>
   walk p avoid x y \<longleftrightarrow> walkable p avoid y \<and> y \<in> set (forward_targets d)"
  by (auto simp: walk_def walkable_def)

text \<open>
  The loop invariant: what has been seen is walkable, and every successor of a seen phase is
  seen or waiting on the stack.
\<close>

definition dfs_inv :: "pipeline_policy \<Rightarrow> string list \<Rightarrow> string list \<Rightarrow> string list \<Rightarrow> bool" where
  "dfs_inv p avoid seen frontier =
     ((\<forall>x\<in>set seen. walkable p avoid x)
      \<and> (\<forall>x y. x \<in> set seen \<longrightarrow> walk p avoid x y \<longrightarrow> y \<in> set seen \<union> set frontier))"

lemma reach_loop_closed:
  assumes "dfs_inv p avoid seen frontier" and "\<not> (first \<and> e)"
  shows "set (reach_loop p avoid e seen frontier first)
       = {y. \<exists>x\<in>{x \<in> set seen \<union> set frontier. walkable p avoid x}. (walk p avoid)\<^sup>*\<^sup>* x y}"
  using assms
proof (induction p avoid e seen frontier first rule: reach_loop.induct)
  case (1 p avoid e seen first)
  have "y \<in> set seen" if "(walk p avoid)\<^sup>*\<^sup>* x y" and "x \<in> set seen" for x y
    using that by (induction rule: rtranclp_induct) (use 1 in \<open>auto simp: dfs_inv_def\<close>)
  then show ?case using 1 by (auto simp: dfs_inv_def)
next
  case (2 p avoid e seen ph frontier first)
  consider "\<not> walkable p avoid ph" | "walkable p avoid ph" "ph \<in> set seen"
    | d where "walkable p avoid ph" "ph \<notin> set seen" "dget (phases p) ph = Some d"
    using walkable_dget by blast
  then show ?case
  proof cases
    case 1
    then have skip: "ph \<in> set avoid \<or> \<not> din ph (phases p)" by (auto simp: walkable_def)
    have "dfs_inv p avoid seen frontier"
      using 2(5) 1 by (auto simp: dfs_inv_def walk_def)
    then show ?thesis using 2(1) [OF skip] skip 1 by auto
  next
    case c: 2
    have "dfs_inv p avoid seen frontier" using 2(5) c by (auto simp: dfs_inv_def)
    then show ?thesis using 2(2) 2(6) c by (auto simp: walkable_def)
  next
    case c: 3
    let ?fr = "rev (forward_targets d) @ frontier"
    have nskip: "\<not> (ph \<in> set avoid \<or> \<not> din ph (phases p))" using c by (auto simp: walkable_def)
    have inv: "dfs_inv p avoid (ph # seen) ?fr"
      using 2(5) c by (auto simp: dfs_inv_def walk_def)
    have step: "reach_loop p avoid e seen (ph # frontier) first = reach_loop p avoid e (ph # seen) ?fr False"
      using nskip c 2(6) by auto
    have IH: "set (reach_loop p avoid e (ph # seen) ?fr False)
       = {y. \<exists>x\<in>{x \<in> set (ph # seen) \<union> set ?fr. walkable p avoid x}. (walk p avoid)\<^sup>*\<^sup>* x y}"
      using 2(4) [OF nskip c(2,3) _ inv] 2(6) by blast
    have "walk p avoid ph x" if "x \<in> set (forward_targets d)" "walkable p avoid x" for x
      using that c by (auto simp: walk_def)
    then have "\<exists>x\<in>{x \<in> set seen \<union> set (ph # frontier). walkable p avoid x}. (walk p avoid)\<^sup>*\<^sup>* x y"
      if "x \<in> set (ph # seen) \<union> set ?fr" "walkable p avoid x" "(walk p avoid)\<^sup>*\<^sup>* x y" for x y
      using that c(1) by (auto intro: converse_rtranclp_into_rtranclp)
    then show ?thesis unfolding step IH by auto
  qed
qed

lemma set_reachable_avoiding:
  "set (reachable_avoiding p starts avoid False)
   = {y. \<exists>x\<in>set starts. walkable p avoid x \<and> (walk p avoid)\<^sup>*\<^sup>* x y}"
proof -
  have "dfs_inv p avoid [] (rev starts)" by (simp add: dfs_inv_def)
  from reach_loop_closed [OF this] show ?thesis
    by (auto simp: reachable_avoiding_def)
qed

text \<open>With the start excluded the walk collects what one or more edges reach.\<close>

lemma set_reachable_excluding_start:
  assumes "walkable p avoid x"
  shows "set (reachable_avoiding p [x] avoid True) = {y. (walk p avoid)\<^sup>+\<^sup>+ x y}"
proof -
  obtain d where d: "dget (phases p) x = Some d" using walkable_dget assms by blast
  have x: "x \<notin> set avoid" "din x (phases p)" using assms by (auto simp: walkable_def)
  have "reachable_avoiding p [x] avoid True
        = reach_loop p avoid True [] (rev (forward_targets d)) False"
    using x d by (simp add: reachable_avoiding_def)
  moreover have "dfs_inv p avoid [] (rev (forward_targets d))" by (simp add: dfs_inv_def)
  ultimately have "set (reachable_avoiding p [x] avoid True)
      = {y. \<exists>z. walk p avoid x z \<and> (walk p avoid)\<^sup>*\<^sup>* z y}"
    using reach_loop_closed [of p avoid "[]" "rev (forward_targets d)" False True] walk_iff [OF d x(1)]
    by auto
  then show ?thesis by (auto simp: tranclp_unfold_left)
qed

text \<open>
  the set of phases the cycle-timebox validator collects by depth-first search is the set
  it means: the phases that the cycle's entry reaches over success and decision edges without
  passing the pre-cycle phases, and from which one or more such edges lead back to the guarded
  entry.
\<close>

theorem phases_inside_cycle_walk:
  "set (phases_inside_cycle p ct)
   = {x. (\<exists>s\<in>{ct_start_entry ct, ct_guarded_entry ct}.
            walkable p [entry_phase p, ct_start_source ct] s
            \<and> (walk p [entry_phase p, ct_start_source ct])\<^sup>*\<^sup>* s x)
         \<and> (walk p [entry_phase p, ct_start_source ct])\<^sup>+\<^sup>+ x (ct_guarded_entry ct)}"
proof -
  let ?pre = "[entry_phase p, ct_start_source ct]"
  have "walkable p ?pre x" if "walkable p ?pre s" "(walk p ?pre)\<^sup>*\<^sup>* s x" for s x
    using that(2,1) by (induction rule: rtranclp_induct) (auto simp: walk_def)
  then show ?thesis
    by (auto simp: phases_inside_cycle_def Let_def set_reachable_avoiding
        set_reachable_excluding_start)
qed

end
