(* ===== verification/Rebase_State.thy ===== *)
theory Rebase_State
  imports Prelude
begin

text \<open>
  The persisted integration state (\<^verbatim>\<open>ralph/pipeline/rebase_state.py\<close>,
  \<^verbatim>\<open>_rebase_outcome_kind.py\<close>): the closed vocabulary of outcomes, the single-writer setters,
  the derived predicates the pipeline authorities read and the display projection.  The frozen
  pydantic model becomes a record and \<^verbatim>\<open>model_copy(update=...)\<close> a record update (it runs no
  validator).  Fields that only remote synchronisation and reporting read (push and refresh
  summaries, freshness, reclamation, conflict identity, legacy file lists) are left out.  The
  string-valued enums a checkpoint stores as text stay strings, with their values written out.
\<close>

section \<open>Outcome kinds\<close>

datatype rebase_outcome_kind =
    Rebased | Merged | Fast_forwarded | Skipped | Conflict | Recovered | Diagnosing
  | Evidence_diagnosis | Intervention_required | Diagnostic_intervention_required
  | Ladder_escalation | Terminal_outcome | Completed | Remote_pushed | Remote_failed | Integrating
  | Landing | Publishing | Conflict_resolution | Waiting | Unknown

definition all_outcome_kinds :: "rebase_outcome_kind list" where
  "all_outcome_kinds =
     [Rebased, Merged, Fast_forwarded, Skipped, Conflict, Recovered, Diagnosing, Evidence_diagnosis,
      Intervention_required, Diagnostic_intervention_required, Ladder_escalation, Terminal_outcome,
      Completed, Remote_pushed, Remote_failed, Integrating, Landing, Publishing, Conflict_resolution,
      Waiting, Unknown]"

fun outcome_value :: "rebase_outcome_kind \<Rightarrow> string" where
  "outcome_value Rebased = ''rebased''"
| "outcome_value Merged = ''merged''"
| "outcome_value Fast_forwarded = ''fast_forwarded''"
| "outcome_value Skipped = ''skipped''"
| "outcome_value Conflict = ''conflict''"
| "outcome_value Recovered = ''recovered''"
| "outcome_value Diagnosing = ''diagnosing''"
| "outcome_value Evidence_diagnosis = ''evidence_diagnosis''"
| "outcome_value Intervention_required = ''intervention_required''"
| "outcome_value Diagnostic_intervention_required = ''diagnostic_intervention_required''"
| "outcome_value Ladder_escalation = ''ladder_escalation''"
| "outcome_value Terminal_outcome = ''terminal''"
| "outcome_value Completed = ''completed''"
| "outcome_value Remote_pushed = ''remote_pushed''"
| "outcome_value Remote_failed = ''remote_failed''"
| "outcome_value Integrating = ''integrating''"
| "outcome_value Landing = ''landing''"
| "outcome_value Publishing = ''publishing''"
| "outcome_value Conflict_resolution = ''conflict_resolution''"
| "outcome_value Waiting = ''waiting''"
| "outcome_value Unknown = ''unknown''"

definition outcome_is_terminal :: "rebase_outcome_kind \<Rightarrow> bool" where
  "outcome_is_terminal k = (k \<in> {Terminal_outcome, Completed, Remote_pushed})"

definition from_legacy :: "string option \<Rightarrow> rebase_outcome_kind option" where
  "from_legacy action = (case action of
     None \<Rightarrow> None
   | Some a \<Rightarrow>
       (let normalized = lower (strip a)
        in if normalized = ''fast_forward'' then Some Fast_forwarded
           else case find (\<lambda>k. outcome_value k = normalized) all_outcome_kinds of
             Some k \<Rightarrow> Some k | None \<Rightarrow> Some Unknown))"

section \<open>The state\<close>

datatype startup_retention_reason =
    Failed_abort | Failed_reset | Target_pointer_unrefreshable | Transient_fast_forward_failure
  | Owned_target_precondition_failed | Owned_operation_identity_mismatch
  | Remote_reconcile_retained | Observed_retained_on_disk

record rebase_state =
  last_outcome :: "rebase_outcome_kind option"
  last_reason :: "string option"
  last_target :: "string option"
  fast_forwarded :: bool
  consecutive_conflicts :: int
  integration_retry_attempt :: nat
  retry_deadline :: "real option"
  resolving_rebase :: bool
  resolving_merge :: bool
  diagnostic_ownership :: "string option"
  recovery_record_retained :: bool
  recovery_record_retained_reason :: "startup_retention_reason option"
  resolution_exhausted :: bool
  resolution_exhaustion_reason :: "string option"
  conflict_strategy_index :: nat
  conflict_strategies_tried :: "string list"
  unresolved_integration_carried :: bool
  last_planning_obstruction :: "string option"
  last_decision :: "string option"
  last_publication_decision :: "string option"
  last_fan_out_decision :: "string option"
  operation_display_state :: "string option"
  legacy_checkpoint_blocked :: bool

definition new_rebase_state :: rebase_state where
  "new_rebase_state =
     \<lparr>last_outcome = None, last_reason = None, last_target = None, fast_forwarded = False,
      consecutive_conflicts = 0, integration_retry_attempt = 0, retry_deadline = None, resolving_rebase = False,
      resolving_merge = False, diagnostic_ownership = None, recovery_record_retained = False,
      recovery_record_retained_reason = None, resolution_exhausted = False,
      resolution_exhaustion_reason = None, conflict_strategy_index = 0,
      conflict_strategies_tried = [], unresolved_integration_carried = False, last_planning_obstruction = None, last_decision = None,
      last_publication_decision = None, last_fan_out_decision = None,
      operation_display_state = None, legacy_checkpoint_blocked = False\<rparr>"

definition last_action :: "rebase_state \<Rightarrow> string option" where
  "last_action r = map_option outcome_value (last_outcome r)"

text \<open>
  \<^verbatim>\<open>_coerce_legacy_action\<close>, with the enum validation pydantic runs on its result:
  \<open>last_action\<close> is absent (\<open>None\<close>) or present with a possibly null value.
\<close>

definition validate_outcome :: "string option \<Rightarrow> rebase_outcome_kind option res" where
  "validate_outcome raw = (case raw of
     None \<Rightarrow> Inr None
   | Some t \<Rightarrow> (case find (\<lambda>k. outcome_value k = t) all_outcome_kinds of
       Some k \<Rightarrow> Inr (Some k)
     | None \<Rightarrow> Inl (ValueError ''last_outcome is not a valid RebaseOutcomeKind'')))"

definition coerce_legacy_action ::
  "string option option \<Rightarrow> string option \<Rightarrow> rebase_outcome_kind option res" where
  "coerce_legacy_action raw_action raw_outcome =
     (case (raw_action, raw_outcome) of
        (Some action, None) \<Rightarrow> Inr (from_legacy action)
      | (Some (Some action), Some out) \<Rightarrow>
          (let a = from_legacy (Some action); b = from_legacy (Some out)
           in if a = Some Unknown \<or> b = Some Unknown \<or> a \<noteq> b then Inr (Some Unknown) else Inr b)
      | (_, Some out) \<Rightarrow>
          if from_legacy (Some out) = Some Unknown then Inr (Some Unknown)
          else validate_outcome (Some out)
      | (None, None) \<Rightarrow> Inr None)"

section \<open>Derived predicates\<close>

definition integration_unresolved :: "rebase_state \<Rightarrow> bool" where
  "integration_unresolved r =
     ((case last_outcome r of None \<Rightarrow> False
       | Some k \<Rightarrow> k \<in> {Conflict, Unknown, Ladder_escalation, Intervention_required,
                       Diagnostic_intervention_required})
      \<or> recovery_record_retained r \<or> legacy_checkpoint_blocked r
      \<or> unresolved_integration_carried r \<or> resolving_rebase r \<or> resolving_merge r
      \<or> truthy (diagnostic_ownership r))"

definition is_intervention_required :: "rebase_state \<Rightarrow> bool" where
  "is_intervention_required r = (case last_outcome r of None \<Rightarrow> False
     | Some k \<Rightarrow> k \<in> {Intervention_required, Diagnostic_intervention_required, Ladder_escalation, Unknown})"

definition is_terminal_action :: "rebase_state \<Rightarrow> bool" where
  "is_terminal_action r = (case last_outcome r of None \<Rightarrow> False | Some k \<Rightarrow> outcome_is_terminal k)"

definition is_diagnostic_action :: "rebase_state \<Rightarrow> bool" where
  "is_diagnostic_action r = (case last_outcome r of None \<Rightarrow> False
     | Some k \<Rightarrow> k \<in> {Diagnosing, Evidence_diagnosis, Diagnostic_intervention_required})"

definition is_rebasing_or_merging :: "rebase_state \<Rightarrow> bool" where
  "is_rebasing_or_merging r = (last_outcome r = Some Rebased \<or> last_outcome r = Some Merged)"

definition is_conflict_resolution :: "rebase_state \<Rightarrow> bool" where
  "is_conflict_resolution r = (last_outcome r = Some Conflict \<or> resolving_rebase r \<or> resolving_merge r)"

definition is_landing :: "rebase_state \<Rightarrow> bool" where
  "is_landing r =
     ((is_rebasing_or_merging r \<and> \<not> fast_forwarded r)
      \<or> ((case last_outcome r of None \<Rightarrow> False
          | Some k \<Rightarrow> k \<in> {Rebased, Merged, Fast_forwarded, Skipped, Remote_pushed}) \<and> fast_forwarded r))"

definition is_skipped :: "rebase_state \<Rightarrow> bool" where
  "is_skipped r = (last_outcome r = Some Skipped)"

definition is_evidence_diagnosis :: "rebase_state \<Rightarrow> bool" where
  "is_evidence_diagnosis r =
     (last_outcome r = Some Diagnosing \<or> last_outcome r = Some Evidence_diagnosis
      \<or> truthy (diagnostic_ownership r) \<or> recovery_record_retained r)"

section \<open>Setters\<close>

definition set_recovery_record_retained :: "startup_retention_reason \<Rightarrow> rebase_state \<Rightarrow> rebase_state" where
  "set_recovery_record_retained why r =
     r\<lparr>recovery_record_retained := True, recovery_record_retained_reason := Some why\<rparr>"

definition clear_recovery_record_retained :: "rebase_state \<Rightarrow> rebase_state" where
  "clear_recovery_record_retained r =
     r\<lparr>recovery_record_retained := False, recovery_record_retained_reason := None\<rparr>"

datatype publication_decision =
    Publication_pending | Publish_now | Publish_deferred_freshness | Publish_deferred_remote
  | Publication_terminal | Publication_blocked

fun publication_value :: "publication_decision \<Rightarrow> string" where
  "publication_value Publication_pending = ''publication_pending''"
| "publication_value Publish_now = ''publish_now''"
| "publication_value Publish_deferred_freshness = ''publish_deferred_freshness''"
| "publication_value Publish_deferred_remote = ''publish_deferred_remote''"
| "publication_value Publication_terminal = ''publication_terminal''"
| "publication_value Publication_blocked = ''publication_blocked''"

definition set_publication_decision :: "publication_decision \<Rightarrow> rebase_state \<Rightarrow> rebase_state" where
  "set_publication_decision v r = r\<lparr>last_publication_decision := Some (publication_value v)\<rparr>"

datatype fan_out_decision_kind = Join_pending | Join_complete | Join_partial_failure | Join_blocked

fun fan_out_value :: "fan_out_decision_kind \<Rightarrow> string" where
  "fan_out_value Join_pending = ''join_pending''"
| "fan_out_value Join_complete = ''join_complete''"
| "fan_out_value Join_partial_failure = ''join_partial_failure''"
| "fan_out_value Join_blocked = ''join_blocked''"

definition set_fan_out_decision :: "fan_out_decision_kind \<Rightarrow> rebase_state \<Rightarrow> rebase_state" where
  "set_fan_out_decision v r = r\<lparr>last_fan_out_decision := Some (fan_out_value v)\<rparr>"

definition set_retry_deadline :: "real option \<Rightarrow> rebase_state \<Rightarrow> rebase_state" where
  "set_retry_deadline v r = r\<lparr>retry_deadline := v\<rparr>"

definition max_tracked_conflict_attempts :: int where
  "max_tracked_conflict_attempts = 64"

definition record_consecutive_conflicts :: "int option \<Rightarrow> int option \<Rightarrow> rebase_state \<Rightarrow> rebase_state" where
  "record_consecutive_conflicts v cap r =
     (let effective_cap = (case cap of None \<Rightarrow> max_tracked_conflict_attempts | Some c \<Rightarrow> max 1 c);
          coerced = (case v of None \<Rightarrow> 0 | Some x \<Rightarrow> x)
      in r\<lparr>consecutive_conflicts := max 0 (min coerced effective_cap)\<rparr>)"

definition conflict_resolution_strategies :: "string list" where
  "conflict_resolution_strategies =
     [''rebase_resolver'', ''refresh_retry'', ''merge_instead'', ''resolver_with_history'']"

definition advance_conflict_strategy :: "string \<Rightarrow> rebase_state \<Rightarrow> rebase_state" where
  "advance_conflict_strategy why r =
     (let n = length conflict_resolution_strategies;
          i = conflict_strategy_index r;
          tried = (if i < n then conflict_strategies_tried r @ [conflict_resolution_strategies ! i @ '': '' @ why]
                   else conflict_strategies_tried r);
          i' = (if i < n then Suc i else i)
      in r\<lparr>conflict_strategy_index := i', conflict_strategies_tried := tried,
           resolution_exhausted := n \<le> i',
           resolution_exhaustion_reason := (if n \<le> i' then Some (join_str ''; '' tried) else None)\<rparr>)"

definition project_conflict_strategy_from :: "rebase_state \<Rightarrow> rebase_state \<Rightarrow> rebase_state" where
  "project_conflict_strategy_from src r =
     r\<lparr>conflict_strategy_index := conflict_strategy_index src,
       conflict_strategies_tried := conflict_strategies_tried src,
       resolution_exhausted := resolution_exhausted src,
       resolution_exhaustion_reason := resolution_exhaustion_reason src\<rparr>"

definition clear_conflict_strategy :: "rebase_state \<Rightarrow> rebase_state" where
  "clear_conflict_strategy r =
     r\<lparr>conflict_strategy_index := 0, conflict_strategies_tried := [], resolution_exhausted := False,
       resolution_exhaustion_reason := None\<rparr>"

definition clear_resolution_exhausted :: "rebase_state \<Rightarrow> rebase_state" where
  "clear_resolution_exhausted r = r\<lparr>resolution_exhausted := False, resolution_exhaustion_reason := None\<rparr>"

definition set_ladder_escalation :: "string \<Rightarrow> rebase_state \<Rightarrow> rebase_state" where
  "set_ladder_escalation why r = r\<lparr>last_outcome := Some Ladder_escalation, last_reason := Some why\<rparr>"

section \<open>The display projection\<close>

definition decision_display_map :: "string dict" where
  "decision_display_map =
     [(''report_terminal_success'', ''terminal''), (''report_terminal_failure'', ''terminal''),
      (''report_intervention_required'', ''intervention_required'')]"

fun outcome_display :: "rebase_outcome_kind \<Rightarrow> string option" where
  "outcome_display Integrating = Some ''integrating''"
| "outcome_display Waiting = Some ''waiting''"
| "outcome_display Diagnosing = Some ''evidence_diagnosis''"
| "outcome_display Evidence_diagnosis = Some ''evidence_diagnosis''"
| "outcome_display Intervention_required = Some ''intervention_required''"
| "outcome_display Diagnostic_intervention_required = Some ''intervention_required''"
| "outcome_display Ladder_escalation = Some ''evidence_diagnosis''"
| "outcome_display Terminal_outcome = Some ''terminal''"
| "outcome_display Completed = Some ''terminal''"
| "outcome_display _ = None"

definition publishing_decisions :: "string list" where
  "publishing_decisions =
     [''publish_now'', ''publishing'', ''publish_deferred_remote'', ''publish_deferred_freshness'']"

definition decision_display_state :: "rebase_state \<Rightarrow> string option" where
  "decision_display_state r =
     (case (case last_decision r of None \<Rightarrow> None | Some d \<Rightarrow> dget decision_display_map d) of
        Some t \<Rightarrow> Some t
      | None \<Rightarrow>
          if is_evidence_diagnosis r then Some ''evidence_diagnosis''
          else if is_conflict_resolution r then Some ''conflict_resolution''
          else (case last_publication_decision r of
              None \<Rightarrow> None
            | Some d \<Rightarrow> if d = ''publication_terminal'' then Some ''terminal''
                       else if d \<in> set publishing_decisions then Some ''publishing'' else None))"

definition prose_display_state :: "rebase_state \<Rightarrow> string option" where
  "prose_display_state r =
     (if is_landing r then Some ''landing''
      else if is_terminal_action r then Some ''terminal''
      else (case last_outcome r of None \<Rightarrow> None | Some k \<Rightarrow> outcome_display k))"

definition resolve_operation_display_state :: "rebase_state \<Rightarrow> string option" where
  "resolve_operation_display_state r =
     (case decision_display_state r of Some t \<Rightarrow> Some t | None \<Rightarrow> prose_display_state r)"

definition populate_operation_display_state :: "rebase_state \<Rightarrow> rebase_state" where
  "populate_operation_display_state r =
     (let r1 = (if last_decision r = None
                   \<and> (last_outcome r = Some Ladder_escalation
                      \<or> integration_unresolved r \<or> recovery_record_retained r)
                then r\<lparr>last_decision := Some ''block_for_recovery''\<rparr> else r)
      in if operation_display_state r1 = None
           then (case resolve_operation_display_state r1 of
               Some t \<Rightarrow> r1\<lparr>operation_display_state := Some t\<rparr> | None \<Rightarrow> r1)
         else r1)"

section \<open>The conflict ladder\<close>

text \<open>The ladder invariant: one history line per rung taken, in ladder order.\<close>

definition ladder_inv :: "rebase_state \<Rightarrow> bool" where
  "ladder_inv r =
     (conflict_strategy_index r \<le> length conflict_resolution_strategies
      \<and> length (conflict_strategies_tried r) = conflict_strategy_index r
      \<and> (\<forall>i<conflict_strategy_index r. take (length (conflict_resolution_strategies ! i))
           (conflict_strategies_tried r ! i) = conflict_resolution_strategies ! i))"

lemma advance_keeps_ladder_inv:
  assumes "ladder_inv r"
  shows "ladder_inv (advance_conflict_strategy why r)"
  using assms
  by (auto simp: ladder_inv_def advance_conflict_strategy_def Let_def nth_append less_Suc_eq)

lemma advance_index:
  "conflict_strategy_index (advance_conflict_strategy why r)
   = (if conflict_strategy_index r < 4 then Suc (conflict_strategy_index r) else conflict_strategy_index r)"
  by (simp add: advance_conflict_strategy_def Let_def conflict_resolution_strategies_def)

lemma advance_exhausted:
  "resolution_exhausted (advance_conflict_strategy why r) \<longleftrightarrow> 3 \<le> conflict_strategy_index r"
  by (auto simp: advance_conflict_strategy_def Let_def conflict_resolution_strategies_def)

definition advance_all :: "string list \<Rightarrow> rebase_state \<Rightarrow> rebase_state" where
  "advance_all whys r = foldl (\<lambda>r w. advance_conflict_strategy w r) r whys"

lemma advance_all_snoc [simp]:
  "advance_all [] r = r"
  "advance_all (ws @ [w]) r = advance_conflict_strategy w (advance_all ws r)"
  by (simp_all add: advance_all_def)

lemma advance_all_index:
  assumes "conflict_strategy_index r \<le> 4"
  shows "conflict_strategy_index (advance_all ws r) = min 4 (conflict_strategy_index r + length ws)"
  using assms by (induction ws rule: rev_induct) (auto simp: advance_index)

lemma advance_all_inv: "ladder_inv r \<Longrightarrow> ladder_inv (advance_all ws r)"
  by (induction ws rule: rev_induct) (auto simp: advance_keeps_ladder_inv)

text \<open>
  the conflict-resolution ladder is finite and tries every strategy once.  From a fresh
  ladder, any run of advances keeps one history line per rung in ladder order, the ladder is
  exhausted exactly from the fourth advance on, and an exhausted ladder stays exhausted with
  its index at the cap.
\<close>

theorem conflict_ladder_terminates:
  assumes "conflict_strategy_index r = 0" and "conflict_strategies_tried r = []" and "ws \<noteq> []"
  shows "ladder_inv (advance_all ws r)
    \<and> conflict_strategy_index (advance_all ws r) = min 4 (length ws)
    \<and> (resolution_exhausted (advance_all ws r) \<longleftrightarrow> 4 \<le> length ws)"
proof -
  have inv: "ladder_inv r" using assms by (simp add: ladder_inv_def)
  obtain ws' w where ws: "ws = ws' @ [w]" using assms(3) by (metis rev_exhaust)
  have "conflict_strategy_index (advance_all ws' r) = min 4 (length ws')"
    using advance_all_index [of r ws'] assms(1) by simp
  then have "resolution_exhausted (advance_all ws r) \<longleftrightarrow> 4 \<le> length ws"
    by (auto simp: ws advance_exhausted)
  then show ?thesis
    using advance_all_inv [OF inv] advance_all_index [of r ws] assms(1) by simp
qed

theorem conflict_ladder_terminates_witness:
  "resolution_exhausted (advance_all [''a'', ''b'', ''c'', ''d''] new_rebase_state)
   \<and> \<not> resolution_exhausted (advance_all [''a'', ''b'', ''c''] new_rebase_state)"
  using conflict_ladder_terminates [of new_rebase_state "[''a'', ''b'', ''c'', ''d'']"]
    conflict_ladder_terminates [of new_rebase_state "[''a'', ''b'', ''c'']"]
  by (simp add: new_rebase_state_def)

text \<open>
  a checkpoint whose \<open>last_outcome\<close> uses a spelling the legacy reader accepts is still
  rejected.  \<open>from_legacy\<close> maps the legacy verb \<^verbatim>\<open>fast_forward\<close> to \<open>Fast_forwarded\<close>, and the
  migration validator recognises it under \<open>last_action\<close>; under \<open>last_outcome\<close> the recognised kind
  is dropped and the raw text fails the enum validation.
\<close>

theorem legacy_outcome_spelling_rejected:
  "from_legacy (Some ''fast_forward'') = Some Fast_forwarded
   \<and> coerce_legacy_action (Some (Some ''fast_forward'')) None = Inr (Some Fast_forwarded)
   \<and> coerce_legacy_action None (Some ''fast_forward'')
       = Inl (ValueError ''last_outcome is not a valid RebaseOutcomeKind'')"
  by code_simp

end
