(* ===== verification/Pipeline_State.thy ===== *)
theory Pipeline_State
  imports Policy Rebase_State
begin

text \<open>
  The pipeline state and the messages that drive it: \<^verbatim>\<open>PipelineState\<close> with its sub-models
  (\<^verbatim>\<open>ralph/pipeline/state.py\<close>, \<^verbatim>\<open>agent_chain_state.py\<close>, \<^verbatim>\<open>commit_state.py\<close>,
  \<^verbatim>\<open>run_metrics.py\<close>, \<^verbatim>\<open>worker_state.py\<close>, \<^verbatim>\<open>agent_retry_intent.py\<close>, \<^verbatim>\<open>fallover_record.py\<close>),
  the events (\<^verbatim>\<open>ralph/pipeline/events\<close>) and the effects (\<^verbatim>\<open>ralph/pipeline/effects\<close>) the
  reducer exchanges.

  The frozen models are records; \<^verbatim>\<open>copy_with\<close> is a record update except for the two fields it
  guards: a non-empty \<open>work_units\<close> is never replaced, and \<open>fallover_history\<close> is trimmed to the
  recovery cycle cap.  Counters that start at zero and are only incremented are naturals;
  counters a checkpoint or a policy may set (loop iterations, budgets, caps) are integers.
  Datetimes are their ISO texts.  Only the effects the modelled components emit are listed.
\<close>

section \<open>Sub-models\<close>

record agent_chain_state =
  agents :: "string list"
  current_index :: nat
  retries :: nat

definition with_retry_increment :: "agent_chain_state \<Rightarrow> agent_chain_state" where
  "with_retry_increment ch = ch\<lparr>retries := retries ch + 1\<rparr>"

definition with_advance :: "agent_chain_state \<Rightarrow> agent_chain_state" where
  "with_advance ch = ch\<lparr>current_index := current_index ch + 1, retries := 0\<rparr>"

record commit_state =
  message_prepared :: bool
  diff_prepared :: bool
  agent_invoked :: bool

definition new_commit_state :: commit_state where
  "new_commit_state = \<lparr>message_prepared = False, diff_prepared = False, agent_invoked = False\<rparr>"

record run_metrics =
  total_agent_calls :: nat
  total_continuations :: nat
  total_fallbacks :: nat
  total_retries :: nat

definition metrics_retry_increment :: "run_metrics \<Rightarrow> run_metrics" where
  "metrics_retry_increment m = m\<lparr>total_retries := total_retries m + 1\<rparr>"

definition metrics_fallback_increment :: "run_metrics \<Rightarrow> run_metrics" where
  "metrics_fallback_increment m = m\<lparr>total_fallbacks := total_fallbacks m + 1\<rparr>"

definition metrics_continuation_increment :: "run_metrics \<Rightarrow> run_metrics" where
  "metrics_continuation_increment m = m\<lparr>total_continuations := total_continuations m + 1\<rparr>"

datatype worker_status = W_PENDING | W_RUNNING | W_SUCCEEDED | W_FAILED | W_CANCELLED

record worker_state =
  worker_unit_id :: string
  status :: worker_status
  started_at :: "string option"
  finished_at :: "string option"
  exit_code :: "int option"
  error_message :: "string option"

definition new_worker_state :: "string \<Rightarrow> worker_state" where
  "new_worker_state u = \<lparr>worker_unit_id = u, status = W_PENDING, started_at = None, finished_at = None,
     exit_code = None, error_message = None\<rparr>"

record work_unit =
  unit_id :: string
  description :: string
  allowed_directories :: "string list"
  paths :: "string list"
  dependencies :: "string list"
  step_ids :: "string list"

datatype failure_category =
    Cat_integration | Cat_environmental | Cat_agent | Cat_user_config | Cat_artifact_validation | Cat_ambiguous

fun category_value :: "failure_category \<Rightarrow> string" where
  "category_value Cat_integration = ''integration''"
| "category_value Cat_environmental = ''environmental''"
| "category_value Cat_agent = ''agent''"
| "category_value Cat_user_config = ''user_config''"
| "category_value Cat_artifact_validation = ''artifact_validation''"
| "category_value Cat_ambiguous = ''ambiguous''"

datatype wait_reason_kind = ALL_AGENTS_UNAVAILABLE | EXHAUSTED_RETRY | COOLDOWN

datatype retry_action = Fresh | Resume | New_session_with_id

datatype broken_agent_kind = No_output | Prompt_echo | No_llm_activity

record agent_retry_intent =
  action :: "retry_action option"
  session_id :: "string option"
  reset_tool_registry :: bool
  failure_reason :: string
  skip_same_agent_retries :: bool
  failed_agent_name :: "string option"
  broken_agent_reason :: "broken_agent_kind option"
  broken_agent_returncode :: "int option"
  broken_agent_stderr :: string

definition cleared_agent_retry_intent :: agent_retry_intent where
  "cleared_agent_retry_intent =
     \<lparr>action = None, session_id = None, reset_tool_registry = False, failure_reason = [],
      skip_same_agent_retries = False, failed_agent_name = None, broken_agent_reason = None,
      broken_agent_returncode = None, broken_agent_stderr = []\<rparr>"

text \<open>The model validator of \<^verbatim>\<open>AgentRetryIntent\<close>: an intent either is built or raises.\<close>

definition new_agent_retry_intent :: "agent_retry_intent \<Rightarrow> agent_retry_intent res" where
  "new_agent_retry_intent i =
     (if (action i = Some Resume \<or> action i = Some New_session_with_id) \<and> \<not> truthy (session_id i)
        then Inl (RuntimeError ''AgentRetryIntent action requires session_id'')
      else if action i = None \<and> session_id i \<noteq> None
        then Inl (RuntimeError ''AgentRetryIntent with action=None must not carry session_id'')
      else Inr i)"

definition resume_agent_retry_intent :: "string \<Rightarrow> string \<Rightarrow> bool \<Rightarrow> agent_retry_intent res" where
  "resume_agent_retry_intent sid why reset =
     new_agent_retry_intent (cleared_agent_retry_intent
       \<lparr>action := Some Resume, session_id := Some sid, reset_tool_registry := reset, failure_reason := why\<rparr>)"

record fallover_record =
  fo_phase :: string
  from_agent :: string
  to_agent :: string
  timestamp_iso :: string

record phase_timing_record =
  timing_phase :: string
  timing_iteration :: int
  timing_started_at :: real
  timing_elapsed :: real
  timing_elapsed_seconds :: int

section \<open>The pipeline state\<close>

record pstate =
  phase :: string
  previous_phase :: "string option"
  integration_commit_resume_phase :: "string option"
  review_outcome :: "string option"
  phase_chains :: "agent_chain_state dict"
  loop_iterations :: "int dict"
  budget_caps :: "int dict"
  outer_progress :: "int dict"
  rebase :: rebase_state
  commit :: commit_state
  metrics :: run_metrics
  checkpoint_saved_count :: nat
  recovery_epoch :: nat
  interrupted_by_user :: bool
  last_error :: "string option"
  policy_entry_phase :: string
  policy_format_version :: "int option"
  current_drain :: "string option"
  post_commit_phase_override :: "string option"
  pending_cycle_outcome :: "string option"
  execution_cycle_charged :: bool
  last_execution_result_status :: "string option"
  cycle_timing_start_index :: int
  cycle_timebox_active :: bool
  cycle_timebox_consumed_seconds :: real
  cycle_timebox_started_at_epoch :: "real option"
  cycle_timebox_redirect_reason :: "string option"
  cycle_timebox_redirects :: nat
  dev_timebox_active :: bool
  dev_timebox_consumed_seconds :: real
  dev_timebox_started_at_epoch :: "real option"
  dev_timebox_redirect_reason :: "string option"
  work_units :: "work_unit list"
  worker_states :: "worker_state dict"
  phase_timings :: "phase_timing_record list"
  recovery_cycle_count :: nat
  fallover_history :: "fallover_record list"
  last_failure_category :: "string option"
  last_connectivity_state :: string
  recovery_cycle_cap :: int
  last_retry_delay_ms :: int
  last_agent_session_id :: "string option"
  agent_retry_intent :: agent_retry_intent
  last_unavailability_reason :: "string option"
  is_waiting_state :: bool
  wait_reason :: "wait_reason_kind option"
  wait_until_monotonic_ms :: "int option"
  ledger_snapshot_field :: "json dict option"

definition blank_state :: "string \<Rightarrow> pstate" where
  "blank_state ph =
     \<lparr>phase = ph, previous_phase = None, integration_commit_resume_phase = None, review_outcome = None,
      phase_chains = [], loop_iterations = [], budget_caps = [], outer_progress = [],
      rebase = new_rebase_state, commit = new_commit_state,
      metrics = \<lparr>total_agent_calls = 0, total_continuations = 0, total_fallbacks = 0, total_retries = 0\<rparr>,
      checkpoint_saved_count = 0, recovery_epoch = 0, interrupted_by_user = False, last_error = None,
      policy_entry_phase = ''__unset__'', policy_format_version = None, current_drain = None,
      post_commit_phase_override = None, pending_cycle_outcome = None, execution_cycle_charged = False,
      last_execution_result_status = None, cycle_timing_start_index = 0, cycle_timebox_active = False,
      cycle_timebox_consumed_seconds = 0, cycle_timebox_started_at_epoch = None,
      cycle_timebox_redirect_reason = None, cycle_timebox_redirects = 0, dev_timebox_active = False,
      dev_timebox_consumed_seconds = 0, dev_timebox_started_at_epoch = None,
      dev_timebox_redirect_reason = None, work_units = [], worker_states = [], phase_timings = [],
      recovery_cycle_count = 0, fallover_history = [], last_failure_category = None,
      last_connectivity_state = ''unknown'', recovery_cycle_cap = 200, last_retry_delay_ms = 0,
      last_agent_session_id = None, agent_retry_intent = cleared_agent_retry_intent,
      last_unavailability_reason = None, is_waiting_state = False, wait_reason = None,
      wait_until_monotonic_ms = None, ledger_snapshot_field = None\<rparr>"

definition from_policy :: "pipeline_policy \<Rightarrow> pstate res" where
  "from_policy p =
     (if entry_phase p = ''__unset__'' then Inl (ValueError ''PipelineState requires phase to be set'')
      else Inr ((blank_state (entry_phase p))
             \<lparr>policy_entry_phase := entry_phase p,
              policy_format_version := Some (if entry_block p \<noteq> None then 2 else 1)\<rparr>))"

definition resolved_recovery_cycle_cap :: "int \<Rightarrow> int" where
  "resolved_recovery_cycle_cap c = (if 1 \<le> c then c else 200)"

definition normalize_fallover_history :: "fallover_record list \<Rightarrow> int \<Rightarrow> fallover_record list" where
  "normalize_fallover_history h c =
     (let cap = nat (resolved_recovery_cycle_cap c)
      in if length h \<le> cap then h else slice_last h cap)"

definition is_complete :: "pstate \<Rightarrow> pipeline_policy \<Rightarrow> bool" where
  "is_complete s p = (phase s = terminal_phase p)"

definition chain_for_phase :: "pstate \<Rightarrow> string \<Rightarrow> agent_chain_state option" where
  "chain_for_phase s ph = dget (phase_chains s) ph"

definition chain_agent :: "agent_chain_state \<Rightarrow> string option" where
  "chain_agent ch = (if agents ch = [] \<or> length (agents ch) \<le> current_index ch then None
     else Some (agents ch ! current_index ch))"

definition current_agent :: "pstate \<Rightarrow> string option" where
  "current_agent s = (case chain_for_phase s (phase s) of None \<Rightarrow> None | Some ch \<Rightarrow> chain_agent ch)"

definition with_phase_chain :: "string \<Rightarrow> agent_chain_state \<Rightarrow> pstate \<Rightarrow> pstate" where
  "with_phase_chain ph ch s = s\<lparr>phase_chains := dset ph ch (phase_chains s)\<rparr>"

definition with_drain :: "string option \<Rightarrow> pstate \<Rightarrow> pstate" where
  "with_drain d s = s\<lparr>current_drain := d\<rparr>"

definition get_loop_iteration :: "pstate \<Rightarrow> string \<Rightarrow> int" where
  "get_loop_iteration s f = dget_or (loop_iterations s) f 0"

definition with_loop_iteration :: "string \<Rightarrow> int \<Rightarrow> pstate \<Rightarrow> pstate" where
  "with_loop_iteration f v s = s\<lparr>loop_iterations := dset f v (loop_iterations s)\<rparr>"

definition get_budget_remaining :: "pstate \<Rightarrow> string \<Rightarrow> int" where
  "get_budget_remaining s c = max 0 (dget_or (budget_caps s) c 0 - dget_or (outer_progress s) c 0)"

definition get_budget_cap :: "pstate \<Rightarrow> string \<Rightarrow> int" where
  "get_budget_cap s c = dget_or (budget_caps s) c 0"

definition get_outer_progress :: "pstate \<Rightarrow> string \<Rightarrow> int" where
  "get_outer_progress s c = dget_or (outer_progress s) c 0"

definition with_outer_progress :: "string \<Rightarrow> int \<Rightarrow> pstate \<Rightarrow> pstate" where
  "with_outer_progress c v s = s\<lparr>outer_progress := dset c v (outer_progress s)\<rparr>"

definition with_budget_cap :: "string \<Rightarrow> int \<Rightarrow> pstate \<Rightarrow> pstate" where
  "with_budget_cap c v s = s\<lparr>budget_caps := dset c v (budget_caps s)\<rparr>"

definition with_fallover_record :: "fallover_record \<Rightarrow> pstate \<Rightarrow> pstate" where
  "with_fallover_record r s =
     s\<lparr>fallover_history := normalize_fallover_history (fallover_history s @ [r]) (recovery_cycle_cap s)\<rparr>"

definition with_phase_timing :: "phase_timing_record \<Rightarrow> pstate \<Rightarrow> pstate" where
  "with_phase_timing r s = s\<lparr>phase_timings := phase_timings s @ [r]\<rparr>"

definition with_parallel_execution_cleared :: "pstate \<Rightarrow> pstate" where
  "with_parallel_execution_cleared s = s\<lparr>work_units := [], worker_states := []\<rparr>"

definition set_waiting :: "wait_reason_kind \<Rightarrow> int option \<Rightarrow> pstate \<Rightarrow> pstate" where
  "set_waiting why until s =
     s\<lparr>is_waiting_state := True, wait_reason := Some why, wait_until_monotonic_ms := until\<rparr>"

definition clear_waiting :: "pstate \<Rightarrow> pstate" where
  "clear_waiting s = s\<lparr>is_waiting_state := False, wait_reason := None, wait_until_monotonic_ms := None\<rparr>"

section \<open>Events\<close>

datatype pipeline_event =
    AGENT_SUCCESS | AGENT_FAILURE | AGENT_RETRY | ANALYSIS_SUCCESS | ANALYSIS_LOOPBACK | PHASE_LOOPBACK
  | REVIEW_CLEAN | REVIEW_ISSUES_FOUND | FIX_SUCCESS | FIX_FAILURE | COMMIT_SUCCESS | COMMIT_RESIDUAL
  | COMMIT_SKIPPED | COMMIT_FAILURE | CHECKPOINT_SAVED | CONTEXT_CLEANED | INTERRUPTED | COMPLETE | FAILED
  | PROMPT_PREPARED | PHASE_ADVANCE | FAN_OUT_STARTED | WORKERS_RESUMED | ALL_WORKERS_COMPLETE

record agent_failure_event =
  af_phase :: string
  af_agent :: string
  af_artifact_valid :: bool
  af_workspace_changed :: "bool option"
  af_reason :: string
  already_charged :: bool

definition has_identity :: "agent_failure_event \<Rightarrow> bool" where
  "has_identity e = (strip (af_phase e) \<noteq> [] \<and> strip (af_agent e) \<noteq> [])"

definition resolved_workspace_changed :: "agent_failure_event \<Rightarrow> bool" where
  "resolved_workspace_changed e = (has_identity e \<and> af_workspace_changed e = Some True)"

record phase_failure_event =
  pf_phase :: string
  pf_reason :: string
  recoverable :: bool
  retry_in_session :: bool
  pf_category :: "failure_category option"
  pf_skip_same_agent_retries :: bool
  pf_workspace_changed :: bool

datatype event =
    Pipeline_event pipeline_event
  | Commit_residual_event "string list" "string list" "string option"
  | Phase_failure_event phase_failure_event
  | Execution_result_event string string
  | Worker_started_event string
  | Worker_completed_event string int
  | Worker_failed_event string int string
  | Post_fanout_verification_event bool "int option" "string option"
  | Analysis_decision_event string string
  | Agent_failure_event agent_failure_event

definition observation_from_event :: "event \<Rightarrow> agent_failure_event option" where
  "observation_from_event ev = (case ev of Agent_failure_event e \<Rightarrow> Some e | _ \<Rightarrow> None)"

section \<open>Effects\<close>

datatype effect = Save_checkpoint | Exit_success | Exit_failure string

definition forbidden_sentinels :: "string list" where
  "forbidden_sentinels = [''Unknown failure'', ''unknown failure'', ''None'', ''null'']"

definition contains_forbidden_sentinel :: "string \<Rightarrow> bool" where
  "contains_forbidden_sentinel why = list_ex (contains_str why) forbidden_sentinels"

text \<open>The constructor of \<^verbatim>\<open>ExitFailureEffect\<close> raises on an undescriptive reason.\<close>

definition exit_failure_effect :: "string \<Rightarrow> effect res" where
  "exit_failure_effect why =
     (if strip why = [] then Inl (ValueError ''ExitFailureEffect.reason must be descriptive and cannot be empty or whitespace'')
      else if contains_forbidden_sentinel why
        then Inl (ValueError ''ExitFailureEffect.reason must be descriptive and cannot contain a forbidden sentinel'')
      else Inr (Exit_failure why))"

section \<open>Failure texts\<close>

fun failure_category_prefix :: "failure_category \<Rightarrow> string" where
  "failure_category_prefix Cat_integration = ''Integration continuation required''"
| "failure_category_prefix Cat_environmental = ''Environmental fault''"
| "failure_category_prefix Cat_agent = ''Agent fault''"
| "failure_category_prefix Cat_user_config = ''Configuration fault''"
| "failure_category_prefix Cat_artifact_validation = ''Artifact validation fault''"
| "failure_category_prefix Cat_ambiguous = ''Ambiguous fault (flagged for review)''"

definition event_reason :: "phase_failure_event \<Rightarrow> string" where
  "event_reason e = (if pf_reason e = [] then ''(no reason reported for phase='' @ pf_phase e @ '')'' else pf_reason e)"

definition classified_failure_reason_for_event :: "phase_failure_event \<Rightarrow> string" where
  "classified_failure_reason_for_event e = (case pf_category e of
     None \<Rightarrow> event_reason e
   | Some c \<Rightarrow> failure_category_prefix c @ '': '' @ event_reason e)"

definition commit_failure_reason :: "pstate \<Rightarrow> string" where
  "commit_failure_reason s = phase s @ '': Commit failed''"

section \<open>Lemmas on the state operations\<close>

lemmas state_op_defs [state_simps] =
  with_phase_chain_def with_drain_def with_loop_iteration_def with_outer_progress_def
  with_budget_cap_def with_fallover_record_def with_phase_timing_def
  with_parallel_execution_cleared_def set_waiting_def clear_waiting_def

lemma fallover_history_bounded:
  "length (normalize_fallover_history h c) \<le> nat (resolved_recovery_cycle_cap c)"
  by (simp add: normalize_fallover_history_def slice_last_def Let_def)

end
