(* ===== verification/Progress.thy ===== *)
theory Progress
  imports Pipeline_State
begin

text \<open>
  Phase handoff and progress accounting (\<^verbatim>\<open>ralph/pipeline/handoffs.py\<close>,
  \<^verbatim>\<open>ralph/pipeline/progress.py\<close>): signal routing, the bypass of exhausted analysis loops,
  post-commit routing by budget state and cycle outcome, loop counters with their caps, outer
  progress and the checkpoint mirrors.  A \<^verbatim>\<open>ValueError\<close> is an \<open>Inl\<close>.  The two graph walks keep
  a visited set in the source and terminate because every step visits a new declared phase;
  that is the measure of their termination proofs.
\<close>

section \<open>Routing\<close>

definition phase_role_is :: "pipeline_policy \<Rightarrow> string \<Rightarrow> phase_role \<Rightarrow> bool" where
  "phase_role_is p ph r = (case dget (phases p) ph of None \<Rightarrow> False | Some d \<Rightarrow> role d = Some r)"

definition declared_forward_cycle_outcome :: "string \<Rightarrow> pipeline_policy \<Rightarrow> string option" where
  "declared_forward_cycle_outcome ph p = (case dget (phases p) ph of
     None \<Rightarrow> None
   | Some d \<Rightarrow> (case dget (decisions d) ''completed'' of None \<Rightarrow> None | Some r \<Rightarrow> dr_cycle_outcome r))"

definition resolve_phase_drain :: "string \<Rightarrow> pipeline_policy \<Rightarrow> string option" where
  "resolve_phase_drain ph p = map_option drain (dget (phases p) ph)"

definition signal_target :: "string \<Rightarrow> phase_transition \<Rightarrow> string option res" where
  "signal_target sig t =
     (if sig = ''success'' then Inr (Some (on_success t))
      else if sig = ''failure'' then Inr (on_failure t)
      else if sig = ''loopback'' then Inr (on_loopback t)
      else Inl (ValueError (''Unknown signal: '' @ sig)))"

definition resolve_next_phase :: "string \<Rightarrow> string \<Rightarrow> pipeline_policy \<Rightarrow> string res" where
  "resolve_next_phase cur sig p =
     (case dget (phases p) cur of
        None \<Rightarrow> Inl (ValueError (''Cannot resolve transition: phase '' @ quoted cur @ '' not found''))
      | Some d \<Rightarrow>
          rbind (signal_target sig (transitions d)) (\<lambda>target.
            case target of
              None \<Rightarrow> Inl (ValueError (''No '' @ quoted sig @ '' transition defined for phase '' @ quoted cur
                 @ ''. Define on_'' @ sig @ '' in pipeline.toml or set the phase to terminal.''))
            | Some t \<Rightarrow>
                if t \<in> terminal_states p then Inr t
                else if \<not> din t (phases p)
                  then Inl (ValueError (''Transition from '' @ quoted cur @ '' on signal '' @ quoted sig
                     @ '' references unknown phase '' @ quoted t @ ''. Either add '' @ quoted t
                     @ '' to pipeline.phases or use the declared terminal phase.''))
                else Inr t))"

section \<open>Analysis loop counters\<close>

definition display_iteration :: "int \<Rightarrow> int \<Rightarrow> int" where
  "display_iteration completed cap = min (max completed 0) (max (cap - 1) 0) + 1"

definition is_final_analysis_iteration :: "int \<Rightarrow> int \<Rightarrow> bool" where
  "is_final_analysis_iteration completed cap = (cap - 1 \<le> completed)"

definition should_skip_analysis_reentry :: "int \<Rightarrow> int \<Rightarrow> bool" where
  "should_skip_analysis_reentry completed cap = (cap \<le> completed)"

definition next_completed :: "int \<Rightarrow> int \<Rightarrow> int" where
  "next_completed completed cap = max 0 (min (completed + 1) cap)"

definition resolve_analysis_cap :: "string \<Rightarrow> pipeline_policy \<Rightarrow> int res" where
  "resolve_analysis_cap f p = (case dget (loop_counters p) f of
     Some c \<Rightarrow> Inr (lc_default_max c)
   | None \<Rightarrow> Inl (ValueError (''Analysis loop counter '' @ quoted f
       @ '' is not declared in pipeline.loop_counters. Analysis caps must come from a declared loop counter.'')))"

definition completed_analysis_passes :: "pstate \<Rightarrow> string \<Rightarrow> pipeline_policy \<Rightarrow> int" where
  "completed_analysis_passes s ph p = (case dget (phases p) ph of
     None \<Rightarrow> 0
   | Some d \<Rightarrow> (case loop_policy d of
       None \<Rightarrow> 0
     | Some lp \<Rightarrow> (let stored = get_loop_iteration s (iteration_state_field lp)
                  in if invocation_gate d = None then stored else max 0 (stored - 1))))"

definition review_issues_found :: "pstate \<Rightarrow> pipeline_policy option \<Rightarrow> bool" where
  "review_issues_found s p = (case review_outcome s of
     None \<Rightarrow> False
   | Some out \<Rightarrow> (case p of
       None \<Rightarrow> True
     | Some pol \<Rightarrow> (case find (\<lambda>(_, d). role d = Some Review \<and> clean_outcome d \<noteq> None) (phases pol) of
         None \<Rightarrow> True
       | Some (_, d) \<Rightarrow> Some out \<noteq> clean_outcome d)))"

section \<open>Bypass of exhausted analysis loops\<close>

record analysis_skip =
  skip_phase :: string
  skip_target :: string
  skip_field :: string
  skip_value :: int
  skip_max :: int

record bypass_result =
  bp_state :: pstate
  bp_target :: string
  bp_skipped :: "analysis_skip list"

definition skip_analysis :: "string \<Rightarrow> string \<Rightarrow> pipeline_policy \<Rightarrow> pstate \<Rightarrow> pstate" where
  "skip_analysis ph f p s =
     (let s1 = (with_loop_iteration f 0 s)\<lparr>review_outcome := None\<rparr>
      in case declared_forward_cycle_outcome ph p of
           Some out \<Rightarrow> if pending_cycle_outcome s1 = None then s1\<lparr>pending_cycle_outcome := Some out\<rparr> else s1
         | None \<Rightarrow> s1)"

function bypass_loop ::
  "pipeline_policy \<Rightarrow> string list \<Rightarrow> pstate \<Rightarrow> string \<Rightarrow> analysis_skip list \<Rightarrow> bypass_result res" where
  "bypass_loop p visited s target skipped =
     (let done = Inr \<lparr>bp_state = s, bp_target = target, bp_skipped = skipped\<rparr>
      in if target \<in> set visited then done
         else case dget (phases p) target of
           None \<Rightarrow> done
         | Some d \<Rightarrow> (case loop_policy d of
             None \<Rightarrow> done
           | Some lp \<Rightarrow>
               (case resolve_analysis_cap (iteration_state_field lp) p of
                  Inl e \<Rightarrow> Inl e
                | Inr cap \<Rightarrow>
                    if \<not> should_skip_analysis_reentry (get_loop_iteration s (iteration_state_field lp)) cap
                      then done
                    else (case resolve_next_phase target ''success'' p of
                        Inl e \<Rightarrow> Inl e
                      | Inr next \<Rightarrow>
                          bypass_loop p (target # visited) (skip_analysis target (iteration_state_field lp) p s) next
                            (skipped @ [\<lparr>skip_phase = target, skip_target = next,
                               skip_field = iteration_state_field lp,
                               skip_value = get_loop_iteration s (iteration_state_field lp),
                               skip_max = cap\<rparr>])))))"
  by pat_completeness auto
termination
  by (relation "measure (\<lambda>(p, visited, s, target, skipped). card (set (dkeys (phases p)) - set visited))")
     (auto intro: card_unseen_decreases)

declare bypass_loop.simps [simp del]

definition resolve_exhausted_analysis_bypass :: "pstate \<Rightarrow> string \<Rightarrow> pipeline_policy \<Rightarrow> bypass_result res" where
  "resolve_exhausted_analysis_bypass s candidate p = bypass_loop p [] s candidate []"

section \<open>Budgets and post-commit routing\<close>

definition budget_counter_for_phase :: "string \<Rightarrow> pipeline_policy \<Rightarrow> string option" where
  "budget_counter_for_phase ph p =
     (let counter = (case dget (lifecycle_phases p) ph of
            Some lf \<Rightarrow> lf_increments_counter lf
          | None \<Rightarrow> (case dget (phases p) ph of
              None \<Rightarrow> None
            | Some d \<Rightarrow> (case commit_policy d of
                None \<Rightarrow> None
              | Some cp \<Rightarrow> if truthy (route_counter cp) then route_counter cp else cp_increments_counter cp)))
      in case counter of
           None \<Rightarrow> None
         | Some c \<Rightarrow>
             if c = [] \<or> c = ''none'' then None
             else (case dget (budget_counters p) c of
                 Some cfg \<Rightarrow> if tracks_budget cfg then Some c else None
               | None \<Rightarrow> None))"

definition commit_closes_a_cycle :: "string \<Rightarrow> pipeline_policy \<Rightarrow> bool" where
  "commit_closes_a_cycle ph p = (budget_counter_for_phase ph p \<noteq> None)"

definition compute_budget_state :: "pstate \<Rightarrow> pipeline_policy \<Rightarrow> string option" where
  "compute_budget_state s p = (case budget_counter_for_phase (phase s) p of
     None \<Rightarrow> None
   | Some c \<Rightarrow>
       if 0 < get_budget_remaining s c then Some ''remaining''
       else if list_ex (\<lambda>(n, cfg). n \<noteq> c \<and> tracks_budget cfg \<and> 0 < get_budget_remaining s n) (budget_counters p)
         then Some ''exhausted''
       else Some ''no_review'')"

definition candidate_cycle_outcomes :: "pstate \<Rightarrow> string option list" where
  "candidate_cycle_outcomes s =
     (if pending_cycle_outcome s \<noteq> None then [pending_cycle_outcome s] else [None, Some ''completed''])"

definition route_matches :: "string \<Rightarrow> string \<Rightarrow> string option \<Rightarrow> post_commit_route \<Rightarrow> bool" where
  "route_matches ph bs out r =
     (when_phase r = ph \<and> when_budget_state r = bs
      \<and> (when_cycle_outcome r = None \<or> when_cycle_outcome r = out))"

fun match_routes :: "string \<Rightarrow> string \<Rightarrow> string option list \<Rightarrow> post_commit_route list \<Rightarrow> string option" where
  "match_routes ph bs [] routes = None"
| "match_routes ph bs (out # outs) routes =
     (case find (route_matches ph bs out) routes of
        Some r \<Rightarrow> Some (pc_target r)
      | None \<Rightarrow> match_routes ph bs outs routes)"

definition resolve_post_commit_phase :: "pstate \<Rightarrow> pipeline_policy \<Rightarrow> string res" where
  "resolve_post_commit_phase s p =
     (case post_commit_phase_override s of
        Some t \<Rightarrow>
          if \<not> din t (phases p) \<and> t \<notin> terminal_states p
            then Inl (ValueError (''Post-commit override references unknown phase '' @ quoted t))
          else Inr t
      | None \<Rightarrow>
          (case (if phase_role_is p (phase s) Commit
                 then (case compute_budget_state s p of
                     None \<Rightarrow> None
                   | Some bs \<Rightarrow> match_routes (phase s) bs (candidate_cycle_outcomes s) (post_commit_routes p))
                 else None) of
             Some t \<Rightarrow> Inr t
           | None \<Rightarrow> resolve_next_phase (phase s) ''success'' p))"

section \<open>Progress accounting\<close>

definition progress_advance_phase :: "pstate \<Rightarrow> string \<Rightarrow> pipeline_policy \<Rightarrow> pstate" where
  "progress_advance_phase s t p =
     s\<lparr>phase := t,
       previous_phase := Some (phase s),
       last_agent_session_id := None,
       agent_retry_intent := cleared_agent_retry_intent,
       last_failure_category := None,
       recovery_epoch := 0,
       execution_cycle_charged := (if phase_role_is p t Execution then False else execution_cycle_charged s),
       commit := (if phase_role_is p t Commit then new_commit_state else commit s),
       current_drain := resolve_phase_drain t p\<rparr>"

definition phase_loop_policy_of :: "pipeline_policy \<Rightarrow> string \<Rightarrow> phase_loop_policy option" where
  "phase_loop_policy_of p ph = (case dget (phases p) ph of None \<Rightarrow> None | Some d \<Rightarrow> loop_policy d)"

definition apply_analysis_success :: "pstate \<Rightarrow> pstate \<Rightarrow> pipeline_policy \<Rightarrow> pstate" where
  "apply_analysis_success s adv p =
     (let result = adv\<lparr>review_outcome := None\<rparr>
      in case phase_loop_policy_of p (phase s) of
           None \<Rightarrow> result
         | Some lp \<Rightarrow> with_loop_iteration (iteration_state_field lp) 0 result)"

definition apply_analysis_loopback ::
  "pstate \<Rightarrow> pstate \<Rightarrow> string \<Rightarrow> int \<Rightarrow> string option \<Rightarrow> bool \<Rightarrow> pstate" where
  "apply_analysis_loopback s adv f cap outcome increment =
     (let result = (if increment then with_loop_iteration f (next_completed (get_loop_iteration s f) cap) adv
                    else adv)
      in if outcome \<noteq> None then result\<lparr>review_outcome := outcome\<rparr> else result)"

function execution_loop_walk :: "pipeline_policy \<Rightarrow> string \<Rightarrow> string list \<Rightarrow> string \<Rightarrow> string option" where
  "execution_loop_walk p origin visited cur =
     (if cur \<in> set visited then None
      else case dget (phases p) cur of
        None \<Rightarrow> None
      | Some d \<Rightarrow>
          (if role d = Some Analysis \<and> loop_policy d \<noteq> None \<and> on_loopback (transitions d) = Some origin
             then map_option iteration_state_field (loop_policy d)
           else execution_loop_walk p origin (cur # visited) (on_success (transitions d))))"
  by pat_completeness auto
termination
  by (relation "measure (\<lambda>(p, origin, visited, cur). card (set (dkeys (phases p)) - set visited))")
     (auto intro: card_unseen_decreases)

declare execution_loop_walk.simps [simp del]

definition resolve_execution_cycle_loop_counter :: "string \<Rightarrow> pipeline_policy \<Rightarrow> string option" where
  "resolve_execution_cycle_loop_counter ph p = execution_loop_walk p ph [] ph"

definition apply_execution_cycle_outcome :: "pstate \<Rightarrow> pstate \<Rightarrow> pipeline_policy \<Rightarrow> pstate res" where
  "apply_execution_cycle_outcome s adv p =
     (case resolve_execution_cycle_loop_counter (phase s) p of
        None \<Rightarrow> Inr adv
      | Some f \<Rightarrow> rbind (resolve_analysis_cap f p) (\<lambda>cap.
          Inr ((with_loop_iteration f (next_completed (get_loop_iteration s f) cap) adv)
                 \<lparr>execution_cycle_charged := True\<rparr>)))"

definition charge_analysis_cycle_for_gate :: "pstate \<Rightarrow> string \<Rightarrow> pipeline_policy \<Rightarrow> pstate res" where
  "charge_analysis_cycle_for_gate s ph p =
     (case resolve_execution_cycle_loop_counter ph p of
        None \<Rightarrow> Inr s
      | Some f \<Rightarrow> rbind (resolve_analysis_cap f p) (\<lambda>cap.
          Inr ((with_loop_iteration f (next_completed (get_loop_iteration s f) cap) s)
                 \<lparr>execution_cycle_charged := True\<rparr>)))"

definition cumulative_execution_seconds :: "pstate \<Rightarrow> string \<Rightarrow> real" where
  "cumulative_execution_seconds s ph =
     sum_list (map timing_elapsed
       (filter (\<lambda>r. timing_phase r = ph) (slice_from (phase_timings s) (cycle_timing_start_index s))))"

definition analysis_loopback_is_already_charged :: "string \<Rightarrow> pstate \<Rightarrow> pipeline_policy \<Rightarrow> bool" where
  "analysis_loopback_is_already_charged ph s p =
     (phase_loop_policy_of p ph \<noteq> None \<and> phase_role_is p ph Analysis \<and> execution_cycle_charged s)"

definition reset_loops :: "string list \<Rightarrow> pstate \<Rightarrow> pstate" where
  "reset_loops fs s = foldl (\<lambda>s f. with_loop_iteration f 0 s) s fs"

definition apply_lifecycle_completion_policy :: "pstate \<Rightarrow> pstate \<Rightarrow> lifecycle_phase_policy \<Rightarrow> pstate" where
  "apply_lifecycle_completion_policy s adv lf =
     (let result = reset_loops (lf_loop_resets lf) adv
      in case lf_increments_counter lf of
           None \<Rightarrow> result
         | Some c \<Rightarrow>
             if c = ''none'' then result
             else (with_outer_progress c (get_outer_progress s c + 1) result)
                    \<lparr>cycle_timing_start_index := int (length (phase_timings result))\<rparr>)"

definition apply_commit_outcome_policy_driven :: "pstate \<Rightarrow> pstate \<Rightarrow> bool \<Rightarrow> phase_commit_policy \<Rightarrow> pstate" where
  "apply_commit_outcome_policy_driven s adv skipped cp =
     (let result = reset_loops (cp_loop_resets cp) adv
      in case cp_increments_counter cp of
           None \<Rightarrow> result
         | Some c \<Rightarrow>
             if \<not> skipped \<or> skipped_advances_progress cp
               then with_outer_progress c (get_outer_progress s c + 1) result else result)"

definition apply_commit_outcome :: "pstate \<Rightarrow> pstate \<Rightarrow> bool \<Rightarrow> pipeline_policy \<Rightarrow> pstate" where
  "apply_commit_outcome s adv skipped p =
     (case dget (lifecycle_phases p) (phase s) of
        Some lf \<Rightarrow> apply_lifecycle_completion_policy s adv lf
      | None \<Rightarrow> (case dget (phases p) (phase s) of
          None \<Rightarrow> adv
        | Some d \<Rightarrow> (case commit_policy d of
            None \<Rightarrow> adv
          | Some cp \<Rightarrow> apply_commit_outcome_policy_driven s adv skipped cp)))"

definition consume_post_commit_phase_override :: "pstate \<Rightarrow> pstate" where
  "consume_post_commit_phase_override s = s\<lparr>post_commit_phase_override := None\<rparr>"

definition apply_budget_counter_increment :: "pstate \<Rightarrow> pstate \<Rightarrow> string option \<Rightarrow> pstate" where
  "apply_budget_counter_increment s adv counter = (case counter of
     None \<Rightarrow> adv
   | Some c \<Rightarrow> if c = ''none'' then adv else with_outer_progress c (get_outer_progress s c + 1) adv)"

section \<open>Checkpoint mirrors\<close>

definition phase_counter :: "pipeline_policy \<Rightarrow> string \<Rightarrow> phase_definition \<Rightarrow> string option" where
  "phase_counter p ph d = (case dget (lifecycle_phases p) ph of
     Some lf \<Rightarrow> lf_increments_counter lf
   | None \<Rightarrow> if role d = Some Commit
              then (case commit_policy d of None \<Rightarrow> None | Some cp \<Rightarrow> cp_increments_counter cp) else None)"

definition counter_is_tracked :: "pipeline_policy \<Rightarrow> string \<Rightarrow> bool" where
  "counter_is_tracked p c = (c \<noteq> [] \<and> c \<noteq> ''none''
     \<and> (case dget (budget_counters p) c of None \<Rightarrow> False | Some cfg \<Rightarrow> tracks_budget cfg))"

definition bfs_targets :: "phase_definition \<Rightarrow> string list \<Rightarrow> string list" where
  "bfs_targets d visited =
     (let t = transitions d
      in filter (\<lambda>x. x \<noteq> [] \<and> x \<notin> set visited)
           (on_success t # (case on_failure t of None \<Rightarrow> [] | Some x \<Rightarrow> [x])
                         @ (case on_loopback t of None \<Rightarrow> [] | Some x \<Rightarrow> [x]))
         @ filter (\<lambda>x. x \<notin> set visited) (map (\<lambda>(_, r). dr_target r) (decisions d))
         @ filter (\<lambda>x. x \<notin> set visited) (map snd (bypass_routes d)))"

function tracked_bfs :: "pipeline_policy \<Rightarrow> string list \<Rightarrow> string list \<Rightarrow> string list \<Rightarrow> string list" where
  "tracked_bfs p visited result [] = result"
| "tracked_bfs p visited result (cur # queue) =
     (if cur \<in> set visited then tracked_bfs p visited result queue
      else case dget (phases p) cur of
        None \<Rightarrow> tracked_bfs p visited result queue
      | Some d \<Rightarrow>
          tracked_bfs p (cur # visited)
            (case phase_counter p cur d of
               Some c \<Rightarrow> if counter_is_tracked p c \<and> c \<notin> set result then result @ [c] else result
             | None \<Rightarrow> result)
            (queue @ bfs_targets d (cur # visited)))"
  by pat_completeness auto
termination
  by (relation "measures [\<lambda>(p, visited, result, queue). card (set (dkeys (phases p)) - set visited),
                          \<lambda>(p, visited, result, queue). length queue]")
     (auto intro: card_unseen_decreases)

definition tracked_budget_counters_in_commit_order :: "pipeline_policy \<Rightarrow> string list" where
  "tracked_budget_counters_in_commit_order p = tracked_bfs p [] [] [entry_phase p]"

definition derive_run_context_progress :: "pstate \<Rightarrow> pipeline_policy option \<Rightarrow> int \<times> int" where
  "derive_run_context_progress s p = (case p of
     None \<Rightarrow> (0, 0)
   | Some pol \<Rightarrow>
       (let tracked = tracked_budget_counters_in_commit_order pol
        in (if 0 < length tracked then get_outer_progress s (tracked ! 0) else 0,
            if 1 < length tracked then get_outer_progress s (tracked ! 1) else 0)))"

section \<open>The bypass\<close>

lemma bypass_skips_grow: "bypass_loop p vis s t sk = Inr b \<Longrightarrow> \<exists>rest. bp_skipped b = sk @ rest \<and> (rest = [] \<longrightarrow> bp_target b = t)"
proof (induction p vis s t sk rule: bypass_loop.induct)
  case (1 p vis s t sk)
  from "1.prems" show ?case
    by (subst (asm) bypass_loop.simps)
       (auto simp: Let_def dest!: "1.IH" [rotated -1] split: if_splits option.splits sum.splits)
qed

end
