(* ===== verification/Cycle_Timing.thy ===== *)
theory Cycle_Timing
  imports Progress
begin

text \<open>
  The cycle and development timeboxes (\<^verbatim>\<open>ralph/pipeline/cycle_timing.py\<close>): pure decisions on a
  pending transition, taken from the elapsed seconds the runner passes in.  A timer starts on its
  declared entry, redirects an entry into the guarded phase once its budget is spent, and is
  concluded on entry to its end phase.  Seconds and epochs are reals.  The banner text of
  \<open>cycle_timebox_status_item\<close> is a dictionary of strings in the source and an association list
  here.
\<close>

record routing_timing =
  total_elapsed_seconds :: real
  development_elapsed_seconds :: "real option"
  current_epoch :: "real option"

record timebox_decision =
  td_state :: pstate
  td_target :: string
  redirected :: bool
  redirect_reason :: "string option"
  timing_started :: bool

definition pass_through :: "pstate \<Rightarrow> string \<Rightarrow> timebox_decision" where
  "pass_through s t = \<lparr>td_state = s, td_target = t, redirected = False, redirect_reason = None,
     timing_started = False\<rparr>"

definition concluded :: "pstate \<Rightarrow> string option \<Rightarrow> string option \<Rightarrow> pstate" where
  "concluded s why outcome =
     (let s1 = s\<lparr>cycle_timebox_active := False\<rparr>;
          s2 = (case why of None \<Rightarrow> s1
                | Some w \<Rightarrow> s1\<lparr>cycle_timebox_redirect_reason := Some w,
                              cycle_timebox_redirects := cycle_timebox_redirects s + 1\<rparr>)
      in if outcome \<noteq> None \<and> pending_cycle_outcome s = None
           then s2\<lparr>pending_cycle_outcome := outcome\<rparr> else s2)"

definition redirected_cycle :: "pstate \<Rightarrow> string \<Rightarrow> string option \<Rightarrow> pstate" where
  "redirected_cycle s why outcome =
     (let s1 = s\<lparr>cycle_timebox_redirect_reason := Some why,
                 cycle_timebox_redirects := cycle_timebox_redirects s + 1\<rparr>
      in if outcome \<noteq> None \<and> pending_cycle_outcome s = None
           then s1\<lparr>pending_cycle_outcome := outcome\<rparr> else s1)"

definition cycle_redirect_text :: "real \<Rightarrow> real \<Rightarrow> string \<Rightarrow> string" where
  "cycle_redirect_text limit elapsed target =
     ''cycle timebox reached '' @ fmt_0f limit @ ''s (elapsed '' @ fmt_0f elapsed
     @ ''s); redirecting to '' @ target"

definition started :: "pstate \<Rightarrow> real option \<Rightarrow> pstate" where
  "started s ep = s\<lparr>cycle_timebox_active := True, cycle_timebox_consumed_seconds := 0,
     cycle_timebox_started_at_epoch := ep, cycle_timebox_redirect_reason := None\<rparr>"

definition apply_cycle_timebox ::
  "pstate \<Rightarrow> string \<Rightarrow> pipeline_policy \<Rightarrow> routing_timing option \<Rightarrow> timebox_decision" where
  "apply_cycle_timebox s target p timing =
     (case (cycle_timebox p, timing) of
        (Some ct, Some rt) \<Rightarrow>
          if \<not> cycle_timebox_active s \<and> ct_start_source ct = phase s \<and> ct_start_entry ct = target
            then (pass_through (started s (current_epoch rt)) target)\<lparr>timing_started := True\<rparr>
          else if target = ct_guarded_entry ct \<and> cycle_timebox_active s
                  \<and> ct_duration_seconds ct \<le> total_elapsed_seconds rt
            then let why = cycle_redirect_text (ct_duration_seconds ct) (total_elapsed_seconds rt)
                             (ct_finalization_target ct)
                 in \<lparr>td_state = redirected_cycle s why (Some (finalization_cycle_outcome ct)),
                     td_target = ct_finalization_target ct, redirected = True,
                     redirect_reason = Some why, timing_started = False\<rparr>
          else pass_through s target
      | _ \<Rightarrow> pass_through s target)"

definition development_redirect_text :: "real \<Rightarrow> real \<Rightarrow> string \<Rightarrow> string" where
  "development_redirect_text limit elapsed target =
     ''development timebox reached '' @ fmt_0f limit @ ''s (elapsed '' @ fmt_0f elapsed
     @ ''s); redirecting to '' @ target"

definition development_redirect :: "pstate \<Rightarrow> string \<Rightarrow> development_timebox_policy \<Rightarrow> pipeline_policy \<Rightarrow> pstate" where
  "development_redirect s why dt p =
     (let s1 = s\<lparr>dev_timebox_redirect_reason := Some why\<rparr>
      in case dget (phases p) (dt_end_entry dt) of
           Some d \<Rightarrow> if role d = Some Commit
                      then s1\<lparr>post_commit_phase_override := Some (on_success (transitions d))\<rparr> else s1
         | None \<Rightarrow> s1)"

definition apply_development_timebox ::
  "pstate \<Rightarrow> string \<Rightarrow> pipeline_policy \<Rightarrow> routing_timing option \<Rightarrow> timebox_decision" where
  "apply_development_timebox s target p timing =
     (case (development_timebox p, timing) of
        (Some dt, Some rt) \<Rightarrow>
          if \<not> dev_timebox_active s \<and> target = dt_start_entry dt
            then (pass_through (s\<lparr>dev_timebox_active := True, dev_timebox_consumed_seconds := 0,
                    dev_timebox_started_at_epoch := current_epoch rt,
                    dev_timebox_redirect_reason := None\<rparr>) target)\<lparr>timing_started := True\<rparr>
          else if target = dt_guarded_entry dt \<and> dev_timebox_active s
            then (case development_elapsed_seconds rt of
                None \<Rightarrow> pass_through s target
              | Some elapsed \<Rightarrow>
                  if warning_seconds dt \<le> elapsed
                    then let why = development_redirect_text (warning_seconds dt) elapsed (dt_finalization_target dt)
                         in \<lparr>td_state = development_redirect s why dt p, td_target = dt_finalization_target dt,
                             redirected = True, redirect_reason = Some why, timing_started = False\<rparr>
                  else pass_through s target)
          else pass_through s target
      | _ \<Rightarrow> pass_through s target)"

definition development_deadline_epochs ::
  "pstate \<Rightarrow> string \<Rightarrow> pipeline_policy \<Rightarrow> routing_timing option \<Rightarrow> real \<Rightarrow> (real \<times> real) option" where
  "development_deadline_epochs s target p timing now =
     (case (development_timebox p, timing) of
        (Some dt, Some rt) \<Rightarrow>
          if target \<noteq> dt_guarded_entry dt \<or> \<not> dev_timebox_active s then None
          else (case development_elapsed_seconds rt of
              None \<Rightarrow> None
            | Some elapsed \<Rightarrow> Some (now + max 0 (warning_seconds dt - elapsed),
                                   now + max 0 (dt_duration_seconds dt - elapsed)))
      | _ \<Rightarrow> None)"

definition conclude_development_timebox :: "pstate \<Rightarrow> string \<Rightarrow> pipeline_policy \<Rightarrow> pstate" where
  "conclude_development_timebox s next p = (case development_timebox p of
     None \<Rightarrow> s
   | Some dt \<Rightarrow>
       if \<not> dev_timebox_active s \<or> dt_end_entry dt \<noteq> next then s
       else s\<lparr>dev_timebox_active := False, dev_timebox_consumed_seconds := 0,
              dev_timebox_started_at_epoch := None\<rparr>)"

definition initialize_legacy_development_timebox_on_resume ::
  "pstate \<Rightarrow> pipeline_policy \<Rightarrow> real option \<Rightarrow> pstate" where
  "initialize_legacy_development_timebox_on_resume s p ep = (case development_timebox p of
     None \<Rightarrow> s
   | Some dt \<Rightarrow>
       if dev_timebox_active s then
         (if dev_timebox_started_at_epoch s = None
            then s\<lparr>dev_timebox_consumed_seconds := max (dev_timebox_consumed_seconds s) (warning_seconds dt)\<rparr>
          else s)
       else if 0 < dev_timebox_consumed_seconds s then s
       else if dt_guarded_entry dt = phase s
         then s\<lparr>dev_timebox_active := True, dev_timebox_started_at_epoch := ep\<rparr>
       else s)"

definition conclude_cycle :: "pstate \<Rightarrow> string \<Rightarrow> pipeline_policy \<Rightarrow> pstate" where
  "conclude_cycle s next p = (case cycle_timebox p of
     None \<Rightarrow> s
   | Some ct \<Rightarrow>
       if \<not> cycle_timebox_active s then s
       else if ct_end_entry ct \<noteq> next then s
       else concluded s None None)"

definition start_cycle_for_bypassed_start_source ::
  "pstate \<Rightarrow> string \<Rightarrow> string list \<Rightarrow> pipeline_policy \<Rightarrow> routing_timing option \<Rightarrow> pstate" where
  "start_cycle_for_bypassed_start_source s target skipped p timing = (case cycle_timebox p of
     None \<Rightarrow> s
   | Some ct \<Rightarrow>
       if cycle_timebox_active s then s
       else if ct_start_entry ct \<noteq> target \<or> ct_start_source ct \<notin> set skipped then s
       else started s (case timing of None \<Rightarrow> None | Some rt \<Rightarrow> current_epoch rt))"

section \<open>Resuming a legacy checkpoint\<close>

definition declared_targets :: "phase_definition \<Rightarrow> string list" where
  "declared_targets d =
     (let t = transitions d
      in on_success t # (case on_failure t of None \<Rightarrow> [] | Some x \<Rightarrow> [x])
         @ (case on_loopback t of None \<Rightarrow> [] | Some x \<Rightarrow> [x])
         @ map (\<lambda>(_, r). dr_target r) (decisions d))"

text \<open>The Python stack pops from the end of the list; the top of the stack is the head here.\<close>

function outside_walk :: "pipeline_policy \<Rightarrow> cycle_timebox_policy \<Rightarrow> string list \<Rightarrow> string list \<Rightarrow> string list" where
  "outside_walk p ct outside [] = outside"
| "outside_walk p ct outside (ph # frontier) =
     (if ph \<in> set outside then outside_walk p ct outside frontier
      else case dget (phases p) ph of
        None \<Rightarrow> outside_walk p ct outside frontier
      | Some d \<Rightarrow>
          if ph = ct_start_entry ct \<or> ph = ct_guarded_entry ct then outside_walk p ct outside frontier
          else outside_walk p ct (ph # outside) (rev (declared_targets d) @ frontier))"
  by pat_completeness auto
termination
  by (relation "measures [\<lambda>(p, ct, outside, fr). card (set (dkeys (phases p)) - set outside),
                          \<lambda>(p, ct, outside, fr). length fr]")
     (auto intro: card_unseen_decreases)

definition outside_cycle_phases :: "pipeline_policy \<Rightarrow> cycle_timebox_policy \<Rightarrow> string list" where
  "outside_cycle_phases p ct =
     outside_walk p ct [] (rev [entry_phase p, ct_start_source ct, ct_end_entry ct])"

definition initialize_legacy_cycle_on_resume :: "pstate \<Rightarrow> pipeline_policy \<Rightarrow> real option \<Rightarrow> pstate" where
  "initialize_legacy_cycle_on_resume s p ep = (case cycle_timebox p of
     None \<Rightarrow> s
   | Some ct \<Rightarrow>
       if cycle_timebox_active s then
         (if cycle_timebox_started_at_epoch s = None
            then s\<lparr>cycle_timebox_consumed_seconds := max (cycle_timebox_consumed_seconds s) (ct_duration_seconds ct)\<rparr>
          else s)
       else if 0 < cycle_timebox_consumed_seconds s then s
       else if phase s = ct_start_entry ct \<or> phase s = ct_guarded_entry ct then started s ep
       else if \<not> din (phase s) (phases p) \<or> phase s \<in> terminal_states p
               \<or> phase s \<in> set (outside_cycle_phases p ct) then s
       else started s ep)"

section \<open>What operators and agents see\<close>

definition timebox_text :: "real \<Rightarrow> real \<Rightarrow> string" where
  "timebox_text consumed duration =
     fmt_0f (consumed / 60) @ ''m/'' @ fmt_0f (duration / 60) @ ''m, ''
     @ fmt_0f (max 0 (duration - consumed) / 60) @ ''m left''"

definition cycle_timebox_status_item :: "pstate \<Rightarrow> pipeline_policy \<Rightarrow> string dict option" where
  "cycle_timebox_status_item s p =
     (let items = (case cycle_timebox p of
            Some ct \<Rightarrow> if cycle_timebox_active s
              then [(''cycle timebox'', timebox_text (cycle_timebox_consumed_seconds s) (ct_duration_seconds ct))] else []
          | None \<Rightarrow> [])
        @ (case development_timebox p of
            Some dt \<Rightarrow> if dev_timebox_active s
              then [(''development timebox'', timebox_text (dev_timebox_consumed_seconds s) (dt_duration_seconds dt))] else []
          | None \<Rightarrow> [])
      in if items = [] then None else Some items)"

definition cycle_deadline_epochs ::
  "pstate \<Rightarrow> string \<Rightarrow> pipeline_policy \<Rightarrow> routing_timing option \<Rightarrow> real \<Rightarrow> (real \<times> real) option" where
  "cycle_deadline_epochs s target p timing now =
     (case (cycle_timebox p, timing) of
        (Some ct, Some rt) \<Rightarrow>
          if ct_guarded_entry ct \<noteq> target \<or> \<not> cycle_timebox_active s then None
          else Some (now + max 0 (warning_threshold_seconds ct - total_elapsed_seconds rt),
                     now + max 0 (ct_duration_seconds ct - total_elapsed_seconds rt))
      | _ \<Rightarrow> None)"

section \<open>Lemmas\<close>

lemma pass_through_simps [simp]:
  "td_state (pass_through s t) = s" "td_target (pass_through s t) = t"
  "\<not> redirected (pass_through s t)" "\<not> timing_started (pass_through s t)"
  by (simp_all add: pass_through_def)

lemma cycle_target_known [route_intros]:
  assumes "validate_policy p" and "known_phase p t"
  shows "known_phase p (td_target (apply_cycle_timebox s t p timing))"
  using assms known_cycle_timebox(1)
  by (auto simp: apply_cycle_timebox_def Let_def split: option.splits)

lemma development_target_known [route_intros]:
  assumes "validate_policy p" and "known_phase p t"
  shows "known_phase p (td_target (apply_development_timebox s t p timing))"
  using assms known_development_timebox(1)
  by (auto simp: apply_development_timebox_def Let_def split: option.splits)

text \<open>The walk of \<open>outside_cycle_phases\<close> computes the set the docstring describes.\<close>

definition outside_ok :: "pipeline_policy \<Rightarrow> cycle_timebox_policy \<Rightarrow> string \<Rightarrow> bool" where
  "outside_ok p ct x = (din x (phases p) \<and> x \<noteq> ct_start_entry ct \<and> x \<noteq> ct_guarded_entry ct)"

definition outside_step :: "pipeline_policy \<Rightarrow> cycle_timebox_policy \<Rightarrow> string \<Rightarrow> string \<Rightarrow> bool" where
  "outside_step p ct x y = (outside_ok p ct x \<and> outside_ok p ct y
     \<and> (case dget (phases p) x of None \<Rightarrow> False | Some d \<Rightarrow> y \<in> set (declared_targets d)))"

definition outside_inv :: "pipeline_policy \<Rightarrow> cycle_timebox_policy \<Rightarrow> string list \<Rightarrow> string list \<Rightarrow> bool" where
  "outside_inv p ct outside frontier =
     ((\<forall>x\<in>set outside. outside_ok p ct x)
      \<and> (\<forall>x y. x \<in> set outside \<longrightarrow> outside_step p ct x y \<longrightarrow> y \<in> set outside \<union> set frontier))"

lemma outside_walk_closed:
  assumes "outside_inv p ct outside frontier"
  shows "set (outside_walk p ct outside frontier)
       = {y. \<exists>x\<in>{x \<in> set outside \<union> set frontier. outside_ok p ct x}. (outside_step p ct)\<^sup>*\<^sup>* x y}"
  using assms
proof (induction p ct outside frontier rule: outside_walk.induct)
  case (1 p ct outside)
  have "y \<in> set outside" if "(outside_step p ct)\<^sup>*\<^sup>* x y" and "x \<in> set outside" for x y
    using that by (induction rule: rtranclp_induct) (use 1 in \<open>auto simp: outside_inv_def\<close>)
  then show ?case using 1 by (auto simp: outside_inv_def)
next
  case (2 p ct outside ph frontier)
  consider "ph \<in> set outside" | "ph \<notin> set outside" "\<not> outside_ok p ct ph"
    | d where "ph \<notin> set outside" "outside_ok p ct ph" "dget (phases p) ph = Some d"
    by (cases "dget (phases p) ph") (auto simp: outside_ok_def din_def)
  then show ?case
  proof cases
    case 1
    then have "outside_inv p ct outside frontier" using 2(5) by (auto simp: outside_inv_def)
    then show ?thesis using 2(1) 1 by auto
  next
    case c: 2
    have "outside_inv p ct outside frontier"
      using 2(5) c by (auto simp: outside_inv_def outside_step_def)
    then show ?thesis
      using 2(2,3) c by (auto simp: outside_ok_def din_def split: option.splits)
  next
    case c: 3
    let ?fr = "rev (declared_targets d) @ frontier"
    have inv: "outside_inv p ct (ph # outside) ?fr"
      using 2(5) c by (auto simp: outside_inv_def outside_step_def)
    have step: "outside_walk p ct outside (ph # frontier) = outside_walk p ct (ph # outside) ?fr"
      using c by (auto simp: outside_ok_def)
    have IH: "set (outside_walk p ct (ph # outside) ?fr)
       = {y. \<exists>x\<in>{x \<in> set (ph # outside) \<union> set ?fr. outside_ok p ct x}. (outside_step p ct)\<^sup>*\<^sup>* x y}"
      using 2(4) [OF c(1,3) _ inv] c(2) by (auto simp: outside_ok_def)
    have "outside_step p ct ph x" if "x \<in> set (declared_targets d)" "outside_ok p ct x" for x
      using that c by (auto simp: outside_step_def)
    then have "\<exists>x\<in>{x \<in> set outside \<union> set (ph # frontier). outside_ok p ct x}. (outside_step p ct)\<^sup>*\<^sup>* x y"
      if "x \<in> set (ph # outside) \<union> set ?fr" "outside_ok p ct x" "(outside_step p ct)\<^sup>*\<^sup>* x y" for x y
      using that c(2) by (auto intro: converse_rtranclp_into_rtranclp)
    then show ?thesis unfolding step IH by auto
  qed
qed

text \<open>
  the phases outside the cycle are what the documentation describes.  They are exactly the
  declared phases that can be reached, along any declared edge and without touching the start or
  the guarded phase of the cycle, from the entry phase, the start source or the end phase.
\<close>

theorem outside_cycle_phases_spec:
  "set (outside_cycle_phases p ct) =
     {y. \<exists>x\<in>{entry_phase p, ct_start_source ct, ct_end_entry ct}. outside_ok p ct x \<and> (outside_step p ct)\<^sup>*\<^sup>* x y}"
proof -
  let ?fr = "rev [entry_phase p, ct_start_source ct, ct_end_entry ct]"
  have "outside_inv p ct [] ?fr" by (simp add: outside_inv_def)
  then have "set (outside_walk p ct [] ?fr)
      = {y. \<exists>x\<in>{x \<in> set [] \<union> set ?fr. outside_ok p ct x}. (outside_step p ct)\<^sup>*\<^sup>* x y}"
    by (rule outside_walk_closed)
  then show ?thesis unfolding outside_cycle_phases_def by (auto simp del: outside_walk.simps)
qed

end
