(* ===== verification/Fan_Out.thy ===== *)
theory Fan_Out
  imports Pipeline_State
begin

text \<open>
  The fan-out authority (\<^verbatim>\<open>ralph/pipeline/_fan_out_authority.py\<close>): the handlers of the worker
  events and the join decision derived from the worker states.  The reading of the wall clock
  (\<^verbatim>\<open>datetime.now(UTC)\<close>) is the argument \<open>now\<close>.
\<close>

definition fan_out_decision :: "pstate \<Rightarrow> fan_out_decision_kind" where
  "fan_out_decision s =
     (let statuses = map (status \<circ> snd) (worker_states s)
      in if worker_states s = [] then Join_complete
         else if W_RUNNING \<in> set statuses \<or> W_PENDING \<in> set statuses then Join_pending
         else if W_FAILED \<in> set statuses then Join_partial_failure
         else if set statuses = {W_SUCCEEDED} then Join_complete
         else if set statuses = {W_CANCELLED} then Join_blocked
         else Join_blocked)"

definition with_fan_out_decision :: "pstate \<Rightarrow> pstate" where
  "with_fan_out_decision s = s\<lparr>rebase := set_fan_out_decision (fan_out_decision s) (rebase s)\<rparr>"

definition handle_fan_out_started :: "pstate \<Rightarrow> pstate \<times> effect list" where
  "handle_fan_out_started s =
     (if work_units s = [] \<or> worker_states s \<noteq> [] then (s, [])
      else (with_fan_out_decision (s\<lparr>worker_states :=
              foldl (\<lambda>d u. dset (unit_id u) (new_worker_state (unit_id u)) d) [] (work_units s)\<rparr>), []))"

definition resumed_worker :: "worker_state \<Rightarrow> worker_state" where
  "resumed_worker w = (if status w = W_RUNNING then w\<lparr>status := W_PENDING\<rparr> else w)"

definition handle_workers_resumed :: "pstate \<Rightarrow> pstate \<times> effect list" where
  "handle_workers_resumed s =
     (if worker_states s = [] then (s, [])
      else (with_fan_out_decision
              (s\<lparr>worker_states := map (\<lambda>(u, w). (u, resumed_worker w)) (worker_states s)\<rparr>), []))"

definition set_worker :: "string \<Rightarrow> worker_state \<Rightarrow> pstate \<Rightarrow> pstate" where
  "set_worker u w s = s\<lparr>worker_states := dset u w (worker_states s)\<rparr>"

definition handle_worker_started :: "pstate \<Rightarrow> string \<Rightarrow> string \<Rightarrow> pstate \<times> effect list" where
  "handle_worker_started s u now = (case dget (worker_states s) u of
     None \<Rightarrow> (s, [])
   | Some w \<Rightarrow> (with_fan_out_decision (set_worker u (w\<lparr>status := W_RUNNING, started_at := Some now\<rparr>) s), []))"

definition handle_worker_completed :: "pstate \<Rightarrow> string \<Rightarrow> int \<Rightarrow> string \<Rightarrow> pstate \<times> effect list" where
  "handle_worker_completed s u code now = (case dget (worker_states s) u of
     None \<Rightarrow> (s, [])
   | Some w \<Rightarrow> (with_fan_out_decision
       (set_worker u (w\<lparr>status := W_SUCCEEDED, exit_code := Some code, finished_at := Some now\<rparr>) s), []))"

definition failed_worker :: "int \<Rightarrow> string \<Rightarrow> string \<Rightarrow> worker_state \<Rightarrow> worker_state" where
  "failed_worker code err now w =
     w\<lparr>status := W_FAILED, exit_code := Some code, error_message := Some err, finished_at := Some now\<rparr>"

definition handle_worker_failed :: "pstate \<Rightarrow> string \<Rightarrow> int \<Rightarrow> string \<Rightarrow> string \<Rightarrow> pstate \<times> effect list" where
  "handle_worker_failed s u code err now = (case dget (worker_states s) u of
     None \<Rightarrow> (s, [])
   | Some w \<Rightarrow> (with_fan_out_decision (set_worker u (failed_worker code err now w) s), []))"

section \<open>Lemmas\<close>

lemma fan_out_decision_rebase [simp]: "fan_out_decision (s\<lparr>rebase := r\<rparr>) = fan_out_decision s"
  by (simp add: fan_out_decision_def)

lemma with_fan_out_decision_simps [simp]:
  "fan_out_decision (with_fan_out_decision s) = fan_out_decision s"
  "worker_states (with_fan_out_decision s) = worker_states s"
  "work_units (with_fan_out_decision s) = work_units s"
  "last_fan_out_decision (rebase (with_fan_out_decision s)) = Some (fan_out_value (fan_out_decision s))"
  by (simp_all add: with_fan_out_decision_def set_fan_out_decision_def)

lemma fan_out_value_inj [simp]: "fan_out_value a = fan_out_value b \<longleftrightarrow> a = b"
  by (cases a; cases b; simp)

lemma dset_values: "w \<in> set (map snd (dset k v d)) \<Longrightarrow> w = v \<or> w \<in> set (map snd d)"
  by (induction d) (auto simp: dset_def split: if_splits)

lemma foldl_dset_values:
  "w \<in> set (map snd (foldl (\<lambda>d u. dset (k u) (v u) d) d us)) \<Longrightarrow> w \<in> set (map snd d) \<or> w \<in> v ` set us"
  by (induction us arbitrary: d) (fastforce dest: dset_values)+

lemma foldl_dset_keys:
  "set (dkeys (foldl (\<lambda>d u. dset (k u) (v u) d) d us)) = set (dkeys d) \<union> k ` set us"
  by (induction us arbitrary: d) (auto simp: dkeys_dset din_iff)

lemma fan_out_complete_iff:
  "fan_out_decision s = Join_complete \<longleftrightarrow> (\<forall>w \<in> set (map snd (worker_states s)). status w = W_SUCCEEDED)"
proof (cases "worker_states s")
  case (Cons x xs)
  define st where "st = set (map (status \<circ> snd) (worker_states s))"
  have ne: "st \<noteq> {}" using Cons by (simp add: st_def)
  have "fan_out_decision s = Join_complete \<longleftrightarrow> st = {W_SUCCEEDED}"
    using Cons by (auto simp: fan_out_decision_def Let_def st_def)
  also have "\<dots> \<longleftrightarrow> (\<forall>x\<in>st. x = W_SUCCEEDED)" using ne by auto
  finally show ?thesis by (auto simp: st_def)
qed (simp add: fan_out_decision_def)

lemma fan_out_pending_iff:
  "fan_out_decision s = Join_pending
   \<longleftrightarrow> (\<exists>w \<in> set (map snd (worker_states s)). status w = W_RUNNING \<or> status w = W_PENDING)"
  by (auto simp: fan_out_decision_def Let_def image_iff)
    (metis comp_apply snd_conv)+

section \<open>The join, one unit at a time\<close>

text \<open>
  A worker event as the reducer hands it to the authority, and the abstract view of one unit: its
  status, moved by the events that name it and by a resume.
\<close>

datatype worker_event =
    Ev_started string string | Ev_completed string int string | Ev_failed string int string string | Ev_resumed

fun apply_worker_event :: "worker_event \<Rightarrow> pstate \<Rightarrow> pstate" where
  "apply_worker_event (Ev_started u now) s = fst (handle_worker_started s u now)"
| "apply_worker_event (Ev_completed u code now) s = fst (handle_worker_completed s u code now)"
| "apply_worker_event (Ev_failed u code err now) s = fst (handle_worker_failed s u code err now)"
| "apply_worker_event Ev_resumed s = fst (handle_workers_resumed s)"

fun unit_step :: "string \<Rightarrow> worker_event \<Rightarrow> worker_status \<Rightarrow> worker_status" where
  "unit_step u (Ev_started v _) st = (if v = u then W_RUNNING else st)"
| "unit_step u (Ev_completed v _ _) st = (if v = u then W_SUCCEEDED else st)"
| "unit_step u (Ev_failed v _ _ _) st = (if v = u then W_FAILED else st)"
| "unit_step u Ev_resumed st = (if st = W_RUNNING then W_PENDING else st)"

definition unit_status :: "pstate \<Rightarrow> string \<Rightarrow> worker_status option" where
  "unit_status s u = map_option status (dget (worker_states s) u)"

lemma dkeys_map_values [simp]: "dkeys (map (\<lambda>(k, v). (k, f v)) d) = dkeys d"
  by (simp add: dkeys_def comp_def case_prod_unfold)

lemma apply_worker_event_keys [simp]: "dkeys (worker_states (apply_worker_event e s)) = dkeys (worker_states s)"
  by (cases e) (auto simp: handle_worker_started_def handle_worker_completed_def handle_worker_failed_def
      handle_workers_resumed_def set_worker_def dkeys_dset split: option.split)

lemma apply_worker_event_refines:
  "unit_status (apply_worker_event e s) u = map_option (unit_step u e) (unit_status s u)"
  by (cases e) (auto simp: handle_worker_started_def handle_worker_completed_def handle_worker_failed_def
      handle_workers_resumed_def set_worker_def unit_status_def failed_worker_def resumed_worker_def
      dget_map_values option.map_comp comp_def split: option.split intro!: option.map_cong)

definition fan_out_coherent :: "pstate \<Rightarrow> bool" where
  "fan_out_coherent s = (last_fan_out_decision (rebase s) = Some (fan_out_value (fan_out_decision s)))"

lemma apply_worker_event_coherent: "fan_out_coherent s \<Longrightarrow> fan_out_coherent (apply_worker_event e s)"
  by (cases e) (auto simp: handle_worker_started_def handle_worker_completed_def handle_worker_failed_def
      handle_workers_resumed_def fan_out_coherent_def split: option.split)

lemma run_worker_events:
  "dkeys (worker_states (fold apply_worker_event evs s)) = dkeys (worker_states s)"
  "unit_status (fold apply_worker_event evs s) u = map_option (fold (unit_step u) evs) (unit_status s u)"
  "fan_out_coherent s \<Longrightarrow> fan_out_coherent (fold apply_worker_event evs s)"
  by (induction evs arbitrary: s)
     (simp_all add: apply_worker_event_refines option.map_comp comp_def apply_worker_event_coherent option.map_id)

lemma fan_out_started_workers:
  assumes "work_units s \<noteq> []" and "worker_states s = []"
  shows "set (dkeys (worker_states (fst (handle_fan_out_started s)))) = unit_id ` set (work_units s)"
    and "distinct (dkeys (worker_states (fst (handle_fan_out_started s))))"
    and "u \<in> unit_id ` set (work_units s) \<Longrightarrow> unit_status (fst (handle_fan_out_started s)) u = Some W_PENDING"
    and "fan_out_coherent (fst (handle_fan_out_started s))"
proof -
  let ?f = "\<lambda>d u. dset (unit_id u) (new_worker_state (unit_id u)) d"
  have dist: "distinct (dkeys d) \<Longrightarrow> distinct (dkeys (foldl ?f d us))" for d us
    by (induction us arbitrary: d) (auto simp: dkeys_dset din_iff)
  have pend: "\<forall>v w. dget d v = Some w \<longrightarrow> status w = W_PENDING
      \<Longrightarrow> \<forall>v w. dget (foldl ?f d us) v = Some w \<longrightarrow> status w = W_PENDING" for d us
  proof (induction us arbitrary: d)
    case (Cons a us)
    have "\<forall>v w. dget (?f d a) v = Some w \<longrightarrow> status w = W_PENDING"
      using Cons.prems by (simp add: new_worker_state_def)
    from Cons.IH [OF this] show ?case by simp
  qed simp
  show keys: "set (dkeys (worker_states (fst (handle_fan_out_started s)))) = unit_id ` set (work_units s)"
    using assms by (simp add: handle_fan_out_started_def foldl_dset_keys)
  show "distinct (dkeys (worker_states (fst (handle_fan_out_started s))))"
    using assms dist [of "[]"] by (simp add: handle_fan_out_started_def)
  show "unit_status (fst (handle_fan_out_started s)) u = Some W_PENDING" if "u \<in> unit_id ` set (work_units s)"
  proof -
    have "din u (worker_states (fst (handle_fan_out_started s)))" using that keys by (simp add: din_iff)
    then show ?thesis
      using assms pend [of "[]" "work_units s"] by (auto simp: unit_status_def handle_fan_out_started_def din_def)
  qed
  show "fan_out_coherent (fst (handle_fan_out_started s))"
    using assms by (simp add: handle_fan_out_started_def fan_out_coherent_def)
qed

lemma statuses_of_units:
  assumes "distinct (dkeys (worker_states s))"
  shows "set (map (status \<circ> snd) (worker_states s)) = (\<lambda>u. the (unit_status s u)) ` set (dkeys (worker_states s))"
proof -
  have "the (unit_status s u) = status w" if "(u, w) \<in> set (worker_states s)" for u w
    using that assms by (simp add: unit_status_def dget_def dkeys_def)
  then show ?thesis by (force simp: dkeys_def image_iff)
qed

lemma decision_by_status:
  assumes "distinct (dkeys (worker_states s))" and "worker_states s \<noteq> []"
    and "st = (\<lambda>u. the (unit_status s u)) ` set (dkeys (worker_states s))"
  shows "fan_out_decision s = Join_pending \<longleftrightarrow> W_RUNNING \<in> st \<or> W_PENDING \<in> st"
    and "fan_out_decision s = Join_partial_failure \<longleftrightarrow> W_FAILED \<in> st \<and> W_RUNNING \<notin> st \<and> W_PENDING \<notin> st"
    and "fan_out_decision s = Join_complete \<longleftrightarrow> st \<subseteq> {W_SUCCEEDED}"
    and "fan_out_decision s = Join_blocked \<longleftrightarrow> W_CANCELLED \<in> st \<and> st \<subseteq> {W_SUCCEEDED, W_CANCELLED}"
proof -
  have st: "set (map (status \<circ> snd) (worker_states s)) = st" using statuses_of_units [OF assms(1)] assms(3) by simp
  have ne: "st \<noteq> {}" using assms(2,3) by (simp add: dkeys_def)
  have "x \<in> {W_SUCCEEDED, W_CANCELLED} \<longleftrightarrow> x \<noteq> W_RUNNING \<and> x \<noteq> W_PENDING \<and> x \<noteq> W_FAILED" for x
    by (cases x) simp_all
  then have sub: "st \<subseteq> {W_SUCCEEDED, W_CANCELLED} \<longleftrightarrow> W_RUNNING \<notin> st \<and> W_PENDING \<notin> st \<and> W_FAILED \<notin> st"
    unfolding subset_iff by blast
  have d: "fan_out_decision s = (if W_RUNNING \<in> st \<or> W_PENDING \<in> st then Join_pending else if W_FAILED \<in> st then Join_partial_failure
      else if st = {W_SUCCEEDED} then Join_complete else Join_blocked)"
    using assms(2) by (simp only: fan_out_decision_def Let_def st) simp
  show "fan_out_decision s = Join_pending \<longleftrightarrow> W_RUNNING \<in> st \<or> W_PENDING \<in> st"
    "fan_out_decision s = Join_partial_failure \<longleftrightarrow> W_FAILED \<in> st \<and> W_RUNNING \<notin> st \<and> W_PENDING \<notin> st"
    unfolding d by auto
  show "fan_out_decision s = Join_complete \<longleftrightarrow> st \<subseteq> {W_SUCCEEDED}"
    unfolding d using ne by auto
  show "fan_out_decision s = Join_blocked \<longleftrightarrow> W_CANCELLED \<in> st \<and> st \<subseteq> {W_SUCCEEDED, W_CANCELLED}"
    unfolding d sub using ne sub by auto
qed

text \<open>The workers of a wave: some, each unit once, with the decision cached.\<close>

definition tracked_wave :: "pstate \<Rightarrow> bool" where
  "tracked_wave s = (worker_states s \<noteq> [] \<and> distinct (dkeys (worker_states s)) \<and> fan_out_coherent s)"

text \<open>
  C35: The join of a parallel fan-out.  Starting a fan-out makes a wave of exactly the planned units,
  all pending.  Deliver to any wave any sequence of worker events (for known or unknown units, in any
  order, with resumes in between): the units tracked stay the same, the join is pending exactly if the
  last word on some unit leaves it pending or running, a partial failure exactly if none is and some
  unit failed, blocked exactly if every unit succeeded or was cancelled and one was cancelled, complete
  exactly if every unit succeeded, and the projection cached on the rebase state is the current
  decision.
\<close>

theorem fan_out_join_correct:
  fixes s t :: pstate and evs :: "worker_event list"
  assumes "work_units s \<noteq> []" and "worker_states s = []" and "tracked_wave t"
  defines "s1 \<equiv> fst (handle_fan_out_started s)" and "t1 \<equiv> fold apply_worker_event evs t"
    and "final \<equiv> \<lambda>u. fold (unit_step u) evs (the (unit_status t u))" and "units \<equiv> set (dkeys (worker_states t))"
  shows "tracked_wave s1 \<and> set (dkeys (worker_states s1)) = unit_id ` set (work_units s)
      \<and> (\<forall>u \<in> unit_id ` set (work_units s). unit_status s1 u = Some W_PENDING)
     \<and> set (dkeys (worker_states t1)) = units
     \<and> (fan_out_decision t1 = Join_pending \<longleftrightarrow> (\<exists>u\<in>units. final u \<in> {W_RUNNING, W_PENDING}))
     \<and> (fan_out_decision t1 = Join_partial_failure \<longleftrightarrow>
          (\<exists>u\<in>units. final u = W_FAILED) \<and> (\<forall>u\<in>units. final u \<notin> {W_RUNNING, W_PENDING}))
     \<and> (fan_out_decision t1 = Join_blocked \<longleftrightarrow>
          (\<exists>u\<in>units. final u = W_CANCELLED) \<and> (\<forall>u\<in>units. final u \<in> {W_SUCCEEDED, W_CANCELLED}))
     \<and> (fan_out_decision t1 = Join_complete \<longleftrightarrow> (\<forall>u\<in>units. final u = W_SUCCEEDED))
     \<and> last_fan_out_decision (rebase t1) = Some (fan_out_value (fan_out_decision t1))"
proof -
  note st = fan_out_started_workers [OF assms(1,2)]
  have t: "worker_states t \<noteq> []" "distinct (dkeys (worker_states t))" "fan_out_coherent t"
    using assms(3) by (simp_all add: tracked_wave_def)
  have keys: "dkeys (worker_states t1) = dkeys (worker_states t)" by (simp add: t1_def run_worker_events(1))
  have "\<exists>st. unit_status t u = Some st" if "u \<in> units" for u
    using that by (auto simp: units_def unit_status_def din_iff [symmetric] din_def)
  then have "the (unit_status t1 u) = final u" if "u \<in> units" for u
    using that by (force simp: t1_def final_def run_worker_events(2))
  then have im: "(\<lambda>u. the (unit_status t1 u)) ` set (dkeys (worker_states t1)) = final ` units"
    unfolding keys units_def by (rule image_cong [OF refl])
  have "worker_states t1 \<noteq> []" using keys t(1) by (auto simp: dkeys_def)
  note d = decision_by_status [OF _ this im [symmetric], unfolded keys, OF t(2)]
  have "tracked_wave s1" using st assms(1) by (auto simp: tracked_wave_def s1_def dkeys_def)
  moreover have "fan_out_coherent t1" unfolding t1_def by (rule run_worker_events(3)) (rule t(3))
  moreover have mem: "x \<in> final ` units \<longleftrightarrow> (\<exists>u\<in>units. final u = x)" for x by blast
  have "fan_out_decision t1 = Join_pending \<longleftrightarrow> (\<exists>u\<in>units. final u \<in> {W_RUNNING, W_PENDING})"
    "fan_out_decision t1 = Join_partial_failure \<longleftrightarrow>
       (\<exists>u\<in>units. final u = W_FAILED) \<and> (\<forall>u\<in>units. final u \<notin> {W_RUNNING, W_PENDING})"
    "fan_out_decision t1 = Join_blocked \<longleftrightarrow>
       (\<exists>u\<in>units. final u = W_CANCELLED) \<and> (\<forall>u\<in>units. final u \<in> {W_SUCCEEDED, W_CANCELLED})"
    "fan_out_decision t1 = Join_complete \<longleftrightarrow> (\<forall>u\<in>units. final u = W_SUCCEEDED)"
    unfolding d mem image_subset_iff by blast+
  ultimately show ?thesis
    using st(1,3) keys by (simp add: s1_def units_def fan_out_coherent_def)
qed

definition sample_fan_out :: pstate where
  "sample_fan_out = (blank_state ''development'')\<lparr>work_units :=
     [\<lparr>unit_id = ''a'', description = [], allowed_directories = [], paths = [], dependencies = [], step_ids = []\<rparr>,
      \<lparr>unit_id = ''b'', description = [], allowed_directories = [], paths = [], dependencies = [], step_ids = []\<rparr>]\<rparr>"

definition cancelled_wave :: pstate where
  "cancelled_wave = with_fan_out_decision ((blank_state ''development'')\<lparr>worker_states :=
     [(''a'', (new_worker_state ''a'')\<lparr>status := W_CANCELLED\<rparr>), (''b'', new_worker_state ''b'')]\<rparr>)"

theorem fan_out_join_correct_witness:
  "tracked_wave (fst (handle_fan_out_started sample_fan_out))
   \<and> fan_out_decision (fold apply_worker_event [Ev_started ''b'' ''t0''] cancelled_wave) = Join_pending
   \<and> fan_out_decision (fold apply_worker_event [Ev_started ''b'' ''t0'', Ev_completed ''b'' 0 ''t1''] cancelled_wave) = Join_blocked
   \<and> fan_out_decision (fold apply_worker_event [Ev_failed ''b'' 1 ''e'' ''t1''] cancelled_wave) = Join_partial_failure"
proof -
  have w: "work_units sample_fan_out \<noteq> []" "worker_states sample_fan_out = []" "tracked_wave cancelled_wave"
    by (simp_all add: sample_fan_out_def blank_state_def tracked_wave_def fan_out_coherent_def cancelled_wave_def dkeys_def)
  have st: "set (dkeys (worker_states cancelled_wave)) = {''a'', ''b''}" "unit_status cancelled_wave ''a'' = Some W_CANCELLED"
    "unit_status cancelled_wave ''b'' = Some W_PENDING"
    by (simp_all add: cancelled_wave_def unit_status_def dget_def dkeys_def new_worker_state_def)
  show ?thesis
    using fan_out_join_correct [OF w, of "[Ev_started ''b'' ''t0'']"]
      fan_out_join_correct [OF w, of "[Ev_started ''b'' ''t0'', Ev_completed ''b'' 0 ''t1'']"]
      fan_out_join_correct [OF w, of "[Ev_failed ''b'' 1 ''e'' ''t1'']"] st
    by simp
qed

end
