(* ===== verification/Default_Policy.thy ===== *)
theory Default_Policy
  imports Policy
begin

text \<open>
  The bundled workflow (\<^verbatim>\<open>ralph/policy/defaults/pipeline.toml\<close>) after the compilation of its
  blocks: the phases in file order, the lifecycle phase of the \<^verbatim>\<open>developer_iteration\<close> group
  block and the post-commit routing table.  The closed theorems of the development are
  evaluated on it, and it passes every validator.
\<close>

definition simple_transition :: "string \<Rightarrow> string option \<Rightarrow> string option \<Rightarrow> phase_transition" where
  "simple_transition s f l = \<lparr>on_success = s, on_failure = f, on_loopback = l\<rparr>"

definition plain_phase :: "string \<Rightarrow> phase_role \<Rightarrow> phase_transition \<Rightarrow> phase_definition" where
  "plain_phase dr r t =
     \<lparr>drain = dr, transitions = t, role = Some r, skip_invocation = False, retry_policy = None,
      loop_policy = None, decisions = [], commit_policy = None, terminal_outcome = None,
      bypass_routes = [], result_status_post_commit = [], clean_outcome = None,
      issues_outcome = None, parallelization = None, workflow_fallback = None,
      invocation_gate = None\<rparr>"

definition loop_on :: "string \<Rightarrow> phase_loop_policy" where
  "loop_on f = \<lparr>iteration_state_field = f, loopback_review_outcome = None\<rparr>"

definition decided_by :: "string \<Rightarrow> bool \<Rightarrow> string option \<Rightarrow> phase_decision_route" where
  "decided_by t r c = \<lparr>dr_target = t, reset_loop = r, dr_cycle_outcome = c, dr_increments_counter = None\<rparr>"

definition default_phases :: "phase_definition dict" where
  "default_phases =
    [(''planning'', plain_phase ''planning'' Execution
        (simple_transition ''planning_analysis'' None None)),
     (''planning_analysis'', (plain_phase ''planning_analysis'' Analysis
        (simple_transition ''development'' None (Some ''planning'')))
        \<lparr>loop_policy := Some (loop_on ''planning_analysis_iteration''),
         decisions := [(''completed'', decided_by ''development'' True None),
                       (''request_changes'', decided_by ''planning'' False None),
                       (''failed'', decided_by ''planning'' False None)]\<rparr>),
     (''development'', (plain_phase ''development'' Execution
        (simple_transition ''development_commit_cleanup'' None (Some ''development'')))
        \<lparr>parallelization := Some \<lparr>agent_subagents = True, max_parallel_workers = 8,
                                 post_fanout_verification = False\<rparr>\<rparr>),
     (''development_commit_cleanup'', (plain_phase ''commit'' Commit_cleanup
        (simple_transition ''development_commit'' (Some ''development_commit'')
           (Some ''development_commit_cleanup'')))
        \<lparr>loop_policy := Some (loop_on ''commit_cleanup_iteration'')\<rparr>),
     (''development_commit'', (plain_phase ''development_commit'' Commit
        (simple_transition ''development_analysis'' (Some ''failed_terminal'') None))
        \<lparr>commit_policy := Some \<lparr>requires_artifact = True, skipped_advances_progress = False,
           cp_increments_counter = None, route_counter = None,
           cp_loop_resets = [''commit_cleanup_iteration'']\<rparr>\<rparr>),
     (''development_analysis'', (plain_phase ''development_analysis'' Analysis
        (simple_transition ''development_final_commit_cleanup'' None (Some ''development'')))
        \<lparr>loop_policy := Some (loop_on ''development_analysis_iteration''),
         decisions := [(''completed'', decided_by ''development_final_commit_cleanup'' True (Some ''completed'')),
                       (''request_changes'', decided_by ''development'' False None),
                       (''failed'', decided_by ''development'' False None)],
         invocation_gate := Some \<lparr>upstream_execution_phase = ''development'',
           minimum_elapsed_seconds = 900, always_invoke_statuses = [''partial'', ''failed'']\<rparr>\<rparr>),
     (''development_final_commit_cleanup'', (plain_phase ''commit'' Commit_cleanup
        (simple_transition ''development_final_commit'' (Some ''development_final_commit'')
           (Some ''development_final_commit_cleanup'')))
        \<lparr>loop_policy := Some (loop_on ''commit_cleanup_iteration'')\<rparr>),
     (''development_final_commit'', (plain_phase ''development_commit'' Commit
        (simple_transition ''complete'' (Some ''failed_terminal'') None))
        \<lparr>commit_policy := Some \<lparr>requires_artifact = True, skipped_advances_progress = True,
           cp_increments_counter = Some ''iteration'', route_counter = None,
           cp_loop_resets = [''development_analysis_iteration'', ''commit_cleanup_iteration'']\<rparr>\<rparr>),
     (''complete'', (plain_phase ''complete'' Terminal
        (simple_transition ''complete'' None (Some ''complete'')))
        \<lparr>terminal_outcome := Some ''success''\<rparr>),
     (''failed_terminal'', (plain_phase ''failed_terminal'' Terminal
        (simple_transition ''failed_terminal'' None (Some ''failed_terminal'')))
        \<lparr>terminal_outcome := Some ''failure''\<rparr>)]"

definition after_final_commit :: "string \<Rightarrow> string \<Rightarrow> string \<Rightarrow> post_commit_route" where
  "after_final_commit b c t =
     \<lparr>when_phase = ''development_final_commit'', when_budget_state = b,
      when_cycle_outcome = Some c, pc_target = t\<rparr>"

definition default_policy :: pipeline_policy where
  "default_policy =
     \<lparr>phases = default_phases,
      entry_block = Some ''developer_iteration'',
      entry_phase = ''planning'',
      terminal_phase = ''complete'',
      loop_counters = [(''development_analysis_iteration'', \<lparr>lc_default_max = 5\<rparr>),
                       (''planning_analysis_iteration'', \<lparr>lc_default_max = 3\<rparr>),
                       (''commit_cleanup_iteration'', \<lparr>lc_default_max = 3\<rparr>),
                       (''commit_cleanup_identity'', \<lparr>lc_default_max = 3\<rparr>)],
      budget_counters = [(''iteration'', \<lparr>tracks_budget = True, bc_default_max = 5\<rparr>)],
      post_commit_routes =
        [after_final_commit ''remaining'' ''completed'' ''planning'',
         after_final_commit ''exhausted'' ''completed'' ''complete'',
         after_final_commit ''no_review'' ''completed'' ''complete'',
         after_final_commit ''remaining'' ''failed'' ''planning'',
         after_final_commit ''exhausted'' ''failed'' ''failed_terminal'',
         after_final_commit ''no_review'' ''failed'' ''failed_terminal''],
      lifecycle_phases =
        [(''development_final_commit'',
          \<lparr>lifecycle_name = ''developer_iteration'', completion_block = ''development_final_commit'',
           lf_increments_counter = Some ''iteration'',
           lf_loop_resets = [''development_analysis_iteration'', ''commit_cleanup_iteration'']\<rparr>)],
      default_phase_retry_policy =
        \<lparr>max_retries = 3, retry_delay_ms = 1000, retry_in_session_default = False\<rparr>,
      recovery = \<lparr>policy_cycle_cap = 200, failed_route = ''failed_terminal'',
                  terminal_failure_phase = Some ''failed_terminal''\<rparr>,
      development_timebox = Some
        \<lparr>dt_duration_seconds = 5400, warning_seconds = 4200,
         dt_start_source = ''planning_analysis'', dt_start_entry = ''development'',
         dt_guarded_entry = ''development'', dt_end_entry = ''development_commit'',
         dt_finalization_target = ''development_commit_cleanup''\<rparr>,
      cycle_timebox = Some
        \<lparr>ct_duration_seconds = 36000,
         ct_start_source = ''planning_analysis'', ct_start_entry = ''development'',
         ct_guarded_entry = ''development'', ct_end_entry = ''development_final_commit'',
         ct_finalization_target = ''development_final_commit_cleanup'',
         finalization_cycle_outcome = ''completed''\<rparr>\<rparr>"

lemma default_policy_ok: "validate_policy default_policy"
  by code_simp

text \<open>
  the bundled workflow is a valid policy: it passes every validator, the routability of
  recordable cycle outcomes and the shape of both timeboxes included.
\<close>

theorem default_policy_valid: "validate_policy default_policy"
  by (rule default_policy_ok)

end
