(* ===== verification/State_Machine.thy ===== *)
theory State_Machine
  imports Progress Fan_Out Default_Policy
begin

text \<open>
  The progression authorities: terminal-success eligibility
  (\<^verbatim>\<open>ralph/pipeline/_terminal_authority.py\<close>) and the typed phase decision
  (\<^verbatim>\<open>ralph/pipeline/_pipeline_state_machine.py\<close>).

  The integration record is only tested for presence here, so it is a Boolean.  The answer of
  the owner seam for a workspace root is the argument \<open>seam\<close>: \<open>None\<close> is a call without a root,
  which is how the reducer calls.  \<^verbatim>\<open>_is_terminal_failure\<close> cannot raise with a loaded policy.
\<close>

datatype integration_action =
    Resolve_active_operation | Continue_git_operation | Reintegrate_against_target | Land_target
  | Publish_after_landing | Wait_for_bounded_retry | Require_intervention | Complete_with_proof

datatype owner_answer = Owner_action integration_action | Record_fact string

datatype phase_decision =
    Continue_phase | Advance_phase | Block_for_recovery | Report_terminal_success
  | Report_terminal_failure | Report_intervention_required

fun decision_value :: "phase_decision \<Rightarrow> string" where
  "decision_value Continue_phase = ''continue_phase''"
| "decision_value Advance_phase = ''advance_phase''"
| "decision_value Block_for_recovery = ''block_for_recovery''"
| "decision_value Report_terminal_success = ''report_terminal_success''"
| "decision_value Report_terminal_failure = ''report_terminal_failure''"
| "decision_value Report_intervention_required = ''report_intervention_required''"

definition is_terminal_success_eligible :: "pstate option \<Rightarrow> bool \<Rightarrow> rebase_state \<Rightarrow> bool" where
  "is_terminal_success_eligible s has_record r =
     (let cached = last_fan_out_decision r;
          live = (case s of None \<Rightarrow> cached
            | Some st \<Rightarrow>
                (let canonical = fan_out_value (fan_out_decision st)
                 in if cached = None \<or> cached = Some canonical then Some canonical
                    else Some (fan_out_value Join_blocked)))
      in \<not> (has_record
            \<or> integration_unresolved r
            \<or> recovery_record_retained r
            \<or> is_intervention_required r
            \<or> (last_publication_decision r \<noteq> None
               \<and> last_publication_decision r \<noteq> Some (publication_value Publication_terminal))
            \<or> (live \<noteq> None \<and> live \<noteq> Some (fan_out_value Join_complete))))"

definition blocking_actions :: "integration_action list" where
  "blocking_actions = [Resolve_active_operation, Continue_git_operation, Reintegrate_against_target,
     Land_target, Wait_for_bounded_retry]"

definition owner_action :: "owner_answer option \<Rightarrow> owner_answer" where
  "owner_action seam = (case seam of None \<Rightarrow> Owner_action Resolve_active_operation | Some a \<Rightarrow> a)"

definition check_blocking_decision :: "bool \<Rightarrow> rebase_state \<Rightarrow> owner_answer option \<Rightarrow> phase_decision option" where
  "check_blocking_decision has_record r seam =
     (if has_record \<and> (case owner_action seam of Owner_action a \<Rightarrow> a \<in> set blocking_actions | Record_fact _ \<Rightarrow> True)
        then Some Block_for_recovery
      else if is_intervention_required r
        then (if last_outcome r = Some Ladder_escalation then Some Block_for_recovery
              else Some Report_intervention_required)
      else if ((last_outcome r = Some Rebased \<or> last_outcome r = Some Merged) \<and> \<not> fast_forwarded r)
              \<or> integration_unresolved r \<or> recovery_record_retained r
        then Some Block_for_recovery
      else None)"

definition is_terminal_failure :: "string \<Rightarrow> pipeline_policy option \<Rightarrow> bool" where
  "is_terminal_failure ph p = (case p of None \<Rightarrow> False
     | Some pol \<Rightarrow> failed_route (recovery pol) \<noteq> terminal_phase pol \<and> ph = failed_route (recovery pol))"

definition decision_terminals :: "pipeline_policy \<Rightarrow> string set" where
  "decision_terminals p = terminal_states p \<union> (if terminal_phase p = [] then {} else {terminal_phase p})"

definition candidate_phase :: "pstate \<Rightarrow> pipeline_policy \<Rightarrow> string option" where
  "candidate_phase s p = (case resolve_next_phase (phase s) ''success'' p of
     Inr t \<Rightarrow> Some t
   | Inl _ \<Rightarrow> if phase s \<in> decision_terminals p then Some (phase s) else None)"

definition decide_phase_transition ::
  "pstate \<Rightarrow> pipeline_policy option \<Rightarrow> bool \<Rightarrow> rebase_state \<Rightarrow> owner_answer option \<Rightarrow> phase_decision" where
  "decide_phase_transition s p has_record r seam =
     (case check_blocking_decision has_record r seam of
        Some d \<Rightarrow> d
      | None \<Rightarrow> (case p of
          None \<Rightarrow> Continue_phase
        | Some pol \<Rightarrow> (case candidate_phase s pol of
            None \<Rightarrow> Report_terminal_failure
          | Some t \<Rightarrow>
              if t \<in> decision_terminals pol
                then (if is_terminal_failure t p then Report_terminal_failure
                      else if \<not> is_terminal_success_eligible (Some s) has_record r then Block_for_recovery
                      else Report_terminal_success)
              else if t = phase s then Continue_phase
              else Advance_phase)))"

section \<open>Lemmas\<close>

lemma eligible_facts:
  assumes "is_terminal_success_eligible (Some s) has_record r"
  shows "\<not> has_record" "\<not> integration_unresolved r" "\<not> recovery_record_retained r"
    "\<not> is_intervention_required r"
    "last_publication_decision r = None \<or> last_publication_decision r = Some (publication_value Publication_terminal)"
    "fan_out_decision s = Join_complete"
    "last_fan_out_decision r = None \<or> last_fan_out_decision r = Some (fan_out_value Join_complete)"
  using assms
  by (auto simp: is_terminal_success_eligible_def Let_def simp del: fan_out_value.simps split: if_splits)

lemma intervention_is_unresolved: "is_intervention_required r \<Longrightarrow> integration_unresolved r"
  by (auto simp: is_intervention_required_def integration_unresolved_def split: option.splits)

lemma blocking_iff_without_root:
  "check_blocking_decision has_record r None = None \<longleftrightarrow>
     \<not> has_record \<and> \<not> integration_unresolved r
     \<and> \<not> ((last_outcome r = Some Rebased \<or> last_outcome r = Some Merged) \<and> \<not> fast_forwarded r)"
  by (auto simp: check_blocking_decision_def owner_action_def blocking_actions_def integration_unresolved_def
      dest: intervention_is_unresolved [unfolded integration_unresolved_def])

lemma success_reported_iff:
  "decide_phase_transition s p has_record r seam = Report_terminal_success \<longleftrightarrow>
     check_blocking_decision has_record r seam = None
     \<and> (\<exists>pol t. p = Some pol \<and> candidate_phase s pol = Some t \<and> t \<in> decision_terminals pol
          \<and> \<not> is_terminal_failure t p \<and> is_terminal_success_eligible (Some s) has_record r)"
  by (auto simp: decide_phase_transition_def check_blocking_decision_def split: option.splits)

text \<open>
  C3: success is never reported over an open obligation.  When the progression authority answers
  that the run may report terminal success, no integration record is held, the rebase state is
  neither unresolved nor retained nor waiting for an intervention, the publication authority has
  nothing pending, every worker of a fan-out has succeeded and the cached join projection agrees,
  and the next phase is a terminal one that is not the failure route.
\<close>

theorem success_needs_every_authority:
  assumes "decide_phase_transition s (Some p) has_record r seam = Report_terminal_success"
  shows "\<not> has_record \<and> \<not> integration_unresolved r \<and> \<not> recovery_record_retained r
    \<and> \<not> is_intervention_required r
    \<and> (last_outcome r = Some Rebased \<or> last_outcome r = Some Merged \<longrightarrow> fast_forwarded r)
    \<and> (last_publication_decision r = None
       \<or> last_publication_decision r = Some (publication_value Publication_terminal))
    \<and> (\<forall>w\<in>set (map snd (worker_states s)). status w = W_SUCCEEDED)
    \<and> (last_fan_out_decision r = None \<or> last_fan_out_decision r = Some (fan_out_value Join_complete))
    \<and> (\<exists>t. candidate_phase s p = Some t \<and> t \<in> decision_terminals p
           \<and> (failed_route (recovery p) = terminal_phase p \<or> t \<noteq> failed_route (recovery p)))"
proof -
  from assms obtain t where t: "candidate_phase s p = Some t" "t \<in> decision_terminals p"
      "\<not> is_terminal_failure t (Some p)"
    and el: "is_terminal_success_eligible (Some s) has_record r"
    and blk: "check_blocking_decision has_record r seam = None"
    by (auto simp: success_reported_iff)
  have "last_outcome r = Some Rebased \<or> last_outcome r = Some Merged \<longrightarrow> fast_forwarded r"
    using blk by (auto simp: check_blocking_decision_def split: if_splits)
  moreover have "failed_route (recovery p) = terminal_phase p \<or> t \<noteq> failed_route (recovery p)"
    using t(3) by (auto simp: is_terminal_failure_def)
  ultimately show ?thesis
    using eligible_facts [OF el] t(1,2) fan_out_complete_iff [of s] by blast
qed

definition finished_run :: pstate where
  "finished_run = (blank_state ''complete'')
     \<lparr>rebase := new_rebase_state\<lparr>last_outcome := Some Rebased, fast_forwarded := True\<rparr>\<rparr>"

lemma finished_run_reports:
  "decide_phase_transition finished_run (Some default_policy) False (rebase finished_run) None
   = Report_terminal_success"
  by code_simp

theorem success_needs_every_authority_witness:
  "\<not> integration_unresolved (rebase finished_run)
   \<and> decide_phase_transition finished_run (Some default_policy) False (rebase finished_run) None
     = Report_terminal_success
   \<and> decide_phase_transition finished_run (Some default_policy) True (rebase finished_run) None
     = Block_for_recovery"
  using success_needs_every_authority [OF finished_run_reports] finished_run_reports
  by (simp add: decide_phase_transition_def check_blocking_decision_def owner_action_def blocking_actions_def)

end
