(* ===== verification/Ledger.thy ===== *)
theory Ledger
  imports Prelude "HOL-Library.Product_Lexorder"
begin

text \<open>
  The agent failure ledger (\<^verbatim>\<open>ralph/recovery/agent_failure_ledger.py\<close>): the single owner of
  failure counts, cooldowns and demotion per (phase, agent) pair.

  The Python object mutates its entries, also on a status read (an elapsed cooldown is
  cleared), so every operation here returns the updated ledger.  The lock is taken for the
  whole of each operation and each operation is one function, so it is not represented; the
  injected clock is an argument.  Snapshots are decoded JSON objects.  Error messages that
  print floats are cut before the number.
\<close>

section \<open>Data\<close>

record attempt_fact =
  fact_phase :: string
  fact_agent :: string
  artifact_valid :: bool
  workspace_changed :: bool
  free_retry_category :: bool

datatype agent_status = Eligible | Cooldown int string | Spent string

record attempt_outcome =
  outcome_status :: agent_status
  outcome_consecutive :: int
  outcome_total :: int

definition demoted :: "attempt_outcome \<Rightarrow> bool" where
  "demoted out = (outcome_status out \<noteq> Eligible)"

definition outcome_reason :: "attempt_outcome \<Rightarrow> string option" where
  "outcome_reason out = (case outcome_status out of Eligible \<Rightarrow> None
     | Cooldown _ r \<Rightarrow> Some r | Spent r \<Rightarrow> Some r)"

record ledger_entry =
  consecutive_unproductive :: int
  total_unproductive :: int
  cooldown_until_ms :: "int option"
  cooldown_reason :: "string option"
  cooldown_count :: int
  is_spent :: bool
  spent_reason :: "string option"

definition fresh_entry :: ledger_entry where
  "fresh_entry = \<lparr>consecutive_unproductive = 0, total_unproductive = 0, cooldown_until_ms = None,
     cooldown_reason = None, cooldown_count = 0, is_spent = False, spent_reason = None\<rparr>"

definition cooldown_reason_consecutive :: string where
  "cooldown_reason_consecutive = ''consecutive_unproductive_limit_reached''"

definition spent_reason_total :: string where
  "spent_reason_total = ''total_unproductive_limit_reached''"

record ledger =
  consecutive_limit :: int
  total_limit :: int
  base_cooldown_seconds :: real
  max_cooldown_seconds :: real
  backoff_factor :: real
  entries :: "(string \<times> string, ledger_entry) pydict"

definition new_ledger :: "int \<Rightarrow> int \<Rightarrow> real \<Rightarrow> real \<Rightarrow> real \<Rightarrow> ledger res" where
  "new_ledger cl tot base mx bf =
     (if cl \<le> 0 then Inl (ValueError (''consecutive_limit must be positive, got '' @ str_int cl))
      else if tot \<le> 0 then Inl (ValueError (''total_limit must be positive, got '' @ str_int tot))
      else if base \<le> 0 then Inl (ValueError ''base_cooldown_seconds must be positive'')
      else if mx < base then Inl (ValueError ''max_cooldown_seconds must be greater than or equal to base_cooldown_seconds'')
      else if bf < 1 then Inl (ValueError ''backoff_factor must be >= 1.0'')
      else Inr \<lparr>consecutive_limit = cl, total_limit = tot, base_cooldown_seconds = base,
                max_cooldown_seconds = mx, backoff_factor = bf, entries = []\<rparr>)"

section \<open>Status and recording\<close>

definition sync_cooldown_expiry :: "ledger_entry \<Rightarrow> int \<Rightarrow> ledger_entry" where
  "sync_cooldown_expiry e now =
     (if is_spent e then e
      else case cooldown_until_ms e of
        Some u \<Rightarrow> if u \<le> now then e\<lparr>cooldown_until_ms := None, cooldown_reason := None,
                                  consecutive_unproductive := 0\<rparr> else e
      | None \<Rightarrow> e)"

definition entry_status :: "ledger_entry \<Rightarrow> agent_status" where
  "entry_status e = (case cooldown_until_ms e of
     Some u \<Rightarrow> Cooldown u (or_else (cooldown_reason e) cooldown_reason_consecutive)
   | None \<Rightarrow> Eligible)"

definition status_locked :: "ledger \<Rightarrow> string \<Rightarrow> string \<Rightarrow> int \<Rightarrow> ledger \<times> agent_status" where
  "status_locked l ph ag now =
     (case dget (entries l) (ph, ag) of
        None \<Rightarrow> (l, Eligible)
      | Some e \<Rightarrow>
          if is_spent e then (l, Spent (or_else (spent_reason e) spent_reason_total))
          else let e' = sync_cooldown_expiry e now
               in (l\<lparr>entries := dset (ph, ag) e' (entries l)\<rparr>, entry_status e'))"

definition ledger_status :: "clock \<Rightarrow> ledger \<Rightarrow> string \<Rightarrow> string \<Rightarrow> ledger \<times> agent_status" where
  "ledger_status c l ph ag = status_locked l ph ag (mono_ms c)"

definition is_available :: "clock \<Rightarrow> ledger \<Rightarrow> string \<Rightarrow> string \<Rightarrow> ledger \<times> bool" where
  "is_available c l ph ag = (let (l', st) = ledger_status c l ph ag in (l', st = Eligible))"

fun earliest_wait_loop :: "ledger \<Rightarrow> string \<Rightarrow> int \<Rightarrow> int list \<Rightarrow> string list \<Rightarrow> ledger \<times> int" where
  "earliest_wait_loop l ph now remaining [] =
     (l, if remaining = [] then 0 else Min (set remaining))"
| "earliest_wait_loop l ph now remaining (ag # ags) =
     (case status_locked l ph ag now of
        (l', Eligible) \<Rightarrow> (l', 0)
      | (l', Cooldown u _) \<Rightarrow> earliest_wait_loop l' ph now (remaining @ [max 0 (u - now)]) ags
      | (l', Spent _) \<Rightarrow> earliest_wait_loop l' ph now remaining ags)"

definition earliest_wait_ms :: "clock \<Rightarrow> ledger \<Rightarrow> string \<Rightarrow> string list \<Rightarrow> ledger \<times> int" where
  "earliest_wait_ms c l ph ags = earliest_wait_loop l ph (mono_ms c) [] ags"

definition cooldown_duration_ms :: "ledger \<Rightarrow> int \<Rightarrow> int" where
  "cooldown_duration_ms l n =
     py_trunc (min (base_cooldown_seconds l * power_int (backoff_factor l) (min n 30))
                   (max_cooldown_seconds l) * 1000)"

definition count_attempt :: "attempt_fact \<Rightarrow> ledger_entry \<Rightarrow> ledger_entry" where
  "count_attempt att e =
     (if workspace_changed att
        then e\<lparr>consecutive_unproductive := 0, total_unproductive := total_unproductive e + 1\<rparr>
        else e\<lparr>consecutive_unproductive := consecutive_unproductive e + 1,
               total_unproductive := total_unproductive e + 1\<rparr>)"

definition record_entry :: "ledger \<Rightarrow> int \<Rightarrow> attempt_fact \<Rightarrow> ledger_entry \<Rightarrow> ledger_entry \<times> attempt_outcome" where
  "record_entry l now att e0 =
     (if artifact_valid att
        then (fresh_entry, \<lparr>outcome_status = Eligible, outcome_consecutive = 0, outcome_total = 0\<rparr>)
      else
        let e = count_attempt att e0;
            outcome = (\<lambda>st. \<lparr>outcome_status = st, outcome_consecutive = consecutive_unproductive e,
                             outcome_total = total_unproductive e\<rparr>)
        in if total_limit l \<le> total_unproductive e
             then (e\<lparr>is_spent := True, spent_reason := Some spent_reason_total,
                     cooldown_until_ms := None, cooldown_reason := None\<rparr>,
                   outcome (Spent spent_reason_total))
           else if consecutive_limit l \<le> consecutive_unproductive e
             then let until = now + cooldown_duration_ms l (cooldown_count e)
                  in (e\<lparr>cooldown_until_ms := Some until,
                        cooldown_reason := Some cooldown_reason_consecutive,
                        cooldown_count := cooldown_count e + 1\<rparr>,
                      outcome (Cooldown until cooldown_reason_consecutive))
           else (e, outcome Eligible))"

definition record_attempt :: "clock \<Rightarrow> ledger \<Rightarrow> attempt_fact \<Rightarrow> ledger \<times> attempt_outcome" where
  "record_attempt c l att =
     (let key = (fact_phase att, fact_agent att);
          now = mono_ms c;
          e = (case dget (entries l) key of None \<Rightarrow> fresh_entry | Some e \<Rightarrow> e);
          (e', out) = record_entry l now att (sync_cooldown_expiry e now)
      in (l\<lparr>entries := dset key e' (entries l)\<rparr>, out))"

section \<open>Snapshots\<close>

definition jopt_int :: "int option \<Rightarrow> json" where
  "jopt_int x = (case x of None \<Rightarrow> JNull | Some i \<Rightarrow> JInt i)"

definition jopt_str :: "string option \<Rightarrow> json" where
  "jopt_str x = (case x of None \<Rightarrow> JNull | Some t \<Rightarrow> JStr t)"

definition entry_key :: "string \<Rightarrow> string \<Rightarrow> string" where
  "entry_key ph ag = ph @ '':'' @ ag"

definition snapshot_entry :: "clock \<Rightarrow> string \<Rightarrow> string \<Rightarrow> ledger_entry \<Rightarrow> json dict" where
  "snapshot_entry c ph ag e =
     [(''phase'', JStr ph), (''agent'', JStr ag),
      (''consecutive_unproductive'', JInt (consecutive_unproductive e)),
      (''total_unproductive'', JInt (total_unproductive e)),
      (''cooldown_until_ms'', jopt_int (cooldown_until_ms e)),
      (''cooldown_until_epoch_ms'', jopt_int (map_option (\<lambda>u. epoch_ms c + max 0 (u - mono_ms c)) (cooldown_until_ms e))),
      (''cooldown_reason'', jopt_str (cooldown_reason e)),
      (''cooldown_count'', JInt (cooldown_count e)),
      (''is_spent'', JBool (is_spent e)),
      (''spent_reason'', jopt_str (spent_reason e))]"

definition ledger_snapshot :: "clock \<Rightarrow> ledger \<Rightarrow> json dict" where
  "ledger_snapshot c l =
     [(''consecutive_limit'', JInt (consecutive_limit l)),
      (''total_limit'', JInt (total_limit l)),
      (''base_cooldown_seconds'', JFloat (base_cooldown_seconds l)),
      (''max_cooldown_seconds'', JFloat (max_cooldown_seconds l)),
      (''backoff_factor'', JFloat (backoff_factor l)),
      (''entries'', JObj (foldl (\<lambda>d ((ph, ag), e). dset (entry_key ph ag) (JObj (snapshot_entry c ph ag e)) d)
                          [] (entries l)))]"

text \<open>\<^verbatim>\<open>int(x) if isinstance(x, (int, float, str)) else d\<close>, and the same for \<^verbatim>\<open>float\<close>; a
  boolean is an \<^verbatim>\<open>int\<close>.\<close>

definition int_or :: "json option \<Rightarrow> int \<Rightarrow> int res" where
  "int_or x d = (case x of
     Some (JBool b) \<Rightarrow> Inr (if b then 1 else 0)
   | Some (JInt i) \<Rightarrow> Inr i
   | Some (JFloat r) \<Rightarrow> Inr (py_trunc r)
   | Some (JStr t) \<Rightarrow> (case py_int t of Some i \<Rightarrow> Inr i
       | None \<Rightarrow> Inl (ValueError ''invalid literal for int() with base 10''))
   | _ \<Rightarrow> Inr d)"

definition float_or :: "json option \<Rightarrow> real \<Rightarrow> real res" where
  "float_or x d = (case x of
     Some (JBool b) \<Rightarrow> Inr (if b then 1 else 0)
   | Some (JInt i) \<Rightarrow> Inr (of_int i)
   | Some (JFloat r) \<Rightarrow> Inr r
   | Some (JStr t) \<Rightarrow> (case py_float t of Some r \<Rightarrow> Inr r
       | None \<Rightarrow> Inl (ValueError ''could not convert string to float''))
   | _ \<Rightarrow> Inr d)"

definition str_or_none :: "json option \<Rightarrow> string option" where
  "str_or_none x = (case x of Some (JStr t) \<Rightarrow> Some t | _ \<Rightarrow> None)"

definition json_true :: "json option \<Rightarrow> bool" where
  "json_true x = (case x of None \<Rightarrow> False | Some j \<Rightarrow> json_bool j)"

definition restored_cooldown_until_ms :: "json dict \<Rightarrow> int \<Rightarrow> int \<Rightarrow> int \<Rightarrow> int option" where
  "restored_cooldown_until_ms item now_mono now_epoch max_cooldown =
     (let clamp = (\<lambda>remaining. Some (now_mono + min (max remaining 0) max_cooldown))
      in case dget item ''cooldown_until_epoch_ms'' of
           Some (JInt i) \<Rightarrow> clamp (i - now_epoch)
         | Some (JFloat r) \<Rightarrow> clamp (py_trunc r - now_epoch)
         | _ \<Rightarrow> (case dget item ''cooldown_until_ms'' of
               Some (JInt i) \<Rightarrow> clamp (i - now_mono)
             | Some (JFloat r) \<Rightarrow> clamp (py_trunc r - now_mono)
             | Some (JStr t) \<Rightarrow> (case py_float t of
                   Some r \<Rightarrow> clamp (py_trunc r - now_mono)
                 | None \<Rightarrow> None)
             | _ \<Rightarrow> None))"

definition translate_legacy_entry :: "json dict \<Rightarrow> string \<Rightarrow> string \<Rightarrow> int \<Rightarrow> int \<Rightarrow> json dict res" where
  "translate_legacy_entry guard ph ag cl tot =
     rbind (case dget guard ''streak'' of Some (JBool _) \<Rightarrow> Inr 0 | x \<Rightarrow> int_or x 0) (\<lambda>raw.
       let streak = max 0 raw;
           spent = (json_true (dget guard ''is_exhausted'') \<or> json_true (dget guard ''failed_closed'')
                    \<or> cl \<le> streak);
           consecutive = (if spent then max streak cl else min streak cl)
       in Inr [(''phase'', JStr ph), (''agent'', JStr ag),
               (''consecutive_unproductive'', JInt consecutive),
               (''total_unproductive'', JInt (min consecutive tot)),
               (''cooldown_until_ms'', JNull), (''cooldown_reason'', JNull),
               (''cooldown_count'', JInt 0), (''is_spent'', JBool spent),
               (''spent_reason'', if spent then JStr ''legacy_exhausted'' else JNull)])"

definition from_legacy_snapshot :: "json dict \<Rightarrow> ledger res" where
  "from_legacy_snapshot guard =
     rbind (new_ledger 3 9 60 3600 2) (\<lambda>l.
     rbind (translate_legacy_entry guard ''development'' ''claude'' 3 9) (\<lambda>d.
     rbind (int_or (dget d ''consecutive_unproductive'') 0) (\<lambda>cu.
     rbind (int_or (dget d ''total_unproductive'') 0) (\<lambda>tu.
       Inr (l\<lparr>entries := dset (''development'', ''claude'')
              \<lparr>consecutive_unproductive = cu, total_unproductive = tu, cooldown_until_ms = None,
               cooldown_reason = None, cooldown_count = 0,
               is_spent = json_true (dget d ''is_spent''),
               spent_reason = str_or_none (dget d ''spent_reason'')\<rparr> (entries l)\<rparr>)))))"

definition restore_entry :: "clock \<Rightarrow> ledger \<Rightarrow> json \<Rightarrow> ledger res" where
  "restore_entry c l item =
     (case item of
        JObj d \<Rightarrow>
          (case (dget d ''phase'', dget d ''agent'') of
             (Some (JStr ph), Some (JStr ag)) \<Rightarrow>
               if ph = [] \<or> ag = [] then Inr l
               else
                 rbind (int_or (dget d ''consecutive_unproductive'') 0) (\<lambda>cu.
                 rbind (int_or (dget d ''total_unproductive'') 0) (\<lambda>tu.
                 rbind (int_or (dget d ''cooldown_count'') 0) (\<lambda>cc.
                   Inr (l\<lparr>entries := dset (ph, ag)
                     \<lparr>consecutive_unproductive = cu, total_unproductive = tu,
                      cooldown_until_ms = restored_cooldown_until_ms d (mono_ms c) (epoch_ms c)
                        (py_trunc (max_cooldown_seconds l * 1000)),
                      cooldown_reason = str_or_none (dget d ''cooldown_reason''),
                      cooldown_count = cc,
                      is_spent = json_true (dget d ''is_spent''),
                      spent_reason = str_or_none (dget d ''spent_reason'')\<rparr> (entries l)\<rparr>))))
           | _ \<Rightarrow> Inr l)
      | _ \<Rightarrow> Inr l)"

definition ledger_from_snapshot :: "clock \<Rightarrow> json dict \<Rightarrow> ledger res" where
  "ledger_from_snapshot c snap =
     (if \<not> din ''entries'' snap
         \<and> (din ''streak'' snap \<or> din ''max_identical'' snap \<or> din ''failed_closed'' snap)
        then from_legacy_snapshot snap
      else
        rbind (int_or (dget snap ''consecutive_limit'') 3) (\<lambda>cl.
        rbind (int_or (dget snap ''total_limit'') 9) (\<lambda>tot.
        rbind (float_or (dget snap ''base_cooldown_seconds'') 60) (\<lambda>base.
        rbind (float_or (dget snap ''max_cooldown_seconds'') 3600) (\<lambda>mx.
        rbind (float_or (dget snap ''backoff_factor'') 2) (\<lambda>bf.
        rbind (new_ledger cl tot base mx bf) (\<lambda>l.
          case dget snap ''entries'' of
            Some (JObj raw) \<Rightarrow> foldl (\<lambda>acc (_, item). rbind acc (\<lambda>l. restore_entry c l item)) (Inr l) raw
          | _ \<Rightarrow> Inr l)))))))"

section \<open>Migration of legacy failure history\<close>

record legacy_guard_source =
  lg_payload :: json
  lg_phase :: string
  lg_agent :: "string option"
  candidate_agents :: "string list"
  fail_closed_reason :: "string option"

definition counter_value :: "json option \<Rightarrow> int" where
  "counter_value raw = (case raw of
     Some (JInt i) \<Rightarrow> max 0 i
   | Some (JFloat r) \<Rightarrow> max 0 (py_trunc r)
   | Some (JStr t) \<Rightarrow> (case py_int (strip t) of Some i \<Rightarrow> max 0 i | None \<Rightarrow> 0)
   | _ \<Rightarrow> 0)"

definition float_value :: "json option \<Rightarrow> real \<Rightarrow> real" where
  "float_value raw d = (case raw of
     Some (JInt i) \<Rightarrow> of_int i
   | Some (JFloat r) \<Rightarrow> r
   | Some (JStr t) \<Rightarrow> (case py_float (strip t) of Some r \<Rightarrow> r | None \<Rightarrow> d)
   | _ \<Rightarrow> d)"

definition readable_streak :: "json \<Rightarrow> int option" where
  "readable_streak raw = (case raw of
     JInt i \<Rightarrow> if 0 \<le> i then Some i else None
   | JFloat r \<Rightarrow> if 0 \<le> r then Some (py_trunc r) else None
   | JStr t \<Rightarrow> (case py_int (strip t) of Some i \<Rightarrow> if 0 \<le> i then Some i else None | None \<Rightarrow> None)
   | _ \<Rightarrow> None)"

definition readable_legacy_field :: "string \<Rightarrow> json \<Rightarrow> bool" where
  "readable_legacy_field field raw =
     (if field = ''streak'' then readable_streak raw \<noteq> None
      else if field = ''max_identical'' then
        (case raw of JInt _ \<Rightarrow> 0 < counter_value (Some raw) | JFloat _ \<Rightarrow> 0 < counter_value (Some raw)
         | JStr _ \<Rightarrow> 0 < counter_value (Some raw) | _ \<Rightarrow> False)
      else (case raw of JNull \<Rightarrow> True | JBool _ \<Rightarrow> True | _ \<Rightarrow> False))"

definition readable_legacy_payload :: "json \<Rightarrow> json dict option" where
  "readable_legacy_payload payload =
     (let fields = [''streak'', ''max_identical'', ''is_exhausted'', ''failed_closed'']
      in case payload of
        JObj d \<Rightarrow>
          if \<not> list_ex (\<lambda>f. din f d) fields then None
          else if list_all (\<lambda>f. case dget d f of None \<Rightarrow> True | Some raw \<Rightarrow> readable_legacy_field f raw) fields
            then Some d else None
      | _ \<Rightarrow> None)"

definition legacy_identities :: "legacy_guard_source \<Rightarrow> (string \<times> string) list" where
  "legacy_identities src =
     (if truthy (lg_agent src) then [(lg_phase src, or_else (lg_agent src) [])]
      else if candidate_agents src \<noteq> [] then map (\<lambda>a. (lg_phase src, a)) (candidate_agents src)
      else [(lg_phase src, ''claude'')])"

definition failed_closed_entry :: "string \<Rightarrow> string \<Rightarrow> string \<Rightarrow> int \<Rightarrow> int \<Rightarrow> json dict" where
  "failed_closed_entry ph ag reason cl tot =
     [(''phase'', JStr ph), (''agent'', JStr ag),
      (''consecutive_unproductive'', JInt cl), (''total_unproductive'', JInt tot),
      (''cooldown_until_ms'', JNull), (''cooldown_reason'', JNull), (''cooldown_count'', JInt 0),
      (''is_spent'', JBool True), (''spent_reason'', JStr reason)]"

definition entry_strictness :: "json dict \<Rightarrow> int \<Rightarrow> int \<Rightarrow> int \<times> int \<times> int \<times> int" where
  "entry_strictness e cl tot =
     (let spent = (if json_true (dget e ''is_spent'') then 0 else 1);
          consecutive = counter_value (dget e ''consecutive_unproductive'');
          total = counter_value (dget e ''total_unproductive'');
          remaining = max 0 (min (cl - consecutive) (tot - total))
      in (spent, remaining, - total, - consecutive))"

definition snapshot_limits :: "json dict option \<Rightarrow> int \<times> int \<times> real \<times> real \<times> real" where
  "snapshot_limits snap = (case snap of
     None \<Rightarrow> (3, 9, 60, 3600, 2)
   | Some d \<Rightarrow>
       (let cl = counter_value (dget d ''consecutive_limit'');
            tot = counter_value (dget d ''total_limit'')
        in (if cl = 0 then 3 else cl, if tot = 0 then 9 else tot,
            float_value (dget d ''base_cooldown_seconds'') 60,
            float_value (dget d ''max_cooldown_seconds'') 3600,
            float_value (dget d ''backoff_factor'') 2)))"

definition translate_legacy_source :: "legacy_guard_source \<Rightarrow> string \<Rightarrow> string \<Rightarrow> int \<Rightarrow> int \<Rightarrow> json dict res" where
  "translate_legacy_source src ph ag cl tot =
     (case fail_closed_reason src of
        Some r \<Rightarrow> Inr (failed_closed_entry ph ag r cl tot)
      | None \<Rightarrow> (case readable_legacy_payload (lg_payload src) of
          None \<Rightarrow> Inr (failed_closed_entry ph ag ''legacy_guard_malformed'' cl tot)
        | Some d \<Rightarrow>
            (let cap = counter_value (dget d ''max_identical'')
             in translate_legacy_entry d ph ag (if 0 < cap then min cl cap else cl) tot)))"

definition merge_identity ::
  "int \<Rightarrow> int \<Rightarrow> legacy_guard_source \<Rightarrow> json dict dict \<Rightarrow> string \<times> string \<Rightarrow> json dict dict res" where
  "merge_identity cl tot src d idn =
     (let (ph, ag) = idn; key = entry_key ph ag
      in rbind (translate_legacy_source src ph ag cl tot) (\<lambda>migrated.
         case dget d key of
           None \<Rightarrow> Inr (dset key migrated d)
         | Some stored \<Rightarrow>
             if entry_strictness migrated cl tot < entry_strictness stored cl tot
               then Inr (dset key migrated d) else Inr d))"

fun merge_sources ::
  "int \<Rightarrow> int \<Rightarrow> json dict dict \<Rightarrow> (legacy_guard_source \<times> string \<times> string) list \<Rightarrow> json dict dict res" where
  "merge_sources cl tot d [] = Inr d"
| "merge_sources cl tot d ((src, idn) # rest) =
     rbind (merge_identity cl tot src d idn) (\<lambda>d'. merge_sources cl tot d' rest)"

definition stored_entries :: "json dict option \<Rightarrow> json dict dict" where
  "stored_entries snap = (case snap of
     None \<Rightarrow> []
   | Some d \<Rightarrow> (case dget d ''entries'' of
       Some (JObj raw) \<Rightarrow> foldl (\<lambda>acc (k, item). case item of JObj e \<Rightarrow> dset k e acc | _ \<Rightarrow> acc) [] raw
     | _ \<Rightarrow> []))"

definition source_identities :: "legacy_guard_source list \<Rightarrow> (legacy_guard_source \<times> string \<times> string) list" where
  "source_identities srcs = concat (map (\<lambda>src. map (Pair src) (legacy_identities src)) srcs)"

definition migrate_legacy_guard_history ::
  "legacy_guard_source list \<Rightarrow> json dict option \<Rightarrow> json dict option res" where
  "migrate_legacy_guard_history srcs existing =
     (if srcs = [] then Inr None
      else let (cl, tot, base, mx, bf) = snapshot_limits existing
           in rbind (merge_sources cl tot (stored_entries existing) (source_identities srcs)) (\<lambda>d.
                Inr (Some [(''consecutive_limit'', JInt cl), (''total_limit'', JInt tot),
                           (''base_cooldown_seconds'', JFloat base),
                           (''max_cooldown_seconds'', JFloat mx),
                           (''backoff_factor'', JFloat bf),
                           (''entries'', JObj (map (\<lambda>(k, e). (k, JObj e)) d))])))"

section \<open>Status reads\<close>

abbreviation status_at :: "ledger \<Rightarrow> int \<Rightarrow> string \<Rightarrow> string \<Rightarrow> agent_status" where
  "status_at l now ph ag \<equiv> snd (status_locked l ph ag now)"

abbreviation entry_at :: "ledger \<Rightarrow> string \<Rightarrow> string \<Rightarrow> ledger_entry" where
  "entry_at l ph ag \<equiv> (case dget (entries l) (ph, ag) of None \<Rightarrow> fresh_entry | Some e \<Rightarrow> e)"

lemma fresh_entry_simps [simp]:
  "consecutive_unproductive fresh_entry = 0" "total_unproductive fresh_entry = 0"
  "cooldown_until_ms fresh_entry = None" "cooldown_count fresh_entry = 0"
  "\<not> is_spent fresh_entry"
  by (simp_all add: fresh_entry_def)

lemma sync_keeps [simp]:
  "total_unproductive (sync_cooldown_expiry e now) = total_unproductive e"
  "is_spent (sync_cooldown_expiry e now) = is_spent e"
  "cooldown_count (sync_cooldown_expiry e now) = cooldown_count e"
  "spent_reason (sync_cooldown_expiry e now) = spent_reason e"
  by (auto simp: sync_cooldown_expiry_def split: option.splits)

lemma sync_consecutive:
  "0 \<le> consecutive_unproductive e \<Longrightarrow> 0 \<le> consecutive_unproductive (sync_cooldown_expiry e now)"
  by (auto simp: sync_cooldown_expiry_def split: option.splits)

lemma sync_idem [simp]: "sync_cooldown_expiry (sync_cooldown_expiry e now) now = sync_cooldown_expiry e now"
  by (auto simp: sync_cooldown_expiry_def split: option.splits)

lemma status_at_eq:
  "status_at l now ph ag =
     (if is_spent (entry_at l ph ag)
        then Spent (or_else (spent_reason (entry_at l ph ag)) spent_reason_total)
      else entry_status (sync_cooldown_expiry (entry_at l ph ag) now))"
  by (auto simp: status_locked_def Let_def entry_status_def sync_cooldown_expiry_def split: option.splits)

lemma status_locked_limits [simp]:
  "total_limit (fst (status_locked l ph ag now)) = total_limit l"
  "consecutive_limit (fst (status_locked l ph ag now)) = consecutive_limit l"
  "max_cooldown_seconds (fst (status_locked l ph ag now)) = max_cooldown_seconds l"
  by (auto simp: status_locked_def Let_def split: option.splits)

text \<open>A status read changes no answer a read at the same instant gives.\<close>

lemma status_read_stable [simp]:
  "status_at (fst (status_locked l ph ag now)) now ph' ag' = status_at l now ph' ag'"
proof (cases "(ph', ag') = (ph, ag)")
  case True
  then show ?thesis
    by (auto simp: status_locked_def Let_def split: option.splits)
next
  case False
  then show ?thesis
    by (auto simp: status_at_eq status_locked_def Let_def split: option.splits)
qed

lemma earliest_wait_loop_zero:
  "\<exists>ag\<in>set ags. status_at l now ph ag = Eligible \<Longrightarrow> snd (earliest_wait_loop l ph now rs ags) = 0"
proof (induction ags arbitrary: l rs)
  case Nil
  then show ?case by simp
next
  case (Cons a ags)
  obtain l' st where st: "status_locked l ph a now = (l', st)" by fastforce
  have "status_at l' now ph x = status_at l now ph x" for x
    using status_read_stable [of l ph a now ph x] st by simp
  with Cons st show ?case by (cases st) auto
qed

lemma earliest_wait_loop_Min:
  assumes "\<forall>ag\<in>set ags. status_at l now ph ag \<noteq> Eligible"
  shows "snd (earliest_wait_loop l ph now rs ags)
       = (let ws = set rs \<union> {max 0 (u - now) | u r ag. ag \<in> set ags \<and> status_at l now ph ag = Cooldown u r}
          in if ws = {} then 0 else Min ws)"
  using assms
proof (induction ags arbitrary: l rs)
  case Nil
  then show ?case by simp
next
  case (Cons a ags)
  obtain l' st where st: "status_locked l ph a now = (l', st)" by fastforce
  have stable: "status_at l' now ph x = status_at l now ph x" for x
    using status_read_stable [of l ph a now ph x] st by simp
  have here: "status_at l now ph a = st" by (simp add: st)
  show ?case
  proof (cases st)
    case Eligible
    with Cons.prems here show ?thesis by simp
  next
    case c: (Cooldown u r)
    let ?W = "\<lambda>as. {max 0 (u - now) | u r ag. ag \<in> set as \<and> status_at l now ph ag = Cooldown u r}"
    have "?W (a # ags) = insert (max 0 (u - now)) (?W ags)"
      using here c by auto
    then show ?thesis
      using Cons.IH [of l' "rs @ [max 0 (u - now)]"] Cons.prems st c by (simp add: stable Let_def)
  next
    case sp: (Spent r)
    have "{max 0 (u - now) | u r ag. ag \<in> set (a # ags) \<and> status_at l now ph ag = Cooldown u r}
        = {max 0 (u - now) | u r ag. ag \<in> set ags \<and> status_at l now ph ag = Cooldown u r}"
      using here sp by auto
    then show ?thesis
      using Cons.IH [of l' rs] Cons.prems st sp by (simp add: stable Let_def)
  qed
qed

section \<open>Recording attempts\<close>

definition ledger_ok :: "ledger \<Rightarrow> bool" where
  "ledger_ok l = (0 < consecutive_limit l \<and> 0 < total_limit l \<and> 0 < base_cooldown_seconds l
     \<and> base_cooldown_seconds l \<le> max_cooldown_seconds l \<and> 1 \<le> backoff_factor l
     \<and> list_all (\<lambda>(_, e). 0 \<le> consecutive_unproductive e \<and> 0 \<le> total_unproductive e
                        \<and> 0 \<le> cooldown_count e) (entries l))"

lemma new_ledger_ok: "new_ledger cl tot base mx bf = Inr l \<Longrightarrow> ledger_ok l"
  by (auto simp: new_ledger_def ledger_ok_def split: if_splits)

lemma list_all_update:
  "list_all P d \<Longrightarrow> P (k, v) \<Longrightarrow> list_all P (dset k v d)"
  unfolding dset_def by (induction d) auto

lemma ledger_ok_entry:
  "ledger_ok l \<Longrightarrow> 0 \<le> consecutive_unproductive (entry_at l ph ag)
     \<and> 0 \<le> total_unproductive (entry_at l ph ag) \<and> 0 \<le> cooldown_count (entry_at l ph ag)"
  by (auto simp: ledger_ok_def list_all_iff dest!: dget_SomeD split: option.splits)

lemma record_attempt_limits [simp]:
  "total_limit (fst (record_attempt c l att)) = total_limit l"
  "consecutive_limit (fst (record_attempt c l att)) = consecutive_limit l"
  "base_cooldown_seconds (fst (record_attempt c l att)) = base_cooldown_seconds l"
  "max_cooldown_seconds (fst (record_attempt c l att)) = max_cooldown_seconds l"
  "backoff_factor (fst (record_attempt c l att)) = backoff_factor l"
  by (simp_all add: record_attempt_def Let_def split: prod.splits)

lemma record_attempt_entry:
  "dget (entries (fst (record_attempt c l att))) k =
     (if k = (fact_phase att, fact_agent att)
        then Some (fst (record_entry l (mono_ms c) att
               (sync_cooldown_expiry (entry_at l (fact_phase att) (fact_agent att)) (mono_ms c))))
        else dget (entries l) k)"
  by (simp add: record_attempt_def Let_def split: prod.splits)

lemma record_attempt_outcome:
  "snd (record_attempt c l att) = snd (record_entry l (mono_ms c) att
     (sync_cooldown_expiry (entry_at l (fact_phase att) (fact_agent att)) (mono_ms c)))"
  by (simp add: record_attempt_def Let_def split: prod.splits)

lemma record_attempt_ok:
  assumes "ledger_ok l"
  shows "ledger_ok (fst (record_attempt c l att))"
proof -
  let ?e = "sync_cooldown_expiry (entry_at l (fact_phase att) (fact_agent att)) (mono_ms c)"
  have "0 \<le> consecutive_unproductive ?e \<and> 0 \<le> total_unproductive ?e \<and> 0 \<le> cooldown_count ?e"
    using ledger_ok_entry [OF assms, of "fact_phase att" "fact_agent att"] sync_consecutive by auto
  then have "0 \<le> consecutive_unproductive (fst (record_entry l (mono_ms c) att ?e))
    \<and> 0 \<le> total_unproductive (fst (record_entry l (mono_ms c) att ?e))
    \<and> 0 \<le> cooldown_count (fst (record_entry l (mono_ms c) att ?e))"
    by (simp add: record_entry_def count_attempt_def Let_def)
  then have "list_all (\<lambda>(_, e). 0 \<le> consecutive_unproductive e \<and> 0 \<le> total_unproductive e
                        \<and> 0 \<le> cooldown_count e)
     (dset (fact_phase att, fact_agent att) (fst (record_entry l (mono_ms c) att ?e)) (entries l))"
    using assms by (intro list_all_update) (auto simp: ledger_ok_def)
  then show ?thesis
    using assms by (simp add: ledger_ok_def record_attempt_def Let_def case_prod_unfold)
qed

lemma record_unproductive_total:
  "\<not> artifact_valid att \<Longrightarrow>
   total_unproductive (fst (record_entry l now att e)) = total_unproductive e + 1"
  by (simp add: record_entry_def count_attempt_def Let_def)

lemma record_unproductive_spent:
  "\<not> artifact_valid att \<Longrightarrow>
   is_spent (fst (record_entry l now att e)) \<longleftrightarrow> is_spent e \<or> total_limit l \<le> total_unproductive e + 1"
  by (simp add: record_entry_def count_attempt_def Let_def)

text \<open>A run of attempts, each with the clock reading it was recorded at.\<close>

definition record_all :: "(clock \<times> attempt_fact) list \<Rightarrow> ledger \<Rightarrow> ledger" where
  "record_all xs l = foldl (\<lambda>l (c, att). fst (record_attempt c l att)) l xs"

lemma record_all_snoc [simp]:
  "record_all [] l = l"
  "record_all (xs @ [(c, att)]) l = fst (record_attempt c (record_all xs l) att)"
  by (simp_all add: record_all_def)

lemma record_all_limits [simp]: "total_limit (record_all xs l) = total_limit l"
  by (induction xs rule: rev_induct) auto

lemma record_all_ok: "ledger_ok l \<Longrightarrow> ledger_ok (record_all xs l)"
  by (induction xs rule: rev_induct) (auto simp: record_attempt_ok)

abbreviation attempts_of :: "string \<Rightarrow> string \<Rightarrow> (clock \<times> attempt_fact) list \<Rightarrow> attempt_fact list" where
  "attempts_of ph ag xs \<equiv> filter (\<lambda>att. fact_phase att = ph \<and> fact_agent att = ag) (map snd xs)"

lemma record_all_total:
  assumes "ledger_ok l" and "\<forall>att\<in>set (attempts_of ph ag xs). \<not> artifact_valid att"
  shows "int (length (attempts_of ph ag xs)) \<le> total_unproductive (entry_at (record_all xs l) ph ag)
    \<and> (attempts_of ph ag xs \<noteq> [] \<longrightarrow> total_limit l \<le> total_unproductive (entry_at (record_all xs l) ph ag)
         \<longrightarrow> is_spent (entry_at (record_all xs l) ph ag))"
  using assms(2)
proof (induction xs rule: rev_induct)
  case Nil
  show ?case using ledger_ok_entry [OF assms(1)] by simp
next
  case (snoc x xs)
  obtain c att where x: "x = (c, att)" by (cases x)
  show ?case
  proof (cases "fact_phase att = ph \<and> fact_agent att = ag")
    case True
    with snoc x show ?thesis
      by (auto simp: record_attempt_entry record_unproductive_total record_unproductive_spent)
  next
    case False
    with snoc x show ?thesis by (auto simp: record_attempt_entry)
  qed
qed

lemma spent_after_total_limit:
  assumes "ledger_ok l" and "\<forall>att\<in>set (attempts_of ph ag xs). \<not> artifact_valid att"
    and "total_limit l \<le> int (length (attempts_of ph ag xs))"
  shows "\<exists>r. status_at (record_all xs l) now ph ag = Spent r"
proof -
  have "0 < int (length (attempts_of ph ag xs))"
    using assms(1,3) unfolding ledger_ok_def by linarith
  then have "attempts_of ph ag xs \<noteq> []" by (metis less_irrefl list.size(3) of_nat_0)
  then have "is_spent (entry_at (record_all xs l) ph ag)"
    using record_all_total [OF assms(1,2)] assms(3) by auto
  then show ?thesis by (simp add: status_at_eq)
qed

text \<open>The cooldown a consecutive streak earns grows with each one and is capped.\<close>

lemma cooldown_duration_bounds:
  assumes "ledger_ok l"
  shows "0 \<le> cooldown_duration_ms l n"
    and "cooldown_duration_ms l n \<le> py_trunc (max_cooldown_seconds l * 1000)"
proof -
  have "0 \<le> power_int (backoff_factor l) (min n 30)"
    using assms by (intro zero_le_power_int) (simp add: ledger_ok_def)
  then show "0 \<le> cooldown_duration_ms l n"
    using assms by (auto simp: cooldown_duration_ms_def ledger_ok_def intro!: py_trunc_nonneg)
  show "cooldown_duration_ms l n \<le> py_trunc (max_cooldown_seconds l * 1000)"
    unfolding cooldown_duration_ms_def by (intro py_trunc_mono) simp
qed

lemma cooldown_duration_mono:
  assumes "ledger_ok l" and "m \<le> n"
  shows "cooldown_duration_ms l m \<le> cooldown_duration_ms l n"
proof -
  have "power_int (backoff_factor l) (min m 30) \<le> power_int (backoff_factor l) (min n 30)"
    using assms by (intro power_int_increasing) (auto simp: ledger_ok_def)
  then have "base_cooldown_seconds l * power_int (backoff_factor l) (min m 30)
           \<le> base_cooldown_seconds l * power_int (backoff_factor l) (min n 30)"
    using assms(1) by (intro mult_left_mono) (auto simp: ledger_ok_def)
  then show ?thesis
    unfolding cooldown_duration_ms_def
    by (intro py_trunc_mono) (auto simp: min_def)
qed

text \<open>What a granted cooldown means for later reads.\<close>

lemma record_cooldown_served:
  assumes "ledger_ok l"
    and "\<not> is_spent (entry_at l (fact_phase att) (fact_agent att))"
    and "outcome_status (snd (record_attempt c l att)) = Cooldown u r"
  shows "mono_ms c \<le> u" and "u \<le> mono_ms c + py_trunc (max_cooldown_seconds l * 1000)"
    and "status_at (fst (record_attempt c l att)) now (fact_phase att) (fact_agent att)
         = (if u \<le> now then Eligible else Cooldown u r)"
proof -
  let ?d = "sync_cooldown_expiry (entry_at l (fact_phase att) (fact_agent att)) (mono_ms c)"
  let ?e = "fst (record_entry l (mono_ms c) att ?d)"
  have ns: "\<not> is_spent ?d" using assms(2) by simp
  have out: "outcome_status (snd (record_entry l (mono_ms c) att ?d)) = Cooldown u r"
    using assms(3) by (simp add: record_attempt_outcome)
  have u: "u = mono_ms c + cooldown_duration_ms l (cooldown_count ?d)"
    and r: "r = cooldown_reason_consecutive"
    and e: "cooldown_until_ms ?e = Some u" "cooldown_reason ?e = Some r" "\<not> is_spent ?e"
    using out ns by (auto simp: record_entry_def Let_def count_attempt_def split: if_splits)
  show "mono_ms c \<le> u" "u \<le> mono_ms c + py_trunc (max_cooldown_seconds l * 1000)"
    using u cooldown_duration_bounds [OF assms(1)] by simp_all
  have "dget (entries (fst (record_attempt c l att))) (fact_phase att, fact_agent att) = Some ?e"
    by (simp add: record_attempt_entry)
  moreover have "r \<noteq> []" by (simp add: r cooldown_reason_consecutive_def)
  ultimately show "status_at (fst (record_attempt c l att)) now (fact_phase att) (fact_agent att)
         = (if u \<le> now then Eligible else Cooldown u r)"
    using e by (simp add: status_at_eq entry_status_def sync_cooldown_expiry_def)
qed

section \<open>Snapshot and restore\<close>

text \<open>
  A restore moves a cooldown deadline from the clock \<open>c\<close> it was saved under to the clock \<open>c'\<close>
  it is read under: the remaining wall-clock time, clamped to the longest cooldown.
\<close>

definition reanchor :: "clock \<Rightarrow> clock \<Rightarrow> real \<Rightarrow> ledger_entry \<Rightarrow> ledger_entry" where
  "reanchor c c' mx e =
     e\<lparr>cooldown_until_ms := map_option (\<lambda>u. mono_ms c' +
         min (max (epoch_ms c + max 0 (u - mono_ms c) - epoch_ms c') 0) (py_trunc (mx * 1000)))
         (cooldown_until_ms e)\<rparr>"

lemma reanchor_same_clock:
  assumes "\<And>u. cooldown_until_ms e = Some u \<Longrightarrow>
     mono_ms c \<le> u \<and> u \<le> mono_ms c + py_trunc (mx * 1000)"
  shows "reanchor c c mx e = e"
  using assms by (cases "cooldown_until_ms e") (auto simp: reanchor_def)

lemma foldl_dset_distinct:
  assumes "distinct (map f xs)" and "\<forall>x\<in>set xs. \<not> din (f x) d"
  shows "foldl (\<lambda>d x. dset (f x) (g x) d) d xs = d @ map (\<lambda>x. (f x, g x)) xs"
  using assms
proof (induction xs arbitrary: d)
  case Nil
  show ?case by simp
next
  case (Cons x xs)
  have "foldl (\<lambda>d x. dset (f x) (g x) d) (d @ [(f x, g x)]) xs
      = (d @ [(f x, g x)]) @ map (\<lambda>x. (f x, g x)) xs"
    using Cons.prems by (intro Cons.IH) (auto simp: din_iff dkeys_def image_iff)
  then show ?case using Cons.prems by (simp add: dset_fresh)
qed

lemma entry_key_inj:
  assumes "CHR '':'' \<notin> set ph" "CHR '':'' \<notin> set ph'" "entry_key ph ag = entry_key ph' ag'"
  shows "ph = ph' \<and> ag = ag'"
  using assms
proof (induction ph arbitrary: ph')
  case Nil
  then show ?case by (cases ph') (auto simp: entry_key_def)
next
  case (Cons x ph)
  then show ?case by (cases ph') (auto simp: entry_key_def)
qed

text \<open>
  The identities a ledger may hold so that its snapshot keys stay apart and are restored: no colon in
  a phase name and no empty name.  Nothing in the program rules the others out; \<open>snapshot_key_collision\<close>
  shows what is lost then.
\<close>

definition storable_keys :: "ledger \<Rightarrow> bool" where
  "storable_keys l =
     (distinct (dkeys (entries l))
      \<and> list_all (\<lambda>((ph, ag), _). ph \<noteq> [] \<and> ag \<noteq> [] \<and> CHR '':'' \<notin> set ph) (entries l))"

lemma snapshot_entries_distinct:
  assumes "storable_keys l"
  shows "distinct (map (\<lambda>((ph, ag), e). entry_key ph ag) (entries l))"
proof -
  have colon: "CHR '':'' \<notin> set ph" if "(ph, ag) \<in> set (dkeys (entries l))" for ph ag
    using that assms by (auto simp: storable_keys_def dkeys_def list_all_iff)
  have "inj_on (\<lambda>(ph, ag). entry_key ph ag) (set (dkeys (entries l)))"
    by (rule inj_onI) (auto dest: entry_key_inj [OF colon colon])
  then have "distinct (map (\<lambda>(ph, ag). entry_key ph ag) (dkeys (entries l)))"
    using assms by (simp add: distinct_map storable_keys_def)
  then show ?thesis by (simp add: dkeys_def case_prod_unfold comp_def)
qed

lemma snapshot_entries:
  assumes "storable_keys l"
  shows "dget (ledger_snapshot c l) ''entries''
       = Some (JObj (map (\<lambda>((ph, ag), e). (entry_key ph ag, JObj (snapshot_entry c ph ag e))) (entries l)))"
proof -
  have "foldl (\<lambda>d ((ph, ag), e). dset (entry_key ph ag) (JObj (snapshot_entry c ph ag e)) d) [] (entries l)
      = [] @ map (\<lambda>x. (case x of ((ph, ag), e) \<Rightarrow> entry_key ph ag,
                       case x of ((ph, ag), e) \<Rightarrow> JObj (snapshot_entry c ph ag e))) (entries l)"
    using foldl_dset_distinct [OF snapshot_entries_distinct [OF assms], of "[]"
      "\<lambda>((ph, ag), e). JObj (snapshot_entry c ph ag e)"]
    by (simp add: case_prod_unfold din_def)
  then show ?thesis by (simp add: ledger_snapshot_def dget_def case_prod_unfold)
qed

lemma restore_snapshot_entry:
  assumes "ph \<noteq> []" "ag \<noteq> []"
  shows "restore_entry c' l (JObj (snapshot_entry c ph ag e))
       = Inr (l\<lparr>entries := dset (ph, ag) (reanchor c c' (max_cooldown_seconds l) e) (entries l)\<rparr>)"
proof -
  have "restored_cooldown_until_ms (snapshot_entry c ph ag e) (mono_ms c') (epoch_ms c')
          (py_trunc (max_cooldown_seconds l * 1000))
        = cooldown_until_ms (reanchor c c' (max_cooldown_seconds l) e)"
    by (cases "cooldown_until_ms e")
       (simp_all add: restored_cooldown_until_ms_def snapshot_entry_def dget_def jopt_int_def reanchor_def)
  moreover have "str_or_none (Some (jopt_str x)) = x" for x
    by (cases x) (simp_all add: str_or_none_def jopt_str_def)
  ultimately have "\<lparr>consecutive_unproductive = consecutive_unproductive e,
      total_unproductive = total_unproductive e,
      cooldown_until_ms = restored_cooldown_until_ms (snapshot_entry c ph ag e) (mono_ms c') (epoch_ms c')
          (py_trunc (max_cooldown_seconds l * 1000)),
      cooldown_reason = str_or_none (Some (jopt_str (cooldown_reason e))),
      cooldown_count = cooldown_count e, is_spent = is_spent e,
      spent_reason = str_or_none (Some (jopt_str (spent_reason e)))\<rparr>
    = reanchor c c' (max_cooldown_seconds l) e"
    by (intro ledger_entry.equality) (simp_all add: reanchor_def)
  moreover have "dget (snapshot_entry c ph ag e) ''phase'' = Some (JStr ph)"
    "dget (snapshot_entry c ph ag e) ''agent'' = Some (JStr ag)"
    "dget (snapshot_entry c ph ag e) ''consecutive_unproductive'' = Some (JInt (consecutive_unproductive e))"
    "dget (snapshot_entry c ph ag e) ''total_unproductive'' = Some (JInt (total_unproductive e))"
    "dget (snapshot_entry c ph ag e) ''cooldown_count'' = Some (JInt (cooldown_count e))"
    "dget (snapshot_entry c ph ag e) ''cooldown_reason'' = Some (jopt_str (cooldown_reason e))"
    "dget (snapshot_entry c ph ag e) ''spent_reason'' = Some (jopt_str (spent_reason e))"
    "dget (snapshot_entry c ph ag e) ''is_spent'' = Some (JBool (is_spent e))"
    by (simp_all add: snapshot_entry_def dget_def)
  ultimately show ?thesis
    using assms by (simp add: restore_entry_def int_or_def json_true_def json_bool_def)
qed

lemma restore_entries:
  assumes "distinct (map fst es)" and "\<forall>k\<in>fst ` set es. \<not> din k (entries l)"
    and "list_all (\<lambda>((ph, ag), _). ph \<noteq> [] \<and> ag \<noteq> []) es"
  shows "foldl (\<lambda>acc (_, item). rbind acc (\<lambda>l. restore_entry c' l item)) (Inr l)
           (map (\<lambda>((ph, ag), e). (entry_key ph ag, JObj (snapshot_entry c ph ag e))) es)
       = Inr (l\<lparr>entries := entries l @ map (\<lambda>(k, e). (k, reanchor c c' (max_cooldown_seconds l) e)) es\<rparr>)"
  using assms
proof (induction es arbitrary: l)
  case Nil
  show ?case by simp
next
  case (Cons x es)
  obtain ph ag e where x: "x = ((ph, ag), e)" by (metis surj_pair)
  define l' where "l' = l\<lparr>entries := entries l @ [((ph, ag), reanchor c c' (max_cooldown_seconds l) e)]\<rparr>"
  have "foldl (\<lambda>acc (_, item). rbind acc (\<lambda>l. restore_entry c' l item)) (Inr l')
           (map (\<lambda>((ph, ag), e). (entry_key ph ag, JObj (snapshot_entry c ph ag e))) es)
       = Inr (l'\<lparr>entries := entries l' @ map (\<lambda>(k, e). (k, reanchor c c' (max_cooldown_seconds l') e)) es\<rparr>)"
  proof (rule Cons.IH)
    show "distinct (map fst es)" "list_all (\<lambda>((ph, ag), _). ph \<noteq> [] \<and> ag \<noteq> []) es"
      using Cons.prems by simp_all
    show "\<forall>k\<in>fst ` set es. \<not> din k (entries l')"
      using Cons.prems(1,2) x by (auto simp: l'_def din_iff dkeys_def image_iff)
  qed
  then show ?case
    using Cons.prems x by (simp add: restore_snapshot_entry dset_fresh l'_def)
qed

lemma restore_snapshot:
  assumes "ledger_ok l" and "storable_keys l"
  shows "ledger_from_snapshot c' (ledger_snapshot c l)
       = Inr (l\<lparr>entries := map (\<lambda>(k, e). (k, reanchor c c' (max_cooldown_seconds l) e)) (entries l)\<rparr>)"
proof -
  define l0 where "l0 = l\<lparr>entries := []\<rparr>"
  have new: "new_ledger (consecutive_limit l) (total_limit l) (base_cooldown_seconds l)
     (max_cooldown_seconds l) (backoff_factor l) = Inr l0"
    using assms(1) by (simp add: new_ledger_def ledger_ok_def l0_def)
  have "ledger_from_snapshot c' (ledger_snapshot c l)
      = foldl (\<lambda>acc (_, item). rbind acc (\<lambda>l. restore_entry c' l item)) (Inr l0)
         (map (\<lambda>((ph, ag), e). (entry_key ph ag, JObj (snapshot_entry c ph ag e))) (entries l))"
    using snapshot_entries [OF assms(2), of c]
    by (simp add: ledger_from_snapshot_def new ledger_snapshot_def dget_def din_def int_or_def float_or_def)
  also have "\<dots> = Inr (l0\<lparr>entries := entries l0 @
      map (\<lambda>(k, e). (k, reanchor c c' (max_cooldown_seconds l0) e)) (entries l)\<rparr>)"
    using assms(2) by (intro restore_entries)
      (auto simp: storable_keys_def dkeys_def l0_def din_def list_all_iff)
  finally show ?thesis by (simp add: l0_def)
qed

section \<open>Legacy migration\<close>

lemma strip_idem [simp]: "strip (strip t) = strip t"
proof -
  define u where "u = dropWhile is_space t"
  define v where "v = rev (dropWhile is_space (rev u))"
  have v: "u = v @ rev (takeWhile is_space (rev u))"
    unfolding v_def by (metis rev_append rev_rev_ident takeWhile_dropWhile_id)
  have "dropWhile is_space v = v"
  proof (cases v)
    case (Cons x xs)
    then have "hd u = x" "u \<noteq> []" using v by (metis append_Cons list.sel(1), auto)
    then have "\<not> is_space x" unfolding u_def by (metis hd_dropWhile)
    with Cons show ?thesis by simp
  qed simp
  moreover have "rev (dropWhile is_space (rev v)) = v"
    by (simp add: v_def dropWhile_idem)
  ultimately show ?thesis by (simp add: strip_def u_def [symmetric] v_def [symmetric])
qed

lemma py_int_strip [simp]: "py_int (strip t) = py_int t"
  by (simp add: py_int_def)

lemma readable_streak_translates:
  assumes "readable_legacy_payload j = Some d"
  shows "\<exists>e. translate_legacy_entry d ph ag cl tot = Inr e"
proof -
  have "case dget d ''streak'' of None \<Rightarrow> True | Some raw \<Rightarrow> readable_streak raw \<noteq> None"
    using assms by (auto simp: readable_legacy_payload_def Let_def readable_legacy_field_def
        split: json.splits if_splits option.splits)
  then show ?thesis
    by (auto simp: translate_legacy_entry_def int_or_def readable_streak_def Let_def
        split: option.splits json.splits if_splits)
qed

lemma translate_legacy_source_total: "\<exists>e. translate_legacy_source src ph ag cl tot = Inr e"
  by (auto simp: translate_legacy_source_def Let_def readable_streak_translates split: option.splits)

definition as_strict :: "int \<Rightarrow> int \<Rightarrow> json dict dict \<Rightarrow> string \<Rightarrow> json dict \<Rightarrow> bool" where
  "as_strict cl tot d k e =
     (case dget d k of None \<Rightarrow> False | Some e' \<Rightarrow> entry_strictness e' cl tot \<le> entry_strictness e cl tot)"

lemma merge_identity_as_strict:
  assumes "translate_legacy_source src ph ag cl tot = Inr e"
  shows "\<exists>d'. merge_identity cl tot src d (ph, ag) = Inr d' \<and> as_strict cl tot d' (entry_key ph ag) e
          \<and> (\<forall>k x. as_strict cl tot d k x \<longrightarrow> as_strict cl tot d' k x)"
proof (cases "case dget d (entry_key ph ag) of None \<Rightarrow> True
          | Some st \<Rightarrow> entry_strictness e cl tot < entry_strictness st cl tot")
  case True
  then have "merge_identity cl tot src d (ph, ag) = Inr (dset (entry_key ph ag) e d)"
    using assms by (auto simp: merge_identity_def Let_def split: option.splits)
  then show ?thesis
    using True by (auto simp: as_strict_def split: option.splits if_splits)
next
  case False
  then have "merge_identity cl tot src d (ph, ag) = Inr d"
    using assms by (auto simp: merge_identity_def Let_def split: option.splits)
  then show ?thesis
    using False by (auto simp: as_strict_def split: option.splits)
qed

lemma merge_sources_as_strict:
  "\<exists>d'. merge_sources cl tot d xs = Inr d'
      \<and> (\<forall>k x. as_strict cl tot d k x \<longrightarrow> as_strict cl tot d' k x)
      \<and> (\<forall>(src, ph, ag)\<in>set xs. \<forall>e. translate_legacy_source src ph ag cl tot = Inr e
            \<longrightarrow> as_strict cl tot d' (entry_key ph ag) e)"
proof (induction xs arbitrary: d)
  case Nil
  show ?case by simp
next
  case (Cons x xs)
  obtain src ph ag where x: "x = (src, ph, ag)" by (metis surj_pair)
  obtain e where e: "translate_legacy_source src ph ag cl tot = Inr e"
    using translate_legacy_source_total by blast
  obtain d1 where d1: "merge_identity cl tot src d (ph, ag) = Inr d1"
    "as_strict cl tot d1 (entry_key ph ag) e"
    "\<forall>k x. as_strict cl tot d k x \<longrightarrow> as_strict cl tot d1 k x"
    using merge_identity_as_strict [OF e] by blast
  obtain d' where d': "merge_sources cl tot d1 xs = Inr d'"
    "\<forall>k x. as_strict cl tot d1 k x \<longrightarrow> as_strict cl tot d' k x"
    "\<forall>(src, ph, ag)\<in>set xs. \<forall>e. translate_legacy_source src ph ag cl tot = Inr e
            \<longrightarrow> as_strict cl tot d' (entry_key ph ag) e"
    using Cons.IH by blast
  show ?case
    using d1 d' x e by (intro exI [of _ d']) auto
qed

text \<open>The entries a merged snapshot carries, read back as a dictionary of entries.\<close>

lemma stored_entries_back:
  "stored_entries (Some [(''consecutive_limit'', a), (''total_limit'', b), (''base_cooldown_seconds'', x),
      (''max_cooldown_seconds'', y), (''backoff_factor'', z), (''entries'', JObj (map (\<lambda>(k, e). (k, JObj e)) d))])
   = foldl (\<lambda>acc (k, e). dset k e acc) [] d"
proof -
  have "foldl (\<lambda>acc (k, item). case item of JObj e \<Rightarrow> dset k e acc | _ \<Rightarrow> acc) acc
          (map (\<lambda>(k, e). (k, JObj e)) d) = foldl (\<lambda>acc (k, e). dset k e acc) acc d" for acc
    by (induction d arbitrary: acc) auto
  then show ?thesis by (simp add: stored_entries_def dget_def)
qed

lemma spent_strictness:
  "entry_strictness e' cl tot \<le> entry_strictness e cl tot \<Longrightarrow> json_true (dget e ''is_spent'')
   \<Longrightarrow> json_true (dget e' ''is_spent'')"
  by (auto simp: entry_strictness_def Let_def split: if_splits)

lemma failed_closed_spent: "json_true (dget (failed_closed_entry ph ag r cl tot) ''is_spent'')"
  by (simp add: failed_closed_entry_def dget_def json_true_def json_bool_def)

section \<open>Properties of the ledger\<close>

text \<open>
  an agent that keeps failing is demoted for good.  Whatever the interleaving with other
  agents and phases, and whenever the attempts happen, once \<open>total_limit\<close> attempts of an
  (phase, agent) pair were recorded with no valid artifact among them, every later status read
  of the pair says \<open>Spent\<close>.
\<close>

theorem ledger_demotes_after_total_limit:
  assumes "ledger_ok l"
    and "\<forall>att\<in>set (attempts_of ph ag xs). \<not> artifact_valid att"
    and "total_limit l \<le> int (length (attempts_of ph ag xs))"
  shows "\<exists>r. snd (ledger_status c (record_all xs l) ph ag) = Spent r"
  unfolding ledger_status_def by (rule spent_after_total_limit [OF assms])

definition sample_ledger :: ledger where
  "sample_ledger = \<lparr>consecutive_limit = 3, total_limit = 9, base_cooldown_seconds = 60,
     max_cooldown_seconds = 3600, backoff_factor = 2, entries = []\<rparr>"

definition sample_clock :: clock where
  "sample_clock = \<lparr>monotonic = 10, epoch = 1000\<rparr>"

definition sample_failure :: attempt_fact where
  "sample_failure = \<lparr>fact_phase = ''development'', fact_agent = ''claude'', artifact_valid = False,
     workspace_changed = False, free_retry_category = False\<rparr>"

theorem ledger_demotes_after_total_limit_witness:
  "\<exists>r. snd (ledger_status sample_clock
        (record_all (replicate 9 (sample_clock, sample_failure)) sample_ledger)
        ''development'' ''claude'') = Spent r"
  by (rule ledger_demotes_after_total_limit)
     (simp_all add: ledger_ok_def sample_ledger_def sample_failure_def)

text \<open>
  a valid artifact wipes the record of its own (phase, agent) pair, however far it was
  demoted, and no attempt touches the status of another pair.
\<close>

theorem ledger_valid_artifact_clears:
  "(artifact_valid att \<longrightarrow>
      \<not> demoted (snd (record_attempt c l att))
      \<and> snd (ledger_status c' (fst (record_attempt c l att)) (fact_phase att) (fact_agent att)) = Eligible)
   \<and> ((ph, ag) \<noteq> (fact_phase att, fact_agent att) \<longrightarrow>
      snd (ledger_status c' (fst (record_attempt c l att)) ph ag) = snd (ledger_status c' l ph ag))"
  by (auto simp: ledger_status_def status_at_eq record_attempt_entry record_attempt_outcome
      record_entry_def demoted_def entry_status_def sync_cooldown_expiry_def)

theorem ledger_valid_artifact_clears_witness:
  "snd (ledger_status sample_clock
     (fst (record_attempt sample_clock sample_ledger (sample_failure\<lparr>artifact_valid := True\<rparr>)))
     ''development'' ''claude'') = Eligible"
  using ledger_valid_artifact_clears [of "sample_failure\<lparr>artifact_valid := True\<rparr>" sample_clock
      sample_ledger sample_clock "''planning''" "''claude''"]
  by (simp add: sample_failure_def)

text \<open>
  a cooldown the ledger grants is bounded by the configured maximum, is served in full and
  then ends: before its deadline the agent reads as cooling down, from the deadline on it is
  eligible again.  Longer streaks earn longer cooldowns.
\<close>

theorem ledger_cooldown_served:
  assumes "ledger_ok l"
    and "\<not> is_spent (entry_at l (fact_phase att) (fact_agent att))"
    and "outcome_status (snd (record_attempt c l att)) = Cooldown u r"
  shows "mono_ms c \<le> u \<and> u \<le> mono_ms c + py_trunc (max_cooldown_seconds l * 1000)
    \<and> snd (ledger_status c' (fst (record_attempt c l att)) (fact_phase att) (fact_agent att))
       = (if u \<le> mono_ms c' then Eligible else Cooldown u r)
    \<and> (\<forall>m n. m \<le> n \<longrightarrow> cooldown_duration_ms l m \<le> cooldown_duration_ms l n)"
  unfolding ledger_status_def
  using record_cooldown_served [OF assms] cooldown_duration_mono [OF assms(1)] by blast

theorem ledger_cooldown_served_witness:
  "snd (ledger_status (sample_clock\<lparr>monotonic := 71\<rparr>)
      (fst (record_attempt sample_clock
        (record_all [(sample_clock, sample_failure), (sample_clock, sample_failure)] sample_ledger)
        sample_failure)) ''development'' ''claude'') = Eligible"
proof -
  let ?l = "record_all [(sample_clock, sample_failure), (sample_clock, sample_failure)] sample_ledger"
  have "ledger_ok ?l" by (rule record_all_ok) (simp add: ledger_ok_def sample_ledger_def)
  moreover have "\<not> is_spent (entry_at ?l (fact_phase sample_failure) (fact_agent sample_failure))"
    by code_simp
  moreover have "outcome_status (snd (record_attempt sample_clock ?l sample_failure))
      = Cooldown 70000 ''consecutive_unproductive_limit_reached''"
    by code_simp
  ultimately show ?thesis
    using ledger_cooldown_served [of ?l sample_failure sample_clock 70000 _ "sample_clock\<lparr>monotonic := 71\<rparr>"]
    by (simp add: sample_failure_def mono_ms_def py_trunc_def)
qed

text \<open>
  C40: Saving and restoring a ledger whose phase names hold no colon and whose names are not empty
  loses nothing.  Restored under any clock the ledger has the same limits and the same entries in the same order, and each cooldown keeps its remaining
  wall-clock time, clamped so that no restored deadline outlasts the longest cooldown.
\<close>

theorem ledger_snapshot_roundtrip:
  assumes "ledger_ok l" and "storable_keys l"
  shows "ledger_from_snapshot c' (ledger_snapshot c l)
       = Inr (l\<lparr>entries := map (\<lambda>(k, e). (k, reanchor c c' (max_cooldown_seconds l) e)) (entries l)\<rparr>)"
  by (rule restore_snapshot [OF assms])

theorem ledger_snapshot_roundtrip_witness:
  "ledger_from_snapshot (sample_clock\<lparr>monotonic := 5\<rparr>) (ledger_snapshot sample_clock
     (record_all (replicate 3 (sample_clock, sample_failure)) sample_ledger))
   = Inr (sample_ledger\<lparr>entries := [((''development'', ''claude''),
       \<lparr>consecutive_unproductive = 3, total_unproductive = 3, cooldown_until_ms = Some 65000,
        cooldown_reason = Some ''consecutive_unproductive_limit_reached'', cooldown_count = 1,
        is_spent = False, spent_reason = None\<rparr>)]\<rparr>)"
proof -
  let ?l = "record_all (replicate 3 (sample_clock, sample_failure)) sample_ledger"
  have "ledger_ok ?l" by (rule record_all_ok) (simp add: ledger_ok_def sample_ledger_def)
  moreover have "storable_keys ?l" by code_simp
  ultimately have "ledger_from_snapshot (sample_clock\<lparr>monotonic := 5\<rparr>) (ledger_snapshot sample_clock ?l)
    = Inr (?l\<lparr>entries := map (\<lambda>(k, e). (k, reanchor sample_clock (sample_clock\<lparr>monotonic := 5\<rparr>)
        (max_cooldown_seconds ?l) e)) (entries ?l)\<rparr>)"
    by (rule ledger_snapshot_roundtrip)
  moreover have "?l\<lparr>entries := map (\<lambda>(k, e). (k, reanchor sample_clock (sample_clock\<lparr>monotonic := 5\<rparr>)
        (max_cooldown_seconds ?l) e)) (entries ?l)\<rparr>
     = sample_ledger\<lparr>entries := [((''development'', ''claude''),
       \<lparr>consecutive_unproductive = 3, total_unproductive = 3, cooldown_until_ms = Some 65000,
        cooldown_reason = Some ''consecutive_unproductive_limit_reached'', cooldown_count = 1,
        is_spent = False, spent_reason = None\<rparr>)]\<rparr>"
    by code_simp
  ultimately show ?thesis by simp
qed

text \<open>
  The snapshot joins phase and agent by a colon, so two identities can share a key: the later entry
  overwrites the earlier one, and the history of the earlier identity is gone after a restore.
\<close>

definition colliding_ledger :: ledger where
  "colliding_ledger = sample_ledger\<lparr>entries :=
     [((''a:b'', ''c''), \<lparr>consecutive_unproductive = 0, total_unproductive = 9, cooldown_until_ms = None, cooldown_reason = None,
         cooldown_count = 0, is_spent = True, spent_reason = Some ''total''\<rparr>),
      ((''a'', ''b:c''), \<lparr>consecutive_unproductive = 0, total_unproductive = 1, cooldown_until_ms = None, cooldown_reason = None,
         cooldown_count = 0, is_spent = False, spent_reason = None\<rparr>)]\<rparr>"

lemma snapshot_key_collision:
  "case ledger_from_snapshot sample_clock (ledger_snapshot sample_clock colliding_ledger) of
     Inr l \<Rightarrow> dkeys (entries l) = [(''a'', ''b:c'')] \<and> dkeys (entries colliding_ledger) = [(''a:b'', ''c''), (''a'', ''b:c'')]
   | Inl _ \<Rightarrow> False"
  by code_simp

text \<open>The entry a snapshot holds under a key.\<close>

definition saved_entry :: "json dict \<Rightarrow> string \<Rightarrow> json dict option" where
  "saved_entry snap k = (case dget snap ''entries'' of
     Some (JObj raw) \<Rightarrow> (case dget raw k of Some (JObj e) \<Rightarrow> Some e | _ \<Rightarrow> None)
   | _ \<Rightarrow> None)"

lemma migrate_entries:
  assumes "srcs \<noteq> []" and "snapshot_limits existing = (cl, tot, base, mx, bf)"
  obtains snap d where "migrate_legacy_guard_history srcs existing = Inr (Some snap)"
    and "saved_entry snap = dget d"
    and "\<And>k e. dget (stored_entries existing) k = Some e \<Longrightarrow> as_strict cl tot d k e"
    and "\<And>src ph ag e. src \<in> set srcs \<Longrightarrow> (ph, ag) \<in> set (legacy_identities src)
          \<Longrightarrow> translate_legacy_source src ph ag cl tot = Inr e \<Longrightarrow> as_strict cl tot d (entry_key ph ag) e"
proof -
  obtain d where d: "merge_sources cl tot (stored_entries existing) (source_identities srcs) = Inr d"
    "\<forall>k x. as_strict cl tot (stored_entries existing) k x \<longrightarrow> as_strict cl tot d k x"
    "\<forall>(src, ph, ag)\<in>set (source_identities srcs). \<forall>e. translate_legacy_source src ph ag cl tot = Inr e
       \<longrightarrow> as_strict cl tot d (entry_key ph ag) e"
    using merge_sources_as_strict by blast
  define snap where "snap = [(''consecutive_limit'', JInt cl), (''total_limit'', JInt tot),
     (''base_cooldown_seconds'', JFloat base), (''max_cooldown_seconds'', JFloat mx),
     (''backoff_factor'', JFloat bf), (''entries'', JObj (map (\<lambda>(k, e). (k, JObj e)) d))]"
  show ?thesis
  proof (rule that [of snap d])
    show "migrate_legacy_guard_history srcs existing = Inr (Some snap)"
      using assms d(1) by (simp add: migrate_legacy_guard_history_def snap_def)
    have "dget snap ''entries'' = Some (JObj (map (\<lambda>(k, e). (k, JObj e)) d))"
      by (simp add: snap_def dget_def)
    then show "saved_entry snap = dget d"
      by (auto simp: saved_entry_def dget_map_values split: option.splits)
    show "as_strict cl tot d k e" if "dget (stored_entries existing) k = Some e" for k e
      using d(2) that by (auto simp: as_strict_def)
    show "as_strict cl tot d (entry_key ph ag) e"
      if "src \<in> set srcs" "(ph, ag) \<in> set (legacy_identities src)"
        "translate_legacy_source src ph ag cl tot = Inr e" for src ph ag e
      using d(3) that by (fastforce simp: source_identities_def)
  qed
qed

text \<open>
  migrating legacy failure history never raises, never lowers the protection a stored entry
  gives, and leaves for every identity of every source an entry at least as strict as the
  translated one (a smaller \<open>entry_strictness\<close> is stricter).
\<close>

theorem legacy_migration_never_weakens:
  assumes "srcs \<noteq> []" and "snapshot_limits existing = (cl, tot, base, mx, bf)"
  shows "\<exists>snap. migrate_legacy_guard_history srcs existing = Inr (Some snap)
     \<and> (\<forall>k e. dget (stored_entries existing) k = Some e \<longrightarrow>
          (\<exists>e'. saved_entry snap k = Some e' \<and> entry_strictness e' cl tot \<le> entry_strictness e cl tot))
     \<and> (\<forall>src\<in>set srcs. \<forall>(ph, ag)\<in>set (legacy_identities src).
          \<exists>e e'. translate_legacy_source src ph ag cl tot = Inr e
             \<and> saved_entry snap (entry_key ph ag) = Some e'
             \<and> entry_strictness e' cl tot \<le> entry_strictness e cl tot)"
proof -
  obtain snap d where *: "migrate_legacy_guard_history srcs existing = Inr (Some snap)"
    "saved_entry snap = dget d"
    "\<And>k e. dget (stored_entries existing) k = Some e \<Longrightarrow> as_strict cl tot d k e"
    "\<And>src ph ag e. src \<in> set srcs \<Longrightarrow> (ph, ag) \<in> set (legacy_identities src)
        \<Longrightarrow> translate_legacy_source src ph ag cl tot = Inr e \<Longrightarrow> as_strict cl tot d (entry_key ph ag) e"
    using migrate_entries [OF assms] by metis
  have strict: "as_strict cl tot d k e \<Longrightarrow>
      \<exists>e'. saved_entry snap k = Some e' \<and> entry_strictness e' cl tot \<le> entry_strictness e cl tot" for k e
    using *(2) by (auto simp: as_strict_def split: option.splits)
  have "\<exists>e e'. translate_legacy_source src ph ag cl tot = Inr e \<and> saved_entry snap (entry_key ph ag) = Some e'
      \<and> entry_strictness e' cl tot \<le> entry_strictness e cl tot"
    if "src \<in> set srcs" "(ph, ag) \<in> set (legacy_identities src)" for src ph ag
    using *(4) [OF that] strict translate_legacy_source_total by metis
  then show ?thesis using *(1,3) strict by (intro exI [of _ snap]) auto
qed

definition sample_source :: legacy_guard_source where
  "sample_source = \<lparr>lg_payload = JObj [(''streak'', JInt 1)], lg_phase = ''development'',
     lg_agent = Some ''claude'', candidate_agents = [], fail_closed_reason = None\<rparr>"

theorem legacy_migration_never_weakens_witness:
  "\<exists>snap. migrate_legacy_guard_history [sample_source] None = Inr (Some snap)
     \<and> (\<exists>e e'. translate_legacy_source sample_source ''development'' ''claude'' 3 9 = Inr e
          \<and> saved_entry snap ''development:claude'' = Some e'
          \<and> entry_strictness e' 3 9 \<le> entry_strictness e 3 9)"
proof -
  have "(''development'', ''claude'') \<in> set (legacy_identities sample_source)"
    by (simp add: sample_source_def legacy_identities_def)
  moreover have "entry_key ''development'' ''claude'' = ''development:claude''"
    by (simp add: entry_key_def)
  ultimately show ?thesis
    using legacy_migration_never_weakens [of "[sample_source]" None 3 9 60 3600 2]
    by (fastforce simp: snapshot_limits_def)
qed

text \<open>
  unreadable legacy history fails closed.  When a source's payload cannot be read, every
  identity it stands for is saved as spent, and a ledger restored from an entry so saved denies
  the agent.
\<close>

theorem legacy_migration_fails_closed:
  assumes "src \<in> set srcs" and "readable_legacy_payload (lg_payload src) = None"
    and "(ph, ag) \<in> set (legacy_identities src)"
  shows "\<exists>snap e. migrate_legacy_guard_history srcs existing = Inr (Some snap)
     \<and> saved_entry snap (entry_key ph ag) = Some e \<and> json_true (dget e ''is_spent'')
     \<and> (dget e ''phase'' = Some (JStr ph) \<longrightarrow> dget e ''agent'' = Some (JStr ag) \<longrightarrow> ph \<noteq> [] \<longrightarrow> ag \<noteq> []
        \<longrightarrow> (\<forall>l l'. restore_entry c l (JObj e) = Inr l' \<longrightarrow> (\<exists>r. snd (ledger_status c' l' ph ag) = Spent r)))"
proof -
  have ne: "srcs \<noteq> []" using assms(1) by auto
  obtain cl tot base mx bf where lim: "snapshot_limits existing = (cl, tot, base, mx, bf)"
    by (metis surj_pair)
  obtain r where r: "translate_legacy_source src ph ag cl tot = Inr (failed_closed_entry ph ag r cl tot)"
    using assms(2) by (cases "fail_closed_reason src") (auto simp: translate_legacy_source_def)
  obtain snap d where *: "migrate_legacy_guard_history srcs existing = Inr (Some snap)"
    "saved_entry snap = dget d" "as_strict cl tot d (entry_key ph ag) (failed_closed_entry ph ag r cl tot)"
    using migrate_entries [OF ne lim] assms(1,3) r by metis
  then obtain e where e: "saved_entry snap (entry_key ph ag) = Some e" "json_true (dget e ''is_spent'')"
    using spent_strictness failed_closed_spent by (auto simp: as_strict_def split: option.splits)
  have "\<exists>r. snd (ledger_status c' l' ph ag) = Spent r"
    if "dget e ''phase'' = Some (JStr ph)" "dget e ''agent'' = Some (JStr ag)" "ph \<noteq> []" "ag \<noteq> []"
      "restore_entry c l (JObj e) = Inr l'" for l l'
    using that e(2) by (auto simp: restore_entry_def ledger_status_def status_at_eq)
  with * e show ?thesis by blast
qed

theorem legacy_migration_fails_closed_witness:
  "\<exists>snap e. migrate_legacy_guard_history [sample_source\<lparr>lg_payload := JStr ''garbage''\<rparr>] None = Inr (Some snap)
     \<and> saved_entry snap ''development:claude'' = Some e \<and> json_true (dget e ''is_spent'')"
  using legacy_migration_fails_closed [of "sample_source\<lparr>lg_payload := JStr ''garbage''\<rparr>"
      "[sample_source\<lparr>lg_payload := JStr ''garbage''\<rparr>]" "''development''" "''claude''" None
      sample_clock sample_clock]
  by (fastforce simp: sample_source_def readable_legacy_payload_def legacy_identities_def entry_key_def)

text \<open>
  the outcome \<open>record_attempt\<close> reports can contradict the status the ledger holds.  An entry
  restored as spent below the total limit (a migrated legacy entry is one) stays spent after a
  failed attempt that changed the workspace, and yet the attempt is reported as not demoted.
\<close>

theorem ledger_outcome_contradicts_status:
  assumes "dget (entries l) (fact_phase att, fact_agent att) = Some e" and "is_spent e"
    and "\<not> artifact_valid att" and "workspace_changed att"
    and "total_unproductive e + 1 < total_limit l" and "0 < consecutive_limit l"
  shows "\<not> demoted (snd (record_attempt c l att))
    \<and> (\<exists>r. snd (ledger_status c' (fst (record_attempt c l att)) (fact_phase att) (fact_agent att)) = Spent r)"
  using assms
  by (simp add: demoted_def record_attempt_outcome record_entry_def count_attempt_def Let_def
      ledger_status_def status_at_eq record_attempt_entry)

theorem ledger_outcome_contradicts_status_witness:
  "\<not> demoted (snd (record_attempt sample_clock
      (sample_ledger\<lparr>entries := [((''development'', ''claude''), fresh_entry\<lparr>is_spent := True\<rparr>)]\<rparr>)
      (sample_failure\<lparr>workspace_changed := True\<rparr>)))"
  using ledger_outcome_contradicts_status
    [of "sample_ledger\<lparr>entries := [((''development'', ''claude''), fresh_entry\<lparr>is_spent := True\<rparr>)]\<rparr>"
        "sample_failure\<lparr>workspace_changed := True\<rparr>" "fresh_entry\<lparr>is_spent := True\<rparr>" sample_clock sample_clock]
  by (simp add: sample_failure_def sample_ledger_def dget_def)

text \<open>
  \<open>earliest_wait_ms\<close> is zero as soon as one of the agents is eligible; otherwise it is the
  shortest remaining cooldown, and zero when every agent is spent.
\<close>

theorem ledger_earliest_wait_spec:
  "snd (earliest_wait_ms c l ph ags) =
     (let waits = {max 0 (u - mono_ms c) | u r ag. ag \<in> set ags \<and> snd (ledger_status c l ph ag) = Cooldown u r}
      in if (\<exists>ag\<in>set ags. snd (ledger_status c l ph ag) = Eligible) \<or> waits = {} then 0 else Min waits)"
proof (cases "\<exists>ag\<in>set ags. snd (ledger_status c l ph ag) = Eligible")
  case True
  then show ?thesis
    using earliest_wait_loop_zero [of ags l ph "mono_ms c" "[]"]
    by (simp add: earliest_wait_ms_def ledger_status_def)
next
  case False
  then show ?thesis
    using earliest_wait_loop_Min [of ags l ph "mono_ms c" "[]"]
    by (auto simp: earliest_wait_ms_def ledger_status_def Let_def)
qed

end
