(* ===== verification/Unavailability.thy ===== *)
theory Unavailability
  imports Prelude
begin

text \<open>
  Temporary unavailability of agents: the reasons and their backoff parameters
  (\<^verbatim>\<open>ralph/recovery/unavailability_reason.py\<close>), the tracker that owns the cooldowns
  (\<^verbatim>\<open>ralph/recovery/agent_unavailability_tracker.py\<close>) and, as a locale, the
  \<^verbatim>\<open>UnavailabilityStore\<close> protocol that the recovery controller relies on.  The tracker is an
  interpretation of the protocol.  Its lock is held for the whole of every operation and is not
  represented; the injected clock is an argument.  The import-time check that parses the
  module's own source is not modelled.
\<close>

section \<open>Reasons and backoff parameters\<close>

datatype unavailability_reason =
    Out_of_credits | Provider_unavailable | Context_exhausted | Process_exited | Auth_config
  | Broken_agent | No_output_at_start | No_output_after_activity | Suspicious_timeout_no_output
  | Stale_child_quiet | Strictly_stuck

fun reason_value :: "unavailability_reason \<Rightarrow> string" where
  "reason_value Out_of_credits = ''out_of_credits''"
| "reason_value Provider_unavailable = ''provider_unavailable''"
| "reason_value Context_exhausted = ''context_exhausted''"
| "reason_value Process_exited = ''process_exited''"
| "reason_value Auth_config = ''auth_config''"
| "reason_value Broken_agent = ''broken_agent''"
| "reason_value No_output_at_start = ''no_output_at_start''"
| "reason_value No_output_after_activity = ''no_output_after_activity''"
| "reason_value Suspicious_timeout_no_output = ''suspicious_timeout_no_output''"
| "reason_value Stale_child_quiet = ''stale_child_quiet''"
| "reason_value Strictly_stuck = ''strictly_stuck''"

record reason_backoff_policy =
  base_backoff_ms :: int
  max_backoff_ms :: int

definition new_backoff_policy :: "int \<Rightarrow> int \<Rightarrow> reason_backoff_policy res" where
  "new_backoff_policy base mx =
     (if base \<le> 0 then Inl (ValueError ''base_backoff_ms must be positive'')
      else if mx \<le> base then Inl (ValueError ''max_backoff_ms must be strictly greater than base_backoff_ms'')
      else Inr \<lparr>base_backoff_ms = base, max_backoff_ms = mx\<rparr>)"

definition universal_cooldown_cap_ms :: int where
  "universal_cooldown_cap_ms = 18000000"

type_synonym backoff_policy_map = "(unavailability_reason, reason_backoff_policy) pydict"

definition default_unavailability_backoff_policy :: backoff_policy_map where
  "default_unavailability_backoff_policy =
     map (\<lambda>(r, b). (r, \<lparr>base_backoff_ms = b, max_backoff_ms = universal_cooldown_cap_ms\<rparr>))
       [(Out_of_credits, 60000), (Provider_unavailable, 60000), (Context_exhausted, 5000),
        (Process_exited, 5000), (Auth_config, 5000), (Broken_agent, 5000),
        (No_output_at_start, 5000), (No_output_after_activity, 10000),
        (Suspicious_timeout_no_output, 10000), (Stale_child_quiet, 15000), (Strictly_stuck, 15000)]"

section \<open>The tracker\<close>

record unavailability_entry =
  unavailable_until_ms :: int
  entry_reason :: "unavailability_reason option"
  entry_attempt :: nat
  entry_base_backoff_ms :: int
  entry_max_backoff_ms :: int

record tracker =
  backoff_policy :: backoff_policy_map
  tracker_entries :: "unavailability_entry dict"
  backoff_attempts :: "nat dict"

definition default_legacy_backoff_ms :: int where
  "default_legacy_backoff_ms = 5000"

definition default_legacy_max_backoff_ms :: int where
  "default_legacy_max_backoff_ms = 300000"

definition new_tracker ::
  "backoff_policy_map \<Rightarrow> unavailability_entry dict \<Rightarrow> int dict \<Rightarrow> nat dict \<Rightarrow> tracker" where
  "new_tracker pol initial_entries initial_timeouts initial_attempts =
     \<lparr>backoff_policy = pol,
      tracker_entries = foldl (\<lambda>d (k, t). dset k
          \<lparr>unavailable_until_ms = t, entry_reason = None, entry_attempt = dget_or initial_attempts k 0,
           entry_base_backoff_ms = default_legacy_backoff_ms,
           entry_max_backoff_ms = default_legacy_max_backoff_ms\<rparr> d) initial_entries initial_timeouts,
      backoff_attempts = initial_attempts\<rparr>"

definition prune_expired :: "int \<Rightarrow> tracker \<Rightarrow> tracker \<times> nat" where
  "prune_expired now t =
     (let expired = map fst (filter (\<lambda>(_, e). unavailable_until_ms e \<le> now) (tracker_entries t))
      in (t\<lparr>tracker_entries := foldl (\<lambda>d k. ddel k d) (tracker_entries t) expired\<rparr>, length expired))"

text \<open>Python's \<^verbatim>\<open>int.bit_length\<close>.\<close>

fun bit_length :: "nat \<Rightarrow> nat" where
  "bit_length n = (if n = 0 then 0 else Suc (bit_length (n div 2)))"

declare bit_length.simps [simp del]

definition backoff_bounds :: "tracker \<Rightarrow> unavailability_reason option \<Rightarrow> int \<times> int" where
  "backoff_bounds t reason =
     (case (case reason of None \<Rightarrow> None | Some r \<Rightarrow> dget (backoff_policy t) r) of
        Some pol \<Rightarrow> (base_backoff_ms pol, min (max_backoff_ms pol) universal_cooldown_cap_ms)
      | None \<Rightarrow> (default_legacy_backoff_ms, min default_legacy_max_backoff_ms universal_cooldown_cap_ms))"

definition saturated_attempt :: "int \<Rightarrow> int \<Rightarrow> nat" where
  "saturated_attempt base cap = bit_length (nat ((cap - 1) div base))"

definition mark_unavailable ::
  "clock \<Rightarrow> tracker \<Rightarrow> string \<Rightarrow> string \<Rightarrow> unavailability_reason option \<Rightarrow> tracker \<times> unavailability_entry" where
  "mark_unavailable c t0 ph ag reason =
     (let now = mono_ms c;
          t = fst (prune_expired now t0);
          (base, cap) = backoff_bounds t reason;
          sat = saturated_attempt base cap;
          att = min (dget_or (backoff_attempts t) ag 0) sat;
          backoff = min (base * 2 ^ att) cap;
          e = \<lparr>unavailable_until_ms = now + backoff, entry_reason = reason, entry_attempt = att,
               entry_base_backoff_ms = base, entry_max_backoff_ms = cap\<rparr>
      in (t\<lparr>tracker_entries := dset ag e (tracker_entries t),
            backoff_attempts := dset ag (min (att + 1) sat) (backoff_attempts t)\<rparr>, e))"

definition tracker_available :: "clock \<Rightarrow> tracker \<Rightarrow> string \<Rightarrow> string \<Rightarrow> bool" where
  "tracker_available c t ph ag =
     (case dget (tracker_entries t) ag of None \<Rightarrow> True | Some e \<Rightarrow> unavailable_until_ms e \<le> mono_ms c)"

fun earliest_unavailable_loop :: "tracker \<Rightarrow> int \<Rightarrow> int option \<Rightarrow> string list \<Rightarrow> int" where
  "earliest_unavailable_loop t now m [] = max 0 (case m of None \<Rightarrow> 0 | Some r \<Rightarrow> r)"
| "earliest_unavailable_loop t now m (ag # ags) =
     (case dget (tracker_entries t) ag of
        None \<Rightarrow> 0
      | Some e \<Rightarrow>
          if now < unavailable_until_ms e
            then let r = unavailable_until_ms e - now
                 in earliest_unavailable_loop t now
                      (case m of None \<Rightarrow> Some r | Some x \<Rightarrow> if r < x then Some r else m) ags
          else earliest_unavailable_loop t now m ags)"

definition earliest_unavailable_wait_ms :: "clock \<Rightarrow> tracker \<Rightarrow> string \<Rightarrow> string list \<Rightarrow> int" where
  "earliest_unavailable_wait_ms c t ph ags = earliest_unavailable_loop t (mono_ms c) None ags"

definition reset_backoff :: "tracker \<Rightarrow> string \<Rightarrow> string \<Rightarrow> tracker" where
  "reset_backoff t ph ag =
     t\<lparr>tracker_entries := ddel ag (tracker_entries t), backoff_attempts := ddel ag (backoff_attempts t)\<rparr>"

record tracker_snapshot =
  snap_timeouts :: "int dict"
  snap_reasons :: "string option dict"
  snap_attempts :: "nat dict"

definition snapshot_tracker :: "tracker \<Rightarrow> tracker_snapshot" where
  "snapshot_tracker t =
     \<lparr>snap_timeouts = map (\<lambda>(k, e). (k, unavailable_until_ms e)) (tracker_entries t),
      snap_reasons = map (\<lambda>(k, e). (k, map_option reason_value (entry_reason e))) (tracker_entries t),
      snap_attempts = backoff_attempts t\<rparr>"

section \<open>The store protocol\<close>

text \<open>
  What the controller may assume of an \<^verbatim>\<open>UnavailabilityStore\<close>: marking an agent bars it until
  the returned deadline, which lies within the ceiling; it bars no other agent; a reset lifts
  the bar of one agent.  The promise that no agent is barred for ever follows.
\<close>

datatype store_op = Mark clock string string "unavailability_reason option" | Reset string string

locale unavailability_store =
  fixes store_ok :: "'s \<Rightarrow> bool"
    and mark :: "clock \<Rightarrow> 's \<Rightarrow> string \<Rightarrow> string \<Rightarrow> unavailability_reason option \<Rightarrow> 's \<times> unavailability_entry"
    and available :: "clock \<Rightarrow> 's \<Rightarrow> string \<Rightarrow> string \<Rightarrow> bool"
    and reset :: "'s \<Rightarrow> string \<Rightarrow> string \<Rightarrow> 's"
    and ceiling_ms :: int
  assumes mark_ok: "store_ok s \<Longrightarrow> store_ok (fst (mark c s ph ag r))"
    and reset_ok: "store_ok s \<Longrightarrow> store_ok (reset s ph ag)"
    and mark_bars: "store_ok s \<Longrightarrow>
          available c' (fst (mark c s ph ag r)) ph' ag
          \<longleftrightarrow> unavailable_until_ms (snd (mark c s ph ag r)) \<le> mono_ms c'"
    and mark_ceiling: "store_ok s \<Longrightarrow>
          unavailable_until_ms (snd (mark c s ph ag r)) \<le> mono_ms c + ceiling_ms"
    and mark_other: "store_ok s \<Longrightarrow> ag' \<noteq> ag \<Longrightarrow> mono_ms c \<le> mono_ms c' \<Longrightarrow>
          available c' (fst (mark c s ph ag r)) ph' ag' \<longleftrightarrow> available c' s ph' ag'"
    and reset_lifts: "available c (reset s ph ag) ph' ag"
    and reset_other: "ag' \<noteq> ag \<Longrightarrow> available c (reset s ph ag) ph' ag' \<longleftrightarrow> available c s ph' ag'"
    and ceiling_nonneg: "0 \<le> ceiling_ms"
begin

fun run_op :: "'s \<Rightarrow> store_op \<Rightarrow> 's" where
  "run_op s (Mark c ph ag r) = fst (mark c s ph ag r)"
| "run_op s (Reset ph ag) = reset s ph ag"

definition elapsed :: "clock \<Rightarrow> store_op \<Rightarrow> bool" where
  "elapsed c' x = (case x of Mark c _ _ _ \<Rightarrow> mono_ms c + ceiling_ms \<le> mono_ms c' | Reset _ _ \<Rightarrow> True)"

lemma run_op_ok: "store_ok s \<Longrightarrow> store_ok (run_op s x)"
  by (cases x) (auto simp: mark_ok reset_ok)

lemma run_op_available:
  assumes "store_ok s" and "available c' s ph' ag'" and "elapsed c' x"
  shows "available c' (run_op s x) ph' ag'"
proof (cases x)
  case (Mark c ph ag r)
  have "mono_ms c + ceiling_ms \<le> mono_ms c'" using assms(3) Mark by (simp add: elapsed_def)
  moreover have "unavailable_until_ms (snd (mark c s ph ag r)) \<le> mono_ms c + ceiling_ms"
    by (rule mark_ceiling [OF assms(1)])
  ultimately show ?thesis
    using Mark mark_bars [OF assms(1)] mark_other [OF assms(1)] assms(2) ceiling_nonneg
    by (cases "ag' = ag") auto
next
  case (Reset ph ag)
  then show ?thesis using assms(2) reset_lifts reset_other by (cases "ag' = ag") auto
qed

text \<open>No sequence of operations bars an agent beyond the ceiling.\<close>

lemma no_permanent_skip:
  assumes "store_ok s" and "available c' s ph' ag'" and "\<forall>x\<in>set xs. elapsed c' x"
  shows "available c' (foldl run_op s xs) ph' ag'"
  using assms
proof (induction xs arbitrary: s)
  case Nil
  then show ?case by simp
next
  case (Cons x xs)
  then show ?case by (simp add: run_op_ok run_op_available)
qed

end

section \<open>The tracker implements the protocol\<close>

lemma bit_length_bounds: "0 < n \<Longrightarrow> 2 ^ (bit_length n - 1) \<le> n" "n < 2 ^ bit_length n"
proof (induction n rule: bit_length.induct)
  case (1 n)
  { case 1
    show ?case
    proof (cases "n div 2 = 0")
      case True
      with 1 show ?thesis by (subst bit_length.simps) (simp add: bit_length.simps)
    next
      case False
      have b: "bit_length n = Suc (bit_length (n div 2))" using 1 by (subst bit_length.simps) simp
      have "0 < bit_length (n div 2)" using False by (subst bit_length.simps) simp
      then have "(2::nat) ^ (bit_length n - 1) = 2 * 2 ^ (bit_length (n div 2) - 1)"
        unfolding b by (metis Suc_pred diff_Suc_1 power_Suc)
      also have "\<dots> \<le> 2 * (n div 2)" using "1.IH"(1) 1 False by simp
      finally show ?thesis by simp
    qed
  next
    case 2
    show ?case
    proof (cases "n = 0")
      case True
      then show ?thesis by (simp add: bit_length.simps)
    next
      case False
      have "n div 2 < 2 ^ bit_length (n div 2)" using "1.IH"(2) False by simp
      moreover have "bit_length n = Suc (bit_length (n div 2))"
        using False by (subst bit_length.simps) simp
      ultimately show ?thesis by simp
    qed
  }
qed

lemma div_mod_bounds:
  assumes "(0::int) < b"
  shows "b * (x div b) \<le> x \<and> x < b * (x div b) + b"
proof -
  have "x = b * (x div b) + x mod b" by simp
  with pos_mod_bound [OF assms, of x] pos_mod_sign [OF assms, of x] show ?thesis by linarith
qed

text \<open>\<open>saturated_attempt\<close> is the least exponent at which the doubling reaches the cap.\<close>

lemma saturated_reaches_cap:
  assumes "0 < base" and "0 < cap"
  shows "cap \<le> base * 2 ^ saturated_attempt base cap"
proof -
  define q where "q = (cap - 1) div base"
  have "0 \<le> q" using assms by (simp add: q_def pos_imp_zdiv_nonneg_iff)
  then have "q < 2 ^ bit_length (nat q)"
    using bit_length_bounds(2) [of "nat q"] by (simp add: nat_less_iff)
  then have "base * (q + 1) \<le> base * 2 ^ bit_length (nat q)" using assms(1) by simp
  moreover have "cap - 1 < base * (q + 1)"
    using div_mod_bounds [OF assms(1), of "cap - 1"] by (simp add: q_def distrib_left)
  ultimately show ?thesis by (simp add: saturated_attempt_def q_def)
qed

lemma below_saturation_below_cap:
  assumes "0 < base" and "0 < cap" and "k < saturated_attempt base cap"
  shows "base * 2 ^ k < cap"
proof -
  define q where "q = (cap - 1) div base"
  have q: "0 \<le> q" using assms by (simp add: q_def pos_imp_zdiv_nonneg_iff)
  have k: "k < bit_length (nat q)" using assms(3) by (simp add: saturated_attempt_def q_def)
  then have "nat q \<noteq> 0" by (auto simp: bit_length.simps)
  then have "2 ^ (bit_length (nat q) - 1) \<le> nat q" by (metis bit_length_bounds(1) neq0_conv)
  moreover have "(2::nat) ^ k \<le> 2 ^ (bit_length (nat q) - 1)"
    using k by (intro power_increasing) auto
  ultimately have "(2::nat) ^ k \<le> nat q" by (rule order_trans [rotated])
  then have "(2::int) ^ k \<le> q" using q by (simp add: le_nat_iff)
  then have "base * 2 ^ k \<le> base * q" using assms(1) by simp
  also have "\<dots> \<le> cap - 1"
    using div_mod_bounds [OF assms(1), of "cap - 1"] by (simp add: q_def)
  finally show ?thesis by simp
qed

lemma saturated_backoff_eq:
  assumes "0 < base" and "0 < cap"
  shows "min (base * 2 ^ min n (saturated_attempt base cap)) cap = min (base * 2 ^ n) cap"
proof (cases "n \<le> saturated_attempt base cap")
  case False
  then have "(2::int) ^ saturated_attempt base cap \<le> 2 ^ n" by (intro power_increasing) auto
  then have "base * 2 ^ saturated_attempt base cap \<le> base * 2 ^ n" using assms(1) by simp
  with False saturated_reaches_cap [OF assms] show ?thesis by simp
qed (simp add: min_def)

definition tracker_ok :: "tracker \<Rightarrow> bool" where
  "tracker_ok t = (distinct (dkeys (tracker_entries t))
     \<and> list_all (\<lambda>(_, pol). 0 < base_backoff_ms pol \<and> base_backoff_ms pol < max_backoff_ms pol)
         (backoff_policy t))"

lemma distinct_dset [simp]: "distinct (dkeys d) \<Longrightarrow> distinct (dkeys (dset k v d))"
  by (auto simp: dkeys_dset din_iff)

lemma distinct_ddel [simp]: "distinct (dkeys d) \<Longrightarrow> distinct (dkeys (ddel k d))"
  by (simp add: ddel_def dkeys_def AList.distinct_delete)

lemma distinct_foldl_ddel: "distinct (dkeys d) \<Longrightarrow> distinct (dkeys (foldl (\<lambda>d k. ddel k d) d ks))"
  by (induction ks arbitrary: d) auto

lemma prune_expired_keeps [simp]:
  "backoff_policy (fst (prune_expired now t)) = backoff_policy t"
  "backoff_attempts (fst (prune_expired now t)) = backoff_attempts t"
  by (simp_all add: prune_expired_def Let_def)

lemma dget_foldl_ddel: "dget (foldl (\<lambda>d k. ddel k d) d ks) k = (if k \<in> set ks then None else dget d k)"
  by (induction ks arbitrary: d) auto

lemma dget_distinct: "distinct (dkeys d) \<Longrightarrow> (k, v) \<in> set d \<Longrightarrow> dget d k = Some v"
  by (simp add: dget_def dkeys_def)

lemma prune_expired_lookup:
  assumes "distinct (dkeys (tracker_entries t))"
  shows "dget (tracker_entries (fst (prune_expired now t))) ag =
     (case dget (tracker_entries t) ag of
        Some e \<Rightarrow> if unavailable_until_ms e \<le> now then None else Some e | None \<Rightarrow> None)"
proof -
  have "ag \<in> set (map fst (filter (\<lambda>(_, e). unavailable_until_ms e \<le> now) (tracker_entries t)))
    \<longleftrightarrow> (\<exists>e. dget (tracker_entries t) ag = Some e \<and> unavailable_until_ms e \<le> now)"
    using dget_distinct [OF assms] dget_SomeD by (fastforce simp: image_iff)
  then show ?thesis
    by (auto simp: prune_expired_def Let_def dget_foldl_ddel split: option.splits)
qed

lemma backoff_bounds_cong: "backoff_policy t' = backoff_policy t \<Longrightarrow> backoff_bounds t' r = backoff_bounds t r"
  by (simp add: backoff_bounds_def split: option.split)

lemma policy_bounds:
  "tracker_ok t \<Longrightarrow> dget (backoff_policy t) r = Some pol
   \<Longrightarrow> 0 < base_backoff_ms pol \<and> base_backoff_ms pol < max_backoff_ms pol"
  unfolding tracker_ok_def by (blast dest: dict_all_valuesD)

lemma backoff_bounds_pos:
  assumes "tracker_ok t" and "backoff_bounds t r = (base, cap)"
  shows "0 < base" and "0 < cap" and "cap \<le> universal_cooldown_cap_ms"
  using assms(2) policy_bounds [OF assms(1)]
  by (fastforce simp: backoff_bounds_def universal_cooldown_cap_ms_def
      default_legacy_backoff_ms_def default_legacy_max_backoff_ms_def split: option.splits)+

lemma mark_unavailable_until:
  assumes "tracker_ok t" and "backoff_bounds t r = (base, cap)"
  shows "unavailable_until_ms (snd (mark_unavailable c t ph ag r))
       = mono_ms c + min (base * 2 ^ dget_or (backoff_attempts t) ag 0) cap"
proof -
  have "backoff_bounds (fst (prune_expired (mono_ms c) t)) r = (base, cap)"
    using assms(2) backoff_bounds_cong [OF prune_expired_keeps(1)] by metis
  then show ?thesis
    using saturated_backoff_eq [OF backoff_bounds_pos(1,2) [OF assms]]
    by (simp add: mark_unavailable_def Let_def)
qed

lemma mark_unavailable_entries:
  "tracker_entries (fst (mark_unavailable c t ph ag r))
   = dset ag (snd (mark_unavailable c t ph ag r)) (tracker_entries (fst (prune_expired (mono_ms c) t)))"
  by (simp add: mark_unavailable_def Let_def case_prod_unfold)

lemma mark_unavailable_policy [simp]:
  "backoff_policy (fst (mark_unavailable c t ph ag r)) = backoff_policy t"
  by (simp add: mark_unavailable_def Let_def case_prod_unfold)

lemma mark_unavailable_attempts:
  assumes "tracker_ok t" and "backoff_bounds t r = (base, cap)"
  shows "dget_or (backoff_attempts (fst (mark_unavailable c t ph ag r))) ag 0
       = min (Suc (dget_or (backoff_attempts t) ag 0)) (saturated_attempt base cap)"
proof -
  have "backoff_bounds (fst (prune_expired (mono_ms c) t)) r = (base, cap)"
    using assms(2) backoff_bounds_cong [OF prune_expired_keeps(1)] by metis
  then show ?thesis by (simp add: mark_unavailable_def Let_def min_def)
qed

lemma mark_unavailable_ok: "tracker_ok t \<Longrightarrow> tracker_ok (fst (mark_unavailable c t ph ag r))"
  by (simp add: tracker_ok_def mark_unavailable_entries prune_expired_def Let_def distinct_foldl_ddel)

interpretation tracker_store: unavailability_store tracker_ok mark_unavailable tracker_available
  reset_backoff universal_cooldown_cap_ms
proof
  fix t c c' ph ph' ag ag' r
  show "tracker_ok (fst (mark_unavailable c t ph ag r))" if "tracker_ok t"
    using that by (rule mark_unavailable_ok)
  show "tracker_ok (reset_backoff t ph ag)" if "tracker_ok t"
    using that by (simp add: tracker_ok_def reset_backoff_def)
  show "tracker_available c' (fst (mark_unavailable c t ph ag r)) ph' ag
      \<longleftrightarrow> unavailable_until_ms (snd (mark_unavailable c t ph ag r)) \<le> mono_ms c'"
    by (simp add: tracker_available_def mark_unavailable_entries)
  show "unavailable_until_ms (snd (mark_unavailable c t ph ag r)) \<le> mono_ms c + universal_cooldown_cap_ms"
    if "tracker_ok t"
  proof -
    obtain base cap where "backoff_bounds t r = (base, cap)" by fastforce
    with that show ?thesis
      using backoff_bounds_pos(3) [OF that] by (auto simp: mark_unavailable_until min_le_iff_disj)
  qed
  show "tracker_available c' (fst (mark_unavailable c t ph ag r)) ph' ag' \<longleftrightarrow> tracker_available c' t ph' ag'"
    if "tracker_ok t" "ag' \<noteq> ag" "mono_ms c \<le> mono_ms c'"
    using that
    by (auto simp: tracker_available_def mark_unavailable_entries prune_expired_lookup tracker_ok_def
        split: option.splits)
  show "tracker_available c (reset_backoff t ph ag) ph' ag"
    by (simp add: tracker_available_def reset_backoff_def)
  show "tracker_available c (reset_backoff t ph ag) ph' ag' \<longleftrightarrow> tracker_available c t ph' ag'"
    if "ag' \<noteq> ag"
    using that by (simp add: tracker_available_def reset_backoff_def)
qed (simp add: universal_cooldown_cap_ms_def)

section \<open>Properties of the tracker\<close>

definition run_store :: "tracker \<Rightarrow> store_op list \<Rightarrow> tracker" where
  "run_store t xs = foldl (\<lambda>t x. case x of Mark c ph ag r \<Rightarrow> fst (mark_unavailable c t ph ag r)
     | Reset ph ag \<Rightarrow> reset_backoff t ph ag) t xs"

lemma run_store_eq: "run_store = foldl tracker_store.run_op"
proof -
  have "(\<lambda>t x. case x of Mark c ph ag r \<Rightarrow> fst (mark_unavailable c t ph ag r)
     | Reset ph ag \<Rightarrow> reset_backoff t ph ag) = tracker_store.run_op"
    by (intro ext) (simp split: store_op.split)
  then show ?thesis by (intro ext) (simp add: run_store_def)
qed

text \<open>
  no agent is skipped for ever.  After any sequence of marks and resets, an agent that was
  available in the starting tracker is available again at every instant at least five hours
  (18,000,000 ms) after the last mark, whatever backoff policy the operator supplied.
\<close>

theorem tracker_no_permanent_skip:
  assumes "tracker_ok t" and "tracker_available c t ph ag"
    and "\<forall>x\<in>set xs. case x of Mark c' _ _ _ \<Rightarrow> mono_ms c' + 18000000 \<le> mono_ms c | Reset _ _ \<Rightarrow> True"
  shows "tracker_available c (run_store t xs) ph ag"
  unfolding run_store_eq
proof (rule tracker_store.no_permanent_skip [OF assms(1,2)])
  show "\<forall>x\<in>set xs. tracker_store.elapsed c x"
    using assms(3) by (auto simp: tracker_store.elapsed_def universal_cooldown_cap_ms_def [symmetric]
        split: store_op.splits)
qed

theorem tracker_no_permanent_skip_witness:
  "tracker_available \<lparr>monotonic = 18001, epoch = 0\<rparr>
     (run_store (new_tracker default_unavailability_backoff_policy [] [] [])
       [Mark \<lparr>monotonic = 1, epoch = 0\<rparr> ''development'' ''claude'' (Some Auth_config)])
     ''development'' ''claude''"
  by (rule tracker_no_permanent_skip) (code_simp+)

text \<open>
  the integer-only backoff equals the unbounded doubling it stands for.  After any number
  of marks of an agent for one reason, the next mark bars it for exactly
  \<open>min (base * 2 ^ n) cap\<close> milliseconds, although the exponent and the stored counter are
  saturated at \<open>ceil(log2(cap / base))\<close>.
\<close>

theorem tracker_backoff_doubles_to_cap:
  assumes "tracker_ok t" and "backoff_bounds t r = (base, cap)"
    and "dget (backoff_attempts t) ag = None"
  shows "unavailable_until_ms (snd (mark_unavailable c
       (run_store t (map (\<lambda>(c, ph). Mark c ph ag r) marks)) ph ag r))
     = mono_ms c + min (base * 2 ^ length marks) cap"
proof -
  let ?t = "\<lambda>marks. run_store t (map (\<lambda>(c, ph). Mark c ph ag r) marks)"
  have "tracker_ok (?t marks) \<and> backoff_policy (?t marks) = backoff_policy t
    \<and> dget_or (backoff_attempts (?t marks)) ag 0 = min (length marks) (saturated_attempt base cap)" for marks
  proof (induction marks rule: rev_induct)
    case Nil
    then show ?case using assms by (simp add: run_store_def dget_or_def)
  next
    case (snoc x marks)
    then have "backoff_bounds (?t marks) r = (base, cap)"
      using assms(2) backoff_bounds_cong [of "?t marks" t r] by simp
    moreover obtain c' ph' where "x = (c', ph')" by (cases x)
    then have "?t (marks @ [x]) = fst (mark_unavailable c' (?t marks) ph' ag r)"
      by (simp add: run_store_def)
    ultimately show ?case
      using snoc.IH mark_unavailable_ok [of "?t marks"] mark_unavailable_attempts [of "?t marks" r base cap]
      by simp
  qed
  then have ok: "tracker_ok (?t marks)" "backoff_bounds (?t marks) r = (base, cap)"
    "dget_or (backoff_attempts (?t marks)) ag 0 = min (length marks) (saturated_attempt base cap)"
    using assms(2) backoff_bounds_cong [of "?t marks" t r] by simp_all
  show ?thesis
    using saturated_backoff_eq [OF backoff_bounds_pos(1,2) [OF assms(1,2)]]
    by (simp add: mark_unavailable_until [OF ok(1,2)] ok(3))
qed

theorem tracker_backoff_doubles_to_cap_witness:
  "unavailable_until_ms (snd (mark_unavailable \<lparr>monotonic = 100, epoch = 0\<rparr>
     (run_store (new_tracker default_unavailability_backoff_policy [] [] [])
       [Mark \<lparr>monotonic = 1, epoch = 0\<rparr> ''development'' ''claude'' (Some Out_of_credits),
        Mark \<lparr>monotonic = 2, epoch = 0\<rparr> ''planning'' ''claude'' (Some Out_of_credits)])
     ''development'' ''claude'' (Some Out_of_credits))) = 340000"
proof -
  let ?t = "new_tracker default_unavailability_backoff_policy [] [] []"
  have "tracker_ok ?t" "backoff_bounds ?t (Some Out_of_credits) = (60000, 18000000)"
    "dget (backoff_attempts ?t) ''claude'' = None" "mono_ms \<lparr>monotonic = 100, epoch = 0\<rparr> = 100000"
    by code_simp+
  then show ?thesis
    using tracker_backoff_doubles_to_cap [of ?t "Some Out_of_credits" 60000 18000000 "''claude''"
        "\<lparr>monotonic = 100, epoch = 0\<rparr>" "[(\<lparr>monotonic = 1, epoch = 0\<rparr>, ''development''),
          (\<lparr>monotonic = 2, epoch = 0\<rparr>, ''planning'')]" "''development''"]
    by simp
qed

text \<open>
  the documented contract of \<open>earliest_unavailable_wait_ms\<close> ("returns 0 if any agent is
  available") fails for an agent whose cooldown has elapsed but whose entry was not pruned yet:
  asked about that agent and one that is still barred, it returns the other agent's wait.
\<close>

theorem tracker_wait_ignores_elapsed_agent:
  assumes "dget (tracker_entries t) a = Some e" and "unavailable_until_ms e \<le> mono_ms c"
    and "dget (tracker_entries t) b = Some e'" and "mono_ms c < unavailable_until_ms e'"
  shows "tracker_available c t ph a
    \<and> earliest_unavailable_wait_ms c t ph [a, b] = unavailable_until_ms e' - mono_ms c
    \<and> 0 < earliest_unavailable_wait_ms c t ph [a, b]"
  using assms by (simp add: tracker_available_def earliest_unavailable_wait_ms_def Let_def)

theorem tracker_wait_ignores_elapsed_agent_witness:
  "earliest_unavailable_wait_ms \<lparr>monotonic = 10, epoch = 0\<rparr>
     (new_tracker default_unavailability_backoff_policy [] [(''a'', 5000), (''b'', 60000)] [])
     ''development'' [''a'', ''b''] = 50000"
proof -
  let ?t = "new_tracker default_unavailability_backoff_policy [] [(''a'', 5000), (''b'', 60000)] []"
  obtain e e' where "dget (tracker_entries ?t) ''a'' = Some e" "unavailable_until_ms e = 5000"
    "dget (tracker_entries ?t) ''b'' = Some e'" "unavailable_until_ms e' = 60000"
    by (simp add: new_tracker_def)
  moreover have "mono_ms \<lparr>monotonic = 10, epoch = 0\<rparr> = 10000" by code_simp
  ultimately show ?thesis
    using tracker_wait_ignores_elapsed_agent [of ?t "''a''" e "\<lparr>monotonic = 10, epoch = 0\<rparr>" "''b''" e'
        "''development''"] by simp
qed

end
