(* ===== verification/Agent_Selection.thy ===== *)
theory Agent_Selection
  imports Prelude
begin

text \<open>
  Priority-order agent selection (\<^verbatim>\<open>ralph/recovery/agent_selection.py\<close>): a pure function from
  one availability row per agent of the chain to the selected index and a reason for every
  agent that was passed over.
\<close>

record agent_availability =
  av_agent :: string
  av_available :: bool
  av_cooldown_ms :: int
  av_spent :: bool
  av_reason :: "string option"

definition new_agent_availability ::
  "string \<Rightarrow> bool \<Rightarrow> int \<Rightarrow> bool \<Rightarrow> string option \<Rightarrow> agent_availability" where
  "new_agent_availability ag av ms sp r =
     \<lparr>av_agent = ag, av_available = av, av_cooldown_ms = ms, av_spent = sp, av_reason = r\<rparr>"

record agent_selection =
  sel_index :: "nat option"
  sel_agent :: "string option"
  skipped_reasons :: "(string \<times> string) list"

definition selectable :: "agent_availability \<Rightarrow> bool" where
  "selectable row = (av_available row \<and> av_cooldown_ms row \<le> 0 \<and> \<not> av_spent row)"

fun first_selectable :: "nat \<Rightarrow> agent_availability list \<Rightarrow> nat option" where
  "first_selectable i [] = None"
| "first_selectable i (row # rows) = (if selectable row then Some i else first_selectable (Suc i) rows)"

definition skip_reason :: "agent_availability \<Rightarrow> string" where
  "skip_reason row =
     (if 0 < av_cooldown_ms row
        then ''cooldown ('' @ str_int (av_cooldown_ms row) @ ''ms remaining''
             @ (case av_reason row of None \<Rightarrow> [] | Some r \<Rightarrow> '', reason='' @ r) @ '')''
      else if \<not> av_available row then ''unavailable''
      else if av_spent row then ''spent''
      else ''lower_priority'')"

fun skipped_loop :: "nat option \<Rightarrow> nat \<Rightarrow> agent_availability list \<Rightarrow> (string \<times> string) list" where
  "skipped_loop sel i [] = []"
| "skipped_loop sel i (row # rows) =
     (if sel = Some i then skipped_loop sel (Suc i) rows
      else (av_agent row, skip_reason row) # skipped_loop sel (Suc i) rows)"

definition select_preferred_agent :: "agent_availability list \<Rightarrow> agent_selection" where
  "select_preferred_agent rows =
     (let i = first_selectable 0 rows
      in \<lparr>sel_index = i, sel_agent = map_option (\<lambda>i. av_agent (rows ! i)) i,
          skipped_reasons = skipped_loop i 0 rows\<rparr>)"

definition format_selection_evidence :: "string \<Rightarrow> agent_selection \<Rightarrow> string" where
  "format_selection_evidence ph sel =
     (let skipped = join_str ''; '' (map (\<lambda>(a, r). a @ '': '' @ r) (skipped_reasons sel));
          tail = (if skipped = [] then [] else '' (skipped '' @ skipped @ '')'')
      in case sel_agent sel of
           None \<Rightarrow> ''Phase '' @ ph @ '': No selectable agent'' @ tail
         | Some a \<Rightarrow> ''Phase '' @ ph @ '': Selected agent '' @ a @ tail)"

lemma first_selectable_None: "first_selectable i rows = None \<longleftrightarrow> (\<forall>row\<in>set rows. \<not> selectable row)"
  by (induction rows arbitrary: i) auto

lemma first_selectable_Some:
  "first_selectable i rows = Some k \<longleftrightarrow>
     i \<le> k \<and> k - i < length rows \<and> selectable (rows ! (k - i)) \<and> (\<forall>j<k - i. \<not> selectable (rows ! j))"
proof (induction rows arbitrary: i)
  case Nil
  show ?case by simp
next
  case (Cons row rows)
  show ?case
  proof (cases "k \<le> i")
    case True
    then show ?thesis using Cons.IH [of "Suc i"] by (auto simp: nth_Cons')
  next
    case False
    then obtain d where k: "k = Suc (i + d)" by (metis less_iff_Suc_add not_le)
    have "(\<forall>j<Suc d. \<not> selectable ((row # rows) ! j)) \<longleftrightarrow> \<not> selectable row \<and> (\<forall>j<d. \<not> selectable (rows ! j))"
      by (auto simp: less_Suc_eq_0_disj)
    then show ?thesis using Cons.IH [of "Suc i"] by (auto simp: k)
  qed
qed

lemma skipped_loop_agents:
  "map fst (skipped_loop sel i rows)
   = map (\<lambda>(row, _). av_agent row) (filter (\<lambda>(_, j). sel \<noteq> Some j) (zip rows [i..<i + length rows]))"
proof (induction rows arbitrary: i)
  case Nil
  show ?case by simp
next
  case (Cons row rows)
  have "[i..<i + length (row # rows)] = i # [Suc i..<Suc i + length rows]"
    by (subst upt_conv_Cons) (simp_all del: upt_Suc)
  then show ?case
    using Cons.IH [of "Suc i"] by (cases "sel = Some i") (simp_all del: upt_Suc)
qed

text \<open>
  the selection is the highest-priority usable agent.  The index is the lowest one whose row
  is available, not cooling down and not spent; there is none exactly when no row is usable;
  and every other agent of the chain appears, in order, with a reason for being skipped.
\<close>

theorem selection_is_lowest_usable_index:
  "(case sel_index (select_preferred_agent rows) of
      Some i \<Rightarrow> i < length rows \<and> selectable (rows ! i) \<and> (\<forall>j<i. \<not> selectable (rows ! j))
              \<and> sel_agent (select_preferred_agent rows) = Some (av_agent (rows ! i))
    | None \<Rightarrow> sel_agent (select_preferred_agent rows) = None \<and> \<not> list_ex selectable rows)
   \<and> map fst (skipped_reasons (select_preferred_agent rows))
     = map (\<lambda>(row, _). av_agent row)
         (filter (\<lambda>(_, j). sel_index (select_preferred_agent rows) \<noteq> Some j) (zip rows [0..<length rows]))"
proof -
  have "first_selectable 0 rows = None \<Longrightarrow> \<not> list_ex selectable rows"
    by (simp add: first_selectable_None list_ex_iff)
  moreover have "first_selectable 0 rows = Some i \<Longrightarrow>
      i < length rows \<and> selectable (rows ! i) \<and> (\<forall>j<i. \<not> selectable (rows ! j))" for i
    using first_selectable_Some [of 0 rows i] by simp
  moreover have "map fst (skipped_loop (first_selectable 0 rows) 0 rows)
     = map (\<lambda>(row, _). av_agent row)
         (filter (\<lambda>(_, j). first_selectable 0 rows \<noteq> Some j) (zip rows [0..<length rows]))"
    using skipped_loop_agents [of "first_selectable 0 rows" 0 rows] by simp
  ultimately show ?thesis
    by (simp add: select_preferred_agent_def Let_def split: option.split)
qed

theorem selection_is_lowest_usable_index_witness:
  "let rows = [new_agent_availability ''a'' False 500 False None, new_agent_availability ''b'' True 0 False None,
               new_agent_availability ''c'' True 0 False None]
   in sel_index (select_preferred_agent rows) = Some 1 \<and> sel_agent (select_preferred_agent rows) = Some ''b''
      \<and> map fst (skipped_reasons (select_preferred_agent rows)) = [''a'', ''c'']"
  using selection_is_lowest_usable_index [of "[new_agent_availability ''a'' False 500 False None,
      new_agent_availability ''b'' True 0 False None, new_agent_availability ''c'' True 0 False None]"]
  by (simp add: select_preferred_agent_def new_agent_availability_def selectable_def Let_def)

end
