(* ===== verification/Recovery_Controller.thy ===== *)
theory Recovery_Controller
  imports Ledger Unavailability Agent_Selection Progress Default_Policy
begin

text \<open>
  The recovery controller (\<^verbatim>\<open>ralph/recovery/controller.py\<close>, \<^verbatim>\<open>cycle_cap.py\<close>): the single owner
  of retry, fallover and the recovery cycle cap.  Its mutable fields are the record
  \<open>controller\<close>; every method takes it and returns it updated.  The injected clock is the argument
  \<open>c\<close>, read once per call, with \<open>utc\<close> the text of \<^verbatim>\<open>now_utc()\<close>.  The injected classifier is the
  function argument \<open>classify\<close>.  Events published on the bus are appended to \<open>published\<close>; log
  lines and the session-reset hint file are not represented.  An exception (only the constructor
  of the exit effect raises) is an \<open>Inl\<close>.
\<close>

section \<open>Data\<close>

record agent_chain_config =
  cc_agents :: "string list"
  cc_max_retries :: int
  cc_retry_delay_ms :: int

record policy_bundle =
  bundle_pipeline :: pipeline_policy
  agent_drains :: "string dict"
  agent_chains :: "agent_chain_config dict"

record classified_failure =
  cf_category :: failure_category
  cf_reason :: string
  cf_attributed_agent :: "string option"
  cf_attributed_phase :: string
  counts_against_budget :: bool
  raw_message :: string
  reset_session :: bool
  cf_reset_tool_registry :: bool
  is_unavailable :: bool
  watchdog_reason :: "string option"
  cf_unavailability_reason :: "unavailability_reason option"
  resumable_session_id :: "string option"

record failure_context =
  ctx_phase :: string
  ctx_agent :: "string option"
  ctx_retry_in_session :: bool
  ctx_classified :: "classified_failure option"

text \<open>What \<^verbatim>\<open>handle\<close> is given: a message, or one of the exceptions the reducer builds.\<close>

datatype raw_failure =
    Raw_text string
  | Broken_agent_exit string broken_agent_kind int string
  | Pi_context_exhausted_exit string

type_synonym classifier = "raw_failure \<Rightarrow> string \<Rightarrow> string option \<Rightarrow> string \<Rightarrow> classified_failure"

record failure_event =
  fe_timestamp :: string
  fe_phase :: string
  fe_agent :: "string option"
  fe_category :: string
  fe_reason :: string
  counted_against_budget :: bool
  chain_capacity_remaining :: nat
  fe_recovery_cycle :: nat
  fe_retry_delay_ms :: int
  fe_watchdog_reason :: "string option"
  fe_unavailability_reason :: "string option"

record fallover_event =
  fv_timestamp :: string
  fv_phase :: string
  fv_from_agent :: string
  fv_to_agent :: string
  fv_reason :: string
  fv_watchdog_reason :: "string option"
  fv_unavailability_reason :: "string option"

datatype bus_event = Failure_published failure_event | Fallover_published fallover_event

record controller =
  ctl_cap :: int
  ctl_bundle :: "policy_bundle option"
  ctl_ledger :: ledger
  ctl_tracker :: tracker
  ctl_backoff_attempts :: "nat dict"
  spent_agents :: "string list dict"
  registered_chains :: "string list dict"
  published :: "bus_event list"

section \<open>The cycle cap\<close>

definition cap_is_exceeded :: "int \<Rightarrow> nat \<Rightarrow> bool" where
  "cap_is_exceeded cap n = (cap \<le> int n)"

definition exit_reason :: "int \<Rightarrow> nat \<Rightarrow> string \<Rightarrow> string \<Rightarrow> string" where
  "exit_reason cap n last_category why =
     ''recovery cycle cap '' @ str_int cap @ '' exceeded after '' @ str_int (int n)
     @ '' recoveries; last failure category='' @ last_category @ '': '' @ why"

text \<open>The three sites that end the run once the cap is reached share this shape.\<close>

type_synonym progression = "controller \<times> pstate \<times> effect list \<times> failure_event"

definition cap_exit ::
  "controller \<Rightarrow> classified_failure \<Rightarrow> pstate \<Rightarrow> effect list \<Rightarrow> failure_event \<Rightarrow> progression res" where
  "cap_exit ctl failure s effs evt =
     (if cap_is_exceeded (ctl_cap ctl) (recovery_cycle_count s)
        then rbind (exit_failure_effect (exit_reason (ctl_cap ctl) (recovery_cycle_count s)
                 (category_value (cf_category failure)) (take 200 (cf_reason failure))))
               (\<lambda>e. Inr (ctl, s\<lparr>last_retry_delay_ms := 0\<rparr>, [e], evt))
      else Inr (ctl, s, effs, evt))"

section \<open>Construction and small operations\<close>

definition new_controller ::
  "int \<Rightarrow> policy_bundle option \<Rightarrow> ledger \<Rightarrow> tracker \<Rightarrow> nat dict \<Rightarrow> string list dict \<Rightarrow> controller res" where
  "new_controller cap bundle l t attempts spent =
     (if cap < 1 then Inl (ValueError (''CycleCap must be >= 1, got '' @ str_int cap))
      else Inr \<lparr>ctl_cap = cap, ctl_bundle = bundle, ctl_ledger = l, ctl_tracker = t,
                ctl_backoff_attempts = attempts, spent_agents = spent, registered_chains = [],
                published = []\<rparr>)"

definition publish :: "bus_event \<Rightarrow> controller \<Rightarrow> controller" where
  "publish e ctl = ctl\<lparr>published := published ctl @ [e]\<rparr>"

definition compute_backoff_ms :: "int \<Rightarrow> nat \<Rightarrow> int \<Rightarrow> int" where
  "compute_backoff_ms base att cap = min (base * 2 ^ att) cap"

definition register_phase_chain :: "string \<Rightarrow> string list \<Rightarrow> controller \<Rightarrow> controller" where
  "register_phase_chain ph ags ctl = ctl\<lparr>registered_chains := dset ph ags (registered_chains ctl)\<rparr>"

definition chain_config_for_phase :: "controller \<Rightarrow> string \<Rightarrow> agent_chain_config option" where
  "chain_config_for_phase ctl ph = (case ctl_bundle ctl of
     None \<Rightarrow> None
   | Some b \<Rightarrow>
       (let drain_name = (case dget (phases (bundle_pipeline b)) ph of Some d \<Rightarrow> drain d | None \<Rightarrow> ph)
        in case dget (agent_drains b) drain_name of
             None \<Rightarrow> None
           | Some chain_name \<Rightarrow> dget (agent_chains b) chain_name))"

definition get_chain_agents :: "controller \<Rightarrow> string \<Rightarrow> string list option" where
  "get_chain_agents ctl ph = (case chain_config_for_phase ctl ph of
     Some cc \<Rightarrow> Some (cc_agents cc) | None \<Rightarrow> dget (registered_chains ctl) ph)"

definition note_retry_exhaustion :: "string \<Rightarrow> string \<Rightarrow> controller \<Rightarrow> controller" where
  "note_retry_exhaustion ph ag ctl =
     ctl\<lparr>spent_agents := dset ph (List.insert ag (dget_or (spent_agents ctl) ph [])) (spent_agents ctl)\<rparr>"

definition backoff_key :: "string \<Rightarrow> string option \<Rightarrow> string" where
  "backoff_key ph ag = (case ag of None \<Rightarrow> ph | Some a \<Rightarrow> if a = [] then ph else ph @ '':'' @ a)"

definition reset_controller_backoff :: "string \<Rightarrow> string option \<Rightarrow> controller \<Rightarrow> controller" where
  "reset_controller_backoff ph ag ctl =
     (let ctl1 = ctl\<lparr>ctl_backoff_attempts := ddel (backoff_key ph ag) (ctl_backoff_attempts ctl),
                     spent_agents := ddel ph (spent_agents ctl)\<rparr>
      in case ag of None \<Rightarrow> ctl1 | Some a \<Rightarrow> ctl1\<lparr>ctl_tracker := reset_backoff (ctl_tracker ctl1) ph a\<rparr>)"

definition compute_retry_delay :: "controller \<Rightarrow> string \<Rightarrow> string option \<Rightarrow> int" where
  "compute_retry_delay ctl ph ag = (case chain_config_for_phase ctl ph of
     None \<Rightarrow> 0
   | Some cc \<Rightarrow> compute_backoff_ms (cc_retry_delay_ms cc)
       (dget_or (ctl_backoff_attempts ctl) (backoff_key ph ag) 0) 30000)"

definition mark_agent_unavailable ::
  "clock \<Rightarrow> string \<Rightarrow> string \<Rightarrow> unavailability_reason option \<Rightarrow> controller \<Rightarrow> controller \<times> int" where
  "mark_agent_unavailable c ph ag why ctl =
     (let (t, e) = mark_unavailable c (ctl_tracker ctl) ph ag why
      in (ctl\<lparr>ctl_tracker := t\<rparr>,
          min (entry_base_backoff_ms e * 2 ^ entry_attempt e) (entry_max_backoff_ms e)))"

section \<open>Availability and selection\<close>

definition is_agent_available :: "clock \<Rightarrow> controller \<Rightarrow> string \<Rightarrow> string \<Rightarrow> controller \<times> bool" where
  "is_agent_available c ctl ph ag =
     (let (l, ok) = is_available c (ctl_ledger ctl) ph ag; ctl' = ctl\<lparr>ctl_ledger := l\<rparr>
      in if \<not> ok then (ctl', False) else (ctl', tracker_available c (ctl_tracker ctl') ph ag))"

text \<open>\<^verbatim>\<open>all(not self._is_agent_available(phase, a) for a in agents)\<close>, stopping at the first available one.\<close>

fun all_unavailable :: "clock \<Rightarrow> controller \<Rightarrow> string \<Rightarrow> string list \<Rightarrow> controller \<times> bool" where
  "all_unavailable c ctl ph [] = (ctl, True)"
| "all_unavailable c ctl ph (ag # ags) =
     (let (ctl', ok) = is_agent_available c ctl ph ag
      in if ok then (ctl', False) else all_unavailable c ctl' ph ags)"

fun agents_now_available :: "clock \<Rightarrow> controller \<Rightarrow> string \<Rightarrow> string list \<Rightarrow> controller \<times> string list" where
  "agents_now_available c ctl ph [] = (ctl, [])"
| "agents_now_available c ctl ph (ag # ags) =
     (let (ctl1, ok) = is_agent_available c ctl ph ag; (ctl2, rest) = agents_now_available c ctl1 ph ags
      in (ctl2, if ok then ag # rest else rest))"

definition earliest_available_wait_ms :: "clock \<Rightarrow> controller \<Rightarrow> string \<Rightarrow> string list \<Rightarrow> controller \<times> int" where
  "earliest_available_wait_ms c ctl ph ags =
     (let (ctl1, none) = all_unavailable c ctl ph ags
      in if \<not> none then (ctl1, 0)
         else let tracker_wait = earliest_unavailable_wait_ms c (ctl_tracker ctl1) ph ags;
                  (l, ledger_wait) = earliest_wait_ms c (ctl_ledger ctl1) ph ags;
                  waits = filter (\<lambda>w. 0 < w) [tracker_wait, ledger_wait]
              in (ctl1\<lparr>ctl_ledger := l\<rparr>, if waits = [] then 0 else Min (set waits)))"

definition availability_row ::
  "clock \<Rightarrow> controller \<Rightarrow> string \<Rightarrow> nat option \<Rightarrow> bool \<Rightarrow> nat \<Rightarrow> string \<Rightarrow> controller \<times> agent_availability" where
  "availability_row c ctl ph cur allowance_spent i ag =
     (let snap = snapshot_tracker (ctl_tracker ctl);
          now = mono_ms c;
          (l, st) = ledger_status c (ctl_ledger ctl) ph ag;
          ctl1 = ctl\<lparr>ctl_ledger := l\<rparr>;
          tracker_ms = (case dget (snap_timeouts snap) ag of None \<Rightarrow> 0 | Some t \<Rightarrow> max 0 (t - now));
          tracker_reason = (case dget (snap_reasons snap) ag of None \<Rightarrow> None | Some r \<Rightarrow> r);
          (ms, why) = (case st of Cooldown u r \<Rightarrow> (max (max tracker_ms 0) (u - now), Some r)
                        | _ \<Rightarrow> (tracker_ms, tracker_reason));
          (ctl2, av) = is_agent_available c ctl1 ph ag;
          sp = (ag \<in> set (dget_or (spent_agents ctl) ph []) \<or> (cur = Some i \<and> allowance_spent)
                \<or> (case st of Spent _ \<Rightarrow> True | _ \<Rightarrow> False))
      in (ctl2, new_agent_availability ag av ms sp why))"

fun availability_rows ::
  "clock \<Rightarrow> controller \<Rightarrow> string \<Rightarrow> nat option \<Rightarrow> bool \<Rightarrow> nat \<Rightarrow> string list \<Rightarrow> controller \<times> agent_availability list" where
  "availability_rows c ctl ph cur sp i [] = (ctl, [])"
| "availability_rows c ctl ph cur sp i (ag # ags) =
     (let (ctl1, row) = availability_row c ctl ph cur sp i ag;
          (ctl2, rows) = availability_rows c ctl1 ph cur sp (Suc i) ags
      in (ctl2, row # rows))"

definition preferred_agent_index ::
  "clock \<Rightarrow> controller \<Rightarrow> string \<Rightarrow> string list \<Rightarrow> nat option \<Rightarrow> bool \<Rightarrow> controller \<times> agent_selection" where
  "preferred_agent_index c ctl ph ags cur sp =
     (let (ctl', rows) = availability_rows c (register_phase_chain ph ags ctl) ph cur sp 0 ags
      in (ctl', select_preferred_agent rows))"

fun waiting_state_rows ::
  "clock \<Rightarrow> tracker_snapshot \<Rightarrow> controller \<Rightarrow> string \<Rightarrow> string list \<Rightarrow> controller \<times> (string \<times> nat \<times> int) list" where
  "waiting_state_rows c snap ctl ph [] = (ctl, [])"
| "waiting_state_rows c snap ctl ph (ag # ags) =
     (let now = mono_ms c;
          tracker_ms = (case dget (snap_timeouts snap) ag of None \<Rightarrow> 0 | Some t \<Rightarrow> max 0 (t - now));
          (l, st) = ledger_status c (ctl_ledger ctl) ph ag;
          ms = (case st of Cooldown u _ \<Rightarrow> max tracker_ms (max 0 (u - now)) | _ \<Rightarrow> tracker_ms);
          (ctl', rest) = waiting_state_rows c snap (ctl\<lparr>ctl_ledger := l\<rparr>) ph ags
      in (ctl', (ag, dget_or (snap_attempts snap) ag 0, ms) # rest))"

definition waiting_state_payload ::
  "clock \<Rightarrow> controller \<Rightarrow> string \<Rightarrow> string list \<Rightarrow> controller \<times> (string \<times> nat \<times> int) list" where
  "waiting_state_payload c ctl ph ags =
     waiting_state_rows c (snapshot_tracker (ctl_tracker ctl)) (register_phase_chain ph ags ctl) ph ags"

section \<open>Recording an attempt\<close>

definition sole_demotion_reason :: "string \<Rightarrow> string \<Rightarrow> string \<Rightarrow> string" where
  "sole_demotion_reason ag ph why =
     ''Sole agent '' @ quoted ag @ '' demoted in phase '' @ quoted ph
     @ '': unproductive attempt limit reached ('' @ why @ '')''"

definition record_attempt_fact ::
  "clock \<Rightarrow> controller \<Rightarrow> string \<Rightarrow> string \<Rightarrow> bool \<Rightarrow> bool \<Rightarrow> bool \<Rightarrow> controller \<times> string option" where
  "record_attempt_fact c ctl ph ag valid changed free =
     (let (l, out) = record_attempt c (ctl_ledger ctl)
            \<lparr>fact_phase = ph, fact_agent = ag, artifact_valid = valid, workspace_changed = changed,
             free_retry_category = free\<rparr>;
          ctl1 = ctl\<lparr>ctl_ledger := l\<rparr>
      in if demoted out
           then if get_chain_agents ctl1 ph = Some [ag]
                  then (ctl1, Some (sole_demotion_reason ag ph (str_opt (outcome_reason out))))
                else (case outcome_status out of
                        Spent _ \<Rightarrow> (note_retry_exhaustion ph ag ctl1, None) | _ \<Rightarrow> (ctl1, None))
         else (ctl1, None))"

definition technical_category :: "failure_category \<Rightarrow> bool" where
  "technical_category k = (k = Cat_environmental \<or> k = Cat_artifact_validation \<or> k = Cat_ambiguous)"

definition record_failed_attempt ::
  "clock \<Rightarrow> controller \<Rightarrow> string \<Rightarrow> string option \<Rightarrow> classified_failure \<Rightarrow> agent_chain_state option
    \<Rightarrow> bool \<Rightarrow> bool \<Rightarrow> controller \<times> string option" where
  "record_failed_attempt c ctl ph cur failure chain changed valid = (case cur of
     None \<Rightarrow> (ctl, None)
   | Some ag \<Rightarrow>
       (let ctl1 = (case chain of None \<Rightarrow> ctl | Some ch \<Rightarrow> register_phase_chain ph (agents ch) ctl)
        in record_attempt_fact c ctl1 ph ag valid changed (technical_category (cf_category failure))))"

section \<open>The recovery transition\<close>

definition enter_phase_failed :: "controller \<Rightarrow> pstate \<Rightarrow> string \<Rightarrow> failure_category \<Rightarrow> controller \<times> pstate" where
  "enter_phase_failed ctl s why k =
     (let ctl1 = ctl\<lparr>spent_agents := ddel (phase s) (spent_agents ctl)\<rparr>;
          moved = (case ctl_bundle ctl of
             Some b \<Rightarrow> progress_advance_phase s (failed_route (recovery (bundle_pipeline b))) (bundle_pipeline b)
           | None \<Rightarrow> s\<lparr>phase := ''failed_terminal''\<rparr>)
      in (ctl1, moved\<lparr>last_error := Some why, recovery_epoch := recovery_epoch s + 1,
                      last_failure_category := Some (category_value k), last_retry_delay_ms := 0\<rparr>))"

definition apply_chain_retry :: "pstate \<Rightarrow> string \<Rightarrow> agent_chain_state \<Rightarrow> bool \<Rightarrow> pstate res" where
  "apply_chain_retry s ph chain in_session =
     (let retried = with_phase_chain ph (with_retry_increment chain) s
      in if in_session \<and> truthy (last_agent_session_id s)
           then rbind (resume_agent_retry_intent (or_else (last_agent_session_id s) []) [] False)
                  (\<lambda>i. Inr (retried\<lparr>agent_retry_intent := i\<rparr>))
         else Inr (retried\<lparr>agent_retry_intent := cleared_agent_retry_intent\<rparr>))"

definition acting_agent :: "string option \<Rightarrow> agent_chain_state option \<Rightarrow> string option" where
  "acting_agent ag chain =
     (if truthy ag then ag else case chain of None \<Rightarrow> None | Some ch \<Rightarrow> chain_agent ch)"

definition fall_over ::
  "string \<Rightarrow> controller \<Rightarrow> pstate \<Rightarrow> classified_failure \<Rightarrow> string \<Rightarrow> string option \<Rightarrow> agent_chain_state \<Rightarrow> nat
    \<Rightarrow> controller \<times> pstate" where
  "fall_over utc ctl s failure ph ag chain i =
     (let to_ag = agents chain ! i;
          from_ag = or_else (acting_agent ag (Some chain)) (''agent['' @ str_int (int (current_index chain)) @ '']'');
          keep = (watchdog_reason failure = Some ''no_output_at_start'' \<and> truthy (resumable_session_id failure))
      in (publish (Fallover_published \<lparr>fv_timestamp = utc, fv_phase = ph, fv_from_agent = from_ag,
            fv_to_agent = to_ag, fv_reason = cf_reason failure, fv_watchdog_reason = watchdog_reason failure,
            fv_unavailability_reason = map_option reason_value (cf_unavailability_reason failure)\<rparr>) ctl,
          with_fallover_record \<lparr>fo_phase = ph, from_agent = from_ag, to_agent = to_ag, timestamp_iso = utc\<rparr>
            ((with_phase_chain ph \<lparr>agents = agents chain, current_index = i, retries = 0\<rparr> s)
               \<lparr>last_retry_delay_ms := 0,
                last_agent_session_id := (if keep then resumable_session_id failure else None),
                agent_retry_intent := cleared_agent_retry_intent\<rparr>)))"

definition all_unavailable_reason :: "classified_failure \<Rightarrow> string" where
  "all_unavailable_reason failure =
     ''all agents unavailable (last reason: ''
     @ (case cf_unavailability_reason failure of None \<Rightarrow> ''unknown'' | Some r \<Rightarrow> reason_value r)
     @ ''); waiting for cooldown expiry''"

definition wait_for_cooldown ::
  "controller \<Rightarrow> pstate \<Rightarrow> classified_failure \<Rightarrow> int \<Rightarrow> failure_event \<Rightarrow> progression" where
  "wait_for_cooldown ctl s failure wait_ms evt =
     (let evt' = evt\<lparr>fe_retry_delay_ms := wait_ms\<rparr>
      in (publish (Failure_published evt') ctl,
          set_waiting ALL_AGENTS_UNAVAILABLE None
            (s\<lparr>last_error := Some (all_unavailable_reason failure), last_retry_delay_ms := wait_ms\<rparr>),
          [], evt'))"

definition exhaustion_reason ::
  "clock \<Rightarrow> controller \<Rightarrow> string \<Rightarrow> agent_chain_state \<Rightarrow> classified_failure \<Rightarrow> controller \<times> string" where
  "exhaustion_reason c ctl ph chain failure =
     (let otherwise = (\<lambda>ctl. let (ctl', none) = all_unavailable c ctl ph (agents chain)
            in (ctl', if none then ''All agents in phase '' @ quoted ph @ '' demoted or exhausted: '' @ cf_reason failure
                      else cf_reason failure))
      in case agents chain of
           [sole] \<Rightarrow>
             (let (ctl1, ok) = is_agent_available c ctl ph sole
              in if ok then otherwise ctl1
                 else let (l, st) = ledger_status c (ctl_ledger ctl1) ph sole;
                          why = (case st of Cooldown _ r \<Rightarrow> if r = [] then cf_reason failure else r
                                 | Spent r \<Rightarrow> if r = [] then cf_reason failure else r
                                 | Eligible \<Rightarrow> cf_reason failure)
                      in (ctl1\<lparr>ctl_ledger := l\<rparr>, sole_demotion_reason sole ph why))
         | _ \<Rightarrow> otherwise ctl)"

definition give_up ::
  "clock \<Rightarrow> controller \<Rightarrow> pstate \<Rightarrow> classified_failure \<Rightarrow> string \<Rightarrow> agent_chain_state \<Rightarrow> failure_event
    \<Rightarrow> progression res" where
  "give_up c ctl s failure ph chain evt =
     (let (ctl1, why) = exhaustion_reason c ctl ph chain failure;
          (ctl2, failed) = enter_phase_failed ctl1
             (s\<lparr>recovery_cycle_count := recovery_cycle_count s + 1\<rparr>) why (cf_category failure)
      in cap_exit ctl2 failure failed [] evt)"

definition handle_retry_progression ::
  "clock \<Rightarrow> string \<Rightarrow> controller \<Rightarrow> pstate \<Rightarrow> classified_failure \<Rightarrow> string \<Rightarrow> string option \<Rightarrow> bool
    \<Rightarrow> failure_event \<Rightarrow> progression res" where
  "handle_retry_progression c utc ctl s failure ph ag in_session evt =
     (case chain_for_phase s ph of
        None \<Rightarrow> Inr (ctl, s, [], evt)
      | Some chain \<Rightarrow>
          (let (ctl1, sel) = preferred_agent_index c ctl ph (agents chain) (Some (current_index chain)) False
           in if sel_index sel = Some (current_index chain)
                then rbind (apply_chain_retry s ph chain in_session) (\<lambda>s'. Inr (ctl1, s', [], evt))
              else case sel_index sel of
                Some i \<Rightarrow> (let (ctl2, s') = fall_over utc ctl1 s failure ph ag chain i in Inr (ctl2, s', [], evt))
              | None \<Rightarrow>
                  (let (ctl2, none) = all_unavailable c ctl1 ph (agents chain)
                   in if none
                        then let (ctl3, wait_ms) = earliest_available_wait_ms c ctl2 ph (agents chain)
                             in if 0 < wait_ms then Inr (wait_for_cooldown ctl3 s failure wait_ms evt)
                                else give_up c ctl3 s failure ph chain evt
                      else give_up c ctl2 s failure ph chain evt)))"

fun integration_delay_loop :: "nat \<Rightarrow> int \<Rightarrow> int" where
  "integration_delay_loop 0 delay = delay"
| "integration_delay_loop (Suc n) delay =
     (let increased = compute_backoff_ms delay 1 30000
      in if increased = delay then delay else integration_delay_loop n increased)"

definition integration_retry_delay :: "controller \<Rightarrow> pstate \<Rightarrow> string \<Rightarrow> int" where
  "integration_retry_delay ctl s ph =
     (let configured = (case chain_config_for_phase ctl ph of None \<Rightarrow> 0 | Some cc \<Rightarrow> cc_retry_delay_ms cc);
          base = (if configured = 0 then 1000 else configured)
      in integration_delay_loop (integration_retry_attempt (rebase s)) (compute_backoff_ms base 0 30000))"

definition handle_integration_continuation ::
  "string \<Rightarrow> controller \<Rightarrow> pstate \<Rightarrow> classified_failure \<Rightarrow> string \<Rightarrow> progression" where
  "handle_integration_continuation utc ctl s failure ph =
     (let delay = integration_retry_delay ctl s ph;
          att = integration_retry_attempt (rebase s);
          att' = (if delay < compute_backoff_ms delay 1 30000 then att + 1 else att);
          evt = \<lparr>fe_timestamp = utc, fe_phase = ph, fe_agent = None,
                 fe_category = category_value (cf_category failure), fe_reason = cf_reason failure,
                 counted_against_budget = False, chain_capacity_remaining = 0,
                 fe_recovery_cycle = recovery_cycle_count s, fe_retry_delay_ms = delay,
                 fe_watchdog_reason = None, fe_unavailability_reason = None\<rparr>
      in (publish (Failure_published evt) ctl,
          clear_waiting (s\<lparr>last_error := Some (cf_reason failure),
            last_failure_category := Some (category_value (cf_category failure)),
            last_retry_delay_ms := delay, rebase := (rebase s)\<lparr>integration_retry_attempt := att'\<rparr>\<rparr>),
          [], evt))"

definition note_unavailable ::
  "clock \<Rightarrow> controller \<Rightarrow> pstate \<Rightarrow> classified_failure \<Rightarrow> string \<Rightarrow> string option \<Rightarrow> controller \<times> pstate" where
  "note_unavailable c ctl s failure ph ag =
     (case ag of
        Some a \<Rightarrow> if is_unavailable failure
          then (fst (mark_agent_unavailable c ph a (cf_unavailability_reason failure) ctl),
                s\<lparr>last_unavailability_reason := map_option reason_value (cf_unavailability_reason failure)\<rparr>)
          else (ctl, s)
      | None \<Rightarrow> (ctl, s))"

definition failure_delay :: "controller \<Rightarrow> pstate \<Rightarrow> classified_failure \<Rightarrow> failure_context \<Rightarrow> int" where
  "failure_delay ctl s failure ctx =
     (if chain_for_phase s (ctx_phase ctx) \<noteq> None \<and> ctx_agent ctx \<noteq> None \<and> counts_against_budget failure
         \<and> \<not> (is_unavailable failure \<and> ctx_agent ctx \<noteq> None)
        then compute_retry_delay ctl (ctx_phase ctx) (ctx_agent ctx) else 0)"

definition classified_event ::
  "string \<Rightarrow> controller \<Rightarrow> pstate \<Rightarrow> classified_failure \<Rightarrow> failure_context \<Rightarrow> failure_event" where
  "classified_event utc ctl s failure ctx =
     \<lparr>fe_timestamp = utc, fe_phase = ctx_phase ctx, fe_agent = ctx_agent ctx,
      fe_category = category_value (cf_category failure), fe_reason = cf_reason failure,
      counted_against_budget = counts_against_budget failure,
      chain_capacity_remaining = (case chain_for_phase s (ctx_phase ctx) of
          None \<Rightarrow> 0 | Some ch \<Rightarrow> length (agents ch) - current_index ch - 1),
      fe_recovery_cycle = recovery_cycle_count s, fe_retry_delay_ms = failure_delay ctl s failure ctx,
      fe_watchdog_reason = watchdog_reason failure,
      fe_unavailability_reason = map_option reason_value (cf_unavailability_reason failure)\<rparr>"

definition note_failure :: "controller \<Rightarrow> classified_failure \<Rightarrow> failure_context \<Rightarrow> pstate \<Rightarrow> pstate" where
  "note_failure ctl failure ctx s =
     clear_waiting (s\<lparr>last_failure_category := Some (category_value (cf_category failure)),
                      last_retry_delay_ms := failure_delay ctl s failure ctx\<rparr>)"

definition fail_sole_agent ::
  "controller \<Rightarrow> pstate \<Rightarrow> classified_failure \<Rightarrow> string \<Rightarrow> failure_event \<Rightarrow> progression res" where
  "fail_sole_agent ctl s failure why evt =
     (let (ctl', failed) = enter_phase_failed ctl
            (s\<lparr>recovery_cycle_count := recovery_cycle_count s + 1\<rparr>) why (cf_category failure)
      in cap_exit ctl' failure failed [] evt)"

definition session_after :: "classified_failure \<Rightarrow> bool \<Rightarrow> pstate \<Rightarrow> pstate" where
  "session_after failure in_session s =
     (if reset_session failure
        then s\<lparr>last_agent_session_id := None, agent_retry_intent := cleared_agent_retry_intent\<rparr>
      else if in_session \<and> truthy (resumable_session_id failure)
        then s\<lparr>last_agent_session_id := resumable_session_id failure\<rparr>
      else s)"

definition charge_backoff ::
  "string \<Rightarrow> string option \<Rightarrow> classified_failure \<Rightarrow> controller \<Rightarrow> controller" where
  "charge_backoff ph ag failure ctl = (case ag of
     None \<Rightarrow> ctl
   | Some a \<Rightarrow>
       if \<not> is_unavailable failure \<and> counts_against_budget failure
         then let key = ph @ '':'' @ a
              in ctl\<lparr>ctl_backoff_attempts := dset key (dget_or (ctl_backoff_attempts ctl) key 0 + 1)
                       (ctl_backoff_attempts ctl)\<rparr>
       else ctl)"

definition route_agent_failure ::
  "clock \<Rightarrow> string \<Rightarrow> controller \<Rightarrow> pstate \<Rightarrow> classified_failure \<Rightarrow> failure_context \<Rightarrow> failure_event
    \<Rightarrow> progression res" where
  "route_agent_failure c utc ctl s failure ctx evt =
     rbind (handle_retry_progression c utc (charge_backoff (ctx_phase ctx) (ctx_agent ctx) failure ctl)
              (session_after failure (ctx_retry_in_session ctx) s) failure (ctx_phase ctx) (ctx_agent ctx)
              (ctx_retry_in_session ctx) evt)
       (\<lambda>(ctl', s', effs, evt'). cap_exit ctl' failure s' effs evt')"

definition handle_classified_failure ::
  "clock \<Rightarrow> string \<Rightarrow> controller \<Rightarrow> pstate \<Rightarrow> classified_failure \<Rightarrow> failure_context \<Rightarrow> bool \<Rightarrow> bool
    \<Rightarrow> progression res" where
  "handle_classified_failure c utc ctl s failure ctx changed valid =
     (let ph = ctx_phase ctx; ag = ctx_agent ctx; chain = chain_for_phase s ph;
          evt = classified_event utc ctl s failure ctx;
          s1 = note_failure ctl failure ctx s;
          (ctl1, sole) = record_failed_attempt c (publish (Failure_published evt) ctl) ph
             (acting_agent ag chain) failure chain changed valid
      in case sole of
           Some why \<Rightarrow> fail_sole_agent ctl1 s1 failure why evt
         | None \<Rightarrow>
             if technical_category (cf_category failure)
               then handle_retry_progression c utc ctl1 (s1\<lparr>last_error := Some (cf_reason failure)\<rparr>)
                      failure ph ag (ctx_retry_in_session ctx) evt
             else (let (ctl2, s2) = note_unavailable c ctl1 s1 failure ph ag
                   in if cf_category failure = Cat_user_config
                        then let (ctl3, failed) = enter_phase_failed ctl2 s2 (cf_reason failure) (cf_category failure)
                             in Inr (ctl3, failed, [], evt)
                      else route_agent_failure c utc ctl2 s2 failure ctx evt))"

definition handle ::
  "classifier \<Rightarrow> clock \<Rightarrow> string \<Rightarrow> controller \<Rightarrow> pstate \<Rightarrow> raw_failure \<Rightarrow> failure_context \<Rightarrow> bool \<Rightarrow> bool
    \<Rightarrow> progression res" where
  "handle classify c utc ctl s raw ctx changed valid =
     (let failure = (case ctx_classified ctx of Some f \<Rightarrow> f
            | None \<Rightarrow> classify raw (ctx_phase ctx) (ctx_agent ctx) (last_connectivity_state s))
      in if cf_category failure = Cat_integration
           then Inr (handle_integration_continuation utc ctl s failure (ctx_phase ctx))
         else handle_classified_failure c utc ctl s failure ctx changed valid)"

section \<open>Conflict-resolution attempts\<close>

datatype conflict_attempt_outcome = Unresolved_remaining | No_activity | Attempt_failed | Raw_attempt

definition typed_conflict_attempt_reason :: "conflict_attempt_outcome \<Rightarrow> int \<Rightarrow> string" where
  "typed_conflict_attempt_reason out n = (case out of
     Unresolved_remaining \<Rightarrow> ''agent reported success but '' @ str_int n @ '' conflicted path(s) remain''
   | No_activity \<Rightarrow> ''candidate produced no activity before it exited''
   | _ \<Rightarrow> ''conflict attempt failed'')"

definition classify_conflict_attempt ::
  "(string \<Rightarrow> string \<Rightarrow> string option \<Rightarrow> string option \<Rightarrow> classified_failure) \<Rightarrow> string option \<Rightarrow> string \<Rightarrow> string
    \<Rightarrow> string option \<Rightarrow> conflict_attempt_outcome option \<Rightarrow> int \<Rightarrow> classified_failure" where
  "classify_conflict_attempt classify_text raw ag ph connectivity out n =
     (case out of
        Some k \<Rightarrow> if k \<noteq> Raw_attempt
          then \<lparr>cf_category = Cat_agent, cf_reason = typed_conflict_attempt_reason k n,
                cf_attributed_agent = Some ag, cf_attributed_phase = ph, counts_against_budget = False,
                raw_message = (case raw of None \<Rightarrow> [] | Some t \<Rightarrow> t), reset_session = False,
                cf_reset_tool_registry = False, is_unavailable = False, watchdog_reason = None,
                cf_unavailability_reason = None, resumable_session_id = None\<rparr>
          else classify_text (case raw of None \<Rightarrow> [] | Some t \<Rightarrow> t) ph (Some ag) connectivity
      | None \<Rightarrow> classify_text (case raw of None \<Rightarrow> [] | Some t \<Rightarrow> t) ph (Some ag) connectivity)"

definition next_conflict_candidate :: "string list \<Rightarrow> nat \<Rightarrow> nat" where
  "next_conflict_candidate candidates failed = (if candidates = [] then 0 else min (failed + 1) (length candidates))"

section \<open>Reading health does not change it\<close>

abbreviation health :: "clock \<Rightarrow> controller \<Rightarrow> string \<Rightarrow> string \<Rightarrow> agent_status" where
  "health c ctl ph ag \<equiv> status_at (ctl_ledger ctl) (mono_ms c) ph ag"

definition available_now :: "clock \<Rightarrow> controller \<Rightarrow> string \<Rightarrow> string \<Rightarrow> bool" where
  "available_now c ctl ph ag = (health c ctl ph ag = Eligible \<and> tracker_available c (ctl_tracker ctl) ph ag)"

definition same_health :: "clock \<Rightarrow> controller \<Rightarrow> controller \<Rightarrow> bool" where
  "same_health c ctl ctl' =
     (ctl_tracker ctl' = ctl_tracker ctl \<and> spent_agents ctl' = spent_agents ctl
      \<and> ctl_bundle ctl' = ctl_bundle ctl \<and> ctl_cap ctl' = ctl_cap ctl
      \<and> (\<forall>ph ag. health c ctl' ph ag = health c ctl ph ag))"

lemma same_health_refl [simp, intro]: "same_health c ctl ctl"
  by (simp add: same_health_def)

lemma same_health_trans [trans]: "same_health c a b \<Longrightarrow> same_health c b d \<Longrightarrow> same_health c a d"
  by (simp add: same_health_def)

lemma same_healthD:
  assumes "same_health c ctl ctl'"
  shows "available_now c ctl' ph ag = available_now c ctl ph ag"
    and "health c ctl' ph ag = health c ctl ph ag"
    and "ctl_tracker ctl' = ctl_tracker ctl" and "spent_agents ctl' = spent_agents ctl"
    and "ctl_bundle ctl' = ctl_bundle ctl" and "ctl_cap ctl' = ctl_cap ctl"
  using assms by (simp_all add: same_health_def available_now_def)

lemma same_health_read [simp]: "same_health c ctl (ctl\<lparr>ctl_ledger := fst (status_locked (ctl_ledger ctl) ph ag (mono_ms c))\<rparr>)"
  by (simp add: same_health_def)

lemma same_health_register [simp]: "same_health c ctl (register_phase_chain ph ags ctl)"
  by (simp add: same_health_def register_phase_chain_def)

lemma is_agent_available_eq:
  "is_agent_available c ctl ph ag =
     (ctl\<lparr>ctl_ledger := fst (status_locked (ctl_ledger ctl) ph ag (mono_ms c))\<rparr>, available_now c ctl ph ag)"
  by (auto simp: is_agent_available_def is_available_def ledger_status_def available_now_def Let_def split: prod.splits)

lemma all_unavailable_spec:
  "same_health c ctl (fst (all_unavailable c ctl ph ags))
   \<and> snd (all_unavailable c ctl ph ags) = (\<forall>ag\<in>set ags. \<not> available_now c ctl ph ag)"
proof (induction ags arbitrary: ctl)
  case (Cons ag ags)
  let ?ctl = "ctl\<lparr>ctl_ledger := fst (status_locked (ctl_ledger ctl) ph ag (mono_ms c))\<rparr>"
  show ?case
    using Cons.IH [of ?ctl] same_healthD(1) [OF same_health_read, of c ctl ph ag]
    by (auto simp: is_agent_available_eq intro: same_health_trans [OF same_health_read])
qed simp

lemmas all_unavailable_same = all_unavailable_spec [THEN conjunct1]
lemmas all_unavailable_iff = all_unavailable_spec [THEN conjunct2]

section \<open>What selection sees\<close>

definition usable :: "clock \<Rightarrow> controller \<Rightarrow> string \<Rightarrow> string \<Rightarrow> bool" where
  "usable c ctl ph ag = (available_now c ctl ph ag \<and> ag \<notin> set (dget_or (spent_agents ctl) ph []))"

lemma usable_same: "same_health c ctl ctl' \<Longrightarrow> usable c ctl' ph ag = usable c ctl ph ag"
  by (simp add: usable_def same_healthD)

lemma dget_snap_timeouts:
  "dget (snap_timeouts (snapshot_tracker t)) ag = map_option unavailable_until_ms (dget (tracker_entries t) ag)"
  by (simp add: snapshot_tracker_def dget_def map_of_map)

lemma availability_row_spec:
  "same_health c ctl (fst (availability_row c ctl ph cur sp i ag))
   \<and> av_agent (snd (availability_row c ctl ph cur sp i ag)) = ag
   \<and> (selectable (snd (availability_row c ctl ph cur sp i ag))
      \<longleftrightarrow> usable c ctl ph ag \<and> \<not> (cur = Some i \<and> sp))"
proof -
  obtain l st where l: "status_locked (ctl_ledger ctl) ph ag (mono_ms c) = (l, st)" by force
  let ?ctl = "ctl\<lparr>ctl_ledger := l\<rparr>"
  have same: "same_health c ctl ?ctl" using same_health_read [of c ctl ph ag] l by simp
  have same2: "same_health c ctl (fst (is_agent_available c ?ctl ph ag))"
    using same_health_trans [OF same same_health_read] by (simp add: is_agent_available_eq)
  show ?thesis
    using same2 l same_healthD(1) [OF same, of ph ag]
    by (auto simp: availability_row_def Let_def ledger_status_def new_agent_availability_def selectable_def
        usable_def is_agent_available_eq dget_snap_timeouts available_now_def tracker_available_def
        split: prod.splits option.splits agent_status.splits)
qed

lemma availability_rows_spec:
  "same_health c ctl (fst (availability_rows c ctl ph cur sp i ags))
   \<and> map av_agent (snd (availability_rows c ctl ph cur sp i ags)) = ags
   \<and> (\<forall>k<length ags. selectable (snd (availability_rows c ctl ph cur sp i ags) ! k)
        \<longleftrightarrow> usable c ctl ph (ags ! k) \<and> \<not> (cur = Some (i + k) \<and> sp))"
proof (induction ags arbitrary: ctl i)
  case (Cons ag ags)
  obtain ctl1 row where r: "availability_row c ctl ph cur sp i ag = (ctl1, row)" by force
  have row: "same_health c ctl ctl1" "av_agent row = ag"
      "selectable row \<longleftrightarrow> usable c ctl ph ag \<and> \<not> (cur = Some i \<and> sp)"
    using availability_row_spec [of c ctl ph cur sp i ag] r by auto
  obtain ctl2 rows where rs: "availability_rows c ctl1 ph cur sp (Suc i) ags = (ctl2, rows)" by force
  show ?case
    using Cons.IH [of ctl1 "Suc i"] row r rs same_health_trans [of c ctl ctl1 ctl2] usable_same [OF row(1)]
    by (auto simp: nth_Cons' less_Suc_eq_0_disj)
qed simp

definition preferred :: "clock \<Rightarrow> controller \<Rightarrow> string \<Rightarrow> string list \<Rightarrow> nat option" where
  "preferred c ctl ph ags = List.find (\<lambda>k. usable c ctl ph (ags ! k)) [0..<length ags]"

lemma preferred_Some:
  "preferred c ctl ph ags = Some i \<longleftrightarrow>
     i < length ags \<and> usable c ctl ph (ags ! i) \<and> (\<forall>j<i. \<not> usable c ctl ph (ags ! j))"
  by (auto simp: preferred_def find_Some_iff)

lemma preferred_None: "preferred c ctl ph ags = None \<longleftrightarrow> (\<forall>ag\<in>set ags. \<not> usable c ctl ph ag)"
  by (auto simp: preferred_def find_None_iff all_set_conv_all_nth)

lemma first_selectable_preferred:
  assumes "length rows = length ags" and "\<And>k. k < length ags \<Longrightarrow> selectable (rows ! k) \<longleftrightarrow> usable c ctl ph (ags ! k)"
  shows "first_selectable 0 rows = preferred c ctl ph ags"
proof (cases "preferred c ctl ph ags")
  case None
  then have "first_selectable 0 rows = None"
    using assms by (simp add: first_selectable_None preferred_None all_set_conv_all_nth)
  then show ?thesis using None by simp
next
  case (Some i)
  then have "first_selectable 0 rows = Some i" using assms by (auto simp: first_selectable_Some preferred_Some)
  then show ?thesis using Some by simp
qed

lemma preferred_agent_index_spec:
  "same_health c ctl (fst (preferred_agent_index c ctl ph ags cur False))"
  "sel_index (snd (preferred_agent_index c ctl ph ags cur False)) = preferred c ctl ph ags"
proof -
  let ?ctl = "register_phase_chain ph ags ctl"
  obtain ctl' rows where r: "availability_rows c ?ctl ph cur False 0 ags = (ctl', rows)" by force
  have spec: "same_health c ?ctl ctl'" "map av_agent rows = ags"
      "\<And>k. k < length ags \<Longrightarrow> selectable (rows ! k) \<longleftrightarrow> usable c ?ctl ph (ags ! k)"
    using availability_rows_spec [of c ?ctl ph cur False 0 ags] r by auto
  have len: "length rows = length ags" using spec(2) by (metis length_map)
  show "same_health c ctl (fst (preferred_agent_index c ctl ph ags cur False))"
    using same_health_trans [OF same_health_register spec(1)] r by (simp add: preferred_agent_index_def)
  have "first_selectable 0 rows = preferred c ctl ph ags"
    by (rule first_selectable_preferred) (use len spec(3) usable_same [OF same_health_register] in auto)
  then show "sel_index (snd (preferred_agent_index c ctl ph ags cur False)) = preferred c ctl ph ags"
    using r by (simp add: preferred_agent_index_def select_preferred_agent_def Let_def)
qed


section \<open>The waiting time\<close>

lemma earliest_unavailable_loop_nonneg: "0 \<le> earliest_unavailable_loop t now m ags"
  by (induction ags arbitrary: m) (auto simp: Let_def split: option.split)

lemma earliest_unavailable_wait_nonneg: "0 \<le> earliest_unavailable_wait_ms c t ph ags"
  by (simp add: earliest_unavailable_wait_ms_def earliest_unavailable_loop_nonneg)

definition tracker_wait :: "clock \<Rightarrow> controller \<Rightarrow> string \<Rightarrow> string list \<Rightarrow> int" where
  "tracker_wait c ctl ph ags = earliest_unavailable_wait_ms c (ctl_tracker ctl) ph ags"

definition ledger_wait :: "clock \<Rightarrow> controller \<Rightarrow> string \<Rightarrow> string list \<Rightarrow> int" where
  "ledger_wait c ctl ph ags =
     (if \<exists>ag\<in>set ags. health c ctl ph ag = Eligible then 0
      else let ws = {max 0 (u - mono_ms c) | u r ag. ag \<in> set ags \<and> health c ctl ph ag = Cooldown u r}
           in if ws = {} then 0 else Min ws)"

lemma snd_earliest_wait_ms: "snd (earliest_wait_ms c (ctl_ledger ctl) ph ags) = ledger_wait c ctl ph ags"
proof (cases "\<exists>ag\<in>set ags. health c ctl ph ag = Eligible")
  case True
  then show ?thesis using earliest_wait_loop_zero [OF True] by (simp add: earliest_wait_ms_def ledger_wait_def)
next
  case False
  then show ?thesis
    using earliest_wait_loop_Min [of ags "ctl_ledger ctl" ph "mono_ms c" "[]"]
    by (simp add: earliest_wait_ms_def ledger_wait_def)
qed

lemma earliest_wait_loop_reads: "status_at (fst (earliest_wait_loop l ph now rs ags)) now ph' ag' = status_at l now ph' ag'"
proof (induction ags arbitrary: l rs)
  case (Cons ag ags)
  obtain l' st where "status_locked l ph ag now = (l', st)" by force
  then show ?case using Cons.IH status_read_stable [of l ph ag now ph' ag'] by (cases st) auto
qed simp

definition wait_ms_of :: "clock \<Rightarrow> controller \<Rightarrow> string \<Rightarrow> string list \<Rightarrow> int" where
  "wait_ms_of c ctl ph ags =
     (if \<exists>ag\<in>set ags. available_now c ctl ph ag then 0
      else let waits = filter (\<lambda>w. 0 < w) [tracker_wait c ctl ph ags, ledger_wait c ctl ph ags]
           in if waits = [] then 0 else Min (set waits))"

lemma wait_same: "same_health c ctl ctl' \<Longrightarrow> wait_ms_of c ctl' ph ags = wait_ms_of c ctl ph ags"
  by (simp add: wait_ms_of_def tracker_wait_def ledger_wait_def same_healthD)

lemma earliest_available_wait_ms_spec:
  "same_health c ctl (fst (earliest_available_wait_ms c ctl ph ags))"
  "snd (earliest_available_wait_ms c ctl ph ags) = wait_ms_of c ctl ph ags"
proof -
  obtain ctl1 none where a: "all_unavailable c ctl ph ags = (ctl1, none)" by force
  have same: "same_health c ctl ctl1" and none: "none = (\<forall>ag\<in>set ags. \<not> available_now c ctl ph ag)"
    using all_unavailable_spec [of c ctl ph ags] a by auto
  obtain l w where l: "earliest_wait_ms c (ctl_ledger ctl1) ph ags = (l, w)" by force
  have "status_at l (mono_ms c) ph' ag' = health c ctl1 ph' ag'" for ph' ag'
    using earliest_wait_loop_reads [of "ctl_ledger ctl1" ph "mono_ms c" "[]" ags ph' ag'] l
    by (simp add: earliest_wait_ms_def)
  then have same2: "same_health c ctl1 (ctl1\<lparr>ctl_ledger := l\<rparr>)" by (simp add: same_health_def)
  have w: "w = ledger_wait c ctl1 ph ags" using snd_earliest_wait_ms [of c ctl1 ph ags] l by simp
  show "same_health c ctl (fst (earliest_available_wait_ms c ctl ph ags))"
    using same same_health_trans [OF same same2] a l by (simp add: earliest_available_wait_ms_def Let_def)
  show "snd (earliest_available_wait_ms c ctl ph ags) = wait_ms_of c ctl ph ags"
    using a l none w same_healthD(2,3) [OF same]
    by (auto simp: earliest_available_wait_ms_def wait_ms_of_def tracker_wait_def ledger_wait_def Let_def)
qed


section \<open>The cases of a progression\<close>

lemma resume_intent_ok: "sid \<noteq> [] \<Longrightarrow> \<exists>i. resume_agent_retry_intent sid why reset = Inr i"
  by (simp add: resume_agent_retry_intent_def new_agent_retry_intent_def)

lemma apply_chain_retry_ok:
  "\<exists>i. apply_chain_retry s ph chain in_session
     = Inr ((with_phase_chain ph (with_retry_increment chain) s)\<lparr>agent_retry_intent := i\<rparr>)"
proof (cases "in_session \<and> truthy (last_agent_session_id s)")
  case True
  then obtain sid where sid: "last_agent_session_id s = Some sid" "sid \<noteq> []"
    by (cases "last_agent_session_id s") auto
  obtain i where "resume_agent_retry_intent sid [] False = Inr i" using resume_intent_ok [OF sid(2)] by blast
  then show ?thesis using True sid by (auto simp: apply_chain_retry_def)
qed (auto simp: apply_chain_retry_def)

text \<open>The phase a controller moves a failed run to.\<close>

definition failed_phase :: "controller \<Rightarrow> string" where
  "failed_phase ctl = (case ctl_bundle ctl of
     Some b \<Rightarrow> failed_route (recovery (bundle_pipeline b)) | None \<Rightarrow> ''failed_terminal'')"

lemma enter_phase_failed_simps:
  "phase (snd (enter_phase_failed ctl s why k)) = failed_phase ctl"
  "recovery_cycle_count (snd (enter_phase_failed ctl s why k)) = recovery_cycle_count s"
  "is_waiting_state (snd (enter_phase_failed ctl s why k)) = is_waiting_state s"
  "ctl_cap (fst (enter_phase_failed ctl s why k)) = ctl_cap ctl"
  "ctl_bundle (fst (enter_phase_failed ctl s why k)) = ctl_bundle ctl"
  by (simp_all add: enter_phase_failed_def failed_phase_def progress_advance_phase_def Let_def split: option.split)

lemma exhaustion_reason_same: "same_health c ctl (fst (exhaustion_reason c ctl ph chain failure))"
proof -
  let ?read = "\<lambda>ctl a. ctl\<lparr>ctl_ledger := fst (status_locked (ctl_ledger ctl) ph a (mono_ms c))\<rparr>"
  have "same_health c ctl (fst (all_unavailable c (?read ctl a) ph ags))" for a ags
    by (rule same_health_trans [OF same_health_read all_unavailable_same])
  moreover have "same_health c ctl (?read (?read ctl a) a)" for a
    by (rule same_health_trans [OF same_health_read same_health_read])
  ultimately show ?thesis
    using all_unavailable_same [of c ctl ph]
    by (simp add: exhaustion_reason_def Let_def is_agent_available_eq ledger_status_def case_prod_unfold
        del: all_unavailable.simps split: list.split)
qed

text \<open>Giving up: one more recovery cycle, the failure route, and the exit effect once the cap is met.\<close>

definition gave_up :: "controller \<Rightarrow> pstate \<Rightarrow> pstate \<Rightarrow> effect list \<Rightarrow> bool" where
  "gave_up ctl s s' effs =
     (phase s' = failed_phase ctl \<and> recovery_cycle_count s' = recovery_cycle_count s + 1
      \<and> (if cap_is_exceeded (ctl_cap ctl) (recovery_cycle_count s + 1)
         then (\<exists>why. effs = [Exit_failure why]) else effs = []))"

lemma exit_failure_effect_Inr: "exit_failure_effect why = Inr e \<Longrightarrow> e = Exit_failure why"
  by (auto simp: exit_failure_effect_def split: if_splits)

lemma cap_exit_after_failure:
  assumes "cap_exit ctl2 failure failed [] evt = Inr (ctl', s', effs, evt')"
    and "enter_phase_failed ctl1 (s\<lparr>recovery_cycle_count := recovery_cycle_count s + 1\<rparr>) why k = (ctl2, failed)"
    and "ctl_bundle ctl1 = ctl_bundle ctl" and "ctl_cap ctl1 = ctl_cap ctl"
  shows "gave_up ctl s s' effs"
  using assms enter_phase_failed_simps [of ctl1 "s\<lparr>recovery_cycle_count := recovery_cycle_count s + 1\<rparr>" why k]
  by (auto simp: cap_exit_def gave_up_def failed_phase_def dest: exit_failure_effect_Inr split: if_splits)

lemma give_up_gives_up:
  assumes "give_up c ctl s failure ph chain evt = Inr (ctl', s', effs, evt')"
  shows "gave_up ctl s s' effs"
proof -
  obtain ctl1 why where e: "exhaustion_reason c ctl ph chain failure = (ctl1, why)" by force
  have "same_health c ctl ctl1" using exhaustion_reason_same [of c ctl ph chain failure] e by simp
  then show ?thesis
    using assms e cap_exit_after_failure
    by (auto simp: give_up_def same_healthD split: prod.splits)
qed

lemma progression_cases:
  assumes "chain_for_phase s ph = Some chain"
  obtains (retry) i ctl1 s1 where "preferred c ctl ph (agents chain) = Some (current_index chain)"
      "same_health c ctl ctl1"
      "s1 = (with_phase_chain ph (with_retry_increment chain) s)\<lparr>agent_retry_intent := i\<rparr>"
      "handle_retry_progression c utc ctl s failure ph ag in_session evt = Inr (ctl1, s1, [], evt)"
  | (fallover) i ctl1 where "preferred c ctl ph (agents chain) = Some i" "i \<noteq> current_index chain"
      "same_health c ctl ctl1"
      "handle_retry_progression c utc ctl s failure ph ag in_session evt
       = Inr (fst (fall_over utc ctl1 s failure ph ag chain i), snd (fall_over utc ctl1 s failure ph ag chain i), [], evt)"
  | (wait) ctl1 where "preferred c ctl ph (agents chain) = None"
      "\<forall>ag\<in>set (agents chain). \<not> available_now c ctl ph ag"
      "0 < wait_ms_of c ctl ph (agents chain)" "same_health c ctl ctl1"
      "handle_retry_progression c utc ctl s failure ph ag in_session evt
       = Inr (wait_for_cooldown ctl1 s failure (wait_ms_of c ctl ph (agents chain)) evt)"
  | (exhausted) ctl1 where "preferred c ctl ph (agents chain) = None"
      "wait_ms_of c ctl ph (agents chain) = 0 \<or> (\<exists>ag\<in>set (agents chain). available_now c ctl ph ag)"
      "same_health c ctl ctl1"
      "handle_retry_progression c utc ctl s failure ph ag in_session evt = give_up c ctl1 s failure ph chain evt"
proof -
  obtain ctl1 sel where p: "preferred_agent_index c ctl ph (agents chain) (Some (current_index chain)) False = (ctl1, sel)"
    by force
  have same1: "same_health c ctl ctl1" and sel: "sel_index sel = preferred c ctl ph (agents chain)"
    using preferred_agent_index_spec [of c ctl ph "agents chain" "Some (current_index chain)"] p by auto
  obtain i where rt: "apply_chain_retry s ph chain in_session
     = Inr ((with_phase_chain ph (with_retry_increment chain) s)\<lparr>agent_retry_intent := i\<rparr>)"
    using apply_chain_retry_ok by blast
  obtain ctl2 none where a: "all_unavailable c ctl1 ph (agents chain) = (ctl2, none)" by force
  have same2: "same_health c ctl ctl2" and none: "none = (\<forall>ag\<in>set (agents chain). \<not> available_now c ctl ph ag)"
    using all_unavailable_spec [of c ctl1 ph "agents chain"] a same_health_trans [OF same1] same_healthD(1) [OF same1]
    by auto
  obtain ctl3 w where e: "earliest_available_wait_ms c ctl2 ph (agents chain) = (ctl3, w)" by force
  have same3: "same_health c ctl ctl3" and w: "w = wait_ms_of c ctl ph (agents chain)"
    using earliest_available_wait_ms_spec [of c ctl2 ph "agents chain"] e same_health_trans [OF same2] wait_same [OF same2]
    by auto
  have nonneg: "0 \<le> wait_ms_of c ctl ph (agents chain)"
    by (auto simp: wait_ms_of_def Let_def)
  let ?h = "handle_retry_progression c utc ctl s failure ph ag in_session evt"
  have h: "?h = (if sel_index sel = Some (current_index chain)
      then Inr (ctl1, (with_phase_chain ph (with_retry_increment chain) s)\<lparr>agent_retry_intent := i\<rparr>, [], evt)
      else case sel_index sel of
        Some i \<Rightarrow> Inr (fst (fall_over utc ctl1 s failure ph ag chain i), snd (fall_over utc ctl1 s failure ph ag chain i), [], evt)
      | None \<Rightarrow> if none then if 0 < w then Inr (wait_for_cooldown ctl3 s failure w evt)
                 else give_up c ctl3 s failure ph chain evt else give_up c ctl2 s failure ph chain evt)"
    by (simp add: handle_retry_progression_def assms p a e rt case_prod_unfold Let_def split: option.split)
  show thesis
  proof (cases "sel_index sel")
    case None
    show ?thesis
    proof (cases "none \<and> 0 < w")
      case True
      then show ?thesis by (intro wait [OF _ _ _ same3]) (use None h none w sel in auto)
    next
      case False
      show ?thesis
      proof (cases none)
        case True
        then show ?thesis by (intro exhausted [OF _ _ same3]) (use False None h w sel nonneg in auto)
      next
        case no: False
        then show ?thesis by (intro exhausted [OF _ _ same2]) (use None h none sel in auto)
      qed
    qed
  next
    case (Some k)
    show ?thesis
    proof (cases "k = current_index chain")
      case True
      then show ?thesis by (intro retry [OF _ same1 refl]) (use Some h sel in auto)
    next
      case False
      then show ?thesis by (intro fallover [OF _ False same1]) (use Some h sel in auto)
    qed
  qed
qed


section \<open>Cycle accounting\<close>

lemma fall_over_state:
  "phase (snd (fall_over utc ctl s failure ph ag chain i)) = phase s"
  "recovery_cycle_count (snd (fall_over utc ctl s failure ph ag chain i)) = recovery_cycle_count s"
  "ctl_cap (fst (fall_over utc ctl s failure ph ag chain i)) = ctl_cap ctl"
  by (simp_all add: fall_over_def Let_def state_simps publish_def)

lemma cap_exit_cases:
  assumes "cap_exit ctl failure s effs evt = Inr (ctl', s', effs', evt')"
  shows "ctl' = ctl" and "phase s' = phase s" and "recovery_cycle_count s' = recovery_cycle_count s"
    and "if cap_is_exceeded (ctl_cap ctl) (recovery_cycle_count s) then \<exists>why. effs' = [Exit_failure why] else effs' = effs"
  using assms by (auto simp: cap_exit_def dest: exit_failure_effect_Inr split: if_splits)

lemma give_up_cap:
  assumes "give_up c ctl s failure ph chain evt = Inr (ctl', s', effs, evt')"
  shows "ctl_cap ctl' = ctl_cap ctl"
proof -
  obtain ctl1 why where e: "exhaustion_reason c ctl ph chain failure = (ctl1, why)" by force
  obtain ctl2 failed where f: "enter_phase_failed ctl1 (s\<lparr>recovery_cycle_count := recovery_cycle_count s + 1\<rparr>) why
      (cf_category failure) = (ctl2, failed)" by force
  have "ctl_cap ctl1 = ctl_cap ctl" using exhaustion_reason_same [of c ctl ph chain failure] e by (simp add: same_healthD)
  moreover have "ctl_cap ctl2 = ctl_cap ctl1"
    using enter_phase_failed_simps(4) [of ctl1 "s\<lparr>recovery_cycle_count := recovery_cycle_count s + 1\<rparr>" why] f by (metis fst_conv)
  moreover have "ctl' = ctl2" using assms e f cap_exit_cases(1) by (auto simp: give_up_def)
  ultimately show ?thesis by simp
qed

lemma gave_up_same: "same_health c ctl ctl1 \<Longrightarrow> gave_up ctl1 s s' effs = gave_up ctl s s' effs"
  by (simp add: gave_up_def failed_phase_def same_healthD)

lemma progression_outcome:
  assumes "handle_retry_progression c utc ctl s failure ph ag in_session evt = Inr (ctl', s', effs, evt')"
  shows "ctl_cap ctl' = ctl_cap ctl \<and>
    (phase s' = phase s \<and> recovery_cycle_count s' = recovery_cycle_count s \<and> effs = [] \<or> gave_up ctl s s' effs)"
proof (cases "chain_for_phase s ph")
  case None
  then show ?thesis using assms by (simp add: handle_retry_progression_def)
next
  case (Some chain)
  show ?thesis
    using Some
  proof (cases rule: progression_cases [where c = c and ctl = ctl and utc = utc and failure = failure and ag = ag
        and in_session = in_session and evt = evt])
    case (retry i ctl1 s1)
    then show ?thesis using assms same_healthD(6) [OF retry(2)] by (auto simp: state_simps)
  next
    case (fallover i ctl1)
    then show ?thesis using assms same_healthD(6) [OF fallover(3)] by (auto simp: fall_over_state)
  next
    case (wait ctl1)
    then show ?thesis using assms same_healthD(6) [OF wait(4)] by (auto simp: wait_for_cooldown_def Let_def publish_def state_simps)
  next
    case (exhausted ctl1)
    then have g: "give_up c ctl1 s failure ph chain evt = Inr (ctl', s', effs, evt')" using assms by simp
    show ?thesis
      using give_up_gives_up [OF g] give_up_cap [OF g] gave_up_same [OF exhausted(3)] same_healthD(6) [OF exhausted(3)]
      by simp
  qed
qed

lemma record_attempt_fact_keeps:
  "ctl_cap (fst (record_attempt_fact c ctl ph ag valid changed free)) = ctl_cap ctl"
  "ctl_bundle (fst (record_attempt_fact c ctl ph ag valid changed free)) = ctl_bundle ctl"
  by (auto simp: record_attempt_fact_def Let_def note_retry_exhaustion_def case_prod_unfold split: agent_status.split)

lemma record_failed_attempt_keeps:
  "ctl_cap (fst (record_failed_attempt c ctl ph cur failure chain changed valid)) = ctl_cap ctl"
  "ctl_bundle (fst (record_failed_attempt c ctl ph cur failure chain changed valid)) = ctl_bundle ctl"
  by (auto simp: record_failed_attempt_def Let_def record_attempt_fact_keeps register_phase_chain_def split: option.split)

lemma note_unavailable_keeps:
  "ctl_cap (fst (note_unavailable c ctl s failure ph ag)) = ctl_cap ctl"
  "ctl_bundle (fst (note_unavailable c ctl s failure ph ag)) = ctl_bundle ctl"
  "phase (snd (note_unavailable c ctl s failure ph ag)) = phase s"
  "recovery_cycle_count (snd (note_unavailable c ctl s failure ph ag)) = recovery_cycle_count s"
  by (auto simp: note_unavailable_def mark_agent_unavailable_def Let_def case_prod_unfold split: option.split)

text \<open>The cycle account a handled failure must satisfy.\<close>

definition cycle_account :: "controller \<Rightarrow> pstate \<Rightarrow> pstate \<Rightarrow> effect list \<Rightarrow> bool" where
  "cycle_account ctl s s' effs =
     ((phase s' = phase s \<or> phase s' = failed_phase ctl)
      \<and> recovery_cycle_count s \<le> recovery_cycle_count s'
      \<and> recovery_cycle_count s' \<le> recovery_cycle_count s + 1
      \<and> (recovery_cycle_count s' = recovery_cycle_count s + 1 \<and> cap_is_exceeded (ctl_cap ctl) (recovery_cycle_count s')
           \<longrightarrow> effs \<noteq> [])
      \<and> (effs = [] \<or> (\<exists>why. effs = [Exit_failure why]) \<and> cap_is_exceeded (ctl_cap ctl) (recovery_cycle_count s')))"

lemma gave_up_account: "gave_up ctl s s' effs \<Longrightarrow> cycle_account ctl s s' effs"
  by (auto simp: gave_up_def cycle_account_def split: if_splits)


lemma cycle_account_cong:
  "phase t = phase s \<Longrightarrow> recovery_cycle_count t = recovery_cycle_count s \<Longrightarrow>
   cycle_account ctl t s' effs = cycle_account ctl s s' effs"
  by (simp add: cycle_account_def)

lemma cycle_account_stay:
  "phase s' = phase s \<Longrightarrow> recovery_cycle_count s' = recovery_cycle_count s \<Longrightarrow> cycle_account ctl s s' []"
  by (simp add: cycle_account_def)

lemma note_failure_simps [simp]:
  "phase (note_failure ctl failure ctx s) = phase s"
  "recovery_cycle_count (note_failure ctl failure ctx s) = recovery_cycle_count s"
  "phase_chains (note_failure ctl failure ctx s) = phase_chains s"
  by (simp_all add: note_failure_def clear_waiting_def)

lemma session_after_simps [simp]:
  "phase (session_after failure b s) = phase s"
  "recovery_cycle_count (session_after failure b s) = recovery_cycle_count s"
  "phase_chains (session_after failure b s) = phase_chains s"
  by (simp_all add: session_after_def)

lemma charge_backoff_simps [simp]:
  "ctl_cap (charge_backoff ph ag failure ctl) = ctl_cap ctl"
  "ctl_bundle (charge_backoff ph ag failure ctl) = ctl_bundle ctl"
  by (simp_all add: charge_backoff_def Let_def split: option.split)

lemma publish_simps [simp]:
  "ctl_cap (publish e ctl) = ctl_cap ctl" "ctl_bundle (publish e ctl) = ctl_bundle ctl"
  "ctl_ledger (publish e ctl) = ctl_ledger ctl" "ctl_tracker (publish e ctl) = ctl_tracker ctl"
  "spent_agents (publish e ctl) = spent_agents ctl" "registered_chains (publish e ctl) = registered_chains ctl"
  by (simp_all add: publish_def)

lemma fail_sole_agent_account:
  assumes "fail_sole_agent ctl1 s failure why evt = Inr (ctl', s', effs, evt')"
    and "ctl_bundle ctl1 = ctl_bundle ctl" and "ctl_cap ctl1 = ctl_cap ctl"
  shows "gave_up ctl s s' effs"
  using assms cap_exit_after_failure by (auto simp: fail_sole_agent_def split: prod.splits)

lemma progression_account:
  assumes "handle_retry_progression c utc ctl1 s failure ph ag in_session evt = Inr (ctl', s', effs, evt')"
    and "ctl_bundle ctl1 = ctl_bundle ctl" and "ctl_cap ctl1 = ctl_cap ctl"
  shows "cycle_account ctl s s' effs"
proof -
  have "gave_up ctl1 s s' effs = gave_up ctl s s' effs" using assms(2,3) by (simp add: gave_up_def failed_phase_def)
  with progression_outcome [OF assms(1)] show ?thesis
    using gave_up_account [of ctl s s' effs] cycle_account_stay [of s' s ctl] by blast
qed

lemma route_agent_failure_account:
  assumes "route_agent_failure c utc ctl1 s failure ctx evt = Inr (ctl', s', effs, evt')"
    and "ctl_bundle ctl1 = ctl_bundle ctl" and "ctl_cap ctl1 = ctl_cap ctl"
  shows "cycle_account ctl s s' effs"
proof -
  obtain ctl4 s4 effs4 evt4 where
    h: "handle_retry_progression c utc (charge_backoff (ctx_phase ctx) (ctx_agent ctx) failure ctl1)
         (session_after failure (ctx_retry_in_session ctx) s) failure (ctx_phase ctx) (ctx_agent ctx)
         (ctx_retry_in_session ctx) evt = Inr (ctl4, s4, effs4, evt4)"
    and x: "cap_exit ctl4 failure s4 effs4 evt4 = Inr (ctl', s', effs, evt')"
    using assms(1) by (auto simp: route_agent_failure_def)
  have "cycle_account ctl s s4 effs4"
    using progression_account [OF h, of ctl] assms(2,3)
    by (simp add: cycle_account_cong [of "session_after failure (ctx_retry_in_session ctx) s" s])
  moreover have "ctl_cap ctl4 = ctl_cap ctl" using progression_outcome [OF h] assms(3) by simp
  ultimately show ?thesis using cap_exit_cases [OF x] by (auto simp: cycle_account_def split: if_splits)
qed

lemma handle_classified_account:
  assumes "handle_classified_failure c utc ctl s failure ctx changed valid = Inr (ctl', s', effs, evt)"
  shows "cycle_account ctl s s' effs"
proof -
  let ?ph = "ctx_phase ctx" and ?ag = "ctx_agent ctx" and ?e = "classified_event utc ctl s failure ctx"
  let ?s1 = "note_failure ctl failure ctx s"
  obtain ctl1 sole where
    r: "record_failed_attempt c (publish (Failure_published ?e) ctl) ?ph (acting_agent ?ag (chain_for_phase s ?ph)) failure
          (chain_for_phase s ?ph) changed valid = (ctl1, sole)"
    by force
  obtain ctl2 s2 where n: "note_unavailable c ctl1 ?s1 failure ?ph ?ag = (ctl2, s2)" by force
  have ctl1: "ctl_bundle ctl1 = ctl_bundle ctl" "ctl_cap ctl1 = ctl_cap ctl"
    using record_failed_attempt_keeps r by (metis fst_conv publish_simps(1,2))+
  have ctl2: "ctl_bundle ctl2 = ctl_bundle ctl" "ctl_cap ctl2 = ctl_cap ctl"
      and s2: "phase s2 = phase s" "recovery_cycle_count s2 = recovery_cycle_count s"
    using note_unavailable_keeps [of c ctl1 ?s1 failure ?ph ?ag] n ctl1 by auto
  note out = assms [unfolded handle_classified_failure_def Let_def r n prod.case]
  consider why where "sole = Some why" | "sole = None" "technical_category (cf_category failure)"
    | "sole = None" "\<not> technical_category (cf_category failure)" "cf_category failure = Cat_user_config"
    | "sole = None" "\<not> technical_category (cf_category failure)" "cf_category failure \<noteq> Cat_user_config"
    by (cases sole; blast)
  then show ?thesis
  proof cases
    case 1
    then have "gave_up ctl ?s1 s' effs" using out fail_sole_agent_account [OF _ ctl1] by simp
    from gave_up_account [OF this] show ?thesis using cycle_account_cong [of ?s1 s] by simp
  next
    case 2
    then have "cycle_account ctl (?s1\<lparr>last_error := Some (cf_reason failure)\<rparr>) s' effs"
      using out progression_account [OF _ ctl1] by simp
    then show ?thesis using cycle_account_cong [of "?s1\<lparr>last_error := Some (cf_reason failure)\<rparr>" s] by simp
  next
    case 3
    then show ?thesis
      using out enter_phase_failed_simps [of ctl2 s2 "cf_reason failure" "Cat_user_config"] ctl2 s2
      by (auto simp: cycle_account_def failed_phase_def case_prod_unfold)
  next
    case 4
    then have "cycle_account ctl s2 s' effs" using out route_agent_failure_account [OF _ ctl2] by simp
    then show ?thesis using s2 cycle_account_cong [of s2 s] by simp
  qed
qed


lemma handle_account:
  assumes "handle classify c utc ctl s raw ctx changed valid = Inr (ctl', s', effs, evt)"
  shows "cycle_account ctl s s' effs"
proof -
  let ?f = "case ctx_classified ctx of Some f \<Rightarrow> f
            | None \<Rightarrow> classify raw (ctx_phase ctx) (ctx_agent ctx) (last_connectivity_state s)"
  show ?thesis
  proof (cases "cf_category ?f = Cat_integration")
    case True
    then show ?thesis
      using assms by (auto simp: handle_def Let_def handle_integration_continuation_def clear_waiting_def
          intro!: cycle_account_stay)
  next
    case False
    then show ?thesis using assms handle_classified_account by (simp add: handle_def Let_def)
  qed
qed

section \<open>Waiting, falling over and giving up\<close>

lemma cooldown_in_future: "health c ctl ph ag = Cooldown u r \<Longrightarrow> mono_ms c < u"
  by (auto simp: status_at_eq entry_status_def sync_cooldown_expiry_def split: if_splits option.splits)

lemma ledger_wait_all_cooldown:
  assumes "ags \<noteq> []" and "\<forall>ag\<in>set ags. \<exists>u r. health c ctl ph ag = Cooldown u r"
  shows "0 < ledger_wait c ctl ph ags"
    and "ag \<in> set ags \<Longrightarrow> health c ctl ph ag = Cooldown u r \<Longrightarrow> ledger_wait c ctl ph ags \<le> u - mono_ms c"
proof -
  let ?W = "{max 0 (u - mono_ms c) | u r ag. ag \<in> set ags \<and> health c ctl ph ag = Cooldown u r}"
  let ?g = "\<lambda>ag. case health c ctl ph ag of Cooldown u _ \<Rightarrow> max 0 (u - mono_ms c) | _ \<Rightarrow> 0"
  have "?W \<subseteq> ?g ` set ags" by (force split: agent_status.split)
  then have fin: "finite ?W" by (rule finite_subset) simp
  have ne: "?W \<noteq> {}" using assms by (cases ags) auto
  have eq: "ledger_wait c ctl ph ags = Min ?W"
    using assms(2) ne by (auto simp: ledger_wait_def Let_def)
  have "\<forall>w\<in>?W. 0 < w" using cooldown_in_future by fastforce
  then show "0 < ledger_wait c ctl ph ags" using fin ne eq by simp
  assume "ag \<in> set ags" "health c ctl ph ag = Cooldown u r"
  then have "max 0 (u - mono_ms c) \<in> ?W" by blast
  then show "ledger_wait c ctl ph ags \<le> u - mono_ms c"
    using fin eq cooldown_in_future [OF \<open>health c ctl ph ag = Cooldown u r\<close>] Min_le [OF fin] by fastforce
qed

lemma wait_ms_bounds:
  assumes "\<forall>ag\<in>set ags. \<not> available_now c ctl ph ag" and "0 < ledger_wait c ctl ph ags"
  shows "0 < wait_ms_of c ctl ph ags \<and> wait_ms_of c ctl ph ags \<le> ledger_wait c ctl ph ags"
  using assms by (auto simp: wait_ms_of_def Let_def)

lemma last_normalized: "last (normalize_fallover_history (h @ [r]) cap) = r"
  by (auto simp: normalize_fallover_history_def slice_last_def resolved_recovery_cycle_cap_def Let_def last_drop)

lemma exit_sentinel_raises:
  assumes "contains_forbidden_sentinel (take 200 why)"
  shows "\<exists>msg. exit_failure_effect (exit_reason cap n k (take 200 why)) = Inl (ValueError msg)"
proof -
  have "contains_str (u @ take 200 why) x" if "contains_str (take 200 why) x" for x u
    using that by (auto simp: contains_str_iff) (metis append.assoc)
  then have "contains_forbidden_sentinel (u @ take 200 why)" for u
    using assms by (auto simp: contains_forbidden_sentinel_def list_ex_iff)
  from this [of "''recovery cycle cap '' @ str_int cap @ '' exceeded after '' @ str_int (int n)
     @ '' recoveries; last failure category='' @ k @ '': ''"]
  show ?thesis by (simp add: exit_failure_effect_def exit_reason_def)
qed

section \<open>Properties\<close>

text \<open>
  C6: the cycle cap.  Whatever the failure, a handled failure leaves the run in its phase or
  moves it to the failure route, counts at most one recovery cycle and never lowers the count;
  a cycle counted at or past the cap always comes with the exit effect, and no exit effect is
  emitted before the count reaches the cap.
\<close>

theorem recovery_cap_enforced:
  assumes "handle classify c utc ctl s raw ctx changed valid = Inr (ctl', s', effs, evt)"
  shows "(phase s' = phase s \<or> phase s' = failed_phase ctl)
    \<and> recovery_cycle_count s \<le> recovery_cycle_count s'
    \<and> recovery_cycle_count s' \<le> recovery_cycle_count s + 1
    \<and> (recovery_cycle_count s' = recovery_cycle_count s + 1
         \<and> cap_is_exceeded (ctl_cap ctl) (recovery_cycle_count s') \<longrightarrow> effs \<noteq> [])
    \<and> (effs = [] \<or> (\<exists>why. effs = [Exit_failure why])
         \<and> cap_is_exceeded (ctl_cap ctl) (recovery_cycle_count s'))"
  using handle_account [OF assms] unfolding cycle_account_def .

definition sample_controller :: controller where
  "sample_controller = \<lparr>ctl_cap = 2, ctl_bundle = Some \<lparr>bundle_pipeline = default_policy, agent_drains = [], agent_chains = []\<rparr>,
     ctl_ledger = sample_ledger,
     ctl_tracker = \<lparr>backoff_policy = default_unavailability_backoff_policy, tracker_entries = [], backoff_attempts = []\<rparr>,
     ctl_backoff_attempts = [], spent_agents = [], registered_chains = [], published = []\<rparr>"

definition sample_run :: pstate where
  "sample_run = (blank_state ''development'')
     \<lparr>phase_chains := [(''development'', \<lparr>agents = [''claude'', ''codex''], current_index = 0, retries = 0\<rparr>)],
      recovery_cycle_count := 1\<rparr>"

definition sample_classified :: "failure_category \<Rightarrow> string \<Rightarrow> classified_failure" where
  "sample_classified k why = \<lparr>cf_category = k, cf_reason = why, cf_attributed_agent = None,
     cf_attributed_phase = ''development'', counts_against_budget = True, raw_message = why, reset_session = False,
     cf_reset_tool_registry = False, is_unavailable = False, watchdog_reason = None,
     cf_unavailability_reason = None, resumable_session_id = None\<rparr>"

definition sample_context :: "failure_category \<Rightarrow> string \<Rightarrow> failure_context" where
  "sample_context k why = \<lparr>ctx_phase = ''development'', ctx_agent = Some ''claude'', ctx_retry_in_session = False,
     ctx_classified = Some (sample_classified k why)\<rparr>"

definition spent_entry :: ledger_entry where
  "spent_entry = fresh_entry\<lparr>is_spent := True\<rparr>"

definition spent_controller :: controller where
  "spent_controller = sample_controller\<lparr>ctl_ledger := sample_ledger\<lparr>entries :=
     [((''development'', ''claude''), spent_entry), ((''development'', ''codex''), spent_entry)]\<rparr>\<rparr>"

definition some_classifier :: classifier where
  "some_classifier raw ph ag conn = sample_classified Cat_ambiguous ''classified''"

lemma spent_run_exits:
  "(case handle some_classifier sample_clock ''utc'' spent_controller sample_run (Raw_text ''x'')
         (sample_context Cat_agent ''exit 1'') False False of
      Inr (_, s', [Exit_failure _], _) \<Rightarrow> phase s' = ''failed_terminal'' \<and> recovery_cycle_count s' = 2
    | _ \<Rightarrow> False)"
  by code_simp

theorem recovery_cap_enforced_witness:
  "\<exists>ctl' s' effs evt.
     handle some_classifier sample_clock ''utc'' spent_controller sample_run (Raw_text ''x'')
       (sample_context Cat_agent ''exit 1'') False False = Inr (ctl', s', effs, evt)
     \<and> effs \<noteq> [] \<and> cap_is_exceeded (ctl_cap spent_controller) (recovery_cycle_count s')"
proof -
  obtain ctl' s' effs evt where h: "handle some_classifier sample_clock ''utc'' spent_controller sample_run (Raw_text ''x'')
       (sample_context Cat_agent ''exit 1'') False False = Inr (ctl', s', effs, evt)" and "effs \<noteq> []"
    using spent_run_exits by (auto split: sum.splits list.splits)
  then show ?thesis using recovery_cap_enforced [OF h] by blast
qed

text \<open>
  a usable agent is used.  While some agent of the chain is neither cooling down, demoted,
  nor spent for this round, a progression stays in the phase, emits nothing, counts no cycle,
  and leaves the chain on the highest-priority usable agent: a retry when that is the current
  one, otherwise a fallover whose record names the new agent.
\<close>

theorem progression_picks_highest_priority:
  assumes "chain_for_phase s ph = Some chain" and "\<exists>ag\<in>set (agents chain). usable c ctl ph ag"
  shows "\<exists>ctl' s' chain'.
    handle_retry_progression c utc ctl s failure ph ag in_session evt = Inr (ctl', s', [], evt)
    \<and> phase s' = phase s \<and> recovery_cycle_count s' = recovery_cycle_count s
    \<and> chain_for_phase s' ph = Some chain' \<and> agents chain' = agents chain
    \<and> current_index chain' < length (agents chain)
    \<and> usable c ctl ph (agents chain ! current_index chain')
    \<and> (\<forall>j<current_index chain'. \<not> usable c ctl ph (agents chain ! j))
    \<and> (if current_index chain' = current_index chain then retries chain' = retries chain + 1
       else retries chain' = 0
         \<and> to_agent (last (fallover_history s')) = agents chain ! current_index chain')"
  using assms(1)
proof (cases rule: progression_cases [where c = c and ctl = ctl and utc = utc and failure = failure and ag = ag
      and in_session = in_session and evt = evt])
  case (retry i ctl1 s1)
  then show ?thesis
    by (intro exI [of _ ctl1] exI [of _ s1] exI [of _ "with_retry_increment chain"])
       (auto simp: preferred_Some state_simps chain_for_phase_def with_retry_increment_def)
next
  case (fallover i ctl1)
  let ?r = "fall_over utc ctl1 s failure ph ag chain i"
  show ?thesis
    using fallover(1,2,4)
    by (intro exI [of _ "fst ?r"] exI [of _ "snd ?r"] exI [of _ "\<lparr>agents = agents chain, current_index = i, retries = 0\<rparr>"])
       (auto simp: preferred_Some fall_over_def Let_def state_simps chain_for_phase_def last_normalized)
next
  case (wait ctl1)
  then show ?thesis using assms(2) by (auto simp: preferred_None)
next
  case (exhausted ctl1)
  then show ?thesis using assms(2) by (auto simp: preferred_None)
qed

theorem progression_picks_highest_priority_witness:
  "usable sample_clock sample_controller ''development'' ''claude''
   \<and> (\<exists>ctl' s' chain'. handle_retry_progression sample_clock ''utc'' sample_controller sample_run
        (sample_classified Cat_agent ''exit 1'') ''development'' (Some ''claude'') False
        (classified_event ''utc'' sample_controller sample_run (sample_classified Cat_agent ''exit 1'')
           (sample_context Cat_agent ''exit 1'')) = Inr (ctl', s', [],
        classified_event ''utc'' sample_controller sample_run (sample_classified Cat_agent ''exit 1'')
           (sample_context Cat_agent ''exit 1''))
      \<and> phase s' = ''development'' \<and> chain_for_phase s' ''development'' = Some chain'
      \<and> current_index chain' < 2)"
proof -
  have u: "usable sample_clock sample_controller ''development'' ''claude''" by code_simp
  have "chain_for_phase sample_run ''development'' = Some \<lparr>agents = [''claude'', ''codex''], current_index = 0, retries = 0\<rparr>"
    by code_simp
  from progression_picks_highest_priority [OF this, where c = sample_clock and ctl = sample_controller and utc = "''utc''"
      and failure = "sample_classified Cat_agent ''exit 1''" and ag = "Some ''claude''" and in_session = False
      and evt = "classified_event ''utc'' sample_controller sample_run (sample_classified Cat_agent ''exit 1'')
           (sample_context Cat_agent ''exit 1'')"] u
  show ?thesis by (auto simp: sample_run_def blank_state_def)
qed

text \<open>
  a chain that is cooling down waits.  When the ledger has every agent of the chain on
  cooldown, a progression neither fails the phase nor exits: it waits in the phase, for a
  positive time that does not outlast any agent's cooldown.
\<close>

theorem all_cooling_down_waits:
  assumes "chain_for_phase s ph = Some chain" and "agents chain \<noteq> []"
    and "\<forall>ag\<in>set (agents chain). \<exists>u r. health c ctl ph ag = Cooldown u r"
  shows "\<exists>ctl' s' evt'.
    handle_retry_progression c utc ctl s failure ph ag in_session evt = Inr (ctl', s', [], evt')
    \<and> phase s' = phase s \<and> recovery_cycle_count s' = recovery_cycle_count s
    \<and> is_waiting_state s' \<and> wait_reason s' = Some ALL_AGENTS_UNAVAILABLE
    \<and> 0 < last_retry_delay_ms s'
    \<and> (\<forall>a\<in>set (agents chain). \<forall>u r. health c ctl ph a = Cooldown u r \<longrightarrow> last_retry_delay_ms s' \<le> u - mono_ms c)"
proof -
  have un: "\<forall>a\<in>set (agents chain). \<not> available_now c ctl ph a"
    using assms(3) by (auto simp: available_now_def)
  note w = wait_ms_bounds [OF un ledger_wait_all_cooldown(1) [OF assms(2,3)]]
  show ?thesis
    using assms(1)
  proof (cases rule: progression_cases [where c = c and ctl = ctl and utc = utc and failure = failure and ag = ag
        and in_session = in_session and evt = evt])
    case (retry i ctl1 s1)
    then show ?thesis using un by (auto simp: preferred_Some usable_def)
  next
    case (fallover i ctl1)
    then show ?thesis using un by (auto simp: preferred_Some usable_def)
  next
    case (wait ctl1)
    have "\<forall>a\<in>set (agents chain). \<forall>u r. health c ctl ph a = Cooldown u r \<longrightarrow> wait_ms_of c ctl ph (agents chain) \<le> u - mono_ms c"
      using w ledger_wait_all_cooldown(2) [OF assms(2,3)] order_trans by blast
    then show ?thesis using wait(3,5) by (auto simp: wait_for_cooldown_def Let_def state_simps)
  next
    case (exhausted ctl1)
    then show ?thesis using un w by auto
  qed
qed

definition cooling_entry :: ledger_entry where
  "cooling_entry = fresh_entry\<lparr>cooldown_until_ms := Some 70000, cooldown_reason := Some ''limit''\<rparr>"

definition cooling_controller :: controller where
  "cooling_controller = sample_controller\<lparr>ctl_ledger := sample_ledger\<lparr>entries :=
     [((''development'', ''claude''), cooling_entry), ((''development'', ''codex''), cooling_entry)]\<rparr>\<rparr>"

definition sample_event :: failure_event where
  "sample_event = classified_event ''utc'' sample_controller sample_run (sample_classified Cat_agent ''exit 1'')
     (sample_context Cat_agent ''exit 1'')"

lemma sample_chain:
  "chain_for_phase sample_run ''development'' = Some \<lparr>agents = [''claude'', ''codex''], current_index = 0, retries = 0\<rparr>"
  by code_simp

theorem all_cooling_down_waits_witness:
  "\<exists>ctl' s' evt'.
    handle_retry_progression sample_clock ''utc'' cooling_controller sample_run (sample_classified Cat_agent ''exit 1'')
      ''development'' None False sample_event = Inr (ctl', s', [], evt')
    \<and> phase s' = ''development'' \<and> is_waiting_state s' \<and> last_retry_delay_ms s' \<le> 60000"
proof -
  have h: "health sample_clock cooling_controller ''development'' ag = Cooldown 70000 ''limit''"
    if "ag \<in> {''claude'', ''codex''}" for ag
    using that by (elim insertE emptyE; hypsubst) code_simp+
  have "mono_ms sample_clock = 10000" by code_simp
  with all_cooling_down_waits [OF sample_chain, where c = sample_clock and ctl = cooling_controller and utc = "''utc''"
      and failure = "sample_classified Cat_agent ''exit 1''" and ag = None and in_session = False and evt = sample_event] h
  show ?thesis by (fastforce simp: sample_run_def blank_state_def)
qed

text \<open>
  mixed cooldowns are not waited for.  If one agent of a two-agent chain is barred by the
  unavailability tracker and the other cools down in the ledger, each source reports no wait
  (each sees the other source's agent as free), the combined wait is zero, and the progression
  fails the phase and counts a cycle although both agents come back by themselves.
\<close>

theorem mixed_cooldowns_fail_the_phase:
  assumes "chain_for_phase s ph = Some chain" and "agents chain = [a, b]"
    and "health c ctl ph a = Eligible" and "dget (tracker_entries (ctl_tracker ctl)) a = Some e"
    and "mono_ms c < unavailable_until_ms e"
    and "health c ctl ph b = Cooldown u r" and "dget (tracker_entries (ctl_tracker ctl)) b = None"
    and "\<not> cap_is_exceeded (ctl_cap ctl) (recovery_cycle_count s + 1)"
  shows "\<exists>ctl' s'. handle_retry_progression c utc ctl s failure ph ag in_session evt = Inr (ctl', s', [], evt)
    \<and> phase s' = failed_phase ctl \<and> recovery_cycle_count s' = recovery_cycle_count s + 1
    \<and> is_waiting_state s' = is_waiting_state s"
proof -
  have un: "\<forall>x\<in>set (agents chain). \<not> available_now c ctl ph x"
    using assms(2-7) by (auto simp: available_now_def tracker_available_def)
  then have "\<forall>x\<in>set (agents chain). \<not> usable c ctl ph x" by (simp add: usable_def)
  then have none: "preferred c ctl ph (agents chain) = None" by (simp add: preferred_None)
  have w: "wait_ms_of c ctl ph (agents chain) = 0"
    using assms(2-7)
    by (simp add: wait_ms_of_def tracker_wait_def earliest_unavailable_wait_ms_def ledger_wait_def Let_def)
  show ?thesis
    using assms(1)
  proof (cases rule: progression_cases [where c = c and ctl = ctl and utc = utc and failure = failure and ag = ag
        and in_session = in_session and evt = evt])
    case (exhausted ctl1)
    obtain ctl2 why where x: "exhaustion_reason c ctl1 ph chain failure = (ctl2, why)" by force
    have same: "same_health c ctl ctl2"
      using exhaustion_reason_same [of c ctl1 ph chain failure] x same_health_trans [OF exhausted(3)] by simp
    let ?f = "enter_phase_failed ctl2 (s\<lparr>recovery_cycle_count := recovery_cycle_count s + 1\<rparr>) why (cf_category failure)"
    have "failed_phase ctl2 = failed_phase ctl" "ctl_cap ctl2 = ctl_cap ctl"
      using same_healthD(5,6) [OF same] by (simp_all add: failed_phase_def)
    then show ?thesis
      using exhausted(4) x assms(8) enter_phase_failed_simps [of ctl2 "s\<lparr>recovery_cycle_count := recovery_cycle_count s + 1\<rparr>" why "cf_category failure"]
      by (simp add: give_up_def cap_exit_def case_prod_unfold Let_def)
  qed (use none w in auto)
qed

definition barred_entry :: unavailability_entry where
  "barred_entry = \<lparr>unavailable_until_ms = 70000, entry_reason = Some Out_of_credits, entry_attempt = 0,
     entry_base_backoff_ms = 60000, entry_max_backoff_ms = 18000000\<rparr>"

definition mixed_controller :: controller where
  "mixed_controller = sample_controller\<lparr>ctl_cap := 200,
     ctl_ledger := sample_ledger\<lparr>entries := [((''development'', ''codex''), cooling_entry)]\<rparr>,
     ctl_tracker := (ctl_tracker sample_controller)\<lparr>tracker_entries := [(''claude'', barred_entry)]\<rparr>\<rparr>"

theorem mixed_cooldowns_fail_the_phase_witness:
  "\<exists>ctl' s'. handle_retry_progression sample_clock ''utc'' mixed_controller sample_run
      (sample_classified Cat_agent ''exit 1'') ''development'' None False sample_event = Inr (ctl', s', [], sample_event)
    \<and> phase s' = ''failed_terminal'' \<and> \<not> is_waiting_state s'"
proof -
  have h: "health sample_clock mixed_controller ''development'' ''claude'' = Eligible"
      "dget (tracker_entries (ctl_tracker mixed_controller)) ''claude'' = Some barred_entry"
      "mono_ms sample_clock < unavailable_until_ms barred_entry"
      "health sample_clock mixed_controller ''development'' ''codex'' = Cooldown 70000 ''limit''"
      "dget (tracker_entries (ctl_tracker mixed_controller)) ''codex'' = None"
      "\<not> cap_is_exceeded (ctl_cap mixed_controller) (recovery_cycle_count sample_run + 1)"
    and f: "failed_phase mixed_controller = ''failed_terminal''" "\<not> is_waiting_state sample_run"
    by code_simp+
  have ags: "agents \<lparr>agents = [''claude'', ''codex''], current_index = 0, retries = 0\<rparr> = [''claude'', ''codex'']"
    by simp
  from mixed_cooldowns_fail_the_phase [OF sample_chain ags h, of "''utc''" "sample_classified Cat_agent ''exit 1''" None False sample_event]
  show ?thesis using f by auto
qed

text \<open>
  the cap cannot end a run whose last failure mentions a sentinel.  When every agent is
  spent and the next cycle reaches the cap, building the exit effect raises \<^verbatim>\<open>ValueError\<close> if
  the first 200 characters of the failure reason contain one of the forbidden words (for
  instance the \<^verbatim>\<open>None\<close> of \<^verbatim>\<open>NoneType\<close>), so the run gets an exception instead of the exit.
\<close>

theorem cap_exit_raises_on_sentinel:
  assumes "chain_for_phase s ph = Some chain" and "\<forall>a\<in>set (agents chain). \<exists>r. health c ctl ph a = Spent r"
    and "tracker_entries (ctl_tracker ctl) = []"
    and "cap_is_exceeded (ctl_cap ctl) (recovery_cycle_count s + 1)"
    and "contains_forbidden_sentinel (take 200 (cf_reason failure))"
  shows "\<exists>msg. handle_retry_progression c utc ctl s failure ph ag in_session evt = Inl (ValueError msg)"
proof -
  have un: "\<forall>x\<in>set (agents chain). \<not> available_now c ctl ph x"
    using assms(2) by (auto simp: available_now_def)
  then have "\<forall>x\<in>set (agents chain). \<not> usable c ctl ph x" by (simp add: usable_def)
  then have none: "preferred c ctl ph (agents chain) = None" by (simp add: preferred_None)
  have "earliest_unavailable_wait_ms c (ctl_tracker ctl) ph (agents chain) = 0"
    using assms(3) by (cases "agents chain") (simp_all add: earliest_unavailable_wait_ms_def)
  moreover have "ledger_wait c ctl ph (agents chain) = 0"
    using assms(2) by (auto simp: ledger_wait_def)
  ultimately have w: "wait_ms_of c ctl ph (agents chain) = 0"
    by (simp add: wait_ms_of_def tracker_wait_def)
  show ?thesis
    using assms(1)
  proof (cases rule: progression_cases [where c = c and ctl = ctl and utc = utc and failure = failure and ag = ag
        and in_session = in_session and evt = evt])
    case (exhausted ctl1)
    obtain ctl2 why where x: "exhaustion_reason c ctl1 ph chain failure = (ctl2, why)" by force
    have "same_health c ctl ctl2"
      using exhaustion_reason_same [of c ctl1 ph chain failure] x same_health_trans [OF exhausted(3)] by simp
    then have "ctl_cap ctl2 = ctl_cap ctl" by (rule same_healthD)
    moreover obtain msg where "exit_failure_effect (exit_reason (ctl_cap ctl) (recovery_cycle_count s + 1)
        (category_value (cf_category failure)) (take 200 (cf_reason failure))) = Inl (ValueError msg)"
      using exit_sentinel_raises [OF assms(5)] by blast
    ultimately show ?thesis
      using exhausted(4) x assms(4)
        enter_phase_failed_simps [of ctl2 "s\<lparr>recovery_cycle_count := recovery_cycle_count s + 1\<rparr>" why "cf_category failure"]
      by (auto simp: give_up_def cap_exit_def case_prod_unfold Let_def)
  qed (use none w in auto)
qed

theorem cap_exit_raises_on_sentinel_witness:
  "\<exists>msg. handle_retry_progression sample_clock ''utc'' spent_controller sample_run
      (sample_classified Cat_agent ''NoneType has no attribute x'') ''development'' None False sample_event
    = Inl (ValueError msg)"
proof -
  have "health sample_clock spent_controller ''development'' ''claude'' = Spent spent_reason_total"
    and "health sample_clock spent_controller ''development'' ''codex'' = Spent spent_reason_total"
    and "tracker_entries (ctl_tracker spent_controller) = []"
    and "cap_is_exceeded (ctl_cap spent_controller) (recovery_cycle_count sample_run + 1)"
    and "contains_forbidden_sentinel (take 200 (cf_reason (sample_classified Cat_agent ''NoneType has no attribute x'')))"
    by code_simp+
  with cap_exit_raises_on_sentinel [OF sample_chain, where c = sample_clock and ctl = spent_controller
      and failure = "sample_classified Cat_agent ''NoneType has no attribute x''"]
  show ?thesis by auto
qed

text \<open>
  configuration failures escape the cap.  A failure classified as user or configuration
  fails the phase of a chain of two or more agents without counting a recovery cycle and without
  an exit effect, however many cycles the run has already used.
\<close>

theorem user_config_failure_uncounted:
  assumes "cf_category failure = Cat_user_config"
    and "chain_for_phase s (ctx_phase ctx) = Some chain" and "2 \<le> length (agents chain)"
    and "chain_config_for_phase ctl (ctx_phase ctx) = None"
  shows "\<exists>ctl' s' evt. handle_classified_failure c utc ctl s failure ctx changed valid = Inr (ctl', s', [], evt)
    \<and> phase s' = failed_phase ctl \<and> recovery_cycle_count s' = recovery_cycle_count s"
proof -
  let ?ph = "ctx_phase ctx" and ?ag = "ctx_agent ctx" and ?e = "classified_event utc ctl s failure ctx"
  let ?s1 = "note_failure ctl failure ctx s"
  obtain ctl1 sole where
    r: "record_failed_attempt c (publish (Failure_published ?e) ctl) ?ph (acting_agent ?ag (Some chain)) failure
          (Some chain) changed valid = (ctl1, sole)" by force
  have "sole = None"
    using r assms(3,4)
    by (auto simp: record_failed_attempt_def record_attempt_fact_def Let_def get_chain_agents_def register_phase_chain_def
        chain_config_for_phase_def split: option.splits prod.splits if_splits agent_status.splits)
  obtain ctl2 s2 where n: "note_unavailable c ctl1 ?s1 failure ?ph ?ag = (ctl2, s2)" by force
  have "ctl_bundle ctl2 = ctl_bundle ctl" "recovery_cycle_count s2 = recovery_cycle_count s"
    using note_unavailable_keeps [of c ctl1 ?s1 failure ?ph ?ag] n r
      record_failed_attempt_keeps(2) [of c "publish (Failure_published ?e) ctl" ?ph "acting_agent ?ag (Some chain)" failure "Some chain" changed valid]
    by auto
  then show ?thesis
    using r n \<open>sole = None\<close> assms(1,2) enter_phase_failed_simps [of ctl2 s2 "cf_reason failure" "Cat_user_config"]
    by (simp add: handle_classified_failure_def technical_category_def failed_phase_def case_prod_unfold Let_def)
qed

theorem user_config_failure_uncounted_witness:
  "\<exists>ctl' s' evt. handle_classified_failure sample_clock ''utc'' sample_controller (sample_run\<lparr>recovery_cycle_count := 1000\<rparr>)
      (sample_classified Cat_user_config ''bad key'') (sample_context Cat_user_config ''bad key'') False False
    = Inr (ctl', s', [], evt) \<and> phase s' = ''failed_terminal'' \<and> recovery_cycle_count s' = 1000"
proof -
  have "chain_for_phase (sample_run\<lparr>recovery_cycle_count := 1000\<rparr>) ''development''
      = Some \<lparr>agents = [''claude'', ''codex''], current_index = 0, retries = 0\<rparr>"
    and "chain_config_for_phase sample_controller ''development'' = None"
    and "failed_phase sample_controller = ''failed_terminal''"
    by code_simp+
  with user_config_failure_uncounted [of "sample_classified Cat_user_config ''bad key''"
      "sample_run\<lparr>recovery_cycle_count := 1000\<rparr>" "sample_context Cat_user_config ''bad key''" _ sample_controller
      sample_clock "''utc''" False False]
  show ?thesis by (auto simp: sample_context_def sample_classified_def)
qed

lemma integration_delay_closed:
  "0 < b \<Longrightarrow> integration_delay_loop n (min b 30000) = min (b * 2 ^ n) 30000"
proof (induction n arbitrary: b)
  case (Suc n)
  have step: "compute_backoff_ms (min b 30000) 1 30000 = min (b * 2) 30000" by (simp add: compute_backoff_ms_def)
  show ?case
  proof (cases "30000 \<le> b")
    case True
    have "(1::int) \<le> 2 ^ Suc n" by (rule one_le_power) simp
    then have "b * 1 \<le> b * 2 ^ Suc n" using Suc.prems by (intro mult_left_mono) simp_all
    then have "30000 \<le> b * 2 ^ Suc n" using True by linarith
    then show ?thesis using True by (simp add: compute_backoff_ms_def min_absorb2)
  next
    case False
    then have "min (b * 2) 30000 \<noteq> b" using Suc.prems by simp
    then show ?thesis using Suc.IH [of "b * 2"] Suc.prems step False by (simp add: mult.assoc Let_def)
  qed
qed simp

text \<open>
  the backoff of integration continuations.  The delay the loop computes is the doubling of
  the base delay once per attempt, capped at thirty seconds, and the stored attempt counter stops
  growing once the cap is met; the continuation keeps the phase and the cycle count.
\<close>

theorem integration_backoff_capped:
  fixes s :: pstate and utc :: string and failure :: classified_failure
  assumes "chain_config_for_phase ctl ph = Some cc" and "0 < cc_retry_delay_ms cc"
  defines "n \<equiv> integration_retry_attempt (rebase s)"
  defines "s' \<equiv> fst (snd (handle_integration_continuation utc ctl s failure ph))"
  shows "last_retry_delay_ms s' = min (cc_retry_delay_ms cc * 2 ^ n) 30000
    \<and> integration_retry_attempt (rebase s') = (if cc_retry_delay_ms cc * 2 ^ n < 30000 then n + 1 else n)
    \<and> phase s' = phase s \<and> recovery_cycle_count s' = recovery_cycle_count s"
proof -
  have delay: "integration_retry_delay ctl s ph = min (cc_retry_delay_ms cc * 2 ^ n) 30000"
    using integration_delay_closed [OF assms(2)] assms(1,2)
    by (simp add: integration_retry_delay_def compute_backoff_ms_def n_def)
  have "0 < cc_retry_delay_ms cc * 2 ^ n" using assms(2) by simp
  then have "min (cc_retry_delay_ms cc * 2 ^ n) 30000 < compute_backoff_ms (min (cc_retry_delay_ms cc * 2 ^ n) 30000) 1 30000
      \<longleftrightarrow> cc_retry_delay_ms cc * 2 ^ n < 30000"
    by (auto simp: compute_backoff_ms_def)
  then show ?thesis
    by (simp add: s'_def handle_integration_continuation_def Let_def delay clear_waiting_def n_def)
qed

definition chained_controller :: controller where
  "chained_controller = sample_controller\<lparr>ctl_bundle := Some \<lparr>bundle_pipeline = default_policy,
     agent_drains = [(''development'', ''main'')],
     agent_chains = [(''main'', \<lparr>cc_agents = [''claude''], cc_max_retries = 3, cc_retry_delay_ms = 1000\<rparr>)]\<rparr>\<rparr>"

theorem integration_backoff_capped_witness:
  "last_retry_delay_ms (fst (snd (handle_integration_continuation ''utc'' chained_controller
     (sample_run\<lparr>rebase := new_rebase_state\<lparr>integration_retry_attempt := 3\<rparr>\<rparr>)
     (sample_classified Cat_integration ''conflict'') ''development''))) = 8000"
proof -
  have "chain_config_for_phase chained_controller ''development''
      = Some \<lparr>cc_agents = [''claude''], cc_max_retries = 3, cc_retry_delay_ms = 1000\<rparr>"
    by code_simp
  from integration_backoff_capped [OF this, where s = "sample_run\<lparr>rebase := new_rebase_state\<lparr>integration_retry_attempt := 3\<rparr>\<rparr>"
      and utc = "''utc''" and failure = "sample_classified Cat_integration ''conflict''"]
  show ?thesis by simp
qed

lemma record_attempt_fact_sole:
  assumes "get_chain_agents ctl ph = Some [ag]"
    and "demoted (snd (record_attempt c (ctl_ledger ctl)
           \<lparr>fact_phase = ph, fact_agent = ag, artifact_valid = valid, workspace_changed = changed, free_retry_category = free\<rparr>))"
  shows "\<exists>ctl' why. record_attempt_fact c ctl ph ag valid changed free = (ctl', Some why)"
proof -
  have "chain_config_for_phase (ctl\<lparr>ctl_ledger := l\<rparr>) ph = chain_config_for_phase ctl ph" for l
    by (simp add: chain_config_for_phase_def)
  then have "get_chain_agents (ctl\<lparr>ctl_ledger := l\<rparr>) ph = Some [ag]" for l
    using assms(1) by (simp add: get_chain_agents_def split: option.splits)
  then show ?thesis using assms(2) by (simp add: record_attempt_fact_def case_prod_unfold Let_def)
qed

text \<open>
  a sole agent's cooldown fails the phase.  When the attempt puts the only agent of the
  chain on a ledger cooldown, the controller fails the phase and counts a cycle instead of
  waiting for the cooldown to expire.
\<close>

theorem sole_agent_cooldown_fails_the_phase:
  assumes "chain_for_phase s (ctx_phase ctx) = Some chain" and "agents chain = [a]"
    and "ctx_agent ctx = Some a" and "a \<noteq> []" and "chain_config_for_phase ctl (ctx_phase ctx) = None"
    and "outcome_status (snd (record_attempt c (ctl_ledger ctl)
           \<lparr>fact_phase = ctx_phase ctx, fact_agent = a, artifact_valid = valid, workspace_changed = changed,
            free_retry_category = technical_category (cf_category failure)\<rparr>)) = Cooldown u r"
    and "\<not> cap_is_exceeded (ctl_cap ctl) (recovery_cycle_count s + 1)"
  shows "\<exists>ctl' s' evt. handle_classified_failure c utc ctl s failure ctx changed valid = Inr (ctl', s', [], evt)
    \<and> phase s' = failed_phase ctl \<and> recovery_cycle_count s' = recovery_cycle_count s + 1
    \<and> \<not> is_waiting_state s'"
proof -
  let ?ph = "ctx_phase ctx" and ?e = "classified_event utc ctl s failure ctx"
  let ?s1 = "note_failure ctl failure ctx s"
  obtain ctl1 why where
    r: "record_failed_attempt c (publish (Failure_published ?e) ctl) ?ph (Some a) failure (Some chain) changed valid
        = (ctl1, Some why)"
    using assms(2,5,6) record_attempt_fact_sole
      [of "register_phase_chain ?ph [a] (publish (Failure_published ?e) ctl)" ?ph a c valid changed "technical_category (cf_category failure)"]
    by (force simp: record_failed_attempt_def get_chain_agents_def register_phase_chain_def chain_config_for_phase_def
        demoted_def publish_def)
  have keep: "ctl_bundle ctl1 = ctl_bundle ctl" "ctl_cap ctl1 = ctl_cap ctl"
    using record_failed_attempt_keeps [of c "publish (Failure_published ?e) ctl" ?ph "Some a" failure "Some chain" changed valid] r
    by auto
  have "\<not> is_waiting_state ?s1" by (simp add: note_failure_def clear_waiting_def)
  moreover have "acting_agent (Some a) (Some chain) = Some a" using assms(4) by (simp add: acting_agent_def)
  ultimately show ?thesis
    using r keep assms(1,3,7)
      enter_phase_failed_simps [of ctl1 "?s1\<lparr>recovery_cycle_count := recovery_cycle_count s + 1\<rparr>" why "cf_category failure"]
    by (simp add: handle_classified_failure_def fail_sole_agent_def cap_exit_def failed_phase_def case_prod_unfold Let_def)
qed

definition sole_run :: pstate where
  "sole_run = (blank_state ''development'')
     \<lparr>phase_chains := [(''development'', \<lparr>agents = [''claude''], current_index = 0, retries = 0\<rparr>)]\<rparr>"

definition tiring_controller :: controller where
  "tiring_controller = sample_controller\<lparr>ctl_ledger := sample_ledger\<lparr>entries :=
     [((''development'', ''claude''), fresh_entry\<lparr>consecutive_unproductive := 2, total_unproductive := 2\<rparr>)]\<rparr>\<rparr>"

theorem sole_agent_cooldown_fails_the_phase_witness:
  "\<exists>ctl' s' evt. handle_classified_failure sample_clock ''utc'' tiring_controller sole_run
      (sample_classified Cat_agent ''exit 1'') (sample_context Cat_agent ''exit 1'') False False = Inr (ctl', s', [], evt)
    \<and> phase s' = ''failed_terminal'' \<and> \<not> is_waiting_state s'"
proof -
  let ?ctx = "sample_context Cat_agent ''exit 1''" and ?f = "sample_classified Cat_agent ''exit 1''"
  have h: "chain_for_phase sole_run (ctx_phase ?ctx) = Some \<lparr>agents = [''claude''], current_index = 0, retries = 0\<rparr>"
      "agents \<lparr>agents = [''claude''], current_index = 0, retries = 0\<rparr> = [''claude'']"
      "ctx_agent ?ctx = Some ''claude''" "''claude'' \<noteq> []"
      "chain_config_for_phase tiring_controller (ctx_phase ?ctx) = None"
      "outcome_status (snd (record_attempt sample_clock (ctl_ledger tiring_controller)
           \<lparr>fact_phase = ctx_phase ?ctx, fact_agent = ''claude'', artifact_valid = False, workspace_changed = False,
            free_retry_category = technical_category (cf_category ?f)\<rparr>)) = Cooldown 70000 cooldown_reason_consecutive"
      "\<not> cap_is_exceeded (ctl_cap tiring_controller) (recovery_cycle_count sole_run + 1)"
    and f: "failed_phase tiring_controller = ''failed_terminal''"
    by code_simp+
  from sole_agent_cooldown_fails_the_phase [OF h, of "''utc''"] show ?thesis using f by auto
qed

end
