(* ===== verification/Reducer.thy ===== *)
theory Reducer
  imports Cycle_Timing State_Machine Recovery_Controller
begin

text \<open>
  The reducer (\<^verbatim>\<open>ralph/pipeline/reducer.py\<close>, \<^verbatim>\<open>loopback.py\<close>): every event handler, the dispatch
  and the routing of the typed decision.  A handler returns the new state and its effects, or
  the exception it raises.  The policy is optional as in the source.  Log lines are dropped.

  What the pure function still reads and writes besides its arguments is the record \<open>world\<close>: the
  last commit error (a module variable of \<^verbatim>\<open>commit_executor.py\<close>), the readings of the clocks, and
  the mutable recovery controller.  An exception loses the controller's updates, which no caller
  of the model observes.  The integration record is tested for presence only.
\<close>

type_synonym hres = "(pstate \<times> effect list) res"

record world =
  w_commit_error :: "string option"
  w_now :: string
  w_clock :: clock
  w_recovery :: "controller option"

type_synonym wres = "(world \<times> pstate \<times> effect list) res"

text \<open>\<open>try_value m h k\<close>: \<^verbatim>\<open>try: x = m; except ValueError as exc: return h(exc)\<close>, then \<open>k(x)\<close> outside the try.\<close>

definition try_value :: "'a res \<Rightarrow> (string \<Rightarrow> 'b res) \<Rightarrow> ('a \<Rightarrow> 'b res) \<Rightarrow> 'b res" where
  "try_value m h k = (case m of Inl (ValueError msg) \<Rightarrow> h msg | Inl e \<Rightarrow> Inl e | Inr x \<Rightarrow> k x)"

definition no_policy :: py_exn where
  "no_policy = RuntimeError ''Routing requires loaded policy; no fallback to legacy phase constants. Ensure pipeline_policy is passed to reduce().''"

definition failure_reason_of :: "pstate \<Rightarrow> string \<Rightarrow> string" where
  "failure_reason_of s fallback = or_else (last_error s) fallback"

definition restore_work_units :: "pstate \<Rightarrow> pstate \<Rightarrow> pstate" where
  "restore_work_units s s' =
     (if work_units s \<noteq> [] \<and> work_units s' = [] then s'\<lparr>work_units := work_units s\<rparr> else s')"

definition terminal_failure_route :: "pipeline_policy option \<Rightarrow> string res" where
  "terminal_failure_route p = (case p of None \<Rightarrow> Inl no_policy | Some pol \<Rightarrow> Inr (failed_route (recovery pol)))"

definition terminal_success_route :: "pipeline_policy option \<Rightarrow> string res" where
  "terminal_success_route p = (case p of None \<Rightarrow> Inl no_policy | Some pol \<Rightarrow> Inr (terminal_phase pol))"

section \<open>The failure route\<close>

definition enter_failed_recovery ::
  "pstate \<Rightarrow> string \<Rightarrow> pipeline_policy option \<Rightarrow> failure_category option \<Rightarrow> hres" where
  "enter_failed_recovery s why p cat = (case p of
     None \<Rightarrow> Inl no_policy
   | Some pol \<Rightarrow>
       (let target = failed_route (recovery pol);
            integration = (cat = Some Cat_integration);
            r = (if integration then advance_conflict_strategy why (rebase s) else rebase s);
            delay = (if integration \<and> \<not> resolution_exhausted r
                     then min (1000 * 2 ^ conflict_strategy_index r) 10000 else 0);
            s1 = (progress_advance_phase s target pol)
                   \<lparr>last_error := Some why, recovery_epoch := recovery_epoch s + 1, rebase := r,
                    last_retry_delay_ms := delay, pending_cycle_outcome := None\<rparr>;
            s2 = (if integration
                  then s1\<lparr>phase := or_else (if target \<noteq> phase s then Some (phase s) else previous_phase s)
                                     (entry_phase pol),
                          previous_phase := previous_phase s\<rparr>
                  else s1)
        in rbind (apply_execution_cycle_outcome s s2 pol) (\<lambda>s3. Inr (s3, []))))"

definition advance_to_failed :: "pstate \<Rightarrow> string \<Rightarrow> pipeline_policy option \<Rightarrow> hres" where
  "advance_to_failed s why p = enter_failed_recovery s why p None"

definition workflow_fallback_target :: "phase_definition \<Rightarrow> pipeline_policy \<Rightarrow> string option" where
  "workflow_fallback_target d pol = (case workflow_fallback d of
     None \<Rightarrow> None | Some f \<Rightarrow> if din (wf_target f) (phases pol) then Some (wf_target f) else None)"

section \<open>Advancing\<close>

definition concluded_if_leaving_cycle :: "pstate \<times> string \<Rightarrow> pipeline_policy \<Rightarrow> pstate \<times> string" where
  "concluded_if_leaving_cycle resolved pol =
     (let (s, t) = resolved in (conclude_development_timebox (conclude_cycle s t pol) t pol, t))"

definition with_bypassed_cycle_timing ::
  "bypass_result \<Rightarrow> pipeline_policy \<Rightarrow> routing_timing option \<Rightarrow> bool \<Rightarrow> pstate \<times> string" where
  "with_bypassed_cycle_timing b pol timing just_started =
     (if bp_skipped b = [] \<or> just_started then (bp_state b, bp_target b)
      else let tb = apply_cycle_timebox (bp_state b) (bp_target b) pol timing;
               dt = apply_development_timebox (td_state tb) (td_target tb) pol timing
           in (start_cycle_for_bypassed_start_source (td_state dt) (td_target dt)
                 (map skip_phase (bp_skipped b)) pol timing, td_target dt))"

definition prepare_phase_advance ::
  "pstate \<Rightarrow> string \<Rightarrow> pipeline_policy option \<Rightarrow> routing_timing option \<Rightarrow> (pstate \<times> string) res" where
  "prepare_phase_advance s target p timing = (case p of
     None \<Rightarrow> Inr (s, target)
   | Some pol \<Rightarrow>
       (let tb = apply_cycle_timebox s target pol timing;
            dt = apply_development_timebox (td_state tb) (td_target tb) pol timing;
            s1 = td_state dt; t1 = td_target dt;
            finish = (\<lambda>b. Inr (concluded_if_leaving_cycle
               (with_bypassed_cycle_timing b pol timing (timing_started tb)) pol));
            ordinary = rbind (resolve_exhausted_analysis_bypass s1 t1 pol) finish
        in if phase_role_is pol (phase s1) Analysis
              \<and> resolve_next_phase (phase s1) ''success'' pol = Inr t1
             then rbind (resolve_exhausted_analysis_bypass s1 (phase s1) pol)
                    (\<lambda>b. if bp_skipped b \<noteq> [] then finish b else ordinary)
           else ordinary))"

definition repairable_patterns :: "string list" where
  "repairable_patterns =
     [''head is detached'', ''detached head'', ''detached'', ''index.lock'', ''head.lock'', ''.lock'',
      ''stale lock'', ''lock contention'', ''cannot lock ref'', ''unable to create'', ''unmerged'',
      ''conflict'', ''conflicts'', ''repeated commit failure'', ''worktree not clean'', ''uncommitted'',
      ''staged'', ''gitoperationerror'', ''giterror'']"

definition is_repairable_git_failure :: "string option \<Rightarrow> bool" where
  "is_repairable_git_failure why = (case why of
     None \<Rightarrow> False | Some t \<Rightarrow> t \<noteq> [] \<and> list_ex (contains_str (lower t)) repairable_patterns)"

definition should_preserve_commit_retry :: "pstate \<Rightarrow> string \<Rightarrow> pipeline_policy \<Rightarrow> bool" where
  "should_preserve_commit_retry s t pol =
     (phase_role_is pol (phase s) Commit_cleanup \<and> phase_role_is pol t Commit
      \<and> agent_invoked (commit s)
      \<and> (is_repairable_git_failure (last_error s) \<or> 0 < recovery_epoch s))"

definition keep_commit_retry :: "pstate \<Rightarrow> pstate \<Rightarrow> pstate" where
  "keep_commit_retry s n =
     n\<lparr>commit := commit s, recovery_epoch := recovery_epoch s, last_error := last_error s\<rparr>"

definition advance_phase ::
  "pstate \<Rightarrow> string \<Rightarrow> pipeline_policy option \<Rightarrow> routing_timing option \<Rightarrow> hres" where
  "advance_phase s target p timing =
     rbind (prepare_phase_advance s target p timing) (\<lambda>(s1, t1).
       case p of
         None \<Rightarrow> Inl (ValueError (''advance_phase requires PipelinePolicy to advance to '' @ quoted t1
                   @ ''; pass the active pipeline policy to resolve drain and commit-role semantics''))
       | Some pol \<Rightarrow>
           (let n = progress_advance_phase s1 t1 pol
            in Inr (if should_preserve_commit_retry s t1 pol then keep_commit_retry s n else n, [])))"

definition resolve_or_terminal ::
  "pstate \<Rightarrow> string \<Rightarrow> pipeline_policy \<Rightarrow> string \<Rightarrow> routing_timing option \<Rightarrow> hres" where
  "resolve_or_terminal s sig pol label timing =
     try_value (resolve_next_phase (phase s) sig pol)
       (\<lambda>msg. advance_to_failed s (''Routing error after '' @ label @ '' in '' @ quoted (phase s) @ '': '' @ msg) (Some pol))
       (\<lambda>next. rbind (prepare_phase_advance s next (Some pol) timing) (\<lambda>(s1, t1).
          let n = progress_advance_phase s1 t1 pol
          in Inr (if sig = ''success'' \<and> should_preserve_commit_retry s t1 pol then keep_commit_retry s n
                  else if sig = ''loopback'' \<and> phase_role_is pol (phase s) Commit_cleanup
                          \<and> phase_role_is pol t1 Commit_cleanup
                    then n\<lparr>recovery_epoch := recovery_epoch s, last_error := last_error s\<rparr>
                  else n, [])))"

definition redirect_expired_cycle_in_place ::
  "pstate \<Rightarrow> pipeline_policy option \<Rightarrow> routing_timing option \<Rightarrow> hres option" where
  "redirect_expired_cycle_in_place s p timing = (case (p, timing) of
     (Some pol, Some rt) \<Rightarrow>
       (let d = apply_development_timebox s (phase s) pol timing
        in if redirected d then Some (advance_phase (td_state d) (td_target d) p timing)
           else if dev_timebox_active s then None
           else let d2 = apply_cycle_timebox s (phase s) pol timing
                in if redirected d2 then Some (advance_phase (td_state d2) (td_target d2) p timing) else None)
   | _ \<Rightarrow> None)"

section \<open>Agent failures\<close>

definition failed_over_chain :: "agent_chain_state \<Rightarrow> nat \<Rightarrow> agent_chain_state" where
  "failed_over_chain chain i = \<lparr>agents = agents chain, current_index = i, retries = 0\<rparr>"

definition retry_or_fall_over :: "pstate \<Rightarrow> agent_chain_state \<Rightarrow> agent_selection \<Rightarrow> pstate option" where
  "retry_or_fall_over s chain sel =
     (if sel_index sel = Some (current_index chain)
        then Some ((clear_waiting (with_phase_chain (phase s) (with_retry_increment chain) s))
                     \<lparr>metrics := metrics_retry_increment (metrics s)\<rparr>)
      else case sel_index sel of
        Some i \<Rightarrow> Some (clear_waiting ((with_phase_chain (phase s) (failed_over_chain chain i) s)
             \<lparr>metrics := metrics_fallback_increment (metrics s), last_agent_session_id := None,
              agent_retry_intent := cleared_agent_retry_intent\<rparr>))
      | None \<Rightarrow> None)"

definition all_agents_unavailable_wait_state ::
  "clock \<Rightarrow> controller \<Rightarrow> pstate \<Rightarrow> agent_chain_state \<Rightarrow> agent_selection \<Rightarrow> controller \<times> pstate option" where
  "all_agents_unavailable_wait_state c ctl s chain sel =
     (if sel_index sel \<noteq> None then (ctl, None)
      else let (ctl1, av) = agents_now_available c ctl (phase s) (agents chain)
           in if av \<noteq> [] then (ctl1, None)
              else let (ctl2, wait_ms) = earliest_available_wait_ms c ctl1 (phase s) (agents chain)
                   in (ctl2, Some (set_waiting ALL_AGENTS_UNAVAILABLE None
                        (s\<lparr>last_error := Some ''all agents unavailable; waiting for cooldown expiry'',
                           last_retry_delay_ms := wait_ms\<rparr>))))"

definition selection_attempt ::
  "clock \<Rightarrow> controller \<Rightarrow> pstate \<Rightarrow> agent_chain_state \<Rightarrow> agent_selection \<Rightarrow> controller \<times> pstate option" where
  "selection_attempt c ctl s chain sel = (case retry_or_fall_over s chain sel of
     Some s' \<Rightarrow> (ctl, Some s') | None \<Rightarrow> all_agents_unavailable_wait_state c ctl s chain sel)"

definition handle_chain_exhausted ::
  "pstate \<Rightarrow> agent_chain_state \<Rightarrow> pipeline_policy option \<Rightarrow> routing_timing option \<Rightarrow> failure_category option
    \<Rightarrow> string option \<Rightarrow> hres" where
  "handle_chain_exhausted s chain p timing cat why =
     (let fail = enter_failed_recovery s (case why of Some w \<Rightarrow> w
            | None \<Rightarrow> failure_reason_of s (''Agent chain exhausted in phase='' @ quoted (phase s) @ '' after ''
                @ str_int (int (retries chain)) @ '' retries across '' @ str_int (int (length (agents chain))) @ '' agents''))
            p cat
      in case p of
           None \<Rightarrow> fail
         | Some pol \<Rightarrow>
             (case (case dget (phases pol) (phase s) of None \<Rightarrow> None | Some d \<Rightarrow> workflow_fallback_target d pol) of
                None \<Rightarrow> fail
              | Some t \<Rightarrow> rbind (prepare_phase_advance s t p timing) (\<lambda>(s1, t1).
                  rbind (apply_execution_cycle_outcome s (progress_advance_phase s1 t1 pol) pol)
                    (\<lambda>n. Inr (n, [])))))"

definition fail_closed_without_owner ::
  "pstate \<Rightarrow> agent_chain_state \<Rightarrow> pipeline_policy option \<Rightarrow> routing_timing option \<Rightarrow> failure_category option \<Rightarrow> hres" where
  "fail_closed_without_owner s chain p timing cat =
     handle_chain_exhausted s chain p timing cat
       (Some (failure_reason_of s (''agent failure in phase '' @ quoted (phase s))
          @ '': no recovery owner is reachable to judge agent '' @ quoted (str_opt (chain_agent chain))
          @ '' in phase '' @ quoted (phase s)
          @ '', so the phase fails closed instead of granting another attempt''))"

type_synonym cres = "(controller \<times> pstate \<times> effect list) res"

definition keep_controller :: "controller \<Rightarrow> hres \<Rightarrow> cres" where
  "keep_controller ctl r = rbind r (\<lambda>(s, effs). Inr (ctl, s, effs))"

definition handle_skip_same_agent_retries ::
  "clock \<Rightarrow> controller \<Rightarrow> pstate \<Rightarrow> agent_chain_state \<Rightarrow> pipeline_policy option \<Rightarrow> cres" where
  "handle_skip_same_agent_retries c ctl s chain p =
     (if length (agents chain) \<le> current_index chain then Inl IndexError
      else let ctl1 = note_retry_exhaustion (phase s) (agents chain ! current_index chain) ctl;
               (ctl2, sel) = preferred_agent_index c ctl1 (phase s) (agents chain) (Some (current_index chain)) True;
               (ctl3, attempt) = selection_attempt c ctl2 s chain sel
           in case attempt of
                Some s' \<Rightarrow> Inr (ctl3, s', [])
              | None \<Rightarrow> keep_controller ctl3 (enter_failed_recovery s (failure_reason_of s
                    (''Agent chain exhausted in phase='' @ quoted (phase s)
                     @ '' after context-exhausted agent requested fallback'')) p None))"

definition charge_failed_attempt ::
  "clock \<Rightarrow> controller \<Rightarrow> pstate \<Rightarrow> agent_chain_state \<Rightarrow> event option \<Rightarrow> controller \<times> string option" where
  "charge_failed_attempt c ctl s chain ev = (case chain_agent chain of
     None \<Rightarrow> (ctl, None)
   | Some ag \<Rightarrow>
       (let observation = (case ev of None \<Rightarrow> None | Some e \<Rightarrow> observation_from_event e)
        in if (case observation of None \<Rightarrow> True | Some o' \<Rightarrow> \<not> already_charged o')
             then record_attempt_fact c ctl (phase s) ag False
                    (case observation of None \<Rightarrow> False | Some o' \<Rightarrow> resolved_workspace_changed o') True
           else (ctl, None)))"

definition handle_owned_agent_failure ::
  "clock \<Rightarrow> controller \<Rightarrow> pstate \<Rightarrow> agent_chain_state \<Rightarrow> pipeline_policy option \<Rightarrow> routing_timing option
    \<Rightarrow> failure_category option \<Rightarrow> event option \<Rightarrow> cres" where
  "handle_owned_agent_failure c ctl s chain p timing cat ev =
     (if skip_same_agent_retries (agent_retry_intent s)
        then handle_skip_same_agent_retries c ctl s chain p
      else let (ctl1, demotion) = charge_failed_attempt c ctl s chain ev
           in case (if length (agents chain) = 1 then demotion else None) of
                Some why \<Rightarrow> keep_controller ctl1 (enter_failed_recovery s why p None)
              | None \<Rightarrow>
                  (let (ctl2, sel) = preferred_agent_index c ctl1 (phase s) (agents chain)
                         (Some (current_index chain)) False;
                       (ctl3, attempt) = selection_attempt c ctl2 s chain sel
                   in case attempt of
                        Some s' \<Rightarrow> Inr (ctl3, s', [])
                      | None \<Rightarrow> keep_controller ctl3 (handle_chain_exhausted s chain p timing cat None)))"

definition no_chain_reason :: "pstate \<Rightarrow> string" where
  "no_chain_reason s = failure_reason_of s (''No tracked agent chain for '' @ phase s)"

definition handle_unowned_agent_failure ::
  "pstate \<Rightarrow> pipeline_policy option \<Rightarrow> routing_timing option \<Rightarrow> failure_category option \<Rightarrow> hres" where
  "handle_unowned_agent_failure s p timing cat = (case chain_for_phase s (phase s) of
     None \<Rightarrow> enter_failed_recovery s (no_chain_reason s) p None
   | Some chain \<Rightarrow> (case redirect_expired_cycle_in_place s p timing of
       Some r \<Rightarrow> r
     | None \<Rightarrow> fail_closed_without_owner s chain p timing cat))"

definition handle_agent_failure ::
  "clock \<Rightarrow> controller \<Rightarrow> pstate \<Rightarrow> pipeline_policy option \<Rightarrow> routing_timing option \<Rightarrow> failure_category option
    \<Rightarrow> event option \<Rightarrow> cres" where
  "handle_agent_failure c ctl s p timing cat ev = (case chain_for_phase s (phase s) of
     None \<Rightarrow> keep_controller ctl (enter_failed_recovery s (no_chain_reason s) p None)
   | Some chain \<Rightarrow> (case redirect_expired_cycle_in_place s p timing of
       Some r \<Rightarrow> keep_controller ctl r
     | None \<Rightarrow> handle_owned_agent_failure c ctl s chain p timing cat ev))"

definition failure_message :: "phase_failure_event \<Rightarrow> string" where
  "failure_message e = (if strip (pf_reason e) \<noteq> [] then pf_phase e @ '': '' @ pf_reason e
     else ''(no reason reported for phase='' @ pf_phase e @ '')'')"

definition handle_phase_failure ::
  "pstate \<Rightarrow> phase_failure_event \<Rightarrow> pipeline_policy option \<Rightarrow> routing_timing option \<Rightarrow> hres" where
  "handle_phase_failure s e p timing =
     (let msg = failure_message e
      in if recoverable e
           then rbind (if retry_in_session e \<and> truthy (last_agent_session_id s)
                         then resume_agent_retry_intent (or_else (last_agent_session_id s) []) msg False
                       else Inr cleared_agent_retry_intent) (\<lambda>intent.
                  let intent' = (if pf_skip_same_agent_retries e
                        then cleared_agent_retry_intent\<lparr>failure_reason := msg, skip_same_agent_retries := True\<rparr>
                        else intent)
                  in handle_unowned_agent_failure (s\<lparr>last_error := Some msg, agent_retry_intent := intent'\<rparr>)
                       p timing (pf_category e))
         else case p of
           None \<Rightarrow> enter_failed_recovery s msg p (pf_category e)
         | Some pol \<Rightarrow>
             (case (case dget (phases pol) (pf_phase e) of None \<Rightarrow> None | Some d \<Rightarrow> workflow_fallback_target d pol) of
                None \<Rightarrow> enter_failed_recovery s msg p (pf_category e)
              | Some t \<Rightarrow> rbind (prepare_phase_advance s t p timing) (\<lambda>(s1, t1).
                  rbind (apply_execution_cycle_outcome s
                      ((progress_advance_phase s1 t1 pol)\<lparr>last_error := Some msg\<rparr>) pol)
                    (\<lambda>n. Inr (n, [])))))"

definition handle_agent_retry :: "pstate \<Rightarrow> pipeline_policy option \<Rightarrow> routing_timing option \<Rightarrow> hres" where
  "handle_agent_retry s p timing = (case redirect_expired_cycle_in_place s p timing of
     Some r \<Rightarrow> r
   | None \<Rightarrow> (case chain_for_phase s (phase s) of
       None \<Rightarrow> enter_failed_recovery s (no_chain_reason s) None None
     | Some chain \<Rightarrow> Inr ((with_phase_chain (phase s) (with_retry_increment chain) s)
         \<lparr>metrics := metrics_continuation_increment (metrics s)\<rparr>, [])))"

section \<open>Forward routing\<close>

definition stamp_outcome :: "string option \<Rightarrow> pstate \<Rightarrow> pstate" where
  "stamp_outcome out s =
     (if out \<noteq> None \<and> pending_cycle_outcome s = None then s\<lparr>pending_cycle_outcome := out\<rparr> else s)"

definition handle_analysis_success :: "pstate \<Rightarrow> pipeline_policy option \<Rightarrow> routing_timing option \<Rightarrow> hres" where
  "handle_analysis_success s p timing = (case p of
     None \<Rightarrow> advance_to_failed s ''No policy loaded for analysis success routing'' p
   | Some pol \<Rightarrow>
       catch_value_error
         (rbind (resolve_next_phase (phase s) ''success'' pol) (\<lambda>next.
            let stamped = stamp_outcome (declared_forward_cycle_outcome (phase s) pol) s
            in rbind (advance_phase stamped next p timing) (\<lambda>(n, effs).
                 let counter = (case dget (phases pol) (phase s) of None \<Rightarrow> None
                       | Some d \<Rightarrow> (case dget (decisions d) ''completed'' of None \<Rightarrow> None
                           | Some r \<Rightarrow> dr_increments_counter r))
                 in Inr (apply_budget_counter_increment s (apply_analysis_success stamped n pol) counter, effs))))
         (\<lambda>msg. advance_to_failed s (''Routing error after analysis success in '' @ quoted (phase s) @ '': '' @ msg) p))"

definition handle_agent_success :: "pstate \<Rightarrow> pipeline_policy option \<Rightarrow> routing_timing option \<Rightarrow> hres" where
  "handle_agent_success s0 p timing =
     (let s = (if 0 < last_retry_delay_ms s0 then s0\<lparr>last_retry_delay_ms := 0\<rparr> else s0)
      in case p of
           None \<Rightarrow> advance_to_failed s ''No policy loaded for agent success routing'' p
         | Some pol \<Rightarrow> (case dget (phases pol) (phase s) of
             None \<Rightarrow> advance_to_failed s (''Unknown phase: '' @ phase s) p
           | Some d \<Rightarrow>
               if role d = Some Commit \<and> \<not> agent_invoked (commit s)
                 then Inr (s\<lparr>commit := (commit s)\<lparr>agent_invoked := True\<rparr>\<rparr>, [])
               else if role d = Some Analysis then handle_analysis_success s p timing
               else resolve_or_terminal s ''success'' pol ''agent success'' timing))"

definition handle_execution_result ::
  "pstate \<Rightarrow> string \<Rightarrow> string \<Rightarrow> pipeline_policy option \<Rightarrow> routing_timing option \<Rightarrow> hres" where
  "handle_execution_result s ph st p timing = (case p of
     None \<Rightarrow> advance_to_failed s ''No policy loaded for execution result routing'' p
   | Some pol \<Rightarrow>
       if phase s \<noteq> ph
         then advance_to_failed s (''Execution result phase '' @ quoted ph @ '' does not match active phase '' @ quoted (phase s)) p
       else (case dget (phases pol) ph of
           None \<Rightarrow> advance_to_failed s (''Execution result references non-execution phase '' @ quoted ph) p
         | Some d \<Rightarrow>
             if role d \<noteq> Some Execution
               then advance_to_failed s (''Execution result references non-execution phase '' @ quoted ph) p
             else resolve_or_terminal
                    (s\<lparr>post_commit_phase_override := dget (result_status_post_commit d) st,
                       last_execution_result_status := Some st\<rparr>)
                    ''success'' pol ''execution result'' timing))"

definition handle_capped_phase_loopback ::
  "pstate \<Rightarrow> pipeline_policy \<Rightarrow> phase_loop_policy \<Rightarrow> string option \<Rightarrow> routing_timing option \<Rightarrow> hres" where
  "handle_capped_phase_loopback s pol lp outcome timing =
     rbind (resolve_analysis_cap (iteration_state_field lp) pol) (\<lambda>cap.
       let ps = apply_analysis_loopback s s (iteration_state_field lp) cap outcome
                  (\<not> analysis_loopback_is_already_charged (phase s) s pol)
       in try_value (resolve_next_phase (phase s) ''loopback'' pol)
            (\<lambda>msg. advance_to_failed ps (''Routing error for phase loopback in '' @ quoted (phase s) @ '': '' @ msg) (Some pol))
            (\<lambda>t. advance_phase ps t (Some pol) timing))"

definition handle_analysis_loopback :: "pstate \<Rightarrow> pipeline_policy option \<Rightarrow> routing_timing option \<Rightarrow> hres" where
  "handle_analysis_loopback s p timing = (case p of
     None \<Rightarrow> advance_to_failed s ''No policy loaded for analysis loopback routing'' p
   | Some pol \<Rightarrow> (case dget (phases pol) (phase s) of
       None \<Rightarrow> advance_to_failed s (''Unknown phase for analysis loopback: '' @ phase s) p
     | Some d \<Rightarrow> (case loop_policy d of
         Some lp \<Rightarrow> if role d = Some Analysis
             then handle_capped_phase_loopback s pol lp (loopback_review_outcome lp) timing
             else resolve_or_terminal s ''loopback'' pol ''analysis loopback'' timing
       | None \<Rightarrow> resolve_or_terminal s ''loopback'' pol ''analysis loopback'' timing)))"

definition handle_phase_loopback :: "pstate \<Rightarrow> pipeline_policy option \<Rightarrow> routing_timing option \<Rightarrow> hres" where
  "handle_phase_loopback s p timing = (case p of
     None \<Rightarrow> advance_to_failed s ''No policy loaded for phase loopback routing'' p
   | Some pol \<Rightarrow> (case dget (phases pol) (phase s) of
       None \<Rightarrow> advance_to_failed s (''Unknown phase for loopback: '' @ phase s) p
     | Some d \<Rightarrow> (case loop_policy d of
         Some lp \<Rightarrow> handle_capped_phase_loopback s pol lp None timing
       | None \<Rightarrow> resolve_or_terminal s ''loopback'' pol ''phase loopback'' timing)))"

definition account_decision ::
  "pstate \<Rightarrow> string \<Rightarrow> phase_definition \<Rightarrow> phase_decision_route \<Rightarrow> pipeline_policy \<Rightarrow> pstate res" where
  "account_decision s ph d r pol =
     rbind (case loop_policy d of
         None \<Rightarrow> Inr s
       | Some lp \<Rightarrow>
           if reset_loop r then Inr (with_loop_iteration (iteration_state_field lp) 0 s)
           else rbind (resolve_analysis_cap (iteration_state_field lp) pol) (\<lambda>cap.
             Inr (apply_analysis_loopback s s (iteration_state_field lp) cap (loopback_review_outcome lp)
                    (\<not> analysis_loopback_is_already_charged ph s pol))))
       (\<lambda>ps. let ps1 = apply_budget_counter_increment s ps (dr_increments_counter r)
             in Inr (if dr_cycle_outcome r \<noteq> None then ps1\<lparr>pending_cycle_outcome := dr_cycle_outcome r\<rparr> else ps1))"

definition handle_analysis_decision ::
  "pstate \<Rightarrow> string \<Rightarrow> string \<Rightarrow> pipeline_policy option \<Rightarrow> routing_timing option \<Rightarrow> hres" where
  "handle_analysis_decision s ph dec p timing = (case p of
     None \<Rightarrow> advance_to_failed s ''No policy loaded for analysis decision routing'' p
   | Some pol \<Rightarrow> (case dget (phases pol) ph of
       None \<Rightarrow> advance_to_failed s (''Unknown phase for analysis decision: '' @ ph) p
     | Some d \<Rightarrow> (case dget (decisions d) dec of
         None \<Rightarrow> advance_to_failed s (''Phase '' @ quoted ph @ '' has no policy route for decision '' @ quoted dec
             @ ''. Add it to phases.'' @ ph @ ''.decisions or update the artifact decision_vocabulary.'') p
       | Some r \<Rightarrow>
           rbind (account_decision s ph d r pol) (\<lambda>ps.
             if dr_target r = failed_route (recovery pol) \<or> \<not> din (dr_target r) (phases pol)
               then enter_failed_recovery ps (failure_reason_of s (''Analysis decision '' @ quoted dec @ '' in phase ''
                      @ quoted ph @ '' routes to terminal failure target '' @ quoted (dr_target r))) p None
             else rbind (prepare_phase_advance ps (dr_target r) p timing) (\<lambda>(s1, t1).
                    Inr (restore_work_units s (progress_advance_phase s1 t1 pol), []))))))"

definition clear_review :: "hres \<Rightarrow> string option \<Rightarrow> hres" where
  "clear_review r out = rbind r (\<lambda>(s, effs). Inr (s\<lparr>review_outcome := out\<rparr>, effs))"

definition handle_review_clean :: "pstate \<Rightarrow> pipeline_policy option \<Rightarrow> routing_timing option \<Rightarrow> hres" where
  "handle_review_clean s p timing = (case p of
     None \<Rightarrow> advance_to_failed s ''No policy loaded for review clean routing'' p
   | Some pol \<Rightarrow>
       clear_review (case (case dget (phases pol) (phase s) of None \<Rightarrow> None
             | Some d \<Rightarrow> (case clean_outcome d of None \<Rightarrow> None | Some k \<Rightarrow> dget (bypass_routes d) k)) of
           Some t \<Rightarrow> advance_phase s t p timing
         | None \<Rightarrow> resolve_or_terminal s ''success'' pol ''review clean'' timing) None)"

definition handle_review_issues_found :: "pstate \<Rightarrow> pipeline_policy option \<Rightarrow> routing_timing option \<Rightarrow> hres" where
  "handle_review_issues_found s p timing = (case p of
     None \<Rightarrow> advance_to_failed s ''No policy loaded for review issues found routing'' p
   | Some pol \<Rightarrow> (case dget (phases pol) (phase s) of
       None \<Rightarrow> advance_to_failed s (''Unknown phase for review issues found: '' @ phase s) p
     | Some d \<Rightarrow>
         if issues_outcome d = None
           then advance_to_failed s (''Phase '' @ quoted (phase s) @ '' has role='' @ quoted ''review''
                  @ '' but issues_outcome is not declared. Add issues_outcome to the phase in pipeline.toml. See docs/sphinx/concepts.md.'') p
         else clear_review (resolve_or_terminal s ''loopback'' pol ''review issues found'' timing) (issues_outcome d)))"

definition handle_fix_success :: "pstate \<Rightarrow> pipeline_policy option \<Rightarrow> routing_timing option \<Rightarrow> hres" where
  "handle_fix_success s p timing = (case p of
     None \<Rightarrow> advance_to_failed s ''No policy loaded for fix success routing'' p
   | Some pol \<Rightarrow> resolve_or_terminal s ''success'' pol ''fix success'' timing)"

definition handle_fix_failure :: "pstate \<Rightarrow> pipeline_policy option \<Rightarrow> routing_timing option \<Rightarrow> hres" where
  "handle_fix_failure s p timing = (case p of
     None \<Rightarrow> advance_to_failed s ''No policy loaded for fix failure routing'' p
   | Some pol \<Rightarrow>
       catch_value_error
         (rbind (resolve_next_phase (phase s) ''failure'' pol) (\<lambda>next.
            if next = failed_route (recovery pol) \<or> \<not> din next (phases pol)
              then enter_failed_recovery s (failure_reason_of s ''Fix phase failed'') p None
            else advance_phase s next p timing))
         (\<lambda>msg. advance_to_failed s (''Routing error after fix failure in '' @ quoted (phase s) @ '': '' @ msg) p))"

definition handle_phase_advance :: "pstate \<Rightarrow> pipeline_policy option \<Rightarrow> routing_timing option \<Rightarrow> hres" where
  "handle_phase_advance s p timing = (case p of
     None \<Rightarrow> advance_to_failed s ''No policy loaded for phase advance routing'' p
   | Some pol \<Rightarrow> resolve_or_terminal s ''success'' pol ''phase advance'' timing)"

definition handle_complete :: "pstate \<Rightarrow> pipeline_policy option \<Rightarrow> routing_timing option \<Rightarrow> hres" where
  "handle_complete s p timing = rbind (terminal_success_route p) (\<lambda>t. advance_phase s t p timing)"

definition handle_failed :: "pstate \<Rightarrow> pipeline_policy option \<Rightarrow> hres" where
  "handle_failed s p = enter_failed_recovery s (failure_reason_of s (''Pipeline terminated in phase='' @ quoted (phase s)
     @ '' with no explicit error; check upstream last_error propagation'')) p None"

definition handle_checkpoint_saved :: "pstate \<Rightarrow> pstate \<times> effect list" where
  "handle_checkpoint_saved s = (s\<lparr>checkpoint_saved_count := checkpoint_saved_count s + 1\<rparr>, [])"

definition handle_interrupted :: "pstate \<Rightarrow> pstate \<times> effect list" where
  "handle_interrupted s = (s\<lparr>interrupted_by_user := True\<rparr>, [Save_checkpoint])"

definition worker_failed_or_cancelled :: "worker_state \<Rightarrow> bool" where
  "worker_failed_or_cancelled w = (status w = W_FAILED \<or> status w = W_CANCELLED)"

definition handle_all_workers_complete :: "pstate \<Rightarrow> pipeline_policy option \<Rightarrow> routing_timing option \<Rightarrow> hres" where
  "handle_all_workers_complete s p timing =
     (if worker_states s = [] then Inr (s, [])
      else let bad = sort (map fst (filter (\<lambda>(_, w). worker_failed_or_cancelled w) (worker_states s)))
           in if bad \<noteq> []
                then enter_failed_recovery s (''Parallel fan-out had failed workers: '' @ join_str '', '' bad) p None
              else if list_ex (\<lambda>(_, w). status w \<noteq> W_SUCCEEDED) (worker_states s) then Inr (s, [])
              else case p of
                None \<Rightarrow> advance_to_failed s ''No policy loaded for all-workers-complete routing'' p
              | Some pol \<Rightarrow>
                  catch_value_error
                    (rbind (resolve_next_phase (phase s) ''success'' pol) (\<lambda>next. advance_phase s next p timing))
                    (\<lambda>_. advance_to_failed s (''No '' @ quoted ''success'' @ '' transition defined in phase ''
                       @ quoted (phase s) @ '' for all-workers-complete'') p))"

section \<open>Commits\<close>

definition apply_invocation_gate ::
  "pstate \<Rightarrow> string \<Rightarrow> pipeline_policy \<Rightarrow> string \<times> pstate \<times> string option" where
  "apply_invocation_gate s next pol = (case dget (phases pol) next of
     None \<Rightarrow> (next, s, None)
   | Some d \<Rightarrow> (case invocation_gate d of
       None \<Rightarrow> (next, s, None)
     | Some g \<Rightarrow>
         if last_execution_result_status s \<in> Some ` set (always_invoke_statuses g)
            \<or> minimum_elapsed_seconds g \<le> cumulative_execution_seconds s (upstream_execution_phase g)
           then (next, s, Some (upstream_execution_phase g))
         else (on_success (transitions d), stamp_outcome (declared_forward_cycle_outcome next pol) s, None)))"

definition advance_through_invocation_gate ::
  "pstate \<Rightarrow> string \<Rightarrow> pipeline_policy \<Rightarrow> routing_timing option \<Rightarrow> hres" where
  "advance_through_invocation_gate s next0 pol timing =
     (let (next, gated, admitted) = apply_invocation_gate s next0 pol
      in rbind (advance_phase (gated\<lparr>last_execution_result_status := None\<rparr>) next (Some pol) timing) (\<lambda>(n, effs).
           case admitted of
             Some ex \<Rightarrow> if next = phase n
               then rbind (charge_analysis_cycle_for_gate n ex pol) (\<lambda>n'. Inr (n', effs)) else Inr (n, effs)
           | None \<Rightarrow> Inr (n, effs)))"

definition handle_commit_outcome ::
  "string \<Rightarrow> bool \<Rightarrow> pstate \<Rightarrow> pipeline_policy option \<Rightarrow> routing_timing option \<Rightarrow> hres" where
  "handle_commit_outcome label skipped s p timing = (case p of
     None \<Rightarrow> advance_to_failed s (''No policy loaded for '' @ label @ '' routing'') p
   | Some pol \<Rightarrow>
       catch_value_error
         (let ps = apply_commit_outcome s s skipped pol
          in rbind (resolve_post_commit_phase ps pol) (\<lambda>next.
               let has_override = (post_commit_phase_override ps \<noteq> None);
                   ps1 = (if has_override then consume_post_commit_phase_override ps else ps);
                   ps2 = (if commit_closes_a_cycle (phase s) pol then ps1\<lparr>pending_cycle_outcome := None\<rparr> else ps1)
               in if has_override then advance_phase ps2 next p timing
                  else advance_through_invocation_gate ps2 next pol timing))
         (\<lambda>msg. advance_to_failed s (''Routing error after '' @ label @ '' in '' @ quoted (phase s) @ '': '' @ msg) p))"

definition handle_commit_success :: "pstate \<Rightarrow> pipeline_policy option \<Rightarrow> routing_timing option \<Rightarrow> hres" where
  "handle_commit_success = handle_commit_outcome ''commit success'' False"

definition handle_commit_skipped :: "pstate \<Rightarrow> pipeline_policy option \<Rightarrow> routing_timing option \<Rightarrow> hres" where
  "handle_commit_skipped = handle_commit_outcome ''commit skipped'' True"

definition handle_commit_residual :: "pstate \<Rightarrow> pipeline_policy option \<Rightarrow> routing_timing option \<Rightarrow> hres" where
  "handle_commit_residual s p timing = (case p of
     None \<Rightarrow> advance_to_failed s ''No policy loaded for residual commit routing'' p
   | Some pol \<Rightarrow> advance_phase s (phase s) p timing)"

definition max_commit_recovery_attempts :: nat where
  "max_commit_recovery_attempts = 3"

definition lock_retry_delay_ms :: int where
  "lock_retry_delay_ms = 5000"

text \<open>
  \<^verbatim>\<open>names_a_lock_file\<close> searches \<^verbatim>\<open>Unable to create '(.+?\.lock)'\<close> and
  \<^verbatim>\<open>could not lock config file (.+?): File exists\<close>, ignoring case: a prefix, one or more
  characters other than a newline, and a suffix.
\<close>

fun gap_then :: "string \<Rightarrow> string \<Rightarrow> bool" where
  "gap_then suf [] = False"
| "gap_then suf (c # cs) = (c \<noteq> CHR 0x0A \<and> (take (length suf) cs = suf \<or> gap_then suf cs))"

fun search_gap :: "string \<Rightarrow> string \<Rightarrow> string \<Rightarrow> bool" where
  "search_gap pre suf [] = False"
| "search_gap pre suf (c # cs) =
     ((take (length pre) (c # cs) = pre \<and> gap_then suf (drop (length pre) (c # cs))) \<or> search_gap pre suf cs)"

definition names_a_lock_file :: "string \<Rightarrow> bool" where
  "names_a_lock_file t =
     (search_gap (''unable to create '' @ [CHR 0x27]) (''.lock'' @ [CHR 0x27]) (lower t)
      \<or> search_gap ''could not lock config file '' '': file exists'' (lower t))"

definition resolve_commit_recovery_phase :: "pstate \<Rightarrow> pipeline_policy \<Rightarrow> string option" where
  "resolve_commit_recovery_phase s pol =
     (case List.find (\<lambda>n. din n (phases pol) \<and> n \<noteq> phase s)
             [''commit_recovery'', ''COMMIT_RECOVERY'', ''development_commit_cleanup'', ''DEVELOPMENT_COMMIT_CLEANUP''] of
        Some n \<Rightarrow> Some n
      | None \<Rightarrow> map_option fst (List.find (\<lambda>(n, d). role d = Some Commit_cleanup \<and> n \<noteq> phase s
                  \<and> \<not> ends_with n ''_final_commit_cleanup'') (phases pol)))"

definition recoverable_git_failure_default_target ::
  "pstate \<Rightarrow> pipeline_policy \<Rightarrow> string option \<Rightarrow> string option" where
  "recoverable_git_failure_default_target s pol err =
     (if \<not> is_repairable_git_failure err then None
      else if resolve_commit_recovery_phase s pol \<noteq> None then None
      else Some (phase s))"

definition route_lock_contention_in_place ::
  "pstate \<Rightarrow> pstate \<Rightarrow> pipeline_policy \<Rightarrow> string option \<Rightarrow> string \<Rightarrow> routing_timing option \<Rightarrow> hres option" where
  "route_lock_contention_in_place s cleared pol err why timing =
     (if \<not> names_a_lock_file (or_else err []) then None
      else if resolve_commit_recovery_phase cleared pol \<noteq> None then None
      else Some (rbind (prepare_phase_advance cleared (phase cleared) (Some pol) timing) (\<lambda>(s1, t1).
             let n = (progress_advance_phase s1 t1 pol)
                   \<lparr>commit := commit s, last_error := Some why,
                    recovery_epoch := min (recovery_epoch cleared + 1) max_commit_recovery_attempts,
                    pending_cycle_outcome := None, last_execution_result_status := Some ''failed'',
                    last_retry_delay_ms := lock_retry_delay_ms\<rparr>
             in Inr (if t1 = phase cleared then n\<lparr>previous_phase := previous_phase s\<rparr> else n, []))))"

definition commit_retry_state ::
  "pstate \<Rightarrow> pstate \<Rightarrow> pipeline_policy \<Rightarrow> string \<Rightarrow> string \<Rightarrow> pstate \<Rightarrow> pstate" where
  "commit_retry_state s cleared pol t why s1 =
     (progress_advance_phase s1 t pol)
       \<lparr>commit := commit s, last_error := Some why, recovery_epoch := recovery_epoch cleared + 1,
        pending_cycle_outcome := None, last_execution_result_status := Some ''failed''\<rparr>"

definition handle_repairable_commit_failure ::
  "pstate \<Rightarrow> pstate \<Rightarrow> pipeline_policy \<Rightarrow> string option \<Rightarrow> routing_timing option \<Rightarrow> hres" where
  "handle_repairable_commit_failure s cleared pol err timing =
     (let why = or_else err (commit_failure_reason s)
      in case route_lock_contention_in_place s cleared pol err why timing of
           Some r \<Rightarrow> r
         | None \<Rightarrow>
             if max_commit_recovery_attempts \<le> recovery_epoch cleared
               then rbind (enter_failed_recovery cleared why (Some pol) None) (\<lambda>(n, effs).
                      Inr (n\<lparr>recovery_epoch := max_commit_recovery_attempts,
                             last_execution_result_status := Some ''failed''\<rparr>, effs))
             else (case resolve_commit_recovery_phase cleared pol of
                 Some rp \<Rightarrow> rbind (prepare_phase_advance cleared rp (Some pol) timing) (\<lambda>(s1, t1).
                     let n = commit_retry_state s cleared pol t1 why s1
                     in Inr (if names_a_lock_file (or_else err []) then n\<lparr>last_retry_delay_ms := lock_retry_delay_ms\<rparr>
                             else n, []))
               | None \<Rightarrow> (case recoverable_git_failure_default_target cleared pol err of
                   Some t \<Rightarrow> rbind (prepare_phase_advance cleared t (Some pol) timing) (\<lambda>(s1, t1).
                       let n = commit_retry_state s cleared pol t1 why s1
                       in Inr (if t1 = t then n\<lparr>previous_phase := previous_phase s\<rparr> else n, []))
                 | None \<Rightarrow> enter_failed_recovery cleared (commit_failure_reason s) (Some pol) None)))"

definition handle_commit_failure ::
  "string option \<Rightarrow> pstate \<Rightarrow> pipeline_policy option \<Rightarrow> routing_timing option \<Rightarrow> hres" where
  "handle_commit_failure recorded s p timing = (case p of
     None \<Rightarrow> advance_to_failed s ''No policy loaded for commit failure routing'' p
   | Some pol \<Rightarrow>
       (let cleared = s\<lparr>pending_cycle_outcome := None, last_execution_result_status := Some ''failed''\<rparr>;
            err = (if recorded = None \<and> is_repairable_git_failure (last_error s) then last_error s else recorded)
        in if is_repairable_git_failure err
             then handle_repairable_commit_failure s cleared pol err timing
           else enter_failed_recovery cleared (commit_failure_reason s) (Some pol) None))"

section \<open>Dispatch\<close>

definition pure_result :: "pstate \<times> effect list \<Rightarrow> hres" where
  "pure_result r = Inr r"

text \<open>
  The handler table.  \<open>PROMPT_PREPARED\<close> has no handler; the commit handlers read the recorded
  commit error, and only the failure handler clears it.
\<close>

definition run_handler ::
  "pipeline_event \<Rightarrow> string option \<Rightarrow> pstate \<Rightarrow> pipeline_policy option \<Rightarrow> routing_timing option \<Rightarrow> hres option" where
  "run_handler ev recorded s p timing = (case ev of
     AGENT_SUCCESS \<Rightarrow> Some (handle_agent_success s p timing)
   | AGENT_FAILURE \<Rightarrow> Some (handle_unowned_agent_failure s p timing None)
   | AGENT_RETRY \<Rightarrow> Some (handle_agent_retry s p timing)
   | ANALYSIS_SUCCESS \<Rightarrow> Some (handle_analysis_success s p timing)
   | ANALYSIS_LOOPBACK \<Rightarrow> Some (handle_analysis_loopback s p timing)
   | PHASE_LOOPBACK \<Rightarrow> Some (handle_phase_loopback s p timing)
   | REVIEW_CLEAN \<Rightarrow> Some (handle_review_clean s p timing)
   | REVIEW_ISSUES_FOUND \<Rightarrow> Some (handle_review_issues_found s p timing)
   | FIX_SUCCESS \<Rightarrow> Some (handle_fix_success s p timing)
   | FIX_FAILURE \<Rightarrow> Some (handle_fix_failure s p timing)
   | COMMIT_SUCCESS \<Rightarrow> Some (handle_commit_success s p timing)
   | COMMIT_RESIDUAL \<Rightarrow> Some (handle_commit_residual s p timing)
   | COMMIT_SKIPPED \<Rightarrow> Some (handle_commit_skipped s p timing)
   | COMMIT_FAILURE \<Rightarrow> Some (handle_commit_failure recorded s p timing)
   | CHECKPOINT_SAVED \<Rightarrow> Some (pure_result (handle_checkpoint_saved s))
   | CONTEXT_CLEANED \<Rightarrow> Some (Inr (s, []))
   | INTERRUPTED \<Rightarrow> Some (pure_result (handle_interrupted s))
   | COMPLETE \<Rightarrow> Some (handle_complete s p timing)
   | FAILED \<Rightarrow> Some (handle_failed s p)
   | PHASE_ADVANCE \<Rightarrow> Some (handle_phase_advance s p timing)
   | FAN_OUT_STARTED \<Rightarrow> Some (pure_result (handle_fan_out_started s))
   | WORKERS_RESUMED \<Rightarrow> Some (pure_result (handle_workers_resumed s))
   | ALL_WORKERS_COMPLETE \<Rightarrow> Some (handle_all_workers_complete s p timing)
   | PROMPT_PREPARED \<Rightarrow> None)"

definition keep_world :: "world \<Rightarrow> hres \<Rightarrow> wres" where
  "keep_world w r = rbind r (\<lambda>(s, effs). Inr (w, s, effs))"

definition restored :: "pstate \<Rightarrow> hres \<Rightarrow> hres" where
  "restored s r = rbind r (\<lambda>(n, effs). Inr (restore_work_units s n, effs))"

definition after_recovery ::
  "world \<Rightarrow> pstate \<Rightarrow> pipeline_policy option \<Rightarrow> progression res \<Rightarrow> wres" where
  "after_recovery w s p r = rbind r (\<lambda>(ctl, n, effs, _).
     rbind (case p of
         Some pol \<Rightarrow> if phase s \<noteq> phase n then apply_execution_cycle_outcome s n pol else Inr n
       | None \<Rightarrow> Inr n)
       (\<lambda>n'. Inr (w\<lparr>w_recovery := Some ctl\<rparr>, restore_work_units s n', effs)))"

definition reduce_post_fanout_verification ::
  "pstate \<Rightarrow> bool \<Rightarrow> int option \<Rightarrow> string option \<Rightarrow> pipeline_policy option \<Rightarrow> hres" where
  "reduce_post_fanout_verification s success code err p =
     (if success then Inr (s, [])
      else rbind (enter_failed_recovery s (or_else err (''workspace verification failed (exit code ''
                    @ (case code of None \<Rightarrow> ''None'' | Some i \<Rightarrow> str_int i) @ '')'')) p None)
             (\<lambda>(n, _). Inr (restore_work_units s n, [])))"

definition preclassified :: "phase_failure_event \<Rightarrow> classified_failure option" where
  "preclassified e = (case pf_category e of
     None \<Rightarrow> None
   | Some k \<Rightarrow> Some \<lparr>cf_category = k, cf_reason = classified_failure_reason_for_event e,
       cf_attributed_agent = None, cf_attributed_phase = pf_phase e, counts_against_budget = False,
       raw_message = event_reason e, reset_session = False, cf_reset_tool_registry = False,
       is_unavailable = False, watchdog_reason = None, cf_unavailability_reason = None,
       resumable_session_id = None\<rparr>)"

definition reduce_phase_failure ::
  "classifier \<Rightarrow> world \<Rightarrow> pstate \<Rightarrow> phase_failure_event \<Rightarrow> pipeline_policy option \<Rightarrow> routing_timing option \<Rightarrow> wres" where
  "reduce_phase_failure classify w s e p timing = (case w_recovery w of
     None \<Rightarrow> keep_world w (handle_phase_failure s e p timing)
   | Some ctl \<Rightarrow> (case redirect_expired_cycle_in_place s p timing of
       Some r \<Rightarrow> keep_world w r
     | None \<Rightarrow> after_recovery w s p
         (handle classify (w_clock w) (w_now w) ctl s (Raw_text (event_reason e))
            \<lparr>ctx_phase = pf_phase e, ctx_agent = current_agent s, ctx_retry_in_session = retry_in_session e,
             ctx_classified = preclassified e\<rparr> (pf_workspace_changed e) False)))"

definition reduce_result_event ::
  "world \<Rightarrow> pstate \<Rightarrow> string \<Rightarrow> string \<Rightarrow> pipeline_policy option \<Rightarrow> routing_timing option \<Rightarrow> wres" where
  "reduce_result_event w s ph st p timing =
     (let w1 = (case (w_recovery w, current_agent s) of
            (Some ctl, Some ag) \<Rightarrow> if ag = [] then w
              else w\<lparr>w_recovery := Some (ctl\<lparr>ctl_ledger := fst (record_attempt (w_clock w) (ctl_ledger ctl)
                     \<lparr>fact_phase = ph, fact_agent = ag, artifact_valid = True, workspace_changed = False,
                      free_retry_category = False\<rparr>)\<rparr>)\<rparr>
          | _ \<Rightarrow> w)
      in keep_world w1 (handle_execution_result s ph st p timing))"

definition captured_failure :: "agent_retry_intent \<Rightarrow> raw_failure option" where
  "captured_failure i = (case failed_agent_name i of
     None \<Rightarrow> None
   | Some ag \<Rightarrow>
       if failure_reason i = ''BrokenAgentExitError''
         then (case broken_agent_reason i of
             None \<Rightarrow> None
           | Some k \<Rightarrow> Some (Broken_agent_exit ag k
               (case broken_agent_returncode i of None \<Rightarrow> 0 | Some c \<Rightarrow> c) (broken_agent_stderr i)))
       else if failure_reason i = ''PiContextExhaustedExitError'' then Some (Pi_context_exhausted_exit ag)
       else None)"

definition reduce_captured_agent_failure ::
  "classifier \<Rightarrow> world \<Rightarrow> pstate \<Rightarrow> pipeline_policy option \<Rightarrow> routing_timing option \<Rightarrow> wres option" where
  "reduce_captured_agent_failure classify w s p timing = (case w_recovery w of
     None \<Rightarrow> None
   | Some ctl \<Rightarrow>
       if failed_agent_name (agent_retry_intent s) = None then None
       else (case redirect_expired_cycle_in_place s p timing of
           Some r \<Rightarrow> Some (keep_world w r)
         | None \<Rightarrow> (case captured_failure (agent_retry_intent s) of
             None \<Rightarrow> None
           | Some raw \<Rightarrow> Some (after_recovery w s p
               (handle classify (w_clock w) (w_now w) ctl s raw
                  \<lparr>ctx_phase = phase s, ctx_agent = current_agent s, ctx_retry_in_session = False,
                   ctx_classified = None\<rparr> False False)))))"

definition reduce_worker_failed ::
  "classifier \<Rightarrow> world \<Rightarrow> pstate \<Rightarrow> string \<Rightarrow> int \<Rightarrow> string \<Rightarrow> pipeline_policy option \<Rightarrow> routing_timing option \<Rightarrow> wres" where
  "reduce_worker_failed classify w s u code err p timing = (case redirect_expired_cycle_in_place s p timing of
     Some r \<Rightarrow> keep_world w r
   | None \<Rightarrow> (case w_recovery w of
       None \<Rightarrow> keep_world w (restored s (pure_result (handle_worker_failed s u code err (w_now w))))
     | Some ctl \<Rightarrow>
         (let why = (if err \<noteq> [] then err else ''Worker '' @ u @ '' failed: exit code '' @ str_int code)
          in rbind (handle classify (w_clock w) (w_now w) ctl s (Raw_text why)
                 \<lparr>ctx_phase = phase s, ctx_agent = current_agent s, ctx_retry_in_session = False,
                  ctx_classified = None\<rparr> False False)
               (\<lambda>(ctl', n, effs, _). case dget (worker_states s) u of
                  None \<Rightarrow> Inl (KeyError u)
                | Some ws \<Rightarrow> Inr (w\<lparr>w_recovery := Some ctl'\<rparr>,
                    restore_work_units s (set_worker u (failed_worker code err (w_now w) ws) n), effs)))))"

definition residual_is_progress :: "string list \<Rightarrow> string list \<Rightarrow> bool" where
  "residual_is_progress committed remaining =
     (committed \<noteq> [] \<and> remaining \<noteq> [] \<and> distinct committed \<and> distinct remaining
      \<and> set committed \<inter> set remaining = {})"

definition reduce_agent_failure ::
  "classifier \<Rightarrow> world \<Rightarrow> pstate \<Rightarrow> event \<Rightarrow> pipeline_policy option \<Rightarrow> routing_timing option \<Rightarrow> wres" where
  "reduce_agent_failure classify w s ev p timing =
     (case reduce_captured_agent_failure classify w s p timing of
        Some r \<Rightarrow> r
      | None \<Rightarrow> (case w_recovery w of
          Some ctl \<Rightarrow> rbind (handle_agent_failure (w_clock w) ctl s p timing None (Some ev)) (\<lambda>(ctl', n, effs).
              Inr (w\<lparr>w_recovery := Some ctl'\<rparr>, restore_work_units s n, effs))
        | None \<Rightarrow> (case ev of
            Pipeline_event e \<Rightarrow> keep_world w (restored s (handle_unowned_agent_failure s p timing None))
          | _ \<Rightarrow> Inr (w, s, []))))"

definition reduce_pure ::
  "classifier \<Rightarrow> world \<Rightarrow> pstate \<Rightarrow> event \<Rightarrow> pipeline_policy option \<Rightarrow> routing_timing option \<Rightarrow> wres" where
  "reduce_pure classify w s ev p timing = (case ev of
     Commit_residual_event committed remaining _ \<Rightarrow>
       if residual_is_progress committed remaining then keep_world w (handle_commit_residual s p timing)
       else Inr (w, s, [])
   | Post_fanout_verification_event success code err \<Rightarrow>
       keep_world w (reduce_post_fanout_verification s success code err p)
   | Phase_failure_event e \<Rightarrow> reduce_phase_failure classify w s e p timing
   | Analysis_decision_event ph dec \<Rightarrow> keep_world w (handle_analysis_decision s ph dec p timing)
   | Execution_result_event ph st \<Rightarrow> reduce_result_event w s ph st p timing
   | Worker_started_event u \<Rightarrow> keep_world w (restored s (pure_result (handle_worker_started s u (w_now w))))
   | Worker_completed_event u code \<Rightarrow>
       keep_world w (restored s (pure_result (handle_worker_completed s u code (w_now w))))
   | Worker_failed_event u code err \<Rightarrow> reduce_worker_failed classify w s u code err p timing
   | Agent_failure_event _ \<Rightarrow> reduce_agent_failure classify w s ev p timing
   | Pipeline_event e \<Rightarrow>
       if e = COMMIT_RESIDUAL then Inr (w, s, [])
       else if e = AGENT_FAILURE then reduce_agent_failure classify w s ev p timing
       else (case run_handler e (w_commit_error w) s p timing of
           None \<Rightarrow> Inr (w, s, [])
         | Some r \<Rightarrow> keep_world (if e = COMMIT_FAILURE then w\<lparr>w_commit_error := None\<rparr> else w) (restored s r)))"

definition route_terminals :: "pipeline_policy option \<Rightarrow> string set" where
  "route_terminals p = (case p of None \<Rightarrow> {} | Some pol \<Rightarrow> decision_terminals pol)"

definition is_phase_boundary :: "pstate \<Rightarrow> pstate \<Rightarrow> pipeline_policy option \<Rightarrow> bool" where
  "is_phase_boundary s n p = (phase s \<noteq> phase n \<or> phase n \<in> route_terminals p)"

definition route_reduced_decision :: "pstate \<Rightarrow> pstate \<Rightarrow> pipeline_policy option \<Rightarrow> bool \<Rightarrow> pstate" where
  "route_reduced_decision s n0 p has_record =
     (let boundary = is_phase_boundary s n0 p;
          n = n0\<lparr>rebase := (rebase n0)\<lparr>last_decision := None\<rparr>\<rparr>
      in if last_decision (rebase s) = None \<and> \<not> boundary \<and> \<not> has_record
            \<and> \<not> integration_unresolved (rebase n) \<and> \<not> recovery_record_retained (rebase n)
            \<and> \<not> is_intervention_required (rebase n)
           then n
         else let d = decide_phase_transition n p has_record (rebase n) None;
                  n1 = (if (d = Block_for_recovery \<or> d = Report_intervention_required) \<and> boundary
                        then n\<lparr>phase := phase s, last_agent_session_id := None,
                               agent_retry_intent := cleared_agent_retry_intent\<rparr> else n)
              in n1\<lparr>rebase := (rebase n1)\<lparr>last_decision := Some (decision_value d)\<rparr>\<rparr>)"

definition sync_ledger_snapshot :: "world \<Rightarrow> pstate \<Rightarrow> pstate" where
  "sync_ledger_snapshot w s = (case w_recovery w of
     None \<Rightarrow> s
   | Some ctl \<Rightarrow>
       (let snap = ledger_snapshot (w_clock w) (ctl_ledger ctl)
        in if Some snap \<noteq> ledger_snapshot_field s then s\<lparr>ledger_snapshot_field := Some snap\<rparr> else s))"

definition reduce ::
  "classifier \<Rightarrow> world \<Rightarrow> pstate \<Rightarrow> event \<Rightarrow> pipeline_policy option \<Rightarrow> routing_timing option \<Rightarrow> bool \<Rightarrow> wres" where
  "reduce classify w s ev p timing has_record =
     rbind (reduce_pure classify w s ev p timing) (\<lambda>(w', n, effs).
       Inr (w', sync_ledger_snapshot w' (route_reduced_decision s n p has_record), effs))"

end
