(* ===== verification/Reducer_Steps.thy ===== *)
theory Reducer_Steps
  imports Reducer
begin

text \<open>
  What one reduction can do to the state.  The relation \<open>estep\<close> lists the elementary changes the
  reducer makes to the fields that carry the run's progress; \<open>evolves\<close> is its closure.  Every
  handler, and so \<open>reduce\<close>, only evolves the state in this sense, and the invariants of a run are
  then proved by rule induction on the elementary changes, once each.
\<close>

section \<open>Elementary changes\<close>

definition same_core :: "pstate \<Rightarrow> pstate \<Rightarrow> bool" where
  "same_core s s' =
     (phase s' = phase s \<and> previous_phase s' = previous_phase s
      \<and> integration_commit_resume_phase s' = integration_commit_resume_phase s \<and> loop_iterations s' = loop_iterations s
      \<and> budget_caps s' = budget_caps s \<and> outer_progress s' = outer_progress s \<and> work_units s' = work_units s
      \<and> policy_entry_phase s' = policy_entry_phase s \<and> policy_format_version s' = policy_format_version s
      \<and> cycle_timebox_redirects s' = cycle_timebox_redirects s
      \<and> recovery_cycle_count s' = recovery_cycle_count s \<and> recovery_cycle_cap s' = recovery_cycle_cap s
      \<and> fallover_history s' = fallover_history s)"

inductive estep :: "pipeline_policy \<Rightarrow> pstate \<Rightarrow> pstate \<Rightarrow> bool" for p where
  bookkeeping: "same_core s s' \<Longrightarrow> estep p s s'"
| loop_reset: "estep p s (with_loop_iteration f 0 s)"
| loop_charge: "resolve_analysis_cap f p = Inr cap \<Longrightarrow> estep p s (with_loop_iteration f (next_completed n cap) s)"
| outer_advance: "estep p s (with_outer_progress c (get_outer_progress s c + 1) s)"
| goto: "known_phase p t \<Longrightarrow> known_option p pv \<Longrightarrow> estep p s (s\<lparr>phase := t, previous_phase := pv\<rparr>)"
| detour: "known_option p r \<Longrightarrow> estep p s (s\<lparr>integration_commit_resume_phase := r\<rparr>)"
| redirect: "estep p s (s\<lparr>cycle_timebox_redirects := cycle_timebox_redirects s + 1\<rparr>)"
| cycle: "estep p s (s\<lparr>recovery_cycle_count := recovery_cycle_count s + 1\<rparr>)"
| fallover: "estep p s (with_fallover_record r s)"

definition evolves :: "pipeline_policy \<Rightarrow> pstate \<Rightarrow> pstate \<Rightarrow> bool" where
  "evolves p = (estep p)\<^sup>*\<^sup>*"

lemma evolves_refl [simp, intro]: "evolves p s s"
  by (simp add: evolves_def)

lemma evolves_step: "evolves p s s' \<Longrightarrow> estep p s' s'' \<Longrightarrow> evolves p s s''"
  by (simp add: evolves_def)

lemma evolves_core: "evolves p s0 s \<Longrightarrow> same_core s s' \<Longrightarrow> evolves p s0 s'"
  by (blast intro: evolves_step bookkeeping)

text \<open>Updates of the fields outside the core, one rule each, so that a handler's record update is handled field by field.\<close>

lemma evolves_set:
  assumes "evolves p s0 s"
  shows "evolves p s0 (s\<lparr>review_outcome := x1\<rparr>)"
    "evolves p s0 (s\<lparr>phase_chains := x2\<rparr>)"
    "evolves p s0 (s\<lparr>rebase := x3\<rparr>)"
    "evolves p s0 (s\<lparr>commit := x4\<rparr>)"
    "evolves p s0 (s\<lparr>metrics := x5\<rparr>)"
    "evolves p s0 (s\<lparr>checkpoint_saved_count := x6\<rparr>)"
    "evolves p s0 (s\<lparr>recovery_epoch := x7\<rparr>)"
    "evolves p s0 (s\<lparr>interrupted_by_user := x8\<rparr>)"
    "evolves p s0 (s\<lparr>last_error := x9\<rparr>)"
    "evolves p s0 (s\<lparr>pending_cycle_outcome := x10\<rparr>)"
    "evolves p s0 (s\<lparr>execution_cycle_charged := x11\<rparr>)"
    "evolves p s0 (s\<lparr>last_execution_result_status := x12\<rparr>)"
    "evolves p s0 (s\<lparr>post_commit_phase_override := x13\<rparr>)"
    "evolves p s0 (s\<lparr>cycle_timing_start_index := x14\<rparr>)"
    "evolves p s0 (s\<lparr>worker_states := x15\<rparr>)"
    "evolves p s0 (s\<lparr>last_failure_category := x16\<rparr>)"
    "evolves p s0 (s\<lparr>last_retry_delay_ms := x17\<rparr>)"
    "evolves p s0 (s\<lparr>last_agent_session_id := x18\<rparr>)"
    "evolves p s0 (s\<lparr>agent_retry_intent := x19\<rparr>)"
    "evolves p s0 (s\<lparr>last_unavailability_reason := x20\<rparr>)"
    "evolves p s0 (s\<lparr>is_waiting_state := x21\<rparr>)"
    "evolves p s0 (s\<lparr>wait_reason := x22\<rparr>)"
    "evolves p s0 (s\<lparr>wait_until_monotonic_ms := x23\<rparr>)"
    "evolves p s0 (s\<lparr>ledger_snapshot_field := x24\<rparr>)"
    "evolves p s0 (s\<lparr>last_connectivity_state := x25\<rparr>)"
  using assms by (rule evolves_core, simp add: same_core_def)+

definition phases_known :: "pipeline_policy \<Rightarrow> pstate \<Rightarrow> bool" where
  "phases_known p s = (known_phase p (phase s) \<and> known_option p (previous_phase s)
     \<and> known_option p (integration_commit_resume_phase s))"

lemma estep_keeps_phases_known: "estep p s s' \<Longrightarrow> phases_known p s \<Longrightarrow> phases_known p s'"
  by (induction rule: estep.induct) (auto simp: same_core_def phases_known_def state_simps)

lemma evolves_keeps:
  assumes "\<And>s s'. estep p s s' \<Longrightarrow> I s \<Longrightarrow> I s'" and "evolves p s s'" and "I s"
  shows "I s'"
  using assms(2,3) unfolding evolves_def by (induction rule: rtranclp_induct) (auto intro: assms(1))

lemma evolves_phases_known: "evolves p s s' \<Longrightarrow> phases_known p s \<Longrightarrow> phases_known p s'"
  by (rule evolves_keeps [where I = "phases_known p"]) (auto intro: estep_keeps_phases_known)

text \<open>What no reduction changes at all.\<close>

lemma estep_frame:
  "estep p s s' \<Longrightarrow> work_units s' = work_units s \<and> budget_caps s' = budget_caps s
     \<and> policy_entry_phase s' = policy_entry_phase s \<and> policy_format_version s' = policy_format_version s
     \<and> recovery_cycle_cap s' = recovery_cycle_cap s"
  by (induction rule: estep.induct) (auto simp: same_core_def state_simps)

lemma evolves_frame:
  assumes "evolves p s0 s"
  shows "work_units s = work_units s0" and "budget_caps s = budget_caps s0"
    and "policy_entry_phase s = policy_entry_phase s0" and "policy_format_version s = policy_format_version s0"
    and "recovery_cycle_cap s = recovery_cycle_cap s0"
  using assms unfolding evolves_def by (induction rule: rtranclp_induct) (auto dest: estep_frame)

lemma resolve_next_phase_known: "resolve_next_phase cur sig p = Inr t \<Longrightarrow> known_phase p t"
  by (auto simp: resolve_next_phase_def known_phase_def split: option.splits if_splits)

section \<open>The timeboxes\<close>

text \<open>
  A view of the state that the routing helpers cannot change: it ignores the loop counters, the
  review outcome, the pending outcome, the commit override and both timers.
\<close>

locale routing_frame =
  fixes view :: "pstate \<Rightarrow> 'a"
  assumes ignores_loops: "view (s\<lparr>loop_iterations := x1\<rparr>) = view s"
    and ignores_review: "view (s\<lparr>review_outcome := x2\<rparr>) = view s"
    and ignores_pending: "view (s\<lparr>pending_cycle_outcome := x3\<rparr>) = view s"
    and ignores_override: "view (s\<lparr>post_commit_phase_override := x4\<rparr>) = view s"
    and ignores_cycle: "view (s\<lparr>cycle_timebox_active := b1\<rparr>) = view s"
      "view (s\<lparr>cycle_timebox_consumed_seconds := r1\<rparr>) = view s"
      "view (s\<lparr>cycle_timebox_started_at_epoch := e1\<rparr>) = view s"
      "view (s\<lparr>cycle_timebox_redirect_reason := t1\<rparr>) = view s"
      "view (s\<lparr>cycle_timebox_redirects := n1\<rparr>) = view s"
    and ignores_dev: "view (s\<lparr>dev_timebox_active := b2\<rparr>) = view s"
      "view (s\<lparr>dev_timebox_consumed_seconds := r2\<rparr>) = view s"
      "view (s\<lparr>dev_timebox_started_at_epoch := e2\<rparr>) = view s"
      "view (s\<lparr>dev_timebox_redirect_reason := t2\<rparr>) = view s"
begin

lemmas ignores = ignores_loops ignores_review ignores_pending ignores_override ignores_cycle ignores_dev

lemma view_cycle_timebox: "view (td_state (apply_cycle_timebox s t p timing)) = view s"
  by (simp add: apply_cycle_timebox_def started_def redirected_cycle_def Let_def ignores split: option.split)

lemma view_development_timebox: "view (td_state (apply_development_timebox s t p timing)) = view s"
  by (simp add: apply_development_timebox_def development_redirect_def Let_def ignores split: option.split)

lemma view_conclude_cycle: "view (conclude_cycle s t p) = view s"
  by (simp add: conclude_cycle_def concluded_def Let_def ignores split: option.split)

lemma view_conclude_development: "view (conclude_development_timebox s t p) = view s"
  by (simp add: conclude_development_timebox_def ignores split: option.split)

lemma view_start_cycle: "view (start_cycle_for_bypassed_start_source s t sk p timing) = view s"
  by (simp add: start_cycle_for_bypassed_start_source_def started_def ignores split: option.split)

lemma view_skip: "view (skip_analysis ph f p s) = view s"
  by (simp add: skip_analysis_def with_loop_iteration_def Let_def ignores split: option.split)

lemma view_bypass_loop: "bypass_loop p vis s t sk = Inr b \<Longrightarrow> view (bp_state b) = view s"
proof (induction p vis s t sk rule: bypass_loop.induct)
  case (1 p vis s t sk)
  from "1.prems" show ?case
    by (subst (asm) bypass_loop.simps)
       (auto simp: Let_def view_skip dest!: "1.IH" [rotated -1] split: if_splits option.splits sum.splits)
qed

lemma view_prepare: "prepare_phase_advance s t p timing = Inr (s1, t1) \<Longrightarrow> view s1 = view s"
  by (auto simp: prepare_phase_advance_def resolve_exhausted_analysis_bypass_def concluded_if_leaving_cycle_def
      with_bypassed_cycle_timing_def Let_def view_cycle_timebox view_development_timebox view_conclude_cycle
      view_conclude_development view_start_cycle
      dest!: view_bypass_loop split: option.splits if_splits prod.splits)

end

interpretation phase_frame: routing_frame phase
  by unfold_locales simp_all

interpretation outer_frame: routing_frame outer_progress
  by unfold_locales simp_all

section \<open>The routing helpers only evolve the state\<close>

lemma evolves_goto:
  "evolves p s0 s \<Longrightarrow> known_phase p t \<Longrightarrow> known_option p pv \<Longrightarrow> evolves p s0 (s\<lparr>phase := t, previous_phase := pv\<rparr>)"
  by (blast intro: evolves_step goto)

lemma evolves_redirect: "evolves p s0 s \<Longrightarrow> evolves p s0 (s\<lparr>cycle_timebox_redirects := cycle_timebox_redirects s + 1\<rparr>)"
  by (blast intro: evolves_step redirect)

lemma evolves_loop_reset: "evolves p s0 s \<Longrightarrow> evolves p s0 (with_loop_iteration f 0 s)"
  by (blast intro: evolves_step loop_reset)

lemma evolves_loop_charge:
  "evolves p s0 s \<Longrightarrow> resolve_analysis_cap f p = Inr cap \<Longrightarrow> evolves p s0 (with_loop_iteration f (next_completed n cap) s)"
  by (blast intro: evolves_step loop_charge)

lemma evolves_outer: "evolves p s0 s \<Longrightarrow> evolves p s0 (with_outer_progress c (get_outer_progress s c + 1) s)"
  by (blast intro: evolves_step outer_advance)

lemma evolves_cycle_timebox:
  assumes "evolves p s0 s"
  shows "evolves p s0 (td_state (apply_cycle_timebox s t p timing))"
  using evolves_core [OF assms] evolves_core [OF evolves_redirect [OF assms]]
  by (simp add: apply_cycle_timebox_def started_def redirected_cycle_def Let_def same_core_def split: option.split)

lemma evolves_development_timebox:
  "evolves p s0 s \<Longrightarrow> evolves p s0 (td_state (apply_development_timebox s t p timing))"
  by (erule evolves_core)
     (simp add: apply_development_timebox_def development_redirect_def Let_def same_core_def split: option.split)

lemma evolves_conclude:
  assumes "evolves p s0 s"
  shows "evolves p s0 (conclude_development_timebox (conclude_cycle s t p) t p)"
  using assms by (rule evolves_core)
    (simp add: conclude_cycle_def concluded_def conclude_development_timebox_def Let_def same_core_def split: option.split)

lemma evolves_start_cycle:
  "evolves p s0 s \<Longrightarrow> evolves p s0 (start_cycle_for_bypassed_start_source s t sk p timing)"
  by (erule evolves_core)
     (simp add: start_cycle_for_bypassed_start_source_def started_def same_core_def split: option.split)

lemma evolves_skip: "evolves p s0 s \<Longrightarrow> evolves p s0 (skip_analysis ph f p s)"
  by (rule evolves_core [OF evolves_loop_reset])
     (auto simp: skip_analysis_def Let_def same_core_def split: option.split)

lemma evolves_bypass_loop:
  "bypass_loop p vis s t sk = Inr b \<Longrightarrow> evolves p s0 s \<Longrightarrow> evolves p s0 (bp_state b)"
proof (induction p vis s t sk rule: bypass_loop.induct)
  case (1 p vis s t sk)
  from "1.prems" show ?case
    by (subst (asm) bypass_loop.simps)
       (auto simp: Let_def dest!: "1.IH" [rotated -2] intro: evolves_skip split: if_splits option.splits sum.splits)
qed

lemma bypass_loop_target_known:
  "bypass_loop p vis s t sk = Inr b \<Longrightarrow> validate_policy p \<Longrightarrow> known_phase p t \<Longrightarrow> known_phase p (bp_target b)"
proof (induction p vis s t sk rule: bypass_loop.induct)
  case (1 p vis s t sk)
  from "1.prems" show ?case
    by (subst (asm) bypass_loop.simps)
       (auto simp: Let_def dest!: "1.IH" [rotated -3] intro: resolve_next_phase_known split: if_splits option.splits sum.splits)
qed

lemma prepareE:
  assumes "prepare_phase_advance s t (Some p) timing = Inr (s1, t1)"
  obtains tb dt t' b where "tb = apply_cycle_timebox s t p timing"
    "dt = apply_development_timebox (td_state tb) (td_target tb) p timing"
    "t' = td_target dt \<or> t' = phase (td_state dt)" "bypass_loop p [] (td_state dt) t' [] = Inr b"
    "concluded_if_leaving_cycle (with_bypassed_cycle_timing b p timing (timing_started tb)) p = (s1, t1)"
proof -
  let ?tb = "apply_cycle_timebox s t p timing"
  let ?dt = "apply_development_timebox (td_state ?tb) (td_target ?tb) p timing"
  have "\<exists>t' b. (t' = td_target ?dt \<or> t' = phase (td_state ?dt)) \<and> bypass_loop p [] (td_state ?dt) t' [] = Inr b
    \<and> concluded_if_leaving_cycle (with_bypassed_cycle_timing b p timing (timing_started ?tb)) p = (s1, t1)"
    using assms by (auto simp: prepare_phase_advance_def resolve_exhausted_analysis_bypass_def Let_def split: if_splits) blast+
  then show thesis using that by blast
qed

lemma evolves_prepare:
  assumes "prepare_phase_advance s t (Some p) timing = Inr (s1, t1)" and "evolves p s0 s"
  shows "evolves p s0 s1"
  using assms(1)
proof (rule prepareE)
  fix tb dt t' b
  assume "tb = apply_cycle_timebox s t p timing"
    "dt = apply_development_timebox (td_state tb) (td_target tb) p timing" and
    b: "bypass_loop p [] (td_state dt) t' [] = Inr b" and
    out: "concluded_if_leaving_cycle (with_bypassed_cycle_timing b p timing (timing_started tb)) p = (s1, t1)"
  then have "evolves p s0 (td_state dt)"
    using evolves_development_timebox [OF evolves_cycle_timebox [OF assms(2)]] by simp
  from evolves_bypass_loop [OF b this] have "evolves p s0 (fst (with_bypassed_cycle_timing b p timing (timing_started tb)))"
    by (simp add: with_bypassed_cycle_timing_def Let_def evolves_start_cycle evolves_development_timebox evolves_cycle_timebox)
  from evolves_conclude [OF this] show ?thesis
    using out by (auto simp: concluded_if_leaving_cycle_def case_prod_unfold Let_def)
qed

lemma prepare_target_known:
  assumes "prepare_phase_advance s t (Some p) timing = Inr (s1, t1)" and "validate_policy p" and "known_phase p t"
    and "known_phase p (phase s)"
  shows "known_phase p t1"
  using assms(1)
proof (rule prepareE)
  fix tb dt t' b
  assume tb: "tb = apply_cycle_timebox s t p timing"
    and dt: "dt = apply_development_timebox (td_state tb) (td_target tb) p timing"
    and t': "t' = td_target dt \<or> t' = phase (td_state dt)" and b: "bypass_loop p [] (td_state dt) t' [] = Inr b"
    and out: "concluded_if_leaving_cycle (with_bypassed_cycle_timing b p timing (timing_started tb)) p = (s1, t1)"
  have "known_phase p t'"
    using t' assms(2-4) by (auto simp: tb dt phase_frame.view_development_timebox phase_frame.view_cycle_timebox
        intro!: development_target_known cycle_target_known)
  from bypass_loop_target_known [OF b assms(2) this]
  have "known_phase p (snd (with_bypassed_cycle_timing b p timing (timing_started tb)))"
    using assms(2) by (auto simp: with_bypassed_cycle_timing_def Let_def intro!: development_target_known cycle_target_known)
  then show ?thesis using out by (auto simp: concluded_if_leaving_cycle_def case_prod_unfold Let_def)
qed

section \<open>Every handler only evolves the state\<close>

text \<open>A result is fine from \<open>s0\<close> when it raises or returns a state evolved from \<open>s0\<close>.\<close>

definition fine :: "pipeline_policy \<Rightarrow> pstate \<Rightarrow> hres \<Rightarrow> bool" where
  "fine p s0 r = (\<forall>n effs. r = Inr (n, effs) \<longrightarrow> evolves p s0 n)"

lemma fine_Inr [intro]: "evolves p s0 n \<Longrightarrow> fine p s0 (Inr (n, effs))"
  by (simp add: fine_def)

lemma fine_Inl [simp, intro]: "fine p s0 (Inl e)"
  by (simp add: fine_def)

lemma fine_rbind: "(\<And>x. m = Inr x \<Longrightarrow> fine p s0 (f x)) \<Longrightarrow> fine p s0 (rbind m f)"
  by (auto simp: fine_def)

lemma fine_catch: "fine p s0 m \<Longrightarrow> (\<And>msg. fine p s0 (h msg)) \<Longrightarrow> fine p s0 (catch_value_error m h)"
  unfolding fine_def by blast

lemma fine_try: "(\<And>msg. fine p s0 (h msg)) \<Longrightarrow> (\<And>x. m = Inr x \<Longrightarrow> fine p s0 (k x)) \<Longrightarrow> fine p s0 (try_value m h k)"
  by (auto simp: fine_def try_value_def split: sum.splits py_exn.splits)

lemma fine_then:
  assumes "fine p s0 r" and "\<And>n effs. evolves p s0 n \<Longrightarrow> fine p s0 (f (n, effs))"
  shows "fine p s0 (rbind r f)"
proof (cases r)
  case (Inr x)
  then have "evolves p s0 (fst x)" using assms(1) by (cases x) (simp add: fine_def)
  from assms(2) [OF this, of "snd x"] show ?thesis using Inr by simp
qed simp

lemma evolves_execution_outcome:
  "apply_execution_cycle_outcome s adv p = Inr n \<Longrightarrow> evolves p s0 adv \<Longrightarrow> evolves p s0 n"
  by (auto simp: apply_execution_cycle_outcome_def same_core_def split: option.splits
      intro: evolves_core [OF evolves_loop_charge])

locale valid_run =
  fixes p :: pipeline_policy and s0 :: pstate
  assumes valid: "validate_policy p" and start_known: "phases_known p s0"
begin

lemma phase_known: "evolves p s0 s \<Longrightarrow> known_phase p (phase s)"
  using evolves_phases_known start_known unfolding phases_known_def by blast

lemma previous_known: "evolves p s0 s \<Longrightarrow> known_option p (previous_phase s)"
  using evolves_phases_known start_known unfolding phases_known_def by blast

lemma evolves_advance:
  assumes "evolves p s0 s" and "known_phase p t"
  shows "evolves p s0 (progress_advance_phase s t p)"
proof (rule evolves_core)
  show "evolves p s0 (s\<lparr>phase := t, previous_phase := Some (phase s)\<rparr>)"
    using assms phase_known [OF assms(1)] by (intro evolves_goto) auto
qed (simp add: progress_advance_phase_def same_core_def)

lemma prepared:
  assumes "prepare_phase_advance s t (Some p) timing = Inr (s1, t1)" and "evolves p s0 s" and "known_phase p t"
  shows "evolves p s0 s1" and "known_phase p t1" and "evolves p s0 (progress_advance_phase s1 t1 p)"
proof -
  show e: "evolves p s0 s1" using evolves_prepare assms(1,2) by blast
  show k: "known_phase p t1" using prepare_target_known assms valid phase_known by blast
  show "evolves p s0 (progress_advance_phase s1 t1 p)" by (rule evolves_advance [OF e k])
qed

lemma fine_failed:
  assumes "evolves p s0 s"
  shows "fine p s0 (enter_failed_recovery s why (Some p) cat)"
proof -
  let ?t = "failed_route (recovery p)"
  let ?ret = "or_else (if ?t \<noteq> phase s then Some (phase s) else previous_phase s) (entry_phase p)"
  have adv: "evolves p s0 (progress_advance_phase s ?t p)" by (intro evolves_advance assms route_intros)
  have "known_phase p ?ret"
    using phase_known [OF assms] previous_known [OF assms] valid
    by (cases "previous_phase s") (auto intro: route_intros)
  then have "evolves p s0 ((progress_advance_phase s ?t p)\<lparr>phase := ?ret, previous_phase := previous_phase s\<rparr>)"
    by (intro evolves_goto adv previous_known assms)
  then show ?thesis
    using adv unfolding enter_failed_recovery_def Let_def
    by (auto intro!: fine_rbind fine_Inr elim!: evolves_execution_outcome elim: evolves_core simp: same_core_def)
qed

lemma evolves_failed: "enter_failed_recovery s why (Some p) cat = Inr (n, effs) \<Longrightarrow> evolves p s0 s \<Longrightarrow> evolves p s0 n"
  using fine_failed unfolding fine_def by blast

lemma fine_to_failed: "evolves p s0 s \<Longrightarrow> fine p s0 (advance_to_failed s why (Some p))"
  by (simp add: advance_to_failed_def fine_failed)

lemma fine_advance:
  assumes "evolves p s0 s" and "known_phase p t"
  shows "fine p s0 (advance_phase s t (Some p) timing)"
  unfolding advance_phase_def
  by (auto simp: Let_def keep_commit_retry_def same_core_def intro!: fine_rbind fine_Inr
      intro: prepared [OF _ assms] evolves_core [OF prepared(3) [OF _ assms]])

lemma fine_resolve:
  assumes "evolves p s0 s"
  shows "fine p s0 (resolve_or_terminal s sig p label timing)"
  unfolding resolve_or_terminal_def
proof (rule fine_try)
  fix t
  assume "resolve_next_phase (phase s) sig p = Inr t"
  then have t: "known_phase p t" by (rule resolve_next_phase_known)
  show "fine p s0 (rbind (prepare_phase_advance s t (Some p) timing) (\<lambda>(s1, t1).
          let n = progress_advance_phase s1 t1 p
          in Inr (if sig = ''success'' \<and> should_preserve_commit_retry s t1 p then keep_commit_retry s n
                  else if sig = ''loopback'' \<and> phase_role_is p (phase s) Commit_cleanup
                          \<and> phase_role_is p t1 Commit_cleanup
                    then n\<lparr>recovery_epoch := recovery_epoch s, last_error := last_error s\<rparr>
                  else n, [])))"
    by (auto simp: Let_def keep_commit_retry_def same_core_def intro!: fine_rbind fine_Inr
        intro: prepared [OF _ assms t] evolves_core [OF prepared(3) [OF _ assms t]])
qed (rule fine_to_failed [OF assms])

lemma fine_redirect:
  assumes "redirect_expired_cycle_in_place s (Some p) timing = Some r" and "evolves p s0 s"
  shows "fine p s0 r"
  using assms valid phase_known [OF assms(2)]
  by (auto simp: redirect_expired_cycle_in_place_def Let_def split: option.splits if_splits
      intro!: fine_advance evolves_development_timebox evolves_cycle_timebox development_target_known cycle_target_known)

lemma fallback_known: "workflow_fallback_target d p = Some t \<Longrightarrow> known_phase p t"
  by (auto simp: workflow_fallback_target_def known_phase_def split: option.splits if_splits)

lemma fine_exhausted:
  assumes "evolves p s0 s"
  shows "fine p s0 (handle_chain_exhausted s chain (Some p) timing cat why)"
  unfolding handle_chain_exhausted_def
  by (auto simp: Let_def split: option.split
      intro!: fine_rbind fine_Inr fine_failed [OF assms] dest: fallback_known
      elim!: evolves_execution_outcome intro: prepared(3) [OF _ assms])

lemma fine_unowned:
  assumes "evolves p s0 s"
  shows "fine p s0 (handle_unowned_agent_failure s (Some p) timing cat)"
  unfolding handle_unowned_agent_failure_def fail_closed_without_owner_def
  by (auto split: option.split intro: fine_failed [OF assms] fine_exhausted [OF assms] fine_redirect [OF _ assms])

lemma fine_phase_failure:
  assumes "evolves p s0 s"
  shows "fine p s0 (handle_phase_failure s e (Some p) timing)"
proof -
  have core: "evolves p s0 (s\<lparr>last_error := x, agent_retry_intent := i\<rparr>)" for x i
    by (rule evolves_core [OF assms]) (simp add: same_core_def)
  have err: "evolves p s0 ((progress_advance_phase s1 t1 p)\<lparr>last_error := x\<rparr>)"
    if "prepare_phase_advance s t (Some p) timing = Inr (s1, t1)" "known_phase p t" for s1 t t1 x
    by (rule evolves_core [OF prepared(3) [OF that(1) assms that(2)]]) (simp add: same_core_def)
  show ?thesis
    unfolding handle_phase_failure_def Let_def
    by (auto split: option.split intro!: fine_rbind fine_Inr fine_failed [OF assms] fine_unowned core
        dest: fallback_known elim!: evolves_execution_outcome intro: err)
qed

lemma fine_agent_retry:
  assumes "evolves p s0 s"
  shows "fine p s0 (handle_agent_retry s (Some p) timing)"
  unfolding handle_agent_retry_def
  by (auto simp: enter_failed_recovery_def with_phase_chain_def same_core_def split: option.split
      intro!: fine_Inr evolves_core [OF assms] intro: fine_redirect [OF _ assms])

lemma evolves_stamp: "evolves p s0 s \<Longrightarrow> evolves p s0 (stamp_outcome out s)"
  by (erule evolves_core) (simp add: stamp_outcome_def same_core_def)

lemma outer_stamp: "outer_progress (stamp_outcome out s) = outer_progress s"
  by (simp add: stamp_outcome_def)

lemma evolves_budget_increment:
  "evolves p s0 adv \<Longrightarrow> outer_progress adv = outer_progress s \<Longrightarrow> evolves p s0 (apply_budget_counter_increment s adv counter)"
  using evolves_outer [of p s0 adv]
  by (auto simp: apply_budget_counter_increment_def get_outer_progress_def split: option.split)

lemma advance_keeps_outer:
  "advance_phase s t (Some p) timing = Inr (n, effs) \<Longrightarrow> outer_progress n = outer_progress s"
  by (auto simp: advance_phase_def Let_def progress_advance_phase_def keep_commit_retry_def
      dest!: outer_frame.view_prepare split: if_splits)

lemma fine_analysis_success:
  assumes "evolves p s0 s"
  shows "fine p s0 (handle_analysis_success s (Some p) timing)"
proof -
  have fin: "evolves p s0 (apply_budget_counter_increment s (apply_analysis_success st n p) counter)"
    if "advance_phase st t (Some p) timing = Inr (n, effs)" "evolves p s0 n" "outer_progress st = outer_progress s"
    for st n t effs counter
  proof (rule evolves_budget_increment)
    show "evolves p s0 (apply_analysis_success st n p)"
      unfolding apply_analysis_success_def Let_def
      using evolves_core [OF that(2), of "n\<lparr>review_outcome := None\<rparr>"]
      by (auto simp: same_core_def intro: evolves_loop_reset split: option.split)
    show "outer_progress (apply_analysis_success st n p) = outer_progress s"
      using advance_keeps_outer [OF that(1)] that(3)
      by (simp add: apply_analysis_success_def with_loop_iteration_def Let_def split: option.split)
  qed
  have adv: "evolves p s0 n" if "advance_phase (stamp_outcome out s) t (Some p) timing = Inr (n, effs)" "known_phase p t" for out t n effs
    using fine_advance [OF evolves_stamp [OF assms] that(2)] that(1) by (auto simp: fine_def)
  show ?thesis
    unfolding handle_analysis_success_def Let_def
    by (auto intro!: fine_catch fine_rbind fine_Inr fine_to_failed [OF assms] fin intro: adv
        dest!: resolve_next_phase_known simp: outer_stamp)
qed

lemma fine_agent_success:
  assumes "evolves p s0 s"
  shows "fine p s0 (handle_agent_success s (Some p) timing)"
proof -
  let ?s = "if 0 < last_retry_delay_ms s then s\<lparr>last_retry_delay_ms := 0\<rparr> else s"
  have e: "evolves p s0 ?s" by (rule evolves_core [OF assms]) (simp add: same_core_def)
  then have "evolves p s0 (?s\<lparr>commit := c\<rparr>)" for c by (rule evolves_core) (simp add: same_core_def)
  then show ?thesis
    unfolding handle_agent_success_def Let_def using e
    by (simp split: option.split) (auto intro: fine_to_failed fine_analysis_success fine_resolve)
qed

lemma fine_execution_result:
  assumes "evolves p s0 s"
  shows "fine p s0 (handle_execution_result s ph st (Some p) timing)"
proof -
  have "evolves p s0 (s\<lparr>post_commit_phase_override := x, last_execution_result_status := y\<rparr>)" for x y
    by (rule evolves_core [OF assms]) (simp add: same_core_def)
  then show ?thesis
    unfolding handle_execution_result_def
    by (auto split: option.split intro: fine_to_failed [OF assms] fine_resolve)
qed

lemma evolves_analysis_loopback:
  assumes "evolves p s0 s" and "resolve_analysis_cap f p = Inr cap"
  shows "evolves p s0 (apply_analysis_loopback s s f cap out inc)"
  using assms(1) evolves_loop_charge [OF assms]
  by (simp add: apply_analysis_loopback_def Let_def evolves_set)

lemma fine_capped_loopback:
  assumes "evolves p s0 s"
  shows "fine p s0 (handle_capped_phase_loopback s p lp out timing)"
  unfolding handle_capped_phase_loopback_def Let_def
  by (intro fine_rbind fine_try fine_to_failed fine_advance evolves_analysis_loopback assms)
     (auto dest: resolve_next_phase_known)

lemma fine_analysis_loopback: "evolves p s0 s \<Longrightarrow> fine p s0 (handle_analysis_loopback s (Some p) timing)"
  by (auto simp: handle_analysis_loopback_def split: option.split
      intro: fine_to_failed fine_resolve fine_capped_loopback)

lemma fine_phase_loopback: "evolves p s0 s \<Longrightarrow> fine p s0 (handle_phase_loopback s (Some p) timing)"
  by (auto simp: handle_phase_loopback_def split: option.split
      intro: fine_to_failed fine_resolve fine_capped_loopback)

lemma outer_loopback: "outer_progress (apply_analysis_loopback s n f cap out inc) = outer_progress n"
  by (simp add: apply_analysis_loopback_def with_loop_iteration_def Let_def)

lemma outer_reset: "outer_progress (with_loop_iteration f v n) = outer_progress n"
  by (simp add: with_loop_iteration_def)

lemma evolves_account:
  assumes "account_decision s ph d r p = Inr n" and "evolves p s0 s"
  shows "evolves p s0 n"
  using assms(1) unfolding account_decision_def
  by (auto simp: Let_def outer_loopback outer_reset split: option.splits if_split_asm
      intro!: evolves_set evolves_budget_increment evolves_loop_reset evolves_analysis_loopback assms(2))

lemma restore_frame: "evolves p s0 n \<Longrightarrow> evolves p s0 s \<Longrightarrow> restore_work_units s n = n"
  by (simp add: restore_work_units_def evolves_frame)

lemma evolves_restore: "evolves p s0 n \<Longrightarrow> evolves p s0 s \<Longrightarrow> evolves p s0 (restore_work_units s n)"
  by (simp add: restore_frame)

lemma fine_restored: "fine p s0 r \<Longrightarrow> evolves p s0 s \<Longrightarrow> fine p s0 (restored s r)"
  unfolding restored_def by (auto intro!: fine_then fine_Inr simp: restore_frame)

lemma fine_analysis_decision:
  assumes "evolves p s0 s"
  shows "fine p s0 (handle_analysis_decision s ph dec (Some p) timing)"
proof -
  have "evolves p s0 (restore_work_units s (progress_advance_phase s1 t1 p))"
    if "account_decision s ph d r p = Inr ps" "prepare_phase_advance ps t (Some p) timing = Inr (s1, t1)"
      "din t (phases p)" for d r ps t s1 t1
    using prepared(3) [OF that(2) evolves_account [OF that(1) assms]] that(3)
    by (auto simp: restore_frame assms known_phase_def)
  then show ?thesis
    unfolding handle_analysis_decision_def
    by (auto split: option.split
        intro!: fine_to_failed [OF assms] fine_rbind fine_Inr fine_failed intro: evolves_account [OF _ assms])
qed

lemma fine_clear_review: "fine p s0 r \<Longrightarrow> fine p s0 (clear_review r out)"
  unfolding clear_review_def by (auto intro!: fine_then fine_Inr evolves_set)

lemma fine_review_clean:
  assumes "evolves p s0 s"
  shows "fine p s0 (handle_review_clean s (Some p) timing)"
  unfolding handle_review_clean_def
  by (auto split: option.split intro!: fine_clear_review fine_resolve fine_advance assms intro: route_intros valid)

lemma fine_review_issues_found:
  "evolves p s0 s \<Longrightarrow> fine p s0 (handle_review_issues_found s (Some p) timing)"
  by (auto simp: handle_review_issues_found_def split: option.split
      intro!: fine_clear_review fine_resolve fine_to_failed)

lemma fine_fix_success: "evolves p s0 s \<Longrightarrow> fine p s0 (handle_fix_success s (Some p) timing)"
  by (simp add: handle_fix_success_def fine_resolve)

lemma fine_fix_failure:
  assumes "evolves p s0 s"
  shows "fine p s0 (handle_fix_failure s (Some p) timing)"
  unfolding handle_fix_failure_def
  by (auto intro!: fine_catch fine_rbind fine_failed fine_to_failed fine_advance assms simp: known_phase_def)

lemma fine_phase_advance: "evolves p s0 s \<Longrightarrow> fine p s0 (handle_phase_advance s (Some p) timing)"
  by (simp add: handle_phase_advance_def fine_resolve)

lemma fine_complete: "evolves p s0 s \<Longrightarrow> fine p s0 (handle_complete s (Some p) timing)"
  by (simp add: handle_complete_def terminal_success_route_def fine_advance route_intros)

lemma fine_handle_failed: "evolves p s0 s \<Longrightarrow> fine p s0 (handle_failed s (Some p))"
  by (simp add: handle_failed_def fine_failed)

lemma fine_all_workers_complete:
  "evolves p s0 s \<Longrightarrow> fine p s0 (handle_all_workers_complete s (Some p) timing)"
  unfolding handle_all_workers_complete_def Let_def
  by (auto intro!: fine_catch fine_rbind fine_failed fine_to_failed fine_advance dest: resolve_next_phase_known)

lemma fine_fan_out:
  assumes "evolves p s0 s"
  shows "fine p s0 (pure_result (handle_fan_out_started s))"
    and "fine p s0 (pure_result (handle_workers_resumed s))"
    and "fine p s0 (pure_result (handle_worker_started s u now))"
    and "fine p s0 (pure_result (handle_worker_completed s u code now))"
    and "fine p s0 (pure_result (handle_worker_failed s u code err now))"
    and "fine p s0 (pure_result (handle_checkpoint_saved s))"
    and "fine p s0 (pure_result (handle_interrupted s))"
  using assms
  by (auto simp: pure_result_def handle_fan_out_started_def handle_workers_resumed_def handle_worker_started_def
      handle_worker_completed_def handle_worker_failed_def handle_checkpoint_saved_def handle_interrupted_def
      with_fan_out_decision_def set_worker_def split: option.split intro!: fine_Inr evolves_set)

lemma evolves_gate:
  assumes "apply_invocation_gate s next p = (t, g, adm)" and "evolves p s0 s" and "known_phase p next"
  shows "evolves p s0 g" and "known_phase p t"
  using assms
  by (auto simp: apply_invocation_gate_def evolves_stamp known_on_success valid split: option.splits if_splits)

lemma evolves_charge_gate: "charge_analysis_cycle_for_gate s ph p = Inr n \<Longrightarrow> evolves p s0 s \<Longrightarrow> evolves p s0 n"
  by (auto simp: charge_analysis_cycle_for_gate_def split: option.splits intro!: evolves_set evolves_loop_charge)

lemma fine_through_gate:
  assumes "evolves p s0 s" and "known_phase p next"
  shows "fine p s0 (advance_through_invocation_gate s next p timing)"
proof -
  obtain t g adm where g: "apply_invocation_gate s next p = (t, g, adm)" by (cases "apply_invocation_gate s next p")
  note e = evolves_gate [OF g assms]
  show ?thesis
    unfolding advance_through_invocation_gate_def g
    by (simp, rule fine_then) (auto split: option.split intro!: fine_advance fine_rbind fine_Inr evolves_set e
        elim!: evolves_charge_gate)
qed

lemma reset_loops_effects:
  "evolves p s0 s \<Longrightarrow> evolves p s0 (reset_loops fs s)" "outer_progress (reset_loops fs s) = outer_progress s"
  unfolding reset_loops_def by (induction fs arbitrary: s) (auto simp: outer_reset evolves_loop_reset)

lemma evolves_charge_outer:
  "evolves p s0 n \<Longrightarrow> outer_progress n = outer_progress s \<Longrightarrow> evolves p s0 (with_outer_progress c (get_outer_progress s c + 1) n)"
  using evolves_outer [of p s0 n c] by (simp add: get_outer_progress_def)

lemma evolves_commit_outcome:
  "evolves p s0 s \<Longrightarrow> evolves p s0 (apply_commit_outcome s s skipped p)"
  by (auto simp: apply_commit_outcome_def apply_lifecycle_completion_policy_def apply_commit_outcome_policy_driven_def
      Let_def reset_loops_effects(2) split: option.split intro!: evolves_set evolves_charge_outer reset_loops_effects(1))

lemma match_routes_known: "match_routes ph bs outs (post_commit_routes p) = Some t \<Longrightarrow> known_phase p t"
  by (induction outs)
     (auto split: option.splits dest!: find_member intro: known_post_commit_target valid)

lemma post_commit_known: "resolve_post_commit_phase s p = Inr t \<Longrightarrow> known_phase p t"
  by (auto simp: resolve_post_commit_phase_def known_phase_def [of p t]
      split: option.splits if_splits dest!: resolve_next_phase_known match_routes_known)

lemma fine_commit_outcome:
  assumes "evolves p s0 s"
  shows "fine p s0 (handle_commit_outcome label skipped s (Some p) timing)"
  unfolding handle_commit_outcome_def Let_def consume_post_commit_phase_override_def
  by (auto intro!: fine_catch fine_rbind fine_advance fine_through_gate fine_to_failed evolves_set evolves_commit_outcome assms
      dest: post_commit_known)

lemma fine_residual: "evolves p s0 s \<Longrightarrow> fine p s0 (handle_commit_residual s (Some p) timing)"
  by (simp add: handle_commit_residual_def fine_advance phase_known)

lemma recovery_phase_known: "resolve_commit_recovery_phase s p = Some t \<Longrightarrow> known_phase p t"
  by (auto simp: resolve_commit_recovery_phase_def known_phase_def din_iff dkeys_def simp del: find.simps
      dest!: find_member split: option.splits intro: rev_image_eqI)

lemma evolves_previous: "evolves p s0 n \<Longrightarrow> evolves p s0 s \<Longrightarrow> evolves p s0 (n\<lparr>previous_phase := previous_phase s\<rparr>)"
  using evolves_goto [of p s0 n "phase n" "previous_phase s"] phase_known [of n] previous_known [of s] by simp

lemma evolves_retry_state:
  assumes "prepare_phase_advance cl t (Some p) timing = Inr (s1, t1)" and "evolves p s0 cl" and "known_phase p t"
  shows "evolves p s0 (commit_retry_state s cl p t1 why s1)"
  unfolding commit_retry_state_def by (intro evolves_set prepared(3) [OF assms])

lemma fine_lock_contention:
  assumes "route_lock_contention_in_place s cl p err why timing = Some r" and "evolves p s0 s" and "evolves p s0 cl"
  shows "fine p s0 r"
proof -
  have "evolves p s0 (progress_advance_phase s1 t1 p)"
    if "prepare_phase_advance cl (phase cl) (Some p) timing = Inr (s1, t1)" for s1 t1
    by (rule prepared(3) [OF that assms(3) phase_known [OF assms(3)]])
  with assms(1,2) show ?thesis
    by (auto simp: route_lock_contention_in_place_def Let_def split: if_split_asm
        intro!: fine_rbind fine_Inr evolves_previous evolves_set)
qed

lemma fine_repairable:
  assumes "evolves p s0 s" and "evolves p s0 cl"
  shows "fine p s0 (handle_repairable_commit_failure s cl p err timing)"
proof -
  have "known_phase p t" if "recoverable_git_failure_default_target cl p err = Some t" for t
    using that phase_known [OF assms(2)] by (auto simp: recoverable_git_failure_default_target_def split: if_splits)
  then show ?thesis
    unfolding handle_repairable_commit_failure_def Let_def
    by (auto split: option.split dest!: recovery_phase_known
        intro!: fine_rbind fine_Inr fine_failed evolves_set evolves_previous assms
        intro: fine_lock_contention [OF _ assms] evolves_retry_state [OF _ assms(2)] evolves_failed [OF _ assms(2)])
qed

lemma fine_commit_failure:
  "evolves p s0 s \<Longrightarrow> fine p s0 (handle_commit_failure recorded s (Some p) timing)"
  unfolding handle_commit_failure_def Let_def
  by (auto intro!: fine_repairable fine_failed evolves_set)

lemma fine_run_handler:
  assumes "run_handler ev recorded s (Some p) timing = Some r" and "evolves p s0 s"
  shows "fine p s0 r"
  using assms
  by (cases ev)
     (auto simp: run_handler_def handle_commit_success_def handle_commit_skipped_def
       intro: fine_agent_success fine_unowned fine_agent_retry fine_analysis_success fine_analysis_loopback
         fine_phase_loopback fine_review_clean fine_review_issues_found fine_fix_success fine_fix_failure
         fine_commit_outcome fine_residual fine_commit_failure fine_fan_out fine_complete fine_handle_failed
         fine_phase_advance fine_all_workers_complete fine_Inr)

end

text \<open>The recovery controller works for the run's own policy.\<close>

definition serves :: "pipeline_policy \<Rightarrow> controller \<Rightarrow> bool" where
  "serves p ctl = (case ctl_bundle ctl of None \<Rightarrow> False | Some b \<Rightarrow> bundle_pipeline b = p)"

lemma serves_same: "same_health c ctl ctl' \<Longrightarrow> serves p ctl \<Longrightarrow> serves p ctl'"
  by (simp add: serves_def same_healthD)

definition pfine :: "pipeline_policy \<Rightarrow> pstate \<Rightarrow> progression res \<Rightarrow> bool" where
  "pfine p s0 r = (\<forall>ctl n effs evt. r = Inr (ctl, n, effs, evt) \<longrightarrow> evolves p s0 n \<and> serves p ctl)"

lemma pfine_Inr [intro]: "evolves p s0 n \<Longrightarrow> serves p ctl \<Longrightarrow> pfine p s0 (Inr (ctl, n, effs, evt))"
  by (simp add: pfine_def)

lemma pfine_then:
  assumes "pfine p s0 r" and "\<And>ctl n effs evt. evolves p s0 n \<Longrightarrow> serves p ctl \<Longrightarrow> pfine p s0 (f (ctl, n, effs, evt))"
  shows "pfine p s0 (rbind r f)"
proof (cases r)
  case (Inr x)
  then have "evolves p s0 (fst (snd x)) \<and> serves p (fst x)" using assms(1) by (cases x) (simp add: pfine_def)
  with assms(2) [of "fst (snd x)" "fst x" "fst (snd (snd x))" "snd (snd (snd x))"] show ?thesis using Inr by simp
qed (simp add: pfine_def)

text \<open>Results that carry a world: the state evolves and the controller keeps serving the policy.\<close>

definition world_ok :: "pipeline_policy \<Rightarrow> world \<Rightarrow> bool" where
  "world_ok p w = (\<forall>ctl. w_recovery w = Some ctl \<longrightarrow> serves p ctl)"

definition wfine :: "pipeline_policy \<Rightarrow> pstate \<Rightarrow> wres \<Rightarrow> bool" where
  "wfine p s0 r = (\<forall>w n effs. r = Inr (w, n, effs) \<longrightarrow> evolves p s0 n \<and> world_ok p w)"

definition cfine :: "pipeline_policy \<Rightarrow> pstate \<Rightarrow> cres \<Rightarrow> bool" where
  "cfine p s0 r = (\<forall>ctl n effs. r = Inr (ctl, n, effs) \<longrightarrow> evolves p s0 n \<and> serves p ctl)"

lemma preferred_serves:
  "preferred_agent_index c ctl ph ags cur sp = (ctl', sel) \<Longrightarrow> serves p ctl \<Longrightarrow> serves p ctl'"
  using availability_rows_spec [of c "register_phase_chain ph ags ctl" ph cur sp 0 ags]
  by (auto simp: preferred_agent_index_def split: prod.splits intro: serves_same [OF same_health_trans [OF same_health_register]])

lemma now_available_serves: "serves p ctl \<Longrightarrow> serves p (fst (agents_now_available c ctl ph ags))"
  by (induction ags arbitrary: ctl)
     (simp_all add: is_agent_available_eq Let_def case_prod_unfold serves_same [OF same_health_read])

context valid_run
begin

lemma pfine_cap_exit: "evolves p s0 s \<Longrightarrow> serves p ctl \<Longrightarrow> pfine p s0 (cap_exit ctl failure s effs evt)"
  by (auto simp: cap_exit_def pfine_def evolves_set)

lemma evolves_phase_failed:
  assumes "enter_phase_failed ctl s why k = (ctl', n)" and "evolves p s0 s" and "serves p ctl"
  shows "evolves p s0 n" and "serves p ctl'"
proof -
  from assms(3) obtain b where b: "ctl_bundle ctl = Some b" "bundle_pipeline b = p"
    by (auto simp: serves_def split: option.splits)
  show "evolves p s0 n"
    using assms(1) evolves_advance [OF assms(2) known_failed_route]
    by (auto simp: enter_phase_failed_def b Let_def intro!: evolves_set)
  show "serves p ctl'" using assms(1) by (auto simp: enter_phase_failed_def b serves_def Let_def)
qed

lemma evolves_cycle_count: "evolves p s0 s \<Longrightarrow> evolves p s0 (s\<lparr>recovery_cycle_count := Suc (recovery_cycle_count s)\<rparr>)"
  using evolves_step [OF _ cycle] by simp

lemma pfine_fail_sole:
  "evolves p s0 s \<Longrightarrow> serves p ctl \<Longrightarrow> pfine p s0 (fail_sole_agent ctl s failure why evt)"
  by (auto simp: fail_sole_agent_def split: prod.split
      intro!: pfine_cap_exit elim!: evolves_phase_failed [OF _ evolves_cycle_count])

lemma pfine_give_up:
  assumes "evolves p s0 s" and "serves p ctl"
  shows "pfine p s0 (give_up c ctl s failure ph chain evt)"
  using serves_same [OF exhaustion_reason_same assms(2), of c ph chain failure] assms(1)
  by (auto simp: give_up_def split: prod.splits intro!: pfine_cap_exit elim!: evolves_phase_failed [OF _ evolves_cycle_count])

lemma evolves_fallover: "evolves p s0 s \<Longrightarrow> evolves p s0 (with_fallover_record r s)"
  by (blast intro: evolves_step fallover)

lemma evolves_waiting:
  "evolves p s0 s \<Longrightarrow> evolves p s0 (set_waiting why t s)" "evolves p s0 s \<Longrightarrow> evolves p s0 (clear_waiting s)"
  by (simp_all add: set_waiting_def clear_waiting_def evolves_set)

lemma evolves_chain: "evolves p s0 s \<Longrightarrow> evolves p s0 (with_phase_chain ph ch s)"
  by (simp add: with_phase_chain_def evolves_set)

lemma pfine_progression:
  assumes "evolves p s0 s" and "serves p ctl"
  shows "pfine p s0 (handle_retry_progression c utc ctl s failure ph ag in_session evt)"
proof (cases "chain_for_phase s ph")
  case None
  then show ?thesis using assms by (auto simp: handle_retry_progression_def)
next
  case (Some chain)
  then show ?thesis
  proof (cases rule: progression_cases [where c = c and ctl = ctl and utc = utc and failure = failure and ag = ag
        and in_session = in_session and evt = evt])
    case (retry i ctl1 s1)
    then show ?thesis using serves_same [OF retry(2) assms(2)] assms(1) by (auto intro!: evolves_set evolves_chain)
  next
    case (fallover i ctl1)
    then show ?thesis
      using serves_same [OF fallover(3) assms(2)] assms(1)
      by (auto simp: fall_over_def Let_def serves_def intro!: evolves_fallover evolves_set evolves_chain)
  next
    case (wait ctl1)
    then show ?thesis
      using serves_same [OF wait(4) assms(2)] assms(1)
      by (auto simp: wait_for_cooldown_def Let_def serves_def intro!: evolves_waiting evolves_set)
  next
    case (exhausted ctl1)
    then show ?thesis using pfine_give_up [OF assms(1) serves_same [OF exhausted(3) assms(2)]] by simp
  qed
qed

lemma evolves_notes:
  assumes "evolves p s0 s"
  shows "evolves p s0 (note_failure ctl failure ctx s)" and "evolves p s0 (session_after failure b s)"
    and "evolves p s0 (snd (note_unavailable c ctl s failure ph ag))"
  using assms
  by (auto simp: note_failure_def session_after_def note_unavailable_def split: option.split
      intro!: evolves_waiting evolves_set)

lemma pfine_route:
  assumes "evolves p s0 s" and "serves p ctl"
  shows "pfine p s0 (route_agent_failure c utc ctl s failure ctx evt)"
  unfolding route_agent_failure_def
  by (rule pfine_then [OF pfine_progression]) (auto simp: serves_def assms intro!: evolves_notes pfine_cap_exit
      assms [unfolded serves_def])

lemma pfine_classified:
  assumes "evolves p s0 s" and "serves p ctl"
  shows "pfine p s0 (handle_classified_failure c utc ctl s failure ctx changed ok)"
proof -
  let ?ph = "ctx_phase ctx" and ?ag = "ctx_agent ctx"
  let ?s1 = "note_failure ctl failure ctx s"
  obtain ctl1 sole where r: "record_failed_attempt c (publish (Failure_published (classified_event utc ctl s failure ctx)) ctl)
      ?ph (acting_agent ?ag (chain_for_phase s ?ph)) failure (chain_for_phase s ?ph) changed ok = (ctl1, sole)" by force
  have b: "ctl_bundle ctl1 = ctl_bundle ctl"
    using record_failed_attempt_keeps(2) [of c "publish (Failure_published (classified_event utc ctl s failure ctx)) ctl"] r
    by (metis fst_conv publish_simps(2))
  then have s1: "serves p ctl1" using assms(2) by (simp add: serves_def)
  obtain ctl2 s2 where u: "note_unavailable c ctl1 ?s1 failure ?ph ?ag = (ctl2, s2)" by force
  have e1: "evolves p s0 ?s1" by (rule evolves_notes(1) [OF assms(1)])
  have s2: "serves p ctl2" "evolves p s0 s2"
    using note_unavailable_keeps(2) [of c ctl1 ?s1 failure ?ph ?ag] s1
      evolves_notes(3) [OF e1, of c ctl1 failure ?ph ?ag] u
    by (simp_all add: serves_def)
  show ?thesis
    unfolding handle_classified_failure_def Let_def r u prod.case
    by (auto split: option.split prod.split intro!: pfine_fail_sole pfine_progression pfine_route evolves_set
        evolves_notes assms(1) s1 s2 elim: evolves_phase_failed [OF _ s2(2,1)])
qed

lemma pfine_handle:
  assumes "evolves p s0 s" and "serves p ctl"
  shows "pfine p s0 (handle classify c utc ctl s raw ctx changed ok)"
  using assms
  by (auto simp: handle_def Let_def handle_integration_continuation_def serves_def
      intro!: pfine_classified evolves_waiting evolves_set)

lemma wfine_keep: "fine p s0 r \<Longrightarrow> world_ok p w \<Longrightarrow> wfine p s0 (keep_world w r)"
  by (auto simp: wfine_def keep_world_def fine_def)

lemma cfine_keep: "fine p s0 r \<Longrightarrow> serves p ctl \<Longrightarrow> cfine p s0 (keep_controller ctl r)"
  by (auto simp: cfine_def keep_controller_def fine_def)

lemma wfine_after_recovery:
  assumes "pfine p s0 r" and "evolves p s0 s"
  shows "wfine p s0 (after_recovery w s (Some p) r)"
  using assms
  by (auto simp: wfine_def after_recovery_def pfine_def world_ok_def split: if_split_asm
      intro!: evolves_restore elim: evolves_execution_outcome)

lemma evolves_retry_or_fall_over: "retry_or_fall_over s chain sel = Some n \<Longrightarrow> evolves p s0 s \<Longrightarrow> evolves p s0 n"
  by (auto simp: retry_or_fall_over_def split: if_split_asm option.splits
      intro!: evolves_waiting evolves_set evolves_chain)

lemma selection_attempt_ok:
  assumes "selection_attempt c ctl s chain sel = (ctl', attempt)" and "serves p ctl" and "evolves p s0 s"
  shows "serves p ctl'" and "attempt = Some n \<Longrightarrow> evolves p s0 n"
proof -
  obtain ctl1 av where a: "agents_now_available c ctl (phase s) (agents chain) = (ctl1, av)" by force
  obtain ctl2 w where e: "earliest_available_wait_ms c ctl1 (phase s) (agents chain) = (ctl2, w)" by force
  have s1: "serves p ctl1" using now_available_serves [OF assms(2), of c "phase s" "agents chain"] a by simp
  have s2: "serves p ctl2"
    using earliest_available_wait_ms_spec(1) [of c ctl1 "phase s" "agents chain"] serves_same [OF _ s1] e by simp
  show "serves p ctl'"
    using assms(1,2) s1 s2
    by (auto simp: selection_attempt_def all_agents_unavailable_wait_state_def Let_def a e split: option.splits if_split_asm)
  show "evolves p s0 n" if "attempt = Some n"
    using assms(1,3) that
    by (auto simp: selection_attempt_def all_agents_unavailable_wait_state_def Let_def a e
        split: option.splits if_split_asm intro!: evolves_waiting evolves_set elim: evolves_retry_or_fall_over)
qed

lemma cfine_selection:
  assumes "evolves p s0 s" and "serves p ctl" and "fine p s0 r"
  shows "cfine p s0 (let (ctl1, sel) = preferred_agent_index c ctl (phase s) (agents chain) cur sp;
      (ctl2, attempt) = selection_attempt c ctl1 s chain sel
    in case attempt of Some s' \<Rightarrow> Inr (ctl2, s', []) | None \<Rightarrow> keep_controller ctl2 r)"
proof -
  obtain ctl1 sel where p1: "preferred_agent_index c ctl (phase s) (agents chain) cur sp = (ctl1, sel)" by force
  obtain ctl2 attempt where p2: "selection_attempt c ctl1 s chain sel = (ctl2, attempt)" by force
  note ok = selection_attempt_ok [OF p2 preferred_serves [OF p1 assms(2)] assms(1)]
  show ?thesis
    unfolding p1 p2 Let_def prod.case using ok cfine_keep [OF assms(3)]
    by (auto split: option.split simp: cfine_def)
qed

lemma cfine_skip:
  assumes "evolves p s0 s" and "serves p ctl"
  shows "cfine p s0 (handle_skip_same_agent_retries c ctl s chain (Some p))"
proof -
  have "serves p (note_retry_exhaustion (phase s) ag ctl)" for ag
    using assms(2) by (simp add: serves_def note_retry_exhaustion_def)
  then show ?thesis
    unfolding handle_skip_same_agent_retries_def
    using cfine_selection [OF assms(1) _ fine_failed [OF assms(1)]] by (simp add: Let_def cfine_def [of p s0 "Inl e" for e])
qed

lemma cfine_owned:
  assumes "evolves p s0 s" and "serves p ctl"
  shows "cfine p s0 (handle_owned_agent_failure c ctl s chain (Some p) timing cat ev)"
proof -
  obtain ctl1 demotion where ch: "charge_failed_attempt c ctl s chain ev = (ctl1, demotion)" by force
  have "ctl_bundle ctl1 = ctl_bundle ctl"
    using ch record_attempt_fact_keeps(2)
    by (auto simp: charge_failed_attempt_def Let_def split: option.splits if_split_asm) (metis fst_conv)+
  then have s1: "serves p ctl1" using assms(2) by (simp add: serves_def)
  show ?thesis
    unfolding handle_owned_agent_failure_def ch
    using cfine_selection [OF assms(1) s1 fine_exhausted [OF assms(1)]] cfine_keep [OF fine_failed [OF assms(1)] s1]
    by (auto simp: Let_def cfine_skip assms split: option.split)
qed

lemma cfine_agent_failure:
  assumes "evolves p s0 s" and "serves p ctl"
  shows "cfine p s0 (handle_agent_failure c ctl s (Some p) timing cat ev)"
  unfolding handle_agent_failure_def
  by (auto split: option.split intro!: cfine_keep cfine_owned assms fine_failed [OF assms(1)]
      intro: fine_redirect [OF _ assms(1)])

lemma world_recovery: "world_ok p w \<Longrightarrow> w_recovery w = Some ctl \<Longrightarrow> serves p ctl"
  by (simp add: world_ok_def)

lemma wfine_phase_failure:
  assumes "evolves p s0 s" and "world_ok p w"
  shows "wfine p s0 (reduce_phase_failure classify w s e (Some p) timing)"
  unfolding reduce_phase_failure_def
  by (auto split: option.split intro!: wfine_keep wfine_after_recovery pfine_handle fine_phase_failure assms
      intro: fine_redirect [OF _ assms(1)] world_recovery [OF assms(2)])

lemma wfine_result_event:
  assumes "evolves p s0 s" and "world_ok p w"
  shows "wfine p s0 (reduce_result_event w s ph st (Some p) timing)"
proof -
  have "world_ok p (w\<lparr>w_recovery := Some (ctl\<lparr>ctl_ledger := l\<rparr>)\<rparr>)" if "w_recovery w = Some ctl" for ctl l
    using assms(2) that by (simp add: world_ok_def serves_def)
  then show ?thesis
    unfolding reduce_result_event_def Let_def
    by (auto split: option.split intro!: wfine_keep fine_execution_result assms)
qed

lemma wfine_captured:
  assumes "reduce_captured_agent_failure classify w s (Some p) timing = Some r" and "evolves p s0 s" and "world_ok p w"
  shows "wfine p s0 r"
  using assms(1)
  by (auto simp: reduce_captured_agent_failure_def split: option.splits if_split_asm
      intro!: wfine_keep wfine_after_recovery pfine_handle assms(2,3)
      intro: fine_redirect [OF _ assms(2)] world_recovery [OF assms(3)])

lemma wfine_worker_failed:
  assumes "evolves p s0 s" and "world_ok p w"
  shows "wfine p s0 (reduce_worker_failed classify w s u code err (Some p) timing)"
proof -
  have "wfine p s0 (rbind r (\<lambda>(ctl', n, effs, _). case dget (worker_states s) u of None \<Rightarrow> Inl (KeyError u)
      | Some ws \<Rightarrow> Inr (w\<lparr>w_recovery := Some ctl'\<rparr>, restore_work_units s (set_worker u (failed_worker code err (w_now w) ws) n), effs)))"
    if "pfine p s0 r" for r
    using that by (auto simp: wfine_def pfine_def world_ok_def set_worker_def split: option.splits
        intro!: evolves_restore evolves_set assms(1))
  then show ?thesis
    unfolding reduce_worker_failed_def Let_def
    by (auto split: option.split intro!: wfine_keep fine_restored fine_fan_out pfine_handle assms
      intro: fine_redirect [OF _ assms(1)] world_recovery [OF assms(2)])
qed

lemma wfine_agent_failure:
  assumes "evolves p s0 s" and "world_ok p w"
  shows "wfine p s0 (reduce_agent_failure classify w s ev (Some p) timing)"
proof -
  have "wfine p s0 (rbind r (\<lambda>(ctl', n, effs). Inr (w\<lparr>w_recovery := Some ctl'\<rparr>, restore_work_units s n, effs)))" if "cfine p s0 r" for r
    using that by (auto simp: wfine_def cfine_def world_ok_def intro!: evolves_restore assms(1))
  moreover have "wfine p s0 (Inr (w, s, []))" using assms by (simp add: wfine_def)
  ultimately show ?thesis
    unfolding reduce_agent_failure_def
    by (auto split: option.split event.split intro!: wfine_keep fine_restored fine_unowned cfine_agent_failure assms
      intro: wfine_captured [OF _ assms] world_recovery [OF assms(2)])
qed

lemma wfine_pure:
  assumes "evolves p s0 s" and "world_ok p w"
  shows "wfine p s0 (reduce_pure classify w s ev (Some p) timing)"
proof -
  have stay: "wfine p s0 (Inr (w, s, []))" using assms by (simp add: wfine_def)
  have w': "world_ok p (w\<lparr>w_commit_error := x\<rparr>)" for x using assms(2) by (simp add: world_ok_def)
  have "fine p s0 (reduce_post_fanout_verification s success code err (Some p))" for success code err
    unfolding reduce_post_fanout_verification_def
    by (auto intro!: fine_rbind fine_Inr evolves_restore assms(1) intro: evolves_failed [OF _ assms(1)])
  then show ?thesis
    unfolding reduce_pure_def using stay
    by (auto split: event.split option.split intro!: wfine_keep fine_restored fine_residual wfine_phase_failure
        fine_analysis_decision wfine_result_event wfine_worker_failed wfine_agent_failure fine_fan_out assms w'
        intro: fine_run_handler)
qed

lemma evolves_route:
  assumes "evolves p s0 s" and "evolves p s0 n"
  shows "evolves p s0 (route_reduced_decision s n (Some p) rec)"
proof -
  have "evolves p s0 (m\<lparr>phase := phase s\<rparr>)" if "evolves p s0 m" for m
    using evolves_goto [OF that, of "phase s" "previous_phase m"] phase_known [OF assms(1)] previous_known [OF that] by simp
  then show ?thesis using assms(2) by (auto simp: route_reduced_decision_def Let_def intro!: evolves_set)
qed

lemma reduce_evolves:
  assumes "reduce classify w s ev (Some p) timing rec = Inr (w', n, effs)" and "evolves p s0 s" and "world_ok p w"
  shows "evolves p s0 n" and "world_ok p w'"
proof -
  obtain m where m: "reduce_pure classify w s ev (Some p) timing = Inr (w', m, effs)"
    and n: "n = sync_ledger_snapshot w' (route_reduced_decision s m (Some p) rec)"
    using assms(1) by (auto simp: reduce_def)
  have "evolves p s0 m" "world_ok p w'"
    using wfine_pure [OF assms(2,3), of classify ev timing] m by (auto simp: wfine_def)
  then show "evolves p s0 n" "world_ok p w'"
    using evolves_route [OF assms(2), of m rec]
    by (auto simp: n sync_ledger_snapshot_def Let_def evolves_set split: option.split)
qed

end

end
