(* ===== verification/Run_Invariants.thy ===== *)
theory Run_Invariants
  imports Reducer_Steps
begin

text \<open>
  Whole runs.  \<open>reachable\<close> interleaves reductions, of any event at any time, with steps of the
  surrounding run loop, which may move the clocks, touch the controller and rewrite every field the
  reducer keeps only as bookkeeping, regroup the work (a fan-out seeds and clears the work units of its
  wave, nothing is assumed of the work units, the workers and the budget caps) and remember the phase
  a detour to the commit phases returns to.
  The locale \<open>run_invariant\<close> lifts an invariant of the
  elementary changes to whole runs; it is interpreted once per invariant below.
\<close>

section \<open>Runs\<close>

inductive reachable :: "classifier \<Rightarrow> pipeline_policy \<Rightarrow> pstate \<Rightarrow> world \<Rightarrow> pstate \<Rightarrow> bool" for classify p s0 where
  start: "world_ok p w \<Longrightarrow> reachable classify p s0 w s0"
| reduced: "reachable classify p s0 w s \<Longrightarrow> reduce classify w s ev (Some p) timing rec = Inr (w', n, effs) \<Longrightarrow>
    reachable classify p s0 w' n"
| environment: "reachable classify p s0 w s \<Longrightarrow> same_core s n \<Longrightarrow> world_ok p w' \<Longrightarrow> reachable classify p s0 w' n"
| detour: "reachable classify p s0 w s \<Longrightarrow> known_option p r \<Longrightarrow> reachable classify p s0 w (s\<lparr>integration_commit_resume_phase := r\<rparr>)"
| regroup: "reachable classify p s0 w s \<Longrightarrow>
    reachable classify p s0 w (s\<lparr>work_units := us, worker_states := ws, budget_caps := caps\<rparr>)"

inductive_cases reachableE: "reachable classify p s0 w s"

lemma reachable_known:
  assumes "reachable classify p s0 w s" and "validate_policy p" and "phases_known p s0"
  shows "phases_known p s \<and> world_ok p w"
  using assms(1)
proof (induction rule: reachable.induct)
  case (reduced w s ev timing rec w' n effs)
  note run = valid_run.reduce_evolves [OF valid_run.intro [OF assms(2)] reduced.hyps(2) evolves_refl]
  show ?case using run reduced.IH evolves_phases_known by blast
next
  case (environment w s n w')
  then show ?case using estep_keeps_phases_known [OF estep.bookkeeping] by blast
next
  case (detour w s r)
  then show ?case using estep_keeps_phases_known [OF estep.detour] by blast
next
  case (regroup w s us ws caps)
  then show ?case by (simp add: phases_known_def)
qed (use assms(3) in simp)

section \<open>Invariants of a run\<close>

locale run_invariant =
  fixes p :: pipeline_policy and I :: "pstate \<Rightarrow> bool"
  assumes step_keeps: "validate_policy p \<Longrightarrow> estep p s s' \<Longrightarrow> I s \<Longrightarrow> I s'"
    and regroup_keeps: "I s \<Longrightarrow> I (s\<lparr>work_units := us, worker_states := ws, budget_caps := caps\<rparr>)"
begin

lemma reachable_keeps:
  assumes "reachable classify p s0 w s" and "validate_policy p" and "phases_known p s0" and "I s0"
  shows "I s"
  using assms(1)
proof (induction rule: reachable.induct)
  case (reduced w s ev timing rec w' n effs)
  note known = reachable_known [OF reduced.hyps(1) assms(2,3)]
  have "evolves p s n"
    using valid_run.reduce_evolves [OF valid_run.intro [OF assms(2)] reduced.hyps(2) evolves_refl] known by blast
  then show ?case using evolves_keeps [of p I s n] step_keeps [OF assms(2)] reduced.IH by blast
next
  case (environment w s n w')
  then show ?case using step_keeps [OF assms(2) estep.bookkeeping] by blast
next
  case (detour w s r)
  then show ?case using step_keeps [OF assms(2) estep.detour] by blast
qed (use assms(4) regroup_keeps in simp_all)

end

text \<open>Every declared loop counter is within its cap.\<close>

definition loops_within_caps :: "pipeline_policy \<Rightarrow> pstate \<Rightarrow> bool" where
  "loops_within_caps p s = list_all (\<lambda>f. case dget (loop_counters p) f of None \<Rightarrow> True
     | Some c \<Rightarrow> 0 \<le> get_loop_iteration s f \<and> get_loop_iteration s f \<le> lc_default_max c) (dkeys (loop_counters p))"

text \<open>The accounts of a run that can only grow.\<close>

definition accounts_grow :: "pstate \<Rightarrow> pstate \<Rightarrow> bool" where
  "accounts_grow s0 s =
     ((\<forall>c. get_outer_progress s0 c \<le> get_outer_progress s c)
      \<and> recovery_cycle_count s0 \<le> recovery_cycle_count s
      \<and> cycle_timebox_redirects s0 \<le> cycle_timebox_redirects s)"

definition history_bounded :: "pstate \<Rightarrow> bool" where
  "history_bounded s = (int (length (fallover_history s)) \<le> resolved_recovery_cycle_cap (recovery_cycle_cap s))"

lemma loops_within_caps_iff:
  "loops_within_caps p s \<longleftrightarrow> (\<forall>f c. dget (loop_counters p) f = Some c \<longrightarrow>
     0 \<le> get_loop_iteration s f \<and> get_loop_iteration s f \<le> lc_default_max c)"
  by (auto simp: loops_within_caps_def list_all_iff dest: dget_Some_din [unfolded din_iff] split: option.splits)

lemma estep_loops:
  assumes "validate_policy p" and "estep p s s'" and "loops_within_caps p s"
  shows "loops_within_caps p s'"
  using assms(2,3) default_max_nonneg [OF assms(1)]
  by cases (auto simp: loops_within_caps_iff same_core_def state_simps get_loop_iteration_def next_completed_def
      resolve_analysis_cap_def split: option.splits)

interpretation loops: run_invariant p "loops_within_caps p" for p
  by unfold_locales (rule estep_loops, simp_all add: loops_within_caps_iff get_loop_iteration_def)

lemma estep_grow: "estep p s s' \<Longrightarrow> accounts_grow s0 s \<Longrightarrow> accounts_grow s0 s'"
  by (induction rule: estep.induct) (auto simp: accounts_grow_def same_core_def state_simps get_outer_progress_def intro: le_SucI add_increasing2)

interpretation accounts: run_invariant p "accounts_grow s0" for p s0
  by unfold_locales (rule estep_grow, simp_all add: accounts_grow_def get_outer_progress_def)

lemma estep_history: "estep p s s' \<Longrightarrow> history_bounded s \<Longrightarrow> history_bounded s'"
proof (induction rule: estep.induct)
  case (fallover s r)
  have "0 \<le> resolved_recovery_cycle_cap (recovery_cycle_cap s)" by (simp add: resolved_recovery_cycle_cap_def)
  then show ?case
    using fallover_history_bounded [of "fallover_history s @ [r]" "recovery_cycle_cap s"]
    by (simp add: history_bounded_def with_fallover_record_def)
qed (auto simp: history_bounded_def same_core_def state_simps)

interpretation history: run_invariant p history_bounded for p
  by unfold_locales (rule estep_history, simp_all add: history_bounded_def)

interpretation routing: run_invariant p "phases_known p" for p
  by unfold_locales (rule estep_keeps_phases_known, simp_all add: phases_known_def)

text \<open>A fresh run satisfies all of them.\<close>

lemma from_policy_ok:
  assumes "from_policy p = Inr s0" and "validate_policy p"
  shows "phases_known p s0" "loops_within_caps p s0" "history_bounded s0"
  using assms default_max_nonneg [OF assms(2)] known_entry [OF assms(2)]
  by (auto simp: from_policy_def phases_known_def loops_within_caps_iff history_bounded_def blank_state_def
      get_loop_iteration_def resolved_recovery_cycle_cap_def known_option_def split: if_splits)

text \<open>A run of the bundled policy: the planner succeeds and the run moves on to the analysis of the plan.\<close>

definition fresh_world :: world where
  "fresh_world = \<lparr>w_commit_error = None, w_now = ''2026-01-01T00:00:00'', w_clock = \<lparr>monotonic = 0, epoch = 0\<rparr>,
     w_recovery = None\<rparr>"

definition fresh_run :: pstate where
  "fresh_run = (blank_state ''planning'')\<lparr>policy_entry_phase := ''planning'', policy_format_version := Some 2\<rparr>"

definition no_classifier :: classifier where
  "no_classifier raw ph ag st =
     \<lparr>cf_category = Cat_ambiguous, cf_reason = [], cf_attributed_agent = ag, cf_attributed_phase = ph,
      counts_against_budget = False, raw_message = [], reset_session = False, cf_reset_tool_registry = False,
      is_unavailable = False, watchdog_reason = None, cf_unavailability_reason = None, resumable_session_id = None\<rparr>"

definition planned_run :: pstate where
  "planned_run = (progress_advance_phase fresh_run ''planning_analysis'' default_policy)
     \<lparr>rebase := new_rebase_state\<lparr>last_decision := Some ''advance_phase''\<rparr>\<rparr>"

lemma fresh_run_ok: "from_policy default_policy = Inr fresh_run"
  by code_simp

lemma first_step:
  "reduce no_classifier fresh_world fresh_run (Pipeline_event AGENT_SUCCESS) (Some default_policy) None False
   = Inr (fresh_world, planned_run, [])"
  by code_simp

lemma planned_reachable: "reachable no_classifier default_policy fresh_run fresh_world planned_run"
proof (rule reachable.reduced [OF reachable.start first_step])
  show "world_ok default_policy fresh_world" by (simp add: world_ok_def fresh_world_def)
qed

section \<open>The integration barrier\<close>

lemma unresolved_ignores_decision:
  "integration_unresolved (r\<lparr>last_decision := d\<rparr>) = integration_unresolved r"
  "is_intervention_required (r\<lparr>last_decision := d\<rparr>) = is_intervention_required r"
  by (simp_all add: is_intervention_required_def integration_unresolved_def)

lemma blocking_ignores_decision: "check_blocking_decision h (r\<lparr>last_decision := d\<rparr>) seam = check_blocking_decision h r seam"
  by (auto simp: check_blocking_decision_def unresolved_ignores_decision)

lemma blocking_kinds:
  "check_blocking_decision h r seam = Some d \<Longrightarrow> d = Block_for_recovery \<or> d = Report_intervention_required"
  by (auto simp: check_blocking_decision_def split: if_splits)

lemma routed_rebase: "\<exists>d. rebase (route_reduced_decision s n p h) = (rebase n)\<lparr>last_decision := d\<rparr>"
  by (cases "rebase n") (auto simp: route_reduced_decision_def Let_def)

lemma route_blocks:
  assumes "check_blocking_decision h (rebase n) None \<noteq> None"
  shows "phase (route_reduced_decision s n p h) = phase s"
proof -
  let ?n = "n\<lparr>rebase := (rebase n)\<lparr>last_decision := None\<rparr>\<rparr>"
  obtain d where d: "check_blocking_decision h (rebase n) None = Some d" using assms by auto
  have "decide_phase_transition ?n p h (rebase ?n) None = d"
    using d by (simp add: decide_phase_transition_def blocking_ignores_decision)
  moreover have "d = Block_for_recovery \<or> d = Report_intervention_required" using d by (rule blocking_kinds)
  ultimately show ?thesis by (auto simp: route_reduced_decision_def Let_def is_phase_boundary_def)
qed

lemma snapshot_sync_keeps: "phase (sync_ledger_snapshot w s) = phase s" "rebase (sync_ledger_snapshot w s) = rebase s"
    "worker_states (sync_ledger_snapshot w s) = worker_states s"
  by (simp_all add: sync_ledger_snapshot_def Let_def split: option.split)

section \<open>Properties\<close>

text \<open>
  C1: a run never leaves its policy.  From the state a validated policy starts in, whatever events
  are reduced at whatever times and whatever the run loop does to the bookkeeping fields in
  between, the current phase and the previous phase are phases the policy declares or terminal
  states it names: no timebox redirect, loop bypass, recovery, fallback or post-commit route ends
  anywhere else.
\<close>

theorem run_stays_in_policy:
  assumes "validate_policy p" and "from_policy p = Inr s0" and "reachable classify p s0 w s"
  shows "known_phase p (phase s) \<and> (\<forall>q. previous_phase s = Some q \<longrightarrow> known_phase p q)"
  using routing.reachable_keeps [OF assms(3,1)] from_policy_ok [OF assms(2,1)]
  by (auto simp: phases_known_def)

theorem run_stays_in_policy_witness:
  "known_phase default_policy (phase planned_run) \<and> phase planned_run = ''planning_analysis''
   \<and> previous_phase planned_run = Some ''planning''"
  using run_stays_in_policy [OF default_policy_ok fresh_run_ok planned_reachable]
  by (simp add: planned_run_def progress_advance_phase_def fresh_run_def blank_state_def)

text \<open>
  C5: loop counters stay within their caps.  In every reachable state of a run of a validated
  policy, each declared loop counter is between zero and the maximum the policy declares for it,
  however loopbacks, skipped analyses, failed execution cycles, commits and gates are interleaved.
\<close>

theorem run_loops_within_caps:
  assumes "validate_policy p" and "from_policy p = Inr s0" and "reachable classify p s0 w s"
    and "dget (loop_counters p) f = Some c"
  shows "0 \<le> get_loop_iteration s f \<and> get_loop_iteration s f \<le> lc_default_max c"
  using loops.reachable_keeps [OF assms(3,1)] from_policy_ok [OF assms(2,1)] assms(4)
  by (simp add: loops_within_caps_iff)

lemma planning_loop_cap:
  "dget (loop_counters default_policy) ''planning_analysis_iteration'' = Some \<lparr>lc_default_max = 3\<rparr>"
  by code_simp

theorem run_loops_within_caps_witness:
  "0 \<le> get_loop_iteration planned_run ''planning_analysis_iteration''
   \<and> get_loop_iteration planned_run ''planning_analysis_iteration'' \<le> 3"
  using run_loops_within_caps [OF default_policy_ok fresh_run_ok planned_reachable planning_loop_cap] by simp

text \<open>
  the fallover history is bounded.  It never holds more records than the recovery cycle cap,
  however many failures a run survives.
\<close>

theorem run_fallover_history_bounded:
  assumes "validate_policy p" and "from_policy p = Inr s0" and "reachable classify p s0 w s"
  shows "int (length (fallover_history s)) \<le> resolved_recovery_cycle_cap (recovery_cycle_cap s)"
  using history.reachable_keeps [OF assms(3,1)] from_policy_ok [OF assms(2,1)] by (simp add: history_bounded_def)

theorem run_fallover_history_bounded_witness:
  "int (length (fallover_history planned_run)) \<le> 200"
  using run_fallover_history_bounded [OF default_policy_ok fresh_run_ok planned_reachable]
  by (simp add: planned_run_def progress_advance_phase_def fresh_run_def blank_state_def resolved_recovery_cycle_cap_def)

text \<open>
  C2: no reduction crosses a phase boundary over an open integration.  Whatever the event, the
  policy and the timing, when the reduced state still has an unresolved integration, a rebase or
  merge that was not fast-forwarded, or a recovery record on disk, the reducer leaves the run in
  the phase it was in.
\<close>

theorem reduce_holds_phase_while_integration_open:
  assumes "reduce classify w s ev p timing has_record = Inr (w', n, effs)"
    and "has_record \<or> integration_unresolved (rebase n)
         \<or> (last_outcome (rebase n) = Some Rebased \<or> last_outcome (rebase n) = Some Merged) \<and> \<not> fast_forwarded (rebase n)"
  shows "phase n = phase s"
proof -
  obtain m where n: "n = sync_ledger_snapshot w' (route_reduced_decision s m p has_record)"
    using assms(1) by (auto simp: reduce_def)
  obtain d where d: "rebase n = (rebase m)\<lparr>last_decision := d\<rparr>"
    using routed_rebase [of s m p has_record] by (auto simp: n snapshot_sync_keeps)
  have "check_blocking_decision has_record (rebase n) None \<noteq> None"
    using assms(2) blocking_iff_without_root [of has_record "rebase n"] by blast
  then have "check_blocking_decision has_record (rebase m) None \<noteq> None"
    by (simp add: d blocking_ignores_decision)
  then show ?thesis using route_blocks by (simp add: n snapshot_sync_keeps)
qed

definition conflicted :: "string \<Rightarrow> pstate" where
  "conflicted ph = (blank_state ph)\<lparr>rebase := new_rebase_state\<lparr>last_outcome := Some Conflict\<rparr>\<rparr>"

definition reduced_state :: "wres \<Rightarrow> pstate option" where
  "reduced_state r = (case r of Inl _ \<Rightarrow> None | Inr (_, n, _) \<Rightarrow> Some n)"

definition default_reduce :: "pstate \<Rightarrow> pipeline_event \<Rightarrow> wres" where
  "default_reduce s e = reduce no_classifier fresh_world s (Pipeline_event e) (Some default_policy) None False"

definition held_run :: pstate where
  "held_run = (progress_advance_phase (conflicted ''planning'') ''planning_analysis'' default_policy)
     \<lparr>phase := ''planning'',
      rebase := new_rebase_state\<lparr>last_outcome := Some Conflict, last_decision := Some ''block_for_recovery''\<rparr>\<rparr>"

lemma held_step:
  "reduce no_classifier fresh_world (conflicted ''planning'') (Pipeline_event AGENT_SUCCESS) (Some default_policy) None False
   = Inr (fresh_world, held_run, [])"
  by code_simp

theorem reduce_holds_phase_while_integration_open_witness:
  "integration_unresolved (rebase held_run) \<and> phase held_run = phase (conflicted ''planning'')"
proof -
  have "integration_unresolved (rebase held_run)" by code_simp
  then show ?thesis using reduce_holds_phase_while_integration_open [OF held_step] by simp
qed

text \<open>
  the barrier rolls back the phase and nothing else.  On the bundled policy, a commit that
  succeeds while a conflict is unresolved leaves the run in its commit phase, but the iteration
  budget is charged, and charged again when the same commit phase reports success a second time.
\<close>

theorem held_commit_charged_twice:
  "map_option (\<lambda>n. (phase n, get_outer_progress n ''iteration''))
     (Option.bind (reduced_state (default_reduce (conflicted ''development_final_commit'') COMMIT_SUCCESS))
        (\<lambda>n. reduced_state (default_reduce n COMMIT_SUCCESS)))
   = Some (''development_final_commit'', 2)"
  by code_simp

end
