(* ===== verification/Routing_Properties.thy ===== *)
theory Routing_Properties
  imports Run_Invariants
begin

text \<open>
  Properties of the routes a reduction takes: the cycle timebox, the bypass of exhausted analysis
  loops, post-commit routing and the recovery of failed commits.
\<close>

section \<open>The cycle timebox\<close>

text \<open>A cycle is spent when it is running and its time is used up.\<close>

definition cycle_spent :: "cycle_timebox_policy \<Rightarrow> routing_timing \<Rightarrow> pstate \<Rightarrow> bool" where
  "cycle_spent ct rt s = (cycle_timebox_active s \<and> ct_duration_seconds ct \<le> total_elapsed_seconds rt)"

text \<open>The fields the bypass and the development timer leave alone.\<close>

lemma active_development: "cycle_timebox_active (td_state (apply_development_timebox s t p timing)) = cycle_timebox_active s"
  by (simp add: apply_development_timebox_def development_redirect_def Let_def split: option.split)

lemma active_skip: "cycle_timebox_active (skip_analysis ph f p s) = cycle_timebox_active s"
  by (simp add: skip_analysis_def with_loop_iteration_def Let_def split: option.split)

lemma active_bypass: "bypass_loop p vis s t sk = Inr b \<Longrightarrow> cycle_timebox_active (bp_state b) = cycle_timebox_active s"
proof (induction p vis s t sk rule: bypass_loop.induct)
  case (1 p vis s t sk)
  from "1.prems" show ?case
    by (subst (asm) bypass_loop.simps)
       (auto simp: Let_def active_skip dest!: "1.IH" [rotated -1] split: if_splits option.splits sum.splits)
qed

lemma spent_cycle_redirects:
  assumes "cycle_timebox p = Some ct" and "cycle_spent ct rt s" and "ct_finalization_target ct \<noteq> ct_guarded_entry ct"
  shows "td_target (apply_cycle_timebox s t p (Some rt)) \<noteq> ct_guarded_entry ct"
    and "cycle_spent ct rt (td_state (apply_cycle_timebox s t p (Some rt)))"
    and "\<not> timing_started (apply_cycle_timebox s t p (Some rt))"
  using assms by (auto simp: apply_cycle_timebox_def cycle_spent_def redirected_cycle_def Let_def)

lemma development_not_guarded:
  assumes "\<And>dt. development_timebox p = Some dt \<Longrightarrow> dt_finalization_target dt \<noteq> g" and "t \<noteq> g"
  shows "td_target (apply_development_timebox s t p timing) \<noteq> g"
  using assms by (auto simp: apply_development_timebox_def Let_def split: option.split)

text \<open>With declared loop counters, the bypass and so the preparation of an advance always return.\<close>

lemma success_resolves:
  assumes "validate_policy p" and "dget (phases p) t = Some d"
  shows "resolve_next_phase t ''success'' p = Inr (on_success (transitions d))"
  using known_on_success [OF assms] assms(2)
  by (auto simp: resolve_next_phase_def signal_target_def known_phase_def)

lemma cap_resolves:
  assumes "validate_policy p" and "loop_counters p \<noteq> []" and "dget (phases p) t = Some d" and "loop_policy d = Some lp"
  obtains cap where "resolve_analysis_cap (iteration_state_field lp) p = Inr cap"
  using loop_field_declared [OF assms(1,3,4,2)] by (auto simp: resolve_analysis_cap_def din_def)

lemma bypass_returns:
  assumes "validate_policy p" and "loop_counters p \<noteq> []"
  shows "\<exists>b. bypass_loop p vis s t sk = Inr b"
  using assms
proof (induction p vis s t sk rule: bypass_loop.induct)
  case (1 p vis s t sk)
  show ?case
  proof (cases "t \<in> set vis \<or> phase_loop_policy_of p t = None")
    case True
    then show ?thesis
      by (subst bypass_loop.simps) (auto simp: Let_def phase_loop_policy_of_def split: option.splits)
  next
    case False
    then obtain d lp where d: "t \<notin> set vis" "dget (phases p) t = Some d" "loop_policy d = Some lp"
      by (auto simp: phase_loop_policy_of_def split: option.splits)
    obtain cap where cap: "resolve_analysis_cap (iteration_state_field lp) p = Inr cap"
      by (rule cap_resolves [OF "1.prems" d(2,3)])
    show ?thesis
      using "1.IH" [OF refl d(1,2,3) cap _ success_resolves [OF "1.prems"(1) d(2)] "1.prems"]
      by (subst bypass_loop.simps) (simp add: Let_def d cap success_resolves [OF "1.prems"(1) d(2)])
  qed
qed

lemma prepare_returns:
  assumes "validate_policy p" and "loop_counters p \<noteq> []"
  obtains s1 t1 where "prepare_phase_advance s t (Some p) timing = Inr (s1, t1)"
proof -
  let ?dt = "apply_development_timebox (td_state (apply_cycle_timebox s t p timing))
      (td_target (apply_cycle_timebox s t p timing)) p timing"
  obtain b1 where b1: "resolve_exhausted_analysis_bypass (td_state ?dt) (td_target ?dt) p = Inr b1"
    unfolding resolve_exhausted_analysis_bypass_def using bypass_returns [OF assms] by blast
  obtain b2 where b2: "resolve_exhausted_analysis_bypass (td_state ?dt) (phase (td_state ?dt)) p = Inr b2"
    unfolding resolve_exhausted_analysis_bypass_def using bypass_returns [OF assms] by blast
  have "\<exists>r. prepare_phase_advance s t (Some p) timing = Inr r"
    by (simp add: prepare_phase_advance_def Let_def b1 b2)
  then show thesis using that by auto
qed

text \<open>
  C10: a spent cycle never enters the phase it guards.  Whatever route asks for an advance, once the
  cycle timer is running and its time is used up the resolved target is not the guarded phase, also
  when exhausted analysis loops are bypassed on the way; only a timebox whose own finalization
  target is the guarded phase could lead there.
\<close>

theorem spent_cycle_never_enters_guarded_phase:
  assumes "prepare_phase_advance s t (Some p) (Some rt) = Inr (s1, t1)"
    and "cycle_timebox p = Some ct" and "cycle_timebox_active s" and "ct_duration_seconds ct \<le> total_elapsed_seconds rt"
    and "ct_finalization_target ct \<noteq> ct_guarded_entry ct"
    and "\<And>dt. development_timebox p = Some dt \<Longrightarrow> dt_finalization_target dt \<noteq> ct_guarded_entry ct"
  shows "t1 \<noteq> ct_guarded_entry ct"
proof -
  let ?g = "ct_guarded_entry ct"
  define tb where "tb = apply_cycle_timebox s t p (Some rt)"
  define dt where "dt = apply_development_timebox (td_state tb) (td_target tb) p (Some rt)"
  have spent: "cycle_spent ct rt s" using assms(3,4) by (simp add: cycle_spent_def)
  note cyc = spent_cycle_redirects [OF assms(2) spent assms(5), of t]
  have dts: "cycle_spent ct rt (td_state dt)" "td_target dt \<noteq> ?g"
    using cyc(1,2) development_not_guarded [OF assms(6)] active_development
    by (auto simp: dt_def tb_def cycle_spent_def)
  obtain t' b where t': "t' = td_target dt \<or> bp_skipped b \<noteq> []"
    and b: "bypass_loop p [] (td_state dt) t' [] = Inr b"
    and out: "concluded_if_leaving_cycle (with_bypassed_cycle_timing b p (Some rt) (timing_started tb)) p = (s1, t1)"
    using assms(1) unfolding prepare_phase_advance_def resolve_exhausted_analysis_bypass_def Let_def
    by (auto simp: tb_def [symmetric] dt_def [symmetric] split: if_splits) blast+
  have bs: "cycle_spent ct rt (bp_state b)" using active_bypass [OF b] dts(1) by (simp add: cycle_spent_def)
  have again: "td_target (apply_development_timebox (td_state tb') (td_target tb') p (Some rt)) \<noteq> ?g"
    if "tb' = apply_cycle_timebox (bp_state b) (bp_target b) p (Some rt)" for tb'
    using that development_not_guarded [OF assms(6) spent_cycle_redirects(1) [OF assms(2) bs assms(5)]] by simp
  have "bp_skipped b = [] \<Longrightarrow> bp_target b \<noteq> ?g" using bypass_skips_grow [OF b] t' dts(2) by auto
  then have "snd (with_bypassed_cycle_timing b p (Some rt) (timing_started tb)) \<noteq> ?g"
    using again cyc(3) by (simp add: with_bypassed_cycle_timing_def Let_def tb_def)
  then show ?thesis using out by (auto simp: concluded_if_leaving_cycle_def case_prod_unfold Let_def)
qed

definition late_run :: pstate where
  "late_run = (blank_state ''planning_analysis'')\<lparr>cycle_timebox_active := True\<rparr>"

definition late :: routing_timing where
  "late = \<lparr>total_elapsed_seconds = 40000, development_elapsed_seconds = Some 60, current_epoch = None\<rparr>"

definition default_cycle :: cycle_timebox_policy where
  "default_cycle = \<lparr>ct_duration_seconds = 36000,
     ct_start_source = ''planning_analysis'', ct_start_entry = ''development'',
     ct_guarded_entry = ''development'', ct_end_entry = ''development_final_commit'',
     ct_finalization_target = ''development_final_commit_cleanup'',
     finalization_cycle_outcome = ''completed''\<rparr>"

lemma default_counters: "loop_counters default_policy \<noteq> []" "cycle_timebox default_policy = Some default_cycle"
  by (simp_all add: default_policy_def default_cycle_def)

theorem spent_cycle_never_enters_guarded_phase_witness:
  "\<exists>s1 t1. prepare_phase_advance late_run ''development'' (Some default_policy) (Some late) = Inr (s1, t1)
     \<and> t1 \<noteq> ''development''"
proof -
  obtain s1 t1 where p: "prepare_phase_advance late_run ''development'' (Some default_policy) (Some late) = Inr (s1, t1)"
    by (rule prepare_returns [OF default_policy_ok default_counters(1)])
  have "t1 \<noteq> ct_guarded_entry default_cycle"
    by (rule spent_cycle_never_enters_guarded_phase [OF p default_counters(2)])
       (auto simp: late_run_def late_def default_cycle_def default_policy_def blank_state_def)
  then show ?thesis using p by (simp add: default_cycle_def)
qed

section \<open>The bypass of exhausted analysis loops\<close>

text \<open>A list of skips that leads from one phase to another along success transitions.\<close>

fun linked :: "string \<Rightarrow> analysis_skip list \<Rightarrow> string \<Rightarrow> bool" where
  "linked t [] u = (t = u)"
| "linked t (k # ks) u = (skip_phase k = t \<and> linked (skip_target k) ks u)"

text \<open>A skip of a declared loop phase whose counter had reached its cap.\<close>

definition exhausted_skip :: "pipeline_policy \<Rightarrow> analysis_skip \<Rightarrow> bool" where
  "exhausted_skip p k = (case dget (phases p) (skip_phase k) of None \<Rightarrow> False | Some d \<Rightarrow>
     (case loop_policy d of None \<Rightarrow> False | Some lp \<Rightarrow>
        skip_field k = iteration_state_field lp \<and> resolve_analysis_cap (skip_field k) p = Inr (skip_max k)
        \<and> skip_max k \<le> skip_value k \<and> resolve_next_phase (skip_phase k) ''success'' p = Inr (skip_target k)))"

text \<open>A phase the bypass has no reason to skip.\<close>

definition enterable :: "pipeline_policy \<Rightarrow> pstate \<Rightarrow> string \<Rightarrow> bool" where
  "enterable p s t = (case phase_loop_policy_of p t of None \<Rightarrow> True | Some lp \<Rightarrow>
     (case resolve_analysis_cap (iteration_state_field lp) p of Inl _ \<Rightarrow> False
      | Inr cap \<Rightarrow> get_loop_iteration s (iteration_state_field lp) < cap))"

definition bypassed :: "pipeline_policy \<Rightarrow> string list \<Rightarrow> pstate \<Rightarrow> string \<Rightarrow> analysis_skip list \<Rightarrow> bypass_result \<Rightarrow> bool" where
  "bypassed p vis s t ks b =
     (linked t ks (bp_target b) \<and> list_all (exhausted_skip p) ks
      \<and> distinct (map skip_phase ks) \<and> set (map skip_phase ks) \<inter> set vis = {}
      \<and> (enterable p (bp_state b) (bp_target b) \<or> bp_target b \<in> set vis \<union> set (map skip_phase ks))
      \<and> (\<forall>f. get_loop_iteration (bp_state b) f = (if f \<in> set (map skip_field ks) then 0 else get_loop_iteration s f))
      \<and> (pending_cycle_outcome s \<noteq> None \<longrightarrow> pending_cycle_outcome (bp_state b) = pending_cycle_outcome s)
      \<and> (ks = [] \<longrightarrow> bp_state b = s))"

lemma loops_after_skip:
  "get_loop_iteration (skip_analysis ph f p s) g = (if g = f then 0 else get_loop_iteration s g)"
  "pending_cycle_outcome s \<noteq> None \<Longrightarrow> pending_cycle_outcome (skip_analysis ph f p s) = pending_cycle_outcome s"
  by (auto simp: skip_analysis_def Let_def with_loop_iteration_def get_loop_iteration_def split: option.split)

lemma bypass_loop_bypassed:
  "bypass_loop p vis s t sk = Inr b \<Longrightarrow> \<exists>ks. bp_skipped b = sk @ ks \<and> bypassed p vis s t ks b"
proof (induction p vis s t sk rule: bypass_loop.induct)
  case (1 p vis s t sk)
  consider (stop) "b = \<lparr>bp_state = s, bp_target = t, bp_skipped = sk\<rparr>" "enterable p s t \<or> t \<in> set vis"
    | (skip) d lp cap t' where "t \<notin> set vis" "dget (phases p) t = Some d" "loop_policy d = Some lp"
        "resolve_analysis_cap (iteration_state_field lp) p = Inr cap"
        "cap \<le> get_loop_iteration s (iteration_state_field lp)" "resolve_next_phase t ''success'' p = Inr t'"
        "bypass_loop p (t # vis) (skip_analysis t (iteration_state_field lp) p s) t'
           (sk @ [\<lparr>skip_phase = t, skip_target = t', skip_field = iteration_state_field lp,
                   skip_value = get_loop_iteration s (iteration_state_field lp), skip_max = cap\<rparr>]) = Inr b"
    using "1.prems"
    by (subst (asm) bypass_loop.simps)
       (auto simp: Let_def enterable_def phase_loop_policy_of_def should_skip_analysis_reentry_def
         split: if_splits option.splits sum.splits)
  then show ?case
  proof cases
    case stop
    then show ?thesis by (intro exI [of _ "[]"]) (auto simp: bypassed_def)
  next
    case skip
    let ?k = "\<lparr>skip_phase = t, skip_target = t', skip_field = iteration_state_field lp,
        skip_value = get_loop_iteration s (iteration_state_field lp), skip_max = cap\<rparr>"
    obtain ks where ks: "bp_skipped b = (sk @ [?k]) @ ks"
        "bypassed p (t # vis) (skip_analysis t (iteration_state_field lp) p s) t' ks b"
      using "1.IH" [OF refl skip(1-4) _ skip(6,7)] skip(5) by (auto simp: should_skip_analysis_reentry_def)
    have "bypassed p vis s t (?k # ks) b"
      using ks(2) skip loops_after_skip
      unfolding bypassed_def by (auto simp: exhausted_skip_def)
    then show ?thesis using ks(1) by (intro exI [of _ "?k # ks"]) simp
  qed
qed

text \<open>
  C11: exactly the exhausted loops are bypassed.  For a validated policy with declared loop counters
  the bypass always returns; the skipped phases form a chain of success transitions from the
  candidate to the resolved target without repetition, each a loop phase whose counter had reached
  its cap; the resolved target may be entered, or closes a cycle of exhausted phases; exactly the
  counters of the skipped phases are reset; and a verdict already recorded is never overwritten.
\<close>

theorem bypass_skips_exactly_the_exhausted:
  assumes "validate_policy p" and "loop_counters p \<noteq> []"
  shows "\<exists>b. resolve_exhausted_analysis_bypass s t p = Inr b
    \<and> linked t (bp_skipped b) (bp_target b) \<and> list_all (exhausted_skip p) (bp_skipped b)
    \<and> distinct (map skip_phase (bp_skipped b))
    \<and> (enterable p (bp_state b) (bp_target b) \<or> bp_target b \<in> set (map skip_phase (bp_skipped b)))
    \<and> (\<forall>f. get_loop_iteration (bp_state b) f
             = (if f \<in> set (map skip_field (bp_skipped b)) then 0 else get_loop_iteration s f))
    \<and> (pending_cycle_outcome s \<noteq> None \<longrightarrow> pending_cycle_outcome (bp_state b) = pending_cycle_outcome s)"
proof -
  obtain b where b: "bypass_loop p [] s t [] = Inr b" using bypass_returns [OF assms] by blast
  have "bypassed p [] s t (bp_skipped b) b" using bypass_loop_bypassed [OF b] by auto
  then show ?thesis using b by (auto simp: bypassed_def resolve_exhausted_analysis_bypass_def)
qed

definition tired_plan :: pstate where
  "tired_plan = (blank_state ''planning'')\<lparr>loop_iterations := [(''planning_analysis_iteration'', 3)]\<rparr>"

lemma tired_plan_target:
  "case resolve_exhausted_analysis_bypass tired_plan ''planning_analysis'' default_policy of
     Inr b \<Rightarrow> bp_target b = ''development'' \<and> map skip_phase (bp_skipped b) = [''planning_analysis''] | Inl _ \<Rightarrow> False"
  by code_simp

theorem bypass_skips_exactly_the_exhausted_witness:
  "\<exists>b. resolve_exhausted_analysis_bypass tired_plan ''planning_analysis'' default_policy = Inr b
     \<and> bp_target b = ''development'' \<and> list_all (exhausted_skip default_policy) (bp_skipped b)
     \<and> map skip_phase (bp_skipped b) = [''planning_analysis'']"
  using bypass_skips_exactly_the_exhausted [OF default_policy_ok default_counters(1), of tired_plan "''planning_analysis''"]
    tired_plan_target by auto

section \<open>Post-commit routing\<close>

definition effective_outcome :: "pstate \<Rightarrow> string" where
  "effective_outcome s = (case pending_cycle_outcome s of None \<Rightarrow> ''completed'' | Some out \<Rightarrow> out)"

lemma match_routes_found:
  assumes "out \<in> set outs" and "r \<in> set routes" and "route_matches ph bs out r"
  shows "\<exists>r'\<in>set routes. \<exists>out'\<in>set outs. route_matches ph bs out' r'
    \<and> match_routes ph bs outs routes = Some (pc_target r')"
  using assms(1)
proof (induction outs)
  case (Cons o' outs)
  show ?case
  proof (cases "List.find (route_matches ph bs o') routes")
    case None
    then have "out \<noteq> o'" using assms(2,3) by (auto simp: find_None_iff)
    then show ?thesis using Cons None by auto
  next
    case (Some r')
    then show ?thesis by (auto dest: find_member)
  qed
qed simp

lemma routable:
  assumes "validate_policy p" and "r0 \<in> set (post_commit_routes p)" and "din (when_phase r0) (phases p)"
    and "out \<in> set (recordable_cycle_outcomes p)"
  obtains r where "r \<in> set (post_commit_routes p)" "route_matches (when_phase r0) (when_budget_state r0) (Some out) r"
proof -
  have "recordable_cycle_outcomes_are_routable p" using assms(1) by (simp add: validate_policy_def)
  moreover obtain d where "dget (phases p) (when_phase r0) = Some d" using assms(3) by (auto simp: din_def)
  ultimately have "list_all (\<lambda>out. list_all (\<lambda>bs. list_ex (\<lambda>r. when_budget_state r = bs
        \<and> (when_cycle_outcome r = None \<or> when_cycle_outcome r = Some out))
          (filter (\<lambda>r. when_phase r = when_phase r0) (post_commit_routes p)))
      (map when_budget_state (filter (\<lambda>r. when_phase r = when_phase r0) (post_commit_routes p)))) (recordable_cycle_outcomes p)"
    using assms(2) by (auto simp: recordable_cycle_outcomes_are_routable_def list_all_iff [of _ "map when_phase _"] Let_def)
  then have "\<exists>r\<in>set (post_commit_routes p). route_matches (when_phase r0) (when_budget_state r0) (Some out) r"
    using assms(2,4) by (auto simp: list_all_iff list_ex_iff route_matches_def)
  then show thesis using that by blast
qed

text \<open>The routes of the table that serve a commit phase in its budget state, whatever the outcome.\<close>

definition serving_routes :: "pstate \<Rightarrow> pipeline_policy \<Rightarrow> post_commit_route list" where
  "serving_routes s p = (case compute_budget_state s p of None \<Rightarrow> []
     | Some bs \<Rightarrow> filter (\<lambda>r. when_phase r = phase s \<and> when_budget_state r = bs) (post_commit_routes p))"

lemma unserved_falls_through:
  assumes "serving_routes s p = []" and "compute_budget_state s p = Some bs"
  shows "match_routes (phase s) bs outs (post_commit_routes p) = None"
proof (induction outs)
  case (Cons out outs)
  have "List.find (route_matches (phase s) bs out) (post_commit_routes p) = None"
    using assms by (auto simp: find_None_iff serving_routes_def filter_empty_conv route_matches_def)
  then show ?case using Cons.IH by simp
qed simp

lemma served_is_routed:
  assumes "validate_policy p" and "phase_role_is p (phase s) Commit" and "post_commit_phase_override s = None"
    and "r0 \<in> set (serving_routes s p)" and "effective_outcome s \<in> set (recordable_cycle_outcomes p)"
  shows "\<exists>r\<in>set (serving_routes s p). when_cycle_outcome r \<in> {None, Some (effective_outcome s)}
    \<and> resolve_post_commit_phase s p = Inr (pc_target r)"
proof -
  let ?out = "effective_outcome s"
  obtain bs where bs: "compute_budget_state s p = Some bs" using assms(4) by (cases "compute_budget_state s p") (auto simp: serving_routes_def)
  have r0: "r0 \<in> set (post_commit_routes p)" "when_phase r0 = phase s" "when_budget_state r0 = bs"
    using assms(4) bs by (simp_all add: serving_routes_def)
  have "din (phase s) (phases p)" using assms(2) by (auto simp: phase_role_is_def split: option.splits)
  then obtain r where r: "r \<in> set (post_commit_routes p)" "route_matches (phase s) bs (Some ?out) r"
    using routable [OF assms(1) r0(1) _ assms(5)] r0(2,3) by auto
  have cand: "set (candidate_cycle_outcomes s) \<subseteq> {None, Some ?out}" "Some ?out \<in> set (candidate_cycle_outcomes s)"
    by (auto simp: candidate_cycle_outcomes_def effective_outcome_def split: option.splits)
  obtain r' out' where r': "r' \<in> set (post_commit_routes p)" "out' \<in> set (candidate_cycle_outcomes s)"
      "route_matches (phase s) bs out' r'"
      "match_routes (phase s) bs (candidate_cycle_outcomes s) (post_commit_routes p) = Some (pc_target r')"
    using match_routes_found [OF cand(2) r] by blast
  then have "r' \<in> set (serving_routes s p)" using bs by (simp add: serving_routes_def route_matches_def)
  then show ?thesis
    using r' cand(1) assms(2,3) bs by (intro bexI [of _ r']) (auto simp: route_matches_def resolve_post_commit_phase_def)
qed

text \<open>
  C12: Where a commit that closes a cycle leads.  In a commit phase of a validated policy, with an
  outcome the policy can record, or with none recorded when \<^verbatim>\<open>completed\<close> is recordable: a post-commit
  override decides alone and raises when it names no phase of the policy; without one, if the table
  has any route for the phase in its present budget state, the next phase is the target of such a
  route that accepts the outcome, and never the success transition; and if it has none, the success
  transition of the phase is taken.
\<close>

theorem recordable_outcome_is_routed:
  assumes "validate_policy p" and "phase_role_is p (phase s) Commit"
    and "effective_outcome s \<in> set (recordable_cycle_outcomes p)"
  shows "case post_commit_phase_override s of
      Some t \<Rightarrow> resolve_post_commit_phase s p =
        (if din t (phases p) \<or> t \<in> terminal_states p then Inr t
         else Inl (ValueError (''Post-commit override references unknown phase '' @ quoted t)))
    | None \<Rightarrow>
        if serving_routes s p \<noteq> []
        then \<exists>r\<in>set (serving_routes s p). when_cycle_outcome r \<in> {None, Some (effective_outcome s)}
               \<and> resolve_post_commit_phase s p = Inr (pc_target r)
        else resolve_post_commit_phase s p = resolve_next_phase (phase s) ''success'' p"
proof (cases "post_commit_phase_override s")
  case None
  show ?thesis
  proof (cases "serving_routes s p")
    case Nil
    then show ?thesis
      using None unserved_falls_through [OF Nil] by (simp add: resolve_post_commit_phase_def split: option.split)
  next
    case (Cons r0 rs)
    then have "r0 \<in> set (serving_routes s p)" by simp
    from served_is_routed [OF assms(1,2) None this assms(3)] show ?thesis using None Cons by simp
  qed
qed (simp add: resolve_post_commit_phase_def)

definition closing_run :: pstate where
  "closing_run = (blank_state ''development_final_commit'')\<lparr>budget_caps := [(''iteration'', 5)]\<rparr>"

lemma closing_run_facts:
  "phase_role_is default_policy (phase closing_run) Commit"
  "effective_outcome closing_run \<in> set (recordable_cycle_outcomes default_policy)"
  "post_commit_phase_override closing_run = None"
  "serving_routes closing_run default_policy \<noteq> []"
  "list_all (\<lambda>r. when_budget_state r = ''remaining'') (serving_routes closing_run default_policy)"
  by code_simp+

theorem recordable_outcome_is_routed_witness:
  "\<exists>r\<in>set (serving_routes closing_run default_policy). when_budget_state r = ''remaining''
     \<and> resolve_post_commit_phase closing_run default_policy = Inr (pc_target r)"
  using recordable_outcome_is_routed [OF default_policy_ok closing_run_facts(1,2)] closing_run_facts(3-5)
  by (auto simp: list_all_iff)

section \<open>Failed commits\<close>





definition dirty_commit :: "nat \<Rightarrow> pstate" where
  "dirty_commit k = (blank_state ''development_commit'')
     \<lparr>recovery_epoch := k, commit := new_commit_state\<lparr>agent_invoked := True\<rparr>\<rparr>"

definition after_commit_failure :: "string \<Rightarrow> pstate \<Rightarrow> pstate option" where
  "after_commit_failure err s = (case handle_commit_failure (Some err) s (Some default_policy) None of
     Inl _ \<Rightarrow> None | Inr (n, _) \<Rightarrow> Some n)"



text \<open>
  a git lock ends a run of the bundled policy.  Its commits have a cleanup phase, so the
  in-place retry that must never end the run does not apply: contention on \<^verbatim>\<open>index.lock\<close> is
  sent to the cleanup agent and counted, and the fourth failure goes to the failure phase.
\<close>

theorem lock_contention_ends_default_run:
  "let err = ''Unable to create '' @ [CHR 0x27] @ ''/repo/.git/index.lock'' @ [CHR 0x27] @ '': File exists.''
   in names_a_lock_file err
      \<and> map_option (\<lambda>n. (phase n, recovery_epoch n)) (after_commit_failure err (dirty_commit 2))
          = Some (''development_commit_cleanup'', 3)
      \<and> map_option phase (after_commit_failure err (dirty_commit 3)) = Some ''failed_terminal''"
  by code_simp

section \<open>The development timer and the cycle timer\<close>

text \<open>
  a running development timer hides a spent cycle.  While the development timer is running and
  has room, a handler about to stay in the guarded phase is not redirected although the cycle is
  spent and the cycle timebox itself, asked about the same phase, redirects.
\<close>

theorem development_timer_hides_spent_cycle:
  assumes "development_timebox p = Some dt" and "cycle_timebox p = Some ct"
    and "dev_timebox_active s" and "cycle_timebox_active s" and "phase s = ct_guarded_entry ct"
    and "development_elapsed_seconds rt = Some e" and "e < warning_seconds dt"
    and "ct_duration_seconds ct \<le> total_elapsed_seconds rt"
  shows "redirect_expired_cycle_in_place s (Some p) (Some rt) = None
    \<and> redirected (apply_cycle_timebox s (phase s) p (Some rt))"
  using assms
  by (auto simp: redirect_expired_cycle_in_place_def apply_development_timebox_def apply_cycle_timebox_def Let_def)

definition racing_run :: pstate where
  "racing_run = (blank_state ''development'')\<lparr>cycle_timebox_active := True, dev_timebox_active := True\<rparr>"

theorem development_timer_hides_spent_cycle_witness:
  "redirect_expired_cycle_in_place racing_run (Some default_policy) (Some late) = None
   \<and> redirected (apply_cycle_timebox racing_run (phase racing_run) default_policy (Some late))"
proof -
  obtain dt where dt: "development_timebox default_policy = Some dt" "warning_seconds dt = 4200"
    by (simp add: default_policy_def)
  show ?thesis
    by (rule development_timer_hides_spent_cycle [OF dt(1) default_counters(2), where e = 60])
       (simp_all add: racing_run_def blank_state_def late_def default_cycle_def dt)
qed

section \<open>Without a policy\<close>

text \<open>
  routing without a policy raises.  Every routing event reduced without a policy, and every
  analysis decision and execution result, ends in the same \<^verbatim>\<open>RuntimeError\<close>; no handler finds a
  failure route.
\<close>

theorem routing_without_policy_raises:
  "list_all (\<lambda>e. reduce classify w s (Pipeline_event e) None timing rec = Inl no_policy)
     [AGENT_SUCCESS, ANALYSIS_SUCCESS, ANALYSIS_LOOPBACK, PHASE_LOOPBACK, REVIEW_CLEAN, REVIEW_ISSUES_FOUND,
      FIX_SUCCESS, FIX_FAILURE, COMMIT_SUCCESS, COMMIT_SKIPPED, COMMIT_FAILURE, COMPLETE, FAILED, PHASE_ADVANCE]
   \<and> reduce classify w s (Analysis_decision_event ph dec) None timing rec = Inl no_policy
   \<and> reduce classify w s (Execution_result_event ph st) None timing rec = Inl no_policy"
  by (simp add: reduce_def reduce_pure_def run_handler_def keep_world_def restored_def reduce_result_event_def Let_def
      advance_to_failed_def enter_failed_recovery_def terminal_success_route_def handle_agent_success_def
      handle_analysis_success_def handle_analysis_loopback_def handle_phase_loopback_def handle_review_clean_def
      handle_review_issues_found_def handle_fix_success_def handle_fix_failure_def handle_commit_success_def
      handle_commit_skipped_def handle_commit_outcome_def handle_commit_failure_def handle_complete_def
      handle_failed_def handle_phase_advance_def handle_analysis_decision_def handle_execution_result_def)

end
