(* ===== verification/Py_Text.thy ===== *)
theory Py_Text
  imports Prelude
begin

text \<open>
  The \<^verbatim>\<open>str\<close> operations that the parsers and probes use beyond those of \<open>Prelude\<close>:
  \<^verbatim>\<open>startswith\<close>, \<^verbatim>\<open>split\<close> (with and without a bound), \<^verbatim>\<open>partition\<close>,
  \<^verbatim>\<open>splitlines\<close>, \<^verbatim>\<open>sorted\<close> on names and short-circuiting \<^verbatim>\<open>any\<close> over a test that
  may raise.  A Python string is the list of the bytes of its UTF-8 encoding, so a character
  outside ASCII is two or more list elements and comparison by code point is comparison of the
  lists.
\<close>

definition starts_with :: "string \<Rightarrow> string \<Rightarrow> bool" where
  "starts_with s p = (take (length p) s = p)"

text \<open>\<open>split_on c s\<close> is \<^verbatim>\<open>s.split(c)\<close>: the empty string has one empty field.\<close>

fun split_on :: "char \<Rightarrow> string \<Rightarrow> string list" where
  "split_on c [] = [[]]"
| "split_on c (x # xs) =
     (if x = c then [] # split_on c xs
      else (case split_on c xs of [] \<Rightarrow> [[x]] | y # ys \<Rightarrow> (x # y) # ys))"

text \<open>\<open>split_max c n s\<close> is \<^verbatim>\<open>s.split(c, n)\<close>: at most \<open>n\<close> splits, from the left.\<close>

fun split_max :: "char \<Rightarrow> nat \<Rightarrow> string \<Rightarrow> string list" where
  "split_max c 0 s = [s]"
| "split_max c (Suc n) s =
     (let hd_part = takeWhile (\<lambda>x. x \<noteq> c) s; tl_part = dropWhile (\<lambda>x. x \<noteq> c) s
      in if tl_part = [] then [hd_part] else hd_part # split_max c n (tl tl_part))"

text \<open>\<open>partition_on c s\<close> is \<^verbatim>\<open>s.partition(c)\<close>; the middle component says whether the
  separator was found.\<close>

definition partition_on :: "char \<Rightarrow> string \<Rightarrow> string \<times> bool \<times> string" where
  "partition_on c s =
     (let rest = dropWhile (\<lambda>x. x \<noteq> c) s
      in (takeWhile (\<lambda>x. x \<noteq> c) s, rest \<noteq> [], drop 1 rest))"

definition replace_char :: "char \<Rightarrow> char \<Rightarrow> string \<Rightarrow> string" where
  "replace_char a b s = map (\<lambda>c. if c = a then b else c) s"

text \<open>
  \<^verbatim>\<open>splitlines\<close> breaks at line feeds, carriage returns (a pair counts once), the ASCII
  separators and the three Unicode line separators; a final break adds no empty line.
\<close>

definition line_break :: "string \<Rightarrow> nat" where
  "line_break s =
     (if starts_with s [CHR 0x0D, CHR 0x0A] then 2
      else if s \<noteq> [] \<and> hd s \<in> set [CHR 0x0A, CHR 0x0B, CHR 0x0C, CHR 0x0D, CHR 0x1C, CHR 0x1D, CHR 0x1E]
        then 1
      else if starts_with s [CHR 0xC2, CHR 0x85] then 2
      else if starts_with s [CHR 0xE2, CHR 0x80, CHR 0xA8] \<or> starts_with s [CHR 0xE2, CHR 0x80, CHR 0xA9]
        then 3
      else 0)"

function splitlines_from :: "string \<Rightarrow> string \<Rightarrow> string list" where
  "splitlines_from acc s =
     (if s = [] then (if acc = [] then [] else [rev acc])
      else if line_break s > 0 then rev acc # splitlines_from [] (drop (line_break s) s)
      else splitlines_from (hd s # acc) (tl s))"
  by pat_completeness auto
termination
  by (relation "measure (\<lambda>(acc, s). length s)") auto

declare splitlines_from.simps [simp del]

definition splitlines :: "string \<Rightarrow> string list" where
  "splitlines s = splitlines_from [] s"

definition isdecimal :: "string \<Rightarrow> bool" where
  "isdecimal s = (s \<noteq> [] \<and> list_all is_digit s)"

text \<open>\<open>any_res P xs\<close> is \<^verbatim>\<open>any(P(x) for x in xs)\<close> with a test that may raise.\<close>

fun any_res :: "('a \<Rightarrow> bool res) \<Rightarrow> 'a list \<Rightarrow> bool res" where
  "any_res P [] = Inr False"
| "any_res P (x # xs) = rbind (P x) (\<lambda>b. if b then Inr True else any_res P xs)"

section \<open>Facts\<close>

lemma starts_with_append [simp]: "starts_with (p @ s) p"
  by (simp add: starts_with_def)

lemma starts_with_iff: "starts_with s p \<longleftrightarrow> (\<exists>t. s = p @ t)"
  by (metis append_take_drop_id starts_with_append starts_with_def)

lemma split_on_not_Nil [simp]: "split_on c s \<noteq> []"
  by (induction s) (auto split: list.splits)

lemma split_on_none: "c \<notin> set s \<Longrightarrow> split_on c s = [s]"
  by (induction s) auto

lemma split_on_append:
  "c \<notin> set s \<Longrightarrow> split_on c (s @ c # t) = s # split_on c t"
  by (induction s) (auto split: list.splits)

lemma any_res_total:
  assumes "\<forall>x\<in>set xs. P x = Inr (Q x)"
  shows "any_res P xs = Inr (\<exists>x\<in>set xs. Q x)"
  using assms by (induction xs) auto

lemma partition_on_none: "c \<notin> set s \<Longrightarrow> partition_on c s = (s, False, [])"
proof -
  assume "c \<notin> set s"
  then have d: "dropWhile (\<lambda>x. x \<noteq> c) s = []" and t: "takeWhile (\<lambda>x. x \<noteq> c) s = s"
    by (auto simp: dropWhile_eq_Nil_conv takeWhile_eq_all_conv)
  show ?thesis unfolding partition_on_def Let_def d t by simp
qed

lemma partition_on_append: "c \<notin> set s \<Longrightarrow> partition_on c (s @ c # t) = (s, True, t)"
  by (induction s) (auto simp: partition_on_def Let_def)

lemma split_max_append: "c \<notin> set s \<Longrightarrow> split_max c (Suc n) (s @ c # t) = s # split_max c n t"
proof -
  assume s: "c \<notin> set s"
  then have "takeWhile (\<lambda>x. x \<noteq> c) (s @ c # t) = s" "dropWhile (\<lambda>x. x \<noteq> c) (s @ c # t) = c # t"
    by (induction s) auto
  then show ?thesis by (simp add: Let_def)
qed

section \<open>Lines\<close>

lemma line_break_le: "line_break s \<le> length s"
  by (auto simp: line_break_def starts_with_def Suc_le_eq dest: arg_cong [of _ _ length])

lemma line_break_append:
  assumes "s \<noteq> []" "last s = CHR 0x0A"
  shows "line_break (s @ t) = line_break s"
proof (cases s rule: rev_cases)
  case (snoc u c)
  with assms have c: "c = CHR 0x0A" by simp
  consider "u = []" | a where "u = [a]" | a b where "u = [a, b]" | a b d v where "u = a # b # d # v"
    by (metis list.exhaust)
  then show ?thesis
    by cases (auto simp: snoc c line_break_def starts_with_def)
qed (use assms in simp)

lemma splitlines_from_append:
  assumes "s \<noteq> []" "last s = CHR 0x0A"
  shows "splitlines_from acc (s @ t) = splitlines_from acc s @ splitlines t"
  using assms
proof (induction acc s rule: splitlines_from.induct)
  case (1 acc s)
  have lb: "line_break (s @ t) = line_break s" using "1.prems" by (rule line_break_append)
  show ?case
  proof (cases "line_break s > 0")
    case True
    let ?k = "line_break s"
    have "splitlines_from [] (drop ?k s @ t) = splitlines_from [] (drop ?k s) @ splitlines t"
    proof (cases "drop ?k s = []")
      case True
      then show ?thesis by (simp add: splitlines_def splitlines_from.simps [of "[]" "[]"])
    next
      case False
      then have "last (drop ?k s) = CHR 0x0A" using "1.prems" by (simp add: last_drop)
      then show ?thesis using "1.IH"(1) "1.prems"(1) True False by simp
    qed
    then show ?thesis
      using True "1.prems"(1) line_break_le [of s]
      by (subst (1 2) splitlines_from.simps) (simp add: lb)
  next
    case False
    then have "tl s \<noteq> []"
      using "1.prems" by (cases s) (auto simp: line_break_def starts_with_def split: if_splits)
    then have "splitlines_from (hd s # acc) (tl s @ t) = splitlines_from (hd s # acc) (tl s) @ splitlines t"
      using "1.IH"(2) "1.prems" False by (simp add: last_tl)
    then show ?thesis
      using False "1.prems"(1) by (subst (1 2) splitlines_from.simps) (simp add: lb)
  qed
qed

lemma splitlines_add_break:
  assumes "s \<noteq> []"
  shows "set (splitlines_from acc s) \<subseteq> set (splitlines_from acc (s @ [CHR 0x0A]))"
  using assms
proof (induction acc s rule: splitlines_from.induct)
  case (1 acc s)
  show ?case
  proof (cases "tl s = []")
    case True
    then obtain c where s: "s = [c]" using "1.prems" by (cases s) auto
    show ?thesis
      by (subst (1 2) splitlines_from.simps, subst (1 2) splitlines_from.simps)
        (auto simp: s line_break_def starts_with_def splitlines_from.simps [of _ "[]"]
          splitlines_from.simps [of _ "[CHR 0x0A]"])
  next
    case False
    have lb: "line_break (s @ [CHR 0x0A]) = line_break s"
    proof -
      from False obtain a b v where "s = a # b # v" using "1.prems" by (cases s; cases "tl s") auto
      then show ?thesis by (cases v) (auto simp: line_break_def starts_with_def)
    qed
    show ?thesis
    proof (cases "line_break s > 0")
      case True
      let ?k = "line_break s"
      have "set (splitlines_from [] (drop ?k s)) \<subseteq> set (splitlines_from [] (drop ?k s @ [CHR 0x0A]))"
        using "1.IH"(1) "1.prems" True by (cases "drop ?k s = []") (auto simp: splitlines_from.simps [of "[]" "[]"])
      then show ?thesis using True "1.prems" line_break_le [of s]
        by (subst (1 2) splitlines_from.simps) (auto simp: lb)
    next
      case nb: False
      then have "set (splitlines_from (hd s # acc) (tl s)) \<subseteq> set (splitlines_from (hd s # acc) (tl s @ [CHR 0x0A]))"
        using "1.IH"(2) "1.prems" False by simp
      then show ?thesis using nb "1.prems" by (subst (1 2) splitlines_from.simps) (auto simp: lb)
    qed
  qed
qed

definition plain_line :: "string \<Rightarrow> bool" where
  "plain_line x = list_all (\<lambda>c. 0x20 \<le> (of_char c :: nat) \<and> (of_char c :: nat) \<le> 0x7E) x"

lemma plain_no_break:
  assumes "0x20 \<le> (of_char c :: nat)" "(of_char c :: nat) \<le> 0x7E"
  shows "line_break (c # t) = 0"
proof -
  have "c \<noteq> d" if "of_char d < (0x20 :: nat) \<or> (0x7E :: nat) < of_char d" for d using that assms by auto
  then show ?thesis by (auto simp: line_break_def starts_with_def)
qed

lemma splitlines_from_plain: "plain_line x \<Longrightarrow> splitlines_from acc (x @ [CHR 0x0A]) = [rev acc @ x]"
proof (induction x arbitrary: acc)
  case Nil
  show ?case
    by (subst splitlines_from.simps) (simp add: line_break_def starts_with_def splitlines_from.simps [of "[]" "[]"])
next
  case (Cons c x)
  have "line_break ((c # x) @ [CHR 0x0A]) = 0" using Cons.prems plain_no_break by (simp add: plain_line_def)
  then show ?case using Cons by (subst splitlines_from.simps) (simp add: plain_line_def)
qed

lemma splitlines_join:
  assumes "ps \<noteq> []" "list_all plain_line ps"
  shows "splitlines (join_str [CHR 0x0A] ps @ [CHR 0x0A]) = ps"
  using assms
proof (induction "[CHR 0x0A]" ps rule: join_str.induct)
  case (3 x y xs)
  have "splitlines (join_str [CHR 0x0A] (x # y # xs) @ [CHR 0x0A])
      = splitlines ((x @ [CHR 0x0A]) @ join_str [CHR 0x0A] (y # xs) @ [CHR 0x0A])" by simp
  also have "\<dots> = splitlines (x @ [CHR 0x0A]) @ splitlines (join_str [CHR 0x0A] (y # xs) @ [CHR 0x0A])"
    by (subst (1 2) splitlines_def, rule splitlines_from_append) simp_all
  also have "\<dots> = [x] @ (y # xs)" using 3 by (simp add: splitlines_def splitlines_from_plain)
  finally show ?case by simp
qed (simp_all add: splitlines_def splitlines_from_plain)

end
