(* ===== verification/Work_Units.thy ===== *)
theory Work_Units
  imports Pipeline_State Py_Text
begin

text \<open>
  Work units of a plan artifact: \<^verbatim>\<open>ralph/pipeline/work_unit.py\<close> (validation) and
  \<^verbatim>\<open>ralph/pipeline/work_units.py\<close> (best-effort extraction and the selection of units that may be
  dispatched to workers).

  An artifact is a decoded JSON object.  A path is what \<^verbatim>\<open>PurePosixPath\<close> makes of it: its parts
  without empty and single-dot components.  Printing a description that is not a string needs
  \<^verbatim>\<open>repr\<close> of floats, which is the parameter \<open>float_repr\<close>; nothing depends on its value.

  The dispatch selection is related to the inductive predicate \<open>runnable\<close>, and the check of the
  step graph to the existence of a cycle.
\<close>

section \<open>Paths and identifiers\<close>

definition path_parts :: "string \<Rightarrow> string list" where
  "path_parts p = filter (\<lambda>c. c \<noteq> [] \<and> c \<noteq> ''.'') (split_on (CHR ''/'') p)"

definition path_is_absolute :: "string \<Rightarrow> bool" where
  "path_is_absolute p = starts_with p ''/''"

definition forbidden_parts :: "string list" where
  "forbidden_parts = [''..'', ''.agent'', ''.git'', ''.worktrees'']"

definition unsafe_path :: "string \<Rightarrow> bool" where
  "unsafe_path p =
     (path_parts p = [] \<or> path_is_absolute p \<or> CHR 0x5C \<in> set p
      \<or> list_ex (\<lambda>part. part \<in> set forbidden_parts) (path_parts p))"

definition sanitize_step :: "string list \<Rightarrow> string \<Rightarrow> string list" where
  "sanitize_step safe p =
     (if unsafe_path p then safe
      else let normalized = join_str ''/'' (path_parts p)
           in if normalized \<in> set safe then safe else safe @ [normalized])"

definition sanitize_ownership_paths :: "string list \<Rightarrow> string list" where
  "sanitize_ownership_paths ps = foldl sanitize_step [] ps"

definition validate_relative_subpath :: "string \<Rightarrow> string res" where
  "validate_relative_subpath p =
     (if p = [] then Inl (ValueError ''allowed_directories entries must be non-empty'')
      else if CHR 0x5C \<in> set p then Inl (ValueError (''allowed_directories entries must use '' @ [CHR 0x27, CHR ''/'', CHR 0x27] @ '' separators''))
      else if path_is_absolute p then Inl (ValueError ''allowed_directories entries must be relative paths'')
      else if ''..'' \<in> set (path_parts p) then Inl (ValueError (''allowed_directories entries must not contain '' @ [CHR 0x27] @ ''..'' @ [CHR 0x27]))
      else Inr p)"

definition rejected :: "'a res \<Rightarrow> bool" where
  "rejected r = (case r of Inl _ \<Rightarrow> True | Inr _ \<Rightarrow> False)"

definition unit_id_char :: "char \<Rightarrow> bool" where
  "unit_id_char c =
     (let n = of_char c :: nat
      in 97 \<le> n \<and> n \<le> 122 \<or> 65 \<le> n \<and> n \<le> 90 \<or> 48 \<le> n \<and> n \<le> 57 \<or> c = CHR ''_'' \<or> c = CHR ''-'')"

definition UNIT_ID_MAX_LEN :: nat where
  "UNIT_ID_MAX_LEN = 64"

definition valid_unit_id :: "string \<Rightarrow> bool" where
  "valid_unit_id v = (v \<noteq> [] \<and> length v \<le> UNIT_ID_MAX_LEN \<and> list_all unit_id_char v)"

text \<open>The pattern \<^verbatim>\<open>S-[1-9][0-9]*\<close>.\<close>

definition is_step_ref :: "string \<Rightarrow> bool" where
  "is_step_ref s =
     (starts_with s ''S-''
      \<and> (case drop 2 s of [] \<Rightarrow> False | c # cs \<Rightarrow> is_digit c \<and> c \<noteq> CHR ''0'' \<and> list_all is_digit cs))"

definition validate_work_unit :: "work_unit \<Rightarrow> work_unit res" where
  "validate_work_unit u =
     (if \<not> valid_unit_id (unit_id u) then Inl (ValueError ''unit_id'')
      else if description u = [] then Inl (ValueError ''description'')
      else if list_ex (\<lambda>p. rejected (validate_relative_subpath p)) (allowed_directories u)
        then Inl (ValueError ''allowed_directories'')
      else if list_ex (\<lambda>p. rejected (validate_relative_subpath p)) (paths u) then Inl (ValueError ''paths'')
      else if \<not> list_all is_step_ref (step_ids u) then Inl (ValueError ''step_ids entries must use the S-<positive-number> form'')
      else if \<not> distinct (step_ids u) then Inl (ValueError ''step_ids entries must be unique'')
      else Inr u)"

section \<open>Extraction\<close>

definition jlist :: "json option \<Rightarrow> json list" where
  "jlist v = (case v of Some (JList xs) \<Rightarrow> xs | _ \<Rightarrow> [])"

definition string_list :: "json option \<Rightarrow> string list" where
  "string_list v = concat (map (\<lambda>j. case j of JStr s \<Rightarrow> [s] | _ \<Rightarrow> []) (jlist v))"

text \<open>\<^verbatim>\<open>d.get(k, dflt)\<close> and \<^verbatim>\<open>a or b\<close> on optional values.\<close>

definition get_or_get :: "json dict \<Rightarrow> string \<Rightarrow> string \<Rightarrow> json option" where
  "get_or_get d k1 k2 = (case dget d k1 of Some v \<Rightarrow> Some v | None \<Rightarrow> dget d k2)"

definition truthy_get :: "json dict \<Rightarrow> string \<Rightarrow> string \<Rightarrow> json option" where
  "truthy_get d k1 k2 =
     (case dget d k1 of Some v \<Rightarrow> if json_bool v then Some v else dget d k2 | None \<Rightarrow> dget d k2)"

definition step_ref :: "json dict \<Rightarrow> string option" where
  "step_ref step =
     (let candidate = (case truthy_get step ''id'' ''step_id'' of
                         Some (JStr s) \<Rightarrow> s
                       | _ \<Rightarrow> (case dget step ''number'' of Some (JInt n) \<Rightarrow> ''S-'' @ str_int n | _ \<Rightarrow> []))
      in if is_step_ref candidate then Some candidate else None)"

definition plan_steps :: "json dict \<Rightarrow> json dict list" where
  "plan_steps artifact =
     concat (map (\<lambda>j. case j of JObj step \<Rightarrow> [step] | _ \<Rightarrow> []) (jlist (dget artifact ''steps'')))"

definition target_paths :: "json dict \<Rightarrow> string list" where
  "target_paths step =
     concat (map (\<lambda>j. case j of
                        JObj target \<Rightarrow> (case dget target ''path'' of Some (JStr p) \<Rightarrow> [p] | _ \<Rightarrow> [])
                      | _ \<Rightarrow> []) (jlist (dget step ''targets'')))"

definition step_owned_paths :: "json dict \<Rightarrow> string list \<Rightarrow> string list" where
  "step_owned_paths artifact owned =
     concat (map (\<lambda>step. case step_ref step of
                           Some ref \<Rightarrow> if ref \<in> set owned
                             then sanitize_ownership_paths (string_list (dget step ''files'') @ target_paths step)
                             else []
                         | None \<Rightarrow> []) (plan_steps artifact))"

text \<open>\<^verbatim>\<open>str\<close> of a decoded value.\<close>

fun json_repr :: "(real \<Rightarrow> string) \<Rightarrow> json \<Rightarrow> string" where
  "json_repr fr JNull = ''None''"
| "json_repr fr (JBool b) = (if b then ''True'' else ''False'')"
| "json_repr fr (JInt i) = str_int i"
| "json_repr fr (JFloat r) = fr r"
| "json_repr fr (JStr s) = quoted s"
| "json_repr fr (JList xs) = ''['' @ join_str '', '' (map (json_repr fr) xs) @ '']''"
| "json_repr fr (JObj xs) =
     ''{'' @ join_str '', '' (map (\<lambda>(k, v). quoted k @ '': '' @ json_repr fr v) xs) @ ''}''"

definition unit_description :: "(real \<Rightarrow> string) \<Rightarrow> json dict \<Rightarrow> string \<Rightarrow> string" where
  "unit_description fr item uid =
     (case dget item ''description'' of
        Some (JStr s) \<Rightarrow> if s = [] then uid else s
      | Some v \<Rightarrow> if json_bool v then json_repr fr v else uid
      | None \<Rightarrow> uid)"

definition extract_unit :: "(real \<Rightarrow> string) \<Rightarrow> json dict \<Rightarrow> json dict \<Rightarrow> string \<Rightarrow> work_unit" where
  "extract_unit fr artifact item uid =
     (let ownership = (case dget item ''edit_area'' of Some (JObj ea) \<Rightarrow> ea | _ \<Rightarrow> item);
          directories = string_list (get_or_get ownership ''directories'' ''allowed_directories'');
          own_paths = string_list (get_or_get ownership ''paths'' ''allowed_paths'');
          files = string_list (dget item ''files'');
          owned_steps = foldl (\<lambda>acc r. if is_step_ref r \<and> r \<notin> set acc then acc @ [r] else acc) []
                          (string_list (dget item ''step_ids''));
          safe_paths = sanitize_ownership_paths (own_paths @ files)
                       @ (if directories = [] \<and> own_paths = [] \<and> files = []
                          then step_owned_paths artifact owned_steps else [])
      in \<lparr>unit_id = uid, description = unit_description fr item uid,
          allowed_directories = sanitize_ownership_paths directories,
          paths = sanitize_ownership_paths safe_paths,
          dependencies = string_list (get_or_get item ''dependencies'' ''depends_on''),
          step_ids = owned_steps\<rparr>)"

fun extract_units ::
  "(real \<Rightarrow> string) \<Rightarrow> json dict \<Rightarrow> json list \<Rightarrow> string list \<Rightarrow> work_unit list" where
  "extract_units fr artifact [] seen = []"
| "extract_units fr artifact (item # rest) seen =
     (case item of
        JObj d \<Rightarrow>
          (case get_or_get d ''unit_id'' ''id'' of
             Some (JStr uid) \<Rightarrow>
               if uid \<in> set seen \<or> starts_with uid ''AC-'' then extract_units fr artifact rest seen
               else (case validate_work_unit (extract_unit fr artifact d uid) of
                       Inl _ \<Rightarrow> extract_units fr artifact rest seen
                     | Inr u \<Rightarrow> u # extract_units fr artifact rest (uid # seen))
           | _ \<Rightarrow> extract_units fr artifact rest seen)
      | _ \<Rightarrow> extract_units fr artifact rest seen)"

definition absent :: "json option \<Rightarrow> bool" where
  "absent v = (v = None \<or> v = Some JNull)"

definition parse_work_units_from_artifact :: "(real \<Rightarrow> string) \<Rightarrow> json dict \<Rightarrow> work_unit list option" where
  "parse_work_units_from_artifact fr artifact =
     (if absent (dget artifact ''work_units'') \<and> absent (dget artifact ''parallel_plan'') then None
      else Some (extract_units fr artifact
             (jlist (dget artifact ''work_units'') @ jlist (dget artifact ''parallel_plan'')) []))"

definition canonical_plan_references ::
  "(real \<Rightarrow> string) \<Rightarrow> json dict \<Rightarrow> string set \<times> string set \<times> string set" where
  "canonical_plan_references fr content =
     (let steps = set (List.map_filter step_ref (plan_steps content));
          units = (case parse_work_units_from_artifact fr content of Some us \<Rightarrow> us | None \<Rightarrow> [])
      in (steps, unit_id ` set units, \<Union> (set ` step_ids ` set units) \<inter> steps))"

section \<open>Dispatch\<close>

definition dispatch_candidates :: "work_unit list \<Rightarrow> work_unit dict" where
  "dispatch_candidates units =
     foldl (\<lambda>d u. dset (unit_id u)
              (u\<lparr>allowed_directories := sanitize_ownership_paths (allowed_directories u),
                 paths := sanitize_ownership_paths (paths u)\<rparr>) d) [] units"

text \<open>
  The loop takes, round by round, every key that is not yet taken and whose entry is admitted by
  what has been taken, and ends when a round takes nothing.
\<close>

function saturate :: "('k list \<Rightarrow> 'v \<Rightarrow> bool) \<Rightarrow> ('k, 'v) pydict \<Rightarrow> 'k list \<Rightarrow> 'k list" where
  "saturate admits d taken =
     (let ready = map fst (filter (\<lambda>kv. fst kv \<notin> set taken \<and> admits taken (snd kv)) d)
      in if ready = [] then taken else saturate admits d (taken @ ready))"
  by pat_completeness auto
termination
proof (relation "measure (\<lambda>(admits, d, taken). card (set (dkeys d) - set taken))", goal_cases)
  case (2 admits d taken ready)
  from 2(2) obtain k ks where "ready = k # ks" by (cases ready) auto
  then have k: "k \<in> set ready" by simp
  have sub: "set ready \<subseteq> set (dkeys d) - set taken" using 2(1) by (auto simp: dkeys_def)
  have "set (dkeys d) - set (taken @ ready) \<subset> set (dkeys d) - set taken" using k sub by auto
  then show ?case by (auto intro: psubset_card_mono)
qed simp

declare saturate.simps [simp del]

definition unit_admitted :: "string list \<Rightarrow> work_unit \<Rightarrow> bool" where
  "unit_admitted reachable u =
     ((allowed_directories u \<noteq> [] \<or> paths u \<noteq> [])
      \<and> list_all (\<lambda>dep. dep \<in> set reachable) (dependencies u))"

definition dispatchable_work_units :: "work_unit list \<Rightarrow> work_unit list" where
  "dispatchable_work_units units =
     (let cands = dispatch_candidates units; reachable = saturate unit_admitted cands []
      in List.map_filter (\<lambda>u. if unit_id u \<in> set reachable then dget cands (unit_id u) else None) units)"

section \<open>The step graph\<close>

definition step_dependencies :: "json dict \<Rightarrow> string list" where
  "step_dependencies step =
     concat (map (\<lambda>j. case j of JInt n \<Rightarrow> [''S-'' @ str_int n] | _ \<Rightarrow> []) (jlist (dget step ''depends_on'')))"

definition step_graph :: "json dict \<Rightarrow> (string list) dict" where
  "step_graph artifact =
     foldl (\<lambda>g step. case step_ref step of None \<Rightarrow> g | Some ref \<Rightarrow> dset ref (step_dependencies step) g)
       [] (plan_steps artifact)"

text \<open>
  \<^verbatim>\<open>TopologicalSorter(graph).static_order()\<close>: nodes are taken off once all their predecessors
  are; a node that is never taken off lies on or behind a cycle, and \<^verbatim>\<open>CycleError\<close> is raised.
\<close>

definition node_admitted :: "string list \<Rightarrow> string list \<Rightarrow> bool" where
  "node_admitted taken ds = list_all (\<lambda>d. d \<in> set taken) ds"

definition static_order :: "(string list) dict \<Rightarrow> string list" where
  "static_order g = saturate node_admitted g []"

definition raises_cycle_error :: "(string list) dict \<Rightarrow> bool" where
  "raises_cycle_error g = list_ex (\<lambda>k. k \<notin> set (static_order g)) (dkeys g)"

definition has_unsafe_step_graph :: "json dict \<Rightarrow> bool" where
  "has_unsafe_step_graph artifact =
     (let g = step_graph artifact
      in list_ex (\<lambda>(_, ds). list_ex (\<lambda>d. \<not> din d g) ds) g \<or> raises_cycle_error g)"

definition unextractable_item :: "string set \<Rightarrow> json \<Rightarrow> bool" where
  "unextractable_item ids item =
     (case item of
        JObj d \<Rightarrow> (case get_or_get d ''unit_id'' ''id'' of Some (JStr uid) \<Rightarrow> uid \<notin> ids | _ \<Rightarrow> True)
      | _ \<Rightarrow> True)"

definition has_unextractable_work_units :: "(real \<Rightarrow> string) \<Rightarrow> json dict \<Rightarrow> bool" where
  "has_unextractable_work_units fr artifact =
     (if dget artifact ''unextractable_work_units'' = Some (JBool True) \<or> has_unsafe_step_graph artifact then True
      else let ids = (case parse_work_units_from_artifact fr artifact of
                        Some us \<Rightarrow> unit_id ` set us | None \<Rightarrow> {})
           in list_ex (unextractable_item ids)
                (jlist (dget artifact ''work_units'') @ jlist (dget artifact ''parallel_plan'')))"

section \<open>Saturation\<close>

text \<open>
  The contract of the loop for an admission that only grows with what has been taken: every key
  taken is derivable, and every entry that the result admits has been taken.
\<close>

locale admission =
  fixes admits :: "'k list \<Rightarrow> 'v \<Rightarrow> bool"
  assumes admits_mono: "set taken \<subseteq> set taken' \<Longrightarrow> admits taken v \<Longrightarrow> admits taken' v"
begin

lemma saturate_sound:
  assumes "\<forall>k\<in>set taken. P k"
    and "\<And>taken k v. (k, v) \<in> set d \<Longrightarrow> admits taken v \<Longrightarrow> \<forall>k\<in>set taken. P k \<Longrightarrow> P k"
  shows "\<forall>k\<in>set (saturate admits d taken). P k"
  using assms
proof (induction admits d taken rule: saturate.induct)
  case (1 admits d taken)
  let ?ready = "map fst (filter (\<lambda>kv. fst kv \<notin> set taken \<and> admits taken (snd kv)) d)"
  have "\<forall>k\<in>set (taken @ ?ready). P k" using "1.prems" by (auto simp: ball_Un)
  then show ?case
    using 1 by (subst saturate.simps) (simp add: Let_def)
qed

lemma saturate_extends: "set taken \<subseteq> set (saturate admits d taken)"
proof (induction admits d taken rule: saturate.induct)
  case (1 admits d taken)
  then show ?case by (subst saturate.simps) (force simp: Let_def)
qed

lemma saturate_closed:
  assumes "(k, v) \<in> set d" "admits (saturate admits d taken) v"
  shows "k \<in> set (saturate admits d taken)"
  using assms
proof (induction admits d taken rule: saturate.induct)
  case (1 admits d taken)
  let ?ready = "map fst (filter (\<lambda>kv. fst kv \<notin> set taken \<and> admits taken (snd kv)) d)"
  show ?case
  proof (cases "?ready = []")
    case True
    then have "saturate admits d taken = taken" by (subst saturate.simps) (simp add: Let_def)
    with True 1(2,3) show ?thesis by (auto simp: filter_empty_conv)
  next
    case False
    then have "saturate admits d taken = saturate admits d (taken @ ?ready)"
      by (subst saturate.simps) (simp add: Let_def)
    with False 1 show ?thesis by simp
  qed
qed

lemma saturate_supported:
  assumes "\<forall>k\<in>set taken. \<exists>v. (k, v) \<in> set d \<and> admits taken v"
  shows "\<forall>k\<in>set (saturate admits d taken). \<exists>v. (k, v) \<in> set d \<and> admits (saturate admits d taken) v"
  using assms admits_mono
proof (induction admits d taken rule: saturate.induct)
  case (1 admits d taken)
  let ?ready = "map fst (filter (\<lambda>kv. fst kv \<notin> set taken \<and> admits taken (snd kv)) d)"
  show ?case
  proof (cases "?ready = []")
    case True
    then have "saturate admits d taken = taken" by (subst saturate.simps) (simp add: Let_def)
    with 1(2) show ?thesis by simp
  next
    case False
    then have step: "saturate admits d taken = saturate admits d (taken @ ?ready)"
      by (subst saturate.simps) (simp add: Let_def)
    have grows: "admits taken v \<Longrightarrow> admits (taken @ ?ready) v" for v
      by (rule "1.prems"(2)) simp_all
    have "\<exists>v. (k, v) \<in> set d \<and> admits (taken @ ?ready) v" if k: "k \<in> set (taken @ ?ready)" for k
    proof -
      from k "1.prems"(1) obtain v where "(k, v) \<in> set d" "admits taken v" by auto
      with grows show ?thesis by blast
    qed
    then have "\<forall>k\<in>set (taken @ ?ready). \<exists>v. (k, v) \<in> set d \<and> admits (taken @ ?ready) v" by blast
    from "1.IH" [OF refl False this "1.prems"(2)] show ?thesis unfolding step .
  qed
qed

lemma saturate_fixpoint:
  "k \<in> set (saturate admits d []) \<longleftrightarrow> (\<exists>v. (k, v) \<in> set d \<and> admits (saturate admits d []) v)"
  using saturate_supported [of "[]" d] saturate_closed [of k _ d "[]"] by auto

end

interpretation units_adm: admission unit_admitted
  by unfold_locales (auto simp: unit_admitted_def list_all_iff)

interpretation nodes_adm: admission node_admitted
  by unfold_locales (auto simp: node_admitted_def list_all_iff)

section \<open>What is dispatched\<close>

text \<open>The units whose complete prerequisite graph is runnable, and cycles of the step graph.\<close>

inductive runnable :: "work_unit dict \<Rightarrow> string \<Rightarrow> bool" for cands where
  runnable_unit: "(k, u) \<in> set cands \<Longrightarrow> allowed_directories u \<noteq> [] \<or> paths u \<noteq> [] \<Longrightarrow>
     (\<And>dep. dep \<in> set (dependencies u) \<Longrightarrow> runnable cands dep) \<Longrightarrow> runnable cands k"

definition step_edges :: "(string list) dict \<Rightarrow> (string \<times> string) set" where
  "step_edges g = {(k, d). \<exists>ds. (k, ds) \<in> set g \<and> d \<in> set ds}"

lemma unit_admittedI:
  "allowed_directories u \<noteq> [] \<or> paths u \<noteq> [] \<Longrightarrow>
   (\<And>dep. dep \<in> set (dependencies u) \<Longrightarrow> dep \<in> set reachable) \<Longrightarrow> unit_admitted reachable u"
  by (auto simp: unit_admitted_def list_all_iff)

lemma reachable_iff_runnable:
  "k \<in> set (saturate unit_admitted cands []) \<longleftrightarrow> runnable cands k"
proof
  have "\<forall>k\<in>set (saturate unit_admitted cands []). runnable cands k"
    by (rule units_adm.saturate_sound)
      (auto simp: unit_admitted_def list_all_iff intro: runnable_unit)
  then show "k \<in> set (saturate unit_admitted cands []) \<Longrightarrow> runnable cands k" by blast
next
  show "runnable cands k \<Longrightarrow> k \<in> set (saturate unit_admitted cands [])"
  proof (induction rule: runnable.induct)
    case (runnable_unit k u)
    have "unit_admitted (saturate unit_admitted cands []) u"
      by (rule unit_admittedI) (fact runnable_unit)+
    with runnable_unit.hyps(1) show ?case by (rule units_adm.saturate_closed)
  qed
qed

lemma static_order_taken_acyclic:
  assumes "k \<in> set (static_order g)"
    and functional: "\<And>k ds ds'. (k, ds) \<in> set g \<Longrightarrow> (k, ds') \<in> set g \<Longrightarrow> ds = ds'"
  shows "(k, k) \<notin> (step_edges g)\<^sup>+"
proof -
  have "\<forall>k\<in>set (saturate node_admitted g []). (k, k) \<notin> (step_edges g)\<^sup>+"
  proof (rule nodes_adm.saturate_sound)
    fix taken k ds
    assume k: "(k, ds) \<in> set g" and adm: "node_admitted taken ds"
      and IH: "\<forall>k\<in>set taken. (k, k) \<notin> (step_edges g)\<^sup>+"
    show "(k, k) \<notin> (step_edges g)\<^sup>+"
    proof
      assume "(k, k) \<in> (step_edges g)\<^sup>+"
      then obtain d where d: "(k, d) \<in> step_edges g" and dk: "(d, k) \<in> (step_edges g)\<^sup>*"
        by (meson tranclD)
      from d k functional have "d \<in> set ds" by (auto simp: step_edges_def)
      with adm IH have "(d, d) \<notin> (step_edges g)\<^sup>+" by (auto simp: node_admitted_def list_all_iff)
      moreover from dk d have "(d, d) \<in> (step_edges g)\<^sup>+" by (rule rtrancl_into_trancl1)
      ultimately show False by contradiction
    qed
  qed simp
  with assms(1) show ?thesis by (simp add: static_order_def)
qed

lemma finite_step_edges: "finite (step_edges g)"
proof -
  have "step_edges g = (\<Union>(k, ds)\<in>set g. {k} \<times> set ds)" by (auto simp: step_edges_def)
  then show ?thesis by auto
qed

lemma acyclic_static_order_complete:
  assumes "acyclic (step_edges g)" and closed: "\<And>k d. (k, d) \<in> step_edges g \<Longrightarrow> d \<in> set (dkeys g)"
    and "k \<in> set (dkeys g)"
  shows "k \<in> set (static_order g)"
proof -
  have "wf ((step_edges g)\<inverse>)" using finite_acyclic_wf_converse [OF finite_step_edges assms(1)] .
  then show ?thesis using assms(3)
  proof (induction k rule: wf_induct_rule)
    case (less k)
    then obtain ds where k: "(k, ds) \<in> set g" by (auto simp: dkeys_def)
    have "node_admitted (static_order g) ds"
      unfolding node_admitted_def list_all_iff
    proof
      fix d assume "d \<in> set ds"
      with k have "(k, d) \<in> step_edges g" by (auto simp: step_edges_def)
      with less.IH closed show "d \<in> set (static_order g)" by blast
    qed
    with k show ?case unfolding static_order_def by (rule nodes_adm.saturate_closed)
  qed
qed

lemma raises_cycle_error_iff:
  assumes "distinct (dkeys g)" and closed: "\<And>k d. (k, d) \<in> step_edges g \<Longrightarrow> d \<in> set (dkeys g)"
  shows "raises_cycle_error g \<longleftrightarrow> (\<exists>k. (k, k) \<in> (step_edges g)\<^sup>+)"
proof
  assume "raises_cycle_error g"
  then obtain k where "k \<in> set (dkeys g)" "k \<notin> set (static_order g)"
    by (auto simp: raises_cycle_error_def list_ex_iff)
  then have "\<not> acyclic (step_edges g)" by (metis acyclic_static_order_complete closed)
  then show "\<exists>k. (k, k) \<in> (step_edges g)\<^sup>+" by (simp add: acyclic_def)
next
  assume "\<exists>k. (k, k) \<in> (step_edges g)\<^sup>+"
  then obtain k where k: "(k, k) \<in> (step_edges g)\<^sup>+" ..
  then obtain d where "(k, d) \<in> step_edges g" by (meson tranclD)
  then have "k \<in> set (dkeys g)" by (force simp: step_edges_def dkeys_def)
  moreover have "k \<notin> set (static_order g)"
    using static_order_taken_acyclic [of k g] k assms(1)
    by (auto simp: dkeys_def dest: eq_key_imp_eq_value)
  ultimately show "raises_cycle_error g" by (auto simp: raises_cycle_error_def list_ex_iff)
qed

lemma distinct_step_graph: "distinct (dkeys (step_graph artifact))"
proof -
  have "distinct (dkeys g) \<Longrightarrow>
    distinct (dkeys (foldl (\<lambda>g step. case step_ref step of None \<Rightarrow> g
      | Some ref \<Rightarrow> dset ref (step_dependencies step) g) g steps))" for g steps
    by (induction steps arbitrary: g) (auto simp: distinct_dkeys_dset split: option.splits)
  then show ?thesis by (simp add: step_graph_def)
qed

lemma dget_candidates:
  "dget (dispatch_candidates units) k =
     map_option (\<lambda>u. u\<lparr>allowed_directories := sanitize_ownership_paths (allowed_directories u),
                        paths := sanitize_ownership_paths (paths u)\<rparr>)
       (List.find (\<lambda>u. unit_id u = k) (rev units))"
proof (induction units rule: rev_induct)
  case (snoc u units)
  then show ?case by (auto simp: dispatch_candidates_def)
qed (simp add: dispatch_candidates_def)

text \<open>
  The check of the step graph answers true exactly when a step depends on a step the plan does not
  have, or when some step reaches itself through the dependencies.
\<close>

theorem unsafe_step_graph_iff:
  "has_unsafe_step_graph artifact \<longleftrightarrow>
     (\<exists>k d. (k, d) \<in> step_edges (step_graph artifact) \<and> d \<notin> set (dkeys (step_graph artifact)))
     \<or> (\<exists>k. (k, k) \<in> (step_edges (step_graph artifact))\<^sup>+)"
proof -
  let ?g = "step_graph artifact"
  have dangling: "list_ex (\<lambda>(_, ds). list_ex (\<lambda>d. \<not> din d ?g) ds) ?g
      \<longleftrightarrow> (\<exists>k d. (k, d) \<in> step_edges ?g \<and> d \<notin> set (dkeys ?g))"
    by (auto simp: list_ex_iff step_edges_def din_iff)
  show ?thesis
  proof (cases "\<exists>k d. (k, d) \<in> step_edges ?g \<and> d \<notin> set (dkeys ?g)")
    case True
    then show ?thesis unfolding has_unsafe_step_graph_def Let_def dangling by simp
  next
    case False
    then have "raises_cycle_error ?g \<longleftrightarrow> (\<exists>k. (k, k) \<in> (step_edges ?g)\<^sup>+)"
      by (intro raises_cycle_error_iff distinct_step_graph) auto
    with False show ?thesis unfolding has_unsafe_step_graph_def Let_def dangling by simp
  qed
qed

text \<open>
  C38: The units handed to workers are exactly, in the order of the plan, those whose complete
  prerequisite graph is runnable.
\<close>

theorem dispatch_is_runnable:
  "dispatchable_work_units units =
     List.map_filter
       (\<lambda>u. if runnable (dispatch_candidates units) (unit_id u)
            then dget (dispatch_candidates units) (unit_id u) else None) units"
  by (simp add: dispatchable_work_units_def Let_def reachable_iff_runnable)

section \<open>Ownership paths\<close>

lemma split_on_sep_free: "x \<in> set (split_on c s) \<Longrightarrow> c \<notin> set x"
  by (induction s arbitrary: x) (auto split: if_splits list.splits)

lemma split_on_join:
  assumes "xs \<noteq> []" "\<forall>x\<in>set xs. c \<notin> set x"
  shows "split_on c (join_str [c] xs) = xs"
  using assms by (induction "[c]" xs rule: join_str.induct) (auto simp: split_on_none split_on_append)

definition plain_parts :: "string list \<Rightarrow> bool" where
  "plain_parts ps =
     (ps \<noteq> [] \<and> (\<forall>p\<in>set ps. p \<noteq> [] \<and> p \<noteq> ''.'' \<and> p \<notin> set forbidden_parts
        \<and> CHR ''/'' \<notin> set p \<and> CHR 0x5C \<notin> set p))"

definition safe_path :: "string \<Rightarrow> bool" where
  "safe_path p = (\<exists>ps. plain_parts ps \<and> p = join_str ''/'' ps)"

lemma path_parts_join: "plain_parts ps \<Longrightarrow> path_parts (join_str ''/'' ps) = ps"
  by (subst path_parts_def, subst split_on_join) (auto simp: plain_parts_def)

lemma set_join_str: "set (join_str sep xs) \<subseteq> set sep \<union> (\<Union>x\<in>set xs. set x)"
  by (induction sep xs rule: join_str.induct) auto

lemma split_on_chars: "x \<in> set (split_on c s) \<Longrightarrow> set x \<subseteq> set s"
  by (induction s arbitrary: x) (fastforce split: if_splits list.splits)+

lemma plain_path_parts: "\<not> unsafe_path p \<Longrightarrow> plain_parts (path_parts p)"
  using split_on_chars [of _ "CHR ''/''" p] split_on_sep_free [of _ "CHR ''/''" p]
  by (fastforce simp: unsafe_path_def plain_parts_def path_parts_def list_ex_iff)

lemma join_plain_relative: "plain_parts ps \<Longrightarrow> \<not> path_is_absolute (join_str ''/'' ps)"
proof -
  assume ps: "plain_parts ps"
  then obtain p qs where [simp]: "ps = p # qs" by (cases ps) (auto simp: plain_parts_def)
  from ps obtain c cs where [simp]: "p = c # cs" by (cases p) (auto simp: plain_parts_def)
  obtain rest where "join_str ''/'' ps = c # rest" by (cases qs) auto
  with ps show ?thesis by (auto simp: path_is_absolute_def starts_with_def plain_parts_def)
qed

lemma safe_path_not_unsafe: "safe_path p \<Longrightarrow> \<not> unsafe_path p \<and> join_str ''/'' (path_parts p) = p"
proof -
  assume "safe_path p"
  then obtain ps where ps: "plain_parts ps" and p: "p = join_str ''/'' ps" by (auto simp: safe_path_def)
  have parts: "path_parts p = ps" using ps p by (simp add: path_parts_join)
  have "CHR 0x5C \<notin> set p" using ps set_join_str [of "''/''" ps] by (auto simp: p plain_parts_def)
  moreover have "\<not> path_is_absolute p"
    unfolding p using ps by (rule join_plain_relative)
  ultimately show ?thesis
    using ps unfolding unsafe_path_def parts by (auto simp: plain_parts_def list_ex_iff p)
qed

lemma sanitize_safe:
  assumes "\<forall>p\<in>set safe. safe_path p" "distinct safe"
  shows "(\<forall>p\<in>set (foldl sanitize_step safe ps). safe_path p) \<and> distinct (foldl sanitize_step safe ps)"
  using assms
proof (induction ps arbitrary: safe)
  case (Cons p ps)
  have "(\<forall>q\<in>set (sanitize_step safe p). safe_path q) \<and> distinct (sanitize_step safe p)"
    using Cons.prems plain_path_parts [of p] by (auto simp: sanitize_step_def Let_def safe_path_def)
  then show ?case using Cons.IH [of "sanitize_step safe p"] by simp
qed simp

lemma sanitize_safe_id:
  assumes "\<forall>p\<in>set ps. safe_path p" "distinct (safe @ ps)"
  shows "foldl sanitize_step safe ps = safe @ ps"
  using assms
proof (induction ps arbitrary: safe)
  case (Cons p ps)
  then have "sanitize_step safe p = safe @ [p]"
    using safe_path_not_unsafe [of p] by (simp add: sanitize_step_def)
  with Cons show ?case by simp
qed simp

lemma sanitized_paths:
  "(\<forall>p\<in>set (sanitize_ownership_paths ps). safe_path p) \<and> distinct (sanitize_ownership_paths ps)"
  unfolding sanitize_ownership_paths_def by (rule sanitize_safe) simp_all

lemma sanitize_idem [simp]:
  "sanitize_ownership_paths (sanitize_ownership_paths ps) = sanitize_ownership_paths ps"
  using sanitized_paths [of ps] sanitize_safe_id [of "sanitize_ownership_paths ps" "[]"]
  by (simp add: sanitize_ownership_paths_def)

section \<open>Extracted plans\<close>

definition bounded_unit :: "work_unit \<Rightarrow> bool" where
  "bounded_unit u =
     (validate_work_unit u = Inr u \<and> \<not> starts_with (unit_id u) ''AC-''
      \<and> sanitize_ownership_paths (allowed_directories u) = allowed_directories u
      \<and> sanitize_ownership_paths (paths u) = paths u)"

lemma validate_work_unit_InrD: "validate_work_unit u = Inr v \<Longrightarrow> v = u"
  by (simp add: validate_work_unit_def split: if_splits)

lemma extract_unit_fields [simp]:
  "unit_id (extract_unit fr a d uid) = uid"
  "sanitize_ownership_paths (allowed_directories (extract_unit fr a d uid)) =
     allowed_directories (extract_unit fr a d uid)"
  "sanitize_ownership_paths (paths (extract_unit fr a d uid)) = paths (extract_unit fr a d uid)"
  by (simp_all add: extract_unit_def Let_def)

lemma extract_units_bounded:
  "distinct (map unit_id (extract_units fr a items seen))
   \<and> set (map unit_id (extract_units fr a items seen)) \<inter> set seen = {}
   \<and> list_all bounded_unit (extract_units fr a items seen)"
proof (induction items arbitrary: seen)
  case (Cons item rest)
  show ?case
  proof (cases "\<exists>d uid u. item = JObj d \<and> get_or_get d ''unit_id'' ''id'' = Some (JStr uid)
      \<and> uid \<notin> set seen \<and> \<not> starts_with uid ''AC-'' \<and> validate_work_unit (extract_unit fr a d uid) = Inr u")
    case True
    then obtain d uid u where item: "item = JObj d" and uid: "get_or_get d ''unit_id'' ''id'' = Some (JStr uid)"
      and new: "uid \<notin> set seen" "\<not> starts_with uid ''AC-''"
      and valid: "validate_work_unit (extract_unit fr a d uid) = Inr u" by blast
    have u: "u = extract_unit fr a d uid" using validate_work_unit_InrD [OF valid] .
    then have "bounded_unit u" "unit_id u = uid" using valid new by (simp_all add: bounded_unit_def)
    moreover have "extract_units fr a (item # rest) seen = u # extract_units fr a rest (uid # seen)"
      using item uid new valid by simp
    ultimately show ?thesis using Cons.IH [of "uid # seen"] new by auto
  next
    case False
    then have "extract_units fr a (item # rest) seen = extract_units fr a rest seen"
      by (auto split: json.splits option.splits sum.splits)
    with Cons.IH show ?thesis by simp
  qed
qed simp

lemma candidates_of_bounded:
  assumes "distinct (map unit_id us)" "list_all bounded_unit us"
  shows "dispatch_candidates us = map (\<lambda>u. (unit_id u, u)) us"
  using assms
proof (induction us rule: rev_induct)
  case (snoc u us)
  have same: "u\<lparr>allowed_directories := sanitize_ownership_paths (allowed_directories u),
                 paths := sanitize_ownership_paths (paths u)\<rparr> = u"
    using snoc.prems(2) by (simp add: bounded_unit_def)
  have "dset (unit_id u) u (dispatch_candidates us) = dispatch_candidates us @ [(unit_id u, u)]"
    using snoc by (simp add: image_image dset_fresh din_iff dkeys_def)
  then show ?case using snoc same by (simp add: dispatch_candidates_def)
qed (simp add: dispatch_candidates_def)

lemma dispatch_of_bounded:
  assumes "distinct (map unit_id us)" "list_all bounded_unit us"
  shows "dispatchable_work_units us =
     filter (\<lambda>u. runnable (map (\<lambda>u. (unit_id u, u)) us) (unit_id u)) us"
proof -
  let ?c = "map (\<lambda>u. (unit_id u, u)) us"
  have find: "dget ?c (unit_id u) = Some u" if "u \<in> set us" for u
    using that assms(1) by (auto simp: dget_def o_def intro!: map_of_is_SomeI)
  have "List.map_filter (\<lambda>u. if runnable ?c (unit_id u) then dget ?c (unit_id u) else None) vs =
      filter (\<lambda>u. runnable ?c (unit_id u)) vs" if "set vs \<subseteq> set us" for vs
    using that by (induction vs) (auto simp: find)
  then show ?thesis
    by (simp add: dispatchable_work_units_def reachable_iff_runnable Let_def
        candidates_of_bounded [OF assms])
qed

text \<open>
  Extraction from a plan artifact: identifiers are distinct, every unit passes its own validation,
  none is an acceptance criterion, and every ownership path is already in its sanitised form, so
  that dispatch hands out the extracted units themselves, those that are runnable, in plan order.
\<close>

theorem extracted_units_bounded:
  assumes "parse_work_units_from_artifact fr artifact = Some us"
  shows "distinct (map unit_id us) \<and> list_all bounded_unit us
    \<and> dispatchable_work_units us =
        filter (\<lambda>u. runnable (map (\<lambda>u. (unit_id u, u)) us) (unit_id u)) us"
proof -
  obtain items where "us = extract_units fr artifact items []"
    using assms by (auto simp: parse_work_units_from_artifact_def split: if_splits)
  then have "distinct (map unit_id us)" "list_all bounded_unit us"
    using extract_units_bounded [of fr artifact items "[]"] by simp_all
  then show ?thesis using dispatch_of_bounded by blast
qed

definition sample_plan :: "json dict" where
  "sample_plan =
     [(''work_units'', JList
        [JObj [(''unit_id'', JStr ''api''), (''paths'', JList [JStr ''./src//api'', JStr ''../x''])],
         JObj [(''unit_id'', JStr ''ui''), (''depends_on'', JList [JStr ''api'']), (''files'', JList [JStr ''ui.py''])],
         JObj [(''unit_id'', JStr ''lost''), (''depends_on'', JList [JStr ''gone'']), (''files'', JList [JStr ''l.py''])],
         JObj [(''unit_id'', JStr ''AC-1'')]])]"

theorem extracted_units_bounded_witness:
  "map unit_id (the (parse_work_units_from_artifact (\<lambda>_. []) sample_plan)) = [''api'', ''ui'', ''lost'']
   \<and> list_all bounded_unit (the (parse_work_units_from_artifact (\<lambda>_. []) sample_plan))
   \<and> map unit_id (dispatchable_work_units (the (parse_work_units_from_artifact (\<lambda>_. []) sample_plan)))
     = [''api'', ''ui'']"
proof -
  have ids: "map unit_id (the (parse_work_units_from_artifact (\<lambda>_. []) sample_plan)) = [''api'', ''ui'', ''lost'']"
    by code_simp
  have disp: "map unit_id (dispatchable_work_units (the (parse_work_units_from_artifact (\<lambda>_. []) sample_plan)))
     = [''api'', ''ui'']" by code_simp
  have "parse_work_units_from_artifact (\<lambda>_. []) sample_plan =
      Some (the (parse_work_units_from_artifact (\<lambda>_. []) sample_plan))" by code_simp
  from extracted_units_bounded [OF this] ids disp show ?thesis by simp
qed

section \<open>Closure of a dispatch\<close>

lemma distinct_candidates: "distinct (dkeys (dispatch_candidates units))"
  by (induction units rule: rev_induct) (auto simp: dispatch_candidates_def distinct_dkeys_dset)

lemma candidate_iff: "(k, u) \<in> set (dispatch_candidates units) \<longleftrightarrow> dget (dispatch_candidates units) k = Some u"
  using distinct_candidates [of units] by (simp add: dget_def dkeys_def)

lemma candidate_id:
  "dget (dispatch_candidates units) k = Some u \<Longrightarrow> unit_id u = k \<and> (\<exists>v\<in>set units. unit_id v = k)"
  by (auto simp: dget_candidates find_Some_iff) (metis nth_mem set_rev length_rev)+

lemma in_map_filter: "x \<in> set (List.map_filter f xs) \<longleftrightarrow> (\<exists>y\<in>set xs. f y = Some x)"
  by (induction xs) (auto split: option.split)

lemma dispatched_iff:
  "u \<in> set (dispatchable_work_units units) \<longleftrightarrow>
     runnable (dispatch_candidates units) (unit_id u) \<and> dget (dispatch_candidates units) (unit_id u) = Some u"
proof -
  have "u \<in> set (dispatchable_work_units units) \<longleftrightarrow>
      (\<exists>v\<in>set units. runnable (dispatch_candidates units) (unit_id v)
         \<and> dget (dispatch_candidates units) (unit_id v) = Some u)"
    by (auto simp: dispatchable_work_units_def reachable_iff_runnable Let_def in_map_filter split: if_splits)
  then show ?thesis using candidate_id [of units] by metis
qed

lemma dispatch_closed:
  assumes "u \<in> set (dispatchable_work_units units)"
  shows "(allowed_directories u \<noteq> [] \<or> paths u \<noteq> [])
    \<and> set (dependencies u) \<subseteq> unit_id ` set (dispatchable_work_units units)"
proof -
  from assms have run: "runnable (dispatch_candidates units) (unit_id u)"
    and u: "dget (dispatch_candidates units) (unit_id u) = Some u" by (simp_all add: dispatched_iff)
  from run obtain v where v: "dget (dispatch_candidates units) (unit_id u) = Some v"
      "allowed_directories v \<noteq> [] \<or> paths v \<noteq> []"
      "\<And>dep. dep \<in> set (dependencies v) \<Longrightarrow> runnable (dispatch_candidates units) dep"
    by (auto elim: runnable.cases simp: candidate_iff)
  have "dep \<in> unit_id ` set (dispatchable_work_units units)" if "runnable (dispatch_candidates units) dep" for dep
  proof -
    from that obtain w where w: "dget (dispatch_candidates units) dep = Some w"
      by (auto elim: runnable.cases simp: candidate_iff)
    then have "unit_id w = dep" using candidate_id by blast
    with that w show ?thesis by (auto simp: dispatched_iff intro!: image_eqI [of _ _ w])
  qed
  with u v show ?thesis by auto
qed

end
