(* ===== verification/Commit_Paths.thy ===== *)
theory Commit_Paths
  imports Work_Units
begin

text \<open>
  Which paths the commit phases may touch: the engine-owned runtime artifacts
  (\<^verbatim>\<open>ralph/phases/_agent_internal_paths.py\<close>), the recognised secrets
  (\<^verbatim>\<open>ralph/git/commit_cleanup.py\<close>), and the paths a cleanup artifact may delete
  (\<^verbatim>\<open>ralph/phases/_commit_cleanup_catalog.py\<close>, \<^verbatim>\<open>ralph/phases/commit_cleanup.py\<close>).

  Paths are POSIX paths as \<^verbatim>\<open>PurePosixPath\<close> reads them; \<open>lower\<close> is \<^verbatim>\<open>str.lower\<close> on ASCII.
  Whether a path exists in HEAD is asked of git, so it is the argument \<open>in_head\<close>.
\<close>

section \<open>Paths\<close>

definition py_parts :: "string \<Rightarrow> string list" where
  "py_parts p =
     (if \<not> path_is_absolute p then path_parts p
      else (if starts_with p ''//'' \<and> \<not> starts_with p ''///'' then ''//'' else ''/'') # path_parts p)"

definition py_name :: "string \<Rightarrow> string" where
  "py_name p = (if path_parts p = [] then [] else last (path_parts p))"

definition py_str :: "string \<Rightarrow> string" where
  "py_str p =
     (let rel = join_str ''/'' (path_parts p)
      in if path_is_absolute p then hd (py_parts p) @ rel else if rel = [] then ''.'' else rel)"

text \<open>\<^verbatim>\<open>suffix\<close> and \<^verbatim>\<open>stem\<close>: a leading or a trailing dot starts no suffix.\<close>

definition after_last_dot :: "string \<Rightarrow> string" where
  "after_last_dot n = rev (takeWhile (\<lambda>c. c \<noteq> CHR ''.'') (rev n))"

definition name_suffix :: "string \<Rightarrow> string" where
  "name_suffix n =
     (let ext = after_last_dot n
      in if CHR ''.'' \<in> set n \<and> ext \<noteq> [] \<and> length ext + 1 < length n then CHR ''.'' # ext else [])"

definition py_suffix :: "string \<Rightarrow> string" where
  "py_suffix p = name_suffix (py_name p)"

definition py_stem :: "string \<Rightarrow> string" where
  "py_stem p = take (length (py_name p) - length (py_suffix p)) (py_name p)"

text \<open>
  \<^verbatim>\<open>fnmatch.fnmatchcase\<close>: star, question mark, and bracket sets with negation and ranges; a
  bracket that is never closed is a literal character.
\<close>

fun in_set :: "char \<Rightarrow> string \<Rightarrow> bool" where
  "in_set c [] = False"
| "in_set c [a] = (c = a)"
| "in_set c [a, b] = (c = a \<or> c = b)"
| "in_set c (a # b # d # rest) =
     (if b = CHR ''-'' then (of_char a \<le> (of_char c :: nat) \<and> (of_char c :: nat) \<le> of_char d) \<or> in_set c rest
      else c = a \<or> in_set c (b # d # rest))"

text \<open>The set after an opening bracket, whether it is negated, and the pattern after the closing one.\<close>

definition leading_close :: "string \<Rightarrow> string" where
  "leading_close body = (case body of c # _ \<Rightarrow> if c = CHR '']'' then [c] else [] | [] \<Rightarrow> [])"

definition bracket_body :: "string \<Rightarrow> (string \<times> string) option" where
  "bracket_body body =
     (let first = leading_close body;
          rest = drop (length first) body
      in case dropWhile (\<lambda>c. c \<noteq> CHR '']'') rest of
           [] \<Rightarrow> None
         | _ # after \<Rightarrow> Some (first @ takeWhile (\<lambda>c. c \<noteq> CHR '']'') rest, after))"

definition bracket :: "string \<Rightarrow> (bool \<times> string \<times> string) option" where
  "bracket pat =
     (case pat of
        [] \<Rightarrow> None
      | c # cs \<Rightarrow> if c = CHR ''!'' then map_option (Pair True) (bracket_body cs)
                  else map_option (Pair False) (bracket_body pat))"

lemma bracket_body_shorter:
  assumes "bracket_body body = Some (inner, after)"
  shows "length after < length body"
proof -
  let ?rest = "drop (length (leading_close body)) body"
  obtain c where "dropWhile (\<lambda>c. c \<noteq> CHR '']'') ?rest = c # after"
    using assms unfolding bracket_body_def Let_def
    by (cases "dropWhile (\<lambda>c. c \<noteq> CHR '']'') ?rest") simp_all
  then have "length (c # after) \<le> length ?rest" by (metis length_dropWhile_le)
  then show ?thesis by simp
qed

lemma bracket_shorter: "bracket pat = Some (neg, inner, after) \<Longrightarrow> length after < length pat"
  by (auto simp: bracket_def split: list.splits if_splits dest!: bracket_body_shorter)

function glob_match :: "string \<Rightarrow> string \<Rightarrow> bool" where
  "glob_match [] s = (s = [])"
| "glob_match (p # ps) s =
     (if p = CHR ''*'' then glob_match ps s \<or> (case s of [] \<Rightarrow> False | _ # cs \<Rightarrow> glob_match (p # ps) cs)
      else case s of
        [] \<Rightarrow> False
      | c # cs \<Rightarrow>
          if p = CHR ''?'' then glob_match ps cs
          else if p = CHR ''['' then
            (case bracket ps of
               None \<Rightarrow> c = p \<and> glob_match ps cs
             | Some (negated, inner, after) \<Rightarrow> (in_set c inner \<noteq> negated) \<and> glob_match after cs)
          else c = p \<and> glob_match ps cs)"
  by pat_completeness auto
termination
  by (relation "measures [\<lambda>(p, s). length p + length s]") (auto dest: bracket_shorter)

section \<open>Engine-owned paths\<close>

definition AGENT_INTERNAL_TOP_LEVEL_BASENAMES :: "string list" where
  "AGENT_INTERNAL_TOP_LEVEL_BASENAMES =
     [''PRODUCT_CRITERIA.md'', ''PLAN.md'', ''ISSUES.md'', ''DEVELOPMENT_RESULT.md'', ''FIX_RESULT.md'',
      ''DEVELOPMENT_ANALYSIS_DECISION.md'', ''PLANNING_ANALYSIS_DECISION.md'',
      ''REVIEW_ANALYSIS_DECISION.md'', ''checkpoint.json'', ''rebase_checkpoint.json'',
      ''rebase_checkpoint.json.bak'', ''auto_integrate_in_progress.json'', ''rebase.lock'',
      ''start_commit'', ''mcp.toml'', ''state.db'', ''state.db-wal'', ''state.db-shm'']"

definition AGENT_INTERNAL_DIR_GLOBS :: "string list" where
  "AGENT_INTERNAL_DIR_GLOBS =
     [''artifacts'', ''tmp'', ''prompt_history'', ''workers'', ''receipts'', ''raw'', ''artifact-formats'']"

definition AGENT_INTERNAL_ROOT_BASENAMES :: "string list" where
  "AGENT_INTERNAL_ROOT_BASENAMES = [''checkpoint.json'']"

definition AGENT_INTERNAL_COMPLETION_SENTINEL_GLOB :: string where
  "AGENT_INTERNAL_COMPLETION_SENTINEL_GLOB = ''completion_seen_*.json''"

definition AGENT_INTERNAL_DIR_FILE_EXTENSIONS :: "(string list) dict" where
  "AGENT_INTERNAL_DIR_FILE_EXTENSIONS =
     [(''raw'', [''.log'']), (''tmp'', [''.log'', ''.md'', ''.json'']), (''artifacts'', [''.md'']),
      (''receipts'', [''.json'']), (''prompt_history'', [''.json'']), (''artifact-formats'', [''.md'']),
      (''workers'', [''.log'', ''.md'', ''.json''])]"

definition is_engine_file_in_dir :: "string \<Rightarrow> string \<Rightarrow> bool" where
  "is_engine_file_in_dir candidate dir_segment =
     (if dir_segment \<notin> set AGENT_INTERNAL_DIR_GLOBS then False
      else case dget AGENT_INTERNAL_DIR_FILE_EXTENSIONS dir_segment of
             None \<Rightarrow> False
           | Some allowed \<Rightarrow> lower (py_suffix candidate) \<in> set allowed)"

text \<open>A path without parts, such as a single dot, makes the access to the first part raise.\<close>

definition is_agent_internal_path :: "string \<Rightarrow> bool res" where
  "is_agent_internal_path p =
     (if p = [] then Inr False
      else let parts = py_parts p; name = py_name p
           in if length parts = 1 then Inr (name \<in> set AGENT_INTERNAL_ROOT_BASENAMES)
              else case parts of
                first # second # _ \<Rightarrow>
                  if first \<noteq> ''.agent'' then Inr False
                  else if length parts = 2 \<and> (second \<in> set AGENT_INTERNAL_TOP_LEVEL_BASENAMES
                       \<or> glob_match AGENT_INTERNAL_COMPLETION_SENTINEL_GLOB name) then Inr True
                  else Inr (is_engine_file_in_dir p second)
              | _ \<Rightarrow> Inl IndexError)"

section \<open>Recognised secrets\<close>

definition TRACKED_SECRET_BASENAME_PATTERNS :: "string list" where
  "TRACKED_SECRET_BASENAME_PATTERNS =
     [''.env'', ''.env.local'', ''.env.*.local'', ''secrets.yml'', ''credentials.json'']"

definition is_recognized_secret_name :: "string \<Rightarrow> bool" where
  "is_recognized_secret_name name = list_ex (\<lambda>pat. glob_match pat name) TRACKED_SECRET_BASENAME_PATTERNS"

definition is_recognized_secret_path :: "string \<Rightarrow> bool" where
  "is_recognized_secret_path p = is_recognized_secret_name (py_name (replace_char (CHR 0x5C) (CHR ''/'') p))"

section \<open>The deletability catalog\<close>

definition UNSAFE_EXTENSIONS :: "string list" where
  "UNSAFE_EXTENSIONS =
     [''.py'', ''.js'', ''.ts'', ''.go'', ''.rs'', ''.rb'', ''.java'', ''.c'', ''.cpp'', ''.h'',
      ''.md'', ''.rst'', ''.txt'', ''.toml'', ''.yaml'', ''.yml'', ''.json'', ''.ini'', ''.cfg'',
      ''.swift'', ''.kt'', ''.kts'', ''.scala'', ''.php'', ''.sh'', ''.bash'', ''.zsh'',
      ''.fish'', ''.ps1'', ''.pl'', ''.pm'', ''.lua'', ''.r'', ''.m'', ''.mm'', ''.cs'', ''.fs'',
      ''.fsx'', ''.vb'', ''.dart'', ''.groovy'', ''.clj'', ''.cljs'', ''.hs'', ''.lhs'', ''.elm'',
      ''.erl'', ''.ex'', ''.exs'', ''.ml'', ''.mli'', ''.nim'', ''.cr'', ''.pas'', ''.pp'',
      ''.sql'', ''.graphql'', ''.gql'', ''.prisma'', ''.proto'', ''.asm'', ''.s'', ''.inc'',
      ''.def'', ''.cmake'', ''.mak'', ''.ninja'', ''.dockerfile'', ''.jenkinsfile'', ''.xml'',
      ''.csv'', ''.tsv'']"

definition UNSAFE_PATH_SEGMENTS :: "string list" where
  "UNSAFE_PATH_SEGMENTS =
     [''tests/'', ''test_'', ''_test.'', ''docs/'', ''doc/'']"

definition HOUSEKEEPING_BASENAMES :: "string list" where
  "HOUSEKEEPING_BASENAMES =
     [''.coverage'', ''coverage.xml'']"

definition PROTECTED_BASENAMES :: "string list" where
  "PROTECTED_BASENAMES =
     [''dockerfile'', ''makefile'', ''license'', ''readme'']"

definition LOCKFILE_BASENAMES :: "string list" where
  "LOCKFILE_BASENAMES =
     [''package-lock.json'', ''yarn.lock'', ''Cargo.lock'', ''poetry.lock'', ''uv.lock'',
      ''Pipfile.lock'', ''composer.lock'', ''Gemfile.lock'', ''go.sum'']"

definition GENERATED_TEXT_MARKERS :: "string list" where
  "GENERATED_TEXT_MARKERS =
     [''agent'', ''ai'', ''analysis'', ''artifact'', ''brainstorm'', ''capture'', ''chat'',
      ''checkpoint'', ''completion'', ''conversation'', ''debug'', ''dump'', ''generated'',
      ''generation'', ''inference'', ''interaction'', ''llm'', ''log'', ''message'', ''model'',
      ''note'', ''output'', ''pipeline'', ''plan'', ''prompt'', ''report'', ''response'',
      ''review'', ''session'', ''summary'', ''temp'', ''tmp'', ''trace'', ''transcript'',
      ''verify'', ''worker'']"

definition SOURCE_FILE_GENERATED_MARKERS :: "string list" where
  "SOURCE_FILE_GENERATED_MARKERS =
     [''temp'', ''tmp'', ''scratch'', ''generated'', ''throwaway'', ''dump'']"

definition GENERATED_TEXT_DIRECTORIES :: "string list" where
  "GENERATED_TEXT_DIRECTORIES =
     [''.agent'', ''.cache'', ''.gradle'', ''.mypy_cache'', ''.next'', ''.nuxt'', ''.output'',
      ''.pytest_cache'', ''.ruff_cache'', ''artifacts'', ''build'', ''cache'', ''caches'',
      ''coverage'', ''dist'', ''htmlcov'', ''logs'', ''node_modules'', ''out'', ''output'',
      ''outputs'', ''reports'', ''sessions'', ''temp'', ''tmp'', ''traces'', ''transcripts'',
      ''vendor'']"

definition GENERATED_TEXT_EXTENSIONS :: "string list" where
  "GENERATED_TEXT_EXTENSIONS =
     [''.txt'', ''.json'', ''.md'']"

definition TEMPORARY_SUFFIXES :: "string list" where
  "TEMPORARY_SUFFIXES =
     [''.bak'', ''.tmp'', ''.temp'', ''.old'', ''.orig'', ''.rej'', ''.patch'', ''.log'']"

section \<open>What may be deleted\<close>

definition name_tokens :: "string \<Rightarrow> string list" where
  "name_tokens candidate =
     filter (\<lambda>t. t \<noteq> [])
       (split_on (CHR ''-'')
          (replace_char (CHR ''_'') (CHR ''-'') (replace_char (CHR ''.'') (CHR ''-'') (lower (py_stem candidate)))))"

definition generated_signal :: "string list \<Rightarrow> string \<Rightarrow> bool" where
  "generated_signal markers candidate =
     (list_ex (\<lambda>t. t \<in> set markers) (name_tokens candidate)
      \<or> list_ex (\<lambda>part. lower part \<in> set GENERATED_TEXT_DIRECTORIES) (butlast (py_parts candidate)))"

definition is_generated_text_artifact :: "(string \<Rightarrow> bool) \<Rightarrow> string \<Rightarrow> string list \<Rightarrow> bool" where
  "is_generated_text_artifact in_head p markers = (generated_signal markers p \<and> \<not> in_head p)"

definition is_protected_path :: "(string \<Rightarrow> bool) \<Rightarrow> string \<Rightarrow> string \<Rightarrow> bool" where
  "is_protected_path in_head candidate path_lower =
     (list_ex (contains_str path_lower) UNSAFE_PATH_SEGMENTS
      \<or> py_name candidate \<in> set LOCKFILE_BASENAMES
      \<or> lower (py_name candidate) \<in> set PROTECTED_BASENAMES
      \<or> py_name candidate \<in> set HOUSEKEEPING_BASENAMES \<and> in_head (py_str candidate))"

definition is_deletable_housekeeping :: "(string \<Rightarrow> bool) \<Rightarrow> string \<Rightarrow> string \<Rightarrow> bool" where
  "is_deletable_housekeeping in_head candidate suffix =
     (if py_name candidate \<in> set HOUSEKEEPING_BASENAMES then \<not> in_head (py_str candidate)
      else if suffix \<in> set TEMPORARY_SUFFIXES then \<not> in_head (py_str candidate)
      else if suffix \<in> set GENERATED_TEXT_EXTENSIONS
        then is_generated_text_artifact in_head (py_str candidate) GENERATED_TEXT_MARKERS
      else if is_generated_text_artifact in_head (py_str candidate) SOURCE_FILE_GENERATED_MARKERS then True
      else suffix \<notin> set UNSAFE_EXTENSIONS)"

definition is_safe_to_delete :: "(string \<Rightarrow> bool) \<Rightarrow> string \<Rightarrow> bool res" where
  "is_safe_to_delete in_head p =
     rbind (is_agent_internal_path p) (\<lambda>internal.
       if internal then Inr True
       else if is_protected_path in_head p (lower p) then Inr False
       else if path_is_absolute p \<or> ''..'' \<in> set (py_parts p) then Inr False
       else Inr (is_deletable_housekeeping in_head p (lower (py_suffix p))))"

section \<open>Facts\<close>

text \<open>The printed form of a relative path names the same parts.\<close>

lemma split_on_path_parts: "x \<in> set (path_parts p) \<Longrightarrow> CHR ''/'' \<notin> set x \<and> x \<noteq> [] \<and> x \<noteq> ''.''"
  by (auto simp: path_parts_def dest: split_on_sep_free)

lemma path_parts_of_join:
  assumes "xs \<noteq> []" "\<forall>x\<in>set xs. CHR ''/'' \<notin> set x \<and> x \<noteq> [] \<and> x \<noteq> ''.''"
  shows "path_parts (join_str ''/'' xs) = xs"
  using assms by (subst path_parts_def) (simp add: split_on_join filter_id_conv)

lemma path_parts_py_str: "\<not> path_is_absolute p \<Longrightarrow> path_parts (py_str p) = path_parts p"
proof (cases "path_parts p = []")
  case True
  assume "\<not> path_is_absolute p"
  with True show ?thesis by (simp add: py_str_def, simp add: path_parts_def)
next
  case False
  assume rel: "\<not> path_is_absolute p"
  obtain x xs where parts: "path_parts p = x # xs" using False by (cases "path_parts p") auto
  then have "x \<noteq> []" using split_on_path_parts [of x p] by simp
  then have ne: "join_str ''/'' (path_parts p) \<noteq> []" by (cases xs) (simp_all add: parts)
  have "path_parts (join_str ''/'' (path_parts p)) = path_parts p"
    using False split_on_path_parts [of _ p] by (intro path_parts_of_join) auto
  with ne rel show ?thesis by (simp add: py_str_def)
qed

text \<open>
  A path is never deletable when it is protected, leaves the repository, or is a file of HEAD with
  a listed source extension, unless the engine owns it.
\<close>

lemma unsafe_extensions_cover_text: "set GENERATED_TEXT_EXTENSIONS \<subseteq> set UNSAFE_EXTENSIONS"
  by code_simp

lemma safe_to_delete_cases:
  assumes "is_safe_to_delete in_head p = Inr True"
  shows "is_agent_internal_path p = Inr True
     \<or> \<not> is_protected_path in_head p (lower p) \<and> \<not> path_is_absolute p \<and> ''..'' \<notin> set (path_parts p)
       \<and> (in_head (py_str p) \<longrightarrow> lower (py_suffix p) \<notin> set UNSAFE_EXTENSIONS \<union> set TEMPORARY_SUFFIXES
            \<and> py_name p \<notin> set HOUSEKEEPING_BASENAMES)"
proof (cases "is_agent_internal_path p = Inr True")
  case False
  from assms obtain i where "is_agent_internal_path p = Inr i"
    by (auto simp: is_safe_to_delete_def rbind_def split: sum.splits)
  with False have i: "is_agent_internal_path p = Inr False" by simp
  have prot: "\<not> is_protected_path in_head p (lower p)" and abs: "\<not> path_is_absolute p"
    and trav: "''..'' \<notin> set (py_parts p)"
    and del: "is_deletable_housekeeping in_head p (lower (py_suffix p))"
    using assms by (auto simp: is_safe_to_delete_def i split: if_splits)
  have "''..'' \<notin> set (path_parts p)" using trav abs by (simp add: py_parts_def)
  moreover have "in_head (py_str p) \<longrightarrow> lower (py_suffix p) \<notin> set UNSAFE_EXTENSIONS \<union> set TEMPORARY_SUFFIXES
            \<and> py_name p \<notin> set HOUSEKEEPING_BASENAMES"
    using del unsafe_extensions_cover_text
    by (auto simp: is_deletable_housekeeping_def is_generated_text_artifact_def split: if_splits)
  ultimately show ?thesis using prot abs by blast
qed simp

text \<open>
  A component of a web front end that is in HEAD may be deleted, since its extension is not
  listed; a path that leaves the repository is accepted when it starts like an engine file; and a
  path without parts raises.
\<close>

lemma tracked_component_deletable: "is_safe_to_delete (\<lambda>_. True) ''src/App.tsx'' = Inr True"
  by code_simp

lemma internal_traversal_accepted: "is_safe_to_delete in_head ''.agent/tmp/../../README.md'' = Inr True"
proof -
  have "is_agent_internal_path ''.agent/tmp/../../README.md'' = Inr True" by code_simp
  then show ?thesis by (simp add: is_safe_to_delete_def)
qed

lemma dot_path_raises: "is_safe_to_delete in_head ''.'' = Inl IndexError"
proof -
  have "is_agent_internal_path ''.'' = Inl IndexError" by code_simp
  then show ?thesis by (simp add: is_safe_to_delete_def)
qed

end
