(* ===== verification/Effect_Router.thy ===== *)
theory Effect_Router
  imports Commit_Paths Recovery_Controller
begin

text \<open>
  Effect routing: \<^verbatim>\<open>ralph/pipeline/effect_router.py\<close> decides which effect the runner executes next,
  \<^verbatim>\<open>ralph/pipeline/orchestrator.py\<close> is the older routing function, and
  \<^verbatim>\<open>ralph/pipeline/effects/\<close> holds the effects.

  What the router reads from outside is the record \<open>router_env\<close>: the git probes, the plan artifact
  as loaded (\<open>Inl\<close> when loading raises), and the outcome of removing the commit message artifact.
  What it changes is the record \<open>router_world\<close>: the recovery controller, whose selection may
  reset a cooldown that is over, and whether the commit message artifact is still there.  Log
  lines are not represented.
\<close>

section \<open>Effects\<close>

datatype router_effect =
    Prepare_prompt (pp_phase: string) (pp_drain: "string option") (pp_previous: "string option")
      (pp_skip_materialization: bool)
  | Invoke_agent (ia_agent: string) (ia_phase: string) (ia_prompt_file: string)
      (ia_drain: "string option") (ia_chain_name: string)
  | Fan_out (fo_units: "work_unit list") (fo_max_workers: nat) (fo_verify: bool) (fo_phase: string)
  | Empty_commit (ec_role: phase_role)
  | Commit_changes (ce_message_file: string)
  | Exhausted_analysis_phase_advance (ea_phase: string)
  | Exit_run effect

record router_env =
  re_clock :: clock
  re_root :: string
  re_uncommitted :: "bool res"
  re_staged :: "bool res"
  re_changed_paths :: "string list res"
  re_plan :: "json dict res"
  re_unlink_message :: "unit res"
  re_float_repr :: "real \<Rightarrow> string"

record router_world =
  rw_recovery :: "controller option"
  rw_message_present :: bool

definition exit_failure :: "string \<Rightarrow> router_effect res" where
  "exit_failure why = rbind (exit_failure_effect why) (\<lambda>e. Inr (Exit_run e))"

definition prompt_file_for_phase :: "string \<Rightarrow> string" where
  "prompt_file_for_phase ph =
     ''.agent/tmp/'' @ replace_char (CHR '' '') (CHR ''_'') (replace_char (CHR ''/'') (CHR ''_'') ph) @ ''_prompt.md''"

section \<open>Terminal phases and skipped invocations\<close>

definition recovery_prepare_effect :: "pstate \<Rightarrow> pipeline_policy \<Rightarrow> router_effect" where
  "recovery_prepare_effect s p =
     (let prev = previous_phase s;
          entry = policy_entry_phase s;
          target0 = (if truthy prev then the prev else entry);
          target = (if target0 = failed_route (recovery p) then entry else target0)
      in Prepare_prompt target (resolve_phase_drain target p) prev False)"

definition terminal_phase_effect :: "pstate \<Rightarrow> pipeline_policy \<Rightarrow> router_effect option" where
  "terminal_phase_effect s p =
     (if phase s = terminal_phase p then Some (Exit_run Exit_success)
      else if phase s = failed_route (recovery p) then Some (recovery_prepare_effect s p)
      else None)"

definition current_analysis_phase_advance_effect ::
  "pstate \<Rightarrow> phase_definition \<Rightarrow> pipeline_policy \<Rightarrow> router_effect option res" where
  "current_analysis_phase_advance_effect s d p =
     (if role d \<noteq> Some Analysis then Inr None
      else rbind (resolve_exhausted_analysis_bypass s (phase s) p) (\<lambda>bypass.
        if bp_skipped bypass = [] then Inr None
        else Inr (Some (Exhausted_analysis_phase_advance (phase s)))))"

definition skip_invocation_effect :: "pstate \<Rightarrow> phase_definition \<Rightarrow> pipeline_policy \<Rightarrow> router_effect" where
  "skip_invocation_effect s d p =
     (let target = on_success (transitions d)
      in if target = terminal_phase p then Exit_run Exit_success
         else Prepare_prompt target None (Some (phase s)) True)"

section \<open>Agents\<close>

definition agents_for_phase :: "string \<Rightarrow> policy_bundle \<Rightarrow> string list" where
  "agents_for_phase ph b =
     (case dget (phases (bundle_pipeline b)) ph of
        None \<Rightarrow> []
      | Some d \<Rightarrow>
          (case dget (agent_drains b) (drain d) of
             None \<Rightarrow> []
           | Some chain \<Rightarrow> (case dget (agent_chains b) chain of None \<Rightarrow> [] | Some cfg \<Rightarrow> cc_agents cfg)))"

definition agent_name_for_phase_from_policy ::
  "router_env \<Rightarrow> router_world \<Rightarrow> pstate \<Rightarrow> policy_bundle \<Rightarrow> router_world \<times> string option" where
  "agent_name_for_phase_from_policy env w s b =
     (if current_agent s \<noteq> None \<and> rw_recovery w = None then (w, current_agent s)
      else case dget (phases (bundle_pipeline b)) (phase s) of
        None \<Rightarrow> (w, None)
      | Some d \<Rightarrow>
          (case dget (agent_drains b) (drain d) of
             None \<Rightarrow> (w, None)
           | Some chain_name \<Rightarrow>
               (case dget (agent_chains b) chain_name of
                  None \<Rightarrow> (w, None)
                | Some cfg \<Rightarrow>
                    if cc_agents cfg = [] then (w, None)
                    else (case rw_recovery w of
                            None \<Rightarrow> (w, Some (hd (cc_agents cfg)))
                          | Some ctl \<Rightarrow>
                              let ags = (case chain_for_phase s (phase s) of
                                           Some ch \<Rightarrow> if agents ch \<noteq> [] then agents ch else cc_agents cfg
                                         | None \<Rightarrow> cc_agents cfg);
                                  (ctl', sel) = preferred_agent_index (re_clock env) ctl (phase s) ags None False
                              in (w\<lparr>rw_recovery := Some ctl'\<rparr>, sel_agent sel)))))"

definition invoke_effect ::
  "router_env \<Rightarrow> router_world \<Rightarrow> pstate \<Rightarrow> phase_definition \<Rightarrow> policy_bundle \<Rightarrow> string
     \<Rightarrow> (router_world \<times> router_effect) res" where
  "invoke_effect env w s d b noun =
     (let (w', name) = agent_name_for_phase_from_policy env w s b
      in case name of
           None \<Rightarrow> rbind (exit_failure (''No agent configured for '' @ noun @ '' '' @ quoted (phase s))) (\<lambda>e. Inr (w', e))
         | Some a \<Rightarrow> Inr (w', Invoke_agent a (phase s) (prompt_file_for_phase (phase s)) (Some (drain d)) []))"

section \<open>Fan-out\<close>

definition MIN_WORK_UNITS_FOR_PARALLELIZATION :: nat where
  "MIN_WORK_UNITS_FOR_PARALLELIZATION = 2"

definition unwrap_phase_artifact_content :: "json dict \<Rightarrow> string \<Rightarrow> json dict res" where
  "unwrap_phase_artifact_content artifact expected =
     (let ty = dget artifact ''type''; content = dget artifact ''content''
      in if \<not> absent ty \<and> ty \<noteq> Some (JStr expected)
           then Inl (ValueError (''Artifact type mismatch: expected '' @ expected))
         else if absent content \<and> absent ty then Inr artifact
         else case content of
           Some (JObj c) \<Rightarrow> Inr c
         | _ \<Rightarrow> Inl (ValueError ''Artifact content must be a mapping''))"

definition is_noop_plan :: "json dict \<Rightarrow> bool" where
  "is_noop_plan artifact = (dget artifact ''noop'' = Some (JBool True))"

definition units_of_content :: "(real \<Rightarrow> string) \<Rightarrow> json dict \<Rightarrow> work_unit list" where
  "units_of_content fr content =
     (if is_noop_plan content then []
      else case parse_work_units_from_artifact fr content of
             None \<Rightarrow> []
           | Some us \<Rightarrow>
               if has_unextractable_work_units fr content then []
               else let (steps, _, owned) = canonical_plan_references fr content
                    in if steps \<noteq> owned then [] else us)"

definition work_units_from_plan_artifact :: "router_env \<Rightarrow> work_unit list res" where
  "work_units_from_plan_artifact env =
     catch_value_error
       (rbind (re_plan env) (\<lambda>wrapper.
          rbind (unwrap_phase_artifact_content wrapper ''plan'') (\<lambda>content.
            Inr (units_of_content (re_float_repr env) content))))
       (\<lambda>_. Inr [])"

definition fan_out_effect :: "pstate \<Rightarrow> phase_parallelization \<Rightarrow> work_unit list \<Rightarrow> router_effect" where
  "fan_out_effect s par us = Fan_out us (max_parallel_workers par) (post_fanout_verification par) (phase s)"

definition parallel_or_agent_effect ::
  "router_env \<Rightarrow> router_world \<Rightarrow> pstate \<Rightarrow> phase_definition \<Rightarrow> policy_bundle \<Rightarrow> (router_world \<times> router_effect) res" where
  "parallel_or_agent_effect env w s d b =
     rbind (if work_units s = [] \<and> parallelization d \<noteq> None then work_units_from_plan_artifact env
            else Inr (work_units s)) (\<lambda>units.
       let ready = dispatchable_work_units units
       in case parallelization d of
            Some par \<Rightarrow>
              if length ready = length units \<and> MIN_WORK_UNITS_FOR_PARALLELIZATION \<le> length ready
                 \<and> \<not> agent_subagents par
                then Inr (w, fan_out_effect s par ready)
              else invoke_effect env w s d b ''phase''
          | None \<Rightarrow> invoke_effect env w s d b ''phase'')"

section \<open>Commit phases\<close>

definition any_committable :: "string list \<Rightarrow> bool res" where
  "any_committable changed =
     any_res (\<lambda>p. if is_recognized_secret_path p then Inr False
                  else rbind (is_agent_internal_path p) (\<lambda>b. Inr (\<not> b))) changed"

definition is_empty_commit_phase :: "router_env \<Rightarrow> bool option" where
  "is_empty_commit_phase env =
     (case re_uncommitted env of
        Inl _ \<Rightarrow> None
      | Inr False \<Rightarrow> Some True
      | Inr True \<Rightarrow>
          if re_staged env = Inr True then Some False
          else case rbind (re_changed_paths env) any_committable of
                 Inl _ \<Rightarrow> None
               | Inr any_path \<Rightarrow> Some (\<not> any_path))"

definition delete_commit_message_artifacts :: "router_env \<Rightarrow> router_world \<Rightarrow> router_world res" where
  "delete_commit_message_artifacts env w =
     (if \<not> rw_message_present w then Inr w
      else rbind (re_unlink_message env) (\<lambda>_. Inr (w\<lparr>rw_message_present := False\<rparr>)))"

definition empty_commit_effect ::
  "router_env \<Rightarrow> router_world \<Rightarrow> phase_role \<Rightarrow> (router_world \<times> router_effect option) res" where
  "empty_commit_effect env w rl =
     (case is_empty_commit_phase env of
        None \<Rightarrow> rbind (delete_commit_message_artifacts env w) (\<lambda>w'.
                  rbind (exit_failure ''Unable to inspect effective commit work'') (\<lambda>e. Inr (w', Some e)))
      | Some True \<Rightarrow> rbind (delete_commit_message_artifacts env w) (\<lambda>w'. Inr (w', Some (Empty_commit rl)))
      | Some False \<Rightarrow> Inr (w, None))"

definition empty_commit_cleanup_effect :: "router_env \<Rightarrow> router_effect option" where
  "empty_commit_cleanup_effect env =
     (case re_uncommitted env of
        Inr False \<Rightarrow> Some (Empty_commit Commit_cleanup)
      | _ \<Rightarrow> None)"

definition COMMIT_MESSAGE_ARTIFACT :: string where
  "COMMIT_MESSAGE_ARTIFACT = ''.agent/artifacts/commit_message.md''"

definition commit_phase_effect ::
  "router_env \<Rightarrow> router_world \<Rightarrow> pstate \<Rightarrow> phase_definition \<Rightarrow> policy_bundle \<Rightarrow> (router_world \<times> router_effect) res" where
  "commit_phase_effect env w s d b =
     (if role d = Some Commit_cleanup
        then (case empty_commit_cleanup_effect env of
                Some e \<Rightarrow> Inr (w, e)
              | None \<Rightarrow> parallel_or_agent_effect env w s d b)
      else rbind (empty_commit_effect env w Commit) (\<lambda>(w', completed).
        case completed of
          Some e \<Rightarrow> Inr (w', e)
        | None \<Rightarrow>
            if agent_invoked (commit s)
              then Inr (w', Commit_changes (re_root env @ ''/'' @ COMMIT_MESSAGE_ARTIFACT))
            else invoke_effect env w' s d b ''commit phase''))"

section \<open>The router\<close>

definition determine_effect_from_policy ::
  "router_env \<Rightarrow> router_world \<Rightarrow> pstate \<Rightarrow> policy_bundle \<Rightarrow> (router_world \<times> router_effect) res" where
  "determine_effect_from_policy env w s b =
     (let p = bundle_pipeline b
      in case terminal_phase_effect s p of
           Some e \<Rightarrow> Inr (w, e)
         | None \<Rightarrow>
             (case dget (phases p) (phase s) of
                None \<Rightarrow> rbind (exit_failure (''Unknown phase: '' @ phase s)) (\<lambda>e. Inr (w, e))
              | Some d \<Rightarrow>
                  rbind (current_analysis_phase_advance_effect s d p) (\<lambda>exhausted.
                    case exhausted of
                      Some e \<Rightarrow> Inr (w, e)
                    | None \<Rightarrow>
                        if skip_invocation d then Inr (w, skip_invocation_effect s d p)
                        else if role d = Some Commit \<or> role d = Some Commit_cleanup
                          then commit_phase_effect env w s d b
                        else parallel_or_agent_effect env w s d b)))"

section \<open>The orchestrator\<close>

datatype transition_key = On_success | On_failure | On_loopback

definition transition_target :: "phase_transition \<Rightarrow> transition_key \<Rightarrow> string option" where
  "transition_target t k =
     (case k of On_success \<Rightarrow> Some (on_success t) | On_failure \<Rightarrow> on_failure t | On_loopback \<Rightarrow> on_loopback t)"

definition route_transition :: "pstate \<Rightarrow> phase_definition \<Rightarrow> transition_key \<Rightarrow> pipeline_policy \<Rightarrow> router_effect" where
  "route_transition s d k p =
     (case transition_target (transitions d) k of
        None \<Rightarrow> Prepare_prompt (phase s) None (previous_phase s) False
      | Some target \<Rightarrow>
          if target = failed_route (recovery p) then Prepare_prompt (phase s) None (previous_phase s) False
          else if target = terminal_phase p then Exit_run Exit_success
          else Prepare_prompt target None (Some (phase s)) False)"

definition is_agent_invoked_for_phase :: "pstate \<Rightarrow> phase_definition \<Rightarrow> bool" where
  "is_agent_invoked_for_phase s d = (role d = Some Commit \<and> agent_invoked (commit s))"

definition current_agent_name ::
  "clock \<Rightarrow> controller option \<Rightarrow> pstate \<Rightarrow> agent_chain_config \<Rightarrow> (controller option \<times> string) res" where
  "current_agent_name c rcv s chain =
     (let ch = chain_for_phase s (phase s);
          own = (case ch of Some x \<Rightarrow> agents x | None \<Rightarrow> []);
          ags = (if own \<noteq> [] then own else cc_agents chain);
          (rcv', chosen) = (case rcv of
             None \<Rightarrow> (None, None)
           | Some ctl \<Rightarrow> let (ctl', sel) = preferred_agent_index c ctl (phase s) ags None False
                          in (Some ctl', sel_agent sel))
      in case chosen of
           Some a \<Rightarrow> Inr (rcv', a)
         | None \<Rightarrow>
             (case ch of
                Some x \<Rightarrow> if agents x \<noteq> [] \<and> current_index x < length (agents x)
                            then Inr (rcv', agents x ! current_index x)
                          else if cc_agents chain = [] then Inl IndexError else Inr (rcv', hd (cc_agents chain))
              | None \<Rightarrow> if cc_agents chain = [] then Inl IndexError else Inr (rcv', hd (cc_agents chain))))"

definition derive_effect_for_phase ::
  "clock \<Rightarrow> controller option \<Rightarrow> pstate \<Rightarrow> phase_definition \<Rightarrow> agent_chain_config \<Rightarrow> string \<Rightarrow> pipeline_policy
     \<Rightarrow> string option \<Rightarrow> (controller option \<times> router_effect) res" where
  "derive_effect_for_phase c rcv s d chain chain_name p effective_prompt =
     (if skip_invocation d then Inr (rcv, route_transition s d On_success p)
      else if \<not> is_agent_invoked_for_phase s d
        then Inr (rcv, Prepare_prompt (phase s) (Some (drain d)) (previous_phase s) False)
      else rbind (current_agent_name c rcv s chain) (\<lambda>(rcv', a).
        Inr (rcv', Invoke_agent a (phase s)
              (case effective_prompt of None \<Rightarrow> ''PROMPT.md'' | Some f \<Rightarrow> f) (Some (drain d)) chain_name)))"

definition determine_next_effect ::
  "clock \<Rightarrow> controller option \<Rightarrow> pstate \<Rightarrow> policy_bundle \<Rightarrow> string option
     \<Rightarrow> (controller option \<times> router_effect) res" where
  "determine_next_effect c rcv s b effective_prompt =
     (let p = bundle_pipeline b
      in if phase s = terminal_phase p then Inr (rcv, Exit_run Exit_success)
         else if phase s = failed_route (recovery p)
           then (let target = (if truthy (previous_phase s) then the (previous_phase s) else policy_entry_phase s)
                 in if target = failed_route (recovery p)
                      then Inl (RuntimeError (''Cannot determine recovery target for failed_route phase ''
                             @ quoted (failed_route (recovery p))))
                    else Inr (rcv, Prepare_prompt target (current_drain s) (previous_phase s) False))
         else case dget (phases p) (phase s) of
           None \<Rightarrow> Inl (RuntimeError (''No handler registered for phase '' @ quoted (phase s)))
         | Some d \<Rightarrow>
             (case dget (agent_drains b) (drain d) of
                None \<Rightarrow> Inl (KeyError (drain d))
              | Some chain_name \<Rightarrow>
                  (case dget (agent_chains b) chain_name of
                     None \<Rightarrow> Inl (KeyError chain_name)
                   | Some chain \<Rightarrow>
                       derive_effect_for_phase c rcv s d chain chain_name p effective_prompt)))"

section \<open>Selection\<close>

lemma preferred_agent_index_agent:
  "sel_agent (snd (preferred_agent_index c ctl ph ags cur False)) = map_option ((!) ags) (preferred c ctl ph ags)"
proof -
  let ?ctl = "register_phase_chain ph ags ctl"
  obtain ctl' rows where r: "availability_rows c ?ctl ph cur False 0 ags = (ctl', rows)" by force
  have rows: "map av_agent rows = ags" using availability_rows_spec [of c ?ctl ph cur False 0 ags] r by simp
  then have len: "length rows = length ags" by (metis length_map)
  have "sel_index (select_preferred_agent rows) = preferred c ctl ph ags"
    using preferred_agent_index_spec(2) [of c ctl ph ags cur] r by (simp add: preferred_agent_index_def)
  then have "sel_agent (select_preferred_agent rows) = map_option (\<lambda>i. av_agent (rows ! i)) (preferred c ctl ph ags)"
    by (simp add: select_preferred_agent_def Let_def)
  also have "\<dots> = map_option ((!) ags) (preferred c ctl ph ags)"
  proof (cases "preferred c ctl ph ags")
    case (Some i)
    then have "i < length rows" using len by (simp add: preferred_Some)
    with Some show ?thesis by (simp flip: rows)
  qed simp
  finally show ?thesis using r by (simp add: preferred_agent_index_def)
qed

definition considered_agents :: "pstate \<Rightarrow> policy_bundle \<Rightarrow> string list" where
  "considered_agents s b =
     (case chain_for_phase s (phase s) of
        Some ch \<Rightarrow> if agents ch \<noteq> [] then agents ch else agents_for_phase (phase s) b
      | None \<Rightarrow> agents_for_phase (phase s) b)"

lemma routed_agent_usable:
  assumes "agent_name_for_phase_from_policy env w s b = (w', Some a)" "rw_recovery w = Some ctl"
  shows "\<exists>i. preferred (re_clock env) ctl (phase s) (considered_agents s b) = Some i
     \<and> a = considered_agents s b ! i"
proof -
  obtain d chain_name cfg where d: "dget (phases (bundle_pipeline b)) (phase s) = Some d"
      "dget (agent_drains b) (drain d) = Some chain_name" "dget (agent_chains b) chain_name = Some cfg"
      "cc_agents cfg \<noteq> []"
    using assms by (auto simp: agent_name_for_phase_from_policy_def split: option.splits if_splits)
  have ags: "(case chain_for_phase s (phase s) of
        Some ch \<Rightarrow> if agents ch \<noteq> [] then agents ch else cc_agents cfg | None \<Rightarrow> cc_agents cfg) = considered_agents s b"
    by (simp add: considered_agents_def agents_for_phase_def d split: option.split)
  have "sel_agent (snd (preferred_agent_index (re_clock env) ctl (phase s) (considered_agents s b) None False)) = Some a"
    using assms d(4) by (simp add: agent_name_for_phase_from_policy_def d ags Let_def case_prod_beta)
  then show ?thesis by (auto simp: preferred_agent_index_agent)
qed

section \<open>What the router answers\<close>

lemma exit_failure_Inr: "exit_failure why = Inr e \<Longrightarrow> e = Exit_run (Exit_failure why)"
  by (auto simp: exit_failure_def exit_failure_effect_def split: if_splits)

lemma invoke_effect_cases:
  assumes "invoke_effect env w s d b noun = Inr (w', e)"
  obtains (invoke) a where "agent_name_for_phase_from_policy env w s b = (w', Some a)"
      "e = Invoke_agent a (phase s) (prompt_file_for_phase (phase s)) (Some (drain d)) []"
    | (none) why where "agent_name_for_phase_from_policy env w s b = (w', None)" "e = Exit_run (Exit_failure why)"
  using assms by (auto simp: invoke_effect_def split: option.splits prod.splits dest: exit_failure_Inr)

lemma parallel_or_agent_cases:
  assumes "parallel_or_agent_effect env w s d b = Inr (w', e)"
  obtains (fan_out) par units where "parallelization d = Some par" "\<not> agent_subagents par"
      "e = Fan_out (dispatchable_work_units units) (max_parallel_workers par) (post_fanout_verification par) (phase s)"
      "length (dispatchable_work_units units) = length units" "2 \<le> length units"
      "units = work_units s \<or> work_units s = [] \<and> work_units_from_plan_artifact env = Inr units"
    | (agent) "invoke_effect env w s d b ''phase'' = Inr (w', e)"
  using assms
  by (auto simp: parallel_or_agent_effect_def fan_out_effect_def Let_def MIN_WORK_UNITS_FOR_PARALLELIZATION_def
      split: option.splits if_splits)

definition analysis_exhausted :: "pstate \<Rightarrow> phase_definition \<Rightarrow> pipeline_policy \<Rightarrow> bool" where
  "analysis_exhausted s d p =
     (case loop_policy d of
        None \<Rightarrow> False
      | Some lp \<Rightarrow> (case resolve_analysis_cap (iteration_state_field lp) p of
          Inl _ \<Rightarrow> False
        | Inr cap \<Rightarrow> cap \<le> get_loop_iteration s (iteration_state_field lp)))"

lemma exhausted_analysis_advances:
  assumes "current_analysis_phase_advance_effect s d p = Inr r" "role d = Some Analysis"
    and "dget (phases p) (phase s) = Some d"
  shows "r = (if analysis_exhausted s d p then Some (Exhausted_analysis_phase_advance (phase s)) else None)"
proof -
  obtain bypass where b: "bypass_loop p [] s (phase s) [] = Inr bypass"
    and r: "r = (if bp_skipped bypass = [] then None else Some (Exhausted_analysis_phase_advance (phase s)))"
    using assms by (auto simp: current_analysis_phase_advance_effect_def resolve_exhausted_analysis_bypass_def
        split: if_splits)
  have "bp_skipped bypass = [] \<longleftrightarrow> \<not> analysis_exhausted s d p"
    using b
    by (subst (asm) bypass_loop.simps)
       (auto simp: Let_def assms(3) analysis_exhausted_def should_skip_analysis_reentry_def
         dest: bypass_skips_grow split: option.splits sum.splits if_splits)
  with r show ?thesis by simp
qed

text \<open>The routes a policy phase can take, by its definition.\<close>

lemma router_cases:
  assumes "determine_effect_from_policy env w s b = Inr (w', e)"
  obtains (finished) "phase s = terminal_phase (bundle_pipeline b)" "e = Exit_run Exit_success" "w' = w"
    | (recover) "phase s \<noteq> terminal_phase (bundle_pipeline b)"
        "phase s = failed_route (recovery (bundle_pipeline b))"
        "e = recovery_prepare_effect s (bundle_pipeline b)" "w' = w"
    | (unknown) "dget (phases (bundle_pipeline b)) (phase s) = None"
        "e = Exit_run (Exit_failure (''Unknown phase: '' @ phase s))" "w' = w"
    | (exhausted) d where "dget (phases (bundle_pipeline b)) (phase s) = Some d" "role d = Some Analysis"
        "analysis_exhausted s d (bundle_pipeline b)" "e = Exhausted_analysis_phase_advance (phase s)" "w' = w"
    | (skipped) d where "dget (phases (bundle_pipeline b)) (phase s) = Some d" "skip_invocation d"
        "e = skip_invocation_effect s d (bundle_pipeline b)" "w' = w"
    | (working) d where "phase s \<noteq> terminal_phase (bundle_pipeline b)"
        "phase s \<noteq> failed_route (recovery (bundle_pipeline b))"
        "dget (phases (bundle_pipeline b)) (phase s) = Some d" "\<not> skip_invocation d"
        "role d = Some Analysis \<longrightarrow> \<not> analysis_exhausted s d (bundle_pipeline b)"
        "(if role d = Some Commit \<or> role d = Some Commit_cleanup then commit_phase_effect env w s d b
          else parallel_or_agent_effect env w s d b) = Inr (w', e)"
proof -
  let ?p = "bundle_pipeline b"
  show thesis
  proof (cases "phase s = terminal_phase ?p \<or> phase s = failed_route (recovery ?p)")
    case True
    then show thesis using assms finished recover
      by (auto simp: determine_effect_from_policy_def terminal_phase_effect_def Let_def split: if_splits)
  next
    case False
    then have open_phase: "terminal_phase_effect s ?p = None" by (simp add: terminal_phase_effect_def)
    show thesis
    proof (cases "dget (phases ?p) (phase s)")
      case None
      then show thesis using assms open_phase unknown
        by (auto simp: determine_effect_from_policy_def Let_def dest: exit_failure_Inr)
    next
      case (Some d)
      from assms obtain r where r: "current_analysis_phase_advance_effect s d ?p = Inr r"
        by (auto simp: determine_effect_from_policy_def Let_def open_phase Some)
      have exh: "r = (if role d = Some Analysis \<and> analysis_exhausted s d ?p
          then Some (Exhausted_analysis_phase_advance (phase s)) else None)"
        using r exhausted_analysis_advances [OF r _ Some]
        by (auto simp: current_analysis_phase_advance_effect_def split: if_splits)
      show thesis
        using assms False exhausted [OF Some] skipped [OF Some] working [OF _ _ Some]
        by (auto simp: determine_effect_from_policy_def Let_def open_phase Some r exh split: if_splits)
    qed
  qed
qed

lemma commit_phase_invokes:
  assumes "commit_phase_effect env w s d b = Inr (w', e)" "role d = Some Commit"
  obtains (completed) "e = Empty_commit Commit" "is_empty_commit_phase env = Some True"
    | (unread) why where "e = Exit_run (Exit_failure why)" "is_empty_commit_phase env = None"
    | (commit) "is_empty_commit_phase env = Some False" "agent_invoked (commit s)"
        "e = Commit_changes (re_root env @ ''/'' @ COMMIT_MESSAGE_ARTIFACT)"
    | (ask) "is_empty_commit_phase env = Some False" "\<not> agent_invoked (commit s)"
        "invoke_effect env w s d b ''commit phase'' = Inr (w', e)"
  using assms
  by (auto simp: commit_phase_effect_def empty_commit_effect_def dest!: exit_failure_Inr
      split: option.splits bool.splits if_splits prod.splits)

text \<open>
  C8: The router and the recovery controller agree.  An invocation is routed only for the present
  phase, neither terminal nor skipped nor an exhausted analysis; with a recovery controller the agent
  is the first one of the chain that is neither cooling down nor spent; and a commit phase asks its
  agent only once, and only when there is something to commit.
\<close>

theorem router_invocation_contract:
  assumes "determine_effect_from_policy env w s b = Inr (w', Invoke_agent a ph f dr ch)"
  shows "ph = phase s \<and> ph \<noteq> terminal_phase (bundle_pipeline b)
    \<and> ph \<noteq> failed_route (recovery (bundle_pipeline b))
    \<and> (\<exists>d. dget (phases (bundle_pipeline b)) ph = Some d \<and> dr = Some (drain d) \<and> \<not> skip_invocation d
         \<and> (role d = Some Analysis \<longrightarrow> \<not> analysis_exhausted s d (bundle_pipeline b))
         \<and> (role d = Some Commit \<longrightarrow> is_empty_commit_phase env = Some False \<and> \<not> agent_invoked (commit s))
         \<and> (role d = Some Commit_cleanup \<longrightarrow> re_uncommitted env \<noteq> Inr False))
    \<and> (\<forall>ctl. rw_recovery w = Some ctl \<longrightarrow>
         (\<exists>i. preferred (re_clock env) ctl ph (considered_agents s b) = Some i
            \<and> a = considered_agents s b ! i))"
  using assms
proof (cases rule: router_cases)
  case (working d)
  have "\<exists>noun. invoke_effect env w s d b noun = Inr (w', Invoke_agent a ph f dr ch)"
    using working(6)
    by (auto simp: commit_phase_effect_def empty_commit_effect_def fan_out_effect_def parallel_or_agent_effect_def
        empty_commit_cleanup_effect_def Let_def dest!: exit_failure_Inr
        split: if_splits option.splits bool.splits sum.splits prod.splits)
  then obtain noun where inv: "invoke_effect env w s d b noun = Inr (w', Invoke_agent a ph f dr ch)" ..
  then have name: "agent_name_for_phase_from_policy env w s b = (w', Some a)" "ph = phase s" "dr = Some (drain d)"
    by (auto elim: invoke_effect_cases)
  have "role d = Some Commit \<Longrightarrow> is_empty_commit_phase env = Some False \<and> \<not> agent_invoked (commit s)"
    using working(6) by (auto elim: commit_phase_invokes)
  moreover have "role d = Some Commit_cleanup \<Longrightarrow> re_uncommitted env \<noteq> Inr False"
    using working(6) by (auto simp: commit_phase_effect_def empty_commit_cleanup_effect_def)
  ultimately show ?thesis
    unfolding name(2) using working(1-5) name(3) routed_agent_usable [OF name(1)]
    by (intro conjI allI impI exI [of _ d]) auto
qed (auto simp: recovery_prepare_effect_def skip_invocation_effect_def Let_def split: if_splits)

definition quiet_env :: router_env where
  "quiet_env = \<lparr>re_clock = sample_clock, re_root = ''/repo'', re_uncommitted = Inr True, re_staged = Inr True,
     re_changed_paths = Inr [], re_plan = Inl (ValueError ''Artifact not found''), re_unlink_message = Inr (),
     re_float_repr = (\<lambda>_. [])\<rparr>"

definition sample_bundle :: policy_bundle where
  "sample_bundle = \<lparr>bundle_pipeline = default_policy, agent_drains = [(''development'', ''dev'')],
     agent_chains = [(''dev'', \<lparr>cc_agents = [''claude'', ''codex''], cc_max_retries = 3, cc_retry_delay_ms = 1000\<rparr>)]\<rparr>"

definition half_cooled :: controller where
  "half_cooled = sample_controller\<lparr>ctl_ledger := sample_ledger\<lparr>entries :=
     [((''development'', ''claude''), cooling_entry)]\<rparr>\<rparr>"

definition development_phase :: phase_definition where
  "development_phase = the (dget (phases default_policy) ''development'')"

lemma development_facts:
  "terminal_phase_effect sample_run default_policy = None"
  "dget (phases default_policy) ''development'' = Some development_phase"
  "current_analysis_phase_advance_effect sample_run development_phase
     default_policy = Inr None"
  "skip_invocation development_phase = False"
  "role development_phase = Some Execution"
  "drain development_phase = ''development''"
  "work_units_from_plan_artifact quiet_env = Inr []"
  "work_units sample_run = []" "dispatchable_work_units [] = []" "phase sample_run = ''development''"
  "prompt_file_for_phase ''development'' = ''.agent/tmp/development_prompt.md''"
  by code_simp+

lemma second_agent_preferred: "preferred sample_clock half_cooled ''development'' [''claude'', ''codex''] = Some 1"
proof -
  have "\<not> usable sample_clock half_cooled ''development'' ''claude''"
    "usable sample_clock half_cooled ''development'' ''codex''" by code_simp+
  then show ?thesis by (simp add: preferred_Some)
qed

lemma second_agent_routed:
  "\<exists>w'. determine_effect_from_policy quiet_env \<lparr>rw_recovery = Some half_cooled, rw_message_present = False\<rparr>
      sample_run sample_bundle
    = Inr (w', Invoke_agent ''codex'' ''development'' ''.agent/tmp/development_prompt.md'' (Some ''development'') [])"
proof -
  let ?w = "\<lparr>rw_recovery = Some half_cooled, rw_message_present = False\<rparr>"
  have "snd (agent_name_for_phase_from_policy quiet_env ?w sample_run sample_bundle) = Some ''codex''"
    by (simp add: agent_name_for_phase_from_policy_def sample_bundle_def quiet_env_def development_facts
        dget_def [of "[(''development'', _)]"] dget_def [of "[(''dev'', _)]"] sample_chain Let_def case_prod_beta
        preferred_agent_index_agent second_agent_preferred)
  then obtain w' where "agent_name_for_phase_from_policy quiet_env ?w sample_run sample_bundle = (w', Some ''codex'')"
    by (metis prod.collapse)
  then show ?thesis
    by (auto simp: determine_effect_from_policy_def parallel_or_agent_effect_def invoke_effect_def sample_bundle_def
        development_facts MIN_WORK_UNITS_FOR_PARALLELIZATION_def Let_def split: option.split)
qed

theorem router_invocation_contract_witness:
  "\<exists>w'. determine_effect_from_policy quiet_env \<lparr>rw_recovery = Some half_cooled, rw_message_present = False\<rparr>
      sample_run sample_bundle
    = Inr (w', Invoke_agent ''codex'' ''development'' ''.agent/tmp/development_prompt.md'' (Some ''development'') [])
    \<and> (\<exists>i. preferred sample_clock half_cooled ''development'' (considered_agents sample_run sample_bundle) = Some i
         \<and> ''codex'' = considered_agents sample_run sample_bundle ! i)"
proof -
  obtain w' where r: "determine_effect_from_policy quiet_env
      \<lparr>rw_recovery = Some half_cooled, rw_message_present = False\<rparr> sample_run sample_bundle
    = Inr (w', Invoke_agent ''codex'' ''development'' ''.agent/tmp/development_prompt.md'' (Some ''development'') [])"
    using second_agent_routed by blast
  from router_invocation_contract [OF r] r show ?thesis by (auto simp: quiet_env_def)
qed

text \<open>
  Fan-out is all or nothing: it is routed only under a parallelisation policy that leaves the
  dispatch to the pipeline, for at least two units, when no unit of the plan is withheld; every
  unit owns some path, and its prerequisites are among the units dispatched with it.
\<close>

theorem fan_out_contract:
  assumes "determine_effect_from_policy env w s b = Inr (w', Fan_out us n v ph)"
  shows "w' = w \<and> ph = phase s \<and> 2 \<le> length us
    \<and> (\<exists>units. us = dispatchable_work_units units \<and> length us = length units
         \<and> (units = work_units s \<or> work_units s = [] \<and> work_units_from_plan_artifact env = Inr units))
    \<and> (\<exists>d par. dget (phases (bundle_pipeline b)) ph = Some d \<and> parallelization d = Some par
         \<and> \<not> agent_subagents par \<and> n = max_parallel_workers par)
    \<and> (\<forall>u\<in>set us. (allowed_directories u \<noteq> [] \<or> paths u \<noteq> []) \<and> set (dependencies u) \<subseteq> unit_id ` set us)"
  using assms
proof (cases rule: router_cases)
  case (working d)
  have inv: "invoke_effect env w s d b noun \<noteq> Inr (w', Fan_out us n v ph)" for noun
    by (auto elim: invoke_effect_cases)
  have par: "parallel_or_agent_effect env w s d b = Inr (w', Fan_out us n v ph)"
  proof (cases "role d = Some Commit")
    case True
    with working(6) have "commit_phase_effect env w s d b = Inr (w', Fan_out us n v ph)" by simp
    from this True inv show ?thesis by (auto elim: commit_phase_invokes)
  qed (use working(6) in \<open>auto simp: commit_phase_effect_def empty_commit_cleanup_effect_def
        split: option.splits sum.splits bool.splits if_splits\<close>)
  then have same: "w' = w"
    by (auto simp: parallel_or_agent_effect_def Let_def inv split: option.splits if_splits)
  from par inv show ?thesis
  proof (cases rule: parallel_or_agent_cases)
    case (fan_out pa units)
    then show ?thesis using same working(3) dispatch_closed [of _ units]
      by (auto intro!: exI [of _ units] simp del: subset_eq)
  qed auto
qed (auto simp: recovery_prepare_effect_def skip_invocation_effect_def Let_def split: if_splits)

text \<open>
  When every agent of the phase is cooling down or spent, the router ends the run, and the reason
  it gives is that no agent is configured.
\<close>

lemma cooling_chain_exits:
  assumes "rw_recovery w = Some ctl" "preferred (re_clock env) ctl (phase s) (considered_agents s b) = None"
    and "invoke_effect env w s d b noun = Inr (w', e)"
  shows "\<exists>why. e = Exit_run (Exit_failure why)"
  using assms(3)
proof (cases rule: invoke_effect_cases)
  case (invoke a)
  with routed_agent_usable [OF invoke(1) assms(1)] assms(2) show ?thesis by auto
qed auto

text \<open>
  The orchestrator invokes an agent for a commit phase only: every other phase prepares its
  prompt again, whatever has happened in it.
\<close>

lemma orchestrator_never_invokes:
  assumes "determine_next_effect c rcv s b f = Inr (rcv', Invoke_agent a ph pf dr ch)"
  shows "\<exists>d. dget (phases (bundle_pipeline b)) (phase s) = Some d \<and> role d = Some Commit"
  using assms
  by (auto simp: determine_next_effect_def derive_effect_for_phase_def is_agent_invoked_for_phase_def
      route_transition_def Let_def split: if_splits option.splits)

definition pooled_bundle :: policy_bundle where
  "pooled_bundle = sample_bundle\<lparr>bundle_pipeline := default_policy\<lparr>phases := dset ''development''
     (development_phase\<lparr>parallelization :=
        Some \<lparr>agent_subagents = False, max_parallel_workers = 4, post_fanout_verification = False\<rparr>\<rparr>)
     (phases default_policy)\<rparr>\<rparr>"

definition planned_units :: pstate where
  "planned_units = sample_run\<lparr>work_units :=
     [\<lparr>unit_id = ''api'', description = ''api'', allowed_directories = [], paths = [''src/api''], dependencies = [],
       step_ids = []\<rparr>,
      \<lparr>unit_id = ''ui'', description = ''ui'', allowed_directories = [''ui''], paths = [], dependencies = [''api''],
       step_ids = []\<rparr>]\<rparr>"

lemma planned_units_fan_out:
  "case determine_effect_from_policy quiet_env \<lparr>rw_recovery = None, rw_message_present = False\<rparr>
      planned_units pooled_bundle of
     Inr (w', Fan_out us n v ph) \<Rightarrow> map unit_id us = [''api'', ''ui''] | _ \<Rightarrow> False"
  by code_simp

theorem fan_out_contract_witness:
  "\<exists>us n v. determine_effect_from_policy quiet_env \<lparr>rw_recovery = None, rw_message_present = False\<rparr>
      planned_units pooled_bundle
    = Inr (\<lparr>rw_recovery = None, rw_message_present = False\<rparr>, Fan_out us n v ''development'')
    \<and> map unit_id us = [''api'', ''ui''] \<and> (\<forall>u\<in>set us. set (dependencies u) \<subseteq> unit_id ` set us)"
proof -
  obtain w' us n v ph where r: "determine_effect_from_policy quiet_env
      \<lparr>rw_recovery = None, rw_message_present = False\<rparr> planned_units pooled_bundle = Inr (w', Fan_out us n v ph)"
    and "map unit_id us = [''api'', ''ui'']"
    using planned_units_fan_out by (auto split: sum.splits prod.splits router_effect.splits)
  moreover have "phase planned_units = ''development''" by code_simp
  ultimately show ?thesis using fan_out_contract [OF r] by auto
qed

end
