(* ===== verification/Commit_Cleanup.thy ===== *)
theory Commit_Cleanup
  imports Effect_Router
begin

text \<open>
  The commit-cleanup phase: \<^verbatim>\<open>ralph/phases/commit_cleanup.py\<close> (the handler),
  \<^verbatim>\<open>_commit_cleanup_actions.py\<close> (applying a batch of actions), \<^verbatim>\<open>_commit_cleanup_outcome.py\<close> (its
  outcome), the schema of the artifact in \<^verbatim>\<open>ralph/mcp/artifacts\<close>, and the git helpers of
  \<^verbatim>\<open>ralph/git/commit_cleanup.py\<close> and \<^verbatim>\<open>append_to_gitignore\<close> of \<^verbatim>\<open>ralph/git/operations.py\<close>.

  The repository is the record \<open>repo\<close>: the paths that exist, the index, the two ignore files and
  the workspace files of the phase.  What git and the file system answer is the record
  \<open>cleanup_env\<close>.  A helper returns its outcome together with the repository, since one that raises
  may have changed it already.  Loading the artifact from Markdown, the seeds of the two ignore files
  and the JSON text that is hashed are arguments.
\<close>

section \<open>The artifact\<close>

datatype cleanup_kind = Delete_file | Add_to_gitignore | Add_to_git_exclude

record cleanup_action =
  act_kind :: cleanup_kind
  act_path :: "string option"
  act_pattern :: "string option"

record commit_cleanup =
  analysis_complete :: bool
  cleanup_actions_of :: "cleanup_action list"

text \<open>
  The pattern \<^verbatim>\<open>^[\x21-\x7e]+$\<close> under \<^verbatim>\<open>re.match\<close>: the dollar sign also matches before a final
  line feed.
\<close>

definition printable_ascii :: "string \<Rightarrow> bool" where
  "printable_ascii v =
     (let body = (if v \<noteq> [] \<and> last v = CHR 0x0A then butlast v else v)
      in body \<noteq> [] \<and> list_all (\<lambda>c. 0x21 \<le> (of_char c :: nat) \<and> (of_char c :: nat) \<le> 0x7E) body)"

definition field_ok :: "string option \<Rightarrow> bool" where
  "field_ok x = (case x of None \<Rightarrow> True | Some v \<Rightarrow> printable_ascii v \<and> \<not> starts_with v ''#'')"

definition validate_cleanup_action :: "cleanup_action \<Rightarrow> cleanup_action res" where
  "validate_cleanup_action a =
     (if \<not> field_ok (act_path a) \<or> \<not> field_ok (act_pattern a)
        then Inl (ValueError ''path and pattern must be printable ASCII'')
      else if act_kind a = Delete_file \<and> \<not> truthy (act_path a)
        then Inl (ValueError ''path is required for delete_file action'')
      else if act_kind a \<noteq> Delete_file \<and> \<not> truthy (act_pattern a)
        then Inl (ValueError ''pattern is required for this action'')
      else Inr a)"

section \<open>The repository\<close>

text \<open>
  What the phase reads and writes.  \<open>rp_files\<close> are the files of the work tree that an action can ask to
  delete and \<open>rp_index\<close> the paths in the index.  The files the phase itself creates or rewrites are the
  other fields: \<^verbatim>\<open>.gitignore\<close>, \<^verbatim>\<open>.git/info/exclude\<close>, the artifact of the agent, the counter of attempts
  without progress and the hint for a retry; \<open>None\<close> is a file that does not exist.  The seeds of
  \<^verbatim>\<open>config/bootstrap.py\<close> for the first two are the functions \<open>ce_seed_ignore\<close> and \<open>ce_seed_exclude\<close>
  of the environment.
\<close>

record repo =
  rp_files :: "string list"
  rp_index :: "string list"
  rp_gitignore :: "string option"
  rp_exclude :: "string option"
  rp_artifact :: "string option"
  rp_identity :: "json option"
  rp_hint :: "string option"

record cleanup_env =
  ce_in_head :: "string \<Rightarrow> bool"
  ce_is_symlink :: "string \<Rightarrow> bool"
  ce_resolves_outside :: "string \<Rightarrow> bool"
  ce_repo_opens :: bool
  ce_git_rm :: "string list \<Rightarrow> bool"
  ce_unlink :: "string \<Rightarrow> bool"
  ce_append_ignore :: bool
  ce_append_exclude :: bool
  ce_root_error :: "string option"
  ce_seed_ignore :: "string option \<Rightarrow> string option"
  ce_seed_exclude :: "string option \<Rightarrow> string option"
  ce_artifact_readable :: bool
  ce_load_artifact :: "string \<Rightarrow> commit_cleanup option"
  ce_artifact_deletes :: bool
  ce_identity_writes :: bool
  ce_hint_writes :: bool
  ce_hint_removes :: bool
  ce_sha256_hex :: "string \<Rightarrow> string"
  ce_json_dumps :: "json \<Rightarrow> string"
  ce_loop_counters :: "loop_counter_config dict"

type_synonym repo_step = "repo \<Rightarrow> unit res \<times> repo"

definition newline :: string where
  "newline = [CHR 0x0A]"

definition atomic_append_text :: "string option \<Rightarrow> string \<Rightarrow> string" where
  "atomic_append_text content payload =
     (let existing = (case content of None \<Rightarrow> [] | Some t \<Rightarrow> t);
          separator = (if existing \<noteq> [] \<and> last existing \<noteq> CHR 0x0A then newline else [])
      in existing @ separator @ payload)"

definition append_lines :: "string option \<Rightarrow> string list \<Rightarrow> string option" where
  "append_lines content patterns =
     (let existing = (case content of None \<Rightarrow> [] | Some t \<Rightarrow> splitlines t);
          new_patterns = filter (\<lambda>p. p \<notin> set existing) patterns
      in if new_patterns = [] then content
         else Some (atomic_append_text content (join_str newline new_patterns @ newline)))"

definition append_to_gitignore :: "cleanup_env \<Rightarrow> string list \<Rightarrow> repo_step" where
  "append_to_gitignore env patterns r =
     (let updated = append_lines (rp_gitignore r) patterns
      in if updated = rp_gitignore r then (Inr (), r)
         else if ce_append_ignore env then (Inr (), r\<lparr>rp_gitignore := updated\<rparr>)
         else (Inl (OSError ''.gitignore''), r))"

section \<open>Git helpers\<close>

definition normalized_pattern :: "string \<Rightarrow> string" where
  "normalized_pattern pat = replace_char (CHR 0x5C) (CHR ''/'') (strip pat)"

definition sensitive_pattern_matches_path :: "string \<Rightarrow> string \<Rightarrow> bool" where
  "sensitive_pattern_matches_path pat tracked =
     (let normalized = normalized_pattern pat
      in if \<not> is_recognized_secret_name (py_name normalized) then False
         else if CHR ''/'' \<in> set normalized
           then glob_match (dropWhile (\<lambda>c. c = CHR ''/'') normalized) tracked
         else glob_match normalized (py_name tracked))"

definition tracked_secrets :: "string list \<Rightarrow> string list \<Rightarrow> string list" where
  "tracked_secrets patterns tracked =
     (let sensitive = filter (\<lambda>pat. is_recognized_secret_name (py_name (normalized_pattern pat))) patterns
      in if sensitive = [] then []
         else filter (\<lambda>p. is_recognized_secret_name (py_name p)
                \<and> list_ex (\<lambda>pat. sensitive_pattern_matches_path pat p) sensitive) tracked)"

definition add_to_git_exclude :: "cleanup_env \<Rightarrow> string list \<Rightarrow> repo_step" where
  "add_to_git_exclude env patterns r =
     (if \<not> ce_repo_opens env then (Inl (OSError ''not a git repository''), r)
      else let updated = append_lines (rp_exclude r) patterns
           in if updated \<noteq> rp_exclude r \<and> \<not> ce_append_exclude env then (Inl (OSError ''.git/info/exclude''), r)
              else let r1 = r\<lparr>rp_exclude := updated\<rparr>; secrets = tracked_secrets patterns (rp_index r)
                   in if secrets = [] then (Inr (), r1)
                      else if ce_git_rm env secrets
                        then (Inr (), r1\<lparr>rp_index := filter (\<lambda>p. p \<notin> set secrets) (rp_index r1)\<rparr>)
                      else (Inl (OSError ''git rm''), r1))"

definition delete_file_from_repo :: "cleanup_env \<Rightarrow> string \<Rightarrow> repo_step" where
  "delete_file_from_repo env p r =
     (if path_is_absolute p \<or> ''..'' \<in> set (py_parts p)
        then (Inl (ValueError (''Refusing to delete path outside repository root: '' @ quoted p)), r)
      else if ce_is_symlink env p
        then (Inl (ValueError (''Refusing to delete symlink path during commit cleanup: '' @ quoted p)), r)
      else if ce_resolves_outside env p
        then (Inl (ValueError (''Refusing to delete path outside repository root: '' @ quoted p)), r)
      else if py_str p \<notin> set (rp_files r) then (Inr (), r)
      else let tracked = ce_repo_opens env \<and> p \<in> set (rp_index r)
           in if tracked \<and> \<not> ce_git_rm env [p] then (Inl (OSError ''git rm''), r)
              else let r1 = (if tracked then r\<lparr>rp_index := filter (\<lambda>q. q \<noteq> p) (rp_index r)\<rparr> else r)
                   in if ce_unlink env p
                        then (Inr (), r1\<lparr>rp_files := filter (\<lambda>q. q \<noteq> py_str p) (rp_files r1)\<rparr>)
                      else (Inl (OSError p), r1))"

definition SKILL_ROOT_PREFIXES :: "string list" where
  "SKILL_ROOT_PREFIXES =
     [''.opencode/skills/'', ''.agents/skills/'', ''.claude/skills/'', ''.codex/skills/'',
      ''.gemini/antigravity-cli/skills/'']"

fun untrack_entries :: "cleanup_env \<Rightarrow> string list \<Rightarrow> repo_step" where
  "untrack_entries env [] r = (Inr (), r)"
| "untrack_entries env (p # ps) r =
     (if list_ex (starts_with p) SKILL_ROOT_PREFIXES \<or> ce_is_symlink env p then untrack_entries env ps r
      else case is_agent_internal_path p of
             Inl e \<Rightarrow> (Inl e, r)
           | Inr internal \<Rightarrow>
               if internal \<and> ce_git_rm env [p]
                 then untrack_entries env ps (r\<lparr>rp_index := filter (\<lambda>q. q \<noteq> p) (rp_index r)\<rparr>)
               else untrack_entries env ps r)"

definition untrack_engine_internal_files :: "cleanup_env \<Rightarrow> repo_step" where
  "untrack_engine_internal_files env r =
     (if ce_repo_opens env then untrack_entries env (rp_index r) r else (Inr (), r))"

definition stage_commit_changes_safely :: "cleanup_env \<Rightarrow> (repo \<Rightarrow> repo) \<Rightarrow> repo_step" where
  "stage_commit_changes_safely env stage_all r =
     (case add_to_git_exclude env TRACKED_SECRET_BASENAME_PATTERNS r of
        (Inl e, r1) \<Rightarrow> (Inl e, r1)
      | (Inr _, r1) \<Rightarrow> (Inr (), stage_all r1))"

section \<open>Applying a batch\<close>

record apply_report =
  declined_delete_paths :: "string list"
  failed_delete_paths :: "string list"
  applied_delete_paths :: "string list"
  applied_gitignore_patterns :: "string list"
  failed_gitignore_patterns :: "string list"
  applied_exclude_patterns :: "string list"
  failed_exclude_patterns :: "string list"
  unapplied_notes :: "string list"

definition empty_report :: apply_report where
  "empty_report = \<lparr>declined_delete_paths = [], failed_delete_paths = [], applied_delete_paths = [],
     applied_gitignore_patterns = [], failed_gitignore_patterns = [], applied_exclude_patterns = [],
     failed_exclude_patterns = [], unapplied_notes = []\<rparr>"

definition applied_count :: "apply_report \<Rightarrow> nat" where
  "applied_count rep =
     length (applied_delete_paths rep) + length (applied_gitignore_patterns rep) + length (applied_exclude_patterns rep)"

definition failed_pattern_tokens :: "apply_report \<Rightarrow> string list" where
  "failed_pattern_tokens rep = failed_gitignore_patterns rep @ failed_exclude_patterns rep"

definition note_once :: "string \<Rightarrow> apply_report \<Rightarrow> apply_report" where
  "note_once note rep =
     (if note \<in> set (unapplied_notes rep) then rep else rep\<lparr>unapplied_notes := unapplied_notes rep @ [note]\<rparr>)"

record cleanup_buckets =
  bk_gitignore :: "string list"
  bk_exclude :: "string list"
  bk_deletes :: "string list"
  bk_report :: apply_report

definition blank_field :: "string option \<Rightarrow> bool" where
  "blank_field x = (case x of None \<Rightarrow> True | Some v \<Rightarrow> strip v = [])"

definition classify_action :: "cleanup_env \<Rightarrow> cleanup_action \<Rightarrow> cleanup_buckets \<Rightarrow> cleanup_buckets res" where
  "classify_action env a b =
     (case act_kind a of
        Add_to_gitignore \<Rightarrow>
          if blank_field (act_pattern a)
            then Inr (b\<lparr>bk_report := note_once ''empty add_to_gitignore pattern'' (bk_report b)\<rparr>)
          else Inr (b\<lparr>bk_gitignore := bk_gitignore b @ [the (act_pattern a)]\<rparr>)
      | Add_to_git_exclude \<Rightarrow>
          if blank_field (act_pattern a)
            then Inr (b\<lparr>bk_report := note_once ''empty add_to_git_exclude pattern'' (bk_report b)\<rparr>)
          else Inr (b\<lparr>bk_exclude := bk_exclude b @ [the (act_pattern a)]\<rparr>)
      | Delete_file \<Rightarrow>
          if blank_field (act_path a)
            then Inr (b\<lparr>bk_report := note_once ''empty delete_file path'' (bk_report b)\<rparr>)
          else let p = the (act_path a)
               in rbind (is_safe_to_delete (ce_in_head env) p) (\<lambda>safe.
                    if safe then Inr (b\<lparr>bk_deletes := bk_deletes b @ [p]\<rparr>)
                    else if p \<in> set (declined_delete_paths (bk_report b))
                      then Inr (b\<lparr>bk_report := note_once (''duplicate declined delete_file:'' @ p) (bk_report b)\<rparr>)
                    else Inr (b\<lparr>bk_report := (bk_report b)
                           \<lparr>declined_delete_paths := declined_delete_paths (bk_report b) @ [p]\<rparr>\<rparr>)))"

fun classify_actions :: "cleanup_env \<Rightarrow> cleanup_action list \<Rightarrow> cleanup_buckets \<Rightarrow> cleanup_buckets res" where
  "classify_actions env [] b = Inr b"
| "classify_actions env (a # as) b = rbind (classify_action env a b) (classify_actions env as)"

fun apply_gitignore_patterns :: "cleanup_env \<Rightarrow> string list \<Rightarrow> apply_report \<times> repo \<Rightarrow> apply_report \<times> repo" where
  "apply_gitignore_patterns env [] rr = rr"
| "apply_gitignore_patterns env (p # ps) (rep, r) =
     (case append_to_gitignore env [p] r of
        (Inr _, r') \<Rightarrow> apply_gitignore_patterns env ps
                        (rep\<lparr>applied_gitignore_patterns := applied_gitignore_patterns rep @ [p]\<rparr>, r')
      | (Inl _, r') \<Rightarrow> apply_gitignore_patterns env ps
                        (rep\<lparr>failed_gitignore_patterns := failed_gitignore_patterns rep @ [p]\<rparr>, r'))"

fun apply_git_exclude_patterns :: "cleanup_env \<Rightarrow> string list \<Rightarrow> apply_report \<times> repo \<Rightarrow> apply_report \<times> repo" where
  "apply_git_exclude_patterns env [] rr = rr"
| "apply_git_exclude_patterns env (p # ps) (rep, r) =
     (case add_to_git_exclude env [p] r of
        (Inr _, r') \<Rightarrow> apply_git_exclude_patterns env ps
                        (rep\<lparr>applied_exclude_patterns := applied_exclude_patterns rep @ [p]\<rparr>, r')
      | (Inl _, r') \<Rightarrow> apply_git_exclude_patterns env ps
                        (rep\<lparr>failed_exclude_patterns := failed_exclude_patterns rep @ [p]\<rparr>, r'))"

fun apply_safe_deletes ::
  "cleanup_env \<Rightarrow> string list \<Rightarrow> string list \<Rightarrow> apply_report \<times> repo \<Rightarrow> apply_report \<times> repo" where
  "apply_safe_deletes env seen [] rr = rr"
| "apply_safe_deletes env seen (p # ps) (rep, r) =
     (if p \<in> set seen then apply_safe_deletes env seen ps (note_once (''duplicate delete_file:'' @ p) rep, r)
      else case delete_file_from_repo env p r of
        (Inr _, r') \<Rightarrow> apply_safe_deletes env (p # seen) ps
                        (rep\<lparr>applied_delete_paths := applied_delete_paths rep @ [p]\<rparr>, r')
      | (Inl _, r') \<Rightarrow> apply_safe_deletes env (p # seen) ps
                        (rep\<lparr>failed_delete_paths := failed_delete_paths rep @ [p]\<rparr>, r'))"

definition apply_cleanup_actions :: "cleanup_env \<Rightarrow> commit_cleanup \<Rightarrow> repo \<Rightarrow> (apply_report \<times> repo) res" where
  "apply_cleanup_actions env cleanup r =
     rbind (classify_actions env (cleanup_actions_of cleanup)
              \<lparr>bk_gitignore = [], bk_exclude = [], bk_deletes = [], bk_report = empty_report\<rparr>) (\<lambda>b.
       Inr (apply_safe_deletes env [] (bk_deletes b)
             (apply_git_exclude_patterns env (bk_exclude b)
               (apply_gitignore_patterns env (bk_gitignore b) (bk_report b, r)))))"

section \<open>The outcome\<close>

definition bullet :: "string \<Rightarrow> string" where
  "bullet s = ''  - '' @ s"

definition build_cleanup_retry_hint :: "string list \<Rightarrow> nat \<Rightarrow> string" where
  "build_cleanup_retry_hint skipped safe_applied =
     (if skipped = []
        then ''Cleanup retry hint: no delete actions were rejected, but the phase still failed. Check the artifact content for schema errors.''
      else ''Cleanup retry hint: the following delete_file actions were rejected because they target files that look like source code, test files, documentation, or otherwise non-housekeeping content. Resubmit a commit_cleanup artifact that either (a) drops these paths from the actions list, (b) reclassifies them as add_to_git_exclude for machine-local files, or (c) reclassifies them as add_to_gitignore for project-wide patterns.''
         @ newline @ ''Rejected paths:'' @ newline @ join_str newline (map (\<lambda>p. bullet (quoted p)) skipped) @ newline
         @ (if 0 < safe_applied then ''Safe actions applied: '' @ str_nat safe_applied
            else ''No safe actions were applied alongside the rejected deletes.''))"

definition hint_section :: "string \<Rightarrow> string list \<Rightarrow> string list" where
  "hint_section title xs = (if xs = [] then [] else title # map bullet xs)"

definition build_unapplied_retry_hint :: "apply_report \<Rightarrow> string" where
  "build_unapplied_retry_hint rep =
     (let sections =
        (if declined_delete_paths rep = [] then []
         else hint_section ''Declined delete_file paths:'' (map quoted (declined_delete_paths rep))
           @ [''Resubmit without these paths, or reclassify a machine-local path as add_to_git_exclude / a project-wide pattern as add_to_gitignore.''])
        @ hint_section ''delete_file actions that failed while applying:'' (map quoted (failed_delete_paths rep))
        @ hint_section ''add_to_gitignore patterns that failed while applying:'' (map quoted (failed_gitignore_patterns rep))
        @ hint_section ''add_to_git_exclude patterns that failed while applying:'' (map quoted (failed_exclude_patterns rep))
        @ hint_section ''Other unapplied decisions:'' (unapplied_notes rep)
      in if sections = [] then []
         else join_str newline (''Cleanup retry hint: some requested actions were not applied.'' # sections))"

definition all_applications_failed :: "apply_report \<Rightarrow> bool" where
  "all_applications_failed rep =
     (applied_count rep = 0
      \<and> 0 < length (failed_delete_paths rep) + length (failed_pattern_tokens rep) + applied_count rep)"

definition housekeeping_failure :: "string \<Rightarrow> string \<Rightarrow> event list" where
  "housekeeping_failure ph why =
     [Phase_failure_event \<lparr>pf_phase = ph, pf_reason = why, recoverable = True, retry_in_session = True,
        pf_category = Some Cat_artifact_validation, pf_skip_same_agent_retries = False,
        pf_workspace_changed = False\<rparr>]"

definition analysis_complete_outcome :: "commit_cleanup \<Rightarrow> event list" where
  "analysis_complete_outcome cleanup =
     (if analysis_complete cleanup then [Pipeline_event AGENT_SUCCESS] else [Pipeline_event PHASE_LOOPBACK])"

definition decide_cleanup_outcome :: "string \<Rightarrow> commit_cleanup \<Rightarrow> apply_report \<Rightarrow> event list" where
  "decide_cleanup_outcome ph cleanup rep =
     (if all_applications_failed rep
        then housekeeping_failure ph (build_cleanup_retry_hint (failed_delete_paths rep @ failed_pattern_tokens rep) 0)
      else analysis_complete_outcome cleanup)"

section \<open>The bound on identical attempts\<close>

definition COMMIT_CLEANUP_IDENTITY_COUNTER :: string where
  "COMMIT_CLEANUP_IDENTITY_COUNTER = ''commit_cleanup_identity''"

definition DEFAULT_IDENTITY_MAX :: int where
  "DEFAULT_IDENTITY_MAX = 3"

definition identity_max :: "cleanup_env \<Rightarrow> int" where
  "identity_max env =
     (let parsed = (case dget (ce_loop_counters env) COMMIT_CLEANUP_IDENTITY_COUNTER of
                      None \<Rightarrow> DEFAULT_IDENTITY_MAX | Some cfg \<Rightarrow> lc_default_max cfg)
      in if parsed \<le> 0 then DEFAULT_IDENTITY_MAX else parsed)"

definition read_identity_state :: "repo \<Rightarrow> (string \<times> string \<times> int) option" where
  "read_identity_state r =
     (case rp_identity r of
        Some (JObj d) \<Rightarrow>
          (case (dget d ''phase'', dget d ''fingerprint'', dget d ''count'') of
             (Some (JStr ph), Some (JStr fp), Some (JInt n)) \<Rightarrow> Some (ph, fp, n)
           | _ \<Rightarrow> None)
      | _ \<Rightarrow> None)"

definition write_identity_state :: "cleanup_env \<Rightarrow> string \<Rightarrow> string \<Rightarrow> int \<Rightarrow> repo \<Rightarrow> repo" where
  "write_identity_state env ph fp n r =
     (if ce_identity_writes env
        then r\<lparr>rp_identity := Some (JObj [(''phase'', JStr ph), (''fingerprint'', JStr fp), (''count'', JInt n)])\<rparr>
      else r)"

definition charge_identity :: "cleanup_env \<Rightarrow> string \<Rightarrow> string \<Rightarrow> repo \<Rightarrow> bool \<times> repo" where
  "charge_identity env ph fp r =
     (let n = (case read_identity_state r of
                 Some (ph', fp', m) \<Rightarrow> if ph' = ph \<and> fp' = fp then m + 1 else 1
               | None \<Rightarrow> 1)
      in (identity_max env \<le> n, write_identity_state env ph fp n r))"

definition maybe_succeed_after_identity_bound ::
  "cleanup_env \<Rightarrow> string \<Rightarrow> string \<Rightarrow> event list \<Rightarrow> repo \<Rightarrow> event list \<times> repo" where
  "maybe_succeed_after_identity_bound env ph fp evs r =
     (let (reached, r') = charge_identity env ph fp r
      in (if reached then [Pipeline_event AGENT_SUCCESS] else evs, r'))"

section \<open>The handler\<close>

definition COMMIT_CLEANUP_ARTIFACT_PATH :: string where
  "COMMIT_CLEANUP_ARTIFACT_PATH = ''.agent/artifacts/commit_cleanup.md''"

definition artifact_digest :: "cleanup_env \<Rightarrow> repo \<Rightarrow> string" where
  "artifact_digest env r =
     (case rp_artifact r of
        None \<Rightarrow> ''missing''
      | Some raw \<Rightarrow> if ce_artifact_readable env then ce_sha256_hex env raw else ''unreadable'')"

definition report_fingerprint :: "cleanup_env \<Rightarrow> string \<Rightarrow> apply_report \<Rightarrow> string" where
  "report_fingerprint env digest rep =
     ce_sha256_hex env (ce_json_dumps env (JObj
       [(''applied'', JInt (int (applied_count rep))),
        (''declined'', JList (map JStr (sort (declined_delete_paths rep)))),
        (''digest'', JStr digest),
        (''failed_deletes'', JList (map JStr (sort (failed_delete_paths rep)))),
        (''failed_exclude'', JList (map JStr (sort (failed_exclude_patterns rep)))),
        (''failed_ignore'', JList (map JStr (sort (failed_gitignore_patterns rep))))]))"

definition load_cleanup_artifact :: "cleanup_env \<Rightarrow> repo \<Rightarrow> commit_cleanup option" where
  "load_cleanup_artifact env r =
     (case rp_artifact r of
        Some raw \<Rightarrow> if ce_artifact_readable env then ce_load_artifact env raw else None
      | None \<Rightarrow> None)"

definition consume_cleanup_artifact :: "cleanup_env \<Rightarrow> repo \<Rightarrow> repo" where
  "consume_cleanup_artifact env r = (if ce_artifact_deletes env then r\<lparr>rp_artifact := None\<rparr> else r)"

definition persist_unapplied_hint :: "cleanup_env \<Rightarrow> apply_report \<Rightarrow> repo \<Rightarrow> repo" where
  "persist_unapplied_hint env rep r =
     (let hint = build_unapplied_retry_hint rep
      in if hint = [] \<or> \<not> ce_hint_writes env then r else r\<lparr>rp_hint := Some hint\<rparr>)"

definition clear_validation_retry_hint :: "cleanup_env \<Rightarrow> repo \<Rightarrow> repo" where
  "clear_validation_retry_hint env r = (if ce_hint_removes env then r\<lparr>rp_hint := None\<rparr> else r)"

definition exception_text :: "py_exn \<Rightarrow> string" where
  "exception_text e =
     (case e of ValueError m \<Rightarrow> m | RuntimeError m \<Rightarrow> m | KeyError m \<Rightarrow> quoted m | OSError m \<Rightarrow> m
      | IndexError \<Rightarrow> ''tuple index out of range'')"

definition prepare_repository :: "cleanup_env \<Rightarrow> repo \<Rightarrow> repo" where
  "prepare_repository env r =
     (let r1 = snd (untrack_engine_internal_files env r)
      in r1\<lparr>rp_gitignore := ce_seed_ignore env (rp_gitignore r1),
            rp_exclude := ce_seed_exclude env (rp_exclude r1)\<rparr>)"

definition grade_cleanup :: "cleanup_env \<Rightarrow> string \<Rightarrow> repo \<Rightarrow> event list \<times> repo" where
  "grade_cleanup env ph r =
     (let digest = artifact_digest env r
      in case load_cleanup_artifact env r of
           None \<Rightarrow>
             maybe_succeed_after_identity_bound env ph (''missing-or-invalid:'' @ digest)
               (housekeeping_failure ph (''Missing or invalid commit_cleanup artifact at '' @ COMMIT_CLEANUP_ARTIFACT_PATH)) r
         | Some cleanup \<Rightarrow>
             (case apply_cleanup_actions env cleanup r of
                Inl e \<Rightarrow>
                  maybe_succeed_after_identity_bound env ph (''apply-raise:'' @ digest)
                    (housekeeping_failure ph (''Cleanup action failed: '' @ exception_text e))
                    (consume_cleanup_artifact env r)
              | Inr (rep, r1) \<Rightarrow>
                  let r2 = consume_cleanup_artifact env (persist_unapplied_hint env rep r1);
                      outcome = decide_cleanup_outcome ph cleanup rep
                  in if all_applications_failed rep
                       then maybe_succeed_after_identity_bound env ph (report_fingerprint env digest rep) outcome r2
                     else (outcome, if outcome = [Pipeline_event AGENT_SUCCESS]
                                    then clear_validation_retry_hint env r2 else r2)))"

definition handle_commit_cleanup_phase :: "cleanup_env \<Rightarrow> router_effect \<Rightarrow> repo \<Rightarrow> event list \<times> repo" where
  "handle_commit_cleanup_phase env eff r =
     (case eff of
        Prepare_prompt _ _ _ _ \<Rightarrow> ([Pipeline_event PROMPT_PREPARED], r)
      | Invoke_agent _ ph _ _ _ \<Rightarrow>
          (case ce_root_error env of
             Some msg \<Rightarrow>
               maybe_succeed_after_identity_bound env ph ''workspace-root''
                 (housekeeping_failure ph (''Failed to resolve workspace root: '' @ msg)) r
           | None \<Rightarrow> grade_cleanup env ph (prepare_repository env r))
      | _ \<Rightarrow> ([], r))"

section \<open>Ignore files\<close>

definition content_lines :: "string option \<Rightarrow> string list" where
  "content_lines c = (case c of None \<Rightarrow> [] | Some t \<Rightarrow> splitlines t)"

lemma content_lines_Some: "content_lines (Some t) = splitlines t"
  by (simp add: content_lines_def)

lemma atomic_append_lines:
  assumes "ps \<noteq> []" "list_all plain_line ps"
  shows "set (content_lines c) \<union> set ps \<subseteq> set (splitlines (atomic_append_text c (join_str newline ps @ newline)))"
proof -
  let ?payload = "join_str newline ps @ newline"
  let ?old = "case c of None \<Rightarrow> [] | Some t \<Rightarrow> t"
  have new: "splitlines ?payload = ps" using splitlines_join [OF assms] by (simp add: newline_def)
  have old: "content_lines c = splitlines ?old"
    by (cases c) (simp_all add: content_lines_def splitlines_def splitlines_from.simps [of "[]" "[]"])
  consider "?old = []" | "?old \<noteq> []" "last ?old = CHR 0x0A" | "?old \<noteq> []" "last ?old \<noteq> CHR 0x0A" by blast
  then show ?thesis
  proof cases
    case 1
    then show ?thesis using new old
      by (simp add: atomic_append_text_def Let_def splitlines_def splitlines_from.simps [of "[]" "[]"])
  next
    case 2
    then have "splitlines (?old @ ?payload) = splitlines ?old @ ps"
      using splitlines_from_append [of ?old "[]" ?payload] new by (simp add: splitlines_def)
    then show ?thesis using 2 old by (simp add: atomic_append_text_def Let_def)
  next
    case 3
    have "splitlines ((?old @ newline) @ ?payload) = splitlines (?old @ newline) @ ps"
      using splitlines_from_append [of "?old @ newline" "[]" ?payload] new by (simp add: splitlines_def newline_def)
    moreover have "set (splitlines ?old) \<subseteq> set (splitlines (?old @ newline))"
      using splitlines_add_break [OF 3(1)] by (simp add: splitlines_def newline_def)
    ultimately show ?thesis using 3 old by (auto simp: atomic_append_text_def Let_def)
  qed
qed

lemma append_lines_old: "append_lines c ps = (if set ps \<subseteq> set (content_lines c) then c
   else Some (atomic_append_text c (join_str newline (filter (\<lambda>p. p \<notin> set (content_lines c)) ps) @ newline)))"
  by (auto simp: append_lines_def content_lines_def Let_def filter_empty_conv)

lemma append_lines_covers:
  assumes "list_all plain_line ps"
  shows "set (content_lines c) \<union> set ps \<subseteq> set (content_lines (append_lines c ps))"
proof (cases "set ps \<subseteq> set (content_lines c)")
  case False
  let ?new = "filter (\<lambda>p. p \<notin> set (content_lines c)) ps"
  have "?new \<noteq> []" "list_all plain_line ?new" using False assms by (auto simp: filter_empty_conv list_all_iff)
  from atomic_append_lines [OF this, of c] False show ?thesis
    by (auto simp: append_lines_old content_lines_Some)
qed (simp add: append_lines_old)

text \<open>
  Appending patterns to an ignore file loses no line, adds every pattern as a line of its own, and
  appending them again changes nothing, whatever the file ends with.
\<close>

theorem ignore_append_correct:
  assumes "list_all plain_line ps"
  shows "set (content_lines c) \<union> set ps \<subseteq> set (content_lines (append_lines c ps))
    \<and> append_lines (append_lines c ps) ps = append_lines c ps"
  using append_lines_covers [OF assms, of c] by (simp add: append_lines_old [of "append_lines c ps"])

theorem ignore_append_correct_witness:
  "set (content_lines (append_lines (Some ''build'') [''*.log''])) \<supseteq> {''build'', ''*.log''}
   \<and> append_lines (append_lines (Some ''build'') [''*.log'']) [''*.log''] = append_lines (Some ''build'') [''*.log'']"
proof -
  have plain: "list_all plain_line [''*.log'']" by code_simp
  have "content_lines (Some ''build'') = [''build'']" by code_simp
  then show ?thesis using ignore_append_correct [OF plain, of "Some ''build''"] by auto
qed

section \<open>Secrets\<close>

lemma secret_patterns_plain: "list_all plain_line TRACKED_SECRET_BASENAME_PATTERNS"
  by code_simp

lemma secret_patterns_normal:
  "list_all (\<lambda>pat. normalized_pattern pat = pat \<and> CHR ''/'' \<notin> set pat \<and> is_recognized_secret_name (py_name pat))
     TRACKED_SECRET_BASENAME_PATTERNS"
  by code_simp

lemma secrets_all_tracked:
  "set (tracked_secrets TRACKED_SECRET_BASENAME_PATTERNS tracked)
     = {p \<in> set tracked. is_recognized_secret_name (py_name p)}"
proof -
  have all: "filter (\<lambda>pat. is_recognized_secret_name (py_name (normalized_pattern pat))) TRACKED_SECRET_BASENAME_PATTERNS
      = TRACKED_SECRET_BASENAME_PATTERNS"
    using secret_patterns_normal by (auto simp: filter_id_conv list_all_iff)
  have ne: "TRACKED_SECRET_BASENAME_PATTERNS \<noteq> []" by (simp add: TRACKED_SECRET_BASENAME_PATTERNS_def)
  have "list_ex (\<lambda>pat. sensitive_pattern_matches_path pat p) TRACKED_SECRET_BASENAME_PATTERNS"
    if "is_recognized_secret_name (py_name p)" for p
    using that secret_patterns_normal
    by (auto simp: sensitive_pattern_matches_path_def Let_def list_ex_iff list_all_iff is_recognized_secret_name_def
        [of "py_name p"])
  then show ?thesis unfolding tracked_secrets_def all Let_def using ne by auto
qed

definition excluded_name :: "string option \<Rightarrow> string \<Rightarrow> bool" where
  "excluded_name exclude p = list_ex (\<lambda>l. CHR ''/'' \<notin> set l \<and> glob_match l (py_name p)) (content_lines exclude)"

text \<open>
  Safe staging.  When staging returns, no recognised secret is left in the index, provided that
  staging everything adds no path whose name a line of the exclude file matches; and no file of the
  working tree is touched before staging.
\<close>

theorem secrets_never_staged:
  assumes "stage_commit_changes_safely env stage_all r = (Inr (), r')"
    and "\<And>q p. p \<in> set (rp_index (stage_all q)) \<Longrightarrow> p \<in> set (rp_index q) \<or> \<not> excluded_name (rp_exclude q) p"
  shows "\<forall>p\<in>set (rp_index r'). \<not> is_recognized_secret_name (py_name p)"
proof -
  obtain r1 where a: "add_to_git_exclude env TRACKED_SECRET_BASENAME_PATTERNS r = (Inr (), r1)"
    and r': "r' = stage_all r1"
    using assms(1) by (auto simp: stage_commit_changes_safely_def split: prod.splits sum.splits)
  have ex: "rp_exclude r1 = append_lines (rp_exclude r) TRACKED_SECRET_BASENAME_PATTERNS"
    using a by (auto simp: add_to_git_exclude_def Let_def split: if_splits)
  have idx: "\<forall>p\<in>set (rp_index r1). \<not> is_recognized_secret_name (py_name p)"
    using a secrets_all_tracked [of "rp_index r"]
    by (auto simp: add_to_git_exclude_def Let_def split: if_splits)
  have "excluded_name (rp_exclude r1) p" if "is_recognized_secret_name (py_name p)" for p
    using that secret_patterns_normal append_lines_covers [OF secret_patterns_plain, of "rp_exclude r"]
    by (auto simp: excluded_name_def ex is_recognized_secret_name_def list_ex_iff list_all_iff)
  with idx assms(2) [of _ r1] r' show ?thesis by blast
qed

lemma exclude_returns:
  "ce_repo_opens env \<Longrightarrow> ce_append_exclude env \<Longrightarrow> \<forall>xs. ce_git_rm env xs \<Longrightarrow>
   \<exists>r'. add_to_git_exclude env ps r = (Inr (), r')"
  by (simp add: add_to_git_exclude_def Let_def)

definition guarded_env :: cleanup_env where
  "guarded_env = \<lparr>ce_in_head = (\<lambda>_. False), ce_is_symlink = (\<lambda>_. False), ce_resolves_outside = (\<lambda>_. False),
     ce_repo_opens = True, ce_git_rm = (\<lambda>_. True), ce_unlink = (\<lambda>_. True), ce_append_ignore = True,
     ce_append_exclude = True, ce_root_error = None, ce_seed_ignore = (\<lambda>c. c), ce_seed_exclude = (\<lambda>c. c),
     ce_artifact_readable = True, ce_load_artifact = (\<lambda>_. Some \<lparr>analysis_complete = True, cleanup_actions_of =
       [\<lparr>act_kind = Delete_file, act_path = Some ''scratch.tmp'', act_pattern = None\<rparr>,
        \<lparr>act_kind = Delete_file, act_path = Some ''app.py'', act_pattern = None\<rparr>]\<rparr>),
     ce_artifact_deletes = True, ce_identity_writes = True, ce_hint_writes = True, ce_hint_removes = True,
     ce_sha256_hex = (\<lambda>s. s), ce_json_dumps = (\<lambda>_. []), ce_loop_counters = []\<rparr>"

definition sample_repo :: repo where
  "sample_repo = \<lparr>rp_files = [''app.py'', ''scratch.tmp'', ''.env''], rp_index = [''app.py'', ''.env''],
     rp_gitignore = None, rp_exclude = Some ''*.swp'', rp_artifact = Some ''artifact'', rp_identity = None,
     rp_hint = None\<rparr>"

theorem secrets_never_staged_witness:
  "\<exists>r'. stage_commit_changes_safely guarded_env (\<lambda>q. q\<lparr>rp_index :=
        rp_index q @ filter (\<lambda>p. \<not> excluded_name (rp_exclude q) p) (rp_files q)\<rparr>) sample_repo = (Inr (), r')
     \<and> (\<forall>p\<in>set (rp_index r'). \<not> is_recognized_secret_name (py_name p))"
proof -
  let ?stage = "\<lambda>q. q\<lparr>rp_index := rp_index q @ filter (\<lambda>p. \<not> excluded_name (rp_exclude q) p) (rp_files q)\<rparr>"
  have "ce_repo_opens guarded_env" "ce_append_exclude guarded_env" "\<forall>xs. ce_git_rm guarded_env xs"
    by (simp_all add: guarded_env_def)
  then obtain r1 where "add_to_git_exclude guarded_env TRACKED_SECRET_BASENAME_PATTERNS sample_repo = (Inr (), r1)"
    using exclude_returns by blast
  then obtain r' where r: "stage_commit_changes_safely guarded_env ?stage sample_repo = (Inr (), r')"
    by (simp add: stage_commit_changes_safely_def)
  have "p \<in> set (rp_index q) \<or> \<not> excluded_name (rp_exclude q) p" if "p \<in> set (rp_index (?stage q))" for q p
    using that by auto
  from secrets_never_staged [OF r this] r show ?thesis by blast
qed

section \<open>What is deleted\<close>





lemma files_append_to_gitignore [simp]: "rp_files (snd (append_to_gitignore env ps r)) = rp_files r"
  by (simp add: append_to_gitignore_def Let_def)

lemma files_add_to_git_exclude [simp]: "rp_files (snd (add_to_git_exclude env ps r)) = rp_files r"
  by (simp add: add_to_git_exclude_def Let_def)

lemma files_apply_gitignore [simp]: "rp_files (snd (apply_gitignore_patterns env ps rr)) = rp_files (snd rr)"
proof (induction env ps rr rule: apply_gitignore_patterns.induct)
  case (2 env p ps rep r)
  then show ?case
    using files_append_to_gitignore [of env "[p]" r]
    by (auto simp del: files_append_to_gitignore split: prod.splits sum.splits)
qed simp

lemma files_apply_exclude [simp]: "rp_files (snd (apply_git_exclude_patterns env ps rr)) = rp_files (snd rr)"
proof (induction env ps rr rule: apply_git_exclude_patterns.induct)
  case (2 env p ps rep r)
  then show ?case
    using files_add_to_git_exclude [of env "[p]" r]
    by (auto simp del: files_add_to_git_exclude split: prod.splits sum.splits)
qed simp





lemma files_untrack [simp]: "rp_files (snd (untrack_entries env ps r)) = rp_files r"
  by (induction env ps r rule: untrack_entries.induct) (auto split: sum.split)

lemma untrack_keeps [simp]:
  "rp_artifact (snd (untrack_entries env ps r)) = rp_artifact r"
  "rp_identity (snd (untrack_entries env ps r)) = rp_identity r"
  by (induction env ps r rule: untrack_entries.induct) (auto split: sum.split)

lemma prepare_keeps [simp]:
  "rp_files (prepare_repository env r) = rp_files r"
  "rp_artifact (prepare_repository env r) = rp_artifact r"
  "rp_identity (prepare_repository env r) = rp_identity r"
  by (simp_all add: prepare_repository_def untrack_engine_internal_files_def Let_def)

lemma files_identity [simp]: "rp_files (snd (maybe_succeed_after_identity_bound env ph fp evs r)) = rp_files r"
  by (simp add: maybe_succeed_after_identity_bound_def charge_identity_def write_identity_state_def Let_def)

lemma files_bookkeeping [simp]:
  "rp_files (consume_cleanup_artifact env r) = rp_files r"
  "rp_files (persist_unapplied_hint env rep r) = rp_files r"
  "rp_files (clear_validation_retry_hint env r) = rp_files r"
  by (simp_all add: consume_cleanup_artifact_def persist_unapplied_hint_def clear_validation_retry_hint_def Let_def)





section \<open>The bound on attempts without progress\<close>

definition cleanup_step :: "cleanup_env \<Rightarrow> router_effect \<Rightarrow> repo \<Rightarrow> repo" where
  "cleanup_step env eff r = snd (handle_commit_cleanup_phase env eff r)"

definition missing_key :: string where
  "missing_key = ''missing-or-invalid:missing''"

definition identity_count :: "string \<Rightarrow> string \<Rightarrow> repo \<Rightarrow> int" where
  "identity_count ph fp r =
     (case read_identity_state r of
        Some (ph', fp', n) \<Rightarrow> if ph' = ph \<and> fp' = fp then n else 0
      | None \<Rightarrow> 0)"

lemma identity_read_written: "ce_identity_writes env \<Longrightarrow> read_identity_state (write_identity_state env ph fp n r) = Some (ph, fp, n)"
  by (simp add: read_identity_state_def write_identity_state_def dget_def)

lemma charge_identity_count:
  "charge_identity env ph fp r =
     (identity_max env \<le> identity_count ph fp r + 1, write_identity_state env ph fp (identity_count ph fp r + 1) r)"
  by (simp add: charge_identity_def identity_count_def Let_def split: option.split)

lemma identity_count_prepare [simp]: "identity_count ph fp (prepare_repository env r) = identity_count ph fp r"
  by (simp add: identity_count_def read_identity_state_def)

lemma handle_missing:
  assumes "rp_artifact r = None" "ce_root_error env = None"
  shows "handle_commit_cleanup_phase env (Invoke_agent a ph f d c) r =
    (if identity_max env \<le> identity_count ph missing_key r + 1 then [Pipeline_event AGENT_SUCCESS]
     else housekeeping_failure ph (''Missing or invalid commit_cleanup artifact at '' @ COMMIT_CLEANUP_ARTIFACT_PATH),
     write_identity_state env ph missing_key (identity_count ph missing_key r + 1) (prepare_repository env r))"
  using assms
  by (simp add: handle_commit_cleanup_phase_def grade_cleanup_def load_cleanup_artifact_def artifact_digest_def
      maybe_succeed_after_identity_bound_def charge_identity_count missing_key_def Let_def)

lemma cleanup_step_missing:
  "rp_artifact r = None \<Longrightarrow> ce_root_error env = None \<Longrightarrow>
   cleanup_step env (Invoke_agent a ph f d c) r =
     write_identity_state env ph missing_key (identity_count ph missing_key r + 1) (prepare_repository env r)"
  by (simp add: cleanup_step_def handle_missing)

lemma missing_steps:
  assumes "rp_artifact r = None" "ce_root_error env = None" "ce_identity_writes env"
  shows "rp_artifact ((cleanup_step env (Invoke_agent a ph f d c) ^^ k) r) = None
    \<and> identity_count ph missing_key ((cleanup_step env (Invoke_agent a ph f d c) ^^ k) r)
      = identity_count ph missing_key r + int k"
proof (induction k)
  case 0
  then show ?case using assms by simp
next
  case (Suc k)
  let ?r = "(cleanup_step env (Invoke_agent a ph f d c) ^^ k) r"
  have step: "cleanup_step env (Invoke_agent a ph f d c) ?r =
      write_identity_state env ph missing_key (identity_count ph missing_key ?r + 1) (prepare_repository env ?r)"
    using Suc assms(2) by (intro cleanup_step_missing) simp_all
  have "rp_artifact (write_identity_state env ph missing_key n (prepare_repository env ?r)) = None" for n
    using Suc by (simp add: write_identity_state_def)
  then show ?case
    using Suc assms(3) by (simp add: step identity_count_def [of _ _ "write_identity_state _ _ _ _ _"] identity_read_written)
qed

text \<open>
  An agent that never submits a cleanup artifact cannot hold the run: with the counter file writable,
  attempt number \<open>k + 1\<close> fails as long as fewer attempts than the bound have been counted, and
  from the bound on the phase reports success.
\<close>

theorem missing_artifact_bounded:
  assumes "rp_artifact r = None" "ce_root_error env = None" "ce_identity_writes env"
  shows "fst (handle_commit_cleanup_phase env (Invoke_agent a ph f d c)
      ((cleanup_step env (Invoke_agent a ph f d c) ^^ k) r)) =
    (if identity_max env \<le> identity_count ph missing_key r + int k + 1 then [Pipeline_event AGENT_SUCCESS]
     else housekeeping_failure ph (''Missing or invalid commit_cleanup artifact at '' @ COMMIT_CLEANUP_ARTIFACT_PATH))"
  using missing_steps [OF assms, where a = a and ph = ph and f = f and d = d and c = c and k = k] handle_missing [OF _ assms(2)] by simp

theorem missing_artifact_bounded_witness:
  "fst (handle_commit_cleanup_phase guarded_env (Invoke_agent ''a'' ''ph'' [] None [])
      ((cleanup_step guarded_env (Invoke_agent ''a'' ''ph'' [] None []) ^^ 2) (sample_repo\<lparr>rp_artifact := None\<rparr>)))
    = [Pipeline_event AGENT_SUCCESS]"
proof -
  have "identity_max guarded_env = 3" "identity_count ''ph'' missing_key (sample_repo\<lparr>rp_artifact := None\<rparr>) = 0"
    by code_simp+
  moreover have "ce_root_error guarded_env = None" "ce_identity_writes guarded_env" by (simp_all add: guarded_env_def)
  ultimately show ?thesis
    using missing_artifact_bounded [of "sample_repo\<lparr>rp_artifact := None\<rparr>" guarded_env,
      where a = "''a''" and ph = "''ph''" and f = "[]" and d = None and c = "[]" and k = 2]
    by simp
qed

text \<open>
  When the counter file cannot be written the attempts are never counted; a success in between does
  not clear the count, so a later cycle starts with it; and the schema lets a value end in a line feed.
\<close>

lemma unwritable_counter_never_bounds:
  assumes "rp_artifact r = None" "ce_root_error env = None" "\<not> ce_identity_writes env" "rp_identity r = None"
    and "1 < identity_max env"
  shows "fst (handle_commit_cleanup_phase env (Invoke_agent a ph f d c)
      ((cleanup_step env (Invoke_agent a ph f d c) ^^ k) r)) \<noteq> [Pipeline_event AGENT_SUCCESS]"
proof -
  have "rp_artifact ((cleanup_step env (Invoke_agent a ph f d c) ^^ k) r) = None
      \<and> rp_identity ((cleanup_step env (Invoke_agent a ph f d c) ^^ k) r) = None"
    by (induction k) (use assms in \<open>simp_all add: cleanup_step_missing write_identity_state_def\<close>)
  then show ?thesis
    using assms by (simp add: handle_missing identity_count_def read_identity_state_def housekeeping_failure_def)
qed

lemma success_keeps_count:
  "rp_identity (snd (handle_commit_cleanup_phase guarded_env (Invoke_agent ''a'' ''ph'' [] None [])
      (sample_repo\<lparr>rp_identity := Some (JObj [(''phase'', JStr ''ph''), (''fingerprint'', JStr missing_key), (''count'', JInt 2)])\<rparr>)))
    = Some (JObj [(''phase'', JStr ''ph''), (''fingerprint'', JStr missing_key), (''count'', JInt 2)])
   \<and> fst (handle_commit_cleanup_phase guarded_env (Invoke_agent ''a'' ''ph'' [] None [])
      (sample_repo\<lparr>rp_artifact := None,
        rp_identity := Some (JObj [(''phase'', JStr ''ph''), (''fingerprint'', JStr missing_key), (''count'', JInt 2)])\<rparr>))
     = [Pipeline_event AGENT_SUCCESS]"
  by code_simp

lemma final_line_feed_accepted:
  "validate_cleanup_action \<lparr>act_kind = Add_to_gitignore, act_path = None, act_pattern = Some (''build'' @ newline)\<rparr>
    = Inr \<lparr>act_kind = Add_to_gitignore, act_path = None, act_pattern = Some (''build'' @ newline)\<rparr>"
  by code_simp

end
