(* ===== verification/Worktree_Observation.thy ===== *)
theory Worktree_Observation
  imports Py_Text
begin

text \<open>
  The observation model of the integration boundary: three-valued readings, the closed
  vocabularies of the seven observed dimensions, the parsers of \<^verbatim>\<open>git status\<close> output and the
  one worktree classifier.  Sources: \<^verbatim>\<open>ralph/git/hardening.py\<close> (the porcelain v1 parser),
  \<^verbatim>\<open>ralph/pipeline/_porcelain_records.py\<close>, \<^verbatim>\<open>ralph/pipeline/_index_flag_records.py\<close> and
  \<^verbatim>\<open>ralph/pipeline/integration_observation.py\<close>.

  Git itself is a parameter: a runner from an argument vector to a raised exception or an exit
  code with standard output.  A frozen set of paths is a list read as a set.  The parsers index
  status codes, so a code shorter than two characters raises, as it does in the source.
\<close>

section \<open>Readings and the observed dimensions\<close>

text \<open>An exception seen by a handler: its \<^verbatim>\<open>str\<close> and the name of its class.\<close>

type_synonym raised = "string \<times> string"

definition raised_text :: "raised \<Rightarrow> string" where
  "raised_text e = (if fst e \<noteq> [] then fst e else snd e)"

datatype 'a reading = Known_good 'a | Known_blocked string | Unknown_reading string

fun reading_reason :: "'a reading \<Rightarrow> string option" where
  "reading_reason (Known_good _) = None"
| "reading_reason (Known_blocked r) = Some r"
| "reading_reason (Unknown_reading r) = Some r"

definition reading_from_callable :: "(raised + 'a) \<Rightarrow> (raised \<Rightarrow> string option) \<Rightarrow> 'a reading" where
  "reading_from_callable probe classify_blocked =
     (case probe of
        Inr v \<Rightarrow> Known_good v
      | Inl exc \<Rightarrow> (case classify_blocked exc of
            Some reason \<Rightarrow> if reason \<noteq> [] then Known_blocked reason
                           else Unknown_reading (raised_text exc)
          | None \<Rightarrow> Unknown_reading (raised_text exc)))"

datatype target_vs_feature = TF_equal | TF_behind | TF_ahead | TF_diverged | TF_unknown
datatype target_vs_remote = TR_equal | TR_behind | TR_ahead | TR_diverged | TR_unreachable | TR_unknown
datatype worktree_state = WT_clean | WT_tracked_changes | WT_staged | WT_untracked | WT_unmerged | WT_unknown
datatype head_state = Head_attached | Head_detached | Head_unknown
datatype in_progress_kind = Op_none | Op_rebase | Op_merge | Op_cherry_pick | Op_revert | Op_am | Op_sequencer
datatype in_progress_ownership = Own_owned | Own_foreign | Own_unknown
datatype integration_record_state =
  Rec_none | Rec_consistent | Rec_stale | Rec_unreadable | Rec_older_version | Rec_foreign

datatype dirt_shape =
    Shape_none | Shape_unstaged_modification | Shape_staged_only | Shape_staged_and_unstaged
  | Shape_mode_only | Shape_intent_to_add | Shape_type_change | Shape_deleted
  | Shape_renamed_or_copied | Shape_untracked_only | Shape_untracked_blocking
  | Shape_line_ending_only | Shape_index_flag_hidden | Shape_unmerged | Shape_unknown

fun target_vs_feature_value :: "target_vs_feature \<Rightarrow> string" where
  "target_vs_feature_value TF_equal = ''equal''"
| "target_vs_feature_value TF_behind = ''behind''"
| "target_vs_feature_value TF_ahead = ''ahead''"
| "target_vs_feature_value TF_diverged = ''diverged''"
| "target_vs_feature_value TF_unknown = ''unknown''"

fun target_vs_remote_value :: "target_vs_remote \<Rightarrow> string" where
  "target_vs_remote_value TR_equal = ''equal''"
| "target_vs_remote_value TR_behind = ''behind''"
| "target_vs_remote_value TR_ahead = ''ahead''"
| "target_vs_remote_value TR_diverged = ''diverged''"
| "target_vs_remote_value TR_unreachable = ''unreachable''"
| "target_vs_remote_value TR_unknown = ''unknown''"

fun worktree_value :: "worktree_state \<Rightarrow> string" where
  "worktree_value WT_clean = ''clean''"
| "worktree_value WT_tracked_changes = ''tracked_changes''"
| "worktree_value WT_staged = ''staged''"
| "worktree_value WT_untracked = ''untracked''"
| "worktree_value WT_unmerged = ''unmerged''"
| "worktree_value WT_unknown = ''unknown''"

fun head_value :: "head_state \<Rightarrow> string" where
  "head_value Head_attached = ''attached''"
| "head_value Head_detached = ''detached''"
| "head_value Head_unknown = ''unknown''"

fun in_progress_value :: "in_progress_kind \<Rightarrow> string" where
  "in_progress_value Op_none = ''none''"
| "in_progress_value Op_rebase = ''rebase''"
| "in_progress_value Op_merge = ''merge''"
| "in_progress_value Op_cherry_pick = ''cherry_pick''"
| "in_progress_value Op_revert = ''revert''"
| "in_progress_value Op_am = ''am''"
| "in_progress_value Op_sequencer = ''sequencer''"

fun ownership_value :: "in_progress_ownership \<Rightarrow> string" where
  "ownership_value Own_owned = ''owned''"
| "ownership_value Own_foreign = ''foreign''"
| "ownership_value Own_unknown = ''unknown''"

fun record_state_value :: "integration_record_state \<Rightarrow> string" where
  "record_state_value Rec_none = ''none''"
| "record_state_value Rec_consistent = ''consistent''"
| "record_state_value Rec_stale = ''stale''"
| "record_state_value Rec_unreadable = ''unreadable''"
| "record_state_value Rec_older_version = ''older_version''"
| "record_state_value Rec_foreign = ''foreign''"

record observation =
  obs_target_vs_feature :: target_vs_feature
  obs_target_vs_remote :: target_vs_remote
  obs_worktree :: worktree_state
  obs_head :: head_state
  obs_in_progress_kind :: in_progress_kind
  obs_in_progress_ownership :: in_progress_ownership
  obs_record :: integration_record_state
  obs_agent_active :: bool

definition has_unknown :: "observation \<Rightarrow> bool" where
  "has_unknown ob =
     (obs_target_vs_feature ob = TF_unknown \<or> obs_target_vs_remote ob = TR_unknown
      \<or> obs_worktree ob = WT_unknown \<or> obs_head ob = Head_unknown
      \<or> obs_in_progress_ownership ob = Own_unknown)"

section \<open>Porcelain version 1\<close>

record porcelain_entry =
  pe_xy :: string
  pe_path :: string
  pe_rename_source :: "string option"

definition drop_last_empty :: "string list \<Rightarrow> string list" where
  "drop_last_empty parts = (if parts \<noteq> [] \<and> last parts = [] then butlast parts else parts)"

definition piece_path :: "string \<Rightarrow> string" where
  "piece_path piece =
     (if length piece > 2 \<and> piece ! 2 = CHR '' '' then drop 3 piece else drop 2 piece)"

fun parse_pieces :: "string list \<Rightarrow> porcelain_entry list" where
  "parse_pieces [] = []"
| "parse_pieces (piece # rest) =
     (if length piece < 3 then parse_pieces rest
      else let xy = take 2 piece; path = piece_path piece
           in if xy ! 0 \<in> set ''RC'' \<and> rest \<noteq> []
              then \<lparr>pe_xy = xy, pe_path = hd rest, pe_rename_source = Some path\<rparr>
                   # parse_pieces (tl rest)
              else \<lparr>pe_xy = xy, pe_path = path, pe_rename_source = None\<rparr> # parse_pieces rest)"

definition parse_porcelain_z :: "string \<Rightarrow> porcelain_entry list" where
  "parse_porcelain_z blob =
     (if blob = [] then [] else parse_pieces (drop_last_empty (split_on (CHR 0x00) blob)))"

definition unmerged_xy :: "string list" where
  "unmerged_xy = [''UU'', ''AA'', ''DD'', ''AU'', ''UA'', ''DU'', ''UD'']"

definition unmerged_paths_z :: "string \<Rightarrow> porcelain_entry list" where
  "unmerged_paths_z blob = filter (\<lambda>en. pe_xy en \<in> set unmerged_xy) (parse_porcelain_z blob)"

section \<open>Folding entries into a worktree state\<close>

definition untracked_code :: string where
  "untracked_code = ''??''"

definition ignored_code :: string where
  "ignored_code = ''!!''"

definition index_status_codes :: string where
  "index_status_codes = ''MADRCT''"

definition worktree_status_codes :: string where
  "worktree_status_codes = ''MDTA''"

text \<open>\<open>code_at i xy\<close> is \<^verbatim>\<open>xy[i]\<close>.\<close>

definition code_at :: "nat \<Rightarrow> string \<Rightarrow> char res" where
  "code_at i xy = (if i < length xy then Inr (xy ! i) else Inl IndexError)"

fun fold_codes :: "bool \<Rightarrow> bool \<Rightarrow> bool \<Rightarrow> porcelain_entry list \<Rightarrow> (bool \<times> bool \<times> bool) res" where
  "fold_codes staged tracked untracked [] = Inr (staged, tracked, untracked)"
| "fold_codes staged tracked untracked (en # es) =
     (if pe_xy en = untracked_code then fold_codes staged tracked True es
      else if pe_xy en = ignored_code then fold_codes staged tracked untracked es
      else rbind (code_at 0 (pe_xy en)) (\<lambda>x.
           rbind (code_at 1 (pe_xy en)) (\<lambda>y.
             fold_codes (staged \<or> x \<in> set index_status_codes)
                        (tracked \<or> y \<in> set worktree_status_codes) untracked es)))"

definition state_from_parsed :: "porcelain_entry list \<Rightarrow> worktree_state res" where
  "state_from_parsed entries =
     rbind (fold_codes False False False entries) (\<lambda>(staged, tracked, untracked).
       Inr (if tracked then WT_tracked_changes
            else if staged then WT_staged
            else if untracked then WT_untracked
            else WT_clean))"

section \<open>Quoted paths\<close>

fun cquote_escape :: "char \<Rightarrow> char option" where
  "cquote_escape c =
     (if c = CHR ''a'' then Some (CHR 0x07) else if c = CHR ''b'' then Some (CHR 0x08)
      else if c = CHR ''f'' then Some (CHR 0x0C) else if c = CHR ''n'' then Some (CHR 0x0A)
      else if c = CHR ''r'' then Some (CHR 0x0D) else if c = CHR ''t'' then Some (CHR 0x09)
      else if c = CHR ''v'' then Some (CHR 0x0B) else if c = CHR 0x5C then Some (CHR 0x5C)
      else if c = CHR 0x22 then Some (CHR 0x22) else None)"

definition is_octal_digit :: "char \<Rightarrow> bool" where
  "is_octal_digit c = (let n = of_char c :: nat in 48 \<le> n \<and> n \<le> 55)"

definition octal_value :: "string \<Rightarrow> nat" where
  "octal_value ds = foldl (\<lambda>a c. 8 * a + digit_val c) 0 ds"

text \<open>
  The decoding loop over the text between the quotes.  \<open>Inr None\<close> is the early return for a
  malformed quote; appending a byte above 255 raises.
\<close>

function cquote_decode :: "string \<Rightarrow> string option res" where
  "cquote_decode s =
     (case s of
        [] \<Rightarrow> Inr (Some [])
      | c # cs \<Rightarrow>
          if c \<noteq> CHR 0x5C
          then rbind (cquote_decode cs) (\<lambda>r. Inr (map_option ((#) c) r))
          else case cs of
            [] \<Rightarrow> Inr None
          | nxt # cs' \<Rightarrow>
              (case cquote_escape nxt of
                 Some e \<Rightarrow> rbind (cquote_decode cs') (\<lambda>r. Inr (map_option ((#) e) r))
               | None \<Rightarrow>
                   let octal = take 3 cs
                   in if length octal = 3 \<and> list_all is_octal_digit octal
                      then if octal_value octal > 255
                           then Inl (ValueError ''byte must be in range(0, 256)'')
                           else rbind (cquote_decode (drop 3 cs))
                                  (\<lambda>r. Inr (map_option ((#) (char_of (octal_value octal))) r))
                      else Inr None))"
  by pat_completeness auto
termination
  by (relation "measure length") auto

declare cquote_decode.simps [simp del]

definition decode_quoted_porcelain_path :: "string \<Rightarrow> string res" where
  "decode_quoted_porcelain_path path =
     (if length path < 2 \<or> hd path \<noteq> CHR 0x22 \<or> last path \<noteq> CHR 0x22 then Inr path
      else rbind (cquote_decode (butlast (tl path))) (\<lambda>r.
             Inr (case r of None \<Rightarrow> path | Some raw \<Rightarrow> raw)))"

fun decode_porcelain_entries :: "porcelain_entry list \<Rightarrow> porcelain_entry list res" where
  "decode_porcelain_entries [] = Inr []"
| "decode_porcelain_entries (en # es) =
     rbind (decode_quoted_porcelain_path (pe_path en)) (\<lambda>p.
     rbind (case pe_rename_source en of
              None \<Rightarrow> Inr None
            | Some src \<Rightarrow> rbind (decode_quoted_porcelain_path src) (\<lambda>x. Inr (Some x))) (\<lambda>src.
     rbind (decode_porcelain_entries es) (\<lambda>rest.
       Inr (en\<lparr>pe_path := p, pe_rename_source := src\<rparr> # rest))))"

section \<open>Porcelain version 2\<close>

record porcelain_v2_entry =
  v2_xy :: string
  v2_path :: string
  v2_head_mode :: "string option"
  v2_index_mode :: "string option"
  v2_worktree_mode :: "string option"
  v2_head_hash :: "string option"
  v2_index_hash :: "string option"
  v2_rename_source :: "string option"
  v2_unmerged :: bool

definition v2_scalar_entry :: "string \<Rightarrow> string \<Rightarrow> porcelain_v2_entry" where
  "v2_scalar_entry xy path =
     \<lparr>v2_xy = xy, v2_path = path, v2_head_mode = None, v2_index_mode = None,
      v2_worktree_mode = None, v2_head_hash = None, v2_index_hash = None,
      v2_rename_source = None, v2_unmerged = False\<rparr>"

text \<open>An ordinary or renamed record: \<^verbatim>\<open>XY sub mH mI mW hH hI\<close> are the leading fields.\<close>

definition v2_changed_entry :: "string list \<Rightarrow> string \<Rightarrow> string option \<Rightarrow> porcelain_v2_entry" where
  "v2_changed_entry cols path src =
     (v2_scalar_entry (cols ! 0) path)
       \<lparr>v2_head_mode := Some (cols ! 2), v2_index_mode := Some (cols ! 3),
        v2_worktree_mode := Some (cols ! 4), v2_head_hash := Some (cols ! 5),
        v2_index_hash := Some (cols ! 6), v2_rename_source := src\<rparr>"

definition porcelain_v2_field_count :: "string \<Rightarrow> nat" where
  "porcelain_v2_field_count kind = (if kind = ''1'' then 8 else 9)"

fun v2_records :: "bool \<Rightarrow> string list \<Rightarrow> porcelain_v2_entry list option" where
  "v2_records saw_v2 [] = (if saw_v2 then Some [] else None)"
| "v2_records saw_v2 (rec # records) =
     (if rec = [] then v2_records saw_v2 records
      else let (kind, separator, rest) = partition_on (CHR '' '') rec
           in if kind \<notin> set [''1'', ''2'', ''u'', ''?'', ''!''] \<or> \<not> separator then None
              else if kind = ''?''
                then map_option ((#) (v2_scalar_entry untracked_code rest)) (v2_records True records)
              else if kind = ''!''
                then map_option ((#) (v2_scalar_entry ignored_code rest)) (v2_records True records)
              else let n = porcelain_v2_field_count kind;
                       cols = split_max (CHR '' '') (n - 1) rest
                   in if length cols \<noteq> n then v2_records True records
                      else if kind = ''1''
                        then map_option ((#) (v2_changed_entry cols (cols ! 7) None))
                               (v2_records True records)
                      else if kind = ''2''
                        then (case records of
                                [] \<Rightarrow> v2_records True []
                              | source # records' \<Rightarrow>
                                  map_option ((#) (v2_changed_entry cols (cols ! 8) (Some source)))
                                    (v2_records True records'))
                      else map_option
                             ((#) ((v2_scalar_entry (cols ! 0) (cols ! 8))\<lparr>v2_unmerged := True\<rparr>))
                             (v2_records True records))"

definition parse_porcelain_v2_z :: "string \<Rightarrow> porcelain_v2_entry list option" where
  "parse_porcelain_v2_z blob =
     (if blob = [] then None else v2_records False (drop_last_empty (split_on (CHR 0x00) blob)))"

definition v2_entries_as_v1 :: "porcelain_v2_entry list \<Rightarrow> porcelain_entry list" where
  "v2_entries_as_v1 es =
     map (\<lambda>en. \<lparr>pe_xy = v2_xy en, pe_path = v2_path en, pe_rename_source = v2_rename_source en\<rparr>) es"

definition v2_entry_is_mode_only :: "porcelain_v2_entry \<Rightarrow> bool" where
  "v2_entry_is_mode_only en =
     (v2_head_hash en \<noteq> None \<and> v2_index_hash en \<noteq> None \<and> v2_head_hash en = v2_index_hash en
      \<and> v2_head_mode en \<noteq> None \<and> v2_index_mode en \<noteq> None \<and> v2_worktree_mode en \<noteq> None
      \<and> (v2_head_mode en \<noteq> v2_index_mode en \<or> v2_index_mode en \<noteq> v2_worktree_mode en))"

definition porcelain_v2_to_state :: "porcelain_v2_entry list \<Rightarrow> worktree_state res" where
  "porcelain_v2_to_state es =
     (if list_ex v2_unmerged es then Inr WT_unmerged else state_from_parsed (v2_entries_as_v1 es))"

definition porcelain_to_state :: "string \<Rightarrow> worktree_state res" where
  "porcelain_to_state txt =
     (let blob = replace_char (CHR 0x0A) (CHR 0x00) txt
      in case parse_porcelain_v2_z blob of
           Some es \<Rightarrow> porcelain_v2_to_state es
         | None \<Rightarrow> if unmerged_paths_z blob \<noteq> [] then Inr WT_unmerged
                   else state_from_parsed (parse_porcelain_z blob))"

section \<open>Dirt shapes\<close>

record dirt_evidence =
  mode_only_paths :: "string list"
  empty_diff_paths :: "string list"
  incoming_overwrite_paths :: "string list"

text \<open>\<open>shape_from_codes\<close> is the part of \<open>shape_for_tracked\<close> that reads the status codes only.\<close>

definition shape_from_codes :: "porcelain_entry list \<Rightarrow> dirt_shape res" where
  "shape_from_codes tracked =
     rbind (any_res (\<lambda>en. rbind (code_at 1 (pe_xy en)) (\<lambda>y. Inr (y = CHR ''A''))) tracked) (\<lambda>ita.
     if ita then Inr Shape_intent_to_add
     else if list_ex (\<lambda>en. CHR ''T'' \<in> set (pe_xy en)) tracked then Inr Shape_type_change
     else if list_ex (\<lambda>en. CHR ''D'' \<in> set (pe_xy en)) tracked then Inr Shape_deleted
     else
     rbind (any_res (\<lambda>en. rbind (code_at 0 (pe_xy en)) (\<lambda>x. Inr (x \<in> set ''RC''))) tracked) (\<lambda>rc.
     if rc then Inr Shape_renamed_or_copied
     else
     rbind (any_res (\<lambda>en. rbind (code_at 0 (pe_xy en)) (\<lambda>x. Inr (x \<in> set index_status_codes)))
              tracked) (\<lambda>staged.
     rbind (any_res (\<lambda>en. rbind (code_at 1 (pe_xy en)) (\<lambda>y. Inr (y \<in> set worktree_status_codes)))
              tracked) (\<lambda>unstaged.
     Inr (if staged \<and> unstaged then Shape_staged_and_unstaged
          else if staged then Shape_staged_only
          else Shape_unstaged_modification)))))"

definition shape_for_tracked :: "porcelain_entry list \<Rightarrow> dirt_evidence option \<Rightarrow> dirt_shape res" where
  "shape_for_tracked entries evidence =
     (let tracked = filter (\<lambda>en. pe_xy en \<notin> set [untracked_code, ignored_code]) entries;
          untracked_paths = map pe_path (filter (\<lambda>en. pe_xy en = untracked_code) entries);
          paths = map pe_path tracked @ List.map_filter pe_rename_source tracked
      in if tracked = []
         then Inr (if untracked_paths = [] then Shape_none
                   else if (case evidence of None \<Rightarrow> False
                            | Some ev \<Rightarrow> list_ex (\<lambda>p. p \<in> set (incoming_overwrite_paths ev)) untracked_paths)
                     then Shape_untracked_blocking
                   else Shape_untracked_only)
         else if (case evidence of None \<Rightarrow> False
                  | Some ev \<Rightarrow> paths \<noteq> [] \<and> set paths \<subseteq> set (mode_only_paths ev))
           then Inr Shape_mode_only
         else if (case evidence of None \<Rightarrow> False | Some ev \<Rightarrow> set paths \<subseteq> set (empty_diff_paths ev))
           then Inr Shape_line_ending_only
         else shape_from_codes tracked)"

definition shape_for_v2_entries :: "porcelain_v2_entry list \<Rightarrow> dirt_evidence option \<Rightarrow> dirt_shape res" where
  "shape_for_v2_entries es evidence =
     (if list_ex v2_unmerged es then Inr Shape_unmerged
      else let derived = map v2_path (filter v2_entry_is_mode_only es);
               ev = (case evidence of
                       Some e \<Rightarrow> e
                     | None \<Rightarrow> \<lparr>mode_only_paths = [], empty_diff_paths = [],
                                incoming_overwrite_paths = []\<rparr>);
               merged = (if derived = [] then evidence
                         else Some (ev\<lparr>mode_only_paths := derived @ mode_only_paths ev\<rparr>))
           in shape_for_tracked (v2_entries_as_v1 es) merged)"

definition porcelain_to_shape :: "string \<Rightarrow> dirt_evidence option \<Rightarrow> dirt_shape res" where
  "porcelain_to_shape txt evidence =
     (let blob = replace_char (CHR 0x0A) (CHR 0x00) txt
      in case parse_porcelain_v2_z blob of
           Some es \<Rightarrow> shape_for_v2_entries es evidence
         | None \<Rightarrow> if unmerged_paths_z blob \<noteq> [] then Inr Shape_unmerged
                   else rbind (decode_porcelain_entries (parse_porcelain_z blob))
                          (\<lambda>es. shape_for_tracked es evidence))"

section \<open>Git probes and the index flags\<close>

type_synonym git_runner = "string list \<Rightarrow> raised + int \<times> string"

definition COMMIT_PIN_CONFIG_ARGS :: "string list" where
  "COMMIT_PIN_CONFIG_ARGS =
     [''-c'', ''rerere.enabled=false'', ''-c'', ''commit.gpgsign=false'',
      ''-c'', ''tag.gpgsign=false'', ''-c'', ''core.fsmonitor=false'']"

definition unreadable :: "string \<Rightarrow> string \<Rightarrow> 'a reading" where
  "unreadable what detail = Unknown_reading (what @ '' unreadable: '' @ detail)"

definition flag_probe_output :: "git_runner \<Rightarrow> string list \<Rightarrow> string \<Rightarrow> string reading" where
  "flag_probe_output git args what =
     (case git args of
        Inl exc \<Rightarrow> unreadable what (raised_text exc)
      | Inr (rc, out) \<Rightarrow> if rc \<noteq> 0 then unreadable what (''exit='' @ str_int rc) else Known_good out)"

record index_flag_dirt =
  assume_unchanged :: "string list"
  skip_worktree :: "string list"
  changed_paths :: "string list"
  path_hashes :: "(string \<times> string) list"

definition empty_flag_dirt :: index_flag_dirt where
  "empty_flag_dirt =
     \<lparr>assume_unchanged = [], skip_worktree = [], changed_paths = [], path_hashes = []\<rparr>"

definition parse_ls_files_v_z :: "string \<Rightarrow> (string, char) pydict" where
  "parse_ls_files_v_z blob =
     foldl (\<lambda>flagged r.
        if length r < 3 \<or> r ! 1 \<noteq> CHR '' '' then flagged
        else if r ! 0 \<in> set ''hS'' then dset (drop 2 r) (r ! 0) flagged
        else flagged) [] (split_on (CHR 0x00) blob)"

definition parse_ls_tree_z :: "string \<Rightarrow> (string, string) pydict" where
  "parse_ls_tree_z blob =
     foldl (\<lambda>oids r.
        let (meta, separator, path) = partition_on (CHR 0x09) r;
            cols = split_on (CHR '' '') meta
        in if \<not> separator then oids
           else if length cols \<ge> 3 \<and> cols ! 1 = ''blob'' then dset path (cols ! 2) oids
           else oids) [] (split_on (CHR 0x00) blob)"

definition flag_dirt_of ::
  "(string, char) pydict \<Rightarrow> string list \<Rightarrow> string list \<Rightarrow> (string, string) pydict \<Rightarrow> index_flag_dirt" where
  "flag_dirt_of flagged paths hashes head_oids =
     (let content = zip paths hashes
      in \<lparr>assume_unchanged = filter (\<lambda>p. dget flagged p = Some (CHR ''h'')) paths,
          skip_worktree = filter (\<lambda>p. dget flagged p = Some (CHR ''S'')) paths,
          changed_paths = filter (\<lambda>p. dget content p \<noteq> dget head_oids p) paths,
          path_hashes = content\<rparr>)"

definition read_index_flag_dirt :: "git_runner \<Rightarrow> index_flag_dirt reading" where
  "read_index_flag_dirt git =
     (case flag_probe_output git (COMMIT_PIN_CONFIG_ARGS @ [''ls-files'', ''-v'', ''-z'']) ''git ls-files -v'' of
        Known_good listed \<Rightarrow>
          (let flagged = parse_ls_files_v_z listed; paths = sort (dkeys flagged)
           in if flagged = [] then Known_good empty_flag_dirt
              else case flag_probe_output git ([''hash-object'', ''--''] @ paths) ''git hash-object'' of
                Known_good hashed \<Rightarrow>
                  (let worktree_hashes = splitlines hashed
                   in if length worktree_hashes \<noteq> length paths
                      then Unknown_reading ''git hash-object unreadable: truncated stream''
                      else case flag_probe_output git
                                  ([''ls-tree'', ''-z'', ''HEAD'', ''--''] @ paths) ''git ls-tree HEAD'' of
                        Known_good head \<Rightarrow>
                          Known_good (flag_dirt_of flagged paths worktree_hashes (parse_ls_tree_z head))
                      | r \<Rightarrow> Unknown_reading (or_else (reading_reason r) ''git ls-tree HEAD unreadable''))
              | r \<Rightarrow> Unknown_reading (or_else (reading_reason r) ''git hash-object unreadable''))
      | r \<Rightarrow> Unknown_reading (or_else (reading_reason r) ''git ls-files -v unreadable''))"

section \<open>The worktree classifier\<close>

datatype worktree_dispatch = Dispatch_allowed | Dispatch_blocked | Dispatch_unknown

record worktree_verdict =
  wv_state :: worktree_state
  wv_is_clean :: bool
  wv_dispatch :: worktree_dispatch
  wv_reason :: string
  wv_dirt_shape :: dirt_shape

definition mk_verdict ::
  "worktree_state \<Rightarrow> bool \<Rightarrow> worktree_dispatch \<Rightarrow> string \<Rightarrow> dirt_shape \<Rightarrow> worktree_verdict" where
  "mk_verdict st clean disp why shape =
     \<lparr>wv_state = st, wv_is_clean = clean, wv_dispatch = disp, wv_reason = why, wv_dirt_shape = shape\<rparr>"

fun verdict_for_state :: "worktree_state \<Rightarrow> worktree_verdict" where
  "verdict_for_state WT_clean =
     mk_verdict WT_clean True Dispatch_allowed ''worktree clean'' Shape_none"
| "verdict_for_state WT_tracked_changes =
     mk_verdict WT_tracked_changes False Dispatch_blocked
       ''uncommitted tracked changes in the worktree'' Shape_unstaged_modification"
| "verdict_for_state WT_staged =
     mk_verdict WT_staged False Dispatch_blocked
       ''staged changes waiting to be committed'' Shape_staged_only"
| "verdict_for_state WT_unmerged =
     mk_verdict WT_unmerged False Dispatch_blocked
       ''unmerged paths remain from an unfinished rebase or merge'' Shape_unmerged"
| "verdict_for_state WT_untracked =
     mk_verdict WT_untracked True Dispatch_allowed
       ''untracked scratch paths only; they never block a gate'' Shape_untracked_only"
| "verdict_for_state WT_unknown =
     mk_verdict WT_unknown False Dispatch_unknown ''worktree probe did not answer'' Shape_unknown"

definition verdict_for_porcelain ::
  "string \<Rightarrow> dirt_evidence option \<Rightarrow> index_flag_dirt option \<Rightarrow> worktree_verdict res" where
  "verdict_for_porcelain txt evidence flags =
     rbind (porcelain_to_state txt) (\<lambda>st.
     rbind (porcelain_to_shape txt evidence) (\<lambda>shape.
       let verdict = verdict_for_state st;
           hidden = (case flags of None \<Rightarrow> [] | Some fl \<Rightarrow> sort (remdups (changed_paths fl)))
       in Inr
         (if hidden \<noteq> [] \<and> shape \<noteq> Shape_unmerged
          then mk_verdict WT_tracked_changes False Dispatch_blocked
                 (''index-flag-hidden modified tracked paths (assume-unchanged/skip-worktree): ''
                  @ join_str '', '' hidden) Shape_index_flag_hidden
          else if wv_dirt_shape verdict = shape then verdict
          else if shape = Shape_line_ending_only
          then mk_verdict st True Dispatch_allowed
                 ''line-ending-only changes; clean after index refresh'' shape
          else if shape = Shape_untracked_blocking
          then mk_verdict st False Dispatch_blocked
                 ''untracked paths would be overwritten by incoming target commits'' shape
          else verdict\<lparr>wv_state := st, wv_dirt_shape := shape\<rparr>)))"

datatype worktree_input = Raw_porcelain "string reading" | Projected_state worktree_state

definition classify_worktree ::
  "worktree_input \<Rightarrow> dirt_evidence option \<Rightarrow> index_flag_dirt option \<Rightarrow> worktree_verdict res" where
  "classify_worktree inp evidence flags =
     (case inp of
        Projected_state st \<Rightarrow> Inr (verdict_for_state st)
      | Raw_porcelain (Known_good txt) \<Rightarrow> verdict_for_porcelain txt evidence flags
      | Raw_porcelain r \<Rightarrow>
          Inr (mk_verdict WT_unknown False Dispatch_unknown
                 (or_else (reading_reason r) ''worktree probe did not answer'') Shape_unknown))"

section \<open>The probes\<close>

definition read_worktree_porcelain :: "git_runner \<Rightarrow> string reading" where
  "read_worktree_porcelain git =
     (case git (COMMIT_PIN_CONFIG_ARGS @ [''status'', ''--porcelain'', ''-z'', ''--untracked-files=normal'']) of
        Inl exc \<Rightarrow> unreadable ''git status --porcelain'' (raised_text exc)
      | Inr (rc, out) \<Rightarrow>
          if rc \<noteq> 0 then unreadable ''git status --porcelain'' (''exit='' @ str_int rc)
          else Known_good out)"

definition read_head_state :: "git_runner \<Rightarrow> head_state reading" where
  "read_head_state git =
     (case git (COMMIT_PIN_CONFIG_ARGS @ [''symbolic-ref'', ''--quiet'', ''--'', ''HEAD'']) of
        Inl exc \<Rightarrow> Unknown_reading (''git symbolic-ref HEAD unreadable: '' @ fst exc)
      | Inr (rc, out) \<Rightarrow>
          if rc = 0 then Known_good Head_attached
          else if rc = 1 then Known_good Head_detached
          else Unknown_reading (''git symbolic-ref HEAD unreadable: exit='' @ str_int rc))"

definition read_merge_base :: "git_runner \<Rightarrow> string \<Rightarrow> string \<Rightarrow> string option \<times> bool" where
  "read_merge_base git left right =
     (case git (COMMIT_PIN_CONFIG_ARGS @ [''merge-base'', left, right]) of
        Inl _ \<Rightarrow> (None, False)
      | Inr (rc, out) \<Rightarrow>
          if rc = 0 then (if strip out = [] then None else Some (strip out), True)
          else if rc = 1 then (None, True)
          else (None, False))"

text \<open>\<^verbatim>\<open>Path.stat\<close> of a marker below the git directory.\<close>

datatype stat_answer = Stat_present | Stat_missing | Stat_error string

definition marker_present :: "stat_answer \<Rightarrow> string + bool" where
  "marker_present a = (case a of Stat_present \<Rightarrow> Inr True | Stat_missing \<Rightarrow> Inr False | Stat_error m \<Rightarrow> Inl m)"

definition am_patch_counters_present :: "(string \<Rightarrow> stat_answer) \<Rightarrow> string + bool" where
  "am_patch_counters_present stat =
     (case marker_present (stat ''rebase-apply/next'') of
        Inl m \<Rightarrow> Inl m
      | Inr False \<Rightarrow> Inr False
      | Inr True \<Rightarrow> marker_present (stat ''rebase-apply/last''))"

definition single_operation_markers :: "(string \<times> in_progress_kind) list" where
  "single_operation_markers =
     [(''MERGE_HEAD'', Op_merge), (''CHERRY_PICK_HEAD'', Op_cherry_pick),
      (''REVERT_HEAD'', Op_revert), (''sequencer'', Op_sequencer)]"

fun first_marker :: "(string \<Rightarrow> stat_answer) \<Rightarrow> (string \<times> in_progress_kind) list \<Rightarrow> string + in_progress_kind" where
  "first_marker stat [] = Inr Op_none"
| "first_marker stat ((marker, kind) # rest) =
     (case marker_present (stat marker) of
        Inl m \<Rightarrow> Inl m
      | Inr True \<Rightarrow> Inr kind
      | Inr False \<Rightarrow> first_marker stat rest)"

definition operation_markers :: "(string \<Rightarrow> stat_answer) \<Rightarrow> string + in_progress_kind" where
  "operation_markers stat =
     (case marker_present (stat ''rebase-merge'') of
        Inl m \<Rightarrow> Inl m
      | Inr True \<Rightarrow> Inr Op_rebase
      | Inr False \<Rightarrow>
          (case marker_present (stat ''rebase-apply'') of
             Inl m \<Rightarrow> Inl m
           | Inr True \<Rightarrow>
               (case am_patch_counters_present stat of
                  Inl m \<Rightarrow> Inl m
                | Inr am \<Rightarrow> Inr (if am then Op_am else Op_rebase))
           | Inr False \<Rightarrow> first_marker stat single_operation_markers))"

definition read_operation_markers :: "(string \<Rightarrow> stat_answer) \<Rightarrow> in_progress_kind reading" where
  "read_operation_markers stat =
     (case operation_markers stat of
        Inl m \<Rightarrow> Unknown_reading (''in-progress marker unreadable: '' @ m)
      | Inr kind \<Rightarrow> Known_good kind)"

definition read_in_progress_kind ::
  "git_runner \<Rightarrow> (string \<Rightarrow> string \<Rightarrow> stat_answer) \<Rightarrow> in_progress_kind reading" where
  "read_in_progress_kind git stat =
     (case git (COMMIT_PIN_CONFIG_ARGS @ [''rev-parse'', ''--absolute-git-dir'']) of
        Inl exc \<Rightarrow> Unknown_reading (''git directory unreadable: '' @ fst exc)
      | Inr (rc, out) \<Rightarrow>
          if rc \<noteq> 0 then Unknown_reading (''git directory unreadable: exit='' @ str_int rc)
          else if strip out = [] then Unknown_reading ''git directory unreadable: empty path''
          else read_operation_markers (stat (strip out)))"

definition read_worktree :: "git_runner \<Rightarrow> worktree_verdict reading res" where
  "read_worktree git =
     (case read_worktree_porcelain git of
        Known_good txt \<Rightarrow>
          (case read_index_flag_dirt git of
             Known_good flags \<Rightarrow>
               rbind (classify_worktree (Raw_porcelain (Known_good txt)) None (Some flags))
                 (\<lambda>v. Inr (Known_good v))
           | r \<Rightarrow> Inr (Unknown_reading (or_else (reading_reason r) ''index-flag probe did not answer'')))
      | r \<Rightarrow> Inr (Unknown_reading (or_else (reading_reason r) ''worktree probe did not answer'')))"

section \<open>Quoted paths decode\<close>

text \<open>A quoting that the decoder inverts: a byte is escaped by letter, printed as
  is when it is printable ASCII, and otherwise written as three octal digits.\<close>

definition octal3 :: "nat \<Rightarrow> string" where
  "octal3 n = [char_of (48 + n div 64), char_of (48 + n div 8 mod 8), char_of (48 + n mod 8)]"

definition cquote_char :: "char \<Rightarrow> string" where
  "cquote_char c =
     (if c = CHR 0x5C \<or> c = CHR 0x22 then [CHR 0x5C, c]
      else if c = CHR 0x07 then [CHR 0x5C, CHR ''a'']
      else if c = CHR 0x08 then [CHR 0x5C, CHR ''b'']
      else if c = CHR 0x09 then [CHR 0x5C, CHR ''t'']
      else if c = CHR 0x0A then [CHR 0x5C, CHR ''n'']
      else if c = CHR 0x0B then [CHR 0x5C, CHR ''v'']
      else if c = CHR 0x0C then [CHR 0x5C, CHR ''f'']
      else if c = CHR 0x0D then [CHR 0x5C, CHR ''r'']
      else let n = of_char c :: nat
           in if n < 32 \<or> 126 < n then CHR 0x5C # octal3 n else [c])"

definition cquote :: "string \<Rightarrow> string" where
  "cquote s = [CHR 0x22] @ concat (map cquote_char s) @ [CHR 0x22]"

lemma cquote_escape_digit: "k < 8 \<Longrightarrow> cquote_escape (char_of (48 + k :: nat)) = None"
  by (auto dest!: arg_cong [where f = "of_char :: char \<Rightarrow> nat"])

lemma octal_digits: "64 * (n div 64) + 8 * (n div 8 mod 8) + n mod 8 = (n :: nat)"
proof -
  have "64 * (n div 64) = 8 * (8 * (n div 8 div 8))" by (simp add: div_mult2_eq [symmetric])
  then have "64 * (n div 64) + 8 * (n div 8 mod 8) + n mod 8
           = 8 * (8 * (n div 8 div 8) + n div 8 mod 8) + n mod 8"
    by (simp only: add_mult_distrib2)
  also have "\<dots> = 8 * (n div 8) + n mod 8" by (simp only: mult_div_mod_eq)
  also have "\<dots> = n" by (simp only: mult_div_mod_eq)
  finally show ?thesis .
qed

lemma octal3_facts:
  assumes "n < 256"
  shows "length (octal3 n) = 3" "list_all is_octal_digit (octal3 n)" "octal_value (octal3 n) = n"
  using assms
  by (auto simp: octal3_def is_octal_digit_def octal_value_def digit_val_def Let_def octal_digits)

lemma cquote_decode_plain: "c \<noteq> CHR 0x5C \<Longrightarrow>
    cquote_decode (c # cs) = rbind (cquote_decode cs) (\<lambda>r. Inr (map_option ((#) c) r))"
  by (subst cquote_decode.simps) simp

lemma cquote_decode_escape: "cquote_escape n = Some e \<Longrightarrow>
    cquote_decode (CHR 0x5C # n # cs) = rbind (cquote_decode cs) (\<lambda>r. Inr (map_option ((#) e) r))"
  by (subst cquote_decode.simps) simp

lemma cquote_decode_octal:
  assumes "n < 256"
  shows "cquote_decode (CHR 0x5C # octal3 n @ cs)
       = rbind (cquote_decode cs) (\<lambda>r. Inr (map_option ((#) (char_of n)) r))"
proof -
  obtain d ds where o: "octal3 n = d # ds" and d: "cquote_escape d = None" and l: "length ds = 2"
    using assms cquote_escape_digit [of "n div 64"] by (simp add: octal3_def)
  have t: "take 3 (octal3 n @ cs) = octal3 n" "drop 3 (octal3 n @ cs) = cs"
    using octal3_facts [OF assms] by simp_all
  show ?thesis
    using octal3_facts [OF assms] assms t d unfolding o
    by (subst cquote_decode.simps) (simp add: Let_def)
qed

lemma cquote_decode_char:
  "cquote_decode (cquote_char c @ cs) = rbind (cquote_decode cs) (\<lambda>r. Inr (map_option ((#) c) r))"
proof -
  have n: "(of_char c :: nat) < 256" by simp
  show ?thesis
    using cquote_decode_octal [OF n, of cs]
    by (auto simp: cquote_char_def Let_def cquote_decode_plain cquote_decode_escape)
qed

lemma cquote_decode_all: "cquote_decode (concat (map cquote_char s)) = Inr (Some s)"
proof (induction s)
  case Nil
  show ?case by (subst cquote_decode.simps) simp
next
  case (Cons c s)
  then show ?case by (simp add: cquote_decode_char)
qed

text \<open>
  Decoding a path in the quotes git puts around it gives the path back, whatever bytes it has.
\<close>

theorem quoted_path_roundtrip: "decode_quoted_porcelain_path (cquote s) = Inr s"
  by (simp add: decode_quoted_porcelain_path_def cquote_def cquote_decode_all)

section \<open>What a verdict rests on\<close>

lemma state_from_parsed_known:
  "state_from_parsed es = Inr st \<Longrightarrow> st \<in> {WT_tracked_changes, WT_staged, WT_untracked, WT_clean}"
  by (auto simp: state_from_parsed_def split: if_splits)

lemma porcelain_to_state_known: "porcelain_to_state txt = Inr st \<Longrightarrow> st \<noteq> WT_unknown"
  by (auto simp: porcelain_to_state_def porcelain_v2_to_state_def Let_def
      dest!: state_from_parsed_known split: option.splits if_splits)

lemma verdict_for_state_contract:
  "wv_is_clean (verdict_for_state st) \<longleftrightarrow> st \<in> {WT_clean, WT_untracked}"
  "wv_dispatch (verdict_for_state st) = Dispatch_allowed \<longleftrightarrow> st \<in> {WT_clean, WT_untracked}"
  "wv_dispatch (verdict_for_state st) = Dispatch_unknown \<longleftrightarrow> st = WT_unknown"
  "wv_state (verdict_for_state st) = st"
  by (cases st; simp add: mk_verdict_def)+

definition probe_answered :: "worktree_input \<Rightarrow> bool" where
  "probe_answered inp =
     (case inp of Projected_state st \<Rightarrow> st \<noteq> WT_unknown
      | Raw_porcelain (Known_good _) \<Rightarrow> True | Raw_porcelain _ \<Rightarrow> False)"

text \<open>
  The contract of the one classifier: clean and dispatchable are the same, and neither the
  state nor the dispatch is unknown unless the probe did not answer.
\<close>

theorem classifier_contract:
  assumes "classify_worktree inp evidence flags = Inr v"
  shows "(wv_is_clean v \<longleftrightarrow> wv_dispatch v = Dispatch_allowed)
    \<and> (wv_dispatch v = Dispatch_unknown \<longleftrightarrow> \<not> probe_answered inp)
    \<and> (wv_state v = WT_unknown \<longleftrightarrow> \<not> probe_answered inp)"
  using assms
  by (auto simp: classify_worktree_def probe_answered_def verdict_for_porcelain_def Let_def
      mk_verdict_def verdict_for_state_contract
      dest!: porcelain_to_state_known split: worktree_input.splits reading.splits if_splits option.splits)

theorem classifier_contract_witness:
  "classify_worktree (Raw_porcelain (Known_good [])) None None = Inr (verdict_for_state WT_clean)
   \<and> (wv_is_clean (verdict_for_state WT_clean) \<longleftrightarrow> wv_dispatch (verdict_for_state WT_clean) = Dispatch_allowed)"
proof -
  have c: "classify_worktree (Raw_porcelain (Known_good [])) None None = Inr (verdict_for_state WT_clean)"
    by code_simp
  from classifier_contract [OF c] c show ?thesis by blast
qed

lemma shape_from_codes_range:
  "shape_from_codes tracked = Inr shape \<Longrightarrow>
     shape \<in> {Shape_intent_to_add, Shape_type_change, Shape_deleted, Shape_renamed_or_copied,
       Shape_staged_and_unstaged, Shape_staged_only, Shape_unstaged_modification}"
  by (auto simp: shape_from_codes_def split: if_splits)

lemma shape_needs_evidence:
  assumes "shape_for_tracked es ev = Inr shape"
  shows "(shape = Shape_line_ending_only \<longrightarrow> (\<exists>e. ev = Some e \<and> empty_diff_paths e \<noteq> []))
       \<and> (shape = Shape_untracked_blocking \<longrightarrow> (\<exists>e. ev = Some e \<and> incoming_overwrite_paths e \<noteq> []))
       \<and> shape \<noteq> Shape_unmerged"
  using assms
  by (auto simp: shape_for_tracked_def Let_def list_ex_iff dest!: shape_from_codes_range
      split: if_splits option.splits)

lemma shape_without_evidence:
  assumes "porcelain_to_shape txt None = Inr shape"
  shows "shape \<noteq> Shape_line_ending_only \<and> shape \<noteq> Shape_untracked_blocking
       \<and> (shape = Shape_unmerged \<longrightarrow> porcelain_to_state txt = Inr WT_unmerged)"
  using assms
  by (auto simp: porcelain_to_shape_def porcelain_to_state_def shape_for_v2_entries_def
      porcelain_v2_to_state_def Let_def dest!: shape_needs_evidence split: option.splits if_splits)

lemma sort_remdups_Nil [simp]: "sort (remdups xs) = [] \<longleftrightarrow> xs = []"
  by (metis set_empty set_sort set_remdups)

text \<open>
  A worktree is only reported clean when git status and every index-flag probe answered, no
  flagged path hides a change, and the porcelain text itself reads as clean or as untracked
  files only.  A failed or truncated probe is never a clean reading.
\<close>

theorem clean_needs_every_probe:
  assumes "read_worktree git = Inr (Known_good v)" and "wv_is_clean v"
  shows "\<exists>txt fl. read_worktree_porcelain git = Known_good txt
           \<and> read_index_flag_dirt git = Known_good fl \<and> changed_paths fl = []
           \<and> porcelain_to_state txt \<in> {Inr WT_clean, Inr WT_untracked}"
  using assms
  by (auto simp: read_worktree_def classify_worktree_def verdict_for_porcelain_def Let_def
      mk_verdict_def verdict_for_state_contract
      dest!: shape_without_evidence split: reading.splits if_splits)

definition quiet_git :: git_runner where
  "quiet_git args = Inr (0, [])"

theorem clean_needs_every_probe_witness:
  "\<exists>txt fl. read_worktree_porcelain quiet_git = Known_good txt
     \<and> read_index_flag_dirt quiet_git = Known_good fl \<and> changed_paths fl = []
     \<and> porcelain_to_state txt \<in> {Inr WT_clean, Inr WT_untracked}"
  by (rule clean_needs_every_probe [where v = "verdict_for_state WT_clean"]) code_simp+

section \<open>Status output that is misread\<close>

text \<open>
  The manual of \<^verbatim>\<open>git status -z\<close> has a rename print its destination first and its source second; the
  parser takes the first path for the source, so for a file renamed from \<^verbatim>\<open>old\<close> to \<^verbatim>\<open>new\<close> the two
  come out exchanged.
\<close>

lemma rename_paths_exchanged:
  "parse_porcelain_z (''R  new'' @ [CHR 0x00] @ ''old'' @ [CHR 0x00])
   = [\<lparr>pe_xy = ''R '', pe_path = ''old'', pe_rename_source = Some ''new''\<rparr>]"
  by code_simp

text \<open>
  A path renamed in the worktree only (git prints it after \<^verbatim>\<open>git add -N\<close>) reads as clean: its
  code is in neither code table, and the line of its old name is taken for an entry.
\<close>

lemma worktree_rename_reads_clean:
  "classify_worktree (Raw_porcelain (Known_good ('' R new.txt'' @ [CHR 0x00] @ ''old.txt'' @ [CHR 0x00])))
     None (Some empty_flag_dirt)
   = Inr (mk_verdict WT_clean True Dispatch_allowed ''worktree clean'' Shape_unstaged_modification)"
  by code_simp

text \<open>In line-oriented output a rename swallows the next line, here an unmerged path.\<close>

lemma line_rename_hides_conflict:
  "porcelain_to_state (''R  a -> b'' @ [CHR 0x0A] @ ''UU c'' @ [CHR 0x0A]) = Inr WT_staged"
  by code_simp

text \<open>Line feeds of NUL-delimited output are turned into NULs, so a file name can spell a conflict.\<close>

lemma newline_name_reads_conflict:
  "porcelain_to_state (''?? x'' @ [CHR 0x0A] @ ''UU y'' @ [CHR 0x00]) = Inr WT_unmerged"
  by code_simp

text \<open>An octal escape above 255 is not a well-formed quote, yet the decoder raises on it.\<close>

lemma octal_quote_raises:
  "decode_quoted_porcelain_path [CHR 0x22, CHR 0x5C, CHR ''7'', CHR ''7'', CHR ''7'', CHR 0x22]
   = Inl (ValueError ''byte must be in range(0, 256)'')"
  by code_simp

end
