(* ===== verification/Integration_Decision.thy ===== *)
theory Integration_Decision
  imports Worktree_Observation
begin

text \<open>
  The decision table of the auto-integration subsystem,
  \<^verbatim>\<open>ralph/pipeline/integration_decision.py\<close>: the closed action vocabulary, the escalation ladder
  and the cleanup ladder, the attempt state that carries the repeat counts between decisions, and
  \<open>decide\<close>, which maps an observation and an attempt state to exactly one action.

  The lemmas at the end characterise the table row by row (\<open>decide_rows\<close>), say when an agent is
  dispatched, and relate the table to the rules stated in the module's documentation.
\<close>

section \<open>Vocabulary\<close>

datatype next_action =
    Act_commit | Act_land | Act_reintegrate | Act_resume_owned_operation | Act_repair
  | Act_dispatch_resolver | Act_rebuild_on_target | Act_continue_with_integration_pending
  | Act_wait_for_environment | Act_commit_via_commit_phase | Act_save_and_restore
  | Act_preserve_via_temp_index | Act_quarantine_and_restore | Act_rebuild_in_fresh_worktree
  | Act_adapt_environment_and_retry | Act_last_resort_recovery

fun next_action_value :: "next_action \<Rightarrow> string" where
  "next_action_value Act_commit = ''commit''"
| "next_action_value Act_land = ''land''"
| "next_action_value Act_reintegrate = ''reintegrate''"
| "next_action_value Act_resume_owned_operation = ''resume_owned_operation''"
| "next_action_value Act_repair = ''repair''"
| "next_action_value Act_dispatch_resolver = ''dispatch_resolver''"
| "next_action_value Act_rebuild_on_target = ''rebuild_on_target''"
| "next_action_value Act_continue_with_integration_pending = ''continue_with_integration_pending''"
| "next_action_value Act_wait_for_environment = ''wait_for_environment''"
| "next_action_value Act_commit_via_commit_phase = ''commit_via_commit_phase''"
| "next_action_value Act_save_and_restore = ''save_and_restore''"
| "next_action_value Act_preserve_via_temp_index = ''preserve_via_temp_index''"
| "next_action_value Act_quarantine_and_restore = ''quarantine_and_restore''"
| "next_action_value Act_rebuild_in_fresh_worktree = ''rebuild_in_fresh_worktree''"
| "next_action_value Act_adapt_environment_and_retry = ''adapt_environment_and_retry''"
| "next_action_value Act_last_resort_recovery = ''last_resort_recovery''"

datatype dirt_attribution = Dirt_phase_owned | Dirt_unowned | Dirt_unknown

datatype cleanup_ladder_rung =
    Rung_normal_cleanup | Rung_alternate_preservation | Rung_quarantine
  | Rung_fresh_worktree | Rung_environment_degrade | Rung_last_resort

definition CLEANUP_LADDER_ORDER :: "cleanup_ladder_rung list" where
  "CLEANUP_LADDER_ORDER =
     [Rung_normal_cleanup, Rung_alternate_preservation, Rung_quarantine,
      Rung_fresh_worktree, Rung_environment_degrade, Rung_last_resort]"

datatype escalation_rung =
  Esc_repair | Esc_dispatch_resolver | Esc_rebuild_on_target | Esc_continue_with_integration_pending

fun escalation_value :: "escalation_rung \<Rightarrow> string" where
  "escalation_value Esc_repair = ''repair''"
| "escalation_value Esc_dispatch_resolver = ''dispatch_resolver''"
| "escalation_value Esc_rebuild_on_target = ''rebuild_on_target''"
| "escalation_value Esc_continue_with_integration_pending = ''continue_with_integration_pending''"

definition LADDER_ORDER :: "escalation_rung list" where
  "LADDER_ORDER =
     [Esc_repair, Esc_dispatch_resolver, Esc_rebuild_on_target, Esc_continue_with_integration_pending]"

text \<open>\<open>ladder_index\<close> is \<^verbatim>\<open>LADDER_ORDER.index\<close>.\<close>

fun ladder_index :: "escalation_rung \<Rightarrow> nat" where
  "ladder_index Esc_repair = 0"
| "ladder_index Esc_dispatch_resolver = 1"
| "ladder_index Esc_rebuild_on_target = 2"
| "ladder_index Esc_continue_with_integration_pending = 3"

definition MIN_SIGNATURE_ATTEMPTS_FOR_ESCALATION :: int where
  "MIN_SIGNATURE_ATTEMPTS_FOR_ESCALATION = 2"

definition ESCALATED_RUNG_STRIDE :: nat where
  "ESCALATED_RUNG_STRIDE = 2"

section \<open>The attempt state\<close>

type_synonym repeat_counts = "(string \<times> string, int) pydict"

definition REPEAT_COUNTER_CAP :: nat where
  "REPEAT_COUNTER_CAP = 1024"

record attempt_state =
  att_rung :: escalation_rung
  att_repeat_counts :: repeat_counts
  att_unknown_attempts :: int
  att_unknown_budget :: int
  att_repeat_threshold :: int

definition new_attempt_state :: attempt_state where
  "new_attempt_state =
     \<lparr>att_rung = Esc_repair, att_repeat_counts = [], att_unknown_attempts = 0,
      att_unknown_budget = 3, att_repeat_threshold = 2\<rparr>"

text \<open>The constructor checks of \<^verbatim>\<open>__post_init__\<close>.\<close>

definition attempt_state_post_init :: "attempt_state \<Rightarrow> attempt_state res" where
  "attempt_state_post_init a =
     (if att_unknown_attempts a < 0 then Inl (ValueError ''unknown_attempts must be >= 0'')
      else if att_unknown_budget a < 1 then Inl (ValueError ''unknown_budget must be >= 1'')
      else if att_repeat_threshold a < 1 then Inl (ValueError ''repeat_threshold must be >= 1'')
      else Inr a)"

definition signature :: "observation \<Rightarrow> string" where
  "signature ob =
     join_str ''|''
       [target_vs_feature_value (obs_target_vs_feature ob), worktree_value (obs_worktree ob),
        in_progress_value (obs_in_progress_kind ob), record_state_value (obs_record ob),
        head_value (obs_head ob)]"

definition key_pair :: "observation \<Rightarrow> next_action \<Rightarrow> string \<times> string" where
  "key_pair ob act = (signature ob, next_action_value act)"

definition next_rung :: "escalation_rung \<Rightarrow> escalation_rung" where
  "next_rung r =
     (if ladder_index r + 1 \<ge> length LADDER_ORDER then r else LADDER_ORDER ! (ladder_index r + 1))"

definition unknown_budget_exhausted :: "attempt_state \<Rightarrow> bool" where
  "unknown_budget_exhausted a = (att_unknown_attempts a \<ge> att_unknown_budget a)"

definition repeat_count_for :: "attempt_state \<Rightarrow> observation \<Rightarrow> next_action \<Rightarrow> int" where
  "repeat_count_for a ob act = dget_or (att_repeat_counts a) (key_pair ob act) 0"

text \<open>The sum of all counts recorded for one signature.\<close>

definition signature_total :: "string \<Rightarrow> repeat_counts \<Rightarrow> int" where
  "signature_total sig counts = sum_list (map snd (filter (\<lambda>((s, _), _). s = sig) counts))"

definition signature_attempts :: "attempt_state \<Rightarrow> observation \<Rightarrow> int" where
  "signature_attempts a ob = signature_total (signature ob) (att_repeat_counts a)"

definition repeat_pressure :: "attempt_state \<Rightarrow> int \<Rightarrow> int \<Rightarrow> bool" where
  "repeat_pressure a repeat_count sig_attempts =
     (repeat_count \<ge> att_repeat_threshold a \<and> sig_attempts \<ge> MIN_SIGNATURE_ATTEMPTS_FOR_ESCALATION)"

definition should_advance :: "attempt_state \<Rightarrow> int \<Rightarrow> int \<Rightarrow> bool" where
  "should_advance a repeat_count sig_attempts =
     (if ladder_index (att_rung a) \<ge> length LADDER_ORDER - 1 then False
      else repeat_pressure a repeat_count sig_attempts)"

text \<open>\<^verbatim>\<open>while len(updated) > cap: updated.popitem(last=False)\<close>.\<close>

definition evict_oldest :: "nat \<Rightarrow> repeat_counts \<Rightarrow> repeat_counts" where
  "evict_oldest cap counts = drop (length counts - cap) counts"

definition with_attempt :: "attempt_state \<Rightarrow> observation \<Rightarrow> next_action \<Rightarrow> bool \<Rightarrow> attempt_state" where
  "with_attempt a ob act is_unknown =
     (if is_unknown then a\<lparr>att_unknown_attempts := att_unknown_attempts a + 1\<rparr>
      else let new_count = repeat_count_for a ob act + 1;
               updated = evict_oldest REPEAT_COUNTER_CAP
                           (dset (key_pair ob act) new_count (att_repeat_counts a));
               attempts_after = signature_attempts a ob + 1
           in if should_advance a new_count attempts_after
              then a\<lparr>att_rung := next_rung (att_rung a), att_repeat_counts := updated,
                     att_unknown_attempts := 0\<rparr>
              else a\<lparr>att_repeat_counts := updated\<rparr>)"

fun cleanup_action_for :: "cleanup_ladder_rung \<Rightarrow> next_action" where
  "cleanup_action_for Rung_normal_cleanup = Act_save_and_restore"
| "cleanup_action_for Rung_alternate_preservation = Act_preserve_via_temp_index"
| "cleanup_action_for Rung_quarantine = Act_quarantine_and_restore"
| "cleanup_action_for Rung_fresh_worktree = Act_rebuild_in_fresh_worktree"
| "cleanup_action_for Rung_environment_degrade = Act_adapt_environment_and_retry"
| "cleanup_action_for Rung_last_resort = Act_last_resort_recovery"

record decision_context =
  ctx_observation :: observation
  ctx_attempts :: attempt_state
  ctx_dirt_shape :: dirt_shape
  ctx_dirt_attribution :: dirt_attribution

section \<open>The table\<close>

definition is_real_conflict :: "observation \<Rightarrow> bool" where
  "is_real_conflict ob =
     (obs_worktree ob = WT_unmerged
      \<or> obs_in_progress_kind ob \<noteq> Op_none \<and> obs_in_progress_ownership ob = Own_foreign)"

fun ladder_action :: "escalation_rung \<Rightarrow> next_action" where
  "ladder_action Esc_repair = Act_repair"
| "ladder_action Esc_dispatch_resolver = Act_dispatch_resolver"
| "ladder_action Esc_rebuild_on_target = Act_rebuild_on_target"
| "ladder_action Esc_continue_with_integration_pending = Act_continue_with_integration_pending"

definition is_target_moved :: "observation \<Rightarrow> bool" where
  "is_target_moved ob = (obs_target_vs_feature ob \<in> {TF_behind, TF_diverged})"

definition is_landed :: "observation \<Rightarrow> bool" where
  "is_landed ob = (obs_worktree ob = WT_clean \<and> obs_target_vs_feature ob \<in> {TF_equal, TF_ahead})"

definition is_dirty_without_conflict :: "observation \<Rightarrow> bool" where
  "is_dirty_without_conflict ob = (obs_worktree ob \<in> {WT_tracked_changes, WT_staged, WT_untracked})"

definition is_repairable_record :: "observation \<Rightarrow> bool" where
  "is_repairable_record ob = (obs_record ob \<in> {Rec_stale, Rec_unreadable, Rec_older_version, Rec_foreign})"

definition is_owned_in_progress :: "observation \<Rightarrow> bool" where
  "is_owned_in_progress ob =
     (obs_in_progress_kind ob \<noteq> Op_none \<and> obs_in_progress_ownership ob = Own_owned)"

definition needs_ladder :: "observation \<Rightarrow> bool" where
  "needs_ladder ob = (obs_head ob = Head_detached \<or> is_repairable_record ob)"

definition is_boring_observation :: "observation \<Rightarrow> bool" where
  "is_boring_observation ob =
     (\<not> (is_real_conflict ob \<or> obs_head ob = Head_detached \<or> is_repairable_record ob))"

definition ladder_action_skipping_resolver :: "escalation_rung \<Rightarrow> observation \<Rightarrow> next_action" where
  "ladder_action_skipping_resolver r ob =
     (let act = ladder_action r
      in if act = Act_dispatch_resolver \<and> is_boring_observation ob then Act_rebuild_on_target else act)"

definition ladder_action_for :: "observation \<Rightarrow> attempt_state \<Rightarrow> next_action" where
  "ladder_action_for ob a =
     (if is_landed ob then Act_land
      else if needs_ladder ob \<or> \<not> is_target_moved ob
        then ladder_action_skipping_resolver (att_rung a) ob
      else Act_reintegrate)"

definition escalated_rung :: "escalation_rung \<Rightarrow> escalation_rung" where
  "escalated_rung r =
     LADDER_ORDER ! min (ladder_index r + ESCALATED_RUNG_STRIDE) (length LADDER_ORDER - 1)"

definition under_pressure :: "attempt_state \<Rightarrow> observation \<Rightarrow> next_action \<Rightarrow> bool" where
  "under_pressure a ob direct =
     repeat_pressure a (repeat_count_for a ob direct) (signature_attempts a ob + 1)"

definition ladder_dispatch_or_direct :: "attempt_state \<Rightarrow> observation \<Rightarrow> next_action \<Rightarrow> next_action" where
  "ladder_dispatch_or_direct a ob direct =
     (if under_pressure a ob direct
      then ladder_action_skipping_resolver (escalated_rung (att_rung a)) ob
      else direct)"

definition wait_or_continue :: "attempt_state \<Rightarrow> next_action" where
  "wait_or_continue a =
     (if unknown_budget_exhausted a then Act_continue_with_integration_pending
      else Act_wait_for_environment)"

definition BLOCKING_SHAPES :: "dirt_shape list" where
  "BLOCKING_SHAPES =
     [Shape_unstaged_modification, Shape_staged_only, Shape_staged_and_unstaged, Shape_mode_only,
      Shape_intent_to_add, Shape_type_change, Shape_deleted, Shape_renamed_or_copied,
      Shape_untracked_blocking, Shape_index_flag_hidden]"

definition cleanup_escalation_action :: "attempt_state \<Rightarrow> observation \<Rightarrow> next_action \<Rightarrow> next_action option" where
  "cleanup_escalation_action a ob direct =
     (if \<not> under_pressure a ob direct then None
      else let climbed = signature_attempts a ob - att_repeat_threshold a;
               index = max 0 (min climbed (int (length CLEANUP_LADDER_ORDER) - 2))
           in Some (cleanup_action_for (CLEANUP_LADDER_ORDER ! nat (index + 1))))"

definition decide_dirty_tree :: "decision_context \<Rightarrow> next_action" where
  "decide_dirty_tree ctx =
     (let ob = ctx_observation ctx; a = ctx_attempts ctx; shape = ctx_dirt_shape ctx
      in if shape \<in> {Shape_line_ending_only} then ladder_action_for ob a
         else if shape \<notin> set BLOCKING_SHAPES then ladder_dispatch_or_direct a ob Act_commit
         else let direct = (if ctx_dirt_attribution ctx = Dirt_phase_owned
                            then Act_commit_via_commit_phase else Act_save_and_restore)
              in case cleanup_escalation_action a ob direct of
                   Some act \<Rightarrow> act
                 | None \<Rightarrow> direct)"

definition decide :: "decision_context \<Rightarrow> next_action" where
  "decide ctx =
     (let ob = ctx_observation ctx; a = ctx_attempts ctx
      in if has_unknown ob then wait_or_continue a
         else if is_repairable_record ob \<and> \<not> is_landed ob
           then ladder_action_skipping_resolver (att_rung a) ob
         else if is_real_conflict ob then ladder_dispatch_or_direct a ob Act_dispatch_resolver
         else if is_owned_in_progress ob
           then ladder_dispatch_or_direct a ob Act_resume_owned_operation
         else if is_dirty_without_conflict ob then decide_dirty_tree ctx
         else ladder_action_for ob a)"

section \<open>The rows of the table\<close>

lemma signature_total_Nil [simp]: "signature_total sig [] = 0"
  by (simp add: signature_total_def)

lemma signature_total_Cons [simp]:
  "signature_total sig (kv # counts) = (if fst (fst kv) = sig then snd kv else 0) + signature_total sig counts"
  by (cases kv) (auto simp: signature_total_def)

lemma ladder_simps [simp]:
  "length LADDER_ORDER = 4" "ladder_index r < 4" "ladder_index r \<le> 3"
  "next_rung Esc_repair = Esc_dispatch_resolver"
  "next_rung Esc_dispatch_resolver = Esc_rebuild_on_target"
  "next_rung Esc_rebuild_on_target = Esc_continue_with_integration_pending"
  "next_rung Esc_continue_with_integration_pending = Esc_continue_with_integration_pending"
  by (cases r; simp add: LADDER_ORDER_def next_rung_def)+

lemma ladder_index_next: "ladder_index (next_rung r) = min 3 (ladder_index r + 1)"
  by (cases r) simp_all

lemma escalated_rung_eq:
  "escalated_rung r = (if r = Esc_repair then Esc_rebuild_on_target else Esc_continue_with_integration_pending)"
  by (cases r) (simp_all add: escalated_rung_def LADDER_ORDER_def ESCALATED_RUNG_STRIDE_def)

lemma escalated_action:
  "ladder_action_skipping_resolver (escalated_rung r) ob =
     (if r = Esc_repair then Act_rebuild_on_target else Act_continue_with_integration_pending)"
  by (simp add: escalated_rung_eq ladder_action_skipping_resolver_def Let_def)

lemma ladder_action_range:
  "ladder_action_skipping_resolver r ob \<in>
     {Act_repair, Act_dispatch_resolver, Act_rebuild_on_target, Act_continue_with_integration_pending}"
  by (cases r) (auto simp: ladder_action_skipping_resolver_def Let_def)

lemma ladder_resolver_iff:
  "ladder_action_skipping_resolver r ob = Act_dispatch_resolver
     \<longleftrightarrow> r = Esc_dispatch_resolver \<and> \<not> is_boring_observation ob"
  by (cases r) (auto simp: ladder_action_skipping_resolver_def Let_def)

definition cleanup_actions :: "next_action list" where
  "cleanup_actions =
     [Act_commit_via_commit_phase, Act_save_and_restore, Act_preserve_via_temp_index,
      Act_quarantine_and_restore, Act_rebuild_in_fresh_worktree, Act_adapt_environment_and_retry,
      Act_last_resort_recovery]"

lemma cleanup_action_range: "cleanup_action_for r \<in> set cleanup_actions"
  by (cases r) (simp_all add: cleanup_actions_def)

lemma decide_unknown: "has_unknown (ctx_observation ctx) \<Longrightarrow> decide ctx = wait_or_continue (ctx_attempts ctx)"
  by (auto simp: decide_def Let_def)

lemma decide_record:
  "\<not> has_unknown (ctx_observation ctx) \<Longrightarrow> is_repairable_record (ctx_observation ctx)
   \<Longrightarrow> \<not> is_landed (ctx_observation ctx)
   \<Longrightarrow> decide ctx = ladder_action_skipping_resolver (att_rung (ctx_attempts ctx)) (ctx_observation ctx)"
  by (auto simp: decide_def Let_def)

lemma decide_conflict:
  "\<not> has_unknown (ctx_observation ctx)
   \<Longrightarrow> \<not> (is_repairable_record (ctx_observation ctx) \<and> \<not> is_landed (ctx_observation ctx))
   \<Longrightarrow> is_real_conflict (ctx_observation ctx)
   \<Longrightarrow> decide ctx = ladder_dispatch_or_direct (ctx_attempts ctx) (ctx_observation ctx) Act_dispatch_resolver"
  by (auto simp: decide_def Let_def)

lemma decide_owned:
  "\<not> has_unknown (ctx_observation ctx)
   \<Longrightarrow> \<not> (is_repairable_record (ctx_observation ctx) \<and> \<not> is_landed (ctx_observation ctx))
   \<Longrightarrow> \<not> is_real_conflict (ctx_observation ctx) \<Longrightarrow> is_owned_in_progress (ctx_observation ctx)
   \<Longrightarrow> decide ctx = ladder_dispatch_or_direct (ctx_attempts ctx) (ctx_observation ctx)
         Act_resume_owned_operation"
  by (auto simp: decide_def Let_def)

lemma decide_dirty:
  "\<not> has_unknown (ctx_observation ctx)
   \<Longrightarrow> \<not> (is_repairable_record (ctx_observation ctx) \<and> \<not> is_landed (ctx_observation ctx))
   \<Longrightarrow> \<not> is_real_conflict (ctx_observation ctx) \<Longrightarrow> \<not> is_owned_in_progress (ctx_observation ctx)
   \<Longrightarrow> is_dirty_without_conflict (ctx_observation ctx) \<Longrightarrow> decide ctx = decide_dirty_tree ctx"
  by (auto simp: decide_def Let_def)

lemma decide_quiet:
  "\<not> has_unknown (ctx_observation ctx)
   \<Longrightarrow> \<not> (is_repairable_record (ctx_observation ctx) \<and> \<not> is_landed (ctx_observation ctx))
   \<Longrightarrow> \<not> is_real_conflict (ctx_observation ctx) \<Longrightarrow> \<not> is_owned_in_progress (ctx_observation ctx)
   \<Longrightarrow> \<not> is_dirty_without_conflict (ctx_observation ctx)
   \<Longrightarrow> decide ctx = ladder_action_for (ctx_observation ctx) (ctx_attempts ctx)"
  by (auto simp: decide_def Let_def)

lemmas decide_rows = decide_unknown decide_record decide_conflict decide_owned decide_dirty decide_quiet

lemma decide_dirty_blocking:
  assumes "ctx_dirt_shape ctx \<in> set BLOCKING_SHAPES"
  shows "decide_dirty_tree ctx \<in> set cleanup_actions"
proof -
  have "ctx_dirt_shape ctx \<noteq> Shape_line_ending_only"
    using assms by (auto simp: BLOCKING_SHAPES_def)
  then show ?thesis
    using assms cleanup_action_range
    by (auto simp: decide_dirty_tree_def cleanup_escalation_action_def Let_def split: option.splits)
       (simp_all add: cleanup_actions_def)
qed

lemma resolver_only_for_resolvable:
  assumes "decide ctx = Act_dispatch_resolver"
  shows "\<not> has_unknown (ctx_observation ctx) \<and> \<not> is_boring_observation (ctx_observation ctx)"
proof -
  let ?ob = "ctx_observation ctx"
  have known: "\<not> has_unknown ?ob"
    using assms by (auto simp: decide_rows wait_or_continue_def split: if_splits)
  have "is_boring_observation ?ob \<Longrightarrow> False"
  proof -
    assume b: "is_boring_observation ?ob"
    then have nc: "\<not> is_real_conflict ?ob" "\<not> is_repairable_record ?ob" "\<not> needs_ladder ?ob"
      by (auto simp: is_boring_observation_def needs_ladder_def)
    then have "decide ctx = Act_dispatch_resolver \<Longrightarrow>
        is_dirty_without_conflict ?ob \<and> decide_dirty_tree ctx = Act_dispatch_resolver
        \<or> ladder_action_for ?ob (ctx_attempts ctx) = Act_dispatch_resolver"
      using known
      by (auto simp: decide_def Let_def ladder_dispatch_or_direct_def escalated_action split: if_splits)
    moreover have "ladder_action_for ?ob (ctx_attempts ctx) \<noteq> Act_dispatch_resolver"
      using b by (auto simp: ladder_action_for_def ladder_resolver_iff)
    moreover have "decide_dirty_tree ctx \<noteq> Act_dispatch_resolver"
      using decide_dirty_blocking [of ctx] calculation(2)
      by (auto simp: decide_dirty_tree_def Let_def ladder_dispatch_or_direct_def escalated_action
          cleanup_actions_def split: if_splits)
    ultimately show False using assms by blast
  qed
  then show ?thesis using known by blast
qed

section \<open>Contracts of the table\<close>

text \<open>
  The resolver agent is only dispatched on a fully known observation that carries a conflict, a
  detached head or a repairable record; and for a plain conflict never once the dispatch has
  come under repeat pressure.
\<close>

theorem resolver_dispatch_contract:
  assumes "decide ctx = Act_dispatch_resolver"
  shows "\<not> has_unknown (ctx_observation ctx)
    \<and> (is_real_conflict (ctx_observation ctx) \<or> obs_head (ctx_observation ctx) = Head_detached
       \<or> is_repairable_record (ctx_observation ctx))
    \<and> (is_real_conflict (ctx_observation ctx) \<and> \<not> is_repairable_record (ctx_observation ctx)
       \<longrightarrow> \<not> under_pressure (ctx_attempts ctx) (ctx_observation ctx) Act_dispatch_resolver)"
  using resolver_only_for_resolvable [OF assms] assms
  by (auto simp: is_boring_observation_def decide_conflict ladder_dispatch_or_direct_def escalated_action
      split: if_splits)

definition stale_clean_observation :: observation where
  "stale_clean_observation =
     \<lparr>obs_target_vs_feature = TF_behind, obs_target_vs_remote = TR_equal, obs_worktree = WT_clean,
      obs_head = Head_attached, obs_in_progress_kind = Op_none, obs_in_progress_ownership = Own_owned,
      obs_record = Rec_stale, obs_agent_active = False\<rparr>"

definition conflict_observation :: observation where
  "conflict_observation = stale_clean_observation\<lparr>obs_worktree := WT_unmerged, obs_record := Rec_none\<rparr>"

theorem resolver_dispatch_contract_witness:
  "\<not> has_unknown conflict_observation
   \<and> \<not> under_pressure new_attempt_state conflict_observation Act_dispatch_resolver"
proof -
  let ?ctx = "\<lparr>ctx_observation = conflict_observation, ctx_attempts = new_attempt_state,
               ctx_dirt_shape = Shape_none, ctx_dirt_attribution = Dirt_unknown\<rparr>"
  have d: "decide ?ctx = Act_dispatch_resolver" by code_simp
  have c: "is_real_conflict conflict_observation" "\<not> is_repairable_record conflict_observation"
    by code_simp+
  show ?thesis using resolver_dispatch_contract [OF d] c by simp
qed

text \<open>
  Dirt with a blocking shape and no operation in progress is always answered by a cleanup action,
  provided the durable record is not itself in need of repair; and the table waits only for an
  unknown reading.
\<close>

theorem blocking_dirt_is_cleaned:
  assumes "\<not> has_unknown (ctx_observation ctx)" and "obs_in_progress_kind (ctx_observation ctx) = Op_none"
    and "is_dirty_without_conflict (ctx_observation ctx)"
    and "\<not> is_repairable_record (ctx_observation ctx)"
    and "ctx_dirt_shape ctx \<in> set BLOCKING_SHAPES"
  shows "decide ctx \<in> set cleanup_actions"
proof -
  have "\<not> is_real_conflict (ctx_observation ctx)" "\<not> is_owned_in_progress (ctx_observation ctx)"
    using assms(2, 3) by (auto simp: is_real_conflict_def is_owned_in_progress_def is_dirty_without_conflict_def)
  then show ?thesis using assms decide_dirty_blocking by (simp add: decide_dirty)
qed

lemma wait_only_for_unknown:
  assumes "decide ctx = Act_wait_for_environment"
  shows "has_unknown (ctx_observation ctx)"
proof (rule ccontr)
  assume known: "\<not> has_unknown (ctx_observation ctx)"
  have "ladder_action_skipping_resolver r ob \<noteq> Act_wait_for_environment" for r ob
    using ladder_action_range [of r ob] by auto
  moreover have "decide_dirty_tree ctx = Act_wait_for_environment \<Longrightarrow> ctx_dirt_shape ctx \<notin> set BLOCKING_SHAPES"
    using decide_dirty_blocking [of ctx] by (auto simp: cleanup_actions_def)
  ultimately show False
    using assms known
    by (auto simp: decide_def decide_dirty_tree_def ladder_dispatch_or_direct_def ladder_action_for_def Let_def
        split: if_splits)
qed

text \<open>
  The module documentation says the resolver is dispatched only for a real conflict, never as a
  rung action otherwise.  A clean tree whose record is stale gets it at the resolver rung.
\<close>

lemma resolver_dispatched_for_clean_tree:
  "decide \<lparr>ctx_observation = stale_clean_observation,
           ctx_attempts = new_attempt_state\<lparr>att_rung := Esc_dispatch_resolver\<rparr>,
           ctx_dirt_shape = Shape_none, ctx_dirt_attribution = Dirt_unknown\<rparr> = Act_dispatch_resolver
   \<and> \<not> is_real_conflict stale_clean_observation"
  by code_simp

end
