(* ===== verification/Attempt_Ledger.thy ===== *)
theory Attempt_Ledger
  imports Integration_Decision
begin

text \<open>
  The durable attempt ledger, \<^verbatim>\<open>ralph/pipeline/integration_attempt_ledger.py\<close>: the persisted state,
  the lenient load with its trust verdict, the charge with its tombstone-guarded global bound, the
  monotone merge every write goes through, and the wire form.

  A file is what a read of it gives: missing, unreadable, text that is not JSON, or a decoded
  value; a write replaces it atomically or fails and leaves it.  One operation receives the faults
  it meets: whether the advisory lock is taken, whether the ledger write and each tombstone write
  succeed, and whether the rejected file can be moved aside.  The owner object keeps its in-memory
  mirrors in the record \<open>ledger_owner\<close>; a restart is a new owner over the same files.
\<close>

section \<open>Persisted state\<close>

definition CURRENT_SCHEMA_VERSION :: int where
  "CURRENT_SCHEMA_VERSION = 1"

definition GLOBAL_ACTION_BOUND :: int where
  "GLOBAL_ACTION_BOUND = 2"

definition REPEAT_CAP :: nat where
  "REPEAT_CAP = 1024"

definition MAX_SATURATED_REPEATS :: int where
  "MAX_SATURATED_REPEATS = 2 ^ 31 - 1"

definition LADDER_EVIDENCE_CAP :: nat where
  "LADDER_EVIDENCE_CAP = 64"

datatype ledger_load_status = Load_fresh | Load_restored | Load_unknowable

record attempt_ledger_state =
  al_rung :: escalation_rung
  al_repeat_counts :: repeat_counts
  al_unknown_attempts :: int
  al_unknown_budget :: int
  al_repeat_threshold :: int
  al_version :: int
  al_saturated_repeats :: int
  al_global_actions_charged :: int
  al_ladder_evidence :: "string dict"

definition ledger_state_post_init :: "attempt_ledger_state \<Rightarrow> attempt_ledger_state res" where
  "ledger_state_post_init s =
     (if al_unknown_attempts s < 0 then Inl (ValueError ''unknown_attempts must be >= 0'')
      else if al_unknown_budget s < 1 then Inl (ValueError ''unknown_budget must be >= 1'')
      else if al_repeat_threshold s < 1 then Inl (ValueError ''repeat_threshold must be >= 1'')
      else if al_version s < 1 then Inl (ValueError ''version must be >= 1'')
      else if al_saturated_repeats s < 0 then Inl (ValueError ''saturated_repeats must be >= 0'')
      else if al_global_actions_charged s < 0 then Inl (ValueError ''global_actions_charged must be >= 0'')
      else Inr s)"

record ledger_rebuild_facts =
  proven_rung :: "escalation_rung option"
  proven_repeats :: "(string \<times> string \<times> int) list"

definition saturating_add :: "int \<Rightarrow> int \<Rightarrow> int" where
  "saturating_add tot increment = min (tot + increment) MAX_SATURATED_REPEATS"

text \<open>The loop of \<open>clamp_repeats\<close> pops the oldest entry while there are more than \<open>cap\<close>.\<close>

fun clamp_loop :: "nat \<Rightarrow> repeat_counts \<Rightarrow> int \<Rightarrow> repeat_counts \<times> int" where
  "clamp_loop 0 repeats saturated = (repeats, saturated)"
| "clamp_loop (Suc n) [] saturated = ([], saturated)"
| "clamp_loop (Suc n) ((k, c) # rest) saturated = clamp_loop n rest (saturating_add saturated c)"

definition clamp_repeats :: "repeat_counts \<Rightarrow> int \<Rightarrow> repeat_counts \<times> int" where
  "clamp_repeats repeats saturated = clamp_loop (length repeats - REPEAT_CAP) repeats saturated"

definition advance_rung :: "escalation_rung \<Rightarrow> int \<Rightarrow> int \<Rightarrow> int \<Rightarrow> escalation_rung" where
  "advance_rung current new_count threshold sig_attempts =
     (if ladder_index current \<ge> length LADDER_ORDER - 1 then current
      else if new_count < threshold \<or> sig_attempts < MIN_SIGNATURE_ATTEMPTS_FOR_ESCALATION then current
      else LADDER_ORDER ! (ladder_index current + 1))"

definition further_rung :: "escalation_rung \<Rightarrow> escalation_rung \<Rightarrow> escalation_rung" where
  "further_rung left right = (if ladder_index left \<ge> ladder_index right then left else right)"

definition rebuild_state_from_git_facts :: "ledger_rebuild_facts \<Rightarrow> int \<Rightarrow> int \<Rightarrow> attempt_ledger_state" where
  "rebuild_state_from_git_facts facts budget threshold =
     (let repeats = foldl (\<lambda>d (sig, act, count). if count < 1 then d else dset (sig, act) count d)
                      [] (proven_repeats facts);
          (clamped, saturated) = clamp_repeats repeats 0
      in \<lparr>al_rung = (case proven_rung facts of Some r \<Rightarrow> r | None \<Rightarrow> Esc_repair),
          al_repeat_counts = clamped, al_unknown_attempts = 0, al_unknown_budget = budget,
          al_repeat_threshold = threshold, al_version = CURRENT_SCHEMA_VERSION,
          al_saturated_repeats = saturated, al_global_actions_charged = 0, al_ladder_evidence = []\<rparr>)"

section \<open>Files, faults and the owner object\<close>

datatype file_content = File_missing | File_unreadable | File_not_json | File_json json

record ledger_store =
  ledger_file :: file_content
  tombstone_file :: file_content

record ledger_faults =
  lock_acquired :: bool
  ledger_write_ok :: bool
  quarantine_ok :: bool
  birth_tombstone_ok :: bool
  persist_tombstone_ok :: bool

record ledger_owner =
  default_unknown_budget :: int
  default_repeat_threshold :: int
  own_global_charged :: int
  own_saturated_repeats :: int
  own_unknowable :: bool
  own_forced_pending :: bool

definition new_ledger_owner :: "int \<Rightarrow> int \<Rightarrow> ledger_owner res" where
  "new_ledger_owner budget threshold =
     (if budget < 1 then Inl (ValueError ''unknown_budget must be >= 1'')
      else if threshold < 1 then Inl (ValueError ''repeat_threshold must be >= 1'')
      else Inr \<lparr>default_unknown_budget = budget, default_repeat_threshold = threshold,
                own_global_charged = 0, own_saturated_repeats = 0,
                own_unknowable = False, own_forced_pending = False\<rparr>)"

definition default_ledger_state :: "ledger_owner \<Rightarrow> attempt_ledger_state" where
  "default_ledger_state ow =
     \<lparr>al_rung = Esc_repair, al_repeat_counts = [], al_unknown_attempts = 0,
      al_unknown_budget = default_unknown_budget ow, al_repeat_threshold = default_repeat_threshold ow,
      al_version = CURRENT_SCHEMA_VERSION, al_saturated_repeats = 0, al_global_actions_charged = 0,
      al_ladder_evidence = []\<rparr>"

definition exhausted_state :: "attempt_ledger_state \<Rightarrow> int option \<Rightarrow> attempt_ledger_state" where
  "exhausted_state s charged =
     \<lparr>al_rung = Esc_continue_with_integration_pending, al_repeat_counts = [],
      al_unknown_attempts = al_unknown_budget s, al_unknown_budget = al_unknown_budget s,
      al_repeat_threshold = al_repeat_threshold s, al_version = CURRENT_SCHEMA_VERSION,
      al_saturated_repeats = al_saturated_repeats s,
      al_global_actions_charged =
        (case charged of None \<Rightarrow> al_global_actions_charged s
         | Some c \<Rightarrow> max (al_global_actions_charged s) c),
      al_ladder_evidence = al_ladder_evidence s\<rparr>"

section \<open>Loading\<close>

definition RUNG_VALUES :: "string list" where
  "RUNG_VALUES = map escalation_value LADDER_ORDER"

definition rung_of_value :: "string \<Rightarrow> escalation_rung option" where
  "rung_of_value v = List.find (\<lambda>r. escalation_value r = v) LADDER_ORDER"

definition payload_status :: "json dict \<Rightarrow> ledger_load_status" where
  "payload_status payload =
     (if dget payload ''version'' \<noteq> Some (JInt CURRENT_SCHEMA_VERSION) then Load_unknowable
      else if (case dget payload ''rung'' of
                 None \<Rightarrow> False | Some JNull \<Rightarrow> False
               | Some (JStr v) \<Rightarrow> v \<notin> set RUNG_VALUES | Some _ \<Rightarrow> True) then Load_unknowable
      else if (case dget_or payload ''repeat_counts'' (JList []) of JList _ \<Rightarrow> False | _ \<Rightarrow> True)
        then Load_unknowable
      else Load_restored)"

definition non_negative_int :: "json dict \<Rightarrow> string \<Rightarrow> int" where
  "non_negative_int payload k =
     (case dget_or payload k (JInt 0) of
        JInt i \<Rightarrow> if i < 0 then 0 else min i MAX_SATURATED_REPEATS
      | _ \<Rightarrow> 0)"

definition coerce_repeat_entry :: "json \<Rightarrow> ((string \<times> string) \<times> int) option" where
  "coerce_repeat_entry entry =
     (case entry of
        JList [JList [JStr sig, JStr act], JInt count] \<Rightarrow>
          if count < 0 then None else Some ((sig, act), count)
      | _ \<Rightarrow> None)"

fun evidence_loop :: "string dict \<Rightarrow> json dict \<Rightarrow> string dict" where
  "evidence_loop evidence [] = evidence"
| "evidence_loop evidence ((k, v) # rest) =
     (case v of
        JStr s \<Rightarrow>
          let updated = dset k s evidence
          in if length updated \<ge> LADDER_EVIDENCE_CAP then updated else evidence_loop updated rest
      | _ \<Rightarrow> evidence_loop evidence rest)"

definition parse_ladder_evidence :: "json option \<Rightarrow> string dict" where
  "parse_ladder_evidence raw = (case raw of Some (JObj items) \<Rightarrow> evidence_loop [] items | _ \<Rightarrow> [])"

definition int_field :: "json dict \<Rightarrow> string \<Rightarrow> int \<Rightarrow> int" where
  "int_field payload k dflt = (case dget payload k of Some (JInt i) \<Rightarrow> i | _ \<Rightarrow> dflt)"

definition migrate_payload :: "ledger_owner \<Rightarrow> json dict \<Rightarrow> attempt_ledger_state" where
  "migrate_payload ow payload =
     (let rung = (case dget payload ''rung'' of
                    Some (JStr v) \<Rightarrow> (case rung_of_value v of Some r \<Rightarrow> r | None \<Rightarrow> Esc_repair)
                  | _ \<Rightarrow> Esc_repair);
          budget = int_field payload ''unknown_budget'' (default_unknown_budget ow);
          threshold = int_field payload ''repeat_threshold'' (default_repeat_threshold ow);
          repeats = (case dget payload ''repeat_counts'' of
                       Some (JList entries) \<Rightarrow>
                         foldl (\<lambda>d en. case coerce_repeat_entry en of None \<Rightarrow> d | Some (k, c) \<Rightarrow> dset k c d)
                           [] entries
                     | _ \<Rightarrow> []);
          (clamped, saturated) = clamp_repeats repeats 0
      in \<lparr>al_rung = rung, al_repeat_counts = clamped,
          al_unknown_attempts = max 0 (int_field payload ''unknown_attempts'' 0),
          al_unknown_budget = (if budget < 1 then default_unknown_budget ow else budget),
          al_repeat_threshold = (if threshold < 1 then default_repeat_threshold ow else threshold),
          al_version = CURRENT_SCHEMA_VERSION,
          al_saturated_repeats = saturating_add saturated (non_negative_int payload ''saturated_repeats''),
          al_global_actions_charged = non_negative_int payload ''global_actions_charged'',
          al_ladder_evidence = parse_ladder_evidence (dget payload ''ladder_evidence'')\<rparr>)"

definition ledger_load ::
  "ledger_owner \<Rightarrow> ledger_store \<Rightarrow> attempt_ledger_state \<times> ledger_load_status \<times> ledger_owner" where
  "ledger_load ow st =
     (case ledger_file st of
        File_missing \<Rightarrow> (default_ledger_state ow, Load_fresh, ow)
      | File_json (JObj payload) \<Rightarrow>
          (let s = migrate_payload ow payload
           in (s, payload_status payload,
               ow\<lparr>own_saturated_repeats := max (own_saturated_repeats ow) (al_saturated_repeats s),
                  own_global_charged := max (own_global_charged ow) (al_global_actions_charged s)\<rparr>))
      | _ \<Rightarrow> (default_ledger_state ow, Load_unknowable, ow))"

definition ledger_read :: "ledger_owner \<Rightarrow> ledger_store \<Rightarrow> attempt_ledger_state" where
  "ledger_read ow st = fst (ledger_load ow st)"

section \<open>Writing\<close>

definition merge_counts :: "repeat_counts \<Rightarrow> repeat_counts \<Rightarrow> repeat_counts" where
  "merge_counts disk counts = foldl (\<lambda>d (k, c). dset k (max (dget_or d k 0) c) d) disk counts"

definition dict_update :: "'v dict \<Rightarrow> 'v dict \<Rightarrow> 'v dict" where
  "dict_update d e = foldl (\<lambda>acc (k, v). dset k v acc) d e"

definition merge_monotone :: "attempt_ledger_state \<Rightarrow> attempt_ledger_state \<Rightarrow> attempt_ledger_state" where
  "merge_monotone s disk =
     (let (counts, saturated) =
            clamp_repeats (merge_counts (al_repeat_counts disk) (al_repeat_counts s))
              (max (al_saturated_repeats s) (al_saturated_repeats disk))
      in \<lparr>al_rung = further_rung (al_rung s) (al_rung disk),
          al_repeat_counts = counts,
          al_unknown_attempts = max (al_unknown_attempts s) (al_unknown_attempts disk),
          al_unknown_budget = al_unknown_budget s,
          al_repeat_threshold = min (al_repeat_threshold s) (al_repeat_threshold disk),
          al_version = CURRENT_SCHEMA_VERSION,
          al_saturated_repeats = saturated,
          al_global_actions_charged = max (al_global_actions_charged s) (al_global_actions_charged disk),
          al_ladder_evidence =
            take LADDER_EVIDENCE_CAP (dict_update (al_ladder_evidence disk) (al_ladder_evidence s))\<rparr>)"

definition serialize_ledger :: "attempt_ledger_state \<Rightarrow> json" where
  "serialize_ledger s =
     JObj [(''version'', JInt (al_version s)),
           (''rung'', JStr (escalation_value (al_rung s))),
           (''unknown_attempts'', JInt (al_unknown_attempts s)),
           (''unknown_budget'', JInt (al_unknown_budget s)),
           (''repeat_threshold'', JInt (al_repeat_threshold s)),
           (''repeat_counts'',
              JList (map (\<lambda>((sig, act), c). JList [JList [JStr sig, JStr act], JInt c]) (al_repeat_counts s))),
           (''saturated_repeats'', JInt (al_saturated_repeats s)),
           (''global_actions_charged'', JInt (al_global_actions_charged s)),
           (''ladder_evidence'',
              JObj (map (\<lambda>(k, v). (k, JStr v)) (sort_key fst (al_ladder_evidence s))))]"

definition write_state ::
  "bool \<Rightarrow> attempt_ledger_state \<Rightarrow> attempt_ledger_state \<Rightarrow> ledger_store \<Rightarrow> ledger_store res" where
  "write_state ok s disk st =
     (if ok then Inr (st\<lparr>ledger_file := File_json (serialize_ledger (merge_monotone s disk))\<rparr>)
      else Inl (OSError ''ledger write failed''))"

definition ledger_persist ::
  "bool \<Rightarrow> attempt_ledger_state \<Rightarrow> ledger_owner \<times> ledger_store \<Rightarrow> (ledger_owner \<times> ledger_store) res" where
  "ledger_persist ok s os =
     (let (ow, st) = os; (disk, _, ow1) = ledger_load ow st
      in rbind (write_state ok s disk st) (\<lambda>st1. Inr (ow1, st1)))"

section \<open>The global bound\<close>

definition tombstone_charged :: "ledger_store \<Rightarrow> int" where
  "tombstone_charged st =
     (case tombstone_file st of
        File_missing \<Rightarrow> 0
      | File_json (JObj payload) \<Rightarrow>
          (case dget payload ''global_actions_charged'' of
             Some (JInt c) \<Rightarrow> if c < 0 then GLOBAL_ACTION_BOUND else min c GLOBAL_ACTION_BOUND
           | _ \<Rightarrow> GLOBAL_ACTION_BOUND)
      | _ \<Rightarrow> GLOBAL_ACTION_BOUND)"

definition global_charged_total :: "ledger_owner \<Rightarrow> ledger_store \<Rightarrow> int" where
  "global_charged_total ow st =
     min (max (tombstone_charged st) (own_global_charged ow)) GLOBAL_ACTION_BOUND"

definition tombstone_payload :: "int \<Rightarrow> json" where
  "tombstone_payload charged =
     JObj [(''version'', JInt 1), (''global_actions_charged'', JInt charged),
           (''global_action_bound'', JInt GLOBAL_ACTION_BOUND)]"

definition spend_global_allowance ::
  "bool \<Rightarrow> int \<Rightarrow> ledger_owner \<times> ledger_store \<Rightarrow> (int \<times> bool) \<times> ledger_owner \<times> ledger_store" where
  "spend_global_allowance ok charged os =
     (let (ow, st) = os
      in if charged \<ge> GLOBAL_ACTION_BOUND then ((charged, False), ow, st)
         else let c = charged + 1;
                  ow1 = ow\<lparr>own_global_charged := max (own_global_charged ow) c\<rparr>
              in if ok then ((c, True), ow1, st\<lparr>tombstone_file := File_json (tombstone_payload c)\<rparr>)
                 else ((c, False), ow1, st))"

definition quarantine_ledger :: "bool \<Rightarrow> ledger_store \<Rightarrow> ledger_store" where
  "quarantine_ledger ok st = (if ok then st\<lparr>ledger_file := File_missing\<rparr> else st)"

section \<open>Charging\<close>

definition apply_charge :: "attempt_ledger_state \<Rightarrow> string \<Rightarrow> string \<Rightarrow> bool \<Rightarrow> attempt_ledger_state" where
  "apply_charge s sig act is_unknown =
     (if is_unknown
      then s\<lparr>al_unknown_attempts := al_unknown_attempts s + 1, al_version := CURRENT_SCHEMA_VERSION\<rparr>
      else let new_count = dget_or (al_repeat_counts s) (sig, act) 0 + 1;
               (updated, saturated) =
                 clamp_repeats (dset (sig, act) new_count (al_repeat_counts s)) (al_saturated_repeats s)
           in s\<lparr>al_rung := advance_rung (al_rung s) new_count (al_repeat_threshold s)
                             (signature_total sig updated),
                al_repeat_counts := updated, al_unknown_attempts := 0,
                al_version := CURRENT_SCHEMA_VERSION, al_saturated_repeats := saturated\<rparr>)"

definition on_persist_failure ::
  "bool \<Rightarrow> attempt_ledger_state \<Rightarrow> attempt_ledger_state \<Rightarrow> ledger_owner \<times> ledger_store
     \<Rightarrow> attempt_ledger_state \<times> ledger_owner \<times> ledger_store" where
  "on_persist_failure ok charged disk os =
     (let (ow, st) = os; ow1 = ow\<lparr>own_unknowable := True\<rparr>;
          ((tot, granted), ow2, st2) = spend_global_allowance ok (global_charged_total ow1 st) (ow1, st)
      in if granted then (charged, ow2, st2)
         else (exhausted_state (merge_monotone charged disk) (Some tot),
               ow2\<lparr>own_forced_pending := True\<rparr>, st2))"

text \<open>The part of \<open>charge\<close> after the trust decision: fold the attempt in and persist it.\<close>

definition charge_and_persist ::
  "ledger_faults \<Rightarrow> string \<Rightarrow> string \<Rightarrow> bool \<Rightarrow> attempt_ledger_state \<Rightarrow> ledger_owner \<times> ledger_store
     \<Rightarrow> attempt_ledger_state \<times> ledger_owner \<times> ledger_store" where
  "charge_and_persist fl sig act is_unknown s os =
     (let (ow, st) = os; bumped = apply_charge s sig act is_unknown
      in if \<not> lock_acquired fl
         then on_persist_failure (persist_tombstone_ok fl) bumped s (ow\<lparr>own_unknowable := True\<rparr>, st)
         else case write_state (ledger_write_ok fl) bumped s st of
                Inl _ \<Rightarrow> on_persist_failure (persist_tombstone_ok fl) bumped s (ow, st)
              | Inr st1 \<Rightarrow> (bumped, ow, st1))"

definition charge ::
  "ledger_faults \<Rightarrow> string \<Rightarrow> string \<Rightarrow> bool \<Rightarrow> ledger_owner \<times> ledger_store
     \<Rightarrow> attempt_ledger_state \<times> ledger_owner \<times> ledger_store" where
  "charge fl sig act is_unknown os =
     (let (ow0, st) = os;
          (s, status0, ow) = ledger_load ow0 st;
          charged = global_charged_total ow st
      in if own_forced_pending ow \<or> charged \<ge> GLOBAL_ACTION_BOUND
         then (exhausted_state s None, ow\<lparr>own_forced_pending := True\<rparr>, st)
         else let status = (if status0 = Load_fresh \<and> charged > 0 then Load_unknowable else status0)
              in if own_unknowable ow \<or> status = Load_unknowable
                 then let ((tot, granted), ow1, st1) =
                            spend_global_allowance (birth_tombstone_ok fl) charged (ow, st)
                      in if \<not> granted
                         then (exhausted_state s None, ow1\<lparr>own_forced_pending := True\<rparr>, st1)
                         else charge_and_persist fl sig act is_unknown
                                (exhausted_state s (Some tot))
                                (ow1, quarantine_ledger (quarantine_ok fl) st1)
                 else charge_and_persist fl sig act is_unknown s (ow, st))"

definition rebuild_from_git_facts ::
  "bool \<Rightarrow> bool \<Rightarrow> ledger_rebuild_facts \<Rightarrow> ledger_owner \<times> ledger_store
     \<Rightarrow> (attempt_ledger_state \<times> ledger_owner \<times> ledger_store) res" where
  "rebuild_from_git_facts aside_ok write_ok facts os =
     (let (ow, st) = os;
          rebuilt = rebuild_state_from_git_facts facts (default_unknown_budget ow) (default_repeat_threshold ow)
      in rbind (write_state write_ok rebuilt (default_ledger_state ow) (quarantine_ledger aside_ok st))
           (\<lambda>st1. Inr (rebuilt, ow, st1)))"

section \<open>Dictionaries built entry by entry\<close>

lemma dset_new: "\<not> din k d \<Longrightarrow> dset k v d = d @ [(k, v)]"
  by (induction d) (auto simp: dset_def din_def dget_def split: if_splits)

lemma foldl_dset_append:
  "distinct (dkeys d) \<Longrightarrow> (\<forall>k\<in>set (dkeys d). \<not> din k acc) \<Longrightarrow> foldl (\<lambda>a (k, v). dset k v a) acc d = acc @ d"
proof (induction d arbitrary: acc)
  case (Cons kv d)
  obtain k v where kv: "kv = (k, v)" by force
  have "dset k v acc = acc @ [(k, v)]" using Cons.prems kv by (intro dset_new) (simp add: dkeys_def)
  moreover have "\<forall>x\<in>set (dkeys d). \<not> din x (acc @ [(k, v)])"
    using Cons.prems kv by (auto simp: dkeys_def din_iff)
  ultimately show ?case using Cons.IH [of "acc @ [(k, v)]"] Cons.prems kv by (simp add: dkeys_def)
qed simp

lemma length_dset: "length (dset k v d) = (if din k d then length d else length d + 1)"
  using arg_cong [OF dkeys_dset, of length k v d] by (simp add: dkeys_def split: if_splits)

lemma dset_all_values:
  "list_all (\<lambda>(_, c). P c) d \<Longrightarrow> P v \<Longrightarrow> list_all (\<lambda>(_, c). P c) (dset k v d)"
  by (induction d) (auto simp: dset_def)

section \<open>Well-formed states\<close>

definition counts_ok :: "repeat_counts \<Rightarrow> bool" where
  "counts_ok d = (distinct (dkeys d) \<and> list_all (\<lambda>(_, c). 0 \<le> c) d)"

definition attempt_ledger_ok :: "attempt_ledger_state \<Rightarrow> bool" where
  "attempt_ledger_ok s =
     (counts_ok (al_repeat_counts s) \<and> length (al_repeat_counts s) \<le> REPEAT_CAP
      \<and> 0 \<le> al_unknown_attempts s \<and> 1 \<le> al_unknown_budget s \<and> 1 \<le> al_repeat_threshold s
      \<and> al_version s = CURRENT_SCHEMA_VERSION
      \<and> 0 \<le> al_saturated_repeats s \<and> al_saturated_repeats s \<le> MAX_SATURATED_REPEATS
      \<and> 0 \<le> al_global_actions_charged s \<and> al_global_actions_charged s \<le> MAX_SATURATED_REPEATS
      \<and> distinct (dkeys (al_ladder_evidence s)) \<and> length (al_ladder_evidence s) \<le> LADDER_EVIDENCE_CAP)"

definition owner_ok :: "ledger_owner \<Rightarrow> bool" where
  "owner_ok ow = (1 \<le> default_unknown_budget ow \<and> 1 \<le> default_repeat_threshold ow)"

lemma counts_ok_dset [intro]: "counts_ok d \<Longrightarrow> 0 \<le> c \<Longrightarrow> counts_ok (dset k c d)"
  by (auto simp: counts_ok_def distinct_dkeys_dset intro: dset_all_values)

lemma counts_ok_Nil [simp]: "counts_ok []"
  by (simp add: counts_ok_def)

lemma counts_ok_dget_or: "counts_ok d \<Longrightarrow> 0 \<le> dget_or d k 0"
  by (auto simp: counts_ok_def dget_or_def list_all_iff dest: dget_SomeD split: option.splits)

text \<open>\<open>counts_total\<close> is the sum of all recorded counts.\<close>

definition counts_total :: "repeat_counts \<Rightarrow> int" where
  "counts_total d = sum_list (map snd d)"

lemma counts_total_simps [simp]:
  "counts_total [] = 0" "counts_total (kv # d) = snd kv + counts_total d"
  by (simp_all add: counts_total_def)

lemma counts_total_nonneg: "counts_ok d \<Longrightarrow> 0 \<le> counts_total d"
  by (induction d) (auto simp: counts_ok_def dkeys_def)

lemma clamp_loop_facts:
  assumes "counts_ok d" "0 \<le> sat" "sat \<le> MAX_SATURATED_REPEATS"
  shows "fst (clamp_loop n d sat) = drop n d
    \<and> sat \<le> snd (clamp_loop n d sat) \<and> snd (clamp_loop n d sat) \<le> MAX_SATURATED_REPEATS
    \<and> min MAX_SATURATED_REPEATS (counts_total (fst (clamp_loop n d sat)) + snd (clamp_loop n d sat))
      = min MAX_SATURATED_REPEATS (counts_total d + sat)"
  using assms
proof (induction n d sat rule: clamp_loop.induct)
  case (3 n k c rest sat)
  have r: "counts_ok rest" "0 \<le> c" using 3 by (auto simp: counts_ok_def dkeys_def)
  have s: "0 \<le> saturating_add sat c" "saturating_add sat c \<le> MAX_SATURATED_REPEATS" "sat \<le> saturating_add sat c"
    using 3 r by (auto simp: saturating_add_def)
  have "min MAX_SATURATED_REPEATS (counts_total rest + saturating_add sat c)
      = min MAX_SATURATED_REPEATS (counts_total rest + (sat + c))"
    using counts_total_nonneg [OF r(1)] by (auto simp: saturating_add_def min_def)
  then show ?case using "3.IH" [OF r(1) s(1, 2)] s(3) by (auto simp: algebra_simps)
qed auto

lemma counts_ok_drop: "counts_ok d \<Longrightarrow> counts_ok (drop n d)"
  by (auto simp: counts_ok_def dkeys_def drop_map [symmetric] list_all_iff dest: in_set_dropD)

lemma clamp_repeats_ok:
  assumes "counts_ok d" "0 \<le> sat" "sat \<le> MAX_SATURATED_REPEATS"
  shows "counts_ok (fst (clamp_repeats d sat))" "length (fst (clamp_repeats d sat)) \<le> REPEAT_CAP"
    "0 \<le> snd (clamp_repeats d sat)" "snd (clamp_repeats d sat) \<le> MAX_SATURATED_REPEATS"
    "sat \<le> snd (clamp_repeats d sat)"
  using clamp_loop_facts [OF assms, of "length d - REPEAT_CAP"] counts_ok_drop [OF assms(1)] assms(2)
  by (auto simp: clamp_repeats_def)

lemma clamp_repeats_small: "length d \<le> REPEAT_CAP \<Longrightarrow> clamp_repeats d sat = (d, sat)"
  by (simp add: clamp_repeats_def)

lemma merge_counts_ok:
  "counts_ok disk \<Longrightarrow> counts_ok counts \<Longrightarrow> counts_ok (merge_counts disk counts)"
proof (induction counts arbitrary: disk)
  case (Cons kc counts)
  obtain k c where kc: "kc = (k, c)" by (cases kc) blast
  have "counts_ok counts" "0 \<le> c" using Cons.prems kc by (auto simp: counts_ok_def dkeys_def)
  moreover have "counts_ok (dset k (max (dget_or disk k 0) c) disk)"
    using Cons.prems(1) counts_ok_dget_or [of disk k] by (intro counts_ok_dset) (auto simp: le_max_iff_disj)
  ultimately show ?case using Cons.IH kc by (simp add: merge_counts_def)
qed (simp add: merge_counts_def)

lemma dict_update_keys: "distinct (dkeys d) \<Longrightarrow> distinct (dkeys (dict_update d e))"
  by (induction e arbitrary: d) (auto simp: dict_update_def distinct_dkeys_dset)

lemma distinct_dkeys_take: "distinct (dkeys d) \<Longrightarrow> distinct (dkeys (take n d))"
  by (simp add: dkeys_def take_map [symmetric])

lemma merge_monotone_ok:
  assumes "attempt_ledger_ok s" "attempt_ledger_ok disk"
  shows "attempt_ledger_ok (merge_monotone s disk)"
proof -
  let ?d = "merge_counts (al_repeat_counts disk) (al_repeat_counts s)"
  let ?sat = "max (al_saturated_repeats s) (al_saturated_repeats disk)"
  have d: "counts_ok ?d" "0 \<le> ?sat" "?sat \<le> MAX_SATURATED_REPEATS"
    using assms by (auto simp: attempt_ledger_ok_def intro: merge_counts_ok)
  have "distinct (dkeys (take LADDER_EVIDENCE_CAP (dict_update (al_ladder_evidence disk) (al_ladder_evidence s))))"
    using assms by (intro distinct_dkeys_take dict_update_keys) (simp add: attempt_ledger_ok_def)
  then show ?thesis
    using assms clamp_repeats_ok [OF d] by (auto simp: attempt_ledger_ok_def merge_monotone_def split: prod.splits)
qed

lemma apply_charge_ok:
  assumes "attempt_ledger_ok s"
  shows "attempt_ledger_ok (apply_charge s sig act unk)"
proof -
  let ?d = "dset (sig, act) (dget_or (al_repeat_counts s) (sig, act) 0 + 1) (al_repeat_counts s)"
  have "0 \<le> dget_or (al_repeat_counts s) (sig, act) 0"
    using assms counts_ok_dget_or by (auto simp: attempt_ledger_ok_def)
  then have d: "counts_ok ?d" "0 \<le> al_saturated_repeats s" "al_saturated_repeats s \<le> MAX_SATURATED_REPEATS"
    using assms by (auto simp: attempt_ledger_ok_def)
  show ?thesis
    using assms clamp_repeats_ok [OF d] by (auto simp: attempt_ledger_ok_def apply_charge_def Let_def split: prod.splits)
qed

lemma default_ledger_state_ok: "owner_ok ow \<Longrightarrow> attempt_ledger_ok (default_ledger_state ow)"
  by (simp add: attempt_ledger_ok_def default_ledger_state_def owner_ok_def MAX_SATURATED_REPEATS_def)

lemma evidence_loop_ok:
  "distinct (dkeys ev) \<Longrightarrow> length ev < LADDER_EVIDENCE_CAP \<Longrightarrow>
     distinct (dkeys (evidence_loop ev items)) \<and> length (evidence_loop ev items) \<le> LADDER_EVIDENCE_CAP"
  by (induction ev items rule: evidence_loop.induct)
     (auto simp: distinct_dkeys_dset length_dset Let_def split: json.splits if_splits)

lemma parse_ladder_evidence_ok:
  "distinct (dkeys (parse_ladder_evidence raw)) \<and> length (parse_ladder_evidence raw) \<le> LADDER_EVIDENCE_CAP"
  using evidence_loop_ok [of "[]"]
  by (auto simp: parse_ladder_evidence_def LADDER_EVIDENCE_CAP_def split: option.splits json.splits)

lemma coerce_repeat_entry_nonneg: "coerce_repeat_entry en = Some (k, c) \<Longrightarrow> 0 \<le> c"
  by (auto simp: coerce_repeat_entry_def split: json.splits list.splits if_splits)

lemma foldl_coerce_ok:
  "counts_ok d \<Longrightarrow> counts_ok (foldl (\<lambda>d en. case coerce_repeat_entry en of None \<Rightarrow> d | Some (k, c) \<Rightarrow> dset k c d) d entries)"
  by (induction entries arbitrary: d) (auto dest: coerce_repeat_entry_nonneg split: option.splits)

lemma non_negative_int_range: "0 \<le> non_negative_int payload k \<and> non_negative_int payload k \<le> MAX_SATURATED_REPEATS"
  by (auto simp: non_negative_int_def MAX_SATURATED_REPEATS_def split: json.splits)

lemma migrate_payload_ok:
  assumes "owner_ok ow"
  shows "attempt_ledger_ok (migrate_payload ow payload)"
proof -
  let ?r = "case dget payload ''repeat_counts'' of
      Some (JList entries) \<Rightarrow>
        foldl (\<lambda>d en. case coerce_repeat_entry en of None \<Rightarrow> d | Some (k, c) \<Rightarrow> dset k c d) [] entries
    | _ \<Rightarrow> []"
  have r: "counts_ok ?r" by (auto simp: foldl_coerce_ok split: option.splits json.splits)
  have z: "0 \<le> (0::int)" "(0::int) \<le> MAX_SATURATED_REPEATS" by (simp_all add: MAX_SATURATED_REPEATS_def)
  show ?thesis
    using assms clamp_repeats_ok [OF r z] non_negative_int_range parse_ladder_evidence_ok
    unfolding migrate_payload_def attempt_ledger_ok_def owner_ok_def Let_def
    by (auto simp: saturating_add_def split: prod.splits)
qed

lemma ledger_load_ok: "owner_ok ow \<Longrightarrow> attempt_ledger_ok (fst (ledger_load ow st))"
  by (auto simp: ledger_load_def Let_def default_ledger_state_ok migrate_payload_ok
      split: file_content.splits json.splits)

lemma ledger_load_owner [simp]:
  "owner_ok (snd (snd (ledger_load ow st))) = owner_ok ow"
  "own_forced_pending (snd (snd (ledger_load ow st))) = own_forced_pending ow"
  "own_unknowable (snd (snd (ledger_load ow st))) = own_unknowable ow"
  by (auto simp: ledger_load_def Let_def owner_ok_def split: file_content.splits json.splits)

lemma dget_serialized:
  assumes "serialize_ledger s = JObj payload"
  shows "dget payload ''version'' = Some (JInt (al_version s))"
    "dget payload ''rung'' = Some (JStr (escalation_value (al_rung s)))"
    "dget payload ''unknown_attempts'' = Some (JInt (al_unknown_attempts s))"
    "dget payload ''unknown_budget'' = Some (JInt (al_unknown_budget s))"
    "dget payload ''repeat_threshold'' = Some (JInt (al_repeat_threshold s))"
    "dget payload ''repeat_counts'' =
       Some (JList (map (\<lambda>((sig, act), c). JList [JList [JStr sig, JStr act], JInt c]) (al_repeat_counts s)))"
    "dget payload ''saturated_repeats'' = Some (JInt (al_saturated_repeats s))"
    "dget payload ''global_actions_charged'' = Some (JInt (al_global_actions_charged s))"
    "dget payload ''ladder_evidence'' =
       Some (JObj (map (\<lambda>(k, v). (k, JStr v)) (sort_key fst (al_ladder_evidence s))))"
  using assms by (auto simp: serialize_ledger_def dget_def)

lemma rung_of_value_inverse [simp]: "rung_of_value (escalation_value r) = Some r"
  by (cases r) (simp_all add: rung_of_value_def LADDER_ORDER_def)

lemma foldl_coerce_printed:
  "list_all (\<lambda>(_, c). 0 \<le> c) d \<Longrightarrow>
   foldl (\<lambda>a en. case coerce_repeat_entry en of None \<Rightarrow> a | Some (k, c) \<Rightarrow> dset k c a) acc
     (map (\<lambda>((sig, act), c). JList [JList [JStr sig, JStr act], JInt c]) d)
   = foldl (\<lambda>a (k, c). dset k c a) acc d"
  by (induction d arbitrary: acc) (auto simp: coerce_repeat_entry_def)

lemma evidence_loop_printed:
  assumes "distinct (dkeys d)" "\<forall>k\<in>set (dkeys d). \<not> din k acc" "length acc + length d \<le> LADDER_EVIDENCE_CAP"
  shows "evidence_loop acc (map (\<lambda>(k, v). (k, JStr v)) d) = acc @ d"
  using assms
proof (induction d arbitrary: acc)
  case (Cons kv d)
  obtain k v where kv: "kv = (k, v)" by force
  have new: "dset k v acc = acc @ [(k, v)]" using Cons.prems kv by (intro dset_new) (simp add: dkeys_def)
  have "\<forall>x\<in>set (dkeys d). \<not> din x (acc @ [(k, v)])"
    using Cons.prems kv by (auto simp: dkeys_def din_iff)
  then have ih: "evidence_loop (acc @ [(k, v)]) (map (\<lambda>(k, v). (k, JStr v)) d) = acc @ (k, v) # d"
    using Cons.IH [of "acc @ [(k, v)]"] Cons.prems kv by (simp add: dkeys_def)
  have "length (acc @ [(k, v)]) \<ge> LADDER_EVIDENCE_CAP \<Longrightarrow> d = []" using Cons.prems by (cases d) auto
  then show ?case using new ih kv by (auto simp: Let_def)
qed simp

lemma dkeys_sort_key: "set (dkeys (sort_key f d)) = set (dkeys d)"
  by (simp add: dkeys_def)

lemma distinct_dkeys_sort: "distinct (dkeys d) \<Longrightarrow> distinct (dkeys (sort_key f d))"
  unfolding dkeys_def by (simp add: distinct_map inj_on_def)

text \<open>
  Reading back a written state gives the same state (its evidence in key order), and the file is
  trusted.
\<close>

theorem ledger_wire_roundtrip:
  assumes "attempt_ledger_ok s" and "serialize_ledger s = JObj payload"
  shows "migrate_payload ow payload = s\<lparr>al_ladder_evidence := sort_key fst (al_ladder_evidence s)\<rparr>
       \<and> payload_status payload = Load_restored"
proof -
  note g = dget_serialized [OF assms(2)]
  have c: "foldl (\<lambda>a en. case coerce_repeat_entry en of None \<Rightarrow> a | Some (k, c) \<Rightarrow> dset k c a) []
     (map (\<lambda>((sig, act), c). JList [JList [JStr sig, JStr act], JInt c]) (al_repeat_counts s))
     = al_repeat_counts s"
    using assms(1) by (subst foldl_coerce_printed) (auto simp: attempt_ledger_ok_def counts_ok_def foldl_dset_append din_def)
  have e: "parse_ladder_evidence (dget payload ''ladder_evidence'') = sort_key fst (al_ladder_evidence s)"
    using assms(1) unfolding g
    by (simp add: parse_ladder_evidence_def attempt_ledger_ok_def din_def evidence_loop_printed distinct_dkeys_sort)
  have n: "non_negative_int payload ''saturated_repeats'' = al_saturated_repeats s"
    "non_negative_int payload ''global_actions_charged'' = al_global_actions_charged s"
    using assms(1) by (auto simp: non_negative_int_def dget_or_def g attempt_ledger_ok_def)
  have "migrate_payload ow payload = s\<lparr>al_ladder_evidence := sort_key fst (al_ladder_evidence s)\<rparr>"
    using assms(1) c e n
    by (simp add: migrate_payload_def g int_field_def Let_def clamp_repeats_small attempt_ledger_ok_def saturating_add_def)
  moreover have "payload_status payload = Load_restored"
    using assms(1) by (cases "al_rung s")
      (simp_all add: payload_status_def g dget_or_def attempt_ledger_ok_def RUNG_VALUES_def LADDER_ORDER_def)
  ultimately show ?thesis by simp
qed

section \<open>No history restores an allowance\<close>

definition payload_rung :: "json dict \<Rightarrow> escalation_rung" where
  "payload_rung payload =
     (case dget payload ''rung'' of
        Some (JStr v) \<Rightarrow> (case rung_of_value v of Some r \<Rightarrow> r | None \<Rightarrow> Esc_repair)
      | _ \<Rightarrow> Esc_repair)"

text \<open>
  The rung the files stand for: the terminal one when the global bound is spent or prior usage
  cannot be proven, the recorded one when the ledger is trusted.
\<close>

definition effective_rung :: "ledger_store \<Rightarrow> nat" where
  "effective_rung st =
     (if tombstone_charged st \<ge> GLOBAL_ACTION_BOUND then 3
      else case ledger_file st of
             File_missing \<Rightarrow> if tombstone_charged st > 0 then 3 else 0
           | File_json (JObj payload) \<Rightarrow>
               if payload_status payload = Load_restored then ladder_index (payload_rung payload) else 3
           | _ \<Rightarrow> 3)"

lemma migrate_rung [simp]: "al_rung (migrate_payload ow payload) = payload_rung payload"
  by (simp add: migrate_payload_def payload_rung_def Let_def split: prod.splits)

lemma payload_status_iff:
  "payload_status p = Load_unknowable \<longleftrightarrow> payload_status p \<noteq> Load_restored" "payload_status p \<noteq> Load_fresh"
  by (simp_all add: payload_status_def)

lemma effective_rung_le: "effective_rung st \<le> 3"
  by (auto simp: effective_rung_def split: file_content.splits json.splits)

lemma tombstone_charged_range: "0 \<le> tombstone_charged st \<and> tombstone_charged st \<le> GLOBAL_ACTION_BOUND"
  by (auto simp: tombstone_charged_def GLOBAL_ACTION_BOUND_def split: file_content.splits json.splits option.splits)

lemma effective_rung_mono:
  assumes "ledger_file st' = ledger_file st" "tombstone_charged st \<le> tombstone_charged st'"
  shows "effective_rung st \<le> effective_rung st'"
  using assms by (auto simp: effective_rung_def split: file_content.splits json.splits)

lemma serialized_trusted:
  assumes "serialize_ledger s = JObj payload" "al_version s = CURRENT_SCHEMA_VERSION"
  shows "payload_status payload = Load_restored" "payload_rung payload = al_rung s"
  using assms(2) dget_serialized [OF assms(1)]
  by (cases "al_rung s"; simp add: payload_status_def payload_rung_def dget_or_def RUNG_VALUES_def
      LADDER_ORDER_def rung_of_value_def)+

lemma effective_rung_written:
  assumes "ledger_file st = File_json (serialize_ledger s)" "al_version s = CURRENT_SCHEMA_VERSION"
  shows "ladder_index (al_rung s) \<le> effective_rung st"
proof -
  obtain payload where p: "serialize_ledger s = JObj payload" by (simp add: serialize_ledger_def)
  then show ?thesis
    using assms serialized_trusted [OF p assms(2)] ladder_simps(3) by (simp add: effective_rung_def)
qed

lemma further_rung_index: "ladder_index (further_rung a b) = max (ladder_index a) (ladder_index b)"
  by (simp add: further_rung_def)

lemma merge_monotone_fields [simp]:
  "al_rung (merge_monotone s disk) = further_rung (al_rung s) (al_rung disk)"
  "al_version (merge_monotone s disk) = CURRENT_SCHEMA_VERSION"
  "al_unknown_attempts (merge_monotone s disk) = max (al_unknown_attempts s) (al_unknown_attempts disk)"
  "al_unknown_budget (merge_monotone s disk) = al_unknown_budget s"
  by (simp_all add: merge_monotone_def split: prod.splits)

lemma advance_rung_index: "ladder_index r \<le> ladder_index (advance_rung r n t a)"
  by (cases r) (auto simp: advance_rung_def LADDER_ORDER_def)

lemma apply_charge_rung: "ladder_index (al_rung s) \<le> ladder_index (al_rung (apply_charge s sig act unk))"
  by (auto simp: apply_charge_def Let_def advance_rung_index split: prod.splits)

lemma exhausted_rung [simp]: "ladder_index (al_rung (exhausted_state s c)) = 3"
  by (simp add: exhausted_state_def)

lemma tombstone_written:
  "0 \<le> c \<Longrightarrow> tombstone_charged (st\<lparr>tombstone_file := File_json (tombstone_payload c)\<rparr>) = min c GLOBAL_ACTION_BOUND"
  by (simp add: tombstone_charged_def tombstone_payload_def dget_def)

lemma spend_facts:
  assumes "spend_global_allowance ok c (ow, st) = ((tot, granted), ow', st')" "tombstone_charged st \<le> c"
  shows "ledger_file st' = ledger_file st" "tombstone_charged st \<le> tombstone_charged st'"
    "granted \<Longrightarrow> tombstone_charged st < tombstone_charged st'"
  using assms tombstone_charged_range [of st]
  by (auto simp: spend_global_allowance_def Let_def tombstone_written GLOBAL_ACTION_BOUND_def split: if_splits)

lemma total_ge_tombstone: "tombstone_charged st \<le> global_charged_total ow st"
  using tombstone_charged_range [of st] by (auto simp: global_charged_total_def)

lemma persist_failure_facts:
  assumes "on_persist_failure ok charged disk (ow, st) = (s', ow', st')"
  shows "ledger_file st' = ledger_file st" "tombstone_charged st \<le> tombstone_charged st'"
    "ladder_index (al_rung charged) \<le> ladder_index (al_rung s')"
proof -
  obtain tot granted ow2 st2 where
    sp: "spend_global_allowance ok (global_charged_total (ow\<lparr>own_unknowable := True\<rparr>) st)
           (ow\<lparr>own_unknowable := True\<rparr>, st) = ((tot, granted), ow2, st2)"
    by (metis prod.exhaust)
  note f = spend_facts [OF sp total_ge_tombstone]
  show "ledger_file st' = ledger_file st" "tombstone_charged st \<le> tombstone_charged st'"
    "ladder_index (al_rung charged) \<le> ladder_index (al_rung s')"
    using assms sp f by (auto simp: on_persist_failure_def Let_def split: if_splits)
qed

lemma charge_and_persist_facts:
  assumes "charge_and_persist fl sig act unk s (ow, st) = (s', ow', st')"
    and "r \<le> ladder_index (al_rung s)" and "r \<le> effective_rung st"
  shows "r \<le> ladder_index (al_rung s') \<and> r \<le> effective_rung st' \<and> tombstone_charged st \<le> tombstone_charged st'"
proof -
  let ?b = "apply_charge s sig act unk"
  have b: "r \<le> ladder_index (al_rung ?b)" using assms(2) apply_charge_rung le_trans by blast
  consider (failed) ow1 where "on_persist_failure (persist_tombstone_ok fl) ?b s (ow1, st) = (s', ow', st')"
    | (written) "s' = ?b" "ledger_file st' = File_json (serialize_ledger (merge_monotone ?b s))"
        "tombstone_file st' = tombstone_file st"
    using assms(1) by (auto simp: charge_and_persist_def write_state_def Let_def split: if_splits)
  then show ?thesis
  proof cases
    case failed
    note f = persist_failure_facts [OF failed]
    then show ?thesis using b assms(3) effective_rung_mono [of st' st] by (meson le_trans)
  next
    case written
    then have "ladder_index (al_rung (merge_monotone ?b s)) \<le> effective_rung st'"
      by (intro effective_rung_written) auto
    moreover have "tombstone_charged st' = tombstone_charged st"
      using written(3) by (simp add: tombstone_charged_def)
    ultimately show ?thesis using b written(1) by (simp add: further_rung_index)
  qed
qed

lemma charge_never_restores:
  assumes "charge fl sig act unk (ow, st) = (s', ow', st')"
  shows "effective_rung st \<le> ladder_index (al_rung s') \<and> effective_rung st \<le> effective_rung st'
       \<and> tombstone_charged st \<le> tombstone_charged st'"
proof -
  obtain s status ow1 where l: "ledger_load ow st = (s, status, ow1)" by (metis prod.exhaust)
  let ?c = "global_charged_total ow1 st"
  let ?unk = "own_unknowable ow1 \<or> (if status = Load_fresh \<and> ?c > 0 then Load_unknowable else status) = Load_unknowable"
  consider (pinned) "s' = exhausted_state s None" "st' = st"
    | (trusted) "\<not> ?unk" "?c < GLOBAL_ACTION_BOUND" "charge_and_persist fl sig act unk s (ow1, st) = (s', ow', st')"
    | (birth) tot granted ow2 st2 where
        "spend_global_allowance (birth_tombstone_ok fl) ?c (ow1, st) = ((tot, granted), ow2, st2)"
        "\<not> granted \<longrightarrow> s' = exhausted_state s None \<and> st' = st2"
        "granted \<longrightarrow> charge_and_persist fl sig act unk (exhausted_state s (Some tot))
             (ow2, quarantine_ledger (quarantine_ok fl) st2) = (s', ow', st')"
    using assms l
    by (cases "spend_global_allowance (birth_tombstone_ok fl) ?c (ow1, st)")
       (auto simp: charge_def Let_def split: if_splits prod.splits)
  then show ?thesis
  proof cases
    case pinned
    then show ?thesis using effective_rung_le by simp
  next
    case trusted
    have "effective_rung st \<le> ladder_index (al_rung s)"
      using trusted(1, 2) l total_ge_tombstone [of st ow1]
      by (auto simp: ledger_load_def effective_rung_def Let_def payload_status_iff
          split: file_content.splits json.splits if_splits)
    then show ?thesis using charge_and_persist_facts [OF trusted(3)] by blast
  next
    case birth
    note f = spend_facts [OF birth(1) total_ge_tombstone]
    show ?thesis
    proof (cases granted)
      case False
      then show ?thesis using birth(2) f effective_rung_le effective_rung_mono by simp
    next
      case True
      let ?q = "quarantine_ledger (quarantine_ok fl) st2"
      have t: "tombstone_charged ?q = tombstone_charged st2"
        by (simp add: quarantine_ledger_def tombstone_charged_def)
      have "effective_rung st \<le> effective_rung ?q"
      proof (cases "quarantine_ok fl")
        case True
        then have "effective_rung ?q = 3"
          using f(3) \<open>granted\<close> t tombstone_charged_range [of st]
          by (simp add: effective_rung_def quarantine_ledger_def tombstone_charged_def)
        then show ?thesis using effective_rung_le by simp
      next
        case False
        then show ?thesis using f effective_rung_mono by (simp add: quarantine_ledger_def)
      qed
      then show ?thesis
        using charge_and_persist_facts [OF birth(3) [rule_format, OF True], of "effective_rung st"] f t
          effective_rung_le by simp
    qed
  qed
qed

text \<open>A history of charges; the flag of an entry restarts the owner before it.\<close>

type_synonym ledger_event = "bool \<times> ledger_faults \<times> string \<times> string \<times> bool"

definition restarted :: "ledger_owner \<Rightarrow> ledger_owner" where
  "restarted ow =
     ow\<lparr>own_global_charged := 0, own_saturated_repeats := 0, own_unknowable := False,
        own_forced_pending := False\<rparr>"

fun charge_history ::
  "ledger_event list \<Rightarrow> ledger_owner \<times> ledger_store \<Rightarrow> attempt_ledger_state list \<times> ledger_owner \<times> ledger_store" where
  "charge_history [] os = ([], os)"
| "charge_history ((restart, fl, sig, act, unk) # evs) os =
     (let (s, os1) = charge fl sig act unk (if restart then (restarted (fst os), snd os) else os);
          (states, os2) = charge_history evs os1
      in (s # states, os2))"

text \<open>
  C37: Over any history of charges, with any faults and any restarts in it, the rung the files stand
  for never goes down, no charge answers below it, and the durable count of births at the
  exhausted rung only grows and never passes its bound.
\<close>

theorem ledger_history_never_restores:
  assumes "charge_history evs (ow, st) = (states, ow', st')"
  shows "effective_rung st \<le> effective_rung st'
    \<and> (\<forall>s\<in>set states. effective_rung st \<le> ladder_index (al_rung s))
    \<and> tombstone_charged st \<le> tombstone_charged st' \<and> tombstone_charged st' \<le> GLOBAL_ACTION_BOUND"
  using assms
proof (induction evs arbitrary: ow st states)
  case Nil
  then show ?case using tombstone_charged_range by simp
next
  case (Cons ev evs)
  obtain restart fl sig act unk where ev: "ev = (restart, fl, sig, act, unk)" by (metis prod.exhaust)
  obtain s ow1 st1 states1 where
    c: "charge fl sig act unk (if restart then restarted ow else ow, st) = (s, ow1, st1)"
    and h: "charge_history evs (ow1, st1) = (states1, ow', st')" and st: "states = s # states1"
    using Cons.prems ev
    by (cases "charge fl sig act unk (if restart then restarted ow else ow, st)")
       (auto simp: Let_def split: prod.splits if_splits)
  show ?case
    using charge_never_restores [OF c] Cons.IH [OF h] st by auto
qed

definition sound_disk :: ledger_faults where
  "sound_disk =
     \<lparr>lock_acquired = True, ledger_write_ok = True, quarantine_ok = True,
      birth_tombstone_ok = True, persist_tombstone_ok = True\<rparr>"

definition first_run_owner :: ledger_owner where
  "first_run_owner =
     \<lparr>default_unknown_budget = 3, default_repeat_threshold = 2, own_global_charged = 0,
      own_saturated_repeats = 0, own_unknowable = False, own_forced_pending = False\<rparr>"

theorem ledger_history_never_restores_witness:
  "\<exists>states ow' st'. charge_history [(True, sound_disk, ''sig'', ''repair'', False)]
       (first_run_owner, \<lparr>ledger_file = File_not_json, tombstone_file = File_missing\<rparr>) = (states, ow', st')
     \<and> (\<forall>s\<in>set states. 3 \<le> ladder_index (al_rung s))"
proof -
  let ?st = "\<lparr>ledger_file = File_not_json, tombstone_file = File_missing\<rparr>"
  obtain states ow' st' where
    h: "charge_history [(True, sound_disk, ''sig'', ''repair'', False)] (first_run_owner, ?st) = (states, ow', st')"
    by (metis prod.exhaust)
  have "effective_rung ?st = 3"
    by (simp add: effective_rung_def tombstone_charged_def GLOBAL_ACTION_BOUND_def)
  then show ?thesis using ledger_history_never_restores [OF h] h by auto
qed

section \<open>A charge on sound storage\<close>

lemma charge_trusted:
  assumes "ledger_load ow st = (s, status, ow1)"
    and "status = Load_restored \<or> status = Load_fresh \<and> global_charged_total ow1 st = 0"
    and "global_charged_total ow1 st < GLOBAL_ACTION_BOUND"
    and "\<not> own_forced_pending ow" and "\<not> own_unknowable ow"
    and "lock_acquired fl" and "ledger_write_ok fl"
  shows "charge fl sig act unk (ow, st) =
     (apply_charge s sig act unk, ow1,
      st\<lparr>ledger_file := File_json (serialize_ledger (merge_monotone (apply_charge s sig act unk) s))\<rparr>)"
  using assms ledger_load_owner [of ow st]
  by (auto simp: charge_def charge_and_persist_def write_state_def Let_def)

lemma read_written:
  assumes "ledger_file st = File_json (serialize_ledger s)" and "attempt_ledger_ok s"
  shows "ledger_load ow st =
     (s\<lparr>al_ladder_evidence := sort_key fst (al_ladder_evidence s)\<rparr>, Load_restored,
      ow\<lparr>own_saturated_repeats := max (own_saturated_repeats ow) (al_saturated_repeats s),
         own_global_charged := max (own_global_charged ow) (al_global_actions_charged s)\<rparr>)"
proof -
  obtain payload where p: "serialize_ledger s = JObj payload" by (simp add: serialize_ledger_def)
  show ?thesis
    using ledger_wire_roundtrip [OF assms(2) p] assms(1) p by (simp add: ledger_load_def Let_def)
qed

text \<open>
  The documentation counts \<^emph>\<open>consecutive\<close> unknown observations; a known charge resets the
  counter in the state it returns, but the merge it writes keeps the larger, so the durable
  counter is never reset.
\<close>

lemma unknown_attempts_never_reset:
  "al_unknown_attempts (merge_monotone (apply_charge s sig act unk) s) \<ge> al_unknown_attempts s"
  by simp

lemma known_charge_leaves_unknown_budget_spent:
  assumes "al_unknown_attempts s \<ge> al_unknown_budget s" and "0 \<le> al_unknown_attempts s"
  shows "al_unknown_attempts (apply_charge s sig act False) = 0
    \<and> al_unknown_attempts (merge_monotone (apply_charge s sig act False) s)
        \<ge> al_unknown_budget (merge_monotone (apply_charge s sig act False) s)"
  using assms by (auto simp: apply_charge_def Let_def split: prod.splits)

end
