(* ===== verification/Integration_Owner.thy ===== *)
theory Integration_Owner
  imports Attempt_Ledger State_Machine
begin

text \<open>
  The single owner of integration decisions and the seam every boundary asks:
  \<^verbatim>\<open>ralph/pipeline/integration_owner.py\<close>, \<^verbatim>\<open>_integration_record_facts.py\<close>,
  \<^verbatim>\<open>_integration_owner_seam.py\<close>, \<^verbatim>\<open>_record_fact_outcome.py\<close> and the deadline arithmetic of
  \<^verbatim>\<open>auto_integrate_backoff.py\<close>.

  A decision observes (the observation of the director is an argument), reads the ledger, asks the
  table, charges the ledger and projects the answer.  Each decision builds a new ledger owner over
  the same files, as the code does.  Of the durable record only its presence and its intervention
  flag are read: \<open>None\<close> is no record, \<open>Some b\<close> a record with that flag.

  The second half follows repeated decisions on one unchanged observation: the locale \<open>settling\<close>
  turns a decreasing rank into a bound on the number of rounds, and is interpreted for the rows of
  the table.
\<close>

section \<open>Tables\<close>

datatype record_fact_outcome = Stale_intent | Diagnostic_budget_spent

fun record_fact_value :: "record_fact_outcome \<Rightarrow> string" where
  "record_fact_value Stale_intent = ''stale_intent''"
| "record_fact_value Diagnostic_budget_spent = ''diagnostic_budget_spent''"

definition MUTATION_CLASS_ACTIONS :: "next_action list" where
  "MUTATION_CLASS_ACTIONS =
     [Act_commit, Act_land, Act_reintegrate, Act_resume_owned_operation, Act_repair,
      Act_dispatch_resolver, Act_rebuild_on_target, Act_commit_via_commit_phase,
      Act_save_and_restore, Act_preserve_via_temp_index, Act_quarantine_and_restore,
      Act_rebuild_in_fresh_worktree, Act_adapt_environment_and_retry, Act_last_resort_recovery]"

fun project_integration_action :: "next_action \<Rightarrow> integration_action" where
  "project_integration_action Act_commit = Continue_git_operation"
| "project_integration_action Act_land = Land_target"
| "project_integration_action Act_reintegrate = Reintegrate_against_target"
| "project_integration_action Act_resume_owned_operation = Continue_git_operation"
| "project_integration_action Act_repair = Resolve_active_operation"
| "project_integration_action Act_dispatch_resolver = Resolve_active_operation"
| "project_integration_action Act_rebuild_on_target = Reintegrate_against_target"
| "project_integration_action Act_continue_with_integration_pending = Wait_for_bounded_retry"
| "project_integration_action Act_wait_for_environment = Wait_for_bounded_retry"
| "project_integration_action Act_commit_via_commit_phase = Continue_git_operation"
| "project_integration_action Act_save_and_restore = Continue_git_operation"
| "project_integration_action Act_preserve_via_temp_index = Continue_git_operation"
| "project_integration_action Act_quarantine_and_restore = Continue_git_operation"
| "project_integration_action Act_rebuild_in_fresh_worktree = Reintegrate_against_target"
| "project_integration_action Act_adapt_environment_and_retry = Wait_for_bounded_retry"
| "project_integration_action Act_last_resort_recovery = Continue_git_operation"

definition is_chargeable :: "next_action \<Rightarrow> bool" where
  "is_chargeable act = (act \<in> set MUTATION_CLASS_ACTIONS)"

fun ladder_rung_for_action :: "next_action \<Rightarrow> cleanup_ladder_rung option" where
  "ladder_rung_for_action Act_save_and_restore = Some Rung_normal_cleanup"
| "ladder_rung_for_action Act_preserve_via_temp_index = Some Rung_alternate_preservation"
| "ladder_rung_for_action Act_quarantine_and_restore = Some Rung_quarantine"
| "ladder_rung_for_action Act_rebuild_in_fresh_worktree = Some Rung_fresh_worktree"
| "ladder_rung_for_action Act_adapt_environment_and_retry = Some Rung_environment_degrade"
| "ladder_rung_for_action Act_last_resort_recovery = Some Rung_last_resort"
| "ladder_rung_for_action _ = None"

fun ladder_rung_for_record_fact_outcome :: "record_fact_outcome \<Rightarrow> cleanup_ladder_rung" where
  "ladder_rung_for_record_fact_outcome Stale_intent = Rung_normal_cleanup"
| "ladder_rung_for_record_fact_outcome Diagnostic_budget_spent = Rung_normal_cleanup"

section \<open>The decision\<close>

type_synonym held_record = "bool option"

record owner_decision =
  od_action :: integration_action
  od_reason :: string
  od_observation :: observation
  od_attempts :: attempt_ledger_state
  od_escalation_charged :: bool
  od_ladder_rung :: "cleanup_ladder_rung option"
  od_dirt_shape :: dirt_shape
  od_dirt_attribution :: dirt_attribution

definition to_attempt_state :: "attempt_ledger_state \<Rightarrow> attempt_state" where
  "to_attempt_state s =
     \<lparr>att_rung = al_rung s, att_repeat_counts = al_repeat_counts s,
      att_unknown_attempts = al_unknown_attempts s, att_unknown_budget = al_unknown_budget s,
      att_repeat_threshold = al_repeat_threshold s\<rparr>"

definition reconcile_record :: "observation \<Rightarrow> held_record \<Rightarrow> observation" where
  "reconcile_record ob held =
     (if held = None \<or> obs_record ob \<noteq> Rec_none then ob else ob\<lparr>obs_record := Rec_stale\<rparr>)"

definition refine_dirt_shape :: "observation \<Rightarrow> dirt_shape" where
  "refine_dirt_shape ob = wv_dirt_shape (verdict_for_state (obs_worktree ob))"

definition load_integration_attempts :: "ledger_store \<Rightarrow> int \<Rightarrow> int \<Rightarrow> attempt_state res" where
  "load_integration_attempts st budget threshold =
     rbind (new_ledger_owner budget threshold) (\<lambda>ow. Inr (to_attempt_state (ledger_read ow st)))"

definition owner_charge ::
  "ledger_faults \<Rightarrow> observation \<Rightarrow> next_action \<Rightarrow> ledger_owner \<times> ledger_store
     \<Rightarrow> (attempt_ledger_state \<times> ledger_owner \<times> ledger_store) option" where
  "owner_charge fl ob act os =
     (if act = Act_wait_for_environment
        then Some (charge fl (signature ob) (next_action_value act) True os)
      else if \<not> is_chargeable act then None
      else Some (charge fl (signature ob) (next_action_value act) False os))"

definition charge_integration_attempt ::
  "ledger_faults \<Rightarrow> observation \<Rightarrow> next_action \<Rightarrow> int \<Rightarrow> int \<Rightarrow> ledger_store
     \<Rightarrow> (attempt_ledger_state \<times> ledger_store) res" where
  "charge_integration_attempt fl ob act budget threshold st =
     rbind (new_ledger_owner budget threshold) (\<lambda>ow.
       let (s, _, ow1) = ledger_load ow st
       in Inr (case owner_charge fl ob act (ow1, st) of
                 None \<Rightarrow> (s, st)
               | Some (charged, _, st1) \<Rightarrow> (charged, st1)))"

definition owner_reason :: "observation \<Rightarrow> next_action \<Rightarrow> string \<Rightarrow> string" where
  "owner_reason ob act projected =
     ''worktree='' @ worktree_value (obs_worktree ob)
     @ '', target_vs_feature='' @ target_vs_feature_value (obs_target_vs_feature ob)
     @ '', target_vs_remote='' @ target_vs_remote_value (obs_target_vs_remote ob)
     @ '', head='' @ head_value (obs_head ob)
     @ '', in_progress='' @ in_progress_value (obs_in_progress_kind ob)
     @ ''/'' @ ownership_value (obs_in_progress_ownership ob)
     @ '', record='' @ record_state_value (obs_record ob)
     @ '', agent_active='' @ (if obs_agent_active ob then ''true'' else ''false'')
     @ '': '' @ next_action_value act @ '' -> '' @ projected"

fun integration_action_value :: "integration_action \<Rightarrow> string" where
  "integration_action_value Resolve_active_operation = ''resolve_active_operation''"
| "integration_action_value Continue_git_operation = ''continue_git_operation''"
| "integration_action_value Reintegrate_against_target = ''reintegrate_against_target''"
| "integration_action_value Land_target = ''land_target''"
| "integration_action_value Publish_after_landing = ''publish_after_landing''"
| "integration_action_value Wait_for_bounded_retry = ''wait_for_bounded_retry''"
| "integration_action_value Require_intervention = ''require_intervention''"
| "integration_action_value Complete_with_proof = ''complete_with_proof''"

definition decide_integration_verdict ::
  "ledger_faults \<Rightarrow> observation \<Rightarrow> held_record \<Rightarrow> int \<Rightarrow> int \<Rightarrow> dirt_shape option \<Rightarrow> dirt_attribution
     \<Rightarrow> ledger_store \<Rightarrow> (owner_decision \<times> ledger_store) res" where
  "decide_integration_verdict fl observed held budget threshold given_shape attribution st =
     (let current = reconcile_record observed held;
          shape = (case given_shape of Some s \<Rightarrow> s | None \<Rightarrow> refine_dirt_shape current)
      in rbind (load_integration_attempts st budget threshold) (\<lambda>attempts.
         let act = decide \<lparr>ctx_observation = current, ctx_attempts = attempts,
                           ctx_dirt_shape = shape, ctx_dirt_attribution = attribution\<rparr>;
             projected = project_integration_action act
         in rbind (charge_integration_attempt fl current act budget threshold st) (\<lambda>(charged, st1).
            Inr (\<lparr>od_action = projected,
                  od_reason = owner_reason current act (integration_action_value projected),
                  od_observation = current, od_attempts = charged,
                  od_escalation_charged = is_chargeable act,
                  od_ladder_rung = ladder_rung_for_action act,
                  od_dirt_shape = shape, od_dirt_attribution = attribution\<rparr>, st1))))"

definition decide_integration ::
  "ledger_faults \<Rightarrow> observation \<Rightarrow> held_record \<Rightarrow> int \<Rightarrow> int \<Rightarrow> ledger_store
     \<Rightarrow> ((integration_action \<times> string) \<times> ledger_store) res" where
  "decide_integration fl observed held budget threshold st =
     rbind (decide_integration_verdict fl observed held budget threshold None Dirt_unowned st)
       (\<lambda>(v, st1). Inr ((od_action v, od_reason v), st1))"

section \<open>Durable record facts and the seam\<close>

definition MAX_RETRY_DEADLINE_HORIZON_SECONDS :: real where
  "MAX_RETRY_DEADLINE_HORIZON_SECONDS = 3600"

definition RETRY_BASE_DELAY_SECONDS :: real where
  "RETRY_BASE_DELAY_SECONDS = 1 / 2"

definition RETRY_MAX_DELAY_SECONDS :: real where
  "RETRY_MAX_DELAY_SECONDS = 4"

definition retry_deadline_is_live :: "real \<Rightarrow> real \<Rightarrow> bool" where
  "retry_deadline_is_live deadline now =
     (0 < deadline - now \<and> deadline - now \<le> MAX_RETRY_DEADLINE_HORIZON_SECONDS)"

definition compute_landing_retry_delay :: "int \<Rightarrow> real option \<Rightarrow> real" where
  "compute_landing_retry_delay attempt jitter =
     (if attempt < 1 then 0
      else min (RETRY_BASE_DELAY_SECONDS * 2 ^ nat (attempt - 1)) RETRY_MAX_DELAY_SECONDS
           * (1 / 2 + 1 / 2 * (case jitter of None \<Rightarrow> 1 | Some j \<Rightarrow> j)))"

definition compute_retry_deadline :: "int \<Rightarrow> real \<Rightarrow> real option \<Rightarrow> real option \<Rightarrow> real" where
  "compute_retry_deadline attempt now cooldown jitter =
     now + min (case cooldown of Some c \<Rightarrow> c | None \<Rightarrow> compute_landing_retry_delay attempt jitter)
               MAX_RETRY_DEADLINE_HORIZON_SECONDS"

definition record_requires_intervention :: "held_record \<Rightarrow> bool" where
  "record_requires_intervention held = (held = Some True)"

definition live_git_supersedes_record :: "observation option \<Rightarrow> bool" where
  "live_git_supersedes_record mob =
     (case mob of None \<Rightarrow> False
      | Some ob \<Rightarrow>
          obs_record ob = Rec_foreign
          \<or> obs_target_vs_feature ob \<in> {TF_equal, TF_ahead} \<and> obs_worktree ob = WT_clean
            \<and> obs_in_progress_kind ob = Op_none)"

definition apply_record_facts ::
  "integration_action \<Rightarrow> held_record \<Rightarrow> bool \<Rightarrow> observation option \<Rightarrow> integration_action + record_fact_outcome" where
  "apply_record_facts act held retained mob =
     (if mob \<noteq> None \<and> live_git_supersedes_record mob then Inl act
      else if record_requires_intervention held then Inr Diagnostic_budget_spent
      else if held = None \<and> retained then Inr Stale_intent
      else Inl act)"

definition busy_refusal_outcome :: "real option \<Rightarrow> real \<Rightarrow> integration_action + record_fact_outcome" where
  "busy_refusal_outcome deadline now =
     (case deadline of None \<Rightarrow> Inr Stale_intent
      | Some d \<Rightarrow> if \<not> retry_deadline_is_live d now then Inr Stale_intent
                  else Inl Wait_for_bounded_retry)"

text \<open>The answer in the form the progression authority of \<open>State_Machine\<close> receives.\<close>

definition seam_answer :: "integration_action + record_fact_outcome \<Rightarrow> owner_answer" where
  "seam_answer a = (case a of Inl act \<Rightarrow> Owner_action act | Inr rfact \<Rightarrow> Record_fact (record_fact_value rfact))"

definition decide_seam_action ::
  "ledger_faults \<Rightarrow> observation \<Rightarrow> held_record \<Rightarrow> bool \<Rightarrow> ledger_store
     \<Rightarrow> ((integration_action + record_fact_outcome) \<times> ledger_store) res" where
  "decide_seam_action fl observed held retained st =
     rbind (decide_integration_verdict fl observed held 3 2 None Dirt_unowned st) (\<lambda>(v, st1).
       Inr (apply_record_facts (od_action v) held retained (Some (od_observation v)), st1))"

record planning_sync_verdict =
  psv_action :: integration_action
  psv_observation :: observation
  psv_worktree :: worktree_verdict
  psv_dirt_shape :: dirt_shape
  psv_in_sync :: bool
  psv_may_plan :: bool
  psv_reason :: string
  psv_ladder_rung :: "cleanup_ladder_rung option"
  psv_record_fact :: "record_fact_outcome option"

definition decide_planning_sync ::
  "ledger_faults \<Rightarrow> git_runner \<Rightarrow> observation \<Rightarrow> held_record \<Rightarrow> bool \<Rightarrow> ledger_store
     \<Rightarrow> (planning_sync_verdict \<times> ledger_store) res" where
  "decide_planning_sync fl git observed held retained st =
     rbind (decide_integration_verdict fl observed held 3 2 None Dirt_unowned st) (\<lambda>(v, st1).
     rbind (classify_worktree (Raw_porcelain (read_worktree_porcelain git)) None None) (\<lambda>worktree.
       let answer = apply_record_facts (od_action v) held retained (Some (od_observation v));
           in_sync = (obs_target_vs_feature (od_observation v) \<in> {TF_equal, TF_ahead});
           rfact = (case answer of Inl _ \<Rightarrow> None | Inr f \<Rightarrow> Some f);
           act = (case answer of Inl a \<Rightarrow> a | Inr _ \<Rightarrow> Continue_git_operation);
           rung = (case rfact of None \<Rightarrow> od_ladder_rung v
                   | Some f \<Rightarrow> Some (ladder_rung_for_record_fact_outcome f));
           may = (in_sync \<and> wv_dispatch worktree = Dispatch_allowed \<and> rfact = None);
           why = (case rfact of
                    Some f \<Rightarrow>
                      ''planning held: durable record facts cannot prove a next step (''
                      @ record_fact_value f
                      @ ''); preserving work to backup refs and escalating through cleanup-ladder rung normal_cleanup''
                  | None \<Rightarrow>
                      if may then ''planning may proceed: branch is in sync and the worktree gate allows dispatch''
                      else if \<not> in_sync
                        then ''planning held: branch does not contain the target tip (''
                             @ target_vs_feature_value (obs_target_vs_feature (od_observation v))
                             @ ''); integration will run first''
                      else ''planning held: '' @ wv_reason worktree)
       in Inr (\<lparr>psv_action = act, psv_observation = od_observation v, psv_worktree = worktree,
                psv_dirt_shape = wv_dirt_shape worktree, psv_in_sync = in_sync, psv_may_plan = may,
                psv_reason = why, psv_ladder_rung = rung, psv_record_fact = rfact\<rparr>, st1)))"

section \<open>Repeated decisions on one observation\<close>

lemma alist_eqI:
  assumes "dkeys a = dkeys b" "distinct (dkeys a)" "\<And>k. dget a k = dget b k"
  shows "a = b"
  using assms
proof (induction a arbitrary: b)
  case (Cons kv a)
  obtain k v where kv: "kv = (k, v)" by (cases kv) blast
  obtain w b' where b: "b = (k, w) # b'" using Cons.prems(1) kv by (cases b) (auto simp: dkeys_def)
  have "v = w" using Cons.prems(3) [of k] kv b by (simp add: dget_def)
  moreover have "dget a x = dget b' x" for x
  proof (cases "x = k")
    case True
    then have "x \<notin> set (dkeys a)" "x \<notin> set (dkeys b')" using Cons.prems(1, 2) kv b by (auto simp: dkeys_def)
    then show ?thesis by (simp add: din_iff [symmetric] din_def)
  next
    case False
    then show ?thesis using Cons.prems(3) [of x] kv b by (simp add: dget_def)
  qed
  ultimately show ?case using Cons.IH [of b'] Cons.prems(1, 2) kv b by (simp add: dkeys_def)
qed (simp add: dkeys_def)

lemma merge_counts_self:
  assumes "counts_ok d" "dget_or d k 0 \<le> c" "0 \<le> c"
  shows "merge_counts d (dset k c d) = dset k c d"
proof -
  have keys: "dkeys (foldl (\<lambda>a (k, c). dset k (max (dget_or a k 0) c) a) acc e)
      = dkeys acc @ filter (\<lambda>x. x \<notin> set (dkeys acc)) (dkeys e)" if "distinct (dkeys e)" for acc e :: repeat_counts
    using that
  proof (induction e arbitrary: acc)
    case (Cons kv e)
    obtain k v where kv: "kv = (k, v)" by (cases kv) blast
    let ?a = "dset k (max (dget_or acc k 0) v) acc"
    have e: "distinct (dkeys e)" "k \<notin> set (dkeys e)" "dkeys (kv # e) = k # dkeys e"
      using Cons.prems kv by (auto simp: dkeys_def)
    have "filter (\<lambda>x. x \<notin> set (dkeys ?a)) (dkeys e) = filter (\<lambda>x. x \<notin> set (dkeys acc)) (dkeys e)"
      using e(2) by (intro filter_cong) (auto simp: dkeys_dset)
    then show ?case using Cons.IH [OF e(1), of ?a] e(3) kv by (simp add: dkeys_dset din_iff)
  qed simp
  have get: "dget (foldl (\<lambda>a (k, c). dset k (max (dget_or a k 0) c) a) acc e) x
      = (case dget e x of None \<Rightarrow> dget acc x | Some v \<Rightarrow> Some (max (dget_or acc x 0) v))"
    if "distinct (dkeys e)" for acc e :: repeat_counts and x
    using that
  proof (induction e arbitrary: acc)
    case (Cons kv e)
    obtain k v where kv: "kv = (k, v)" by (cases kv) blast
    let ?a = "dset k (max (dget_or acc k 0) v) acc"
    have e: "distinct (dkeys e)" "k \<notin> set (dkeys e)" using Cons.prems kv by (auto simp: dkeys_def)
    have "x = k \<Longrightarrow> dget e x = None" using e(2) by (simp add: din_iff [symmetric] din_def)
    moreover have "dget (kv # e) x = (if x = k then Some v else dget e x)" using kv by (simp add: dget_def)
    ultimately show ?case using Cons.IH [OF e(1), of ?a] kv by (cases "x = k") (simp_all split: option.split)
  qed simp
  have d: "distinct (dkeys (dset k c d))" using assms(1) by (simp add: counts_ok_def distinct_dkeys_dset)
  show ?thesis
  proof (rule alist_eqI)
    show "dkeys (merge_counts d (dset k c d)) = dkeys (dset k c d)"
      using keys [OF d, of d] by (auto simp: merge_counts_def dkeys_dset din_iff filter_empty_conv)
    then show "distinct (dkeys (merge_counts d (dset k c d)))" using d by simp
    show "dget (merge_counts d (dset k c d)) x = dget (dset k c d) x" for x
      using get [OF d, of d x] assms(2, 3) counts_ok_dget_or [OF assms(1), of x]
      by (auto simp: merge_counts_def dget_or_def split: option.splits)
  qed
qed

lemma signature_total_dset:
  "distinct (dkeys d) \<Longrightarrow>
   signature_total sig (dset (s, a) c d) = signature_total sig d + (if s = sig then c - dget_or d (s, a) 0 else 0)"
proof (induction d)
  case Nil
  then show ?case by (simp add: dset_def)
next
  case (Cons kv d)
  obtain k v where kv: "kv = (k, v)" by (cases kv) blast
  have d: "distinct (dkeys d)" "k \<notin> set (dkeys d)" using Cons.prems kv by (auto simp: dkeys_def)
  have "k = (s, a) \<Longrightarrow> dget_or d (s, a) 0 = 0"
    using d(2) by (auto simp: din_iff [symmetric] din_def dget_or_def)
  then show ?case using Cons kv by (auto simp: dset_def dget_or_def dget_def dkeys_def)
qed

lemma signature_total_ge:
  assumes "counts_ok d"
  shows "0 \<le> signature_total sig d \<and> dget_or d (sig, a) 0 \<le> signature_total sig d"
  using assms
proof (induction d)
  case (Cons kv d)
  obtain k v where kv: "kv = (k, v)" by (cases kv) blast
  have "counts_ok d" "0 \<le> v" using Cons.prems kv by (auto simp: counts_ok_def dkeys_def)
  then show ?case using Cons.IH kv by (auto simp: dget_or_def dget_def)
qed simp

text \<open>
  The table splits into rows.  Which row applies is a matter of the observation, the dirt shape
  and its attribution; the attempt state only picks the action within the row.
\<close>

datatype decision_row =
    Row_unknown | Row_ladder | Row_direct next_action | Row_cleanup next_action | Row_fixed next_action

fun row_action :: "decision_row \<Rightarrow> observation \<Rightarrow> attempt_state \<Rightarrow> next_action" where
  "row_action Row_unknown ob a = wait_or_continue a"
| "row_action Row_ladder ob a = ladder_action_skipping_resolver (att_rung a) ob"
| "row_action (Row_direct direct) ob a = ladder_dispatch_or_direct a ob direct"
| "row_action (Row_cleanup direct) ob a =
     (case cleanup_escalation_action a ob direct of Some act \<Rightarrow> act | None \<Rightarrow> direct)"
| "row_action (Row_fixed act) ob a = act"

definition quiet_row :: "observation \<Rightarrow> decision_row" where
  "quiet_row ob =
     (if is_landed ob then Row_fixed Act_land
      else if needs_ladder ob \<or> \<not> is_target_moved ob then Row_ladder
      else Row_fixed Act_reintegrate)"

definition row_of :: "observation \<Rightarrow> dirt_shape \<Rightarrow> dirt_attribution \<Rightarrow> decision_row" where
  "row_of ob shape attribution =
     (if has_unknown ob then Row_unknown
      else if is_repairable_record ob \<and> \<not> is_landed ob then Row_ladder
      else if is_real_conflict ob then Row_direct Act_dispatch_resolver
      else if is_owned_in_progress ob then Row_direct Act_resume_owned_operation
      else if is_dirty_without_conflict ob then
        if shape = Shape_line_ending_only then quiet_row ob
        else if shape \<notin> set BLOCKING_SHAPES then Row_direct Act_commit
        else if attribution = Dirt_phase_owned then Row_cleanup Act_commit_via_commit_phase
        else Row_cleanup Act_save_and_restore
      else quiet_row ob)"

lemma quiet_row_action: "row_action (quiet_row ob) ob a = ladder_action_for ob a"
  by (simp add: quiet_row_def ladder_action_for_def)

lemma decide_row:
  "decide ctx = row_action (row_of (ctx_observation ctx) (ctx_dirt_shape ctx) (ctx_dirt_attribution ctx))
                  (ctx_observation ctx) (ctx_attempts ctx)"
  by (simp add: decide_def row_of_def decide_dirty_tree_def Let_def quiet_row_action)

text \<open>
  What one decision leaves in the ledger file on sound storage: the charge merged with what was
  there, with its evidence in key order as it is read back.
\<close>

definition durable_charge :: "observation \<Rightarrow> next_action \<Rightarrow> attempt_ledger_state \<Rightarrow> attempt_ledger_state" where
  "durable_charge ob act s =
     (if act = Act_wait_for_environment \<or> is_chargeable act
      then let m = merge_monotone (apply_charge s (signature ob) (next_action_value act)
                     (act = Act_wait_for_environment)) s
           in m\<lparr>al_ladder_evidence := sort_key fst (al_ladder_evidence m)\<rparr>
      else s)"

definition row_round :: "decision_row \<Rightarrow> observation \<Rightarrow> attempt_ledger_state \<Rightarrow> attempt_ledger_state" where
  "row_round row ob s = durable_charge ob (row_action row ob (to_attempt_state s)) s"

lemma attempt_ledger_ok_sorted:
  "attempt_ledger_ok m \<Longrightarrow> attempt_ledger_ok (m\<lparr>al_ladder_evidence := sort_key fst (al_ladder_evidence m)\<rparr>)"
  by (simp add: attempt_ledger_ok_def distinct_dkeys_sort)

lemma durable_charge_ok: "attempt_ledger_ok s \<Longrightarrow> attempt_ledger_ok (durable_charge ob act s)"
  by (auto simp: durable_charge_def Let_def intro!: attempt_ledger_ok_sorted merge_monotone_ok apply_charge_ok)

text \<open>
  Room for the counts of one observation: no entry is evicted, because there is a free slot for
  every action not yet counted under its signature.
\<close>

definition uncounted :: "observation \<Rightarrow> repeat_counts \<Rightarrow> next_action set" where
  "uncounted ob d = {act. \<not> din (signature ob, next_action_value act) d}"

definition room_for :: "observation \<Rightarrow> attempt_ledger_state \<Rightarrow> bool" where
  "room_for ob s = (length (al_repeat_counts s) + card (uncounted ob (al_repeat_counts s)) \<le> REPEAT_CAP)"

lemma next_action_UNIV:
  "(UNIV :: next_action set) =
     {Act_commit, Act_land, Act_reintegrate, Act_resume_owned_operation, Act_repair,
      Act_dispatch_resolver, Act_rebuild_on_target, Act_continue_with_integration_pending,
      Act_wait_for_environment, Act_commit_via_commit_phase, Act_save_and_restore,
      Act_preserve_via_temp_index, Act_quarantine_and_restore, Act_rebuild_in_fresh_worktree,
      Act_adapt_environment_and_retry, Act_last_resort_recovery}"
  using next_action.exhaust by blast

lemma finite_next_action: "finite (A :: next_action set)"
  by (rule finite_subset [OF subset_UNIV]) (simp add: next_action_UNIV)

lemma room_forI: "length (al_repeat_counts s) + 16 \<le> REPEAT_CAP \<Longrightarrow> room_for ob s"
proof -
  have "card (uncounted ob (al_repeat_counts s)) \<le> card (UNIV :: next_action set)"
    by (rule card_mono) (simp_all add: finite_next_action)
  also have "\<dots> \<le> 16" unfolding next_action_UNIV by (simp add: card_insert_if)
  finally show "length (al_repeat_counts s) + 16 \<le> REPEAT_CAP \<Longrightarrow> room_for ob s" by (simp add: room_for_def)
qed

definition bumped_counts :: "observation \<Rightarrow> next_action \<Rightarrow> repeat_counts \<Rightarrow> repeat_counts" where
  "bumped_counts ob act d =
     dset (signature ob, next_action_value act) (dget_or d (signature ob, next_action_value act) 0 + 1) d"

lemma bumped_room:
  assumes "room_for ob s" "length (al_repeat_counts s) \<le> REPEAT_CAP"
  shows "length (bumped_counts ob act (al_repeat_counts s)) \<le> REPEAT_CAP"
    "length (bumped_counts ob act (al_repeat_counts s))
       + card (uncounted ob (bumped_counts ob act (al_repeat_counts s))) \<le> REPEAT_CAP"
proof -
  let ?d = "al_repeat_counts s" and ?k = "(signature ob, next_action_value act)"
  let ?d' = "bumped_counts ob act ?d"
  have sub: "uncounted ob ?d' \<subseteq> uncounted ob ?d" by (auto simp: uncounted_def bumped_counts_def)
  have *: "length ?d' + card (uncounted ob ?d') \<le> length ?d + card (uncounted ob ?d)"
  proof (cases "din ?k ?d")
    case True
    then show ?thesis using card_mono [OF finite_next_action sub] by (simp add: bumped_counts_def length_dset)
  next
    case False
    have "uncounted ob ?d' \<subset> uncounted ob ?d"
      using sub False by (auto simp: uncounted_def bumped_counts_def)
    then have "card (uncounted ob ?d') < card (uncounted ob ?d)" by (rule psubset_card_mono [OF finite_next_action])
    then show ?thesis using False by (simp add: bumped_counts_def length_dset)
  qed
  show "length ?d' + card (uncounted ob ?d') \<le> REPEAT_CAP"
    using * assms(1) by (simp add: room_for_def)
  then show "length ?d' \<le> REPEAT_CAP" by simp
qed

lemma durable_charge_wait:
  assumes "attempt_ledger_ok s"
  shows "al_rung (durable_charge ob Act_wait_for_environment s) = al_rung s"
    "al_unknown_attempts (durable_charge ob Act_wait_for_environment s) = al_unknown_attempts s + 1"
    "al_unknown_budget (durable_charge ob Act_wait_for_environment s) = al_unknown_budget s"
  by (simp_all add: durable_charge_def Let_def apply_charge_def further_rung_def)

lemma durable_charge_known:
  assumes "attempt_ledger_ok s" "room_for ob s" "is_chargeable act" "act \<noteq> Act_wait_for_environment"
  shows "al_repeat_counts (durable_charge ob act s) = bumped_counts ob act (al_repeat_counts s)"
    "al_rung (durable_charge ob act s) =
       advance_rung (al_rung s) (dget_or (al_repeat_counts s) (signature ob, next_action_value act) 0 + 1)
         (al_repeat_threshold s) (signature_total (signature ob) (bumped_counts ob act (al_repeat_counts s)))"
    "al_repeat_threshold (durable_charge ob act s) = al_repeat_threshold s"
    "al_unknown_budget (durable_charge ob act s) = al_unknown_budget s"
    "al_unknown_attempts (durable_charge ob act s) = al_unknown_attempts s"
proof -
  let ?d = "al_repeat_counts s" and ?b = "bumped_counts ob act (al_repeat_counts s)"
  have c: "counts_ok ?d" "length ?d \<le> REPEAT_CAP" using assms(1) by (auto simp: attempt_ledger_ok_def)
  note l = bumped_room(1) [OF assms(2) c(2), of act]
  have k: "clamp_repeats ?b sat = (?b, sat)" for sat using clamp_repeats_small [OF l] .
  have "merge_counts ?d ?b = ?b"
    unfolding bumped_counts_def using c(1) counts_ok_dget_or [OF c(1)]
    by (intro merge_counts_self) (auto simp: add_nonneg_nonneg)
  then show "al_repeat_counts (durable_charge ob act s) = ?b"
    using assms(3, 4) k by (simp add: durable_charge_def Let_def apply_charge_def merge_monotone_def flip: bumped_counts_def)
  show "al_rung (durable_charge ob act s) =
       advance_rung (al_rung s) (dget_or ?d (signature ob, next_action_value act) 0 + 1)
         (al_repeat_threshold s) (signature_total (signature ob) ?b)"
    using assms(3, 4) k advance_rung_index
    by (simp add: durable_charge_def Let_def apply_charge_def further_rung_def flip: bumped_counts_def)
  show "al_repeat_threshold (durable_charge ob act s) = al_repeat_threshold s"
    "al_unknown_budget (durable_charge ob act s) = al_unknown_budget s"
    "al_unknown_attempts (durable_charge ob act s) = al_unknown_attempts s"
    using assms k by (simp_all add: durable_charge_def Let_def apply_charge_def merge_monotone_def
        attempt_ledger_ok_def flip: bumped_counts_def split: prod.splits)
qed

lemma next_action_value_inj [simp]: "next_action_value a = next_action_value b \<longleftrightarrow> a = b"
  by (cases a; cases b) simp_all

definition charged_count :: "observation \<Rightarrow> next_action \<Rightarrow> attempt_ledger_state \<Rightarrow> int" where
  "charged_count ob act s = dget_or (al_repeat_counts s) (signature ob, next_action_value act) 0"

definition charged_total :: "observation \<Rightarrow> attempt_ledger_state \<Rightarrow> int" where
  "charged_total ob s = signature_total (signature ob) (al_repeat_counts s)"

lemma charged_bounds:
  assumes "attempt_ledger_ok s"
  shows "0 \<le> charged_count ob act s" "charged_count ob act s \<le> charged_total ob s"
  using assms counts_ok_dget_or signature_total_ge
  by (auto simp: charged_count_def charged_total_def attempt_ledger_ok_def)

lemma charged_step:
  assumes "attempt_ledger_ok s" "room_for ob s" "is_chargeable act" "act \<noteq> Act_wait_for_environment"
  shows "charged_count ob act' (durable_charge ob act s) = charged_count ob act' s + (if act' = act then 1 else 0)"
    "charged_total ob (durable_charge ob act s) = charged_total ob s + 1"
    "al_rung (durable_charge ob act s) =
       (if al_rung s = Esc_continue_with_integration_pending \<or> charged_count ob act s + 1 < al_repeat_threshold s
           \<or> charged_total ob s + 1 < 2 then al_rung s else next_rung (al_rung s))"
proof -
  have d: "distinct (dkeys (al_repeat_counts s))" using assms(1) by (simp add: attempt_ledger_ok_def counts_ok_def)
  note t = signature_total_dset [OF d]
  show "charged_count ob act' (durable_charge ob act s) = charged_count ob act' s + (if act' = act then 1 else 0)"
    by (simp add: charged_count_def durable_charge_known(1) [OF assms] bumped_counts_def)
  show "charged_total ob (durable_charge ob act s) = charged_total ob s + 1"
    by (simp add: charged_total_def durable_charge_known(1) [OF assms] bumped_counts_def t)
  show "al_rung (durable_charge ob act s) =
       (if al_rung s = Esc_continue_with_integration_pending \<or> charged_count ob act s + 1 < al_repeat_threshold s
           \<or> charged_total ob s + 1 < 2 then al_rung s else next_rung (al_rung s))"
    unfolding durable_charge_known(2) [OF assms]
    by (cases "al_rung s")
       (simp_all add: advance_rung_def charged_count_def charged_total_def bumped_counts_def t
         MIN_SIGNATURE_ATTEMPTS_FOR_ESCALATION_def LADDER_ORDER_def)
qed

lemma merge_counts_same: "counts_ok d \<Longrightarrow> merge_counts d d = d"
proof (cases d)
  case (Cons kv rest)
  moreover assume "counts_ok d"
  moreover have "dset (fst kv) (snd kv) d = d" "dget_or d (fst kv) 0 = snd kv"
    using Cons by (cases kv; simp add: dset_def dget_or_def dget_def)+
  ultimately show ?thesis using merge_counts_self [of d "fst kv" "snd kv"] by (auto simp: counts_ok_def)
qed (simp add: merge_counts_def)

lemma charge_keeps:
  assumes "attempt_ledger_ok s" "room_for ob s"
  shows "al_repeat_threshold (durable_charge ob act s) = al_repeat_threshold s"
    "al_unknown_budget (durable_charge ob act s) = al_unknown_budget s"
    "room_for ob (durable_charge ob act s)"
proof -
  have l: "length (al_repeat_counts s) \<le> REPEAT_CAP" and c: "counts_ok (al_repeat_counts s)"
    using assms(1) by (auto simp: attempt_ledger_ok_def)
  show "al_repeat_threshold (durable_charge ob act s) = al_repeat_threshold s"
    "al_unknown_budget (durable_charge ob act s) = al_unknown_budget s"
    by (auto simp: durable_charge_def Let_def apply_charge_def merge_monotone_def split: prod.splits)
  consider "act = Act_wait_for_environment" | "act \<noteq> Act_wait_for_environment" "is_chargeable act"
    | "act \<noteq> Act_wait_for_environment" "\<not> is_chargeable act" by blast
  then show "room_for ob (durable_charge ob act s)"
  proof cases
    case 2
    then show ?thesis
      using bumped_room(2) [OF assms(2) l] durable_charge_known(1) [OF assms 2(2, 1)] by (simp add: room_for_def)
  qed (use assms(2) merge_counts_same [OF c] clamp_repeats_small [OF l] in
     \<open>simp_all add: durable_charge_def Let_def apply_charge_def merge_monotone_def room_for_def\<close>)
qed

subsection \<open>Settling\<close>

text \<open>A step that lowers a rank until it is zero and keeps an invariant.\<close>

locale settling =
  fixes step :: "'s \<Rightarrow> 's" and rank :: "'s \<Rightarrow> nat" and inv :: "'s \<Rightarrow> bool"
  assumes step_inv: "inv s \<Longrightarrow> inv (step s)"
    and step_rank: "inv s \<Longrightarrow> rank (step s) \<le> rank s - 1"
begin

lemma iterate_inv: "inv s \<Longrightarrow> inv ((step ^^ n) s)"
  by (induction n) (auto intro: step_inv)

lemma iterate_rank: "inv s \<Longrightarrow> rank ((step ^^ n) s) \<le> rank s - n"
proof (induction n)
  case (Suc n)
  have "rank (step ((step ^^ n) s)) \<le> rank ((step ^^ n) s) - 1" by (rule step_rank) (rule iterate_inv [OF Suc.prems])
  then show ?case using Suc by simp
qed simp

lemma settled: "inv s \<Longrightarrow> rank s \<le> n \<Longrightarrow> rank ((step ^^ n) s) = 0"
  using iterate_rank [of s n] by simp

end

text \<open>
  The rank of a row counts the rounds it still has: up to its budget for the unknown row, the
  charges up to the last rung for the ladder row, the direct dispatches and the one rebuild rung
  for a direct row, the direct dispatches and the cleanup rungs for a cleanup row.
\<close>

fun row_rank :: "decision_row \<Rightarrow> observation \<Rightarrow> attempt_ledger_state \<Rightarrow> nat" where
  "row_rank Row_unknown ob s = nat (al_unknown_budget s - al_unknown_attempts s)"
| "row_rank Row_ladder ob s =
     (let m = max (al_repeat_threshold s) 2
      in if al_rung s = Esc_continue_with_integration_pending then 0
         else nat ((3 - int (ladder_index (al_rung s))) * m
                   - min (m - 1) (charged_count ob (ladder_action_skipping_resolver (al_rung s) ob) s)))"
| "row_rank (Row_direct direct) ob s =
     nat (al_repeat_threshold s - charged_count ob direct s)
     + (if al_rung s = Esc_repair
        then 1 + nat (al_repeat_threshold s - 1 - charged_count ob Act_rebuild_on_target s) else 0)"
| "row_rank (Row_cleanup direct) ob s =
     nat (al_repeat_threshold s - charged_count ob direct s)
     + nat (al_repeat_threshold s + 4 - charged_total ob s)"
| "row_rank (Row_fixed act) ob s = 0"

fun row_ok :: "decision_row \<Rightarrow> bool" where
  "row_ok (Row_direct direct) =
     (direct \<in> {Act_dispatch_resolver, Act_resume_owned_operation, Act_commit})"
| "row_ok (Row_cleanup direct) = (direct \<in> {Act_commit_via_commit_phase, Act_save_and_restore})"
| "row_ok (Row_fixed act) = (act \<in> {Act_land, Act_reintegrate})"
| "row_ok _ = True"

definition row_inv :: "decision_row \<Rightarrow> observation \<Rightarrow> attempt_ledger_state \<Rightarrow> bool" where
  "row_inv row ob s = (attempt_ledger_ok s \<and> room_for ob s \<and> row_ok row)"

lemma row_of_ok: "row_ok (row_of ob shape attribution)"
  by (simp add: row_of_def quiet_row_def)

lemma row_inv_step: "row_inv row ob s \<Longrightarrow> row_inv row ob (row_round row ob s)"
  by (simp add: row_inv_def row_round_def durable_charge_ok charge_keeps)

lemma pressure_iff:
  assumes "attempt_ledger_ok s"
  shows "under_pressure (to_attempt_state s) ob direct \<longleftrightarrow> al_repeat_threshold s \<le> charged_count ob direct s"
  using assms charged_bounds [OF assms, of ob direct]
  by (auto simp: under_pressure_def repeat_pressure_def to_attempt_state_def repeat_count_for_def
      signature_attempts_def key_pair_def charged_count_def charged_total_def attempt_ledger_ok_def
      MIN_SIGNATURE_ATTEMPTS_FOR_ESCALATION_def)

lemma rank_unknown:
  assumes "row_inv Row_unknown ob s"
  shows "row_rank Row_unknown ob (row_round Row_unknown ob s) \<le> row_rank Row_unknown ob s - 1"
  using assms durable_charge_wait [of s ob]
  by (auto simp: row_inv_def row_round_def wait_or_continue_def unknown_budget_exhausted_def to_attempt_state_def
      durable_charge_def is_chargeable_def MUTATION_CLASS_ACTIONS_def)

lemma rank_direct:
  assumes "row_inv (Row_direct direct) ob s"
  shows "row_rank (Row_direct direct) ob (row_round (Row_direct direct) ob s) \<le> row_rank (Row_direct direct) ob s - 1"
proof -
  let ?s' = "row_round (Row_direct direct) ob s"
  have ok: "attempt_ledger_ok s" "room_for ob s" and t: "1 \<le> al_repeat_threshold s"
    and dir: "direct \<in> {Act_dispatch_resolver, Act_resume_owned_operation, Act_commit}"
    using assms by (auto simp: row_inv_def attempt_ledger_ok_def)
  have ch: "is_chargeable direct" "is_chargeable Act_rebuild_on_target" "direct \<noteq> Act_wait_for_environment"
    "direct \<noteq> Act_rebuild_on_target"
    using dir by (auto simp: is_chargeable_def MUTATION_CLASS_ACTIONS_def)
  have b: "0 \<le> charged_count ob a s" "charged_count ob a s \<le> charged_total ob s" for a using charged_bounds [OF ok(1)] .
  note p = pressure_iff [OF ok(1), of ob direct]
  consider (early) "charged_count ob direct s < al_repeat_threshold s" "?s' = durable_charge ob direct s"
    | (rebuild) "al_repeat_threshold s \<le> charged_count ob direct s" "al_rung s = Esc_repair"
        "?s' = durable_charge ob Act_rebuild_on_target s"
    | (calm) "al_repeat_threshold s \<le> charged_count ob direct s" "al_rung s \<noteq> Esc_repair"
        "?s' = durable_charge ob Act_continue_with_integration_pending s"
    using p by (cases "al_repeat_threshold s \<le> charged_count ob direct s"; cases "al_rung s = Esc_repair")
      (auto simp: row_round_def ladder_dispatch_or_direct_def escalated_action, auto simp: to_attempt_state_def)
  then show ?thesis
  proof cases
    case early
    note c = charged_step [OF ok ch(1, 3)] charge_keeps(1) [OF ok, of direct]
    show ?thesis using early(1) ch(4) c(1) [of direct] c(1) [of Act_rebuild_on_target] c(3, 4)
      unfolding early(2) by (cases "al_rung s") auto
  next
    case rebuild
    have w: "Act_rebuild_on_target \<noteq> Act_wait_for_environment" by simp
    note c = charged_step [OF ok ch(2) w] charge_keeps(1) [OF ok, of Act_rebuild_on_target]
    show ?thesis using rebuild(1, 2) ch(4) t b [of direct] c(1) [of direct] c(1) [of Act_rebuild_on_target] c(3, 4)
      unfolding rebuild(3) by auto
  next
    case calm
    then show ?thesis by (simp add: durable_charge_def is_chargeable_def MUTATION_CLASS_ACTIONS_def)
  qed
qed

lemma cleanup_row_action:
  assumes "attempt_ledger_ok s"
  shows "row_action (Row_cleanup direct) ob (to_attempt_state s) =
     (if charged_count ob direct s < al_repeat_threshold s then direct
      else cleanup_action_for (CLEANUP_LADDER_ORDER ! nat (max 0 (min (charged_total ob s - al_repeat_threshold s) 4) + 1)))"
  using pressure_iff [OF assms, of ob direct]
  by (simp add: cleanup_escalation_action_def Let_def CLEANUP_LADDER_ORDER_def)
     (simp add: to_attempt_state_def signature_attempts_def charged_total_def)

lemma cleanup_chargeable:
  "is_chargeable (cleanup_action_for r)" "cleanup_action_for r \<noteq> Act_wait_for_environment"
  by (cases r; simp add: is_chargeable_def MUTATION_CLASS_ACTIONS_def)+

lemma rank_cleanup:
  assumes "row_inv (Row_cleanup direct) ob s"
  shows "row_rank (Row_cleanup direct) ob (row_round (Row_cleanup direct) ob s) \<le> row_rank (Row_cleanup direct) ob s - 1"
proof -
  let ?act = "row_action (Row_cleanup direct) ob (to_attempt_state s)"
  have ok: "attempt_ledger_ok s" "room_for ob s" and dir: "direct \<in> {Act_commit_via_commit_phase, Act_save_and_restore}"
    using assms by (auto simp: row_inv_def)
  have ch: "is_chargeable ?act" "?act \<noteq> Act_wait_for_environment"
    using dir cleanup_chargeable unfolding cleanup_row_action [OF ok(1)]
    by (auto simp: is_chargeable_def MUTATION_CLASS_ACTIONS_def)
  note c = charged_step [OF ok ch] charge_keeps(1) [OF ok, of ?act]
  have "charged_count ob direct s < al_repeat_threshold s \<Longrightarrow> ?act = direct"
    by (simp only: cleanup_row_action [OF ok(1)] if_True)
  then show ?thesis
    using c(1) [of direct] c(2, 4)
    by (cases "charged_count ob direct s < al_repeat_threshold s") (simp_all add: row_round_def del: row_action.simps)
qed

lemma rank_ladder:
  assumes "row_inv Row_ladder ob s"
  shows "row_rank Row_ladder ob (row_round Row_ladder ob s) \<le> row_rank Row_ladder ob s - 1"
proof (cases "al_rung s = Esc_continue_with_integration_pending")
  case True
  then show ?thesis
    by (simp add: row_round_def to_attempt_state_def ladder_action_skipping_resolver_def durable_charge_def
        is_chargeable_def MUTATION_CLASS_ACTIONS_def)
next
  case False
  let ?act = "ladder_action_skipping_resolver (al_rung s) ob" and ?m = "max (al_repeat_threshold s) 2"
  let ?s' = "durable_charge ob ?act s"
  have ok: "attempt_ledger_ok s" "room_for ob s" using assms by (auto simp: row_inv_def)
  have ch: "is_chargeable ?act" "?act \<noteq> Act_wait_for_environment"
    using False by (cases "al_rung s";
      simp add: ladder_action_skipping_resolver_def Let_def is_chargeable_def MUTATION_CLASS_ACTIONS_def)+
  note c = charged_step [OF ok ch] charge_keeps(1) [OF ok, of ?act]
  note b = charged_bounds [OF ok(1), of ob ?act]
  have step: "row_round Row_ladder ob s = ?s'" by (simp add: row_round_def to_attempt_state_def)
  have now: "row_rank Row_ladder ob s
      = nat ((3 - int (ladder_index (al_rung s))) * ?m - min (?m - 1) (charged_count ob ?act s))"
    using False by (simp add: Let_def)
  have upper: "row_rank Row_ladder ob ?s' \<le> nat ((3 - int (ladder_index (al_rung ?s'))) * ?m)"
    using c(4) charged_bounds(1) [OF durable_charge_ok [OF ok(1)], of ob]
    by (auto simp: Let_def intro!: nat_mono)
  have idx: "ladder_index (al_rung s) \<le> 2" using False by (cases "al_rung s") auto
  show ?thesis
  proof (cases "al_rung ?s' = al_rung s")
    case True
    then have "charged_count ob ?act s + 1 < ?m"
      using c(3) False b by (cases "al_rung s") (auto split: if_splits)
    moreover have "row_rank Row_ladder ob ?s'
      = nat ((3 - int (ladder_index (al_rung s))) * ?m - min (?m - 1) (charged_count ob ?act s + 1))"
      using True False c(1) [of ?act] c(4) by (simp add: Let_def)
    moreover have "nat (x - min (?m - 1) (k + 1)) \<le> nat (x - min (?m - 1) k) - 1" if "0 \<le> k" "k + 1 < ?m" for x k
      using that by simp
    ultimately show ?thesis unfolding step now using b(1) by simp
  next
    case moved: False
    then have "al_rung ?s' = next_rung (al_rung s)" using c(3) by (simp split: if_splits)
    then have "ladder_index (al_rung ?s') = ladder_index (al_rung s) + 1" using False by (cases "al_rung s") auto
    then have eq: "(3 - int (ladder_index (al_rung ?s'))) * ?m = (3 - int (ladder_index (al_rung s))) * ?m - ?m"
      by (simp add: algebra_simps)
    have "nat (x - ?m) \<le> nat (x - min (?m - 1) k) - 1" for x k by simp
    then show ?thesis unfolding step now by (intro order_trans [OF upper]) (simp only: eq)
  qed
qed

lemma rank_step:
  assumes "row_inv row ob s"
  shows "row_rank row ob (row_round row ob s) \<le> row_rank row ob s - 1"
  using assms rank_unknown rank_direct rank_cleanup rank_ladder by (cases row) auto

interpretation rows: settling "row_round row ob" "row_rank row ob" "row_inv row ob" for row ob
  by unfold_locales (rule row_inv_step, assumption, rule rank_step)

definition settled_actions :: "next_action list" where
  "settled_actions =
     [Act_land, Act_reintegrate, Act_continue_with_integration_pending, Act_last_resort_recovery]"

lemma rank_zero_settled:
  assumes "row_inv row ob s" "row_rank row ob s = 0"
  shows "row_action row ob (to_attempt_state s) \<in> set settled_actions"
proof -
  have ok: "attempt_ledger_ok s" and row: "row_ok row" and t: "1 \<le> al_repeat_threshold s"
    using assms(1) by (auto simp: row_inv_def attempt_ledger_ok_def)
  show ?thesis
  proof (cases row)
    case Row_unknown
    then show ?thesis using assms(2)
      by (simp add: wait_or_continue_def unknown_budget_exhausted_def to_attempt_state_def settled_actions_def)
  next
    case Row_ladder
    have "al_rung s = Esc_continue_with_integration_pending"
      using assms(2) Row_ladder by (cases "al_rung s") (auto simp: Let_def min_def split: if_splits)
    then show ?thesis
      using Row_ladder by (simp add: to_attempt_state_def ladder_action_skipping_resolver_def settled_actions_def)
  next
    case (Row_direct direct)
    then show ?thesis using assms(2) pressure_iff [OF ok, of ob direct]
      by (auto simp: ladder_dispatch_or_direct_def escalated_action settled_actions_def to_attempt_state_def split: if_splits)
  next
    case (Row_cleanup direct)
    then have "charged_count ob direct s \<ge> al_repeat_threshold s" "charged_total ob s - al_repeat_threshold s \<ge> 4"
      using assms(2) by auto
    then show ?thesis unfolding Row_cleanup cleanup_row_action [OF ok]
      by (simp add: CLEANUP_LADDER_ORDER_def settled_actions_def)
  next
    case (Row_fixed act)
    then show ?thesis using row by (auto simp: settled_actions_def)
  qed
qed

lemma row_rank_bound:
  assumes "row_inv row ob s"
  shows "int (row_rank row ob s) \<le> 3 * max (al_repeat_threshold s) 2 + 4 + al_unknown_budget s"
proof -
  have ok: "attempt_ledger_ok s" using assms by (simp add: row_inv_def)
  then have n: "1 \<le> al_repeat_threshold s" "1 \<le> al_unknown_budget s" "0 \<le> al_unknown_attempts s"
    by (auto simp: attempt_ledger_ok_def)
  have b: "0 \<le> charged_count ob a s" "0 \<le> charged_total ob s" for a
    using charged_bounds [OF ok, of ob a] by auto
  show ?thesis
  proof (cases row)
    case Row_ladder
    have "(3 - int (ladder_index (al_rung s))) * max (al_repeat_threshold s) 2 \<le> 3 * max (al_repeat_threshold s) 2"
      by (intro mult_right_mono) auto
    moreover have "int (row_rank row ob s) \<le> max 0 ((3 - int (ladder_index (al_rung s))) * max (al_repeat_threshold s) 2)"
      using n b(1) [of "ladder_action_skipping_resolver (al_rung s) ob"] Row_ladder by (auto simp: Let_def)
    ultimately show ?thesis using n by linarith
  next
    case (Row_direct direct)
    then show ?thesis using n b(1) [of direct] b(1) [of Act_rebuild_on_target] by (auto simp: max_def)
  next
    case (Row_cleanup direct)
    then show ?thesis using n b(1) [of direct] b(2) by (auto simp: max_def)
  qed (use n in \<open>auto simp: max_def\<close>)
qed

subsection \<open>Decisions on sound storage\<close>

text \<open>The ledger file holds state \<open>s\<close> and the global allowance is not spent.\<close>

definition stores :: "attempt_ledger_state \<Rightarrow> ledger_store \<Rightarrow> bool" where
  "stores s st =
     (ledger_file st = File_json (serialize_ledger s) \<and> attempt_ledger_ok s
      \<and> sorted (map fst (al_ladder_evidence s))
      \<and> tombstone_charged st < GLOBAL_ACTION_BOUND \<and> al_global_actions_charged s < GLOBAL_ACTION_BOUND)"

lemma stores_load:
  assumes "stores s st"
  shows "ledger_load ow st =
     (s, Load_restored,
      ow\<lparr>own_saturated_repeats := max (own_saturated_repeats ow) (al_saturated_repeats s),
         own_global_charged := max (own_global_charged ow) (al_global_actions_charged s)\<rparr>)"
proof -
  have "sort_key fst (al_ladder_evidence s) = al_ladder_evidence s"
    using assms by (intro sort_key_id_if_sorted) (simp add: stores_def)
  then show ?thesis using read_written [of st s ow] assms by (simp add: stores_def)
qed

lemma serialize_sorted:
  "serialize_ledger (m\<lparr>al_ladder_evidence := sort_key fst (al_ladder_evidence m)\<rparr>) = serialize_ledger m"
  by (simp add: serialize_ledger_def sort_key_id_if_sorted)

lemma stores_charge:
  assumes "stores s st" "lock_acquired fl" "ledger_write_ok fl" "new_ledger_owner budget threshold = Inr ow"
  shows "\<exists>charged st'. charge_integration_attempt fl ob act budget threshold st = Inr (charged, st')
           \<and> stores (durable_charge ob act s) st'"
proof (cases "act = Act_wait_for_environment \<or> is_chargeable act")
  case False
  then show ?thesis
    using assms stores_load [OF assms(1)]
    by (simp add: charge_integration_attempt_def owner_charge_def durable_charge_def)
next
  case True
  let ?ow1 = "snd (snd (ledger_load ow st))"
  let ?c = "apply_charge s (signature ob) (next_action_value act) (act = Act_wait_for_environment)"
  let ?m = "merge_monotone ?c s"
  let ?st' = "st\<lparr>ledger_file := File_json (serialize_ledger ?m)\<rparr>"
  have ow: "own_global_charged ow = 0" "own_unknowable ow = False" "own_forced_pending ow = False"
    using assms(4) by (auto simp: new_ledger_owner_def split: if_splits)
  have ok: "attempt_ledger_ok s" using assms(1) by (simp add: stores_def)
  have g: "0 \<le> al_global_actions_charged s" "al_global_actions_charged s < GLOBAL_ACTION_BOUND"
    "tombstone_charged st < GLOBAL_ACTION_BOUND" "al_global_actions_charged ?c = al_global_actions_charged s"
    using assms(1) ok by (auto simp: stores_def attempt_ledger_ok_def apply_charge_def Let_def split: prod.splits)
  have "charge fl (signature ob) (next_action_value act) (act = Act_wait_for_environment) (?ow1, st)
      = (?c, snd (snd (ledger_load ?ow1 st)), ?st')"
    by (rule charge_trusted [where status = Load_restored])
       (use assms g ow in \<open>simp_all add: stores_load [OF assms(1)] global_charged_total_def\<close>)
  then have "charge_integration_attempt fl ob act budget threshold st = Inr (?c, ?st')"
    using True assms(4) by (auto simp: charge_integration_attempt_def owner_charge_def stores_load [OF assms(1)])
  moreover have "stores (durable_charge ob act s) ?st'"
    using True g durable_charge_ok [OF ok, of ob act] assms(1)
    by (auto simp: stores_def durable_charge_def Let_def serialize_sorted tombstone_charged_def merge_monotone_def
        split: prod.splits)
  ultimately show ?thesis by blast
qed

text \<open>Consecutive decisions on one unchanged observation.\<close>

fun decision_sequence ::
  "nat \<Rightarrow> ledger_faults \<Rightarrow> observation \<Rightarrow> held_record \<Rightarrow> int \<Rightarrow> int \<Rightarrow> dirt_shape option \<Rightarrow> dirt_attribution
     \<Rightarrow> ledger_store \<Rightarrow> (owner_decision list \<times> ledger_store) res" where
  "decision_sequence 0 fl ob held budget threshold shape attribution st = Inr ([], st)"
| "decision_sequence (Suc n) fl ob held budget threshold shape attribution st =
     rbind (decide_integration_verdict fl ob held budget threshold shape attribution st) (\<lambda>(v, st1).
     rbind (decision_sequence n fl ob held budget threshold shape attribution st1) (\<lambda>(vs, st2).
       Inr (v # vs, st2)))"

definition decided_row :: "observation \<Rightarrow> dirt_shape option \<Rightarrow> dirt_attribution \<Rightarrow> decision_row" where
  "decided_row ob shape attribution =
     row_of ob (case shape of Some sh \<Rightarrow> sh | None \<Rightarrow> refine_dirt_shape ob) attribution"

definition answers :: "owner_decision \<Rightarrow> next_action \<Rightarrow> bool" where
  "answers v act =
     (od_action v = project_integration_action act \<and> od_ladder_rung v = ladder_rung_for_action act
      \<and> od_reason v = owner_reason (od_observation v) act (integration_action_value (project_integration_action act)))"

lemma verdict_on_sound_storage:
  assumes "stores s st" "lock_acquired fl" "ledger_write_ok fl" "1 \<le> budget" "1 \<le> threshold"
    and cur: "reconcile_record ob held = cur"
  shows "\<exists>v st'. decide_integration_verdict fl ob held budget threshold shape attribution st = Inr (v, st')
     \<and> answers v (row_action (decided_row cur shape attribution) cur (to_attempt_state s))
     \<and> od_observation v = cur \<and> stores (row_round (decided_row cur shape attribution) cur s) st'"
proof -
  obtain ow where ow: "new_ledger_owner budget threshold = Inr ow"
    using assms(4, 5) by (simp add: new_ledger_owner_def)
  let ?act = "row_action (decided_row cur shape attribution) cur (to_attempt_state s)"
  obtain charged st' where c: "charge_integration_attempt fl cur ?act budget threshold st = Inr (charged, st')"
    "stores (durable_charge cur ?act s) st'"
    using stores_charge [OF assms(1-3) ow] by blast
  have a: "load_integration_attempts st budget threshold = Inr (to_attempt_state s)"
    using ow by (simp add: load_integration_attempts_def ledger_read_def stores_load [OF assms(1)])
  show ?thesis
    using c by (simp add: decide_integration_verdict_def Let_def a decide_row answers_def row_round_def
        cur flip: decided_row_def)
qed

lemma decision_sequence_sound:
  assumes "stores s st" "lock_acquired fl" "ledger_write_ok fl" "1 \<le> budget" "1 \<le> threshold"
    and cur: "reconcile_record ob held = cur" and row: "decided_row cur shape attribution = row"
  shows "\<exists>vs st'. decision_sequence n fl ob held budget threshold shape attribution st = Inr (vs, st')
     \<and> stores ((row_round row cur ^^ n) s) st'
     \<and> map (\<lambda>i. answers (vs ! i) (row_action row cur (to_attempt_state ((row_round row cur ^^ i) s)))) [0..<n]
         = replicate n True \<and> length vs = n"
  using assms(1)
proof (induction n arbitrary: s st)
  case (Suc n)
  obtain v st1 where v: "decide_integration_verdict fl ob held budget threshold shape attribution st = Inr (v, st1)"
    "answers v (row_action row cur (to_attempt_state s))" "stores (row_round row cur s) st1"
    using verdict_on_sound_storage [OF Suc.prems assms(2-5) cur, of shape attribution] row by auto
  obtain vs st' where r: "decision_sequence n fl ob held budget threshold shape attribution st1 = Inr (vs, st')"
    "stores ((row_round row cur ^^ n) (row_round row cur s)) st'" "length vs = n"
    "map (\<lambda>i. answers (vs ! i) (row_action row cur (to_attempt_state ((row_round row cur ^^ i) (row_round row cur s)))))
       [0..<n] = replicate n True"
    using Suc.IH [OF v(3)] by blast
  have "[0..<Suc n] = 0 # map Suc [0..<n]" by (simp add: upt_conv_Cons map_Suc_upt)
  then show ?case
    using v r by (simp add: funpow_swap1 comp_def)
qed simp

section \<open>Contracts of the owner\<close>

text \<open>
  C7: The owner converges.  On sound storage with room for the counts of the observation, repeated
  decisions on one unchanged observation all return, and after at most
  \<open>3 * max threshold 2 + 4 + budget\<close> of them every further one answers with one of the settled
  actions: land, re-integrate, continue with integration pending, or the last-resort rung.
\<close>

theorem owner_converges:
  assumes "stores s st" "lock_acquired fl" "ledger_write_ok fl" "1 \<le> budget" "1 \<le> threshold"
    and "length (al_repeat_counts s) + 16 \<le> REPEAT_CAP"
    and "3 * max (al_repeat_threshold s) 2 + 4 + al_unknown_budget s \<le> int n"
  shows "\<exists>vs v st' act. decision_sequence (Suc n) fl ob held budget threshold shape attribution st = Inr (vs @ [v], st')
     \<and> length vs = n \<and> answers v act \<and> act \<in> set settled_actions"
proof -
  let ?cur = "reconcile_record ob held"
  let ?row = "decided_row ?cur shape attribution"
  let ?s = "\<lambda>i. (row_round ?row ?cur ^^ i) s"
  have inv: "row_inv ?row ?cur s"
    using assms(1, 6) by (simp add: row_inv_def stores_def room_forI decided_row_def row_of_ok)
  obtain vs st' where d: "decision_sequence (Suc n) fl ob held budget threshold shape attribution st = Inr (vs, st')"
    and a: "map (\<lambda>i. answers (vs ! i) (row_action ?row ?cur (to_attempt_state (?s i)))) [0..<Suc n]
              = replicate (Suc n) True" and l: "length vs = Suc n"
    using decision_sequence_sound [OF assms(1-5) refl refl, of "Suc n" ob held shape attribution] by blast
  have last: "answers (vs ! n) (row_action ?row ?cur (to_attempt_state (?s n)))"
    using arg_cong [OF a, of "\<lambda>xs. xs ! n"] by (simp del: upt_Suc replicate_Suc)
  have "row_rank ?row ?cur (?s n) = 0"
    using row_rank_bound [OF inv] assms(7) by (intro rows.settled [OF inv]) linarith
  then have "row_action ?row ?cur (to_attempt_state (?s n)) \<in> set settled_actions"
    by (intro rank_zero_settled rows.iterate_inv inv)
  moreover have "take n vs @ [vs ! n] = vs" "length (take n vs) = n"
    using l by (simp_all add: take_Suc_conv_app_nth [symmetric])
  ultimately show ?thesis
    using d last by (intro exI [of _ "take n vs"] exI [of _ "vs ! n"] exI [of _ st'] exI) auto
qed

definition fresh_ledger_store :: ledger_store where
  "fresh_ledger_store =
     \<lparr>ledger_file = File_json (serialize_ledger (default_ledger_state first_run_owner)),
      tombstone_file = File_missing\<rparr>"

lemma fresh_stores: "stores (default_ledger_state first_run_owner) fresh_ledger_store"
proof -
  have "attempt_ledger_ok (default_ledger_state first_run_owner)"
    by (rule default_ledger_state_ok) (simp add: owner_ok_def first_run_owner_def)
  then show ?thesis
    by (simp add: stores_def fresh_ledger_store_def tombstone_charged_def GLOBAL_ACTION_BOUND_def)
       (simp add: default_ledger_state_def)
qed

theorem owner_converges_witness:
  "\<exists>vs v st' act. decision_sequence 14 sound_disk conflict_observation None 3 2 None Dirt_unowned fresh_ledger_store
       = Inr (vs @ [v], st') \<and> length vs = 13 \<and> answers v act \<and> act \<in> set settled_actions"
  using owner_converges [OF fresh_stores, of sound_disk 3 2 13 conflict_observation None None Dirt_unowned]
  by (simp add: sound_disk_def default_ledger_state_def first_run_owner_def REPEAT_CAP_def eval_nat_numeral)

lemma projected_blocks: "project_integration_action act \<in> set blocking_actions"
  by (cases act) (simp_all add: blocking_actions_def)

text \<open>
  A held durable record always blocks progression, whatever the owner answers: even an answer that
  keeps the integration pending projects to the bounded retry, which is a blocking action.
\<close>

theorem held_record_always_blocks:
  "decide_seam_action fl ob held retained st = Inr (answer, st') \<Longrightarrow>
   check_blocking_decision True r (Some (seam_answer answer)) = Some Block_for_recovery"
  using projected_blocks
  by (auto simp: decide_seam_action_def decide_integration_verdict_def rbind_def apply_record_facts_def seam_answer_def
      check_blocking_decision_def owner_action_def Let_def split: sum.splits if_splits prod.splits)

theorem held_record_always_blocks_witness:
  "\<exists>answer st'. decide_seam_action sound_disk conflict_observation None False fresh_ledger_store = Inr (answer, st')
     \<and> check_blocking_decision True new_rebase_state (Some (seam_answer answer)) = Some Block_for_recovery"
proof -
  have "case decide_seam_action sound_disk conflict_observation None False fresh_ledger_store of
      Inl _ \<Rightarrow> False | Inr _ \<Rightarrow> True" by code_simp
  then obtain answer st' where
    a: "decide_seam_action sound_disk conflict_observation None False fresh_ledger_store = Inr (answer, st')"
    by (auto split: sum.splits)
  from held_record_always_blocks [OF a] a show ?thesis by blast
qed

text \<open>The live observation releases a durable claim while a reading is still unknown.\<close>

lemma unknown_reading_supersedes:
  "has_unknown (stale_clean_observation\<lparr>obs_target_vs_feature := TF_equal, obs_target_vs_remote := TR_unknown\<rparr>)
   \<and> live_git_supersedes_record
       (Some (stale_clean_observation\<lparr>obs_target_vs_feature := TF_equal, obs_target_vs_remote := TR_unknown\<rparr>))"
  by code_simp

text \<open>
  With a threshold of at least two, the default, a conflict or an owned operation that starts from
  an uncharged ledger never reaches the rebuild rung: the charge that brings the direct action
  under pressure also advances the rung, and the escalation stride then skips to the pending rung.
\<close>

definition skips_rebuild :: "next_action \<Rightarrow> observation \<Rightarrow> attempt_ledger_state \<Rightarrow> bool" where
  "skips_rebuild direct ob s =
     (row_inv (Row_direct direct) ob s \<and> 2 \<le> al_repeat_threshold s
      \<and> (al_repeat_threshold s \<le> charged_count ob direct s \<longrightarrow> al_rung s \<noteq> Esc_repair))"

lemma skips_rebuild_step:
  assumes "skips_rebuild direct ob s"
  shows "row_action (Row_direct direct) ob (to_attempt_state s) \<in> {direct, Act_continue_with_integration_pending}
       \<and> skips_rebuild direct ob (row_round (Row_direct direct) ob s)"
proof -
  have inv: "row_inv (Row_direct direct) ob s" and t: "2 \<le> al_repeat_threshold s"
    and ok: "attempt_ledger_ok s" "room_for ob s" and ch: "is_chargeable direct" "direct \<noteq> Act_wait_for_environment"
    using assms by (auto simp: skips_rebuild_def row_inv_def is_chargeable_def MUTATION_CLASS_ACTIONS_def)
  note p = pressure_iff [OF ok(1), of ob direct] and c = charged_step [OF ok ch] charge_keeps(1) [OF ok, of direct]
  note b = charged_bounds [OF ok(1), of ob direct]
  show ?thesis
  proof (cases "al_repeat_threshold s \<le> charged_count ob direct s")
    case True
    then have act: "row_action (Row_direct direct) ob (to_attempt_state s) = Act_continue_with_integration_pending"
      using p assms by (simp add: ladder_dispatch_or_direct_def escalated_action skips_rebuild_def)
         (simp add: to_attempt_state_def)
    then have "row_round (Row_direct direct) ob s = s"
      by (simp add: row_round_def durable_charge_def is_chargeable_def MUTATION_CLASS_ACTIONS_def del: row_action.simps)
    then show ?thesis using act assms by simp
  next
    case False
    then have act: "row_action (Row_direct direct) ob (to_attempt_state s) = direct"
      using p by (simp add: ladder_dispatch_or_direct_def)
    have "al_rung (durable_charge ob direct s) = Esc_repair \<Longrightarrow> charged_count ob direct s + 1 < al_repeat_threshold s"
      using c(3) t b by (cases "al_rung s") (auto split: if_splits)
    moreover have "row_round (Row_direct direct) ob s = durable_charge ob direct s"
      by (simp only: row_round_def act)
    ultimately show ?thesis
      using act c(1) [of direct] c(4) t row_inv_step [OF inv] by (auto simp: skips_rebuild_def simp del: row_action.simps)
  qed
qed

lemma rebuild_rung_unreachable:
  assumes "row_inv (Row_direct direct) ob s" "2 \<le> al_repeat_threshold s" "charged_count ob direct s = 0"
  shows "row_action (Row_direct direct) ob (to_attempt_state ((row_round (Row_direct direct) ob ^^ n) s))
           \<in> {direct, Act_continue_with_integration_pending}"
proof -
  have "skips_rebuild direct ob ((row_round (Row_direct direct) ob ^^ n) s)"
    using assms by (induction n) (auto simp: skips_rebuild_step, simp add: skips_rebuild_def)
  then show ?thesis using skips_rebuild_step by blast
qed

text \<open>
  When neither the ledger nor the tombstone can be written, the owner built for each decision
  forgets the previous one and the resolver is dispatched every time.
\<close>

definition broken_disk :: ledger_faults where
  "broken_disk =
     \<lparr>lock_acquired = True, ledger_write_ok = False, quarantine_ok = False,
      birth_tombstone_ok = False, persist_tombstone_ok = False\<rparr>"

lemma unwritable_disk_dispatches_forever:
  "\<exists>vs. decision_sequence n broken_disk conflict_observation None 3 2 None Dirt_unowned fresh_ledger_store
          = Inr (vs, fresh_ledger_store) \<and> map od_action vs = replicate n Resolve_active_operation"
proof (induction n)
  case (Suc n)
  have a: "load_integration_attempts fresh_ledger_store 3 2 = Inr (to_attempt_state (default_ledger_state first_run_owner))"
    by (simp add: load_integration_attempts_def new_ledger_owner_def ledger_read_def stores_load [OF fresh_stores])
  have d: "decide \<lparr>ctx_observation = conflict_observation,
      ctx_attempts = to_attempt_state (default_ledger_state first_run_owner),
      ctx_dirt_shape = refine_dirt_shape conflict_observation, ctx_dirt_attribution = Dirt_unowned\<rparr> = Act_dispatch_resolver"
    by code_simp
  have c: "\<exists>charged. charge_integration_attempt broken_disk conflict_observation Act_dispatch_resolver 3 2 fresh_ledger_store
      = Inr (charged, fresh_ledger_store)"
    by (simp add: charge_integration_attempt_def new_ledger_owner_def owner_charge_def is_chargeable_def
        MUTATION_CLASS_ACTIONS_def charge_def charge_and_persist_def write_state_def on_persist_failure_def
        spend_global_allowance_def broken_disk_def stores_load [OF fresh_stores] Let_def split: prod.splits)
  have r: "reconcile_record conflict_observation None = conflict_observation" by (simp add: reconcile_record_def)
  obtain v where v: "od_action v = Resolve_active_operation"
    "decide_integration_verdict broken_disk conflict_observation None 3 2 None Dirt_unowned fresh_ledger_store
       = Inr (v, fresh_ledger_store)"
    using c by (fastforce simp: decide_integration_verdict_def Let_def a d r)
  then show ?case using Suc by auto
qed simp

text \<open>The retry deadline: a bounded delay that is live when it is armed.\<close>

lemma landing_delay_bounds:
  assumes "\<forall>j. jitter = Some j \<longrightarrow> 0 \<le> j \<and> j \<le> 1"
  shows "0 \<le> compute_landing_retry_delay attempt jitter"
    "compute_landing_retry_delay attempt jitter \<le> RETRY_MAX_DELAY_SECONDS"
proof -
  let ?b = "min (RETRY_BASE_DELAY_SECONDS * 2 ^ nat (attempt - 1)) RETRY_MAX_DELAY_SECONDS"
  let ?f = "1 / 2 + 1 / 2 * (case jitter of None \<Rightarrow> 1 | Some j \<Rightarrow> j)"
  have b: "0 \<le> ?b" "?b \<le> RETRY_MAX_DELAY_SECONDS" by (auto simp: RETRY_BASE_DELAY_SECONDS_def RETRY_MAX_DELAY_SECONDS_def)
  have f: "0 \<le> ?f" "?f \<le> 1" using assms by (auto split: option.split)
  have "?b * ?f \<le> ?b * 1" using b f by (intro mult_left_mono) auto
  then show "compute_landing_retry_delay attempt jitter \<le> RETRY_MAX_DELAY_SECONDS"
    using b by (auto simp: compute_landing_retry_delay_def RETRY_MAX_DELAY_SECONDS_def)
  show "0 \<le> compute_landing_retry_delay attempt jitter"
    using mult_nonneg_nonneg [OF b(1) f(1)] by (auto simp: compute_landing_retry_delay_def)
qed

text \<open>
  A deadline computed for a positive attempt, or from a positive cooldown, is live at the moment
  it is computed, so a refusal that carries it answers with the bounded retry.
\<close>

theorem retry_deadline_live:
  assumes "1 \<le> attempt" and "\<forall>j. jitter = Some j \<longrightarrow> 0 \<le> j \<and> j \<le> 1" and "\<forall>c. cooldown = Some c \<longrightarrow> 0 < c"
  shows "retry_deadline_is_live (compute_retry_deadline attempt now cooldown jitter) now
    \<and> busy_refusal_outcome (Some (compute_retry_deadline attempt now cooldown jitter)) now = Inl Wait_for_bounded_retry"
proof -
  have "0 < compute_landing_retry_delay attempt jitter"
    using assms(1, 2) by (auto simp: compute_landing_retry_delay_def RETRY_BASE_DELAY_SECONDS_def
        RETRY_MAX_DELAY_SECONDS_def intro!: mult_pos_pos add_pos_nonneg split: option.split)
  then have "retry_deadline_is_live (compute_retry_deadline attempt now cooldown jitter) now"
    using assms(3) by (auto simp: retry_deadline_is_live_def compute_retry_deadline_def
        MAX_RETRY_DEADLINE_HORIZON_SECONDS_def split: option.split)
  then show ?thesis by (simp add: busy_refusal_outcome_def)
qed

theorem retry_deadline_live_witness:
  "retry_deadline_is_live (compute_retry_deadline 3 100 None (Some (1 / 2))) 100"
  using retry_deadline_live [of 3 "Some (1 / 2)" None 100] by simp

end
