(* ===== verification/Integration_Ladder.thy ===== *)
theory Integration_Ladder
  imports Integration_Owner
begin

text \<open>
  The executors of the cleanup ladder: \<^verbatim>\<open>ralph/pipeline/_integration_ladder_evidence.py\<close>,
  \<^verbatim>\<open>_integration_ladder_seams.py\<close>, \<^verbatim>\<open>integration_ladder.py\<close>, and their two callers
  \<^verbatim>\<open>execute_planning_ladder_rung\<close> of \<^verbatim>\<open>_integration_owner_seam.py\<close> and
  \<^verbatim>\<open>escalate_record_fact_outcome\<close> of \<^verbatim>\<open>_integration_diagnostic_handoff.py\<close>.

  The git, filesystem, environment and clock seams are protocols: their answers are the fields of
  \<open>ladder_seams\<close>, arbitrary functions of the operations performed so far (with their arguments).  A rung runs in the world
  \<open>ladder_world\<close>, which keeps the ledger files and the trace of operations, and either returns or
  raises (a ledger write or the sidecar directory may fail with an \<^verbatim>\<open>OSError\<close>); the effects up to
  the raise stay in the world.

  The lemmas compose trace predicates over the sequencing of the rungs (the collection \<open>emits\<close>),
  and show which rungs may discard work, when the hard reset runs and what was recorded before it.
\<close>

named_theorems emits_intro

section \<open>Vocabulary of the seams\<close>

datatype ladder_outcome = Lad_succeeded | Lad_failed | Lad_impossible | Lad_waiting

datatype land_result = Land_landed | Land_landed_already | Land_tip_unreadable
  | Land_target_unreadable | Land_target_moved | Land_update_failed

fun land_value :: "land_result \<Rightarrow> string" where
  "land_value Land_landed = ''landed''"
| "land_value Land_landed_already = ''landed-already''"
| "land_value Land_tip_unreadable = ''tip-unreadable''"
| "land_value Land_target_unreadable = ''target-unreadable''"
| "land_value Land_target_moved = ''target-moved''"
| "land_value Land_update_failed = ''update-failed''"

datatype repoint_result = Repoint_repointed | Repoint_worktree_missing | Repoint_head_moved
  | Repoint_head_unreadable | Repoint_tip_unreadable | Repoint_reset_failed

fun repoint_value :: "repoint_result \<Rightarrow> string" where
  "repoint_value Repoint_repointed = ''repointed''"
| "repoint_value Repoint_worktree_missing = ''worktree-missing''"
| "repoint_value Repoint_head_moved = ''head-moved''"
| "repoint_value Repoint_head_unreadable = ''head-unreadable''"
| "repoint_value Repoint_tip_unreadable = ''tip-unreadable''"
| "repoint_value Repoint_reset_failed = ''reset-failed''"

datatype environment_failure = Env_read_only_fs | Env_disk_full | Env_safe_directory
  | Env_missing_gitdir | Env_remote_down

fun environment_failure_value :: "environment_failure \<Rightarrow> string" where
  "environment_failure_value Env_read_only_fs = ''read_only_fs''"
| "environment_failure_value Env_disk_full = ''disk_full''"
| "environment_failure_value Env_safe_directory = ''safe_directory''"
| "environment_failure_value Env_missing_gitdir = ''missing_gitdir''"
| "environment_failure_value Env_remote_down = ''remote_down''"

datatype ladder_op =
    Op_evidence string string
  | Op_changed_paths | Op_head_sha | Op_target_sha string
  | Op_commit_dirt string "string option" | Op_ref_is_readable string
  | Op_prune_landed_refs | Op_write_patch "string list" string | Op_archive_paths "string list" string
  | Op_restore_tree_to_head | Op_abort_operation in_progress_kind | Op_remove_operation_state in_progress_kind
  | Op_reset_hard string | Op_clean_untracked "string list" | Op_remove_stale_locks
  | Op_recreate_worktree string | Op_set_safe_directory | Op_repair_gitdir
  | Op_create_worktree string string | Op_apply_preserved string string
  | Op_land_in_worktree string string string | Op_repoint_original string "string option"
  | Op_rename_into_quarantine string string | Op_prune_artifacts string | Op_path_is_readable string
  | Op_alternative_state_dir | Op_failure_class string | Op_mkdir string | Op_sleep nat | Op_observe
  | Op_remind string

type_synonym ladder_trace = "ladder_op list"

record ladder_seams =
  sm_evidence_write_ok :: "ladder_trace \<Rightarrow> bool"
  sm_changed_paths :: "ladder_trace \<Rightarrow> string list option"
  sm_head_sha :: "ladder_trace \<Rightarrow> string option"
  sm_target_sha :: "ladder_trace \<Rightarrow> string \<Rightarrow> string option"
  sm_commit_dirt :: "ladder_trace \<Rightarrow> string option"
  sm_ref_is_readable :: "ladder_trace \<Rightarrow> string \<Rightarrow> bool"
  sm_prune_landed_refs :: "ladder_trace \<Rightarrow> string list"
  sm_write_patch :: "ladder_trace \<Rightarrow> bool"
  sm_archive_paths :: "ladder_trace \<Rightarrow> bool"
  sm_restore_tree :: "ladder_trace \<Rightarrow> bool"
  sm_abort_operation :: "ladder_trace \<Rightarrow> bool"
  sm_remove_operation_state :: "ladder_trace \<Rightarrow> bool"
  sm_reset_hard :: "ladder_trace \<Rightarrow> bool"
  sm_clean_untracked :: "ladder_trace \<Rightarrow> bool"
  sm_remove_stale_locks :: "ladder_trace \<Rightarrow> string list"
  sm_recreate_worktree :: "ladder_trace \<Rightarrow> bool"
  sm_set_safe_directory :: "ladder_trace \<Rightarrow> bool"
  sm_repair_gitdir :: "ladder_trace \<Rightarrow> bool"
  sm_create_worktree :: "ladder_trace \<Rightarrow> bool"
  sm_apply_preserved :: "ladder_trace \<Rightarrow> bool"
  sm_land_in_worktree :: "ladder_trace \<Rightarrow> land_result"
  sm_repoint_original :: "ladder_trace \<Rightarrow> repoint_result"
  sm_rename_into_quarantine :: "ladder_trace \<Rightarrow> string \<Rightarrow> string option"
  sm_prune_artifacts :: "ladder_trace \<Rightarrow> string list"
  sm_path_is_readable :: "ladder_trace \<Rightarrow> string \<Rightarrow> bool"
  sm_alternative_state_dir :: "ladder_trace \<Rightarrow> string option"
  sm_failure_class :: "ladder_trace \<Rightarrow> environment_failure option"
  sm_mkdir_ok :: "ladder_trace \<Rightarrow> bool"
  sm_now :: "ladder_trace \<Rightarrow> real"
  sm_observe :: "(ladder_trace \<Rightarrow> string) option"
  sm_sha256_hex :: "string \<Rightarrow> string"

record ladder_world =
  lw_store :: ledger_store
  lw_owner :: ledger_owner
  lw_trace :: ladder_trace
  lw_reminded_at :: "(string, real) pydict"

type_synonym 'a ladder = "ladder_world \<Rightarrow> 'a res \<times> ladder_world"

definition lret :: "'a \<Rightarrow> 'a ladder" where
  "lret x = (\<lambda>w. (Inr x, w))"

definition lbind :: "'a ladder \<Rightarrow> ('a \<Rightarrow> 'b ladder) \<Rightarrow> 'b ladder" where
  "lbind m f = (\<lambda>w. case m w of (Inl e, w1) \<Rightarrow> (Inl e, w1) | (Inr x, w1) \<Rightarrow> f x w1)"

text \<open>One seam call: its answer depends on the operations up to and including it.\<close>

definition call :: "ladder_op \<Rightarrow> (ladder_trace \<Rightarrow> 'a) \<Rightarrow> 'a ladder" where
  "call op answer = (\<lambda>w. let tr = lw_trace w @ [op] in (Inr (answer tr), w\<lparr>lw_trace := tr\<rparr>))"

definition make_dir :: "ladder_seams \<Rightarrow> string \<Rightarrow> unit ladder" where
  "make_dir sm dir = (\<lambda>w.
     (if sm_mkdir_ok sm (lw_trace w) then Inr () else Inl (OSError dir),
      w\<lparr>lw_trace := lw_trace w @ [Op_mkdir dir]\<rparr>))"

section \<open>Evidence\<close>

definition BACKOFF_BASE_SECONDS :: nat where
  "BACKOFF_BASE_SECONDS = 1"

definition BACKOFF_CAP_SECONDS :: nat where
  "BACKOFF_CAP_SECONDS = 60"

definition TERMINAL_PREFIXES :: "string list" where
  "TERMINAL_PREFIXES = [''succeeded'', ''failed'', ''impossible'']"

definition RUNG_ACTION_VALUE :: "cleanup_ladder_rung \<Rightarrow> string" where
  "RUNG_ACTION_VALUE r = next_action_value (cleanup_action_for r)"

definition LADDER_ACTION_VALUES :: "string list" where
  "LADDER_ACTION_VALUES = map RUNG_ACTION_VALUE CLEANUP_LADDER_ORDER"

definition ledger_read_op :: "attempt_ledger_state ladder" where
  "ledger_read_op = (\<lambda>w. let (s, _, ow) = ledger_load (lw_owner w) (lw_store w) in (Inr s, w\<lparr>lw_owner := ow\<rparr>))"

definition ledger_persist_op :: "ladder_seams \<Rightarrow> string \<Rightarrow> string \<Rightarrow> attempt_ledger_state \<Rightarrow> unit ladder" where
  "ledger_persist_op sm key val s = (\<lambda>w.
     case ledger_persist (sm_evidence_write_ok sm (lw_trace w)) s (lw_owner w, lw_store w) of
       Inl e \<Rightarrow> (Inl e, w)
     | Inr (ow, st) \<Rightarrow>
         (Inr (), w\<lparr>lw_owner := ow, lw_store := st, lw_trace := lw_trace w @ [Op_evidence key val]\<rparr>))"

definition record_evidence :: "ladder_seams \<Rightarrow> string \<Rightarrow> string \<Rightarrow> unit ladder" where
  "record_evidence sm key val =
     lbind ledger_read_op (\<lambda>s.
       ledger_persist_op sm key val (s\<lparr>al_ladder_evidence := dset key val (al_ladder_evidence s)\<rparr>))"

definition rung_key :: "cleanup_ladder_rung \<Rightarrow> string" where
  "rung_key r = ''rung:'' @ RUNG_ACTION_VALUE r"

definition is_terminal :: "string option \<Rightarrow> bool" where
  "is_terminal v = (case v of None \<Rightarrow> False | Some s \<Rightarrow> list_ex (starts_with s) TERMINAL_PREFIXES)"

text \<open>A delay is printed as a float: \<^verbatim>\<open>60.0\<close>.\<close>

definition delay_text :: "nat \<Rightarrow> string" where
  "delay_text d = str_nat d @ ''.0''"

definition rung_attempt_satisfied :: "string option \<Rightarrow> bool" where
  "rung_attempt_satisfied v =
     (if is_terminal v then True
      else case v of
             None \<Rightarrow> False
           | Some s \<Rightarrow> starts_with s ''waiting:'' \<and> contains_str s (''delay='' @ delay_text BACKOFF_CAP_SECONDS))"

section \<open>Ledger queries\<close>

definition LADDER_ATTEMPT_BUDGET :: int where
  "LADDER_ATTEMPT_BUDGET = 16"

definition LAST_RESORT_PRECONDITIONS :: "string list" where
  "LAST_RESORT_PRECONDITIONS =
     [''rungs_1_to_5_tried_or_shown_impossible'', ''salvage_resolver_agent_tried'',
      ''salvage_rebase_first_ladder_retried'', ''salvage_fresh_worktree_rebuild_tried'',
      ''ladder_attempt_budget_spent'', ''fresh_reobservation_confirms_blocking_state'']"

definition LAST_RESORT_DISABLED_NO_SIGNATURE :: string where
  "LAST_RESORT_DISABLED_NO_SIGNATURE = ''failed:disabled:no-blocking-signature''"

definition SALVAGE_KINDS :: "string list" where
  "SALVAGE_KINDS = [''resolver_agent'', ''rebase_first_retry'', ''fresh_worktree_rebuild'']"

record ladder_step_result =
  ls_rung :: cleanup_ladder_rung
  ls_outcome :: ladder_outcome
  ls_reason :: string
  ls_preserved_ref :: "string option"
  ls_preserved_sidecar :: "string option"
  ls_quarantined_paths :: "string list"
  ls_next_rung :: "cleanup_ladder_rung option"
  ls_evidence :: "string dict"

definition step_result :: "cleanup_ladder_rung \<Rightarrow> ladder_outcome \<Rightarrow> string \<Rightarrow> string dict \<Rightarrow> ladder_step_result" where
  "step_result r outcome reason evidence =
     \<lparr>ls_rung = r, ls_outcome = outcome, ls_reason = reason, ls_preserved_ref = None,
      ls_preserved_sidecar = None, ls_quarantined_paths = [], ls_next_rung = None, ls_evidence = evidence\<rparr>"

definition ladder_charge_count :: "attempt_ledger_state \<Rightarrow> int" where
  "ladder_charge_count s =
     foldl (\<lambda>tot ((_, act), count). if act \<in> set LADDER_ACTION_VALUES then tot + count else tot)
       (al_saturated_repeats s) (al_repeat_counts s)"

definition record_salvage_attempt :: "ladder_seams \<Rightarrow> string \<Rightarrow> string \<Rightarrow> unit ladder" where
  "record_salvage_attempt sm kind outcome =
     (if kind \<notin> set SALVAGE_KINDS then (\<lambda>w. (Inl (ValueError (''unknown salvage kind: '' @ quoted kind)), w))
      else record_evidence sm (''salvage:'' @ kind) outcome)"

definition resume_rung :: "attempt_ledger_state \<Rightarrow> cleanup_ladder_rung option" where
  "resume_rung s =
     List.find (\<lambda>r. dget (al_ladder_evidence s) (rung_key r) \<in> {None, Some ''intent''}) CLEANUP_LADDER_ORDER"

definition evaluate_last_resort_preconditions ::
  "attempt_ledger_state \<Rightarrow> string \<Rightarrow> string \<Rightarrow> int \<Rightarrow> string dict" where
  "evaluate_last_resort_preconditions s decided fresh budget =
     (let ev = al_ladder_evidence s;
          first_five = butlast CLEANUP_LADDER_ORDER;
          report = join_str ''; '' (map (\<lambda>r. RUNG_ACTION_VALUE r @ ''=''
                     @ or_else (dget ev (rung_key r)) ''never-tried'') first_five);
          rungs_met = list_all (\<lambda>r. rung_attempt_satisfied (dget ev (rung_key r))) first_five;
          salvage = (\<lambda>kind.
             let v = dget ev (''salvage:'' @ kind)
             in if is_terminal v then ''met: salvage:'' @ kind @ ''='' @ str_opt v
                else ''unmet: salvage:'' @ kind @ ''='' @ or_else v ''never-tried'');
          spent = ladder_charge_count s
      in zip LAST_RESORT_PRECONDITIONS
           [if rungs_met then ''met: rungs 1-5 each terminal ('' @ report @ '')'' else ''unmet: '' @ report,
            salvage ''resolver_agent'', salvage ''rebase_first_retry'', salvage ''fresh_worktree_rebuild'',
            if spent \<ge> budget then ''met: '' @ str_int spent @ '' charges >= budget '' @ str_int budget
              else ''unmet: '' @ str_int spent @ '' charges < budget '' @ str_int budget,
            if decided \<noteq> [] \<and> fresh = decided
              then ''met: re-observation within the current tick matches the blocking signature''
              else ''unmet: fresh signature '' @ quoted fresh @ '' != blocking '' @ quoted decided])"

section \<open>The rungs\<close>

text \<open>Record an outcome and return.\<close>

definition conclude ::
  "ladder_seams \<Rightarrow> cleanup_ladder_rung \<Rightarrow> ladder_outcome \<Rightarrow> string \<Rightarrow> ladder_step_result ladder" where
  "conclude sm r outcome val =
     lbind (record_evidence sm (rung_key r) val) (\<lambda>_. lret (step_result r outcome val [(rung_key r, val)]))"

text \<open>\<^verbatim>\<open>state_dir.parent\<close> of a path.\<close>

definition path_parent :: "string \<Rightarrow> string" where
  "path_parent p =
     (let parts = split_on (CHR ''/'') p
      in if length parts = 1 then ''.''
         else if butlast parts = [[]] then ''/'' else join_str ''/'' (butlast parts))"

text \<open>The patch and the archive of the sidecar: written, then both read back.\<close>

definition sidecar_copies :: "ladder_seams \<Rightarrow> string list \<Rightarrow> string \<Rightarrow> string \<Rightarrow> ladder_step_result ladder" where
  "sidecar_copies sm dirt patch tar =
     lbind (call (Op_write_patch dirt patch) (sm_write_patch sm)) (\<lambda>patch_ok.
     lbind (call (Op_archive_paths dirt tar) (sm_archive_paths sm)) (\<lambda>tar_ok.
     lbind (if patch_ok \<and> tar_ok
            then lbind (call (Op_path_is_readable patch) (\<lambda>tr. sm_path_is_readable sm tr patch)) (\<lambda>a.
                 if a then call (Op_path_is_readable tar) (\<lambda>tr. sm_path_is_readable sm tr tar) else lret False)
            else lret False) (\<lambda>verified.
     if verified then
       lbind (record_evidence sm (rung_key Rung_alternate_preservation) (''succeeded:sidecar='' @ patch)) (\<lambda>_.
       lbind (record_evidence sm ''preserved:alternate_preservation'' patch) (\<lambda>_.
       lret ((step_result Rung_alternate_preservation Lad_succeeded (''succeeded:sidecar='' @ patch)
                [(rung_key Rung_alternate_preservation, ''succeeded:sidecar='' @ patch)])
              \<lparr>ls_preserved_sidecar := Some patch\<rparr>)))
     else conclude sm Rung_alternate_preservation Lad_failed ''failed:no-durable-copy'')))"

definition write_sidecar ::
  "ladder_seams \<Rightarrow> string \<Rightarrow> bool \<Rightarrow> string list \<Rightarrow> string option \<Rightarrow> ladder_step_result ladder" where
  "write_sidecar sm state_dir has_landed dirt head =
     lbind (call (Op_prune_artifacts state_dir) (sm_prune_artifacts sm)) (\<lambda>_.
     lbind (if has_landed then lbind (call Op_prune_landed_refs (sm_prune_landed_refs sm)) (\<lambda>_. lret ()) else lret ()) (\<lambda>_.
     let dir = state_dir @ ''/preserved''
     in lbind (make_dir sm dir) (\<lambda>_.
     let digest = sm_sha256_hex sm (join_str [CHR 0x00] dirt);
         token = take 12 digest @ ''-'' @ (case head of None \<Rightarrow> ''nohead''
                    | Some h \<Rightarrow> if h = [] then ''nohead'' else take 8 h)
     in sidecar_copies sm dirt (dir @ ''/'' @ token @ ''.patch'') (dir @ ''/'' @ token @ ''.tar''))))"

definition preserve_via_temp_index ::
  "ladder_seams \<Rightarrow> string \<Rightarrow> string option \<Rightarrow> bool \<Rightarrow> ladder_step_result ladder" where
  "preserve_via_temp_index sm state_dir owning has_landed =
     lbind (record_evidence sm (rung_key Rung_alternate_preservation) ''intent'') (\<lambda>_.
     lbind (call Op_changed_paths (sm_changed_paths sm)) (\<lambda>changed.
     case changed of
       None \<Rightarrow> conclude sm Rung_alternate_preservation Lad_failed ''failed:changed-paths-unreadable''
     | Some [] \<Rightarrow> conclude sm Rung_alternate_preservation Lad_succeeded ''succeeded:nothing-to-preserve''
     | Some dirt \<Rightarrow>
         lbind (call Op_head_sha (sm_head_sha sm)) (\<lambda>head.
         lbind (case head of
                  None \<Rightarrow> lret None
                | Some h \<Rightarrow>
                    lbind (call (Op_commit_dirt h owning) (sm_commit_dirt sm)) (\<lambda>made.
                    case made of
                      None \<Rightarrow> lret None
                    | Some ref \<Rightarrow>
                        lbind (call (Op_ref_is_readable ref) (\<lambda>tr. sm_ref_is_readable sm tr ref)) (\<lambda>readable.
                        lret (if readable then Some ref else None)))) (\<lambda>kept.
         case kept of
           Some ref \<Rightarrow>
             lbind (record_evidence sm (rung_key Rung_alternate_preservation) (''succeeded:ref='' @ ref)) (\<lambda>_.
             lbind (record_evidence sm ''preserved:alternate_preservation'' ref) (\<lambda>_.
             lret ((step_result Rung_alternate_preservation Lad_succeeded (''succeeded:ref='' @ ref)
                      [(rung_key Rung_alternate_preservation, ''succeeded:ref='' @ ref)])
                    \<lparr>ls_preserved_ref := Some ref\<rparr>)))
         | None \<Rightarrow> write_sidecar sm state_dir has_landed dirt head))))"

text \<open>The loop of rung 3: the paths moved so far, and the path whose rename failed, if any.\<close>

fun quarantine_loop ::
  "ladder_seams \<Rightarrow> string \<Rightarrow> string list \<Rightarrow> string list \<Rightarrow> (string list \<times> string option) ladder" where
  "quarantine_loop sm dir moved [] = lret (moved, None)"
| "quarantine_loop sm dir moved (p # ps) =
     lbind (call (Op_rename_into_quarantine dir p) (\<lambda>tr. sm_rename_into_quarantine sm tr p)) (\<lambda>dest.
     case dest of
       None \<Rightarrow> lret (moved, Some p)
     | Some d \<Rightarrow> quarantine_loop sm dir (moved @ [d]) ps)"

text \<open>A reading of the clock, which is not an operation of the trace.\<close>

definition clock_now :: "ladder_seams \<Rightarrow> real ladder" where
  "clock_now sm = (\<lambda>w. (Inr (sm_now sm (lw_trace w)), w))"

definition quarantine_and_restore :: "ladder_seams \<Rightarrow> string \<Rightarrow> string list \<Rightarrow> ladder_step_result ladder" where
  "quarantine_and_restore sm state_dir dirt =
     lbind (record_evidence sm (rung_key Rung_quarantine) ''intent'') (\<lambda>_.
     lbind (clock_now sm) (\<lambda>now.
     let dir = state_dir @ ''/quarantine/tick-'' @ fmt_0f now
     in lbind (quarantine_loop sm dir [] dirt) (\<lambda>(moved, stuck).
     case stuck of
       Some p \<Rightarrow>
         lbind (conclude sm Rung_quarantine Lad_impossible (''impossible:rename-failed:'' @ p)) (\<lambda>res.
         lret (res\<lparr>ls_quarantined_paths := moved, ls_next_rung := Some Rung_fresh_worktree\<rparr>))
     | None \<Rightarrow>
         lbind (call Op_restore_tree_to_head (sm_restore_tree sm)) (\<lambda>restored.
         if \<not> restored then
           lbind (conclude sm Rung_quarantine Lad_failed ''failed:restore-tree-to-head'') (\<lambda>res.
           lret (res\<lparr>ls_quarantined_paths := moved\<rparr>))
         else
           lbind (conclude sm Rung_quarantine Lad_succeeded
                    (''succeeded:quarantined='' @ str_nat (length moved) @ ''-paths'')) (\<lambda>res.
           lbind (record_evidence sm ''preserved:quarantine'' dir) (\<lambda>_.
           lret (res\<lparr>ls_quarantined_paths := moved\<rparr>)))))))"

text \<open>Rung 4 once the fresh worktree holds the work: land with compare-and-swap, then repoint.\<close>

definition land_from_fresh ::
  "ladder_seams \<Rightarrow> string \<Rightarrow> string \<Rightarrow> string \<Rightarrow> string option \<Rightarrow> ladder_step_result ladder" where
  "land_from_fresh sm fresh target sha original_head =
     lbind (call (Op_land_in_worktree fresh target sha) (sm_land_in_worktree sm)) (\<lambda>land.
     if land = Land_target_moved
       then conclude sm Rung_fresh_worktree Lad_failed ''failed:land:target-moved-concurrently''
     else if land \<notin> {Land_landed, Land_landed_already}
       then conclude sm Rung_fresh_worktree Lad_failed (''failed:land:'' @ land_value land)
     else lbind (call (Op_repoint_original fresh original_head) (sm_repoint_original sm)) (\<lambda>repoint.
     if repoint = Repoint_reset_failed
       then conclude sm Rung_fresh_worktree Lad_failed ''failed:repoint-original''
     else
       lbind (conclude sm Rung_fresh_worktree Lad_succeeded
                (''succeeded:fresh-worktree='' @ fresh
                 @ (if repoint = Repoint_repointed then [] else '':repoint-not-now:'' @ repoint_value repoint))) (\<lambda>res.
       lbind (record_evidence sm ''salvage:fresh_worktree_rebuild'' ''succeeded'') (\<lambda>_.
       lbind (record_evidence sm ''preserved:fresh_worktree'' fresh) (\<lambda>_.
       lret res)))))"

definition rebuild_in_fresh_worktree ::
  "ladder_seams \<Rightarrow> string \<Rightarrow> string \<Rightarrow> string \<Rightarrow> string option \<Rightarrow> string option \<Rightarrow> ladder_step_result ladder" where
  "rebuild_in_fresh_worktree sm root_dir target state_dir preserved_ref expected_target_sha =
     lbind (record_evidence sm (rung_key Rung_fresh_worktree) ''intent'') (\<lambda>_.
     lbind (case expected_target_sha of
              Some sha \<Rightarrow> lret (Some sha)
            | None \<Rightarrow> call (Op_target_sha target) (\<lambda>tr. sm_target_sha sm tr target)) (\<lambda>expected.
     lbind (call Op_head_sha (sm_head_sha sm)) (\<lambda>original_head.
     case expected of
       None \<Rightarrow> conclude sm Rung_fresh_worktree Lad_failed ''failed:land:target-sha-unreadable''
     | Some sha \<Rightarrow>
     lbind (clock_now sm) (\<lambda>now.
     let digest = sm_sha256_hex sm (root_dir @ ''-'' @ fmt_0f now);
         fresh = path_parent state_dir @ ''/fresh-worktree-'' @ take 8 digest
     in lbind (call (Op_create_worktree fresh target) (sm_create_worktree sm)) (\<lambda>created.
     if \<not> created then conclude sm Rung_fresh_worktree Lad_failed ''failed:create-worktree''
     else lbind (case preserved_ref of None \<Rightarrow> lret True
                 | Some ref \<Rightarrow> call (Op_apply_preserved fresh ref) (sm_apply_preserved sm)) (\<lambda>applied.
     if \<not> applied then conclude sm Rung_fresh_worktree Lad_failed ''failed:apply-preserved''
     else land_from_fresh sm fresh target sha original_head))))))"

definition waiting_count :: "attempt_ledger_state \<Rightarrow> string \<Rightarrow> nat" where
  "waiting_count s key =
     (let v = dget_or (al_ladder_evidence s) key []; prefix = ''waiting:n=''
      in if \<not> starts_with v prefix then 0
         else let raw = hd (split_max (CHR '':'') 1 (drop (length prefix) v))
              in if isdecimal raw then (case py_int raw of Some i \<Rightarrow> nat i | None \<Rightarrow> 0) else 0)"

definition backoff_delay :: "nat \<Rightarrow> nat" where
  "backoff_delay attempts = min BACKOFF_CAP_SECONDS (BACKOFF_BASE_SECONDS * 2 ^ min attempts 10)"

definition remind_once :: "ladder_seams \<Rightarrow> string \<Rightarrow> unit ladder" where
  "remind_once sm failure = (\<lambda>w.
     let now = sm_now sm (lw_trace w); prev = dget (lw_reminded_at w) failure
     in if (case prev of Some t \<Rightarrow> now - t < real BACKOFF_CAP_SECONDS | None \<Rightarrow> False) then (Inr (), w)
        else (Inr (), w\<lparr>lw_reminded_at := dset failure now (lw_reminded_at w),
                        lw_trace := lw_trace w @ [Op_remind failure]\<rparr>))"

text \<open>The adaptation chosen for a failure class: what was done, in order.\<close>

definition adapt_environment :: "ladder_seams \<Rightarrow> string \<Rightarrow> environment_failure option \<Rightarrow> string list ladder" where
  "adapt_environment sm state_dir failure =
     (case failure of
        Some Env_safe_directory \<Rightarrow>
          lbind (call Op_set_safe_directory (sm_set_safe_directory sm)) (\<lambda>ok.
          lret (if ok then [''safe.directory''] else []))
      | Some Env_missing_gitdir \<Rightarrow>
          lbind (call Op_repair_gitdir (sm_repair_gitdir sm)) (\<lambda>ok.
          lret (if ok then [''gitdir-repaired''] else []))
      | Some Env_remote_down \<Rightarrow> lret []
      | None \<Rightarrow> lret []
      | Some _ \<Rightarrow>
          lbind (call (Op_prune_artifacts state_dir) (sm_prune_artifacts sm)) (\<lambda>pruned.
          lbind (call Op_alternative_state_dir (sm_alternative_state_dir sm)) (\<lambda>alt.
          lret ([''pruned-'' @ str_nat (length pruned) @ ''-artifacts'']
                @ (case alt of None \<Rightarrow> [] | Some d \<Rightarrow> [''alt-state-dir='' @ d])))))"

definition waiting_value :: "nat \<Rightarrow> string \<Rightarrow> string list \<Rightarrow> string \<Rightarrow> string" where
  "waiting_value attempts failure_text adapted fresh =
     ''waiting:n='' @ str_nat (attempts + 1) @ '':failure='' @ failure_text
     @ '':delay='' @ delay_text (backoff_delay attempts)
     @ '':adapted='' @ (if adapted = [] then ''nothing'' else join_str '','' adapted)
     @ '':observed='' @ fresh"

definition adapt_environment_and_retry :: "ladder_seams \<Rightarrow> string \<Rightarrow> string \<Rightarrow> ladder_step_result ladder" where
  "adapt_environment_and_retry sm state_dir remote =
     lbind ledger_read_op (\<lambda>s.
     let attempts = waiting_count s (rung_key Rung_environment_degrade)
     in lbind (record_evidence sm (rung_key Rung_environment_degrade) ''intent'') (\<lambda>_.
     lbind (call (Op_failure_class remote) (sm_failure_class sm)) (\<lambda>failure.
     lbind (adapt_environment sm state_dir failure) (\<lambda>adapted.
     lbind (call (Op_sleep (backoff_delay attempts)) (\<lambda>_. ())) (\<lambda>_.
     lbind (case sm_observe sm of None \<Rightarrow> lret [] | Some f \<Rightarrow> call Op_observe f) (\<lambda>fresh.
     let failure_text = (case failure of None \<Rightarrow> ''none'' | Some f \<Rightarrow> environment_failure_value f)
     in lbind (conclude sm Rung_environment_degrade Lad_waiting
                 (waiting_value attempts failure_text adapted fresh)) (\<lambda>res.
     lbind (remind_once sm failure_text) (\<lambda>_. lret res))))))))"

text \<open>Recording the six precondition results, in order.\<close>

definition precondition_key :: "string \<Rightarrow> string" where
  "precondition_key name = ''precondition:'' @ name"

fun record_preconditions :: "ladder_seams \<Rightarrow> string dict \<Rightarrow> unit ladder" where
  "record_preconditions sm [] = lret ()"
| "record_preconditions sm ((k, v) # rest) = lbind (record_evidence sm (precondition_key k) v) (\<lambda>_. record_preconditions sm rest)"

record last_resort_request =
  lr_feature_tip :: "string option"
  lr_target :: string
  lr_branch :: string
  lr_decided_signature :: string
  lr_fresh_signature :: string
  lr_paths :: "string list"
  lr_untracked_paths :: "string list"
  lr_in_progress_kind :: in_progress_kind
  lr_has_landed :: bool
  lr_budget :: int

text \<open>The part of rung 6 after the preconditions: preserve, abort, reset, clean.\<close>

definition reset_phase ::
  "ladder_seams \<Rightarrow> string \<Rightarrow> last_resort_request \<Rightarrow> string dict \<Rightarrow> ladder_step_result ladder" where
  "reset_phase sm state_dir rq preconditions =
     lbind ledger_read_op (\<lambda>s.
     lbind (if \<not> din ''preserved:alternate_preservation'' (al_ladder_evidence s) \<and> lr_paths rq \<noteq> []
            then lbind (preserve_via_temp_index sm state_dir None (lr_has_landed rq)) (\<lambda>_. lret ())
            else lret ()) (\<lambda>_.
     lbind (if lr_in_progress_kind rq \<noteq> Op_none
            then lbind (call (Op_abort_operation (lr_in_progress_kind rq)) (sm_abort_operation sm)) (\<lambda>ok.
                 if ok then lret ()
                 else lbind (call (Op_remove_operation_state (lr_in_progress_kind rq)) (sm_remove_operation_state sm))
                        (\<lambda>_. lret ()))
            else lret ()) (\<lambda>_.
     lbind (case lr_feature_tip rq of
              None \<Rightarrow> lret (lr_target rq)
            | Some tip \<Rightarrow>
                lbind (call (Op_ref_is_readable tip) (\<lambda>tr. sm_ref_is_readable sm tr tip)) (\<lambda>ok.
                lret (if ok then tip else lr_target rq))) (\<lambda>tip.
     lbind (call (Op_reset_hard tip) (sm_reset_hard sm)) (\<lambda>first.
     lbind (if first then lret True
            else lbind (call (Op_recreate_worktree (lr_branch rq)) (sm_recreate_worktree sm)) (\<lambda>made.
                 if made then call (Op_reset_hard tip) (sm_reset_hard sm) else lret False)) (\<lambda>ok.
     if \<not> ok then
       lbind (conclude sm Rung_last_resort Lad_failed (''failed:reset-hard:'' @ tip)) (\<lambda>res.
       lret (res\<lparr>ls_evidence := preconditions\<rparr>))
     else
       lbind (call (Op_clean_untracked (lr_untracked_paths rq)) (sm_clean_untracked sm)) (\<lambda>_.
       lbind (call Op_remove_stale_locks (sm_remove_stale_locks sm)) (\<lambda>locks.
       lbind (conclude sm Rung_last_resort Lad_succeeded
                (''succeeded:reset-hard-to='' @ tip @ '':locks-removed='' @ str_nat (length locks))) (\<lambda>res.
       lret (res\<lparr>ls_evidence := preconditions\<rparr>))))))))))"

definition conclude_preconditions ::
  "ladder_seams \<Rightarrow> string \<Rightarrow> last_resort_request \<Rightarrow> string dict \<Rightarrow> ladder_step_result ladder" where
  "conclude_preconditions sm state_dir rq preconditions =
     (case List.find (\<lambda>(_, v). starts_with v ''unmet'') preconditions of
        Some (name, _) \<Rightarrow>
          lbind (conclude sm Rung_last_resort Lad_failed (''failed:precondition-unmet:'' @ name)) (\<lambda>res.
          lret (res\<lparr>ls_evidence := preconditions\<rparr>))
      | None \<Rightarrow> reset_phase sm state_dir rq preconditions)"

definition last_resort_recovery ::
  "ladder_seams \<Rightarrow> string \<Rightarrow> last_resort_request \<Rightarrow> ladder_step_result ladder" where
  "last_resort_recovery sm state_dir rq =
     lbind (record_evidence sm (rung_key Rung_last_resort) ''intent'') (\<lambda>_.
     if lr_decided_signature rq = []
     then conclude sm Rung_last_resort Lad_failed LAST_RESORT_DISABLED_NO_SIGNATURE
     else
       lbind ledger_read_op (\<lambda>s.
       let preconditions = evaluate_last_resort_preconditions s (lr_decided_signature rq)
                             (lr_fresh_signature rq) (lr_budget rq)
       in lbind (record_preconditions sm preconditions) (\<lambda>_.
       conclude_preconditions sm state_dir rq preconditions)))"

record rung_request = last_resort_request +
  rq_root :: string
  rq_state_dir :: "string option"
  rq_owning_worktree :: "string option"
  rq_remote :: string
  rq_expected_target_sha :: "string option"

definition run_ladder_rung :: "ladder_seams \<Rightarrow> cleanup_ladder_rung \<Rightarrow> rung_request \<Rightarrow> ladder_step_result ladder" where
  "run_ladder_rung sm r rq =
     (let state_dir = (case rq_state_dir rq of Some d \<Rightarrow> d | None \<Rightarrow> rq_root rq @ ''/.agent'')
      in case r of
           Rung_normal_cleanup \<Rightarrow> conclude sm Rung_normal_cleanup Lad_failed ''failed:not-owned-here''
         | Rung_alternate_preservation \<Rightarrow>
             preserve_via_temp_index sm state_dir (rq_owning_worktree rq) (lr_has_landed rq)
         | Rung_quarantine \<Rightarrow> quarantine_and_restore sm state_dir (lr_paths rq)
         | Rung_fresh_worktree \<Rightarrow>
             rebuild_in_fresh_worktree sm (rq_root rq) (lr_target rq) state_dir (lr_feature_tip rq)
               (rq_expected_target_sha rq)
         | Rung_environment_degrade \<Rightarrow> adapt_environment_and_retry sm state_dir (rq_remote rq)
         | Rung_last_resort \<Rightarrow> last_resort_recovery sm state_dir (last_resort_request.truncate rq))"

text \<open>The default arguments of \<^verbatim>\<open>run_ladder_rung\<close>.\<close>

definition default_rung_request :: "string \<Rightarrow> rung_request" where
  "default_rung_request root_dir =
     \<lparr>lr_feature_tip = None, lr_target = ''main'', lr_branch = ''feature'', lr_decided_signature = [],
      lr_fresh_signature = [], lr_paths = [], lr_untracked_paths = [], lr_in_progress_kind = Op_none,
      lr_has_landed = False, lr_budget = LADDER_ATTEMPT_BUDGET,
      rq_root = root_dir, rq_state_dir = None, rq_owning_worktree = None, rq_remote = ''origin'',
      rq_expected_target_sha = None\<rparr>"

section \<open>The callers\<close>

definition execute_planning_ladder_rung ::
  "ladder_seams \<Rightarrow> string \<Rightarrow> planning_sync_verdict \<Rightarrow> string option \<Rightarrow> string option \<Rightarrow> string option
     \<Rightarrow> ladder_step_result option ladder" where
  "execute_planning_ladder_rung sm root_dir v target expected_sha state_dir =
     (case psv_ladder_rung v of
        None \<Rightarrow> lret None
      | Some r \<Rightarrow>
          lbind (run_ladder_rung sm r
                   ((default_rung_request root_dir)
                      \<lparr>lr_target := (case target of None \<Rightarrow> ''main'' | Some t \<Rightarrow> t),
                       lr_in_progress_kind := obs_in_progress_kind (psv_observation v),
                       rq_state_dir := state_dir, rq_expected_target_sha := expected_sha\<rparr>))
            (\<lambda>res. lret (Some res)))"

definition escalate_record_fact_outcome ::
  "ladder_seams \<Rightarrow> string \<Rightarrow> string \<Rightarrow> record_fact_outcome \<Rightarrow> string \<Rightarrow> string option \<Rightarrow> string option
     \<Rightarrow> string \<Rightarrow> string option \<Rightarrow> ladder_step_result ladder" where
  "escalate_record_fact_outcome sm root_dir record_target outcome reason state_dir target branch feature_tip =
     lbind (if outcome = Diagnostic_budget_spent
            then record_salvage_attempt sm ''resolver_agent'' (''failed:'' @ reason) else lret ()) (\<lambda>_.
     lbind ledger_read_op (\<lambda>s.
     let r = (case resume_rung s of None \<Rightarrow> Rung_last_resort | Some r \<Rightarrow> r)
     in run_ladder_rung sm r
          ((default_rung_request root_dir)
             \<lparr>lr_target := (case target of None \<Rightarrow> record_target | Some t \<Rightarrow> t),
              lr_branch := branch, lr_feature_tip := feature_tip, rq_state_dir := state_dir\<rparr>)))"

definition escalate_diagnostic_budget_to_ladder ::
  "ladder_seams \<Rightarrow> string \<Rightarrow> string \<Rightarrow> string \<Rightarrow> string option \<Rightarrow> string option \<Rightarrow> string \<Rightarrow> string option
     \<Rightarrow> ladder_step_result ladder" where
  "escalate_diagnostic_budget_to_ladder sm root_dir record_target reason state_dir target branch feature_tip =
     escalate_record_fact_outcome sm root_dir record_target Diagnostic_budget_spent reason state_dir target branch feature_tip"

end
