(* ===== verification/Ladder_Contracts.thy ===== *)
theory Ladder_Contracts
  imports Integration_Ladder
begin

text \<open>
  Contracts of the cleanup-ladder executors.

  The first part composes predicates on the trace of operations (\<open>emits\<close>, with the rules collected
  in \<open>emits_intro\<close>) and shows when a destructive operation is performed.  The second part computes
  weakest preconditions over the evidence log on sound storage (\<open>wp\<close>, with the rules collected in
  \<open>wp_intro\<close>) and shows that the rungs return, record an outcome and climb in order.
\<close>

section \<open>Trace predicates\<close>

definition emits :: "(ladder_op \<Rightarrow> bool) \<Rightarrow> 'a ladder \<Rightarrow> bool" where
  "emits A m = (\<forall>w. \<exists>tr. lw_trace (snd (m w)) = lw_trace w @ tr \<and> list_all A tr)"

lemma emits_lret [emits_intro]: "emits A (lret x)"
  by (simp add: emits_def lret_def)

lemma emits_lbind [emits_intro]:
  assumes "emits A m" "\<And>x. emits A (f x)"
  shows "emits A (lbind m f)"
  unfolding emits_def
proof
  fix w
  obtain r w1 where m: "m w = (r, w1)" by (cases "m w")
  obtain tr where tr: "lw_trace w1 = lw_trace w @ tr" "list_all A tr"
    using assms(1) m unfolding emits_def by (metis snd_conv)
  show "\<exists>tr. lw_trace (snd (lbind m f w)) = lw_trace w @ tr \<and> list_all A tr"
  proof (cases r)
    case (Inr x)
    obtain tr' where "lw_trace (snd (f x w1)) = lw_trace w1 @ tr'" "list_all A tr'"
      using assms(2) unfolding emits_def by metis
    then show ?thesis using m tr Inr by (simp add: lbind_def)
  qed (use m tr in \<open>simp add: lbind_def\<close>)
qed

lemma emits_call [emits_intro]: "A op \<Longrightarrow> emits A (call op answer)"
  by (simp add: emits_def call_def Let_def)

lemma emits_make_dir [emits_intro]: "A (Op_mkdir dir) \<Longrightarrow> emits A (make_dir sm dir)"
  by (simp add: emits_def make_dir_def)

lemma emits_read [emits_intro]: "emits A ledger_read_op"
  by (simp add: emits_def ledger_read_op_def Let_def split: prod.splits)

lemma emits_clock [emits_intro]: "emits A (clock_now sm)"
  by (simp add: emits_def clock_now_def)

lemma emits_persist [emits_intro]: "A (Op_evidence k v) \<Longrightarrow> emits A (ledger_persist_op sm k v s)"
  by (auto simp: emits_def ledger_persist_op_def split: sum.splits prod.splits)

lemma emits_record [emits_intro]: "A (Op_evidence k v) \<Longrightarrow> emits A (record_evidence sm k v)"
  by (simp add: record_evidence_def emits_intro)

lemma emits_conclude [emits_intro]: "A (Op_evidence (rung_key r) v) \<Longrightarrow> emits A (conclude sm r oc v)"
  by (simp add: conclude_def emits_intro)

lemma emits_remind [emits_intro]: "A (Op_remind f) \<Longrightarrow> emits A (remind_once sm f)"
  by (auto simp: emits_def remind_once_def Let_def split: option.splits)

lemma emits_quarantine_loop [emits_intro]:
  "(\<And>p. A (Op_rename_into_quarantine dir p)) \<Longrightarrow> emits A (quarantine_loop sm dir moved ps)"
  by (induction ps arbitrary: moved) (auto intro!: emits_intro split: option.splits)

lemma emits_record_preconditions [emits_intro]:
  "(\<And>k v. A (Op_evidence k v)) \<Longrightarrow> emits A (record_preconditions sm kvs)"
  by (induction kvs) (auto intro!: emits_intro)

text \<open>
  The operations of the last resort that discard work or an operation in progress: the reset, the
  removal of untracked paths, the recreated worktree and the aborted operation.
\<close>

fun discards :: "ladder_op \<Rightarrow> bool" where
  "discards (Op_reset_hard _) = True"
| "discards (Op_clean_untracked _) = True"
| "discards (Op_recreate_worktree _) = True"
| "discards (Op_abort_operation _) = True"
| "discards (Op_remove_operation_state _) = True"
| "discards _ = False"

text \<open>
  The operations that overwrite or remove work of the original checkout: those above, the forced
  restore of rung 3 (\<^verbatim>\<open>read-tree HEAD\<close> and \<^verbatim>\<open>checkout-index -f -a\<close>) and the repointing of rung 4, whose
  adapter runs \<^verbatim>\<open>reset --hard\<close>.
\<close>

fun destructive :: "ladder_op \<Rightarrow> bool" where
  "destructive Op_restore_tree_to_head = True"
| "destructive (Op_repoint_original _ _) = True"
| "destructive op = discards op"

lemma discards_destructive: "discards op \<Longrightarrow> destructive op"
  by (cases op) simp_all

lemma emits_preserve [emits_intro]:
  "emits (\<lambda>op. \<not> destructive op) (preserve_via_temp_index sm d ow hl)"
  unfolding preserve_via_temp_index_def write_sidecar_def sidecar_copies_def Let_def
  by (auto intro!: emits_intro split: option.splits list.splits)

lemma emits_mono: "emits A m \<Longrightarrow> (\<And>op. A op \<Longrightarrow> B op) \<Longrightarrow> emits B m"
  unfolding emits_def by (metis list.pred_mono_strong)

lemma emits_preserve_discards [emits_intro]: "emits (\<lambda>op. \<not> discards op) (preserve_via_temp_index sm d ow hl)"
  by (rule emits_mono [OF emits_preserve]) (use discards_destructive in blast)

lemma emits_quarantine [emits_intro]: "emits (\<lambda>op. \<not> discards op) (quarantine_and_restore sm d ps)"
  unfolding quarantine_and_restore_def Let_def
  by (auto intro!: emits_intro split: option.splits prod.splits)

lemma emits_rebuild [emits_intro]: "emits (\<lambda>op. \<not> discards op) (rebuild_in_fresh_worktree sm rd t d p e)"
  unfolding rebuild_in_fresh_worktree_def land_from_fresh_def Let_def
  by (auto intro!: emits_intro split: option.splits)

lemma emits_adapt: "emits (\<lambda>op. \<not> destructive op) (adapt_environment_and_retry sm d rm)"
  unfolding adapt_environment_and_retry_def adapt_environment_def Let_def
  by (auto intro!: emits_intro split: option.splits environment_failure.splits)

lemma emits_adapt_discards [emits_intro]: "emits (\<lambda>op. \<not> discards op) (adapt_environment_and_retry sm d rm)"
  by (rule emits_mono [OF emits_adapt]) (use discards_destructive in blast)

lemma emits_last_resort_disabled:
  "lr_decided_signature rq = [] \<Longrightarrow> emits (\<lambda>op. \<not> destructive op) (last_resort_recovery sm d rq)"
  unfolding last_resort_recovery_def by (auto intro!: emits_intro)

lemma emits_last_resort_discards:
  "lr_decided_signature rq = [] \<Longrightarrow> emits (\<lambda>op. \<not> discards op) (last_resort_recovery sm d rq)"
  by (rule emits_mono [OF emits_last_resort_disabled]) (use discards_destructive in auto)

lemma emits_run_rung:
  "r \<noteq> Rung_last_resort \<or> lr_decided_signature rq = [] \<Longrightarrow> emits (\<lambda>op. \<not> discards op) (run_ladder_rung sm r rq)"
  by (cases r) (auto simp: run_ladder_rung_def Let_def last_resort_request.defs
      intro!: emits_intro emits_last_resort_discards)

theorem callers_never_reset:
  "emits (\<lambda>op. \<not> discards op) (execute_planning_ladder_rung sm root_dir v target sha state_dir)
   \<and> emits (\<lambda>op. \<not> discards op)
       (escalate_record_fact_outcome sm root_dir rt oc reason state_dir target branch tip)"
  by (auto simp: execute_planning_ladder_rung_def escalate_record_fact_outcome_def record_salvage_attempt_def
      SALVAGE_KINDS_def default_rung_request_def Let_def intro!: emits_intro emits_run_rung split: option.splits)

lemma emits_reset_phase: "emits (\<lambda>_. True) (reset_phase sm d rq pre)"
  unfolding reset_phase_def
  by (auto intro!: emits_intro emits_mono [OF emits_preserve] split: option.splits)

lemma emits_any: "emits (\<lambda>_. True) (conclude_preconditions sm d rq pre)"
  unfolding conclude_preconditions_def by (auto intro!: emits_intro emits_reset_phase split: option.splits)

section \<open>The hard reset\<close>

lemma record_evidence_cases:
  obtains (raised) e w1 where "record_evidence sm k v w = (Inl e, w1)" "lw_trace w1 = lw_trace w"
  | (kept) w1 where "record_evidence sm k v w = (Inr (), w1)" "lw_trace w1 = lw_trace w @ [Op_evidence k v]"
  by (cases "record_evidence sm k v w")
     (auto simp: record_evidence_def lbind_def ledger_read_op_def ledger_persist_op_def Let_def split: sum.splits prod.splits)

lemma record_preconditions_trace:
  "record_preconditions sm kvs w = (Inr (), w1) \<Longrightarrow>
   lw_trace w1 = lw_trace w @ map (\<lambda>(k, v). Op_evidence (precondition_key k) v) kvs"
proof (induction kvs arbitrary: w)
  case (Cons kv kvs)
  obtain k v where kv: "kv = (k, v)" by (cases kv)
  show ?case
    using Cons.prems kv
    by (cases rule: record_evidence_cases [of sm "precondition_key k" v w])
       (auto simp: lbind_def dest: Cons.IH)
qed (simp add: lret_def)

lemma preconditions_met_iff:
  "List.find (\<lambda>(_, v). starts_with v ''unmet'') (evaluate_last_resort_preconditions s decided fresh budget) = None \<longleftrightarrow>
     list_all (\<lambda>r. rung_attempt_satisfied (dget (al_ladder_evidence s) (rung_key r))) (butlast CLEANUP_LADDER_ORDER)
     \<and> list_all (\<lambda>kind. is_terminal (dget (al_ladder_evidence s) (''salvage:'' @ kind))) SALVAGE_KINDS
     \<and> budget \<le> ladder_charge_count s \<and> decided \<noteq> [] \<and> fresh = decided"
  by (auto simp: evaluate_last_resort_preconditions_def LAST_RESORT_PRECONDITIONS_def SALVAGE_KINDS_def Let_def
      starts_with_def simp del: butlast.simps split: if_splits)

lemma emits_trace:
  assumes "emits A m" "m w = (res, w')" "lw_trace w' = pre @ tr" "lw_trace w = pre"
  shows "list_all A tr"
  using assms unfolding emits_def by (metis same_append_eq snd_conv)

definition intent_recorded :: "ladder_seams \<Rightarrow> ladder_world \<Rightarrow> attempt_ledger_state" where
  "intent_recorded sm w =
     (let w1 = snd (record_evidence sm (rung_key Rung_last_resort) ''intent'' w)
      in ledger_read (lw_owner w1) (lw_store w1))"

section \<open>When a destructive operation is performed\<close>

text \<open>Every destructive operation of a run from \<open>w\<close> satisfies \<open>Q\<close> at the history before it.\<close>

definition guarded :: "(ladder_trace \<Rightarrow> ladder_op \<Rightarrow> bool) \<Rightarrow> 'a ladder \<Rightarrow> ladder_world \<Rightarrow> bool" where
  "guarded Q m w = (\<exists>tr. lw_trace (snd (m w)) = lw_trace w @ tr
     \<and> (\<forall>pre op post. tr = pre @ op # post \<longrightarrow> destructive op \<longrightarrow> Q (lw_trace w @ pre) op))"

lemma guarded_quiet:
  assumes "emits (\<lambda>op. \<not> destructive op) m" shows "guarded Q m w"
proof -
  obtain tr where "lw_trace (snd (m w)) = lw_trace w @ tr" "list_all (\<lambda>op. \<not> destructive op) tr"
    using assms unfolding emits_def by blast
  then show ?thesis unfolding guarded_def by (intro exI [of _ tr]) auto
qed

lemma guarded_call: "(destructive op \<Longrightarrow> Q (lw_trace w) op) \<Longrightarrow> guarded Q (call op f) w"
  by (auto simp: guarded_def call_def Let_def Cons_eq_append_conv)

lemma guarded_lbind:
  assumes m: "guarded Q m w" and f: "\<And>x w1. m w = (Inr x, w1) \<Longrightarrow> guarded Q (f x) w1"
  shows "guarded Q (lbind m f) w"
proof -
  obtain r w1 where w1: "m w = (r, w1)" by (cases "m w")
  obtain t1 where t1: "lw_trace w1 = lw_trace w @ t1"
    "\<And>pre op post. t1 = pre @ op # post \<Longrightarrow> destructive op \<Longrightarrow> Q (lw_trace w @ pre) op"
    using m w1 unfolding guarded_def by auto
  show ?thesis
  proof (cases r)
    case (Inr x)
    obtain t2 where t2: "lw_trace (snd (f x w1)) = lw_trace w1 @ t2"
      "\<And>pre op post. t2 = pre @ op # post \<Longrightarrow> destructive op \<Longrightarrow> Q (lw_trace w1 @ pre) op"
      using f w1 Inr unfolding guarded_def by blast
    have "Q (lw_trace w @ pre) op" if "t1 @ t2 = pre @ op # post" "destructive op" for pre op post
    proof -
      from that(1) consider (left) us where "t1 = pre @ op # us" | (right) us where "pre = t1 @ us" "t2 = us @ op # post"
        by (auto simp: append_eq_append_conv2 append_eq_Cons_conv)
      then show ?thesis using t1 t2(2) that(2) by cases (blast, simp)
    qed
    then show ?thesis
      using w1 Inr t1(1) t2(1) unfolding guarded_def by (intro exI [of _ "t1 @ t2"]) (simp add: lbind_def)
  qed (use w1 t1 in \<open>auto simp: guarded_def lbind_def\<close>)
qed

lemma guarded_call_then:
  "(destructive op \<Longrightarrow> Q (lw_trace w) op) \<Longrightarrow> (\<And>x. emits (\<lambda>op. \<not> destructive op) (f x)) \<Longrightarrow> guarded Q (lbind (call op g) f) w"
  by (intro guarded_lbind guarded_call guarded_quiet)

lemma guarded_at:
  assumes "guarded Q m w" "m w = (res, w')" "lw_trace w' = lw_trace w @ pre @ op # post" "destructive op"
  shows "Q (lw_trace w @ pre) op"
  using assms unfolding guarded_def by auto

text \<open>The renames of rung 3 when none of them failed.\<close>

definition all_quarantined :: "ladder_seams \<Rightarrow> ladder_trace \<Rightarrow> string \<Rightarrow> string list \<Rightarrow> bool" where
  "all_quarantined sm before dir ps =
     (\<forall>i < length ps. sm_rename_into_quarantine sm (before @ map (Op_rename_into_quarantine dir) (take (Suc i) ps)) (ps ! i) \<noteq> None)"

lemma quarantine_loop_complete:
  "quarantine_loop sm dir moved ps w = (Inr (kept, None), w1) \<Longrightarrow>
   lw_trace w1 = lw_trace w @ map (Op_rename_into_quarantine dir) ps \<and> all_quarantined sm (lw_trace w) dir ps"
proof (induction ps arbitrary: moved w)
  case (Cons p ps)
  let ?w = "w\<lparr>lw_trace := lw_trace w @ [Op_rename_into_quarantine dir p]\<rparr>"
  obtain d where d: "sm_rename_into_quarantine sm (lw_trace ?w) p = Some d"
    and run: "quarantine_loop sm dir (moved @ [d]) ps ?w = (Inr (kept, None), w1)"
    using Cons.prems by (auto simp: lbind_def call_def Let_def lret_def split: option.splits)
  show ?case
    using Cons.IH [OF run] d by (auto simp: all_quarantined_def less_Suc_eq_0_disj)
qed (simp add: lret_def all_quarantined_def)

definition rung3_restore :: "ladder_seams \<Rightarrow> ladder_trace \<Rightarrow> string list \<Rightarrow> ladder_trace \<Rightarrow> ladder_op \<Rightarrow> bool" where
  "rung3_restore sm h0 ps h op = (op = Op_restore_tree_to_head \<and> (\<exists>dir.
     h = h0 @ Op_evidence (rung_key Rung_quarantine) ''intent'' # map (Op_rename_into_quarantine dir) ps
     \<and> all_quarantined sm (h0 @ [Op_evidence (rung_key Rung_quarantine) ''intent'']) dir ps))"

lemma intent_traced:
  "record_evidence sm k v w = (Inr u, w1) \<Longrightarrow> lw_trace w1 = lw_trace w @ [Op_evidence k v]"
  by (cases rule: record_evidence_cases [of sm k v w]) auto

lemma guarded_quarantine: "guarded (rung3_restore sm (lw_trace w) ps) (quarantine_and_restore sm d ps) w"
  unfolding quarantine_and_restore_def Let_def
proof (rule guarded_lbind, goal_cases)
  case (2 u w1)
  note w1 = intent_traced [OF 2]
  show ?case
  proof (rule guarded_lbind, goal_cases)
    case (2 now w2)
    then have w2: "w2 = w1" by (simp add: clock_now_def)
    show ?case
    proof (rule guarded_lbind, goal_cases)
      case (2 out w3)
      obtain moved stuck where out: "out = (moved, stuck)" by (cases out)
      show ?case
      proof (cases stuck)
        case None
        have "rung3_restore sm (lw_trace w) ps (lw_trace w3) Op_restore_tree_to_head"
          using quarantine_loop_complete [of sm _ "[]" ps w2 moved w3] 2 w1
          unfolding out None w2 rung3_restore_def by auto
        then show ?thesis
          unfolding out None by (auto intro!: guarded_call_then emits_intro)
      qed (auto simp: out intro!: guarded_quiet emits_intro)
    qed (auto intro!: guarded_quiet emits_intro)
  qed (auto intro!: guarded_quiet emits_intro)
qed (auto intro!: guarded_quiet emits_intro)

text \<open>
  The repointing of rung 4: directly after the landing it reacts to, which succeeded, and with the
  head that was observed before the fresh worktree was created.
\<close>

definition rung4_repoint ::
  "ladder_seams \<Rightarrow> ladder_trace \<Rightarrow> string \<Rightarrow> ladder_trace \<Rightarrow> ladder_op \<Rightarrow> bool" where
  "rung4_repoint sm h0 target h op = (\<exists>fresh sha observed work.
     h = h0 @ observed @ Op_head_sha # Op_create_worktree fresh target # work @ [Op_land_in_worktree fresh target sha]
     \<and> op = Op_repoint_original fresh (sm_head_sha sm (h0 @ observed @ [Op_head_sha]))
     \<and> sm_create_worktree sm (h0 @ observed @ [Op_head_sha, Op_create_worktree fresh target])
     \<and> sm_land_in_worktree sm h \<in> {Land_landed, Land_landed_already})"

lemma guarded_landing:
  assumes "lw_trace w = h0 @ observed @ Op_head_sha # Op_create_worktree fresh target # work"
    and "sm_create_worktree sm (h0 @ observed @ [Op_head_sha, Op_create_worktree fresh target])"
    and "head = sm_head_sha sm (h0 @ observed @ [Op_head_sha])"
  shows "guarded (rung4_repoint sm h0 target) (land_from_fresh sm fresh target sha head) w"
  unfolding land_from_fresh_def
proof (rule guarded_lbind, goal_cases)
  case (2 land w1)
  then have w1: "lw_trace w1 = lw_trace w @ [Op_land_in_worktree fresh target sha]"
    "land = sm_land_in_worktree sm (lw_trace w1)" by (auto simp: call_def Let_def)
  have "rung4_repoint sm h0 target (lw_trace w1) (Op_repoint_original fresh head)"
    if "land \<in> {Land_landed, Land_landed_already}"
    unfolding rung4_repoint_def using w1 that assms
    by (intro exI [of _ fresh] exI [of _ sha] exI [of _ observed] exI [of _ work]) simp
  then show ?case
    by (cases "land \<in> {Land_landed, Land_landed_already}")
       (auto intro!: guarded_call_then emits_intro, auto intro!: guarded_quiet emits_intro)
qed (auto intro!: guarded_call)

lemma guarded_applied:
  assumes "lw_trace w = h0 @ observed @ [Op_head_sha, Op_create_worktree fresh target]"
    and "sm_create_worktree sm (h0 @ observed @ [Op_head_sha, Op_create_worktree fresh target])"
    and "head = sm_head_sha sm (h0 @ observed @ [Op_head_sha])"
  shows "guarded (rung4_repoint sm h0 target)
    (lbind (case p of None \<Rightarrow> lret True | Some ref \<Rightarrow> call (Op_apply_preserved fresh ref) (sm_apply_preserved sm))
      (\<lambda>applied. if \<not> applied then conclude sm Rung_fresh_worktree Lad_failed ''failed:apply-preserved''
         else land_from_fresh sm fresh target sha head)) w"
proof (rule guarded_lbind, goal_cases)
  case (2 applied w1)
  then have "lw_trace w1 = h0 @ observed @ Op_head_sha # Op_create_worktree fresh target # drop (length (lw_trace w)) (lw_trace w1)"
    using assms(1) by (cases p) (auto simp: call_def lret_def Let_def)
  from guarded_landing [OF this assms(2, 3)] show ?case
    by (cases applied) (auto intro!: guarded_quiet emits_intro)
qed (auto intro!: guarded_quiet emits_intro split: option.splits)

lemma guarded_rebuild:
  "guarded (rung4_repoint sm (lw_trace w) target) (rebuild_in_fresh_worktree sm rd target d p e) w"
  unfolding rebuild_in_fresh_worktree_def Let_def
proof (rule guarded_lbind, goal_cases)
  case (2 u w1)
  note w1 = intent_traced [OF 2]
  show ?case
  proof (rule guarded_lbind, goal_cases)
    case (2 expected w2)
    then obtain t2 where w2: "lw_trace w2 = lw_trace w @ t2"
      using w1 by (cases e) (auto simp: call_def lret_def Let_def)
    show ?case
    proof (rule guarded_lbind, goal_cases)
      case (2 head w3)
      then have w3: "lw_trace w3 = lw_trace w @ t2 @ [Op_head_sha]" "head = sm_head_sha sm (lw_trace w @ t2 @ [Op_head_sha])"
        using w2 by (auto simp: call_def Let_def)
      show ?case
      proof (cases expected)
        case (Some sha)
        show ?thesis unfolding Some option.case
        proof (rule guarded_lbind, goal_cases)
          case (2 now w4)
          then have w4: "w4 = w3" by (simp add: clock_now_def)
          show ?case
          proof (rule guarded_lbind, goal_cases)
            case (2 created w5)
            define fresh where "fresh = path_parent d @ ''/fresh-worktree-'' @ take 8 (sm_sha256_hex sm (rd @ ''-'' @ fmt_0f now))"
            have w5: "lw_trace w5 = lw_trace w @ t2 @ [Op_head_sha, Op_create_worktree fresh target]"
              "created = sm_create_worktree sm (lw_trace w @ t2 @ [Op_head_sha, Op_create_worktree fresh target])"
              using 2 w3 unfolding w4 fresh_def [symmetric] by (auto simp: call_def Let_def)
            show ?case unfolding fresh_def [symmetric]
              using guarded_applied [OF w5(1) _ w3(2), of p sha] w5(2)
              by (cases created) (auto intro!: guarded_quiet emits_intro)
          qed (auto intro!: guarded_call)
        qed (auto intro!: guarded_quiet emits_intro)
      qed (auto intro!: guarded_quiet emits_intro)
    qed (auto intro!: guarded_quiet emits_intro)
  qed (auto intro!: guarded_quiet emits_intro split: option.splits)
qed (auto intro!: guarded_quiet emits_intro)

lemma last_resort_contract:
  assumes rec: "last_resort_recovery sm d rq w = (res, w')" and tr: "lw_trace w' = lw_trace w @ tr"
    and op: "list_ex destructive tr"
  shows "lr_decided_signature rq \<noteq> [] \<and> lr_fresh_signature rq = lr_decided_signature rq
    \<and> (\<exists>post. tr = Op_evidence (rung_key Rung_last_resort) ''intent''
            # map (\<lambda>(k, v). Op_evidence (precondition_key k) v)
                (evaluate_last_resort_preconditions (intent_recorded sm w) (lr_decided_signature rq)
                   (lr_fresh_signature rq) (lr_budget rq)) @ post)
    \<and> list_all (\<lambda>r. rung_attempt_satisfied (dget (al_ladder_evidence (intent_recorded sm w)) (rung_key r)))
        (butlast CLEANUP_LADDER_ORDER)
    \<and> list_all (\<lambda>kind. is_terminal (dget (al_ladder_evidence (intent_recorded sm w)) (''salvage:'' @ kind))) SALVAGE_KINDS
    \<and> lr_budget rq \<le> ladder_charge_count (intent_recorded sm w)"
proof -
  let ?pre = "evaluate_last_resort_preconditions (intent_recorded sm w) (lr_decided_signature rq)
                   (lr_fresh_signature rq) (lr_budget rq)"
  have r: "lr_decided_signature rq \<noteq> []"
    using emits_trace [OF emits_last_resort_disabled rec tr refl] op by (auto simp: list_all_iff list_ex_iff)
  show ?thesis
  proof (cases rule: record_evidence_cases [of sm "rung_key Rung_last_resort" "''intent''" w])
    case (raised e w1)
    then show ?thesis using rec tr op by (simp add: last_resort_recovery_def lbind_def)
  next
    case (kept w1)
    have s: "intent_recorded sm w = ledger_read (lw_owner w1) (lw_store w1)"
      using kept(1) by (simp add: intent_recorded_def)
    obtain w2 where w2: "ledger_read_op w1 = (Inr (intent_recorded sm w), w2)" "lw_trace w2 = lw_trace w1"
      unfolding s by (cases "ledger_load (lw_owner w1) (lw_store w1)") (auto simp: ledger_read_op_def ledger_read_def)
    obtain ra w3 where ra: "record_preconditions sm ?pre w2 = (ra, w3)" by (cases "record_preconditions sm ?pre w2")
    have e: "emits (\<lambda>op. \<not> destructive op) (record_preconditions sm ?pre)" by (rule emits_record_preconditions) simp
    obtain t1 where t1: "lw_trace w3 = lw_trace w2 @ t1" "list_all (\<lambda>op. \<not> destructive op) t1"
      using e ra unfolding emits_def by (metis snd_conv)
    let ?rest = "\<lambda>_::unit. conclude_preconditions sm d rq ?pre"
    have cont: "(case ra of Inl e \<Rightarrow> (Inl e, w3) | Inr x \<Rightarrow> ?rest x w3) = (res, w')"
      using rec r kept(1) w2(1) ra
      by (simp add: last_resort_recovery_def lbind_def Let_def last_resort_request.defs split: sum.splits)
    have ok: "\<exists>x. ra = Inr x \<and> List.find (\<lambda>(_, v). starts_with v ''unmet'') ?pre = None"
    proof (rule ccontr)
      assume bad: "\<not> ?thesis"
      obtain t2 where "lw_trace w' = lw_trace w3 @ t2" "list_all (\<lambda>op. \<not> destructive op) t2"
      proof (cases ra)
        case (Inr x)
        then obtain name v where f: "List.find (\<lambda>(_, v). starts_with v ''unmet'') ?pre = Some (name, v)"
          using bad by fastforce
        have "emits (\<lambda>op. \<not> destructive op) (?rest x)"
          unfolding conclude_preconditions_def f by (auto intro!: emits_intro)
        then show ?thesis using that cont Inr unfolding emits_def by (metis snd_conv sum.simps(6))
      qed (use cont that [of "[]"] in simp)
      then have "list_all (\<lambda>op. \<not> destructive op) tr"
        using tr t1 w2(2) kept(2) by auto
      then show False using op by (simp add: list_all_iff list_ex_iff)
    qed
    then obtain x where x: "ra = Inr x" and f: "List.find (\<lambda>(_, v). starts_with v ''unmet'') ?pre = None" by blast
    obtain post where "lw_trace w' = lw_trace w3 @ post"
      using emits_any [of sm d "rq" ?pre] cont x unfolding emits_def by (metis snd_conv sum.simps(6))
    then show ?thesis
      using record_preconditions_trace [of sm ?pre w2 w3] ra x tr kept(2) w2(2) r preconditions_met_iff [THEN iffD1, OF f] by auto
  qed
qed

definition last_resort_allowed ::
  "ladder_seams \<Rightarrow> rung_request \<Rightarrow> ladder_world \<Rightarrow> ladder_trace \<Rightarrow> bool" where
  "last_resort_allowed sm rq w pre =
     (lr_decided_signature rq \<noteq> [] \<and> lr_fresh_signature rq = lr_decided_signature rq
    \<and> (\<exists>mid. pre = Op_evidence (rung_key Rung_last_resort) ''intent''
            # map (\<lambda>(k, v). Op_evidence (precondition_key k) v)
                (evaluate_last_resort_preconditions (intent_recorded sm w) (lr_decided_signature rq)
                   (lr_fresh_signature rq) (lr_budget rq)) @ mid)
    \<and> list_all (\<lambda>r. rung_attempt_satisfied (dget (al_ladder_evidence (intent_recorded sm w)) (rung_key r)))
        (butlast CLEANUP_LADDER_ORDER)
    \<and> list_all (\<lambda>kind. is_terminal (dget (al_ladder_evidence (intent_recorded sm w)) (''salvage:'' @ kind))) SALVAGE_KINDS
    \<and> lr_budget rq \<le> ladder_charge_count (intent_recorded sm w))"

lemma prefix_without:
  assumes "xs @ ys = pre @ op # post" "op \<notin> set xs"
  shows "\<exists>mid. pre = xs @ mid"
  using assms by (auto simp: append_eq_append_conv2 append_eq_Cons_conv)

lemma last_resort_guarded:
  assumes run: "run_ladder_rung sm Rung_last_resort rq w = (res, w')" and tr: "lw_trace w' = lw_trace w @ pre @ op # post"
    and op: "destructive op"
  shows "last_resort_allowed sm rq w pre"
proof -
  let ?head = "Op_evidence (rung_key Rung_last_resort) ''intent'' # map (\<lambda>(k, v). Op_evidence (precondition_key k) v)
     (evaluate_last_resort_preconditions (intent_recorded sm w) (lr_decided_signature rq) (lr_fresh_signature rq) (lr_budget rq))"
  let ?rq = "last_resort_request.truncate rq"
  have rq: "lr_decided_signature ?rq = lr_decided_signature rq" "lr_fresh_signature ?rq = lr_fresh_signature rq"
    "lr_budget ?rq = lr_budget rq" by (simp_all add: last_resort_request.defs)
  obtain d where rec: "last_resort_recovery sm d ?rq w = (res, w')"
    using run by (simp add: run_ladder_rung_def Let_def)
  have "list_ex destructive (pre @ op # post)" using op by simp
  note c = last_resort_contract [OF rec tr this, unfolded rq]
  then obtain rest where rest: "pre @ op # post = ?head @ rest" by auto
  have "op \<notin> set ?head" using op by auto
  then obtain mid where "pre = ?head @ mid" using prefix_without [OF rest [symmetric]] by blast
  then show ?thesis using c unfolding last_resort_allowed_def by auto
qed

text \<open>
  C4: The contract of the destructive operations.  An operation that overwrites or removes work of
  the original checkout is performed by three rungs only.  Rung 3 forces the tree back to the head
  commit after its intent was recorded and every path it was given was renamed into the quarantine
  directory.  Rung 4 repoints the original checkout directly after landing from the fresh worktree,
  when the landing succeeded, and hands the adapter the head observed before that worktree was
  created.  Everything else (reset, clean, recreate, abort, removal of operation state) is done by the
  last resort, for a caller whose fresh observation confirms the blocking signature it decided on,
  after the intent and all six preconditions were recorded, and when the ledger read after the intent
  shows every earlier rung tried or waited out, every salvage attempt finished and the charge budget
  spent.  (Both callers give rung 3 no paths: see \<open>unprotected_restore\<close>.)
\<close>

theorem hard_reset_contract:
  assumes run: "run_ladder_rung sm r rq w = (res, w')" and tr: "lw_trace w' = lw_trace w @ pre @ op # post"
    and op: "destructive op"
  shows "case r of
      Rung_quarantine \<Rightarrow> rung3_restore sm (lw_trace w) (lr_paths rq) (lw_trace w @ pre) op
    | Rung_fresh_worktree \<Rightarrow> rung4_repoint sm (lw_trace w) (lr_target rq) (lw_trace w @ pre) op
    | Rung_last_resort \<Rightarrow> last_resort_allowed sm rq w pre
    | _ \<Rightarrow> False"
proof -
  have quiet: False if "emits (\<lambda>op. \<not> destructive op) (run_ladder_rung sm r rq)"
    using emits_trace [OF that run tr refl] op by simp
  show ?thesis
  proof (cases r)
    case Rung_normal_cleanup
    then show ?thesis using quiet by (simp add: run_ladder_rung_def emits_intro)
  next
    case Rung_alternate_preservation
    then show ?thesis using quiet emits_preserve by (simp add: run_ladder_rung_def Let_def)
  next
    case Rung_quarantine
    then show ?thesis using guarded_at [OF guarded_quarantine _ tr op] run by (simp add: run_ladder_rung_def Let_def)
  next
    case Rung_fresh_worktree
    then show ?thesis using guarded_at [OF guarded_rebuild _ tr op] run by (simp add: run_ladder_rung_def Let_def)
  next
    case Rung_environment_degrade
    then show ?thesis using quiet emits_adapt by (simp add: run_ladder_rung_def Let_def)
  next
    case Rung_last_resort
    then show ?thesis using last_resort_guarded [OF _ tr op] run by simp
  qed
qed

section \<open>The evidence log on sound storage\<close>

lemma dict_update_get:
  "distinct (dkeys e) \<Longrightarrow> dget (dict_update d e) x = (case dget e x of None \<Rightarrow> dget d x | Some v \<Rightarrow> Some v)"
proof (induction e arbitrary: d)
  case (Cons kv e)
  obtain k v where kv: "kv = (k, v)" by (cases kv)
  have e: "distinct (dkeys e)" "k \<notin> set (dkeys e)" using Cons.prems kv by (auto simp: dkeys_def)
  have "x = k \<Longrightarrow> dget e x = None" using e(2) by (simp add: din_iff [symmetric] din_def)
  moreover have "dget (kv # e) x = (if x = k then Some v else dget e x)" using kv by (simp add: dget_def)
  ultimately show ?case
    using Cons.IH [OF e(1), of "dset k v d"] kv
    by (cases "x = k") (simp_all add: dict_update_def split: option.split)
qed (simp add: dict_update_def)

lemma set_dset: "set (dkeys (dset k v d)) = insert k (set (dkeys d))"
  by (auto simp: dkeys_dset din_iff)

lemma dict_update_set: "set (dkeys (dict_update d e)) = set (dkeys d) \<union> set (dkeys e)"
proof (induction e arbitrary: d)
  case (Cons kv e)
  obtain k v where kv: "kv = (k, v)" by (cases kv)
  have "set (dkeys (kv # e)) = insert k (set (dkeys e))" using kv by (simp add: dkeys_def)
  then show ?case using Cons.IH [of "dset k v d"] kv by (simp add: dict_update_def set_dset)
qed (simp add: dict_update_def)

lemma length_dkeys_card: "distinct (dkeys d) \<Longrightarrow> length d = card (set (dkeys d))"
  by (metis distinct_card dkeys_def length_map)

lemma dget_sort: "distinct (dkeys d) \<Longrightarrow> dget (sort_key f d) = dget d"
  unfolding dget_def dkeys_def
  by (rule map_of_inject_set [THEN iffD2]) (use distinct_dkeys_sort [of d f] in \<open>auto simp: dkeys_def\<close>)

lemma merge_evidence_only:
  assumes "attempt_ledger_ok s"
  shows "merge_monotone (s\<lparr>al_ladder_evidence := e\<rparr>) s
       = s\<lparr>al_ladder_evidence := take LADDER_EVIDENCE_CAP (dict_update (al_ladder_evidence s) e)\<rparr>"
  using assms merge_counts_same clamp_repeats_small
  by (simp add: merge_monotone_def attempt_ledger_ok_def further_rung_def)

lemma migrate_mirrors [simp]:
  "migrate_payload (ow\<lparr>own_saturated_repeats := a, own_global_charged := b\<rparr>) p = migrate_payload ow p"
  by (simp add: migrate_payload_def Let_def)

lemma ledger_load_again:
  assumes "ledger_load ow st = (s, verdict, ow1)"
  shows "ledger_load ow1 st = (s, verdict, ow1)"
proof (cases "\<exists>p. ledger_file st = File_json (JObj p)")
  case True
  then show ?thesis using assms by (auto simp: ledger_load_def Let_def)
next
  case False
  then have "ow1 = ow" using assms by (auto simp: ledger_load_def split: file_content.splits json.splits)
  then show ?thesis using assms by simp
qed

definition ledger_of :: "ladder_world \<Rightarrow> attempt_ledger_state" where
  "ledger_of w = ledger_read (lw_owner w) (lw_store w)"

definition evidence_of :: "ladder_world \<Rightarrow> string \<Rightarrow> string option" where
  "evidence_of w = dget (al_ladder_evidence (ledger_of w))"

lemma ledger_of_ok: "owner_ok (lw_owner w) \<Longrightarrow> attempt_ledger_ok (ledger_of w)"
  by (simp add: ledger_of_def ledger_read_def ledger_load_ok)

lemma record_evidence_sound:
  assumes ow: "owner_ok (lw_owner w)" and wr: "sm_evidence_write_ok sm (lw_trace w)"
    and room: "card (insert k (dom (evidence_of w))) \<le> LADDER_EVIDENCE_CAP"
  shows "\<exists>w1. record_evidence sm k v w = (Inr (), w1) \<and> owner_ok (lw_owner w1)
    \<and> evidence_of w1 = (evidence_of w)(k \<mapsto> v) \<and> lw_trace w1 = lw_trace w @ [Op_evidence k v]
    \<and> al_repeat_counts (ledger_of w1) = al_repeat_counts (ledger_of w)
    \<and> al_saturated_repeats (ledger_of w1) = al_saturated_repeats (ledger_of w)"
proof -
  let ?s = "ledger_of w"
  let ?e = "dset k v (al_ladder_evidence ?s)"
  have ok: "attempt_ledger_ok ?s" by (rule ledger_of_ok [OF ow])
  then have d: "distinct (dkeys (al_ladder_evidence ?s))" "distinct (dkeys ?e)"
    by (auto simp: attempt_ledger_ok_def distinct_dkeys_dset)
  let ?u = "dict_update (al_ladder_evidence ?s) ?e"
  have du: "distinct (dkeys ?u)" by (rule dict_update_keys [OF d(1)])
  have dom: "set (dkeys (al_ladder_evidence ?s)) = dom (evidence_of w)"
    by (auto simp: evidence_of_def din_iff [symmetric] din_def)
  have "length ?u \<le> LADDER_EVIDENCE_CAP"
    unfolding length_dkeys_card [OF du] dict_update_set set_dset dom using room by (simp add: insert_absorb Un_insert_right)
  then have m: "merge_monotone (?s\<lparr>al_ladder_evidence := ?e\<rparr>) ?s = ?s\<lparr>al_ladder_evidence := ?u\<rparr>"
    by (simp add: merge_evidence_only [OF ok])
  obtain verdict ow1 where l: "ledger_load (lw_owner w) (lw_store w) = (?s, verdict, ow1)"
    by (cases "ledger_load (lw_owner w) (lw_store w)") (auto simp: ledger_of_def ledger_read_def)
  have l2: "ledger_load ow1 (lw_store w) = (?s, verdict, ow1)" by (rule ledger_load_again [OF l])
  let ?st = "(lw_store w)\<lparr>ledger_file := File_json (serialize_ledger (?s\<lparr>al_ladder_evidence := ?u\<rparr>))\<rparr>"
  let ?w1 = "w\<lparr>lw_owner := ow1, lw_store := ?st, lw_trace := lw_trace w @ [Op_evidence k v]\<rparr>"
  have r: "record_evidence sm k v w = (Inr (), ?w1)"
    using wr by (simp add: record_evidence_def lbind_def ledger_read_op_def ledger_persist_op_def ledger_persist_def
        write_state_def l l2 m)
  have oku: "attempt_ledger_ok (?s\<lparr>al_ladder_evidence := ?u\<rparr>)"
    using ok du \<open>length ?u \<le> LADDER_EVIDENCE_CAP\<close> by (simp add: attempt_ledger_ok_def)
  have readback: "ledger_of ?w1 = ?s\<lparr>al_ladder_evidence := sort_key fst ?u\<rparr>"
    using read_written [OF _ oku, of ?st ow1] by (simp add: ledger_of_def ledger_read_def)
  have "evidence_of ?w1 = (evidence_of w)(k \<mapsto> v)"
    unfolding evidence_of_def readback
    by (rule ext) (simp add: dget_sort [OF du] dict_update_get [OF d(2)] split: option.split)
  moreover have "owner_ok ow1" using ow ledger_load_owner(1) [of "lw_owner w" "lw_store w"] l by simp
  moreover have "al_repeat_counts (ledger_of ?w1) = al_repeat_counts ?s"
    "al_saturated_repeats (ledger_of ?w1) = al_saturated_repeats ?s" unfolding readback by simp_all
  ultimately show ?thesis using r by (intro exI [of _ ?w1]) simp
qed

section \<open>Weakest preconditions on sound storage\<close>

definition LADDER_KEYS :: "string list" where
  "LADDER_KEYS = map rung_key CLEANUP_LADDER_ORDER @ map ((@) ''salvage:'') SALVAGE_KINDS
     @ map precondition_key LAST_RESORT_PRECONDITIONS
     @ [''preserved:alternate_preservation'', ''preserved:quarantine'', ''preserved:fresh_worktree'']"

definition sound_log :: "ladder_world \<Rightarrow> bool" where
  "sound_log w = (owner_ok (lw_owner w) \<and> dom (evidence_of w) \<subseteq> set LADDER_KEYS)"

definition sound_seams :: "ladder_seams \<Rightarrow> bool" where
  "sound_seams sm = ((\<forall>tr. sm_evidence_write_ok sm tr) \<and> (\<forall>tr. sm_mkdir_ok sm tr))"

definition wp :: "'a ladder \<Rightarrow> ('a \<Rightarrow> ladder_world \<Rightarrow> bool) \<Rightarrow> ladder_world \<Rightarrow> bool" where
  "wp m Q w = (case m w of (Inl _, _) \<Rightarrow> False | (Inr x, w') \<Rightarrow> Q x w')"

named_theorems wp_intro

lemma wp_lret [wp_intro]: "Q x w \<Longrightarrow> wp (lret x) Q w"
  by (simp add: wp_def lret_def)

lemma wp_lbind [wp_intro]: "wp m (\<lambda>x. wp (f x) Q) w \<Longrightarrow> wp (lbind m f) Q w"
  by (auto simp: wp_def lbind_def split: sum.splits prod.splits)

lemma same_files:
  assumes "lw_owner w' = lw_owner w" "lw_store w' = lw_store w"
  shows "sound_log w' = sound_log w" "evidence_of w' = evidence_of w"
  using assms by (simp_all add: sound_log_def evidence_of_def ledger_of_def)

lemma wp_call [wp_intro]:
  "sound_log w \<Longrightarrow> (\<And>x w'. sound_log w' \<Longrightarrow> evidence_of w' = evidence_of w \<Longrightarrow> Q x w') \<Longrightarrow> wp (call op a) Q w"
  using same_files [of "w\<lparr>lw_trace := lw_trace w @ [op]\<rparr>" w] by (simp add: wp_def call_def Let_def)

lemma wp_clock [wp_intro]:
  "sound_log w \<Longrightarrow> (\<And>x w'. sound_log w' \<Longrightarrow> evidence_of w' = evidence_of w \<Longrightarrow> Q x w') \<Longrightarrow> wp (clock_now sm) Q w"
  by (simp add: wp_def clock_now_def)

lemma wp_make_dir [wp_intro]:
  "sound_seams sm \<Longrightarrow> sound_log w \<Longrightarrow> (\<And>w'. sound_log w' \<Longrightarrow> evidence_of w' = evidence_of w \<Longrightarrow> Q () w') \<Longrightarrow>
   wp (make_dir sm d) Q w"
  using same_files [of "w\<lparr>lw_trace := lw_trace w @ [Op_mkdir d]\<rparr>" w]
  by (simp add: wp_def make_dir_def sound_seams_def)

lemma wp_remind [wp_intro]:
  "sound_log w \<Longrightarrow> (\<And>w'. sound_log w' \<Longrightarrow> evidence_of w' = evidence_of w \<Longrightarrow> Q () w') \<Longrightarrow> wp (remind_once sm f) Q w"
  by (auto simp: wp_def remind_once_def Let_def same_files sound_log_def evidence_of_def ledger_of_def)

lemma wp_read [wp_intro]:
  assumes "sound_log w"
    and "\<And>s w'. sound_log w' \<Longrightarrow> evidence_of w' = evidence_of w \<Longrightarrow> dget (al_ladder_evidence s) = evidence_of w \<Longrightarrow> Q s w'"
  shows "wp ledger_read_op Q w"
proof -
  obtain s verdict ow where l: "ledger_load (lw_owner w) (lw_store w) = (s, verdict, ow)"
    by (cases "ledger_load (lw_owner w) (lw_store w)")
  let ?w = "w\<lparr>lw_owner := ow\<rparr>"
  have "evidence_of ?w = evidence_of w" "dget (al_ladder_evidence s) = evidence_of w"
    using l ledger_load_again [OF l] by (simp_all add: evidence_of_def ledger_of_def ledger_read_def)
  moreover have "owner_ok ow" using assms(1) ledger_load_owner(1) [of "lw_owner w" "lw_store w"] l by (simp add: sound_log_def)
  ultimately show ?thesis
    using assms l by (simp add: wp_def ledger_read_op_def sound_log_def)
qed

lemma wp_record [wp_intro]:
  assumes "sound_seams sm" "sound_log w" "k \<in> set LADDER_KEYS"
    and "\<And>w'. sound_log w' \<Longrightarrow> evidence_of w' = (evidence_of w)(k \<mapsto> v) \<Longrightarrow> Q () w'"
  shows "wp (record_evidence sm k v) Q w"
proof -
  have "card (insert k (dom (evidence_of w))) \<le> card (set LADDER_KEYS)"
    using assms(2, 3) by (intro card_mono) (auto simp: sound_log_def)
  also have "\<dots> \<le> length LADDER_KEYS" by (rule card_length)
  also have "\<dots> \<le> LADDER_EVIDENCE_CAP"
    by (simp add: LADDER_KEYS_def CLEANUP_LADDER_ORDER_def SALVAGE_KINDS_def LAST_RESORT_PRECONDITIONS_def LADDER_EVIDENCE_CAP_def)
  finally have room: "card (insert k (dom (evidence_of w))) \<le> LADDER_EVIDENCE_CAP" .
  have "owner_ok (lw_owner w)" "sm_evidence_write_ok sm (lw_trace w)"
    using assms(1, 2) by (auto simp: sound_log_def sound_seams_def)
  from record_evidence_sound [OF this room, of v] obtain w1 where
    "record_evidence sm k v w = (Inr (), w1)" "owner_ok (lw_owner w1)" "evidence_of w1 = (evidence_of w)(k \<mapsto> v)"
    by blast
  then show ?thesis using assms(2-4) by (auto simp: wp_def sound_log_def)
qed
lemma rung_key_inj [simp]: "rung_key r = rung_key r' \<longleftrightarrow> r = r'"
  by (cases r; cases r') (simp_all add: rung_key_def RUNG_ACTION_VALUE_def)

lemma rung_key_Cons [simp]:
  "rung_key r = c # x \<longleftrightarrow> c = CHR ''r'' \<and> ''ung:'' @ RUNG_ACTION_VALUE r = x"
  "c # x = rung_key r \<longleftrightarrow> c = CHR ''r'' \<and> ''ung:'' @ RUNG_ACTION_VALUE r = x"
  by (auto simp: rung_key_def)

lemma ladder_keys [simp]:
  "rung_key r \<in> set LADDER_KEYS" "''preserved:alternate_preservation'' \<in> set LADDER_KEYS"
  "''preserved:quarantine'' \<in> set LADDER_KEYS" "''preserved:fresh_worktree'' \<in> set LADDER_KEYS"
  "''salvage:fresh_worktree_rebuild'' \<in> set LADDER_KEYS" "''salvage:resolver_agent'' \<in> set LADDER_KEYS"
  by (cases r) (simp_all add: LADDER_KEYS_def CLEANUP_LADDER_ORDER_def SALVAGE_KINDS_def)

text \<open>The rung has a recorded outcome and no other rung's record changed.\<close>

definition finished_by :: "cleanup_ladder_rung \<Rightarrow> ladder_world \<Rightarrow> ladder_step_result \<Rightarrow> ladder_world \<Rightarrow> bool" where
  "finished_by r w res w' =
     (ls_rung res = r \<and> sound_log w' \<and> evidence_of w' (rung_key r) \<notin> {None, Some ''intent''}
      \<and> (\<forall>r'. r' \<noteq> r \<longrightarrow> evidence_of w' (rung_key r') = evidence_of w (rung_key r')))"

lemma wp_conclude [wp_intro]:
  assumes "sound_seams sm" "sound_log w"
    and "\<And>w'. sound_log w' \<Longrightarrow> evidence_of w' = (evidence_of w)(rung_key r \<mapsto> v)
           \<Longrightarrow> Q (step_result r oc v [(rung_key r, v)]) w'"
  shows "wp (conclude sm r oc v) Q w"
  unfolding conclude_def using assms by (auto intro!: wp_intro)

lemma wp_quarantine_loop [wp_intro]:
  assumes "sound_log w" "\<And>x w'. sound_log w' \<Longrightarrow> evidence_of w' = evidence_of w \<Longrightarrow> Q x w'"
  shows "wp (quarantine_loop sm dir moved ps) Q w"
  using assms
proof (induction ps arbitrary: moved w)
  case (Cons p ps)
  show ?case
    by (auto intro!: wp_intro Cons.prems Cons.IH split: option.split)
qed (auto intro!: wp_intro)

lemma wp_mono: "wp m Q w \<Longrightarrow> (\<And>x w'. Q x w' \<Longrightarrow> Q' x w') \<Longrightarrow> wp m Q' w"
  by (auto simp: wp_def split: sum.splits prod.splits)

lemma finished_from:
  assumes "wp m (finished_by r w1) w1" "evidence_of w1 = (evidence_of w)(rung_key r \<mapsto> v)"
  shows "wp m (finished_by r w) w1"
  using assms(1) by (rule wp_mono) (use assms(2) in \<open>auto simp: finished_by_def\<close>)

lemma finished_sidecar:
  "sound_seams sm \<Longrightarrow> sound_log w \<Longrightarrow>
   wp (write_sidecar sm d hl ps h) (finished_by Rung_alternate_preservation w) w"
  unfolding write_sidecar_def sidecar_copies_def Let_def
  by (auto intro!: wp_intro simp: finished_by_def step_result_def)

lemma finished_preserve:
  assumes sm: "sound_seams sm" and w: "sound_log w"
  shows "wp (preserve_via_temp_index sm d ow hl) (finished_by Rung_alternate_preservation w) w"
proof -
  have side: "wp (write_sidecar sm d hl ps h) (finished_by Rung_alternate_preservation w) w1"
    if "sound_log w1" "evidence_of w1 = (evidence_of w)(rung_key Rung_alternate_preservation \<mapsto> ''intent'')" for w1 ps h
    using finished_sidecar [OF sm that(1)] that(2) by (rule finished_from)
  show ?thesis
    unfolding preserve_via_temp_index_def
    by (auto intro!: wp_intro sm w side split: option.splits list.splits)
       (auto simp: finished_by_def step_result_def)
qed

lemma finished_quarantine:
  "sound_seams sm \<Longrightarrow> sound_log w \<Longrightarrow> wp (quarantine_and_restore sm d ps) (finished_by Rung_quarantine w) w"
  unfolding quarantine_and_restore_def Let_def
  by (auto intro!: wp_intro split: option.splits prod.splits) (auto simp: finished_by_def step_result_def)

lemma finished_landing:
  "sound_seams sm \<Longrightarrow> sound_log w \<Longrightarrow> wp (land_from_fresh sm f t sha h) (finished_by Rung_fresh_worktree w) w"
  unfolding land_from_fresh_def
  by (auto intro!: wp_intro) (auto simp: finished_by_def step_result_def)

lemma finished_rebuild:
  assumes sm: "sound_seams sm" and w: "sound_log w"
  shows "wp (rebuild_in_fresh_worktree sm rd t d p e) (finished_by Rung_fresh_worktree w) w"
proof -
  have land: "wp (land_from_fresh sm f t sha h) (finished_by Rung_fresh_worktree w) w1"
    if "sound_log w1" "evidence_of w1 = (evidence_of w)(rung_key Rung_fresh_worktree \<mapsto> ''intent'')" for w1 f sha h
    using finished_landing [OF sm that(1)] that(2) by (rule finished_from)
  show ?thesis
    unfolding rebuild_in_fresh_worktree_def Let_def
    by (auto intro!: wp_intro sm w land split: option.splits) (auto simp: finished_by_def step_result_def)
qed

lemma wp_adapt [wp_intro]:
  "sound_log w \<Longrightarrow> (\<And>x w'. sound_log w' \<Longrightarrow> evidence_of w' = evidence_of w \<Longrightarrow> Q x w') \<Longrightarrow>
   wp (adapt_environment sm d f) Q w"
  unfolding adapt_environment_def
  by (auto intro!: wp_intro split: option.splits environment_failure.splits)

lemma finished_degrade:
  "sound_seams sm \<Longrightarrow> sound_log w \<Longrightarrow>
   wp (adapt_environment_and_retry sm d rm) (finished_by Rung_environment_degrade w) w"
  unfolding adapt_environment_and_retry_def Let_def
  by (auto intro!: wp_intro split: option.splits) (auto simp: finished_by_def step_result_def waiting_value_def)

lemma finished_disabled:
  "sound_seams sm \<Longrightarrow> sound_log w \<Longrightarrow> lr_decided_signature rq = [] \<Longrightarrow>
   wp (last_resort_recovery sm d rq) (finished_by Rung_last_resort w) w"
  unfolding last_resort_recovery_def
  by (auto intro!: wp_intro) (auto simp: finished_by_def step_result_def LAST_RESORT_DISABLED_NO_SIGNATURE_def)

lemma finished_rung:
  assumes "sound_seams sm" "sound_log w" "lr_decided_signature rq = []"
  shows "wp (run_ladder_rung sm r rq) (finished_by r w) w"
proof (cases r)
  case Rung_normal_cleanup
  then show ?thesis using assms
    by (auto simp: run_ladder_rung_def Let_def finished_by_def step_result_def intro!: wp_intro)
qed (use assms finished_preserve finished_quarantine finished_rebuild finished_degrade finished_disabled in
  \<open>simp_all add: run_ladder_rung_def Let_def last_resort_request.defs\<close>)

section \<open>The climb\<close>

text \<open>Exactly the first \<open>n\<close> rungs have a recorded outcome.\<close>

definition climbed :: "nat \<Rightarrow> ladder_world \<Rightarrow> bool" where
  "climbed n w = (sound_log w \<and>
     (\<forall>r. evidence_of w (rung_key r) \<in> {None, Some ''intent''} \<longleftrightarrow> r \<in> set (drop n CLEANUP_LADDER_ORDER)))"

definition climb_rung :: "nat \<Rightarrow> cleanup_ladder_rung" where
  "climb_rung n = (if n < 6 then CLEANUP_LADDER_ORDER ! n else Rung_last_resort)"

lemma less_6_cases: "n < 6 \<Longrightarrow> n = 0 \<or> n = 1 \<or> n = 2 \<or> n = 3 \<or> n = 4 \<or> n = (5::nat)"
  by arith

lemma find_drop:
  assumes "distinct xs" "\<And>x. x \<in> set xs \<Longrightarrow> P x \<longleftrightarrow> x \<in> set (drop n xs)"
  shows "List.find P xs = (if n < length xs then Some (xs ! n) else None)"
  using assms
proof (induction xs arbitrary: n)
  case (Cons x xs)
  show ?case
  proof (cases n)
    case (Suc m)
    have "x \<notin> set (drop m xs)" using Cons.prems(1) by (auto dest: in_set_dropD)
    then have "\<not> P x" using Cons.prems(2) [of x] Suc by simp
    then show ?thesis using Cons.IH [of m] Cons.prems Suc by simp
  qed (use Cons.prems in simp)
qed simp

lemma resume_climbed:
  assumes "climbed n w" "dget (al_ladder_evidence s) = evidence_of w"
  shows "(case resume_rung s of None \<Rightarrow> Rung_last_resort | Some r \<Rightarrow> r) = climb_rung n"
proof -
  have "distinct CLEANUP_LADDER_ORDER" "length CLEANUP_LADDER_ORDER = 6" by (simp_all add: CLEANUP_LADDER_ORDER_def)
  then show ?thesis
    using find_drop [of CLEANUP_LADDER_ORDER "\<lambda>r. evidence_of w (rung_key r) \<in> {None, Some ''intent''}" n] assms
    unfolding resume_rung_def climbed_def climb_rung_def by simp
qed

lemma climbed_step:
  assumes "climbed n w" "finished_by (climb_rung n) w res w'"
  shows "climbed (Suc n) w' \<and> ls_rung res = climb_rung n"
proof -
  have "r \<in> set (drop (Suc n) CLEANUP_LADDER_ORDER) \<longleftrightarrow> r \<noteq> climb_rung n \<and> r \<in> set (drop n CLEANUP_LADDER_ORDER)" for r
  proof (cases "n < 6")
    case True
    then show ?thesis using less_6_cases [OF True] by (cases r) (auto simp: CLEANUP_LADDER_ORDER_def climb_rung_def)
  qed (simp add: CLEANUP_LADDER_ORDER_def)
  then show ?thesis using assms unfolding climbed_def finished_by_def by metis
qed

lemma wp_iff: "wp m Q w \<longleftrightarrow> (\<exists>x w'. m w = (Inr x, w') \<and> Q x w')"
proof -
  obtain r w1 where "m w = (r, w1)" by (cases "m w")
  then show ?thesis by (cases r) (auto simp: wp_def)
qed

lemma escalation_step:
  assumes "sound_seams sm" "climbed n w"
  shows "wp (escalate_record_fact_outcome sm rd rt oc reason sd target branch tip)
           (\<lambda>res w'. climbed (Suc n) w' \<and> ls_rung res = climb_rung n) w"
proof -
  let ?rq = "(default_rung_request rd)\<lparr>lr_target := (case target of None \<Rightarrow> rt | Some t \<Rightarrow> t),
     lr_branch := branch, lr_feature_tip := tip, rq_state_dir := sd\<rparr>"
  have run: "wp (run_ladder_rung sm (climb_rung n) ?rq) (\<lambda>res w'. climbed (Suc n) w' \<and> ls_rung res = climb_rung n) w1"
    if "climbed n w1" for w1
  proof -
    have "sound_log w1" using that by (simp add: climbed_def)
    then have "wp (run_ladder_rung sm (climb_rung n) ?rq) (finished_by (climb_rung n) w1) w1"
      by (intro finished_rung assms(1)) (auto simp: default_rung_request_def)
    then show ?thesis using climbed_step [OF that] by (rule wp_mono)
  qed
  have rest: "wp (lbind ledger_read_op (\<lambda>s. run_ladder_rung sm
        (case resume_rung s of None \<Rightarrow> Rung_last_resort | Some r \<Rightarrow> r) ?rq))
      (\<lambda>res w'. climbed (Suc n) w' \<and> ls_rung res = climb_rung n) w1" if c: "climbed n w1" for w1
  proof (rule wp_lbind, rule wp_read)
    show "sound_log w1" using c by (simp add: climbed_def)
    fix s :: attempt_ledger_state and w2 assume 2: "sound_log w2" "evidence_of w2 = evidence_of w1" "dget (al_ladder_evidence s) = evidence_of w1"
    then have "climbed n w2" using c by (simp add: climbed_def)
    then show "wp (run_ladder_rung sm (case resume_rung s of None \<Rightarrow> Rung_last_resort | Some r \<Rightarrow> r) ?rq)
        (\<lambda>res w'. climbed (Suc n) w' \<and> ls_rung res = climb_rung n) w2"
      using run resume_climbed [of n w2 s] 2 by simp
  qed
  have salvage: "climbed n w1" if "sound_log w1" "evidence_of w1 = (evidence_of w)(''salvage:resolver_agent'' \<mapsto> v)" for w1 v
    using assms(2) that by (auto simp: climbed_def)
  have "sound_log w" using assms(2) by (simp add: climbed_def)
  then have "wp (record_evidence sm ''salvage:resolver_agent'' (''failed:'' @ reason))
      (\<lambda>_. wp (lbind ledger_read_op (\<lambda>s. run_ladder_rung sm
        (case resume_rung s of None \<Rightarrow> Rung_last_resort | Some r \<Rightarrow> r) ?rq))
      (\<lambda>res w'. climbed (Suc n) w' \<and> ls_rung res = climb_rung n)) w"
    by (intro wp_record [OF assms(1)] rest salvage) simp_all
  then have "wp (if oc = Diagnostic_budget_spent
        then record_salvage_attempt sm ''resolver_agent'' (''failed:'' @ reason) else lret ())
      (\<lambda>_. wp (lbind ledger_read_op (\<lambda>s. run_ladder_rung sm
        (case resume_rung s of None \<Rightarrow> Rung_last_resort | Some r \<Rightarrow> r) ?rq))
      (\<lambda>res w'. climbed (Suc n) w' \<and> ls_rung res = climb_rung n)) w"
    using rest [OF assms(2)] by (auto simp: record_salvage_attempt_def SALVAGE_KINDS_def intro!: wp_lret)
  then show ?thesis
    unfolding escalate_record_fact_outcome_def Let_def by (rule wp_lbind)
qed

text \<open>Consecutive escalations of record facts, each with its own outcome and reason.\<close>

fun escalations ::
  "ladder_seams \<Rightarrow> string \<Rightarrow> string \<Rightarrow> (record_fact_outcome \<times> string) list \<Rightarrow> ladder_step_result list ladder" where
  "escalations sm rd rt [] = lret []"
| "escalations sm rd rt ((oc, reason) # rest) =
     lbind (escalate_record_fact_outcome sm rd rt oc reason None None ''feature'' None) (\<lambda>res.
     lbind (escalations sm rd rt rest) (\<lambda>ress. lret (res # ress)))"

lemma escalations_climb:
  assumes "sound_seams sm" "climbed n w"
  shows "wp (escalations sm rd rt evs)
    (\<lambda>ress w'. climbed (n + length evs) w' \<and> map ls_rung ress = map climb_rung [n..<n + length evs]) w"
  using assms(2)
proof (induction evs arbitrary: n w)
  case Nil
  then show ?case by (auto intro!: wp_lret)
next
  case (Cons ev evs)
  obtain oc reason where ev: "ev = (oc, reason)" by (cases ev)
  have step: "wp (lbind (escalations sm rd rt evs) (\<lambda>ress. lret (res # ress)))
      (\<lambda>ress w'. climbed (n + length (ev # evs)) w' \<and> map ls_rung ress = map climb_rung [n..<n + length (ev # evs)]) w1"
    if "climbed (Suc n) w1" "ls_rung res = climb_rung n" for res w1
    by (rule wp_lbind, rule wp_mono [OF Cons.IH [OF that(1)]], rule wp_lret)
       (use that(2) in \<open>simp add: upt_conv_Cons del: upt_Suc\<close>)
  show ?case
    unfolding ev escalations.simps
    by (rule wp_lbind, rule wp_mono [OF escalation_step [OF assms(1) Cons.prems]])
       (elim conjE, rule step [unfolded ev], assumption+)
qed

text \<open>
  C36: The climb.  On sound storage every escalation of a record fact returns, the escalations from a
  ledger with no finished rung execute the rungs in order, one each, and from the sixth on every
  escalation executes the last resort.
\<close>

theorem escalations_climb_in_order:
  assumes "sound_seams sm" "sound_log w"
    and "\<forall>r. evidence_of w (rung_key r) \<in> {None, Some ''intent''}"
  shows "\<exists>ress w'. escalations sm rd rt evs w = (Inr ress, w')
    \<and> map ls_rung ress = map (\<lambda>i. if i < 6 then CLEANUP_LADDER_ORDER ! i else Rung_last_resort) [0..<length evs]"
proof -
  have "r \<in> set CLEANUP_LADDER_ORDER" for r by (cases r) (simp_all add: CLEANUP_LADDER_ORDER_def)
  then have "climbed 0 w" using assms(2, 3) by (simp add: climbed_def)
  from escalations_climb [OF assms(1) this, of rd rt evs] show ?thesis
    by (auto simp: wp_iff climb_rung_def simp del: upt_Suc)
qed

text \<open>Seams over a repository with nothing to do, and a first run.\<close>

definition calm_seams :: ladder_seams where
  "calm_seams =
     \<lparr>sm_evidence_write_ok = (\<lambda>_. True), sm_changed_paths = (\<lambda>_. Some []), sm_head_sha = (\<lambda>_. Some ''h''),
      sm_target_sha = (\<lambda>_ _. Some ''t''), sm_commit_dirt = (\<lambda>_. None), sm_ref_is_readable = (\<lambda>_ _. True),
      sm_prune_landed_refs = (\<lambda>_. []), sm_write_patch = (\<lambda>_. True), sm_archive_paths = (\<lambda>_. True),
      sm_restore_tree = (\<lambda>_. True), sm_abort_operation = (\<lambda>_. True), sm_remove_operation_state = (\<lambda>_. True),
      sm_reset_hard = (\<lambda>_. True), sm_clean_untracked = (\<lambda>_. True), sm_remove_stale_locks = (\<lambda>_. []),
      sm_recreate_worktree = (\<lambda>_. True), sm_set_safe_directory = (\<lambda>_. True), sm_repair_gitdir = (\<lambda>_. True),
      sm_create_worktree = (\<lambda>_. True), sm_apply_preserved = (\<lambda>_. True), sm_land_in_worktree = (\<lambda>_. Land_landed),
      sm_repoint_original = (\<lambda>_. Repoint_repointed), sm_rename_into_quarantine = (\<lambda>_ p. Some p),
      sm_prune_artifacts = (\<lambda>_. []), sm_path_is_readable = (\<lambda>_ _. True), sm_alternative_state_dir = (\<lambda>_. None),
      sm_failure_class = (\<lambda>_. None), sm_mkdir_ok = (\<lambda>_. True), sm_now = (\<lambda>_. 0), sm_observe = None,
      sm_sha256_hex = (\<lambda>s. s)\<rparr>"

definition first_run_world :: "attempt_ledger_state option \<Rightarrow> ladder_world" where
  "first_run_world held =
     \<lparr>lw_store = \<lparr>ledger_file = (case held of None \<Rightarrow> File_missing | Some s \<Rightarrow> File_json (serialize_ledger s)),
                  tombstone_file = File_missing\<rparr>,
      lw_owner = first_run_owner, lw_trace = [], lw_reminded_at = []\<rparr>"

lemma first_run_evidence: "evidence_of (first_run_world None) = Map.empty"
  by (rule ext) (simp add: evidence_of_def ledger_of_def ledger_read_def ledger_load_def first_run_world_def default_ledger_state_def)

theorem escalations_climb_in_order_witness:
  "\<exists>ress w'. escalations calm_seams ''/r'' ''main'' [(Stale_intent, ''x''), (Diagnostic_budget_spent, ''y'')]
       (first_run_world None) = (Inr ress, w')
     \<and> map ls_rung ress = [Rung_normal_cleanup, Rung_alternate_preservation]"
proof -
  have "sound_seams calm_seams" by (simp add: sound_seams_def calm_seams_def)
  moreover have "sound_log (first_run_world None)" unfolding sound_log_def first_run_evidence
    by (simp add: first_run_world_def owner_ok_def first_run_owner_def)
  moreover have "\<forall>r. evidence_of (first_run_world None) (rung_key r) \<in> {None, Some ''intent''}"
    by (simp add: first_run_evidence)
  moreover have "[0..<length [(Stale_intent, ''x''), (Diagnostic_budget_spent, ''y'')]] = [0, 1]"
    by (simp add: upt_rec)
  ultimately show ?thesis
    using escalations_climb_in_order [of calm_seams "first_run_world None" "''/r''" "''main''"
      "[(Stale_intent, ''x''), (Diagnostic_budget_spent, ''y'')]"]
    by (simp add: CLEANUP_LADDER_ORDER_def)
qed

end
