(* ===== verification/Ladder_Outcomes.thy ===== *)
theory Ladder_Outcomes
  imports Ladder_Contracts
begin

text \<open>
  Outcomes of the cleanup ladder: the backoff of the degrade rung and its bound, what a reported
  preservation rests on (partial correctness over the answers in the trace, \<open>wlp\<close>), a run that
  reaches the hard reset, and the behaviours that differ from the module's documentation.
\<close>

section \<open>The degrade rung\<close>

lemma digit_char: "n < 10 \<Longrightarrow> is_digit (char_of (48 + n)) \<and> digit_val (char_of (48 + n)) = n"
  by (simp add: is_digit_def digit_val_def Let_def)

lemma str_nat_digits: "list_all is_digit (str_nat n) \<and> str_nat n \<noteq> []"
proof (induction n rule: str_nat.induct)
  case (1 n)
  then show ?case
    using digit_char [of n] digit_char [of "n mod 10"] by (cases "n < 10") (simp_all add: str_nat.simps [of n])
qed

lemma digit_run_str_nat: "digit_run a p (str_nat n @ cs) = digit_run (a * 10 ^ length (str_nat n) + n) True cs"
proof (induction n arbitrary: a p cs rule: str_nat.induct)
  case (1 n)
  show ?case
  proof (cases "n < 10")
    case True
    then show ?thesis using digit_char [of n] by (simp add: str_nat.simps [of n] algebra_simps)
  next
    case False
    then show ?thesis
      using 1 digit_char [of "n mod 10"] by (simp add: str_nat.simps [of n] algebra_simps)
  qed
qed

lemma digit_not: "is_digit c \<Longrightarrow> \<not> is_space c \<and> c \<noteq> CHR '':'' \<and> c \<noteq> CHR ''-'' \<and> c \<noteq> CHR ''+''"
  by (auto simp: is_digit_def is_space_def Let_def)

lemma py_int_str_nat: "py_int (str_nat n) = Some (int n)"
proof -
  have d: "list_all is_digit (str_nat n)" "str_nat n \<noteq> []" using str_nat_digits by auto
  have "dropWhile is_space xs = xs" if "list_all is_digit xs" for xs
    using that digit_not by (cases xs) auto
  then have s: "strip (str_nat n) = str_nat n" using d(1) by (simp add: strip_def list_all_rev)
  obtain c cs where c: "str_nat n = c # cs" using d(2) by (cases "str_nat n") auto
  then have "split_sign (str_nat n) = (1, str_nat n)" using d(1) digit_not [of c] by (simp add: split_sign_def)
  then show ?thesis using s digit_run_str_nat [of 0 False n "[]"] by (simp add: py_int_def)
qed

lemma waiting_count_value:
  assumes "dget (al_ladder_evidence s) key = Some (waiting_value n ft ad fr)"
  shows "waiting_count s key = n + 1"
proof -
  have d: "list_all is_digit (str_nat (n + 1))" "str_nat (n + 1) \<noteq> []" using str_nat_digits by auto
  have "CHR '':'' \<notin> set (str_nat (n + 1))" using d(1) digit_not by (auto simp: list_all_iff)
  note sp = split_max_append [OF this, of 0]
  obtain rest where v: "waiting_value n ft ad fr = ''waiting:n='' @ str_nat (n + 1) @ CHR '':'' # rest"
    by (simp add: waiting_value_def)
  have "hd (split_max (CHR '':'') 1 (drop (length ''waiting:n='') (waiting_value n ft ad fr))) = str_nat (n + 1)"
    unfolding v using sp by simp
  moreover have "starts_with (waiting_value n ft ad fr) ''waiting:n=''" by (simp add: v starts_with_def)
  ultimately show ?thesis
    using assms d py_int_str_nat [of "n + 1"] unfolding waiting_count_def Let_def dget_or_def
    by (simp add: isdecimal_def del: One_nat_def)
qed

lemma backoff_delay_bounds: "1 \<le> backoff_delay n" "backoff_delay n \<le> BACKOFF_CAP_SECONDS"
  "6 \<le> n \<Longrightarrow> backoff_delay n = BACKOFF_CAP_SECONDS"
proof -
  show "1 \<le> backoff_delay n" "backoff_delay n \<le> BACKOFF_CAP_SECONDS"
    by (simp_all add: backoff_delay_def BACKOFF_CAP_SECONDS_def BACKOFF_BASE_SECONDS_def)
  assume "6 \<le> n"
  then have "(2::nat) ^ 6 \<le> 2 ^ min n 10" by (intro power_increasing) auto
  then show "backoff_delay n = BACKOFF_CAP_SECONDS"
    by (simp add: backoff_delay_def BACKOFF_CAP_SECONDS_def BACKOFF_BASE_SECONDS_def)
qed

lemma waited_out: "6 \<le> n \<Longrightarrow> rung_attempt_satisfied (Some (waiting_value n ft ad fr))"
proof -
  assume n: "6 \<le> n"
  have "\<exists>u v. waiting_value n ft ad fr = u @ (''delay='' @ delay_text BACKOFF_CAP_SECONDS) @ v"
    unfolding waiting_value_def backoff_delay_bounds(3) [OF n]
    by (rule exI [of _ "''waiting:n='' @ str_nat (n + 1) @ '':failure='' @ ft @ '':''"]) simp
  then show ?thesis
    unfolding rung_attempt_satisfied_def contains_str_iff [symmetric]
    by (simp add: waiting_value_def starts_with_def)
qed

fun degrade_ticks :: "ladder_seams \<Rightarrow> string \<Rightarrow> string \<Rightarrow> nat \<Rightarrow> unit ladder" where
  "degrade_ticks sm d rm 0 = lret ()"
| "degrade_ticks sm d rm (Suc n) =
     lbind (degrade_ticks sm d rm n) (\<lambda>_. lbind (adapt_environment_and_retry sm d rm) (\<lambda>_. lret ()))"

definition ticked :: "nat \<Rightarrow> ladder_world \<Rightarrow> bool" where
  "ticked n w = (sound_log w \<and>
     (if n = 0 then evidence_of w (rung_key Rung_environment_degrade) = None
      else \<exists>ft ad fr. evidence_of w (rung_key Rung_environment_degrade) = Some (waiting_value (n - 1) ft ad fr)))"

lemma degrade_tick:
  assumes sm: "sound_seams sm" and w: "ticked n w"
  shows "wp (adapt_environment_and_retry sm d rm) (\<lambda>_. ticked (Suc n)) w"
proof -
  have c: "waiting_count s (rung_key Rung_environment_degrade) = n" if "dget (al_ladder_evidence s) = evidence_of w" for s
  proof (cases n)
    case 0
    then show ?thesis using w that by (simp add: ticked_def waiting_count_def dget_or_def starts_with_def Let_def)
  next
    case (Suc m)
    then show ?thesis using w that waiting_count_value by (auto simp: ticked_def)
  qed
  have s: "sound_log w" using w by (simp add: ticked_def)
  show ?thesis
    unfolding adapt_environment_and_retry_def Let_def
    by (auto intro!: wp_intro sm s simp: c split: option.splits) (auto simp: ticked_def c)
qed

text \<open>
  The degrade rung waits itself out: on sound storage each tick returns, and after seven ticks or
  more the recorded value counts as tried, so the rung no longer keeps the last resort out of reach.
\<close>

theorem degrade_waits_out:
  assumes "sound_seams sm" "sound_log w" "evidence_of w (rung_key Rung_environment_degrade) = None" "7 \<le> n"
  shows "\<exists>w'. degrade_ticks sm d rm n w = (Inr (), w')
    \<and> rung_attempt_satisfied (evidence_of w' (rung_key Rung_environment_degrade))"
proof -
  have "wp (degrade_ticks sm d rm m) (\<lambda>_. ticked m) w" for m
  proof (induction m)
    case 0
    then show ?case using assms(2, 3) by (auto intro!: wp_lret simp: ticked_def)
  next
    case (Suc m)
    show ?case
      unfolding degrade_ticks.simps
      by (rule wp_lbind, rule wp_mono [OF Suc.IH], rule wp_lbind, rule wp_mono [OF degrade_tick [OF assms(1)]])
         (auto intro: wp_lret)
  qed
  then show ?thesis
    using assms(4) waited_out by (fastforce simp: wp_iff ticked_def)
qed

theorem degrade_waits_out_witness:
  "\<exists>w'. degrade_ticks calm_seams ''/r/.agent'' ''origin'' 7 (first_run_world None) = (Inr (), w')
     \<and> rung_attempt_satisfied (evidence_of w' (rung_key Rung_environment_degrade))"
proof (rule degrade_waits_out)
  show "sound_seams calm_seams" by (simp add: sound_seams_def calm_seams_def)
  show "sound_log (first_run_world None)" unfolding sound_log_def first_run_evidence
    by (simp add: first_run_world_def owner_ok_def first_run_owner_def)
qed (simp_all add: first_run_evidence)

section \<open>Preservation\<close>

text \<open>What a seam answered, read off the trace.\<close>

definition answered :: "ladder_world \<Rightarrow> ladder_op \<Rightarrow> (ladder_trace \<Rightarrow> bool) \<Rightarrow> bool" where
  "answered w op answer = (\<exists>pre post. lw_trace w = pre @ op # post \<and> answer (pre @ [op]))"

definition later :: "ladder_world \<Rightarrow> ladder_world \<Rightarrow> bool" where
  "later w w' = (\<exists>tr. lw_trace w' = lw_trace w @ tr)"

lemma answered_later: "later w w' \<Longrightarrow> answered w op answer \<Longrightarrow> answered w' op answer"
  unfolding answered_def later_def by (metis append.assoc append_Cons)

lemma later_append [simp]: "lw_trace w' = lw_trace w @ tr \<Longrightarrow> later w w'"
  by (auto simp: later_def)

definition wlp :: "'a ladder \<Rightarrow> ('a \<Rightarrow> ladder_world \<Rightarrow> bool) \<Rightarrow> ladder_world \<Rightarrow> bool" where
  "wlp m Q w = (case m w of (Inl _, _) \<Rightarrow> True | (Inr x, w') \<Rightarrow> Q x w')"

lemma wlp_lret: "Q x w \<Longrightarrow> wlp (lret x) Q w"
  by (simp add: wlp_def lret_def)

lemma wlp_lbind: "wlp m (\<lambda>x. wlp (f x) Q) w \<Longrightarrow> wlp (lbind m f) Q w"
  by (auto simp: wlp_def lbind_def split: sum.splits prod.splits)

lemma wlp_call:
  "(\<And>x w'. later w w' \<Longrightarrow> answered w' op (\<lambda>t. a t = x) \<Longrightarrow> Q x w') \<Longrightarrow> wlp (call op a) Q w"
proof -
  let ?w = "w\<lparr>lw_trace := lw_trace w @ [op]\<rparr>"
  assume "\<And>x w'. later w w' \<Longrightarrow> answered w' op (\<lambda>t. a t = x) \<Longrightarrow> Q x w'"
  moreover have "later w ?w" by simp
  moreover have "answered ?w op (\<lambda>t. a t = a (lw_trace w @ [op]))"
    unfolding answered_def by (intro exI [of _ "lw_trace w"] exI [of _ "[]"]) simp
  ultimately show ?thesis by (simp add: wlp_def call_def Let_def)
qed

lemma wlp_make_dir: "(\<And>w'. later w w' \<Longrightarrow> Q () w') \<Longrightarrow> wlp (make_dir sm d) Q w"
  by (simp add: wlp_def make_dir_def)

lemma wlp_record: "(\<And>w'. later w w' \<Longrightarrow> Q () w') \<Longrightarrow> wlp (record_evidence sm k v) Q w"
  by (cases rule: record_evidence_cases [of sm k v w]) (simp_all add: wlp_def)

lemma wlp_conclude:
  "(\<And>w'. later w w' \<Longrightarrow> Q (step_result r oc v [(rung_key r, v)]) w') \<Longrightarrow> wlp (conclude sm r oc v) Q w"
  unfolding conclude_def by (auto intro!: wlp_lbind wlp_record wlp_lret)

lemmas wlp_intro = wlp_lret wlp_lbind wlp_call wlp_make_dir wlp_record wlp_conclude

text \<open>What a successful preservation rests on.\<close>

definition durable_copy :: "ladder_seams \<Rightarrow> ladder_world \<Rightarrow> ladder_step_result \<Rightarrow> bool" where
  "durable_copy sm w res =
     (answered w Op_changed_paths (\<lambda>t. sm_changed_paths sm t = Some [])
      \<or> (\<exists>ref. ls_preserved_ref res = Some ref
           \<and> answered w (Op_ref_is_readable ref) (\<lambda>t. sm_ref_is_readable sm t ref = True))
      \<or> (\<exists>patch tar. ls_preserved_sidecar res = Some patch
           \<and> answered w (Op_path_is_readable patch) (\<lambda>t. sm_path_is_readable sm t patch = True)
           \<and> answered w (Op_path_is_readable tar) (\<lambda>t. sm_path_is_readable sm t tar = True)))"

lemma durable_later: "later w w' \<Longrightarrow> durable_copy sm w res \<Longrightarrow> durable_copy sm w' res"
  unfolding durable_copy_def by (meson answered_later)

definition verified :: "ladder_seams \<Rightarrow> ladder_step_result \<Rightarrow> ladder_world \<Rightarrow> bool" where
  "verified sm res w = (ls_outcome res = Lad_succeeded \<longrightarrow> durable_copy sm w res)"

lemma copies_verified: "wlp (sidecar_copies sm dirt patch tar) (verified sm) w"
  unfolding sidecar_copies_def
  by (auto intro!: wlp_intro simp: verified_def durable_copy_def step_result_def) (meson answered_later)+

lemma sidecar_verified: "wlp (write_sidecar sm d hl dirt h) (verified sm) w"
  unfolding write_sidecar_def Let_def by (auto intro!: wlp_intro copies_verified)

text \<open>
  Rung 2 reports success only over a durable copy: there was nothing to preserve, or the
  preservation ref was read back, or the patch and the archive were both read back.
\<close>

theorem preservation_verified:
  assumes "preserve_via_temp_index sm d ow hl w = (Inr res, w')" "ls_outcome res = Lad_succeeded"
  shows "durable_copy sm w' res"
proof -
  have "wlp (preserve_via_temp_index sm d ow hl) (verified sm) w"
    unfolding preserve_via_temp_index_def
    by (auto intro!: wlp_intro sidecar_verified split: option.splits list.splits)
       (auto simp: verified_def durable_copy_def step_result_def, (meson answered_later)+)
  then show ?thesis using assms by (simp add: wlp_def verified_def)
qed

lemma wp_answer:
  "sound_log w \<Longrightarrow> (\<And>w'. sound_log w' \<Longrightarrow> Q (a (lw_trace w @ [op])) w') \<Longrightarrow> wp (call op a) Q w"
  using same_files [of "w\<lparr>lw_trace := lw_trace w @ [op]\<rparr>" w] by (simp add: wp_def call_def Let_def)

lemma calm_sound: "sound_seams calm_seams" "sound_log (first_run_world None)"
  by (simp add: sound_seams_def calm_seams_def)
     (simp add: sound_log_def first_run_evidence, simp add: first_run_world_def owner_ok_def first_run_owner_def)

theorem preservation_verified_witness:
  "\<exists>res w'. preserve_via_temp_index calm_seams ''/r/.agent'' None False (first_run_world None) = (Inr res, w')
     \<and> durable_copy calm_seams w' res"
proof -
  have c: "sm_changed_paths calm_seams tr = Some []" for tr by (simp add: calm_seams_def)
  have "wp (preserve_via_temp_index calm_seams ''/r/.agent'' None False)
      (\<lambda>res _. ls_outcome res = Lad_succeeded) (first_run_world None)"
    unfolding preserve_via_temp_index_def
    by (auto intro!: wp_lbind wp_record wp_answer wp_conclude calm_sound simp: c step_result_def)
  then show ?thesis using preservation_verified by (fastforce simp: wp_iff)
qed

section \<open>A run that reaches the hard reset\<close>

lemma reaches_call:
  assumes "\<And>x. emits (\<lambda>_. True) (f x)"
  shows "op \<in> set (lw_trace (snd (lbind (call op a) f w)))"
proof -
  let ?w = "w\<lparr>lw_trace := lw_trace w @ [op]\<rparr>"
  obtain tr where "lw_trace (snd (f (a (lw_trace w @ [op])) ?w)) = lw_trace ?w @ tr"
    using assms unfolding emits_def by blast
  then show ?thesis by (simp add: lbind_def call_def Let_def)
qed

lemma lbind_lret: "lbind (lret x) f = f x"
  by (rule ext) (simp add: lbind_def lret_def)

lemma lbind_read: "lbind ledger_read_op f w = f (ledger_of w) (snd (ledger_read_op w))"
  by (simp add: lbind_def ledger_read_op_def ledger_of_def ledger_read_def Let_def split: prod.splits)

lemma reset_phase_resets:
  assumes "lr_paths rq = []" "lr_in_progress_kind rq = Op_none" "lr_feature_tip rq = None"
  shows "Op_reset_hard (lr_target rq) \<in> set (lw_trace (snd (reset_phase sm d rq pre w)))"
  unfolding reset_phase_def using assms
  by (simp add: lbind_read lbind_lret) (auto intro!: reaches_call emits_intro)

lemma wp_record_preconditions:
  assumes "sound_seams sm" "sound_log w" "\<forall>(k, _)\<in>set kvs. precondition_key k \<in> set LADDER_KEYS"
    and "\<And>w'. sound_log w' \<Longrightarrow> Q () w'"
  shows "wp (record_preconditions sm kvs) Q w"
  using assms(2, 3)
proof (induction kvs arbitrary: w)
  case (Cons kv kvs)
  obtain k v where kv: "kv = (k, v)" by (cases kv)
  show ?case unfolding kv using Cons kv by (auto intro!: wp_lbind wp_record assms(1))
qed (auto intro!: wp_lret assms)

definition spent_ledger :: attempt_ledger_state where
  "spent_ledger = (default_ledger_state first_run_owner)
     \<lparr>al_repeat_counts := [((''s'', ''save_and_restore''), 16)],
      al_ladder_evidence := map (\<lambda>r. (rung_key r, ''failed'')) (butlast CLEANUP_LADDER_ORDER)
        @ map (\<lambda>kind. (''salvage:'' @ kind, ''failed'')) SALVAGE_KINDS\<rparr>"

definition reset_request :: rung_request where
  "reset_request = (default_rung_request ''/r'')\<lparr>lr_decided_signature := ''s'', lr_fresh_signature := ''s''\<rparr>"

lemma spent_evidence: "evidence_of (first_run_world (Some spent_ledger)) = dget (al_ladder_evidence spent_ledger)"
  "al_repeat_counts (ledger_of (first_run_world (Some spent_ledger))) = al_repeat_counts spent_ledger"
  "al_saturated_repeats (ledger_of (first_run_world (Some spent_ledger))) = 0"
proof -
  have ok: "attempt_ledger_ok spent_ledger"
    by (simp add: attempt_ledger_ok_def spent_ledger_def default_ledger_state_def counts_ok_def first_run_owner_def
        dkeys_def REPEAT_CAP_def MAX_SATURATED_REPEATS_def LADDER_EVIDENCE_CAP_def CLEANUP_LADDER_ORDER_def
        SALVAGE_KINDS_def)
  let ?w = "first_run_world (Some spent_ledger)"
  have "ledger_of ?w = spent_ledger\<lparr>al_ladder_evidence := sort_key fst (al_ladder_evidence spent_ledger)\<rparr>"
    using read_written [OF _ ok, of "lw_store ?w" "lw_owner ?w"]
    by (simp add: ledger_of_def ledger_read_def first_run_world_def)
  moreover have "distinct (dkeys (al_ladder_evidence spent_ledger))" using ok by (simp add: attempt_ledger_ok_def)
  ultimately show "evidence_of ?w = dget (al_ladder_evidence spent_ledger)"
    "al_repeat_counts (ledger_of ?w) = al_repeat_counts spent_ledger" "al_saturated_repeats (ledger_of ?w) = 0"
    by (simp_all add: evidence_of_def dget_sort) (simp add: spent_ledger_def default_ledger_state_def)
qed

lemma ladder_keys_length: "length LADDER_KEYS = 18" "18 \<le> LADDER_EVIDENCE_CAP"
  by code_simp+

lemma spent_facts:
  "list_all (\<lambda>r. dget (al_ladder_evidence spent_ledger) (rung_key r) = Some ''failed'' \<and> r \<noteq> Rung_last_resort)
     (butlast CLEANUP_LADDER_ORDER)"
  "list_all (\<lambda>kind. dget (al_ladder_evidence spent_ledger) (''salvage:'' @ kind) = Some ''failed'') SALVAGE_KINDS"
  "set (dkeys (al_ladder_evidence spent_ledger)) \<subseteq> set LADDER_KEYS"
  "length (al_ladder_evidence spent_ledger) = 8"
  by code_simp+

lemma spent_terminal: "is_terminal (Some ''failed'')" "rung_attempt_satisfied (Some ''failed'')"
  by code_simp+

theorem hard_reset_contract_witness:
  "\<exists>res w'. run_ladder_rung calm_seams Rung_last_resort reset_request (first_run_world (Some spent_ledger)) = (res, w')
     \<and> Op_reset_hard ''main'' \<in> set (lw_trace w') \<and> destructive (Op_reset_hard ''main'')
     \<and> hd (lw_trace w') = Op_evidence (rung_key Rung_last_resort) ''intent''
     \<and> 16 \<le> ladder_charge_count (intent_recorded calm_seams (first_run_world (Some spent_ledger)))"
proof -
  let ?w = "first_run_world (Some spent_ledger)" and ?rq = "last_resort_request.truncate reset_request"
  have "owner_ok (lw_owner ?w)" by (simp add: first_run_world_def owner_ok_def first_run_owner_def)
  moreover have "sm_evidence_write_ok calm_seams (lw_trace ?w)" by (simp add: calm_seams_def)
  moreover have keys: "dom (evidence_of ?w) \<subseteq> set LADDER_KEYS"
    unfolding spent_evidence using spent_facts(3) by (auto simp: din_iff [symmetric] din_def)
  moreover have "card (insert (rung_key Rung_last_resort) (dom (evidence_of ?w))) \<le> LADDER_EVIDENCE_CAP"
  proof -
    have "card (insert (rung_key Rung_last_resort) (dom (evidence_of ?w))) \<le> card (set LADDER_KEYS)"
      using keys by (intro card_mono) auto
    also have "\<dots> \<le> length LADDER_KEYS" by (rule card_length)
    finally show ?thesis using ladder_keys_length by simp
  qed
  ultimately obtain w1 where w1: "record_evidence calm_seams (rung_key Rung_last_resort) ''intent'' ?w = (Inr (), w1)"
    "owner_ok (lw_owner w1)" "evidence_of w1 = (evidence_of ?w)(rung_key Rung_last_resort \<mapsto> ''intent'')"
    "al_repeat_counts (ledger_of w1) = al_repeat_counts spent_ledger" "al_saturated_repeats (ledger_of w1) = 0"
    using record_evidence_sound [of ?w calm_seams "rung_key Rung_last_resort" "''intent''"] spent_evidence by auto
  have s1: "sound_log w1" using w1(2, 3) keys by (auto simp: sound_log_def)
  have ir: "intent_recorded calm_seams ?w = ledger_of w1" by (simp add: intent_recorded_def w1(1) ledger_of_def)
  let ?pre = "evaluate_last_resort_preconditions (ledger_of w1) ''s'' ''s'' 16"
  have met: "List.find (\<lambda>(_, v). starts_with v ''unmet'') ?pre = None"
    unfolding preconditions_met_iff
    using w1(3-5) spent_facts(1, 2) spent_terminal unfolding evidence_of_def [of w1] spent_evidence
    by (auto simp: list_all_iff ladder_charge_count_def spent_ledger_def LADDER_ACTION_VALUES_def RUNG_ACTION_VALUE_def
        CLEANUP_LADDER_ORDER_def)
  obtain w2 where w2: "ledger_read_op w1 = (Inr (ledger_of w1), w2)" "sound_log w2"
  proof -
    have "wp ledger_read_op (\<lambda>s w'. s = ledger_of w1 \<and> sound_log w') w1"
      using wp_read [OF s1, of "\<lambda>_. sound_log"]
      by (auto simp: wp_def ledger_read_op_def ledger_of_def ledger_read_def Let_def split: prod.splits)
    then show ?thesis using that by (auto simp: wp_iff)
  qed
  have "\<forall>(k, _)\<in>set ?pre. precondition_key k \<in> set LADDER_KEYS"
    unfolding evaluate_last_resort_preconditions_def Let_def LADDER_KEYS_def by (auto dest: set_zip_leftD)
  then have "wp (record_preconditions calm_seams ?pre) (\<lambda>_ _. True) w2"
    by (intro wp_record_preconditions calm_sound w2(2)) auto
  then obtain w3 where w3: "record_preconditions calm_seams ?pre w2 = (Inr (), w3)" by (auto simp: wp_iff)
  obtain res w' where r: "reset_phase calm_seams ''/r/.agent'' ?rq ?pre w3 = (res, w')" by fastforce
  have rq: "lr_paths ?rq = []" "lr_in_progress_kind ?rq = Op_none" "lr_feature_tip ?rq = None"
    "lr_decided_signature ?rq = ''s''" "lr_fresh_signature ?rq = ''s''" "lr_budget ?rq = 16" "lr_target ?rq = ''main''"
    by (simp_all add: reset_request_def default_rung_request_def last_resort_request.defs LADDER_ATTEMPT_BUDGET_def)
  have run: "run_ladder_rung calm_seams Rung_last_resort reset_request ?w = (res, w')"
    using w1(1) w2(1) w3 met r rq
    by (simp add: run_ladder_rung_def last_resort_recovery_def lbind_def Let_def conclude_preconditions_def,
        simp add: reset_request_def default_rung_request_def)
  have reset: "Op_reset_hard ''main'' \<in> set (lw_trace w')"
    using reset_phase_resets [OF rq(1-3), of calm_seams "''/r/.agent''" ?pre w3] r rq(7) by simp
  then obtain pre post where tr: "lw_trace w' = lw_trace ?w @ pre @ Op_reset_hard ''main'' # post"
    by (auto simp: first_run_world_def dest: split_list)
  have "destructive (Op_reset_hard ''main'')" by simp
  from hard_reset_contract [OF run tr this] show ?thesis
    using run reset tr rq(6)
    by (auto simp: last_resort_allowed_def last_resort_request.defs first_run_world_def)
qed

section \<open>Behaviours that differ from the documentation\<close>

text \<open>
  Rung 5 records a waiting value, which is neither missing nor an intent, so the resume rule
  counts it as finished after its first tick.
\<close>

lemma resume_skips_waiting_rung:
  "resume_rung (spent_ledger\<lparr>al_ladder_evidence :=
      dset (rung_key Rung_environment_degrade) (waiting_value 0 ''disk_full'' [] []) (al_ladder_evidence spent_ledger)\<rparr>)
     = Some Rung_last_resort
   \<and> \<not> is_terminal (Some (waiting_value 0 ''disk_full'' [] []))
   \<and> \<not> rung_attempt_satisfied (Some (waiting_value 0 ''disk_full'' [] []))"
  by code_simp

text \<open>
  The callers pass no paths, so rung 3 moves nothing aside before it forces the index and the
  worktree back to the head commit.
\<close>

lemma unprotected_restore:
  assumes "sound_seams sm" "sound_log w" "lr_paths rq = []"
  shows "Op_restore_tree_to_head \<in> set (lw_trace (snd (run_ladder_rung sm Rung_quarantine rq w)))
    \<and> emits (\<lambda>op. \<forall>d p. op \<noteq> Op_rename_into_quarantine d p) (run_ladder_rung sm Rung_quarantine rq)"
proof
  have "wp (record_evidence sm (rung_key Rung_quarantine) ''intent'') (\<lambda>_. sound_log) w"
    using assms by (auto intro!: wp_record)
  then obtain w1 where w1: "record_evidence sm (rung_key Rung_quarantine) ''intent'' w = (Inr (), w1)"
    by (auto simp: wp_iff)
  have r: "snd (lbind (clock_now sm) f w1) = snd (f (sm_now sm (lw_trace w1)) w1)" for f :: "real \<Rightarrow> 'c ladder"
    by (simp add: lbind_def clock_now_def)
  have q: "snd (lbind (record_evidence sm (rung_key Rung_quarantine) ''intent'') f w) = snd (f () w1)"
    for f :: "unit \<Rightarrow> 'c ladder" using w1 by (simp add: lbind_def)
  show "Op_restore_tree_to_head \<in> set (lw_trace (snd (run_ladder_rung sm Rung_quarantine rq w)))"
    using assms(3) unfolding run_ladder_rung_def quarantine_and_restore_def Let_def
    by (simp add: q r lbind_lret) (auto intro!: reaches_call emits_intro)
  show "emits (\<lambda>op. \<forall>d p. op \<noteq> Op_rename_into_quarantine d p) (run_ladder_rung sm Rung_quarantine rq)"
    using assms(3) unfolding run_ladder_rung_def quarantine_and_restore_def Let_def
    by (auto intro!: emits_intro simp: lbind_lret)
qed

text \<open>A preserved copy on record, however old, keeps rung 6 from preserving the present dirt.\<close>

lemma stale_copy_skips_preservation:
  assumes "din ''preserved:alternate_preservation'' (al_ladder_evidence (ledger_of w))"
    and "lw_trace (snd (reset_phase sm d rq pre w)) = lw_trace w @ tr"
  shows "list_all (\<lambda>op. op \<noteq> Op_changed_paths \<and> (\<forall>h ow. op \<noteq> Op_commit_dirt h ow)) tr"
proof -
  have same: "reset_phase sm d rq pre w = reset_phase sm d (rq\<lparr>lr_paths := []\<rparr>) pre w"
    using assms(1) unfolding reset_phase_def by (cases "lr_feature_tip rq") (simp_all add: lbind_read cong: if_cong)
  have e: "emits (\<lambda>op. op \<noteq> Op_changed_paths \<and> (\<forall>h ow. op \<noteq> Op_commit_dirt h ow)) (reset_phase sm d (rq\<lparr>lr_paths := []\<rparr>) pre)"
    unfolding reset_phase_def by (auto intro!: emits_intro split: option.splits)
  obtain res w' where r: "reset_phase sm d (rq\<lparr>lr_paths := []\<rparr>) pre w = (res, w')" by fastforce
  show ?thesis by (rule emits_trace [OF e r _ refl]) (use assms(2) r same in simp)
qed

text \<open>The entry rung records a failure and performs no operation.\<close>

lemma normal_cleanup_does_nothing:
  "run_ladder_rung sm Rung_normal_cleanup rq = conclude sm Rung_normal_cleanup Lad_failed ''failed:not-owned-here''
   \<and> emits (\<lambda>op. op = Op_evidence (rung_key Rung_normal_cleanup) ''failed:not-owned-here'')
       (run_ladder_rung sm Rung_normal_cleanup rq)"
  by (auto simp: run_ladder_rung_def Let_def intro!: emits_intro)

end
