(* ===== verification/Failure_Classifier.thy ===== *)
theory Failure_Classifier
  imports Recovery_Controller Py_Text
begin

text \<open>
  Failure classification: \<^verbatim>\<open>ralph/recovery/failure_details.py\<close> and
  \<^verbatim>\<open>ralph/recovery/failure_classifier.py\<close>, with the constructors of the exceptions the reducer
  rebuilds (\<^verbatim>\<open>ralph/agents/invoke/_agent_invocation_error.py\<close> and two of its subclasses).

  Exceptions are objects of an explicit store, because \<^verbatim>\<open>__cause__\<close> and \<^verbatim>\<open>__context__\<close> are
  references that may form a cycle, against which the code guards with the identities it has seen.
  An attribute read with \<^verbatim>\<open>getattr(exc, name, default)\<close> is an optional field, \<open>None\<close> when the
  object has no attribute of the type the code tests for.  An error number is its symbolic name.
  Texts are ASCII, where \<^verbatim>\<open>casefold\<close> and \<^verbatim>\<open>lower\<close> agree.  The warning about an ambiguous failure
  is dropped, and so is the field that carries the exception itself.
\<close>

section \<open>Exceptions\<close>

record exc_obj =
  ex_type :: string
  ex_classes :: "string list"
  ex_text :: string
  ex_errno :: "string option"
  ex_agent_name :: "string option"
  ex_returncode :: "int option"
  ex_stderr :: "string option"
  ex_parsed_output :: "string list option"
  ex_failure_origin :: "string option"
  ex_reason :: "string option"
  ex_child_alive :: "bool option"
  ex_resumable_session_id :: "string option"
  ex_session_resume_safe :: bool
  ex_cause :: "nat option"
  ex_context :: "nat option"

type_synonym exc_store = "exc_obj list"

definition exc_at :: "exc_store \<Rightarrow> nat \<Rightarrow> exc_obj option" where
  "exc_at h a = (if a < length h then Some (h ! a) else None)"

definition isinstance :: "exc_obj \<Rightarrow> string \<Rightarrow> bool" where
  "isinstance e c = (c \<in> set (ex_classes e))"

definition attr_failure_origin :: "exc_obj \<Rightarrow> string" where
  "attr_failure_origin e = (case ex_failure_origin e of None \<Rightarrow> ''agent'' | Some f \<Rightarrow> f)"

text \<open>\<^verbatim>\<open>AgentInvocationError.__init__\<close>: the message is built from the stripped standard error, else
  from the parsed output.\<close>

definition detail_message :: "string \<Rightarrow> string list \<Rightarrow> string" where
  "detail_message err parsed =
     (if strip err \<noteq> [] then strip err else if parsed \<noteq> [] then join_str '' | '' parsed else [])"

definition agent_invocation_error ::
  "string \<Rightarrow> string list \<Rightarrow> string \<Rightarrow> int \<Rightarrow> string \<Rightarrow> string list \<Rightarrow> string \<Rightarrow> exc_obj" where
  "agent_invocation_error ty subs ag rc err parsed origin =
     (let detail = detail_message err parsed
      in \<lparr>ex_type = ty, ex_classes = subs @ [''AgentInvocationError'', ''Exception''],
          ex_text = ''Agent '' @ quoted ag @ '' failed with code '' @ str_int rc
            @ (if detail \<noteq> [] then '': '' @ detail else []),
          ex_errno = None, ex_agent_name = Some ag, ex_returncode = Some rc, ex_stderr = Some err,
          ex_parsed_output = Some parsed, ex_failure_origin = Some origin, ex_reason = None,
          ex_child_alive = None, ex_resumable_session_id = None, ex_session_resume_safe = False,
          ex_cause = None, ex_context = None\<rparr>)"

fun broken_agent_value :: "broken_agent_kind \<Rightarrow> string" where
  "broken_agent_value No_output = ''no_output''"
| "broken_agent_value Prompt_echo = ''prompt_echo''"
| "broken_agent_value No_llm_activity = ''no_llm_activity''"

fun broken_agent_context :: "broken_agent_kind \<Rightarrow> string" where
  "broken_agent_context No_output = ''no meaningful LLM output''"
| "broken_agent_context Prompt_echo = ''only prompt-echo output''"
| "broken_agent_context No_llm_activity = ''no meaningful LLM activity''"

definition broken_agent_exit_error :: "string \<Rightarrow> broken_agent_kind \<Rightarrow> int \<Rightarrow> string \<Rightarrow> exc_obj" where
  "broken_agent_exit_error ag kind rc err =
     (agent_invocation_error ''BrokenAgentExitError'' [''BrokenAgentExitError''] ag rc
        (if err \<noteq> [] then err
         else ''agent appears broken: '' @ broken_agent_context kind
              @ ''; check credentials or provider availability'') [] ''agent'')
       \<lparr>ex_reason := Some (broken_agent_value kind)\<rparr>"

definition pi_context_exhausted_exit_error :: "string \<Rightarrow> exc_obj" where
  "pi_context_exhausted_exit_error ag =
     agent_invocation_error ''PiContextExhaustedExitError'' [''PiContextExhaustedExitError''] ag 0
       ''pi agent context length exhausted (stopReason=length; advance to the next agent)'' [] ''agent''"

section \<open>Texts of a failure\<close>

definition contains_casefolded_marker :: "string list \<Rightarrow> string list \<Rightarrow> bool" where
  "contains_casefolded_marker parts markers =
     list_ex (\<lambda>part. list_ex (\<lambda>m. contains_str (lower part) (lower m)) markers) parts"

definition text_detail_parts :: "string \<Rightarrow> string list" where
  "text_detail_parts t = (if strip t \<noteq> [] then [strip t] else [])"

definition failure_detail_parts :: "exc_obj \<Rightarrow> string list" where
  "failure_detail_parts e =
     (let parts = text_detail_parts (ex_text e);
          parts1 = (case ex_stderr e of
              None \<Rightarrow> parts
            | Some err \<Rightarrow> if strip err \<noteq> [] \<and> strip err \<notin> set parts then parts @ [strip err] else parts)
      in parts1 @ (case ex_parsed_output e of
            None \<Rightarrow> []
          | Some items \<Rightarrow> filter (\<lambda>t. t \<noteq> []) (map strip items)))"

definition has_stale_session_details :: "exc_obj \<Rightarrow> string list \<Rightarrow> bool" where
  "has_stale_session_details e markers = contains_casefolded_marker (failure_detail_parts e) markers"

section \<open>Vocabularies\<close>

definition TRANSPORT_SUBSTRINGS :: "string list" where
  \<open>TRANSPORT_SUBSTRINGS =
     [''connection reset'', ''socket hang up'', ''ECONNREFUSED'', ''broken pipe'',
      ''Network is unreachable'', ''Temporary failure in name resolution'', ''Connection refused'',
      ''Connection timed out'', ''Name or service not known'', ''nodename nor servname provided'',
      ''connection error'']\<close>

definition SESSION_NOT_FOUND_SUBSTRINGS :: "string list" where
  \<open>SESSION_NOT_FOUND_SUBSTRINGS =
     [''No conversation found with session ID:'', ''Session not found'', ''Unknown session'',
      ''session does not exist'']\<close>

definition TOOL_AVAILABILITY_SUBSTRINGS :: "string list" where
  \<open>TOOL_AVAILABILITY_SUBSTRINGS =
     [''no such tool available'']\<close>

definition POST_TOOL_EMPTY_RESPONSE_SUBSTRINGS :: "string list" where
  \<open>POST_TOOL_EMPTY_RESPONSE_SUBSTRINGS =
     [''empty response with no tool calls'', ''empty response'']\<close>

definition UNAVAILABLE_AGENT_SUBSTRINGS :: "string list" where
  \<open>UNAVAILABLE_AGENT_SUBSTRINGS =
     [''agent produced no output'', ''no output for'', ''empty response'',
      ''timed out with no output'', ''no tool calls'']\<close>

definition POST_TOOL_ACTIVITY_MARKERS :: "string list" where
  \<open>POST_TOOL_ACTIVITY_MARKERS =
     [''"type":"tool_result"'', ''"type": "tool_result"'', ''"type":"mcp_tool_result"'',
      ''"type": "mcp_tool_result"'', ''"type":"tool_use"'', ''"type": "tool_use"'',
      ''[plain] tool:'', '' tool: '']\<close>

definition MISSING_ARTIFACT_SUBSTRINGS :: "string list" where
  \<open>MISSING_ARTIFACT_SUBSTRINGS =
     [''Missing required artifact'', ''Artifact not found at .agent/artifacts/'',
      ''required_artifact_missing'', ''Missing/invalid issues artifact'',
      ''Missing required analysis artifact'', ''Missing fix_result artifact'',
      ''required artifact receipt missing'']\<close>

definition AUTH_CONFIG_SUBSTRINGS :: "string list" where
  \<open>AUTH_CONFIG_SUBSTRINGS =
     [''authentication required'', ''please run 'agent login'' @ [CHR 0x27], ''cursor_api_key'']\<close>

definition PERMANENT_ACCOUNT_SUBSTRINGS :: "string list" where
  \<open>PERMANENT_ACCOUNT_SUBSTRINGS =
     [''organization has no valid billing information'', ''your account is not active'',
      ''payment required'', ''account suspended'', ''subscription expired'', ''trial expired'']\<close>

definition MODEL_PREFLIGHT_UNAVAILABLE_SUBSTRINGS :: "string list" where
  \<open>MODEL_PREFLIGHT_UNAVAILABLE_SUBSTRINGS =
     [''opencode local model preflight failed'']\<close>

definition SUBSCRIPTION_LIMIT_SUBSTRINGS :: "string list" where
  \<open>SUBSCRIPTION_LIMIT_SUBSTRINGS =
     [''You've hit your session limit'', ''You've hit your weekly limit'',
      ''You've hit your Opus limit'', ''Credit balance is too low'', ''You're out of extra usage'',
      ''Extra usage is required for long context requests'', ''workspace API usage limits'',
      ''billing_error'', ''you exceeded your current quota'', ''insufficient_quota'',
      ''insufficient quota'', ''rate limit reached for requests'', ''billing hard limit reached'',
      ''monthly spend limit reached'', ''selected model is at capacity'',
      ''you've run out of credits'', ''hit your usage limit'', ''usage limits will reset'',
      ''set a spend limit to continue'', ''rate_limit_error'',
      ''number of request tokens has exceeded your per-minute rate limit'',
      ''number of output tokens has exceeded your per-minute rate limit'', ''out of credits'',
      ''spend limit reached'', ''rate limit reached'', ''resource_exhausted'',
      ''resource exhausted'', ''quota exceeded'', ''quota exhausted'', ''individual quota reached'',
      ''quota limit has been exceeded'', ''rate limit exceeded'', ''too many requests'',
      ''http 429'', ''status 429'', ''(429)'', ''credits exhausted'', ''no credits remaining'',
      ''insufficient credits'', ''insufficient balance'', ''usage limit exceeded'',
      ''request limit exceeded'', ''token limit exceeded'', ''plan limit reached'',
      ''billing threshold reached'', ''free tier limit exceeded'', ''daily limit reached'',
      ''hourly limit reached'', ''per-minute limit exceeded'', ''daily limit exceeded'',
      ''weekly limit exceeded'', ''monthly limit exceeded'']\<close>

definition PROVIDER_OVERLOAD_SUBSTRINGS :: "string list" where
  \<open>PROVIDER_OVERLOAD_SUBSTRINGS =
     [''overloaded_error'', ''server cluster is currently under high load'', ''service overloaded'',
      ''server overloaded'', ''model is overloaded'', ''http 529'', ''status 529'', ''(529)'',
      ''http 503'', ''status 503'']\<close>

definition CONTEXT_EXHAUSTED_SUBSTRINGS :: "string list" where
  \<open>CONTEXT_EXHAUSTED_SUBSTRINGS =
     [''context window exceeds limit'', ''context window exceeded'', ''context length exceeded'',
      ''maximum context length'', ''stopreason=length'', ''stopreason='length'' @ [CHR 0x27],
      ''stopreason":"length'']\<close>

definition ARTIFACT_VALIDATION_TYPE_NAMES :: "string list" where
  \<open>ARTIFACT_VALIDATION_TYPE_NAMES =
     [''DevelopmentResultValidationError'', ''TypedArtifactValidationError'',
      ''SmokeTestResultValidationError'', ''ProductSpecValidationError'',
      ''WorkUnitsValidationError'']\<close>

definition WATCHDOG_UNAVAILABILITY_REASONS :: "string list" where
  \<open>WATCHDOG_UNAVAILABILITY_REASONS =
     [''no_output_at_start'', ''children_persist_too_long'']\<close>

definition NO_OUTPUT_SUBSTRINGS :: "string list" where
  \<open>NO_OUTPUT_SUBSTRINGS =
     [''no output'', ''empty output'', ''produced empty output'', ''without producing output'']\<close>

definition CONFLICT_ATTEMPT_SUBSTRINGS :: "string list" where
  \<open>CONFLICT_ATTEMPT_SUBSTRINGS =
     [''conflict attempt failed'', ''candidate produced no activity before it exited'']\<close>

definition TIMEOUT_SUBSTRINGS :: "string list" where
  \<open>TIMEOUT_SUBSTRINGS =
     [''timed out'', ''timeout'', ''idle'']\<close>

definition ENV_ERRNOS :: "string list" where
  "ENV_ERRNOS = [''ENETUNREACH'', ''ECONNREFUSED'', ''EHOSTUNREACH'', ''ENETDOWN'', ''EPIPE'', ''ENOSPC'']"

text \<open>A verdict: category, whether it is charged, whether the session is reset.\<close>

type_synonym verdict = "failure_category \<times> bool \<times> bool"

definition TYPED_EXIT_REASON_CATEGORIES :: "verdict dict" where
  "TYPED_EXIT_REASON_CATEGORIES =
     [(''PiContextExhaustedExitError'', (Cat_agent, False, False)),
      (''PiProviderFailureExitError'', (Cat_environmental, False, False)),
      (''QuotaExhaustedError'', (Cat_agent, False, False)),
      (''BrokenAgentExitError'', (Cat_agent, False, False)),
      (''MissingCredentialsError'', (Cat_user_config, False, False)),
      (''AgentNotFound'', (Cat_user_config, False, False))]"

section \<open>Predicates\<close>

definition is_environmental_exc :: "exc_obj \<Rightarrow> bool" where
  "is_environmental_exc e =
     (ex_type e = ''McpServerError''
      \<or> isinstance e ''ConnectionError'' \<or> isinstance e ''TimeoutError''
      \<or> isinstance e ''gaierror'' \<or> isinstance e ''URLError''
      \<or> (isinstance e ''OSError'' \<and> (case ex_errno e of None \<Rightarrow> False | Some n \<Rightarrow> n \<in> set ENV_ERRNOS)))"

definition message_looks_environmental :: "string \<Rightarrow> bool" where
  "message_looks_environmental msg = list_ex (\<lambda>s. contains_str (lower msg) (lower s)) TRANSPORT_SUBSTRINGS"

definition is_user_config_exc :: "exc_obj \<Rightarrow> bool" where
  "is_user_config_exc e =
     (ex_type e \<in> {''DrainNotBoundError'', ''CheckpointPolicyMismatchError'', ''PolicyValidationError'',
                  ''UnknownAgentError'', ''McpConfigError''})"

definition is_user_config_message :: "string \<Rightarrow> bool" where
  "is_user_config_message msg =
     list_ex (contains_str msg) [''is not bound'', ''is not defined'', ''Checkpoint was saved at phase'',
       ''no longer exists in pipeline.toml'']"

definition is_missing_artifact_message :: "string \<Rightarrow> bool" where
  "is_missing_artifact_message msg = list_ex (contains_str msg) MISSING_ARTIFACT_SUBSTRINGS"

definition is_unsubmitted_artifact_failure :: "string list \<Rightarrow> bool" where
  "is_unsubmitted_artifact_failure parts =
     (contains_casefolded_marker parts MISSING_ARTIFACT_SUBSTRINGS
      \<or> contains_casefolded_marker parts POST_TOOL_EMPTY_RESPONSE_SUBSTRINGS)"

definition is_artifact_validation_message :: "string \<Rightarrow> bool" where
  "is_artifact_validation_message msg =
     (is_missing_artifact_message msg
      \<or> list_ex (contains_str msg)
          [''Invalid plan artifact:'', ''Invalid development evidence:'', ''Missing/invalid issues artifact:'',
           ''Artifact type mismatch:'', ''Artifact content must be a JSON object'', ''must be valid JSON text'',
           ''must be a JSON object'', ''PROOF INVALID:'', ''PROOF INCOMPLETE:'',
           ''proof entries are incomplete or invalid'', ''analysis item ID'', ''Unknown plan_item reference'',
           ''Unknown analysis finding ID''])"

definition is_stale_session_message :: "string \<Rightarrow> bool" where
  "is_stale_session_message msg = contains_casefolded_marker [msg] SESSION_NOT_FOUND_SUBSTRINGS"

definition is_tool_dispatch_unregistered_error :: "exc_obj \<Rightarrow> bool" where
  "is_tool_dispatch_unregistered_error e =
     (ex_type e = ''ToolDispatchError'' \<and> contains_str (lower (ex_text e)) ''is not registered'')"

definition is_post_tool_empty_response_failure :: "string list \<Rightarrow> bool" where
  "is_post_tool_empty_response_failure parts =
     (contains_casefolded_marker parts POST_TOOL_EMPTY_RESPONSE_SUBSTRINGS
      \<and> contains_casefolded_marker parts POST_TOOL_ACTIVITY_MARKERS)"

definition is_unavailable_agent_message :: "string \<Rightarrow> bool" where
  "is_unavailable_agent_message msg =
     list_ex (\<lambda>m. contains_str (lower msg) (lower m)) UNAVAILABLE_AGENT_SUBSTRINGS"

definition is_subscription_limit_message :: "string list \<Rightarrow> bool" where
  "is_subscription_limit_message parts = contains_casefolded_marker parts SUBSCRIPTION_LIMIT_SUBSTRINGS"

definition is_auth_config_failure :: "string list \<Rightarrow> bool" where
  "is_auth_config_failure parts = contains_casefolded_marker parts AUTH_CONFIG_SUBSTRINGS"

definition is_permanent_account_failure :: "string list \<Rightarrow> bool" where
  "is_permanent_account_failure parts = contains_casefolded_marker parts PERMANENT_ACCOUNT_SUBSTRINGS"

text \<open>\<^verbatim>\<open>(connectivity_state or "").casefold() == "online"\<close>\<close>

definition is_online :: "string option \<Rightarrow> bool" where
  "is_online conn = (lower (or_else conn []) = ''online'')"

definition is_suspicious_timeout_without_output :: "string list \<Rightarrow> string option \<Rightarrow> bool" where
  "is_suspicious_timeout_without_output parts conn =
     (is_online conn \<and> contains_casefolded_marker parts NO_OUTPUT_SUBSTRINGS
      \<and> contains_casefolded_marker parts TIMEOUT_SUBSTRINGS)"

section \<open>The watchdog in the chain of causes\<close>

definition next_cause :: "exc_store \<Rightarrow> nat \<Rightarrow> nat option" where
  "next_cause h a = (case exc_at h a of
     None \<Rightarrow> None
   | Some e \<Rightarrow> (case ex_cause e of Some c \<Rightarrow> Some c | None \<Rightarrow> ex_context e))"

definition is_watchdog_kill :: "exc_store \<Rightarrow> nat \<Rightarrow> bool" where
  "is_watchdog_kill h a = (case exc_at h a of None \<Rightarrow> False | Some e \<Rightarrow> isinstance e ''IdleWatchdogKilledError'')"

function walk_causes :: "exc_store \<Rightarrow> nat set \<Rightarrow> nat option \<Rightarrow> nat option" where
  "walk_causes h visited None = None"
| "walk_causes h visited (Some a) =
     (if a \<in> visited \<or> a \<ge> length h then None
      else if is_watchdog_kill h a then Some a
      else walk_causes h (insert a visited) (next_cause h a))"
  by pat_completeness auto

termination
proof (relation "measure (\<lambda>(h, visited, _). card ({..<length h} - visited))", goal_cases)
  case (2 h visited a)
  then have "a \<in> {..<length h} - visited" by simp
  then have "card ({..<length h} - visited - {a}) < card ({..<length h} - visited)"
    by (intro psubset_card_mono) blast+
  moreover have "{..<length h} - insert a visited = {..<length h} - visited - {a}" by blast
  ultimately show ?case by simp
qed simp

definition find_typed_watchdog_cause :: "exc_store \<Rightarrow> nat \<Rightarrow> nat option" where
  "find_typed_watchdog_cause h a =
     (if is_watchdog_kill h a then Some a else walk_causes h {a} (next_cause h a))"

section \<open>The category of a failure\<close>

text \<open>The tables of the code: the first row whose test holds.\<close>

fun first_match :: "(bool \<times> 'a) list \<Rightarrow> 'a option" where
  "first_match [] = None"
| "first_match ((b, r) # rows) = (if b then Some r else first_match rows)"

definition classify_agent_invocation_error ::
  "exc_obj \<Rightarrow> string \<Rightarrow> string list \<Rightarrow> string option \<Rightarrow> verdict option" where
  "classify_agent_invocation_error e msg parts conn =
     (case first_match
        [(attr_failure_origin e \<noteq> ''agent'', (Cat_ambiguous, False, False)),
         (contains_casefolded_marker parts SESSION_NOT_FOUND_SUBSTRINGS, (Cat_agent, True, True)),
         (is_permanent_account_failure parts, (Cat_user_config, False, False)),
         (is_subscription_limit_message parts, (Cat_agent, True, False)),
         (is_suspicious_timeout_without_output parts conn, (Cat_agent, True, False))] of
        Some v \<Rightarrow> Some v
      | None \<Rightarrow>
          if \<not> message_looks_environmental msg
             \<and> (contains_casefolded_marker parts POST_TOOL_EMPTY_RESPONSE_SUBSTRINGS
                \<or> contains_casefolded_marker parts NO_OUTPUT_SUBSTRINGS
                \<or> contains_casefolded_marker parts TIMEOUT_SUBSTRINGS)
            then Some (Cat_agent, True, False) else None)"

definition categorize_exc ::
  "exc_store \<Rightarrow> nat \<Rightarrow> exc_obj \<Rightarrow> string \<Rightarrow> string list \<Rightarrow> string option \<Rightarrow> verdict option" where
  "categorize_exc h a e msg parts conn =
     (if find_typed_watchdog_cause h a \<noteq> None
         \<or> contains_casefolded_marker parts MODEL_PREFLIGHT_UNAVAILABLE_SUBSTRINGS
        then Some (Cat_agent, True, False)
      else case first_match
        [(is_user_config_exc e, (Cat_user_config, False, False)),
         (ex_type e \<in> set ARTIFACT_VALIDATION_TYPE_NAMES, (Cat_artifact_validation, False, False)),
         (is_environmental_exc e, (Cat_environmental, False, False)),
         (is_auth_config_failure parts, (Cat_user_config, False, False))] of
        Some v \<Rightarrow> Some v
      | None \<Rightarrow>
          if ex_type e \<in> {''AgentInactivityTimeoutError'', ''BrokenAgentExitError''}
            then Some (Cat_agent, True, ex_type e = ''BrokenAgentExitError'')
          else if ex_type e \<in> {''QuotaExhaustedError'', ''OpenCodeResumableExitError'', ''AgyIncompleteExitError''}
            then Some (Cat_agent, ex_type e \<noteq> ''QuotaExhaustedError'', False)
          else if ex_type e = ''AgentInvocationError'' then classify_agent_invocation_error e msg parts conn
          else None)"

definition classify_message_only_failure :: "string \<Rightarrow> string list \<Rightarrow> string option \<Rightarrow> verdict option" where
  "classify_message_only_failure msg parts conn =
     first_match
       [(starts_with msg ''integration conflict requires resolution:'', (Cat_integration, False, False)),
        (is_auth_config_failure parts, (Cat_user_config, False, False)),
        (contains_casefolded_marker parts SESSION_NOT_FOUND_SUBSTRINGS, (Cat_agent, True, True)),
        (is_permanent_account_failure parts, (Cat_user_config, False, False)),
        (is_subscription_limit_message parts, (Cat_agent, True, False)),
        (is_suspicious_timeout_without_output parts conn, (Cat_agent, True, False)),
        (message_looks_environmental msg, (Cat_environmental, False, False)),
        (is_user_config_message msg, (Cat_user_config, False, False)),
        (is_artifact_validation_message msg, (Cat_artifact_validation, False, False)),
        (contains_casefolded_marker parts CONFLICT_ATTEMPT_SUBSTRINGS, (Cat_agent, False, False)),
        (din (strip msg) TYPED_EXIT_REASON_CATEGORIES,
         dget_or TYPED_EXIT_REASON_CATEGORIES (strip msg) (Cat_agent, False, False)),
        (\<not> message_looks_environmental msg
         \<and> (contains_casefolded_marker parts POST_TOOL_EMPTY_RESPONSE_SUBSTRINGS
            \<or> (is_online conn \<and> (contains_casefolded_marker parts NO_OUTPUT_SUBSTRINGS
                 \<or> contains_casefolded_marker parts TIMEOUT_SUBSTRINGS))), (Cat_agent, True, False))]"

text \<open>The subject of a classification: a text, or the exception at an address of a store.\<close>

datatype failure_subject = Message string | Raised exc_store nat

fun subject_exc :: "failure_subject \<Rightarrow> exc_obj option" where
  "subject_exc (Message _) = None"
| "subject_exc (Raised h a) = exc_at h a"

definition exc_message :: "exc_obj \<Rightarrow> string" where
  "exc_message e = (if ex_text e \<noteq> [] then ex_type e @ '': '' @ ex_text e else ex_type e)"

fun subject_message :: "failure_subject \<Rightarrow> string" where
  "subject_message (Message t) = t"
| "subject_message (Raised h a) = (case exc_at h a of None \<Rightarrow> [] | Some e \<Rightarrow> exc_message e)"

fun subject_parts :: "failure_subject \<Rightarrow> string list" where
  "subject_parts (Message t) = [t]"
| "subject_parts (Raised h a) = (case exc_at h a of None \<Rightarrow> [] | Some e \<Rightarrow> failure_detail_parts e)"

definition categorize :: "failure_subject \<Rightarrow> string option \<Rightarrow> verdict" where
  "categorize sub conn =
     (let msg = subject_message sub; parts = subject_parts sub;
          first = (case sub of
              Message _ \<Rightarrow> None
            | Raised h a \<Rightarrow> Option.bind (exc_at h a) (\<lambda>e. categorize_exc h a e msg parts conn))
      in case first of
           Some v \<Rightarrow> v
         | None \<Rightarrow> (case classify_message_only_failure msg parts conn of
               Some v \<Rightarrow> v | None \<Rightarrow> (Cat_ambiguous, False, False)))"

section \<open>Unavailability\<close>

definition provider_unavailability_reason :: "exc_obj option \<Rightarrow> string list \<Rightarrow> unavailability_reason option" where
  "provider_unavailability_reason e parts =
     (let ty = (case e of None \<Rightarrow> [] | Some x \<Rightarrow> ex_type x)
      in if ty = ''PiContextExhaustedExitError'' \<or> contains_casefolded_marker parts CONTEXT_EXHAUSTED_SUBSTRINGS
           then Some Context_exhausted
         else if ty = ''PiProviderFailureExitError'' \<or> contains_casefolded_marker parts PROVIDER_OVERLOAD_SUBSTRINGS
           then Some Provider_unavailable
         else None)"

definition process_failed :: "exc_obj \<Rightarrow> string list \<Rightarrow> string option \<Rightarrow> bool" where
  "process_failed e parts conn =
     (ex_type e = ''AgentInvocationError''
      \<and> (case ex_returncode e of None \<Rightarrow> False | Some rc \<Rightarrow> rc \<noteq> 0)
      \<and> \<not> (\<not> is_online conn \<and> contains_casefolded_marker parts NO_OUTPUT_SUBSTRINGS))"

definition terminal_process_unavailability_reason ::
  "exc_obj option \<Rightarrow> string list \<Rightarrow> string option \<Rightarrow> unavailability_reason option" where
  "terminal_process_unavailability_reason exc parts conn = (case exc of
     None \<Rightarrow> None
   | Some e \<Rightarrow>
       (let agent_origin = (ex_type e \<in> {''AgentInvocationError'', ''PiContextExhaustedExitError'',
              ''PiProviderFailureExitError''} \<and> attr_failure_origin e = ''agent'')
        in if contains_casefolded_marker parts SESSION_NOT_FOUND_SUBSTRINGS then None
           else if agent_origin \<and> contains_casefolded_marker parts MODEL_PREFLIGHT_UNAVAILABLE_SUBSTRINGS
             then Some Provider_unavailable
           else if agent_origin \<and> is_subscription_limit_message parts
             then (if is_online conn then Some Out_of_credits else None)
           else if agent_origin
             then (case provider_unavailability_reason exc parts of
                 Some r \<Rightarrow> Some r
               | None \<Rightarrow> if process_failed e parts conn then Some Process_exited else None)
           else None))"

definition apply_terminal_unavailability_category ::
  "failure_category \<Rightarrow> bool \<Rightarrow> unavailability_reason option \<Rightarrow> bool
    \<Rightarrow> failure_category \<times> bool \<times> unavailability_reason option" where
  "apply_terminal_unavailability_category cat charged provider reset_registry =
     (if reset_registry \<and> cat \<notin> {Cat_agent, Cat_environmental} then (Cat_agent, True, None)
      else if provider = None \<or> cat \<notin> {Cat_agent, Cat_ambiguous} \<or> reset_registry then (cat, charged, None)
      else (Cat_agent, True, provider))"

definition connectivity_unavailability_reason ::
  "string list \<Rightarrow> string option \<Rightarrow> unavailability_reason option" where
  "connectivity_unavailability_reason parts conn =
     (if is_subscription_limit_message parts then Some Out_of_credits
      else if is_suspicious_timeout_without_output parts conn then Some Suspicious_timeout_no_output
      else None)"

definition classify_unavailability_reason ::
  "string option \<Rightarrow> string list \<Rightarrow> string \<Rightarrow> string option \<Rightarrow> bool option \<Rightarrow> unavailability_reason option" where
  "classify_unavailability_reason wd parts msg conn alive =
     (let typed =
        (if wd = Some ''no_output_at_start'' then Some No_output_at_start
         else if wd = Some ''no_progress_quiet''
           then (if alive = Some True then None else Some Stale_child_quiet)
         else if wd = Some ''strictly_stuck'' then Some Strictly_stuck
         else if wd = Some ''children_persist_too_long'' then Some Suspicious_timeout_no_output
         else if is_online conn then connectivity_unavailability_reason parts conn
         else None);
          after_activity =
        (if typed = None \<and> contains_casefolded_marker parts POST_TOOL_EMPTY_RESPONSE_SUBSTRINGS
           then Some No_output_after_activity else typed)
      in if after_activity = None \<and> is_unavailable_agent_message msg then Some No_output_at_start
         else after_activity)"

section \<open>Classification\<close>

definition is_tool_availability_failure :: "exc_obj option \<Rightarrow> string list \<Rightarrow> bool" where
  "is_tool_availability_failure exc parts =
     ((case exc of None \<Rightarrow> False | Some e \<Rightarrow> is_tool_dispatch_unregistered_error e)
      \<or> contains_casefolded_marker parts TOOL_AVAILABILITY_SUBSTRINGS
      \<or> is_post_tool_empty_response_failure parts)"

definition watchdog_reason_of :: "exc_obj option \<Rightarrow> string option" where
  "watchdog_reason_of exc = (case exc of
     None \<Rightarrow> None
   | Some e \<Rightarrow> if ex_type e = ''AgentInactivityTimeoutError'' then ex_reason e else None)"

fun typed_kill :: "failure_subject \<Rightarrow> exc_obj option" where
  "typed_kill (Message _) = None"
| "typed_kill (Raised h a) = Option.bind (find_typed_watchdog_cause h a) (exc_at h)"

definition kill_child_alive :: "failure_subject \<Rightarrow> bool option" where
  "kill_child_alive sub = Option.bind (typed_kill sub) ex_child_alive"

definition captured_session :: "exc_obj option \<Rightarrow> string option" where
  "captured_session exc = (case exc of
     None \<Rightarrow> None
   | Some e \<Rightarrow> if truthy (ex_resumable_session_id e) then ex_resumable_session_id e else None)"

definition kill_session :: "failure_subject \<Rightarrow> string option" where
  "kill_session sub = (case captured_session (typed_kill sub) of
     Some s \<Rightarrow> Some s | None \<Rightarrow> captured_session (subject_exc sub))"

definition unavailable_by_text :: "exc_obj option \<Rightarrow> string option \<Rightarrow> bool option \<Rightarrow> string \<Rightarrow> string list \<Rightarrow> bool" where
  "unavailable_by_text exc wd alive msg parts =
     ((case exc of None \<Rightarrow> True
       | Some e \<Rightarrow> ex_type e \<in> {''AgentInvocationError'', ''AgentInactivityTimeoutError''})
      \<and> \<not> (wd = Some ''no_progress_quiet'' \<and> alive = Some True)
      \<and> (is_unavailable_agent_message msg
         \<or> contains_casefolded_marker parts POST_TOOL_EMPTY_RESPONSE_SUBSTRINGS
         \<or> is_subscription_limit_message parts))"

definition unavailable_by_watchdog :: "string option \<Rightarrow> bool option \<Rightarrow> bool" where
  "unavailable_by_watchdog wd alive =
     ((\<exists>r\<in>set WATCHDOG_UNAVAILABILITY_REASONS. wd = Some r \<and> wd \<noteq> Some ''no_progress_quiet'')
      \<or> (wd = Some ''no_progress_quiet'' \<and> alive \<noteq> Some True))"

definition exc_named :: "exc_obj option \<Rightarrow> string \<Rightarrow> bool" where
  "exc_named exc ty = (case exc of None \<Rightarrow> False | Some e \<Rightarrow> ex_type e = ty)"

definition base_unavailable ::
  "failure_subject \<Rightarrow> string option \<Rightarrow> failure_category \<Rightarrow> unavailability_reason option \<Rightarrow> bool \<Rightarrow> bool" where
  "base_unavailable sub conn cat provider reset_registry =
     (provider \<noteq> None \<or> exc_named (subject_exc sub) ''BrokenAgentExitError''
      \<or> (cat = Cat_agent \<and> is_online conn \<and> \<not> reset_registry
         \<and> \<not> exc_named (subject_exc sub) ''QuotaExhaustedError''
         \<and> (unavailable_by_watchdog (watchdog_reason_of (subject_exc sub)) (kill_child_alive sub)
            \<or> unavailable_by_text (subject_exc sub) (watchdog_reason_of (subject_exc sub))
                 (kill_child_alive sub) (subject_message sub) (subject_parts sub))))"

definition resumable_kill :: "failure_subject \<Rightarrow> bool \<Rightarrow> bool" where
  "resumable_kill sub base =
     (base \<and> watchdog_reason_of (subject_exc sub) = Some ''no_output_at_start'' \<and> truthy (kill_session sub))"

definition reason_of_failure ::
  "failure_subject \<Rightarrow> string option \<Rightarrow> unavailability_reason option \<Rightarrow> bool \<Rightarrow> unavailability_reason option" where
  "reason_of_failure sub conn provider unavailable =
     (if is_auth_config_failure (subject_parts sub) then Some Auth_config
      else if provider \<noteq> None then provider
      else if exc_named (subject_exc sub) ''BrokenAgentExitError'' then Some Broken_agent
      else if unavailable
        then classify_unavailability_reason (watchdog_reason_of (subject_exc sub)) (subject_parts sub)
               (subject_message sub) conn (kill_child_alive sub)
      else None)"

definition build_reason :: "failure_category \<Rightarrow> string \<Rightarrow> string" where
  "build_reason cat msg =
     failure_category_prefix cat @ '': '' @ (if msg \<noteq> [] then take 300 msg else ''(no message)'')
     @ (if is_subscription_limit_message [msg] then ''; quota or rate limit is exhausted'' else [])"

definition classify_failure ::
  "failure_subject \<Rightarrow> string \<Rightarrow> string option \<Rightarrow> string option \<Rightarrow> classified_failure" where
  "classify_failure sub ph ag conn =
     (let parts = subject_parts sub;
          (cat0, charged0, reset_sess) = categorize sub conn;
          reset_registry = is_tool_availability_failure (subject_exc sub) parts;
          (cat, charged, provider) = apply_terminal_unavailability_category cat0 charged0
             (terminal_process_unavailability_reason (subject_exc sub) parts conn) reset_registry;
          base = base_unavailable sub conn cat provider reset_registry;
          unavailable = (base \<and> \<not> resumable_kill sub base \<or> is_auth_config_failure parts)
      in \<lparr>cf_category = cat, cf_reason = build_reason cat (subject_message sub),
          cf_attributed_agent = (if cat = Cat_agent then ag else None), cf_attributed_phase = ph,
          counts_against_budget = charged, raw_message = subject_message sub,
          reset_session = reset_sess, cf_reset_tool_registry = reset_registry,
          is_unavailable = unavailable, watchdog_reason = watchdog_reason_of (subject_exc sub),
          cf_unavailability_reason = reason_of_failure sub conn provider unavailable,
          resumable_session_id = kill_session sub\<rparr>)"

definition should_reset_tool_registry :: "failure_subject \<Rightarrow> string \<Rightarrow> string option \<Rightarrow> bool" where
  "should_reset_tool_registry sub ph ag = cf_reset_tool_registry (classify_failure sub ph ag None)"

text \<open>The classifier of the recovery controller, on the failures the reducer hands it.\<close>

fun raw_subject :: "raw_failure \<Rightarrow> failure_subject" where
  "raw_subject (Raw_text t) = Message t"
| "raw_subject (Broken_agent_exit ag kind rc err) =
     Raised [broken_agent_exit_error ag kind rc err] 0"
| "raw_subject (Pi_context_exhausted_exit ag) =
     Raised [pi_context_exhausted_exit_error ag] 0"

definition failure_classifier :: classifier where
  "failure_classifier raw ph ag conn = classify_failure (raw_subject raw) ph ag (Some conn)"

section \<open>The walk over the causes\<close>

text \<open>One link of the chain from an exception that is not itself the watchdog's.\<close>

definition plain_link :: "exc_store \<Rightarrow> nat \<Rightarrow> nat \<Rightarrow> bool" where
  "plain_link h a b \<longleftrightarrow> \<not> is_watchdog_kill h a \<and> next_cause h a = Some b"

definition nearest_kill :: "exc_store \<Rightarrow> nat \<Rightarrow> nat \<Rightarrow> bool" where
  "nearest_kill h a k \<longleftrightarrow> (plain_link h)\<^sup>*\<^sup>* a k \<and> is_watchdog_kill h k"

lemma kill_in_range: "is_watchdog_kill h a \<Longrightarrow> a < length h"
  by (simp add: is_watchdog_kill_def exc_at_def split: if_splits)

lemma nearest_kill_step:
  "nearest_kill h a k \<longleftrightarrow> (if is_watchdog_kill h a then k = a else (\<exists>b. next_cause h a = Some b \<and> nearest_kill h b k))"
  by (auto simp: nearest_kill_def plain_link_def converse_rtranclp_into_rtranclp elim: converse_rtranclpE)

definition walked :: "exc_store \<Rightarrow> nat set \<Rightarrow> nat option \<Rightarrow> bool" where
  "walked h V c \<longleftrightarrow> (\<forall>v\<in>V. \<not> is_watchdog_kill h v \<and> (\<forall>w. next_cause h v = Some w \<longrightarrow> w \<in> V \<or> c = Some w))"

lemma walked_no_kill:
  assumes "walked h V (Some b)" "b \<in> V" shows "\<not> nearest_kill h b k"
proof -
  have "k \<in> V" if "(plain_link h)\<^sup>*\<^sup>* b k" using that
    by induction (use assms in \<open>auto simp: walked_def plain_link_def\<close>)
  with assms show ?thesis by (auto simp: nearest_kill_def walked_def)
qed

lemma walk_causes_iff:
  "walked h V c \<Longrightarrow> walk_causes h V c = Some k \<longleftrightarrow> (\<exists>b. c = Some b \<and> nearest_kill h b k)"
proof (induction h V c rule: walk_causes.induct)
  case (2 h V a)
  show ?case
  proof (cases "a \<in> V \<or> a \<ge> length h")
    case True
    have "\<not> nearest_kill h a k"
    proof (cases "a \<in> V")
      case False
      with True have "next_cause h a = None" "\<not> is_watchdog_kill h a"
        by (auto simp: next_cause_def exc_at_def dest: kill_in_range)
      then show ?thesis by (subst nearest_kill_step) simp
    qed (rule walked_no_kill [OF "2.prems"])
    with True show ?thesis by simp
  next
    case False
    then show ?thesis
    proof (cases "is_watchdog_kill h a")
      case plain: False
      then have "walked h (insert a V) (next_cause h a)" using "2.prems" by (auto simp: walked_def)
      with "2.IH" [OF False plain] False plain show ?thesis by (subst nearest_kill_step) simp
    qed (use False in \<open>auto simp: nearest_kill_step [of h a]\<close>)
  qed
qed simp

lemma find_typed_watchdog_cause_iff: "find_typed_watchdog_cause h a = Some k \<longleftrightarrow> nearest_kill h a k"
proof (cases "is_watchdog_kill h a")
  case False
  then have "walked h {a} (next_cause h a)" by (simp add: walked_def)
  with False show ?thesis by (subst nearest_kill_step) (auto simp: find_typed_watchdog_cause_def walk_causes_iff)
qed (auto simp: find_typed_watchdog_cause_def nearest_kill_step [of h a])

text \<open>Reachability in the chain, whatever kinds of exception are passed on the way.\<close>

definition cause_link :: "exc_store \<Rightarrow> nat \<Rightarrow> nat \<Rightarrow> bool" where
  "cause_link h a b \<longleftrightarrow> next_cause h a = Some b"

lemma kill_reached:
  "(cause_link h)\<^sup>*\<^sup>* a k \<Longrightarrow> is_watchdog_kill h k \<Longrightarrow> \<exists>k'. nearest_kill h a k'"
  by (induction rule: converse_rtranclp_induct) (metis nearest_kill_step cause_link_def)+

lemma find_typed_none_iff:
  "find_typed_watchdog_cause h a = None \<longleftrightarrow> (\<forall>k. (cause_link h)\<^sup>*\<^sup>* a k \<longrightarrow> \<not> is_watchdog_kill h k)"
proof -
  have "plain_link h \<le> cause_link h" by (auto simp: plain_link_def cause_link_def)
  then have "(cause_link h)\<^sup>*\<^sup>* a k" if "nearest_kill h a k" for k
    using that rtranclp_mono by (auto simp: nearest_kill_def)
  then show ?thesis using find_typed_watchdog_cause_iff [of h a] kill_reached [of h a]
    by (metis not_None_eq nearest_kill_def)
qed

section \<open>What a verdict can be\<close>

lemma first_match_in: "first_match rows = Some r \<Longrightarrow> (True, r) \<in> set rows"
  by (induction rows rule: first_match.induct) (auto split: if_splits)

definition fair_verdict :: "verdict \<Rightarrow> bool" where
  "fair_verdict v = (case v of (cat, charged, reset_sess) \<Rightarrow>
     (charged \<longrightarrow> cat = Cat_agent) \<and> (reset_sess \<longrightarrow> charged))"

lemma first_match_fair:
  "first_match rows = Some v \<Longrightarrow> list_all (\<lambda>(b, r). b \<longrightarrow> fair_verdict r) rows \<Longrightarrow> fair_verdict v"
  by (induction rows rule: first_match.induct) (auto split: if_splits)

lemma typed_exit_reason_fair: "fair_verdict (dget_or TYPED_EXIT_REASON_CATEGORIES t (Cat_agent, False, False))"
  by (simp add: TYPED_EXIT_REASON_CATEGORIES_def dget_or_def dget_def fair_verdict_def)

lemma message_only_fair: "classify_message_only_failure msg parts conn = Some v \<Longrightarrow> fair_verdict v"
  unfolding classify_message_only_failure_def
  by (erule first_match_fair) (simp add: typed_exit_reason_fair, simp add: fair_verdict_def)

lemma invocation_error_fair: "classify_agent_invocation_error e msg parts conn = Some v \<Longrightarrow> fair_verdict v"
  unfolding classify_agent_invocation_error_def
  by (auto split: option.splits if_splits dest!: first_match_in simp: fair_verdict_def)

lemma categorize_exc_fair: "categorize_exc h a e msg parts conn = Some v \<Longrightarrow> fair_verdict v"
  unfolding categorize_exc_def
  by (auto split: option.splits if_splits dest!: first_match_in intro: invocation_error_fair)
     (auto simp: fair_verdict_def)

lemma categorize_fair: "fair_verdict (categorize sub conn)"
proof -
  have "fair_verdict (Cat_ambiguous, False, False)" by (simp add: fair_verdict_def)
  then show ?thesis
    by (auto simp: categorize_def Let_def split: option.split failure_subject.split bind_splits
        intro: message_only_fair categorize_exc_fair)
qed

lemmas classification_parts =
  apply_terminal_unavailability_category_def terminal_process_unavailability_reason_def

lemma terminal_category_fair:
  assumes "charged \<longrightarrow> cat = Cat_agent" "apply_terminal_unavailability_category cat charged p r = (cat', charged', p')"
  shows "charged' \<longrightarrow> cat' = Cat_agent" and "charged \<Longrightarrow> charged'" and "p' \<noteq> None \<Longrightarrow> p' = p"
  using assms by (auto simp: apply_terminal_unavailability_category_def split: if_splits)

section \<open>What the classifier promises\<close>

text \<open>The stages of a classification, named once for the proofs below.\<close>

lemma classify_failure_stages:
  obtains cat0 charged0 rs cat charged provider base where
    "categorize sub conn = (cat0, charged0, rs)"
    "apply_terminal_unavailability_category cat0 charged0
       (terminal_process_unavailability_reason (subject_exc sub) (subject_parts sub) conn)
       (is_tool_availability_failure (subject_exc sub) (subject_parts sub)) = (cat, charged, provider)"
    "base = base_unavailable sub conn cat provider (is_tool_availability_failure (subject_exc sub) (subject_parts sub))"
    "cf_category (classify_failure sub ph ag conn) = cat"
    "counts_against_budget (classify_failure sub ph ag conn) = charged"
    "reset_session (classify_failure sub ph ag conn) = rs"
    "is_unavailable (classify_failure sub ph ag conn)
       = (base \<and> \<not> resumable_kill sub base \<or> is_auth_config_failure (subject_parts sub))"
    "cf_unavailability_reason (classify_failure sub ph ag conn)
       = reason_of_failure sub conn provider (base \<and> \<not> resumable_kill sub base \<or> is_auth_config_failure (subject_parts sub))"
proof -
  obtain cat0 charged0 rs where c: "categorize sub conn = (cat0, charged0, rs)" by (metis prod_cases3)
  obtain cat charged provider where p: "apply_terminal_unavailability_category cat0 charged0
       (terminal_process_unavailability_reason (subject_exc sub) (subject_parts sub) conn)
       (is_tool_availability_failure (subject_exc sub) (subject_parts sub)) = (cat, charged, provider)"
    by (metis prod_cases3)
  show thesis by (rule that [OF c p refl]) (simp_all add: classify_failure_def Let_def c p)
qed

lemma classify_failure_fixed [simp]:
  "cf_attributed_agent (classify_failure sub ph ag conn)
     = (if cf_category (classify_failure sub ph ag conn) = Cat_agent then ag else None)"
  "cf_reset_tool_registry (classify_failure sub ph ag conn)
     = is_tool_availability_failure (subject_exc sub) (subject_parts sub)"
  "watchdog_reason (classify_failure sub ph ag conn) = watchdog_reason_of (subject_exc sub)"
  "resumable_session_id (classify_failure sub ph ag conn) = kill_session sub"
  by (simp_all add: classify_failure_def Let_def split: prod.split)

lemma provider_not_watchdog:
  assumes "terminal_process_unavailability_reason exc parts conn \<noteq> None"
  shows "watchdog_reason_of exc = None" and "\<not> exc_named exc ''BrokenAgentExitError''"
  using assms by (auto simp: terminal_process_unavailability_reason_def watchdog_reason_of_def exc_named_def Let_def
      split: option.splits if_splits)

lemma base_has_reason:
  assumes "base_unavailable sub conn cat None r" "\<not> exc_named (subject_exc sub) ''BrokenAgentExitError''"
  shows "\<exists>u. classify_unavailability_reason (watchdog_reason_of (subject_exc sub)) (subject_parts sub)
               (subject_message sub) conn (kill_child_alive sub) = Some u"
  using assms
  by (auto simp: base_unavailable_def unavailable_by_watchdog_def unavailable_by_text_def
      WATCHDOG_UNAVAILABILITY_REASONS_def classify_unavailability_reason_def connectivity_unavailability_reason_def Let_def)

lemma unavailable_reason_iff:
  "is_unavailable (classify_failure sub ph ag conn)
     \<longleftrightarrow> cf_unavailability_reason (classify_failure sub ph ag conn) \<noteq> None"
proof -
  obtain cat0 charged0 rs cat charged provider base where
    p: "apply_terminal_unavailability_category cat0 charged0
       (terminal_process_unavailability_reason (subject_exc sub) (subject_parts sub) conn)
       (is_tool_availability_failure (subject_exc sub) (subject_parts sub)) = (cat, charged, provider)"
    and b: "base = base_unavailable sub conn cat provider (is_tool_availability_failure (subject_exc sub) (subject_parts sub))"
    and f: "is_unavailable (classify_failure sub ph ag conn)
       = (base \<and> \<not> resumable_kill sub base \<or> is_auth_config_failure (subject_parts sub))"
      "cf_unavailability_reason (classify_failure sub ph ag conn)
       = reason_of_failure sub conn provider (base \<and> \<not> resumable_kill sub base \<or> is_auth_config_failure (subject_parts sub))"
    by (rule classify_failure_stages [of sub conn ph ag])
  show ?thesis
  proof (cases "provider = None \<and> \<not> exc_named (subject_exc sub) ''BrokenAgentExitError''")
    case True
    then have "base \<Longrightarrow> reason_of_failure sub conn provider True \<noteq> None"
      using base_has_reason b by (auto simp: reason_of_failure_def)
    with True show ?thesis by (auto simp: f reason_of_failure_def)
  next
    case False
    have "provider \<noteq> None \<Longrightarrow> watchdog_reason_of (subject_exc sub) = None"
      using provider_not_watchdog(1) p by (auto simp: apply_terminal_unavailability_category_def split: if_splits)
    moreover have "exc_named (subject_exc sub) ''BrokenAgentExitError'' \<Longrightarrow> watchdog_reason_of (subject_exc sub) = None"
      by (auto simp: exc_named_def watchdog_reason_of_def split: option.splits)
    ultimately have "base" "\<not> resumable_kill sub base"
      using False by (auto simp: b base_unavailable_def resumable_kill_def)
    with False show ?thesis by (auto simp: f reason_of_failure_def)
  qed
qed

text \<open>
  an agent is reported unavailable exactly when the classifier also says why.  Both the
  decision and the reason are computed from overlapping but differently ordered tests (typed watchdog
  reason, provider state, text markers, connectivity), so this is what lets the tracker always find
  a backoff policy and never mark an available agent.
\<close>
theorem unavailable_iff_reason:
  "is_unavailable (classify_failure sub ph ag conn)
     \<longleftrightarrow> cf_unavailability_reason (classify_failure sub ph ag conn) \<noteq> None"
  by (rule unavailable_reason_iff)

text \<open>
  what a classification can say.  Only a failure attributed to the agent is charged, a session is
  reset only together with a charge, exactly the agent's failures name the agent, and a broken tool
  registry is never reported as a fault of the configuration, of an artifact or of an integration.
\<close>
theorem classification_is_fair:
  "let f = classify_failure sub ph ag conn
   in (counts_against_budget f \<longrightarrow> cf_category f = Cat_agent)
      \<and> (reset_session f \<longrightarrow> counts_against_budget f)
      \<and> cf_attributed_agent f = (if cf_category f = Cat_agent then ag else None)
      \<and> (cf_reset_tool_registry f \<longrightarrow> cf_category f \<in> {Cat_agent, Cat_environmental})"
proof -
  obtain cat0 charged0 rs cat charged provider where
    c: "categorize sub conn = (cat0, charged0, rs)" and
    p: "apply_terminal_unavailability_category cat0 charged0
       (terminal_process_unavailability_reason (subject_exc sub) (subject_parts sub) conn)
       (is_tool_availability_failure (subject_exc sub) (subject_parts sub)) = (cat, charged, provider)"
    and f: "cf_category (classify_failure sub ph ag conn) = cat"
      "counts_against_budget (classify_failure sub ph ag conn) = charged"
      "reset_session (classify_failure sub ph ag conn) = rs"
    by (rule classify_failure_stages [of sub conn ph ag])
  have fair: "charged0 \<longrightarrow> cat0 = Cat_agent" "rs \<longrightarrow> charged0"
    using categorize_fair [of sub conn] c by (simp_all add: fair_verdict_def)
  have "is_tool_availability_failure (subject_exc sub) (subject_parts sub) \<longrightarrow> cat \<in> {Cat_agent, Cat_environmental}"
    using p by (auto simp: apply_terminal_unavailability_category_def split: if_splits)
  with fair terminal_category_fair(1,2) [OF fair(1) p] show ?thesis by (simp add: f Let_def)
qed

lemma categorize_watchdog:
  assumes "find_typed_watchdog_cause h a \<noteq> None" "exc_at h a = Some e"
  shows "categorize (Raised h a) conn = (Cat_agent, True, False)"
  using assms by (simp add: categorize_def categorize_exc_def)

lemma reaches_kill_stored:
  assumes "(cause_link h)\<^sup>*\<^sup>* a k" "is_watchdog_kill h k" obtains e where "exc_at h a = Some e"
  using assms by (cases rule: converse_rtranclpE)
    (auto simp: is_watchdog_kill_def cause_link_def next_cause_def split: option.splits)

text \<open>
  C33: a kill by the idle watchdog is the agent's fault at any depth of the chain of causes, cyclic
  chains included, and no matter what the texts of the wrapping exceptions say: it is charged, it
  names the agent and it does not reset the session.
\<close>
theorem watchdog_kill_is_agent_fault:
  assumes "(cause_link h)\<^sup>*\<^sup>* a k" "is_watchdog_kill h k"
  shows "let f = classify_failure (Raised h a) ph ag conn
         in cf_category f = Cat_agent \<and> counts_against_budget f \<and> cf_attributed_agent f = ag \<and> \<not> reset_session f"
proof -
  obtain e where e: "exc_at h a = Some e" using assms by (rule reaches_kill_stored)
  have "find_typed_watchdog_cause h a \<noteq> None" using assms find_typed_none_iff by blast
  then have c: "categorize (Raised h a) conn = (Cat_agent, True, False)" by (rule categorize_watchdog [OF _ e])
  show ?thesis
    by (rule classify_failure_stages [of "Raised h a" conn ph ag])
      (auto simp: c Let_def apply_terminal_unavailability_category_def split: if_splits)
qed

definition wrapped_kill :: exc_store where
  "wrapped_kill =
     [agent_invocation_error ''AgentInactivityTimeoutError'' [''AgentInactivityTimeoutError''] ''dev'' (- 1)
        ''connection reset'' [] ''watchdog_observation'' \<lparr>ex_cause := Some 1, ex_reason := Some ''no_output_at_start''\<rparr>,
      agent_invocation_error ''_IdleStreamTimeoutError'' [''_IdleStreamTimeoutError''] ''dev'' 0 [] [] ''agent''
        \<lparr>ex_context := Some 2\<rparr>,
      agent_invocation_error ''IdleWatchdogKilledError'' [''IdleWatchdogKilledError''] ''dev'' 0 [] [] ''agent''
        \<lparr>ex_cause := Some 0, ex_resumable_session_id := Some ''s-7''\<rparr>]"

lemma wrapped_kill_chain:
  "(cause_link wrapped_kill)\<^sup>*\<^sup>* 0 2" "is_watchdog_kill wrapped_kill 2" "find_typed_watchdog_cause wrapped_kill 0 = Some 2"
proof -
  have n: "next_cause wrapped_kill 0 = Some 1" "next_cause wrapped_kill 1 = Some 2"
    and k: "\<not> is_watchdog_kill wrapped_kill 0" "\<not> is_watchdog_kill wrapped_kill 1" "is_watchdog_kill wrapped_kill 2"
    by (simp_all add: next_cause_def is_watchdog_kill_def exc_at_def wrapped_kill_def agent_invocation_error_def
        isinstance_def Let_def)
  from n show "(cause_link wrapped_kill)\<^sup>*\<^sup>* 0 2" by (meson cause_link_def converse_rtranclp_into_rtranclp rtranclp.rtrancl_refl)
  from k show "is_watchdog_kill wrapped_kill 2" by simp
  from n k have "nearest_kill wrapped_kill 0 2"
    by (simp add: nearest_kill_step [of _ 0] nearest_kill_step [of _ "Suc 0"] nearest_kill_step [of _ 2])
  then show "find_typed_watchdog_cause wrapped_kill 0 = Some 2" by (simp add: find_typed_watchdog_cause_iff)
qed

theorem watchdog_kill_is_agent_fault_witness:
  "let f = classify_failure (Raised wrapped_kill 0) ''development'' (Some ''dev'') (Some ''offline'')
   in cf_category f = Cat_agent \<and> counts_against_budget f \<and> cf_attributed_agent f = Some ''dev'' \<and> \<not> reset_session f"
  using watchdog_kill_is_agent_fault [OF wrapped_kill_chain(1,2)] .

lemma not_provider_if_inactivity:
  assumes "ex_type e = ''AgentInactivityTimeoutError''"
  shows "terminal_process_unavailability_reason (Some e) parts conn = None"
  using assms by (simp add: terminal_process_unavailability_reason_def)

lemma inactivity_provider_None:
  assumes "apply_terminal_unavailability_category cat0 charged0 None r = (cat, charged, provider)"
  shows "provider = None"
  using assms by (auto simp: apply_terminal_unavailability_category_def split: if_splits)

lemma inactivity_base:
  assumes "subject_exc sub = Some e" "ex_type e = ''AgentInactivityTimeoutError''"
    and "base_unavailable sub conn cat None r"
  shows "unavailable_by_watchdog (ex_reason e) (kill_child_alive sub)
    \<or> unavailable_by_text (Some e) (ex_reason e) (kill_child_alive sub) (subject_message sub) (subject_parts sub)"
  using assms by (auto simp: base_unavailable_def exc_named_def watchdog_reason_of_def)

lemma inactivity_available:
  assumes "subject_exc sub = Some e" "ex_type e = ''AgentInactivityTimeoutError''"
    and "\<not> is_auth_config_failure (subject_parts sub)"
    and "ex_reason e = Some ''no_progress_quiet'' \<and> kill_child_alive sub = Some True
         \<or> ex_reason e = Some ''no_output_at_start'' \<and> truthy (kill_session sub)"
  shows "\<not> is_unavailable (classify_failure sub ph ag conn)"
proof -
  obtain cat0 charged0 rs cat charged provider base where
    p: "apply_terminal_unavailability_category cat0 charged0
       (terminal_process_unavailability_reason (subject_exc sub) (subject_parts sub) conn)
       (is_tool_availability_failure (subject_exc sub) (subject_parts sub)) = (cat, charged, provider)"
    and b: "base = base_unavailable sub conn cat provider (is_tool_availability_failure (subject_exc sub) (subject_parts sub))"
    and f: "is_unavailable (classify_failure sub ph ag conn)
       = (base \<and> \<not> resumable_kill sub base \<or> is_auth_config_failure (subject_parts sub))"
    by (rule classify_failure_stages [of sub conn ph ag])
  have "provider = None"
    using p assms(1) not_provider_if_inactivity [OF assms(2)] by (auto intro: inactivity_provider_None)
  with b have "base \<Longrightarrow> unavailable_by_watchdog (ex_reason e) (kill_child_alive sub)
    \<or> unavailable_by_text (Some e) (ex_reason e) (kill_child_alive sub) (subject_message sub) (subject_parts sub)"
    using inactivity_base [OF assms(1,2)] by blast
  then have "base \<Longrightarrow> resumable_kill sub base"
    using assms(1,2,4)
    by (auto simp: resumable_kill_def watchdog_reason_of_def unavailable_by_watchdog_def unavailable_by_text_def
        WATCHDOG_UNAVAILABILITY_REASONS_def)
  with assms(3) show ?thesis by (auto simp: f)
qed

text \<open>
  the two watchdog kills that must be retried on the same agent are never turned into a cooldown,
  whatever their texts and the connectivity are, unless the agent asks to be logged in: a quiet
  agent whose child was seen alive, and an agent that was silent from the start but left a session
  that can be resumed, in which case that session is handed on.
\<close>
theorem retryable_kills_stay_available:
  assumes "subject_exc sub = Some e" "ex_type e = ''AgentInactivityTimeoutError''"
    and "\<not> is_auth_config_failure (subject_parts sub)"
    and "ex_reason e = Some ''no_progress_quiet'' \<and> kill_child_alive sub = Some True
         \<or> ex_reason e = Some ''no_output_at_start'' \<and> kill_session sub = Some sid"
  shows "let f = classify_failure sub ph ag conn
         in \<not> is_unavailable f \<and> cf_unavailability_reason f = None
            \<and> (ex_reason e = Some ''no_output_at_start'' \<longrightarrow> resumable_session_id f = Some sid)"
proof -
  have s: "truthy (kill_session sub)" if "kill_session sub = Some sid"
    using that by (auto simp: kill_session_def captured_session_def split: option.splits if_splits)
  have "\<not> is_unavailable (classify_failure sub ph ag conn)"
    by (rule inactivity_available [OF assms(1-3)]) (use assms(4) s in blast)
  with assms(4) show ?thesis using unavailable_reason_iff [of sub ph ag conn] by (auto simp: Let_def)
qed

lemma out_of_credits_online:
  "classify_unavailability_reason wd parts msg conn alive = Some Out_of_credits \<Longrightarrow> is_online conn"
  "terminal_process_unavailability_reason exc parts conn = Some Out_of_credits \<Longrightarrow> is_online conn"
  by (auto simp: classify_unavailability_reason_def terminal_process_unavailability_reason_def
      provider_unavailability_reason_def Let_def split: if_splits option.splits)

text \<open>
  an agent is declared out of credits only while the connection is known to be up, so that a
  quota text printed during an outage never starts the longest cooldown.
\<close>
theorem out_of_credits_only_online:
  assumes "cf_unavailability_reason (classify_failure sub ph ag conn) = Some Out_of_credits"
  shows "is_online conn"
proof -
  obtain cat0 charged0 rs cat charged provider base where
    p: "apply_terminal_unavailability_category cat0 charged0
       (terminal_process_unavailability_reason (subject_exc sub) (subject_parts sub) conn)
       (is_tool_availability_failure (subject_exc sub) (subject_parts sub)) = (cat, charged, provider)"
    and f: "cf_unavailability_reason (classify_failure sub ph ag conn)
       = reason_of_failure sub conn provider (base \<and> \<not> resumable_kill sub base \<or> is_auth_config_failure (subject_parts sub))"
    by (rule classify_failure_stages [of sub conn ph ag])
  from assms have "provider = Some Out_of_credits
      \<or> classify_unavailability_reason (watchdog_reason_of (subject_exc sub)) (subject_parts sub)
           (subject_message sub) conn (kill_child_alive sub) = Some Out_of_credits"
    by (auto simp: f reason_of_failure_def split: if_splits)
  then show ?thesis using out_of_credits_online p
    by (auto simp: apply_terminal_unavailability_category_def split: if_splits)
qed

lemma marker_hit:
  "p \<in> set parts \<Longrightarrow> m \<in> set markers \<Longrightarrow> contains_str (lower p) (lower m)
    \<Longrightarrow> contains_casefolded_marker parts markers"
  by (auto simp: contains_casefolded_marker_def list_ex_iff)

lemma contains_str_refl: "contains_str s s"
  by (simp add: contains_str_iff) (rule exI [of _ "[]"], simp)

lemmas classification_stages =
  classify_failure_def categorize_def classify_message_only_failure_def apply_terminal_unavailability_category_def
  terminal_process_unavailability_reason_def base_unavailable_def unavailable_by_text_def watchdog_reason_of_def
  exc_named_def resumable_kill_def reason_of_failure_def classify_unavailability_reason_def
  connectivity_unavailability_reason_def Let_def

lemma online_simps [simp]: "is_online (Some ''online'') = True" "is_online (Some ''offline'') = False" "is_online None = False"
  by code_simp+

lemma credits_text:
  "contains_casefolded_marker [''out of credits''] SESSION_NOT_FOUND_SUBSTRINGS = False"
  "is_auth_config_failure [''out of credits''] = False"
  "is_permanent_account_failure [''out of credits''] = False"
  "is_tool_availability_failure None [''out of credits''] = False"
  by code_simp+

lemma credits_text_limit: "is_subscription_limit_message [''out of credits''] = True"
  unfolding is_subscription_limit_message_def
  by (simp, rule marker_hit [of "''out of credits''" _ "''out of credits''"])
     (simp_all add: SUBSCRIPTION_LIMIT_SUBSTRINGS_def contains_str_refl)

lemma credits_classified:
  "cf_unavailability_reason (classify_failure (Message ''out of credits'') ph ag (Some ''online'')) = Some Out_of_credits"
  by (simp add: classification_stages credits_text credits_text_limit starts_with_def)

lemma credits_charged:
  "counts_against_budget (classify_failure (Message ''out of credits'') ph ag (Some ''online''))"
  by (simp add: classification_stages credits_text credits_text_limit starts_with_def)

theorem classification_is_fair_witness:
  "let f = classify_failure (Message ''out of credits'') ''review'' (Some ''dev'') (Some ''online'')
   in counts_against_budget f \<and> cf_category f = Cat_agent \<and> cf_attributed_agent f = Some ''dev''"
  using classification_is_fair [of "Message ''out of credits''" "''review''" "Some ''dev''" "Some ''online''"]
    credits_charged [of "''review''" "Some ''dev''"]
  by (simp add: Let_def)

theorem out_of_credits_only_online_witness: "is_online (Some ''online'')"
  using out_of_credits_only_online [OF credits_classified] .

lemma wrapped_kill_subject:
  "subject_exc (Raised wrapped_kill 0) = Some (wrapped_kill ! 0)"
  "ex_type (wrapped_kill ! 0) = ''AgentInactivityTimeoutError''"
  "ex_reason (wrapped_kill ! 0) = Some ''no_output_at_start''"
  "kill_session (Raised wrapped_kill 0) = Some ''s-7''"
  "\<not> is_auth_config_failure (subject_parts (Raised wrapped_kill 0))"
proof -
  have e: "exc_at wrapped_kill 0 = Some (wrapped_kill ! 0)" "exc_at wrapped_kill 2 = Some (wrapped_kill ! 2)"
    by (simp_all add: exc_at_def wrapped_kill_def)
  have t: "ex_resumable_session_id (wrapped_kill ! 2) = Some ''s-7''"
    by (simp add: wrapped_kill_def agent_invocation_error_def Let_def)
  from e show "subject_exc (Raised wrapped_kill 0) = Some (wrapped_kill ! 0)" by simp
  show "ex_type (wrapped_kill ! 0) = ''AgentInactivityTimeoutError''"
    "ex_reason (wrapped_kill ! 0) = Some ''no_output_at_start''"
    by (simp_all add: wrapped_kill_def agent_invocation_error_def Let_def)
  show "kill_session (Raised wrapped_kill 0) = Some ''s-7''"
    by (simp add: kill_session_def wrapped_kill_chain(3) e captured_session_def t)
  show "\<not> is_auth_config_failure (subject_parts (Raised wrapped_kill 0))" by code_simp
qed

theorem retryable_kills_stay_available_witness:
  "let f = classify_failure (Raised wrapped_kill 0) ''development'' (Some ''dev'') (Some ''online'')
   in \<not> is_unavailable f \<and> cf_unavailability_reason f = None \<and> resumable_session_id f = Some ''s-7''"
  using retryable_kills_stay_available [OF wrapped_kill_subject(1,2,5), of "''s-7''"]
  by (simp add: wrapped_kill_subject(3,4) Let_def)

section \<open>With the recovery controller\<close>

lemma categorize_integration_text:
  "starts_with t ''integration conflict requires resolution:'' \<Longrightarrow> categorize (Message t) conn = (Cat_integration, False, False)"
  by (simp add: categorize_def classify_message_only_failure_def)

lemma integration_text_category:
  assumes "starts_with t ''integration conflict requires resolution:'' "
  shows "cf_category (classify_failure (Message t) ph ag conn)
    = (if is_tool_availability_failure None [t] then Cat_agent else Cat_integration)"
  using assms
  by (simp add: classify_failure_def categorize_integration_text apply_terminal_unavailability_category_def
      terminal_process_unavailability_reason_def Let_def)

text \<open>
  with the real classifier, a failure that says an integration conflict needs resolution is
  continued and charged to nobody: the controller keeps its ledger, its cooldowns, its budgets and the
  cycle count, and the failure event is not counted, unless the text also reports a missing tool.
\<close>
theorem integration_conflict_is_continued:
  assumes "starts_with t ''integration conflict requires resolution:'' " "\<not> is_tool_availability_failure None [t]"
    and "ctx_classified ctx = None"
  shows "\<exists>ctl' s' evt. handle failure_classifier c utc ctl s (Raw_text t) ctx changed valid = Inr (ctl', s', [], evt)
     \<and> ctl_ledger ctl' = ctl_ledger ctl \<and> ctl_tracker ctl' = ctl_tracker ctl
     \<and> ctl_backoff_attempts ctl' = ctl_backoff_attempts ctl \<and> spent_agents ctl' = spent_agents ctl
     \<and> recovery_cycle_count s' = recovery_cycle_count s \<and> phase s' = phase s \<and> \<not> counted_against_budget evt"
  using assms
  by (simp add: handle_def failure_classifier_def integration_text_category handle_integration_continuation_def
      publish_def clear_waiting_def Let_def)

definition conflict_text :: string where
  "conflict_text = ''integration conflict requires resolution: a.py''"

lemma conflict_text_tests:
  "starts_with conflict_text ''integration conflict requires resolution:'' " "\<not> is_tool_availability_failure None [conflict_text]"
  by code_simp+

theorem integration_conflict_is_continued_witness:
  "\<exists>ctl' s' evt. handle failure_classifier sample_clock ''utc'' sample_controller sample_run (Raw_text conflict_text)
       ((sample_context Cat_agent [])\<lparr>ctx_classified := None\<rparr>) False False = Inr (ctl', s', [], evt)
     \<and> ctl_ledger ctl' = ctl_ledger sample_controller \<and> ctl_tracker ctl' = ctl_tracker sample_controller
     \<and> ctl_backoff_attempts ctl' = ctl_backoff_attempts sample_controller \<and> spent_agents ctl' = spent_agents sample_controller
     \<and> recovery_cycle_count s' = recovery_cycle_count sample_run \<and> phase s' = phase sample_run
     \<and> \<not> counted_against_budget evt"
  by (rule integration_conflict_is_continued [OF conflict_text_tests]) simp

section \<open>A name and its exception are classified differently\<close>

text \<open>
  \<^verbatim>\<open>MissingCredentialsError\<close>: the class name alone is a fault of the configuration, but the
  exception object itself is ambiguous, because no test of an exception names the class and its
  message is longer than its name.
\<close>

definition missing_credentials_error :: "string \<Rightarrow> string \<Rightarrow> exc_obj" where
  "missing_credentials_error ag detail =
     agent_invocation_error ''MissingCredentialsError'' [''MissingCredentialsError''] ag 1 detail [] ''agent''"

lemma missing_credentials_diverges:
  assumes "\<not> is_auth_config_failure parts" "\<not> contains_casefolded_marker parts MODEL_PREFLIGHT_UNAVAILABLE_SUBSTRINGS"
  shows "dget TYPED_EXIT_REASON_CATEGORIES ''MissingCredentialsError'' = Some (Cat_user_config, False, False)"
    and "categorize_exc [missing_credentials_error ag d] 0 (missing_credentials_error ag d) msg parts conn = None"
    and "terminal_process_unavailability_reason (Some (missing_credentials_error ag d)) parts conn = None"
proof -
  let ?e = "missing_credentials_error ag d"
  have t: "ex_type ?e = ''MissingCredentialsError''" "ex_cause ?e = None" "ex_context ?e = None"
    "ex_classes ?e = [''MissingCredentialsError'', ''AgentInvocationError'', ''Exception'']"
    by (simp_all add: missing_credentials_error_def agent_invocation_error_def Let_def)
  then have "find_typed_watchdog_cause [?e] 0 = None"
    by (simp add: find_typed_watchdog_cause_def is_watchdog_kill_def exc_at_def isinstance_def next_cause_def)
  with assms t show "categorize_exc [?e] 0 ?e msg parts conn = None"
    by (simp add: categorize_exc_def is_user_config_exc_def is_environmental_exc_def isinstance_def ARTIFACT_VALIDATION_TYPE_NAMES_def)
  from t show "terminal_process_unavailability_reason (Some ?e) parts conn = None"
    by (simp add: terminal_process_unavailability_reason_def)
qed (simp add: TYPED_EXIT_REASON_CATEGORIES_def dget_def)

end
