(* ===== verification/Direct_Retry.thy ===== *)
theory Direct_Retry
  imports Failure_Classifier
begin

text \<open>
  Retrying one invocation: which failures are retryable (\<^verbatim>\<open>ralph/pipeline/retryable_failure.py\<close>),
  what the next attempt does with its session (\<^verbatim>\<open>ralph/agents/invoke/_session_resume.py\<close>,
  \<^verbatim>\<open>ralph/pipeline/agent_retry_intent.py\<close>, \<^verbatim>\<open>ralph/pipeline/agent_retry_decision.py\<close>), and the two
  loops that repeat an attempt inside one invocation (\<^verbatim>\<open>ralph/agents/invoke/_direct_mcp_recovery.py\<close>).

  An attempt and the callbacks of a loop act on a world of any type, so that nothing is assumed of
  them; an attempt answers the sessions it reported, and its result or what it raised.  The
  extraction of a session id from one line of output is an argument.  Telemetry is dropped, and so
  are notes attached to an exception, which nothing reads.
\<close>

section \<open>Retryable failures\<close>

definition TRANSIENT_CONNECTIVITY_MARKERS :: "string list" where
  "TRANSIENT_CONNECTIVITY_MARKERS =
     [''connection refused'', ''network is unreachable'', ''temporary failure in name resolution'',
      ''name or service not known'', ''timed out'', ''timeout'', ''offline'', ''econnreset'', ''enotfound'',
      ''socket hang up'', ''fetch failed'']"

definition TURN_LIMIT_MARKERS :: "string list" where
  "TURN_LIMIT_MARKERS = [''conversation exceeded 50 turns'']"

definition MCP_TOOL_CALL_TIMEOUT_MARKERS :: "string list" where
  "MCP_TOOL_CALL_TIMEOUT_MARKERS = [''timed out awaiting tools/call'']"

definition primary_recovery_error_text :: "exc_obj \<Rightarrow> string" where
  "primary_recovery_error_text e = (case ex_stderr e of
     Some err \<Rightarrow> if strip err \<noteq> [] then err else ex_text e | None \<Rightarrow> ex_text e)"

definition has_transient_connectivity_signal :: "string \<Rightarrow> bool" where
  "has_transient_connectivity_signal t = list_ex (contains_str (lower t)) TRANSIENT_CONNECTIVITY_MARKERS"

definition retryable_agent_failure_reason :: "exc_obj \<Rightarrow> string \<Rightarrow> string option" where
  "retryable_agent_failure_reason e inactivity_error_type =
     (let parts = failure_detail_parts e
      in if ex_type e = ''QuotaExhaustedError'' \<or> is_subscription_limit_message parts then None
         else first_match
           [(isinstance e ''AgentLaunchError'', ''a transient runtime launch failure''),
            (isinstance e inactivity_error_type, ''an inactivity timeout''),
            (ex_type e = ''OpenCodeResumableExitError'', ''agent session exited without required completion evidence''),
            (ex_type e = ''AgyIncompleteExitError'', ''the agent exited without required completion evidence''),
            (contains_casefolded_marker parts SESSION_NOT_FOUND_SUBSTRINGS, ''a stale session ID (fresh session required)''),
            (contains_casefolded_marker parts TURN_LIMIT_MARKERS, ''the agent conversation turn limit''),
            (contains_casefolded_marker parts MCP_TOOL_CALL_TIMEOUT_MARKERS, ''a Ralph MCP tool call that timed out''),
            (has_transient_connectivity_signal (primary_recovery_error_text e), ''a transient connectivity failure''),
            (contains_casefolded_marker parts POST_TOOL_EMPTY_RESPONSE_SUBSTRINGS
               \<and> contains_casefolded_marker parts POST_TOOL_ACTIVITY_MARKERS, ''a post-tool-result continuation failure''),
            (contains_casefolded_marker parts POST_TOOL_EMPTY_RESPONSE_SUBSTRINGS, ''an empty model response'')])"

section \<open>The session of the next attempt\<close>

definition recovery_action_for_failure_reason :: "string \<Rightarrow> bool \<Rightarrow> bool \<Rightarrow> retry_action" where
  "recovery_action_for_failure_reason why has_prior reset =
     (if \<not> has_prior then Fresh
      else if why \<in> {''AgentInactivityTimeoutError'', ''OpenCodeResumableExitError''} then Resume
      else if reset then Resume
      else Fresh)"

text \<open>The action arrives as text; every other text is refused.\<close>

definition resolve_resume_session_id :: "bool \<Rightarrow> string option \<Rightarrow> string \<Rightarrow> string option res" where
  "resolve_resume_session_id has_prior prior act =
     (if act \<notin> {''fresh'', ''resume'', ''new_session_with_id''}
        then Inl (ValueError (''unknown recovery_action: '' @ quoted act
               @ ''; expected one of 'fresh', 'resume', 'new_session_with_id'' @ [CHR 0x27]))
      else if has_prior \<and> \<not> truthy prior
        then Inl (ValueError ''has_prior_session=True requires a non-empty prior_session_id'')
      else if act = ''fresh'' \<or> \<not> has_prior then Inr None
      else Inr prior)"

definition agent_retry_intent_for_failure :: "string \<Rightarrow> string option \<Rightarrow> bool \<Rightarrow> agent_retry_intent res" where
  "agent_retry_intent_for_failure why sid reset =
     (let act = recovery_action_for_failure_reason why (truthy sid) reset
      in if act = Fresh
           then new_agent_retry_intent (cleared_agent_retry_intent
                  \<lparr>action := Some Fresh, session_id := None, reset_tool_registry := False, failure_reason := why\<rparr>)
         else new_agent_retry_intent (cleared_agent_retry_intent
                  \<lparr>action := Some act, session_id := sid, reset_tool_registry := reset, failure_reason := why\<rparr>))"

text \<open>The reasons a broken agent can give are those its constructor accepts.\<close>

definition broken_kind_of :: "exc_obj \<Rightarrow> broken_agent_kind option" where
  "broken_kind_of e = (if isinstance e ''BrokenAgentExitError''
     then List.find (\<lambda>k. ex_reason e = Some (broken_agent_value k)) [No_output, Prompt_echo, No_llm_activity]
     else None)"

definition SAME_AGENT_FUTILE :: "string list" where
  "SAME_AGENT_FUTILE = [''BrokenAgentExitError'', ''MissingCredentialsError'', ''PiContextExhaustedExitError'',
     ''PiProviderFailureExitError'', ''QuotaExhaustedError'']"

definition resolve_retry_intent ::
  "exc_store \<Rightarrow> nat \<Rightarrow> exc_obj \<Rightarrow> string \<Rightarrow> string option \<Rightarrow> string option \<Rightarrow> string \<Rightarrow> agent_retry_intent option res" where
  "resolve_retry_intent h a e ph ag sid inactivity_error_type =
     (if ex_type e \<in> set SAME_AGENT_FUTILE \<or> is_subscription_limit_message (failure_detail_parts e)
        then rbind (new_agent_retry_intent (cleared_agent_retry_intent
               \<lparr>failure_reason := ex_type e, skip_same_agent_retries := True, failed_agent_name := ag,
                broken_agent_reason := broken_kind_of e,
                broken_agent_returncode := (if isinstance e ''BrokenAgentExitError'' then ex_returncode e else None),
                broken_agent_stderr := (if isinstance e ''BrokenAgentExitError'' then or_else (ex_stderr e) [] else [])\<rparr>))
               (\<lambda>i. Inr (Some i))
      else if retryable_agent_failure_reason e inactivity_error_type = None then Inr None
      else rbind (agent_retry_intent_for_failure (ex_type e) sid
               (cf_reset_tool_registry (classify_failure (Raised h a) ph ag None)))
               (\<lambda>i. Inr (Some i)))"

section \<open>The parts of a loop\<close>

type_synonym raised_exc = "exc_store \<times> nat"

text \<open>Raising a new exception: it is stored behind the exceptions it may refer to.\<close>

definition raise_new :: "exc_store \<Rightarrow> exc_obj \<Rightarrow> nat option \<Rightarrow> raised_exc" where
  "raise_new h e from_exc = (h @ [e\<lparr>ex_cause := from_exc, ex_context := from_exc\<rparr>], length h)"

definition default_direct_mcp_retry_limit :: "int option \<Rightarrow> int" where
  "default_direct_mcp_retry_limit raw = (case raw of Some n \<Rightarrow> if n \<ge> 0 then n else 10 | None \<Rightarrow> 10)"

definition exception_agent_name :: "exc_obj \<Rightarrow> string option" where
  "exception_agent_name e = (if truthy (ex_agent_name e) then ex_agent_name e else None)"

definition exception_parsed_output :: "exc_obj \<Rightarrow> string list" where
  "exception_parsed_output e = (case ex_parsed_output e of None \<Rightarrow> [] | Some ls \<Rightarrow> ls)"

definition budget_diagnostic :: "exc_obj \<Rightarrow> nat \<Rightarrow> string" where
  "budget_diagnostic e used =
     ''Direct-MCP invocation retry budget exhausted after '' @ str_int (int used + 1) @ '' attempts (''
     @ str_int (int used) @ '' retries); cause: '' @ ex_type e @ ''.''"

definition retry_budget_exhausted_error :: "raised_exc \<Rightarrow> exc_obj \<Rightarrow> nat \<Rightarrow> raised_exc" where
  "retry_budget_exhausted_error exc e used =
     (if isinstance e ''AgentInvocationError''
        then ((fst exc)[snd exc := e\<lparr>ex_parsed_output := Some (exception_parsed_output e @ [budget_diagnostic e used])\<rparr>], snd exc)
      else exc)"

definition mcp_operation_error :: "exc_obj \<Rightarrow> exc_obj \<Rightarrow> exc_obj" where
  "mcp_operation_error e mcp =
     (if isinstance e ''AgentInvocationError''
        then agent_invocation_error ''AgentInvocationError'' [] (or_else (ex_agent_name e) [])
               (case ex_returncode e of None \<Rightarrow> 0 | Some rc \<Rightarrow> rc) (ex_text mcp) (exception_parsed_output e)
               (if attr_failure_origin e = ''agent'' then ''mcp_operation'' else attr_failure_origin e)
      else agent_invocation_error ''AgentInvocationError'' [] ''mcp'' 1 (ex_text mcp) [] ''mcp_operation'')"

definition extract_transport_session_id :: "(string \<Rightarrow> string option) \<Rightarrow> string list \<Rightarrow> string option" where
  "extract_transport_session_id line_sid ls =
     Option.bind (List.find (\<lambda>l. truthy (line_sid l)) ls) line_sid"

definition first_session :: "string option list \<Rightarrow> string option" where
  "first_session cands = (case List.find truthy cands of Some s \<Rightarrow> s | None \<Rightarrow> last cands)"

record retry_plan =
  rp_session_id :: "string option"
  rp_reset_tool_registry :: bool
  rp_skip_same_agent_retries :: bool

definition retry_plan_for_exception ::
  "(string \<Rightarrow> string option) \<Rightarrow> raised_exc \<Rightarrow> exc_obj \<Rightarrow> string list \<Rightarrow> string option \<Rightarrow> retry_plan option res" where
  "retry_plan_for_exception line_sid exc e attempt_lines current =
     (let resumable = (if truthy (ex_resumable_session_id e) then ex_resumable_session_id e else None);
          sid = first_session [extract_transport_session_id line_sid attempt_lines,
                  extract_transport_session_id line_sid (exception_parsed_output e), resumable, current]
      in rbind (resolve_retry_intent (fst exc) (snd exc) e ''standalone'' (exception_agent_name e) sid
                  ''AgentInactivityTimeoutError'')
           (\<lambda>intent. Inr (map_option (\<lambda>i. \<lparr>rp_session_id = session_id i,
                rp_reset_tool_registry = reset_tool_registry i,
                rp_skip_same_agent_retries = skip_same_agent_retries i\<rparr>) intent)))"

section \<open>Repeating an attempt\<close>

record ('w, 'r) direct_calls =
  dc_attempt :: "'w \<Rightarrow> string option \<Rightarrow> 'w \<times> string list \<times> (raised_exc + 'r)"
  dc_reset :: "('w \<Rightarrow> 'w \<times> raised_exc option) option"
  dc_on_retry_failure :: "'w \<Rightarrow> string list \<Rightarrow> 'w"

text \<open>After a failed attempt a loop stops with what it raises, or goes on with a session.\<close>

datatype 'w direct_next = Stop 'w raised_exc | Again 'w "string option"

text \<open>A \<^verbatim>\<open>RuntimeError\<close> of the intent's constructor, raised inside the handler of the failure.\<close>

definition runtime_error_exc :: "py_exn \<Rightarrow> exc_obj" where
  "runtime_error_exc x =
     \<lparr>ex_type = ''RuntimeError'', ex_classes = [''RuntimeError'', ''Exception''],
      ex_text = (case x of RuntimeError t \<Rightarrow> t | _ \<Rightarrow> []), ex_errno = None, ex_agent_name = None, ex_returncode = None,
      ex_stderr = None, ex_parsed_output = None, ex_failure_origin = None, ex_reason = None, ex_child_alive = None,
      ex_resumable_session_id = None, ex_session_resume_safe = False, ex_cause = None, ex_context = None\<rparr>"

definition reset_registry_then ::
  "('w \<Rightarrow> 'w \<times> raised_exc option) \<Rightarrow> exc_obj \<Rightarrow> 'w \<Rightarrow> string option \<Rightarrow> 'w direct_next" where
  "reset_registry_then reset e w sid = (case reset w of
     (w1, None) \<Rightarrow> Again w1 sid
   | (w1, Some (h, a)) \<Rightarrow> (case exc_at h a of
       None \<Rightarrow> Stop w1 (h, a)
     | Some mcp \<Rightarrow>
         if isinstance mcp ''McpServerError'' \<or> \<not> isinstance mcp ''Exception'' then Stop w1 (h, a)
         else Stop w1 (raise_new h (mcp_operation_error e mcp) (Some a))))"

definition follow_plan ::
  "('w, 'r) direct_calls \<Rightarrow> ('w \<Rightarrow> 'w \<times> raised_exc option) \<Rightarrow> exc_obj \<Rightarrow> 'w \<Rightarrow> retry_plan \<Rightarrow> 'w direct_next" where
  "follow_plan calls reset e w plan =
     (let w1 = dc_on_retry_failure calls w (exception_parsed_output e)
      in if rp_reset_tool_registry plan then reset_registry_then reset e w1 (rp_session_id plan)
         else Again w1 (rp_session_id plan))"

definition run_failure ::
  "('w, 'r) direct_calls \<Rightarrow> (string \<Rightarrow> string option) \<Rightarrow> int \<Rightarrow> bool \<Rightarrow> string option \<Rightarrow> nat \<Rightarrow> bool
    \<Rightarrow> 'w \<Rightarrow> raised_exc \<Rightarrow> exc_obj \<Rightarrow> 'w direct_next" where
  "run_failure calls line_sid budget retry_resumable observed used reprompted w exc e =
     (if isinstance e ''SupervisionInfrastructureError'' \<or> isinstance e ''McpServerError'' \<or> \<not> isinstance e ''Exception''
        then Stop w exc
      else if ex_type e = ''OpenCodeResumableExitError'' \<and> \<not> retry_resumable then Stop w exc
      else if ex_type e = ''AgyIncompleteExitError'' \<and> reprompted then Stop w exc
      else case dc_reset calls of
        None \<Rightarrow> Stop w exc
      | Some reset \<Rightarrow>
          if \<not> int used < budget then Stop w (retry_budget_exhausted_error exc e used)
          else (case retry_plan_for_exception line_sid exc e (exception_parsed_output e) observed of
              Inl x \<Rightarrow> Stop w (raise_new (fst exc) (runtime_error_exc x) (Some (snd exc)))
            | Inr None \<Rightarrow> Stop w exc
            | Inr (Some plan) \<Rightarrow>
                if rp_skip_same_agent_retries plan then Stop w exc
                else follow_plan calls reset e w plan))"

text \<open>\<open>observed\<close> is the last session the attempt reported, else the one it was given.\<close>

definition observed_session :: "string option \<Rightarrow> string list \<Rightarrow> string option" where
  "observed_session current seen = (if seen = [] then current else Some (last seen))"

definition run_step ::
  "('w, 'r) direct_calls \<Rightarrow> (string \<Rightarrow> string option) \<Rightarrow> int \<Rightarrow> bool \<Rightarrow> string option \<Rightarrow> nat \<Rightarrow> bool \<Rightarrow> 'w
    \<Rightarrow> ('w \<times> (raised_exc + 'r)) + ('w \<times> string option \<times> bool)" where
  "run_step calls line_sid budget retry_resumable current used reprompted w =
     (case dc_attempt calls w current of
        (w1, seen, Inr r) \<Rightarrow> Inl (w1, Inr r)
      | (w1, seen, Inl exc) \<Rightarrow> (case exc_at (fst exc) (snd exc) of
          None \<Rightarrow> Inl (w1, Inl exc)
        | Some e \<Rightarrow>
            (case run_failure calls line_sid budget retry_resumable (observed_session current seen) used
                    reprompted w1 exc e of
               Stop w2 exc' \<Rightarrow> Inl (w2, Inl exc')
             | Again w2 sid \<Rightarrow> Inr (w2, sid, reprompted \<or> ex_type e = ''AgyIncompleteExitError''))))"

lemma run_failure_again: "run_failure calls ls m rr obs used rep w exc e = Again w' sid \<Longrightarrow> int used < m"
  by (auto simp: run_failure_def split: option.splits if_splits)

lemma run_step_again: "run_step calls ls m rr cur used rep w = Inr x \<Longrightarrow> int used < m"
  by (auto simp: run_step_def split: prod.splits sum.splits option.splits direct_next.splits dest: run_failure_again)

function run_with_direct_mcp_recovery ::
  "('w, 'r) direct_calls \<Rightarrow> (string \<Rightarrow> string option) \<Rightarrow> int \<Rightarrow> bool \<Rightarrow> string option \<Rightarrow> nat \<Rightarrow> bool \<Rightarrow> 'w
    \<Rightarrow> 'w \<times> (raised_exc + 'r)" where
  "run_with_direct_mcp_recovery calls line_sid budget retry_resumable current used reprompted w =
     (case run_step calls line_sid budget retry_resumable current used reprompted w of
        Inl out \<Rightarrow> out
      | Inr (w1, sid, reprompted1) \<Rightarrow>
          run_with_direct_mcp_recovery calls line_sid budget retry_resumable sid (used + 1) reprompted1 w1)"
  by pat_completeness auto

termination
  by (relation "measure (\<lambda>(calls, ls, m, rr, cur, used, rep, w). nat (m - int used))") (auto dest: run_step_again)

declare run_with_direct_mcp_recovery.simps [simp del]

section \<open>Repeating a streamed attempt\<close>

definition MAX_RECOVERY_ATTEMPT_LINES :: nat where
  "MAX_RECOVERY_ATTEMPT_LINES = 400"

text \<open>The lines of the attempt, then those of the exception that are new, each once.\<close>

fun merge_lines :: "string list \<Rightarrow> string list \<Rightarrow> string list" where
  "merge_lines merged [] = merged"
| "merge_lines merged (l # ls) = merge_lines (if l \<in> set merged then merged else merged @ [l]) ls"

text \<open>The answer is the exception itself, changed in place, or a new object of the same store.\<close>

definition invocation_error_with_output :: "raised_exc \<Rightarrow> exc_obj \<Rightarrow> string list \<Rightarrow> raised_exc \<times> exc_obj" where
  "invocation_error_with_output exc e attempt_lines =
     (let merged = merge_lines attempt_lines (exception_parsed_output e)
      in if \<not> isinstance e ''AgentInvocationError'' then (exc, e)
         else if ex_type e = ''AgyIncompleteExitError''
           then let e1 = e\<lparr>ex_parsed_output := Some merged\<rparr> in (((fst exc)[snd exc := e1], snd exc), e1)
         else if merged \<noteq> []
           then let e1 = agent_invocation_error ''AgentInvocationError'' [] (or_else (ex_agent_name e) [])
                      (case ex_returncode e of None \<Rightarrow> 0 | Some rc \<Rightarrow> rc) (or_else (ex_stderr e) []) merged
                      (attr_failure_origin e)
                in ((fst exc @ [e1], length (fst exc)), e1)
         else (exc, e))"

text \<open>
  Raising an object while \<open>exc\<close> is handled makes \<open>exc\<close> its context, unless it is \<open>exc\<close> itself;
  \<^verbatim>\<open>raise exc_with_output from exc\<close> also makes \<open>exc\<close> its cause, even when both are the same object.
\<close>

definition raise_within :: "raised_exc \<times> exc_obj \<Rightarrow> raised_exc \<Rightarrow> raised_exc" where
  "raise_within x exc = (case x of ((h, a), e) \<Rightarrow>
     (if a = snd exc then (h, a) else (h[a := e\<lparr>ex_context := Some (snd exc)\<rparr>], a)))"

definition raise_from :: "raised_exc \<times> exc_obj \<Rightarrow> raised_exc \<Rightarrow> raised_exc" where
  "raise_from x exc = (case x of ((h, a), e) \<Rightarrow>
     (h[a := e\<lparr>ex_cause := Some (snd exc),
               ex_context := (if a = snd exc then ex_context e else Some (snd exc))\<rparr>], a))"

definition object_of :: "raised_exc \<Rightarrow> exc_obj \<Rightarrow> exc_obj" where
  "object_of exc e = (case exc_at (fst exc) (snd exc) of Some e1 \<Rightarrow> e1 | None \<Rightarrow> e)"

record 'w stream_calls =
  sc_attempt :: "'w \<Rightarrow> string option \<Rightarrow> 'w \<times> string list \<times> raised_exc option"
  sc_reset :: "('w \<Rightarrow> 'w \<times> raised_exc option) option"
  sc_on_retry_failure :: "'w \<Rightarrow> string list \<Rightarrow> 'w"

definition stream_failure ::
  "'w stream_calls \<Rightarrow> (string \<Rightarrow> string option) \<Rightarrow> int \<Rightarrow> string list \<Rightarrow> string option \<Rightarrow> nat \<Rightarrow> bool
    \<Rightarrow> 'w \<Rightarrow> raised_exc \<Rightarrow> exc_obj \<Rightarrow> 'w direct_next" where
  "stream_failure calls line_sid budget attempt_lines current used reprompted w exc e =
     (if isinstance e ''McpServerError'' \<or> \<not> isinstance e ''Exception'' \<or> ex_type e = ''OpenCodeResumableExitError''
        then Stop w exc
      else let (exc1, e1) = invocation_error_with_output exc e attempt_lines
      in if ex_type e = ''AgyIncompleteExitError'' \<and> reprompted then Stop w (raise_from (exc1, e1) exc)
      else case sc_reset calls of
        None \<Rightarrow> Stop w (raise_from (exc1, e1) exc)
      | Some reset \<Rightarrow>
          if \<not> int used < budget
            then (let exc2 = retry_budget_exhausted_error exc1 e1 used
                  in Stop w (raise_within (exc2, object_of exc2 e1) exc))
          else (case retry_plan_for_exception line_sid exc1 e1 attempt_lines current of
              Inl x \<Rightarrow> Stop w (raise_new (fst exc1) (runtime_error_exc x) (Some (snd exc)))
            | Inr None \<Rightarrow> Stop w (raise_from (exc1, e1) exc)
            | Inr (Some plan) \<Rightarrow>
                (let w1 = sc_on_retry_failure calls w (exception_parsed_output e1)
                 in if rp_reset_tool_registry plan then reset_registry_then reset e w1 (rp_session_id plan)
                    else Again w1 (rp_session_id plan))))"

text \<open>One streamed attempt: the lines it yields, then the end of the stream, a raise or another attempt.\<close>

definition stream_step ::
  "'w stream_calls \<Rightarrow> (string \<Rightarrow> string option) \<Rightarrow> (string \<Rightarrow> string option) \<Rightarrow> int \<Rightarrow> string option \<Rightarrow> nat \<Rightarrow> bool \<Rightarrow> 'w
    \<Rightarrow> string list \<times> (('w \<times> raised_exc option) + ('w \<times> string option \<times> bool))" where
  "stream_step calls line_sid tui_sid budget current used reprompted w =
     (case sc_attempt calls w current of
        (w1, ls, None) \<Rightarrow> (ls, Inl (w1, None))
      | (w1, ls, Some exc) \<Rightarrow> (ls, case exc_at (fst exc) (snd exc) of
          None \<Rightarrow> Inl (w1, Some exc)
        | Some e \<Rightarrow>
            (case stream_failure calls line_sid budget (slice_last ls MAX_RECOVERY_ATTEMPT_LINES)
                    (observed_session current (List.map_filter tui_sid ls)) used reprompted w1 exc e of
               Stop w2 exc' \<Rightarrow> Inl (w2, Some exc')
             | Again w2 sid \<Rightarrow> Inr (w2, sid, reprompted \<or> ex_type e = ''AgyIncompleteExitError''))))"

lemma stream_failure_again: "stream_failure calls ls m al cur used rep w exc e = Again w' sid \<Longrightarrow> int used < m"
  by (auto simp: stream_failure_def Let_def split: option.splits if_splits prod.splits)

lemma stream_step_again: "stream_step calls ls ts m cur used rep w = (out, Inr x) \<Longrightarrow> int used < m"
  by (auto simp: stream_step_def split: prod.splits sum.splits option.splits direct_next.splits dest: stream_failure_again)

function iter_with_direct_mcp_recovery ::
  "'w stream_calls \<Rightarrow> (string \<Rightarrow> string option) \<Rightarrow> (string \<Rightarrow> string option) \<Rightarrow> int \<Rightarrow> string option \<Rightarrow> nat \<Rightarrow> bool \<Rightarrow> 'w
    \<Rightarrow> string list \<times> 'w \<times> raised_exc option" where
  "iter_with_direct_mcp_recovery calls line_sid tui_sid budget current used reprompted w =
     (case stream_step calls line_sid tui_sid budget current used reprompted w of
        (ls, Inl out) \<Rightarrow> (ls, out)
      | (ls, Inr (w1, sid, reprompted1)) \<Rightarrow>
          (case iter_with_direct_mcp_recovery calls line_sid tui_sid budget sid (used + 1) reprompted1 w1 of
             (rest, out) \<Rightarrow> (ls @ rest, out)))"
  by pat_completeness auto

termination
  by (relation "measure (\<lambda>(calls, ls, ts, m, cur, used, rep, w). nat (m - int used))") (auto dest: stream_step_again [OF sym])

declare iter_with_direct_mcp_recovery.simps [simp del]

section \<open>The invocation's own decisions\<close>

text \<open>From \<^verbatim>\<open>ralph/pipeline/effect_executor.py\<close>: the session of a retry and the lines quoted to it.\<close>

definition is_stale_session_failure :: "exc_obj \<Rightarrow> bool" where
  "is_stale_session_failure e = contains_casefolded_marker (failure_detail_parts e) SESSION_NOT_FOUND_SUBSTRINGS"

definition failure_requires_fresh_session :: "exc_obj \<Rightarrow> string \<Rightarrow> bool" where
  "failure_requires_fresh_session e inactivity_error_type =
     (if isinstance e inactivity_error_type then \<not> ex_session_resume_safe e
      else contains_casefolded_marker (failure_detail_parts e) SESSION_NOT_FOUND_SUBSTRINGS)"

definition resolve_recovery_session_id :: "(string \<Rightarrow> string option) \<Rightarrow> exc_obj \<Rightarrow> string option \<Rightarrow> string \<Rightarrow> string option" where
  "resolve_recovery_session_id line_sid e extracted inactivity_error_type =
     (if failure_requires_fresh_session e inactivity_error_type then None
      else if truthy (ex_resumable_session_id e) then ex_resumable_session_id e
      else if truthy extracted then extracted
      else let parsed = extract_transport_session_id line_sid (exception_parsed_output e)
           in if truthy parsed then parsed else None)"

definition RECOVERY_CONTEXT_LINES :: nat where
  "RECOVERY_CONTEXT_LINES = 12"

definition RECOVERY_CONTEXT_MAX_CHARS :: nat where
  "RECOVERY_CONTEXT_MAX_CHARS = 240"

definition tail_recovery_context_lines :: "bool \<Rightarrow> string list \<Rightarrow> string list" where
  "tail_recovery_context_lines untruncated ls =
     (if untruncated \<or> length ls \<le> RECOVERY_CONTEXT_LINES then ls
      else (''<previous log omitted> ('' @ str_int (int (length ls - RECOVERY_CONTEXT_LINES)) @ '' earlier lines)'')
           # slice_last ls RECOVERY_CONTEXT_LINES)"

definition recovery_context_lines :: "exc_obj \<Rightarrow> string list \<Rightarrow> string list \<Rightarrow> bool \<Rightarrow> string list" where
  "recovery_context_lines e raw rendered untruncated =
     (let parsed = exception_parsed_output e;
          stripped = filter (\<lambda>l. l \<noteq> []) (map strip raw);
          parts = filter (\<lambda>p. p \<noteq> []) (map strip (failure_detail_parts e))
      in tail_recovery_context_lines untruncated
           (if rendered \<noteq> [] then rendered else if parsed \<noteq> [] then parsed
            else if stripped \<noteq> [] then stripped else parts))"

definition condense_recovery_line :: "string \<Rightarrow> string" where
  "condense_recovery_line l =
     (let s = strip l
      in if length s \<le> RECOVERY_CONTEXT_MAX_CHARS then s
         else rev (dropWhile is_space (rev (take RECOVERY_CONTEXT_MAX_CHARS s))) @ '' ... (truncated)'')"

definition condense_recovery_context_lines :: "bool \<Rightarrow> string list \<Rightarrow> string list" where
  "condense_recovery_context_lines untruncated ls =
     (let condensed = map condense_recovery_line ls
      in if \<not> untruncated \<and> length ls > RECOVERY_CONTEXT_LINES
            \<and> (case condensed of [] \<Rightarrow> False | c # _ \<Rightarrow> \<not> starts_with c ''<previous log omitted>'')
           then (''<previous log omitted> ('' @ str_int (int (length ls - RECOVERY_CONTEXT_LINES)) @ '' earlier lines)'')
                # slice_last condensed RECOVERY_CONTEXT_LINES
         else condensed)"

record agent_recovery_input =
  ri_exc :: raised_exc
  ri_attempt_index :: int
  ri_max_recovery_attempts :: int
  ri_phase :: string
  ri_agent_name :: string
  ri_raw_output :: "string list"
  ri_rendered_output :: "string list"
  ri_extracted_session_id :: "string option"
  ri_stale_session_id :: "string option"
  ri_transport :: "string option"
  ri_model :: "string option"
  ri_completion_reprompt_used :: bool

record agent_recovery_plan =
  ap_prompt_file :: string
  ap_session_id :: "string option"
  ap_reason :: string
  ap_recovery_action :: retry_action
  ap_stale_session_id :: "string option"
  ap_transport :: "string option"
  ap_model :: "string option"

record retry_prompt =
  pr_reason :: string
  pr_context_lines :: "string list"
  pr_recovery_action :: retry_action
  pr_untruncated :: bool
  pr_stale_session_id :: "string option"
  pr_transport :: "string option"
  pr_model :: "string option"
  pr_completion_recovery :: bool

text \<open>
  \<^verbatim>\<open>build_agent_recovery_plan\<close>: journalling the kill and writing the retry prompt are the two
  operations of the world; the prompt, which also quotes the kill's own details, answers its file.
\<close>

definition build_agent_recovery_plan ::
  "('w \<Rightarrow> exc_obj \<Rightarrow> 'w) \<Rightarrow> ('w \<Rightarrow> exc_obj \<Rightarrow> retry_prompt \<Rightarrow> 'w \<times> string) \<Rightarrow> (string \<Rightarrow> string option) \<Rightarrow> string \<Rightarrow> 'w
    \<Rightarrow> agent_recovery_input \<Rightarrow> exc_obj \<Rightarrow> 'w \<times> agent_recovery_plan option res" where
  "build_agent_recovery_plan journal write_prompt line_sid inactivity_error_type w inp e =
     (let w1 = journal w e;
          completion = isinstance e ''AgyIncompleteExitError'';
          untruncated = is_stale_session_failure e;
          sid = resolve_recovery_session_id line_sid e (ri_extracted_session_id inp) inactivity_error_type
      in if ri_attempt_index inp \<ge> ri_max_recovery_attempts inp then (w1, Inr None)
         else case retryable_agent_failure_reason e inactivity_error_type of
           None \<Rightarrow> (w1, Inr None)
         | Some reason \<Rightarrow>
             if completion \<and> ri_completion_reprompt_used inp then (w1, Inr None)
             else (case resolve_retry_intent (fst (ri_exc inp)) (snd (ri_exc inp)) e (ri_phase inp)
                        (Some (ri_agent_name inp)) sid inactivity_error_type of
                 Inl x \<Rightarrow> (w1, Inl x)
               | Inr intent \<Rightarrow>
                   (let act = recovery_action_for_failure_reason (ex_type e) (truthy sid)
                          (case intent of Some i \<Rightarrow> reset_tool_registry i | None \<Rightarrow> False);
                        stale = (if untruncated then ri_stale_session_id inp else None);
                        transport = (if untruncated then ri_transport inp else None);
                        model = (if untruncated then ri_model inp else None);
                        (w2, file) = write_prompt w1 e
                          \<lparr>pr_reason = reason,
                           pr_context_lines = recovery_context_lines e (ri_raw_output inp) (ri_rendered_output inp) untruncated,
                           pr_recovery_action = act, pr_untruncated = untruncated, pr_stale_session_id = stale,
                           pr_transport = transport, pr_model = model, pr_completion_recovery = completion\<rparr>
                    in (w2, Inr (Some \<lparr>ap_prompt_file = file, ap_session_id = sid, ap_reason = reason,
                           ap_recovery_action = act, ap_stale_session_id = stale, ap_transport = transport,
                           ap_model = model\<rparr>)))))"

section \<open>What the intent of a retry can be\<close>

lemma intent_for_failure_total:
  "agent_retry_intent_for_failure why sid reset = Inr (cleared_agent_retry_intent
     \<lparr>action := Some (recovery_action_for_failure_reason why (truthy sid) reset),
      session_id := (if recovery_action_for_failure_reason why (truthy sid) reset = Fresh then None else sid),
      reset_tool_registry := (recovery_action_for_failure_reason why (truthy sid) reset \<noteq> Fresh \<and> reset),
      failure_reason := why\<rparr>)"
  by (auto simp: agent_retry_intent_for_failure_def recovery_action_for_failure_reason_def new_agent_retry_intent_def Let_def)

definition futile :: "exc_obj \<Rightarrow> bool" where
  "futile e = (ex_type e \<in> set SAME_AGENT_FUTILE \<or> is_subscription_limit_message (failure_detail_parts e))"

definition futile_intent :: "exc_obj \<Rightarrow> string option \<Rightarrow> agent_retry_intent" where
  "futile_intent e ag = cleared_agent_retry_intent
     \<lparr>failure_reason := ex_type e, skip_same_agent_retries := True, failed_agent_name := ag,
      broken_agent_reason := broken_kind_of e,
      broken_agent_returncode := (if isinstance e ''BrokenAgentExitError'' then ex_returncode e else None),
      broken_agent_stderr := (if isinstance e ''BrokenAgentExitError'' then or_else (ex_stderr e) [] else [])\<rparr>"

lemma futile_intent_fields [simp]:
  "skip_same_agent_retries (futile_intent e ag)" "action (futile_intent e ag) = None"
  "session_id (futile_intent e ag) = None" "\<not> reset_tool_registry (futile_intent e ag)"
  "failed_agent_name (futile_intent e ag) = ag"
  by (simp_all add: futile_intent_def cleared_agent_retry_intent_def)

lemma resolve_futile: "futile e \<Longrightarrow> resolve_retry_intent h a e ph ag sid ty = Inr (Some (futile_intent e ag))"
  by (simp add: resolve_retry_intent_def futile_def futile_intent_def [symmetric] new_agent_retry_intent_def)

lemma resolve_not_futile:
  "\<not> futile e \<Longrightarrow> resolve_retry_intent h a e ph ag sid ty
     = (if retryable_agent_failure_reason e ty = None then Inr None
        else rbind (agent_retry_intent_for_failure (ex_type e) sid
               (cf_reset_tool_registry (classify_failure (Raised h a) ph ag None))) (\<lambda>i. Inr (Some i)))"
  by (simp add: resolve_retry_intent_def futile_def)

lemma resolve_total: obtains intent where "resolve_retry_intent h a e ph ag sid ty = Inr intent"
proof (cases "futile e")
  case True
  then show thesis using that resolve_futile by blast
next
  case False
  show thesis
  proof (cases "retryable_agent_failure_reason e ty = None")
    case True
    then show thesis using that [of None] by (simp add: resolve_not_futile [OF False])
  next
    case retried: False
    obtain i where "agent_retry_intent_for_failure (ex_type e) sid
        (cf_reset_tool_registry (classify_failure (Raised h a) ph ag None)) = Inr i"
      using intent_for_failure_total by blast
    with retried show thesis using that [of "Some i"] by (simp add: resolve_not_futile [OF False])
  qed
qed

text \<open>
  the intent of a retry is always built, whatever the failure and the session are, and it is
  consistent: an agent that cannot recover by itself is skipped and keeps no session; otherwise the
  intent exists exactly for a retryable failure, resumes only the session that was observed, and asks
  for the tools to be registered again only when it resumes.
\<close>
theorem retry_intent_contract:
  "\<exists>intent. resolve_retry_intent h a e ph ag sid ty = Inr intent
     \<and> (futile e \<longrightarrow> (\<exists>i. intent = Some i \<and> skip_same_agent_retries i \<and> action i = None \<and> session_id i = None
                          \<and> failed_agent_name i = ag))
     \<and> (\<not> futile e \<longrightarrow> (intent = None \<longleftrightarrow> retryable_agent_failure_reason e ty = None)
          \<and> (\<forall>i. intent = Some i \<longrightarrow> \<not> skip_same_agent_retries i
                \<and> (action i = Some Fresh \<and> session_id i = None \<and> \<not> reset_tool_registry i
                   \<or> action i = Some Resume \<and> session_id i = sid \<and> truthy sid)))"
proof (cases "futile e")
  case True
  then show ?thesis by (simp add: resolve_futile)
next
  case False
  then show ?thesis
    by (auto simp: resolve_not_futile intent_for_failure_total recovery_action_for_failure_reason_def
        cleared_agent_retry_intent_def)
qed

lemma plan_futile:
  "futile e \<Longrightarrow> retry_plan_for_exception line_sid exc e ls current
    = Inr (Some \<lparr>rp_session_id = None, rp_reset_tool_registry = False, rp_skip_same_agent_retries = True\<rparr>)"
  by (simp add: retry_plan_for_exception_def resolve_futile Let_def)

section \<open>The loops\<close>

text \<open>A counter of the world: the attempts with an outcome in \<open>P\<close> increase it and no callback changes it.\<close>

definition counts :: "(raised_exc + 'r \<Rightarrow> bool) \<Rightarrow> ('w, 'r) direct_calls \<Rightarrow> ('w \<Rightarrow> nat) \<Rightarrow> bool" where
  "counts P calls cnt \<longleftrightarrow>
     (\<forall>w s. cnt (fst (dc_attempt calls w s)) = cnt w + of_bool (P (snd (snd (dc_attempt calls w s)))))
     \<and> (\<forall>w ls. cnt (dc_on_retry_failure calls w ls) = cnt w)
     \<and> (\<forall>reset w. dc_reset calls = Some reset \<longrightarrow> cnt (fst (reset w)) = cnt w)"

lemma follow_plan_counts:
  assumes "counts P calls cnt" "dc_reset calls = Some reset"
  shows "follow_plan calls reset e w plan = Stop w1 x \<Longrightarrow> cnt w1 = cnt w"
    and "follow_plan calls reset e w plan = Again w1 sid \<Longrightarrow> cnt w1 = cnt w"
proof -
  have r: "cnt (fst (reset v)) = cnt v" and f: "cnt (dc_on_retry_failure calls v ls) = cnt v" for v ls
    using assms by (simp_all add: counts_def)
  show "follow_plan calls reset e w plan = Stop w1 x \<Longrightarrow> cnt w1 = cnt w"
    "follow_plan calls reset e w plan = Again w1 sid \<Longrightarrow> cnt w1 = cnt w"
    using r [of "dc_on_retry_failure calls w (exception_parsed_output e)"]
    by (auto simp: follow_plan_def reset_registry_then_def f Let_def split: prod.splits option.splits if_splits)
qed

lemma run_failure_counts:
  assumes "counts P calls cnt"
  shows "run_failure calls ls m rr obs used rep w exc e = Stop w1 x \<Longrightarrow> cnt w1 = cnt w"
    and "run_failure calls ls m rr obs used rep w exc e = Again w1 sid \<Longrightarrow> cnt w1 = cnt w"
  by (auto simp: run_failure_def split: option.splits if_splits sum.splits dest: follow_plan_counts [OF assms])

lemma run_step_counts:
  assumes "counts P calls cnt"
  shows "run_step calls ls m rr cur used rep w = Inl out
      \<Longrightarrow> cnt (fst out) = cnt w + of_bool (P (snd (snd (dc_attempt calls w cur))))"
    and "run_step calls ls m rr cur used rep w = Inr (w1, sid, rep1)
      \<Longrightarrow> cnt w1 = cnt w + of_bool (P (snd (snd (dc_attempt calls w cur))))"
proof -
  have a: "cnt (fst (dc_attempt calls w cur)) = cnt w + of_bool (P (snd (snd (dc_attempt calls w cur))))"
    using assms by (simp add: counts_def)
  show "run_step calls ls m rr cur used rep w = Inl out
      \<Longrightarrow> cnt (fst out) = cnt w + of_bool (P (snd (snd (dc_attempt calls w cur))))"
    "run_step calls ls m rr cur used rep w = Inr (w1, sid, rep1)
      \<Longrightarrow> cnt w1 = cnt w + of_bool (P (snd (snd (dc_attempt calls w cur))))"
    using a by (auto simp: run_step_def split: prod.splits sum.splits option.splits direct_next.splits
        dest: run_failure_counts [OF assms])
qed

text \<open>One turn of the loop, for the inductions over it.\<close>

lemma run_turn:
  obtains (stops) out where "run_step calls ls m rr cur used rep w = Inl out"
      "run_with_direct_mcp_recovery calls ls m rr cur used rep w = out"
  | (repeats) w1 sid rep1 where "run_step calls ls m rr cur used rep w = Inr (w1, sid, rep1)" "int used < m"
      "run_with_direct_mcp_recovery calls ls m rr cur used rep w
         = run_with_direct_mcp_recovery calls ls m rr sid (used + 1) rep1 w1"
proof (cases "run_step calls ls m rr cur used rep w")
  case (Inl out)
  then show thesis by (intro stops) (simp_all add: run_with_direct_mcp_recovery.simps)
next
  case (Inr x)
  obtain w1 sid rep1 where "x = (w1, sid, rep1)" by (metis prod_cases3)
  with Inr show thesis
    by (intro repeats [of w1 sid rep1]) (auto intro: run_step_again simp: run_with_direct_mcp_recovery.simps [of _ _ _ _ _ used])
qed

lemma run_counts:
  "counts P calls cnt \<Longrightarrow>
   cnt (fst (run_with_direct_mcp_recovery calls ls m rr cur used rep w)) \<le> Suc (cnt w) + nat (m - int used)"
proof (induction calls ls m rr cur used rep w rule: run_with_direct_mcp_recovery.induct)
  case (1 calls ls m rr cur used rep w)
  show ?case
  proof (cases rule: run_turn [of calls ls m rr cur used rep w])
    case (stops out)
    then show ?thesis using run_step_counts(1) [OF "1.prems" stops(1)] by (simp add: of_bool_def split: if_splits)
  next
    case (repeats w1 sid rep1)
    then show ?thesis using "1.IH" [OF repeats(1) refl refl "1.prems"] run_step_counts(2) [OF "1.prems" repeats(1)]
      by (simp add: of_bool_def split: if_splits)
  qed
qed

text \<open>
  Two failures report an exit without completion evidence: \<^verbatim>\<open>AgyIncompleteExitError\<close>, answered by one new
  prompt, and \<^verbatim>\<open>OpenCodeResumableExitError\<close>, resumed only by a caller that asks for it.
\<close>

definition raises_type :: "string \<Rightarrow> raised_exc + 'r \<Rightarrow> bool" where
  "raises_type ty out = (case out of Inr _ \<Rightarrow> False
     | Inl (h, a) \<Rightarrow> (case exc_at h a of None \<Rightarrow> False | Some e \<Rightarrow> ex_type e = ty))"

lemma run_step_reprompt:
  assumes "run_step calls ls m rr cur used rep w = Inr (w1, sid, rep1)"
  shows "rep1 = (rep \<or> raises_type ''AgyIncompleteExitError'' (snd (snd (dc_attempt calls w cur))))"
    and "\<not> (rep \<and> raises_type ''AgyIncompleteExitError'' (snd (snd (dc_attempt calls w cur))))"
  using assms
  by (auto simp: run_step_def raises_type_def run_failure_def
      split: prod.splits sum.splits option.splits direct_next.splits if_splits)

lemma run_reprompts:
  "counts (raises_type ''AgyIncompleteExitError'') calls cnt \<Longrightarrow>
   cnt (fst (run_with_direct_mcp_recovery calls ls m rr cur used rep w)) \<le> cnt w + (if rep then 1 else 2)"
proof (induction calls ls m rr cur used rep w rule: run_with_direct_mcp_recovery.induct)
  case (1 calls ls m rr cur used rep w)
  show ?case
  proof (cases rule: run_turn [of calls ls m rr cur used rep w])
    case (stops out)
    then show ?thesis using run_step_counts(1) [OF "1.prems" stops(1)] by (simp add: of_bool_def split: if_splits)
  next
    case (repeats w1 sid rep1)
    then show ?thesis using "1.IH" [OF repeats(1) refl refl "1.prems"] run_step_counts(2) [OF "1.prems" repeats(1)]
        run_step_reprompt [OF repeats(1)]
      by (auto simp: of_bool_def split: if_splits)
  qed
qed

lemma run_step_resumable:
  assumes "run_step calls ls m False cur used rep w = Inr x"
  shows "\<not> raises_type ''OpenCodeResumableExitError'' (snd (snd (dc_attempt calls w cur)))"
  using assms
  by (auto simp: run_step_def raises_type_def run_failure_def
      split: prod.splits sum.splits option.splits direct_next.splits if_splits)

lemma run_resumables:
  "counts (raises_type ''OpenCodeResumableExitError'') calls cnt \<Longrightarrow>
   cnt (fst (run_with_direct_mcp_recovery calls ls m False cur used rep w)) \<le> cnt w + 1"
proof (induction calls ls m False cur used rep w rule: run_with_direct_mcp_recovery.induct)
  case (1 calls ls m cur used rep w)
  show ?case
  proof (cases rule: run_turn [of calls ls m False cur used rep w])
    case (stops out)
    then show ?thesis using run_step_counts(1) [OF "1.prems" stops(1)] by (simp add: of_bool_def split: if_splits)
  next
    case (repeats w1 sid rep1)
    then show ?thesis using "1.hyps" [OF repeats(1) refl refl "1.prems"] run_step_counts(2) [OF "1.prems" repeats(1)]
        run_step_resumable [OF repeats(1)]
      by simp
  qed
qed

text \<open>
  C34: One invocation is bounded whatever its attempts do.  It makes at most one attempt more than its
  budget (one attempt if the budget is negative).  Of these at most two raise
  \<^verbatim>\<open>AgyIncompleteExitError\<close>, which is answered by a single new prompt, and at most one raises
  \<^verbatim>\<open>OpenCodeResumableExitError\<close> unless the caller asked for resumable exits to be retried; a caller that
  did has only the first bound on those.
\<close>
theorem direct_retries_bounded:
  assumes "counts (\<lambda>_. True) calls attempts" "counts (raises_type ''AgyIncompleteExitError'') calls incomplete"
    and "counts (raises_type ''OpenCodeResumableExitError'') calls resumable"
  shows "let w' = fst (run_with_direct_mcp_recovery calls line_sid budget retry_resumable None 0 False w)
         in attempts w' \<le> attempts w + 1 + nat budget \<and> incomplete w' \<le> incomplete w + 2
          \<and> (\<not> retry_resumable \<longrightarrow> resumable w' \<le> resumable w + 1)"
proof (cases retry_resumable)
  case True
  then show ?thesis
    using run_counts [OF assms(1), of line_sid budget retry_resumable None 0 False w]
      run_reprompts [OF assms(2), of line_sid budget retry_resumable None 0 False w]
    by (simp add: Let_def)
next
  case False
  then show ?thesis
    using run_counts [OF assms(1), of line_sid budget False None 0 False w]
      run_reprompts [OF assms(2), of line_sid budget False None 0 False w]
      run_resumables [OF assms(3), of line_sid budget None 0 False w]
    by (simp add: Let_def)
qed

definition incomplete_exit :: exc_obj where
  "incomplete_exit = agent_invocation_error ''AgyIncompleteExitError'' [''AgyIncompleteExitError''] ''agy'' 0
     ''agent exited without required completion evidence'' [] ''agent''"

text \<open>An agent that never completes; the world counts its attempts.\<close>

definition never_completes :: "(nat, unit) direct_calls" where
  "never_completes =
     \<lparr>dc_attempt = (\<lambda>n s. (n + 1, [], Inl ([incomplete_exit], 0))),
      dc_reset = Some (\<lambda>w. (w, None)), dc_on_retry_failure = (\<lambda>w ls. w)\<rparr>"

lemma never_completes_counts:
  "counts (\<lambda>_. True) never_completes id" "counts (raises_type ''AgyIncompleteExitError'') never_completes id"
  "counts (raises_type ''OpenCodeResumableExitError'') never_completes (\<lambda>_. 0)"
  by (simp_all add: counts_def never_completes_def raises_type_def exc_at_def incomplete_exit_def
      agent_invocation_error_def Let_def)

theorem direct_retries_bounded_witness:
  "fst (run_with_direct_mcp_recovery never_completes (\<lambda>_. None) 5 True None 0 False 0) \<le> 0 + 2"
  using direct_retries_bounded [OF never_completes_counts, of "\<lambda>_. None" 5 True 0] by (simp add: Let_def)

lemma run_failure_futile:
  assumes "futile e" "int used < m"
  shows "run_failure calls ls m rr obs used rep w exc e = Stop w exc"
  using assms by (auto simp: run_failure_def plan_futile split: option.split)

definition quota_exit :: exc_obj where
  "quota_exit = agent_invocation_error ''QuotaExhaustedError'' [''QuotaExhaustedError''] ''dev'' 0
     ''quota or rate limit is exhausted'' [] ''agent''"

lemma quota_exit_futile: "futile quota_exit"
  by (simp add: futile_def SAME_AGENT_FUTILE_def quota_exit_def agent_invocation_error_def Let_def)

theorem retry_intent_contract_witness:
  "\<exists>i. resolve_retry_intent [quota_exit] 0 quota_exit ''review'' (Some ''dev'') (Some ''s-1'') ''AgentInactivityTimeoutError''
      = Inr (Some i) \<and> skip_same_agent_retries i \<and> session_id i = None \<and> failed_agent_name i = Some ''dev''"
  using retry_intent_contract [of "[quota_exit]" 0 quota_exit "''review''" "Some ''dev''" "Some ''s-1''"
      "''AgentInactivityTimeoutError''"] quota_exit_futile by auto

text \<open>
  a failure that another attempt of the same agent cannot survive (a broken agent, missing
  credentials, an exhausted context or quota, an unreachable provider, or any failure that reports a
  usage limit) ends the invocation at once: nothing is retried, no callback runs, and the failure is
  raised unchanged while the budget lasts.
\<close>
theorem futile_failure_ends_invocation:
  assumes "dc_attempt calls w current = (w1, seen, Inl (h, a))" "exc_at h a = Some e" "futile e" "int used < budget"
  shows "run_with_direct_mcp_recovery calls line_sid budget rr current used reprompted w = (w1, Inl (h, a))"
proof -
  have "run_step calls line_sid budget rr current used reprompted w = Inl (w1, Inl (h, a))"
    using assms by (simp add: run_step_def run_failure_futile)
  then show ?thesis by (simp add: run_with_direct_mcp_recovery.simps)
qed

definition out_of_quota :: "(nat, unit) direct_calls" where
  "out_of_quota = \<lparr>dc_attempt = (\<lambda>n s. (n + 1, [], Inl ([quota_exit], 0))),
     dc_reset = Some (\<lambda>w. (w, None)), dc_on_retry_failure = (\<lambda>w ls. w)\<rparr>"

theorem futile_failure_ends_invocation_witness:
  "run_with_direct_mcp_recovery out_of_quota (\<lambda>_. None) 3 True None 0 False 0 = (1, Inl ([quota_exit], 0))"
  by (rule futile_failure_ends_invocation [OF _ _ quota_exit_futile]) (simp_all add: out_of_quota_def exc_at_def)

section \<open>Where the streamed loop differs\<close>

text \<open>
  The streamed loop does not read \<^verbatim>\<open>skip_same_agent_retries\<close>: a futile failure without output is
  tried again, with a fresh session, as long as the budget lasts.
\<close>

lemma stream_repeats_futile:
  assumes "futile e" "int used < budget" "sc_reset calls = Some reset" "isinstance e ''Exception''"
    and "\<not> isinstance e ''McpServerError''" "ex_type e \<notin> {''OpenCodeResumableExitError'', ''AgyIncompleteExitError''}"
    and "exception_parsed_output e = []"
  shows "stream_failure calls line_sid budget [] current used reprompted w exc e = Again (sc_on_retry_failure calls w []) None"
  using assms by (simp add: stream_failure_def invocation_error_with_output_def plan_futile Let_def)

text \<open>With any output, the failure that leaves the loop is no longer of the type it arrived with.\<close>

lemma merge_lines_not_Nil: "merged \<noteq> [] \<Longrightarrow> merge_lines merged ls \<noteq> []"
  by (induction merged ls rule: merge_lines.induct) auto

lemma stream_loses_type:
  assumes "isinstance e ''AgentInvocationError''" "ex_type e \<noteq> ''AgyIncompleteExitError''" "attempt_lines \<noteq> []"
  shows "ex_type (snd (invocation_error_with_output exc e attempt_lines)) = ''AgentInvocationError''"
  using assms merge_lines_not_Nil [of attempt_lines "exception_parsed_output e"]
  by (simp add: invocation_error_with_output_def agent_invocation_error_def Let_def)

text \<open>Without output the failure is raised from itself, which hides the watchdog behind it.\<close>

lemma raise_from_itself_hides_kill:
  assumes "a < length h" "\<not> isinstance e ''IdleWatchdogKilledError''"
  shows "find_typed_watchdog_cause (fst (raise_from ((h, a), e) (h, a))) a = None"
  using assms
  by (simp add: raise_from_def find_typed_watchdog_cause_def is_watchdog_kill_def exc_at_def next_cause_def isinstance_def)

text \<open>A tool failure without a session to resume is retried without registering the tools again.\<close>

lemma fresh_retry_keeps_registry:
  assumes "\<not> futile e" "\<not> truthy sid" "resolve_retry_intent h a e ph ag sid ty = Inr (Some i)"
  shows "action i = Some Fresh \<and> \<not> reset_tool_registry i"
  using assms by (auto simp: resolve_not_futile intent_for_failure_total recovery_action_for_failure_reason_def
      cleared_agent_retry_intent_def split: if_splits)

section \<open>The plan of a retry\<close>

text \<open>
  the recovery plan of a failed attempt is always decided without an error.  There is one only
  within the number of attempts, for a retryable failure, and never for a second incomplete exit; a
  failure whose session is gone or unsafe is planned fresh and without a session; a plan resumes only
  when it carries a session; and the rejected session is named only if the failure said it was rejected.
\<close>
theorem recovery_plan_contract:
  "\<exists>w' out. build_agent_recovery_plan journal write_prompt line_sid ty w inp e = (w', Inr out)
     \<and> (\<forall>p. out = Some p \<longrightarrow>
          ri_attempt_index inp < ri_max_recovery_attempts inp
          \<and> retryable_agent_failure_reason e ty = Some (ap_reason p)
          \<and> \<not> (isinstance e ''AgyIncompleteExitError'' \<and> ri_completion_reprompt_used inp)
          \<and> (failure_requires_fresh_session e ty \<longrightarrow> ap_session_id p = None \<and> ap_recovery_action p = Fresh)
          \<and> (ap_recovery_action p \<noteq> Fresh \<longrightarrow> truthy (ap_session_id p))
          \<and> (\<not> is_stale_session_failure e \<longrightarrow>
               ap_stale_session_id p = None \<and> ap_transport p = None \<and> ap_model p = None))"
proof -
  obtain intent where i: "resolve_retry_intent (fst (ri_exc inp)) (snd (ri_exc inp)) e (ri_phase inp)
      (Some (ri_agent_name inp)) (resolve_recovery_session_id line_sid e (ri_extracted_session_id inp) ty) ty = Inr intent"
    by (rule resolve_total)
  have s: "failure_requires_fresh_session e ty \<Longrightarrow> resolve_recovery_session_id line_sid e x ty = None" for x
    by (simp add: resolve_recovery_session_id_def)
  show ?thesis
    by (auto simp: build_agent_recovery_plan_def i s recovery_action_for_failure_reason_def Let_def
        split: option.split prod.split)
qed

definition silent_timeout :: exc_obj where
  "silent_timeout = (runtime_error_exc (RuntimeError []))
     \<lparr>ex_type := ''AgentInactivityTimeoutError'', ex_classes := [''AgentInactivityTimeoutError'', ''Exception''],
      ex_resumable_session_id := Some ''s-1''\<rparr>"

definition silent_input :: agent_recovery_input where
  "silent_input = \<lparr>ri_exc = ([silent_timeout], 0), ri_attempt_index = 0, ri_max_recovery_attempts = 3, ri_phase = ''review'',
     ri_agent_name = ''dev'', ri_raw_output = [], ri_rendered_output = [], ri_extracted_session_id = None,
     ri_stale_session_id = Some ''s-0'', ri_transport = None, ri_model = None, ri_completion_reprompt_used = False\<rparr>"

lemma silent_timeout_tests:
  "failure_detail_parts silent_timeout = []" "isinstance silent_timeout ''AgentInactivityTimeoutError''"
  "ex_type silent_timeout = ''AgentInactivityTimeoutError''" "\<not> isinstance silent_timeout ''AgentLaunchError''"
  "\<not> isinstance silent_timeout ''AgyIncompleteExitError''" "failure_requires_fresh_session silent_timeout ''AgentInactivityTimeoutError''"
  by code_simp+

lemma silent_retryable:
  "retryable_agent_failure_reason silent_timeout ''AgentInactivityTimeoutError'' = Some ''an inactivity timeout''"
  by (simp add: retryable_agent_failure_reason_def silent_timeout_tests is_subscription_limit_message_def
      contains_casefolded_marker_def Let_def)

theorem recovery_plan_contract_witness:
  "\<exists>p. snd (build_agent_recovery_plan (\<lambda>w _. w) (\<lambda>w _ _. (w, ''retry.md'')) (\<lambda>_. None) ''AgentInactivityTimeoutError'' ()
        silent_input silent_timeout) = Inr (Some p)
     \<and> ap_session_id p = None \<and> ap_recovery_action p = Fresh \<and> ap_stale_session_id p = None"
proof -
  let ?b = "build_agent_recovery_plan (\<lambda>w _. w) (\<lambda>w _ _. (w, ''retry.md'')) (\<lambda>_. None) ''AgentInactivityTimeoutError'' ()
     silent_input silent_timeout"
  obtain intent where "resolve_retry_intent [silent_timeout] 0 silent_timeout ''review'' (Some ''dev'') None
      ''AgentInactivityTimeoutError'' = Inr intent" by (rule resolve_total)
  then have "\<exists>p. snd ?b = Inr (Some p)"
    by (simp add: build_agent_recovery_plan_def silent_retryable silent_timeout_tests silent_input_def
        resolve_recovery_session_id_def Let_def)
  moreover have "\<not> is_stale_session_failure silent_timeout"
    by (simp add: is_stale_session_failure_def silent_timeout_tests contains_casefolded_marker_def)
  ultimately show ?thesis
    using recovery_plan_contract [of "\<lambda>w _. w" "\<lambda>w _ _. (w, ''retry.md'')" "\<lambda>_. None" "''AgentInactivityTimeoutError''" "()"
        silent_input silent_timeout] silent_timeout_tests(6)
    by auto
qed

end
