(* ===== verification/Timeout_Policy.thy ===== *)
theory Timeout_Policy
  imports Prelude
begin

text \<open>
  The timeouts of an agent invocation: \<^verbatim>\<open>ralph/agents/idle_watchdog/timeout_policy.py\<close> with every
  validator of its \<^verbatim>\<open>__post_init__\<close>, the defaults of \<^verbatim>\<open>ralph/timeout_defaults.py\<close>, the enumeration
  \<^verbatim>\<open>AliveBy\<close> of \<^verbatim>\<open>ralph/process/_alive_by.py\<close>, and the ceilings that
  \<^verbatim>\<open>idle_watchdog/_waiting_branch.py\<close> derives from a policy.

  \<open>post_init\<close> answers the policy the constructor leaves behind, which is not always its argument:
  one validator rewrites a field.
\<close>

section \<open>The policy\<close>

datatype timeout_profile = Standard_profile | Activity_only

datatype alive_by =
    Fresh_progress | Fresh_heartbeat_only | Stale_label_only
  | Os_descendant_only_stale_progress | Cpu_idle_while_alive | Log_stale_while_alive

record timeout_policy =
  idle_timeout_seconds :: "real option"
  tp_profile :: timeout_profile
  activity_only_operator_cap_seconds :: "real option"
  activity_only_status_interval_seconds :: real
  drain_window_seconds :: real
  max_waiting_on_child_seconds :: real
  max_session_seconds :: "real option"
  idle_poll_interval_seconds :: real
  parent_exit_grace_seconds :: real
  descendant_wait_timeout_seconds :: real
  descendant_wait_poll_seconds :: real
  process_exit_wait_seconds :: real
  waiting_status_interval_seconds :: real
  suspect_waiting_on_child_seconds :: "real option"
  max_waiting_on_child_no_progress_seconds :: "real option"
  no_progress_quiet_seconds :: "real option"
  no_progress_quiet_minimum_invocation_seconds :: "real option"
  no_output_at_start_seconds :: "real option"
  post_tool_result_progression_seconds :: "real option"
  repeated_error_consecutive_threshold :: "int option"
  repeated_error_window_count :: "int option"
  repeated_error_window_seconds :: "real option"
  activity_evidence_ttl_seconds :: "real option"
  silent_subagent_seconds :: "real option"
  workspace_change_weights :: "real dict option"
  process_monitor_enabled :: bool
  subagent_output_capture_enabled :: bool
  subagent_output_poll_interval_seconds :: real
  os_descendant_only_ceiling_seconds :: "real option"
  os_descendant_only_suspect_seconds :: "real option"
  cpu_idle_seconds :: "real option"
  log_growth_seconds :: "real option"
  no_progress_quiet_strictly_stuck_seconds :: "real option"
  no_progress_quiet_heartbeat_ceiling_seconds :: "real option"
  watchdog_log_throttle_seconds :: real
  watchdog_subagent_progress_interval_seconds :: real
  stuck_job_sub_ceiling_seconds :: "real option"

definition NO_OUTPUT_AT_START_SECONDS :: real where
  "NO_OUTPUT_AT_START_SECONDS = 360"

definition DEFAULT_AGENT_WORKSPACE_CHANGE_WEIGHTS :: "real dict" where
  "DEFAULT_AGENT_WORKSPACE_CHANGE_WEIGHTS =
     [(''source'', 1), (''log'', 0), (''cache'', 0), (''artifact'', 0), (''other'', 0)]"

text \<open>A policy built from its one required argument.\<close>

definition timeout_defaults :: "real option \<Rightarrow> timeout_policy" where
  "timeout_defaults idle =
     \<lparr>idle_timeout_seconds = idle, tp_profile = Standard_profile,
      activity_only_operator_cap_seconds = None, activity_only_status_interval_seconds = 30,
      drain_window_seconds = 1/2, max_waiting_on_child_seconds = 1800, max_session_seconds = None,
      idle_poll_interval_seconds = 1/20, parent_exit_grace_seconds = 5,
      descendant_wait_timeout_seconds = 30, descendant_wait_poll_seconds = 1/2,
      process_exit_wait_seconds = 30, waiting_status_interval_seconds = 30,
      suspect_waiting_on_child_seconds = Some 600, max_waiting_on_child_no_progress_seconds = Some 600,
      no_progress_quiet_seconds = Some 240, no_progress_quiet_minimum_invocation_seconds = Some 120,
      no_output_at_start_seconds = Some NO_OUTPUT_AT_START_SECONDS,
      post_tool_result_progression_seconds = Some 120,
      repeated_error_consecutive_threshold = Some 5, repeated_error_window_count = Some 8,
      repeated_error_window_seconds = Some 600, activity_evidence_ttl_seconds = Some 30,
      silent_subagent_seconds = Some 180,
      workspace_change_weights = Some DEFAULT_AGENT_WORKSPACE_CHANGE_WEIGHTS,
      process_monitor_enabled = True, subagent_output_capture_enabled = True,
      subagent_output_poll_interval_seconds = 1,
      os_descendant_only_ceiling_seconds = Some 300, os_descendant_only_suspect_seconds = Some 60,
      cpu_idle_seconds = Some 60, log_growth_seconds = Some 30,
      no_progress_quiet_strictly_stuck_seconds = None,
      no_progress_quiet_heartbeat_ceiling_seconds = Some 240,
      watchdog_log_throttle_seconds = 30, watchdog_subagent_progress_interval_seconds = 30,
      stuck_job_sub_ceiling_seconds = Some 600\<rparr>"

section \<open>Validation\<close>

definition refuse :: "bool \<Rightarrow> string \<Rightarrow> unit res" where
  "refuse bad msg = (if bad then Inl (ValueError msg) else Inr ())"

text \<open>\<open>both_set\<close> is \<open>is_set\<close> for two fields.\<close>

definition both_set :: "('a \<Rightarrow> 'b \<Rightarrow> bool) \<Rightarrow> 'a option \<Rightarrow> 'b option \<Rightarrow> bool" where
  "both_set P x y = is_set (\<lambda>a. is_set (P a) y) x"

fun all_ok :: "unit res list \<Rightarrow> unit res" where
  "all_ok [] = Inr ()"
| "all_ok (c # cs) = rbind c (\<lambda>_. all_ok cs)"

definition validate_profile :: "timeout_policy \<Rightarrow> unit res" where
  "validate_profile p = all_ok
     [refuse (tp_profile p = Activity_only \<and> idle_timeout_seconds p = None)
        ''activity_only profile requires idle_timeout_seconds'',
      refuse (is_set (\<lambda>v. v \<le> 0) (activity_only_operator_cap_seconds p))
        ''activity_only_operator_cap_seconds must be positive when set'',
      refuse (activity_only_status_interval_seconds p \<le> 0)
        ''activity_only_status_interval_seconds must be positive'']"

definition validate_idle_fields :: "timeout_policy \<Rightarrow> unit res" where
  "validate_idle_fields p = all_ok
     [refuse (is_set (\<lambda>v. v \<le> 0) (idle_timeout_seconds p)) ''idle_timeout_seconds must be positive'',
      refuse (drain_window_seconds p < 0) ''drain_window_seconds must be >= 0'',
      refuse (is_set (\<lambda>v. max_waiting_on_child_seconds p < v) (idle_timeout_seconds p))
        ''max_waiting_on_child_seconds must be >= idle_timeout_seconds when both set'']"

definition validate_session_and_poll_fields :: "timeout_policy \<Rightarrow> unit res" where
  "validate_session_and_poll_fields p = all_ok
     [refuse (is_set (\<lambda>v. v \<le> 0) (max_session_seconds p)) ''max_session_seconds must be positive'',
      refuse (both_set (\<lambda>m i. m < i) (max_session_seconds p) (idle_timeout_seconds p))
        ''max_session_seconds must be >= idle_timeout_seconds'',
      refuse (idle_poll_interval_seconds p \<le> 0) ''idle_poll_interval_seconds must be positive'',
      refuse (parent_exit_grace_seconds p < 0) ''parent_exit_grace_seconds must be >= 0'',
      refuse (descendant_wait_timeout_seconds p < 0) ''descendant_wait_timeout_seconds must be >= 0'',
      refuse (descendant_wait_poll_seconds p \<le> 0) ''descendant_wait_poll_seconds must be positive'',
      refuse (process_exit_wait_seconds p < 0) ''process_exit_wait_seconds must be >= 0'']"

definition validate_waiting_status_fields :: "timeout_policy \<Rightarrow> unit res" where
  "validate_waiting_status_fields p = all_ok
     [refuse (waiting_status_interval_seconds p \<le> 0) ''waiting_status_interval_seconds must be positive'',
      refuse (is_set (\<lambda>v. v \<le> 0) (suspect_waiting_on_child_seconds p))
        ''suspect_waiting_on_child_seconds must be positive'',
      refuse (is_set (\<lambda>v. v \<ge> max_waiting_on_child_seconds p) (suspect_waiting_on_child_seconds p))
        ''suspect_waiting_on_child_seconds must be strictly less than max_waiting_on_child_seconds'',
      refuse (is_set (\<lambda>v. v \<le> 0) (max_waiting_on_child_no_progress_seconds p))
        ''max_waiting_on_child_no_progress_seconds must be positive'',
      refuse (is_set (\<lambda>v. v > max_waiting_on_child_seconds p) (max_waiting_on_child_no_progress_seconds p))
        ''max_waiting_on_child_no_progress_seconds must be <= max_waiting_on_child_seconds'']"

definition validate_no_progress_quiet_seconds :: "timeout_policy \<Rightarrow> unit res" where
  "validate_no_progress_quiet_seconds p = all_ok
     [refuse (is_set (\<lambda>v. v \<le> 0) (no_progress_quiet_seconds p))
        ''no_progress_quiet_seconds must be positive when set'',
      refuse (both_set (\<lambda>v limit. v > limit) (no_progress_quiet_seconds p) (max_waiting_on_child_no_progress_seconds p))
        ''no_progress_quiet_seconds must be <= max_waiting_on_child_no_progress_seconds'']"

definition validate_no_progress_quiet_minimum_invocation_seconds :: "timeout_policy \<Rightarrow> unit res" where
  "validate_no_progress_quiet_minimum_invocation_seconds p = all_ok
     [refuse (is_set (\<lambda>v. v \<le> 0) (no_progress_quiet_minimum_invocation_seconds p))
        ''no_progress_quiet_minimum_invocation_seconds must be positive when set'',
      refuse (both_set (\<lambda>v limit. v > limit) (no_progress_quiet_minimum_invocation_seconds p) (no_progress_quiet_seconds p))
        ''no_progress_quiet_minimum_invocation_seconds must be <= no_progress_quiet_seconds'']"

text \<open>The one validator that writes: a default at or above the no-progress ceiling is switched off.\<close>

definition validate_no_output_at_start_seconds :: "timeout_policy \<Rightarrow> timeout_policy res" where
  "validate_no_output_at_start_seconds p = (case no_output_at_start_seconds p of
     None \<Rightarrow> Inr p
   | Some v \<Rightarrow>
       if v \<le> 0 then Inl (ValueError ''no_output_at_start_seconds must be positive when set'')
       else if is_set (\<lambda>limit. v \<ge> limit) (max_waiting_on_child_no_progress_seconds p)
         then if v = NO_OUTPUT_AT_START_SECONDS then Inr (p\<lparr>no_output_at_start_seconds := None\<rparr>)
              else Inl (ValueError (''no_output_at_start_seconds must be strictly less than ''
                                    @ ''max_waiting_on_child_no_progress_seconds''))
       else Inr p)"

definition validate_post_tool_result_progression :: "timeout_policy \<Rightarrow> unit res" where
  "validate_post_tool_result_progression p =
     refuse (is_set (\<lambda>v. \<not> v > 0) (post_tool_result_progression_seconds p))
       ''post_tool_result_progression_seconds must be positive when set''"

definition validate_repeated_error_fields :: "timeout_policy \<Rightarrow> unit res" where
  "validate_repeated_error_fields p = all_ok
     [refuse (is_set (\<lambda>v. v \<le> 0) (repeated_error_consecutive_threshold p))
        ''repeated_error_consecutive_threshold must be positive when set'',
      refuse (is_set (\<lambda>v. v \<le> 0) (repeated_error_window_count p))
        ''repeated_error_window_count must be positive when set'',
      refuse (is_set (\<lambda>v. v \<le> 0) (repeated_error_window_seconds p))
        ''repeated_error_window_seconds must be positive when set'']"

definition validate_activity_evidence_ttl :: "timeout_policy \<Rightarrow> unit res" where
  "validate_activity_evidence_ttl p =
     refuse (is_set (\<lambda>v. v < 0) (activity_evidence_ttl_seconds p))
       ''activity_evidence_ttl_seconds must be >= 0 when set''"

definition validate_silent_subagent_seconds :: "timeout_policy \<Rightarrow> unit res" where
  "validate_silent_subagent_seconds p =
     refuse (is_set (\<lambda>v. v \<le> 0) (silent_subagent_seconds p)) ''silent_subagent_seconds must be > 0 when set''"

definition WORKSPACE_CHANGE_KINDS :: "string list" where
  "WORKSPACE_CHANGE_KINDS = [''source'', ''log'', ''cache'', ''artifact'', ''other'']"

text \<open>The message of a bad weight quotes the float; only its key is kept here.\<close>

definition check_weight :: "string \<times> real \<Rightarrow> unit res" where
  "check_weight kv =
     (if fst kv \<notin> set WORKSPACE_CHANGE_KINDS
        then Inl (ValueError (''workspace_change_weights['' @ quoted (fst kv) @ ''] is not a valid WorkspaceChangeKind value; allowed: ''
                 @ ''['' @ join_str '', '' (map quoted [''artifact'', ''cache'', ''log'', ''other'', ''source'']) @ '']''))
      else refuse (snd kv \<notin> {0, 1})
        (''workspace_change_weights['' @ quoted (fst kv) @ ''] is not a binary weight''))"

definition validate_workspace_change_weights :: "timeout_policy \<Rightarrow> unit res" where
  "validate_workspace_change_weights p = (case workspace_change_weights p of
     None \<Rightarrow> Inr () | Some ws \<Rightarrow> all_ok (map check_weight ws))"

definition validate_subagent_output_poll_interval :: "timeout_policy \<Rightarrow> unit res" where
  "validate_subagent_output_poll_interval p =
     refuse (subagent_output_poll_interval_seconds p \<le> 0) ''subagent_output_poll_interval_seconds must be positive''"

definition validate_os_descendant_only_fields :: "timeout_policy \<Rightarrow> unit res" where
  "validate_os_descendant_only_fields p = all_ok
     [refuse (is_set (\<lambda>v. v \<le> 0) (os_descendant_only_ceiling_seconds p))
        ''os_descendant_only_ceiling_seconds must be positive when set'',
      refuse (is_set (\<lambda>v. v > max_waiting_on_child_seconds p) (os_descendant_only_ceiling_seconds p))
        ''os_descendant_only_ceiling_seconds must be <= max_waiting_on_child_seconds'',
      refuse (both_set (\<lambda>v limit. v > limit) (os_descendant_only_ceiling_seconds p) (max_waiting_on_child_no_progress_seconds p))
        ''os_descendant_only_ceiling_seconds must be <= max_waiting_on_child_no_progress_seconds'',
      refuse (is_set (\<lambda>v. v \<le> 0) (os_descendant_only_suspect_seconds p))
        ''os_descendant_only_suspect_seconds must be positive when set'',
      refuse (both_set (\<lambda>v limit. v \<ge> limit) (os_descendant_only_suspect_seconds p) (os_descendant_only_ceiling_seconds p))
        ''os_descendant_only_suspect_seconds must be < os_descendant_only_ceiling_seconds'',
      refuse (both_set (\<lambda>v _. v \<ge> max_waiting_on_child_seconds p) (os_descendant_only_suspect_seconds p)
                (suspect_waiting_on_child_seconds p))
        ''os_descendant_only_suspect_seconds must be < max_waiting_on_child_seconds'']"

definition validate_strictly_stuck_seconds :: "timeout_policy \<Rightarrow> unit res" where
  "validate_strictly_stuck_seconds p = all_ok
     [refuse (is_set (\<lambda>v. v \<le> 0) (no_progress_quiet_strictly_stuck_seconds p))
        ''no_progress_quiet_strictly_stuck_seconds must be positive when set'',
      refuse (is_set (\<lambda>v. v > max_waiting_on_child_seconds p) (no_progress_quiet_strictly_stuck_seconds p))
        ''no_progress_quiet_strictly_stuck_seconds must be <= max_waiting_on_child_seconds'']"

definition validate_no_progress_quiet_heartbeat_ceiling_seconds :: "timeout_policy \<Rightarrow> unit res" where
  "validate_no_progress_quiet_heartbeat_ceiling_seconds p = all_ok
     [refuse (is_set (\<lambda>v. v \<le> 0) (no_progress_quiet_heartbeat_ceiling_seconds p))
        ''no_progress_quiet_heartbeat_ceiling_seconds must be positive when set'',
      refuse (both_set (\<lambda>v limit. v > limit) (no_progress_quiet_heartbeat_ceiling_seconds p) (no_progress_quiet_seconds p))
        ''no_progress_quiet_heartbeat_ceiling_seconds must be <= no_progress_quiet_seconds when both are set'']"

definition validate_watchdog_log_throttle_seconds :: "timeout_policy \<Rightarrow> unit res" where
  "validate_watchdog_log_throttle_seconds p =
     refuse (watchdog_log_throttle_seconds p \<le> 0) ''watchdog_log_throttle_seconds must be positive''"

definition validate_watchdog_subagent_progress_interval_seconds :: "timeout_policy \<Rightarrow> unit res" where
  "validate_watchdog_subagent_progress_interval_seconds p =
     refuse (watchdog_subagent_progress_interval_seconds p \<le> 0)
       ''watchdog_subagent_progress_interval_seconds must be positive''"

definition validate_stuck_job_sub_ceiling_seconds :: "timeout_policy \<Rightarrow> unit res" where
  "validate_stuck_job_sub_ceiling_seconds p = all_ok
     [refuse (is_set (\<lambda>v. v \<le> 0) (stuck_job_sub_ceiling_seconds p))
        ''stuck_job_sub_ceiling_seconds must be positive when set'',
      refuse (is_set (\<lambda>v. v > max_waiting_on_child_seconds p) (stuck_job_sub_ceiling_seconds p))
        ''stuck_job_sub_ceiling_seconds must be <= max_waiting_on_child_seconds'']"

definition post_init :: "timeout_policy \<Rightarrow> timeout_policy res" where
  "post_init p =
     rbind (all_ok
       [validate_profile p, validate_idle_fields p, validate_session_and_poll_fields p,
        validate_waiting_status_fields p, validate_no_progress_quiet_seconds p,
        validate_no_progress_quiet_minimum_invocation_seconds p])
     (\<lambda>_. rbind (validate_no_output_at_start_seconds p)
     (\<lambda>q. rbind (all_ok
       [validate_post_tool_result_progression q, validate_repeated_error_fields q,
        validate_activity_evidence_ttl q, validate_silent_subagent_seconds q,
        validate_workspace_change_weights q, validate_subagent_output_poll_interval q,
        validate_os_descendant_only_fields q, validate_strictly_stuck_seconds q,
        validate_no_progress_quiet_heartbeat_ceiling_seconds q,
        validate_watchdog_log_throttle_seconds q,
        validate_watchdog_subagent_progress_interval_seconds q,
        validate_stuck_job_sub_ceiling_seconds q])
     (\<lambda>_. Inr q)))"

section \<open>The ceilings derived from a policy\<close>

definition NON_PROGRESS_ALIVE_BY_VALUES :: "alive_by list" where
  "NON_PROGRESS_ALIVE_BY_VALUES =
     [Fresh_heartbeat_only, Stale_label_only, Os_descendant_only_stale_progress, Cpu_idle_while_alive,
      Log_stale_while_alive]"

definition STUCK_ALIVE_BY_VALUES :: "alive_by list" where
  "STUCK_ALIVE_BY_VALUES =
     [Os_descendant_only_stale_progress, Cpu_idle_while_alive, Log_stale_while_alive, Stale_label_only]"

definition effective_waiting_ceiling :: "timeout_policy \<Rightarrow> alive_by option \<Rightarrow> real" where
  "effective_waiting_ceiling p ab = (case ab of
     None \<Rightarrow> max_waiting_on_child_seconds p
   | Some a \<Rightarrow>
       if a = Fresh_progress then max_waiting_on_child_seconds p
       else case (if a = Os_descendant_only_stale_progress then os_descendant_only_ceiling_seconds p else None) of
         Some c \<Rightarrow> (case max_waiting_on_child_no_progress_seconds p of Some np \<Rightarrow> min c np | None \<Rightarrow> c)
       | None \<Rightarrow> (case max_waiting_on_child_no_progress_seconds p of
             Some np \<Rightarrow> if a \<in> set NON_PROGRESS_ALIVE_BY_VALUES then np else max_waiting_on_child_seconds p
           | None \<Rightarrow> max_waiting_on_child_seconds p))"

definition effective_ceiling_label :: "timeout_policy \<Rightarrow> alive_by option \<Rightarrow> real \<Rightarrow> string" where
  "effective_ceiling_label p ab ceil =
     (if ab = None \<or> ab = Some Fresh_progress then ''standard''
      else if ab = Some Os_descendant_only_stale_progress
           \<and> is_set (\<lambda>c. ceil = c) (os_descendant_only_ceiling_seconds p) then ''os_descendant_only''
      else if ceil < max_waiting_on_child_seconds p then ''no_progress''
      else ''standard'')"

definition compute_effective_suspect :: "timeout_policy \<Rightarrow> alive_by option \<Rightarrow> real option \<times> string" where
  "compute_effective_suspect p ab = (case suspect_waiting_on_child_seconds p of
     None \<Rightarrow> (None, ''standard'')
   | Some s \<Rightarrow> (case (if ab = Some Os_descendant_only_stale_progress
                      then os_descendant_only_suspect_seconds p else None) of
         Some o_s \<Rightarrow> (Some (min s o_s), ''os_descendant_only'')
       | None \<Rightarrow> (Some s, ''standard'')))"

section \<open>What a constructed policy satisfies\<close>

lemma refuse_iff [simp]: "refuse bad msg = Inr u \<longleftrightarrow> \<not> bad"
  by (simp add: refuse_def)

lemma is_set_simps [simp]: "is_set P None = False" "is_set P (Some v) = P v"
  by (simp_all add: is_set_def)

lemma both_set_simps [simp]:
  "both_set P None y = False" "both_set P x None = False" "both_set P (Some a) (Some b) = P a b"
  by (cases x; simp add: both_set_def)+

lemma all_ok_iff [simp]: "all_ok cs = Inr u \<longleftrightarrow> (\<forall>c\<in>set cs. c = Inr ())"
  by (induction cs) (auto simp: res_simps)

lemmas policy_validator_defs =
  validate_profile_def validate_idle_fields_def validate_session_and_poll_fields_def
  validate_waiting_status_fields_def validate_no_progress_quiet_seconds_def
  validate_no_progress_quiet_minimum_invocation_seconds_def validate_post_tool_result_progression_def
  validate_repeated_error_fields_def validate_activity_evidence_ttl_def validate_silent_subagent_seconds_def
  validate_workspace_change_weights_def validate_subagent_output_poll_interval_def
  validate_os_descendant_only_fields_def validate_strictly_stuck_seconds_def
  validate_no_progress_quiet_heartbeat_ceiling_seconds_def validate_watchdog_log_throttle_seconds_def
  validate_watchdog_subagent_progress_interval_seconds_def validate_stuck_job_sub_ceiling_seconds_def

lemma start_validator_iff:
  "validate_no_output_at_start_seconds p = Inr q \<longleftrightarrow>
     (case no_output_at_start_seconds p of
        None \<Rightarrow> q = p
      | Some v \<Rightarrow> v > 0
          \<and> (if is_set (\<lambda>limit. v \<ge> limit) (max_waiting_on_child_no_progress_seconds p)
             then v = NO_OUTPUT_AT_START_SECONDS \<and> q = p\<lparr>no_output_at_start_seconds := None\<rparr>
             else q = p))"
  by (auto simp: validate_no_output_at_start_seconds_def split: option.splits)

lemma start_validator_keeps:
  assumes "validate_no_output_at_start_seconds p = Inr q"
  shows "q = p \<or> q = p\<lparr>no_output_at_start_seconds := None\<rparr>"
  using assms by (auto simp: start_validator_iff split: option.splits if_splits)

text \<open>Construction is idempotent: what it answers passes its own validators unchanged.\<close>

lemma start_validator_idem:
  "validate_no_output_at_start_seconds p = Inr q \<Longrightarrow> validate_no_output_at_start_seconds q = Inr q"
  by (auto simp: start_validator_iff split: option.splits if_splits)

lemma post_init_idem:
  assumes "post_init p = Inr q"
  shows "post_init q = Inr q"
  using assms start_validator_keeps [of p q] start_validator_idem [of p q]
  by (auto simp: post_init_def policy_validator_defs res_simps)

lemma post_init_fields:
  assumes "post_init p = Inr q"
  shows "validate_idle_fields q = Inr ()" "validate_session_and_poll_fields q = Inr ()"
    "validate_waiting_status_fields q = Inr ()" "validate_no_progress_quiet_seconds q = Inr ()"
    "validate_no_output_at_start_seconds q = Inr q" "validate_os_descendant_only_fields q = Inr ()"
    "validate_strictly_stuck_seconds q = Inr ()" "validate_stuck_job_sub_ceiling_seconds q = Inr ()"
    "validate_repeated_error_fields q = Inr ()" "validate_profile q = Inr ()"
    "validate_no_progress_quiet_heartbeat_ceiling_seconds q = Inr ()"
  using post_init_idem [OF assms] by (auto simp: post_init_def res_simps)

section \<open>The ceilings of a constructed policy\<close>

text \<open>
  C30: In a constructed policy with an idle timeout, the ceiling on waiting for a child
  is positive and never above the cumulative ceiling, whatever the child looks like; it is the
  cumulative ceiling exactly for a child that makes progress or of which nothing is known, unless
  the shorter ceilings are off.  The startup limit stays below the no-progress ceiling, and the
  suspicion threshold below the cumulative ceiling.
\<close>

theorem policy_ceilings_ordered:
  assumes "post_init p = Inr q" "idle_timeout_seconds q \<noteq> None"
  shows "0 < effective_waiting_ceiling q ab \<and> effective_waiting_ceiling q ab \<le> max_waiting_on_child_seconds q
    \<and> (ab = None \<or> ab = Some Fresh_progress \<longrightarrow> effective_waiting_ceiling q ab = max_waiting_on_child_seconds q)
    \<and> (\<forall>s. fst (compute_effective_suspect q ab) = Some s \<longrightarrow> 0 < s \<and> s < max_waiting_on_child_seconds q)
    \<and> (\<forall>s np. no_output_at_start_seconds q = Some s \<and> max_waiting_on_child_no_progress_seconds q = Some np
        \<longrightarrow> s < np)"
proof -
  note f = post_init_fields [OF assms(1)]
  obtain i where i: "idle_timeout_seconds q = Some i" using assms(2) by blast
  have m: "0 < max_waiting_on_child_seconds q"
    using f(1) i by (auto simp: validate_idle_fields_def)
  have np: "\<And>v. max_waiting_on_child_no_progress_seconds q = Some v \<Longrightarrow> 0 < v \<and> v \<le> max_waiting_on_child_seconds q"
    and su: "\<And>v. suspect_waiting_on_child_seconds q = Some v \<Longrightarrow> 0 < v \<and> v < max_waiting_on_child_seconds q"
    using f(3) by (auto simp: validate_waiting_status_fields_def)
  have os: "\<And>v. os_descendant_only_ceiling_seconds q = Some v \<Longrightarrow> 0 < v \<and> v \<le> max_waiting_on_child_seconds q"
    and oss: "\<And>v. os_descendant_only_suspect_seconds q = Some v \<Longrightarrow> 0 < v"
    using f(6) by (auto simp: validate_os_descendant_only_fields_def)
  have "0 < effective_waiting_ceiling q ab \<and> effective_waiting_ceiling q ab \<le> max_waiting_on_child_seconds q"
    using m np os by (auto simp: effective_waiting_ceiling_def min_def split: option.splits)
  moreover have "\<forall>s. fst (compute_effective_suspect q ab) = Some s \<longrightarrow> 0 < s \<and> s < max_waiting_on_child_seconds q"
    using su oss by (auto simp: compute_effective_suspect_def min_def split: option.splits if_splits)
  moreover have "\<forall>s np. no_output_at_start_seconds q = Some s \<and> max_waiting_on_child_no_progress_seconds q = Some np \<longrightarrow> s < np"
    using f(5) by (auto simp: start_validator_iff split: if_splits dest!: arg_cong [of _ _ no_output_at_start_seconds])
  ultimately show ?thesis by (auto simp: effective_waiting_ceiling_def)
qed

lemma defaults_construct: "post_init (timeout_defaults (Some 300)) = Inr (timeout_defaults (Some 300))"
  by (simp add: post_init_def policy_validator_defs validate_no_output_at_start_seconds_def timeout_defaults_def
      NO_OUTPUT_AT_START_SECONDS_def DEFAULT_AGENT_WORKSPACE_CHANGE_WEIGHTS_def refuse_def check_weight_def
      WORKSPACE_CHANGE_KINDS_def)

lemma policy_ceilings_ordered_witness:
  "0 < effective_waiting_ceiling (timeout_defaults (Some 300)) (Some Cpu_idle_while_alive)
    \<and> effective_waiting_ceiling (timeout_defaults (Some 300)) (Some Cpu_idle_while_alive) \<le> 1800"
  using policy_ceilings_ordered [OF defaults_construct, of "Some Cpu_idle_while_alive"]
  by (simp add: timeout_defaults_def)

text \<open>
  The default suspicion threshold equals the no-progress ceiling, so for a child known only by a
  heartbeat, a label, an idle processor or a stale log the warning is due no earlier than the stop.
\<close>

lemma default_suspicion_not_before_stop:
  assumes "a \<noteq> Fresh_progress" "a \<noteq> Os_descendant_only_stale_progress"
  shows "fst (compute_effective_suspect (timeout_defaults i) (Some a)) = Some (effective_waiting_ceiling (timeout_defaults i) (Some a))"
  using assms by (cases a) (auto simp: compute_effective_suspect_def effective_waiting_ceiling_def timeout_defaults_def NON_PROGRESS_ALIVE_BY_VALUES_def)

text \<open>A no-progress ceiling at or below the startup default switches the startup limit off without an error.\<close>

lemma startup_limit_switched_off:
  "map_sum id no_output_at_start_seconds
     (post_init ((timeout_defaults (Some 300))\<lparr>max_waiting_on_child_no_progress_seconds := Some 360\<rparr>)) = Inr None"
  by (simp add: post_init_def policy_validator_defs validate_no_output_at_start_seconds_def timeout_defaults_def
      NO_OUTPUT_AT_START_SECONDS_def DEFAULT_AGENT_WORKSPACE_CHANGE_WEIGHTS_def refuse_def check_weight_def
      WORKSPACE_CHANGE_KINDS_def)

text \<open>The ceiling for stuck children may exceed the quiet ceiling that its documentation bounds it by.\<close>

lemma strictly_stuck_above_quiet_accepted:
  "\<exists>q. post_init ((timeout_defaults (Some 300))\<lparr>no_progress_quiet_strictly_stuck_seconds := Some 300\<rparr>) = Inr q
     \<and> no_progress_quiet_seconds q = Some 240"
  by (simp add: post_init_def policy_validator_defs validate_no_output_at_start_seconds_def timeout_defaults_def
      NO_OUTPUT_AT_START_SECONDS_def DEFAULT_AGENT_WORKSPACE_CHANGE_WEIGHTS_def refuse_def check_weight_def
      WORKSPACE_CHANGE_KINDS_def)

end
