(* ===== verification/Repetition_Tracker.thy ===== *)
theory Repetition_Tracker
  imports Py_Text
begin

text \<open>
  The circuit breaker for repeated errors and repeated tool calls:
  \<^verbatim>\<open>ralph/agents/idle_watchdog/repetition_tracker.py\<close>, with the regular expressions of its
  fingerprint as matchers.  The expressions are exact on ASCII text.  The serialised arguments of a
  tool call (the answer of \<^verbatim>\<open>json.dumps\<close>) are an argument.

  The tracker is then related to the history it has seen: \<open>apply_obs\<close> runs the operations over
  a list of observations, and the two dimensions trip exactly when the history says so.
\<close>

section \<open>Fingerprints\<close>

definition is_hex :: "char \<Rightarrow> bool" where
  "is_hex c = (is_digit c \<or> (let n = of_char c :: nat in 97 \<le> n \<and> n \<le> 102))"

definition is_word :: "char \<Rightarrow> bool" where
  "is_word c = (let n = of_char c :: nat
     in is_digit c \<or> (65 \<le> n \<and> n \<le> 90) \<or> (97 \<le> n \<and> n \<le> 122) \<or> n = 95)"

text \<open>A fixed-length expression is a list of character tests.\<close>

definition fits :: "(char \<Rightarrow> bool) list \<Rightarrow> string \<Rightarrow> bool" where
  "fits ps s = (length ps \<le> length s \<and> list_all2 (\<lambda>p c. p c) ps (take (length ps) s))"

definition run_length :: "(char \<Rightarrow> bool) \<Rightarrow> string \<Rightarrow> nat" where
  "run_length P s = length (takeWhile P s)"

text \<open>
  \<open>sub_all m r prev s\<close> is \<^verbatim>\<open>pattern.sub(r, s)\<close>: \<open>m\<close> answers the length of the match at a position,
  zero for none, given the character before it.
\<close>

function sub_all :: "(char option \<Rightarrow> string \<Rightarrow> nat) \<Rightarrow> string \<Rightarrow> char option \<Rightarrow> string \<Rightarrow> string" where
  "sub_all m r prev s =
     (if s = [] then []
      else if m prev s > 0 then r @ sub_all m r (Some (last (take (m prev s) s))) (drop (m prev s) s)
      else hd s # sub_all m r (Some (hd s)) (tl s))"
  by pat_completeness auto
termination
  by (relation "measure (\<lambda>(m, r, prev, s). length s)") auto

declare sub_all.simps [simp del]

definition iso_fixed :: "(char \<Rightarrow> bool) list" where
  "iso_fixed = (let d = is_digit; dash = (\<lambda>c. c = CHR ''-''); colon = (\<lambda>c. c = CHR '':'')
     in [d, d, d, d, dash, d, d, dash, d, d, (\<lambda>c. c = CHR ''t'' \<or> c = CHR '' ''), d, d, colon, d, d, colon, d, d])"

definition fraction_length :: "string \<Rightarrow> nat" where
  "fraction_length s = (case s of [] \<Rightarrow> 0
     | c # cs \<Rightarrow> if c = CHR ''.'' \<and> run_length is_digit cs > 0 then Suc (run_length is_digit cs) else 0)"

definition zone_length :: "string \<Rightarrow> nat" where
  "zone_length s = (case s of [] \<Rightarrow> 0
     | c # cs \<Rightarrow>
         if c = CHR ''+'' \<or> c = CHR ''-''
           then if fits [is_digit, is_digit, (\<lambda>c. c = CHR '':''), is_digit, is_digit] cs then 6
                else if fits [is_digit, is_digit, is_digit, is_digit] cs then 5 else 0
         else if c = CHR ''z'' then 1 else 0)"

definition iso_timestamp_length :: "char option \<Rightarrow> string \<Rightarrow> nat" where
  "iso_timestamp_length prev s =
     (if fits iso_fixed s
      then (let rest = drop 19 s; f = fraction_length rest in 19 + f + zone_length (drop f rest))
      else 0)"

definition uuid_length :: "char option \<Rightarrow> string \<Rightarrow> nat" where
  "uuid_length prev s =
     (let h = is_hex; dash = (\<lambda>c. c = CHR ''-'');
          pat = replicate 8 h @ [dash] @ replicate 4 h @ [dash] @ replicate 4 h @ [dash]
                @ replicate 4 h @ [dash] @ replicate 12 h
      in if fits pat s then 36 else 0)"

text \<open>
  \<^verbatim>\<open>\b[0-9a-f]{8,}\b\<close>: hexadecimal digits are word characters, so no shorter match than the whole
  run ends at a boundary.
\<close>

definition long_hex_length :: "char option \<Rightarrow> string \<Rightarrow> nat" where
  "long_hex_length prev s =
     (let n = run_length is_hex s; rest = drop n s
      in if n \<ge> 8 \<and> (case prev of None \<Rightarrow> True | Some c \<Rightarrow> \<not> is_word c)
            \<and> (rest = [] \<or> \<not> is_word (hd rest)) then n else 0)"

definition long_int_length :: "char option \<Rightarrow> string \<Rightarrow> nat" where
  "long_int_length prev s = (let n = run_length is_digit s in if n \<ge> 7 then n else 0)"

definition whitespace_length :: "char option \<Rightarrow> string \<Rightarrow> nat" where
  "whitespace_length prev s = run_length is_space s"

definition fingerprint :: "string \<Rightarrow> string" where
  "fingerprint message =
     (let t = lower message;
          t = sub_all iso_timestamp_length ''<ts>'' None t;
          t = sub_all uuid_length ''<uuid>'' None t;
          t = sub_all long_hex_length ''<hex>'' None t;
          t = sub_all long_int_length ''<n>'' None t
      in strip (sub_all whitespace_length '' '' None t))"

definition tool_call_fingerprint :: "string \<Rightarrow> string \<Rightarrow> string" where
  "tool_call_fingerprint tool_name args_blob = tool_name @ ''|'' @ args_blob"

definition tool_args_preview :: "string \<Rightarrow> string" where
  "tool_args_preview blob = (if length blob > 512 then take 509 blob @ ''...'' else blob)"

section \<open>The tracker\<close>

record repetition_tracker =
  rt_consecutive_threshold :: "int option"
  rt_window_count :: "int option"
  rt_window_seconds :: "real option"
  rt_event_maxlen :: nat
  rt_events :: "(string \<times> real) list"
  rt_last_fingerprint :: "string option"
  rt_consecutive :: int
  rt_tool_events :: "(string \<times> real) list"
  rt_last_tool_fingerprint :: "string option"
  rt_last_tool_name :: "string option"
  rt_last_tool_args_preview :: "string option"
  rt_tool_consecutive :: int

definition derive_event_maxlen :: "int option \<Rightarrow> nat" where
  "derive_event_maxlen wc = nat (max ((case wc of None \<Rightarrow> 0 | Some n \<Rightarrow> n) * 8) 256)"

definition new_repetition_tracker :: "int option \<Rightarrow> int option \<Rightarrow> real option \<Rightarrow> repetition_tracker" where
  "new_repetition_tracker ct wc ws =
     \<lparr>rt_consecutive_threshold = ct, rt_window_count = wc, rt_window_seconds = ws,
      rt_event_maxlen = derive_event_maxlen wc, rt_events = [], rt_last_fingerprint = None,
      rt_consecutive = 0, rt_tool_events = [], rt_last_tool_fingerprint = None,
      rt_last_tool_name = None, rt_last_tool_args_preview = None, rt_tool_consecutive = 0\<rparr>"

text \<open>\<^verbatim>\<open>deque(maxlen=n).append\<close> drops from the left.\<close>

definition deque_append :: "nat \<Rightarrow> 'a list \<Rightarrow> 'a \<Rightarrow> 'a list" where
  "deque_append n xs x = slice_last (xs @ [x]) n"

definition prune_events :: "real option \<Rightarrow> real \<Rightarrow> (string \<times> real) list \<Rightarrow> (string \<times> real) list" where
  "prune_events ws now evs = (case ws of None \<Rightarrow> evs | Some w \<Rightarrow> dropWhile (\<lambda>e. snd e < now - w) evs)"

definition note_error :: "real \<Rightarrow> string \<Rightarrow> repetition_tracker \<Rightarrow> repetition_tracker" where
  "note_error now message t =
     (let fp = fingerprint message;
          t = (if rt_last_fingerprint t = Some fp then t\<lparr>rt_consecutive := rt_consecutive t + 1\<rparr>
               else t\<lparr>rt_last_fingerprint := Some fp, rt_consecutive := 1\<rparr>)
      in t\<lparr>rt_events := prune_events (rt_window_seconds t) now
              (deque_append (rt_event_maxlen t) (rt_events t) (fp, now))\<rparr>)"

definition mark_tool_call :: "real \<Rightarrow> string option \<Rightarrow> string \<Rightarrow> repetition_tracker \<Rightarrow> repetition_tracker" where
  "mark_tool_call now tool_name args_blob t =
     (let name = or_else tool_name ''unknown'';
          fp = tool_call_fingerprint name args_blob;
          t = (if rt_last_tool_fingerprint t = Some fp then t\<lparr>rt_tool_consecutive := rt_tool_consecutive t + 1\<rparr>
               else t\<lparr>rt_last_tool_fingerprint := Some fp, rt_tool_consecutive := 1\<rparr>)
      in t\<lparr>rt_last_tool_name := Some name, rt_last_tool_args_preview := Some (tool_args_preview args_blob),
           rt_tool_events := prune_events (rt_window_seconds t) now
              (deque_append (rt_event_maxlen t) (rt_tool_events t) (fp, now))\<rparr>)"

definition note_progress :: "repetition_tracker \<Rightarrow> repetition_tracker" where
  "note_progress t =
     t\<lparr>rt_consecutive := 0, rt_last_fingerprint := None, rt_tool_consecutive := 0,
       rt_last_tool_fingerprint := None, rt_last_tool_name := None, rt_last_tool_args_preview := None\<rparr>"

fun max_count_from :: "(string, int) pydict \<Rightarrow> int \<Rightarrow> (string \<times> real) list \<Rightarrow> int" where
  "max_count_from counts best [] = best"
| "max_count_from counts best ((f, _) # es) =
     (let running = dget_or counts f 0 + 1 in max_count_from (dset f running counts) (max best running) es)"

definition max_fingerprint_count :: "(string \<times> real) list \<Rightarrow> int" where
  "max_fingerprint_count evs = max_count_from [] 0 evs"

fun cycling_from :: "string list \<Rightarrow> (string \<times> real) list \<Rightarrow> bool" where
  "cycling_from seen [] = True"
| "cycling_from seen ((f, _) # es) =
     (let seen = List.insert f seen in if length seen > 4 then False else cycling_from seen es)"

definition window_is_cycling :: "(string \<times> real) list \<Rightarrow> bool" where
  "window_is_cycling evs = cycling_from [] evs"

text \<open>A dimension test prunes its events on the way; it answers the verdict and the tracker it leaves.\<close>

definition error_dimension_tripped :: "real \<Rightarrow> repetition_tracker \<Rightarrow> bool \<times> repetition_tracker" where
  "error_dimension_tripped now t =
     (if (case rt_consecutive_threshold t of None \<Rightarrow> False | Some n \<Rightarrow> rt_consecutive t \<ge> n) then (True, t)
      else case (rt_window_count t, rt_window_seconds t) of
        (Some c, Some w) \<Rightarrow>
          (let t = t\<lparr>rt_events := prune_events (rt_window_seconds t) now (rt_events t)\<rparr>
           in (max_fingerprint_count (rt_events t) \<ge> c, t))
      | _ \<Rightarrow> (False, t))"

definition tool_dimension_tripped :: "real \<Rightarrow> repetition_tracker \<Rightarrow> bool \<times> repetition_tracker" where
  "tool_dimension_tripped now t =
     (if (case rt_consecutive_threshold t of None \<Rightarrow> False | Some n \<Rightarrow> rt_tool_consecutive t \<ge> n) then (True, t)
      else case (rt_window_count t, rt_window_seconds t) of
        (Some c, Some w) \<Rightarrow>
          (let t = t\<lparr>rt_tool_events := prune_events (rt_window_seconds t) now (rt_tool_events t)\<rparr>
           in (max_fingerprint_count (rt_tool_events t) \<ge> c \<and> window_is_cycling (rt_tool_events t), t))
      | _ \<Rightarrow> (False, t))"

definition tripped :: "real \<Rightarrow> repetition_tracker \<Rightarrow> bool \<times> repetition_tracker" where
  "tripped now t =
     (let (e, t) = error_dimension_tripped now t in if e then (True, t) else tool_dimension_tripped now t)"

definition tripped_tool_dimension :: "real \<Rightarrow> repetition_tracker \<Rightarrow> bool \<times> repetition_tracker" where
  "tripped_tool_dimension now t =
     (let (b, t) = tool_dimension_tripped now t
      in if b then (let (e, t) = error_dimension_tripped now t in (\<not> e, t)) else (False, t))"

section \<open>Counting\<close>

definition repeats :: "string \<Rightarrow> (string \<times> real) list \<Rightarrow> int" where
  "repeats f evs = int (length (filter (\<lambda>e. fst e = f) evs))"

lemma repeats_simps [simp]:
  "repeats f [] = 0" "repeats f ((g, t) # es) = (if g = f then 1 else 0) + repeats f es"
  by (auto simp: repeats_def)

lemma repeats_nonneg [simp]: "0 \<le> repeats f es"
  by (simp add: repeats_def)

lemma repeats_absent: "f \<notin> fst ` set es \<Longrightarrow> repeats f es = 0"
  by (induction es) auto

lemma max_count_from_ge:
  assumes "0 \<le> best"
  shows "max_count_from counts best es \<ge> c \<longleftrightarrow>
    best \<ge> c \<or> (\<exists>f\<in>fst ` set es. dget_or counts f 0 + repeats f es \<ge> c)"
  using assms
proof (induction es arbitrary: counts best)
  case (Cons e es)
  obtain g s where e: "e = (g, s)" by force
  have step: "dget_or (dset g (dget_or counts g 0 + 1) counts) f 0 + repeats f es = dget_or counts f 0 + repeats f (e # es)" for f
    by (simp add: e)
  have "0 \<le> max best (dget_or counts g 0 + 1)" using Cons.prems by simp
  note IH = Cons.IH [OF this, of "dset g (dget_or counts g 0 + 1) counts"]
  have split: "(\<exists>f\<in>fst ` set (e # es). c \<le> Q f) \<longleftrightarrow> c \<le> Q g \<or> (\<exists>f\<in>fst ` set es. c \<le> Q f)" for Q :: "string \<Rightarrow> int"
    by (auto simp: e)
  have one: "dget_or counts g 0 + 1 \<le> dget_or counts g 0 + repeats g (e # es)" by (simp add: e)
  have only: "g \<notin> fst ` set es \<Longrightarrow> dget_or counts g 0 + repeats g (e # es) = dget_or counts g 0 + 1"
    by (simp add: e repeats_absent)
  have "max_count_from counts best (e # es) \<ge> c \<longleftrightarrow>
      c \<le> best \<or> c \<le> dget_or counts g 0 + 1 \<or> (\<exists>f\<in>fst ` set es. c \<le> dget_or counts f 0 + repeats f (e # es))"
    by (simp only: e max_count_from.simps Let_def IH step [unfolded e] le_max_iff_disj disj_assoc)
  also have "\<dots> \<longleftrightarrow> c \<le> best \<or> (\<exists>f\<in>fst ` set (e # es). c \<le> dget_or counts f 0 + repeats f (e # es))"
    unfolding split using one only by fastforce
  finally show ?case .
qed simp

lemma max_fingerprint_count_ge: "max_fingerprint_count es \<ge> c \<longleftrightarrow> c \<le> 0 \<or> (\<exists>f. repeats f es \<ge> c)"
proof -
  have "(\<exists>f\<in>fst ` set es. repeats f es \<ge> c) \<or> c \<le> 0 \<longleftrightarrow> c \<le> 0 \<or> (\<exists>f. repeats f es \<ge> c)"
  proof -
    have "repeats f es \<ge> c \<Longrightarrow> \<not> c \<le> 0 \<Longrightarrow> f \<in> fst ` set es" for f
      using repeats_absent [of f es] by (cases "f \<in> fst ` set es") auto
    then show ?thesis by blast
  qed
  then show ?thesis
    by (auto simp: max_fingerprint_count_def max_count_from_ge dget_or_def)
qed

lemma cycling_from_iff:
  assumes "distinct seen" "length seen \<le> 4"
  shows "cycling_from seen es \<longleftrightarrow> card (set seen \<union> fst ` set es) \<le> 4"
  using assms
proof (induction es arbitrary: seen)
  case Nil
  then show ?case by (simp add: distinct_card)
next
  case (Cons e es)
  obtain g s where e: "e = (g, s)" by force
  have d: "distinct (List.insert g seen)" using Cons.prems by simp
  have u: "set seen \<union> fst ` set (e # es) = set (List.insert g seen) \<union> fst ` set es"
    by (auto simp: e)
  show ?case
  proof (cases "length (List.insert g seen) > 4")
    case True
    have "card (set (List.insert g seen)) \<le> card (set seen \<union> fst ` set (e # es))"
      unfolding u by (intro card_mono) auto
    then have "4 < card (set seen \<union> fst ` set (e # es))" using True distinct_card [OF d] by linarith
    then show ?thesis using True by (simp add: e Let_def)
  next
    case False
    then show ?thesis using Cons.IH [OF d] unfolding u by (simp add: e Let_def)
  qed
qed

lemma window_is_cycling_iff: "window_is_cycling es \<longleftrightarrow> card (fst ` set es) \<le> 4"
  by (simp add: window_is_cycling_def cycling_from_iff)

section \<open>The history a tracker has seen\<close>

text \<open>An error, a tool call, forward progress, or a look at the breaker, each at its time.\<close>

datatype tracker_event = Obs_error real string | Obs_tool real "string option" string | Obs_progress real | Obs_check real

fun obs_time :: "tracker_event \<Rightarrow> real" where
  "obs_time (Obs_error t _) = t"
| "obs_time (Obs_tool t _ _) = t"
| "obs_time (Obs_progress t) = t"
| "obs_time (Obs_check t) = t"

fun apply_obs :: "repetition_tracker \<Rightarrow> tracker_event \<Rightarrow> repetition_tracker" where
  "apply_obs t (Obs_error now m) = note_error now m t"
| "apply_obs t (Obs_tool now name blob) = mark_tool_call now name blob t"
| "apply_obs t (Obs_progress _) = note_progress t"
| "apply_obs t (Obs_check now) = snd (tripped now t)"

fun error_events :: "tracker_event list \<Rightarrow> (string \<times> real) list" where
  "error_events [] = []"
| "error_events (Obs_error t m # h) = (fingerprint m, t) # error_events h"
| "error_events (_ # h) = error_events h"

fun tool_events :: "tracker_event list \<Rightarrow> (string \<times> real) list" where
  "tool_events [] = []"
| "tool_events (Obs_tool t n b # h) = (tool_call_fingerprint (or_else n ''unknown'') b, t) # tool_events h"
| "tool_events (_ # h) = tool_events h"

text \<open>What happened in one dimension, with \<open>None\<close> for progress.\<close>

fun error_marks :: "tracker_event list \<Rightarrow> string option list" where
  "error_marks [] = []"
| "error_marks (Obs_error t m # h) = Some (fingerprint m) # error_marks h"
| "error_marks (Obs_progress t # h) = None # error_marks h"
| "error_marks (_ # h) = error_marks h"

fun tool_marks :: "tracker_event list \<Rightarrow> string option list" where
  "tool_marks [] = []"
| "tool_marks (Obs_tool t n b # h) = Some (tool_call_fingerprint (or_else n ''unknown'') b) # tool_marks h"
| "tool_marks (Obs_progress t # h) = None # tool_marks h"
| "tool_marks (_ # h) = tool_marks h"

text \<open>How many equal fingerprints end the history.\<close>

definition trailing_run :: "string option list \<Rightarrow> int" where
  "trailing_run ms = (case rev ms of
     Some f # r \<Rightarrow> 1 + int (length (takeWhile (\<lambda>x. x = Some f) r)) | _ \<Rightarrow> 0)"

definition last_mark :: "string option list \<Rightarrow> string option" where
  "last_mark ms = (if ms = [] then None else last ms)"

text \<open>The kept events that are not older than the window.\<close>

definition in_window :: "real \<Rightarrow> real \<Rightarrow> nat \<Rightarrow> (string \<times> real) list \<Rightarrow> (string \<times> real) list" where
  "in_window w now n evs = filter (\<lambda>e. now - w \<le> snd e) (slice_last evs n)"

lemma trailing_run_simps [simp]:
  "trailing_run [] = 0" "trailing_run (ms @ [None]) = 0"
  "trailing_run (ms @ [Some f]) = (if last_mark ms = Some f then trailing_run ms + 1 else 1)"
  by (cases ms rule: rev_cases; cases "last_mark ms"; simp add: trailing_run_def last_mark_def)+

lemma last_mark_simps [simp]: "last_mark [] = None" "last_mark (ms @ [x]) = x"
  by (simp_all add: last_mark_def)

lemma error_history_append [simp]:
  "error_events (h @ k) = error_events h @ error_events k"
  "error_marks (h @ k) = error_marks h @ error_marks k"
  by (induction h rule: error_events.induct) simp_all

lemma tool_history_append [simp]:
  "tool_events (h @ k) = tool_events h @ tool_events k"
  "tool_marks (h @ k) = tool_marks h @ tool_marks k"
  by (induction h rule: tool_events.induct) simp_all

section \<open>What the tracker keeps of the history\<close>

lemma slice_last_id: "length xs \<le> n \<Longrightarrow> slice_last xs n = xs"
  by (simp add: slice_last_def)

lemma slice_last_snoc: "slice_last (slice_last xs n @ [x]) n = slice_last (xs @ [x]) n"
  by (cases "length xs \<le> n") (auto simp: slice_last_def Suc_diff_le)

lemma prune_prune: "s \<le> t \<Longrightarrow> prune_events ws t (prune_events ws s es) = prune_events ws t es"
proof (cases ws)
  case (Some w)
  assume "s \<le> t"
  then have "dropWhile (\<lambda>e. snd e < t - w) (dropWhile (\<lambda>e. snd e < s - w) es) = dropWhile (\<lambda>e. snd e < t - w) es"
    by (induction es) auto
  then show ?thesis by (simp add: Some prune_events_def)
qed (simp add: prune_events_def)

lemma prune_snoc:
  assumes "s \<le> t"
  shows "prune_events ws t (deque_append n (prune_events ws s (slice_last es n)) e)
       = prune_events ws t (slice_last (es @ [e]) n)"
proof (cases "prune_events ws s (slice_last es n) = slice_last es n")
  case False
  then obtain w where w: "ws = Some w" by (auto simp: prune_events_def split: option.splits)
  let ?S = "slice_last es n"
  obtain x S where S: "?S = x # S" and x: "snd x < s - w"
    using False w by (cases ?S) (auto simp: prune_events_def split: if_splits)
  have "length (prune_events ws s ?S) \<le> length S"
    using x by (simp add: S w prune_events_def length_dropWhile_le)
  moreover have "length ?S \<le> n" by (simp add: slice_last_def)
  ultimately have "deque_append n (prune_events ws s ?S) e = prune_events ws s ?S @ [e]"
    by (simp add: deque_append_def slice_last_id S)
  moreover have "prune_events ws t (slice_last (es @ [e]) n) = prune_events ws t (?S @ [e])"
  proof -
    have "slice_last (es @ [e]) n = slice_last (?S @ [e]) n" by (simp add: slice_last_snoc)
    also have "\<dots> = ?S @ [e] \<or> \<dots> = S @ [e]"
    proof (cases "length ?S = n")
      case True
      then have "n = Suc (length S)" by (simp add: S)
      then have "slice_last ((x # S) @ [e]) n = S @ [e]" by (simp add: slice_last_def)
      then show ?thesis by (simp add: S)
    next
      case False
      then show ?thesis using \<open>length ?S \<le> n\<close> by (simp add: slice_last_id)
    qed
    finally show ?thesis using x assms by (auto simp: S w prune_events_def)
  qed
  moreover have "prune_events ws t (prune_events ws s ?S @ [e]) = prune_events ws t (?S @ [e])"
  proof -
    have "dropWhile (\<lambda>e. snd e < t - w) (dropWhile (\<lambda>e. snd e < s - w) es' @ [e]) = dropWhile (\<lambda>e. snd e < t - w) (es' @ [e])" for es'
      using assms by (induction es') auto
    then show ?thesis by (simp add: w prune_events_def)
  qed
  ultimately show ?thesis by simp
qed (simp add: deque_append_def slice_last_snoc)

text \<open>The events of one dimension are those of the history, cut to the bound and pruned at some time up to now.\<close>

definition kept :: "real option \<Rightarrow> nat \<Rightarrow> real \<Rightarrow> (string \<times> real) list \<Rightarrow> (string \<times> real) list \<Rightarrow> bool" where
  "kept ws n now hist evs \<longleftrightarrow> (\<exists>s\<le>now. evs = prune_events ws s (slice_last hist n))"

lemma kept_later: "kept ws n s hist evs \<Longrightarrow> s \<le> t \<Longrightarrow> kept ws n t hist evs"
  by (auto simp: kept_def intro: order_trans)

lemma kept_prune: "kept ws n t hist evs \<Longrightarrow> kept ws n t hist (prune_events ws t evs)"
  by (auto simp: kept_def prune_prune)

lemma kept_snoc: "kept ws n t hist evs \<Longrightarrow> kept ws n t (hist @ [e]) (prune_events ws t (deque_append n evs e))"
  by (auto simp: kept_def prune_snoc)

lemma kept_window:
  assumes "kept (Some w) n now hist evs" "sorted (map snd hist)"
  shows "prune_events (Some w) now evs = in_window w now n hist"
proof -
  have *: "sorted (map snd es) \<Longrightarrow> dropWhile (\<lambda>e. snd e < c) es = filter (\<lambda>e. c \<le> snd e) es" for es :: "(string \<times> real) list" and c
    by (induction es) (auto intro!: filter_True [symmetric])
  have "sorted (map snd (slice_last hist n))" using assms(2) by (simp add: slice_last_def drop_map [symmetric] sorted_wrt_drop)
  from * [OF this] show ?thesis using assms(1)
    by (auto simp: kept_def prune_prune in_window_def) (simp add: prune_events_def)
qed

section \<open>The tracker refines its history\<close>

definition tracks :: "real \<Rightarrow> tracker_event list \<Rightarrow> repetition_tracker \<Rightarrow> bool" where
  "tracks now h t \<longleftrightarrow>
     rt_consecutive t = trailing_run (error_marks h) \<and> rt_last_fingerprint t = last_mark (error_marks h)
     \<and> rt_tool_consecutive t = trailing_run (tool_marks h) \<and> rt_last_tool_fingerprint t = last_mark (tool_marks h)
     \<and> kept (rt_window_seconds t) (rt_event_maxlen t) now (error_events h) (rt_events t)
     \<and> kept (rt_window_seconds t) (rt_event_maxlen t) now (tool_events h) (rt_tool_events t)"

definition same_limits :: "repetition_tracker \<Rightarrow> repetition_tracker \<Rightarrow> bool" where
  "same_limits t u \<longleftrightarrow> rt_consecutive_threshold u = rt_consecutive_threshold t \<and> rt_window_count u = rt_window_count t
     \<and> rt_window_seconds u = rt_window_seconds t \<and> rt_event_maxlen u = rt_event_maxlen t"

lemma error_dimension_keeps:
  "same_limits t (snd (error_dimension_tripped now t)) \<and> (tracks now h t \<longrightarrow> tracks now h (snd (error_dimension_tripped now t)))"
  by (auto simp: error_dimension_tripped_def same_limits_def tracks_def Let_def
      intro: kept_prune split: option.splits)

lemma tool_dimension_keeps:
  "same_limits t (snd (tool_dimension_tripped now t)) \<and> (tracks now h t \<longrightarrow> tracks now h (snd (tool_dimension_tripped now t)))"
  by (auto simp: tool_dimension_tripped_def same_limits_def tracks_def Let_def
      intro: kept_prune split: option.splits)

lemma same_limits_trans: "same_limits t u \<Longrightarrow> same_limits u v \<Longrightarrow> same_limits t v"
  by (auto simp: same_limits_def)

lemma tripped_keeps: "same_limits t (snd (tripped now t)) \<and> (tracks now h t \<longrightarrow> tracks now h (snd (tripped now t)))"
  using error_dimension_keeps [of t now h] tool_dimension_keeps [of "snd (error_dimension_tripped now t)" now h]
    same_limits_trans [of t "snd (error_dimension_tripped now t)"]
  by (auto simp: tripped_def split: prod.splits)

lemma apply_obs_limits: "same_limits t (apply_obs t x)"
  using tripped_keeps by (cases x) (auto simp: same_limits_def note_error_def mark_tool_call_def note_progress_def Let_def)

lemma tracks_later: "tracks s h t \<Longrightarrow> s \<le> now \<Longrightarrow> tracks now h t"
  by (auto simp: tracks_def intro: kept_later)

lemma tracks_step:
  assumes "tracks s h t" "s \<le> obs_time x"
  shows "tracks (obs_time x) (h @ [x]) (apply_obs t x)"
proof -
  note t = tracks_later [OF assms]
  show ?thesis
  proof (cases x)
    case (Obs_error now m)
    then show ?thesis using t by (auto simp: tracks_def note_error_def Let_def intro: kept_snoc)
  next
    case (Obs_tool now name blob)
    then show ?thesis using t by (auto simp: tracks_def mark_tool_call_def Let_def intro: kept_snoc)
  next
    case (Obs_progress now)
    then show ?thesis using t by (simp add: tracks_def note_progress_def)
  next
    case (Obs_check now)
    then show ?thesis using t tripped_keeps [of t now h] by (simp add: tracks_def)
  qed
qed

definition observed :: "int option \<Rightarrow> int option \<Rightarrow> real option \<Rightarrow> tracker_event list \<Rightarrow> repetition_tracker" where
  "observed ct wc ws h = foldl apply_obs (new_repetition_tracker ct wc ws) h"

lemma observed_limits: "same_limits (new_repetition_tracker ct wc ws) (observed ct wc ws h)"
proof (induction h rule: rev_induct)
  case (snoc x h)
  then show ?case using same_limits_trans [OF snoc apply_obs_limits] by (simp add: observed_def)
qed (simp add: observed_def same_limits_def)

lemma observed_tracks:
  assumes "sorted (map obs_time h)" "\<forall>x\<in>set h. obs_time x \<le> now"
  shows "tracks now h (observed ct wc ws h)"
  using assms
proof (induction h arbitrary: now rule: rev_induct)
  case Nil
  have "kept ws n now [] []" for n by (auto simp: kept_def prune_events_def slice_last_def split: option.splits)
  then show ?case by (simp add: observed_def tracks_def new_repetition_tracker_def)
next
  case (snoc x h)
  have "tracks (obs_time x) h (observed ct wc ws h)"
    using snoc by (intro snoc.IH) (auto simp: sorted_append)
  then have "tracks (obs_time x) (h @ [x]) (observed ct wc ws (h @ [x]))"
    using tracks_step [of "obs_time x" h _ x] by (simp add: observed_def)
  then show ?case using snoc.prems(2) by (auto intro: tracks_later)
qed

lemma error_events_sorted: "sorted (map obs_time h) \<Longrightarrow> sorted (map snd (error_events h))"
proof (induction h rule: error_events.induct)
  case (2 t m h)
  have "\<forall>e\<in>set (error_events k). snd e \<in> obs_time ` set k" for k by (induction k rule: error_events.induct) auto
  then have "\<forall>e\<in>set (error_events h). snd e \<in> obs_time ` set h" .
  then show ?case using 2 by auto
qed auto

lemma tool_events_sorted: "sorted (map obs_time h) \<Longrightarrow> sorted (map snd (tool_events h))"
proof (induction h rule: tool_events.induct)
  case (2 t n b h)
  have "\<forall>e\<in>set (tool_events k). snd e \<in> obs_time ` set k" for k by (induction k rule: tool_events.induct) auto
  then have "\<forall>e\<in>set (tool_events h). snd e \<in> obs_time ` set h" .
  then show ?case using 2 by auto
qed auto

lemma error_dimension_spec:
  assumes "sorted (map obs_time h)" "\<forall>x\<in>set h. obs_time x \<le> now"
  shows "fst (error_dimension_tripped now (observed ct wc ws h)) \<longleftrightarrow>
    (\<exists>n. ct = Some n \<and> n \<le> trailing_run (error_marks h))
    \<or> (\<exists>c w f. wc = Some c \<and> ws = Some w
        \<and> c \<le> repeats f (in_window w now (derive_event_maxlen wc) (error_events h)))"
proof -
  define t where "t = observed ct wc ws h"
  have lim: "rt_consecutive_threshold t = ct" "rt_window_count t = wc" "rt_window_seconds t = ws"
    "rt_event_maxlen t = derive_event_maxlen wc"
    using observed_limits [of ct wc ws h] by (simp_all add: t_def same_limits_def new_repetition_tracker_def)
  have tr: "rt_consecutive t = trailing_run (error_marks h)"
    "kept ws (derive_event_maxlen wc) now (error_events h) (rt_events t)"
    using observed_tracks [OF assms, of ct wc ws] by (simp_all add: tracks_def lim t_def [symmetric])
  have win: "prune_events (Some w) now (rt_events t) = in_window w now (derive_event_maxlen wc) (error_events h)"
    if "ws = Some w" for w using kept_window [OF _ error_events_sorted [OF assms(1)]] tr(2) that by simp
  have any: "(\<exists>f. (c::int) \<le> repeats f es) \<longleftrightarrow> c \<le> 0 \<or> (\<exists>f. c \<le> repeats f es)" for c es
    using order_trans [OF _ repeats_nonneg] by blast
  show ?thesis
    unfolding error_dimension_tripped_def t_def [symmetric] lim tr(1)
    using win by (auto simp: max_fingerprint_count_ge any [symmetric] Let_def split: option.splits)
qed

lemma tool_dimension_spec:
  assumes "sorted (map obs_time h)" "\<forall>x\<in>set h. obs_time x \<le> now"
  shows "fst (tool_dimension_tripped now (observed ct wc ws h)) \<longleftrightarrow>
    (\<exists>n. ct = Some n \<and> n \<le> trailing_run (tool_marks h))
    \<or> (\<exists>c w f. wc = Some c \<and> ws = Some w
        \<and> c \<le> repeats f (in_window w now (derive_event_maxlen wc) (tool_events h))
        \<and> card (fst ` set (in_window w now (derive_event_maxlen wc) (tool_events h))) \<le> 4)"
proof -
  define t where "t = observed ct wc ws h"
  have lim: "rt_consecutive_threshold t = ct" "rt_window_count t = wc" "rt_window_seconds t = ws"
    "rt_event_maxlen t = derive_event_maxlen wc"
    using observed_limits [of ct wc ws h] by (simp_all add: t_def same_limits_def new_repetition_tracker_def)
  have tr: "rt_tool_consecutive t = trailing_run (tool_marks h)"
    "kept ws (derive_event_maxlen wc) now (tool_events h) (rt_tool_events t)"
    using observed_tracks [OF assms, of ct wc ws] by (simp_all add: tracks_def lim t_def [symmetric])
  have win: "prune_events (Some w) now (rt_tool_events t) = in_window w now (derive_event_maxlen wc) (tool_events h)"
    if "ws = Some w" for w using kept_window [OF _ tool_events_sorted [OF assms(1)]] tr(2) that by simp
  have any: "(\<exists>f. (c::int) \<le> repeats f es) \<longleftrightarrow> c \<le> 0 \<or> (\<exists>f. c \<le> repeats f es)" for c es
    using order_trans [OF _ repeats_nonneg] by blast
  show ?thesis
    unfolding tool_dimension_tripped_def t_def [symmetric] lim tr(1)
    using win by (auto simp: max_fingerprint_count_ge window_is_cycling_iff any [symmetric] Let_def split: option.splits)
qed

text \<open>The two loops, read off the history.\<close>

definition looping_errors :: "int option \<Rightarrow> int option \<Rightarrow> real option \<Rightarrow> real \<Rightarrow> tracker_event list \<Rightarrow> bool" where
  "looping_errors ct wc ws now h \<longleftrightarrow>
     (\<exists>n. ct = Some n \<and> n \<le> trailing_run (error_marks h))
     \<or> (\<exists>c w f. wc = Some c \<and> ws = Some w
         \<and> c \<le> repeats f (in_window w now (derive_event_maxlen wc) (error_events h)))"

definition looping_tools :: "int option \<Rightarrow> int option \<Rightarrow> real option \<Rightarrow> real \<Rightarrow> tracker_event list \<Rightarrow> bool" where
  "looping_tools ct wc ws now h \<longleftrightarrow>
     (\<exists>n. ct = Some n \<and> n \<le> trailing_run (tool_marks h))
     \<or> (\<exists>c w f. wc = Some c \<and> ws = Some w
         \<and> c \<le> repeats f (in_window w now (derive_event_maxlen wc) (tool_events h))
         \<and> card (fst ` set (in_window w now (derive_event_maxlen wc) (tool_events h))) \<le> 4)"

lemma dimensions_independent:
  "fst (tool_dimension_tripped now (snd (error_dimension_tripped now t))) = fst (tool_dimension_tripped now t)"
  "fst (error_dimension_tripped now (snd (tool_dimension_tripped now t))) = fst (error_dimension_tripped now t)"
  by (auto simp: error_dimension_tripped_def tool_dimension_tripped_def Let_def split: option.splits)

lemma tripped_fst: "fst (tripped now t) \<longleftrightarrow> fst (error_dimension_tripped now t) \<or> fst (tool_dimension_tripped now t)"
  using dimensions_independent(1) [of now t] by (auto simp: tripped_def split: prod.splits)

lemma tripped_tool_fst:
  "fst (tripped_tool_dimension now t) \<longleftrightarrow> fst (tool_dimension_tripped now t) \<and> \<not> fst (error_dimension_tripped now t)"
  using dimensions_independent(2) [of now t] by (auto simp: tripped_tool_dimension_def split: prod.splits)

text \<open>
  C28: For every history whose times do not decrease, the breaker trips exactly when the history ends
  in enough equal errors or tool calls without progress between them, or when enough equal ones lie in the
  trailing window (for tool calls, among at most four different ones).  Asked again, it names the
  tool-call loop exactly when no error loop is present.  Looking at the breaker never changes its answer,
  and progress never hides a loop from the window.
\<close>

theorem breaker_trips_exactly:
  assumes "sorted (map obs_time h)" "\<forall>x\<in>set h. obs_time x \<le> now"
  shows "(fst (tripped now (observed ct wc ws h)) \<longleftrightarrow> looping_errors ct wc ws now h \<or> looping_tools ct wc ws now h)
    \<and> (fst (tripped_tool_dimension now (snd (tripped now (observed ct wc ws h)))) \<longleftrightarrow>
        looping_tools ct wc ws now h \<and> \<not> looping_errors ct wc ws now h)"
proof -
  note spec = error_dimension_spec [folded looping_errors_def] tool_dimension_spec [folded looping_tools_def]
  have after: "observed ct wc ws (h @ [Obs_check now]) = snd (tripped now (observed ct wc ws h))"
    by (simp add: observed_def)
  have "sorted (map obs_time (h @ [Obs_check now]))" "\<forall>x\<in>set (h @ [Obs_check now]). obs_time x \<le> now"
    using assms by (auto simp: sorted_append)
  note later = spec [OF this, of ct wc ws, unfolded after]
  have "looping_errors ct wc ws now (h @ [Obs_check now]) = looping_errors ct wc ws now h"
    "looping_tools ct wc ws now (h @ [Obs_check now]) = looping_tools ct wc ws now h"
    by (simp_all add: looping_errors_def looping_tools_def)
  then show ?thesis using spec [OF assms, of ct wc ws] later by (simp add: tripped_fst tripped_tool_fst)
qed

lemma breaker_trips_exactly_witness:
  "fst (tripped 9 (observed (Some 2) None None [Obs_error 1 ''e'', Obs_tool 2 None ''{}'', Obs_error 3 ''e'']))
   \<and> \<not> fst (tripped 9 (observed (Some 2) None None [Obs_error 1 ''e'', Obs_progress 2, Obs_error 3 ''e'']))"
  using breaker_trips_exactly [of "[Obs_error 1 ''e'', Obs_tool 2 None ''{}'', Obs_error 3 ''e'']" 9 "Some 2" None None]
    breaker_trips_exactly [of "[Obs_error 1 ''e'', Obs_progress 2, Obs_error 3 ''e'']" 9 "Some 2" None None]
  by (simp add: looping_errors_def looping_tools_def trailing_run_def)

text \<open>Per-occurrence noise is collapsed, and a short error code survives.\<close>

lemma fingerprint_example:
  "fingerprint ''2026-01-02T03:04:05.67Z MCP error -32001 in request 1234567''
     = ''<ts> mcp error -32001 in request <n>''"
  by code_simp

end
