(* ===== verification/Watchdog_Text.thy ===== *)
theory Watchdog_Text
  imports Repetition_Tracker
begin

text \<open>
  The text a watchdog shows to an operator: \<^verbatim>\<open>ralph/agents/idle_watchdog/_sanitize.py\<close>, which redacts
  what a subagent printed, and the tool-call prefix of \<^verbatim>\<open>_activity_methods.py\<close>.  Decoding and
  encoding of JSON (\<^verbatim>\<open>raw_decode\<close>, \<^verbatim>\<open>json.dumps\<close>) are the two functions of \<open>json_lib\<close>; \<open>None\<close> is the
  exception that the code catches.  The regular expressions are exact on ASCII text.
\<close>

section \<open>Tool-call prefixes\<close>

definition KNOWN_TOOL_CALL_VERBS :: "string list" where
  "KNOWN_TOOL_CALL_VERBS =
     [''tool_use'', ''tool_result'', ''mcp_tool'', ''subagent'', ''bash'', ''read'', ''write'', ''edit'', ''glob'',
      ''grep'', ''webfetch'', ''websearch'']"

definition parse_tool_call_from_description :: "string option \<Rightarrow> string option" where
  "parse_tool_call_from_description description =
     (if \<not> truthy description then None
      else let (head, found, _) = partition_on (CHR '':'') (the description)
           in if \<not> found \<or> head \<notin> set KNOWN_TOOL_CALL_VERBS then None else Some head)"

section \<open>Redaction of decoded JSON\<close>

definition SENSITIVE_JSON_KEYS :: "string list" where
  "SENSITIVE_JSON_KEYS = [''arguments'', ''args'', ''file_path'', ''input'', ''prompt'', ''content'']"

definition sensitive_key :: "string \<Rightarrow> bool" where
  "sensitive_key k = (lower k \<in> set SENSITIVE_JSON_KEYS)"

definition redacted_text :: string where
  "redacted_text = ''<redacted>''"

fun redact_json_values :: "json \<Rightarrow> json" where
  "redact_json_values (JObj kvs) =
     JObj (map (\<lambda>kv. (fst kv, if sensitive_key (fst kv) then JStr redacted_text else redact_json_values (snd kv))) kvs)"
| "redact_json_values (JList xs) = JList (map redact_json_values xs)"
| "redact_json_values j = j"

record json_lib =
  raw_decode :: "string \<Rightarrow> (json \<times> nat) option"
  dumps :: "json \<Rightarrow> string option"

fun is_container :: "json \<Rightarrow> bool" where
  "is_container (JObj _) = True"
| "is_container (JList _) = True"
| "is_container _ = False"

text \<open>The rewritten form of the JSON value that starts a text, with the length it replaces.\<close>

definition redacted_at :: "json_lib \<Rightarrow> string \<Rightarrow> (string \<times> nat) option" where
  "redacted_at jl s =
     (if s \<noteq> [] \<and> hd s \<in> {CHR ''{'', CHR ''[''}
      then (case raw_decode jl s of None \<Rightarrow> None
        | Some (j, n) \<Rightarrow>
            if is_container j \<and> n > 0 then map_option (\<lambda>t. (t, n)) (dumps jl (redact_json_values j)) else None)
      else None)"

function redact_json_fragments :: "json_lib \<Rightarrow> string \<Rightarrow> string" where
  "redact_json_fragments jl s =
     (if s = [] then []
      else case redacted_at jl s of
        Some (t, n) \<Rightarrow> t @ redact_json_fragments jl (drop n s)
      | None \<Rightarrow> hd s # redact_json_fragments jl (tl s))"
  by pat_completeness auto
termination
  by (relation "measure (\<lambda>(jl, s). length s)") (auto simp: redacted_at_def split: if_splits option.splits)

declare redact_json_fragments.simps [simp del]

section \<open>The regular expressions\<close>

text \<open>
  The first alternative of the control-character expression already matches the escape character,
  so its alternatives for whole escape sequences are never tried: every match is one character.
\<close>

definition is_control :: "char \<Rightarrow> bool" where
  "is_control c = (let n = of_char c :: nat in n < 32 \<or> n = 127)"

definition strip_controls :: "string \<Rightarrow> string" where
  "strip_controls s = filter (\<lambda>c. \<not> is_control c) s"

definition quote_char :: char where
  "quote_char = CHR 0x22"

definition skip_spaces :: "string \<Rightarrow> string" where
  "skip_spaces s = dropWhile is_space s"

text \<open>\<open>after_lit p s\<close> and \<open>after_lit_ci p s\<close> are what follows the literal \<open>p\<close>, in its own or in any case.\<close>

definition after_lit :: "string \<Rightarrow> string \<Rightarrow> string option" where
  "after_lit p s = (if starts_with s p then Some (drop (length p) s) else None)"

definition after_lit_ci :: "string \<Rightarrow> string \<Rightarrow> string option" where
  "after_lit_ci p s = (if lower (take (length p) s) = p then Some (drop (length p) s) else None)"

definition after_key :: "string \<Rightarrow> string \<Rightarrow> string option" where
  "after_key k s =
     Option.bind (after_lit [quote_char] s) (\<lambda>s. Option.bind (after_lit_ci k s)
       (\<lambda>s. Option.bind (after_lit [quote_char] s) (\<lambda>s. Option.bind (after_lit '':'' (skip_spaces s))
         (\<lambda>s. after_lit [quote_char] (skip_spaces s)))))"

fun first_some :: "'a option list \<Rightarrow> 'a option" where
  "first_some [] = None"
| "first_some (None # xs) = first_some xs"
| "first_some (Some x # xs) = Some x"

definition ends_value :: "char \<Rightarrow> bool" where
  "ends_value c = (c \<in> {CHR '','', CHR ''}'', CHR '']'', CHR 0x0A})"

definition marker_length :: "char option \<Rightarrow> string \<Rightarrow> nat" where
  "marker_length prev s = (case first_some (map (\<lambda>k. after_key k s) SENSITIVE_JSON_KEYS) of
     None \<Rightarrow> 0
   | Some rest \<Rightarrow> length s - length (dropWhile (\<lambda>c. \<not> ends_value c) rest))"

definition SENSITIVE_ROOTS :: "string list" where
  "SENSITIVE_ROOTS = [''/etc/'', ''/proc/'', ''/sys/'', ''/root/'', ''~/.ssh/'']"

definition rest_of_line :: "string \<Rightarrow> string" where
  "rest_of_line s = dropWhile (\<lambda>c. c \<noteq> CHR 0x0A) s"

definition after_bearer :: "string \<Rightarrow> string option" where
  "after_bearer s =
     Option.bind (after_lit_ci ''authorization'' s) (\<lambda>s. Option.bind (after_lit '':'' (skip_spaces s))
       (\<lambda>s. after_lit_ci ''bearer'' (skip_spaces s)))"

definition is_upper_or_blank :: "char \<Rightarrow> bool" where
  "is_upper_or_blank c = (let n = of_char c :: nat in n = 32 \<or> (65 \<le> n \<and> n \<le> 90))"

text \<open>\<^verbatim>\<open>PRIVATE\s+KEY-----\<close> at the start of a text.\<close>

definition names_private_key :: "string \<Rightarrow> bool" where
  "names_private_key s = (case after_lit ''PRIVATE'' s of None \<Rightarrow> False
     | Some r \<Rightarrow> run_length is_space r > 0 \<and> starts_with (skip_spaces r) ''KEY-----'')"

definition is_private_key :: "string \<Rightarrow> bool" where
  "is_private_key s = (case after_lit ''-----BEGIN'' s of None \<Rightarrow> False
     | Some r \<Rightarrow> list_ex (\<lambda>i. list_ex (\<lambda>j. names_private_key (drop (i + j) r))
           [0..<Suc (run_length is_upper_or_blank (drop i r))])
         [1..<Suc (run_length is_space r)])"

definition path_token_length :: "char option \<Rightarrow> string \<Rightarrow> nat" where
  "path_token_length prev s =
     (case first_some (map (\<lambda>p. after_lit p s) SENSITIVE_ROOTS) of
        Some rest \<Rightarrow> length s - length (dropWhile (\<lambda>c. \<not> is_space c \<and> c \<noteq> CHR 0x1B) rest)
      | None \<Rightarrow> if after_bearer s \<noteq> None \<or> is_private_key s then length s - length (rest_of_line s) else 0)"

text \<open>The first \<open>n\<close> code points of UTF-8 text.\<close>

definition is_continuation :: "char \<Rightarrow> bool" where
  "is_continuation c = (let n = of_char c :: nat in 128 \<le> n \<and> n < 192)"

definition point_count :: "string \<Rightarrow> nat" where
  "point_count s = length (filter (\<lambda>c. \<not> is_continuation c) s)"

fun take_points :: "nat \<Rightarrow> string \<Rightarrow> string" where
  "take_points n [] = []"
| "take_points n (c # cs) =
     (if is_continuation c then c # take_points n cs
      else case n of 0 \<Rightarrow> [] | Suc m \<Rightarrow> c # take_points m cs)"

definition sanitize_subagent_description :: "json_lib \<Rightarrow> string \<Rightarrow> string" where
  "sanitize_subagent_description jl line =
     (if line = [] then []
      else let s = strip_controls line;
               s = redact_json_fragments jl s;
               s = sub_all marker_length redacted_text None s;
               s = sub_all path_token_length redacted_text None s;
               s = strip s
           in if point_count s > 200 then take_points 200 s else s)"

section \<open>What redaction guarantees\<close>

text \<open>A decoded value exposes a payload when an object keeps something else under a sensitive key.\<close>

fun exposes :: "json \<Rightarrow> bool" where
  "exposes (JObj kvs) \<longleftrightarrow> (\<exists>kv\<in>set kvs. (sensitive_key (fst kv) \<and> snd kv \<noteq> JStr redacted_text) \<or> exposes (snd kv))"
| "exposes (JList xs) \<longleftrightarrow> (\<exists>x\<in>set xs. exposes x)"
| "exposes _ \<longleftrightarrow> False"

lemma redact_not_exposes: "\<not> exposes (redact_json_values j)"
  by (induction j rule: redact_json_values.induct) auto

lemma redact_idem: "redact_json_values (redact_json_values j) = redact_json_values j"
  by (induction j rule: redact_json_values.induct) auto

lemma map_same_iff: "map f xs = xs \<longleftrightarrow> (\<forall>x\<in>set xs. f x = x)"
  by (induction xs) auto

lemma redact_id_iff: "redact_json_values j = j \<longleftrightarrow> \<not> exposes j"
proof (induction j rule: redact_json_values.induct)
  case (1 kvs)
  have "redact_json_values (JObj kvs) = JObj kvs \<longleftrightarrow>
      (\<forall>kv\<in>set kvs. (fst kv, if sensitive_key (fst kv) then JStr redacted_text else redact_json_values (snd kv)) = kv)"
    by (simp add: map_same_iff)
  also have "\<dots> \<longleftrightarrow> (\<forall>kv\<in>set kvs. \<not> ((sensitive_key (fst kv) \<and> snd kv \<noteq> JStr redacted_text) \<or> exposes (snd kv)))"
    using 1 by (intro ball_cong) (auto simp: prod_eq_iff)
  finally show ?case by simp
qed (auto simp: map_same_iff)

lemma point_count_simps [simp]:
  "point_count [] = 0" "point_count (c # s) = (if is_continuation c then 0 else 1) + point_count s"
  by (simp_all add: point_count_def)

lemma point_count_take: "point_count (take_points n s) \<le> n"
  by (induction n s rule: take_points.induct) (auto split: nat.splits)

lemma take_points_prefix: "\<exists>t. s = take_points n s @ t"
  by (induction n s rule: take_points.induct) (auto split: nat.splits)

lemma take_points_set: "set (take_points n s) \<subseteq> set s"
  using take_points_prefix [of s n] by (metis set_append Un_upper1)

lemma sub_all_set: "set (sub_all m r prev s) \<subseteq> set r \<union> set s"
proof (induction m r prev s rule: sub_all.induct)
  case (1 m r prev s)
  consider "s = []" | "s \<noteq> []" "m prev s > 0" | x xs where "s = x # xs" "m prev s = 0"
    by (cases s) auto
  then show ?case
  proof cases
    case 2
    with 1(1) have "set (sub_all m r (Some (last (take (m prev s) s))) (drop (m prev s) s)) \<subseteq> set r \<union> set s"
      using set_drop_subset [of "m prev s" s] by auto
    then show ?thesis using 2 by (subst sub_all.simps) simp
  next
    case 3
    then show ?thesis using 1(2) by (subst sub_all.simps) auto
  qed (simp add: sub_all.simps)
qed

lemma strip_set: "set (strip s) \<subseteq> set s"
  by (auto simp: strip_def dest!: set_dropWhileD)

text \<open>A C0 control character; the expression of the source also names the delete character.\<close>

definition is_c0 :: "char \<Rightarrow> bool" where
  "is_c0 c = ((of_char c :: nat) < 32)"

lemma fragments_plain:
  assumes "\<forall>j t. dumps jl j = Some t \<longrightarrow> (\<forall>c\<in>set t. \<not> is_c0 c)"
  shows "\<forall>c\<in>set s. \<not> is_c0 c \<Longrightarrow> \<forall>c\<in>set (redact_json_fragments jl s). \<not> is_c0 c"
  using assms
proof (induction jl s rule: redact_json_fragments.induct)
  case (1 jl s)
  consider "s = []" | t n where "s \<noteq> []" "redacted_at jl s = Some (t, n)"
    | x xs where "s = x # xs" "redacted_at jl s = None"
    by (cases s; cases "redacted_at jl s") auto
  then show ?case
  proof cases
    case 2
    have "\<forall>c\<in>set (drop n s). \<not> is_c0 c" using 1(3) set_drop_subset [of n s] by blast
    with 1(2) [OF 2(1) 2(2) refl] 1(4) have rest: "\<forall>c\<in>set (redact_json_fragments jl (drop n s)). \<not> is_c0 c" by blast
    have "\<exists>j. dumps jl j = Some t" using 2(2) by (auto simp: redacted_at_def split: if_splits option.splits)
    then have "\<forall>c\<in>set t. \<not> is_c0 c" using 1(4) by blast
    then show ?thesis using 2 rest by (subst redact_json_fragments.simps) auto
  next
    case 3
    then show ?thesis using 1(1) 1(3,4) by (subst redact_json_fragments.simps) auto
  qed (simp add: redact_json_fragments.simps)
qed

lemma sanitize_parts:
  assumes "c \<in> set (sanitize_subagent_description jl line)"
  shows "c \<in> set redacted_text \<or> c \<in> set (redact_json_fragments jl (strip_controls line))"
proof -
  let ?f = "redact_json_fragments jl (strip_controls line)"
  let ?m = "sub_all marker_length redacted_text None ?f"
  let ?p = "sub_all path_token_length redacted_text None ?m"
  have "c \<in> set (strip ?p)"
    using assms take_points_set [of 200 "strip ?p"] by (auto simp: sanitize_subagent_description_def Let_def split: if_splits)
  then have "c \<in> set ?p" using strip_set by blast
  then have "c \<in> set redacted_text \<or> c \<in> set ?m" using sub_all_set by blast
  then show ?thesis using sub_all_set by blast
qed

text \<open>
  C29: What an operator is shown of a subagent has at most two hundred characters and, as long as the
  encoder escapes control characters, no C0 control character.  Inside decoded JSON nothing but the
  redaction mark is left under a sensitive key in any case, and a value that has no such key is
  not changed.
\<close>

theorem sanitized_text_is_safe:
  assumes "\<forall>j t. dumps jl j = Some t \<longrightarrow> (\<forall>c\<in>set t. \<not> is_c0 c)"
  shows "point_count (sanitize_subagent_description jl line) \<le> 200
    \<and> (\<forall>c\<in>set (sanitize_subagent_description jl line). \<not> is_c0 c)
    \<and> \<not> exposes (redact_json_values j)
    \<and> (redact_json_values j = j \<longleftrightarrow> \<not> exposes j)"
proof -
  have "\<forall>c\<in>set (strip_controls line). \<not> is_c0 c" by (auto simp: strip_controls_def is_control_def is_c0_def Let_def)
  from fragments_plain [OF assms this] have "\<forall>c\<in>set (redact_json_fragments jl (strip_controls line)). \<not> is_c0 c" .
  moreover have "\<forall>c\<in>set redacted_text. \<not> is_c0 c" by (simp add: redacted_text_def is_c0_def)
  ultimately have "\<forall>c\<in>set (sanitize_subagent_description jl line). \<not> is_c0 c" using sanitize_parts by blast
  moreover have "point_count (sanitize_subagent_description jl line) \<le> 200"
    using point_count_take [of 200] by (auto simp: sanitize_subagent_description_def Let_def)
  ultimately show ?thesis using redact_not_exposes redact_id_iff by blast
qed

text \<open>A decoder that knows one object and an encoder for it.\<close>

definition one_object :: json_lib where
  "one_object =
     \<lparr>raw_decode = (\<lambda>s. if starts_with s ''{k}'' then Some (JObj [(''Prompt'', JStr ''secret'')], 3) else None),
      dumps = (\<lambda>j. if j = JObj [(''Prompt'', JStr redacted_text)] then Some ''{Prompt: <redacted>}'' else None)\<rparr>"

lemma one_object_plain: "\<forall>j t. dumps one_object j = Some t \<longrightarrow> (\<forall>c\<in>set t. \<not> is_c0 c)"
  by (auto simp: one_object_def is_c0_def split: if_splits)

lemma sanitized_text_is_safe_witness:
  "point_count (sanitize_subagent_description one_object ''echo {k} /etc/passwd'') \<le> 200
   \<and> \<not> exposes (redact_json_values (JList [JObj [(''ARGS'', JInt 1)]]))"
  using sanitized_text_is_safe [OF one_object_plain] by blast

lemma sanitize_example:
  "sanitize_subagent_description one_object ''echo {k} /etc/passwd'' = ''echo {Prompt: <redacted>} <redacted>''"
  by code_simp

text \<open>An escape sequence loses only its first character.\<close>

lemma escape_sequence_survives:
  "sanitize_subagent_description one_object (CHR 0x1B # ''[31mred'') = ''[31mred''"
  by code_simp

text \<open>
  The delete character is removed before the text is decoded, so an escaped one comes back with
  the decoded value: the encoder of the source does not escape it.
\<close>

definition escaped_delete :: string where
  "escaped_delete = [CHR ''['', CHR 0x22, CHR 0x5C] @ ''u007f'' @ [CHR 0x22, CHR '']'']"

definition raw_delete :: string where
  "raw_delete = [CHR ''['', CHR 0x22, CHR 0x7F, CHR 0x22, CHR '']'']"

lemma escaped_delete_survives:
  assumes "raw_decode jl escaped_delete = Some (JList [JStr [CHR 0x7F]], 10)"
    "dumps jl (JList [JStr [CHR 0x7F]]) = Some raw_delete"
  shows "sanitize_subagent_description jl escaped_delete = raw_delete"
proof -
  have "strip_controls escaped_delete = escaped_delete" by code_simp
  moreover have "redact_json_fragments jl escaped_delete = raw_delete"
  proof -
    have "redacted_at jl escaped_delete = Some (raw_delete, 10)"
      using assms by (simp add: redacted_at_def escaped_delete_def)
    then show ?thesis by (subst redact_json_fragments.simps) (simp add: escaped_delete_def redact_json_fragments.simps)
  qed
  moreover have "sub_all marker_length redacted_text None raw_delete = raw_delete" by code_simp
  moreover have "sub_all path_token_length redacted_text None raw_delete = raw_delete" by code_simp
  moreover have "strip raw_delete = raw_delete" "point_count raw_delete = 5" by code_simp+
  moreover have "escaped_delete \<noteq> []" by (simp add: escaped_delete_def)
  ultimately show ?thesis by (simp add: sanitize_subagent_description_def)
qed

end
