(* ===== verification/Idle_Watchdog.thy ===== *)
theory Idle_Watchdog
  imports Timeout_Policy Watchdog_Text
begin

text \<open>
  The state of the in-stream watchdog and what it is told:
  \<^verbatim>\<open>ralph/agents/idle_watchdog/idle_watchdog.py\<close> with \<^verbatim>\<open>_activity_methods.py\<close> (recording activity),
  \<^verbatim>\<open>_evidence_tier.py\<close> (evidence per channel), \<^verbatim>\<open>_stuck_classifier.py\<close> and \<^verbatim>\<open>_gate.py\<close> (whether a
  fire is allowed).  The verdict of a tick is in \<open>Watchdog_Verdict\<close>.

  \<^item> The object is the record \<open>idle_watchdog\<close>; the evidence fields are its sub-record \<open>channels\<close>.
    Log lines are dropped, but the throttle maps that pace them are kept.
  \<^item> What the injected clock, process monitor, corroborator and connectivity provider answer during one
    call is a \<open>tick\<close>; every read of the clock and of the monitor within a call sees the same value.
    The corroborator is asked at most once per tick, since the source caches its answer.
  \<^item> Emitted status events are appended to the list of the listener that gets them; their
    diagnostic dictionaries are not kept.  An exception of a listener has no effect.
\<close>

section \<open>Enumerations and records\<close>

datatype agent_execution_state = Active_state | Waiting_on_child | Resumable_continue | Terminal_complete

datatype watchdog_verdict = V_continue | V_waiting_on_child | V_fire

datatype fire_reason =
    No_output_deadline | Conflict_inactivity | Operator_cap_reached | No_output_at_start
  | Stalled_after_tool_result | Repeated_error_loop | Repeated_identical_tool_call
  | Children_persist_too_long | No_progress_quiet | Strictly_stuck | Session_ceiling_exceeded
  | Process_exit_hang | Descendant_hang | Deferred_by_stuck_classifier

datatype stuck_kind =
    Thinking | Loading | Waiting_on_connectivity | Transitioning | Stuck | Duplicate_kill | Silent_subagent

datatype waiting_status_kind =
    Entered | Progress_status | Suspected_frozen | Exited | Hard_stop | Subagent_progress | Stalled | Stall_resumed

datatype evidence_tier = First_party | Side_channel

datatype channel_name = Stdout_ch | Mcp_tool_ch | Subagent_output_ch | Subagent_liveness_ch | Workspace_ch

record channel_evidence =
  ce_channel :: channel_name
  ce_tier :: evidence_tier
  ce_last_at :: "real option"
  ce_age_seconds :: "real option"
  ce_counter :: "int option"
  ce_kind_breakdown :: "int dict option"
  ce_alive_by :: "alive_by option"
  ce_can_defer :: bool

record corroboration_snapshot =
  cs_workspace_event_count :: "int option"
  cs_oldest_child_seconds :: "real option"
  cs_scoped_child_active :: "bool option"
  cs_scoped_child_count :: "int option"
  cs_terminal_child_events_total :: "int option"
  cs_last_activity_was_meaningful :: "bool option"
  cs_alive_by :: "alive_by option"
  cs_mcp_tool_call_count :: "int option"
  cs_subagent_progress_count :: "int option"
  cs_last_mcp_tool_call_at :: "real option"
  cs_last_subagent_progress_at :: "real option"
  cs_last_workspace_event_at :: "real option"
  cs_current_run_idle_elapsed_seconds :: "real option"

definition empty_snapshot :: corroboration_snapshot where
  "empty_snapshot =
     \<lparr>cs_workspace_event_count = None, cs_oldest_child_seconds = None, cs_scoped_child_active = None,
      cs_scoped_child_count = None, cs_terminal_child_events_total = None,
      cs_last_activity_was_meaningful = None, cs_alive_by = None, cs_mcp_tool_call_count = None,
      cs_subagent_progress_count = None, cs_last_mcp_tool_call_at = None, cs_last_subagent_progress_at = None,
      cs_last_workspace_event_at = None, cs_current_run_idle_elapsed_seconds = None\<rparr>"

record waiting_status_event =
  se_kind :: waiting_status_kind
  se_cumulative_seconds :: real
  se_current_run_seconds :: real
  se_idle_elapsed_seconds :: real
  se_ceiling_seconds :: real
  se_suspect_threshold_seconds :: "real option"
  se_subagent_activity :: "string option"
  se_last_subagent_progress_at :: "real option"
  se_current_subagent_tool_call :: "string option"
  se_stall_active :: bool

text \<open>
  The evidence fields.  A capture object is named by a number; the tombstones of evicted workers
  are kept in insertion order.
\<close>

record channels =
  mcp_tool_call_count :: int
  last_mcp_tool_call_at :: "real option"
  subagent_progress_count :: int
  last_subagent_progress_at :: "real option"
  last_subagent_progress_description :: "string option"
  last_subagent_progress_emit_at :: "real option"
  subagent_output_count :: int
  last_subagent_output_at :: "real option"
  workspace_event_count :: int
  last_workspace_event_at :: "real option"
  last_workspace_event_weight :: real
  workspace_kind_counts :: "int dict"
  subagent_output_captures :: "nat dict"
  evicted_worker_tombstones :: "string list"

definition no_evidence :: channels where
  "no_evidence =
     \<lparr>mcp_tool_call_count = 0, last_mcp_tool_call_at = None, subagent_progress_count = 0,
      last_subagent_progress_at = None, last_subagent_progress_description = None,
      last_subagent_progress_emit_at = None, subagent_output_count = 0, last_subagent_output_at = None,
      workspace_event_count = 0, last_workspace_event_at = None, last_workspace_event_weight = 0,
      workspace_kind_counts = [], subagent_output_captures = [], evicted_worker_tombstones = []\<rparr>"

record idle_watchdog =
  wd_config :: timeout_policy
  wd_listener :: bool
  wd_default_listener :: bool
  wd_last_activity :: real
  wd_session_started_at :: real
  wd_last_meaningful_output_at :: "real option"
  wd_has_meaningful_output :: bool
  wd_any_output_count :: int
  wd_observed_output_bytes :: int
  wd_captured_session_id :: "string option"
  wd_process_alive :: bool
  wd_process_exit_observed_at :: "real option"
  wd_invocation_started_at :: "real option"
  wd_waiting_started_at :: "real option"
  wd_cumulative_waiting :: real
  wd_strictly_stuck_since :: "real option"
  wd_in_drain_window :: bool
  wd_drain_started_at :: "real option"
  wd_last_fire_reason :: "fire_reason option"
  wd_last_activity_only_status_at :: "real option"
  wd_last_deferred_kind :: "stuck_kind option"
  wd_deferred_log_at :: "(fire_reason \<times> stuck_kind, real) pydict"
  wd_any_deferred_log_at :: "(fire_reason, real) pydict"
  wd_evidence_log_at :: "real dict"
  wd_last_alive_by :: "alive_by option"
  wd_last_waiting_status_at :: "real option"
  wd_suspicion_announced :: bool
  wd_last_tool_result_at :: "real option"
  wd_awaiting_progression :: bool
  wd_channels :: channels
  wd_entry_corroboration :: "corroboration_snapshot option"
  wd_tracker :: repetition_tracker
  wd_last_progress_fingerprint :: "string option"
  wd_is_waiting_state :: bool
  wd_stall_active :: bool
  wd_last_verdict :: "watchdog_verdict option"
  wd_events :: "waiting_status_event list"
  wd_subagent_events :: "waiting_status_event list"

definition new_idle_watchdog :: "timeout_policy \<Rightarrow> real \<Rightarrow> bool \<Rightarrow> idle_watchdog" where
  "new_idle_watchdog config now listener =
     \<lparr>wd_config = config, wd_listener = listener, wd_default_listener = False, wd_last_activity = now,
      wd_session_started_at = now, wd_last_meaningful_output_at = None, wd_has_meaningful_output = False,
      wd_any_output_count = 0, wd_observed_output_bytes = 0, wd_captured_session_id = None,
      wd_process_alive = True, wd_process_exit_observed_at = None, wd_invocation_started_at = None,
      wd_waiting_started_at = None, wd_cumulative_waiting = 0, wd_strictly_stuck_since = None,
      wd_in_drain_window = False, wd_drain_started_at = None, wd_last_fire_reason = None,
      wd_last_activity_only_status_at = None, wd_last_deferred_kind = None, wd_deferred_log_at = [],
      wd_any_deferred_log_at = [], wd_evidence_log_at = [], wd_last_alive_by = None,
      wd_last_waiting_status_at = None, wd_suspicion_announced = False, wd_last_tool_result_at = None,
      wd_awaiting_progression = False, wd_channels = no_evidence, wd_entry_corroboration = None,
      wd_tracker = new_repetition_tracker (repeated_error_consecutive_threshold config)
        (repeated_error_window_count config) (repeated_error_window_seconds config),
      wd_last_progress_fingerprint = None, wd_is_waiting_state = False, wd_stall_active = False,
      wd_last_verdict = None, wd_events = [], wd_subagent_events = []\<rparr>"

text \<open>
  What the surroundings answer during one call.  \<open>tk_live\<close> is \<open>None\<close> without a process monitor, and
  otherwise what \<^verbatim>\<open>live_subagent_count()\<close> answers to every question of the call: a number of live
  subagents, or the exception it raises, which no caller catches.  \<open>classify_quiet\<close> is asked at most
  once at each of five places; each has its own answer, which may be an exception.
\<close>

datatype corroborator_answer = No_corroborator | Corroborator_raises | Not_a_snapshot | Snapshot corroboration_snapshot

record tick =
  tk_now :: real
  tk_live :: "int res option"
  tk_discovered :: "nat dict res"
  tk_read_lines :: "nat \<Rightarrow> string \<Rightarrow> nat res"
  tk_corroborator :: corroborator_answer
  tk_connectivity :: "string option res option"
  quiet_at_entry :: "agent_execution_state res"
  quiet_at_start_check :: "agent_execution_state res"
  quiet_at_verdict :: "agent_execution_state res"
  quiet_in_drain :: "agent_execution_state res"
  quiet_while_waiting :: "agent_execution_state res"

definition call_corroborator_raw :: "tick \<Rightarrow> corroboration_snapshot" where
  "call_corroborator_raw k = (case tk_corroborator k of Snapshot s \<Rightarrow> s | _ \<Rightarrow> empty_snapshot)"

definition live_subagent_count :: "tick \<Rightarrow> int res" where
  "live_subagent_count k = (case tk_live k of None \<Rightarrow> Inr 0 | Some answer \<Rightarrow> answer)"

definition current_connectivity_state :: "tick \<Rightarrow> string option" where
  "current_connectivity_state k = (case tk_connectivity k of
     None \<Rightarrow> None | Some (Inl _) \<Rightarrow> None | Some (Inr s) \<Rightarrow> s)"

section \<open>Status events and the stall flag\<close>

definition emit :: "waiting_status_kind \<Rightarrow> real \<Rightarrow> real \<Rightarrow> real option \<Rightarrow> real option \<Rightarrow> idle_watchdog \<Rightarrow> idle_watchdog" where
  "emit kind current_run idle_elapsed ceil suspect w =
     (if \<not> wd_listener w \<and> \<not> wd_default_listener w then w
      else let ch = wd_channels w;
               ev = \<lparr>se_kind = kind, se_cumulative_seconds = wd_cumulative_waiting w + current_run,
                     se_current_run_seconds = current_run, se_idle_elapsed_seconds = idle_elapsed,
                     se_ceiling_seconds = (case ceil of None \<Rightarrow> max_waiting_on_child_seconds (wd_config w) | Some c \<Rightarrow> c),
                     se_suspect_threshold_seconds =
                       (if suspect \<noteq> None then suspect else suspect_waiting_on_child_seconds (wd_config w)),
                     se_subagent_activity = last_subagent_progress_description ch,
                     se_last_subagent_progress_at = last_subagent_progress_at ch,
                     se_current_subagent_tool_call =
                       parse_tool_call_from_description (last_subagent_progress_description ch),
                     se_stall_active = wd_stall_active w\<rparr>;
               w = (if wd_listener w then w\<lparr>wd_events := wd_events w @ [ev]\<rparr> else w)
           in if se_subagent_activity ev \<noteq> None \<and> wd_default_listener w
              then w\<lparr>wd_subagent_events := wd_subagent_events w @ [ev]\<rparr> else w)"

definition set_stall :: "bool \<Rightarrow> real \<Rightarrow> idle_watchdog \<Rightarrow> idle_watchdog" where
  "set_stall active idle_elapsed w =
     (if active = wd_stall_active w then w
      else emit (if active then Stalled else Stall_resumed) 0 idle_elapsed None None (w\<lparr>wd_stall_active := active\<rparr>))"

definition accumulate_waiting_run :: "real \<Rightarrow> idle_watchdog \<Rightarrow> idle_watchdog" where
  "accumulate_waiting_run now w = (case wd_waiting_started_at w of None \<Rightarrow> w
     | Some started \<Rightarrow>
         (let run = max 0 (now - started);
              idle = now - wd_last_activity w;
              w = emit Exited run idle None None (w\<lparr>wd_cumulative_waiting := wd_cumulative_waiting w + run\<rparr>)
          in set_stall False idle
               (w\<lparr>wd_waiting_started_at := None, wd_last_waiting_status_at := None,
                  wd_suspicion_announced := False, wd_entry_corroboration := None\<rparr>)))"

definition reset_idle_baseline :: "real \<Rightarrow> idle_watchdog \<Rightarrow> idle_watchdog" where
  "reset_idle_baseline now w =
     (let w = accumulate_waiting_run now w
      in set_stall False 0
           (w\<lparr>wd_last_activity := now, wd_in_drain_window := False, wd_drain_started_at := None,
              wd_awaiting_progression := False\<rparr>))"

section \<open>Recording\<close>

definition invocation_elapsed_seconds :: "real \<Rightarrow> idle_watchdog \<Rightarrow> real" where
  "invocation_elapsed_seconds now w = (case wd_invocation_started_at w of None \<Rightarrow> 0 | Some t \<Rightarrow> now - t)"

definition record_invocation_start :: "real \<Rightarrow> idle_watchdog \<Rightarrow> idle_watchdog" where
  "record_invocation_start now w =
     set_stall False 0
       (w\<lparr>wd_last_activity := now, wd_invocation_started_at := Some now, wd_last_meaningful_output_at := Some now,
          wd_has_meaningful_output := False, wd_any_output_count := 0, wd_observed_output_bytes := 0,
          wd_captured_session_id := None, wd_process_alive := True, wd_process_exit_observed_at := None,
          wd_waiting_started_at := None, wd_cumulative_waiting := 0, wd_in_drain_window := False,
          wd_drain_started_at := None, wd_last_fire_reason := None, wd_last_deferred_kind := None,
          wd_last_alive_by := None, wd_default_listener := False, wd_deferred_log_at := [],
          wd_any_deferred_log_at := [], wd_evidence_log_at := [], wd_last_waiting_status_at := None,
          wd_suspicion_announced := False, wd_last_tool_result_at := None, wd_awaiting_progression := False,
          wd_channels := no_evidence, wd_entry_corroboration := None, wd_last_progress_fingerprint := None\<rparr>)"

definition record_invocation_end :: "real \<Rightarrow> idle_watchdog \<Rightarrow> idle_watchdog" where
  "record_invocation_end now w = set_stall False (max 0 (now - wd_last_activity w)) w"

definition record_activity :: "real \<Rightarrow> idle_watchdog \<Rightarrow> idle_watchdog" where
  "record_activity now w =
     (let w = reset_idle_baseline now w
      in w\<lparr>wd_tracker := note_progress (wd_tracker w), wd_last_meaningful_output_at := Some now,
           wd_has_meaningful_output := True\<rparr>)"

definition record_any_output :: "int \<Rightarrow> idle_watchdog \<Rightarrow> idle_watchdog" where
  "record_any_output byte_size w =
     w\<lparr>wd_any_output_count := wd_any_output_count w + 1,
       wd_observed_output_bytes := wd_observed_output_bytes w + max 0 byte_size\<rparr>"

definition record_lifecycle_activity :: "real \<Rightarrow> idle_watchdog \<Rightarrow> idle_watchdog" where
  "record_lifecycle_activity now w = reset_idle_baseline now (record_any_output 0 w)"

definition record_tool_use_activity :: "real \<Rightarrow> idle_watchdog \<Rightarrow> idle_watchdog" where
  "record_tool_use_activity now w =
     (reset_idle_baseline now w)\<lparr>wd_last_meaningful_output_at := Some now, wd_has_meaningful_output := True\<rparr>"

definition record_tool_call_activity :: "real \<Rightarrow> string option \<Rightarrow> string \<Rightarrow> idle_watchdog \<Rightarrow> idle_watchdog" where
  "record_tool_call_activity now name args_blob w =
     (let w = accumulate_waiting_run now w in w\<lparr>wd_tracker := mark_tool_call now name args_blob (wd_tracker w)\<rparr>)"

definition record_error_activity :: "real \<Rightarrow> string \<Rightarrow> idle_watchdog \<Rightarrow> idle_watchdog" where
  "record_error_activity now message w =
     (let w = accumulate_waiting_run now w in w\<lparr>wd_tracker := note_error now message (wd_tracker w)\<rparr>)"

definition record_progress_report :: "real \<Rightarrow> string \<Rightarrow> idle_watchdog \<Rightarrow> idle_watchdog" where
  "record_progress_report now message w =
     (if wd_last_progress_fingerprint w = Some (fingerprint message) then record_error_activity now message w
      else record_activity now (w\<lparr>wd_last_progress_fingerprint := Some (fingerprint message)\<rparr>))"

definition record_tool_result_activity :: "real \<Rightarrow> bool \<Rightarrow> idle_watchdog \<Rightarrow> idle_watchdog" where
  "record_tool_result_activity now is_harness_echo w =
     (let w = accumulate_waiting_run now w;
          w = (if is_harness_echo then w
               else (reset_idle_baseline now w)\<lparr>wd_last_meaningful_output_at := Some now, wd_has_meaningful_output := True\<rparr>)
      in w\<lparr>wd_last_tool_result_at := Some now, wd_awaiting_progression := True\<rparr>)"

definition record_process_liveness :: "real \<Rightarrow> bool \<Rightarrow> bool \<Rightarrow> idle_watchdog \<Rightarrow> idle_watchdog" where
  "record_process_liveness now is_alive obs w =
     (let w = w\<lparr>wd_process_alive := is_alive\<rparr>
      in if \<not> obs then w
         else if is_alive then w\<lparr>wd_process_exit_observed_at := None\<rparr>
         else if wd_process_exit_observed_at w = None then w\<lparr>wd_process_exit_observed_at := Some now\<rparr>
         else w)"

definition seconds_since_process_exit :: "real \<Rightarrow> idle_watchdog \<Rightarrow> real option" where
  "seconds_since_process_exit now w = map_option (\<lambda>t. now - t) (wd_process_exit_observed_at w)"

definition is_structurally_small_output :: "int \<Rightarrow> int \<Rightarrow> bool" where
  "is_structurally_small_output nonblank_line_count total_bytes =
     (if nonblank_line_count > 2 then False else total_bytes \<le> 256)"

definition observed_output_is_structurally_small :: "idle_watchdog \<Rightarrow> bool" where
  "observed_output_is_structurally_small w =
     is_structurally_small_output (wd_any_output_count w) (wd_observed_output_bytes w)"

definition on_channels :: "(channels \<Rightarrow> channels) \<Rightarrow> idle_watchdog \<Rightarrow> idle_watchdog" where
  "on_channels f w = w\<lparr>wd_channels := f (wd_channels w)\<rparr>"

definition record_mcp_tool_call :: "real \<Rightarrow> idle_watchdog \<Rightarrow> idle_watchdog" where
  "record_mcp_tool_call now =
     on_channels (\<lambda>ch. ch\<lparr>mcp_tool_call_count := mcp_tool_call_count ch + 1, last_mcp_tool_call_at := Some now\<rparr>)"

definition record_subagent_work :: "json_lib \<Rightarrow> real \<Rightarrow> string option \<Rightarrow> idle_watchdog \<Rightarrow> idle_watchdog" where
  "record_subagent_work jl now description =
     on_channels (\<lambda>ch.
       (let ch = ch\<lparr>subagent_progress_count := subagent_progress_count ch + 1, last_subagent_progress_at := Some now\<rparr>
        in case description of None \<Rightarrow> ch
           | Some d \<Rightarrow> ch\<lparr>last_subagent_progress_description := Some (sanitize_subagent_description jl d)\<rparr>))"

definition record_subagent_output :: "int \<Rightarrow> real \<Rightarrow> idle_watchdog \<Rightarrow> idle_watchdog" where
  "record_subagent_output line_count now =
     on_channels (\<lambda>ch. ch\<lparr>subagent_output_count := subagent_output_count ch + line_count, last_subagent_output_at := Some now\<rparr>)"

text \<open>A kind given as a string must be one of the enumeration; \<open>None\<close> is \<^verbatim>\<open>other\<close>.\<close>

definition record_workspace_event :: "real \<Rightarrow> string option \<Rightarrow> real \<Rightarrow> idle_watchdog \<Rightarrow> idle_watchdog res" where
  "record_workspace_event now kind weight w =
     (let k = (case kind of None \<Rightarrow> ''other'' | Some k \<Rightarrow> k)
      in if k \<notin> set WORKSPACE_CHANGE_KINDS then Inl (ValueError (quoted k @ '' is not a valid WorkspaceChangeKind''))
         else if weight = 0 then Inr w
         else Inr (on_channels (\<lambda>ch. ch\<lparr>workspace_event_count := workspace_event_count ch + 1,
                last_workspace_event_at := Some now, last_workspace_event_weight := weight,
                workspace_kind_counts := dset k (dget_or (workspace_kind_counts ch) k 0 + 1) (workspace_kind_counts ch)\<rparr>) w))"

section \<open>Polling the output of subagents\<close>

definition MAX_SUBAGENT_OUTPUT_CAPTURES :: nat where
  "MAX_SUBAGENT_OUTPUT_CAPTURES = 128"

definition MAX_EVICTED_TOMBSTONES :: nat where
  "MAX_EVICTED_TOMBSTONES = MAX_SUBAGENT_OUTPUT_CAPTURES"

text \<open>One worker of the discovery: its capture is created once and then read.\<close>

definition poll_worker :: "(nat \<Rightarrow> string \<Rightarrow> nat res) \<Rightarrow> string list \<Rightarrow> string \<times> nat \<Rightarrow> nat dict \<times> nat \<Rightarrow> nat dict \<times> nat" where
  "poll_worker read_lines tombs worker acc =
     (let (caps, total) = acc; (wid, fresh) = worker
      in if wid \<in> set tombs then acc
         else let caps = (if din wid caps then caps else dset wid fresh caps)
              in case read_lines (the (dget caps wid)) wid of
                   Inl _ \<Rightarrow> (caps, total) | Inr n \<Rightarrow> (caps, total + n))"

text \<open>Keys of an \<^verbatim>\<open>OrderedDict\<close>: assigning an existing key does not move it.\<close>

definition add_key :: "string list \<Rightarrow> string \<Rightarrow> string list" where
  "add_key ks k = (if k \<in> set ks then ks else ks @ [k])"

definition poll_channels :: "nat dict \<Rightarrow> (nat \<Rightarrow> string \<Rightarrow> nat res) \<Rightarrow> channels \<Rightarrow> channels \<times> nat" where
  "poll_channels discovered read_lines ch =
     (let live = dkeys discovered;
          tombs = filter (\<lambda>t. t \<in> set live) (evicted_worker_tombstones ch);
          (caps, total) = fold (poll_worker read_lines tombs) discovered (subagent_output_captures ch, 0);
          excess = length caps - MAX_SUBAGENT_OUTPUT_CAPTURES;
          tombs = foldl add_key tombs (map fst (take excess caps));
          tombs = slice_last tombs MAX_EVICTED_TOMBSTONES;
          caps = filter (\<lambda>kv. fst kv \<in> set live) (drop excess caps)
      in (ch\<lparr>subagent_output_captures := caps, evicted_worker_tombstones := tombs\<rparr>, total))"

definition poll_subagent_output :: "tick \<Rightarrow> idle_watchdog \<Rightarrow> idle_watchdog" where
  "poll_subagent_output k w =
     (if tk_live k = None then w
      else case tk_discovered k of Inl _ \<Rightarrow> w
        | Inr discovered \<Rightarrow>
            (let (ch, total) = poll_channels discovered (tk_read_lines k) (wd_channels w);
                 w = w\<lparr>wd_channels := ch\<rparr>
             in if total > 0 then record_subagent_output (int total) (tk_now k) w else w))"

section \<open>Evidence\<close>

definition CHANNEL_TIERS :: "channel_name \<Rightarrow> evidence_tier" where
  "CHANNEL_TIERS c = (case c of Stdout_ch \<Rightarrow> First_party | Mcp_tool_ch \<Rightarrow> First_party
     | Subagent_output_ch \<Rightarrow> First_party | Subagent_liveness_ch \<Rightarrow> Side_channel | Workspace_ch \<Rightarrow> Side_channel)"

definition CHANNEL_DEFERS_BY_DEFAULT :: "channel_name \<Rightarrow> bool" where
  "CHANNEL_DEFERS_BY_DEFAULT c = (c \<in> {Mcp_tool_ch, Subagent_output_ch})"

definition is_fresh :: "real option \<Rightarrow> channel_evidence \<Rightarrow> bool" where
  "is_fresh ttl c = (case ttl of None \<Rightarrow> False
     | Some t \<Rightarrow> if t \<le> 0 then False else (case ce_age_seconds c of None \<Rightarrow> False | Some a \<Rightarrow> a < t))"

definition observed_counter :: "int option \<Rightarrow> int option" where
  "observed_counter n = (case n of None \<Rightarrow> None | Some c \<Rightarrow> if c > 0 then Some c else None)"

definition channel_summary ::
  "channel_name \<Rightarrow> real option \<Rightarrow> int option \<Rightarrow> real \<Rightarrow> int dict option \<Rightarrow> alive_by option \<Rightarrow> bool option \<Rightarrow> channel_evidence" where
  "channel_summary name last_at counter now breakdown ab can_defer =
     \<lparr>ce_channel = name, ce_tier = CHANNEL_TIERS name, ce_last_at = last_at,
      ce_age_seconds = map_option (\<lambda>t. max 0 (now - t)) last_at, ce_counter = observed_counter counter,
      ce_kind_breakdown = breakdown, ce_alive_by = ab,
      ce_can_defer = (case can_defer of Some b \<Rightarrow> b | None \<Rightarrow> CHANNEL_DEFERS_BY_DEFAULT name)\<rparr>"

definition latest :: "real option \<Rightarrow> real option \<Rightarrow> real option" where
  "latest a b = (case (a, b) of (Some x, Some y) \<Rightarrow> Some (max x y) | (Some x, None) \<Rightarrow> Some x | (None, y) \<Rightarrow> y)"

definition subagent_output_summary :: "real \<Rightarrow> channels \<Rightarrow> channel_evidence" where
  "subagent_output_summary now ch =
     channel_summary Subagent_output_ch (latest (last_subagent_progress_at ch) (last_subagent_output_at ch))
       (Some (subagent_progress_count ch + subagent_output_count ch)) now None None None"

definition workspace_summary :: "real \<Rightarrow> channels \<Rightarrow> channel_evidence" where
  "workspace_summary now ch =
     channel_summary Workspace_ch (last_workspace_event_at ch) (Some (workspace_event_count ch)) now
       (if workspace_kind_counts ch = [] then None else Some (workspace_kind_counts ch)) None
       (Some (last_workspace_event_weight ch > 0))"

definition subagent_liveness_summary :: "int \<Rightarrow> real \<Rightarrow> channels \<Rightarrow> channel_evidence" where
  "subagent_liveness_summary live now ch =
     (let last_at = (if live > 0 \<and> last_subagent_progress_at ch = None then Some now else last_subagent_progress_at ch);
          counter = (if live > 0 then max (subagent_progress_count ch) live else subagent_progress_count ch)
      in \<lparr>ce_channel = Subagent_liveness_ch, ce_tier = Side_channel, ce_last_at = last_at,
          ce_age_seconds = map_option (\<lambda>t. max 0 (now - t)) last_at,
          ce_counter = observed_counter (Some counter), ce_kind_breakdown = None,
          ce_alive_by = (if live > 0 then Some Os_descendant_only_stale_progress else None),
          ce_can_defer = (live > 0)\<rparr>)"

text \<open>The five channels for a number of live subagents, and the summary with the number the monitor answers.\<close>

definition evidence_channels :: "int \<Rightarrow> real \<Rightarrow> idle_watchdog \<Rightarrow> channel_evidence list" where
  "evidence_channels live now w =
     (let ch = wd_channels w
      in [channel_summary Stdout_ch (Some (wd_last_activity w)) None now None None None,
          channel_summary Mcp_tool_ch (last_mcp_tool_call_at ch) (Some (mcp_tool_call_count ch)) now None None None,
          subagent_output_summary now ch, subagent_liveness_summary live now ch, workspace_summary now ch])"

definition last_evidence_summary :: "tick \<Rightarrow> idle_watchdog \<Rightarrow> channel_evidence list res" where
  "last_evidence_summary k w = (case live_subagent_count k of
     Inl e \<Rightarrow> Inl e | Inr live \<Rightarrow> Inr (evidence_channels live (tk_now k) w))"

text \<open>The freshest channel of a tier that may defer, the first of equals.\<close>

definition freshest_of :: "evidence_tier \<Rightarrow> real option \<Rightarrow> channel_evidence list \<Rightarrow> channel_evidence option" where
  "freshest_of tier ttl cs =
     foldl (\<lambda>best c.
       if ce_tier c \<noteq> tier \<or> \<not> ce_can_defer c \<or> \<not> is_fresh ttl c then best
       else case best of None \<Rightarrow> Some c
         | Some b \<Rightarrow> if (case ce_age_seconds c of None \<Rightarrow> 0 | Some a \<Rightarrow> a) < (case ce_age_seconds b of None \<Rightarrow> 0 | Some a \<Rightarrow> a)
                    then Some c else best) None cs"

definition channel_evidence_active :: "tick \<Rightarrow> idle_watchdog \<Rightarrow> bool res" where
  "channel_evidence_active k w = (case last_evidence_summary k w of
     Inl e \<Rightarrow> Inl e
   | Inr cs \<Rightarrow>
       (let ttl = activity_evidence_ttl_seconds (wd_config w)
        in Inr (if freshest_of First_party ttl cs \<noteq> None then True else freshest_of Side_channel ttl cs \<noteq> None)))"

section \<open>Classifying a stall\<close>

definition first_party_fresh :: "channel_evidence list \<Rightarrow> real option \<Rightarrow> bool" where
  "first_party_fresh cs ttl = (case ttl of None \<Rightarrow> False
     | Some t \<Rightarrow> if t \<le> 0 then False
         else list_ex (\<lambda>c. ce_tier c = First_party \<and> ce_can_defer c
                \<and> (case ce_age_seconds c of None \<Rightarrow> False | Some a \<Rightarrow> a < t)) cs)"

definition subagent_liveness_fresh :: "channel_evidence list \<Rightarrow> real option \<Rightarrow> bool" where
  "subagent_liveness_fresh cs ttl = (case ttl of None \<Rightarrow> False
     | Some t \<Rightarrow> if t \<le> 0 then False
         else list_ex (\<lambda>c. ce_channel c = Subagent_liveness_ch
                \<and> (case ce_age_seconds c of None \<Rightarrow> False | Some a \<Rightarrow> a < t) \<and> ce_can_defer c) cs)"

definition seen_at_least_once :: "channel_evidence \<Rightarrow> bool" where
  "seen_at_least_once c = ((case ce_counter c of None \<Rightarrow> 0 | Some n \<Rightarrow> n) \<ge> 1)"

definition silent_subagent_path :: "channel_evidence list \<Rightarrow> real \<Rightarrow> bool" where
  "silent_subagent_path cs silent =
     (if silent \<le> 0 then False
      else if list_ex (\<lambda>c. ce_channel c = Subagent_liveness_ch \<and> seen_at_least_once c \<and> ce_alive_by c \<noteq> None) cs then False
      else let spoke = filter (\<lambda>c. ce_channel c \<in> {Subagent_output_ch, Subagent_liveness_ch} \<and> seen_at_least_once c) cs
           in spoke \<noteq> [] \<and> list_ex (\<lambda>c. case ce_age_seconds c of None \<Rightarrow> True | Some a \<Rightarrow> a \<ge> silent) spoke)"

definition classify_stuck ::
  "bool \<Rightarrow> string option \<Rightarrow> channel_evidence list \<Rightarrow> agent_execution_state \<Rightarrow> real option \<Rightarrow> real option \<Rightarrow> stuck_kind" where
  "classify_stuck is_waiting connectivity cs quiet ttl silent =
     (if is_waiting then Duplicate_kill
      else if connectivity = Some ''offline'' then Waiting_on_connectivity
      else if first_party_fresh cs ttl then Thinking
      else if subagent_liveness_fresh cs ttl then Loading
      else if quiet = Waiting_on_child then Loading
      else if quiet = Resumable_continue then Transitioning
      else if is_set (\<lambda>s. s > 0 \<and> silent_subagent_path cs s) silent then Silent_subagent
      else Stuck)"

text \<open>The gate asks the classifier with a quiet state that is always active.\<close>

definition classify_stuck_now :: "tick \<Rightarrow> idle_watchdog \<Rightarrow> stuck_kind res" where
  "classify_stuck_now k w = (case last_evidence_summary k w of
     Inl e \<Rightarrow> Inl e
   | Inr cs \<Rightarrow> Inr (classify_stuck (wd_is_waiting_state w) (current_connectivity_state k) cs Active_state
       (activity_evidence_ttl_seconds (wd_config w)) (silent_subagent_seconds (wd_config w))))"

section \<open>The gate\<close>

text \<open>A throttle map: may this key be logged now, and the map after the answer.\<close>

definition throttle :: "real \<Rightarrow> 'k \<Rightarrow> real \<Rightarrow> ('k, real) pydict \<Rightarrow> bool \<times> ('k, real) pydict" where
  "throttle window key now d = (case dget d key of
     None \<Rightarrow> (True, dset key now d)
   | Some before \<Rightarrow> if now - before \<ge> window then (True, dset key now d) else (False, d))"

definition maybe_log_deferred :: "fire_reason \<Rightarrow> stuck_kind \<Rightarrow> real \<Rightarrow> idle_watchdog \<Rightarrow> bool \<times> idle_watchdog" where
  "maybe_log_deferred reason kind now w =
     (let (b, d) = throttle (watchdog_log_throttle_seconds (wd_config w)) (reason, kind) now (wd_deferred_log_at w)
      in (b, w\<lparr>wd_deferred_log_at := d\<rparr>))"

definition maybe_log_any_deferred :: "fire_reason \<Rightarrow> real \<Rightarrow> idle_watchdog \<Rightarrow> bool \<times> idle_watchdog" where
  "maybe_log_any_deferred reason now w =
     (let (b, d) = throttle (watchdog_log_throttle_seconds (wd_config w)) reason now (wd_any_deferred_log_at w)
      in (b, w\<lparr>wd_any_deferred_log_at := d\<rparr>))"

text \<open>A branch answers a verdict or an exception, with the watchdog as it is then left.\<close>

type_synonym branch = "watchdog_verdict res \<times> idle_watchdog"

definition gate_fire :: "fire_reason \<Rightarrow> real \<Rightarrow> tick \<Rightarrow> idle_watchdog \<Rightarrow> branch" where
  "gate_fire reason idle_elapsed k w =
     (if reason = Session_ceiling_exceeded then (Inr V_fire, set_stall True idle_elapsed w)
      else case classify_stuck_now k w of
        Inl e \<Rightarrow> (Inl e, w)
      | Inr kind \<Rightarrow>
          if kind = Stuck \<or> kind = Silent_subagent then (Inr V_fire, set_stall True idle_elapsed w)
          else let w = (if wd_stall_active w then set_stall False idle_elapsed w else w);
                   w = w\<lparr>wd_last_fire_reason := Some Deferred_by_stuck_classifier, wd_last_deferred_kind := Some kind\<rparr>;
                   (coarse, w) = maybe_log_any_deferred reason (tk_now k) w
               in (Inr V_continue, if coarse then snd (maybe_log_deferred reason kind (tk_now k) w) else w))"

end
