(* ===== verification/Watchdog_Verdict.thy ===== *)
theory Watchdog_Verdict
  imports Idle_Watchdog
begin

text \<open>
  One evaluation of the in-stream watchdog: the fire evaluators of \<^verbatim>\<open>_fire_evaluators.py\<close>, the
  waiting branch of \<^verbatim>\<open>_waiting_branch.py\<close> and the rest of \<^verbatim>\<open>_active_branch.py\<close>, up to \<open>evaluate\<close>.

  An evaluator answers \<open>None\<close> where the source returns \<^verbatim>\<open>None\<close> to let the next one decide.  An
  exception of \<^verbatim>\<open>classify_quiet\<close> or of the process monitor ends the evaluation with the watchdog as it
  is then left.  A failed assertion is the exception \<open>assertion_error\<close>; \<open>evaluate_raises_only_answers\<close>
  shows that none fails.
\<close>

type_synonym opinion = "watchdog_verdict option res \<times> idle_watchdog"

section \<open>Sequencing\<close>

text \<open>An answer that may be an exception is used by what follows.\<close>

definition raising :: "'a res \<Rightarrow> idle_watchdog \<Rightarrow> ('a \<Rightarrow> 'b res \<times> idle_watchdog) \<Rightarrow> 'b res \<times> idle_watchdog" where
  "raising answer w f = (case answer of Inl e \<Rightarrow> (Inl e, w) | Inr x \<Rightarrow> f x)"

text \<open>What the source does after the gate: return its CONTINUE, or go on to fire.\<close>

definition if_gate_fires :: "branch \<Rightarrow> (idle_watchdog \<Rightarrow> branch) \<Rightarrow> branch" where
  "if_gate_fires gate act = (case gate of
     (Inl e, w) \<Rightarrow> (Inl e, w)
   | (Inr v, w) \<Rightarrow> if v = V_continue then (Inr V_continue, w) else act w)"

definition decided :: "branch \<Rightarrow> opinion" where
  "decided b = (map_sum id Some (fst b), snd b)"

text \<open>The next step runs when an evaluator returns \<^verbatim>\<open>None\<close>.\<close>

definition unless_decided :: "opinion \<Rightarrow> (idle_watchdog \<Rightarrow> branch) \<Rightarrow> branch" where
  "unless_decided op step = (case op of
     (Inl e, w) \<Rightarrow> (Inl e, w) | (Inr (Some v), w) \<Rightarrow> (Inr v, w) | (Inr None, w) \<Rightarrow> step w)"

definition assertion_error :: py_exn where
  "assertion_error = RuntimeError ''AssertionError''"

text \<open>\<^verbatim>\<open>round(x, 1)\<close>.\<close>

definition round1 :: "real \<Rightarrow> real" where
  "round1 x = of_int (round_half_even (x * 10)) / 10"

section \<open>Fire evaluators\<close>

definition alive_by_is_fresh :: "alive_by option \<Rightarrow> bool" where
  "alive_by_is_fresh ab = (ab \<in> {Some Fresh_progress, Some Fresh_heartbeat_only})"

definition past_floor :: "real \<Rightarrow> timeout_policy \<Rightarrow> bool" where
  "past_floor elapsed p = (case no_progress_quiet_minimum_invocation_seconds p of
     None \<Rightarrow> True | Some m \<Rightarrow> elapsed \<ge> m)"

definition heartbeat_ceiling_reached :: "real \<Rightarrow> timeout_policy \<Rightarrow> alive_by option \<Rightarrow> bool" where
  "heartbeat_ceiling_reached elapsed p ab =
     (ab = Some Fresh_heartbeat_only \<and> is_set (\<lambda>c. elapsed \<ge> c) (no_progress_quiet_heartbeat_ceiling_seconds p)
      \<and> past_floor elapsed p)"

definition is_no_progress_quiet :: "tick \<Rightarrow> alive_by option \<Rightarrow> idle_watchdog \<Rightarrow> bool res" where
  "is_no_progress_quiet k ab w =
     (let p = wd_config w; elapsed = invocation_elapsed_seconds (tk_now k) w
      in case no_progress_quiet_seconds p of None \<Rightarrow> Inr False
         | Some q \<Rightarrow>
             if heartbeat_ceiling_reached elapsed p ab then Inr True
             else if elapsed < q then Inr False
             else if \<not> past_floor elapsed p then Inr False
             else if ab \<noteq> None then Inr False
             else map_sum id Not (channel_evidence_active k w))"

text \<open>
  The evidence block of a fire (\<^verbatim>\<open>_build_evidence_summary_diag\<close>, also inside \<^verbatim>\<open>emit_fire_log\<close>) asks the
  monitor once more before the fire is announced and returned.
\<close>

definition fire_with_evidence :: "tick \<Rightarrow> (idle_watchdog \<Rightarrow> idle_watchdog) \<Rightarrow> idle_watchdog \<Rightarrow> branch" where
  "fire_with_evidence k announce w = raising (last_evidence_summary k w) w (\<lambda>_. (Inr V_fire, announce w))"

text \<open>A fire of \<open>No_progress_quiet\<close> against one of its two ceilings, once the gate has let it through.\<close>

definition fire_no_progress_quiet :: "real option \<Rightarrow> real \<Rightarrow> tick \<Rightarrow> alive_by option \<Rightarrow> idle_watchdog \<Rightarrow> opinion" where
  "fire_no_progress_quiet ceil idle_elapsed k ab w =
     decided (if_gate_fires (gate_fire No_progress_quiet idle_elapsed k w) (\<lambda>w.
       fire_with_evidence k (\<lambda>w. emit Hard_stop (round1 (invocation_elapsed_seconds (tk_now k) w)) idle_elapsed ceil None w)
         (w\<lparr>wd_last_fire_reason := Some No_progress_quiet, wd_last_alive_by := ab\<rparr>)))"

definition evaluate_no_progress_quiet :: "tick \<Rightarrow> real \<Rightarrow> idle_watchdog \<Rightarrow> opinion" where
  "evaluate_no_progress_quiet k idle_elapsed w =
     (let p = wd_config w; elapsed = invocation_elapsed_seconds (tk_now k) w; ab = cs_alive_by (call_corroborator_raw k)
      in if no_progress_quiet_seconds p = None \<and> no_progress_quiet_heartbeat_ceiling_seconds p = None then (Inr None, w)
         else if heartbeat_ceiling_reached elapsed p ab
           then fire_no_progress_quiet (no_progress_quiet_heartbeat_ceiling_seconds p) idle_elapsed k ab w
         else case no_progress_quiet_seconds p of None \<Rightarrow> (Inr None, w)
           | Some q \<Rightarrow>
               if elapsed < q \<or> idle_elapsed < q then (Inr None, w)
               else raising (is_no_progress_quiet k ab w) w (\<lambda>quiet.
                 if \<not> quiet then (Inr None, w) else fire_no_progress_quiet (Some q) idle_elapsed k ab w))"

definition STRICTLY_STUCK_ALIVE_BY :: "alive_by list" where
  "STRICTLY_STUCK_ALIVE_BY = [Os_descendant_only_stale_progress, Cpu_idle_while_alive, Log_stale_while_alive]"

definition evaluate_strictly_stuck :: "tick \<Rightarrow> real \<Rightarrow> idle_watchdog \<Rightarrow> opinion" where
  "evaluate_strictly_stuck k idle_elapsed w =
     (case no_progress_quiet_strictly_stuck_seconds (wd_config w) of
        None \<Rightarrow> (Inr None, w\<lparr>wd_strictly_stuck_since := None\<rparr>)
      | Some limit \<Rightarrow>
          if cs_alive_by (call_corroborator_raw k) \<notin> Some ` set STRICTLY_STUCK_ALIVE_BY
            then (Inr None, w\<lparr>wd_strictly_stuck_since := None\<rparr>)
          else case wd_strictly_stuck_since w of
            None \<Rightarrow> (Inr None, w\<lparr>wd_strictly_stuck_since := Some (tk_now k)\<rparr>)
          | Some since \<Rightarrow>
              if tk_now k - since < limit then (Inr None, w)
              else raising (channel_evidence_active k w) w (\<lambda>active.
                if active then (Inr None, w)
                else decided (if_gate_fires (gate_fire Strictly_stuck idle_elapsed k w) (\<lambda>w.
                  fire_with_evidence k (emit Hard_stop (round1 (tk_now k - since)) idle_elapsed (Some limit) None)
                    (w\<lparr>wd_last_fire_reason := Some Strictly_stuck\<rparr>)))))"

definition evaluate_no_output_at_start :: "tick \<Rightarrow> real \<Rightarrow> idle_watchdog \<Rightarrow> opinion" where
  "evaluate_no_output_at_start k idle_elapsed w =
     (case (no_output_at_start_seconds (wd_config w), wd_last_meaningful_output_at w) of
        (Some limit, Some since) \<Rightarrow>
          if wd_has_meaningful_output w \<or> tk_now k - since < limit then (Inr None, w)
          else if (case quiet_at_start_check k of Inl _ \<Rightarrow> Active_state | Inr q \<Rightarrow> q) \<noteq> Active_state then (Inr None, w)
          else raising (channel_evidence_active k w) w (\<lambda>active.
            if active then (Inr None, w)
            else if alive_by_is_fresh (cs_alive_by (call_corroborator_raw k)) then (Inr None, w)
            else if wd_cumulative_waiting w > 0 then (Inr None, w)
            else decided (if_gate_fires (gate_fire No_output_at_start idle_elapsed k w) (\<lambda>w.
              fire_with_evidence k
                (\<lambda>w. emit Hard_stop (round1 (invocation_elapsed_seconds (tk_now k) w)) idle_elapsed (Some limit) None w)
                (w\<lparr>wd_last_fire_reason := Some No_output_at_start\<rparr>))))
      | _ \<Rightarrow> (Inr None, w))"

text \<open>A fire that is only logged: through the gate, the reason is set and the evidence block built.\<close>

definition gated_fire :: "fire_reason \<Rightarrow> real \<Rightarrow> tick \<Rightarrow> idle_watchdog \<Rightarrow> branch" where
  "gated_fire reason idle_elapsed k w =
     if_gate_fires (gate_fire reason idle_elapsed k w) (\<lambda>w.
       fire_with_evidence k (\<lambda>w. w) (w\<lparr>wd_last_fire_reason := Some reason\<rparr>))"

definition post_tool_result_stalled :: "tick \<Rightarrow> real \<Rightarrow> idle_watchdog \<Rightarrow> opinion" where
  "post_tool_result_stalled k idle_elapsed w =
     (case (post_tool_result_progression_seconds (wd_config w), wd_last_tool_result_at w) of
        (Some limit, Some since) \<Rightarrow>
          if \<not> wd_awaiting_progression w \<or> tk_now k - since < limit then (Inr None, w)
          else decided (gated_fire Stalled_after_tool_result idle_elapsed k w)
      | _ \<Rightarrow> (Inr None, w))"

section \<open>Branches after the idle deadline\<close>

definition channel_value :: "channel_name \<Rightarrow> string" where
  "channel_value c = (case c of Stdout_ch \<Rightarrow> ''stdout'' | Mcp_tool_ch \<Rightarrow> ''mcp_tool''
     | Subagent_output_ch \<Rightarrow> ''subagent_output'' | Subagent_liveness_ch \<Rightarrow> ''subagent_liveness''
     | Workspace_ch \<Rightarrow> ''workspace'')"

text \<open>The name of the freshest channel that defers, as the deferral log labels it.\<close>

definition active_channel :: "real option \<Rightarrow> channel_evidence list \<Rightarrow> string" where
  "active_channel ttl cs =
     snd (foldl (\<lambda>(best, label) c.
       (if ce_channel c = Stdout_ch \<or> \<not> ce_can_defer c \<or> \<not> is_fresh ttl c then (best, label)
        else case ce_age_seconds c of None \<Rightarrow> (best, label)
          | Some a \<Rightarrow> if (case best of None \<Rightarrow> True | Some b \<Rightarrow> a < b) then (Some a, channel_value (ce_channel c))
                     else (best, label))) (None, ''none'') cs)"

definition maybe_log_evidence_deferral :: "string \<Rightarrow> real \<Rightarrow> idle_watchdog \<Rightarrow> bool \<times> idle_watchdog" where
  "maybe_log_evidence_deferral label now w =
     (let (b, d) = throttle (watchdog_log_throttle_seconds (wd_config w)) label now (wd_evidence_log_at w)
      in (b, w\<lparr>wd_evidence_log_at := d\<rparr>))"

definition handle_evidence_deferral :: "tick \<Rightarrow> idle_watchdog \<Rightarrow> branch" where
  "handle_evidence_deferral k w =
     raising (last_evidence_summary k w) w (\<lambda>cs.
       (Inr V_continue, snd (maybe_log_evidence_deferral
          (active_channel (activity_evidence_ttl_seconds (wd_config w)) cs) (tk_now k) w)))"

definition handle_active_branch :: "tick \<Rightarrow> idle_watchdog \<Rightarrow> branch" where
  "handle_active_branch k w =
     (let idle_elapsed = tk_now k - wd_last_activity w;
          w = accumulate_waiting_run (tk_now k) w
      in if drain_window_seconds (wd_config w) = 0
         then gated_fire No_output_deadline idle_elapsed k w
         else (Inr V_continue, w\<lparr>wd_in_drain_window := True, wd_drain_started_at := Some (tk_now k)\<rparr>))"

text \<open>No child is waited for: fresh evidence defers, otherwise the agent counts as active.\<close>

definition defer_or_active :: "tick \<Rightarrow> idle_watchdog \<Rightarrow> branch" where
  "defer_or_active k w =
     raising (channel_evidence_active k w) w (\<lambda>active.
       if active then handle_evidence_deferral k w else handle_active_branch k w)"

text \<open>Entry into a waiting run, unless one is going on.\<close>

definition enter_waiting :: "tick \<Rightarrow> idle_watchdog \<Rightarrow> idle_watchdog" where
  "enter_waiting k w =
     (if wd_waiting_started_at w \<noteq> None then w
      else let now = tk_now k; corr = call_corroborator_raw k
           in emit Entered 0 (now - wd_last_activity w)
                (Some (effective_waiting_ceiling (wd_config w) (cs_alive_by corr))) None
                (w\<lparr>wd_entry_corroboration := Some corr, wd_waiting_started_at := Some now,
                   wd_last_waiting_status_at := Some now, wd_suspicion_announced := False\<rparr>))"

definition announce_suspicion :: "real \<Rightarrow> real \<Rightarrow> real \<Rightarrow> real \<Rightarrow> real option \<Rightarrow> idle_watchdog \<Rightarrow> idle_watchdog" where
  "announce_suspicion run waited idle_elapsed ceil suspect w =
     (case suspect of None \<Rightarrow> w
      | Some s \<Rightarrow>
          if wd_suspicion_announced w \<or> waited < s then w
          else emit Suspected_frozen run idle_elapsed (Some ceil) suspect
                 (set_stall True idle_elapsed (w\<lparr>wd_suspicion_announced := True\<rparr>)))"

definition report_subagent_progress :: "tick \<Rightarrow> real \<Rightarrow> real \<Rightarrow> real \<Rightarrow> idle_watchdog \<Rightarrow> branch" where
  "report_subagent_progress k run idle_elapsed ceil w =
     raising (live_subagent_count k) w (\<lambda>live.
       (let ch = wd_channels w
        in (Inr V_waiting_on_child,
            if (last_subagent_progress_description ch \<noteq> None \<or> live > 0)
               \<and> (case last_subagent_progress_emit_at ch of None \<Rightarrow> True
                   | Some t \<Rightarrow> tk_now k - t \<ge> watchdog_subagent_progress_interval_seconds (wd_config w))
            then emit Subagent_progress run idle_elapsed (Some ceil) None
                   (w\<lparr>wd_channels := ch\<lparr>last_subagent_progress_emit_at := Some (tk_now k)\<rparr>\<rparr>)
            else w)))"

text \<open>The reports of a run that goes on waiting.\<close>

definition keep_waiting :: "tick \<Rightarrow> real \<Rightarrow> real \<Rightarrow> real \<Rightarrow> real \<Rightarrow> real option \<Rightarrow> idle_watchdog \<Rightarrow> branch" where
  "keep_waiting k run waited idle_elapsed ceil suspect w =
     (let w = announce_suspicion run waited idle_elapsed ceil suspect w
      in case wd_last_waiting_status_at w of
           None \<Rightarrow> (Inl assertion_error, w)
         | Some t \<Rightarrow>
             (let w = (if tk_now k - t \<ge> waiting_status_interval_seconds (wd_config w)
                       then emit Progress_status run idle_elapsed (Some ceil) None
                              (w\<lparr>wd_last_waiting_status_at := Some (tk_now k)\<rparr>)
                       else w)
              in report_subagent_progress k run idle_elapsed ceil w))"

definition handle_waiting_branch :: "tick \<Rightarrow> idle_watchdog \<Rightarrow> branch" where
  "handle_waiting_branch k w =
     (let now = tk_now k;
          idle_elapsed = now - wd_last_activity w;
          w = enter_waiting k w;
          run = now - the (wd_waiting_started_at w);
          waited = wd_cumulative_waiting w + run
      in if (case quiet_while_waiting k of Inl _ \<Rightarrow> Waiting_on_child | Inr q \<Rightarrow> q) \<noteq> Waiting_on_child
         then defer_or_active k (accumulate_waiting_run now w)
         else
           (let corr = call_corroborator_raw k;
                ceil = effective_waiting_ceiling (wd_config w) (cs_alive_by corr);
                suspect = fst (compute_effective_suspect (wd_config w) (cs_alive_by corr));
                stop = (\<lambda>limit. fire_with_evidence k (\<lambda>w. emit Hard_stop run idle_elapsed limit suspect (set_stall True idle_elapsed w)))
            in if is_set (\<lambda>c. waited \<ge> c) (stuck_job_sub_ceiling_seconds (wd_config w))
                  \<and> cs_scoped_child_active corr = Some True
                  \<and> cs_alive_by corr \<in> Some ` set STUCK_ALIVE_BY_VALUES
               then if_gate_fires (gate_fire Children_persist_too_long idle_elapsed k w) (\<lambda>w.
                      stop (stuck_job_sub_ceiling_seconds (wd_config w))
                        (w\<lparr>wd_last_fire_reason := Some Children_persist_too_long\<rparr>))
               else if waited \<ge> ceil
               then if tp_profile (wd_config w) = Activity_only then (Inr V_continue, w)
                    else stop (Some ceil) (w\<lparr>wd_last_fire_reason := Some Children_persist_too_long\<rparr>)
               else keep_waiting k run waited idle_elapsed ceil suspect w))"

definition handle_drain_window :: "tick \<Rightarrow> idle_watchdog \<Rightarrow> branch" where
  "handle_drain_window k w =
     (case wd_drain_started_at w of
        None \<Rightarrow> (Inl assertion_error, w)
      | Some started \<Rightarrow>
          raising (quiet_in_drain k) w (\<lambda>q.
            if q = Waiting_on_child
            then handle_waiting_branch k (w\<lparr>wd_in_drain_window := False, wd_drain_started_at := None\<rparr>)
            else if tk_now k - started < drain_window_seconds (wd_config w)
            then (Inr V_continue, snd (maybe_log_any_deferred Session_ceiling_exceeded (tk_now k) w))
            else gated_fire No_output_deadline (tk_now k - wd_last_activity w) k w))"

definition evaluate_final_verdict :: "tick \<Rightarrow> real \<Rightarrow> idle_watchdog \<Rightarrow> branch" where
  "evaluate_final_verdict k idle_elapsed w =
     (if wd_in_drain_window w then handle_drain_window k w
      else unless_decided (post_tool_result_stalled k idle_elapsed w) (\<lambda>w.
        raising (quiet_at_verdict k) w (\<lambda>q.
          if q = Waiting_on_child then handle_waiting_branch k w else defer_or_active k w)))"

section \<open>Supervision of conflict resolution\<close>

definition liveness_priority :: "channel_name \<Rightarrow> int" where
  "liveness_priority c = (case c of Stdout_ch \<Rightarrow> 0 | Mcp_tool_ch \<Rightarrow> 1 | Subagent_liveness_ch \<Rightarrow> 1
     | Subagent_output_ch \<Rightarrow> 2 | Workspace_ch \<Rightarrow> 3)"

definition newest_channel :: "channel_evidence list \<Rightarrow> string option \<times> real option" where
  "newest_channel cs =
     (let (kind, since, _) =
        foldl (\<lambda>(kind, since, prio) c. (case ce_last_at c of None \<Rightarrow> (kind, since, prio)
            | Some t \<Rightarrow>
                if (case since of None \<Rightarrow> True | Some a \<Rightarrow> t > a \<or> (t = a \<and> liveness_priority (ce_channel c) > prio))
                then (Some (channel_value (ce_channel c)), Some t, liveness_priority (ce_channel c))
                else (kind, since, prio))) (None, None, -1) cs
      in (kind, since))"

definition activity_only_snapshot :: "tick \<Rightarrow> idle_watchdog \<Rightarrow> (string option \<times> real option) res" where
  "activity_only_snapshot k w = map_sum id newest_channel (last_evidence_summary k w)"

definition activity_only_operator_cap_reached :: "real \<Rightarrow> idle_watchdog \<Rightarrow> bool" where
  "activity_only_operator_cap_reached now w =
     both_set (\<lambda>cap started. now - started \<ge> cap) (activity_only_operator_cap_seconds (wd_config w))
       (wd_invocation_started_at w)"

definition emit_activity_only_status :: "real \<Rightarrow> real \<Rightarrow> idle_watchdog \<Rightarrow> idle_watchdog" where
  "emit_activity_only_status now last_at w =
     (if is_set (\<lambda>t. now - t < activity_only_status_interval_seconds (wd_config w)) (wd_last_activity_only_status_at w) then w
      else emit Progress_status (case wd_invocation_started_at w of None \<Rightarrow> 0 | Some t \<Rightarrow> max 0 (now - t))
             (max 0 (now - last_at)) (idle_timeout_seconds (wd_config w)) None
             (w\<lparr>wd_last_activity_only_status_at := Some now\<rparr>))"

definition evaluate_activity_only :: "tick \<Rightarrow> idle_watchdog \<Rightarrow> branch" where
  "evaluate_activity_only k w =
     raising (activity_only_snapshot k w) w (\<lambda>snapshot.
       (let now = tk_now k;
            last_at = (case snd snapshot of None \<Rightarrow> wd_session_started_at w | Some t \<Rightarrow> t)
        in if activity_only_operator_cap_reached now w
           then fire_with_evidence k (\<lambda>w. w) (w\<lparr>wd_last_fire_reason := Some Operator_cap_reached\<rparr>)
           else let w = emit_activity_only_status now last_at w
                in if is_set (\<lambda>timeout. now - last_at \<ge> timeout) (idle_timeout_seconds (wd_config w))
                   then fire_with_evidence k (\<lambda>w. w) (w\<lparr>wd_last_fire_reason := Some Conflict_inactivity\<rparr>)
                   else (Inr V_continue, w)))"

section \<open>The evaluation\<close>

text \<open>A fire reason that needs no idle deadline: the session ceiling, then a tripped breaker.\<close>

definition early_fire_reason :: "tick \<Rightarrow> idle_watchdog \<Rightarrow> fire_reason option \<times> idle_watchdog" where
  "early_fire_reason k w =
     (if is_set (\<lambda>m. tk_now k - wd_session_started_at w \<ge> m) (max_session_seconds (wd_config w))
      then (Some Session_ceiling_exceeded, w)
      else let (b, t) = tripped (tk_now k) (wd_tracker w)
           in if b then (let (only_tool, t) = tripped_tool_dimension (tk_now k) t
                         in (Some (if only_tool then Repeated_identical_tool_call else Repeated_error_loop), w\<lparr>wd_tracker := t\<rparr>))
              else (None, w\<lparr>wd_tracker := t\<rparr>))"

text \<open>The reason of an early fire is set after its evidence block.\<close>

definition fire_early :: "fire_reason \<Rightarrow> tick \<Rightarrow> idle_watchdog \<Rightarrow> branch" where
  "fire_early reason k w =
     if_gate_fires (gate_fire reason (tk_now k - wd_last_activity w) k w)
       (fire_with_evidence k (\<lambda>w. w\<lparr>wd_last_fire_reason := Some reason\<rparr>))"

text \<open>The evaluators that run before the idle deadline, in the order of the source.\<close>

definition evaluate_standard :: "tick \<Rightarrow> idle_watchdog \<Rightarrow> branch" where
  "evaluate_standard k w =
     (let idle_elapsed = tk_now k - wd_last_activity w
      in raising (quiet_at_entry k) w (\<lambda>quiet.
           unless_decided (evaluate_no_output_at_start k idle_elapsed w) (\<lambda>w.
             case idle_timeout_seconds (wd_config w) of
               None \<Rightarrow> (Inr V_continue, w)
             | Some timeout \<Rightarrow>
                 unless_decided (evaluate_strictly_stuck k idle_elapsed w) (\<lambda>w.
                   unless_decided
                     (if quiet = Waiting_on_child then evaluate_no_progress_quiet k idle_elapsed w else (Inr None, w)) (\<lambda>w.
                     if idle_elapsed < timeout then (Inr V_continue, accumulate_waiting_run (tk_now k) w)
                     else evaluate_final_verdict k idle_elapsed w)))))"

definition evaluate_inner :: "tick \<Rightarrow> idle_watchdog \<Rightarrow> branch" where
  "evaluate_inner k w =
     (let w = poll_subagent_output k w
      in if tp_profile (wd_config w) = Activity_only then evaluate_activity_only k w
         else case early_fire_reason k w of
           (Some reason, w) \<Rightarrow> fire_early reason k w
         | (None, w) \<Rightarrow> evaluate_standard k w)"

definition evaluate :: "tick \<Rightarrow> idle_watchdog \<Rightarrow> branch" where
  "evaluate k w =
     (case evaluate_inner k w of
        (Inl e, w) \<Rightarrow> (Inl e, w)
      | (Inr v, w) \<Rightarrow> (Inr v, w\<lparr>wd_last_verdict := Some v\<rparr>))"

end
