(* ===== verification/Watchdog_Runs.thy ===== *)
theory Watchdog_Runs
  imports Watchdog_Verdict
begin

text \<open>
  Whole lives of an in-stream watchdog.  \<open>watchdog_op\<close> lists what a caller may do to it; every
  operation is a sequence of elementary changes (\<open>wd_step\<close>), and the locale \<open>watchdog_run\<close> lifts an
  invariant of the elementary changes to every life.  It is interpreted for the facts the source asserts
  and for the stream of stall events.
\<close>

section \<open>What events and stall flips change\<close>

lemma emit_fields [simp]:
  "wd_config (emit kd a b c d w) = wd_config w"
  "wd_listener (emit kd a b c d w) = wd_listener w"
  "wd_last_activity (emit kd a b c d w) = wd_last_activity w"
  "wd_session_started_at (emit kd a b c d w) = wd_session_started_at w"
  "wd_waiting_started_at (emit kd a b c d w) = wd_waiting_started_at w"
  "wd_cumulative_waiting (emit kd a b c d w) = wd_cumulative_waiting w"
  "wd_in_drain_window (emit kd a b c d w) = wd_in_drain_window w"
  "wd_drain_started_at (emit kd a b c d w) = wd_drain_started_at w"
  "wd_last_fire_reason (emit kd a b c d w) = wd_last_fire_reason w"
  "wd_last_waiting_status_at (emit kd a b c d w) = wd_last_waiting_status_at w"
  "wd_channels (emit kd a b c d w) = wd_channels w"
  "wd_tracker (emit kd a b c d w) = wd_tracker w"
  "wd_is_waiting_state (emit kd a b c d w) = wd_is_waiting_state w"
  "wd_stall_active (emit kd a b c d w) = wd_stall_active w"
  "wd_suspicion_announced (emit kd a b c d w) = wd_suspicion_announced w"
  "wd_invocation_started_at (emit kd a b c d w) = wd_invocation_started_at w"
  by (simp_all add: emit_def Let_def)

lemma set_stall_fields [simp]:
  "wd_config (set_stall x i w) = wd_config w"
  "wd_listener (set_stall x i w) = wd_listener w"
  "wd_last_activity (set_stall x i w) = wd_last_activity w"
  "wd_session_started_at (set_stall x i w) = wd_session_started_at w"
  "wd_waiting_started_at (set_stall x i w) = wd_waiting_started_at w"
  "wd_cumulative_waiting (set_stall x i w) = wd_cumulative_waiting w"
  "wd_in_drain_window (set_stall x i w) = wd_in_drain_window w"
  "wd_drain_started_at (set_stall x i w) = wd_drain_started_at w"
  "wd_last_fire_reason (set_stall x i w) = wd_last_fire_reason w"
  "wd_last_waiting_status_at (set_stall x i w) = wd_last_waiting_status_at w"
  "wd_channels (set_stall x i w) = wd_channels w"
  "wd_tracker (set_stall x i w) = wd_tracker w"
  "wd_is_waiting_state (set_stall x i w) = wd_is_waiting_state w"
  "wd_stall_active (set_stall x i w) = x"
  "wd_suspicion_announced (set_stall x i w) = wd_suspicion_announced w"
  "wd_invocation_started_at (set_stall x i w) = wd_invocation_started_at w"
  by (simp_all add: set_stall_def)

section \<open>Elementary changes\<close>

text \<open>What the source asserts: a drain window and a waiting run have their times.\<close>

definition wd_wf :: "idle_watchdog \<Rightarrow> bool" where
  "wd_wf w \<longleftrightarrow> (wd_in_drain_window w \<longrightarrow> wd_drain_started_at w \<noteq> None)
     \<and> (wd_waiting_started_at w \<noteq> None \<longrightarrow> wd_last_waiting_status_at w \<noteq> None)"

definition same_voice :: "idle_watchdog \<Rightarrow> idle_watchdog \<Rightarrow> bool" where
  "same_voice w w' \<longleftrightarrow> wd_config w' = wd_config w \<and> wd_listener w' = wd_listener w
     \<and> wd_session_started_at w' = wd_session_started_at w \<and> wd_events w' = wd_events w
     \<and> wd_stall_active w' = wd_stall_active w"

text \<open>A change of other fields, the start of an invocation, a status event, a flip of the stall flag.\<close>

inductive wd_step :: "idle_watchdog \<Rightarrow> idle_watchdog \<Rightarrow> bool" where
  calm: "same_voice w w' \<Longrightarrow> (wd_wf w \<Longrightarrow> wd_wf w') \<Longrightarrow> wd_cumulative_waiting w \<le> wd_cumulative_waiting w' \<Longrightarrow> wd_step w w'"
| restart: "same_voice w w' \<Longrightarrow> wd_wf w' \<Longrightarrow> wd_step w w'"
| speak: "kind \<notin> {Stalled, Stall_resumed} \<Longrightarrow> wd_step w (emit kind a b c d w)"
| flip: "wd_step w (set_stall x i w)"

abbreviation wd_steps :: "idle_watchdog \<Rightarrow> idle_watchdog \<Rightarrow> bool" where
  "wd_steps \<equiv> wd_step\<^sup>*\<^sup>*"

text \<open>The same without a new invocation: the account of waiting time never shrinks.\<close>

definition onward :: "idle_watchdog \<Rightarrow> idle_watchdog \<Rightarrow> bool" where
  "onward w w' \<longleftrightarrow> wd_steps w w' \<and> wd_cumulative_waiting w \<le> wd_cumulative_waiting w'"

lemma onward_refl [simp, intro]: "onward w w"
  by (simp add: onward_def)

lemma onward_trans [trans]: "onward u v \<Longrightarrow> onward v w \<Longrightarrow> onward u w"
  by (auto simp: onward_def)

lemma onward_calm:
  "same_voice w w' \<Longrightarrow> (wd_wf w \<Longrightarrow> wd_wf w') \<Longrightarrow> wd_cumulative_waiting w \<le> wd_cumulative_waiting w' \<Longrightarrow> onward w w'"
  by (auto simp: onward_def intro: wd_step.calm)

lemma onward_emit: "kind \<notin> {Stalled, Stall_resumed} \<Longrightarrow> onward w (emit kind a b c d w)"
  by (auto simp: onward_def intro!: r_into_rtranclp wd_step.speak)

lemma onward_stall: "onward w (set_stall x i w)"
  by (auto simp: onward_def intro: wd_step.flip)

lemma onward_then:
  assumes "onward u v" "same_voice v w" "wd_wf v \<Longrightarrow> wd_wf w" "wd_cumulative_waiting v \<le> wd_cumulative_waiting w"
  shows "onward u w"
  using onward_trans [OF assms(1) onward_calm [OF assms(2-4)]] .

lemmas voice_defs = same_voice_def wd_wf_def

lemma onward_accumulate: "onward w (accumulate_waiting_run now w)"
proof (cases "wd_waiting_started_at w")
  case (Some started)
  let ?run = "max 0 (now - started)" and ?idle = "now - wd_last_activity w"
  let ?a = "w\<lparr>wd_cumulative_waiting := wd_cumulative_waiting w + ?run\<rparr>"
  let ?b = "emit Exited ?run ?idle None None ?a"
  have "onward w ?a" by (rule onward_calm) (auto simp: voice_defs)
  also have "onward ?a ?b" by (rule onward_emit) simp
  also have "onward ?b (?b\<lparr>wd_waiting_started_at := None, wd_last_waiting_status_at := None,
      wd_suspicion_announced := False, wd_entry_corroboration := None\<rparr>)" (is "onward _ ?c")
    by (rule onward_calm) (auto simp: voice_defs)
  also have "onward ?c (set_stall False ?idle ?c)" by (rule onward_stall)
  finally show ?thesis by (simp add: accumulate_waiting_run_def Some Let_def)
qed (simp add: accumulate_waiting_run_def)

lemma accumulate_clears: "wd_waiting_started_at (accumulate_waiting_run now w) = None"
  by (auto simp: accumulate_waiting_run_def Let_def split: option.splits)

lemma onward_baseline: "onward w (reset_idle_baseline now w)"
proof -
  let ?a = "accumulate_waiting_run now w"
  have "onward w ?a" by (rule onward_accumulate)
  also have "onward ?a (?a\<lparr>wd_last_activity := now, wd_in_drain_window := False, wd_drain_started_at := None,
      wd_awaiting_progression := False\<rparr>)" (is "onward _ ?b")
    by (rule onward_calm) (auto simp: voice_defs)
  also have "onward ?b (set_stall False 0 ?b)" by (rule onward_stall)
  finally show ?thesis by (simp add: reset_idle_baseline_def Let_def)
qed

section \<open>Every operation is a sequence of elementary changes\<close>

lemma onward_raising:
  assumes "onward w u" "\<And>x. answer = Inr x \<Longrightarrow> onward w (snd (f x))"
  shows "onward w (snd (raising answer u f))"
  using assms by (auto simp: raising_def split: sum.split)

lemma onward_if_gate:
  assumes "onward w (snd g)" "\<And>u. onward w u \<Longrightarrow> onward w (snd (act u))"
  shows "onward w (snd (if_gate_fires g act))"
  using assms by (cases g; cases "fst g") (auto simp: if_gate_fires_def)

lemma onward_decided: "onward w (snd b) \<Longrightarrow> onward w (snd (decided b))"
  by (simp add: decided_def)

lemma onward_unless:
  assumes "onward w (snd op)" "\<And>u. onward w u \<Longrightarrow> onward w (snd (step u))"
  shows "onward w (snd (unless_decided op step))"
  using assms by (cases op; cases "fst op") (auto simp: unless_decided_def split: option.split)

lemma onward_fire_with: "onward w u \<Longrightarrow> onward w (announce u) \<Longrightarrow> onward w (snd (fire_with_evidence k announce u))"
  unfolding fire_with_evidence_def by (rule onward_raising) simp_all

lemma onward_reason: "onward w u \<Longrightarrow> onward w (u\<lparr>wd_last_fire_reason := r\<rparr>)"
  by (erule onward_then) (auto simp: voice_defs)

lemma onward_hard_stop: "onward w u \<Longrightarrow> onward w (emit Hard_stop a b c d u)"
  by (erule onward_trans) (simp add: onward_emit)

lemma onward_gate: "onward w (snd (gate_fire reason idle k w))"
proof -
  have log: "onward u (snd (maybe_log_any_deferred reason now u))" "onward u (snd (maybe_log_deferred reason kind now u))"
    for u kind now
    by (auto intro!: onward_calm simp: maybe_log_any_deferred_def maybe_log_deferred_def voice_defs split: prod.splits)
  show ?thesis
  proof (cases "classify_stuck_now k w")
    case (Inr kind)
    let ?u = "if wd_stall_active w then set_stall False idle w else w"
    let ?v = "?u\<lparr>wd_last_fire_reason := Some Deferred_by_stuck_classifier, wd_last_deferred_kind := Some kind\<rparr>"
    have u: "onward w ?u" by (simp add: onward_stall)
    have v: "onward w ?v" by (rule onward_then [OF u]) (auto simp: voice_defs)
    have "onward w (snd (maybe_log_any_deferred reason (tk_now k) ?v))"
      and "onward w (snd (maybe_log_deferred reason kind (tk_now k) (snd (maybe_log_any_deferred reason (tk_now k) ?v))))"
      using onward_trans [OF v log(1)] onward_trans [OF onward_trans [OF v log(1)] log(2)] by blast+
    then show ?thesis
      by (auto simp: gate_fire_def Inr Let_def onward_stall split: prod.splits)
  qed (auto simp: gate_fire_def onward_stall)
qed

lemmas onward_rules = onward_raising onward_if_gate onward_decided onward_unless onward_fire_with onward_reason
  onward_hard_stop onward_trans [OF _ onward_gate]

lemma onward_no_progress: "onward w (snd (evaluate_no_progress_quiet k idle w))"
proof -
  have alive: "onward w (u\<lparr>wd_last_fire_reason := r, wd_last_alive_by := ab\<rparr>)" if "onward w u" for u r ab
    by (rule onward_then [OF that]) (auto simp: voice_defs)
  have "onward w (snd (fire_no_progress_quiet c idle k ab w))" for c ab
    unfolding fire_no_progress_quiet_def by (intro onward_rules alive onward_refl)
  then show ?thesis
    by (auto simp: evaluate_no_progress_quiet_def Let_def intro!: onward_raising split: option.split)
qed

lemma onward_strictly_stuck: "onward w (snd (evaluate_strictly_stuck k idle w))"
proof -
  have "onward w (w\<lparr>wd_strictly_stuck_since := x\<rparr>)" for x by (rule onward_calm) (auto simp: voice_defs)
  then show ?thesis
    by (auto simp: evaluate_strictly_stuck_def intro!: onward_rules split: option.split)
qed

lemma onward_start_check: "onward w (snd (evaluate_no_output_at_start k idle w))"
  by (auto simp: evaluate_no_output_at_start_def intro!: onward_rules split: option.split)

lemma onward_gated_fire: "onward w u \<Longrightarrow> onward w (snd (gated_fire reason idle k u))"
  unfolding gated_fire_def by (intro onward_rules)

lemma onward_post_tool: "onward w (snd (post_tool_result_stalled k idle w))"
  by (auto simp: post_tool_result_stalled_def intro!: onward_decided onward_gated_fire split: option.split)

lemma onward_evidence: "onward w (snd (handle_evidence_deferral k w))"
  unfolding handle_evidence_deferral_def
  by (intro onward_raising onward_refl)
    (auto intro!: onward_calm simp: maybe_log_evidence_deferral_def voice_defs split: prod.splits)

lemma onward_active: "onward w (snd (handle_active_branch k w))"
proof -
  let ?a = "accumulate_waiting_run (tk_now k) w"
  have "onward w (?a\<lparr>wd_in_drain_window := True, wd_drain_started_at := Some (tk_now k)\<rparr>)"
    by (rule onward_then [OF onward_accumulate]) (auto simp: voice_defs)
  then show ?thesis
    by (simp add: handle_active_branch_def Let_def onward_gated_fire onward_accumulate)
qed

lemma onward_defer_or_active: "onward w u \<Longrightarrow> onward w (snd (defer_or_active k u))"
  using onward_trans [OF _ onward_evidence, of w u k] onward_trans [OF _ onward_active, of w u k]
  by (auto simp: defer_or_active_def intro!: onward_raising)

lemma onward_enter: "onward w (enter_waiting k w)"
proof (cases "wd_waiting_started_at w")
  case None
  let ?a = "w\<lparr>wd_entry_corroboration := Some (call_corroborator_raw k), wd_waiting_started_at := Some (tk_now k),
      wd_last_waiting_status_at := Some (tk_now k), wd_suspicion_announced := False\<rparr>"
  have "onward w ?a" by (rule onward_calm) (auto simp: voice_defs)
  also have "onward ?a (emit Entered x y z z' ?a)" for x y z z' by (rule onward_emit) simp
  finally show ?thesis by (simp add: enter_waiting_def None Let_def)
qed (simp add: enter_waiting_def)

lemma onward_suspicion: "onward w (announce_suspicion run waited idle ceil suspect w)"
proof -
  let ?a = "w\<lparr>wd_suspicion_announced := True\<rparr>"
  have "onward w ?a" by (rule onward_calm) (auto simp: voice_defs)
  also have "onward ?a (set_stall True idle ?a)" by (rule onward_stall)
  also have "onward (set_stall True idle ?a) (emit Suspected_frozen x y z z' (set_stall True idle ?a))" for x y z z'
    by (rule onward_emit) simp
  finally show ?thesis by (auto simp: announce_suspicion_def split: option.splits)
qed

lemma onward_report: "onward w (snd (report_subagent_progress k run idle ceil w))"
proof -
  let ?a = "w\<lparr>wd_channels := wd_channels w\<lparr>last_subagent_progress_emit_at := Some (tk_now k)\<rparr>\<rparr>"
  have "onward w ?a" by (rule onward_calm) (auto simp: voice_defs)
  also have "onward ?a (emit Subagent_progress x y z z' ?a)" for x y z z' by (rule onward_emit) simp
  finally show ?thesis by (auto simp: report_subagent_progress_def Let_def intro!: onward_raising)
qed

lemma onward_keep: "onward w (snd (keep_waiting k run waited idle ceil suspect w))"
proof -
  let ?a = "announce_suspicion run waited idle ceil suspect w"
  let ?b = "?a\<lparr>wd_last_waiting_status_at := Some (tk_now k)\<rparr>"
  have a: "onward w ?a" by (rule onward_suspicion)
  have b: "onward w ?b" by (rule onward_then [OF a]) (auto simp: voice_defs)
  have "onward w (emit Progress_status x y z z' ?b)" for x y z z'
    by (rule onward_trans [OF b onward_emit]) simp
  from onward_trans [OF this onward_report] onward_trans [OF a onward_report] a show ?thesis
    by (auto simp: keep_waiting_def Let_def split: option.splits)
qed

lemma onward_waiting: "onward w (snd (handle_waiting_branch k w))"
proof -
  note e = onward_enter [of w k]
  have stop: "onward w (emit Hard_stop a b c d (set_stall True i x))" if "onward w x" for a b c d i x
    by (intro onward_hard_stop onward_trans [OF that onward_stall])
  show ?thesis
    unfolding handle_waiting_branch_def Let_def
    using onward_trans [OF e onward_keep]
    by (auto intro!: e onward_defer_or_active onward_if_gate onward_fire_with onward_reason stop
        onward_trans [OF e onward_gate] onward_trans [OF e onward_accumulate])
qed

lemma onward_drain: "onward w (snd (handle_drain_window k w))"
proof -
  let ?d = "w\<lparr>wd_in_drain_window := False, wd_drain_started_at := None\<rparr>"
  have "onward w ?d" by (rule onward_calm) (auto simp: voice_defs)
  note wait = onward_trans [OF this onward_waiting]
  have log: "onward w (snd (maybe_log_any_deferred r n w))" for r n
    by (auto intro!: onward_calm simp: maybe_log_any_deferred_def voice_defs split: prod.splits)
  show ?thesis
    by (auto simp: handle_drain_window_def intro!: onward_raising onward_gated_fire wait log split: option.split)
qed

lemma onward_final: "onward w (snd (evaluate_final_verdict k idle w))"
  by (auto simp: evaluate_final_verdict_def
      intro!: onward_drain onward_unless onward_raising onward_post_tool onward_defer_or_active onward_trans [OF _ onward_waiting])

lemma onward_poll: "onward w (poll_subagent_output k w)"
  by (auto intro!: onward_calm simp: poll_subagent_output_def record_subagent_output_def on_channels_def voice_defs Let_def
      split: sum.splits prod.splits)

lemma onward_activity_only: "onward w (snd (evaluate_activity_only k w))"
proof -
  have st: "onward w (emit_activity_only_status now last_at w)" for now last_at
  proof -
    let ?a = "w\<lparr>wd_last_activity_only_status_at := Some now\<rparr>"
    have "onward w ?a" by (rule onward_calm) (auto simp: voice_defs)
    also have "onward ?a (emit Progress_status x y z z' ?a)" for x y z z' by (rule onward_emit) simp
    finally show ?thesis by (simp add: emit_activity_only_status_def)
  qed
  then show ?thesis
    by (auto simp: evaluate_activity_only_def Let_def intro!: onward_raising onward_fire_with onward_reason)
qed

lemma onward_early: "onward w (snd (early_fire_reason k w))" "onward w (snd (fire_early reason k w))"
proof -
  show "onward w (snd (early_fire_reason k w))"
    by (auto intro!: onward_calm simp: early_fire_reason_def voice_defs split: prod.splits)
  have "onward w (snd (fire_with_evidence k (\<lambda>w. w\<lparr>wd_last_fire_reason := Some reason\<rparr>) u))" if "onward w u" for u
    using that by (intro onward_fire_with onward_reason)
  then show "onward w (snd (fire_early reason k w))"
    unfolding fire_early_def by (intro onward_if_gate onward_gate)
qed

lemma onward_standard: "onward w (snd (evaluate_standard k w))"
  unfolding evaluate_standard_def Let_def
  by (intro onward_raising onward_refl onward_unless onward_start_check)
    (auto split: option.split intro!: onward_unless onward_trans [OF _ onward_strictly_stuck]
      onward_trans [OF _ onward_no_progress] onward_trans [OF _ onward_accumulate] onward_trans [OF _ onward_final])

lemma onward_evaluate: "onward w (snd (evaluate k w))"
proof -
  let ?p = "poll_subagent_output k w"
  note p = onward_poll [of w k]
  obtain r u where e: "early_fire_reason k ?p = (r, u)" by force
  have u: "onward w u" using onward_trans [OF p] onward_early(1) [of ?p k] e by simp
  have "onward w (snd (evaluate_inner k w))"
    using onward_trans [OF p onward_activity_only [of ?p k]] onward_trans [OF u onward_standard [of u k]]
      onward_trans [OF u onward_early(2)]
    by (cases r) (auto simp: evaluate_inner_def Let_def e split_beta)
  moreover have "onward w (x\<lparr>wd_last_verdict := y\<rparr>)" if "onward w x" for x y
    by (rule onward_then [OF that]) (auto simp: voice_defs)
  ultimately show ?thesis by (auto simp: evaluate_def split: prod.splits sum.splits)
qed

section \<open>Lives of a watchdog\<close>

datatype watchdog_op =
    Op_start real | Op_end real | Op_activity real | Op_any_output int | Op_lifecycle real | Op_tool_use real
  | Op_tool_call real "string option" string | Op_error real string | Op_report real string
  | Op_tool_result real bool | Op_liveness real bool bool | Op_session_id string | Op_mcp real
  | Op_subagent json_lib real "string option" | Op_subagent_output int real
  | Op_workspace real "string option" real | Op_waiting_state bool | Op_default_listener bool | Op_evaluate tick

fun apply_op :: "idle_watchdog \<Rightarrow> watchdog_op \<Rightarrow> idle_watchdog" where
  "apply_op w (Op_start t) = record_invocation_start t w"
| "apply_op w (Op_end t) = record_invocation_end t w"
| "apply_op w (Op_activity t) = record_activity t w"
| "apply_op w (Op_any_output n) = record_any_output n w"
| "apply_op w (Op_lifecycle t) = record_lifecycle_activity t w"
| "apply_op w (Op_tool_use t) = record_tool_use_activity t w"
| "apply_op w (Op_tool_call t n b) = record_tool_call_activity t n b w"
| "apply_op w (Op_error t m) = record_error_activity t m w"
| "apply_op w (Op_report t m) = record_progress_report t m w"
| "apply_op w (Op_tool_result t echo) = record_tool_result_activity t echo w"
| "apply_op w (Op_liveness t alive obs) = record_process_liveness t alive obs w"
| "apply_op w (Op_session_id s) = w\<lparr>wd_captured_session_id := Some s\<rparr>"
| "apply_op w (Op_mcp t) = record_mcp_tool_call t w"
| "apply_op w (Op_subagent jl t d) = record_subagent_work jl t d w"
| "apply_op w (Op_subagent_output n t) = record_subagent_output n t w"
| "apply_op w (Op_workspace t kd wt) = (case record_workspace_event t kd wt w of Inl _ \<Rightarrow> w | Inr w' \<Rightarrow> w')"
| "apply_op w (Op_waiting_state b) = w\<lparr>wd_is_waiting_state := b\<rparr>"
| "apply_op w (Op_default_listener b) = w\<lparr>wd_default_listener := b\<rparr>"
| "apply_op w (Op_evaluate k) = snd (evaluate k w)"

definition life :: "timeout_policy \<Rightarrow> real \<Rightarrow> bool \<Rightarrow> watchdog_op list \<Rightarrow> idle_watchdog" where
  "life config born listener ops = foldl apply_op (new_idle_watchdog config born listener) ops"

lemma steps_start: "wd_steps w (record_invocation_start t w)"
proof -
  define u where "u = w\<lparr>wd_last_activity := t, wd_invocation_started_at := Some t, wd_last_meaningful_output_at := Some t,
          wd_has_meaningful_output := False, wd_any_output_count := 0, wd_observed_output_bytes := 0,
          wd_captured_session_id := None, wd_process_alive := True, wd_process_exit_observed_at := None,
          wd_waiting_started_at := None, wd_cumulative_waiting := 0, wd_in_drain_window := False,
          wd_drain_started_at := None, wd_last_fire_reason := None, wd_last_deferred_kind := None,
          wd_last_alive_by := None, wd_default_listener := False, wd_deferred_log_at := [],
          wd_any_deferred_log_at := [], wd_evidence_log_at := [], wd_last_waiting_status_at := None,
          wd_suspicion_announced := False, wd_last_tool_result_at := None, wd_awaiting_progression := False,
          wd_channels := no_evidence, wd_entry_corroboration := None, wd_last_progress_fingerprint := None\<rparr>"
  have "wd_step w u" by (rule wd_step.restart) (auto simp: voice_defs u_def)
  then have "wd_steps w (set_stall False 0 u)" using wd_step.flip by (meson rtranclp.simps)
  then show ?thesis by (simp add: record_invocation_start_def u_def)
qed

lemma onward_with_tracker: "onward w (w'\<lparr>wd_tracker := t\<rparr>)" if "onward w w'"
  by (rule onward_then [OF that]) (auto simp: voice_defs)

lemma onward_op:
  assumes "\<forall>t. x \<noteq> Op_start t"
  shows "onward w (apply_op w x)"
proof (cases x)
  case (Op_evaluate k)
  then show ?thesis by (simp add: onward_evaluate)
next
  case (Op_end t)
  then show ?thesis by (simp add: record_invocation_end_def onward_stall)
next
  case (Op_activity t)
  have "onward w ((reset_idle_baseline t w)\<lparr>wd_tracker := a, wd_last_meaningful_output_at := b, wd_has_meaningful_output := c\<rparr>)" for a b c
    by (rule onward_then [OF onward_baseline]) (auto simp: voice_defs)
  then show ?thesis by (simp add: Op_activity record_activity_def Let_def)
next
  case (Op_lifecycle t)
  have "onward w (record_any_output 0 w)" by (rule onward_calm) (auto simp: voice_defs record_any_output_def)
  then show ?thesis using onward_trans [OF _ onward_baseline] by (simp add: Op_lifecycle record_lifecycle_activity_def)
next
  case (Op_tool_use t)
  show ?thesis unfolding Op_tool_use apply_op.simps record_tool_use_activity_def
    by (rule onward_then [OF onward_baseline]) (auto simp: voice_defs)
next
  case (Op_tool_call t n b)
  then show ?thesis by (simp add: record_tool_call_activity_def Let_def onward_with_tracker onward_accumulate)
next
  case (Op_error t m)
  then show ?thesis by (simp add: record_error_activity_def Let_def onward_with_tracker onward_accumulate)
next
  case (Op_report t m)
  let ?a = "w\<lparr>wd_last_progress_fingerprint := Some (fingerprint m)\<rparr>"
  have "onward w ?a" by (rule onward_calm) (auto simp: voice_defs)
  then have "onward w ((reset_idle_baseline t ?a)\<lparr>wd_tracker := a, wd_last_meaningful_output_at := b, wd_has_meaningful_output := c\<rparr>)" for a b c
    by (rule onward_then [OF onward_trans [OF _ onward_baseline]]) (auto simp: voice_defs)
  then show ?thesis
    by (simp add: Op_report record_progress_report_def record_error_activity_def record_activity_def Let_def onward_with_tracker onward_accumulate)
next
  case (Op_tool_result t echo)
  let ?a = "accumulate_waiting_run t w"
  have a: "onward w ?a" by (rule onward_accumulate)
  have "onward w (?a\<lparr>wd_last_tool_result_at := b, wd_awaiting_progression := c\<rparr>)" for b c
    by (rule onward_then [OF a]) (auto simp: voice_defs)
  moreover have "onward w ((reset_idle_baseline t ?a)\<lparr>wd_last_meaningful_output_at := b, wd_has_meaningful_output := c,
      wd_last_tool_result_at := d, wd_awaiting_progression := e\<rparr>)" for b c d e
    by (rule onward_then [OF onward_trans [OF a onward_baseline]]) (auto simp: voice_defs)
  ultimately show ?thesis by (simp add: Op_tool_result record_tool_result_activity_def Let_def)
qed (use assms in \<open>auto intro!: onward_calm simp: voice_defs record_any_output_def record_process_liveness_def
      record_mcp_tool_call_def record_subagent_work_def record_subagent_output_def record_workspace_event_def
      on_channels_def Let_def split: sum.splits if_splits option.splits\<close>)

lemma op_steps: "wd_steps w (apply_op w x)"
  using onward_op [of x w] steps_start [of w] by (cases "\<exists>t. x = Op_start t") (auto simp: onward_def)

lemma life_append: "life config born listener (ops @ [x]) = apply_op (life config born listener ops) x"
  by (simp add: life_def)

section \<open>Invariants of a life\<close>

text \<open>An invariant of the elementary changes holds in every life.\<close>

locale watchdog_run =
  fixes I :: "idle_watchdog \<Rightarrow> bool"
  assumes I_born: "I (new_idle_watchdog config born listener)"
    and I_calm: "I w \<Longrightarrow> same_voice w w' \<Longrightarrow> (wd_wf w \<Longrightarrow> wd_wf w') \<Longrightarrow> I w'"
    and I_speak: "I w \<Longrightarrow> kind \<notin> {Stalled, Stall_resumed} \<Longrightarrow> I (emit kind a b c d w)"
    and I_flip: "I w \<Longrightarrow> I (set_stall x i w)"
begin

lemma I_steps: "wd_steps w w' \<Longrightarrow> I w \<Longrightarrow> I w'"
  by (induction rule: rtranclp_induct) (auto elim!: wd_step.cases intro: I_calm I_speak I_flip)

lemma I_life: "I (life config born listener ops)"
proof (induction ops rule: rev_induct)
  case (snoc x ops)
  then show ?case using I_steps [OF op_steps] by (simp add: life_append)
qed (simp add: life_def I_born)

end

interpretation well: watchdog_run wd_wf
  by unfold_locales (auto simp: voice_defs new_idle_watchdog_def)

text \<open>
  The stall events a listener sees: they alternate, beginning with a stall, and the last event of
  any kind carries the present flag.
\<close>

fun stall_trace :: "bool \<Rightarrow> waiting_status_event list \<Rightarrow> bool option" where
  "stall_trace now [] = Some now"
| "stall_trace now (ev # evs) =
     (if se_kind ev = Stalled then (if now \<or> \<not> se_stall_active ev then None else stall_trace True evs)
      else if se_kind ev = Stall_resumed then (if \<not> now \<or> se_stall_active ev then None else stall_trace False evs)
      else if se_stall_active ev \<noteq> now then None else stall_trace now evs)"

lemma stall_trace_append: "stall_trace b (xs @ ys) = Option.bind (stall_trace b xs) (\<lambda>b. stall_trace b ys)"
  by (induction xs arbitrary: b) auto

definition stall_told :: "idle_watchdog \<Rightarrow> bool" where
  "stall_told w \<longleftrightarrow> (if wd_listener w then stall_trace False (wd_events w) = Some (wd_stall_active w) else wd_events w = [])"

lemma emit_events: "\<exists>ev. wd_events (emit kind a b c d w) = (if wd_listener w then wd_events w @ [ev] else wd_events w)
    \<and> se_kind ev = kind \<and> se_stall_active ev = wd_stall_active w"
  by (cases "wd_listener w"; cases "wd_default_listener w") (auto simp: emit_def Let_def intro: exI [of _ "\<lparr>se_kind = kind, se_cumulative_seconds = 0, se_current_run_seconds = 0, se_idle_elapsed_seconds = 0, se_ceiling_seconds = 0, se_suspect_threshold_seconds = None, se_subagent_activity = None, se_last_subagent_progress_at = None, se_current_subagent_tool_call = None, se_stall_active = wd_stall_active w\<rparr>"])

interpretation told: watchdog_run stall_told
proof unfold_locales
  fix w kind a b c d
  assume "stall_told w" "kind \<notin> {Stalled, Stall_resumed}"
  then show "stall_told (emit kind a b c d w)"
    using emit_events [of kind a b c d w] by (auto simp: stall_told_def stall_trace_append)
next
  fix w x i
  assume "stall_told w"
  then show "stall_told (set_stall x i w)"
    using emit_events [of "if x then Stalled else Stall_resumed" 0 i None None "w\<lparr>wd_stall_active := x\<rparr>"]
    by (auto simp: stall_told_def set_stall_def stall_trace_append)
qed (auto simp: stall_told_def same_voice_def new_idle_watchdog_def)

lemma steps_frame: "wd_steps w w' \<Longrightarrow> wd_config w' = wd_config w \<and> wd_session_started_at w' = wd_session_started_at w
    \<and> wd_listener w' = wd_listener w"
  by (induction rule: rtranclp_induct) (auto elim!: wd_step.cases simp: same_voice_def)

lemma life_frame:
  "wd_config (life config born listener ops) = config \<and> wd_session_started_at (life config born listener ops) = born
    \<and> wd_listener (life config born listener ops) = listener"
proof (induction ops rule: rev_induct)
  case (snoc x ops)
  then show ?case using steps_frame [OF op_steps] by (simp add: life_append)
qed (simp add: life_def new_idle_watchdog_def)

end
