(* ===== verification/Watchdog_Properties.thy ===== *)
theory Watchdog_Properties
  imports Watchdog_Runs
begin

text \<open>
  What the in-stream watchdog promises: its absolute ceiling, what justifies a fire, that an
  abandoned agent is killed, the waiting ceilings, the supervision of conflict resolution, and the
  bounds of its caches.  The last section collects behaviour that differs from the documentation.
\<close>

section \<open>What a verdict depends on\<close>

text \<open>The classifier and the evidence test see the configuration, the wait flag, the channels and the last activity.\<close>

definition same_view :: "idle_watchdog \<Rightarrow> idle_watchdog \<Rightarrow> bool" where
  "same_view w u \<longleftrightarrow> wd_config u = wd_config w \<and> wd_is_waiting_state u = wd_is_waiting_state w
     \<and> wd_channels u = wd_channels w \<and> wd_last_activity u = wd_last_activity w"

lemma same_view_refl [simp]: "same_view w w"
  by (simp add: same_view_def)

lemma view_determines:
  assumes "same_view w u"
  shows "classify_stuck_now k u = classify_stuck_now k w" "channel_evidence_active k u = channel_evidence_active k w"
    "last_evidence_summary k u = last_evidence_summary k w"
proof -
  have "evidence_channels live now u = evidence_channels live now w" for live now
    using assms by (simp add: same_view_def evidence_channels_def Let_def)
  then show summary: "last_evidence_summary k u = last_evidence_summary k w"
    by (simp add: last_evidence_summary_def split: sum.split)
  show "classify_stuck_now k u = classify_stuck_now k w" "channel_evidence_active k u = channel_evidence_active k w"
    using assms unfolding classify_stuck_now_def channel_evidence_active_def summary
    by (simp_all add: same_view_def split: sum.split)
qed

lemma accumulate_fields [simp]:
  "wd_config (accumulate_waiting_run now w) = wd_config w"
  "wd_is_waiting_state (accumulate_waiting_run now w) = wd_is_waiting_state w"
  "wd_channels (accumulate_waiting_run now w) = wd_channels w"
  "wd_last_activity (accumulate_waiting_run now w) = wd_last_activity w"
  "wd_session_started_at (accumulate_waiting_run now w) = wd_session_started_at w"
  "wd_tracker (accumulate_waiting_run now w) = wd_tracker w"
  "wd_in_drain_window (accumulate_waiting_run now w) = wd_in_drain_window w"
  "wd_drain_started_at (accumulate_waiting_run now w) = wd_drain_started_at w"
  by (auto simp: accumulate_waiting_run_def Let_def split: option.splits)

lemma enter_fields [simp]:
  "wd_config (enter_waiting k w) = wd_config w"
  "wd_is_waiting_state (enter_waiting k w) = wd_is_waiting_state w"
  "wd_channels (enter_waiting k w) = wd_channels w"
  "wd_last_activity (enter_waiting k w) = wd_last_activity w"
  "wd_cumulative_waiting (enter_waiting k w) = wd_cumulative_waiting w"
  "the (wd_waiting_started_at (enter_waiting k w)) = (case wd_waiting_started_at w of None \<Rightarrow> tk_now k | Some t \<Rightarrow> t)"
  by (auto simp: enter_waiting_def Let_def split: option.splits)

lemma view_accumulate [simp]: "same_view w (accumulate_waiting_run now w)"
  and view_enter [simp]: "same_view w (enter_waiting k w)"
  by (simp_all add: same_view_def)

section \<open>The monitor\<close>

text \<open>Whatever asks for evidence raises exactly when the monitor does.\<close>

lemma monitor_raises:
  "last_evidence_summary k w = Inl e \<longleftrightarrow> live_subagent_count k = Inl e"
  "channel_evidence_active k w = Inl e \<longleftrightarrow> live_subagent_count k = Inl e"
  "classify_stuck_now k w = Inl e \<longleftrightarrow> live_subagent_count k = Inl e"
  by (auto simp: last_evidence_summary_def channel_evidence_active_def classify_stuck_now_def Let_def split: sum.splits)

lemma monitor_answers:
  assumes "live_subagent_count k = Inr n"
  shows "last_evidence_summary k w = Inr (evidence_channels n (tk_now k) w)"
    "\<exists>b. channel_evidence_active k w = Inr b" "\<exists>s. classify_stuck_now k w = Inr s"
  using assms by (simp_all add: last_evidence_summary_def channel_evidence_active_def classify_stuck_now_def Let_def)

lemma raising_simps [simp]:
  "raising (Inr x) w f = f x" "raising (Inl e) w f = (Inl e, w)"
  by (simp_all add: raising_def)

lemma raising_inr: "fst (raising r w f) = Inr v \<longleftrightarrow> (\<exists>x. r = Inr x \<and> fst (f x) = Inr v)"
  by (cases r) simp_all

lemma raising_inl: "fst (raising r w f) = Inl e \<longleftrightarrow> r = Inl e \<or> (\<exists>x. r = Inr x \<and> fst (f x) = Inl e)"
  by (cases r) simp_all

lemma fst_decided [simp]: "fst (decided b) = map_sum id Some (fst b)"
  by (simp add: decided_def)

lemma some_inr [simp]: "map_sum id Some x = Inr y \<longleftrightarrow> (\<exists>v. y = Some v \<and> x = Inr v)" "map_sum id Some x = Inl e \<longleftrightarrow> x = Inl e"
  by (cases x; auto)+

lemma unless_simps [simp]:
  "unless_decided (Inr None, w) step = step w" "unless_decided (Inr (Some v), w) step = (Inr v, w)"
  "unless_decided (Inl e, w) step = (Inl e, w)"
  by (simp_all add: unless_decided_def)

lemma unless_inr: "fst (unless_decided (op, w) step) = Inr v \<longleftrightarrow> op = Inr (Some v) \<or> (op = Inr None \<and> fst (step w) = Inr v)"
  by (auto simp: unless_decided_def split: sum.splits option.splits)

lemma unless_inl: "fst (unless_decided (op, w) step) = Inl e \<longleftrightarrow> op = Inl e \<or> (op = Inr None \<and> fst (step w) = Inl e)"
  by (auto simp: unless_decided_def split: sum.splits option.splits)

lemma fire_with_verdict [simp]:
  "fst (fire_with_evidence k announce w) = (case live_subagent_count k of Inl e \<Rightarrow> Inl e | Inr _ \<Rightarrow> Inr V_fire)"
  by (simp add: fire_with_evidence_def last_evidence_summary_def split: sum.split)

section \<open>The gate\<close>

definition may_fire :: "tick \<Rightarrow> idle_watchdog \<Rightarrow> bool" where
  "may_fire k w \<longleftrightarrow> classify_stuck_now k w \<in> {Inr Stuck, Inr Silent_subagent}"

lemma may_fire_view: "same_view w u \<Longrightarrow> may_fire k u = may_fire k w"
  by (simp add: may_fire_def view_determines)

lemma may_fire_answers: "may_fire k w \<Longrightarrow> \<exists>n. live_subagent_count k = Inr n"
  by (cases "live_subagent_count k") (auto simp: may_fire_def monitor_raises(3) [THEN iffD2])

lemma gate_verdict:
  "fst (gate_fire reason idle k w) = (if reason = Session_ceiling_exceeded then Inr V_fire
     else case live_subagent_count k of Inl e \<Rightarrow> Inl e | Inr _ \<Rightarrow> Inr (if may_fire k w then V_fire else V_continue))"
proof (cases "live_subagent_count k")
  case (Inl e)
  then show ?thesis using monitor_raises(3) [of k w e] by (simp add: gate_fire_def)
next
  case (Inr n)
  then obtain c where "classify_stuck_now k w = Inr c" using monitor_answers(3) by blast
  then show ?thesis using Inr by (auto simp: gate_fire_def may_fire_def Let_def split: prod.splits)
qed

text \<open>The gate followed by a fire: nothing but the monitor raises.\<close>

lemma gated_verdict:
  "fst (if_gate_fires (gate_fire reason idle k w) (\<lambda>u. fire_with_evidence k (announce u) (change u)))
   = (case live_subagent_count k of Inl e \<Rightarrow> Inl e
      | Inr _ \<Rightarrow> Inr (if reason = Session_ceiling_exceeded \<or> may_fire k w then V_fire else V_continue))"
  using gate_verdict [of reason idle k w]
  by (cases "gate_fire reason idle k w") (auto simp: if_gate_fires_def split: sum.splits)

lemma gated_fire_verdict:
  "fst (gated_fire reason idle k w) = (case live_subagent_count k of Inl e \<Rightarrow> Inl e
      | Inr _ \<Rightarrow> Inr (if reason = Session_ceiling_exceeded \<or> may_fire k w then V_fire else V_continue))"
  unfolding gated_fire_def by (rule gated_verdict)

lemma fire_early_verdict:
  "fst (fire_early reason k w) = (case live_subagent_count k of Inl e \<Rightarrow> Inl e
      | Inr _ \<Rightarrow> Inr (if reason = Session_ceiling_exceeded \<or> may_fire k w then V_fire else V_continue))"
  unfolding fire_early_def by (rule gated_verdict)

text \<open>Exactly when the gate lets a fire through.\<close>

lemma may_fire_iff:
  "may_fire k w \<longleftrightarrow> (\<exists>cs. last_evidence_summary k w = Inr cs
     \<and> \<not> wd_is_waiting_state w \<and> current_connectivity_state k \<noteq> Some ''offline''
     \<and> \<not> first_party_fresh cs (activity_evidence_ttl_seconds (wd_config w))
     \<and> \<not> subagent_liveness_fresh cs (activity_evidence_ttl_seconds (wd_config w)))"
  by (cases "last_evidence_summary k w") (auto simp: may_fire_def classify_stuck_now_def classify_stuck_def)

section \<open>The session ceiling\<close>

lemma poll_fields [simp]:
  "wd_config (poll_subagent_output k w) = wd_config w"
  "wd_session_started_at (poll_subagent_output k w) = wd_session_started_at w"
  "wd_is_waiting_state (poll_subagent_output k w) = wd_is_waiting_state w"
  "wd_last_activity (poll_subagent_output k w) = wd_last_activity w"
  "wd_waiting_started_at (poll_subagent_output k w) = wd_waiting_started_at w"
  "wd_cumulative_waiting (poll_subagent_output k w) = wd_cumulative_waiting w"
  "wd_in_drain_window (poll_subagent_output k w) = wd_in_drain_window w"
  "wd_drain_started_at (poll_subagent_output k w) = wd_drain_started_at w"
  by (auto simp: poll_subagent_output_def record_subagent_output_def on_channels_def Let_def split: sum.splits prod.splits)

text \<open>
  C22: Under the standard profile the session ceiling is absolute: whatever was recorded and
  evaluated before, an evaluation at or after the ceiling in which the process monitor does not raise fires
  for that reason.  No activity, evidence, waiting state, exception of the strategy or other answer of
  the surroundings defers it.  The conflict profile has no session ceiling, and an exception of the monitor
  ends the evaluation without a fire (\<open>conflict_profile_ignores_ceiling\<close>, \<open>monitor_failure_defeats_ceiling\<close>).
\<close>

theorem session_ceiling_is_absolute:
  assumes "tp_profile config = Standard_profile" "max_session_seconds config = Some m" "born + m \<le> tk_now k"
    "live_subagent_count k = Inr n"
  shows "fst (evaluate k (life config born listener ops)) = Inr V_fire
    \<and> wd_last_fire_reason (snd (evaluate k (life config born listener ops))) = Some Session_ceiling_exceeded"
proof -
  define w where "w = poll_subagent_output k (life config born listener ops)"
  have w: "wd_config w = config" "wd_session_started_at w = born"
    using life_frame [of config born listener ops] by (simp_all add: w_def)
  have "early_fire_reason k w = (Some Session_ceiling_exceeded, w)"
    using assms w by (simp add: early_fire_reason_def algebra_simps)
  moreover have "fire_early Session_ceiling_exceeded k w
      = (Inr V_fire, (set_stall True (tk_now k - wd_last_activity w) w)\<lparr>wd_last_fire_reason := Some Session_ceiling_exceeded\<rparr>)"
    using monitor_answers(1) [OF assms(4)]
    by (simp add: fire_early_def gate_fire_def if_gate_fires_def fire_with_evidence_def)
  ultimately show ?thesis
    using assms w by (simp add: evaluate_def evaluate_inner_def w_def [symmetric])
qed

definition quiet_tick :: "real \<Rightarrow> agent_execution_state \<Rightarrow> tick" where
  "quiet_tick now q =
     \<lparr>tk_now = now, tk_live = None, tk_discovered = Inr [], tk_read_lines = (\<lambda>_ _. Inr 0),
      tk_corroborator = No_corroborator, tk_connectivity = None, quiet_at_entry = Inr q,
      quiet_at_start_check = Inr q, quiet_at_verdict = Inr q, quiet_in_drain = Inr q, quiet_while_waiting = Inr q\<rparr>"

lemma session_ceiling_is_absolute_witness:
  "fst (evaluate (quiet_tick 5700 Waiting_on_child)
     (life ((timeout_defaults (Some 300))\<lparr>max_session_seconds := Some 5700\<rparr>) 0 True [Op_mcp 5699, Op_waiting_state True]))
   = Inr V_fire"
  using session_ceiling_is_absolute [of "(timeout_defaults (Some 300))\<lparr>max_session_seconds := Some 5700\<rparr>" 5700 0 "quiet_tick 5700 Waiting_on_child"]
  by (simp add: quiet_tick_def timeout_defaults_def live_subagent_count_def)

section \<open>What is told of a stall\<close>

text \<open>
  C25: In every life of a watchdog with a listener, the events that announce and lift a stall
  alternate, beginning with a stall, every event carries the stall flag of its moment, and the flag of the
  watchdog is the one the events leave.
\<close>

theorem stall_events_exact:
  "stall_trace False (wd_events (life config born True ops)) = Some (wd_stall_active (life config born True ops))"
  using told.I_life [of config born True ops] life_frame [of config born True ops] by (simp add: stall_told_def)

text \<open>Within one invocation the account of waiting time never shrinks.\<close>

theorem waiting_account_never_decays:
  assumes "\<forall>t. x \<noteq> Op_start t"
  shows "wd_cumulative_waiting w \<le> wd_cumulative_waiting (apply_op w x)"
  using onward_op [OF assms] by (simp add: onward_def)

section \<open>The waiting branch\<close>

definition waited_so_far :: "real \<Rightarrow> idle_watchdog \<Rightarrow> real" where
  "waited_so_far now w = wd_cumulative_waiting w + (case wd_waiting_started_at w of None \<Rightarrow> 0 | Some t \<Rightarrow> now - t)"

text \<open>A child that is known to be stuck but alive has waited past the ceiling for such children.\<close>

definition stuck_child_overdue :: "tick \<Rightarrow> idle_watchdog \<Rightarrow> bool" where
  "stuck_child_overdue k w \<longleftrightarrow>
     is_set (\<lambda>c. c \<le> waited_so_far (tk_now k) w) (stuck_job_sub_ceiling_seconds (wd_config w))
     \<and> cs_scoped_child_active (call_corroborator_raw k) = Some True
     \<and> cs_alive_by (call_corroborator_raw k) \<in> Some ` set STUCK_ALIVE_BY_VALUES"

lemma waited_entered:
  "wd_cumulative_waiting (enter_waiting k w) + (tk_now k - the (wd_waiting_started_at (enter_waiting k w))) = waited_so_far (tk_now k) w"
  by (simp add: waited_so_far_def split: option.splits)

lemma wf_entered: "wd_wf w \<Longrightarrow> wd_last_waiting_status_at (enter_waiting k w) \<noteq> None"
  by (auto simp: enter_waiting_def wd_wf_def Let_def)

lemma suspicion_status: "wd_last_waiting_status_at (announce_suspicion a b c d e w) = wd_last_waiting_status_at w"
  by (auto simp: announce_suspicion_def split: option.splits)

lemma keep_waiting_verdict:
  "wd_last_waiting_status_at w \<noteq> None \<Longrightarrow>
     fst (keep_waiting k run waited idle ceil suspect w) = map_sum id (\<lambda>_. V_waiting_on_child) (live_subagent_count k)"
  by (cases "live_subagent_count k")
    (auto simp: keep_waiting_def report_subagent_progress_def suspicion_status Let_def split: option.splits)

text \<open>
  While the strategy still reports a child and the process monitor answers, the waiting branch of a watchdog that is
  not supervising a conflict decides by its two ceilings alone.  Past the ceiling for stuck children it fires unless the
  classifier defers; otherwise past the effective ceiling it fires whatever the evidence; below
  both it goes on waiting.  An exception of the strategy counts as a child.
\<close>

theorem waiting_branch_contract:
  assumes "wd_wf w" "tp_profile (wd_config w) = Standard_profile" "live_subagent_count k = Inr n"
    "\<forall>q. quiet_while_waiting k = Inr q \<longrightarrow> q = Waiting_on_child"
  shows "fst (handle_waiting_branch k w) = Inr (
    if stuck_child_overdue k w then (if may_fire k w then V_fire else V_continue)
    else if effective_waiting_ceiling (wd_config w) (cs_alive_by (call_corroborator_raw k)) \<le> waited_so_far (tk_now k) w
      then V_fire else V_waiting_on_child)"
proof -
  let ?e = "enter_waiting k w"
  have q: "(case quiet_while_waiting k of Inl _ \<Rightarrow> Waiting_on_child | Inr q \<Rightarrow> q) = Waiting_on_child"
    using assms(4) by (cases "quiet_while_waiting k") auto
  show ?thesis
    unfolding handle_waiting_branch_def Let_def q waited_entered
    by (simp add: gated_verdict assms(2,3) may_fire_view [OF view_enter] keep_waiting_verdict [OF wf_entered [OF assms(1)]] stuck_child_overdue_def)
qed

lemma wf_new: "wd_wf (new_idle_watchdog config now listener)"
  by (simp add: wd_wf_def new_idle_watchdog_def)

lemma waiting_branch_contract_witness:
  "fst (handle_waiting_branch (quiet_tick 1800 Waiting_on_child)
     ((new_idle_watchdog (timeout_defaults (Some 300)) 0 True)\<lparr>wd_cumulative_waiting := 1800, wd_is_waiting_state := True\<rparr>)) = Inr V_fire
   \<and> fst (handle_waiting_branch (quiet_tick 1800 Waiting_on_child) (new_idle_watchdog (timeout_defaults (Some 300)) 0 True)) = Inr V_waiting_on_child"
  using waiting_branch_contract [of "(new_idle_watchdog (timeout_defaults (Some 300)) 0 True)\<lparr>wd_cumulative_waiting := 1800, wd_is_waiting_state := True\<rparr>" "quiet_tick 1800 Waiting_on_child"]
    waiting_branch_contract [of "new_idle_watchdog (timeout_defaults (Some 300)) 0 True" "quiet_tick 1800 Waiting_on_child"]
  by (simp add: quiet_tick_def new_idle_watchdog_def timeout_defaults_def wd_wf_def stuck_child_overdue_def
      waited_so_far_def call_corroborator_raw_def empty_snapshot_def effective_waiting_ceiling_def live_subagent_count_def)

section \<open>Exceptions\<close>

lemma wf_onward: "onward w w' \<Longrightarrow> wd_wf w \<Longrightarrow> wd_wf w'"
  by (auto simp: onward_def intro: well.I_steps)

text \<open>Where nothing but the monitor can raise.\<close>

definition monitored :: "tick \<Rightarrow> 'a res \<times> idle_watchdog \<Rightarrow> bool" where
  "monitored k b \<longleftrightarrow> (\<forall>e. fst b = Inl e \<longrightarrow> live_subagent_count k = Inl e)"

lemma monitored_raising:
  assumes "\<And>e. r = Inl e \<Longrightarrow> live_subagent_count k = Inl e" "\<And>x. monitored k (f x)"
  shows "monitored k (raising r w f)"
  using assms by (auto simp: monitored_def raising_inl)

lemma monitored_inr [simp]: "monitored k (Inr v, w)"
  by (simp add: monitored_def)

lemma monitored_fires:
  "monitored k (decided (if_gate_fires (gate_fire reason idle k w) (\<lambda>u. fire_with_evidence k (announce u) (change u))))"
  "monitored k (if_gate_fires (gate_fire reason idle k w) (\<lambda>u. fire_with_evidence k (announce u) (change u)))"
  "monitored k (gated_fire reason idle k w)" "monitored k (fire_early reason k w)" "monitored k (fire_with_evidence k f w)"
  by (auto simp: monitored_def gated_verdict gated_fire_verdict fire_early_verdict split: sum.splits)

lemma monitored_evaluators:
  "monitored k (evaluate_no_output_at_start k idle w)" "monitored k (evaluate_strictly_stuck k idle w)"
  "monitored k (evaluate_no_progress_quiet k idle w)" "monitored k (post_tool_result_stalled k idle w)"
proof -
  have quiet: "is_no_progress_quiet k ab w = Inl e \<Longrightarrow> live_subagent_count k = Inl e" for ab e
    using monitor_raises(2) [of k w e]
    by (cases "channel_evidence_active k w") (auto simp: is_no_progress_quiet_def Let_def split: option.splits if_splits)
  show "monitored k (evaluate_no_output_at_start k idle w)"
    by (auto simp: evaluate_no_output_at_start_def monitor_raises intro!: monitored_raising monitored_fires split: option.split)
  show "monitored k (evaluate_strictly_stuck k idle w)"
    by (auto simp: evaluate_strictly_stuck_def monitor_raises intro!: monitored_raising monitored_fires split: option.split)
  show "monitored k (evaluate_no_progress_quiet k idle w)"
    by (auto simp: evaluate_no_progress_quiet_def fire_no_progress_quiet_def Let_def quiet intro!: monitored_raising monitored_fires
        split: option.split)
  show "monitored k (post_tool_result_stalled k idle w)"
    using monitored_fires(3) by (auto simp: post_tool_result_stalled_def monitored_def split: option.split)
qed

lemma monitored_defer_or_active: "monitored k (defer_or_active k w)"
  by (auto simp: defer_or_active_def handle_evidence_deferral_def handle_active_branch_def Let_def monitor_raises
      intro!: monitored_raising monitored_fires)

lemma monitored_activity_only: "monitored k (evaluate_activity_only k w)"
proof -
  have "activity_only_snapshot k w = Inl e \<Longrightarrow> live_subagent_count k = Inl e" for e
    by (cases "last_evidence_summary k w") (auto simp: activity_only_snapshot_def monitor_raises)
  then show ?thesis
    by (auto simp: evaluate_activity_only_def Let_def intro!: monitored_raising monitored_fires)
qed

lemma monitored_waiting: "wd_wf w \<Longrightarrow> monitored k (handle_waiting_branch k w)"
proof -
  assume wf: "wd_wf w"
  have "monitored k (keep_waiting k r t i c s (enter_waiting k w))" for r t i c s
    by (cases "live_subagent_count k") (simp_all add: monitored_def keep_waiting_verdict [OF wf_entered [OF wf]])
  then show ?thesis
    unfolding handle_waiting_branch_def Let_def
    by (simp add: monitored_fires monitored_defer_or_active)
qed

lemma final_exceptions:
  assumes "wd_wf w" "fst (evaluate_final_verdict k idle w) = Inl e"
  shows "Inl e \<in> {quiet_at_verdict k, quiet_in_drain k} \<or> live_subagent_count k = Inl e"
proof (cases "wd_in_drain_window w")
  case True
  then obtain t where t: "wd_drain_started_at w = Some t" using assms(1) by (auto simp: wd_wf_def)
  have "wd_wf (w\<lparr>wd_in_drain_window := False, wd_drain_started_at := None\<rparr>)" using assms(1) by (simp add: wd_wf_def)
  from monitored_waiting [OF this, of k] monitored_fires(3) [of k No_output_deadline "tk_now k - wd_last_activity w" w]
  show ?thesis using assms(2) True t
    by (auto simp: evaluate_final_verdict_def handle_drain_window_def raising_inl monitored_def split: if_splits)
next
  case False
  obtain v u where p: "post_tool_result_stalled k idle w = (v, u)" by force
  have "wd_wf u" using onward_post_tool [of w k idle] p wf_onward assms(1) by auto
  from monitored_waiting [OF this, of k] monitored_defer_or_active [of k u] monitored_evaluators(4) [of k idle w]
  show ?thesis using assms(2) False
    by (auto simp: evaluate_final_verdict_def p raising_inl monitored_def unless_inl split: if_splits)
qed

text \<open>
  C26: In every life, an evaluation that raises raises what the strategy raised at one of the
  three places where it is not caught, or what the process monitor raised: the assertions of the
  branches never fail, and the exceptions of the corroborator, the connectivity provider, the discovery and the
  captures never escape.
\<close>

theorem evaluate_raises_only_answers:
  assumes "fst (evaluate k (life config born listener ops)) = Inl e"
  shows "Inl e \<in> {quiet_at_entry k, quiet_at_verdict k, quiet_in_drain k} \<or> tk_live k = Some (Inl e)"
proof -
  have monitor: "live_subagent_count k = Inl e \<longleftrightarrow> tk_live k = Some (Inl e)"
    by (auto simp: live_subagent_count_def split: option.splits)
  define w where "w = poll_subagent_output k (life config born listener ops)"
  have wf: "wd_wf w" unfolding w_def by (rule wf_onward [OF onward_poll well.I_life])
  obtain r u where e: "early_fire_reason k w = (r, u)" by force
  let ?idle = "tk_now k - wd_last_activity u"
  obtain v1 u1 where s: "evaluate_no_output_at_start k ?idle u = (v1, u1)" by force
  obtain v2 u2 where t: "evaluate_strictly_stuck k ?idle u1 = (v2, u2)" by force
  obtain v3 u3 where q: "evaluate_no_progress_quiet k ?idle u2 = (v3, u3)" by force
  have "onward w u" "onward u u1" "onward u1 u2" "onward u2 u3"
    using onward_early(1) [of w k] onward_start_check [of u k ?idle] onward_strictly_stuck [of u1 k ?idle]
      onward_no_progress [of u2 k ?idle] by (simp_all add: e s t q)
  then have "wd_wf u2" "wd_wf u3" using wf by (blast intro: wf_onward)+
  note final = final_exceptions [OF this(1), of k ?idle e] final_exceptions [OF this(2), of k ?idle e]
  note evaluators = monitored_evaluators(1) [of k ?idle u] monitored_evaluators(2) [of k ?idle u1]
    monitored_evaluators(3) [of k ?idle u2]
  have "fst (evaluate_standard k u) = Inl e \<Longrightarrow>
      Inl e \<in> {quiet_at_entry k, quiet_at_verdict k, quiet_in_drain k} \<or> live_subagent_count k = Inl e"
    using final evaluators unfolding evaluate_standard_def Let_def raising_inl s monitored_def
    by (auto simp: t q unless_inl split: option.splits if_splits)
  moreover have "fst (evaluate_inner k (life config born listener ops)) = Inl e"
    using assms by (auto simp: evaluate_def split: prod.splits sum.splits)
  ultimately have "Inl e \<in> {quiet_at_entry k, quiet_at_verdict k, quiet_in_drain k} \<or> live_subagent_count k = Inl e"
    using monitored_activity_only [of k w] monitored_fires(4) [of k _ u]
    by (auto simp: evaluate_inner_def w_def [symmetric] e monitored_def split: if_splits option.splits)
  then show ?thesis by (simp only: monitor)
qed

lemma evaluate_raises_only_answers_witness:
  "fst (evaluate ((quiet_tick 1 Active_state)\<lparr>quiet_at_entry := Inl (OSError ''gone'')\<rparr>)
     (life (timeout_defaults (Some 300)) 0 True [])) = Inl (OSError ''gone'')"
proof -
  let ?k = "(quiet_tick 1 Active_state)\<lparr>quiet_at_entry := Inl (OSError ''gone'')\<rparr>"
  obtain x where x: "fst (evaluate ?k (life (timeout_defaults (Some 300)) 0 True [])) = Inl x"
    by (simp add: evaluate_def evaluate_inner_def poll_subagent_output_def quiet_tick_def life_def new_idle_watchdog_def
        timeout_defaults_def early_fire_reason_def evaluate_standard_def tripped_def error_dimension_tripped_def
        tool_dimension_tripped_def new_repetition_tracker_def max_fingerprint_count_def Let_def prune_events_def)
  with evaluate_raises_only_answers [OF x] show ?thesis by (auto simp: quiet_tick_def)
qed

section \<open>What justifies a fire\<close>

definition overdue :: "tick \<Rightarrow> idle_watchdog \<Rightarrow> bool" where
  "overdue k w \<longleftrightarrow>
     effective_waiting_ceiling (wd_config w) (cs_alive_by (call_corroborator_raw k)) \<le> waited_so_far (tk_now k) w"

text \<open>Changes that neither the classifier nor the account of waiting can see.\<close>

definition unseen :: "idle_watchdog \<Rightarrow> idle_watchdog \<Rightarrow> bool" where
  "unseen w u \<longleftrightarrow> same_view w u \<and> wd_waiting_started_at u = wd_waiting_started_at w
     \<and> wd_cumulative_waiting u = wd_cumulative_waiting w"

lemma unseen_same: "unseen w u \<Longrightarrow> may_fire k u = may_fire k w \<and> overdue k u = overdue k w"
  using may_fire_view [of w u k] by (simp add: unseen_def overdue_def same_view_def waited_so_far_def)

lemma unseen_trans: "unseen w u \<Longrightarrow> unseen u v \<Longrightarrow> unseen w v"
  by (simp add: unseen_def same_view_def)

lemma start_check_spec:
  "fst (evaluate_no_output_at_start k idle w) = Inr (Some V_fire) \<Longrightarrow> may_fire k w"
  "fst (evaluate_no_output_at_start k idle w) = Inr None \<Longrightarrow> snd (evaluate_no_output_at_start k idle w) = w"
  "may_fire k w \<Longrightarrow> fst (evaluate_no_output_at_start k idle w) \<in> {Inr None, Inr (Some V_fire)}"
proof -
  note [simp] = evaluate_no_output_at_start_def gated_verdict raising_inr
  show "fst (evaluate_no_output_at_start k idle w) = Inr (Some V_fire) \<Longrightarrow> may_fire k w"
    by (auto split: option.splits if_splits sum.splits)
  show "fst (evaluate_no_output_at_start k idle w) = Inr None \<Longrightarrow> snd (evaluate_no_output_at_start k idle w) = w"
    by (auto split: option.splits if_splits sum.splits)
  assume gate: "may_fire k w"
  then obtain n b where "live_subagent_count k = Inr n" "channel_evidence_active k w = Inr b"
    using may_fire_answers monitor_answers(2) by blast
  then show "fst (evaluate_no_output_at_start k idle w) \<in> {Inr None, Inr (Some V_fire)}"
    using gate by (auto split: option.splits)
qed

lemma strictly_stuck_spec:
  "fst (evaluate_strictly_stuck k idle w) = Inr (Some V_fire) \<Longrightarrow> may_fire k w"
  "fst (evaluate_strictly_stuck k idle w) = Inr None \<Longrightarrow>
     snd (evaluate_strictly_stuck k idle w) = w\<lparr>wd_strictly_stuck_since := wd_strictly_stuck_since (snd (evaluate_strictly_stuck k idle w))\<rparr>"
  "may_fire k w \<Longrightarrow> fst (evaluate_strictly_stuck k idle w) \<in> {Inr None, Inr (Some V_fire)}"
proof -
  note [simp] = evaluate_strictly_stuck_def gated_verdict raising_inr
  show "fst (evaluate_strictly_stuck k idle w) = Inr (Some V_fire) \<Longrightarrow> may_fire k w"
    by (auto split: option.splits if_splits sum.splits)
  show "fst (evaluate_strictly_stuck k idle w) = Inr None \<Longrightarrow>
      snd (evaluate_strictly_stuck k idle w) = w\<lparr>wd_strictly_stuck_since := wd_strictly_stuck_since (snd (evaluate_strictly_stuck k idle w))\<rparr>"
    by (auto split: option.splits if_splits sum.splits)
  assume gate: "may_fire k w"
  then obtain n b where "live_subagent_count k = Inr n" "channel_evidence_active k w = Inr b"
    using may_fire_answers monitor_answers(2) by blast
  then show "fst (evaluate_strictly_stuck k idle w) \<in> {Inr None, Inr (Some V_fire)}"
    using gate by (auto split: option.splits)
qed

lemma no_progress_spec:
  "fst (evaluate_no_progress_quiet k idle w) = Inr (Some V_fire) \<Longrightarrow> may_fire k w"
  "fst (evaluate_no_progress_quiet k idle w) = Inr None \<Longrightarrow> snd (evaluate_no_progress_quiet k idle w) = w"
proof -
  note [simp] = evaluate_no_progress_quiet_def fire_no_progress_quiet_def Let_def gated_verdict raising_inr
  show "fst (evaluate_no_progress_quiet k idle w) = Inr (Some V_fire) \<Longrightarrow> may_fire k w"
    by (auto split: option.splits if_splits sum.splits)
  show "fst (evaluate_no_progress_quiet k idle w) = Inr None \<Longrightarrow> snd (evaluate_no_progress_quiet k idle w) = w"
    by (auto split: option.splits if_splits sum.splits)
qed

lemma post_tool_spec:
  "fst (post_tool_result_stalled k idle w) = Inr (Some V_fire) \<Longrightarrow> may_fire k w"
  "fst (post_tool_result_stalled k idle w) = Inr None \<Longrightarrow> snd (post_tool_result_stalled k idle w) = w"
  "may_fire k w \<Longrightarrow> fst (post_tool_result_stalled k idle w) \<in> {Inr None, Inr (Some V_fire)}"
proof -
  note [simp] = post_tool_result_stalled_def gated_fire_verdict
  show "fst (post_tool_result_stalled k idle w) = Inr (Some V_fire) \<Longrightarrow> may_fire k w"
    by (auto split: option.splits if_splits sum.splits)
  show "fst (post_tool_result_stalled k idle w) = Inr None \<Longrightarrow> snd (post_tool_result_stalled k idle w) = w"
    by (auto split: option.splits if_splits sum.splits)
  show "may_fire k w \<Longrightarrow> fst (post_tool_result_stalled k idle w) \<in> {Inr None, Inr (Some V_fire)}"
    using may_fire_answers [of k w] by (auto split: option.splits)
qed

lemma active_spec: "fst (handle_active_branch k w) = Inr V_fire \<Longrightarrow> may_fire k w"
  by (auto simp: handle_active_branch_def Let_def gated_fire_verdict may_fire_view [OF view_accumulate] split: sum.splits if_splits)

lemma defer_or_active_spec: "fst (defer_or_active k w) = Inr V_fire \<Longrightarrow> may_fire k w"
  using active_spec by (auto simp: defer_or_active_def handle_evidence_deferral_def raising_inr split: if_splits)

lemma waiting_spec: "fst (handle_waiting_branch k w) = Inr V_fire \<Longrightarrow> may_fire k w \<or> overdue k w"
proof -
  let ?e = "enter_waiting k w"
  let ?a = "accumulate_waiting_run (tk_now k) ?e"
  assume f: "fst (handle_waiting_branch k w) = Inr V_fire"
  have view: "same_view w ?a" using view_accumulate [of ?e "tk_now k"] view_enter [of w k] by (simp add: same_view_def)
  have act: "fst (defer_or_active k ?a) = Inr V_fire \<Longrightarrow> may_fire k w"
    using defer_or_active_spec [of k ?a] may_fire_view [OF view, of k] by simp
  have keep: "fst (keep_waiting k r t i c s x) \<noteq> Inr V_fire" for r t i c s x
    by (auto simp: keep_waiting_def report_subagent_progress_def raising_inr Let_def split: option.splits)
  show ?thesis
    using f act keep
    unfolding handle_waiting_branch_def Let_def waited_entered overdue_def
    by (auto simp: gated_verdict may_fire_view [OF view_enter] split: if_splits sum.splits)
qed

lemma final_spec: "fst (evaluate_final_verdict k idle w) = Inr V_fire \<Longrightarrow> may_fire k w \<or> overdue k w"
proof -
  assume f: "fst (evaluate_final_verdict k idle w) = Inr V_fire"
  let ?d = "w\<lparr>wd_in_drain_window := False, wd_drain_started_at := None\<rparr>"
  have "unseen w ?d" by (simp add: unseen_def same_view_def)
  note d = unseen_same [OF this, of k]
  obtain v u where p: "post_tool_result_stalled k idle w = (v, u)" by force
  show ?thesis
  proof (cases "wd_in_drain_window w")
    case True
    then show ?thesis
      using f d waiting_spec [of k ?d]
      by (auto simp: evaluate_final_verdict_def handle_drain_window_def gated_fire_verdict raising_inr
          split: option.splits sum.splits if_splits)
  next
    case False
    have "v = Inr None \<Longrightarrow> u = w" "v = Inr (Some V_fire) \<Longrightarrow> may_fire k w" using post_tool_spec(1,2) [of k idle w] p by simp_all
    then show ?thesis using f False waiting_spec [of k w] defer_or_active_spec [of k w]
      by (auto simp: evaluate_final_verdict_def p unless_inr raising_inr split: if_splits)
  qed
qed

lemma standard_spec: "fst (evaluate_standard k w) = Inr V_fire \<Longrightarrow> may_fire k w \<or> overdue k w"
proof -
  assume f: "fst (evaluate_standard k w) = Inr V_fire"
  let ?idle = "tk_now k - wd_last_activity w"
  obtain v1 u1 where s: "evaluate_no_output_at_start k ?idle w = (v1, u1)" by force
  obtain v2 u2 where t: "evaluate_strictly_stuck k ?idle u1 = (v2, u2)" by force
  obtain v3 u3 where q: "evaluate_no_progress_quiet k ?idle u2 = (v3, u3)" by force
  have 1: "v1 = Inr (Some V_fire) \<Longrightarrow> may_fire k w" "v1 = Inr None \<Longrightarrow> u1 = w"
    using start_check_spec(1,2) [of k ?idle w] s by simp_all
  have 2: "v2 = Inr (Some V_fire) \<Longrightarrow> may_fire k u1" "v2 = Inr None \<Longrightarrow> \<exists>x. u2 = u1\<lparr>wd_strictly_stuck_since := x\<rparr>"
    using strictly_stuck_spec(1,2) [of k ?idle u1] t by auto
  have 3: "v3 = Inr (Some V_fire) \<Longrightarrow> may_fire k u2" "v3 = Inr None \<Longrightarrow> u3 = u2"
    using no_progress_spec(1,2) [of k ?idle u2] q by simp_all
  have same: "v1 = Inr None \<Longrightarrow> v2 = Inr None \<Longrightarrow> may_fire k u2 = may_fire k w \<and> overdue k u2 = overdue k w"
    using 1(2) 2(2) by (auto intro!: unseen_same simp: unseen_def same_view_def)
  show ?thesis
    using f 1 2(1) 3 same final_spec [of k ?idle u2] unfolding evaluate_standard_def Let_def raising_inr s
    by (auto simp: t q unless_inr split: option.splits if_splits)
qed

text \<open>
  C23: A watchdog that is not supervising a conflict fires only with a reason: the session
  ceiling has passed, or the time spent waiting for children has reached its ceiling, or the pipeline is not
  waiting, the network is not known to be down, no first-party channel is fresh and no live
  subagent has been seen lately.  In particular a run with fresh evidence is never killed before
  one of the two ceilings.
\<close>

theorem fire_is_justified:
  assumes "tp_profile (wd_config w) = Standard_profile" "fst (evaluate k w) = Inr V_fire"
  defines "p \<equiv> poll_subagent_output k w"
  shows "(\<exists>m. max_session_seconds (wd_config w) = Some m \<and> m \<le> tk_now k - wd_session_started_at w)
    \<or> effective_waiting_ceiling (wd_config w) (cs_alive_by (call_corroborator_raw k)) \<le> waited_so_far (tk_now k) w
    \<or> (\<not> wd_is_waiting_state w \<and> current_connectivity_state k \<noteq> Some ''offline''
        \<and> (\<exists>cs. last_evidence_summary k p = Inr cs
              \<and> \<not> first_party_fresh cs (activity_evidence_ttl_seconds (wd_config w))
              \<and> \<not> subagent_liveness_fresh cs (activity_evidence_ttl_seconds (wd_config w))))"
proof -
  have p: "wd_config p = wd_config w" "wd_is_waiting_state p = wd_is_waiting_state w" "overdue k p = overdue k w"
    "wd_session_started_at p = wd_session_started_at w"
    by (simp_all add: p_def overdue_def waited_so_far_def)
  obtain r u where e: "early_fire_reason k p = (r, u)" by force
  have u: "unseen p u" using e
    by (auto simp: early_fire_reason_def unseen_def same_view_def split: if_splits prod.splits)
  have session: "r = Some Session_ceiling_exceeded \<Longrightarrow>
      \<exists>m. max_session_seconds (wd_config w) = Some m \<and> m \<le> tk_now k - wd_session_started_at w"
    using e p by (cases "max_session_seconds (wd_config w)") (auto simp: early_fire_reason_def split: if_splits prod.splits)
  have "r = Some Session_ceiling_exceeded \<or> may_fire k u \<or> overdue k u"
  proof (cases r)
    case None
    then show ?thesis using assms(1,2) standard_spec [of k u] p
      by (auto simp: evaluate_def evaluate_inner_def p_def [symmetric] Let_def e split: prod.splits sum.splits)
  next
    case (Some x)
    then show ?thesis using assms(1,2) p fire_early_verdict [of x k u]
      by (auto simp: evaluate_def evaluate_inner_def p_def [symmetric] Let_def e split: prod.splits sum.splits if_splits)
  qed
  then show ?thesis
    using session unseen_same [OF u, of k] may_fire_iff [of k p] p by (auto simp: overdue_def)
qed

section \<open>An abandoned agent is killed\<close>

text \<open>Nothing a channel reports is younger than the time to live of evidence, and the pipeline is not waiting.\<close>

definition silent_at :: "real \<Rightarrow> idle_watchdog \<Rightarrow> bool" where
  "silent_at now w \<longleftrightarrow> \<not> wd_is_waiting_state w
     \<and> (\<forall>x \<in> {last_mcp_tool_call_at (wd_channels w), last_subagent_progress_at (wd_channels w),
               last_subagent_output_at (wd_channels w), last_workspace_event_at (wd_channels w)}.
          \<forall>t ttl. x = Some t \<longrightarrow> activity_evidence_ttl_seconds (wd_config w) = Some ttl \<longrightarrow> ttl \<le> now - t)"

lemma silent_later: "silent_at now w \<Longrightarrow> same_view w u \<Longrightarrow> now \<le> later \<Longrightarrow> silent_at later u"
  by (fastforce simp: silent_at_def same_view_def)

lemma stale_may_fire:
  assumes "live_subagent_count k = Inr n" "\<not> wd_is_waiting_state w" "current_connectivity_state k \<noteq> Some ''offline''"
    "\<forall>c \<in> set (evidence_channels n (tk_now k) w). ce_can_defer c \<longrightarrow> \<not> is_fresh (activity_evidence_ttl_seconds (wd_config w)) c"
  shows "may_fire k w" "channel_evidence_active k w = Inr False"
proof -
  let ?cs = "evidence_channels n (tk_now k) w" and ?ttl = "activity_evidence_ttl_seconds (wd_config w)"
  have "\<not> first_party_fresh ?cs ?ttl" "\<not> subagent_liveness_fresh ?cs ?ttl"
    using assms(4) by (fastforce simp: first_party_fresh_def subagent_liveness_fresh_def list_ex_iff is_fresh_def
        split: option.splits if_splits)+
  then show "may_fire k w" using assms(1-3) by (simp add: may_fire_iff monitor_answers(1))
  have "foldl (\<lambda>best c. if ce_tier c \<noteq> tier \<or> \<not> ce_can_defer c \<or> \<not> is_fresh ttl c then best else f best c) None cs = None"
    if "\<forall>c \<in> set cs. ce_can_defer c \<longrightarrow> \<not> is_fresh ttl c" for cs tier ttl and f :: "channel_evidence option \<Rightarrow> channel_evidence \<Rightarrow> channel_evidence option"
    using that by (induction cs) auto
  from this [OF assms(4)] show "channel_evidence_active k w = Inr False"
    using assms(1) by (simp add: channel_evidence_active_def monitor_answers(1) freshest_of_def Let_def)
qed

lemma silent_may_fire:
  assumes "silent_at (tk_now k) w" "live_subagent_count k = Inr n" "n \<le> 0" "current_connectivity_state k \<noteq> Some ''offline''"
  shows "may_fire k w" "channel_evidence_active k w = Inr False"
proof -
  have "\<forall>c \<in> set (evidence_channels n (tk_now k) w). ce_can_defer c \<longrightarrow> \<not> is_fresh (activity_evidence_ttl_seconds (wd_config w)) c"
    using assms(1,3)
    by (auto simp: evidence_channels_def Let_def channel_summary_def subagent_output_summary_def workspace_summary_def
        subagent_liveness_summary_def CHANNEL_DEFERS_BY_DEFAULT_def is_fresh_def silent_at_def latest_def
        split: option.splits if_splits)
  then show "may_fire k w" "channel_evidence_active k w = Inr False"
    using stale_may_fire [OF assms(2) _ assms(4)] assms(1) by (auto simp: silent_at_def)
qed

lemma early_fire_reason_tracker: "\<exists>tr. snd (early_fire_reason k w) = w\<lparr>wd_tracker := tr\<rparr>"
proof -
  have "\<exists>tr. w = w\<lparr>wd_tracker := tr\<rparr>" by (rule exI [of _ "wd_tracker w"]) simp
  then show ?thesis by (auto simp: early_fire_reason_def split: prod.splits)
qed

text \<open>With the gate open an evaluation past the idle deadline fires early or comes to the final verdict.\<close>

lemma reaches_final:
  fixes k w
  defines "p \<equiv> poll_subagent_output k w"
  assumes "tp_profile (wd_config w) = Standard_profile" "may_fire k p"
    "idle_timeout_seconds (wd_config w) = Some t" "quiet_at_entry k = Inr q" "q \<noteq> Waiting_on_child"
    "t \<le> tk_now k - wd_last_activity w"
  shows "fst (evaluate k w) = Inr V_fire \<or> (\<exists>tr x z. fst (evaluate k w)
       = fst (evaluate_final_verdict k (tk_now k - wd_last_activity w) (p\<lparr>wd_tracker := tr, wd_strictly_stuck_since := x\<rparr>))
     \<and> snd (evaluate k w)
       = (snd (evaluate_final_verdict k (tk_now k - wd_last_activity w) (p\<lparr>wd_tracker := tr, wd_strictly_stuck_since := x\<rparr>)))\<lparr>wd_last_verdict := z\<rparr>)"
proof -
  have p: "wd_config p = wd_config w" "wd_last_activity p = wd_last_activity w" by (simp_all add: p_def)
  let ?idle = "tk_now k - wd_last_activity w"
  obtain r u where e: "early_fire_reason k p = (r, u)" by force
  then obtain tr where u: "u = p\<lparr>wd_tracker := tr\<rparr>"
    by (metis early_fire_reason_tracker snd_conv)
  have view: "same_view p (p\<lparr>wd_tracker := tr\<rparr>)" by (simp add: same_view_def)
  have gate: "may_fire k u" using may_fire_view [OF view, of k] assms(3) u by simp
  obtain v1 u1 where s: "evaluate_no_output_at_start k ?idle u = (v1, u1)" by force
  obtain v2 u2 where t: "evaluate_strictly_stuck k ?idle u = (v2, u2)" by force
  have 1: "v1 \<in> {Inr None, Inr (Some V_fire)}" "v1 = Inr None \<Longrightarrow> u1 = u" "v2 \<in> {Inr None, Inr (Some V_fire)}"
    using start_check_spec(2) [of k ?idle u] start_check_spec(3) [of k u ?idle] strictly_stuck_spec(3) [of k u ?idle] gate s t by auto
  have 2: "\<exists>x. v2 = Inr None \<longrightarrow> u2 = p\<lparr>wd_tracker := tr, wd_strictly_stuck_since := x\<rparr>"
    using strictly_stuck_spec(2) [of k ?idle u] t u by auto
  show ?thesis
  proof (cases r)
    case None
    then have ev: "evaluate k w = (case evaluate_standard k u of (Inl e, w) \<Rightarrow> (Inl e, w)
        | (Inr v, w) \<Rightarrow> (Inr v, w\<lparr>wd_last_verdict := Some v\<rparr>))"
      using assms(2) p by (simp add: evaluate_def evaluate_inner_def p_def [symmetric] e)
    consider (start) "v1 = Inr (Some V_fire)" | (stuck) "v1 = Inr None" "u1 = u" "v2 = Inr (Some V_fire)"
      | (final) x where "v1 = Inr None" "u1 = u" "v2 = Inr None" "u2 = p\<lparr>wd_tracker := tr, wd_strictly_stuck_since := x\<rparr>"
      using 1 2 by blast
    then show ?thesis
    proof cases
      case final
      obtain y z where f: "evaluate_final_verdict k ?idle (p\<lparr>wd_tracker := tr, wd_strictly_stuck_since := x\<rparr>) = (y, z)" by force
      have idle: "tk_now k - wd_last_activity u = ?idle" using u p by simp
      have "evaluate_standard k u = (y, z)"
        unfolding evaluate_standard_def Let_def idle s
        using assms(4-7) final t u p by (simp add: f)
      then have "fst (evaluate k w) = y" "\<exists>z'. snd (evaluate k w) = z\<lparr>wd_last_verdict := z'\<rparr>"
        by (auto simp: ev intro: exI [of _ "wd_last_verdict z"] split: sum.splits)
      then show ?thesis using f by (metis fst_conv snd_conv)
    qed (use assms(4-7) u p s t in \<open>simp_all add: ev evaluate_standard_def\<close>)
  next
    case (Some x)
    then show ?thesis using assms(2) p gate fire_early_verdict [of x k u] may_fire_answers [OF gate]
      by (auto simp: evaluate_def evaluate_inner_def p_def [symmetric] e split: prod.splits)
  qed
qed

lemma final_when_silent:
  assumes "may_fire k w" "channel_evidence_active k w = Inr False" "quiet_at_verdict k = Inr q" "q \<noteq> Waiting_on_child"
    "\<not> wd_in_drain_window w"
  shows "fst (evaluate_final_verdict k idle w) = Inr V_fire
    \<or> (fst (evaluate_final_verdict k idle w) = Inr V_continue \<and> drain_window_seconds (wd_config w) \<noteq> 0
       \<and> wd_in_drain_window (snd (evaluate_final_verdict k idle w))
       \<and> wd_drain_started_at (snd (evaluate_final_verdict k idle w)) = Some (tk_now k)
       \<and> same_view w (snd (evaluate_final_verdict k idle w)))"
proof -
  obtain v u where p: "post_tool_result_stalled k idle w = (v, u)" by force
  have v: "v \<in> {Inr None, Inr (Some V_fire)}" "v = Inr None \<Longrightarrow> u = w"
    using post_tool_spec(2) [of k idle w] post_tool_spec(3) [OF assms(1), of idle] p by auto
  have fire: "fst (gated_fire No_output_deadline (tk_now k - wd_last_activity w) k (accumulate_waiting_run (tk_now k) w)) = Inr V_fire"
    using may_fire_answers [OF assms(1)] may_fire_view [OF view_accumulate] assms(1) by (auto simp: gated_fire_verdict)
  show ?thesis using assms(2-5) v fire
    by (cases "drain_window_seconds (wd_config w) = 0")
      (auto simp: evaluate_final_verdict_def p defer_or_active_def handle_active_branch_def Let_def same_view_def)
qed


text \<open>
  What the surroundings answer about an agent nobody waits for and nothing lives under: there is no
  monitor or it counts no live subagent, and no discovered worker has written a new line.
\<close>

definition nothing_lives :: "tick \<Rightarrow> bool" where
  "nothing_lives k \<longleftrightarrow> (\<exists>n. live_subagent_count k = Inr n \<and> n \<le> 0)
     \<and> (\<forall>capture wid m. tk_read_lines k capture wid = Inr m \<longrightarrow> m = 0)
     \<and> current_connectivity_state k \<noteq> Some ''offline''
     \<and> (\<forall>x \<in> {quiet_at_entry k, quiet_at_verdict k, quiet_in_drain k}. \<exists>q. x = Inr q \<and> q \<noteq> Waiting_on_child)"




abbreviation idle_example :: idle_watchdog where
  "idle_example \<equiv> new_idle_watchdog (timeout_defaults (Some 300)) 0 True"

lemma new_fields [simp]:
  "wd_config (new_idle_watchdog c t l) = c" "wd_last_activity (new_idle_watchdog c t l) = t"
  "wd_in_drain_window (new_idle_watchdog c t l) = False" "wd_is_waiting_state (new_idle_watchdog c t l) = False"
  "wd_cumulative_waiting (new_idle_watchdog c t l) = 0" "wd_waiting_started_at (new_idle_watchdog c t l) = None"
  by (simp_all add: new_idle_watchdog_def)

lemma quiet_fields [simp]:
  "tk_now (quiet_tick t q) = t" "live_subagent_count (quiet_tick t q) = Inr 0" "current_connectivity_state (quiet_tick t q) = None"
  "quiet_at_verdict (quiet_tick t q) = Inr q" "quiet_at_entry (quiet_tick t q) = Inr q"
  "quiet_in_drain (quiet_tick t q) = Inr q" "call_corroborator_raw (quiet_tick t q) = empty_snapshot"
  "poll_subagent_output (quiet_tick t q) w = w"
  by (simp_all add: quiet_tick_def live_subagent_count_def current_connectivity_state_def call_corroborator_raw_def poll_subagent_output_def)

text \<open>The same with a monitor that counts no subagent.\<close>

abbreviation watched_tick :: "real \<Rightarrow> tick" where
  "watched_tick now \<equiv> (quiet_tick now Active_state)\<lparr>tk_live := Some (Inr 0)\<rparr>"

lemma quiet_nothing_lives [simp]: "nothing_lives (quiet_tick now Active_state)" "nothing_lives (watched_tick now)"
  by (simp_all add: nothing_lives_def quiet_tick_def live_subagent_count_def current_connectivity_state_def)

lemma new_silent [simp]: "silent_at now (new_idle_watchdog config born listener)"
  by (simp add: silent_at_def new_idle_watchdog_def no_evidence_def)


abbreviation impatient_example :: idle_watchdog where
  "impatient_example \<equiv> new_idle_watchdog ((timeout_defaults (Some 300))\<lparr>drain_window_seconds := 0\<rparr>) 0 True"

lemma impatient_reaches_final:
  "fst (evaluate (quiet_tick 400 Active_state) impatient_example) = Inr V_fire"
proof -
  let ?k = "quiet_tick 400 Active_state"
  have k: "live_subagent_count ?k = Inr 0" "(0::int) \<le> 0" "current_connectivity_state ?k \<noteq> Some ''offline''" "quiet_at_verdict ?k = Inr Active_state"
    "quiet_at_entry ?k = Inr Active_state"
    by simp_all
  have quiet: "may_fire ?k u" "channel_evidence_active ?k u = Inr False" if "same_view impatient_example u" for u
    using silent_may_fire [OF silent_later [OF new_silent that order_refl] k(1-3)] by simp_all
  show ?thesis
  proof (rule ccontr)
    assume no: "\<not> ?thesis"
    then obtain tr x where f: "fst (evaluate ?k impatient_example)
        = fst (evaluate_final_verdict ?k 400 (impatient_example\<lparr>wd_tracker := tr, wd_strictly_stuck_since := x\<rparr>))"
      using reaches_final [of impatient_example ?k 300 Active_state] quiet [of impatient_example] k
      by (auto simp: timeout_defaults_def)
    have "same_view impatient_example (impatient_example\<lparr>wd_tracker := tr, wd_strictly_stuck_since := x\<rparr>)"
      by (simp add: same_view_def)
    from final_when_silent [OF quiet [OF this] k(4), of 400] f no show False by simp
  qed
qed

lemma fire_is_justified_witness:
  "tp_profile (wd_config impatient_example) = Standard_profile
   \<and> fst (evaluate (quiet_tick 400 Active_state) impatient_example) = Inr V_fire
   \<and> (\<exists>cs. last_evidence_summary (quiet_tick 400 Active_state) impatient_example = Inr cs \<and> \<not> first_party_fresh cs (Some 30))"
  using fire_is_justified [OF _ impatient_reaches_final] impatient_reaches_final
  by (auto simp: timeout_defaults_def waited_so_far_def effective_waiting_ceiling_def empty_snapshot_def)

section \<open>Supervision of conflict resolution\<close>

text \<open>The times the channels of an evidence summary report.\<close>

definition reported_times :: "channel_evidence list \<Rightarrow> real list" where
  "reported_times cs = List.map_filter ce_last_at cs"

lemma snapshot_latest:
  "snd (newest_channel (evidence_channels n now w)) = Some (Max (set (reported_times (evidence_channels n now w))))"
proof -
  define f :: "string option \<times> real option \<times> int \<Rightarrow> channel_evidence \<Rightarrow> string option \<times> real option \<times> int"
    where "f = (\<lambda>(kind, since, prio) c. (case ce_last_at c of None \<Rightarrow> (kind, since, prio)
            | Some t \<Rightarrow>
                if (case since of None \<Rightarrow> True | Some a \<Rightarrow> t > a \<or> (t = a \<and> liveness_priority (ce_channel c) > prio))
                then (Some (channel_value (ce_channel c)), Some t, liveness_priority (ce_channel c))
                else (kind, since, prio)))"
  have step: "\<exists>kd pr. foldl f (kind, Some a, prio) cs = (kd, Some (Max (insert a (set (reported_times cs)))), pr)" for kind a prio cs
  proof (induction cs arbitrary: kind a prio)
    case Nil
    then show ?case by (simp add: reported_times_def)
  next
    case (Cons c cs)
    show ?case
    proof (cases "ce_last_at c")
      case None
      then have "f (kind, Some a, prio) c = (kind, Some a, prio)" "reported_times (c # cs) = reported_times cs"
        by (simp_all add: f_def reported_times_def List.map_filter_simps)
      then show ?thesis using Cons.IH [of kind a prio] by simp
    next
      case (Some t)
      then have r: "reported_times (c # cs) = t # reported_times cs" by (simp add: reported_times_def List.map_filter_simps)
      obtain kd pr where s: "f (kind, Some a, prio) c = (kd, Some (max a t), pr)"
        using Some by (cases "t > a \<or> (t = a \<and> liveness_priority (ce_channel c) > prio)") (auto simp: f_def max_def)
      have "Max (insert a (set (t # reported_times cs))) = Max (insert (max a t) (set (reported_times cs)))"
        by (cases "reported_times cs = []") (simp_all add: max.assoc)
      then show ?thesis using Cons.IH [of kd "max a t" pr] s r by simp
    qed
  qed
  obtain cs where cs: "evidence_channels n now w = channel_summary Stdout_ch (Some (wd_last_activity w)) None now None None None # cs"
    by (simp add: evidence_channels_def Let_def)
  have "f (None, None, -1) (channel_summary Stdout_ch (Some (wd_last_activity w)) None now None None None)
      = (Some ''stdout'', Some (wd_last_activity w), 0)"
    by (simp add: f_def channel_summary_def channel_value_def liveness_priority_def)
  moreover have "set (reported_times (evidence_channels n now w)) = insert (wd_last_activity w) (set (reported_times cs))"
    by (simp add: cs reported_times_def channel_summary_def List.map_filter_simps)
  ultimately show ?thesis
    using step [of "Some ''stdout''" "wd_last_activity w" 0 cs]
    unfolding newest_channel_def f_def [symmetric] by (auto simp: cs)
qed

text \<open>
  C27: Under the conflict profile an evaluation in which the process monitor does not raise gives a
  verdict whatever the strategy would answer, and fires in exactly two cases: the operator's cap since the
  start of the invocation is reached, or the newest time any channel reports is at least the idle timeout
  old.  The cap wins, and the reason recorded says which.
\<close>

theorem conflict_supervision_exact:
  fixes k w n
  defines "p \<equiv> poll_subagent_output k w"
  defines "idle \<equiv> tk_now k - Max (set (reported_times (evidence_channels n (tk_now k) p)))"
  assumes "live_subagent_count k = Inr n" "tp_profile (wd_config w) = Activity_only"
  shows "fst (evaluate k w) = Inr (
      if activity_only_operator_cap_reached (tk_now k) p \<or> is_set (\<lambda>t. t \<le> idle) (idle_timeout_seconds (wd_config w))
      then V_fire else V_continue)
    \<and> (fst (evaluate k w) = Inr V_fire \<longrightarrow> wd_last_fire_reason (snd (evaluate k w)) =
      Some (if activity_only_operator_cap_reached (tk_now k) p then Operator_cap_reached else Conflict_inactivity))"
proof -
  have "wd_config p = wd_config w" by (simp add: p_def)
  moreover have "wd_config (emit_activity_only_status a b u) = wd_config u" for a b u by (simp add: emit_activity_only_status_def)
  ultimately show ?thesis
    using assms(3,4) snapshot_latest [of n "tk_now k" p] monitor_answers(1) [OF assms(3)]
    by (auto simp: evaluate_def evaluate_inner_def p_def [symmetric] evaluate_activity_only_def activity_only_snapshot_def
        fire_with_evidence_def Let_def idle_def split: if_splits)
qed

abbreviation conflict_example :: idle_watchdog where
  "conflict_example \<equiv> record_mcp_tool_call 500
     (new_idle_watchdog ((timeout_defaults (Some 300))\<lparr>tp_profile := Activity_only\<rparr>) 0 True)"

lemma conflict_times: "set (reported_times (evidence_channels 0 t conflict_example)) = {0, 500}"
  by (simp add: reported_times_def evidence_channels_def channel_summary_def subagent_output_summary_def workspace_summary_def
      subagent_liveness_summary_def latest_def record_mcp_tool_call_def on_channels_def new_idle_watchdog_def no_evidence_def
      quiet_tick_def List.map_filter_simps)

lemma conflict_supervision_exact_witness:
  "fst (evaluate (quiet_tick 799 Waiting_on_child) conflict_example) = Inr V_continue
   \<and> fst (evaluate (quiet_tick 800 Waiting_on_child) conflict_example) = Inr V_fire"
proof -
  have "tp_profile (wd_config conflict_example) = Activity_only" "idle_timeout_seconds (wd_config conflict_example) = Some 300"
    "\<not> activity_only_operator_cap_reached now conflict_example" for now
    by (simp_all add: record_mcp_tool_call_def on_channels_def timeout_defaults_def is_set_def
        activity_only_operator_cap_reached_def both_set_def)
  then show ?thesis
    using conflict_supervision_exact [of "quiet_tick 799 Waiting_on_child" 0 conflict_example]
      conflict_supervision_exact [of "quiet_tick 800 Waiting_on_child" 0 conflict_example]
    by (simp add: conflict_times is_set_def)
qed

section \<open>Bounds of the captures\<close>

text \<open>
  A poll that discovers the live workers leaves at most 128 captures, all of live workers, and at most 128
  tombstones, however many workers were discovered.
\<close>

theorem captures_bounded:
  fixes w
  assumes "tk_live k \<noteq> None" "tk_discovered k = Inr discovered"
  defines "ch \<equiv> wd_channels (poll_subagent_output k w)"
  shows "length (subagent_output_captures ch) \<le> 128 \<and> length (evicted_worker_tombstones ch) \<le> 128
    \<and> set (dkeys (subagent_output_captures ch)) \<subseteq> set (dkeys discovered)"
proof -
  obtain ch' n where p: "poll_channels discovered (tk_read_lines k) (wd_channels w) = (ch', n)" by force
  have short: "length (filter P (drop (length xs - 128) xs)) \<le> 128" for P and xs :: "nat dict"
    using length_filter_le [of P "drop (length xs - 128) xs"] by simp
  have "length (subagent_output_captures ch') \<le> 128 \<and> length (evicted_worker_tombstones ch') \<le> 128
      \<and> set (dkeys (subagent_output_captures ch')) \<subseteq> set (dkeys discovered)"
    using p by (auto simp: poll_channels_def Let_def MAX_SUBAGENT_OUTPUT_CAPTURES_def MAX_EVICTED_TOMBSTONES_def
        slice_last_def dkeys_def short split: prod.splits)
  moreover have "subagent_output_captures ch = subagent_output_captures ch'" "evicted_worker_tombstones ch = evicted_worker_tombstones ch'"
    using assms(1,2) p by (auto simp: ch_def poll_subagent_output_def record_subagent_output_def on_channels_def Let_def)
  ultimately show ?thesis by simp
qed

lemma captures_bounded_witness:
  "length (evicted_worker_tombstones (wd_channels (poll_subagent_output
      ((quiet_tick 1 Active_state)\<lparr>tk_live := Some (Inr 1), tk_discovered := Inr [(''w1'', 1)]\<rparr>) idle_example))) \<le> 128"
  using captures_bounded [of "(quiet_tick 1 Active_state)\<lparr>tk_live := Some (Inr 1), tk_discovered := Inr [(''w1'', 1)]\<rparr>" "[(''w1'', 1)]" idle_example]
  by simp

section \<open>Behaviour that differs from the documentation\<close>

text \<open>
  The ceiling for stuck children hides the hard ceiling: once it is reached, a gate that defers keeps the
  run going however long it has waited.
\<close>

lemma deferred_sub_ceiling_hides_hard_ceiling:
  assumes "tp_profile (wd_config w) = Standard_profile" "quiet_while_waiting k = Inr Waiting_on_child"
    "live_subagent_count k = Inr n" "stuck_child_overdue k w" "\<not> may_fire k w"
  shows "fst (handle_waiting_branch k w) = Inr V_continue"
  using assms unfolding handle_waiting_branch_def Let_def waited_entered
  by (simp add: gated_verdict may_fire_view [OF view_enter] stuck_child_overdue_def)

text \<open>The conflict profile returns before the session ceiling is checked: recent activity keeps the run going past it.\<close>

lemma conflict_profile_ignores_ceiling:
  "let config = (timeout_defaults (Some 300))\<lparr>tp_profile := Activity_only, max_session_seconds := Some 100\<rparr>
   in fst (evaluate (quiet_tick 500 Active_state) (life config 0 True [Op_activity 499])) = Inr V_continue"
proof -
  define config where "config = (timeout_defaults (Some 300))\<lparr>tp_profile := Activity_only, max_session_seconds := Some 100\<rparr>"
  define w where "w = life config 0 True [Op_activity 499]"
  have w: "wd_config w = config" "wd_last_activity w = 499" "wd_invocation_started_at w = None" "wd_channels w = no_evidence"
    by (simp_all add: w_def life_def record_activity_def reset_idle_baseline_def accumulate_waiting_run_def set_stall_def
        new_idle_watchdog_def Let_def)
  have "set (reported_times (evidence_channels 0 500 w)) = {499}"
    by (simp add: reported_times_def evidence_channels_def channel_summary_def subagent_output_summary_def workspace_summary_def
        subagent_liveness_summary_def latest_def w no_evidence_def List.map_filter_simps)
  then have "snd (newest_channel (evidence_channels 0 500 w)) = Some 499"
    using snapshot_latest [of 0 500 w] by simp
  moreover have "wd_config (emit_activity_only_status a b u) = wd_config u" for a b u by (simp add: emit_activity_only_status_def)
  moreover have "tp_profile config = Activity_only" "idle_timeout_seconds config = Some 300"
    by (simp_all add: config_def timeout_defaults_def)
  ultimately have "fst (evaluate (quiet_tick 500 Active_state) w) = Inr V_continue"
    using w by (simp add: evaluate_def evaluate_inner_def evaluate_activity_only_def activity_only_snapshot_def
        monitor_answers(1) [of _ 0] activity_only_operator_cap_reached_def both_set_def is_set_def Let_def split: option.split)
  then show ?thesis by (simp add: w_def config_def Let_def)
qed

text \<open>
  A process monitor that raises ends an evaluation past the session ceiling without a fire: the log
  record of the fire asks it for evidence before the verdict is returned.
\<close>

lemma monitor_failure_defeats_ceiling:
  assumes "tp_profile (wd_config w) = Standard_profile" "max_session_seconds (wd_config w) = Some m"
    "wd_session_started_at w + m \<le> tk_now k" "tk_live k = Some (Inl e)"
  shows "fst (evaluate k w) = Inl e"
proof -
  let ?p = "poll_subagent_output k w"
  have "early_fire_reason k ?p = (Some Session_ceiling_exceeded, ?p)"
    using assms by (simp add: early_fire_reason_def algebra_simps)
  moreover have "fst (fire_early Session_ceiling_exceeded k ?p) = Inl e"
    using assms(4) by (simp add: fire_early_verdict live_subagent_count_def)
  ultimately show ?thesis
    using assms(1) by (auto simp: evaluate_def evaluate_inner_def split: prod.splits)
qed

text \<open>A live subagent that never reported progress keeps the gate closed for as long as it lives.\<close>

lemma silent_live_subagent_always_defers:
  assumes "tk_live k = Some (Inr n)" "0 < n" "last_subagent_progress_at (wd_channels w) = None"
    "activity_evidence_ttl_seconds (wd_config w) = Some ttl" "0 < ttl"
  shows "\<not> may_fire k w"
  using assms by (simp add: may_fire_iff live_subagent_count_def subagent_liveness_fresh_def last_evidence_summary_def
      evidence_channels_def subagent_liveness_summary_def Let_def channel_summary_def subagent_output_summary_def workspace_summary_def)

text \<open>After one report of progress the same live subagent no longer counts once the report is old.\<close>

lemma live_subagent_grows_stale:
  assumes "silent_at (tk_now k) w" "current_connectivity_state k \<noteq> Some ''offline''" "live_subagent_count k = Inr n"
    "last_subagent_progress_at (wd_channels w) = Some t"
  shows "may_fire k w"
proof -
  have "\<forall>c \<in> set (evidence_channels n (tk_now k) w). ce_can_defer c \<longrightarrow> \<not> is_fresh (activity_evidence_ttl_seconds (wd_config w)) c"
    using assms(1,4)
    by (auto simp: evidence_channels_def Let_def channel_summary_def subagent_output_summary_def workspace_summary_def
        subagent_liveness_summary_def CHANNEL_DEFERS_BY_DEFAULT_def is_fresh_def silent_at_def latest_def
        split: option.splits if_splits)
  then show ?thesis using stale_may_fire(1) [OF assms(3) _ assms(2)] assms(1) by (simp add: silent_at_def)
qed

text \<open>The event that ends a waiting run counts the run twice in its cumulative time.\<close>

lemma exit_counts_run_twice:
  assumes "wd_listener w" "wd_waiting_started_at w = Some s" "s \<le> now" "\<not> wd_stall_active w"
  shows "se_cumulative_seconds (last (wd_events (accumulate_waiting_run now w))) = wd_cumulative_waiting w + 2 * (now - s)
    \<and> wd_cumulative_waiting (accumulate_waiting_run now w) = wd_cumulative_waiting w + (now - s)"
  using assms by (simp add: accumulate_waiting_run_def emit_def set_stall_def Let_def max_def)

text \<open>The start of an invocation keeps the breaker, the run of a strictly stuck agent and the time of the last status.\<close>

lemma invocation_start_keeps:
  "wd_tracker (record_invocation_start now w) = wd_tracker w
   \<and> wd_strictly_stuck_since (record_invocation_start now w) = wd_strictly_stuck_since w
   \<and> wd_last_activity_only_status_at (record_invocation_start now w) = wd_last_activity_only_status_at w"
  by (simp add: record_invocation_start_def set_stall_def emit_def Let_def)

text \<open>A silent subagent does not defer a fire.\<close>

lemma silent_subagent_fires:
  "classify_stuck_now k w = Inr Silent_subagent \<Longrightarrow> fst (gate_fire reason idle k w) = Inr V_fire"
  by (simp add: gate_fire_def)

text \<open>A worker with a tombstone that is still discovered keeps it, and is not captured again.\<close>

lemma tombstone_outlives_cycle:
  assumes "evicted_worker_tombstones ch = [wid]" "din wid discovered"
    "length (subagent_output_captures ch) + length discovered \<le> 128"
  shows "wid \<in> set (evicted_worker_tombstones (fst (poll_channels discovered read_lines ch)))"
proof -
  have len: "length (fst (fold (poll_worker read_lines tombs) ds acc)) \<le> length (fst acc) + length ds" for tombs ds acc
  proof (induction ds arbitrary: acc)
    case (Cons d ds)
    have "length (dset a b c) \<le> Suc (length c)" for a :: string and b :: nat and c
      by (induction c) (auto simp: dset_def)
    then have "length (fst (poll_worker read_lines tombs d acc)) \<le> Suc (length (fst acc))"
      by (auto simp: poll_worker_def Let_def split: prod.splits sum.splits)
    then show ?case using Cons.IH [of "poll_worker read_lines tombs d acc"] by simp
  qed simp
  obtain caps n where f: "fold (poll_worker read_lines [wid]) discovered (subagent_output_captures ch, 0) = (caps, n)" by force
  have "length caps \<le> 128" using len [of "[wid]" discovered "(subagent_output_captures ch, 0)"] f assms(3) by simp
  then show ?thesis using assms f
    by (simp add: poll_channels_def din_iff slice_last_def MAX_EVICTED_TOMBSTONES_def MAX_SUBAGENT_OUTPUT_CAPTURES_def Let_def)
qed

end
