(* ===== verification/Post_Exit_Watchdog.thy ===== *)
theory Post_Exit_Watchdog
  imports Idle_Watchdog
begin

text \<open>
  The watchdog after the output of an agent has closed: the poll loop of
  \<^verbatim>\<open>ralph/agents/idle_watchdog/_watch_loop_base.py\<close> and the three waits of \<^verbatim>\<open>_post_exit_watchdog.py\<close>.

  The clock and the predicate are read in turn; \<open>clk i\<close> and \<open>ans i\<close> are the answers of their readings,
  counted from zero.  A wait may be woken at any moment, so nothing is assumed of the time between two
  readings; the loop is a \<open>partial_function\<close>, whose \<open>None\<close> is a loop that never returns.  An answer
  counts the readings of the predicate that were made.
\<close>

section \<open>The poll loop\<close>

partial_function (option) wait_loop ::
  "(nat \<Rightarrow> real) \<Rightarrow> (nat \<Rightarrow> 'a option res) \<Rightarrow> real \<Rightarrow> nat \<Rightarrow> ('a option res \<times> nat) option" where
  "wait_loop clk ans deadline i =
     (if deadline \<le> clk i then Some (Inr None, i)
      else case ans i of
        Inl e \<Rightarrow> Some (Inl e, Suc i)
      | Inr (Some v) \<Rightarrow> Some (Inr (Some v), Suc i)
      | Inr None \<Rightarrow> wait_loop clk ans deadline (Suc i))"

text \<open>The seconds of one wait of the loop.\<close>

definition wait_for :: "real \<Rightarrow> real \<Rightarrow> real" where
  "wait_for poll remaining = (if remaining \<ge> poll then poll else remaining)"

definition wait_until :: "(nat \<Rightarrow> real) \<Rightarrow> (nat \<Rightarrow> 'a option res) \<Rightarrow> real \<Rightarrow> ('a option res \<times> nat) option" where
  "wait_until clk ans timeout =
     (let deadline = clk 0 + timeout
      in case ans 0 of
        Inl e \<Rightarrow> Some (Inl e, 1)
      | Inr (Some v) \<Rightarrow> Some (Inr (Some v), 1)
      | Inr None \<Rightarrow> wait_loop clk ans deadline 1)"

section \<open>The three waits\<close>

datatype post_exit_verdict =
  Pe_continue | Fire_process_exit_hang | Signals_present | Children_active | Quiesced_no_signals | Fire_descendant_hang

text \<open>What a wait answers and leaves as the last verdict reason; an exception leaves it as it was.\<close>

type_synonym post_exit = "post_exit_verdict res \<times> post_exit_verdict option"

definition wait_for_process_exit ::
  "timeout_policy \<Rightarrow> (nat \<Rightarrow> real) \<Rightarrow> (nat \<Rightarrow> bool res) \<Rightarrow> post_exit_verdict option \<Rightarrow> post_exit option" where
  "wait_for_process_exit policy clk exited before =
     Option.bind (wait_until clk (\<lambda>i. rbind (exited i) (\<lambda>b. Inr (if b then Some Pe_continue else None)))
        (process_exit_wait_seconds policy))
       (\<lambda>(r, _). Some (case r of
          Inl e \<Rightarrow> (Inl e, before)
        | Inr (Some _) \<Rightarrow> (Inr Pe_continue, Some Pe_continue)
        | Inr None \<Rightarrow> (Inr Fire_process_exit_hang, Some Fire_process_exit_hang)))"

definition classify_parent_exit_grace :: "agent_execution_state res \<Rightarrow> post_exit_verdict option res" where
  "classify_parent_exit_grace s = rbind s (\<lambda>s. Inr
     (if s = Terminal_complete then Some Signals_present
      else if s = Waiting_on_child then Some Children_active else None))"

definition classify_descendant_quiesce :: "agent_execution_state res \<Rightarrow> post_exit_verdict option res" where
  "classify_descendant_quiesce s = rbind s (\<lambda>s. Inr
     (if s = Terminal_complete then Some Signals_present
      else if s = Resumable_continue then Some Quiesced_no_signals else None))"

text \<open>The state that is asked once more when the time is up.\<close>

definition conclude_wait :: "(agent_execution_state \<Rightarrow> post_exit_verdict) \<Rightarrow> agent_execution_state res \<Rightarrow> post_exit_verdict option \<Rightarrow> post_exit" where
  "conclude_wait verdict s before = (case s of Inl e \<Rightarrow> (Inl e, before) | Inr s \<Rightarrow> (Inr (verdict s), Some (verdict s)))"

definition after_wait ::
  "(agent_execution_state \<Rightarrow> post_exit_verdict) \<Rightarrow> (nat \<Rightarrow> agent_execution_state res) \<Rightarrow> post_exit_verdict option
    \<Rightarrow> post_exit_verdict option res \<times> nat \<Rightarrow> post_exit" where
  "after_wait verdict state before rn = (case rn of
     (Inl e, _) \<Rightarrow> (Inl e, before)
   | (Inr (Some v), _) \<Rightarrow> (Inr v, Some v)
   | (Inr None, n) \<Rightarrow> conclude_wait verdict (state n) before)"

definition grace_verdict :: "agent_execution_state \<Rightarrow> post_exit_verdict" where
  "grace_verdict s = (if s = Terminal_complete then Signals_present
     else if s = Waiting_on_child then Children_active else Quiesced_no_signals)"

definition wait_parent_exit_grace ::
  "timeout_policy \<Rightarrow> (nat \<Rightarrow> real) \<Rightarrow> (nat \<Rightarrow> agent_execution_state res) \<Rightarrow> post_exit_verdict option \<Rightarrow> post_exit option" where
  "wait_parent_exit_grace policy clk state before =
     map_option (after_wait grace_verdict state before)
       (wait_until clk (classify_parent_exit_grace \<circ> state) (parent_exit_grace_seconds policy))"

definition quiesce_verdict :: "agent_execution_state \<Rightarrow> post_exit_verdict" where
  "quiesce_verdict s = (if s = Terminal_complete then Signals_present
     else if s = Waiting_on_child then Fire_descendant_hang else Quiesced_no_signals)"

definition wait_descendant_quiesce ::
  "timeout_policy \<Rightarrow> (nat \<Rightarrow> real) \<Rightarrow> (nat \<Rightarrow> agent_execution_state res) \<Rightarrow> post_exit_verdict option \<Rightarrow> post_exit option" where
  "wait_descendant_quiesce policy clk state before =
     map_option (after_wait quiesce_verdict state before)
       (wait_until clk (classify_descendant_quiesce \<circ> state) (descendant_wait_timeout_seconds policy))"

section \<open>The loop against a reference\<close>

text \<open>The first answer that is not a request to go on.\<close>

fun first_answer :: "'a option res list \<Rightarrow> 'a option res" where
  "first_answer [] = Inr None"
| "first_answer (Inr None # xs) = first_answer xs"
| "first_answer (x # xs) = x"

fun readings :: "'a option res list \<Rightarrow> nat" where
  "readings [] = 0"
| "readings (Inr None # xs) = Suc (readings xs)"
| "readings (x # xs) = 1"

lemma readings_le: "readings xs \<le> length xs"
  by (induction xs rule: readings.induct) auto

lemma wait_loop_spec:
  assumes "i \<le> n" "deadline \<le> clk n" "\<forall>j. i \<le> j \<and> j < n \<longrightarrow> clk j < deadline"
  shows "wait_loop clk ans deadline i = Some (first_answer (map ans [i..<n]), i + readings (map ans [i..<n]))"
  using assms
proof (induction "n - i" arbitrary: i)
  case 0
  then show ?case by (subst wait_loop.simps) simp
next
  case (Suc d)
  then have i: "i < n" "clk i < deadline" and u: "[i..<n] = i # [Suc i..<n]" by (auto simp: upt_conv_Cons)
  have IH: "wait_loop clk ans deadline (Suc i) = Some (first_answer (map ans [Suc i..<n]), Suc i + readings (map ans [Suc i..<n]))"
    using Suc.hyps(1) [of "Suc i"] Suc.hyps(2) Suc.prems i by auto
  show ?case using i IH by (subst wait_loop.simps) (auto simp: u split: sum.splits option.splits)
qed

text \<open>The reading of the clock at which the deadline is first seen, after the first.\<close>

definition expires_at :: "(nat \<Rightarrow> real) \<Rightarrow> real \<Rightarrow> nat \<Rightarrow> bool" where
  "expires_at clk timeout n \<longleftrightarrow> 1 \<le> n \<and> clk 0 + timeout \<le> clk n \<and> (\<forall>j. 1 \<le> j \<and> j < n \<longrightarrow> clk j < clk 0 + timeout)"

lemma wait_until_spec:
  assumes "expires_at clk timeout n"
  shows "wait_until clk ans timeout = Some (first_answer (map ans [0..<n]), readings (map ans [0..<n]))"
proof -
  have u: "[0..<n] = 0 # [1..<n]" using assms by (auto simp: expires_at_def upt_conv_Cons)
  have "wait_loop clk ans (clk 0 + timeout) 1 = Some (first_answer (map ans [1..<n]), 1 + readings (map ans [1..<n]))"
    using assms by (intro wait_loop_spec) (auto simp: expires_at_def)
  then show ?thesis by (auto simp: wait_until_def u split: sum.splits option.splits)
qed

lemma readings_all: "first_answer xs = Inr None \<Longrightarrow> readings xs = length xs"
  by (induction xs rule: readings.induct) auto

text \<open>
  A clock that advances by at least each wait of the loop reaches the deadline, within as many waits as the
  poll interval fits into the timeout, and one more.
\<close>

definition honest_clock :: "(nat \<Rightarrow> real) \<Rightarrow> real \<Rightarrow> real \<Rightarrow> bool" where
  "honest_clock clk poll timeout \<longleftrightarrow> clk 0 \<le> clk 1 \<and>
     (\<forall>i\<ge>1. clk i < clk 0 + timeout \<longrightarrow> clk i + wait_for poll (clk 0 + timeout - clk i) \<le> clk (Suc i))"

lemma honest_clock_expires:
  assumes "0 < poll" "honest_clock clk poll timeout"
  shows "\<exists>n. expires_at clk timeout n \<and> n \<le> Suc (nat \<lceil>timeout / poll\<rceil>)"
proof -
  let ?d = "clk 0 + timeout"
  let ?m = "Suc (nat \<lceil>timeout / poll\<rceil>)"
  have "clk 0 + of_nat k * poll \<le> clk (Suc k) \<or> (\<exists>j \<le> k. ?d \<le> clk (Suc j))" for k
  proof (induction k)
    case 0
    then show ?case using assms(2) by (simp add: honest_clock_def)
  next
    case (Suc k)
    show ?case
    proof (cases "\<exists>j \<le> k. ?d \<le> clk (Suc j)")
      case True
      then show ?thesis using le_Suc_eq by blast
    next
      case False
      then have lt: "clk (Suc k) < ?d" by (auto simp: not_le)
      have ge: "clk 0 + of_nat k * poll \<le> clk (Suc k)" using Suc.IH False by blast
      from assms(2) lt have "clk (Suc k) + wait_for poll (?d - clk (Suc k)) \<le> clk (Suc (Suc k))" by (simp add: honest_clock_def)
      then show ?thesis using ge by (cases "?d - clk (Suc k) \<ge> poll") (auto simp: wait_for_def algebra_simps)
    qed
  qed
  from this [of "nat \<lceil>timeout / poll\<rceil>"] have "\<exists>j < ?m. ?d \<le> clk (Suc j)"
  proof (elim disjE)
    assume "clk 0 + of_nat (nat \<lceil>timeout / poll\<rceil>) * poll \<le> clk ?m"
    moreover have "timeout \<le> of_nat (nat \<lceil>timeout / poll\<rceil>) * poll"
      using real_nat_ceiling_ge [of "timeout / poll"] assms(1) by (simp add: pos_divide_le_eq)
    ultimately show ?thesis by (intro exI [of _ "nat \<lceil>timeout / poll\<rceil>"]) auto
  qed (auto intro: exI [of _ "nat \<lceil>timeout / poll\<rceil>"] simp: less_Suc_eq_le)
  then obtain j where j: "j < ?m" "?d \<le> clk (Suc j)" by blast
  define n where "n = (LEAST n. 1 \<le> n \<and> ?d \<le> clk n)"
  have n: "1 \<le> n \<and> ?d \<le> clk n" unfolding n_def by (rule LeastI [of _ "Suc j"]) (use j in simp)
  have "n \<le> Suc j" unfolding n_def by (rule Least_le) (use j in simp)
  moreover have "clk i < ?d" if "1 \<le> i" "i < n" for i
    using not_less_Least [of i "\<lambda>n. 1 \<le> n \<and> ?d \<le> clk n"] that by (auto simp: n_def not_le)
  ultimately show ?thesis using n j by (intro exI [of _ n]) (auto simp: expires_at_def)
qed

section \<open>What the waits answer\<close>

lemma first_answer_Cons: "first_answer (x # xs) = (if x = Inr None then first_answer xs else x)"
  by (cases x rule: sum.exhaust) (auto simp: first_answer.simps(2,3) split: option.splits elim: option.exhaust)

lemma first_answer_none: "first_answer (map ans xs) = Inr None \<longleftrightarrow> (\<forall>i \<in> set xs. ans i = Inr None)"
  by (induction xs) (auto simp: first_answer_Cons)

lemma first_answer_append: "first_answer (xs @ ys) = (if first_answer xs = Inr None then first_answer ys else first_answer xs)"
  by (induction xs) (auto simp: first_answer_Cons)

lemma first_answer_some:
  "first_answer (map ans [0..<n]) = Inr (Some v) \<longleftrightarrow> (\<exists>i < n. ans i = Inr (Some v) \<and> (\<forall>j < i. ans j = Inr None))"
proof (induction n)
  case (Suc n)
  then show ?case using first_answer_none [of ans "[0..<n]"]
    by (auto simp: first_answer_append first_answer_Cons less_Suc_eq)
qed simp

text \<open>
  With a clock that advances by at least each wait, waiting for the process to exit returns after a bounded number of polls:
  it goes on exactly if an exit was observed before the deadline was seen, and fires otherwise.
\<close>

theorem process_exit_wait_exact:
  assumes "0 < descendant_wait_poll_seconds policy"
    "honest_clock clk (descendant_wait_poll_seconds policy) (process_exit_wait_seconds policy)"
  shows "\<exists>n \<le> Suc (nat \<lceil>process_exit_wait_seconds policy / descendant_wait_poll_seconds policy\<rceil>).
    expires_at clk (process_exit_wait_seconds policy) n \<and>
    wait_for_process_exit policy clk (Inr \<circ> exited) before =
      (let v = (if \<exists>i < n. exited i then Pe_continue else Fire_process_exit_hang) in Some (Inr v, Some v))"
proof -
  obtain n where n: "expires_at clk (process_exit_wait_seconds policy) n"
    "n \<le> Suc (nat \<lceil>process_exit_wait_seconds policy / descendant_wait_poll_seconds policy\<rceil>)"
    using honest_clock_expires [OF assms] by blast
  let ?ans = "\<lambda>i. rbind ((Inr \<circ> exited) i) (\<lambda>b. Inr (if b then Some Pe_continue else None))"
  have "first_answer (map ?ans [0..<n]) = Inr (if \<exists>i < n. exited i then Some Pe_continue else None)"
  proof (cases "\<exists>i < n. exited i")
    case True
    then obtain i where "exited i \<and> i < n" "\<forall>j < i. \<not> (exited j \<and> j < n)"
      using exists_least_iff [of "\<lambda>i. exited i \<and> i < n"] by auto
    then show ?thesis using True first_answer_some [of ?ans n Pe_continue] by auto
  next
    case False
    then show ?thesis using first_answer_none [of ?ans "[0..<n]"] by auto
  qed
  then show ?thesis using n by (intro exI [of _ n]) (auto simp: wait_for_process_exit_def wait_until_spec [OF n(1)] Let_def)
qed

text \<open>
  C31: Under the same clock, waiting for descendants returns, and it reports hanging descendants exactly if no poll
  before the deadline saw a finished or a resumable agent and the state asked for after the deadline is still waiting on a child.
\<close>

theorem descendant_wait_exact:
  assumes "0 < descendant_wait_poll_seconds policy"
    "honest_clock clk (descendant_wait_poll_seconds policy) (descendant_wait_timeout_seconds policy)"
  shows "\<exists>n v. expires_at clk (descendant_wait_timeout_seconds policy) n \<and>
    wait_descendant_quiesce policy clk (Inr \<circ> state) before = Some (Inr v, Some v) \<and>
    (v = Fire_descendant_hang \<longleftrightarrow> (\<forall>i < n. state i \<notin> {Terminal_complete, Resumable_continue}) \<and> state n = Waiting_on_child) \<and>
    (v = Signals_present \<longleftrightarrow> (\<exists>i \<le> n. state i = Terminal_complete \<and> (\<forall>j < i. state j \<noteq> Resumable_continue)))"
proof -
  obtain n where n: "expires_at clk (descendant_wait_timeout_seconds policy) n"
    using honest_clock_expires [OF assms] by blast
  let ?ans = "classify_descendant_quiesce \<circ> (Inr \<circ> state)"
  let ?r = "first_answer (map ?ans [0..<n])"
  have ans: "classify_descendant_quiesce (Inr s) = Inr (if s = Terminal_complete then Some Signals_present
      else if s = Resumable_continue then Some Quiesced_no_signals else None)" for s
    by (simp add: classify_descendant_quiesce_def)
  have w: "wait_descendant_quiesce policy clk (Inr \<circ> state) before
      = Some (after_wait quiesce_verdict (Inr \<circ> state) before (?r, readings (map ?ans [0..<n])))"
    by (simp add: wait_descendant_quiesce_def wait_until_spec [OF n])
  show ?thesis
  proof (cases "\<exists>i < n. state i \<in> {Terminal_complete, Resumable_continue}")
    case False
    then have "?r = Inr None" using first_answer_none [of ?ans "[0..<n]"] by (auto simp: ans)
    moreover have "readings (map ?ans [0..<n]) = n" using readings_all [OF calculation] by simp
    ultimately show ?thesis using n w False
      by (intro exI [of _ n] exI [of _ "quiesce_verdict (state n)"])
        (auto simp: after_wait_def conclude_wait_def quiesce_verdict_def le_less)
  next
    case True
    then obtain i where i: "i < n" "state i \<in> {Terminal_complete, Resumable_continue}" "\<forall>j < i. state j \<notin> {Terminal_complete, Resumable_continue}"
      using exists_least_iff [of "\<lambda>i. i < n \<and> state i \<in> {Terminal_complete, Resumable_continue}"] by auto
    let ?v = "if state i = Terminal_complete then Signals_present else Quiesced_no_signals"
    have "?ans i = Inr (Some ?v)" "\<forall>j < i. ?ans j = Inr None" using i by (auto simp: ans)
    then have "?r = Inr (Some ?v)" using first_answer_some [of ?ans n ?v] i(1) by blast
    moreover have "?v = Signals_present \<longleftrightarrow> (\<exists>k \<le> n. state k = Terminal_complete \<and> (\<forall>j < k. state j \<noteq> Resumable_continue))"
    proof (cases "state i = Terminal_complete")
      case True
      then show ?thesis using i by (auto intro: exI [of _ i])
    next
      case False
      then have "\<not> (state k = Terminal_complete \<and> (\<forall>j < k. state j \<noteq> Resumable_continue))" for k
        using i by (cases k i rule: linorder_cases) auto
      then show ?thesis using False by auto
    qed
    ultimately show ?thesis using n w i
      by (intro exI [of _ n] exI [of _ ?v]) (auto simp: after_wait_def)
  qed
qed

definition steady_clock :: "nat \<Rightarrow> real" where
  "steady_clock i = (if i = 0 then 0 else of_nat (i - 1) * (1/2))"

lemma steady_honest: "honest_clock steady_clock (1/2) timeout"
  by (auto simp: honest_clock_def steady_clock_def wait_for_def field_simps of_nat_diff)

lemma process_exit_wait_exact_witness:
  "\<exists>r. wait_for_process_exit (timeout_defaults (Some 300)) steady_clock (Inr \<circ> (\<lambda>i. False)) None = Some (Inr r, Some r)
     \<and> r = Fire_process_exit_hang"
  using process_exit_wait_exact [of "timeout_defaults (Some 300)" steady_clock "\<lambda>i. False" None] steady_honest
  by (auto simp: timeout_defaults_def)

lemma descendant_wait_exact_witness:
  "wait_descendant_quiesce (timeout_defaults (Some 300)) steady_clock (Inr \<circ> (\<lambda>i. Waiting_on_child)) None
     = Some (Inr Fire_descendant_hang, Some Fire_descendant_hang)"
  using descendant_wait_exact [of "timeout_defaults (Some 300)" steady_clock "\<lambda>i. Waiting_on_child" None] steady_honest
  by (auto simp: timeout_defaults_def)

end
