(* ===== verification/Child_Liveness.thy ===== *)
theory Child_Liveness
  imports Timeout_Policy Py_Text
begin

text \<open>
  The leases of child agents: \<^verbatim>\<open>ralph/process/child_liveness.py\<close> with the records it keeps, the verdict
  on a snapshot, and the probe of \<^verbatim>\<open>_default_liveness_probe.py\<close>.  Every operation takes the reading of the
  clock; the labels of the active processes are an argument of the probe.

  The theorems say which children hold a run: exactly those whose lease has not run out.
\<close>

section \<open>Records and snapshots\<close>

record child_record =
  cr_child_id :: string
  cr_scope_prefix :: string
  cr_pid :: "int option"
  cr_started_at :: real
  cr_last_progress_at :: "real option"
  cr_last_heartbeat_at :: "real option"
  cr_last_ack_at :: "real option"
  cr_last_known_phase :: string
  cr_terminal_state :: "string option"
  cr_lease_expires_at :: "real option"

record child_snapshot =
  sn_scope_prefix :: string
  sn_has_process :: bool
  sn_has_fresh_label :: bool
  sn_has_fresh_progress :: bool
  sn_oldest_live_child_seconds :: "real option"
  sn_active_count :: nat
  sn_terminal_count :: nat
  sn_has_fresh_heartbeat :: bool

record child_verdict =
  cv_alive_by :: "alive_by option"
  cv_deferral_allowed :: bool
  cv_all_children_terminal :: bool

definition classify_child_snapshot :: "child_snapshot \<Rightarrow> bool \<Rightarrow> child_verdict" where
  "classify_child_snapshot s has_os_descendants =
     (if sn_terminal_count s > 0 \<and> sn_active_count s = 0
        then \<lparr>cv_alive_by = None, cv_deferral_allowed = False, cv_all_children_terminal = True\<rparr>
      else if sn_has_fresh_progress s
        then \<lparr>cv_alive_by = Some Fresh_progress, cv_deferral_allowed = True, cv_all_children_terminal = False\<rparr>
      else if sn_has_fresh_heartbeat s \<and> sn_has_process s
        then \<lparr>cv_alive_by = Some Fresh_heartbeat_only, cv_deferral_allowed = True, cv_all_children_terminal = False\<rparr>
      else if sn_has_process s
        then \<lparr>cv_alive_by = Some Stale_label_only, cv_deferral_allowed = sn_has_fresh_label s, cv_all_children_terminal = False\<rparr>
      else if has_os_descendants
        then \<lparr>cv_alive_by = Some Os_descendant_only_stale_progress, cv_deferral_allowed = False, cv_all_children_terminal = False\<rparr>
      else \<lparr>cv_alive_by = None, cv_deferral_allowed = False, cv_all_children_terminal = False\<rparr>)"

section \<open>The registry\<close>

record child_registry =
  lr_progress_ttl :: real
  lr_heartbeat_ttl :: real
  lr_stale_label_ttl :: real
  lr_exit_reconcile :: real
  lr_records :: "child_record dict"

definition new_child_registry :: "real \<Rightarrow> real \<Rightarrow> real \<Rightarrow> real \<Rightarrow> child_registry" where
  "new_child_registry progress_ttl heartbeat_ttl stale_label_ttl exit_reconcile =
     \<lparr>lr_progress_ttl = progress_ttl, lr_heartbeat_ttl = heartbeat_ttl, lr_stale_label_ttl = stale_label_ttl,
      lr_exit_reconcile = exit_reconcile, lr_records = []\<rparr>"

definition register_child :: "real \<Rightarrow> string \<Rightarrow> string \<Rightarrow> int option \<Rightarrow> string \<Rightarrow> child_registry \<Rightarrow> child_registry" where
  "register_child now child_id scope_prefix pid phase g =
     g\<lparr>lr_records := dset child_id
        \<lparr>cr_child_id = child_id, cr_scope_prefix = scope_prefix, cr_pid = pid, cr_started_at = now,
         cr_last_progress_at = None, cr_last_heartbeat_at = None, cr_last_ack_at = None,
         cr_last_known_phase = phase, cr_terminal_state = None, cr_lease_expires_at = None\<rparr> (lr_records g)\<rparr>"

text \<open>A change of the record of a child; an unknown child is ignored.\<close>

definition on_child :: "string \<Rightarrow> (child_record \<Rightarrow> child_record) \<Rightarrow> child_registry \<Rightarrow> child_registry" where
  "on_child child_id f g = (case dget (lr_records g) child_id of
     None \<Rightarrow> g | Some r \<Rightarrow> g\<lparr>lr_records := dset child_id (f r) (lr_records g)\<rparr>)"

definition record_heartbeat :: "real \<Rightarrow> string \<Rightarrow> child_registry \<Rightarrow> child_registry" where
  "record_heartbeat now child_id = on_child child_id (\<lambda>r. r\<lparr>cr_last_heartbeat_at := Some now\<rparr>)"

definition record_progress :: "real \<Rightarrow> string \<Rightarrow> string option \<Rightarrow> child_registry \<Rightarrow> child_registry" where
  "record_progress now child_id phase = on_child child_id (\<lambda>r.
     (let r = r\<lparr>cr_last_progress_at := Some now, cr_last_heartbeat_at := Some now\<rparr>
      in case phase of None \<Rightarrow> r | Some p \<Rightarrow> r\<lparr>cr_last_known_phase := p\<rparr>))"

definition record_terminal_ack :: "real \<Rightarrow> string \<Rightarrow> string \<Rightarrow> child_registry \<Rightarrow> child_registry" where
  "record_terminal_ack now child_id state =
     on_child child_id (\<lambda>r. r\<lparr>cr_last_ack_at := Some now, cr_terminal_state := Some state\<rparr>)"

definition has_child :: "string \<Rightarrow> child_registry \<Rightarrow> bool" where
  "has_child child_id g = din child_id (lr_records g)"

definition in_scope :: "string \<Rightarrow> child_record \<Rightarrow> bool" where
  "in_scope scope_prefix r = starts_with (cr_scope_prefix r) scope_prefix"

definition has_records :: "string \<Rightarrow> child_registry \<Rightarrow> bool" where
  "has_records scope_prefix g = list_ex (\<lambda>(_, r). in_scope scope_prefix r) (lr_records g)"

text \<open>\<open>not_older now ttl t\<close>: the time was set, and not longer ago than the time to live.\<close>

definition not_older :: "real \<Rightarrow> real \<Rightarrow> real option \<Rightarrow> bool" where
  "not_older now ttl t = is_set (\<lambda>t. now - t \<le> ttl) t"

definition is_stale :: "real \<Rightarrow> child_registry \<Rightarrow> child_record \<Rightarrow> bool" where
  "is_stale now g r =
     (if cr_terminal_state r \<noteq> None then is_set (\<lambda>t. now - t > lr_exit_reconcile g) (cr_last_ack_at r)
      else if cr_last_progress_at r \<noteq> None
        then \<not> not_older now (lr_progress_ttl g) (cr_last_progress_at r) \<and> \<not> not_older now (lr_heartbeat_ttl g) (cr_last_heartbeat_at r)
      else now - cr_started_at r > lr_stale_label_ttl g \<and> \<not> not_older now (lr_heartbeat_ttl g) (cr_last_heartbeat_at r))"

definition prune_stale :: "real \<Rightarrow> child_registry \<Rightarrow> child_registry" where
  "prune_stale now g = g\<lparr>lr_records := filter (\<lambda>(_, r). \<not> is_stale now g r) (lr_records g)\<rparr>"

definition prune_count :: "real \<Rightarrow> child_registry \<Rightarrow> nat" where
  "prune_count now g = length (filter (\<lambda>(_, r). is_stale now g r) (lr_records g))"

definition fresh_label :: "real \<Rightarrow> child_registry \<Rightarrow> child_record \<Rightarrow> bool" where
  "fresh_label now g r =
     (now - cr_started_at r \<le> lr_stale_label_ttl g \<or> not_older now (lr_heartbeat_ttl g) (cr_last_heartbeat_at r))"

definition oldest_age :: "real \<Rightarrow> child_record list \<Rightarrow> real option" where
  "oldest_age now rs = foldl (\<lambda>best r. case best of None \<Rightarrow> Some (now - cr_started_at r)
     | Some b \<Rightarrow> if now - cr_started_at r > b then Some (now - cr_started_at r) else best) None rs"

text \<open>A snapshot prunes first; it answers the snapshot and the registry it leaves.\<close>

definition registry_snapshot :: "real \<Rightarrow> string \<Rightarrow> child_registry \<Rightarrow> child_snapshot \<times> child_registry" where
  "registry_snapshot now scope_prefix g =
     (let g = prune_stale now g;
          mine = filter (in_scope scope_prefix) (map snd (lr_records g));
          active = filter (\<lambda>r. cr_terminal_state r = None) mine
      in (\<lparr>sn_scope_prefix = scope_prefix, sn_has_process = (active \<noteq> []),
           sn_has_fresh_label = list_ex (fresh_label now g) active,
           sn_has_fresh_progress = list_ex (\<lambda>r. not_older now (lr_progress_ttl g) (cr_last_progress_at r)) active,
           sn_oldest_live_child_seconds = oldest_age now active,
           sn_active_count = length active,
           sn_terminal_count = length (filter (\<lambda>r. cr_terminal_state r \<noteq> None) mine),
           sn_has_fresh_heartbeat = list_ex (\<lambda>r. not_older now (lr_heartbeat_ttl g) (cr_last_heartbeat_at r)) active\<rparr>, g))"

definition has_active_phase :: "real \<Rightarrow> string \<Rightarrow> string \<Rightarrow> child_registry \<Rightarrow> bool" where
  "has_active_phase now scope_prefix phase g = list_ex (\<lambda>(_, r). in_scope scope_prefix r \<and> cr_terminal_state r = None
     \<and> cr_last_known_phase r = phase \<and> not_older now (lr_heartbeat_ttl g) (cr_last_heartbeat_at r)) (lr_records g)"

definition active_pids :: "real \<Rightarrow> string \<Rightarrow> child_registry \<Rightarrow> int set \<times> child_registry" where
  "active_pids now scope_prefix g =
     (let g = prune_stale now g
      in (set (List.map_filter cr_pid (filter (\<lambda>r. in_scope scope_prefix r \<and> cr_terminal_state r = None) (map snd (lr_records g)))), g))"

section \<open>The production probe\<close>

text \<open>\<open>labels\<close> are the labels of the active processes, \<open>None\<close> for a process without one.\<close>

definition any_agent_active :: "string option list \<Rightarrow> string \<Rightarrow> bool" where
  "any_agent_active labels label_prefix = list_ex (\<lambda>l. is_set (\<lambda>s. starts_with s label_prefix) l) labels"

definition probe_snapshot ::
  "string option list \<Rightarrow> real \<Rightarrow> string \<Rightarrow> child_registry option \<Rightarrow> child_snapshot \<times> child_registry option" where
  "probe_snapshot labels now scope_prefix reg =
     (let hits = (if scope_prefix = [] then [] else filter (is_set (\<lambda>s. starts_with s scope_prefix)) labels)
      in case reg of
        Some g \<Rightarrow>
          (let (s, g) = registry_snapshot now scope_prefix g
           in (\<lparr>sn_scope_prefix = scope_prefix, sn_has_process = (hits \<noteq> [] \<or> sn_has_process s),
                sn_has_fresh_label = sn_has_fresh_label s, sn_has_fresh_progress = sn_has_fresh_progress s,
                sn_oldest_live_child_seconds = sn_oldest_live_child_seconds s,
                sn_active_count = max (length hits) (sn_active_count s), sn_terminal_count = sn_terminal_count s,
                sn_has_fresh_heartbeat = False\<rparr>, Some g))
      | None \<Rightarrow>
          (\<lparr>sn_scope_prefix = scope_prefix, sn_has_process = (hits \<noteq> []), sn_has_fresh_label = (hits \<noteq> []),
            sn_has_fresh_progress = False, sn_oldest_live_child_seconds = None, sn_active_count = length hits,
            sn_terminal_count = 0, sn_has_fresh_heartbeat = False\<rparr>, None))"

section \<open>Which children hold a run\<close>

text \<open>A lease: not ended, and either progress or a heartbeat is recent, or the child is new and never reported progress.\<close>

definition lease_holds :: "real \<Rightarrow> child_registry \<Rightarrow> child_record \<Rightarrow> bool" where
  "lease_holds now g r \<longleftrightarrow> cr_terminal_state r = None
     \<and> (not_older now (lr_progress_ttl g) (cr_last_progress_at r) \<or> not_older now (lr_heartbeat_ttl g) (cr_last_heartbeat_at r)
        \<or> (cr_last_progress_at r = None \<and> now - cr_started_at r \<le> lr_stale_label_ttl g))"

lemma lease_not_stale: "cr_terminal_state r = None \<Longrightarrow> \<not> is_stale now g r \<longleftrightarrow> lease_holds now g r"
  by (auto simp: is_stale_def lease_holds_def not_older_def is_set_def split: option.splits)

text \<open>The pruned records of a scope, those that have ended and those that hold a lease.\<close>

definition scope_records :: "real \<Rightarrow> string \<Rightarrow> child_registry \<Rightarrow> child_record set" where
  "scope_records now scope_prefix g =
     {r \<in> snd ` set (lr_records g). in_scope scope_prefix r \<and> \<not> is_stale now g r}"

lemma scope_active: "{r \<in> scope_records now p g. cr_terminal_state r = None} = {r \<in> snd ` set (lr_records g). in_scope p r \<and> lease_holds now g r}"
  unfolding scope_records_def using lease_not_stale by (auto simp: lease_holds_def)

lemma prune_ttls: "lr_progress_ttl (prune_stale now g) = lr_progress_ttl g" "lr_heartbeat_ttl (prune_stale now g) = lr_heartbeat_ttl g"
    "lr_stale_label_ttl (prune_stale now g) = lr_stale_label_ttl g" "lr_exit_reconcile (prune_stale now g) = lr_exit_reconcile g"
  by (simp_all add: prune_stale_def)

lemma snapshot_sets:
  fixes now p g
  defines "s \<equiv> fst (registry_snapshot now p g)"
  shows "sn_active_count s = 0 \<longleftrightarrow> {r \<in> scope_records now p g. cr_terminal_state r = None} = {}"
    "sn_has_process s \<longleftrightarrow> sn_active_count s > 0"
    "sn_terminal_count s > 0 \<longleftrightarrow> (\<exists>r \<in> scope_records now p g. cr_terminal_state r \<noteq> None)"
    "sn_has_fresh_progress s \<longleftrightarrow> (\<exists>r \<in> scope_records now p g. cr_terminal_state r = None \<and> not_older now (lr_progress_ttl g) (cr_last_progress_at r))"
    "sn_has_fresh_heartbeat s \<longleftrightarrow> (\<exists>r \<in> scope_records now p g. cr_terminal_state r = None \<and> not_older now (lr_heartbeat_ttl g) (cr_last_heartbeat_at r))"
    "sn_has_fresh_label s \<longleftrightarrow> (\<exists>r \<in> scope_records now p g. cr_terminal_state r = None \<and> fresh_label now g r)"
proof -
  have e: "is_stale now (prune_stale now g) = is_stale now g" "fresh_label now (prune_stale now g) = fresh_label now g"
    by (intro ext; simp add: is_stale_def [of now "prune_stale now g"] is_stale_def [of now g] fresh_label_def prune_ttls)+
  define mine where "mine = filter (in_scope p) (map snd (lr_records (prune_stale now g)))"
  have set: "set mine = scope_records now p g" by (force simp: mine_def prune_stale_def scope_records_def)
  have s: "s = \<lparr>sn_scope_prefix = p, sn_has_process = (filter (\<lambda>r. cr_terminal_state r = None) mine \<noteq> []),
           sn_has_fresh_label = list_ex (fresh_label now g) (filter (\<lambda>r. cr_terminal_state r = None) mine),
           sn_has_fresh_progress = list_ex (\<lambda>r. not_older now (lr_progress_ttl g) (cr_last_progress_at r)) (filter (\<lambda>r. cr_terminal_state r = None) mine),
           sn_oldest_live_child_seconds = oldest_age now (filter (\<lambda>r. cr_terminal_state r = None) mine),
           sn_active_count = length (filter (\<lambda>r. cr_terminal_state r = None) mine),
           sn_terminal_count = length (filter (\<lambda>r. cr_terminal_state r \<noteq> None) mine),
           sn_has_fresh_heartbeat = list_ex (\<lambda>r. not_older now (lr_heartbeat_ttl g) (cr_last_heartbeat_at r)) (filter (\<lambda>r. cr_terminal_state r = None) mine)\<rparr>"
    by (simp add: s_def registry_snapshot_def Let_def mine_def prune_ttls e)
  show "sn_active_count s = 0 \<longleftrightarrow> {r \<in> scope_records now p g. cr_terminal_state r = None} = {}"
    "sn_has_process s \<longleftrightarrow> sn_active_count s > 0"
    "sn_terminal_count s > 0 \<longleftrightarrow> (\<exists>r \<in> scope_records now p g. cr_terminal_state r \<noteq> None)"
    "sn_has_fresh_progress s \<longleftrightarrow> (\<exists>r \<in> scope_records now p g. cr_terminal_state r = None \<and> not_older now (lr_progress_ttl g) (cr_last_progress_at r))"
    "sn_has_fresh_heartbeat s \<longleftrightarrow> (\<exists>r \<in> scope_records now p g. cr_terminal_state r = None \<and> not_older now (lr_heartbeat_ttl g) (cr_last_heartbeat_at r))"
    "sn_has_fresh_label s \<longleftrightarrow> (\<exists>r \<in> scope_records now p g. cr_terminal_state r = None \<and> fresh_label now g r)"
    by (auto simp: s filter_empty_conv list_ex_iff simp flip: set)
qed

text \<open>
  A run is held by exactly the children of its scope whose lease holds: the verdict on a snapshot allows
  deferral if and only if there is one, and descendants of the operating system alone never do.  The
  reason is progress if some lease is held by progress, else a heartbeat, else the youth of a child.
  All children count as ended exactly if none holds a lease and an ended one is still remembered.
\<close>

lemma defers_iff_leased:
  fixes now p g os
  defines "v \<equiv> classify_child_snapshot (fst (registry_snapshot now p g)) os"
    and "held \<equiv> {r \<in> snd ` set (lr_records g). in_scope p r \<and> lease_holds now g r}"
  shows "(cv_deferral_allowed v \<longleftrightarrow> held \<noteq> {})
    \<and> (held \<noteq> {} \<longrightarrow> cv_alive_by v = Some (
          if \<exists>r \<in> held. not_older now (lr_progress_ttl g) (cr_last_progress_at r) then Fresh_progress
          else if \<exists>r \<in> held. not_older now (lr_heartbeat_ttl g) (cr_last_heartbeat_at r) then Fresh_heartbeat_only
          else Stale_label_only))
    \<and> (cv_all_children_terminal v \<longleftrightarrow> held = {} \<and> (\<exists>r \<in> scope_records now p g. cr_terminal_state r \<noteq> None))"
proof -
  have held: "held = {r \<in> scope_records now p g. cr_terminal_state r = None}" by (simp add: held_def scope_active)
  note s = snapshot_sets [where now = now and p = p and g = g]
  have lab: "sn_has_fresh_label (fst (registry_snapshot now p g))"
    if "held \<noteq> {}" "\<not> (\<exists>r \<in> held. not_older now (lr_progress_ttl g) (cr_last_progress_at r))"
  proof -
    from that(1) obtain r where r: "r \<in> held" by blast
    then have "fresh_label now g r" using that(2) by (auto simp: held_def lease_holds_def fresh_label_def)
    then show ?thesis using s(6) r held by blast
  qed
  have ac: "sn_active_count (fst (registry_snapshot now p g)) = 0 \<longleftrightarrow> held = {}" using s(1) held by simp
  have fp: "sn_has_fresh_progress (fst (registry_snapshot now p g)) \<longleftrightarrow> (\<exists>r \<in> held. not_older now (lr_progress_ttl g) (cr_last_progress_at r))"
    and fh: "sn_has_fresh_heartbeat (fst (registry_snapshot now p g)) \<longleftrightarrow> (\<exists>r \<in> held. not_older now (lr_heartbeat_ttl g) (cr_last_heartbeat_at r))"
    unfolding s(4,5) held by auto
  show ?thesis
  proof (cases "held = {}")
    case True
    then show ?thesis using ac fp fh s(2,3) by (auto simp: v_def classify_child_snapshot_def)
  next
    case False
    then show ?thesis using ac fp fh lab s(2) by (simp add: v_def classify_child_snapshot_def)
  qed
qed

lemma progress_iff_leased:
  "cv_alive_by (classify_child_snapshot (fst (registry_snapshot now p g)) os) = Some Fresh_progress
     \<longleftrightarrow> (\<exists>r \<in> {r \<in> snd ` set (lr_records g). in_scope p r \<and> lease_holds now g r}.
            not_older now (lr_progress_ttl g) (cr_last_progress_at r))"
proof -
  let ?s = "fst (registry_snapshot now p g)"
  note s = snapshot_sets [where now = now and p = p and g = g]
  have "cv_alive_by (classify_child_snapshot ?s os) = Some Fresh_progress
      \<longleftrightarrow> sn_has_fresh_progress ?s \<and> \<not> (sn_terminal_count ?s > 0 \<and> sn_active_count ?s = 0)"
    by (simp add: classify_child_snapshot_def)
  moreover have "sn_active_count ?s \<noteq> 0" if "sn_has_fresh_progress ?s"
    using that unfolding s(1,4) by blast
  ultimately have "cv_alive_by (classify_child_snapshot ?s os) = Some Fresh_progress \<longleftrightarrow> sn_has_fresh_progress ?s" by blast
  then show ?thesis unfolding scope_active [symmetric] s(4) by blast
qed

section \<open>Histories\<close>

datatype lease_op =
    Op_register real string string "int option" string | Op_heartbeat real string
  | Op_progress real string "string option" | Op_ack real string string | Op_look real string

fun op_time :: "lease_op \<Rightarrow> real" where
  "op_time (Op_register t _ _ _ _) = t"
| "op_time (Op_heartbeat t _) = t"
| "op_time (Op_progress t _ _) = t"
| "op_time (Op_ack t _ _) = t"
| "op_time (Op_look t _) = t"

fun apply_lease_op :: "child_registry \<Rightarrow> lease_op \<Rightarrow> child_registry" where
  "apply_lease_op g (Op_register t c p pid ph) = register_child t c p pid ph g"
| "apply_lease_op g (Op_heartbeat t c) = record_heartbeat t c g"
| "apply_lease_op g (Op_progress t c ph) = record_progress t c ph g"
| "apply_lease_op g (Op_ack t c st) = record_terminal_ack t c st g"
| "apply_lease_op g (Op_look t p) = snd (registry_snapshot t p g)"

definition stamped_by :: "real \<Rightarrow> child_record \<Rightarrow> bool" where
  "stamped_by t r \<longleftrightarrow> cr_started_at r \<le> t
     \<and> (\<forall>x. cr_last_progress_at r = Some x \<longrightarrow> x \<le> t) \<and> (\<forall>x. cr_last_heartbeat_at r = Some x \<longrightarrow> x \<le> t)"

lemma dset_memberD: "(k, v) \<in> set (dset k' v' d) \<Longrightarrow> (k = k' \<and> v = v') \<or> (k, v) \<in> set d"
  unfolding dset_def by (induction d) (auto split: if_splits)

lemma on_child_stamped:
  assumes "\<forall>r \<in> snd ` set (lr_records g). stamped_by t r" "\<And>r. stamped_by t r \<Longrightarrow> stamped_by t (f r)"
  shows "\<forall>r \<in> snd ` set (lr_records (on_child c f g)). stamped_by t r"
  using assms by (fastforce simp: on_child_def split: option.splits dest: dset_memberD dget_SomeD)

lemma op_stamped:
  assumes "\<forall>r \<in> snd ` set (lr_records g). stamped_by t r" "op_time x \<le> t"
  shows "\<forall>r \<in> snd ` set (lr_records (apply_lease_op g x)). stamped_by t r"
proof (cases x)
  case (Op_register t' c p pid ph)
  then show ?thesis using assms by (auto simp: register_child_def stamped_by_def is_set_def dest!: dset_memberD)
next
  case (Op_look t' p)
  then show ?thesis using assms by (auto simp: registry_snapshot_def prune_stale_def Let_def)
next
  case (Op_heartbeat t' c)
  show ?thesis unfolding Op_heartbeat apply_lease_op.simps record_heartbeat_def
    using assms Op_heartbeat by (intro on_child_stamped) (auto simp: stamped_by_def)
next
  case (Op_progress t' c ph)
  show ?thesis unfolding Op_progress apply_lease_op.simps record_progress_def
    using assms Op_progress by (intro on_child_stamped) (auto simp: stamped_by_def Let_def split: option.splits)
next
  case (Op_ack t' c st)
  show ?thesis unfolding Op_ack apply_lease_op.simps record_terminal_ack_def
    using assms by (intro on_child_stamped) (auto simp: stamped_by_def)
qed

lemma ttl_kept: "lr_progress_ttl (apply_lease_op g x) = lr_progress_ttl g \<and> lr_heartbeat_ttl (apply_lease_op g x) = lr_heartbeat_ttl g
    \<and> lr_stale_label_ttl (apply_lease_op g x) = lr_stale_label_ttl g"
  by (cases x) (auto simp: register_child_def record_heartbeat_def record_progress_def record_terminal_ack_def on_child_def
      registry_snapshot_def prune_stale_def Let_def split: option.splits)

lemma history_stamped:
  assumes "list_all (\<lambda>x. op_time x \<le> t) ops" "\<forall>r \<in> snd ` set (lr_records g). stamped_by t r"
  shows "\<forall>r \<in> snd ` set (lr_records (foldl apply_lease_op g ops)). stamped_by t r"
  using assms
proof (induction ops arbitrary: g)
  case (Cons x xs)
  from Cons.prems(1) have x: "op_time x \<le> t" "list_all (\<lambda>x. op_time x \<le> t) xs" by simp_all
  show ?case unfolding foldl.simps using x(2) op_stamped [OF Cons.prems(2) x(1)] by (rule Cons.IH)
qed simp

lemma history_ttls:
  "lr_progress_ttl (foldl apply_lease_op g ops) = lr_progress_ttl g \<and> lr_heartbeat_ttl (foldl apply_lease_op g ops) = lr_heartbeat_ttl g
    \<and> lr_stale_label_ttl (foldl apply_lease_op g ops) = lr_stale_label_ttl g"
  by (induction ops arbitrary: g) (simp_all add: ttl_kept)

lemma stamped_lease_ends:
  assumes "stamped_by t r" "now > t + max (lr_progress_ttl g) (max (lr_heartbeat_ttl g) (lr_stale_label_ttl g))"
  shows "\<not> lease_holds now g r"
proof -
  have "t + lr_progress_ttl g < now" "t + lr_heartbeat_ttl g < now" "t + lr_stale_label_ttl g < now"
    using assms(2) by linarith+
  then have late: "now - x > lr_progress_ttl g \<and> now - x > lr_heartbeat_ttl g \<and> now - x > lr_stale_label_ttl g" if "x \<le> t" for x
    using that by linarith
  show ?thesis using assms(1) late
    by (cases "cr_last_progress_at r"; cases "cr_last_heartbeat_at r")
       (simp_all add: stamped_by_def lease_holds_def not_older_def is_set_def not_le)
qed

text \<open>
  \<open>heard w p c l x\<close>: the time of the lst report of child \<open>c\<close> in scope \<open>p\<close>, after the operation \<open>x\<close>; nothing
  after its end, or when the registry was looked at more than \<open>w\<close> after the lst report.
\<close>

fun heard :: "real \<Rightarrow> string \<Rightarrow> string \<Rightarrow> real option \<Rightarrow> lease_op \<Rightarrow> real option" where
  "heard w p c l (Op_register t c' s _ _) = (if c' = c then (if starts_with s p then Some t else None) else l)"
| "heard w p c l (Op_heartbeat t c') = (if c' = c \<and> l \<noteq> None then Some t else l)"
| "heard w p c l (Op_progress t c' _) = (if c' = c \<and> l \<noteq> None then Some t else l)"
| "heard w p c l (Op_ack _ c' _) = (if c' = c then None else l)"
| "heard w p c l (Op_look t _) = (if is_set (\<lambda>x. t - x \<le> w) l then l else None)"

definition reported_at :: "string \<Rightarrow> real \<Rightarrow> child_record \<Rightarrow> bool" where
  "reported_at p l r \<longleftrightarrow> cr_terminal_state r = None \<and> in_scope p r
     \<and> (cr_last_heartbeat_at r = Some l
        \<or> (cr_last_progress_at r = None \<and> cr_last_heartbeat_at r = None \<and> cr_started_at r = l))"

lemma reported_lease:
  "reported_at p l r \<Longrightarrow> now - l \<le> lr_heartbeat_ttl g \<Longrightarrow> now - l \<le> lr_stale_label_ttl g \<Longrightarrow> lease_holds now g r"
  by (auto simp: reported_at_def lease_holds_def not_older_def is_set_def)

lemma dget_filter: "dget d c = Some r \<Longrightarrow> P (c, r) \<Longrightarrow> dget (filter P d) c = Some r"
  unfolding dget_def by (induction d) auto

lemma heard_step:
  assumes w: "w \<le> lr_heartbeat_ttl g" "w \<le> lr_stale_label_ttl g"
    and inv: "\<And>l. lst = Some l \<Longrightarrow> \<exists>r. dget (lr_records g) c = Some r \<and> reported_at p l r"
    and now: "heard w p c lst x = Some l'"
  shows "\<exists>r. dget (lr_records (apply_lease_op g x)) c = Some r \<and> reported_at p l' r"
proof (cases x)
  case (Op_look t q)
  with now obtain r where r: "dget (lr_records g) c = Some r" "reported_at p l' r" "t - l' \<le> w"
    using inv by (auto simp: is_set_def split: if_splits option.splits)
  then have "\<not> is_stale t g r" using w reported_lease [OF r(2)] lease_not_stale [of r] by (simp add: reported_at_def)
  with r Op_look show ?thesis by (auto simp: registry_snapshot_def prune_stale_def Let_def intro: dget_filter)
next
  case (Op_register t c' s pid ph)
  with inv now show ?thesis by (cases "c' = c") (auto simp: register_child_def reported_at_def in_scope_def split: if_splits)
next
  case (Op_heartbeat t c')
  with inv now show ?thesis
    by (cases lst; cases "c' = c") (auto simp: record_heartbeat_def on_child_def reported_at_def in_scope_def split: option.splits)
next
  case (Op_progress t c' ph)
  with inv now show ?thesis
    by (cases lst; cases "c' = c") (auto simp: record_progress_def on_child_def Let_def reported_at_def in_scope_def split: option.splits)
next
  case (Op_ack t c' st)
  with inv now show ?thesis by (cases "c' = c") (auto simp: record_terminal_ack_def on_child_def split: option.splits)
qed

lemma heard_history:
  assumes "w \<le> lr_heartbeat_ttl g" "w \<le> lr_stale_label_ttl g"
    and "\<And>l. lst = Some l \<Longrightarrow> \<exists>r. dget (lr_records g) c = Some r \<and> reported_at p l r"
    and "foldl (heard w p c) lst ops = Some l"
  shows "\<exists>r. dget (lr_records (foldl apply_lease_op g ops)) c = Some r \<and> reported_at p l r"
  using assms
proof (induction ops arbitrary: g lst)
  case (Cons x xs)
  show ?case
    using Cons.prems(1,2,4) heard_step [OF Cons.prems(1,2,3), where x = x]
    by (simp, intro Cons.IH [of _ "heard w p c lst x"]) (simp_all add: ttl_kept)
qed simp

lemma new_registry_fields:
  "lr_progress_ttl (new_child_registry a b c d) = a" "lr_heartbeat_ttl (new_child_registry a b c d) = b"
  "lr_stale_label_ttl (new_child_registry a b c d) = c" "lr_records (new_child_registry a b c d) = []"
  by (simp_all add: new_child_registry_def)

text \<open>
  A record that a fresh heartbeat alone keeps: its progress, or without progress its label, is stale.
  The documentation of \<^verbatim>\<open>prune_stale\<close> prunes it, the code does not.
\<close>

definition heartbeat_spared :: "real \<Rightarrow> child_registry \<Rightarrow> child_record \<Rightarrow> bool" where
  "heartbeat_spared now g r = (cr_terminal_state r = None \<and> not_older now (lr_heartbeat_ttl g) (cr_last_heartbeat_at r)
     \<and> (case cr_last_progress_at r of Some x \<Rightarrow> now - x > lr_progress_ttl g | None \<Rightarrow> now - cr_started_at r > lr_stale_label_ttl g))"

text \<open>Some look of a history met such a record.\<close>

fun spares :: "child_registry \<Rightarrow> lease_op list \<Rightarrow> bool" where
  "spares g [] = False"
| "spares g (x # xs) =
     ((case x of Op_look t _ \<Rightarrow> list_ex (\<lambda>(_, r). heartbeat_spared t g r) (lr_records g) | _ \<Rightarrow> False)
      \<or> spares (apply_lease_op g x) xs)"

lemma heartbeat_spares_stale_progress:
  "let g = foldl apply_lease_op (new_child_registry 5 5 5 1)
         [Op_register 0 ''c'' ''ab'' None ''spawned'', Op_progress 1 ''c'' None, Op_heartbeat 9 ''c'']
   in list_ex (\<lambda>(_, r). heartbeat_spared 10 g r) (lr_records g) \<and> lr_records (prune_stale 10 g) = lr_records g"
  by code_simp

text \<open>
  C32: For every history of registrations, reports, acknowledgements and looks from an empty registry
  in which, up to the present look, no record is kept by a heartbeat alone while its progress or label is
  stale (there the documentation of \<^verbatim>\<open>prune_stale\<close> and the code disagree): the children of a scope hold a
  run exactly as long as one of them has a lease (its progress or its heartbeat is recent enough, or it
  is young and has reported nothing), and descendants of the operating system alone never hold it; the
  verdict names progress exactly if a lease is held by progress, and calls all children ended exactly if
  no lease is held and an ended child is still remembered; once the last operation is longer ago than
  the three times to live, nothing is held, and a child that was never left unheard for longer than \<open>w\<close>
  at a look (\<open>w\<close> at most the heartbeat and label times) is still known and holds the run.
\<close>

theorem leases_follow_reports:
  fixes progress_ttl heartbeat_ttl stale_label_ttl reconcile :: real
  defines "start \<equiv> new_child_registry progress_ttl heartbeat_ttl stale_label_ttl reconcile"
  assumes t: "list_all (\<lambda>x. op_time x \<le> t) ops"
    and w: "w \<le> heartbeat_ttl" "w \<le> stale_label_ttl"
    and agreed: "\<not> spares start (ops @ [Op_look now p])"
  shows "(let g = foldl apply_lease_op start ops;
              v = classify_child_snapshot (fst (registry_snapshot now p g)) os;
              held = {r \<in> snd ` set (lr_records g). in_scope p r \<and> lease_holds now g r}
          in (cv_deferral_allowed v \<longleftrightarrow> held \<noteq> {})
           \<and> (cv_alive_by v = Some Fresh_progress
                \<longleftrightarrow> (\<exists>r \<in> held. not_older now progress_ttl (cr_last_progress_at r)))
           \<and> (cv_all_children_terminal v
                \<longleftrightarrow> held = {} \<and> (\<exists>r \<in> scope_records now p g. cr_terminal_state r \<noteq> None))
           \<and> (now > t + max progress_ttl (max heartbeat_ttl stale_label_ttl) \<longrightarrow> \<not> cv_deferral_allowed v)
           \<and> (foldl (heard w p c) None ops = Some l \<and> now - l \<le> w \<longrightarrow> cv_deferral_allowed v))"
proof -
  let ?g = "foldl apply_lease_op start ops"
  let ?v = "classify_child_snapshot (fst (registry_snapshot now p ?g)) os"
  let ?held = "{r \<in> snd ` set (lr_records ?g). in_scope p r \<and> lease_holds now ?g r}"
  have ttl: "lr_progress_ttl ?g = progress_ttl" "lr_heartbeat_ttl ?g = heartbeat_ttl" "lr_stale_label_ttl ?g = stale_label_ttl"
    by (simp_all add: history_ttls start_def new_registry_fields)
  have st: "\<forall>r \<in> snd ` set (lr_records ?g). stamped_by t r"
    using t by (rule history_stamped) (simp add: start_def new_registry_fields)
  note d = defers_iff_leased [of now p ?g os]
  have progress: "cv_alive_by ?v = Some Fresh_progress \<longleftrightarrow> (\<exists>r \<in> ?held. not_older now progress_ttl (cr_last_progress_at r))"
    using progress_iff_leased [of now p ?g os] ttl by simp
  have silent: "?held = {}" if "now > t + max progress_ttl (max heartbeat_ttl stale_label_ttl)"
    using st stamped_lease_ends [of t _ ?g now] that by (auto simp: ttl)
  have reports: "?held \<noteq> {}" if h: "foldl (heard w p c) None ops = Some l" "now - l \<le> w"
  proof -
    obtain r where r: "dget (lr_records ?g) c = Some r" "reported_at p l r"
      using heard_history [OF _ _ _ h(1), of start] w by (auto simp: start_def new_registry_fields)
    then have "lease_holds now ?g r" using reported_lease [OF r(2)] h(2) w by (simp add: ttl)
    with r show ?thesis by (force simp: reported_at_def dest: dget_SomeD)
  qed
  show ?thesis unfolding Let_def using d progress silent reports by blast
qed

theorem leases_follow_reports_witness:
  "cv_deferral_allowed (classify_child_snapshot (fst (registry_snapshot 8 ''a''
       (foldl apply_lease_op (new_child_registry 5 5 10 1)
          [Op_register 0 ''c'' ''ab'' None ''spawned'', Op_look 2 ''a'', Op_heartbeat 4 ''c'']))) False)
   \<and> \<not> cv_deferral_allowed (classify_child_snapshot (fst (registry_snapshot 20 ''a''
       (foldl apply_lease_op (new_child_registry 5 5 10 1)
          [Op_register 0 ''c'' ''ab'' None ''spawned'', Op_look 2 ''a'', Op_heartbeat 4 ''c'']))) True)"
proof -
  let ?ops = "[Op_register 0 ''c'' ''ab'' None ''spawned'', Op_look 2 ''a'', Op_heartbeat 4 ''c'']"
  have h: "foldl (heard 5 ''a'' ''c'') None ?ops = Some 4" by code_simp
  have t: "list_all (\<lambda>x. op_time x \<le> 4) ?ops" by simp
  have a: "\<not> spares (new_child_registry 5 5 10 1) (?ops @ [Op_look 8 ''a''])"
    "\<not> spares (new_child_registry 5 5 10 1) (?ops @ [Op_look 20 ''a''])" by code_simp+
  show ?thesis
    using leases_follow_reports [where t = 4 and ops = ?ops and progress_ttl = 5 and heartbeat_ttl = 5 and stale_label_ttl = 10
        and reconcile = 1 and w = 5 and p = "''a''" and c = "''c''" and l = 4 and now = 8 and os = False]
      leases_follow_reports [where t = 4 and ops = ?ops and progress_ttl = 5 and heartbeat_ttl = 5 and stale_label_ttl = 10
        and reconcile = 1 and w = 5 and p = "''a''" and c = "''c''" and l = 4 and now = 20 and os = True]
    unfolding Let_def using t h a by argo
qed

section \<open>What the probe and the registry say differently\<close>

text \<open>
  The registry holds a run on a heartbeat; the probe leaves that field of its snapshot at its default,
  so the same child is reported as a label gone stale.
\<close>

lemma probe_forgets_heartbeat:
  fixes g
  defines "g \<equiv> foldl apply_lease_op (new_child_registry 5 5 5 1) [Op_register 0 ''c'' ''ab'' None ''spawned'', Op_heartbeat 4 ''c'']"
  shows "cv_alive_by (classify_child_snapshot (fst (registry_snapshot 8 ''a'' g)) False) = Some Fresh_heartbeat_only
    \<and> cv_alive_by (classify_child_snapshot (fst (probe_snapshot [] 8 ''a'' (Some g))) False) = Some Stale_label_only"
  unfolding g_def by code_simp

text \<open>The probe never names a heartbeat, and it allows deferral only if the registry's labels or progress do.\<close>

lemma probe_verdict:
  "cv_alive_by (classify_child_snapshot (fst (probe_snapshot labels now p reg)) os) \<noteq> Some Fresh_heartbeat_only"
  by (auto simp: probe_snapshot_def classify_child_snapshot_def Let_def split: option.splits prod.splits)

lemma probe_defers_with_registry:
  assumes "cv_deferral_allowed (classify_child_snapshot (fst (probe_snapshot labels now p (Some g))) os)"
  shows "sn_has_fresh_label (fst (registry_snapshot now p g)) \<or> sn_has_fresh_progress (fst (registry_snapshot now p g))"
  using assms by (auto simp: probe_snapshot_def classify_child_snapshot_def Let_def split: if_splits prod.splits)

text \<open>A report of a child that was pruned changes nothing: it is not seen again until it is registered anew.\<close>

lemma pruned_child_unheard:
  assumes "\<not> has_child c g"
  shows "record_progress now c phase g = g" "record_heartbeat now c g = g" "record_terminal_ack now c st g = g"
  using assms by (simp_all add: has_child_def din_def record_progress_def record_heartbeat_def record_terminal_ack_def on_child_def)

text \<open>Registering an ended child anew starts a fresh lease.\<close>

lemma register_revives:
  "0 \<le> lr_stale_label_ttl g \<Longrightarrow>
     \<exists>r. dget (lr_records (register_child now c p pid ph (record_terminal_ack t c st g))) c = Some r \<and> lease_holds now g r"
  by (simp add: register_child_def lease_holds_def)

end
