(* ===== verification/Dispatch_Gate.thy ===== *)
theory Dispatch_Gate
  imports Worktree_Observation Rebase_State
begin

text \<open>
  The gate in front of every ordinary phase: \<^verbatim>\<open>ralph/pipeline/integration_resolution.py\<close> with its status
  and verdict types, and the release of recorded evidence in
  \<^verbatim>\<open>ralph/pipeline/auto_integrate_resolution_state.py\<close> and \<^verbatim>\<open>apply_containment_release\<close>.

  What Git and the file system answer is the record \<open>live_tree\<close>: the porcelain text and the two operation
  probes (a probe that raises is \<open>None\<close>), the reading of the durable receipt, the tip of a branch.  A
  receipt read may fail with an error of the operating system; \<open>lt_receipt_stat\<close> is the \<^verbatim>\<open>lstat\<close> that
  follows an absent receipt.
\<close>

section \<open>Verdicts\<close>

datatype resolution_status = Resolved | Recoverable | Exhausted

fun resolution_label :: "resolution_status \<Rightarrow> string" where
  "resolution_label Resolved = ''landing''"
| "resolution_label Recoverable = ''waiting''"
| "resolution_label Exhausted = ''intervention''"

datatype block_kind = Unmerged_paths | Rebase_in_progress | Merge_in_progress

datatype unknown_kind = Porcelain_unreadable | Rebase_state_unreadable | Merge_state_unreadable

datatype tree_state = State_known_good | State_known_blocked | State_unknown

datatype probe_outcome = Probe_good | Probe_blocked block_kind string | Probe_unknown unknown_kind

record tree_readiness =
  tr_dispatch_allowed :: bool
  tr_integration_ready :: bool
  tr_blocking_reasons :: "string list"
  tr_block_kinds :: "block_kind list"
  tr_unknown_kinds :: "unknown_kind list"

record resolution_verdict =
  rv_status :: resolution_status
  rv_reasons :: "string list"
  rv_recovery_executor :: "string option"

record assessed_verdict = resolution_verdict +
  av_dispatch_allowed :: bool
  av_integration_ready :: bool
  av_blocking_reasons :: "string list"
  av_block_kinds :: "block_kind list"
  av_unknown_kinds :: "unknown_kind list"

definition dispatch_allowed :: "'a resolution_verdict_scheme \<Rightarrow> bool" where
  "dispatch_allowed v = (rv_status v = Resolved)"

definition integration_state :: "assessed_verdict \<Rightarrow> tree_state" where
  "integration_state v =
     (if av_block_kinds v \<noteq> [] \<or> \<not> dispatch_allowed v then State_known_blocked
      else if av_unknown_kinds v \<noteq> [] then State_unknown
      else State_known_good)"

definition RESOLUTION_DRAIN_NAME :: string where
  "RESOLUTION_DRAIN_NAME = ''rebase_conflict_resolution''"

section \<open>Reading the porcelain text\<close>

definition porcelain_min_entry_len :: nat where
  "porcelain_min_entry_len = 4"

fun uncommitted_state :: "string list \<Rightarrow> bool \<times> bool" where
  "uncommitted_state [] = (False, False)"
| "uncommitted_state (line # ls) =
     (let (staged, modified) = uncommitted_state ls
      in if length line < porcelain_min_entry_len \<or> take 2 line = ''??'' \<or> take 2 line = ''!!''
           then (staged, modified)
         else (line ! 0 \<in> set ''MADRCT'' \<or> staged, line ! 1 \<in> set ''MDT'' \<or> modified))"

definition staged_reason :: string where
  "staged_reason = ''staged uncommitted work blocks integration''"

definition dirty_reason :: string where
  "dirty_reason = ''worktree not clean; uncommitted tracked changes deferred catch-up integration''"

definition uncommitted_integration_reasons :: "string \<Rightarrow> string list" where
  "uncommitted_integration_reasons out =
     (let (staged, modified) = uncommitted_state (splitlines out);
          why = (if staged then [staged_reason] else []) @ (if modified then [dirty_reason] else [])
      in if why \<noteq> [] \<or> strip out = [] then why
         else if list_ex (\<lambda>l. porcelain_min_entry_len \<le> length l \<and> take 2 l \<noteq> ''??'' \<and> take 2 l \<noteq> ''!!'') (splitlines out)
           then [dirty_reason]
         else [])"

definition unmerged_line :: "string \<Rightarrow> bool" where
  "unmerged_line l = (porcelain_min_entry_len \<le> length l
     \<and> (l ! 0 = CHR ''U'' \<or> l ! 1 = CHR ''U'' \<or> take 2 l = ''AA'' \<or> take 2 l = ''DD''))"

definition unmerged_line_path :: "string \<Rightarrow> string res" where
  "unmerged_line_path l = decode_quoted_porcelain_path (let p = strip (drop 3 l) in if p = [] then strip l else p)"

fun collect_res :: "('a \<Rightarrow> 'b res) \<Rightarrow> 'a list \<Rightarrow> 'b list res" where
  "collect_res f [] = Inr []"
| "collect_res f (x # xs) = rbind (f x) (\<lambda>y. rbind (collect_res f xs) (\<lambda>ys. Inr (y # ys)))"

definition unmerged_porcelain_paths :: "string \<Rightarrow> string list res" where
  "unmerged_porcelain_paths out = collect_res unmerged_line_path (filter unmerged_line (splitlines out))"

section \<open>The live tree\<close>

record integration_receipt =
  rc_phase :: string
  rc_integrated_feature_sha :: "string option"
  rc_owning_worktree :: "string option"
  rc_target :: string
  rc_diagnostic_ownership :: "string option"
  rc_diagnostic_intervention_required :: bool

datatype read_disposition = Rd_present | Rd_absent | Rd_unreadable | Rd_busy

datatype receipt_reading = Read_outcome read_disposition "integration_receipt option" | Read_not_found | Read_os_error

record live_tree =
  lt_root :: string
  lt_inspectable :: bool
  lt_porcelain :: "(bool \<times> string) option"
  lt_rebase_active :: "bool option"
  lt_merge_state :: "string option"
  lt_receipt :: receipt_reading
  lt_receipt_stat :: stat_answer
  lt_branch_sha :: "string \<Rightarrow> string option \<times> bool"

definition probe_porcelain :: "(bool \<times> string) option \<Rightarrow> (probe_outcome \<times> string) res" where
  "probe_porcelain p = (case p of
     None \<Rightarrow> Inr (Probe_unknown Porcelain_unreadable, [])
   | Some (readable, out) \<Rightarrow>
       if \<not> readable then Inr (Probe_unknown Porcelain_unreadable, [])
       else rbind (unmerged_porcelain_paths out) (\<lambda>paths.
         Inr (if paths \<noteq> []
                then Probe_blocked Unmerged_paths
                       (''unmerged paths remain from an unfinished rebase or merge: '' @ join_str '', '' paths)
              else Probe_good, out)))"

definition probe_rebase :: "bool option \<Rightarrow> probe_outcome" where
  "probe_rebase p = (case p of None \<Rightarrow> Probe_unknown Rebase_state_unreadable
     | Some act \<Rightarrow> if act then Probe_blocked Rebase_in_progress ''rebase is in progress'' else Probe_good)"

definition probe_merge :: "string option \<Rightarrow> probe_outcome" where
  "probe_merge p = (case p of None \<Rightarrow> Probe_unknown Merge_state_unreadable
     | Some st \<Rightarrow> if st = ''unknown'' then Probe_unknown Merge_state_unreadable
                  else if st \<noteq> ''none''
                    then Probe_blocked Merge_in_progress ''merge is in progress or merge state is unreadable''
                  else Probe_good)"

definition live_probe_outcomes :: "live_tree \<Rightarrow> (probe_outcome list \<times> string) res" where
  "live_probe_outcomes t = rbind (probe_porcelain (lt_porcelain t)) (\<lambda>(o1, out).
     Inr ([o1, probe_rebase (lt_rebase_active t), probe_merge (lt_merge_state t)], out))"

definition blocked_probes :: "probe_outcome list \<Rightarrow> (block_kind \<times> string) list" where
  "blocked_probes os = List.map_filter (\<lambda>x. case x of Probe_blocked k d \<Rightarrow> Some (k, d) | _ \<Rightarrow> None) os"

definition unknown_probes :: "probe_outcome list \<Rightarrow> unknown_kind list" where
  "unknown_probes os = List.map_filter (\<lambda>x. case x of Probe_unknown k \<Rightarrow> Some k | _ \<Rightarrow> None) os"

section \<open>The durable receipt\<close>

definition retained_receipt_reason :: string where
  "retained_receipt_reason = ''durable integration record retained; recovery must finish before ordinary dispatch''"

definition unreadable_receipt_reason :: string where
  "unreadable_receipt_reason = ''durable integration ownership unreadable; recovery required''"

definition landing_already_happened :: "live_tree \<Rightarrow> integration_receipt option \<Rightarrow> bool" where
  "landing_already_happened t receipt = (case receipt of
     None \<Rightarrow> False
   | Some rc \<Rightarrow>
       if rc_phase rc \<noteq> ''integrated'' \<or> \<not> truthy (rc_integrated_feature_sha rc) then False
       else if rc_owning_worktree rc \<noteq> None \<and> rc_owning_worktree rc \<noteq> Some (lt_root t) then False
       else if rc_diagnostic_ownership rc \<noteq> None \<or> rc_diagnostic_intervention_required rc then False
       else (let (sha, query_ok) = lt_branch_sha t (rc_target rc)
             in query_ok \<and> sha = rc_integrated_feature_sha rc))"

text \<open>The reason a receipt holds dispatch, and whether its landing has happened already.\<close>

definition observe_retained_record :: "live_tree \<Rightarrow> string option \<times> bool" where
  "observe_retained_record t = (case lt_receipt t of
     Read_not_found \<Rightarrow> (None, False)
   | Read_os_error \<Rightarrow> (Some unreadable_receipt_reason, False)
   | Read_outcome d receipt \<Rightarrow>
       if d \<noteq> Rd_absent then (Some retained_receipt_reason, landing_already_happened t receipt)
       else (case lt_receipt_stat t of
           Stat_present \<Rightarrow> (Some retained_receipt_reason, False)
         | Stat_missing \<Rightarrow> (None, False)
         | Stat_error _ \<Rightarrow> (Some unreadable_receipt_reason, False)))"

definition retained_integration_reason :: "live_tree \<Rightarrow> string option" where
  "retained_integration_reason t = fst (observe_retained_record t)"

definition receipt_ownership :: "live_tree \<Rightarrow> string option" where
  "receipt_ownership t = (let (why, landed) = observe_retained_record t in if landed then None else why)"

section \<open>The assessment and the verdict\<close>

definition persisted_integration_resolution_verdict :: "rebase_state \<Rightarrow> resolution_verdict option" where
  "persisted_integration_resolution_verdict r =
     (if resolution_exhausted r
        then Some \<lparr>rv_status = Exhausted, rv_reasons = [or_else (resolution_exhaustion_reason r) ''conflict resolver exhausted''],
                   rv_recovery_executor = None\<rparr>
      else if integration_unresolved r
        then Some \<lparr>rv_status = Recoverable, rv_reasons = [''persisted integration state is unresolved''],
                   rv_recovery_executor = Some RESOLUTION_DRAIN_NAME\<rparr>
      else None)"

definition assess_tree_readiness :: "live_tree \<Rightarrow> rebase_state option \<Rightarrow> tree_readiness res" where
  "assess_tree_readiness t st =
     (case receipt_ownership t of
        Some why \<Rightarrow> Inr \<lparr>tr_dispatch_allowed = False, tr_integration_ready = False, tr_blocking_reasons = [why],
                        tr_block_kinds = [], tr_unknown_kinds = []\<rparr>
      | None \<Rightarrow>
          if \<not> lt_inspectable t
            then (case Option.bind st persisted_integration_resolution_verdict of
                Some v \<Rightarrow> Inr \<lparr>tr_dispatch_allowed = dispatch_allowed v, tr_integration_ready = False,
                              tr_blocking_reasons = rv_reasons v, tr_block_kinds = [],
                              tr_unknown_kinds = [Porcelain_unreadable]\<rparr>
              | None \<Rightarrow> Inr \<lparr>tr_dispatch_allowed = True, tr_integration_ready = True, tr_blocking_reasons = [],
                            tr_block_kinds = [], tr_unknown_kinds = []\<rparr>)
          else rbind (live_probe_outcomes t) (\<lambda>(os, out).
            if blocked_probes os \<noteq> []
              then Inr \<lparr>tr_dispatch_allowed = False, tr_integration_ready = False,
                        tr_blocking_reasons = map snd (blocked_probes os), tr_block_kinds = map fst (blocked_probes os),
                        tr_unknown_kinds = unknown_probes os\<rparr>
            else if unknown_probes os \<noteq> []
              then Inr \<lparr>tr_dispatch_allowed = True, tr_integration_ready = False, tr_blocking_reasons = [],
                        tr_block_kinds = [], tr_unknown_kinds = unknown_probes os\<rparr>
            else (let why = uncommitted_integration_reasons out
                  in Inr \<lparr>tr_dispatch_allowed = True, tr_integration_ready = (why = []), tr_blocking_reasons = why,
                          tr_block_kinds = [], tr_unknown_kinds = []\<rparr>)))"

definition mk_assessed ::
  "resolution_status \<Rightarrow> string list \<Rightarrow> string option \<Rightarrow> bool \<Rightarrow> bool \<Rightarrow> string list \<Rightarrow> block_kind list \<Rightarrow> unknown_kind list
     \<Rightarrow> assessed_verdict" where
  "mk_assessed st why ex dev ready blocking kinds unknowns =
     \<lparr>rv_status = st, rv_reasons = why, rv_recovery_executor = ex, av_dispatch_allowed = dev, av_integration_ready = ready,
      av_blocking_reasons = blocking, av_block_kinds = kinds, av_unknown_kinds = unknowns\<rparr>"

definition unknown_assessed_verdict :: "unknown_kind list \<Rightarrow> assessed_verdict" where
  "unknown_assessed_verdict kinds =
     (if set kinds \<noteq> {Porcelain_unreadable, Rebase_state_unreadable, Merge_state_unreadable}
        then mk_assessed Resolved [] None True False [] [] kinds
      else mk_assessed Recoverable [''integration evidence is unreadable''] (Some RESOLUTION_DRAIN_NAME) False False
             [''integration evidence is unreadable''] [] kinds)"

definition unresolved_outcomes :: "rebase_outcome_kind list" where
  "unresolved_outcomes = [Conflict, Unknown, Ladder_escalation, Intervention_required, Diagnostic_intervention_required]"

definition correct_overtaken_persisted_record :: "rebase_state \<Rightarrow> rebase_state" where
  "correct_overtaken_persisted_record r =
     (let r1 = (if is_set (\<lambda>k. k \<in> set unresolved_outcomes) (last_outcome r)
                then r\<lparr>last_outcome := Some Completed,
                       last_reason := Some ''live clean tree overtook the persisted unresolved integration record; correction written back''\<rparr>
                else r);
          r2 = (if integration_unresolved r1
                then r1\<lparr>unresolved_integration_carried := False, legacy_checkpoint_blocked := False,
                        resolving_rebase := False, resolving_merge := False, diagnostic_ownership := None\<rparr>
                else r1);
          r3 = (if recovery_record_retained r2 then clear_recovery_record_retained r2 else r2)
      in if resolution_exhausted r3 then clear_resolution_exhausted r3 else r3)"

text \<open>The correction handed to the write-back sink, and the verdict.\<close>

definition correct_persisted_record :: "rebase_state \<Rightarrow> tree_readiness \<Rightarrow> rebase_state option" where
  "correct_persisted_record r ready =
     (if \<not> tr_integration_ready ready \<or> tr_unknown_kinds ready \<noteq> [] then None
      else Some (correct_overtaken_persisted_record r))"

definition inspect_integration_resolution ::
  "live_tree \<Rightarrow> rebase_state \<Rightarrow> (assessed_verdict \<times> rebase_state option) res" where
  "inspect_integration_resolution t r =
     rbind (assess_tree_readiness t (Some r)) (\<lambda>ready.
       (let persisted = persisted_integration_resolution_verdict r
        in if \<not> tr_dispatch_allowed ready
             then Inr (mk_assessed (case persisted of Some v \<Rightarrow> rv_status v | None \<Rightarrow> Recoverable) (tr_blocking_reasons ready)
                         (case persisted of Some v \<Rightarrow> rv_recovery_executor v | None \<Rightarrow> Some RESOLUTION_DRAIN_NAME) False False
                         (tr_blocking_reasons ready) (tr_block_kinds ready) (tr_unknown_kinds ready), None)
           else if tr_unknown_kinds ready \<noteq> []
             then (case persisted of
                 Some v \<Rightarrow> Inr (mk_assessed (rv_status v) (rv_reasons v) (rv_recovery_executor v) False False (rv_reasons v) []
                                 (tr_unknown_kinds ready), None)
               | None \<Rightarrow> Inr (unknown_assessed_verdict (tr_unknown_kinds ready), None))
           else Inr (mk_assessed Resolved [] None True (tr_integration_ready ready) (tr_blocking_reasons ready) [] [],
                     (case persisted of Some _ \<Rightarrow> correct_persisted_record r ready | None \<Rightarrow> None))))"

definition assert_non_resolution_dispatch_allowed :: "string \<Rightarrow> 'a resolution_verdict_scheme \<Rightarrow> unit res" where
  "assert_non_resolution_dispatch_allowed ph v =
     (if ph \<noteq> RESOLUTION_DRAIN_NAME \<and> \<not> dispatch_allowed v
        then Inl (RuntimeError (''cannot dispatch '' @ ph)) else Inr ())"

section \<open>Containment and release\<close>

text \<open>
  \<open>git_containment\<close> is what Git answers about a repository: an operation in flight, the two tips and the
  ancestry (\<open>None\<close> for an ancestry it could not decide); the whole query may raise.
\<close>

record git_containment =
  gc_in_flight :: bool
  gc_head_sha :: "string option"
  gc_target_sha :: "string option"
  gc_ancestor :: "bool option"

record containment_verdict =
  cn_contained :: bool
  cn_target :: string
  cn_feature_sha :: "string option"
  cn_target_sha :: "string option"
  cn_evidence :: string

definition containment_reason :: "containment_verdict \<Rightarrow> string" where
  "containment_reason v = quoted (cn_target v) @ (if cn_contained v then '' contains'' else '' does not contain'')
     @ '' feature tip '' @ str_opt (cn_feature_sha v) @ '' ('' @ cn_evidence v @ '')''"

definition evaluate_integration_containment ::
  "(string + git_containment) option \<Rightarrow> string option \<Rightarrow> string option \<Rightarrow> bool \<Rightarrow> containment_verdict" where
  "evaluate_integration_containment repo target feature_sha proven =
     (let name = (case target of None \<Rightarrow> [] | Some x \<Rightarrow> x);
          out = (\<lambda>c f g e. \<lparr>cn_contained = c, cn_target = name, cn_feature_sha = f, cn_target_sha = g, cn_evidence = e\<rparr>)
      in case repo of
           None \<Rightarrow> out proven feature_sha None (if proven then ''caller proved the work already landed'' else ''no repository named'')
         | Some answer \<Rightarrow>
             if name = [] then out proven feature_sha None (if proven then ''caller proved the work already landed'' else ''no repository named'')
             else (case answer of
                 Inl msg \<Rightarrow> out False feature_sha None (''git could not answer ancestry: '' @ msg)
               | Inr g \<Rightarrow>
                   if gc_in_flight g then out False feature_sha None ''integration operation in flight''
                   else out (gc_ancestor g = Some True) (if truthy feature_sha then feature_sha else gc_head_sha g) (gc_target_sha g)
                          (if gc_ancestor g \<noteq> None then ''git merge-base --is-ancestor'' else ''git could not answer ancestry'')))"

text \<open>\<open>unlink_ok\<close> is the unlinking of the durable receipt, only tried when a repository is named.\<close>

definition apply_containment_release :: "rebase_state \<Rightarrow> bool option \<Rightarrow> containment_verdict \<Rightarrow> rebase_state" where
  "apply_containment_release r unlink_ok v =
     (if \<not> cn_contained v \<or> unlink_ok = Some False then r
      else (let strategy = (if resolution_exhausted r \<or> conflict_strategy_index r = 0 then clear_conflict_strategy r
                            else clear_resolution_exhausted r);
                cleared = strategy\<lparr>last_outcome := (if last_outcome r = Some Conflict then None else last_outcome r),
                                   unresolved_integration_carried := False, integration_retry_attempt := 0,
                                   legacy_checkpoint_blocked := False\<rparr>
            in if recovery_record_retained cleared then clear_recovery_record_retained cleared else cleared))"

definition containment_release ::
  "((string + git_containment) \<times> bool) option \<Rightarrow> string option \<Rightarrow> rebase_state \<Rightarrow> bool \<Rightarrow> rebase_state" where
  "containment_release repo target r proven =
     apply_containment_release r (map_option snd repo) (evaluate_integration_containment (map_option fst repo) target None proven)"

datatype branch_relation = Synced | Target_ahead | Feature_ahead | Diverged_branches | Relation_unknown

definition needs_catch_up :: "branch_relation \<Rightarrow> bool" where
  "needs_catch_up b = (b \<in> {Target_ahead, Diverged_branches, Relation_unknown})"

definition needs_landing :: "branch_relation \<Rightarrow> bool" where
  "needs_landing b = (b \<in> {Feature_ahead, Diverged_branches, Relation_unknown})"

text \<open>
  \<open>branch_relation_of\<close> takes the two operation probes (\<open>None\<close> when they raise) and the two ancestry answers.
\<close>

definition branch_relation_of :: "(bool \<times> string) option \<Rightarrow> bool option \<Rightarrow> bool option \<Rightarrow> branch_relation" where
  "branch_relation_of flight target_in_feature feature_in_target =
     (if (case flight of None \<Rightarrow> True | Some (rebasing, merge) \<Rightarrow> rebasing \<or> merge \<noteq> ''none'') then Relation_unknown
      else case (target_in_feature, feature_in_target) of
        (Some True, Some True) \<Rightarrow> Synced
      | (Some False, Some True) \<Rightarrow> Target_ahead
      | (Some True, Some False) \<Rightarrow> Feature_ahead
      | (Some False, Some False) \<Rightarrow> Diverged_branches
      | _ \<Rightarrow> Relation_unknown)"

definition contained_land ::
  "(string + git_containment) \<Rightarrow> bool \<Rightarrow> branch_relation \<Rightarrow> string \<Rightarrow> bool \<Rightarrow> rebase_state option" where
  "contained_land repo unlink_ok relation target require_in_sync =
     (let v = evaluate_integration_containment (Some repo) (Some target) None False
      in if \<not> cn_contained v \<or> (require_in_sync \<and> needs_catch_up relation) then None
         else Some (apply_containment_release
                (populate_operation_display_state (new_rebase_state
                   \<lparr>last_outcome := Some Fast_forwarded, last_target := Some target, fast_forwarded := True\<rparr>))
                (Some unlink_ok) v))"

definition reconcile_stale_unresolved_state :: "rebase_state \<Rightarrow> rebase_state" where
  "reconcile_stale_unresolved_state r = containment_release None None r True"

definition retains_unresolved_resolution_state :: "rebase_state \<Rightarrow> bool" where
  "retains_unresolved_resolution_state r = (persisted_integration_resolution_verdict r \<noteq> None)"


section \<open>When the gate opens\<close>

lemma persisted_None: "persisted_integration_resolution_verdict r = None \<longleftrightarrow> \<not> resolution_exhausted r \<and> \<not> integration_unresolved r"
  by (simp add: persisted_integration_resolution_verdict_def)

lemma persisted_blocks: "persisted_integration_resolution_verdict r = Some v \<Longrightarrow> rv_status v \<noteq> Resolved"
  by (auto simp: persisted_integration_resolution_verdict_def split: if_splits)

lemma correction_settles: "persisted_integration_resolution_verdict (correct_overtaken_persisted_record r) = None"
  unfolding persisted_None correct_overtaken_persisted_record_def Let_def
  by (auto simp: integration_unresolved_def is_set_def unresolved_outcomes_def clear_recovery_record_retained_def
      clear_resolution_exhausted_def split: option.splits)

text \<open>The three live probes: nothing proven against the tree, and at least one of them answered.\<close>

definition tree_unblocked :: "live_tree \<Rightarrow> rebase_state \<Rightarrow> bool" where
  "tree_unblocked t r =
     (case live_probe_outcomes t of
        Inl _ \<Rightarrow> False
      | Inr (os, _) \<Rightarrow> blocked_probes os = [] \<and>
          (unknown_probes os = [] \<or> (persisted_integration_resolution_verdict r = None \<and> length (unknown_probes os) < 3)))"

lemma probe_rebase_unknown: "probe_rebase p = Probe_unknown k \<Longrightarrow> k = Rebase_state_unreadable"
  by (auto simp: probe_rebase_def split: option.splits if_splits)

lemma probe_merge_unknown: "probe_merge p = Probe_unknown k \<Longrightarrow> k = Merge_state_unreadable"
  by (auto simp: probe_merge_def split: option.splits if_splits)

lemma probe_porcelain_unknown: "probe_porcelain p = Inr (Probe_unknown k, out) \<Longrightarrow> k = Porcelain_unreadable"
  by (auto simp: probe_porcelain_def split: option.splits if_splits)

lemma three_unknown:
  assumes "live_probe_outcomes t = Inr (os, out)"
  shows "set (unknown_probes os) = {Porcelain_unreadable, Rebase_state_unreadable, Merge_state_unreadable}
    \<longleftrightarrow> length (unknown_probes os) = 3"
    and "length (unknown_probes os) \<le> 3"
proof -
  from assms obtain a where a: "probe_porcelain (lt_porcelain t) = Inr (a, out)"
    and os: "os = [a, probe_rebase (lt_rebase_active t), probe_merge (lt_merge_state t)]"
    by (auto simp: live_probe_outcomes_def)
  show "set (unknown_probes os) = {Porcelain_unreadable, Rebase_state_unreadable, Merge_state_unreadable}
      \<longleftrightarrow> length (unknown_probes os) = 3" "length (unknown_probes os) \<le> 3"
    unfolding os using probe_porcelain_unknown [of "lt_porcelain t" _ out] a
      probe_rebase_unknown [of "lt_rebase_active t"] probe_merge_unknown [of "lt_merge_state t"]
    by (cases a; cases "probe_rebase (lt_rebase_active t)"; cases "probe_merge (lt_merge_state t)";
        simp add: unknown_probes_def List.map_filter_def insert_eq_iff)+
qed

lemma inspect_blocked_receipt:
  "receipt_ownership t = Some why \<Longrightarrow> \<exists>v. inspect_integration_resolution t r = Inr (v, None) \<and> \<not> dispatch_allowed v"
  using persisted_blocks [of r]
  by (auto simp: inspect_integration_resolution_def assess_tree_readiness_def Let_def mk_assessed_def dispatch_allowed_def
      split: option.splits)

lemma inspect_uninspectable:
  "receipt_ownership t = None \<Longrightarrow> \<not> lt_inspectable t \<Longrightarrow>
     \<exists>v. inspect_integration_resolution t r = Inr (v, None)
       \<and> (dispatch_allowed v \<longleftrightarrow> persisted_integration_resolution_verdict r = None)"
  using persisted_blocks [of r]
  by (auto simp: inspect_integration_resolution_def assess_tree_readiness_def Let_def mk_assessed_def dispatch_allowed_def
      split: option.splits)

lemma inspect_probed:
  assumes "receipt_ownership t = None" "lt_inspectable t" "live_probe_outcomes t = Inr (os, out)"
  shows "\<exists>v c. inspect_integration_resolution t r = Inr (v, c)
       \<and> (dispatch_allowed v \<longleftrightarrow> tree_unblocked t r)
       \<and> (c \<noteq> None \<longleftrightarrow> persisted_integration_resolution_verdict r \<noteq> None \<and> blocked_probes os = [] \<and> unknown_probes os = []
             \<and> uncommitted_integration_reasons out = [])
       \<and> (\<forall>x. c = Some x \<longrightarrow> persisted_integration_resolution_verdict x = None)"
proof -
  note unfolds = inspect_integration_resolution_def assess_tree_readiness_def Let_def mk_assessed_def dispatch_allowed_def
  note pb = persisted_blocks [of r]
  consider (blocked) "blocked_probes os \<noteq> []" | (unknown) "blocked_probes os = []" "unknown_probes os \<noteq> []"
    | (answered) "blocked_probes os = []" "unknown_probes os = []" by blast
  then show ?thesis
  proof cases
    case blocked
    then show ?thesis using assms pb
      by (cases "persisted_integration_resolution_verdict r") (simp_all add: unfolds tree_unblocked_def)
  next
    case unknown
    have "length (unknown_probes os) < 3 \<longleftrightarrow> length (unknown_probes os) \<noteq> 3" using three_unknown(2) [OF assms(3)] by linarith
    then show ?thesis using unknown assms pb three_unknown(1) [OF assms(3)]
      by (cases "persisted_integration_resolution_verdict r")
         (simp_all add: unfolds tree_unblocked_def unknown_assessed_verdict_def)
  next
    case answered
    then show ?thesis using assms correction_settles [of r]
      by (cases "persisted_integration_resolution_verdict r")
         (simp_all add: unfolds tree_unblocked_def correct_persisted_record_def)
  qed
qed

text \<open>None of the three probes answered.\<close>

definition silent_tree :: "live_tree \<Rightarrow> bool" where
  "silent_tree t = (case live_probe_outcomes t of Inl _ \<Rightarrow> False | Inr (os, _) \<Rightarrow> length (unknown_probes os) = 3)"

text \<open>No probe proves a conflict, and an unreadable probe is tolerated unless the record names an unresolved integration.\<close>

definition no_proven_conflict :: "live_tree \<Rightarrow> rebase_state \<Rightarrow> bool" where
  "no_proven_conflict t r =
     (case live_probe_outcomes t of
        Inl _ \<Rightarrow> False
      | Inr (os, _) \<Rightarrow> blocked_probes os = [] \<and> (unknown_probes os = [] \<or> persisted_integration_resolution_verdict r = None))"

lemma unblocked_iff: "\<not> silent_tree t \<Longrightarrow> tree_unblocked t r \<longleftrightarrow> no_proven_conflict t r"
  using three_unknown(2) [of t] by (force simp: silent_tree_def tree_unblocked_def no_proven_conflict_def split: sum.splits prod.splits)

text \<open>
  C19: Only a proven conflict or a recorded obligation holds dispatch.  For a tree of which at least
  one probe answers: the inspection raises only if a quoted path of the status text cannot be
  decoded.  Otherwise it allows dispatch exactly if no durable receipt owns the repository (a receipt
  whose landing the target tip proves owns nothing) and no probe shows an unmerged path, a rebase or a
  merge, where a probe that could not answer holds dispatch only if the record names an unresolved
  integration; a directory without Git is judged by the record alone.  (A tree of which no probe
  answers is held, see \<open>silent_tree_holds_dispatch\<close>, and excluded here.)  A correction of the record is minted exactly if the record held the run, every probe
  answered and the tree has no tracked changes, and the corrected record holds nothing.
\<close>

theorem dispatch_gate_exact:
  assumes answers: "\<not> silent_tree t"
  shows "(case inspect_integration_resolution t r of
      Inl e \<Rightarrow> receipt_ownership t = None \<and> lt_inspectable t
        \<and> (\<exists>readable out. lt_porcelain t = Some (readable, out) \<and> readable \<and> unmerged_porcelain_paths out = Inl e)
    | Inr (v, c) \<Rightarrow>
        (dispatch_allowed v \<longleftrightarrow> receipt_ownership t = None
            \<and> (if lt_inspectable t then no_proven_conflict t r else persisted_integration_resolution_verdict r = None))
        \<and> (c \<noteq> None \<longleftrightarrow> retains_unresolved_resolution_state r \<and> receipt_ownership t = None \<and> lt_inspectable t
              \<and> (\<exists>os out. live_probe_outcomes t = Inr (os, out) \<and> blocked_probes os = [] \<and> unknown_probes os = []
                    \<and> uncommitted_integration_reasons out = []))
        \<and> list_all (\<lambda>x. \<not> retains_unresolved_resolution_state x) (case c of None \<Rightarrow> [] | Some x \<Rightarrow> [x]))"
proof (cases "receipt_ownership t")
  case (Some why)
  then show ?thesis using inspect_blocked_receipt [of t why r] by auto
next
  case None
  note receipt = None
  show ?thesis
  proof (cases "lt_inspectable t")
    case False
    then show ?thesis using inspect_uninspectable [OF receipt False, of r] receipt by auto
  next
    case True
    show ?thesis
    proof (cases "live_probe_outcomes t")
      case (Inl e)
      then show ?thesis using receipt True
        by (auto simp: inspect_integration_resolution_def assess_tree_readiness_def live_probe_outcomes_def probe_porcelain_def
            split: option.splits if_splits sum.splits simp: rbind_def)
    next
      case (Inr p)
      obtain os out where "p = (os, out)" by (cases p)
      then show ?thesis using inspect_probed [OF receipt True, of os out r, unfolded unblocked_iff [OF answers]] Inr receipt True
        by (auto simp: retains_unresolved_resolution_state_def split: option.splits)
    qed
  qed
qed

section \<open>Recorded evidence across seams\<close>



lemma withheld_release: "\<not> cn_contained v \<or> unlink_ok = Some False \<Longrightarrow> apply_containment_release r unlink_ok v = r"
  by (auto simp: apply_containment_release_def)






section \<open>What the release and the correction do differently\<close>

text \<open>
  A clean inspection lets the gate open, and the correction it mints settles the record.  The plain
  release, which the run loop applies to the state it keeps, does not settle an escalated outcome.
\<close>

definition clean_tree :: live_tree where
  "clean_tree = \<lparr>lt_root = ''/repo'', lt_inspectable = True, lt_porcelain = Some (True, []), lt_rebase_active = Some False,
     lt_merge_state = Some ''none'', lt_receipt = Read_not_found, lt_receipt_stat = Stat_missing,
     lt_branch_sha = (\<lambda>_. (None, True))\<rparr>"

theorem dispatch_gate_exact_witness:
  "(case inspect_integration_resolution (clean_tree\<lparr>lt_porcelain := None\<rparr>) new_rebase_state of
      Inr (v, _) \<Rightarrow> dispatch_allowed v | Inl _ \<Rightarrow> False)
   \<and> (case inspect_integration_resolution (clean_tree\<lparr>lt_rebase_active := Some True\<rparr>) new_rebase_state of
      Inr (v, _) \<Rightarrow> \<not> dispatch_allowed v | Inl _ \<Rightarrow> False)"
proof -
  let ?t = "clean_tree\<lparr>lt_porcelain := None\<rparr>" and ?u = "clean_tree\<lparr>lt_rebase_active := Some True\<rparr>"
  have "\<not> silent_tree ?t" "\<not> silent_tree ?u" "lt_porcelain ?t = None" "lt_porcelain ?u = Some (True, [])"
    "unmerged_porcelain_paths [] = Inr []" "receipt_ownership ?t = None" "lt_inspectable ?t" "no_proven_conflict ?t new_rebase_state"
    "lt_inspectable ?u" "\<not> no_proven_conflict ?u new_rebase_state"
    by code_simp+
  then show ?thesis
    using dispatch_gate_exact [of ?t new_rebase_state] dispatch_gate_exact [of ?u new_rebase_state]
    by (auto split: sum.splits)
qed

lemma release_keeps_escalation:
  fixes r
  defines "r \<equiv> new_rebase_state\<lparr>last_outcome := Some Ladder_escalation\<rparr>"
  shows "(case inspect_integration_resolution clean_tree r of Inr (v, Some c) \<Rightarrow> dispatch_allowed v \<and> \<not> integration_unresolved c | _ \<Rightarrow> False)
    \<and> integration_unresolved (reconcile_stale_unresolved_state r)"
  unfolding r_def by code_simp

text \<open>Three probes without an answer name a recovery executor and hold dispatch, though nothing is proven.\<close>

lemma silent_tree_holds_dispatch:
  "(case inspect_integration_resolution (clean_tree\<lparr>lt_porcelain := None, lt_rebase_active := None, lt_merge_state := None\<rparr>) new_rebase_state
    of Inr (v, _) \<Rightarrow> \<not> dispatch_allowed v \<and> rv_recovery_executor v = Some RESOLUTION_DRAIN_NAME \<and> av_block_kinds v = [] | Inl _ \<Rightarrow> False)"
  by code_simp

end
