(* ===== verification/Integration_Retry.thy ===== *)
theory Integration_Retry
  imports Dispatch_Gate State_Machine
begin

text \<open>
  How the run waits while an integration has not landed: \<^verbatim>\<open>_wait_for_integration_retry\<close> of
  \<^verbatim>\<open>ralph/pipeline/run_loop.py\<close>, its two continuations, the handoff to the resolver and the checkpoint
  they save.

  A \<open>retry_env\<close> holds what Git, the resolver and the diagnostic agents answer; each answer also gives the
  next world.  The resolver may replace the latest state, so it works on \<open>shared\<close>: the world, the slot of
  the latest state and the checkpoints saved so far.  The context adds the flag of the session's one
  handoff and a trace of what the waits did.
\<close>

section \<open>The context\<close>

record 'w shared =
  sh_world :: 'w
  sh_latest :: "pstate option"
  sh_saved :: "pstate list"

datatype handoff_need = Needs_diagnosis | Awaits_commit | Needs_resolution

text \<open>The durable record as the handoff reads it.\<close>

datatype record_view = View_present handoff_need | View_absent | View_unreadable | View_busy

record 'w retry_env =
  en_preamble :: "'w \<Rightarrow> rebase_state option \<times> 'w"
  en_record_view :: "'w \<Rightarrow> record_view"
  en_diagnose :: "string \<Rightarrow> 'w \<Rightarrow> 'w"
  en_repair_merge :: "string \<Rightarrow> 'w \<Rightarrow> 'w"
  en_resolve :: "rebase_state option \<Rightarrow> 'w shared \<Rightarrow> bool \<times> 'w shared"
  en_cooldown_ms :: "'w \<Rightarrow> int"

datatype retry_event = Handed_off string | Slept real

record 'w retry_ctx =
  rx_shared :: "'w shared"
  rx_handoff_done :: bool
  rx_trace :: "retry_event list"

definition on_shared :: "('w shared \<Rightarrow> 'w shared) \<Rightarrow> 'w retry_ctx \<Rightarrow> 'w retry_ctx" where
  "on_shared f ctx = ctx\<lparr>rx_shared := f (rx_shared ctx)\<rparr>"

definition ctx_sleep :: "real \<Rightarrow> 'w retry_ctx \<Rightarrow> 'w retry_ctx" where
  "ctx_sleep secs ctx = ctx\<lparr>rx_trace := rx_trace ctx @ [Slept secs]\<rparr>"

section \<open>Checkpoints\<close>

definition save_recovered_rebase_checkpoint :: "pstate \<Rightarrow> 'w shared \<Rightarrow> 'w shared" where
  "save_recovered_rebase_checkpoint s sh =
     (let reconciled = (if integration_unresolved (rebase s) then reconcile_stale_unresolved_state (rebase s) else rebase s)
      in sh\<lparr>sh_saved := sh_saved sh @ [s\<lparr>rebase := reconciled\<rparr>]\<rparr>)"

definition set_latest :: "pstate \<Rightarrow> 'w shared \<Rightarrow> 'w shared" where
  "set_latest s sh = sh\<lparr>sh_latest := Some s\<rparr>"

text \<open>Every wait saves the state first and then makes it the latest one.\<close>

definition persist_state :: "pstate \<Rightarrow> 'w retry_ctx \<Rightarrow> 'w retry_ctx" where
  "persist_state s = on_shared (\<lambda>sh. set_latest s (save_recovered_rebase_checkpoint s sh))"

section \<open>The handoff\<close>

definition is_settled :: "rebase_state \<Rightarrow> bool" where
  "is_settled r = (\<not> is_intervention_required r \<and> \<not> integration_unresolved r)"

definition adopt_latest_rebase :: "rebase_state \<Rightarrow> 'w shared \<Rightarrow> 'w shared" where
  "adopt_latest_rebase r sh = (case sh_latest sh of
     None \<Rightarrow> sh
   | Some s \<Rightarrow> save_recovered_rebase_checkpoint (s\<lparr>rebase := r\<rparr>) (set_latest (s\<lparr>rebase := r\<rparr>) sh))"

definition resolved_by_resolver :: "rebase_state \<Rightarrow> rebase_state" where
  "resolved_by_resolver r = r\<lparr>last_outcome := Some Completed, last_reason := Some ''conflict resolved by automated resolver''\<rparr>"

definition resolve_and_recover :: "('w, 'e) retry_env_scheme \<Rightarrow> bool \<Rightarrow> 'w shared \<Rightarrow> 'w shared" where
  "resolve_and_recover env corrupt sh =
     (let (resolved, sh1) = en_resolve env (map_option rebase (sh_latest sh)) sh;
          (recovered, w) = en_preamble env (sh_world sh1);
          sh2 = sh1\<lparr>sh_world := w\<rparr>
      in if is_set is_settled recovered then (case recovered of Some r \<Rightarrow> adopt_latest_rebase r sh2 | None \<Rightarrow> sh2)
         else case sh_latest sh2 of
             Some s \<Rightarrow>
               if resolved then adopt_latest_rebase (resolved_by_resolver (rebase s)) sh2
               else (case recovered of
                   Some r \<Rightarrow> if corrupt then adopt_latest_rebase r sh2 else sh2
                 | None \<Rightarrow> sh2)
           | None \<Rightarrow> sh2)"

definition handoff_retained_failure :: "('w, 'e) retry_env_scheme \<Rightarrow> string \<Rightarrow> 'w shared \<Rightarrow> 'w shared" where
  "handoff_retained_failure env failure sh =
     (case en_record_view env (sh_world sh) of
        View_present Needs_diagnosis \<Rightarrow> sh\<lparr>sh_world := en_diagnose env failure (sh_world sh)\<rparr>
      | View_present Awaits_commit \<Rightarrow> sh\<lparr>sh_world := en_repair_merge env failure (sh_world sh)\<rparr>
      | View_present Needs_resolution \<Rightarrow> resolve_and_recover env False sh
      | View_absent \<Rightarrow> resolve_and_recover env False sh
      | View_unreadable \<Rightarrow> resolve_and_recover env True sh
      | View_busy \<Rightarrow> sh)"

text \<open>The session's handoff: the rebase state of the latest state before and after, and the context.\<close>

definition session_handoff ::
  "('w, 'e) retry_env_scheme \<Rightarrow> string \<Rightarrow> 'w retry_ctx \<Rightarrow> rebase_state option \<times> rebase_state option \<times> 'w retry_ctx" where
  "session_handoff env detail ctx =
     (if rx_handoff_done ctx then (None, None, ctx)
      else (let before = map_option rebase (sh_latest (rx_shared ctx));
                ctx1 = on_shared (handoff_retained_failure env detail) ctx
                         \<lparr>rx_handoff_done := True, rx_trace := rx_trace ctx @ [Handed_off detail]\<rparr>
            in (before, map_option rebase (sh_latest (rx_shared ctx1)), ctx1)))"

definition handoff_cleared :: "rebase_state option \<Rightarrow> rebase_state option \<Rightarrow> bool" where
  "handoff_cleared before after = (after \<noteq> before \<and> is_set (\<lambda>r. is_settled r \<and> \<not> resolution_exhausted r) after)"

definition handoff_rebase :: "rebase_state option \<Rightarrow> rebase_state option \<Rightarrow> rebase_state \<Rightarrow> rebase_state" where
  "handoff_rebase before after r = (case after of None \<Rightarrow> r | Some r' \<Rightarrow> if after \<noteq> before then r' else r)"

section \<open>Waiting\<close>

definition render_current_observation_detail :: "rebase_state \<Rightarrow> string" where
  "render_current_observation_detail r =
     (case last_publication_decision r of
        None \<Rightarrow> or_else (last_reason r) ''target synchronization remains unproven''
      | Some d \<Rightarrow>
          if d = publication_value Publish_deferred_remote then ''configured remote currently unreachable''
          else if d = publication_value Publish_deferred_freshness then ''freshness deferral pending''
          else if d = publication_value Publication_pending then ''publication pending''
          else if d = publication_value Publish_now then ''publication scheduled; recovery will retry''
          else ''target synchronization remains unproven'')"

definition ladder_escalation_suffix :: string where
  "ladder_escalation_suffix = ''; preserved copy: backup refs; next autonomous rung: preserve the work, then climb the cleanup ladder''"

definition ladder_escalation_reason :: "string \<Rightarrow> string" where
  "ladder_escalation_reason detail = detail @ ladder_escalation_suffix"

definition REPEAT_ESCALATION_RETRY_SECONDS :: real where
  "REPEAT_ESCALATION_RETRY_SECONDS = 5"

definition MAX_COOLDOWN_SLEEP_SECONDS :: real where
  "MAX_COOLDOWN_SLEEP_SECONDS = 30"

definition show_waiting :: "rebase_state \<Rightarrow> rebase_state" where
  "show_waiting r = r\<lparr>operation_display_state := Some ''waiting''\<rparr>"

definition owed_publication :: "rebase_state \<Rightarrow> bool" where
  "owed_publication r = is_set (\<lambda>d. d \<in> publication_value ` {Publish_deferred_remote, Publish_deferred_freshness,
     Publication_pending, Publish_now}) (last_publication_decision r)"

definition waiting_on :: "rebase_state \<Rightarrow> pstate \<Rightarrow> pstate" where
  "waiting_on r s = set_waiting EXHAUSTED_RETRY None (s\<lparr>rebase := r\<rparr>)"

text \<open>The escalation both branches end in: charge, escalate, persist_state, and pace a repeat.\<close>

definition escalate_wait ::
  "int \<Rightarrow> string \<Rightarrow> string \<Rightarrow> bool \<Rightarrow> rebase_state \<Rightarrow> pstate \<Rightarrow> 'w retry_ctx \<Rightarrow> pstate \<times> 'w retry_ctx" where
  "escalate_wait conflicts detail alarm repeated r s ctx =
     (let r1 = set_ladder_escalation (ladder_escalation_reason detail) (record_consecutive_conflicts (Some conflicts) None r);
          s1 = waiting_on r1 (s\<lparr>last_error := Some alarm\<rparr>);
          ctx1 = persist_state s1 ctx
      in (clear_waiting s1, if repeated then ctx_sleep REPEAT_ESCALATION_RETRY_SECONDS ctx1 else ctx1))"

definition handle_intervention_required_retry ::
  "('w, 'e) retry_env_scheme \<Rightarrow> pstate \<Rightarrow> rebase_state \<Rightarrow> string \<Rightarrow> string \<Rightarrow> 'w retry_ctx \<Rightarrow> pstate \<times> 'w retry_ctx" where
  "handle_intervention_required_retry env s r alarm detail ctx =
     (let (recovered, w) = en_preamble env (sh_world (rx_shared ctx));
          ctx0 = on_shared (sh_world_update (\<lambda>_. w)) ctx
      in case recovered of
           Some rc \<Rightarrow>
             if is_settled rc
               then (let s1 = waiting_on rc (s\<lparr>last_error := Some alarm\<rparr>) in (clear_waiting s1, persist_state s1 ctx0))
             else (let (before, after, ctx1) = session_handoff env detail ctx0
                   in if handoff_cleared before after
                        then (let s1 = clear_waiting (s\<lparr>rebase := handoff_rebase before after r, last_error := Some alarm\<rparr>)
                              in (s1, persist_state s1 ctx1))
                      else escalate_wait (consecutive_conflicts r + 1) detail alarm (rx_handoff_done ctx)
                             (handoff_rebase before after r) s ctx1)
         | None \<Rightarrow>
             (let (before, after, ctx1) = session_handoff env detail ctx0
              in if handoff_cleared before after
                   then (let s1 = clear_waiting (s\<lparr>rebase := handoff_rebase before after r, last_error := Some alarm\<rparr>)
                         in (s1, persist_state s1 ctx1))
                 else escalate_wait (consecutive_conflicts r + 1) detail alarm (rx_handoff_done ctx)
                        (handoff_rebase before after r) s ctx1))"

definition handle_pending_retry ::
  "('w, 'e) retry_env_scheme \<Rightarrow> pstate \<Rightarrow> rebase_state \<Rightarrow> 'w retry_ctx \<Rightarrow> pstate \<times> 'w retry_ctx" where
  "handle_pending_retry env s r ctx =
     (let cooldown = (if integration_unresolved r then en_cooldown_ms env (sh_world (rx_shared ctx)) else 0)
      in if cooldown > 0
           then (let s1 = waiting_on (show_waiting r) s
                 in (clear_waiting s1, ctx_sleep (min (of_int cooldown / 1000) MAX_COOLDOWN_SLEEP_SECONDS) (persist_state s1 ctx)))
         else (let (recovered, w) = en_preamble env (sh_world (rx_shared ctx));
                   ctx0 = on_shared (sh_world_update (\<lambda>_. w)) ctx;
                   charge = (\<lambda>rc conflicts.
                     (let s1 = waiting_on (show_waiting (record_consecutive_conflicts (Some (conflicts + 1)) None rc)) s
                      in (clear_waiting s1, ctx_sleep 5 (persist_state s1 ctx0))))
               in case recovered of
                    None \<Rightarrow> charge r (max (consecutive_conflicts r) 0)
                  | Some rc \<Rightarrow>
                      if integration_unresolved rc then charge rc (max (consecutive_conflicts r) (consecutive_conflicts rc))
                      else if last_publication_decision rc = None
                              \<or> last_publication_decision rc = Some (publication_value Publication_terminal)
                        then (let s1 = clear_waiting (s\<lparr>rebase := rc\<rparr>) in (s1, persist_state s1 ctx0))
                      else if owed_publication rc
                        then (let s1 = waiting_on (show_waiting rc) s in (clear_waiting s1, ctx_sleep 5 (persist_state s1 ctx0)))
                      else charge rc (max (consecutive_conflicts r) (consecutive_conflicts rc))))"

definition retry_alarm :: "string \<Rightarrow> string" where
  "retry_alarm detail = ''CRITICAL: integration has not landed; recovery will retry: '' @ detail"

definition wait_for_integration_retry :: "('w, 'e) retry_env_scheme \<Rightarrow> pstate \<Rightarrow> 'w retry_ctx \<Rightarrow> pstate \<times> 'w retry_ctx" where
  "wait_for_integration_retry env s ctx =
     (let detail = render_current_observation_detail (rebase s);
          alarm = retry_alarm detail;
          r = show_waiting (rebase s)
      in if \<not> (owed_publication r \<and> \<not> integration_unresolved r) \<and> resolution_exhausted r
           then (let (before, after, ctx1) = session_handoff env detail ctx
                 in if handoff_cleared before after
                      then (let s1 = clear_waiting (s\<lparr>rebase := handoff_rebase before after r\<rparr>) in (s1, persist_state s1 ctx1))
                    else (let r1 = handoff_rebase before after r
                          in escalate_wait (consecutive_conflicts r1) detail alarm (rx_handoff_done ctx) r1 s ctx1))
         else if is_intervention_required r
           then handle_intervention_required_retry env s r alarm detail ctx
         else (let s1 = waiting_on r (s\<lparr>last_error := Some alarm\<rparr>)
               in handle_pending_retry env s1 r (persist_state s1 ctx)))"

section \<open>What a wait may do\<close>

lemma on_shared_fields [simp]:
  "rx_handoff_done (on_shared f ctx) = rx_handoff_done ctx" "rx_trace (on_shared f ctx) = rx_trace ctx"
  "rx_shared (on_shared f ctx) = f (rx_shared ctx)"
  by (simp_all add: on_shared_def)

lemma persist_state_fields [simp]:
  "rx_handoff_done (persist_state s ctx) = rx_handoff_done ctx" "rx_trace (persist_state s ctx) = rx_trace ctx"
  by (simp_all add: persist_state_def)

lemma ctx_sleep_fields [simp]:
  "rx_handoff_done (ctx_sleep x ctx) = rx_handoff_done ctx" "rx_trace (ctx_sleep x ctx) = rx_trace ctx @ [Slept x]"
  by (simp_all add: ctx_sleep_def)

text \<open>
  What one wait did: \<open>news\<close> is its part of the trace.  It hands off at most once, only if the session has
  not handed off, and sets the flag; a wait that leaves the integration unresolved slept, or it was the
  one that handed off.
\<close>

definition wait_kept :: "pstate \<Rightarrow> pstate \<Rightarrow> bool" where
  "wait_kept s s' \<longleftrightarrow> s' = clear_waiting (s\<lparr>rebase := rebase s', last_error := last_error s'\<rparr>)"

definition wait_ok :: "pstate \<Rightarrow> 'w retry_ctx \<Rightarrow> pstate \<times> 'w retry_ctx \<Rightarrow> retry_event list \<Rightarrow> bool" where
  "wait_ok s ctx p news \<longleftrightarrow> (case p of (s', ctx') \<Rightarrow>
     wait_kept s s' \<and> rx_trace ctx' = rx_trace ctx @ news
     \<and> (rx_handoff_done ctx' \<longleftrightarrow> rx_handoff_done ctx \<or> (\<exists>d. Handed_off d \<in> set news))
     \<and> length (filter (\<lambda>e. case e of Handed_off _ \<Rightarrow> True | Slept _ \<Rightarrow> False) news) \<le> (if rx_handoff_done ctx then 0 else 1)
     \<and> (integration_unresolved (rebase s') \<longrightarrow> (\<exists>x. Slept x \<in> set news) \<or> (\<exists>d. Handed_off d \<in> set news)))"

lemma kept_simps [simp]:
  "wait_kept s (clear_waiting (waiting_on r s))" "wait_kept s (clear_waiting (waiting_on r (s\<lparr>last_error := e\<rparr>)))"
  "wait_kept s (clear_waiting (s\<lparr>rebase := r\<rparr>))" "wait_kept s (clear_waiting (s\<lparr>rebase := r, last_error := e\<rparr>))"
  "wait_kept s (clear_waiting (waiting_on r (waiting_on r' (s\<lparr>last_error := e\<rparr>))))"
  "wait_kept s (clear_waiting (waiting_on r' (s\<lparr>last_error := e\<rparr>)\<lparr>rebase := r\<rparr>))"
  by (simp_all add: wait_kept_def clear_waiting_def waiting_on_def set_waiting_def)

lemma escalate_wait_ok:
  assumes "rx_trace ctx1 = rx_trace ctx @ news" "rx_handoff_done ctx1"
    and "rx_handoff_done ctx \<Longrightarrow> news = []" "\<not> rx_handoff_done ctx \<Longrightarrow> \<exists>d. news = [Handed_off d]"
  shows "\<exists>news. wait_ok s ctx (escalate_wait n detail alarm (rx_handoff_done ctx) r s ctx1) news"
proof (cases "rx_handoff_done ctx")
  case True
  then show ?thesis using assms
    by (intro exI [of _ "[Slept REPEAT_ESCALATION_RETRY_SECONDS]"]) (simp add: wait_ok_def escalate_wait_def Let_def)
next
  case False
  then obtain d where "news = [Handed_off d]" using assms(4) by blast
  then show ?thesis using assms False
    by (intro exI [of _ "[Handed_off d]"]) (simp add: wait_ok_def escalate_wait_def Let_def)
qed

lemma session_handoff_ctx:
  assumes "session_handoff env detail ctx = (before, after, ctx1)"
  shows "rx_handoff_done ctx1"
    and "rx_trace ctx1 = rx_trace ctx @ (if rx_handoff_done ctx then [] else [Handed_off detail])"
    and "rx_handoff_done ctx \<Longrightarrow> \<not> handoff_cleared before after"
  using assms by (auto simp: session_handoff_def Let_def handoff_cleared_def is_set_def split: if_splits)

lemma cleared_rebase:
  assumes "handoff_cleared before after"
  shows "is_settled (handoff_rebase before after r)" "\<not> resolution_exhausted (handoff_rebase before after r)"
  using assms by (auto simp: handoff_cleared_def handoff_rebase_def is_set_def split: option.splits)

lemma handoff_branch_ok:
  assumes h: "session_handoff env detail ctx0 = (before, after, ctx1)"
    and ctx0: "rx_handoff_done ctx0 = rx_handoff_done ctx" "rx_trace ctx0 = rx_trace ctx"
    and kept: "\<And>r. wait_kept s (clear_waiting (f r))" "\<And>r. rebase (f r) = r"
  shows "\<exists>news. wait_ok s ctx
    (if handoff_cleared before after
       then (clear_waiting (f (handoff_rebase before after r)), persist_state (clear_waiting (f (handoff_rebase before after r))) ctx1)
     else escalate_wait n detail alarm (rx_handoff_done ctx) (handoff_rebase before after r) s ctx1) news"
proof (cases "handoff_cleared before after")
  case True
  have "\<not> rx_handoff_done ctx" using session_handoff_ctx(3) [OF h] True ctx0 by blast
  then show ?thesis using True cleared_rebase [OF True, of r] session_handoff_ctx [OF h] ctx0 kept
    by (intro exI [of _ "[Handed_off detail]"]) (simp add: wait_ok_def is_settled_def clear_waiting_def)
next
  case False
  then show ?thesis using escalate_wait_ok [of ctx1 ctx] session_handoff_ctx [OF h] ctx0 by simp
qed

lemma pending_ok:
  assumes "ctx' = persist_state (waiting_on r (s\<lparr>last_error := Some alarm\<rparr>)) ctx"
  shows "\<exists>news. wait_ok s ctx (handle_pending_retry env (waiting_on r (s\<lparr>last_error := Some alarm\<rparr>)) r ctx') news"
proof -
  have sleeping: "\<exists>news. wait_ok s ctx (clear_waiting (waiting_on q (waiting_on r (s\<lparr>last_error := Some alarm\<rparr>))), ctx_sleep x c) news"
    if "rx_trace c = rx_trace ctx" "rx_handoff_done c = rx_handoff_done ctx" for q x and c :: "'a retry_ctx"
    using that by (intro exI [of _ "[Slept x]"]) (simp add: wait_ok_def)
  have landed: "\<exists>news. wait_ok s ctx (clear_waiting (waiting_on r (s\<lparr>last_error := Some alarm\<rparr>)\<lparr>rebase := q\<rparr>), c) news"
    if "rx_trace c = rx_trace ctx" "rx_handoff_done c = rx_handoff_done ctx" "\<not> integration_unresolved q" for q and c :: "'a retry_ctx"
    using that by (intro exI [of _ "[]"]) (simp add: wait_ok_def wait_kept_def clear_waiting_def waiting_on_def set_waiting_def)
  show ?thesis
    unfolding handle_pending_retry_def Let_def assms
    by (auto split: prod.splits option.splits intro!: sleeping landed)
qed

lemma wait_is_ok: "\<exists>news. wait_ok s ctx (wait_for_integration_retry env s ctx) news"
proof -
  let ?detail = "render_current_observation_detail (rebase s)"
  let ?r = "show_waiting (rebase s)"
  consider (exhausted) "\<not> (owed_publication ?r \<and> \<not> integration_unresolved ?r) \<and> resolution_exhausted ?r"
    | (interv) "\<not> (\<not> (owed_publication ?r \<and> \<not> integration_unresolved ?r) \<and> resolution_exhausted ?r)" "is_intervention_required ?r"
    | (pending) "\<not> (\<not> (owed_publication ?r \<and> \<not> integration_unresolved ?r) \<and> resolution_exhausted ?r)" "\<not> is_intervention_required ?r"
    by blast
  then show ?thesis
  proof cases
    case exhausted
    obtain before after ctx1 where h: "session_handoff env ?detail ctx = (before, after, ctx1)" by (metis prod.exhaust)
    show ?thesis
      using handoff_branch_ok [OF h refl refl, where f = "\<lambda>r. s\<lparr>rebase := r\<rparr>" and s = s and r = ?r
          and n = "consecutive_conflicts (handoff_rebase before after ?r)" and alarm = "retry_alarm ?detail"] exhausted h
      by (cases "handoff_cleared before after") (simp_all add: wait_for_integration_retry_def Let_def)
  next
    case interv
    obtain recovered w where p: "en_preamble env (sh_world (rx_shared ctx)) = (recovered, w)" by (metis prod.exhaust)
    let ?ctx0 = "on_shared (sh_world_update (\<lambda>_. w)) ctx"
    obtain before after ctx1 where h: "session_handoff env ?detail ?ctx0 = (before, after, ctx1)" by (metis prod.exhaust)
    have branch: "\<exists>news. wait_ok s ctx
        (if handoff_cleared before after
           then (clear_waiting (s\<lparr>rebase := handoff_rebase before after ?r, last_error := Some (retry_alarm ?detail)\<rparr>),
                 persist_state (clear_waiting (s\<lparr>rebase := handoff_rebase before after ?r, last_error := Some (retry_alarm ?detail)\<rparr>)) ctx1)
         else escalate_wait (consecutive_conflicts ?r + 1) ?detail (retry_alarm ?detail) (rx_handoff_done ctx) (handoff_rebase before after ?r) s ctx1) news"
      by (rule handoff_branch_ok [OF h]) simp_all
    have fast: "\<exists>news. wait_ok s ctx (clear_waiting (waiting_on rc (s\<lparr>last_error := Some (retry_alarm ?detail)\<rparr>)),
        persist_state (waiting_on rc (s\<lparr>last_error := Some (retry_alarm ?detail)\<rparr>)) ?ctx0) news" if "is_settled rc" for rc
      using that by (intro exI [of _ "[]"]) (simp add: wait_ok_def wait_kept_def is_settled_def waiting_on_def clear_waiting_def set_waiting_def)
    show ?thesis
      using interv p h branch fast
      by (cases recovered; cases "handoff_cleared before after")
         (auto simp: wait_for_integration_retry_def handle_intervention_required_retry_def Let_def)
  next
    case pending
    let ?s = "waiting_on ?r (s\<lparr>last_error := Some (retry_alarm ?detail)\<rparr>)"
    from pending have "wait_for_integration_retry env s ctx = handle_pending_retry env ?s ?r (persist_state ?s ctx)"
      unfolding wait_for_integration_retry_def Let_def by (simp only: if_False if_True)
    then show ?thesis using pending_ok [OF refl, where r = ?r and s = s and ctx = ctx and env = env] by simp
  qed
qed

section \<open>A session of waits\<close>

text \<open>
  The waits of one session.  Before each wait the rest of the loop may have changed the world, the latest
  state and the checkpoints in any way, and it hands the wait a state of its own; every result is listed
  with the part of the trace its wait added.
\<close>

fun wait_session ::
  "('w, 'e) retry_env_scheme \<Rightarrow> (('w shared \<Rightarrow> 'w shared) \<times> pstate) list \<Rightarrow> 'w retry_ctx
     \<Rightarrow> (pstate \<times> retry_event list) list \<times> 'w retry_ctx" where
  "wait_session env [] ctx = ([], ctx)"
| "wait_session env ((f, s) # steps) ctx =
     (let (s', ctx1) = wait_for_integration_retry env s (on_shared f ctx);
          (rs, ctx2) = wait_session env steps ctx1
      in ((s', drop (length (rx_trace ctx)) (rx_trace ctx1)) # rs, ctx2))"

definition is_handoff :: "retry_event \<Rightarrow> bool" where
  "is_handoff e = (case e of Handed_off _ \<Rightarrow> True | Slept _ \<Rightarrow> False)"

definition spun :: "pstate \<times> retry_event list \<Rightarrow> bool" where
  "spun x = (integration_unresolved (rebase (fst x)) \<and> list_all is_handoff (snd x))"

lemma is_handoff_iff: "is_handoff e \<longleftrightarrow> (\<exists>d. e = Handed_off d)" "\<not> is_handoff e \<longleftrightarrow> (\<exists>x. e = Slept x)"
  by (cases e; simp add: is_handoff_def)+

lemma wait_news:
  fixes s ctx f
  assumes "wait_for_integration_retry env s (on_shared f ctx) = (s', ctx1)"
  defines "news \<equiv> drop (length (rx_trace ctx)) (rx_trace ctx1)"
  shows "wait_kept s s'" "rx_trace ctx1 = rx_trace ctx @ news" "rx_handoff_done ctx1 \<longleftrightarrow> rx_handoff_done ctx \<or> filter is_handoff news \<noteq> []"
    "length (filter is_handoff news) \<le> (if rx_handoff_done ctx then 0 else 1)"
    "spun (s', news) \<Longrightarrow> filter is_handoff news \<noteq> []"
proof -
  obtain n where n: "wait_ok s (on_shared f ctx) (s', ctx1) n" using wait_is_ok [of s "on_shared f ctx" env] assms(1) by auto
  then have "news = n" by (simp add: news_def wait_ok_def)
  moreover have "(\<lambda>e. case e of Handed_off _ \<Rightarrow> True | Slept _ \<Rightarrow> False) = is_handoff" by (rule ext) (simp add: is_handoff_def)
  moreover have "(\<exists>d. Handed_off d \<in> set n) \<longleftrightarrow> filter is_handoff n \<noteq> []"
    by (auto simp: filter_empty_conv is_handoff_iff)
  moreover have "filter is_handoff n \<noteq> []" if "list_all is_handoff n" "(\<exists>x. Slept x \<in> set n) \<or> (\<exists>d. Handed_off d \<in> set n)"
    using that by (auto simp: filter_empty_conv list_all_iff is_handoff_def)
  ultimately show "wait_kept s s'" "rx_trace ctx1 = rx_trace ctx @ news"
      "rx_handoff_done ctx1 \<longleftrightarrow> rx_handoff_done ctx \<or> filter is_handoff news \<noteq> []"
      "length (filter is_handoff news) \<le> (if rx_handoff_done ctx then 0 else 1)"
      "spun (s', news) \<Longrightarrow> filter is_handoff news \<noteq> []"
    using n by (auto simp: wait_ok_def spun_def)
qed

lemma wait_session_ok:
  assumes "wait_session env steps ctx = (rs, ctx')"
  shows "list_all2 (\<lambda>(_, s) (s', _). wait_kept s s') steps rs
    \<and> rx_trace ctx' = rx_trace ctx @ concat (map snd rs)
    \<and> length (filter is_handoff (concat (map snd rs))) \<le> (if rx_handoff_done ctx then 0 else 1)
    \<and> length (filter spun rs) \<le> length (filter is_handoff (concat (map snd rs)))"
  using assms
proof (induction steps arbitrary: ctx rs)
  case (Cons x steps)
  obtain f s where x: "x = (f, s)" by (cases x)
  obtain s' ctx1 where w: "wait_for_integration_retry env s (on_shared f ctx) = (s', ctx1)" by (metis prod.exhaust)
  obtain rs' where r: "wait_session env steps ctx1 = (rs', ctx')" and rs: "rs = (s', drop (length (rx_trace ctx)) (rx_trace ctx1)) # rs'"
    using Cons.prems x w by (auto simp: Let_def split: prod.splits)
  note n = wait_news [OF w] and ih = Cons.IH [OF r]
  define news where "news = drop (length (rx_trace ctx)) (rx_trace ctx1)"
  let ?a = "length (filter is_handoff news)" and ?b = "length (filter is_handoff (concat (map snd rs')))"
  have "?a \<le> (if rx_handoff_done ctx then 0 else 1)" "rx_handoff_done ctx1 \<longleftrightarrow> rx_handoff_done ctx \<or> ?a \<noteq> 0"
    using n unfolding news_def by simp_all
  then have count: "?a + ?b \<le> (if rx_handoff_done ctx then 0 else 1)"
    using ih by (cases "rx_handoff_done ctx"; cases "rx_handoff_done ctx1") auto
  have "(if spun (s', news) then 1 else 0) \<le> ?a"
    using n(5) unfolding news_def by (auto simp: Suc_le_eq)
  with count ih n(1,2) show ?case unfolding rs x news_def [symmetric] by auto
qed simp

text \<open>
  C20: A run that waits for its integration neither changes course nor spins.  In a session whose
  waits all stay below the cap on consecutive conflicts, and whatever Git, the resolver and the loop
  around it do, each wait returns the state it was given with only its integration record, its error
  text and its waiting flags changed; the session hands off to the resolver at most once; and among
  the waits that leave the integration unresolved at most one returned without having slept, namely
  the one that handed off.  (At the cap the code goes on sleeping where its documentation has it
  escalate: \<open>cap_never_escalates\<close>.)
\<close>

theorem waits_never_spin:
  assumes "wait_session env steps ctx = (rs, ctx')" "\<not> rx_handoff_done ctx"
    and "list_all (\<lambda>(s', _). consecutive_conflicts (rebase s') < max_tracked_conflict_attempts) rs"
  shows "list_all2 (\<lambda>(_, s) (s', _). wait_kept s s') steps rs
    \<and> length (filter is_handoff (concat (map snd rs))) \<le> 1
    \<and> length (filter spun rs) \<le> 1"
  using wait_session_ok [OF assms(1)] assms(2) by auto

text \<open>A world in which nothing answers: no receipt to hand off, no recovery, every resolver ready.\<close>

definition silent_env :: "unit retry_env" where
  "silent_env = \<lparr>en_preamble = (\<lambda>w. (None, w)), en_record_view = (\<lambda>_. View_busy), en_diagnose = (\<lambda>_ w. w),
     en_repair_merge = (\<lambda>_ w. w), en_resolve = (\<lambda>_ sh. (False, sh)), en_cooldown_ms = (\<lambda>_. 0)\<rparr>"

definition fresh_ctx :: "unit retry_ctx" where
  "fresh_ctx = \<lparr>rx_shared = \<lparr>sh_world = (), sh_latest = None, sh_saved = []\<rparr>, rx_handoff_done = False, rx_trace = []\<rparr>"

definition exhausted_run :: pstate where
  "exhausted_run = (blank_state ''planning'')\<lparr>rebase := new_rebase_state\<lparr>last_outcome := Some Conflict, last_reason := Some ''clash'',
     resolution_exhausted := True, conflict_strategy_index := 4\<rparr>\<rparr>"

lemma waits_never_spin_witness_trace:
  "rx_trace (snd (wait_session silent_env [(id, exhausted_run), (id, exhausted_run), (id, exhausted_run)] fresh_ctx))
     = [Handed_off ''clash'', Slept 5, Slept 5]"
  by code_simp

theorem waits_never_spin_witness:
  "length (filter spun (fst (wait_session silent_env [(id, exhausted_run), (id, exhausted_run), (id, exhausted_run)] fresh_ctx))) \<le> 1
   \<and> rx_trace (snd (wait_session silent_env [(id, exhausted_run), (id, exhausted_run), (id, exhausted_run)] fresh_ctx))
     = [Handed_off ''clash'', Slept 5, Slept 5]"
proof -
  let ?steps = "[(id, exhausted_run), (id, exhausted_run), (id, exhausted_run)]"
  have e: "wait_session silent_env ?steps fresh_ctx
      = (fst (wait_session silent_env ?steps fresh_ctx), snd (wait_session silent_env ?steps fresh_ctx))" by simp
  have h: "\<not> rx_handoff_done fresh_ctx" by (simp add: fresh_ctx_def)
  have c: "list_all (\<lambda>(s', _). consecutive_conflicts (rebase s') < max_tracked_conflict_attempts)
      (fst (wait_session silent_env ?steps fresh_ctx))"
    by code_simp
  from waits_never_spin [OF e h c] waits_never_spin_witness_trace show ?thesis by blast
qed

section \<open>What the escalation leaves behind\<close>

text \<open>
  The docstring of \<^verbatim>\<open>_handle_pending_retry\<close> has the conflict cap escalate without sleeping.  The code
  never looks at the cap: a run whose count stands at it sleeps, stays where it is and is not escalated.
\<close>

definition capped_run :: pstate where
  "capped_run = (blank_state ''planning'')\<lparr>rebase := new_rebase_state\<lparr>last_outcome := Some Conflict, last_reason := Some ''clash'',
     consecutive_conflicts := max_tracked_conflict_attempts\<rparr>\<rparr>"

lemma cap_never_escalates:
  "(case wait_for_integration_retry silent_env capped_run fresh_ctx of (s', ctx') \<Rightarrow>
      rx_trace ctx' = [Slept 5] \<and> last_outcome (rebase s') = Some Conflict \<and> \<not> is_intervention_required (rebase s')
      \<and> consecutive_conflicts (rebase s') = max_tracked_conflict_attempts)"
  by code_simp

text \<open>
  With no publication decision the detail of an escalation is the reason of the previous one, so each
  repeated wait appends the same suffix to the recorded reason.
\<close>

definition awaits_rung :: "pstate \<Rightarrow> bool" where
  "awaits_rung s \<longleftrightarrow> resolution_exhausted (rebase s) \<and> last_publication_decision (rebase s) = None \<and> truthy (last_reason (rebase s))"

lemma repeated_wait:
  assumes "awaits_rung s" "rx_handoff_done ctx" "wait_for_integration_retry env s ctx = (s', ctx')"
  shows "awaits_rung s' \<and> rx_handoff_done ctx'
    \<and> last_reason (rebase s') = map_option (\<lambda>x. x @ ladder_escalation_suffix) (last_reason (rebase s))"
  using assms
  by (cases "last_reason (rebase s)")
     (auto simp: wait_for_integration_retry_def awaits_rung_def show_waiting_def owed_publication_def is_set_def session_handoff_def
        handoff_cleared_def handoff_rebase_def escalate_wait_def Let_def waiting_on_def set_waiting_def clear_waiting_def
        set_ladder_escalation_def record_consecutive_conflicts_def render_current_observation_detail_def ladder_escalation_reason_def
        ladder_escalation_suffix_def)

fun repeat_wait :: "nat \<Rightarrow> 'w retry_env \<Rightarrow> pstate \<times> 'w retry_ctx \<Rightarrow> pstate \<times> 'w retry_ctx" where
  "repeat_wait 0 env x = x"
| "repeat_wait (Suc n) env x = repeat_wait n env (wait_for_integration_retry env (fst x) (snd x))"

lemma escalation_reason_grows:
  assumes "awaits_rung s" "rx_handoff_done ctx" "last_reason (rebase s) = Some x"
  shows "last_reason (rebase (fst (repeat_wait n env (s, ctx)))) = Some (x @ concat (replicate n ladder_escalation_suffix))"
  using assms
proof (induction n arbitrary: s ctx x)
  case (Suc n)
  obtain s' ctx' where w: "wait_for_integration_retry env s ctx = (s', ctx')" by (metis prod.exhaust)
  from repeated_wait [OF Suc.prems(1,2) w] Suc.prems(3) Suc.IH [of s' ctx' "x @ ladder_escalation_suffix"] w show ?case by simp
qed simp

text \<open>
  The checkpoint a blocked wait saves has released the evidence it was called to retain: no inspection
  precedes the release.
\<close>

lemma blocked_checkpoint_forgets:
  "(case wait_for_integration_retry silent_env exhausted_run (fresh_ctx\<lparr>rx_handoff_done := True\<rparr>) of (s', ctx') \<Rightarrow>
      resolution_exhausted (rebase s') \<and> conflict_strategy_index (rebase s') = 4
      \<and> map (\<lambda>c. (resolution_exhausted (rebase c), conflict_strategy_index (rebase c))) (sh_saved (rx_shared ctx')) = [(False, 0)])"
  by code_simp

text \<open>A conflict that has not escalated is released from the checkpoint altogether.\<close>

lemma conflict_checkpoint_forgets:
  "(case wait_for_integration_retry silent_env (exhausted_run\<lparr>rebase := new_rebase_state\<lparr>last_outcome := Some Conflict\<rparr>\<rparr>) fresh_ctx of (s', ctx') \<Rightarrow>
      integration_unresolved (rebase s') \<and> list_all (\<lambda>c. \<not> integration_unresolved (rebase c)) (sh_saved (rx_shared ctx')))"
  by code_simp

section \<open>Waits that are nobody's fault\<close>

text \<open>A wait for a cooling resolver, or for the remote, is not charged to the conflict counter.\<close>

lemma cooldown_wait_uncharged:
  assumes "integration_unresolved r" "en_cooldown_ms env (sh_world (rx_shared ctx)) > 0"
  shows "consecutive_conflicts (rebase (fst (handle_pending_retry env s r ctx))) = consecutive_conflicts r
    \<and> rx_trace (snd (handle_pending_retry env s r ctx))
      = rx_trace ctx @ [Slept (min (of_int (en_cooldown_ms env (sh_world (rx_shared ctx))) / 1000) MAX_COOLDOWN_SLEEP_SECONDS)]"
  using assms by (simp add: handle_pending_retry_def Let_def waiting_on_def set_waiting_def clear_waiting_def show_waiting_def)

lemma owed_publication_uncharged:
  assumes "\<not> integration_unresolved r" "fst (en_preamble env (sh_world (rx_shared ctx))) = Some rc"
    "\<not> integration_unresolved rc" "owed_publication rc"
  shows "consecutive_conflicts (rebase (fst (handle_pending_retry env s r ctx))) = consecutive_conflicts rc"
proof -
  have "\<not> (last_publication_decision rc = None \<or> last_publication_decision rc = Some (publication_value Publication_terminal))"
    using assms(4) by (cases "last_publication_decision rc") (auto simp: owed_publication_def is_set_def)
  then show ?thesis using assms
    by (auto simp: handle_pending_retry_def Let_def waiting_on_def set_waiting_def clear_waiting_def show_waiting_def split: prod.splits)
qed

end
