(* ===== verification/Boundary_Gate.thy ===== *)
theory Boundary_Gate
  imports Integration_Retry Integration_Owner
begin

text \<open>
  The two gates of the run loop in \<^verbatim>\<open>ralph/pipeline/run_loop.py\<close>: the blocking of a dispatch over an
  unresolved integration (\<^verbatim>\<open>_block_unresolved_integration\<close> with its recovery pass), and the
  synchronization a planning phase waits for (\<^verbatim>\<open>_ensure_planning_in_sync\<close>), with the typed obstruction of
  \<^verbatim>\<open>ralph/pipeline/_planning_obstruction.py\<close>.

  A \<open>gate_env\<close> extends the answers of \<open>Integration_Retry\<close> by the live tree of \<open>Dispatch_Gate\<close>, the startup
  integration, the owner's verdict (\<open>None\<close> when the seam fails) and the execution of a ladder rung.
\<close>

section \<open>Planning obstructions\<close>

datatype planning_obstruction =
    Obstruction_none | Local_overwrite | Untracked_overwrite | Staged_blocks_integration | Tracked_changes_blocks_integration

fun obstruction_value :: "planning_obstruction \<Rightarrow> string" where
  "obstruction_value Obstruction_none = ''none''"
| "obstruction_value Local_overwrite = ''local_overwrite''"
| "obstruction_value Untracked_overwrite = ''untracked_overwrite''"
| "obstruction_value Staged_blocks_integration = ''staged_blocks_integration''"
| "obstruction_value Tracked_changes_blocks_integration = ''tracked_changes_blocks_integration''"

definition all_obstructions :: "planning_obstruction list" where
  "all_obstructions = [Obstruction_none, Local_overwrite, Untracked_overwrite, Staged_blocks_integration, Tracked_changes_blocks_integration]"

definition planning_obstruction_from_readiness :: "tree_readiness \<Rightarrow> planning_obstruction option" where
  "planning_obstruction_from_readiness rd =
     (if tr_block_kinds rd \<noteq> [] then Some Obstruction_none
      else case tr_blocking_reasons rd of
        [] \<Rightarrow> None
      | why # _ \<Rightarrow> if why = staged_reason then Some Staged_blocks_integration
                  else if why = dirty_reason then Some Tracked_changes_blocks_integration
                  else None)"

definition identify_planning_obstruction :: "string \<Rightarrow> planning_obstruction" where
  "identify_planning_obstruction why =
     (let t = lower why
      in if why = [] then Obstruction_none
         else if contains_str t ''staged uncommitted work blocks integration'' then Staged_blocks_integration
         else if contains_str t ''uncommitted tracked changes'' \<or> contains_str t ''tracked changes block''
           then Tracked_changes_blocks_integration
         else if contains_str t ''local changes would be overwritten''
              \<or> contains_str t ''local changes to the following files would be overwritten'' then Local_overwrite
         else if contains_str t ''untracked files would be overwritten''
              \<or> contains_str t ''untracked working tree files would be overwritten'' then Untracked_overwrite
         else Obstruction_none)"

definition recorded_obstruction :: "rebase_state \<Rightarrow> planning_obstruction" where
  "recorded_obstruction r =
     (if truthy (last_planning_obstruction r)
        then (case List.find (\<lambda>k. Some (obstruction_value k) = last_planning_obstruction r) all_obstructions of
            Some k \<Rightarrow> k | None \<Rightarrow> Obstruction_none)
      else identify_planning_obstruction (case last_reason r of None \<Rightarrow> [] | Some x \<Rightarrow> x))"

section \<open>The gate's environment\<close>

record 'w gate_env = "'w retry_env" +
  ge_policy :: pipeline_policy
  ge_tree :: "'w \<Rightarrow> live_tree"
  ge_busy :: "'w \<Rightarrow> real option \<times> real"
  ge_startup :: "rebase_state \<Rightarrow> 'w \<Rightarrow> rebase_state option \<times> 'w"
  ge_seam_action :: "integration_receipt \<Rightarrow> 'w \<Rightarrow> (integration_action + record_fact_outcome) \<times> 'w"
  ge_exhaustion_binds :: "rebase_state \<Rightarrow> 'w \<Rightarrow> bool"
  ge_sync_configured :: bool
  ge_owner_sync :: "'w \<Rightarrow> planning_sync_verdict option \<times> 'w"
  ge_execute_rung :: "cleanup_ladder_rung \<Rightarrow> 'w \<Rightarrow> 'w"
  ge_relation :: "'w \<Rightarrow> (string option \<times> bool) \<times> branch_relation"
  ge_target :: string
  ge_uncommitted :: "'w \<Rightarrow> bool"

abbreviation world_of :: "'w retry_ctx \<Rightarrow> 'w" where
  "world_of ctx \<equiv> sh_world (rx_shared ctx)"

definition set_world :: "'w \<Rightarrow> 'w retry_ctx \<Rightarrow> 'w retry_ctx" where
  "set_world w = on_shared (sh_world_update (\<lambda>_. w))"

definition save_state :: "pstate \<Rightarrow> 'w retry_ctx \<Rightarrow> 'w retry_ctx" where
  "save_state s = on_shared (save_recovered_rebase_checkpoint s)"

definition inspect_live :: "('w, 'e) gate_env_scheme \<Rightarrow> rebase_state \<Rightarrow> 'w retry_ctx \<Rightarrow> (assessed_verdict \<times> rebase_state option) res" where
  "inspect_live env r ctx = inspect_integration_resolution (ge_tree env (world_of ctx)) r"

text \<open>The startup integration; an answer replaces the rebase state and is saved.\<close>

definition run_startup ::
  "('w, 'e) gate_env_scheme \<Rightarrow> pstate \<Rightarrow> 'w retry_ctx \<Rightarrow> pstate \<times> 'w retry_ctx" where
  "run_startup env s ctx =
     (let (answer, w) = ge_startup env (rebase s) (world_of ctx); ctx1 = set_world w ctx
      in case answer of None \<Rightarrow> (s, ctx1)
         | Some r \<Rightarrow> (let s1 = s\<lparr>rebase := r\<rparr> in (s1, save_state s1 ctx1)))"

section \<open>Blocking a dispatch\<close>

definition blocking_record ::
  "('w, 'e) gate_env_scheme \<Rightarrow> 'w retry_ctx \<Rightarrow> (integration_receipt option \<times> bool) res" where
  "blocking_record env ctx = (case lt_receipt (ge_tree env (world_of ctx)) of
     Read_outcome Rd_busy _ \<Rightarrow> (let (deadline, now) = ge_busy env (world_of ctx)
                               in Inr (None, \<not> isl (busy_refusal_outcome deadline now)))
   | Read_outcome Rd_unreadable _ \<Rightarrow> Inr (None, False)
   | Read_outcome _ receipt \<Rightarrow> Inr (receipt, False)
   | Read_not_found \<Rightarrow> Inl (OSError ''no such file'')
   | Read_os_error \<Rightarrow> Inl (OSError ''record unreadable''))"

definition handle_retained_integration ::
  "('w, 'e) gate_env_scheme \<Rightarrow> pstate \<Rightarrow> 'w retry_ctx \<Rightarrow> pstate \<times> bool \<times> 'w retry_ctx" where
  "handle_retained_integration env s ctx =
     (case retained_integration_reason (ge_tree env (world_of ctx)) of
        None \<Rightarrow> (s, False, ctx)
      | Some _ \<Rightarrow>
          (let (s1, ctx1) = run_startup env s ctx
           in case retained_integration_reason (ge_tree env (world_of ctx1)) of
                None \<Rightarrow> (s1, False, ctx1)
              | Some remaining \<Rightarrow>
                  (let (s2, ctx2) = (if \<not> recovery_record_retained (rebase s1)
                         then (let x = s1\<lparr>rebase := (set_recovery_record_retained Observed_retained_on_disk (rebase s1))
                                                      \<lparr>last_reason := Some remaining\<rparr>\<rparr>
                               in (x, save_state x ctx1))
                         else (s1, ctx1));
                       s3 = s2\<lparr>rebase := (rebase s2)\<lparr>operation_display_state := Some ''evidence_diagnosis''\<rparr>\<rparr>
                   in (s3, True, on_shared (handoff_retained_failure env (or_else (last_reason (rebase s3)) remaining)) ctx2))))"

datatype rung_step = Rung_fall | Rung_break | Rung_continue

definition dispatch_owner_ladder_rung ::
  "('w, 'e) gate_env_scheme \<Rightarrow> planning_sync_verdict option \<Rightarrow> cleanup_ladder_rung option \<Rightarrow> integration_action option \<Rightarrow> 'w retry_ctx
     \<Rightarrow> (cleanup_ladder_rung option \<times> integration_action option \<times> rung_step) \<times> 'w retry_ctx" where
  "dispatch_owner_ladder_rung env verdict executed previous ctx =
     (case verdict of None \<Rightarrow> ((executed, previous, Rung_fall), ctx)
      | Some v \<Rightarrow> (case psv_ladder_rung v of
          None \<Rightarrow> ((executed, previous, Rung_fall), ctx)
        | Some rung \<Rightarrow>
            if executed = Some rung then ((executed, previous, Rung_break), ctx)
            else ((Some rung, Some (psv_action v), Rung_continue), set_world (ge_execute_rung env rung (world_of ctx)) ctx)))"

text \<open>One slot of the climb per rung of the ladder; the answer is the inspection that allowed dispatch.\<close>

fun boundary_climb ::
  "nat \<Rightarrow> ('w, 'e) gate_env_scheme \<Rightarrow> cleanup_ladder_rung option \<Rightarrow> integration_action option \<Rightarrow> pstate \<Rightarrow> 'w retry_ctx
     \<Rightarrow> (pstate \<times> assessed_verdict option \<times> 'w retry_ctx) res" where
  "boundary_climb 0 env executed previous s ctx = Inr (s, None, ctx)"
| "boundary_climb (Suc slots) env executed previous s ctx =
     (let (verdict, w) = ge_owner_sync env (world_of ctx);
          ((executed1, previous1, step), ctx1) = dispatch_owner_ladder_rung env verdict executed previous (set_world w ctx)
      in if step \<noteq> Rung_continue then Inr (s, None, ctx1)
         else (let (s1, ctx2) = run_startup env s ctx1
               in rbind (inspect_live env (rebase s1) ctx2) (\<lambda>(v, _).
                    if dispatch_allowed v then Inr (s1, Some v, ctx2)
                    else boundary_climb slots env executed1 previous1 s1 ctx2)))"

definition boundary_ladder_recovery ::
  "('w, 'e) gate_env_scheme \<Rightarrow> pstate \<Rightarrow> 'w retry_ctx \<Rightarrow> (pstate \<times> assessed_verdict option \<times> 'w retry_ctx) res" where
  "boundary_ladder_recovery env s ctx =
     (if \<not> ge_sync_configured env then Inr (s, None, ctx)
      else boundary_climb (length CLEANUP_LADDER_ORDER) env None None s ctx)"

text \<open>The recovery pass answers whether dispatch is still blocked.\<close>

definition conclude_recovery :: "pstate \<Rightarrow> assessed_verdict \<Rightarrow> 'w retry_ctx \<Rightarrow> bool \<times> 'w retry_ctx" where
  "conclude_recovery s v ctx =
     (if dispatch_allowed v
        then (let reconciled = reconcile_stale_unresolved_state (rebase s);
                  s1 = s\<lparr>rebase := reconciled\<rparr>
              in (False, on_shared (set_latest s1) (if reconciled \<noteq> rebase s then save_state s1 ctx else ctx)))
      else (True, on_shared (set_latest s) ctx))"

definition post_recovery_verdict ::
  "('w, 'e) gate_env_scheme \<Rightarrow> pstate \<Rightarrow> 'w retry_ctx \<Rightarrow> (bool \<times> 'w retry_ctx) res" where
  "post_recovery_verdict env s ctx =
     rbind (boundary_ladder_recovery env s ctx) (\<lambda>(s1, healed, ctx1).
       case healed of
         Some v \<Rightarrow> Inr (conclude_recovery s1 v ctx1)
       | None \<Rightarrow>
           (let ctx2 = on_shared (\<lambda>sh. snd (en_resolve env (Some (rebase s1)) sh)) ctx1;
                (s2, ctx3) = run_startup env s1 ctx2
            in rbind (inspect_live env (rebase s2) ctx3) (\<lambda>(v, _). Inr (conclude_recovery s2 v ctx3))))"

text \<open>What the record read shows on the display; asking the owner charges the world's ledger.\<close>

definition note_record_facts ::
  "('w, 'e) gate_env_scheme \<Rightarrow> integration_receipt option \<Rightarrow> bool \<Rightarrow> pstate \<Rightarrow> 'w retry_ctx \<Rightarrow> pstate \<times> 'w retry_ctx" where
  "note_record_facts env receipt busy_expired s ctx =
     (let s0 = (if busy_expired then s\<lparr>rebase := show_waiting (rebase s)\<rparr> else s)
      in case receipt of None \<Rightarrow> (s0, ctx)
         | Some rc \<Rightarrow> (let (answer, w) = ge_seam_action env rc (world_of ctx)
                      in (if isl answer then s0 else s0\<lparr>rebase := show_waiting (rebase s0)\<rparr>, set_world w ctx)))"

definition block_unresolved_integration ::
  "('w, 'e) gate_env_scheme \<Rightarrow> pstate \<Rightarrow> 'w retry_ctx \<Rightarrow> (pstate option \<times> 'w retry_ctx) res" where
  "block_unresolved_integration env s ctx =
     rbind (blocking_record env ctx) (\<lambda>(receipt, busy_expired).
       (let (s1, ctx1) = note_record_facts env receipt busy_expired s ctx;
            (s2, retained, ctx2) = handle_retained_integration env s1 ctx1
        in if retained then Inr (Some s2, ctx2)
           else rbind (inspect_live env (rebase s2) ctx2) (\<lambda>(v, correction).
             if dispatch_allowed v
               then (let reconciled = (case correction of Some r \<Rightarrow> r | None \<Rightarrow> reconcile_stale_unresolved_state (rebase s2))
                     in Inr (None, if reconciled \<noteq> rebase s2 then save_state (s2\<lparr>rebase := reconciled\<rparr>) ctx2 else ctx2))
             else (let ctx3 = save_state s2 ctx2
                   in if rv_status v = Exhausted \<and> ge_exhaustion_binds env (rebase s2) (world_of ctx3) then Inr (Some s2, ctx3)
                      else rbind (post_recovery_verdict env s2 ctx3) (\<lambda>(blocked, ctx4).
                             Inr (if blocked then Some s2 else None, ctx4))))))"

section \<open>Planning waits for the target\<close>

definition is_planning_entry :: "pipeline_policy \<Rightarrow> pstate \<Rightarrow> bool" where
  "is_planning_entry p s =
     (entry_phase p = phase s \<or> is_set (\<lambda>d. drain d = ''planning'') (dget (phases p) (phase s)))"

definition planning_sync_gap :: "('w, 'e) gate_env_scheme \<Rightarrow> 'w retry_ctx \<Rightarrow> string option" where
  "planning_sync_gap env ctx =
     (if \<not> ge_sync_configured env then None
      else (let ((sha, query_ok), relation) = ge_relation env (world_of ctx); target = ge_target env
            in if query_ok \<and> sha = None
                 then Some (''configured integration target '' @ quoted target
                       @ '' does not exist; set general.auto_integrate_target to the branch this work integrates into''
                       @ '' (or disable general.auto_integrate_enabled)'')
               else case relation of
                   Synced \<Rightarrow> None
                 | Feature_ahead \<Rightarrow> Some (''feature commits not landed on '' @ quoted target @ '' (fast-forward not proven)'')
                 | Relation_unknown \<Rightarrow> Some (''cannot prove the branch contains '' @ quoted target @ '' (ancestry query failed)'')
                 | _ \<Rightarrow> Some (''branch does not contain the tip of '' @ quoted target)))"

definition reconcile_dispatch_state :: "pstate \<Rightarrow> pstate" where
  "reconcile_dispatch_state s =
     (if integration_unresolved (rebase s) \<or> resolution_exhausted (rebase s) \<or> recovery_record_retained (rebase s)
        then s\<lparr>rebase := reconcile_stale_unresolved_state (rebase s)\<rparr> else s)"

definition cleanup_phase_of :: "pipeline_policy \<Rightarrow> string option" where
  "cleanup_phase_of p = map_option fst (List.find (\<lambda>(_, d). role d = Some Commit_cleanup
     \<and> is_set (\<lambda>c. role c = Some Commit) (dget (phases p) (on_success (transitions d)))) (phases p))"

definition route_planning_commit ::
  "('w, 'e) gate_env_scheme \<Rightarrow> pstate \<Rightarrow> 'w retry_ctx \<Rightarrow> (pstate option \<times> 'w retry_ctx) res" where
  "route_planning_commit env s ctx =
     (if recorded_obstruction (rebase s) = Obstruction_none then Inr (None, ctx)
      else rbind (inspect_live env (rebase s) ctx) (\<lambda>(v, _).
        if \<not> dispatch_allowed v then Inr (None, ctx)
        else case cleanup_phase_of (ge_policy env) of
            None \<Rightarrow> Inr (None, ctx)
          | Some cleanup \<Rightarrow>
              if \<not> ge_uncommitted env (world_of ctx) then Inr (None, ctx)
              else (let routed = (progress_advance_phase s cleanup (ge_policy env))
                          \<lparr>integration_commit_resume_phase := Some (phase s), rebase := reconcile_stale_unresolved_state (rebase s)\<rparr>
                    in Inr (Some routed, save_state routed ctx))))"

text \<open>
  One round per attempt; the answer is the state and whether planning stays blocked.  \<open>failed\<close> is the failure
  of the previous round.
\<close>

type_synonym sync_failure = "string \<times> rebase_outcome_kind option \<times> string option"

definition blocked_planning_alarm :: "string \<Rightarrow> nat \<Rightarrow> rebase_state \<Rightarrow> string" where
  "blocked_planning_alarm gap attempt r =
     ''CRITICAL: integration did not land; planning blocked: '' @ gap @ ''; '' @ str_nat attempt
     @ '' integration attempt(s) with the conflict resolver did not land it (last: ''
     @ (if truthy (last_reason r) then str_opt (last_reason r)
        else case last_outcome r of Some k \<Rightarrow> outcome_value k | None \<Rightarrow> ''no integration outcome'') @ '')''"

fun sync_rounds ::
  "nat \<Rightarrow> nat \<Rightarrow> ('w, 'e) gate_env_scheme \<Rightarrow> string \<Rightarrow> sync_failure option \<Rightarrow> integration_action option \<Rightarrow> cleanup_ladder_rung option
     \<Rightarrow> pstate \<Rightarrow> 'w retry_ctx \<Rightarrow> ((pstate \<times> (string \<times> nat) option) \<times> 'w retry_ctx) res" where
  "sync_rounds 0 attempt env gap failed previous executed s ctx = Inr ((s, Some (gap, attempt)), ctx)"
| "sync_rounds (Suc rounds) attempt env gap failed previous executed s ctx =
     (let (s1, ctx1) = run_startup env s ctx
      in case planning_sync_gap env ctx1 of
           None \<Rightarrow> Inr ((s1, None), ctx1)
         | Some gap1 \<Rightarrow>
             rbind (route_planning_commit env s1 ctx1) (\<lambda>(routed, ctx2).
               case routed of
                 Some s2 \<Rightarrow> Inr ((s2, None), ctx2)
               | None \<Rightarrow>
                   (let (verdict, w) = ge_owner_sync env (world_of ctx2);
                        ((executed1, previous1, step), ctx3) = dispatch_owner_ladder_rung env verdict executed previous (set_world w ctx2);
                        failure = (gap1, last_outcome (rebase s1), last_reason (rebase s1));
                        stop = Inr ((s1, Some (gap1, Suc attempt)), ctx3)
                    in case step of
                         Rung_break \<Rightarrow> stop
                       | Rung_continue \<Rightarrow> sync_rounds rounds (Suc attempt) env gap1 failed previous1 executed1 s1 ctx3
                       | Rung_fall \<Rightarrow>
                           if failed = Some failure then stop
                           else (case verdict of
                               None \<Rightarrow> sync_rounds rounds (Suc attempt) env gap1 (Some failure) previous1 executed1 s1 ctx3
                             | Some v \<Rightarrow>
                                 if previous1 \<noteq> None \<and> previous1 \<noteq> Some (psv_action v) then stop
                                 else sync_rounds rounds (Suc attempt) env gap1 (Some failure) (Some (psv_action v)) executed1 s1 ctx3))))"

definition ensure_planning_in_sync ::
  "('w, 'e) gate_env_scheme \<Rightarrow> pstate \<Rightarrow> 'w retry_ctx \<Rightarrow> ((pstate \<times> bool) \<times> 'w retry_ctx) res" where
  "ensure_planning_in_sync env s ctx =
     (if \<not> is_planning_entry (ge_policy env) s then Inr ((s, False), ctx)
      else case planning_sync_gap env ctx of
        None \<Rightarrow> Inr ((s, False), ctx)
      | Some gap \<Rightarrow>
          rbind (sync_rounds 3 0 env gap None None None s ctx) (\<lambda>((s1, blocked), ctx1).
            case blocked of
              None \<Rightarrow> Inr ((s1, False), ctx1)
            | Some (gap1, attempt) \<Rightarrow>
                (let s2 = s1\<lparr>last_error := Some (blocked_planning_alarm gap1 attempt (rebase s1))\<rparr>
                 in Inr ((s2, True), save_state s2 ctx1))))"

section \<open>What an open gate has seen\<close>

lemma set_world_fields [simp]:
  "world_of (set_world w ctx) = w" "rx_trace (set_world w ctx) = rx_trace ctx" "rx_handoff_done (set_world w ctx) = rx_handoff_done ctx"
  by (simp_all add: set_world_def)

lemma save_state_fields [simp]:
  "world_of (save_state s ctx) = world_of ctx" "rx_trace (save_state s ctx) = rx_trace ctx"
  "rx_handoff_done (save_state s ctx) = rx_handoff_done ctx" "sh_latest (rx_shared (save_state s ctx)) = sh_latest (rx_shared ctx)"
  by (simp_all add: save_state_def save_recovered_rebase_checkpoint_def Let_def)

lemma set_latest_world [simp]: "sh_world (set_latest s sh) = sh_world sh"
  by (simp add: set_latest_def)

text \<open>A state that differs from another in its integration record only.\<close>

definition same_run :: "pstate \<Rightarrow> pstate \<Rightarrow> bool" where
  "same_run s s' \<longleftrightarrow> s' = s\<lparr>rebase := rebase s'\<rparr>"

lemma same_run_refl [simp, intro]: "same_run s s"
  by (simp add: same_run_def)

lemma same_run_update [simp]: "same_run s (s'\<lparr>rebase := r\<rparr>) \<longleftrightarrow> same_run s s'"
  unfolding same_run_def by (metis (no_types, lifting) pstate.select_convs(9) pstate.surjective pstate.update_convs(9))

lemma same_run_trans [trans]: "same_run s s' \<Longrightarrow> same_run s' s'' \<Longrightarrow> same_run s s''"
  unfolding same_run_def by (metis (no_types, lifting) pstate.surjective pstate.update_convs(9))

lemma run_startup_same: "run_startup env s ctx = (s', ctx') \<Longrightarrow> same_run s s'"
  by (auto simp: run_startup_def Let_def split: prod.splits option.splits)

definition inspected :: "('w, 'e) gate_env_scheme \<Rightarrow> 'w retry_ctx \<Rightarrow> bool" where
  "inspected env ctx \<longleftrightarrow> (\<exists>r v c. inspect_live env r ctx = Inr (v, c) \<and> dispatch_allowed v)"

lemma inspected_world: "world_of ctx' = world_of ctx \<Longrightarrow> inspected env ctx' = inspected env ctx"
  by (simp add: inspected_def inspect_live_def)

lemma boundary_climb_inspected:
  "boundary_climb n env executed previous s ctx = Inr (s', Some v, ctx') \<Longrightarrow> dispatch_allowed v \<and> inspected env ctx'"
proof (induction n arbitrary: executed previous s ctx)
  case (Suc n)
  then show ?case
    by (fastforce simp: Let_def inspected_def split: prod.splits if_splits elim!: rbind_InrE)
qed simp

lemma conclude_recovery_world: "conclude_recovery s v ctx = (b, ctx') \<Longrightarrow> world_of ctx' = world_of ctx \<and> (b \<longleftrightarrow> \<not> dispatch_allowed v)"
  by (auto simp: conclude_recovery_def Let_def split: if_splits)

lemma post_recovery_inspected:
  assumes "post_recovery_verdict env s ctx = Inr (False, ctx')"
  shows "inspected env ctx'"
proof -
  from assms obtain s1 healed ctx1 where b: "boundary_ladder_recovery env s ctx = Inr (s1, healed, ctx1)"
    and rest: "(case healed of Some v \<Rightarrow> Inr (conclude_recovery s1 v ctx1)
       | None \<Rightarrow> (let ctx2 = on_shared (\<lambda>sh. snd (en_resolve env (Some (rebase s1)) sh)) ctx1; (s2, ctx3) = run_startup env s1 ctx2
            in rbind (inspect_live env (rebase s2) ctx3) (\<lambda>(v, _). Inr (conclude_recovery s2 v ctx3)))) = Inr (False, ctx')"
    by (auto simp: post_recovery_verdict_def)
  show ?thesis
  proof (cases healed)
    case (Some v)
    with b have "inspected env ctx1"
      using boundary_climb_inspected [of "length CLEANUP_LADDER_ORDER" env None None s ctx s1 v ctx1]
      by (auto simp: boundary_ladder_recovery_def split: if_splits)
    then show ?thesis using rest Some conclude_recovery_world [of s1 v ctx1 False ctx'] inspected_world [of ctx' ctx1 env] by simp
  next
    case None
    then obtain s2 ctx3 v c where i: "inspect_live env (rebase s2) ctx3 = Inr (v, c)" and e: "conclude_recovery s2 v ctx3 = (False, ctx')"
      using rest by (auto simp: Let_def split: prod.splits)
    then have "inspected env ctx3" using conclude_recovery_world [OF e] by (auto simp: inspected_def)
    then show ?thesis using conclude_recovery_world [OF e] inspected_world [of ctx' ctx3 env] by simp
  qed
qed

lemma handle_retained_same: "handle_retained_integration env s ctx = (s', b, ctx') \<Longrightarrow> same_run s s'"
  by (auto simp: handle_retained_integration_def Let_def split: option.splits prod.splits if_splits dest: run_startup_same)

lemma open_gate_inspected:
  assumes "block_unresolved_integration env s ctx = Inr (None, ctx')"
  shows "inspected env ctx'"
proof -
  obtain receipt expired where br: "blocking_record env ctx = Inr (receipt, expired)"
    using assms by (auto simp: block_unresolved_integration_def)
  obtain s1 ctx1 where 1: "note_record_facts env receipt expired s ctx = (s1, ctx1)" by (metis prod.exhaust)
  obtain s2 b ctx2 where 2: "handle_retained_integration env s1 ctx1 = (s2, b, ctx2)" by (metis prod.exhaust)
  have b: "\<not> b" using assms br 1 2 by (auto simp: block_unresolved_integration_def Let_def)
  then obtain v c where i: "inspect_live env (rebase s2) ctx2 = Inr (v, c)"
    using assms br 1 2 by (auto simp: block_unresolved_integration_def Let_def)
  show ?thesis
  proof (cases "dispatch_allowed v")
    case True
    with assms br 1 2 b i have "world_of ctx' = world_of ctx2"
      by (auto simp: block_unresolved_integration_def Let_def split: if_splits)
    then show ?thesis using True i inspected_world [of ctx' ctx2 env] by (auto simp: inspected_def)
  next
    case False
    with assms br 1 2 b i have "post_recovery_verdict env s2 (save_state s2 ctx2) = Inr (False, ctx')"
      by (auto simp: block_unresolved_integration_def Let_def split: if_splits)
    then show ?thesis by (rule post_recovery_inspected)
  qed
qed

lemma note_record_same: "note_record_facts env receipt expired s ctx = (s', ctx') \<Longrightarrow> same_run s s'"
  by (auto simp: note_record_facts_def Let_def split: option.splits prod.splits if_splits)

lemma blocked_same:
  assumes "block_unresolved_integration env s ctx = Inr (Some s', ctx')"
  shows "same_run s s'"
proof -
  from assms obtain receipt expired s1 ctx1 b ctx2 where
    1: "note_record_facts env receipt expired s ctx = (s1, ctx1)" and 2: "handle_retained_integration env s1 ctx1 = (s', b, ctx2)"
    by (auto simp: block_unresolved_integration_def Let_def split: prod.splits if_splits)
  show ?thesis using note_record_same [OF 1] handle_retained_same [OF 2] same_run_trans by blast
qed

text \<open>An inspected tree is free of receipts and of proven conflicts.\<close>

lemma inspected_tree:
  assumes "inspected env ctx"
  shows "receipt_ownership (ge_tree env (world_of ctx)) = None"
    and "lt_inspectable (ge_tree env (world_of ctx)) \<Longrightarrow>
      \<exists>os out. live_probe_outcomes (ge_tree env (world_of ctx)) = Inr (os, out) \<and> blocked_probes os = []"
proof -
  let ?t = "ge_tree env (world_of ctx)"
  obtain r v c where i: "inspect_integration_resolution ?t r = Inr (v, c)" "dispatch_allowed v"
    using assms by (auto simp: inspected_def inspect_live_def)
  show none: "receipt_ownership ?t = None" using i inspect_blocked_receipt [of ?t _ r] by (cases "receipt_ownership ?t") auto
  show "\<exists>os out. live_probe_outcomes ?t = Inr (os, out) \<and> blocked_probes os = []" if "lt_inspectable ?t"
  proof (cases "live_probe_outcomes ?t")
    case (Inl e)
    then show ?thesis using i none that by (simp add: inspect_integration_resolution_def assess_tree_readiness_def)
  next
    case (Inr x)
    obtain os out where "x = (os, out)" by (cases x)
    then show ?thesis using inspect_probed [OF none that, of os out r] Inr i by (auto simp: tree_unblocked_def)
  qed
qed

text \<open>What planning may do when it is not blocked.\<close>

definition routed_to_commit :: "('w, 'e) gate_env_scheme \<Rightarrow> pstate \<Rightarrow> pstate \<Rightarrow> bool" where
  "routed_to_commit env s s' \<longleftrightarrow> cleanup_phase_of (ge_policy env) = Some (phase s')
     \<and> integration_commit_resume_phase s' = Some (phase s)"

lemma route_planning_commit_routed:
  assumes "route_planning_commit env s ctx = Inr (Some s', ctx')"
  shows "routed_to_commit env s s' \<and> inspected env ctx' \<and> ge_uncommitted env (world_of ctx')"
proof -
  have w: "world_of ctx' = world_of ctx"
    using assms by (auto simp: route_planning_commit_def Let_def split: if_splits option.splits)
  moreover have "inspected env ctx"
    using assms unfolding inspected_def route_planning_commit_def by (auto split: if_splits) blast
  ultimately show ?thesis
    using assms inspected_world [of ctx' ctx env]
    by (auto simp: route_planning_commit_def Let_def routed_to_commit_def progress_advance_phase_def split: if_splits option.splits)
qed

lemma phase_same: "same_run s s' \<Longrightarrow> phase s' = phase s"
  by (metis pstate.select_convs(1) pstate.surjective pstate.update_convs(9) same_run_def)

lemma sync_rounds_result:
  assumes "sync_rounds n attempt env gap failed previous executed s ctx = Inr ((s', blocked), ctx')"
  shows "(blocked = None \<longrightarrow> planning_sync_gap env ctx' = None \<and> same_run s s'
            \<or> routed_to_commit env s s' \<and> inspected env ctx' \<and> ge_uncommitted env (world_of ctx'))
    \<and> (blocked \<noteq> None \<longrightarrow> same_run s s')"
  using assms
proof (induction n arbitrary: attempt gap failed previous executed s ctx)
  case (Suc n)
  obtain s1 ctx1 where st: "run_startup env s ctx = (s1, ctx1)" by (metis prod.exhaust)
  note same = run_startup_same [OF st] and ph = phase_same [OF run_startup_same [OF st]]
  show ?case
  proof (cases "planning_sync_gap env ctx1")
    case None
    then show ?thesis using Suc.prems st same by auto
  next
    case (Some gap1)
    obtain routed ctx2 where r: "route_planning_commit env s1 ctx1 = Inr (routed, ctx2)"
      using Suc.prems st Some by auto
    show ?thesis
    proof (cases routed)
      case (Some s2)
      then show ?thesis using Suc.prems st r \<open>planning_sync_gap env ctx1 = Some gap1\<close> route_planning_commit_routed [of env s1 ctx1 s2 ctx2] ph
        by (auto simp: routed_to_commit_def)
    next
      case None
      then consider "s' = s1" "blocked \<noteq> None"
        | a g f p e c where "sync_rounds n a env g f p e s1 c = Inr ((s', blocked), ctx')"
        using Suc.prems st r Some
        by (auto simp: Let_def split: prod.splits rung_step.splits if_splits option.splits)
      then show ?thesis
      proof cases
        case 1
        then show ?thesis using same by auto
      next
        case (2 a g f p e c)
        from Suc.IH [OF 2] show ?thesis using same_run_trans [OF same] ph by (auto simp: routed_to_commit_def)
      qed
    qed
  qed
qed auto

lemma ensure_planning_result:
  assumes "ensure_planning_in_sync env s ctx = Inr ((s', blocked), ctx')"
  shows "(\<not> blocked \<longrightarrow> (\<not> is_planning_entry (ge_policy env) s \<and> s' = s \<and> ctx' = ctx)
            \<or> is_planning_entry (ge_policy env) s \<and> planning_sync_gap env ctx' = None \<and> same_run s s'
            \<or> routed_to_commit env s s' \<and> inspected env ctx' \<and> ge_uncommitted env (world_of ctx'))
    \<and> (blocked \<longrightarrow> same_run s (s'\<lparr>last_error := last_error s\<rparr>))"
proof -
  consider (other) "\<not> is_planning_entry (ge_policy env) s"
    | (synced) "is_planning_entry (ge_policy env) s" "planning_sync_gap env ctx = None"
    | (rounds) gap s1 b ctx1 where "is_planning_entry (ge_policy env) s" "planning_sync_gap env ctx = Some gap"
        "sync_rounds 3 0 env gap None None None s ctx = Inr ((s1, b), ctx1)"
    using assms by (cases "is_planning_entry (ge_policy env) s"; cases "planning_sync_gap env ctx")
      (auto simp: ensure_planning_in_sync_def)
  then show ?thesis
  proof cases
    case rounds
    have le: "same_run s (x\<lparr>last_error := last_error s\<rparr>)" if "same_run s x" for x
      using that unfolding same_run_def by (metis (no_types, lifting) pstate.surjective pstate.update_convs(9,15) pstate.select_convs(9,15))
    show ?thesis
      using assms rounds sync_rounds_result [OF rounds(3)] le
      by (cases b) (auto simp: ensure_planning_in_sync_def Let_def)
  qed (use assms in \<open>auto simp: ensure_planning_in_sync_def\<close>)
qed

end
