(* ===== verification/Run_Loop.thy ===== *)
theory Run_Loop
  imports Boundary_Gate Recovery_Controller Cycle_Timing
begin

text \<open>
  The inner loop of a run: \<^verbatim>\<open>_run_inner_loop\<close> of \<^verbatim>\<open>ralph/pipeline/run_loop.py\<close> with its startup, the
  conditions it runs under, the gates of \<open>Boundary_Gate\<close>, the cooldown after a step and the report at its
  end.

  The pipeline step of \<^verbatim>\<open>runner.py\<close> is an answer of the environment, as are the clocks, the connectivity
  monitor and the recovery controller, which is part of the world.  A loop that never ends has no result:
  \<open>inner_loop\<close> is a partial function.
\<close>

record 'w loop_env = "'w gate_env" +
  le_step :: "pstate \<Rightarrow> 'w \<Rightarrow> (int + pstate) res \<times> 'w"
  le_clear_residue :: "'w \<Rightarrow> 'w"
  le_clock :: "'w \<Rightarrow> clock"
  le_controller :: "'w \<Rightarrow> controller"
  le_put_controller :: "controller \<Rightarrow> 'w \<Rightarrow> 'w"
  le_connectivity :: "'w \<Rightarrow> string option"
  le_await_online :: "'w \<Rightarrow> 'w"
  le_has_record :: "'w \<Rightarrow> bool"
  le_epoch :: real
  le_legacy_block :: "rebase_state option"

section \<open>Starting\<close>

definition initialize_resumed_timeboxes :: "pstate \<Rightarrow> pipeline_policy \<Rightarrow> real \<Rightarrow> pstate" where
  "initialize_resumed_timeboxes s p now =
     (let s1 = initialize_legacy_cycle_on_resume s p None;
          s2 = (if \<not> cycle_timebox_active s \<and> cycle_timebox_active s1 then s1\<lparr>cycle_timebox_started_at_epoch := Some now\<rparr> else s1);
          s3 = initialize_legacy_development_timebox_on_resume s2 p None
      in if \<not> dev_timebox_active s2 \<and> dev_timebox_active s3 then s3\<lparr>dev_timebox_started_at_epoch := Some now\<rparr> else s3)"

definition apply_startup_rebase_outcomes ::
  "('w, 'e) loop_env_scheme \<Rightarrow> pstate \<Rightarrow> 'w retry_ctx \<Rightarrow> (pstate \<times> 'w retry_ctx) res" where
  "apply_startup_rebase_outcomes env s ctx =
     (let (recovered, w) = en_preamble env (world_of ctx); ctx1 = set_world w ctx;
          catch_up = (\<lambda>x c. (let (answer, w) = ge_startup env (rebase x) (world_of c); c1 = set_world w c
            in case answer of
                 None \<Rightarrow> Inr (x, c1)
               | Some r \<Rightarrow>
                   if r = rebase x then Inr (x, c1)
                   else (let x1 = x\<lparr>rebase := r\<rparr> in Inr (x1, if is_skipped r then c1 else save_state x1 c1))))
      in case recovered of
           None \<Rightarrow> catch_up s ctx1
         | Some r \<Rightarrow>
             rbind (inspect_live env r ctx1) (\<lambda>(v, _).
               (let s1 = s\<lparr>rebase := (if dispatch_allowed v \<and> integration_unresolved r then reconcile_stale_unresolved_state r else r)\<rparr>;
                    ctx2 = save_state s1 ctx1
                in if recovery_record_retained (rebase s1) then Inr (s1, ctx2) else catch_up s1 ctx2)))"

section \<open>Whether the loop goes on\<close>

definition MAX_RECOVERY_EPOCHS :: nat where
  "MAX_RECOVERY_EPOCHS = 3"

fun none_eligible :: "clock \<Rightarrow> ledger \<Rightarrow> string \<Rightarrow> string list \<Rightarrow> ledger \<times> bool" where
  "none_eligible c l ph [] = (l, True)"
| "none_eligible c l ph (ag # ags) =
     (let (l1, st) = ledger_status c l ph ag in if st = Eligible then (l1, False) else none_eligible c l1 ph ags)"

definition entry_blocks :: "json \<Rightarrow> bool" where
  "entry_blocks j = (case j of
     JObj d \<Rightarrow> is_set json_bool (dget d ''is_spent'') \<or> is_set (\<lambda>x. x \<noteq> JNull) (dget d ''cooldown_until_ms'')
   | _ \<Rightarrow> False)"

definition snapshot_blocks :: "json dict \<Rightarrow> bool" where
  "snapshot_blocks snap = (case dget snap ''entries'' of Some (JObj d) \<Rightarrow> list_ex (\<lambda>(_, j). entry_blocks j) d | _ \<Rightarrow> False)"

definition ledger_requires_intervention ::
  "('w, 'e) loop_env_scheme \<Rightarrow> pstate \<Rightarrow> 'w retry_ctx \<Rightarrow> bool \<times> 'w retry_ctx" where
  "ledger_requires_intervention env s ctx =
     (if MAX_RECOVERY_EPOCHS \<le> recovery_epoch s \<or> last_execution_result_status s = Some ''failed'' then (True, ctx)
      else (let target = or_else (previous_phase s) (phase s);
                ags = (case chain_for_phase s target of None \<Rightarrow> [] | Some ch \<Rightarrow> agents ch);
                w = world_of ctx; ctl = le_controller env w
            in if ags \<noteq> []
                 then (let (l, none) = none_eligible (le_clock env w) (ctl_ledger ctl) target ags
                       in (none, set_world (le_put_controller env (ctl\<lparr>ctl_ledger := l\<rparr>) w) ctx))
               else (snapshot_blocks (case ledger_snapshot_field s of
                        Some snap \<Rightarrow> if snap = [] then ledger_snapshot (le_clock env w) (ctl_ledger ctl) else snap
                      | None \<Rightarrow> ledger_snapshot (le_clock env w) (ctl_ledger ctl)), ctx)))"

definition cycle_cap_exhausted :: "('w, 'e) loop_env_scheme \<Rightarrow> pstate \<Rightarrow> 'w retry_ctx \<Rightarrow> bool" where
  "cycle_cap_exhausted env s ctx = (ctl_cap (le_controller env (world_of ctx)) \<le> int (recovery_cycle_count s))"

definition live_retained_reason :: "('w, 'e) gate_env_scheme \<Rightarrow> 'w retry_ctx \<Rightarrow> string option" where
  "live_retained_reason env ctx = retained_integration_reason (ge_tree env (world_of ctx))"

definition success_eligible :: "('w, 'e) loop_env_scheme \<Rightarrow> pstate \<Rightarrow> 'w retry_ctx \<Rightarrow> bool" where
  "success_eligible env s ctx = is_terminal_success_eligible (Some s) (le_has_record env (world_of ctx)) (rebase s)"

text \<open>The condition of the loop; asking the ledger may move an expired cooldown.\<close>

definition loop_goes_on :: "('w, 'e) loop_env_scheme \<Rightarrow> pstate \<Rightarrow> 'w retry_ctx \<Rightarrow> bool \<times> 'w retry_ctx" where
  "loop_goes_on env s ctx =
     (let p = ge_policy env;
          terminal = (\<lambda>c. terminal_phase p = phase s \<and> (live_retained_reason env c \<noteq> None \<or> \<not> success_eligible env s c))
      in if phase s \<noteq> terminal_phase p \<and> phase s \<notin> terminal_states p then (True, ctx)
         else if phase s = failed_route (recovery p)
           then (let (blocked, ctx1) = ledger_requires_intervention env s ctx
                 in if \<not> blocked \<and> \<not> cycle_cap_exhausted env s ctx1 then (True, ctx1) else (terminal ctx1, ctx1))
         else (terminal ctx, ctx))"

section \<open>After a step\<close>

definition reselect_preferred_agent ::
  "('w, 'e) loop_env_scheme \<Rightarrow> bool \<Rightarrow> pstate \<Rightarrow> 'w retry_ctx \<Rightarrow> pstate \<times> 'w retry_ctx" where
  "reselect_preferred_agent env allow_wait s ctx =
     (case chain_for_phase s (phase s) of
        None \<Rightarrow> (s, ctx)
      | Some ch \<Rightarrow>
          (let w = world_of ctx; c = le_clock env w;
               (ctl1, sel) = preferred_agent_index c (le_controller env w) (phase s) (agents ch) None False
           in case sel_index sel of
                Some i \<Rightarrow>
                  (if i \<noteq> current_index ch
                     then (with_phase_chain (phase s) \<lparr>agents = agents ch, current_index = i, retries = 0\<rparr> s)
                            \<lparr>last_agent_session_id := None, agent_retry_intent := cleared_agent_retry_intent\<rparr>
                   else s, set_world (le_put_controller env ctl1 w) ctx)
              | None \<Rightarrow>
                  if \<not> allow_wait then (s, set_world (le_put_controller env ctl1 w) ctx)
                  else (let (ctl2, free) = agents_now_available c ctl1 (phase s) (agents ch)
                        in if free \<noteq> [] then (s, set_world (le_put_controller env ctl2 w) ctx)
                           else (let (ctl3, ms) = earliest_available_wait_ms c ctl2 (phase s) (agents ch)
                                 in (set_waiting ALL_AGENTS_UNAVAILABLE None
                                       (s\<lparr>last_error := Some ''all agents unavailable; waiting for cooldown expiry'',
                                          last_retry_delay_ms := ms\<rparr>),
                                     set_world (le_put_controller env ctl3 w) ctx)))))"

definition resume_after_cooldown_wait ::
  "('w, 'e) loop_env_scheme \<Rightarrow> pstate \<Rightarrow> 'w retry_ctx \<Rightarrow> (pstate \<times> 'w retry_ctx) res" where
  "resume_after_cooldown_wait env s ctx =
     rbind (inspect_live env (rebase s) ctx) (\<lambda>(v, _).
       (let (s1, ctx1) = (if dispatch_allowed v then reselect_preferred_agent env False s ctx else (s, ctx))
        in Inr (clear_waiting s1, ctx1)))"

definition handle_cooldown_delay ::
  "('w, 'e) loop_env_scheme \<Rightarrow> pstate \<Rightarrow> 'w retry_ctx \<Rightarrow> pstate \<times> 'w retry_ctx" where
  "handle_cooldown_delay env s ctx =
     (if last_retry_delay_ms s \<le> 0 then (s, ctx)
      else (let slept = ctx_sleep (of_int (last_retry_delay_ms s) / 1000) ctx
            in if is_waiting_state s
                 then (let s1 = s\<lparr>rebase := show_waiting (rebase s), last_retry_delay_ms := 0\<rparr>
                       in case resume_after_cooldown_wait env s1 slept of
                            Inr r \<Rightarrow> r | Inl _ \<Rightarrow> (s1\<lparr>last_retry_delay_ms := 1000\<rparr>, slept))
               else (s\<lparr>last_retry_delay_ms := 0\<rparr>, slept)))"

definition apply_connectivity_check ::
  "('w, 'e) loop_env_scheme \<Rightarrow> pstate \<Rightarrow> 'w retry_ctx \<Rightarrow> pstate \<times> 'w retry_ctx" where
  "apply_connectivity_check env s ctx = (case le_connectivity env (world_of ctx) of
     None \<Rightarrow> (s, ctx)
   | Some net \<Rightarrow>
       if net = ''online'' then (s\<lparr>last_connectivity_state := ''online''\<rparr>, ctx)
       else if net \<noteq> ''offline'' then (s, ctx)
       else (s\<lparr>last_connectivity_state := ''online''\<rparr>, set_world (le_await_online env (world_of ctx)) ctx))"

text \<open>A step that ran inside a detour to the commit phases returns to the phase the detour began in.\<close>

definition resume_planning_after_commit ::
  "('w, 'e) loop_env_scheme \<Rightarrow> int + pstate \<Rightarrow> pstate \<Rightarrow> 'w retry_ctx \<Rightarrow> (int + pstate) \<times> 'w retry_ctx" where
  "resume_planning_after_commit env result previous ctx =
     (case integration_commit_resume_phase previous of
        None \<Rightarrow> (result, ctx)
      | Some resume \<Rightarrow>
          (case result of
             Inl _ \<Rightarrow> (let (s, ctx1) = wait_for_integration_retry env previous ctx in (Inr s, ctx1))
           | Inr s \<Rightarrow>
               if is_set (\<lambda>d. role d = Some Commit_cleanup \<or> role d = Some Commit) (dget (phases (ge_policy env)) (phase s))
                 then (Inr s, ctx)
               else (let s1 = (progress_advance_phase s resume (ge_policy env))\<lparr>integration_commit_resume_phase := None\<rparr>;
                         ctx1 = save_state s1 ctx
                     in if ge_uncommitted env (world_of ctx1)
                          then (let (s2, ctx2) = wait_for_integration_retry env s1 ctx1 in (Inr s2, ctx2))
                        else (Inr s1, ctx1))))"

section \<open>One pass of the loop\<close>

datatype 'w admission = Admitted pstate "'w retry_ctx" | Held pstate "'w retry_ctx" | Refused pstate "'w retry_ctx"

definition held :: "('w, 'e) retry_env_scheme \<Rightarrow> pstate \<Rightarrow> 'w retry_ctx \<Rightarrow> 'w admission" where
  "held env s ctx = (let (s1, ctx1) = wait_for_integration_retry env s ctx in Held s1 ctx1)"

definition admit :: "('w, 'e) loop_env_scheme \<Rightarrow> pstate \<Rightarrow> 'w retry_ctx \<Rightarrow> 'w admission res" where
  "admit env s ctx =
     rbind (block_unresolved_integration env s ctx) (\<lambda>(blocked, ctx1).
       case blocked of
         Some s1 \<Rightarrow> Inr (held env s1 ctx1)
       | None \<Rightarrow>
           rbind (ensure_planning_in_sync env (reconcile_dispatch_state s) ctx1) (\<lambda>((s2, unsynced), ctx2).
             Inr (if unsynced then held env s2 ctx2
                  else if terminal_phase (ge_policy env) = phase s2 \<and> \<not> success_eligible env s2 ctx2
                    then (if fan_out_decision s2 \<noteq> Join_complete then Refused s2 ctx2 else held env s2 ctx2)
                  else Admitted s2 ctx2)))"

datatype 'w pass = Onward pstate "'w retry_ctx" | Leave pstate "int option" "'w retry_ctx"

definition dispatch_step ::
  "('w, 'e) loop_env_scheme \<Rightarrow> string \<Rightarrow> pstate \<Rightarrow> 'w retry_ctx \<Rightarrow> 'w pass res" where
  "dispatch_step env captured s ctx =
     (let (s1, ctx1) = apply_connectivity_check env s ctx;
          ctx2 = on_shared (set_latest s1) ctx1;
          (answer, w) = le_step env s1 (world_of ctx2)
      in rbind answer (\<lambda>result. Inr
           (let ctx3 = set_world (if is_planning_entry (ge_policy env) s1 \<and> \<not> isl result then le_clear_residue env w else w) ctx2;
                (result1, ctx4) = resume_planning_after_commit env result s1 ctx3
            in case result1 of
                 Inl code \<Rightarrow> Leave s1 (Some code) ctx4
               | Inr s2 \<Rightarrow>
                   (let (s3, ctx5) = handle_cooldown_delay env s2 ctx4;
                        (s4, ctx6) = (if phase s3 \<noteq> captured then reselect_preferred_agent env True s3 ctx5 else (s3, ctx5))
                    in Onward s4 ctx6))))"

definition loop_pass :: "('w, 'e) loop_env_scheme \<Rightarrow> pstate \<Rightarrow> 'w retry_ctx \<Rightarrow> 'w pass res" where
  "loop_pass env s ctx =
     (let (on, ctx1) = loop_goes_on env s ctx
      in if \<not> on then Inr (Leave s None ctx1)
         else rbind (admit env s ctx1) (\<lambda>a. case a of
                Admitted s1 ctx2 \<Rightarrow> dispatch_step env (phase s) s1 ctx2
              | Held s1 ctx2 \<Rightarrow> Inr (Onward s1 ctx2)
              | Refused s1 ctx2 \<Rightarrow> Inr (Leave s1 (Some 1) ctx2)))"

partial_function (option) loop_from ::
  "('w, 'e) loop_env_scheme \<Rightarrow> pstate \<Rightarrow> 'w retry_ctx \<Rightarrow> ((pstate \<times> int option \<times> 'w retry_ctx) res) option" where
  "loop_from env s ctx = (case loop_pass env s ctx of
     Inl e \<Rightarrow> Some (Inl e)
   | Inr (Leave s1 code ctx1) \<Rightarrow> Some (Inr (s1, code, ctx1))
   | Inr (Onward s1 ctx1) \<Rightarrow> loop_from env s1 ctx1)"

declare loop_from.simps [code]

text \<open>What happens before the first pass: recovery of a rebase left behind, one gate, and the timeboxes of a resumed run.\<close>

definition start_loop :: "('w, 'e) loop_env_scheme \<Rightarrow> pstate \<Rightarrow> 'w retry_ctx \<Rightarrow> (pstate \<times> 'w retry_ctx) res" where
  "start_loop env s ctx =
     (let s0 = (case le_legacy_block env of None \<Rightarrow> s | Some r \<Rightarrow> s\<lparr>rebase := r\<rparr>)
      in rbind (apply_startup_rebase_outcomes env s0 ctx) (\<lambda>(s1, ctx1).
           rbind (block_unresolved_integration env s1 ctx1) (\<lambda>(blocked, ctx2).
             (let (s2, ctx3) = (case blocked of None \<Rightarrow> (s1, ctx2) | Some b \<Rightarrow> wait_for_integration_retry env b ctx2)
              in Inr (initialize_resumed_timeboxes s2 (ge_policy env) (le_epoch env), ctx3)))))"

definition inner_loop ::
  "('w, 'e) loop_env_scheme \<Rightarrow> pstate \<Rightarrow> 'w retry_ctx \<Rightarrow> ((pstate \<times> int option \<times> 'w retry_ctx) res) option" where
  "inner_loop env s ctx = (case start_loop env s ctx of Inl e \<Rightarrow> Some (Inl e) | Inr (s1, ctx1) \<Rightarrow> loop_from env s1 ctx1)"

section \<open>The report\<close>

text \<open>The exit code of the run for what the loop returned.\<close>

definition run_exit_code :: "('w, 'e) loop_env_scheme \<Rightarrow> pstate \<times> int option \<times> 'w retry_ctx \<Rightarrow> int" where
  "run_exit_code env out = (case out of (s, early, ctx) \<Rightarrow> (case early of
     Some code \<Rightarrow> code
   | None \<Rightarrow>
       if terminal_phase (ge_policy env) = phase s
          \<and> decide_phase_transition s (Some (ge_policy env)) (le_has_record env (world_of ctx)) (rebase s) None = Report_terminal_success
          \<and> live_retained_reason env ctx = None \<and> success_eligible env s ctx
         then 0 else 1))"

section \<open>What a run reports\<close>

definition left_by_pass :: "('w, 'e) loop_env_scheme \<Rightarrow> (pstate \<times> int option \<times> 'w retry_ctx) res \<Rightarrow> bool" where
  "left_by_pass env r = (case r of Inl _ \<Rightarrow> True
     | Inr (s', code, ctx') \<Rightarrow> \<exists>s0 ctx0. loop_pass env s0 ctx0 = Inr (Leave s' code ctx'))"

lemma loop_from_leaves:
  assumes "loop_from env s ctx = Some r"
  shows "left_by_pass env r"
proof (rule loop_from.raw_induct [OF _ assms])
  fix f env s ctx r
  assume ih: "\<And>env s ctx r. f env s ctx = Some r \<Longrightarrow> left_by_pass env r"
    and body: "(case loop_pass env s ctx of Inl e \<Rightarrow> Some (Inl e) | Inr (Leave s1 code ctx1) \<Rightarrow> Some (Inr (s1, code, ctx1))
        | Inr (Onward s1 ctx1) \<Rightarrow> f env s1 ctx1) = Some r"
  show "left_by_pass env r"
  proof (cases "loop_pass env s ctx")
    case (Inr p)
    show ?thesis
    proof (cases p)
      case (Leave s1 code ctx1)
      then have "r = Inr (s1, code, ctx1)" "loop_pass env s ctx = Inr (Leave s1 code ctx1)" using Inr body by auto
      then show ?thesis unfolding left_by_pass_def by (simp, intro exI)
    qed (use Inr ih body in auto)
  qed (use body in \<open>auto simp: left_by_pass_def\<close>)
qed

lemma resume_keeps_code:
  "resume_planning_after_commit env result previous ctx = (Inl code, ctx') \<Longrightarrow> result = Inl code"
  by (auto simp: resume_planning_after_commit_def Let_def split: option.splits sum.splits prod.splits if_splits)

lemma dispatch_leaves:
  assumes "dispatch_step env captured s ctx = Inr (Leave s' code ctx')"
  shows "\<exists>k w. code = Some k \<and> fst (le_step env s' w) = Inr (Inl k)"
proof -
  obtain s1 ctx1 where c: "apply_connectivity_check env s ctx = (s1, ctx1)" by (metis prod.exhaust)
  obtain result w where st: "le_step env s1 (world_of ctx1) = (Inr result, w)"
    using assms by (auto simp: dispatch_step_def c Let_def rbind_def split: prod.splits sum.splits)
  let ?ctx3 = "set_world (if is_planning_entry (ge_policy env) s1 \<and> \<not> isl result then le_clear_residue env w else w) (on_shared (set_latest s1) ctx1)"
  obtain result1 ctx4 where r: "resume_planning_after_commit env result s1 ?ctx3 = (result1, ctx4)" by (metis prod.exhaust)
  from assms obtain k where "result1 = Inl k" "s' = s1" "code = Some k"
    by (auto simp: dispatch_step_def c Let_def st r split: sum.splits prod.splits)
  then show ?thesis using resume_keeps_code r st by (metis fst_conv)
qed

lemma leave_without_code:
  assumes "loop_pass env s ctx = Inr (Leave s' None ctx')"
  shows "s' = s \<and> loop_goes_on env s ctx = (False, ctx')"
  using assms
  by (auto simp: loop_pass_def Let_def split: prod.splits if_splits admission.splits dest: dispatch_leaves)

lemma leave_with_code:
  assumes "loop_pass env s ctx = Inr (Leave s' (Some k) ctx')"
  shows "k = 1 \<or> (\<exists>w. fst (le_step env s' w) = Inr (Inl k))"
proof -
  from assms consider "k = 1" | s1 ctx1 where "dispatch_step env (phase s) s1 ctx1 = Inr (Leave s' (Some k) ctx')"
    by (auto simp: loop_pass_def Let_def split: prod.splits if_splits admission.splits)
  then show ?thesis by cases (auto dest: dispatch_leaves)
qed

lemma loop_stops:
  assumes "loop_goes_on env s ctx = (False, ctx')"
  shows "phase s = terminal_phase (ge_policy env) \<or> phase s \<in> terminal_states (ge_policy env)"
    and "phase s = terminal_phase (ge_policy env) \<Longrightarrow> live_retained_reason env ctx' = None \<and> success_eligible env s ctx'"
    and "phase s = failed_route (recovery (ge_policy env)) \<Longrightarrow>
      cycle_cap_exhausted env s ctx' \<or> ledger_requires_intervention env s ctx = (True, ctx')"
  using assms by (auto simp: loop_goes_on_def Let_def split: if_splits prod.splits)

lemma inner_loop_leaves:
  "inner_loop env s ctx = Some (Inr (s', code, ctx')) \<Longrightarrow> \<exists>s0 ctx0. loop_pass env s0 ctx0 = Inr (Leave s' code ctx')"
  by (auto simp: inner_loop_def Let_def left_by_pass_def split: sum.splits prod.splits option.splits dest!: loop_from_leaves)

lemma exit_code_honest:
  assumes "run_exit_code env (s', None, ctx') = 0"
  shows "phase s' = terminal_phase (ge_policy env) \<and> \<not> le_has_record env (world_of ctx')
    \<and> \<not> integration_unresolved (rebase s') \<and> \<not> owed_publication (rebase s') \<and> fan_out_decision s' = Join_complete
    \<and> live_retained_reason env ctx' = None
    \<and> decide_phase_transition s' (Some (ge_policy env)) False (rebase s') None = Report_terminal_success"
proof -
  from assms have r: "terminal_phase (ge_policy env) = phase s'" "live_retained_reason env ctx' = None" "success_eligible env s' ctx'"
    "decide_phase_transition s' (Some (ge_policy env)) (le_has_record env (world_of ctx')) (rebase s') None = Report_terminal_success"
    by (auto simp: run_exit_code_def split: if_splits)
  show ?thesis using r eligible_facts [OF r(3) [unfolded success_eligible_def]] by (auto simp: owed_publication_def is_set_def)
qed

text \<open>
  C17: A run that ends tells the truth about it.  A loop that ends by itself ends in a terminal phase; in the terminal
  phase nothing is retained on disk and every authority agrees that the run may succeed; on the failure
  route the recovery cap is spent or the ledger demands a stop.  The exit code is zero only if the loop
  ended by itself in the terminal phase with no record held, nothing unresolved, nothing owed to the
  remote, every worker joined and the progression authority reporting success, or if the last step
  itself answered zero.
\<close>

theorem run_exit_is_honest:
  assumes "inner_loop env s ctx = Some (Inr (s', early, ctx'))"
  shows "(early = None \<longrightarrow>
        (phase s' = terminal_phase (ge_policy env) \<or> phase s' \<in> terminal_states (ge_policy env))
      \<and> (phase s' = terminal_phase (ge_policy env) \<longrightarrow> live_retained_reason env ctx' = None \<and> success_eligible env s' ctx')
      \<and> (phase s' = failed_route (recovery (ge_policy env)) \<longrightarrow>
            cycle_cap_exhausted env s' ctx' \<or> (\<exists>c. ledger_requires_intervention env s' c = (True, ctx'))))
    \<and> (run_exit_code env (s', early, ctx') = 0 \<longrightarrow>
         (early = None \<and> phase s' = terminal_phase (ge_policy env) \<and> \<not> le_has_record env (world_of ctx')
            \<and> \<not> integration_unresolved (rebase s') \<and> \<not> owed_publication (rebase s') \<and> fan_out_decision s' = Join_complete
            \<and> live_retained_reason env ctx' = None
            \<and> decide_phase_transition s' (Some (ge_policy env)) False (rebase s') None = Report_terminal_success)
         \<or> (\<exists>w. fst (le_step env s' w) = Inr (Inl 0)))"
proof -
  obtain s0 ctx0 where l: "loop_pass env s0 ctx0 = Inr (Leave s' early ctx')" using inner_loop_leaves [OF assms] by blast
  show ?thesis
  proof (cases early)
    case None
    with l have g: "loop_goes_on env s' ctx0 = (False, ctx')" using leave_without_code by blast
    note stops = loop_stops [OF g]
    show ?thesis using stops None exit_code_honest [of env s' ctx'] by blast
  next
    case (Some k)
    with l leave_with_code [of env s0 ctx0 s' k ctx'] show ?thesis by (auto simp: run_exit_code_def)
  qed
qed

text \<open>A world at rest: a clean tree, a branch in sync, a step that ends the run in the phase after planning.\<close>

definition resting_env :: "pstate \<Rightarrow> unit loop_env" where
  "resting_env after = \<lparr>en_preamble = (\<lambda>w. (None, w)), en_record_view = (\<lambda>_. View_busy), en_diagnose = (\<lambda>_ w. w),
     en_repair_merge = (\<lambda>_ w. w), en_resolve = (\<lambda>_ sh. (False, sh)), en_cooldown_ms = (\<lambda>_. 0),
     ge_policy = default_policy, ge_tree = (\<lambda>_. clean_tree\<lparr>lt_receipt := Read_outcome Rd_absent None\<rparr>), ge_busy = (\<lambda>_. (None, 0)),
     ge_startup = (\<lambda>_ w. (None, w)), ge_seam_action = (\<lambda>_ w. (Inl Complete_with_proof, w)), ge_exhaustion_binds = (\<lambda>_ _. True),
     ge_sync_configured = True, ge_owner_sync = (\<lambda>w. (None, w)), ge_execute_rung = (\<lambda>_ w. w),
     ge_relation = (\<lambda>_. ((Some ''abc'', True), Synced)), ge_target = ''main'', ge_uncommitted = (\<lambda>_. False),
     le_step = (\<lambda>_ w. (Inr (Inr after), w)), le_clear_residue = id, le_clock = (\<lambda>_. sample_clock), le_controller = (\<lambda>_. sample_controller),
     le_put_controller = (\<lambda>_ w. w), le_connectivity = (\<lambda>_. Some ''online''), le_await_online = id, le_has_record = (\<lambda>_. False),
     le_epoch = 0, le_legacy_block = None\<rparr>"

lemma resting_run_ends:
  "map_option (map_sum id (\<lambda>(s, early, ctx). (phase s, early, rx_trace ctx)))
     (inner_loop (resting_env finished_run) (blank_state ''planning'') fresh_ctx) = Some (Inr (''complete'', None, []))"
  by code_simp

lemma map_sum_InrE: "map_sum f g x = Inr y \<Longrightarrow> (\<And>z. x = Inr z \<Longrightarrow> g z = y \<Longrightarrow> P) \<Longrightarrow> P"
  by (cases x) auto

theorem run_exit_is_honest_witness:
  "\<exists>s' ctx'. inner_loop (resting_env finished_run) (blank_state ''planning'') fresh_ctx = Some (Inr (s', None, ctx'))
     \<and> phase s' = ''complete'' \<and> live_retained_reason (resting_env finished_run) ctx' = None
     \<and> success_eligible (resting_env finished_run) s' ctx'"
proof -
  obtain s' ctx' where r: "inner_loop (resting_env finished_run) (blank_state ''planning'') fresh_ctx = Some (Inr (s', None, ctx'))"
      "phase s' = ''complete''"
    using resting_run_ends
    by (cases "inner_loop (resting_env finished_run) (blank_state ''planning'') fresh_ctx") (auto elim!: map_sum_InrE)
  moreover have "terminal_phase (ge_policy (resting_env finished_run)) = ''complete''" by code_simp
  ultimately show ?thesis using run_exit_is_honest [OF r(1)] by auto
qed

section \<open>What a dispatch is guarded by\<close>

lemma reconcile_dispatch_same: "same_run s (reconcile_dispatch_state s)"
  by (simp add: reconcile_dispatch_state_def)

text \<open>
  C18: Nothing is dispatched past the gates.  A state the loop dispatches differs from the one the pass began with
  in its integration record only, or it is the detour of a planning phase to the commit phases, which
  remembers where to return.  The tree was inspected last and found free of a receipt and of every
  proven conflict, or a planning phase has just been integrated and its branch is proven to contain the
  target and to be landed.  A planning phase is never dispatched while the branch and the target are not in sync,
  and in the terminal phase only a run that every authority lets succeed is.
\<close>

theorem dispatch_is_guarded:
  assumes "admit env s ctx = Inr (Admitted s' ctx')"
  shows "(same_run s s' \<or> routed_to_commit env s s' \<and> ge_uncommitted env (world_of ctx'))
    \<and> (receipt_ownership (ge_tree env (world_of ctx')) = None
          \<and> (lt_inspectable (ge_tree env (world_of ctx')) \<longrightarrow>
               (\<exists>os out. live_probe_outcomes (ge_tree env (world_of ctx')) = Inr (os, out) \<and> blocked_probes os = []))
       \<or> is_planning_entry (ge_policy env) s \<and> planning_sync_gap env ctx' = None)
    \<and> (is_planning_entry (ge_policy env) s \<longrightarrow> planning_sync_gap env ctx' = None \<or> routed_to_commit env s s')
    \<and> (phase s' = terminal_phase (ge_policy env) \<longrightarrow> success_eligible env s' ctx')"
proof -
  from assms obtain ctx1 where b: "block_unresolved_integration env s ctx = Inr (None, ctx1)"
    and e: "ensure_planning_in_sync env (reconcile_dispatch_state s) ctx1 = Inr ((s', False), ctx')"
    and t: "\<not> (terminal_phase (ge_policy env) = phase s' \<and> \<not> success_eligible env s' ctx')"
    by (auto simp: admit_def held_def split: option.splits prod.splits if_splits)
  note rd = reconcile_dispatch_same [of s]
  have p: "is_planning_entry (ge_policy env) (reconcile_dispatch_state s) = is_planning_entry (ge_policy env) s"
    "routed_to_commit env (reconcile_dispatch_state s) s' = routed_to_commit env s s'"
    using phase_same [OF rd] by (simp_all add: is_planning_entry_def routed_to_commit_def)
  consider (other) "\<not> is_planning_entry (ge_policy env) s" "s' = reconcile_dispatch_state s" "ctx' = ctx1"
    | (synced) "planning_sync_gap env ctx' = None" "same_run s s'" "is_planning_entry (ge_policy env) s"
    | (routed) "routed_to_commit env s s'" "inspected env ctx'" "ge_uncommitted env (world_of ctx')"
  proof -
    from ensure_planning_result [OF e]
    have "(\<not> is_planning_entry (ge_policy env) s \<and> s' = reconcile_dispatch_state s \<and> ctx' = ctx1)
        \<or> is_planning_entry (ge_policy env) s \<and> planning_sync_gap env ctx' = None \<and> same_run (reconcile_dispatch_state s) s'
        \<or> routed_to_commit env s s' \<and> inspected env ctx' \<and> ge_uncommitted env (world_of ctx')"
      unfolding p by simp
    then show thesis using that same_run_trans [OF rd, of s'] by (elim disjE conjE) auto
  qed
  then show ?thesis
  proof cases
    case other
    then show ?thesis using inspected_tree [OF open_gate_inspected [OF b]] rd t by auto
  next
    case synced
    then show ?thesis using t by auto
  next
    case routed
    then show ?thesis using inspected_tree [OF routed(2)] t by auto
  qed
qed

lemma resting_admission:
  "map_sum id (\<lambda>a. case a of Admitted s1 ctx1 \<Rightarrow> (True, phase s1) | _ \<Rightarrow> (False, []))
     (admit (resting_env finished_run) (blank_state ''planning'') fresh_ctx) = Inr (True, ''planning'')"
  by code_simp

theorem dispatch_is_guarded_witness:
  "\<exists>s' ctx'. admit (resting_env finished_run) (blank_state ''planning'') fresh_ctx = Inr (Admitted s' ctx')
     \<and> planning_sync_gap (resting_env finished_run) ctx' = None"
proof -
  obtain s' ctx' where a: "admit (resting_env finished_run) (blank_state ''planning'') fresh_ctx = Inr (Admitted s' ctx')"
    using resting_admission by (auto elim!: map_sum_InrE split: admission.splits)
  have "is_planning_entry (ge_policy (resting_env finished_run)) (blank_state ''planning'')"
    "\<not> ge_uncommitted (resting_env finished_run) (world_of ctx')"
    by (code_simp, simp add: resting_env_def)
  then have "planning_sync_gap (resting_env finished_run) ctx' = None"
    using dispatch_is_guarded [OF a] by (auto simp: resting_env_def planning_sync_gap_def)
  then show ?thesis using a by blast
qed

text \<open>
  The gate opens on a clean tree and saves the corrected record, but the loop goes on with the one it had: after an
  escalation the state it dispatches is still unresolved while the checkpoint no longer is.
\<close>

lemma loop_drops_the_correction:
  fixes s
  defines "s \<equiv> (blank_state ''development'')\<lparr>rebase := new_rebase_state\<lparr>last_outcome := Some Ladder_escalation\<rparr>\<rparr>"
  shows "(case admit (resting_env finished_run) s fresh_ctx of
      Inr (Admitted s1 ctx1) \<Rightarrow> integration_unresolved (rebase s1)
        \<and> map (\<lambda>x. integration_unresolved (rebase x)) (sh_saved (rx_shared ctx1)) = [False]
    | _ \<Rightarrow> False)"
  unfolding s_def by code_simp

end
