(* ===== verification/Pipeline_Step.thy ===== *)
theory Pipeline_Step
  imports Run_Invariants Effect_Router Boundary_Gate
begin

text \<open>
  One step of the pipeline: \<^verbatim>\<open>_run_pipeline_step\<close> of \<^verbatim>\<open>ralph/pipeline/runner.py\<close> with the sampling of the
  timeboxes, the preparation of a dispatch, the inline effects, the boundary integration and the recovery of
  a crashed step, \<^verbatim>\<open>_runner_session.py\<close> and \<^verbatim>\<open>_runner_state_helpers.py\<close>, and the fan-out of
  \<^verbatim>\<open>fan_out.py\<close>.

  What the step owns is the record \<open>step_world\<close>: the recovery controller, the two sample boxes of the run
  loop, the commit message artifact and the checkpoints written.  Everything else is a rest of the world
  that the answers of \<open>step_env\<close> read and change: clocks, Git, prompts, agents, commits, workers.  An
  exception is a \<open>Inl\<close>; the controller is then the one before the call that raised.  No caller in the program
  hands \<open>reduce\<close> an integration record, so its last argument is \<open>False\<close> throughout.
\<close>

section \<open>The world of a step\<close>

record 'x step_world =
  sw_recovery :: "controller option"
  sw_cycle_sample :: "real option"
  sw_dev_sample :: "real option"
  sw_message :: bool
  sw_saved :: "pstate list"
  sw_rest :: 'x

datatype prompt_answer = Prompt_ready | Plan_missing string | Prompt_raised py_exn

record 'x step_env =
  se_bundle :: policy_bundle
  se_classify :: classifier
  se_classify_exn :: "py_exn \<Rightarrow> string \<Rightarrow> string option \<Rightarrow> string \<Rightarrow> classified_failure"
  se_exn_text :: "py_exn \<Rightarrow> string"
  se_clock :: "'x \<Rightarrow> (real \<times> real) \<times> 'x"
  se_reads :: "'x \<Rightarrow> string option \<times> string \<times> clock"
  se_tree :: "'x \<Rightarrow> live_tree"
  se_has_record :: "'x \<Rightarrow> bool"
  se_router :: "'x \<Rightarrow> router_env"
  se_timer :: "string \<Rightarrow> 'x \<Rightarrow> phase_timing_record"
  se_materialize :: "router_effect \<Rightarrow> pstate \<Rightarrow> 'x \<Rightarrow> prompt_answer \<times> 'x"
  se_agent :: "router_effect \<Rightarrow> pstate \<Rightarrow> 'x \<Rightarrow> event res \<times> 'x"
  se_commit :: "string \<Rightarrow> 'x \<Rightarrow> event res \<times> 'x"
  se_captured :: "'x \<Rightarrow> string option \<times> agent_retry_intent"
  se_grade :: "router_effect \<Rightarrow> pstate \<Rightarrow> 'x \<Rightarrow> event res \<times> 'x"
  se_boundary :: "rebase_state \<Rightarrow> 'x \<Rightarrow> rebase_state option res \<times> 'x"
  se_after_commit :: "rebase_state \<Rightarrow> 'x \<Rightarrow> rebase_state option \<times> 'x"
  se_seam :: "bool \<Rightarrow> bool \<Rightarrow> 'x \<Rightarrow> (integration_action + record_fact_outcome) res \<times> 'x"
  se_clear_baseline :: "'x \<Rightarrow> 'x"
  se_enter_execution :: "'x \<Rightarrow> 'x"
  se_finish :: "pstate \<Rightarrow> event \<Rightarrow> pstate \<Rightarrow> 'x \<Rightarrow> unit res \<times> 'x"
  se_save :: "pstate \<Rightarrow> 'x \<Rightarrow> unit res \<times> 'x"
  se_deps_owner :: bool
  se_integrate_enabled :: bool
  se_fan_out_setup :: "'x \<Rightarrow> unit res \<times> 'x"
  se_workers :: "work_unit list \<Rightarrow> 'x \<Rightarrow> event list res \<times> 'x"
  se_verify :: "'x \<Rightarrow> string option res \<times> 'x"
  se_summary :: "pstate \<Rightarrow> 'x \<Rightarrow> unit res \<times> 'x"

abbreviation se_policy :: "'x step_env \<Rightarrow> pipeline_policy" where
  "se_policy env \<equiv> bundle_pipeline (se_bundle env)"

definition set_rest :: "'x \<Rightarrow> 'x step_world \<Rightarrow> 'x step_world" where
  "set_rest x w = w\<lparr>sw_rest := x\<rparr>"

text \<open>A checkpoint; \<open>save_or_log\<close> swallows what it raises.\<close>

definition save_checkpoint :: "'x step_env \<Rightarrow> pstate \<Rightarrow> 'x step_world \<Rightarrow> unit res \<times> 'x step_world" where
  "save_checkpoint env s w =
     (let (answer, x) = se_save env s (sw_rest w)
      in (answer, (set_rest x w)\<lparr>sw_saved := (if isl answer then sw_saved w else sw_saved w @ [s])\<rparr>))"

definition save_or_log :: "'x step_env \<Rightarrow> pstate \<Rightarrow> 'x step_world \<Rightarrow> 'x step_world" where
  "save_or_log env s w = snd (save_checkpoint env s w)"

text \<open>A reduction; with an owner the controller it leaves is the run's.\<close>

definition step_reduce ::
  "'x step_env \<Rightarrow> controller option \<Rightarrow> pstate \<Rightarrow> event \<Rightarrow> routing_timing option \<Rightarrow> 'x step_world \<Rightarrow> pstate res \<times> 'x step_world" where
  "step_reduce env owner s ev timing w =
     (let (commit_error, now, c) = se_reads env (sw_rest w)
      in case reduce (se_classify env) \<lparr>w_commit_error = commit_error, w_now = now, w_clock = c, w_recovery = owner\<rparr>
                s ev (Some (se_policy env)) timing False of
           Inl e \<Rightarrow> (Inl e, w)
         | Inr (rw, n, _) \<Rightarrow> (Inr n, if owner = None then w else w\<lparr>sw_recovery := w_recovery rw\<rparr>))"

section \<open>The timeboxes of a step\<close>

record time_sample =
  ts_timing :: routing_timing
  ts_now :: real
  ts_delta :: real

definition elapsed_since :: "bool \<Rightarrow> real \<Rightarrow> real option \<Rightarrow> real option \<Rightarrow> real \<Rightarrow> real \<Rightarrow> real \<times> real" where
  "elapsed_since running consumed since last_sample now epoch_now =
     (case (running, since) of
        (True, Some t) \<Rightarrow> (let total = max consumed (epoch_now - t) in (total, total - consumed))
      | _ \<Rightarrow> (let delta = (case last_sample of Some t \<Rightarrow> if running then max 0 (now - t) else 0 | None \<Rightarrow> 0)
             in (consumed + delta, delta)))"

definition sample_cycle_timing :: "'x step_env \<Rightarrow> pstate \<Rightarrow> 'x step_world \<Rightarrow> time_sample option \<times> 'x step_world" where
  "sample_cycle_timing env s w = (case cycle_timebox (se_policy env) of
     None \<Rightarrow> (None, w)
   | Some _ \<Rightarrow>
       (let ((now, epoch_now), x) = se_clock env (sw_rest w);
            (total, delta) = elapsed_since (cycle_timebox_active s) (cycle_timebox_consumed_seconds s)
              (cycle_timebox_started_at_epoch s) (sw_cycle_sample w) now epoch_now
        in (Some \<lparr>ts_timing = \<lparr>total_elapsed_seconds = total, development_elapsed_seconds = None, current_epoch = Some epoch_now\<rparr>,
                  ts_now = now, ts_delta = delta\<rparr>, set_rest x w)))"

definition sample_development_timing :: "'x step_env \<Rightarrow> pstate \<Rightarrow> 'x step_world \<Rightarrow> time_sample option \<times> 'x step_world" where
  "sample_development_timing env s w = (case development_timebox (se_policy env) of
     None \<Rightarrow> (None, w)
   | Some _ \<Rightarrow>
       (let ((now, epoch_now), x) = se_clock env (sw_rest w);
            (total, delta) = elapsed_since (dev_timebox_active s) (dev_timebox_consumed_seconds s)
              (dev_timebox_started_at_epoch s) (sw_dev_sample w) now epoch_now
        in (Some \<lparr>ts_timing = \<lparr>total_elapsed_seconds = total, development_elapsed_seconds = Some total, current_epoch = Some epoch_now\<rparr>,
                  ts_now = now, ts_delta = delta\<rparr>, set_rest x w)))"

definition merge_routing_timings :: "routing_timing option \<Rightarrow> routing_timing option \<Rightarrow> routing_timing option" where
  "merge_routing_timings cycle dev = (case (cycle, dev) of
     (None, _) \<Rightarrow> dev
   | (Some c, None) \<Rightarrow> Some c
   | (Some c, Some d) \<Rightarrow> Some \<lparr>total_elapsed_seconds = total_elapsed_seconds c,
       development_elapsed_seconds = Some (total_elapsed_seconds d),
       current_epoch = (if is_set (\<lambda>t. t \<noteq> 0) (current_epoch c) then current_epoch c else current_epoch d)\<rparr>)"

definition fold_cycle_elapsed :: "pstate \<Rightarrow> real \<Rightarrow> pstate \<Rightarrow> pstate" where
  "fold_cycle_elapsed before delta after =
     (if \<not> cycle_timebox_active before \<or> delta \<le> 0 then after
      else after\<lparr>cycle_timebox_consumed_seconds := cycle_timebox_consumed_seconds after + delta\<rparr>)"

definition fold_development_elapsed :: "pstate \<Rightarrow> real \<Rightarrow> pstate \<Rightarrow> pstate" where
  "fold_development_elapsed before delta after =
     (if \<not> dev_timebox_active before \<or> \<not> dev_timebox_active after \<or> delta \<le> 0 then after
      else after\<lparr>dev_timebox_consumed_seconds := dev_timebox_consumed_seconds after + delta\<rparr>)"

definition fold_sampled_timeboxes ::
  "pstate \<Rightarrow> time_sample option \<Rightarrow> time_sample option \<Rightarrow> pstate \<Rightarrow> 'x step_world \<Rightarrow> pstate \<times> 'x step_world" where
  "fold_sampled_timeboxes before cyc dev after w =
     ((case dev of None \<Rightarrow> id | Some d \<Rightarrow> fold_development_elapsed before (ts_delta d))
        ((case cyc of None \<Rightarrow> id | Some c \<Rightarrow> fold_cycle_elapsed before (ts_delta c)) after),
      w\<lparr>sw_cycle_sample := (case cyc of None \<Rightarrow> sw_cycle_sample w | Some c \<Rightarrow> Some (ts_now c)),
        sw_dev_sample := (case dev of None \<Rightarrow> sw_dev_sample w | Some d \<Rightarrow> Some (ts_now d))\<rparr>)"

text \<open>Both samples and the timing a route is judged by.\<close>

definition sample_step ::
  "'x step_env \<Rightarrow> pstate \<Rightarrow> 'x step_world \<Rightarrow> (time_sample option \<times> time_sample option \<times> routing_timing option) \<times> 'x step_world" where
  "sample_step env s w =
     (let (cyc, w1) = sample_cycle_timing env s w;
          (dev, w2) = sample_development_timing env s w1
      in ((cyc, dev, merge_routing_timings (map_option ts_timing cyc) (map_option ts_timing dev)), w2))"

definition prepare_step_timeboxes ::
  "'x step_env \<Rightarrow> pstate \<Rightarrow> 'x step_world \<Rightarrow> (pstate \<times> routing_timing option) res \<times> 'x step_world" where
  "prepare_step_timeboxes env s w =
     (let ((cyc, dev, timing), w1) = sample_step env s w;
          (s1, w2) = fold_sampled_timeboxes s cyc dev s w1
      in (case redirect_expired_cycle_in_place s1 (Some (se_policy env)) timing of
            None \<Rightarrow> Inr (s1, timing)
          | Some r \<Rightarrow> rbind r (\<lambda>(n, _). Inr (n, timing)), w2))"

section \<open>Preparing a dispatch\<close>

definition reconcile_rebase_if_live_resolved :: "'x step_env \<Rightarrow> rebase_state \<Rightarrow> 'x step_world \<Rightarrow> rebase_state res" where
  "reconcile_rebase_if_live_resolved env r w =
     (if \<not> (integration_unresolved r \<or> resolution_exhausted r \<or> recovery_record_retained r) then Inr r
      else rbind (inspect_integration_resolution (se_tree env (sw_rest w)) r) (\<lambda>(v, _).
             Inr (if dispatch_allowed v then reconcile_stale_unresolved_state r else r)))"

text \<open>What a step may end in: the exception of the dispatch invariant is told from every other one.\<close>

datatype step_crash = Dispatch_blocked py_exn | Step_raised py_exn

definition assert_integration_dispatch_invariant :: "'x step_env \<Rightarrow> pstate \<Rightarrow> 'x step_world \<Rightarrow> step_crash + unit" where
  "assert_integration_dispatch_invariant env s w =
     (if phase s = RESOLUTION_DRAIN_NAME then Inr ()
      else case inspect_integration_resolution (se_tree env (sw_rest w)) (rebase s) of
        Inl e \<Rightarrow> Inl (Step_raised e)
      | Inr (v, _) \<Rightarrow> map_sum Dispatch_blocked id (assert_non_resolution_dispatch_allowed (phase s) v))"

definition route_step :: "'x step_env \<Rightarrow> pstate \<Rightarrow> 'x step_world \<Rightarrow> (step_crash + router_effect) \<times> 'x step_world" where
  "route_step env s w =
     (case determine_effect_from_policy (se_router env (sw_rest w)) \<lparr>rw_recovery = sw_recovery w, rw_message_present = sw_message w\<rparr>
             s (se_bundle env) of
        Inl e \<Rightarrow> (Inl (Step_raised e), w)
      | Inr (rw, eff) \<Rightarrow> (Inr eff, w\<lparr>sw_recovery := rw_recovery rw, sw_message := rw_message_present rw\<rparr>))"

text \<open>The chain of the phase is moved to the agent the router chose.\<close>

definition align_chain :: "router_effect \<Rightarrow> pstate \<Rightarrow> pstate" where
  "align_chain eff s = (case eff of
     Invoke_agent ag ph _ _ _ \<Rightarrow> (case chain_for_phase s ph of
         None \<Rightarrow> s
       | Some ch \<Rightarrow>
           (case List.find (\<lambda>i. agents ch ! i = ag) [0..<length (agents ch)] of
              None \<Rightarrow> s
            | Some i \<Rightarrow>
                if i = current_index ch then s
                else (with_phase_chain ph \<lparr>agents = agents ch, current_index = i, retries = 0\<rparr> s)
                       \<lparr>last_agent_session_id := None, agent_retry_intent := cleared_agent_retry_intent\<rparr>))
   | _ \<Rightarrow> s)"

text \<open>The answer carries the state a crash would recover from.\<close>

definition prepare_pipeline_step_dispatch ::
  "'x step_env \<Rightarrow> pstate \<Rightarrow> 'x step_world \<Rightarrow> (step_crash + pstate \<times> router_effect) \<times> 'x step_world" where
  "prepare_pipeline_step_dispatch env s w =
     (case reconcile_rebase_if_live_resolved env (rebase s) w of
        Inl e \<Rightarrow> (Inl (Step_raised e), w)
      | Inr r \<Rightarrow>
          (let s1 = s\<lparr>rebase := r\<rparr>
           in case assert_integration_dispatch_invariant env s1 w of
                Inl c \<Rightarrow> (Inl c, w)
              | Inr _ \<Rightarrow>
                  (case route_step env s1 w of
                     (Inl c, w1) \<Rightarrow> (Inl c, w1)
                   | (Inr eff, w1) \<Rightarrow> (Inr (align_chain eff s1, eff), w1))))"

section \<open>The boundary integration\<close>

definition conflict_failure :: "pstate \<Rightarrow> rebase_state \<Rightarrow> event" where
  "conflict_failure s r = Phase_failure_event
     \<lparr>pf_phase = phase s,
      pf_reason = ''integration conflict requires resolution: ''
        @ or_else (last_reason r) ''the conflict resolver did not produce a resolution'',
      recoverable = True, retry_in_session = False, pf_category = Some Cat_integration,
      pf_skip_same_agent_retries = False, pf_workspace_changed = False\<rparr>"

definition is_phase_transition_integration_event :: "event \<Rightarrow> bool" where
  "is_phase_transition_integration_event ev = (case ev of
     Commit_residual_event _ _ _ \<Rightarrow> True
   | Agent_failure_event _ \<Rightarrow> True
   | Pipeline_event e \<Rightarrow> e \<noteq> COMMIT_SUCCESS
   | _ \<Rightarrow> False)"

definition integrate_on_phase_transition ::
  "'x step_env \<Rightarrow> event \<Rightarrow> pstate \<Rightarrow> 'x step_world \<Rightarrow> rebase_state option res \<times> 'x step_world" where
  "integrate_on_phase_transition env ev s w =
     (if \<not> is_phase_transition_integration_event ev then (Inr None, w)
      else (let (answer, x) = se_boundary env (rebase s) (sw_rest w) in (answer, set_rest x w)))"

text \<open>A conflict fails the phase; the strategy progress of the reducer is kept on the outcome.\<close>

definition fail_for_conflict ::
  "'x step_env \<Rightarrow> pstate \<Rightarrow> rebase_state \<Rightarrow> 'x step_world \<Rightarrow> pstate res \<times> 'x step_world" where
  "fail_for_conflict env s out w =
     (case step_reduce env None s (conflict_failure s out) None w of
        (Inl e, w1) \<Rightarrow> (Inl e, w1)
      | (Inr n, w1) \<Rightarrow> (Inr (n\<lparr>rebase := project_conflict_strategy_from (rebase n) out\<rparr>), w1))"

definition maybe_auto_integrate ::
  "'x step_env \<Rightarrow> router_effect \<Rightarrow> event \<Rightarrow> pstate \<Rightarrow> 'x step_world \<Rightarrow> rebase_state option res \<times> 'x step_world" where
  "maybe_auto_integrate env eff ev s w =
     (let committing = (case eff of Commit_changes _ \<Rightarrow> True | Empty_commit _ \<Rightarrow> True | _ \<Rightarrow> False);
          w1 = set_rest (se_clear_baseline env (sw_rest w)) w
      in if \<not> (committing \<and> is_set (\<lambda>d. role d = Some Commit) (dget (phases (se_policy env)) (phase s))
               \<and> (ev = Pipeline_event COMMIT_SUCCESS \<or> ev = Pipeline_event COMMIT_SKIPPED))
           then integrate_on_phase_transition env ev s w
         else (case eff of
             Empty_commit _ \<Rightarrow> integrate_on_phase_transition env (Pipeline_event COMMIT_SKIPPED) s w1
           | _ \<Rightarrow>
               if ev \<noteq> Pipeline_event COMMIT_SUCCESS then integrate_on_phase_transition env ev s w1
               else (let (answer, x) = se_after_commit env (rebase s) (sw_rest w1) in (Inr answer, set_rest x w1))))"

definition apply_step_integration_outcome ::
  "'x step_env \<Rightarrow> rebase_state option \<Rightarrow> pstate \<Rightarrow> 'x step_world \<Rightarrow> pstate res \<times> 'x step_world" where
  "apply_step_integration_outcome env outcome n w = (case outcome of
     None \<Rightarrow> (Inr n, w)
   | Some out \<Rightarrow>
       (case reconcile_rebase_if_live_resolved env out w of
          Inl e \<Rightarrow> (Inl e, w)
        | Inr r \<Rightarrow>
            (let has_record = se_has_record env (sw_rest w)
             in if \<not> has_record \<and> \<not> recovery_record_retained r then (Inr (n\<lparr>rebase := r\<rparr>), w)
                else (let (answer, x) = se_seam env has_record (recovery_record_retained r) (sw_rest w); w1 = set_rest x w
                      in case answer of
                           Inl e \<Rightarrow> (Inl e, w1)
                         | Inr act \<Rightarrow>
                             (let r1 = (if isl act then r else show_waiting r);
                                  decision = decide_phase_transition n (Some (se_policy env)) has_record r None;
                                  r2 = (if decision \<in> {Block_for_recovery, Report_intervention_required}
                                           \<and> operation_display_state r1 \<noteq> Some ''intervention_required''
                                        then show_waiting r1 else r1)
                              in (Inr (n\<lparr>rebase := r2\<rparr>), w1))))))"

section \<open>Inline effects\<close>

definition reset_phase_chain_for_recovery :: "pstate \<Rightarrow> string \<Rightarrow> pstate" where
  "reset_phase_chain_for_recovery s target = (case chain_for_phase s target of
     None \<Rightarrow> s
   | Some ch \<Rightarrow> with_phase_chain target \<lparr>agents = agents ch, current_index = 0, retries = 0\<rparr> s)"

definition recover_missing_plan_handoff ::
  "'x step_env \<Rightarrow> pstate \<Rightarrow> string \<Rightarrow> 'x step_world \<Rightarrow> pstate res \<times> 'x step_world" where
  "recover_missing_plan_handoff env s msg w =
     (let p = se_policy env;
          exceeded = (policy_cycle_cap (recovery p) \<le> recovery_epoch s);
          target = (if exceeded then failed_route (recovery p) else entry_phase p);
          s1 = conclude_cycle (progress_advance_phase s target p) target p;
          s2 = (if exceeded then s1 else reset_phase_chain_for_recovery s1 target);
          s3 = s2\<lparr>last_error := Some msg, recovery_epoch := recovery_epoch s + 1\<rparr>;
          (saved, w1) = save_checkpoint env s3 w
      in (rbind saved (\<lambda>_. Inr s3), w1))"

text \<open>The re-entry from the failure route: the deadlines are asked first, then the phase actually entered is prepared.\<close>

definition reenter_failed_route ::
  "'x step_env \<Rightarrow> string \<Rightarrow> pstate \<Rightarrow> routing_timing option \<Rightarrow> 'x step_world \<Rightarrow> (pstate \<times> string) \<times> 'x step_world" where
  "reenter_failed_route env target s timing w =
     (let p = se_policy env;
          now = snd (fst (se_clock env (sw_rest w)));
          or_timing = (\<lambda>t. case timing of None \<Rightarrow> Some t | Some _ \<Rightarrow> timing);
          boxed = apply_cycle_timebox s target p (or_timing \<lparr>total_elapsed_seconds = cycle_timebox_consumed_seconds s,
            development_elapsed_seconds = None, current_epoch = Some now\<rparr>);
          dev = apply_development_timebox (td_state boxed) (td_target boxed) p (or_timing
            \<lparr>total_elapsed_seconds = cycle_timebox_consumed_seconds s,
             development_elapsed_seconds = Some (dev_timebox_consumed_seconds s), current_epoch = Some now\<rparr>);
          entered = td_target dev;
          s1 = conclude_development_timebox
                 (conclude_cycle (td_state dev) entered p) entered p;
          s2 = reset_phase_chain_for_recovery s1 entered;
          d = dget (phases p) entered;
          s3 = (if is_set (\<lambda>d. role d = Some Commit) d then s2\<lparr>commit := new_commit_state\<rparr> else s2);
          w1 = (if is_set (\<lambda>d. role d = Some Execution) d then set_rest (se_enter_execution env (sw_rest w)) w else w)
      in ((s3, entered), w1))"

definition enter_prepared :: "'x step_env \<Rightarrow> string \<Rightarrow> string option \<Rightarrow> pstate \<Rightarrow> string \<Rightarrow> pstate" where
  "enter_prepared env asked asked_drain s target =
     (let requested = (if target = asked then asked_drain else None);
          s1 = s\<lparr>phase := target,
                 current_drain := (if truthy requested then requested else resolve_phase_drain target (se_policy env))\<rparr>
      in if target \<noteq> phase s
           then s1\<lparr>last_agent_session_id := None, agent_retry_intent := cleared_agent_retry_intent\<rparr> else s1)"

definition prepare_prompt_inline ::
  "'x step_env \<Rightarrow> router_effect \<Rightarrow> string \<Rightarrow> string option \<Rightarrow> bool \<Rightarrow> pstate \<Rightarrow> routing_timing option \<Rightarrow> 'x step_world
     \<Rightarrow> pstate res \<times> 'x step_world" where
  "prepare_prompt_inline env eff ph dr skip s timing w =
     (let (prompt, w1) = (if skip then (Prompt_ready, w)
            else (let (a, x) = se_materialize env eff s (sw_rest w) in (a, set_rest x w)))
      in case prompt of
           Prompt_raised e \<Rightarrow> (Inl e, w1)
         | Plan_missing msg \<Rightarrow> recover_missing_plan_handoff env s msg w1
         | Prompt_ready \<Rightarrow>
             (let ((s1, target), w2) = (if failed_route (recovery (se_policy env)) = phase s
                     then reenter_failed_route env ph s timing w1 else ((s, ph), w1));
                  s2 = enter_prepared env ph dr s1 target;
                  (saved, w3) = save_checkpoint env s2 w2
              in (rbind saved (\<lambda>_. Inr s2), w3)))"

definition exit_success_inline :: "'x step_env \<Rightarrow> pstate \<Rightarrow> 'x step_world \<Rightarrow> int" where
  "exit_success_inline env s w =
     (let has_record = se_has_record env (sw_rest w)
      in if is_terminal_success_eligible (Some s) has_record (rebase s)
            \<and> (has_record \<or> retained_integration_reason (se_tree env (sw_rest w)) = None) then 0 else 1)"

definition exit_failure_inline :: "'x step_env \<Rightarrow> string \<Rightarrow> pstate \<Rightarrow> 'x step_world \<Rightarrow> pstate res \<times> 'x step_world" where
  "exit_failure_inline env why s w =
     (let s1 = (progress_advance_phase s (failed_route (recovery (se_policy env))) (se_policy env))
                 \<lparr>last_error := Some why, recovery_epoch := recovery_epoch s + 1\<rparr>;
          (saved, w1) = save_checkpoint env s1 w
      in (rbind saved (\<lambda>_. Inr s1), w1))"

definition handle_inline_effect ::
  "'x step_env \<Rightarrow> router_effect \<Rightarrow> pstate \<Rightarrow> routing_timing option \<Rightarrow> 'x step_world \<Rightarrow> (int + pstate) option res \<times> 'x step_world" where
  "handle_inline_effect env eff s timing w =
     (let as_state = (\<lambda>(r, w1). (rbind r (\<lambda>n. Inr (Some (Inr n))), w1))
      in case eff of
           Exit_run Save_checkpoint \<Rightarrow>
             (case save_checkpoint env s w of
                (Inl e, w1) \<Rightarrow> (Inl e, w1)
              | (Inr _, w1) \<Rightarrow> as_state (step_reduce env None s (Pipeline_event CHECKPOINT_SAVED) None w1))
         | Prepare_prompt ph dr _ skip \<Rightarrow> as_state (prepare_prompt_inline env eff ph dr skip s timing w)
         | Exit_run Exit_success \<Rightarrow> (Inr (Some (Inl (exit_success_inline env s w))), w)
         | Exit_run (Exit_failure why) \<Rightarrow> as_state (exit_failure_inline env why s w)
         | _ \<Rightarrow> (Inr None, w))"

text \<open>
  The boundary hook of an inline effect.  When the hook raises, the handler logs and goes on to read the outcome it
  never bound; Python raises \<^verbatim>\<open>UnboundLocalError\<close>.
\<close>

definition integrate_inline_effect ::
  "'x step_env \<Rightarrow> router_effect \<Rightarrow> int + pstate \<Rightarrow> pstate \<Rightarrow> 'x step_world \<Rightarrow> (int + pstate) res \<times> 'x step_world" where
  "integrate_inline_effect env eff result s w =
     (let (hook, x) = se_boundary env (rebase s) (sw_rest w); w1 = set_rest x w
      in case hook of
           Inl _ \<Rightarrow> (Inl (RuntimeError ''UnboundLocalError: outcome''), w1)
         | Inr outcome \<Rightarrow>
             if eff = Exit_run Exit_success
                \<and> \<not> is_terminal_success_eligible (Some s) (se_has_record env (sw_rest w1)) (case outcome of None \<Rightarrow> rebase s | Some r \<Rightarrow> r)
               then (Inr (Inl 1), w1)
             else (case outcome of
                 None \<Rightarrow> (Inr result, w1)
               | Some r \<Rightarrow>
                   if \<not> recovery_record_retained r \<and> integration_unresolved r
                     then (if isl result then (Inr (Inl 1), w1)
                           else (case fail_for_conflict env s r w1 of (m, w2) \<Rightarrow> (rbind m (\<lambda>n. Inr (Inr n)), w2)))
                   else (case (if recovery_record_retained r \<and> isl result then Inr s else result) of
                       Inl code \<Rightarrow> (Inr (Inl code), w1)
                     | Inr n \<Rightarrow> (rbind (reconcile_rebase_if_live_resolved env r w1) (\<lambda>r1. Inr (Inr (n\<lparr>rebase := r1\<rparr>))), w1))))"

section \<open>Fan-out\<close>

definition cleared_after_successful_wave :: "pstate \<Rightarrow> pstate" where
  "cleared_after_successful_wave s =
     (if worker_states s \<noteq> [] \<and> list_all (\<lambda>(_, ws). status ws = W_SUCCEEDED) (worker_states s)
        then with_parallel_execution_cleared s else s)"

definition succeeded_ids :: "pstate \<Rightarrow> string list" where
  "succeeded_ids s = map fst (filter (\<lambda>(_, ws). status ws = W_SUCCEEDED) (worker_states s))"

definition resume_units :: "work_unit list \<Rightarrow> pstate \<Rightarrow> work_unit list" where
  "resume_units us s =
     map (\<lambda>u. u\<lparr>dependencies := filter (\<lambda>d. d \<notin> set (succeeded_ids s)) (dependencies u)\<rparr>)
       (filter (\<lambda>u. unit_id u \<notin> set (succeeded_ids s)) us)"

text \<open>Events are reduced without an owner; the answer carries the last state reached.\<close>

fun reduce_wave :: "'x step_env \<Rightarrow> event list \<Rightarrow> pstate \<Rightarrow> 'x step_world \<Rightarrow> (py_exn option \<times> pstate) \<times> 'x step_world" where
  "reduce_wave env [] s w = ((None, s), w)"
| "reduce_wave env (ev # evs) s w =
     (case step_reduce env None s ev None w of
        (Inl e, w1) \<Rightarrow> ((Some e, s), w1)
      | (Inr n, w1) \<Rightarrow> reduce_wave env evs n w1)"

definition integrate_after_fan_out :: "'x step_env \<Rightarrow> pstate \<Rightarrow> 'x step_world \<Rightarrow> pstate res \<times> 'x step_world" where
  "integrate_after_fan_out env s w =
     (if \<not> se_integrate_enabled env then (Inr s, w)
      else (case integrate_on_phase_transition env (Pipeline_event ALL_WORKERS_COMPLETE) s w of
          (Inl e, w1) \<Rightarrow> (Inl e, w1)
        | (Inr None, w1) \<Rightarrow> (Inr s, w1)
        | (Inr (Some r), w1) \<Rightarrow>
            if integration_unresolved r \<and> \<not> recovery_record_retained r then fail_for_conflict env s r w1
            else (rbind (reconcile_rebase_if_live_resolved env r w1) (\<lambda>r1. Inr (s\<lparr>rebase := r1\<rparr>)), w1)))"

text \<open>The verification after the wave: the state and whether it passed.\<close>

definition run_verify_phase ::
  "'x step_env \<Rightarrow> bool \<Rightarrow> bool \<Rightarrow> pstate \<Rightarrow> 'x step_world \<Rightarrow> (pstate \<times> bool option) res \<times> 'x step_world" where
  "run_verify_phase env wanted any_failed s w =
     (if \<not> wanted \<or> any_failed then (Inr (s, None), w)
      else (let (answer, x) = se_verify env (sw_rest w); w1 = set_rest x w
            in case answer of
                 Inl e \<Rightarrow> (Inl e, w1)
               | Inr why \<Rightarrow>
                   (case step_reduce env None s (case why of
                        Some m \<Rightarrow> Post_fanout_verification_event False (Some 1) (Some m)
                      | None \<Rightarrow> Post_fanout_verification_event True (Some 0) None) None w1 of
                      (Inl e, w2) \<Rightarrow> (Inl e, w2)
                    | (Inr n, w2) \<Rightarrow> (Inr (n, Some (why = None)), save_or_log env n w2))))"

definition is_worker_failure :: "event \<Rightarrow> bool" where
  "is_worker_failure ev = (case ev of Worker_failed_event _ _ _ \<Rightarrow> True | _ \<Rightarrow> False)"

definition wave_succeeded :: "work_unit list \<Rightarrow> pstate \<Rightarrow> bool" where
  "wave_succeeded us wave = (length (worker_states wave) = length us \<and> worker_states wave \<noteq> []
     \<and> list_all (\<lambda>(_, ws). status ws = W_SUCCEEDED) (worker_states wave))"

definition complete_wave ::
  "'x step_env \<Rightarrow> work_unit list \<Rightarrow> bool \<Rightarrow> bool \<Rightarrow> pstate \<Rightarrow> 'x step_world \<Rightarrow> (pstate res \<times> pstate) \<times> 'x step_world" where
  "complete_wave env us wanted any_failed wave w =
     (let cur = cleared_after_successful_wave wave; w0 = save_or_log env cur w
      in case run_verify_phase env wanted any_failed cur w0 of
           (Inl e, w1) \<Rightarrow> ((Inl e, cur), w1)
         | (Inr (n, passed), w1) \<Rightarrow>
             (let (summary, x) = se_summary env wave (sw_rest w1); w2 = set_rest x w1
              in case summary of
                   Inl e \<Rightarrow> ((Inl e, n), w2)
                 | Inr _ \<Rightarrow>
                     if wave_succeeded us wave \<and> (\<not> wanted \<or> passed = Some True)
                       then (case integrate_after_fan_out env n w2 of (m, w3) \<Rightarrow> ((m, n), w3))
                     else ((Inr n, n), w2)))"

text \<open>The body of the fan-out; beside the answer it carries the state a crash is recovered from.\<close>

definition fan_out_body ::
  "'x step_env \<Rightarrow> work_unit list \<Rightarrow> bool \<Rightarrow> pstate \<Rightarrow> 'x step_world \<Rightarrow> (pstate res \<times> pstate) \<times> 'x step_world" where
  "fan_out_body env us wanted s w =
     (case se_fan_out_setup env (sw_rest w) of
        (Inl e, x) \<Rightarrow> ((Inl e, s), set_rest x w)
      | (Inr _, x) \<Rightarrow>
          (let seeded = (if work_units s \<noteq> [] then s else s\<lparr>work_units := us\<rparr>)
           in case step_reduce env None seeded (Pipeline_event WORKERS_RESUMED) None (set_rest x w) of
                (Inl e, w1) \<Rightarrow> ((Inl e, s), w1)
              | (Inr cur, w1) \<Rightarrow>
                  (let open_units = resume_units us cur
                   in if open_units = []
                        then (case step_reduce env None cur (Pipeline_event ALL_WORKERS_COMPLETE) None w1 of
                            (Inl e, w2) \<Rightarrow> ((Inl e, cur), w2)
                          | (Inr n, w2) \<Rightarrow> (let n1 = cleared_after_successful_wave n in ((Inr n1, n1), save_or_log env n1 w2)))
                      else (case se_workers env open_units (sw_rest w1) of
                          (Inl e, x2) \<Rightarrow> ((Inl e, cur), set_rest x2 w1)
                        | (Inr evs, x2) \<Rightarrow>
                            (case reduce_wave env evs cur (set_rest x2 w1) of
                               ((Some e, n), w2) \<Rightarrow> ((Inl e, n), w2)
                             | ((None, n), w2) \<Rightarrow> complete_wave env us wanted (list_ex is_worker_failure evs) n w2)))))"

definition run_fan_out :: "'x step_env \<Rightarrow> work_unit list \<Rightarrow> bool \<Rightarrow> pstate \<Rightarrow> 'x step_world \<Rightarrow> pstate res \<times> 'x step_world" where
  "run_fan_out env us wanted s w =
     (case fan_out_body env us wanted s w of
        ((Inr n, _), w1) \<Rightarrow> (Inr n, w1)
      | ((Inl e, cur), w1) \<Rightarrow>
          (case step_reduce env (if se_deps_owner env then sw_recovery w1 else None) cur
                  (Phase_failure_event \<lparr>pf_phase = phase cur, pf_reason = ''Fan-out execution crashed: '' @ se_exn_text env e,
                     recoverable = True, retry_in_session = False, pf_category = None, pf_skip_same_agent_retries = False,
                     pf_workspace_changed = False\<rparr>) None w1 of
             (Inl e, w2) \<Rightarrow> (Inl e, w2)
           | (Inr n, w2) \<Rightarrow> (Inr n, save_or_log env n w2)))"

section \<open>Executing an effect\<close>

definition execute_effect :: "'x step_env \<Rightarrow> router_effect \<Rightarrow> pstate \<Rightarrow> 'x step_world \<Rightarrow> event res \<times> 'x step_world" where
  "execute_effect env eff s w = (case eff of
     Invoke_agent _ _ _ _ _ \<Rightarrow> (let (a, x) = se_agent env eff s (sw_rest w) in (a, set_rest x w))
   | Commit_changes file \<Rightarrow> (let (a, x) = se_commit env file (sw_rest w) in (a, set_rest x w))
   | Empty_commit rl \<Rightarrow>
       (if rl = Commit_cleanup then (Inr (Pipeline_event AGENT_SUCCESS), w)
        else (Inr (Pipeline_event COMMIT_SUCCESS), w\<lparr>sw_message := False\<rparr>))
   | Exhausted_analysis_phase_advance ph \<Rightarrow>
       (rbind (resolve_exhausted_analysis_bypass s ph (se_policy env)) (\<lambda>_. Inr (Pipeline_event PHASE_ADVANCE)), w)
   | Exit_run Save_checkpoint \<Rightarrow> (Inr (Pipeline_event CHECKPOINT_SAVED), w)
   | _ \<Rightarrow> (Inr (Pipeline_event AGENT_FAILURE), w))"

definition apply_session_capture :: "string option \<times> agent_retry_intent \<Rightarrow> pstate \<Rightarrow> pstate" where
  "apply_session_capture captured s =
     (let (session, intent) = captured
      in if action intent \<noteq> None \<or> skip_same_agent_retries intent
           then s\<lparr>last_agent_session_id := (if action intent = Some Resume \<or> action intent = Some New_session_with_id
                                            then session_id intent else None),
                  agent_retry_intent := intent\<rparr>
         else if truthy session then s\<lparr>last_agent_session_id := session, agent_retry_intent := cleared_agent_retry_intent\<rparr>
         else if action (agent_retry_intent s) \<noteq> None then s\<lparr>agent_retry_intent := cleared_agent_retry_intent\<rparr>
         else s)"

definition finalize_agent_invocation ::
  "'x step_env \<Rightarrow> router_effect \<Rightarrow> event \<Rightarrow> pstate \<Rightarrow> 'x step_world \<Rightarrow> pstate \<times> event res \<times> 'x step_world" where
  "finalize_agent_invocation env eff ev s w = (case eff of
     Invoke_agent ag ph _ _ _ \<Rightarrow>
       (let s1 = apply_session_capture (se_captured env (sw_rest w)) s
        in if ev \<noteq> Pipeline_event AGENT_SUCCESS then (s1, Inr ev, w)
           else (let w1 = w\<lparr>sw_recovery := map_option (reset_controller_backoff ph (Some ag)) (sw_recovery w)\<rparr>;
                     (a, x) = se_grade env eff s1 (sw_rest w1)
                 in (s1, a, set_rest x w1)))
   | _ \<Rightarrow> (s, Inr ev, w))"

section \<open>The step\<close>

text \<open>What the guarded body answers: a crash with the state it is recovered from, or the result of the step.\<close>

type_synonym 'x worked = "(step_crash \<times> pstate + (int + pstate)) \<times> 'x step_world"

definition or_crash :: "pstate \<Rightarrow> 'a res \<times> 'x step_world \<Rightarrow> ('a \<Rightarrow> 'x step_world \<Rightarrow> 'x worked) \<Rightarrow> 'x worked" where
  "or_crash s m k = (case m of (Inl e, w) \<Rightarrow> (Inl (Step_raised e, s), w) | (Inr a, w) \<Rightarrow> k a w)"

text \<open>The reduction after the effect, with a fresh sample, and what is recorded of it.\<close>

definition conclude_step ::
  "'x step_env \<Rightarrow> event \<Rightarrow> rebase_state option \<Rightarrow> pstate \<Rightarrow> 'x step_world \<Rightarrow> 'x worked" where
  "conclude_step env ev outcome s w =
     (let ((cyc, dev, timing), w1) = sample_step env s w
      in or_crash s (step_reduce env (sw_recovery w1) s ev timing w1) (\<lambda>n w2.
           (let (n1, w3) = fold_sampled_timeboxes s cyc dev n w2
            in or_crash s (apply_step_integration_outcome env outcome n1 w3) (\<lambda>n2 w4.
                 or_crash s (let (a, x) = se_finish env s ev n2 (sw_rest w4) in (a, set_rest x w4)) (\<lambda>_ w5.
                   (Inr (Inr n2), save_or_log env n2 w5))))))"

definition run_effect :: "'x step_env \<Rightarrow> router_effect \<Rightarrow> pstate \<Rightarrow> 'x step_world \<Rightarrow> 'x worked" where
  "run_effect env eff s w =
     (let (prompt, x) = se_materialize env eff s (sw_rest w); w1 = set_rest x w
      in case prompt of
           Prompt_raised e \<Rightarrow> (Inl (Step_raised e, s), w1)
         | Plan_missing msg \<Rightarrow> or_crash s (recover_missing_plan_handoff env s msg w1) (\<lambda>n w2. (Inr (Inr n), w2))
         | Prompt_ready \<Rightarrow>
             or_crash s (execute_effect env eff s w1) (\<lambda>ev w2.
               (case finalize_agent_invocation env eff ev s w2 of
                  (_, Inl e, w3) \<Rightarrow> (Inl (Step_raised e, s), w3)
                | (s1, Inr ev1, w3) \<Rightarrow>
                    or_crash s1 (maybe_auto_integrate env eff ev1 s1 w3) (\<lambda>outcome w4.
                      conclude_step env
                        (case outcome of
                           Some r \<Rightarrow> if integration_unresolved r \<and> \<not> recovery_record_retained r then conflict_failure s1 r else ev1
                         | None \<Rightarrow> ev1) outcome s1 w4))))"

definition step_work :: "'x step_env \<Rightarrow> pstate \<Rightarrow> routing_timing option \<Rightarrow> 'x step_world \<Rightarrow> 'x worked" where
  "step_work env s timing w =
     (case prepare_pipeline_step_dispatch env s w of
        (Inl c, w1) \<Rightarrow> (Inl (c, s), w1)
      | (Inr (s1, eff), w1) \<Rightarrow>
          or_crash s1 (handle_inline_effect env eff s1 timing w1) (\<lambda>inline w2.
            case inline of
              Some result \<Rightarrow> or_crash s1 (integrate_inline_effect env eff result s1 w2) (\<lambda>r w3. (Inr r, w3))
            | None \<Rightarrow>
                (case eff of
                   Fan_out us _ wanted _ \<Rightarrow> or_crash s1 (run_fan_out env us wanted s1 w2) (\<lambda>n w3. (Inr (Inr n), w3))
                 | _ \<Rightarrow> run_effect env eff s1 w2)))"

section \<open>Recovering a crashed step\<close>

definition crash_exn :: "step_crash \<Rightarrow> py_exn" where
  "crash_exn c = (case c of Dispatch_blocked e \<Rightarrow> e | Step_raised e \<Rightarrow> e)"

definition reduce_runtime_recovery ::
  "'x step_env \<Rightarrow> py_exn \<Rightarrow> pstate \<Rightarrow> routing_timing option \<Rightarrow> 'x step_world \<Rightarrow> pstate res \<times> 'x step_world" where
  "reduce_runtime_recovery env e s timing w =
     (case redirect_expired_cycle_in_place s (Some (se_policy env)) timing of
        Some r \<Rightarrow> (rbind r (\<lambda>(n, _). Inr n), w)
      | None \<Rightarrow>
          (case sw_recovery w of
             Some ctl \<Rightarrow>
               (let (_, now, c) = se_reads env (sw_rest w)
                in case handle (\<lambda>_. se_classify_exn env e) c now ctl s (Raw_text (se_exn_text env e))
                      \<lparr>ctx_phase = phase s, ctx_agent = current_agent s, ctx_retry_in_session = False, ctx_classified = None\<rparr>
                      False False of
                     Inl e \<Rightarrow> (Inl e, w)
                   | Inr (ctl1, n, _, _) \<Rightarrow>
                       (Inr (if work_units s \<noteq> [] \<and> work_units n = [] then n\<lparr>work_units := work_units s\<rparr> else n),
                        w\<lparr>sw_recovery := Some ctl1\<rparr>))
           | None \<Rightarrow> step_reduce env None s (Phase_failure_event
                \<lparr>pf_phase = phase s, pf_reason = ''Pipeline step crashed: '' @ se_exn_text env e, recoverable = True,
                 retry_in_session = False, pf_category = None, pf_skip_same_agent_retries = False,
                 pf_workspace_changed = False\<rparr>) timing w))"

definition mutating_actions :: "integration_action set" where
  "mutating_actions = {Resolve_active_operation, Continue_git_operation, Reintegrate_against_target, Wait_for_bounded_retry, Land_target}"

definition handle_blocked_dispatch_recovery ::
  "'x step_env \<Rightarrow> step_crash \<Rightarrow> pstate \<Rightarrow> pstate \<Rightarrow> 'x step_world \<Rightarrow> pstate res \<times> 'x step_world" where
  "handle_blocked_dispatch_recovery env c recovered timed w = (case c of
     Step_raised _ \<Rightarrow> (Inr recovered, w)
   | Dispatch_blocked _ \<Rightarrow>
       (let has_record = se_has_record env (sw_rest w);
            (answer, x) = se_seam env has_record (recovery_record_retained (rebase timed)) (sw_rest w);
            decision = decide_phase_transition timed (Some (se_policy env)) has_record (rebase timed) None
        in (rbind answer (\<lambda>act. Inr
              (if decision = Report_terminal_success \<and> (case act of Inl a \<Rightarrow> a \<notin> mutating_actions | Inr _ \<Rightarrow> False) then recovered
               else recovered\<lparr>rebase := set_recovery_record_retained Observed_retained_on_disk (rebase recovered)\<rparr>)), set_rest x w)))"

definition recover_step :: "'x step_env \<Rightarrow> step_crash \<Rightarrow> pstate \<Rightarrow> 'x step_world \<Rightarrow> pstate res \<times> 'x step_world" where
  "recover_step env c s w =
     (let ((cyc, dev, timing), w1) = sample_step env s w;
          (timed, w2) = fold_sampled_timeboxes s cyc dev s w1
      in case reduce_runtime_recovery env (crash_exn c) timed timing w2 of
           (Inl e, w3) \<Rightarrow> (Inl e, w3)
         | (Inr n, w3) \<Rightarrow>
             (case handle_blocked_dispatch_recovery env c n timed w3 of
                (Inl e, w4) \<Rightarrow> (Inl e, w4)
              | (Inr n1, w4) \<Rightarrow> (Inr n1, save_or_log env n1 w4)))"

definition run_pipeline_step :: "'x step_env \<Rightarrow> pstate \<Rightarrow> 'x step_world \<Rightarrow> (int + pstate) res \<times> 'x step_world" where
  "run_pipeline_step env s w =
     (let timed = (\<lambda>x n. with_phase_timing (se_timer env (phase s) x) n)
      in case prepare_step_timeboxes env s w of
           (Inl e, w1) \<Rightarrow> (Inl e, w1)
         | (Inr (s1, timing), w1) \<Rightarrow>
             (case step_work env s1 timing w1 of
                (Inr result, w2) \<Rightarrow> (Inr (map_sum id (timed (sw_rest w2)) result), w2)
              | (Inl (c, s2), w2) \<Rightarrow>
                  (case recover_step env c s2 w2 of
                     (Inl e, w3) \<Rightarrow> (Inl e, w3)
                   | (Inr n, w3) \<Rightarrow> (Inr (Inr (timed (sw_rest w3) n)), w3))))"

end
