(* ===== verification/Step_Laws.thy ===== *)
theory Step_Laws
  imports Pipeline_Step
begin

text \<open>
  What a pipeline step can do to a run.  \<open>travels\<close> closes the elementary changes of \<open>Reducer_Steps\<close> under the one
  change a reduction never makes: a fan-out seeds and clears the work units of its wave.  Every step
  of \<open>Pipeline_Step\<close> only travels, keeps the controller on the run's policy, and answers zero only when
  every authority agrees.
\<close>

section \<open>Travelling\<close>

definition regroups :: "pstate \<Rightarrow> pstate \<Rightarrow> bool" where
  "regroups s s' = (\<exists>us ws. s' = s\<lparr>work_units := us, worker_states := ws\<rparr>)"

definition travels :: "pipeline_policy \<Rightarrow> pstate \<Rightarrow> pstate \<Rightarrow> bool" where
  "travels p = (\<lambda>s s'. estep p s s' \<or> regroups s s')\<^sup>*\<^sup>*"

lemma travels_refl [simp, intro]: "travels p s s"
  by (simp add: travels_def)

lemma travels_trans [trans]: "travels p s s' \<Longrightarrow> travels p s' s'' \<Longrightarrow> travels p s s''"
  unfolding travels_def by (rule rtranclp_trans)

lemma travels_evolves: "evolves p s s' \<Longrightarrow> travels p s s'"
  unfolding travels_def evolves_def by (rule rtranclp_mono [THEN predicate2D, rotated]) auto

lemma travels_core: "same_core s s' \<Longrightarrow> travels p s s'"
  by (rule travels_evolves) (blast intro: evolves_core)

lemma travels_regroups: "travels p s (s\<lparr>work_units := us, worker_states := ws\<rparr>)"
  unfolding travels_def by (rule r_into_rtranclp) (auto simp: regroups_def)

lemma travels_units: "travels p s (s\<lparr>work_units := us\<rparr>)"
proof -
  have "s\<lparr>work_units := us\<rparr> = s\<lparr>work_units := us, worker_states := worker_states s\<rparr>" by simp
  then show ?thesis by (metis travels_regroups)
qed

lemma travels_keeps:
  assumes "travels p s s'" and "I s"
    and "\<And>s s'. estep p s s' \<Longrightarrow> I s \<Longrightarrow> I s'" and "\<And>s us ws. I s \<Longrightarrow> I (s\<lparr>work_units := us, worker_states := ws\<rparr>)"
  shows "I s'"
  using assms(1,2) unfolding travels_def by (induction rule: rtranclp_induct) (auto simp: regroups_def intro: assms(3,4))

text \<open>The states a step may be given: every phase it names is known, and so is the entry it recovers to.\<close>

definition at_home :: "pipeline_policy \<Rightarrow> pstate \<Rightarrow> bool" where
  "at_home p s = (phases_known p s \<and> known_phase p (policy_entry_phase s))"

lemma travels_home: "travels p s s' \<Longrightarrow> at_home p s \<Longrightarrow> at_home p s'"
proof (erule travels_keeps [where I = "at_home p"])
  fix s s' assume "estep p s s'" and "at_home p s"
  then show "at_home p s'" using estep_keeps_phases_known estep_frame by (auto simp: at_home_def)
qed (auto simp: at_home_def phases_known_def)

text \<open>The controller the run was built with is still there and serves the policy.\<close>

definition controlled :: "pipeline_policy \<Rightarrow> 'x step_world \<Rightarrow> bool" where
  "controlled p w = (case sw_recovery w of None \<Rightarrow> False | Some ctl \<Rightarrow> serves p ctl)"

lemma controlled_simps [simp]:
  "controlled p (set_rest x w) = controlled p w" "controlled p (w\<lparr>sw_saved := l\<rparr>) = controlled p w"
  "controlled p (w\<lparr>sw_message := b\<rparr>) = controlled p w" "controlled p (w\<lparr>sw_cycle_sample := a, sw_dev_sample := c\<rparr>) = controlled p w"
  by (simp_all add: controlled_def set_rest_def)

text \<open>A partial result is lawful from \<open>s\<close> if its world is controlled and its state, if any, is reached by travelling.\<close>

definition lawful :: "pipeline_policy \<Rightarrow> pstate \<Rightarrow> pstate res \<times> 'x step_world \<Rightarrow> bool" where
  "lawful p s m = (controlled p (snd m) \<and> (\<forall>n. fst m = Inr n \<longrightarrow> travels p s n))"

lemma lawful_Inl [simp]: "lawful p s (Inl e, w) = controlled p w"
  by (simp add: lawful_def)

lemma lawful_Inr [simp]: "lawful p s (Inr n, w) = (controlled p w \<and> travels p s n)"
  by (simp add: lawful_def)

lemma lawful_trans: "travels p s s' \<Longrightarrow> lawful p s' m \<Longrightarrow> lawful p s m"
  using travels_trans by (auto simp: lawful_def)

lemma lawful_map:
  "lawful p s (r, w) \<Longrightarrow> (\<And>n. r = Inr n \<Longrightarrow> travels p n (f n)) \<Longrightarrow> lawful p s (rbind r (\<lambda>n. Inr (f n)), w)"
  by (cases r) (auto intro: travels_trans)

lemma lawful_world: "lawful p s m \<Longrightarrow> m = (r, w) \<Longrightarrow> controlled p w"
  by (simp add: lawful_def)

lemma lawful_state: "lawful p s m \<Longrightarrow> m = (Inr n, w) \<Longrightarrow> travels p s n"
  by (simp add: lawful_def)

section \<open>The parts of a step\<close>

lemma save_controlled [simp]:
  "controlled p (snd (save_checkpoint env s w)) = controlled p w" "controlled p (save_or_log env s w) = controlled p w"
  by (simp_all add: save_checkpoint_def save_or_log_def split: prod.splits)

lemma save_world: "save_checkpoint env s w = (r, w') \<Longrightarrow> controlled p w' = controlled p w"
  using save_controlled(1) [of p env s w] by simp

lemma run_from_home: "validate_policy p \<Longrightarrow> at_home p s \<Longrightarrow> valid_run p s"
  by (rule valid_run.intro) (auto simp: at_home_def)

text \<open>A reduction neither takes the controller away nor makes one up.\<close>

definition owned_as :: "world \<Rightarrow> wres \<Rightarrow> bool" where
  "owned_as w r = (\<forall>w' n effs. r = Inr (w', n, effs) \<longrightarrow> (w_recovery w' = None) = (w_recovery w = None))"

lemma owned_intros:
  "w_recovery w' = w_recovery w \<Longrightarrow> owned_as w (keep_world w' h)" "w_recovery w \<noteq> None \<Longrightarrow> owned_as w (after_recovery w s p q)"
  "owned_as w (Inr (w, s, []))"
  by (auto simp: owned_as_def keep_world_def after_recovery_def rbind_def split: sum.splits option.splits if_splits)

lemma owned_parts:
  "owned_as w (reduce_phase_failure classify w s e p timing)"
  "owned_as w (reduce_result_event w s ph st p timing)"
  "owned_as w (reduce_worker_failed classify w s u code err p timing)"
  "reduce_captured_agent_failure classify w s p timing = Some r \<Longrightarrow> owned_as w r"
  by (auto simp: reduce_phase_failure_def reduce_worker_failed_def reduce_captured_agent_failure_def intro!: owned_intros
      split: option.splits if_splits)
     (auto simp: owned_as_def reduce_result_event_def keep_world_def rbind_def Let_def split: option.splits sum.splits)

lemma owned_agent_failure: "owned_as w (reduce_agent_failure classify w s ev p timing)"
  using owned_parts(4)
  by (auto simp: reduce_agent_failure_def intro!: owned_intros split: option.splits event.splits)
     (auto simp: owned_as_def rbind_def split: sum.splits)

lemma reduce_keeps_owner:
  assumes "reduce classify w s ev p timing rec = Inr (w', n, effs)"
  shows "(w_recovery w' = None) = (w_recovery w = None)"
proof -
  have "owned_as w (reduce_pure classify w s ev p timing)"
    unfolding reduce_pure_def
    by (auto split: event.split option.split intro!: owned_intros owned_parts(1-3) owned_agent_failure)
  then show ?thesis using assms by (auto simp: owned_as_def reduce_def rbind_def split: sum.splits)
qed

lemma step_reduce_lawful:
  assumes "validate_policy (se_policy env)" "at_home (se_policy env) s" "controlled (se_policy env) w"
    and "\<And>ctl. owner = Some ctl \<Longrightarrow> serves (se_policy env) ctl"
  shows "lawful (se_policy env) s (step_reduce env owner s ev timing w)"
proof -
  obtain ce now c where rd: "se_reads env (sw_rest w) = (ce, now, c)" by (metis prod_cases3)
  let ?w = "\<lparr>w_commit_error = ce, w_now = now, w_clock = c, w_recovery = owner\<rparr>"
  have ok: "world_ok (se_policy env) ?w" using assms(4) by (simp add: world_ok_def)
  show ?thesis
  proof (cases "reduce (se_classify env) ?w s ev (Some (se_policy env)) timing False")
    case (Inl e)
    then show ?thesis using assms(3) by (simp add: step_reduce_def rd)
  next
    case (Inr x)
    obtain rw n effs where x: "x = (rw, n, effs)" by (metis prod_cases3)
    note e = valid_run.reduce_evolves [OF run_from_home [OF assms(1,2)] Inr [unfolded x] evolves_refl ok]
    moreover have "(w_recovery rw = None) = (owner = None)" using reduce_keeps_owner [OF Inr [unfolded x]] by simp
    ultimately show ?thesis using assms(3) Inr x
      by (auto simp: step_reduce_def rd controlled_def world_ok_def intro: travels_evolves split: option.splits)
  qed
qed

lemma fold_travels: "travels p s (fst (fold_sampled_timeboxes b cyc dev s w))"
  by (rule travels_core)
     (auto simp: fold_sampled_timeboxes_def fold_cycle_elapsed_def fold_development_elapsed_def same_core_def split: option.splits)

lemma fold_controlled [simp]: "controlled p (snd (fold_sampled_timeboxes b cyc dev s w)) = controlled p w"
  by (simp add: fold_sampled_timeboxes_def)

lemma sample_controlled [simp]: "controlled p (snd (sample_step env s w)) = controlled p w"
  by (auto simp: sample_step_def sample_cycle_timing_def sample_development_timing_def split: option.splits prod.splits)

lemma prepare_timeboxes_lawful:
  assumes "validate_policy (se_policy env)" "at_home (se_policy env) s" "controlled (se_policy env) w"
    and "prepare_step_timeboxes env s w = (r, w')"
  shows "controlled (se_policy env) w'" and "r = Inr (n, t) \<Longrightarrow> travels (se_policy env) s n"
proof -
  let ?p = "se_policy env"
  obtain cyc dev timing w1 where sm: "sample_step env s w = ((cyc, dev, timing), w1)" by (metis prod.exhaust)
  obtain s1 w2 where f: "fold_sampled_timeboxes s cyc dev s w1 = (s1, w2)" by (metis prod.exhaust)
  have tr: "travels ?p s s1" using fold_travels [of ?p s s cyc dev w1] f by simp
  have w: "controlled ?p w2" using f sm assms(3) fold_controlled [of ?p s cyc dev s w1] sample_controlled [of ?p env s w] by simp
  show "controlled ?p w'" using assms(4) w by (auto simp: prepare_step_timeboxes_def sm f)
  assume r: "r = Inr (n, t)"
  show "travels ?p s n"
  proof (cases "redirect_expired_cycle_in_place s1 (Some ?p) timing")
    case None
    then show ?thesis using assms(4) r tr by (auto simp: prepare_step_timeboxes_def sm f)
  next
    case (Some h)
    then obtain effs where "h = Inr (n, effs)" using assms(4) r by (auto simp: prepare_step_timeboxes_def sm f rbind_def split: sum.splits)
    moreover have "fine ?p s1 h"
      using valid_run.fine_redirect [OF run_from_home [OF assms(1) travels_home [OF tr assms(2)]] Some] by blast
    ultimately show ?thesis using tr travels_evolves travels_trans by (auto simp: fine_def)
  qed
qed

section \<open>Routing\<close>

text \<open>The controller a router leaves is the one it was given or follows from it.\<close>

definition follows :: "pipeline_policy \<Rightarrow> router_world \<Rightarrow> router_world \<Rightarrow> bool" where
  "follows p w w' = (case rw_recovery w of None \<Rightarrow> rw_recovery w' = None
     | Some ctl \<Rightarrow> (case rw_recovery w' of None \<Rightarrow> False | Some ctl' \<Rightarrow> serves p ctl \<longrightarrow> serves p ctl'))"

lemma follows_same: "rw_recovery w' = rw_recovery w \<Longrightarrow> follows p w w'"
  by (simp add: follows_def split: option.splits)

lemma agent_name_follows: "agent_name_for_phase_from_policy env w s b = (w', a) \<Longrightarrow> follows p w w'"
  by (auto simp: agent_name_for_phase_from_policy_def Let_def follows_def
      split: option.splits if_splits prod.splits intro: preferred_serves)

lemma invoke_follows: "invoke_effect env w s d b noun = Inr (w', e) \<Longrightarrow> follows p w w'"
  by (erule invoke_effect_cases) (auto intro: agent_name_follows)

lemma parallel_follows: "parallel_or_agent_effect env w s d b = Inr (w', e) \<Longrightarrow> follows p w w'"
  by (auto simp: parallel_or_agent_effect_def Let_def dest!: invoke_follows intro: follows_same split: option.splits if_splits)

lemma commit_follows:
  assumes "commit_phase_effect env w s d b = Inr (w', e)"
  shows "follows p w w'"
proof (cases "role d = Some Commit_cleanup")
  case True
  then show ?thesis using assms
    by (auto simp: commit_phase_effect_def dest: parallel_follows intro: follows_same split: option.splits)
next
  case False
  with assms obtain w1 a where a: "empty_commit_effect env w Commit = Inr (w1, a)"
      "(case a of Some x \<Rightarrow> Inr (w1, x) | None \<Rightarrow> if agent_invoked (commit s)
          then Inr (w1, Commit_changes (re_root env @ ''/'' @ COMMIT_MESSAGE_ARTIFACT))
          else invoke_effect env w1 s d b ''commit phase'') = Inr (w', e)"
    by (auto simp: commit_phase_effect_def)
  have same: "rw_recovery w1 = rw_recovery w"
    using a(1) by (auto simp: empty_commit_effect_def delete_commit_message_artifacts_def split: option.splits if_splits bool.splits)
  have "follows p w1 w'" using a(2) by (auto split: option.splits if_splits intro: follows_same invoke_follows)
  then show ?thesis by (simp add: follows_def same)
qed

lemma router_follows:
  assumes "determine_effect_from_policy env w s b = Inr (w', e)"
  shows "follows p w w'"
  using assms by (cases rule: router_cases) (auto intro: follows_same dest: commit_follows parallel_follows split: if_splits)

lemma route_step_controlled:
  assumes "route_step env s w = (r, w')" and "controlled p w"
  shows "controlled p w'"
proof (cases "determine_effect_from_policy (se_router env (sw_rest w)) \<lparr>rw_recovery = sw_recovery w, rw_message_present = sw_message w\<rparr>
    s (se_bundle env)")
  case (Inl e)
  then show ?thesis using assms by (simp add: route_step_def)
next
  case (Inr x)
  obtain rw eff where x: "x = (rw, eff)" by (metis prod.exhaust)
  show ?thesis using assms Inr router_follows [OF Inr [unfolded x], of p]
    by (auto simp: route_step_def x controlled_def follows_def split: option.splits)
qed

lemma align_travels: "travels p s (align_chain eff s)"
  by (rule travels_core) (auto simp: align_chain_def same_core_def with_phase_chain_def Let_def split: router_effect.splits option.splits)

text \<open>A prompt is only prepared for a phase the policy knows.\<close>

definition routes_home :: "pipeline_policy \<Rightarrow> router_effect \<Rightarrow> bool" where
  "routes_home p eff = (case eff of Prepare_prompt ph _ _ _ \<Rightarrow> known_phase p ph | _ \<Rightarrow> True)"

lemma invoke_home: "invoke_effect env w s d b noun = Inr (w', e) \<Longrightarrow> routes_home p e"
  by (erule invoke_effect_cases) (auto simp: routes_home_def)

lemma parallel_home: "parallel_or_agent_effect env w s d b = Inr (w', e) \<Longrightarrow> routes_home p e"
  by (erule parallel_or_agent_cases) (auto simp: routes_home_def dest: invoke_home [unfolded routes_home_def])

lemma commit_home: "commit_phase_effect env w s d b = Inr (w', e) \<Longrightarrow> routes_home p e"
  by (auto simp: commit_phase_effect_def empty_commit_cleanup_effect_def empty_commit_effect_def
      dest!: parallel_home [of _ _ _ _ _ _ _ p] invoke_home [of _ _ _ _ _ _ _ _ p] exit_failure_Inr
      simp: routes_home_def split: option.splits sum.splits bool.splits if_splits)

lemma router_home:
  assumes "determine_effect_from_policy env w s b = Inr (w', e)" "validate_policy (bundle_pipeline b)" "at_home (bundle_pipeline b) s"
  shows "routes_home (bundle_pipeline b) e"
  using assms(1)
proof (cases rule: router_cases)
  case recover
  then show ?thesis using assms(3)
    by (auto simp: routes_home_def recovery_prepare_effect_def Let_def at_home_def phases_known_def known_option_def truthy_def
        split: option.splits)
next
  case (skipped d)
  then show ?thesis using assms(2)
    by (auto simp: routes_home_def skip_invocation_effect_def Let_def intro: route_intros)
qed (auto simp: routes_home_def dest: commit_home [of _ _ _ _ _ _ _ "bundle_pipeline b", unfolded routes_home_def]
    parallel_home [of _ _ _ _ _ _ _ "bundle_pipeline b", unfolded routes_home_def] split: if_splits)

lemma prepare_dispatch_lawful:
  assumes "validate_policy (se_policy env)" "at_home (se_policy env) s" "controlled (se_policy env) w"
    and "prepare_pipeline_step_dispatch env s w = (r, w')"
  shows "controlled (se_policy env) w'"
    and "r = Inr (n, eff) \<Longrightarrow> travels (se_policy env) s n \<and> routes_home (se_policy env) eff"
proof -
  let ?p = "se_policy env"
  show "controlled ?p w'"
    using assms(3,4) route_step_controlled by (fastforce simp: prepare_pipeline_step_dispatch_def Let_def split: sum.splits prod.splits)
  assume "r = Inr (n, eff)"
  with assms(4) obtain q w1 where q: "route_step env (s\<lparr>rebase := q\<rparr>) w = (Inr eff, w1)" "n = align_chain eff (s\<lparr>rebase := q\<rparr>)"
    by (auto simp: prepare_pipeline_step_dispatch_def Let_def split: sum.splits prod.splits)
  have tr: "travels ?p s (s\<lparr>rebase := q\<rparr>)" by (rule travels_core) (simp add: same_core_def)
  have "routes_home ?p eff"
    using q(1) router_home [OF _ assms(1) travels_home [OF tr assms(2)]] by (auto simp: route_step_def split: sum.splits prod.splits)
  then show "travels ?p s n \<and> routes_home ?p eff" using q(2) tr align_travels travels_trans by metis
qed

section \<open>Inline effects\<close>

lemma advance_travels:
  "validate_policy p \<Longrightarrow> at_home p s \<Longrightarrow> known_phase p t \<Longrightarrow> travels p s (progress_advance_phase s t p)"
  by (rule travels_evolves) (rule valid_run.evolves_advance [OF run_from_home], auto)

lemma reset_chain_travels: "travels p s (reset_phase_chain_for_recovery s t)"
  by (rule travels_core) (auto simp: reset_phase_chain_for_recovery_def same_core_def with_phase_chain_def split: option.splits)

lemma conclude_travels: "travels p s (conclude_cycle s t p)"
  by (rule travels_core) (simp add: conclude_cycle_def concluded_def Let_def same_core_def split: option.split)

lemma save_lawful:
  "travels p s n \<Longrightarrow> controlled p w \<Longrightarrow> lawful p s (case save_checkpoint env n w of (saved, w1) \<Rightarrow> (rbind saved (\<lambda>_. Inr n), w1))"
  using save_controlled(1) [of p env n w] by (cases "save_checkpoint env n w"; cases "fst (save_checkpoint env n w)") auto

lemma missing_plan_lawful:
  assumes "validate_policy (se_policy env)" "at_home (se_policy env) s" "controlled (se_policy env) w"
  shows "lawful (se_policy env) s (recover_missing_plan_handoff env s msg w)"
proof -
  let ?p = "se_policy env"
  let ?x = "policy_cycle_cap (recovery ?p) \<le> recovery_epoch s"
  let ?t = "if ?x then failed_route (recovery ?p) else entry_phase ?p"
  let ?s1 = "conclude_cycle (progress_advance_phase s ?t ?p) ?t ?p"
  let ?s3 = "(if ?x then ?s1 else reset_phase_chain_for_recovery ?s1 ?t)\<lparr>last_error := Some msg, recovery_epoch := recovery_epoch s + 1\<rparr>"
  have "travels ?p s (progress_advance_phase s ?t ?p)"
    using assms(1) by (intro advance_travels assms(1,2)) (auto intro: route_intros)
  also have "travels ?p \<dots> ?s1" by (rule conclude_travels)
  also have "travels ?p ?s1 (if ?x then ?s1 else reset_phase_chain_for_recovery ?s1 ?t)" by (simp add: reset_chain_travels)
  also have "travels ?p \<dots> ?s3" by (rule travels_core) (simp add: same_core_def)
  finally have tr: "travels ?p s ?s3" .
  show ?thesis unfolding recover_missing_plan_handoff_def Let_def by (rule save_lawful [OF tr assms(3)])
qed

lemma reenter_lawful:
  assumes "validate_policy (se_policy env)" "known_phase (se_policy env) t" "controlled (se_policy env) w"
    and "reenter_failed_route env t s timing w = ((n, t'), w')"
  shows "controlled (se_policy env) w'" "travels (se_policy env) s n" "known_phase (se_policy env) t'"
proof -
  let ?p = "se_policy env"
  define now where "now = snd (fst (se_clock env (sw_rest w)))"
  define tm where "tm = (\<lambda>t::routing_timing. case timing of None \<Rightarrow> Some t | Some _ \<Rightarrow> timing)"
  define boxed where "boxed = apply_cycle_timebox s t ?p (tm \<lparr>total_elapsed_seconds = cycle_timebox_consumed_seconds s,
      development_elapsed_seconds = None, current_epoch = Some now\<rparr>)"
  define dev where "dev = apply_development_timebox (td_state boxed) (td_target boxed) ?p (tm
      \<lparr>total_elapsed_seconds = cycle_timebox_consumed_seconds s,
       development_elapsed_seconds = Some (dev_timebox_consumed_seconds s), current_epoch = Some now\<rparr>)"
  define s1 where "s1 = conclude_development_timebox (conclude_cycle (td_state dev) (td_target dev) ?p) (td_target dev) ?p"
  define s2 where "s2 = reset_phase_chain_for_recovery s1 (td_target dev)"
  have out: "t' = td_target dev" "n = s2 \<or> n = s2\<lparr>commit := new_commit_state\<rparr>"
    using assms(4) unfolding s2_def s1_def dev_def boxed_def tm_def now_def
    by (auto simp: reenter_failed_route_def Let_def split: if_splits)
  show "controlled ?p w'" using assms(3,4) by (auto simp: reenter_failed_route_def Let_def)
  show "known_phase ?p t'"
    unfolding out(1) dev_def boxed_def using assms(1,2) by (intro development_target_known cycle_target_known)
  have "evolves ?p s s1" unfolding s1_def dev_def boxed_def
    by (intro evolves_conclude evolves_development_timebox evolves_cycle_timebox evolves_refl)
  then have "travels ?p s s2" unfolding s2_def using travels_evolves reset_chain_travels travels_trans by metis
  moreover have "travels ?p s2 n" using out(2) by (elim disjE) (auto intro!: travels_core simp: same_core_def)
  ultimately show "travels ?p s n" by (rule travels_trans)
qed

lemma enter_travels:
  assumes "known_phase p t" "at_home p s"
  shows "travels p s (enter_prepared env asked dr s t)"
proof -
  have "travels p s (s\<lparr>phase := t, previous_phase := previous_phase s\<rparr>)"
    using assms by (intro travels_evolves evolves_goto) (auto simp: at_home_def phases_known_def)
  also have "travels p \<dots> (enter_prepared env asked dr s t)"
    by (rule travels_core) (auto simp: enter_prepared_def same_core_def Let_def)
  finally show ?thesis .
qed

lemma prepare_prompt_lawful:
  assumes "validate_policy (se_policy env)" "at_home (se_policy env) s" "controlled (se_policy env) w"
    and "known_phase (se_policy env) ph"
  shows "lawful (se_policy env) s (prepare_prompt_inline env eff ph dr skip s timing w)"
proof -
  let ?p = "se_policy env"
  obtain prompt w1 where pr: "(if skip then (Prompt_ready, w) else (case se_materialize env eff s (sw_rest w) of (a, x) \<Rightarrow> (a, set_rest x w)))
      = (prompt, w1)" by (metis prod.exhaust)
  then have w1: "controlled ?p w1" using assms(3) by (auto split: if_splits prod.splits)
  show ?thesis
  proof (cases prompt)
    case Prompt_ready
    let ?e = "if failed_route (recovery ?p) = phase s then reenter_failed_route env ph s timing w1 else ((s, ph), w1)"
    obtain s1 t w2 where e: "?e = ((s1, t), w2)" by (metis prod.exhaust)
    have l: "controlled ?p w2" "travels ?p s s1" "known_phase ?p t"
      using e w1 assms(4) reenter_lawful [OF assms(1,4) w1] by (auto split: if_splits)
    have "travels ?p s (enter_prepared env ph dr s1 t)"
      using travels_trans [OF l(2) enter_travels [OF l(3) travels_home [OF l(2) assms(2)]]] .
    note sl = save_lawful [OF this l(1), of env]
    have body: "prepare_prompt_inline env eff ph dr skip s timing w
        = (case save_checkpoint env (enter_prepared env ph dr s1 t) w2 of
             (saved, w3) \<Rightarrow> (rbind saved (\<lambda>_. Inr (enter_prepared env ph dr s1 t)), w3))"
      unfolding prepare_prompt_inline_def Let_def pr case_prod_conv Prompt_ready prompt_answer.case e ..
    show ?thesis unfolding body by (rule sl)
  next
    case (Plan_missing msg)
    show ?thesis unfolding prepare_prompt_inline_def Let_def pr case_prod_conv Plan_missing prompt_answer.case
      by (rule missing_plan_lawful [OF assms(1,2) w1])
  next
    case (Prompt_raised e)
    show ?thesis unfolding prepare_prompt_inline_def Let_def pr case_prod_conv Prompt_raised prompt_answer.case by (simp add: w1)
  qed
qed

lemma exit_failure_lawful:
  assumes "validate_policy (se_policy env)" "at_home (se_policy env) s" "controlled (se_policy env) w"
  shows "lawful (se_policy env) s (exit_failure_inline env why s w)"
proof -
  let ?t = "failed_route (recovery (se_policy env))"
  let ?n = "(progress_advance_phase s ?t (se_policy env))\<lparr>last_error := Some why, recovery_epoch := recovery_epoch s + 1\<rparr>"
  have "travels (se_policy env) s (progress_advance_phase s ?t (se_policy env))"
    by (intro advance_travels assms(1,2) route_intros)
  also have "travels (se_policy env) \<dots> ?n" by (rule travels_core) (simp add: same_core_def)
  finally have tr: "travels (se_policy env) s ?n" .
  show ?thesis unfolding exit_failure_inline_def Let_def by (rule save_lawful [OF tr assms(3)])
qed

definition lawful_inline :: "pipeline_policy \<Rightarrow> pstate \<Rightarrow> (int + pstate) option res \<times> 'x step_world \<Rightarrow> bool" where
  "lawful_inline p s m = (controlled p (snd m) \<and> (\<forall>n. fst m = Inr (Some (Inr n)) \<longrightarrow> travels p s n))"

definition lawful_answer :: "pipeline_policy \<Rightarrow> pstate \<Rightarrow> (int + pstate) res \<times> 'x step_world \<Rightarrow> bool" where
  "lawful_answer p s m = (controlled p (snd m) \<and> (\<forall>n. fst m = Inr (Inr n) \<longrightarrow> travels p s n))"

lemma lawful_inline_state:
  "lawful p s m \<Longrightarrow> lawful_inline p s (case m of (r, w1) \<Rightarrow> (rbind r (\<lambda>n. Inr (Some (Inr n))), w1))"
  by (cases m; cases "fst m") (auto simp: lawful_inline_def)

lemma inline_lawful:
  assumes "validate_policy (se_policy env)" "at_home (se_policy env) s" "controlled (se_policy env) w"
    and "routes_home (se_policy env) eff"
  shows "lawful_inline (se_policy env) s (handle_inline_effect env eff s timing w)"
proof -
  let ?p = "se_policy env"
  have none: "lawful_inline ?p s (Inr None, w)" using assms(3) by (simp add: lawful_inline_def)
  show ?thesis
  proof (cases eff)
    case (Prepare_prompt ph dr pv skip)
    then have "known_phase ?p ph" using assms(4) by (simp add: routes_home_def)
    then show ?thesis unfolding handle_inline_effect_def Let_def Prepare_prompt router_effect.case
      by (intro lawful_inline_state prepare_prompt_lawful assms(1-3))
  next
    case (Exit_run e)
    show ?thesis
    proof (cases e)
      case Save_checkpoint
      obtain r w1 where sv: "save_checkpoint env s w = (r, w1)" by (metis prod.exhaust)
      then have w1: "controlled ?p w1" using save_world assms(3) by blast
      have l: "lawful_inline ?p s (case step_reduce env None s (Pipeline_event CHECKPOINT_SAVED) None w1 of
          (r, w1) \<Rightarrow> (rbind r (\<lambda>n. Inr (Some (Inr n))), w1))"
        by (intro lawful_inline_state step_reduce_lawful assms(1,2) w1) simp
      show ?thesis unfolding handle_inline_effect_def Let_def Exit_run Save_checkpoint router_effect.case effect.case sv
        using l w1 by (cases r) (simp_all add: lawful_inline_def)
    next
      case (Exit_failure why)
      show ?thesis unfolding handle_inline_effect_def Let_def Exit_run Exit_failure router_effect.case effect.case
        by (intro lawful_inline_state exit_failure_lawful assms(1-3))
    qed (use assms(3) in \<open>simp add: handle_inline_effect_def Exit_run lawful_inline_def\<close>)
  qed (use none in \<open>simp_all add: handle_inline_effect_def\<close>)
qed

section \<open>The boundary\<close>

lemma conflict_lawful:
  assumes "validate_policy (se_policy env)" "at_home (se_policy env) s" "controlled (se_policy env) w"
  shows "lawful (se_policy env) s (fail_for_conflict env s out w)"
proof -
  have l: "lawful (se_policy env) s (step_reduce env None s (conflict_failure s out) None w)"
    by (intro step_reduce_lawful assms) simp
  have "travels (se_policy env) n (n\<lparr>rebase := r\<rparr>)" for n r by (rule travels_core) (simp add: same_core_def)
  then show ?thesis using l unfolding fail_for_conflict_def
    by (cases "step_reduce env None s (conflict_failure s out) None w"; cases "fst (step_reduce env None s (conflict_failure s out) None w)")
       (auto intro: travels_trans)
qed

lemma inline_boundary_lawful:
  assumes "validate_policy (se_policy env)" "at_home (se_policy env) s" "controlled (se_policy env) w"
    and "\<And>n. result = Inr n \<Longrightarrow> travels (se_policy env) s n"
  shows "lawful_answer (se_policy env) s (integrate_inline_effect env eff result s w)"
proof -
  let ?p = "se_policy env"
  obtain hook x where h: "se_boundary env (rebase s) (sw_rest w) = (hook, x)" by (metis prod.exhaust)
  have w1: "controlled ?p (set_rest x w)" using assms(3) by simp
  have rb: "travels ?p s n \<Longrightarrow> travels ?p s (n\<lparr>rebase := r\<rparr>)" for n r
    by (erule travels_trans) (rule travels_core, simp add: same_core_def)
  show ?thesis
  proof (cases hook)
    case (Inr outcome)
    note cf = conflict_lawful [OF assms(1,2) w1]
    show ?thesis using w1 assms(4)
      by (auto simp: integrate_inline_effect_def h Inr Let_def lawful_answer_def rbind_def
          dest: lawful_world [OF cf] lawful_state [OF cf] split: option.splits if_splits sum.splits prod.splits intro: rb)
  qed (use w1 in \<open>simp add: integrate_inline_effect_def h lawful_answer_def\<close>)
qed

section \<open>Fan-out\<close>

lemma clear_wave_travels: "travels p s (cleared_after_successful_wave s)"
  by (simp add: cleared_after_successful_wave_def with_parallel_execution_cleared_def travels_regroups)

lemma reduce_wave_lawful:
  assumes "validate_policy (se_policy env)" "at_home (se_policy env) s" "controlled (se_policy env) w"
    and "reduce_wave env evs s w = ((e, n), w')"
  shows "controlled (se_policy env) w' \<and> travels (se_policy env) s n"
  using assms(2-4)
proof (induction evs arbitrary: s w)
  case (Cons ev evs)
  have l: "lawful (se_policy env) s (step_reduce env None s ev None w)"
    by (intro step_reduce_lawful assms(1) Cons.prems(1,2)) simp
  show ?case
  proof (cases "step_reduce env None s ev None w")
    case (Pair r w1)
    show ?thesis
    proof (cases r)
      case (Inr m)
      note t = lawful_state [OF l, unfolded Pair Inr, OF refl] and c = lawful_world [OF l Pair]
      show ?thesis using Cons.IH [OF travels_home [OF t Cons.prems(1)] c] Cons.prems(3) Pair Inr t travels_trans by auto
    qed (use Cons.prems(3) Pair lawful_world [OF l Pair] in auto)
  qed
qed simp

lemma after_fan_out_lawful:
  assumes "validate_policy (se_policy env)" "at_home (se_policy env) s" "controlled (se_policy env) w"
  shows "lawful (se_policy env) s (integrate_after_fan_out env s w)"
proof -
  obtain hook x where h: "se_boundary env (rebase s) (sw_rest w) = (hook, x)" by (metis prod.exhaust)
  have w1: "controlled (se_policy env) (set_rest x w)" using assms(3) by simp
  have rb: "travels (se_policy env) s (s\<lparr>rebase := r\<rparr>)" for r by (rule travels_core) (simp add: same_core_def)
  show ?thesis using assms(3) conflict_lawful [OF assms(1,2) w1]
    by (auto simp: integrate_after_fan_out_def integrate_on_phase_transition_def is_phase_transition_integration_event_def h rbind_def rb
        split: option.splits sum.splits)
qed

lemma verify_lawful:
  assumes "validate_policy (se_policy env)" "at_home (se_policy env) s" "controlled (se_policy env) w"
    and "run_verify_phase env wanted failed s w = (r, w')"
  shows "controlled (se_policy env) w'" "r = Inr (n, b) \<Longrightarrow> travels (se_policy env) s n"
proof -
  obtain a x where v: "se_verify env (sw_rest w) = (a, x)" by (metis prod.exhaust)
  have l: "lawful (se_policy env) s (step_reduce env None s ev None (set_rest x w))" for ev
    by (rule step_reduce_lawful) (use assms in auto)
  show "controlled (se_policy env) w'"
    using assms(3,4) by (auto simp: run_verify_phase_def v Let_def dest: lawful_world [OF l] split: if_splits sum.splits prod.splits)
  show "r = Inr (n, b) \<Longrightarrow> travels (se_policy env) s n"
    using assms(3,4) by (auto simp: run_verify_phase_def v Let_def dest: lawful_state [OF l] split: if_splits sum.splits prod.splits)
qed

text \<open>A body with its crash state: both are reached by travelling.\<close>

definition lawful_body :: "pipeline_policy \<Rightarrow> pstate \<Rightarrow> (pstate res \<times> pstate) \<times> 'x step_world \<Rightarrow> bool" where
  "lawful_body p s m = (controlled p (snd m) \<and> travels p s (snd (fst m)) \<and> (\<forall>n. fst (fst m) = Inr n \<longrightarrow> travels p s n))"

lemma lawful_body_trans: "travels p s s' \<Longrightarrow> lawful_body p s' m \<Longrightarrow> lawful_body p s m"
  using travels_trans by (auto simp: lawful_body_def)

lemma complete_wave_lawful:
  assumes "validate_policy (se_policy env)" "at_home (se_policy env) s" "controlled (se_policy env) w"
  shows "lawful_body (se_policy env) s (complete_wave env us wanted failed s w)"
proof -
  let ?p = "se_policy env" and ?c = "cleared_after_successful_wave s"
  have c: "travels ?p s ?c" by (rule clear_wave_travels)
  note hc = travels_home [OF c assms(2)]
  have w0: "controlled ?p (save_or_log env ?c w)" using assms(3) by simp
  obtain r w1 where v: "run_verify_phase env wanted failed ?c (save_or_log env ?c w) = (r, w1)" by (metis prod.exhaust)
  note vl = verify_lawful [OF assms(1) hc w0 v]
  have "lawful_body ?p ?c (complete_wave env us wanted failed s w)"
  proof (cases r)
    case (Inl e)
    then show ?thesis using vl(1) by (simp add: complete_wave_def v lawful_body_def)
  next
    case (Inr a)
    obtain n b where a: "a = (n, b)" by (metis prod.exhaust)
    have t: "travels ?p ?c n" using vl(2) Inr a by simp
    obtain sm x where sm: "se_summary env s (sw_rest w1) = (sm, x)" by (metis prod.exhaust)
    have w2: "controlled ?p (set_rest x w1)" using vl(1) by simp
    note af = after_fan_out_lawful [OF assms(1) travels_home [OF t hc] w2]
    show ?thesis using t vl(1) lawful_trans [OF t af]
      by (auto simp: complete_wave_def v Inr a Let_def sm lawful_body_def lawful_def split: sum.splits prod.splits)
  qed
  then show ?thesis using c lawful_body_trans by blast
qed

lemma fan_out_body_lawful:
  assumes "validate_policy (se_policy env)" "at_home (se_policy env) s" "controlled (se_policy env) w"
  shows "lawful_body (se_policy env) s (fan_out_body env us wanted s w)"
proof -
  let ?p = "se_policy env"
  obtain su x where su: "se_fan_out_setup env (sw_rest w) = (su, x)" by (metis prod.exhaust)
  show ?thesis
  proof (cases su)
    case (Inl e)
    then show ?thesis using assms(3) by (simp add: fan_out_body_def su lawful_body_def)
  next
    case su_ok: (Inr _)
    define seeded where "seeded = (if work_units s \<noteq> [] then s else s\<lparr>work_units := us\<rparr>)"
    have ts: "travels ?p s seeded" by (simp add: seeded_def travels_units)
    have l: "lawful ?p seeded (step_reduce env None seeded (Pipeline_event WORKERS_RESUMED) None (set_rest x w))"
      by (rule step_reduce_lawful) (use assms travels_home [OF ts] in auto)
    obtain r w1 where r: "step_reduce env None seeded (Pipeline_event WORKERS_RESUMED) None (set_rest x w) = (r, w1)" by (metis prod.exhaust)
    note w1 = lawful_world [OF l r]
    show ?thesis
    proof (cases r)
      case (Inl e)
      then show ?thesis using w1 by (simp add: fan_out_body_def su su_ok r seeded_def [symmetric] lawful_body_def)
    next
      case (Inr cur)
      have tc: "travels ?p s cur" using travels_trans [OF ts lawful_state [OF l]] r Inr by blast
      note hc = travels_home [OF tc assms(2)]
      note body = fan_out_body_def su su_ok r [unfolded Inr] seeded_def [symmetric] Let_def
      show ?thesis
      proof (cases "resume_units us cur = []")
        case True
        have l2: "lawful ?p cur (step_reduce env None cur (Pipeline_event ALL_WORKERS_COMPLETE) None w1)"
          by (rule step_reduce_lawful) (use assms(1) hc w1 in auto)
        show ?thesis using tc True
          by (auto simp: body lawful_body_def dest: lawful_world [OF l2] lawful_state [OF l2] split: sum.splits prod.splits
              intro: travels_trans [OF tc] travels_trans [OF _ clear_wave_travels])
      next
        case False
        obtain ev x2 where ev: "se_workers env (resume_units us cur) (sw_rest w1) = (ev, x2)" by (metis prod.exhaust)
        show ?thesis
        proof (cases ev)
          case (Inl e)
          then show ?thesis using False tc w1 by (simp add: body ev lawful_body_def)
        next
          case evs: (Inr evs)
          obtain o1 n w2 where rw: "reduce_wave env evs cur (set_rest x2 w1) = ((o1, n), w2)" by (metis prod.exhaust)
          have rl: "controlled ?p w2 \<and> travels ?p cur n"
            by (rule reduce_wave_lawful [OF assms(1) hc _ rw]) (simp add: w1)
          then have tn: "travels ?p s n" using tc travels_trans by blast
          note cw = lawful_body_trans [OF tn complete_wave_lawful [OF assms(1) travels_home [OF tn assms(2)]]]
          show ?thesis
          proof (cases o1)
            case None
            then show ?thesis using False rl cw by (simp add: body ev evs rw)
          next
            case (Some e)
            then show ?thesis using False rl tn by (simp add: body ev evs rw lawful_body_def)
          qed
        qed
      qed
    qed
  qed
qed

lemma lawful_logged:
  "lawful p s m \<Longrightarrow> lawful p s (case m of (Inl e, w) \<Rightarrow> (Inl e, w) | (Inr n, w) \<Rightarrow> (Inr n, save_or_log env n w))"
  by (cases m; cases "fst m") auto

lemma run_fan_out_lawful:
  assumes "validate_policy (se_policy env)" "at_home (se_policy env) s" "controlled (se_policy env) w"
  shows "lawful (se_policy env) s (run_fan_out env us wanted s w)"
proof -
  let ?p = "se_policy env"
  obtain r cur w1 where b: "fan_out_body env us wanted s w = ((r, cur), w1)" by (metis prod.exhaust)
  have l: "controlled ?p w1" "travels ?p s cur" "r = Inr n \<Longrightarrow> travels ?p s n" for n
    using fan_out_body_lawful [OF assms, of us wanted] by (simp_all add: b lawful_body_def)
  have "lawful ?p cur (step_reduce env (if se_deps_owner env then sw_recovery w1 else None) cur ev None w1)" for ev
    by (rule step_reduce_lawful [OF assms(1) travels_home [OF l(2) assms(2)] l(1)])
       (use l(1) in \<open>auto simp: controlled_def split: if_splits\<close>)
  note red = lawful_trans [OF l(2) this]
  show ?thesis
  proof (cases r)
    case (Inl e)
    show ?thesis unfolding run_fan_out_def b Inl prod.case sum.case by (rule lawful_logged [OF red])
  qed (use l in \<open>simp add: run_fan_out_def b\<close>)
qed

section \<open>The step\<close>

definition lawful_work :: "pipeline_policy \<Rightarrow> pstate \<Rightarrow> 'x worked \<Rightarrow> bool" where
  "lawful_work p s m = (controlled p (snd m)
     \<and> (case fst m of Inl (_, n) \<Rightarrow> travels p s n | Inr (Inl _) \<Rightarrow> True | Inr (Inr n) \<Rightarrow> travels p s n))"

lemma lawful_work_simps [simp]:
  "lawful_work p s (Inl (c, n), w) = (controlled p w \<and> travels p s n)"
  "lawful_work p s (Inr (Inl k), w) = controlled p w"
  "lawful_work p s (Inr (Inr n), w) = (controlled p w \<and> travels p s n)"
  by (simp_all add: lawful_work_def)

lemma or_crash_lawful:
  assumes "travels p s0 s" "controlled p (snd m)" "\<And>a w. m = (Inr a, w) \<Longrightarrow> lawful_work p s0 (k a w)"
  shows "lawful_work p s0 (or_crash s m k)"
  using assms by (cases m; cases "fst m") (auto simp: or_crash_def)

lemma or_crash_state:
  assumes "travels p s0 s" "lawful p s m" "\<And>n w. controlled p w \<Longrightarrow> travels p s0 n \<Longrightarrow> lawful_work p s0 (k n w)"
  shows "lawful_work p s0 (or_crash s m k)"
  by (rule or_crash_lawful) (use assms lawful_trans [OF assms(1,2)] in \<open>auto simp: lawful_def\<close>)

lemma outcome_lawful:
  assumes "controlled (se_policy env) w"
  shows "lawful (se_policy env) s (apply_step_integration_outcome env out s w)"
proof -
  have rb: "travels (se_policy env) s (s\<lparr>rebase := r\<rparr>)" for r by (rule travels_core) (simp add: same_core_def)
  show ?thesis using assms rb
    by (auto simp: apply_step_integration_outcome_def Let_def split: option.splits sum.splits prod.splits)
qed

lemma integrate_controlled: "integrate_on_phase_transition env ev s w = (r, w') \<Longrightarrow> controlled p w \<Longrightarrow> controlled p w'"
  by (auto simp: integrate_on_phase_transition_def split: if_splits prod.splits)

lemma auto_integrate_controlled:
  assumes "maybe_auto_integrate env eff ev s w = (r, w')" "controlled p w"
  shows "controlled p w'"
proof -
  let ?w1 = "set_rest (se_clear_baseline env (sw_rest w)) w"
  consider e v where "integrate_on_phase_transition env e s v = (r, w')" "v = w \<or> v = ?w1"
    | x where "w' = set_rest x ?w1"
    using assms(1) by (cases eff) (auto simp: maybe_auto_integrate_def Let_def split: if_splits prod.splits)
  then show ?thesis using assms(2) by cases (auto dest: integrate_controlled)
qed

lemma execute_controlled: "execute_effect env eff s w = (r, w') \<Longrightarrow> controlled p w \<Longrightarrow> controlled p w'"
  by (auto simp: execute_effect_def split: router_effect.splits effect.splits prod.splits if_splits)

lemma reset_backoff_serves: "serves p ctl \<Longrightarrow> serves p (reset_controller_backoff ph ag ctl)"
  by (auto simp: serves_def reset_controller_backoff_def Let_def split: option.splits)

lemma capture_travels: "travels p s (apply_session_capture captured s)"
  by (rule travels_core) (simp add: apply_session_capture_def same_core_def split: prod.split)

lemma finalize_lawful:
  assumes "finalize_agent_invocation env eff ev s w = (s1, r, w')" "controlled p w"
  shows "controlled p w'" "travels p s s1"
proof -
  have c: "controlled p (w\<lparr>sw_recovery := map_option (reset_controller_backoff ph ag) (sw_recovery w)\<rparr>)" for ph ag
    using assms(2) by (auto simp: controlled_def intro: reset_backoff_serves split: option.splits)
  show "controlled p w'" "travels p s s1"
    using assms c
    by (auto simp: finalize_agent_invocation_def Let_def capture_travels split: router_effect.splits prod.splits if_splits)
qed

lemma conclude_step_lawful:
  assumes "validate_policy (se_policy env)" "at_home (se_policy env) s" "controlled (se_policy env) w" "travels (se_policy env) s0 s"
  shows "lawful_work (se_policy env) s0 (conclude_step env ev out s w)"
proof -
  let ?p = "se_policy env"
  obtain cyc dev timing w1 where sm: "sample_step env s w = ((cyc, dev, timing), w1)" by (metis prod.exhaust)
  have w1: "controlled ?p w1" using sample_controlled [of ?p env s w] sm assms(3) by simp
  have red: "lawful ?p s (step_reduce env (sw_recovery w1) s ev timing w1)"
    by (rule step_reduce_lawful [OF assms(1,2) w1]) (use w1 in \<open>auto simp: controlled_def\<close>)
  show ?thesis
    unfolding conclude_step_def Let_def sm case_prod_conv
  proof (rule or_crash_state [OF assms(4) red], goal_cases)
    case (1 n w2)
    obtain n1 w3 where f: "fold_sampled_timeboxes s cyc dev n w2 = (n1, w3)" by (metis prod.exhaust)
    have w3: "controlled ?p w3" using 1(1) fold_controlled [of ?p s cyc dev n w2] f by simp
    have n1: "travels ?p s0 n1" using travels_trans [OF 1(2) fold_travels [of ?p n s cyc dev w2]] f by simp
    note o1 = lawful_trans [OF n1 outcome_lawful [OF w3, of n1 out]]
    show ?case
      unfolding f case_prod_conv
    proof (rule or_crash_lawful [OF assms(4)], goal_cases)
      case 1
      then show ?case using o1 by (simp add: lawful_def)
    next
      case (2 n2 w4)
      note c = lawful_world [OF o1 2] lawful_state [OF o1 2]
      show ?case by (rule or_crash_lawful [OF assms(4)]) (use c in \<open>auto split: prod.splits\<close>)
    qed
  qed
qed

lemma run_effect_lawful:
  assumes "validate_policy (se_policy env)" "at_home (se_policy env) s" "controlled (se_policy env) w" "travels (se_policy env) s0 s"
  shows "lawful_work (se_policy env) s0 (run_effect env eff s w)"
proof -
  let ?p = "se_policy env"
  obtain prompt x where pr: "se_materialize env eff s (sw_rest w) = (prompt, x)" by (metis prod.exhaust)
  have w1: "controlled ?p (set_rest x w)" using assms(3) by simp
  note unfolds = run_effect_def pr Let_def case_prod_conv
  show ?thesis
  proof (cases prompt)
    case (Prompt_raised e)
    then show ?thesis using assms(3,4) by (simp add: unfolds)
  next
    case (Plan_missing msg)
    show ?thesis unfolding unfolds Plan_missing prompt_answer.case
      by (rule or_crash_state [OF assms(4) missing_plan_lawful [OF assms(1,2) w1]]) simp
  next
    case Prompt_ready
    show ?thesis
      unfolding unfolds Prompt_ready prompt_answer.case
    proof (rule or_crash_lawful [OF assms(4)], goal_cases)
      case 1
      then show ?case using execute_controlled w1 by (metis prod.collapse)
    next
      case (2 ev w2)
      have w2: "controlled ?p w2" using execute_controlled [OF 2 w1] .
      obtain s1 r w3 where f: "finalize_agent_invocation env eff ev s w2 = (s1, r, w3)" by (metis prod_cases3)
      note fl = finalize_lawful [OF f w2]
      have ts1: "travels ?p s0 s1" using assms(4) fl(2) by (rule travels_trans)
      show ?case
      proof (cases r)
        case (Inl e)
        then show ?thesis using fl assms(4) by (simp add: f)
      next
        case (Inr ev1)
        show ?thesis
          unfolding f Inr case_prod_conv sum.case
        proof (rule or_crash_lawful [OF ts1], goal_cases)
          case 1
          then show ?case using auto_integrate_controlled fl(1) by (metis prod.collapse)
        next
          case (2 out w4)
          show ?case
            by (rule conclude_step_lawful [OF assms(1) travels_home [OF fl(2) assms(2)] auto_integrate_controlled [OF 2 fl(1)] ts1])
        qed
      qed
    qed
  qed
qed

lemma step_work_lawful:
  assumes "validate_policy (se_policy env)" "at_home (se_policy env) s" "controlled (se_policy env) w"
  shows "lawful_work (se_policy env) s (step_work env s timing w)"
proof -
  let ?p = "se_policy env"
  obtain r w1 where d: "prepare_pipeline_step_dispatch env s w = (r, w1)" by (metis prod.exhaust)
  note dl = prepare_dispatch_lawful [OF assms d]
  show ?thesis
  proof (cases r)
    case (Inl c)
    then show ?thesis using dl(1) by (simp add: step_work_def d)
  next
    case (Inr a)
    obtain s1 eff where a: "a = (s1, eff)" by (metis prod.exhaust)
    have t: "travels ?p s s1" and home: "routes_home ?p eff" using dl(2) Inr a by blast+
    note h1 = travels_home [OF t assms(2)]
    have il: "lawful_inline ?p s1 (handle_inline_effect env eff s1 timing w1)"
      by (rule inline_lawful [OF assms(1) h1 dl(1) home])
    show ?thesis
      unfolding step_work_def d Inr a case_prod_conv sum.case
    proof (rule or_crash_lawful [OF t], goal_cases)
      case 1
      then show ?case using il by (simp add: lawful_inline_def)
    next
      case (2 inline w2)
      have w2: "controlled ?p w2" and st: "inline = Some (Inr n) \<Longrightarrow> travels ?p s1 n" for n
        using il 2 by (simp_all add: lawful_inline_def)
      show ?case
      proof (cases inline)
        case None
        show ?thesis
        proof (cases "\<exists>us m b ph. eff = Fan_out us m b ph")
          case True
          then obtain us m b ph where "eff = Fan_out us m b ph" by blast
          then show ?thesis using None
            by simp (rule or_crash_state [OF t run_fan_out_lawful [OF assms(1) h1 w2]], simp)
        next
          case False
          then show ?thesis using None run_effect_lawful [OF assms(1) h1 w2 t, of eff]
            by (cases eff) simp_all
        qed
      next
        case (Some result)
        have al: "lawful_answer ?p s1 (integrate_inline_effect env eff result s1 w2)"
          by (rule inline_boundary_lawful [OF assms(1) h1 w2]) (use st Some in simp)
        show ?thesis
          unfolding Some option.case
        proof (rule or_crash_lawful [OF t], goal_cases)
          case 1
          then show ?case using al by (simp add: lawful_answer_def)
        next
          case (2 q w3)
          then show ?case using al travels_trans [OF t] by (cases q) (auto simp: lawful_answer_def)
        qed
      qed
    qed
  qed
qed

section \<open>Crashes\<close>

lemma runtime_recovery_lawful:
  assumes "validate_policy (se_policy env)" "at_home (se_policy env) s" "controlled (se_policy env) w"
  shows "lawful (se_policy env) s (reduce_runtime_recovery env e s timing w)"
proof -
  let ?p = "se_policy env"
  note vr = run_from_home [OF assms(1,2)]
  show ?thesis
  proof (cases "redirect_expired_cycle_in_place s (Some ?p) timing")
    case (Some h)
    have "fine ?p s h" using valid_run.fine_redirect [OF vr Some] by blast
    then show ?thesis using assms(3) Some
      by (cases h) (auto simp: reduce_runtime_recovery_def fine_def intro: travels_evolves)
  next
    case None
    show ?thesis
    proof (cases "sw_recovery w")
      case no: None
      have "lawful ?p s (step_reduce env None s ev timing w)" for ev by (rule step_reduce_lawful [OF assms]) simp
      then show ?thesis unfolding reduce_runtime_recovery_def None no option.case .
    next
      case (Some ctl)
      then have sv: "serves ?p ctl" using assms(3) by (simp add: controlled_def)
      obtain ce now c where rd: "se_reads env (sw_rest w) = (ce, now, c)" by (metis prod_cases3)
      let ?h = "handle (\<lambda>_. se_classify_exn env e) c now ctl s (Raw_text (se_exn_text env e))
          \<lparr>ctx_phase = phase s, ctx_agent = current_agent s, ctx_retry_in_session = False, ctx_classified = None\<rparr> False False"
      have pf: "pfine ?p s ?h" by (rule valid_run.pfine_handle [OF vr evolves_refl sv])
      show ?thesis
      proof (cases ?h)
        case (Inl x)
        then show ?thesis using assms(3) by (simp add: reduce_runtime_recovery_def None Some rd)
      next
        case (Inr q)
        obtain ctl1 n effs evt where q: "q = (ctl1, n, effs, evt)" by (metis prod_cases4)
        have ok: "travels ?p s n" "serves ?p ctl1" using pf Inr q by (auto simp: pfine_def intro: travels_evolves)
        then show ?thesis using Inr q travels_trans [OF ok(1) travels_units]
          by (simp add: reduce_runtime_recovery_def None Some rd controlled_def)
      qed
    qed
  qed
qed

lemma blocked_lawful:
  assumes "controlled p w"
  shows "lawful p s (handle_blocked_dispatch_recovery env c s timed w)"
proof -
  have rb: "travels p s (s\<lparr>rebase := r\<rparr>)" for r by (rule travels_core) (simp add: same_core_def)
  show ?thesis using assms rb
    by (auto simp: handle_blocked_dispatch_recovery_def Let_def rbind_def split: step_crash.splits prod.splits sum.splits)
qed

lemma recover_lawful:
  assumes "validate_policy (se_policy env)" "at_home (se_policy env) s" "controlled (se_policy env) w"
  shows "lawful (se_policy env) s (recover_step env c s w)"
proof -
  let ?p = "se_policy env"
  obtain cyc dev timing w1 where sm: "sample_step env s w = ((cyc, dev, timing), w1)" by (metis prod.exhaust)
  obtain s1 w2 where f: "fold_sampled_timeboxes s cyc dev s w1 = (s1, w2)" by (metis prod.exhaust)
  have t: "travels ?p s s1" using fold_travels [of ?p s s cyc dev w1] f by simp
  have w2: "controlled ?p w2" using f sm assms(3) fold_controlled [of ?p s cyc dev s w1] sample_controlled [of ?p env s w] by simp
  note l = lawful_trans [OF t runtime_recovery_lawful [OF assms(1) travels_home [OF t assms(2)] w2, of "crash_exn c" timing]]
  obtain r w3 where r: "reduce_runtime_recovery env (crash_exn c) s1 timing w2 = (r, w3)" by (metis prod.exhaust)
  show ?thesis
  proof (cases r)
    case (Inl e)
    then show ?thesis using lawful_world [OF l r] by (simp add: recover_step_def sm f r)
  next
    case (Inr n)
    have tn: "travels ?p s n" using lawful_state [OF l] r Inr by blast
    note bl = lawful_trans [OF tn blocked_lawful [OF lawful_world [OF l r], of n env c s1]]
    show ?thesis unfolding recover_step_def Let_def sm case_prod_conv f r Inr prod.case sum.case by (rule lawful_logged [OF bl])
  qed
qed

section \<open>Every step only travels\<close>

lemma step_lawful:
  assumes "validate_policy (se_policy env)" "at_home (se_policy env) s" "controlled (se_policy env) w"
    and "run_pipeline_step env s w = (r, w')"
  shows "controlled (se_policy env) w'" and "r = Inr (Inr n) \<Longrightarrow> travels (se_policy env) s n"
proof -
  let ?p = "se_policy env"
  have tm: "travels ?p s m \<Longrightarrow> travels ?p s (with_phase_timing t m)" for m t
    by (erule travels_trans) (rule travels_core, simp add: same_core_def with_phase_timing_def)
  obtain q w1 where pt: "prepare_step_timeboxes env s w = (q, w1)" by (metis prod.exhaust)
  note pl = prepare_timeboxes_lawful [OF assms(1-3) pt]
  have "controlled ?p w' \<and> (\<forall>n. r = Inr (Inr n) \<longrightarrow> travels ?p s n)"
  proof (cases q)
    case (Inl e)
    then show ?thesis using assms(4) pl(1) by (auto simp: run_pipeline_step_def pt)
  next
    case (Inr a)
    obtain s1 timing where a: "a = (s1, timing)" by (metis prod.exhaust)
    have t1: "travels ?p s s1" using pl(2) Inr a by blast
    note h1 = travels_home [OF t1 assms(2)]
    have wl: "lawful_work ?p s1 (step_work env s1 timing w1)" by (rule step_work_lawful [OF assms(1) h1 pl(1)])
    obtain b w2 where b: "step_work env s1 timing w1 = (b, w2)" by (metis prod.exhaust)
    show ?thesis
    proof (cases b)
      case rb: (Inr result)
      then show ?thesis using assms(4) wl b travels_trans [OF t1]
        by (cases result) (auto simp: run_pipeline_step_def pt Inr a tm)
    next
      case (Inl cs)
      obtain c s2 where cs: "cs = (c, s2)" by (metis prod.exhaust)
      have t2: "travels ?p s s2" and w2: "controlled ?p w2" using wl b Inl cs travels_trans [OF t1] by auto
      note l = lawful_trans [OF t2 recover_lawful [OF assms(1) travels_home [OF t2 assms(2)] w2, of c]]
      show ?thesis using assms(4)
        by (auto simp: run_pipeline_step_def pt Inr a b Inl cs dest: lawful_world [OF l] lawful_state [OF l] intro: tm
            split: prod.splits sum.splits)
    qed
  qed
  then show "controlled ?p w'" "r = Inr (Inr n) \<Longrightarrow> travels ?p s n" by blast+
qed

section \<open>Exit codes\<close>

lemma inline_code:
  assumes "handle_inline_effect env eff s timing w = (Inr (Some (Inl k)), w')"
  shows "eff = Exit_run Exit_success" "k = exit_success_inline env s w" "w' = w"
  using assms
  by (auto simp: handle_inline_effect_def Let_def rbind_def split: router_effect.splits effect.splits prod.splits sum.splits)

lemma boundary_zero:
  assumes "integrate_inline_effect env eff result s w = (Inr (Inl 0), w')"
  obtains out where "result = Inl 0" "se_boundary env (rebase s) (sw_rest w) = (Inr out, sw_rest w')"
    "eff = Exit_run Exit_success \<Longrightarrow>
       is_terminal_success_eligible (Some s) (se_has_record env (sw_rest w')) (case out of None \<Rightarrow> rebase s | Some r \<Rightarrow> r)"
  using assms
  by (auto simp: integrate_inline_effect_def Let_def rbind_def isl_def set_rest_def
      split: prod.splits sum.splits option.splits if_splits)

lemma or_crash_Inr [simp]: "or_crash s (Inr a, w) k = k a w"
  by (simp add: or_crash_def)

lemma effect_answers_state: "run_effect env eff s w \<noteq> (Inr (Inl k), w')"
  by (auto simp: run_effect_def or_crash_def conclude_step_def Let_def split: prod.splits sum.splits prompt_answer.splits)

lemma invoke_no_exit: "invoke_effect env w s d b noun \<noteq> Inr (w', Exit_run Exit_success)"
  by (auto elim: invoke_effect_cases)

lemma parallel_no_exit: "parallel_or_agent_effect env w s d b \<noteq> Inr (w', Exit_run Exit_success)"
  by (auto elim!: parallel_or_agent_cases simp: invoke_no_exit)

lemma commit_no_exit: "commit_phase_effect env w s d b \<noteq> Inr (w', Exit_run Exit_success)"
  by (auto simp: commit_phase_effect_def empty_commit_cleanup_effect_def empty_commit_effect_def invoke_no_exit parallel_no_exit
      dest!: exit_failure_Inr split: if_splits option.splits sum.splits bool.splits)

text \<open>The two ways to leave a run in success: the terminal phase, or a phase that is skipped straight to it.\<close>

definition success_phase :: "pipeline_policy \<Rightarrow> string \<Rightarrow> bool" where
  "success_phase p ph = (ph = terminal_phase p \<or> (case dget (phases p) ph of None \<Rightarrow> False
     | Some d \<Rightarrow> skip_invocation d \<and> on_success (transitions d) = terminal_phase p))"

lemma exit_routed:
  assumes "determine_effect_from_policy env w s b = Inr (w', Exit_run Exit_success)"
  shows "success_phase (bundle_pipeline b) (phase s)"
  using assms
proof (cases rule: router_cases)
  case (working d)
  then show ?thesis using parallel_no_exit commit_no_exit by (auto split: if_splits)
qed (auto simp: success_phase_def recovery_prepare_effect_def skip_invocation_effect_def Let_def split: if_splits)

lemma step_code:
  assumes "step_work env s timing w = (Inr (Inl k), w')"
  obtains n eff w2 result w3 where "prepare_pipeline_step_dispatch env s w = (Inr (n, eff), w2)"
    "handle_inline_effect env eff n timing w2 = (Inr (Some result), w3)"
    "integrate_inline_effect env eff result n w3 = (Inr (Inl k), w')"
proof -
  obtain n eff w2 where d: "prepare_pipeline_step_dispatch env s w = (Inr (n, eff), w2)"
    using assms by (auto simp: step_work_def split: prod.splits sum.splits)
  obtain inline w3 where i: "handle_inline_effect env eff n timing w2 = (Inr inline, w3)"
    using assms by (auto simp: step_work_def d or_crash_def split: prod.splits sum.splits)
  show thesis
  proof (cases inline)
    case None
    then have "(case eff of
        Fan_out us _ wanted _ \<Rightarrow> or_crash n (run_fan_out env us wanted n w3) (\<lambda>n w. (Inr (Inr n), w))
      | _ \<Rightarrow> run_effect env eff n w3) = (Inr (Inl k), w')"
      using assms by (simp add: step_work_def d or_crash_Inr i)
    then show thesis
      by (cases eff) (auto simp: or_crash_def effect_answers_state split: prod.splits sum.splits)
  next
    case (Some result)
    then show thesis using that [OF d] i assms by (auto simp: step_work_def d or_crash_def split: prod.splits sum.splits)
  qed
qed

text \<open>
  What a step that answers zero has checked: the phase ends the run, every authority agrees before the boundary hook
  and again on what the hook answered, and nothing is retained in the working tree.
\<close>

definition earned_success :: "'x step_env \<Rightarrow> pstate \<Rightarrow> 'x \<Rightarrow> 'x \<Rightarrow> bool" where
  "earned_success env s x x' =
     (success_phase (se_policy env) (phase s)
      \<and> is_terminal_success_eligible (Some s) (se_has_record env x) (rebase s)
      \<and> retained_integration_reason (se_tree env x) = None
      \<and> (case se_boundary env (rebase s) x of
           (Inr out, y) \<Rightarrow> y = x' \<and> is_terminal_success_eligible (Some s) (se_has_record env x')
             (case out of None \<Rightarrow> rebase s | Some r \<Rightarrow> r)
         | _ \<Rightarrow> False))"

lemma step_zero_earned:
  assumes "validate_policy (se_policy env)" "at_home (se_policy env) s" "controlled (se_policy env) w"
    and "run_pipeline_step env s w = (Inr (Inl 0), w')"
  shows "\<exists>n x. travels (se_policy env) s n \<and> earned_success env n x (sw_rest w')"
proof -
  let ?p = "se_policy env"
  obtain s1 timing w1 where pt: "prepare_step_timeboxes env s w = (Inr (s1, timing), w1)"
    and wk: "step_work env s1 timing w1 = (Inr (Inl 0), w')"
    using assms(4) by (auto simp: run_pipeline_step_def Let_def map_sum_def split: prod.splits sum.splits)
  note pl = prepare_timeboxes_lawful [OF assms(1-3) pt]
  have t1: "travels ?p s s1" using pl(2) by blast
  obtain n eff w2 result w3 where d: "prepare_pipeline_step_dispatch env s1 w1 = (Inr (n, eff), w2)"
    and i: "handle_inline_effect env eff n timing w2 = (Inr (Some result), w3)"
    and g: "integrate_inline_effect env eff result n w3 = (Inr (Inl 0), w')"
    using wk by (rule step_code)
  have tn: "travels ?p s n"
    using travels_trans [OF t1] prepare_dispatch_lawful(2) [OF assms(1) travels_home [OF t1 assms(2)] pl(1) d] by blast
  obtain out where z: "result = Inl 0" and h: "se_boundary env (rebase n) (sw_rest w3) = (Inr out, sw_rest w')"
    and e2: "eff = Exit_run Exit_success \<Longrightarrow>
      is_terminal_success_eligible (Some n) (se_has_record env (sw_rest w')) (case out of None \<Rightarrow> rebase n | Some r \<Rightarrow> r)"
    by (rule boundary_zero [OF g]) blast
  note ic = inline_code [OF i [unfolded z]]
  have "is_terminal_success_eligible (Some n) (se_has_record env (sw_rest w2)) (rebase n)
      \<and> (se_has_record env (sw_rest w2) \<or> retained_integration_reason (se_tree env (sw_rest w2)) = None)"
    using ic(2) by (auto simp: exit_success_inline_def Let_def split: if_splits)
  then have e1: "is_terminal_success_eligible (Some n) (se_has_record env (sw_rest w2)) (rebase n)"
      "retained_integration_reason (se_tree env (sw_rest w2)) = None"
    using eligible_facts(1) by blast+
  obtain q where rt: "route_step env (s1\<lparr>rebase := q\<rparr>) w1 = (Inr eff, w2)" "n = align_chain eff (s1\<lparr>rebase := q\<rparr>)"
    using d by (auto simp: prepare_pipeline_step_dispatch_def Let_def split: sum.splits prod.splits)
  have n: "n = s1\<lparr>rebase := q\<rparr>" using rt(2) ic(1) by (simp add: align_chain_def)
  have "success_phase ?p (phase n)"
    using rt(1) ic(1) exit_routed [where b = "se_bundle env" and s = n] unfolding n [symmetric]
    by (auto simp: route_step_def split: sum.splits prod.splits)
  then have "earned_success env n (sw_rest w2) (sw_rest w')"
    using e1 e2 [OF ic(1)] h unfolding earned_success_def ic(3) by simp
  then show ?thesis using tn by blast
qed

section \<open>A blocked tree\<close>

text \<open>The same step with other answers to everything that does work: the router, prompts, agents, commits, workers and Git.\<close>

definition other_workers :: "'x step_env \<Rightarrow> 'x step_env \<Rightarrow> 'x step_env" where
  "other_workers alt env = env\<lparr>se_router := se_router alt, se_materialize := se_materialize alt, se_agent := se_agent alt,
     se_commit := se_commit alt, se_grade := se_grade alt, se_boundary := se_boundary alt, se_after_commit := se_after_commit alt,
     se_fan_out_setup := se_fan_out_setup alt, se_workers := se_workers alt, se_verify := se_verify alt\<rparr>"

lemma other_same [simp]:
  "se_bundle (other_workers alt env) = se_bundle env" "se_classify (other_workers alt env) = se_classify env"
  "se_classify_exn (other_workers alt env) = se_classify_exn env" "se_exn_text (other_workers alt env) = se_exn_text env"
  "se_clock (other_workers alt env) = se_clock env" "se_reads (other_workers alt env) = se_reads env"
  "se_tree (other_workers alt env) = se_tree env" "se_has_record (other_workers alt env) = se_has_record env"
  "se_timer (other_workers alt env) = se_timer env" "se_seam (other_workers alt env) = se_seam env"
  "se_save (other_workers alt env) = se_save env"
  by (simp_all add: other_workers_def)

lemma other_sample: "sample_step (other_workers alt env) = sample_step env"
  by (intro ext, unfold sample_step_def sample_cycle_timing_def sample_development_timing_def other_same) (rule refl)

lemma other_prepare: "prepare_step_timeboxes (other_workers alt env) = prepare_step_timeboxes env"
  by (intro ext, unfold prepare_step_timeboxes_def other_sample other_same) (rule refl)

lemma other_recovery: "reduce_runtime_recovery (other_workers alt env) = reduce_runtime_recovery env"
  by (intro ext, unfold reduce_runtime_recovery_def step_reduce_def other_same) (rule refl)

lemma other_blocked: "handle_blocked_dispatch_recovery (other_workers alt env) = handle_blocked_dispatch_recovery env"
  by (intro ext, unfold handle_blocked_dispatch_recovery_def other_same) (rule refl)

lemma other_recover: "recover_step (other_workers alt env) = recover_step env"
  by (intro ext, unfold recover_step_def other_sample other_recovery other_blocked save_or_log_def save_checkpoint_def other_same) (rule refl)

lemma blocked_dispatch:
  assumes "phase s \<noteq> RESOLUTION_DRAIN_NAME" "inspect_integration_resolution (se_tree env (sw_rest w)) (rebase s) = Inr (v, c)"
    and "\<not> dispatch_allowed v"
  shows "step_work env s timing w = (Inl (Dispatch_blocked (RuntimeError (''cannot dispatch '' @ phase s)), s), w)"
proof -
  have "reconcile_rebase_if_live_resolved env (rebase s) w = Inr (rebase s)"
    using assms(2,3) by (simp add: reconcile_rebase_if_live_resolved_def)
  then have "prepare_pipeline_step_dispatch env s w = (Inl (Dispatch_blocked (RuntimeError (''cannot dispatch '' @ phase s))), w)"
    using assms by (simp add: prepare_pipeline_step_dispatch_def assert_integration_dispatch_invariant_def
        assert_non_resolution_dispatch_allowed_def)
  then show ?thesis by (simp add: step_work_def)
qed

lemma fold_rebase: "fold_sampled_timeboxes b cyc dev s w = (s', w') \<Longrightarrow> rebase s' = rebase s"
  by (auto simp: fold_sampled_timeboxes_def fold_cycle_elapsed_def fold_development_elapsed_def split: option.splits)

lemma blocked_recovery_retains:
  assumes "recover_step env (Dispatch_blocked e) s w = (Inr n, w')" and "integration_unresolved (rebase s) \<or> recovery_record_retained (rebase s)"
  shows "recovery_record_retained (rebase n)"
proof -
  obtain cyc dev timing w1 where sm: "sample_step env s w = ((cyc, dev, timing), w1)" by (metis prod.exhaust)
  obtain timed w2 where f: "fold_sampled_timeboxes s cyc dev s w1 = (timed, w2)" by (metis prod.exhaust)
  obtain m w3 w4 where b: "handle_blocked_dispatch_recovery env (Dispatch_blocked e) m timed w3 = (Inr n, w4)"
    using assms(1) by (auto simp: recover_step_def sm f Let_def split: sum.splits prod.splits)
  have "decide_phase_transition timed q has_record (rebase timed) None \<noteq> Report_terminal_success" for q has_record
    using assms(2) fold_rebase [OF f] eligible_facts(2,3) [of timed has_record "rebase timed"]
    by (auto simp: decide_phase_transition_def check_blocking_decision_def split: option.splits if_splits)
  then show ?thesis using b
    by (auto simp: handle_blocked_dispatch_recovery_def Let_def rbind_def set_recovery_record_retained_def split: sum.splits prod.splits)
qed

text \<open>
  C16: A step over a tree that dispatch is refused on does no work.  Its result does not depend on what the router, the
  prompts, the agents, the commits, the workers or the boundary integration would answer; it is never an exit
  code; and when an integration was unresolved or its record retained, the state it answers holds the record.
\<close>

theorem blocked_tree_runs_nothing:
  assumes "prepare_step_timeboxes env s w = (Inr (s1, timing), w1)" and "phase s1 \<noteq> RESOLUTION_DRAIN_NAME"
    and "inspect_integration_resolution (se_tree env (sw_rest w1)) (rebase s1) = Inr (v, c)" and "\<not> dispatch_allowed v"
  shows "run_pipeline_step (other_workers alt env) s w = run_pipeline_step env s w
    \<and> fst (run_pipeline_step env s w) \<noteq> Inr (Inl k)
    \<and> (\<forall>n. fst (run_pipeline_step env s w) = Inr (Inr n) \<longrightarrow>
          integration_unresolved (rebase s1) \<or> recovery_record_retained (rebase s1) \<longrightarrow> recovery_record_retained (rebase n))"
proof -
  define e where "e = RuntimeError (''cannot dispatch '' @ phase s1)"
  have wk: "step_work env s1 timing w1 = (Inl (Dispatch_blocked e, s1), w1)"
      "step_work (other_workers alt env) s1 timing w1 = (Inl (Dispatch_blocked e, s1), w1)"
    unfolding e_def by (rule blocked_dispatch [OF assms(2) _ assms(4)], simp add: assms(3))+
  obtain r w2 where r: "recover_step env (Dispatch_blocked e) s1 w1 = (r, w2)" by (metis prod.exhaust)
  have "recovery_record_retained (rebase m)"
    if "r = Inr m" "integration_unresolved (rebase s1) \<or> recovery_record_retained (rebase s1)" for m
    using blocked_recovery_retains [of env _ s1 w1 m w2] r that by simp
  then show ?thesis
    by (cases r) (auto simp: run_pipeline_step_def Let_def other_prepare other_recover assms(1) wk r with_phase_timing_def)
qed

text \<open>A world in which everything answers at once: agents succeed, nothing is to integrate, the tree is clean.\<close>

definition calm_step_env :: "unit step_env" where
  "calm_step_env = \<lparr>se_bundle = sample_bundle, se_classify = no_classifier, se_classify_exn = (\<lambda>_. no_classifier (Raw_text [])),
     se_exn_text = (\<lambda>_. ''error''), se_clock = (\<lambda>x. ((0, 0), x)), se_reads = (\<lambda>_. (None, ''2026-01-01T00:00:00'', sample_clock)),
     se_tree = (\<lambda>_. clean_tree\<lparr>lt_receipt := Read_outcome Rd_absent None\<rparr>), se_has_record = (\<lambda>_. False), se_router = (\<lambda>_. quiet_env),
     se_timer = (\<lambda>ph _. \<lparr>timing_phase = ph, timing_iteration = 0, timing_started_at = 0, timing_elapsed = 0, timing_elapsed_seconds = 0\<rparr>),
     se_materialize = (\<lambda>_ _ x. (Prompt_ready, x)), se_agent = (\<lambda>_ _ x. (Inr (Pipeline_event AGENT_SUCCESS), x)),
     se_commit = (\<lambda>_ x. (Inr (Pipeline_event COMMIT_SUCCESS), x)), se_captured = (\<lambda>_. (None, cleared_agent_retry_intent)),
     se_grade = (\<lambda>_ _ x. (Inr (Pipeline_event AGENT_SUCCESS), x)), se_boundary = (\<lambda>_ x. (Inr None, x)),
     se_after_commit = (\<lambda>_ x. (None, x)), se_seam = (\<lambda>_ _ x. (Inr (Inl Complete_with_proof), x)), se_clear_baseline = id,
     se_enter_execution = id, se_finish = (\<lambda>_ _ _ x. (Inr (), x)), se_save = (\<lambda>_ x. (Inr (), x)), se_deps_owner = True,
     se_integrate_enabled = True, se_fan_out_setup = (\<lambda>x. (Inr (), x)), se_workers = (\<lambda>_ x. (Inr [], x)),
     se_verify = (\<lambda>x. (Inr None, x)), se_summary = (\<lambda>_ x. (Inr (), x))\<rparr>"

definition calm_world :: "unit step_world" where
  "calm_world = \<lparr>sw_recovery = Some sample_controller, sw_cycle_sample = None, sw_dev_sample = None, sw_message = False, sw_saved = [],
     sw_rest = ()\<rparr>"

text \<open>The same world in the middle of a rebase, and an agent that raises in it.\<close>

definition torn_env :: "unit step_env" where
  "torn_env = calm_step_env\<lparr>se_tree := (\<lambda>_. clean_tree\<lparr>lt_receipt := Read_outcome Rd_absent None, lt_rebase_active := Some True\<rparr>)\<rparr>"

definition torn_run :: pstate where
  "torn_run = sample_run\<lparr>rebase := new_rebase_state\<lparr>last_outcome := Some Conflict\<rparr>\<rparr>"

definition raising_env :: "unit step_env" where
  "raising_env = torn_env\<lparr>se_agent := (\<lambda>_ _ x. (Inl (RuntimeError ''agent''), x))\<rparr>"

lemma torn_tree_blocks:
  "case prepare_step_timeboxes torn_env torn_run calm_world of
     (Inr (s1, _), w1) \<Rightarrow> phase s1 \<noteq> RESOLUTION_DRAIN_NAME \<and> integration_unresolved (rebase s1)
       \<and> (case inspect_integration_resolution (se_tree torn_env (sw_rest w1)) (rebase s1) of Inr (v, _) \<Rightarrow> \<not> dispatch_allowed v | Inl _ \<Rightarrow> False)
   | _ \<Rightarrow> False"
  by code_simp

theorem blocked_tree_runs_nothing_witness:
  "run_pipeline_step (other_workers raising_env torn_env) torn_run calm_world = run_pipeline_step torn_env torn_run calm_world
   \<and> fst (run_pipeline_step torn_env torn_run calm_world) \<noteq> Inr (Inl 0)
   \<and> (case fst (run_pipeline_step torn_env torn_run calm_world) of Inr (Inr n) \<Rightarrow> recovery_record_retained (rebase n) | _ \<Rightarrow> True)"
proof -
  obtain s1 timing w1 where p: "prepare_step_timeboxes torn_env torn_run calm_world = (Inr (s1, timing), w1)"
    using torn_tree_blocks
    by (cases "prepare_step_timeboxes torn_env torn_run calm_world") (auto split: sum.splits)
  have b: "phase s1 \<noteq> RESOLUTION_DRAIN_NAME" "integration_unresolved (rebase s1)"
      "case inspect_integration_resolution (se_tree torn_env (sw_rest w1)) (rebase s1) of Inr (v, _) \<Rightarrow> \<not> dispatch_allowed v | Inl _ \<Rightarrow> False"
    using torn_tree_blocks by (simp_all add: p)
  obtain v c where v: "inspect_integration_resolution (se_tree torn_env (sw_rest w1)) (rebase s1) = Inr (v, c)" "\<not> dispatch_allowed v"
    using b(3) by (cases "inspect_integration_resolution (se_tree torn_env (sw_rest w1)) (rebase s1)") auto
  show ?thesis using blocked_tree_runs_nothing [OF p b(1) v, of raising_env 0] b(2) by (auto split: sum.splits)
qed

section \<open>Two places where the step and its comments part\<close>

text \<open>
  The recovery of a missing plan is meant to leave the running cycle behind; it concludes a cycle only on entry to the
  final commit, and it never routes there.
\<close>

lemma missing_plan_keeps_the_cycle_running:
  "map_sum id (\<lambda>n. (phase n, cycle_timebox_active n))
     (fst (recover_missing_plan_handoff calm_step_env (sample_run\<lparr>cycle_timebox_active := True\<rparr>) ''no plan'' calm_world))
   = Inr (''planning'', True)"
  by code_simp

text \<open>A boundary hook that raises is logged and then read anyway: the step crashes on the name that was never bound.\<close>

lemma raised_hook_is_unbound:
  assumes "se_boundary env (rebase s) (sw_rest w) = (Inl e, x)"
  shows "fst (integrate_inline_effect env eff result s w) = Inl (RuntimeError ''UnboundLocalError: outcome'')"
  using assms by (simp add: integrate_inline_effect_def)

end
