(* ===== verification/Whole_Run.thy ===== *)
theory Whole_Run
  imports Run_Loop Step_Laws
begin

text \<open>
  The run as a whole: the loop of \<open>Run_Loop\<close> with the pipeline step of \<open>Pipeline_Step\<close> in the place its environment
  keeps for a step, as \<^verbatim>\<open>_run_inner_loop_after_startup\<close> of \<^verbatim>\<open>ralph/pipeline/run_loop.py\<close> calls
  \<^verbatim>\<open>run_pipeline_step\<close> with the controller of the run.

  The locale \<open>kept_answers\<close> is what the loop relies on: every answer of its environment keeps a property of the world,
  which makes the controller serve the policy, and a step only travels.  Inside it, every pass of the loop is
  shown to travel.  It is interpreted on \<open>join_env\<close>, with the laws of \<open>Step_Laws\<close> for the step.
\<close>

section \<open>What the loop relies on\<close>

locale kept_answers =
  fixes env :: "('w, 'e) loop_env_scheme" and J :: "'w \<Rightarrow> bool"
  assumes preamble: "J w \<Longrightarrow> J (snd (en_preamble env w))"
    and diagnose: "J w \<Longrightarrow> J (en_diagnose env why w)"
    and repair_merge: "J w \<Longrightarrow> J (en_repair_merge env why w)"
    and resolve: "J (sh_world sh) \<Longrightarrow> J (sh_world (snd (en_resolve env latest sh)))"
    and startup: "J w \<Longrightarrow> J (snd (ge_startup env r w))"
    and seam_action: "J w \<Longrightarrow> J (snd (ge_seam_action env rc w))"
    and owner_sync: "J w \<Longrightarrow> J (snd (ge_owner_sync env w))"
    and execute_rung: "J w \<Longrightarrow> J (ge_execute_rung env rung w)"
    and clear_residue: "J w \<Longrightarrow> J (le_clear_residue env w)"
    and await_online: "J w \<Longrightarrow> J (le_await_online env w)"
    and controller: "J w \<Longrightarrow> serves (ge_policy env) (le_controller env w)"
    and put_controller: "J w \<Longrightarrow> serves (ge_policy env) ctl \<Longrightarrow> J (le_put_controller env ctl w)"
    and step_world: "J w \<Longrightarrow> at_home (ge_policy env) s \<Longrightarrow> J (snd (le_step env s w))"
    and step_travels: "J w \<Longrightarrow> at_home (ge_policy env) s \<Longrightarrow> le_step env s w = (Inr (Inr n), w') \<Longrightarrow> travels (ge_policy env) s n"
    and policy_valid: "J w \<Longrightarrow> validate_policy (ge_policy env)"

lemma ctx_worlds [simp]:
  "world_of (persist_state s ctx) = world_of ctx" "world_of (ctx_sleep x ctx) = world_of ctx"
  "world_of (on_shared (set_latest s) ctx) = world_of ctx"
  by (simp_all add: persist_state_def ctx_sleep_def save_recovered_rebase_checkpoint_def set_latest_def Let_def)

lemma adopt_world [simp]: "sh_world (adopt_latest_rebase r sh) = sh_world sh"
  by (simp add: adopt_latest_rebase_def save_recovered_rebase_checkpoint_def set_latest_def Let_def split: option.splits)

lemma escalate_world [simp]: "world_of (snd (escalate_wait n detail alarm b r s ctx)) = world_of ctx"
  by (simp add: escalate_wait_def Let_def)

context kept_answers
begin

lemmas answers = preamble diagnose repair_merge resolve startup seam_action owner_sync execute_rung

lemma recover_world: "J (sh_world sh) \<Longrightarrow> J (sh_world (resolve_and_recover env b sh))"
  using preamble resolve
  by (auto simp: resolve_and_recover_def Let_def case_prod_unfold split: option.splits)

lemma handoff_world: "J (sh_world sh) \<Longrightarrow> J (sh_world (handoff_retained_failure env why sh))"
  by (auto simp: handoff_retained_failure_def recover_world diagnose repair_merge split: record_view.splits handoff_need.splits)

lemma session_world: "J (world_of ctx) \<Longrightarrow> session_handoff env d ctx = (before, after, ctx') \<Longrightarrow> J (world_of ctx')"
  by (auto simp: session_handoff_def Let_def handoff_world split: if_splits)

lemma intervention_world:
  assumes "J (world_of ctx)"
  shows "J (world_of (snd (handle_intervention_required_retry env s r alarm detail ctx)))"
proof -
  let ?ctx0 = "on_shared (sh_world_update (\<lambda>_. snd (en_preamble env (world_of ctx)))) ctx"
  have "J (world_of ?ctx0)" using preamble [OF assms] by simp
  moreover obtain before after ctx1 where s: "session_handoff env detail ?ctx0 = (before, after, ctx1)" by (metis prod_cases3)
  ultimately have "J (world_of ctx1)" by (rule session_world)
  then show ?thesis using preamble [OF assms] s
    by (simp add: handle_intervention_required_retry_def Let_def case_prod_unfold split: option.splits)
qed

lemma pending_world: "J (world_of ctx) \<Longrightarrow> J (world_of (snd (handle_pending_retry env s r ctx)))"
  using preamble by (simp add: handle_pending_retry_def Let_def case_prod_unfold split: option.splits)

lemma wait_world:
  assumes "J (world_of ctx)"
  shows "J (world_of (snd (wait_for_integration_retry env s ctx)))"
proof -
  obtain before after ctx1 where "session_handoff env (render_current_observation_detail (rebase s)) ctx = (before, after, ctx1)"
    by (metis prod_cases3)
  then show ?thesis using assms session_world [OF assms]
    by (simp add: wait_for_integration_retry_def Let_def intervention_world pending_world)
qed

lemma startup_world: "J (world_of ctx) \<Longrightarrow> run_startup env s ctx = (s', ctx') \<Longrightarrow> J (world_of ctx')"
  using startup [of "world_of ctx" "rebase s"] by (auto simp: run_startup_def Let_def split: prod.splits option.splits)


lemma retained_world: "J (world_of ctx) \<Longrightarrow> handle_retained_integration env s ctx = (s', b, ctx') \<Longrightarrow> J (world_of ctx')"
  by (auto simp: handle_retained_integration_def Let_def handoff_world dest: startup_world split: option.splits prod.splits if_splits)

lemma note_world: "J (world_of ctx) \<Longrightarrow> note_record_facts env receipt b s ctx = (s', ctx') \<Longrightarrow> J (world_of ctx')"
  using seam_action [of "world_of ctx" "the receipt"] by (cases receipt) (auto simp: note_record_facts_def Let_def split: prod.splits)

lemma ladder_world:
  "J (world_of ctx) \<Longrightarrow> dispatch_owner_ladder_rung env verdict executed previous ctx = (r, ctx') \<Longrightarrow> J (world_of ctx')"
  by (auto simp: dispatch_owner_ladder_rung_def execute_rung split: option.splits if_splits)

lemma owner_ladder_world:
  assumes "J (world_of ctx)" and "ge_owner_sync env (world_of ctx) = (verdict, w)"
    and "dispatch_owner_ladder_rung env verdict executed previous (set_world w ctx) = (r, ctx')"
  shows "J (world_of ctx')"
  using ladder_world [OF _ assms(3)] owner_sync [OF assms(1)] assms(2) by simp

lemma climb_world:
  "J (world_of ctx) \<Longrightarrow> boundary_climb n env executed previous s ctx = Inr (s', v, ctx') \<Longrightarrow> J (world_of ctx')"
proof (induction n arbitrary: executed previous s ctx)
  case (Suc n)
  obtain verdict w where o: "ge_owner_sync env (world_of ctx) = (verdict, w)" by (metis prod.exhaust)
  obtain ex pr stp ctx1 where l: "dispatch_owner_ladder_rung env verdict executed previous (set_world w ctx) = ((ex, pr, stp), ctx1)"
    by (metis prod.exhaust)
  note j1 = owner_ladder_world [OF Suc.prems(1) o l]
  obtain s1 ctx2 where st: "run_startup env s ctx1 = (s1, ctx2)" by (metis prod.exhaust)
  note j2 = startup_world [OF j1 st]
  show ?case using Suc.prems(2) j1 j2 Suc.IH [OF j2]
    by (auto simp: o l st rbind_def split: if_splits sum.splits prod.splits)
qed simp

lemma post_recovery_world:
  assumes "J (world_of ctx)" and "post_recovery_verdict env s ctx = Inr (b, ctx')"
  shows "J (world_of ctx')"
proof -
  obtain s1 healed ctx1 where l: "boundary_ladder_recovery env s ctx = Inr (s1, healed, ctx1)"
    using assms(2) by (auto simp: post_recovery_verdict_def rbind_def split: sum.splits prod.splits)
  have j1: "J (world_of ctx1)" using l assms(1) climb_world by (auto simp: boundary_ladder_recovery_def split: if_splits)
  let ?ctx2 = "on_shared (\<lambda>sh. snd (en_resolve env (Some (rebase s1)) sh)) ctx1"
  have j2: "J (world_of ?ctx2)" using resolve [OF j1] by simp
  obtain s2 ctx3 where st: "run_startup env s1 ?ctx2 = (s2, ctx3)" by (metis prod.exhaust)
  note j3 = startup_world [OF j2 st]
  show ?thesis using assms(2) j1 j3
    by (auto simp: post_recovery_verdict_def l Let_def st rbind_def dest!: conclude_recovery_world split: option.splits sum.splits prod.splits)
qed

lemma block_world:
  assumes "J (world_of ctx)" and "block_unresolved_integration env s ctx = Inr (b, ctx')"
  shows "J (world_of ctx')"
proof -
  obtain receipt expired where r: "blocking_record env ctx = Inr (receipt, expired)"
    using assms(2) by (auto simp: block_unresolved_integration_def rbind_def split: sum.splits prod.splits)
  obtain s1 ctx1 where n: "note_record_facts env receipt expired s ctx = (s1, ctx1)" by (metis prod.exhaust)
  obtain s2 retained ctx2 where h: "handle_retained_integration env s1 ctx1 = (s2, retained, ctx2)" by (metis prod_cases3)
  note j2 = retained_world [OF note_world [OF assms(1) n] h]
  show ?thesis using assms(2) j2 post_recovery_world [of "save_state s2 ctx2" s2]
    by (auto simp: block_unresolved_integration_def r n h Let_def rbind_def split: sum.splits prod.splits if_splits option.splits)
qed

end

section \<open>The gates travel\<close>

lemma core_refl [simp]: "same_core s s"
  by (simp add: same_core_def)

lemma core_trans: "same_core s s' \<Longrightarrow> same_core s' s'' \<Longrightarrow> same_core s s''"
  by (simp add: same_core_def)

lemma boxes_travel: "travels p s (initialize_resumed_timeboxes s p e)"
proof -
  have epochs: "same_core x (x\<lparr>cycle_timebox_started_at_epoch := t\<rparr>)" "same_core x (x\<lparr>dev_timebox_started_at_epoch := t\<rparr>)" for x t
    by (simp_all add: same_core_def)
  have c: "same_core x (initialize_legacy_cycle_on_resume x p None)" for x
    by (simp add: initialize_legacy_cycle_on_resume_def started_def same_core_def split: option.splits)
  have d: "same_core x (initialize_legacy_development_timebox_on_resume x p None)" for x
    by (simp add: initialize_legacy_development_timebox_on_resume_def same_core_def split: option.splits)
  show ?thesis unfolding initialize_resumed_timeboxes_def Let_def
    by (rule travels_core) (auto intro: core_trans [OF c] core_trans [OF _ d] core_trans [OF _ epochs(1)] core_trans [OF _ epochs(2)] c)
qed

lemma travels_rebase: "travels p s (s\<lparr>rebase := r\<rparr>)"
  by (rule travels_core) (simp add: same_core_def)

lemma travels_same: "same_run s s' \<Longrightarrow> travels p s s'"
  unfolding same_run_def by (metis travels_rebase)

lemma travels_wait: "wait_for_integration_retry env s ctx = (s', ctx') \<Longrightarrow> travels p s s'"
proof -
  assume "wait_for_integration_retry env s ctx = (s', ctx')"
  then have "wait_kept s s'" using wait_is_ok [of s ctx env] by (auto simp: wait_ok_def)
  then have "same_core s s'"
    unfolding wait_kept_def by (rule ssubst [where P = "same_core s"]) (simp add: same_core_def clear_waiting_def)
  then show ?thesis by (rule travels_core)
qed

lemma travels_detour: "known_option p r \<Longrightarrow> travels p s (s\<lparr>integration_commit_resume_phase := r\<rparr>)"
  by (rule travels_evolves) (rule evolves_step [OF evolves_refl estep.detour])

lemma cleanup_known:
  assumes "cleanup_phase_of p = Some t"
  shows "known_phase p t"
proof -
  obtain d where "(t, d) \<in> set (phases p)"
    using assms by (auto simp: cleanup_phase_of_def find_Some_iff) (metis nth_mem)
  then show ?thesis by (force simp: known_phase_def din_iff dkeys_def)
qed

lemma routed_travels:
  assumes "validate_policy (ge_policy env)" "at_home (ge_policy env) s" "route_planning_commit env s ctx = Inr (Some s', ctx')"
  shows "travels (ge_policy env) s s'"
proof -
  let ?p = "ge_policy env"
  obtain t where t: "cleanup_phase_of ?p = Some t"
    and s': "s' = (progress_advance_phase s t ?p)\<lparr>integration_commit_resume_phase := Some (phase s), rebase := reconcile_stale_unresolved_state (rebase s)\<rparr>"
    using assms(3) by (auto simp: route_planning_commit_def Let_def rbind_def split: if_splits option.splits sum.splits prod.splits)
  have a: "travels ?p s (progress_advance_phase s t ?p)" by (rule advance_travels [OF assms(1,2) cleanup_known [OF t]])
  have "known_option ?p (Some (phase s))" using assms(2) by (simp add: at_home_def phases_known_def)
  from travels_detour [OF this] show ?thesis unfolding s' by (intro travels_trans [OF a]) (metis travels_trans travels_rebase)
qed

context kept_answers
begin

abbreviation p where
  "p \<equiv> ge_policy env"

text \<open>Where a part of the loop may get to from a state: by travelling, in a world that is kept.\<close>

definition gets :: "pstate \<Rightarrow> pstate \<Rightarrow> 'w retry_ctx \<Rightarrow> bool" where
  "gets s s' ctx' = (travels p s s' \<and> J (world_of ctx'))"

lemma gets_trans: "travels p s s' \<Longrightarrow> gets s' s'' ctx \<Longrightarrow> gets s s'' ctx"
  using travels_trans by (auto simp: gets_def)

lemma gets_same: "J (world_of ctx) \<Longrightarrow> same_run s s' \<Longrightarrow> gets s s' ctx"
  by (simp add: gets_def travels_same)

lemma gets_home: "gets s s' ctx \<Longrightarrow> at_home p s \<Longrightarrow> at_home p s'"
  using travels_home by (auto simp: gets_def)

lemma gets_wait: "J (world_of ctx) \<Longrightarrow> wait_for_integration_retry env s ctx = (s', ctx') \<Longrightarrow> gets s s' ctx'"
  using wait_world [of ctx s] travels_wait [of env s ctx s' ctx'] by (simp add: gets_def)

lemma route_commit_world: "route_planning_commit env s ctx = Inr (r, ctx') \<Longrightarrow> world_of ctx' = world_of ctx"
  by (auto simp: route_planning_commit_def Let_def rbind_def split: if_splits option.splits sum.splits prod.splits)

lemma gets_rounds:
  assumes "J (world_of ctx)" "at_home p s"
    and "sync_rounds n attempt env gap failed previous executed s ctx = Inr ((s', blocked), ctx')"
  shows "gets s s' ctx'"
  using assms
proof (induction n arbitrary: attempt gap failed previous executed s ctx)
  case (Suc n)
  obtain s1 ctx1 where st: "run_startup env s ctx = (s1, ctx1)" by (metis prod.exhaust)
  note j1 = startup_world [OF Suc.prems(1) st]
  have t1: "travels p s s1" using run_startup_same [OF st] by (rule travels_same)
  note h1 = travels_home [OF t1 Suc.prems(2)]
  show ?case
  proof (cases "planning_sync_gap env ctx1")
    case None
    then show ?thesis using Suc.prems(3) st j1 t1 by (auto simp: gets_def)
  next
    case (Some gap1)
    obtain routed ctx2 where r: "route_planning_commit env s1 ctx1 = Inr (routed, ctx2)"
      using Suc.prems(3) st Some by (auto simp: rbind_def split: sum.splits)
    have j2: "J (world_of ctx2)" using route_commit_world [OF r] j1 by simp
    show ?thesis
    proof (cases routed)
      case (Some s2)
      have "travels p s1 s2" using routed_travels [OF policy_valid [OF j1] h1] r Some by blast
      then show ?thesis using Suc.prems(3) st r Some \<open>planning_sync_gap env ctx1 = Some gap1\<close> j2 travels_trans [OF t1]
        by (auto simp: gets_def)
    next
      case None
      obtain verdict w where o: "ge_owner_sync env (world_of ctx2) = (verdict, w)" by (metis prod.exhaust)
      obtain ex pr stp ctx3 where l: "dispatch_owner_ladder_rung env verdict executed previous (set_world w ctx2) = ((ex, pr, stp), ctx3)"
        by (metis prod.exhaust)
      note j3 = owner_ladder_world [OF j2 o l]
      consider "s' = s1" "ctx' = ctx3"
        | a g f q e where "sync_rounds n a env g f q e s1 ctx3 = Inr ((s', blocked), ctx')"
        using Suc.prems(3) st r Some None o l
        by (auto simp: Let_def split: rung_step.splits if_splits option.splits)
      then show ?thesis
      proof cases
        case 1
        then show ?thesis using t1 j3 by (simp add: gets_def)
      next
        case (2 a g f q e)
        show ?thesis by (rule gets_trans [OF t1 Suc.IH [OF j3 h1 2]])
      qed
    qed
  qed
qed (simp add: gets_def)

lemma gets_planning:
  assumes "J (world_of ctx)" "at_home p s" and "ensure_planning_in_sync env s ctx = Inr ((s', b), ctx')"
  shows "gets s s' ctx'"
proof (cases "is_planning_entry p s \<and> planning_sync_gap env ctx \<noteq> None")
  case True
  then obtain gap s1 blocked ctx1 where r: "sync_rounds 3 0 env gap None None None s ctx = Inr ((s1, blocked), ctx1)"
      "planning_sync_gap env ctx = Some gap"
    using assms(3) by (auto simp: ensure_planning_in_sync_def rbind_def split: sum.splits)
  note g = gets_rounds [OF assms(1,2) r(1)]
  have "travels p s1 (s1\<lparr>last_error := x\<rparr>)" for x by (rule travels_core) (simp add: same_core_def)
  then have "gets s (s1\<lparr>last_error := x\<rparr>) ctx1" for x using g travels_trans by (auto simp: gets_def)
  then show ?thesis using assms(3) True r g
    by (auto simp: ensure_planning_in_sync_def Let_def gets_def split: option.splits)
next
  case False
  then show ?thesis using assms by (auto simp: ensure_planning_in_sync_def gets_def split: if_splits)
qed

lemma gets_blocked:
  assumes "J (world_of ctx)" and "block_unresolved_integration env s ctx = Inr (b, ctx')"
  shows "J (world_of ctx')" and "b = Some s' \<Longrightarrow> travels p s s'"
  using block_world [OF assms] travels_same [OF blocked_same] assms(2) by blast+

definition admission_gets :: "pstate \<Rightarrow> 'w admission \<Rightarrow> bool" where
  "admission_gets s a = (case a of Admitted s' ctx \<Rightarrow> gets s s' ctx | Held s' ctx \<Rightarrow> gets s s' ctx | Refused s' ctx \<Rightarrow> gets s s' ctx)"

lemma held_gets: "gets s s' ctx \<Longrightarrow> admission_gets s (held env s' ctx)"
  using gets_wait [of ctx s'] gets_trans by (auto simp: held_def admission_gets_def gets_def split: prod.splits)

lemma admit_gets:
  assumes "J (world_of ctx)" "at_home p s" and "admit env s ctx = Inr a"
  shows "admission_gets s a"
proof -
  obtain blocked ctx1 where b: "block_unresolved_integration env s ctx = Inr (blocked, ctx1)"
    using assms(3) by (auto simp: admit_def rbind_def split: sum.splits prod.splits)
  note j1 = gets_blocked(1) [OF assms(1) b]
  show ?thesis
  proof (cases blocked)
    case (Some s1)
    then have "gets s s1 ctx1" using gets_blocked(2) [OF assms(1) b Some] j1 by (simp add: gets_def)
    then show ?thesis using assms(3) b Some held_gets by (auto simp: admit_def)
  next
    case None
    have t: "travels p s (reconcile_dispatch_state s)" by (rule travels_same [OF reconcile_dispatch_same])
    obtain s2 unsynced ctx2 where e: "ensure_planning_in_sync env (reconcile_dispatch_state s) ctx1 = Inr ((s2, unsynced), ctx2)"
      using assms(3) b None by (auto simp: admit_def rbind_def split: sum.splits prod.splits)
    have g: "gets s s2 ctx2" by (rule gets_trans [OF t gets_planning [OF j1 travels_home [OF t assms(2)] e]])
    have a: "a = held env s2 ctx2 \<or> a = Refused s2 ctx2 \<or> a = Admitted s2 ctx2"
      using assms(3) b None e by (auto simp: admit_def split: if_splits)
    show ?thesis using a g held_gets [OF g] by (auto simp: admission_gets_def)
  qed
qed

lemma reselect_gets:
  assumes "J (world_of ctx)" and "reselect_preferred_agent env wait s ctx = (s', ctx')"
  shows "gets s s' ctx'"
proof (cases "chain_for_phase s (phase s)")
  case None
  then show ?thesis using assms by (auto simp: reselect_preferred_agent_def gets_def)
next
  case (Some ch)
  let ?w = "world_of ctx" let ?c = "le_clock env (world_of ctx)"
  obtain ctl1 sel where p1: "preferred_agent_index ?c (le_controller env ?w) (phase s) (agents ch) None False = (ctl1, sel)"
    by (metis prod.exhaust)
  obtain ctl2 free where p2: "agents_now_available ?c ctl1 (phase s) (agents ch) = (ctl2, free)" by (metis prod.exhaust)
  obtain ctl3 ms where p3: "earliest_available_wait_ms ?c ctl2 (phase s) (agents ch) = (ctl3, ms)" by (metis prod.exhaust)
  have s1: "serves p ctl1" by (rule preferred_serves [OF p1 controller [OF assms(1)]])
  have s2: "serves p ctl2" using now_available_serves [OF s1, of ?c "phase s" "agents ch"] p2 by simp
  have s3: "serves p ctl3" using earliest_available_wait_ms_spec(1) [of ?c ctl2 "phase s" "agents ch"] serves_same [OF _ s2] p3 by simp
  have "same_core s s'"
    using assms(2) by (auto simp: reselect_preferred_agent_def Some Let_def p1 p2 p3 same_core_def with_phase_chain_def set_waiting_def
        split: option.splits if_splits)
  moreover have "J (world_of ctx')"
    using assms(2) put_controller [OF assms(1) s1] put_controller [OF assms(1) s2] put_controller [OF assms(1) s3]
    by (auto simp: reselect_preferred_agent_def Some Let_def p1 p2 p3 split: option.splits if_splits)
  ultimately show ?thesis by (simp add: gets_def travels_core)
qed

lemma cooldown_gets:
  assumes "J (world_of ctx)" and "handle_cooldown_delay env s ctx = (s', ctx')"
  shows "gets s s' ctx'"
proof -
  let ?ctx1 = "ctx_sleep (of_int (last_retry_delay_ms s) / 1000) ctx"
  let ?s1 = "s\<lparr>rebase := show_waiting (rebase s), last_retry_delay_ms := 0\<rparr>"
  have j: "J (world_of ?ctx1)" using assms(1) by simp
  have c: "travels p s (s\<lparr>last_retry_delay_ms := x\<rparr>)" "travels p s (?s1\<lparr>last_retry_delay_ms := x\<rparr>)" for x
    by (rule travels_core, simp add: same_core_def)+
  have cw: "travels p x (clear_waiting x)" for x by (rule travels_core) (simp add: same_core_def clear_waiting_def)
  have resumed: "gets s s2 ctx2" if r: "resume_after_cooldown_wait env ?s1 ?ctx1 = Inr (s2, ctx2)" for s2 ctx2
  proof -
    obtain x where "s2 = clear_waiting x" "gets ?s1 x ctx2"
      using r j reselect_gets [OF j, of False ?s1]
      by (auto simp: resume_after_cooldown_wait_def rbind_def gets_def split: sum.splits prod.splits if_splits)
    then show ?thesis using travels_trans [OF c(2) [of 0]] cw travels_trans by (auto simp: gets_def)
  qed
  show ?thesis using assms c resumed
    by (auto simp: handle_cooldown_delay_def Let_def gets_def split: if_splits sum.splits)
qed

lemma connectivity_gets:
  assumes "J (world_of ctx)" and "apply_connectivity_check env s ctx = (s', ctx')"
  shows "gets s s' ctx'"
proof -
  have "same_core s s'" using assms(2) by (auto simp: apply_connectivity_check_def same_core_def split: option.splits if_splits)
  moreover have "J (world_of ctx')"
    using assms await_online by (auto simp: apply_connectivity_check_def split: option.splits if_splits)
  ultimately show ?thesis by (simp add: gets_def travels_core)
qed

lemma resume_gets:
  assumes "J (world_of ctx)" "at_home p prev" and "\<And>n. result = Inr n \<Longrightarrow> travels p prev n"
    and "resume_planning_after_commit env result prev ctx = (r, ctx')"
  shows "J (world_of ctx')" and "r = Inr n \<Longrightarrow> travels p prev n"
proof -
  have "J (world_of ctx') \<and> (\<forall>n. r = Inr n \<longrightarrow> travels p prev n)"
  proof (cases "integration_commit_resume_phase prev")
    case None
    then show ?thesis using assms by (auto simp: resume_planning_after_commit_def)
  next
    case (Some t)
    show ?thesis
    proof (cases result)
      case (Inl k)
      then show ?thesis using assms(4) gets_wait [OF assms(1)] Some
        by (auto simp: resume_planning_after_commit_def gets_def split: prod.splits)
    next
      case (Inr s)
      let ?s1 = "(progress_advance_phase s t p)\<lparr>integration_commit_resume_phase := None\<rparr>"
      have ts: "travels p prev s" by (rule assms(3) [OF Inr])
      have kt: "known_phase p t" using assms(2) Some by (simp add: at_home_def phases_known_def)
      have "travels p s (progress_advance_phase s t p)"
        by (rule advance_travels [OF policy_valid [OF assms(1)] travels_home [OF ts assms(2)] kt])
      then have t1: "travels p prev ?s1"
        using ts travels_detour [of p None "progress_advance_phase s t p"] travels_trans by (metis known_option_def option.case(1))
      obtain s2 ctx2 where w: "wait_for_integration_retry env ?s1 (save_state ?s1 ctx) = (s2, ctx2)" by (metis prod.exhaust)
      have "gets ?s1 s2 ctx2" by (rule gets_wait [OF _ w]) (simp add: assms(1))
      then show ?thesis using assms(1,4) Inr Some ts t1 w travels_trans [OF t1]
        by (auto simp: resume_planning_after_commit_def Let_def gets_def split: if_splits)
    qed
  qed
  then show "J (world_of ctx')" "r = Inr n \<Longrightarrow> travels p prev n" by blast+
qed

text \<open>A pass that leaves with a code other than the refusal's has it from a step in a kept world.\<close>

definition pass_gets :: "pstate \<Rightarrow> 'w pass \<Rightarrow> bool" where
  "pass_gets s ps = (case ps of
     Onward s' ctx \<Rightarrow> gets s s' ctx
   | Leave s' code ctx \<Rightarrow> gets s s' ctx \<and> (case code of None \<Rightarrow> True
       | Some k \<Rightarrow> k = 1 \<or> (\<exists>w. J w \<and> le_step env s' w = (Inr (Inl k), world_of ctx))))"

lemma dispatch_gets:
  assumes "J (world_of ctx)" "at_home p s" and "dispatch_step env captured s ctx = Inr ps"
  shows "pass_gets s ps"
proof -
  obtain s1 ctx1 where c: "apply_connectivity_check env s ctx = (s1, ctx1)" by (metis prod.exhaust)
  have t1: "travels p s s1" and j1: "J (world_of ctx1)" using connectivity_gets [OF assms(1) c] by (simp_all add: gets_def)
  note h1 = travels_home [OF t1 assms(2)]
  obtain result w where st: "le_step env s1 (world_of ctx1) = (Inr result, w)"
    using assms(3) by (auto simp: dispatch_step_def c Let_def rbind_def split: prod.splits sum.splits)
  have jw: "J w" using step_world [OF j1 h1] st by simp
  let ?ctx3 = "set_world (if is_planning_entry p s1 \<and> \<not> isl result then le_clear_residue env w else w) (on_shared (set_latest s1) ctx1)"
  have j3: "J (world_of ?ctx3)" using jw clear_residue by simp
  obtain r ctx4 where rs: "resume_planning_after_commit env result s1 ?ctx3 = (r, ctx4)" by (metis prod.exhaust)
  have tr: "travels p s1 n" if "result = Inr n" for n using step_travels [OF j1 h1] st that by blast
  note rg = resume_gets [OF j3 h1 tr rs]
  show ?thesis
  proof (cases r)
    case (Inl k)
    have "result = Inl k" using resume_keeps_code rs Inl by blast
    then have "world_of ctx4 = w" using rs Inl
      by (auto simp: resume_planning_after_commit_def Let_def split: option.splits prod.splits)
    then show ?thesis using assms(3) st rs Inl rg(1) t1 j1 \<open>result = Inl k\<close>
      by (auto simp: dispatch_step_def c Let_def pass_gets_def gets_def)
  next
    case (Inr s2)
    have t2: "travels p s s2" using travels_trans [OF t1] rg(2) Inr by blast
    obtain s3 ctx5 where cd: "handle_cooldown_delay env s2 ctx4 = (s3, ctx5)" by (metis prod.exhaust)
    have t3: "travels p s s3" and j5: "J (world_of ctx5)"
      using cooldown_gets [OF rg(1) cd] travels_trans [OF t2] by (simp_all add: gets_def)
    obtain s4 ctx6 where rp: "reselect_preferred_agent env True s3 ctx5 = (s4, ctx6)" by (metis prod.exhaust)
    have "gets s s4 ctx6" by (rule gets_trans [OF t3 reselect_gets [OF j5 rp]])
    then show ?thesis using assms(3) st rs Inr cd rp t3 j5
      by (auto simp: dispatch_step_def c Let_def pass_gets_def gets_def split: if_splits)
  qed
qed

lemma goes_on_world:
  assumes "J (world_of ctx)" and "loop_goes_on env s ctx = (b, ctx')"
  shows "J (world_of ctx')"
proof -
  have sv: "serves p ((le_controller env (world_of ctx))\<lparr>ctl_ledger := l\<rparr>)" for l
    using controller [OF assms(1)] by (simp add: serves_def)
  have "J (world_of (snd (ledger_requires_intervention env s ctx)))"
    using assms(1) put_controller [OF assms(1) sv]
    by (simp add: ledger_requires_intervention_def Let_def case_prod_unfold split: option.splits)
  then show ?thesis using assms by (auto simp: loop_goes_on_def Let_def split: prod.splits if_splits)
qed

lemma pass_ok:
  assumes "J (world_of ctx)" "at_home p s" and "loop_pass env s ctx = Inr ps"
  shows "pass_gets s ps"
proof -
  obtain on ctx1 where g: "loop_goes_on env s ctx = (on, ctx1)" by (metis prod.exhaust)
  note j1 = goes_on_world [OF assms(1) g]
  show ?thesis
  proof (cases on)
    case False
    then show ?thesis using assms(3) g j1 by (auto simp: loop_pass_def pass_gets_def gets_def)
  next
    case True
    then obtain a where a: "admit env s ctx1 = Inr a" using assms(3) g by (auto simp: loop_pass_def rbind_def split: sum.splits)
    note ag = admit_gets [OF j1 assms(2) a]
    show ?thesis
    proof (cases a)
      case (Admitted s1 ctx2)
      then have t: "travels p s s1" and j2: "J (world_of ctx2)" using ag by (simp_all add: admission_gets_def gets_def)
      have "pass_gets s1 ps"
        using dispatch_gets [OF j2 travels_home [OF t assms(2)]] assms(3) g True a Admitted by (auto simp: loop_pass_def)
      then show ?thesis using gets_trans [OF t] by (auto simp: pass_gets_def split: pass.splits)
    qed (use assms(3) g True a ag in \<open>auto simp: loop_pass_def pass_gets_def admission_gets_def\<close>)
  qed
qed

lemma catch_up_gets:
  assumes "J (world_of c)" "same_run s x"
    and "(case ge_startup env (rebase x) (world_of c) of (answer, w) \<Rightarrow> (case answer of
        None \<Rightarrow> Inr (x, set_world w c)
      | Some r \<Rightarrow> if r = rebase x then Inr (x, set_world w c)
          else Inr (x\<lparr>rebase := r\<rparr>, if is_skipped r then set_world w c else save_state (x\<lparr>rebase := r\<rparr>) (set_world w c))))
      = (Inr (s', ctx') :: (pstate \<times> 'w retry_ctx) res)"
  shows "gets s s' ctx'"
  using assms startup [OF assms(1), of "rebase x"]
  by (cases "ge_startup env (rebase x) (world_of c)") (auto intro!: gets_same split: option.splits if_splits)

lemma startup_gets:
  assumes "J (world_of ctx)" and "apply_startup_rebase_outcomes env s ctx = Inr (s', ctx')"
  shows "gets s s' ctx'"
proof (cases "en_preamble env (world_of ctx)")
  case (Pair recovered w)
  have j: "J (world_of (set_world w ctx))" using preamble [OF assms(1)] Pair by simp
  show ?thesis
  proof (cases recovered)
    case None
    show ?thesis by (rule catch_up_gets [OF j, of s s]) (use assms(2) [unfolded apply_startup_rebase_outcomes_def Let_def] None Pair in simp_all)
  next
    case (Some r)
    obtain v cor where v: "inspect_live env r (set_world w ctx) = Inr (v, cor)"
      using assms(2) Pair Some by (auto simp: apply_startup_rebase_outcomes_def Let_def rbind_def split: sum.splits)
    let ?s1 = "s\<lparr>rebase := (if dispatch_allowed v \<and> integration_unresolved r then reconcile_stale_unresolved_state r else r)\<rparr>"
    have j1: "J (world_of (save_state ?s1 (set_world w ctx)))" using j by simp
    show ?thesis
    proof (cases "recovery_record_retained (rebase ?s1)")
      case True
      then have "s' = ?s1" "ctx' = save_state ?s1 (set_world w ctx)"
        using assms(2) Pair Some v unfolding apply_startup_rebase_outcomes_def Let_def by (auto split del: if_split)
      then show ?thesis using gets_same [OF j1, of s] by simp
    next
      case False
      show ?thesis
        by (rule catch_up_gets [OF j1, of s ?s1])
           (use assms(2) [unfolded apply_startup_rebase_outcomes_def Let_def] Pair Some v False in \<open>simp_all split del: if_split\<close>)
    qed
  qed
qed

lemma start_gets:
  assumes "J (world_of ctx)" "at_home p s" and "start_loop env s ctx = Inr (s', ctx')"
  shows "gets s s' ctx'"
proof -
  let ?s0 = "case le_legacy_block env of None \<Rightarrow> s | Some r \<Rightarrow> s\<lparr>rebase := r\<rparr>"
  have t0: "travels p s ?s0" by (simp add: travels_rebase split: option.splits)
  obtain s1 ctx1 where a: "apply_startup_rebase_outcomes env ?s0 ctx = Inr (s1, ctx1)"
    using assms(3) by (auto simp: start_loop_def Let_def rbind_def split: sum.splits)
  have t1: "travels p s s1" and j1: "J (world_of ctx1)"
    using startup_gets [OF assms(1) a] travels_trans [OF t0] by (simp_all add: gets_def)
  obtain blocked ctx2 where b: "block_unresolved_integration env s1 ctx1 = Inr (blocked, ctx2)"
    using assms(3) a by (auto simp: start_loop_def Let_def rbind_def split: sum.splits)
  note bg = gets_blocked [OF j1 b]
  note boxed = boxes_travel
  show ?thesis
  proof (cases blocked)
    case None
    then show ?thesis using assms(3) a b bg(1) travels_trans [OF t1 boxed] by (auto simp: start_loop_def Let_def gets_def)
  next
    case (Some x)
    obtain s2 ctx3 where w: "wait_for_integration_retry env x ctx2 = (s2, ctx3)" by (metis prod.exhaust)
    have "gets s s2 ctx3" by (rule gets_trans [OF travels_trans [OF t1 bg(2) [OF Some]] gets_wait [OF bg(1) w]])
    then show ?thesis using assms(3) a b Some w travels_trans [OF _ boxed] by (auto simp: start_loop_def Let_def gets_def)
  qed
qed

end

section \<open>The states a run visits\<close>

text \<open>The states the loop stands in between two passes, in order; a run that never ends visits infinitely many.\<close>

inductive visits :: "('w, 'e) loop_env_scheme \<Rightarrow> pstate \<Rightarrow> 'w retry_ctx \<Rightarrow> pstate \<Rightarrow> 'w retry_ctx \<Rightarrow> bool" for env s0 ctx0 where
  enters: "start_loop env s0 ctx0 = Inr (s, ctx) \<Longrightarrow> visits env s0 ctx0 s ctx"
| passes: "visits env s0 ctx0 s ctx \<Longrightarrow> loop_pass env s ctx = Inr (Onward s' ctx') \<Longrightarrow> visits env s0 ctx0 s' ctx'"

lemma loop_ends_visited:
  assumes "loop_from env s ctx = Some (Inr (s', code, ctx'))" and "visits env s0 ctx0 s ctx"
  shows "\<exists>s1 ctx1. visits env s0 ctx0 s1 ctx1 \<and> loop_pass env s1 ctx1 = Inr (Leave s' code ctx')"
proof -
  define Q where "Q env s ctx r = (\<forall>s0 ctx0. visits env s0 ctx0 s ctx \<longrightarrow> (case r of Inl _ \<Rightarrow> True | Inr (s', code, ctx') \<Rightarrow>
      \<exists>s1 ctx1. visits env s0 ctx0 s1 ctx1 \<and> loop_pass env s1 ctx1 = Inr (Leave s' code ctx')))"
    for env :: "('a, 'b) loop_env_scheme" and s ctx and r :: "(pstate \<times> int option \<times> 'a retry_ctx) res"
  have "Q env s ctx (Inr (s', code, ctx'))"
  proof (rule loop_from.raw_induct [OF _ assms(1)])
    fix f env s ctx r
    assume ih: "\<And>env s ctx r. f env s ctx = Some r \<Longrightarrow> Q env s ctx r"
      and body: "(case loop_pass env s ctx of Inl e \<Rightarrow> Some (Inl e) | Inr (Leave s1 code ctx1) \<Rightarrow> Some (Inr (s1, code, ctx1))
          | Inr (Onward s1 ctx1) \<Rightarrow> f env s1 ctx1) = Some r"
    show "Q env s ctx r"
    proof (cases "loop_pass env s ctx")
      case (Inl e)
      then show ?thesis using body by (auto simp: Q_def)
    next
      case (Inr ps)
      show ?thesis
      proof (cases ps)
        case (Leave s1 c ctx1)
        then have "loop_pass env s ctx = Inr (Leave s1 c ctx1)" "r = Inr (s1, c, ctx1)" using Inr body by auto
        then show ?thesis unfolding Q_def by (simp, blast)
      next
        case (Onward s1 ctx1)
        then have "Q env s1 ctx1 r" using Inr body ih by auto
        then show ?thesis using Inr Onward visits.passes unfolding Q_def by blast
      qed
    qed
  qed
  then show ?thesis using assms(2) unfolding Q_def by fastforce
qed

lemma run_ends_visited:
  assumes "inner_loop env s ctx = Some (Inr (s', code, ctx'))"
  shows "\<exists>s1 ctx1. visits env s ctx s1 ctx1 \<and> loop_pass env s1 ctx1 = Inr (Leave s' code ctx')"
  using assms loop_ends_visited visits.enters by (fastforce simp: inner_loop_def split: sum.splits prod.splits)

context kept_answers
begin

lemma visits_gets:
  assumes "visits env s ctx s' ctx'" and "J (world_of ctx)" "at_home p s"
  shows "gets s s' ctx'"
  using assms(1)
proof induction
  case (enters s' ctx')
  then show ?case by (rule start_gets [OF assms(2,3)])
next
  case (passes x c s' ctx')
  have "pass_gets x (Onward s' ctx')"
    using pass_ok [OF _ gets_home [OF passes.IH assms(3)] passes.hyps(2)] passes.IH by (simp add: gets_def)
  then show ?case using passes.IH travels_trans by (auto simp: pass_gets_def gets_def)
qed

lemma run_ends_gets:
  assumes "inner_loop env s ctx = Some (Inr (s', code, ctx'))" and "J (world_of ctx)" "at_home p s"
  shows "gets s s' ctx'"
    and "code = Some k \<Longrightarrow> k \<noteq> 1 \<Longrightarrow> \<exists>w. J w \<and> le_step env s' w = (Inr (Inl k), world_of ctx')"
proof -
  obtain s1 ctx1 where v: "visits env s ctx s1 ctx1" and l: "loop_pass env s1 ctx1 = Inr (Leave s' code ctx')"
    using run_ends_visited [OF assms(1)] by blast
  note g = visits_gets [OF v assms(2,3)]
  have "pass_gets s1 (Leave s' code ctx')" using pass_ok [OF _ gets_home [OF g assms(3)] l] g by (simp add: gets_def)
  then show "gets s s' ctx'" "code = Some k \<Longrightarrow> k \<noteq> 1 \<Longrightarrow> \<exists>w. J w \<and> le_step env s' w = (Inr (Inl k), world_of ctx')"
    using g travels_trans by (auto simp: pass_gets_def gets_def)
qed

end

section \<open>The loop over the step\<close>

text \<open>An answer that reads and changes the rest of a step's world only.\<close>

definition over_rest :: "('x \<Rightarrow> 'a \<times> 'x) \<Rightarrow> 'x step_world \<Rightarrow> 'a \<times> 'x step_world" where
  "over_rest f w = (let (a, x) = f (sw_rest w) in (a, set_rest x w))"

definition through_rest :: "('x \<Rightarrow> 'x) \<Rightarrow> 'x step_world \<Rightarrow> 'x step_world" where
  "through_rest f w = set_rest (f (sw_rest w)) w"

definition resolve_over_rest ::
  "(rebase_state option \<Rightarrow> 'x shared \<Rightarrow> bool \<times> 'x shared) \<Rightarrow> rebase_state option \<Rightarrow> 'x step_world shared \<Rightarrow> bool \<times> 'x step_world shared" where
  "resolve_over_rest f r sh =
     (let (b, out) = f r \<lparr>sh_world = sw_rest (sh_world sh), sh_latest = sh_latest sh, sh_saved = sh_saved sh\<rparr>
      in (b, \<lparr>sh_world = set_rest (sh_world out) (sh_world sh), sh_latest = sh_latest out, sh_saved = sh_saved out\<rparr>))"

text \<open>
  The environment of a run.  The step is \<open>run_pipeline_step\<close> with the run's controller, and the loop reads the same
  policy, tree, record and clock as the step; every other answer is the one of \<open>le\<close> on the rest of the world.
\<close>

definition join_env :: "'x step_env \<Rightarrow> 'x loop_env \<Rightarrow> 'x step_world loop_env" where
  "join_env se le = \<lparr>en_preamble = over_rest (en_preamble le), en_record_view = (\<lambda>w. en_record_view le (sw_rest w)),
     en_diagnose = (\<lambda>why. through_rest (en_diagnose le why)), en_repair_merge = (\<lambda>why. through_rest (en_repair_merge le why)),
     en_resolve = resolve_over_rest (en_resolve le), en_cooldown_ms = (\<lambda>w. en_cooldown_ms le (sw_rest w)),
     ge_policy = se_policy se, ge_tree = (\<lambda>w. se_tree se (sw_rest w)), ge_busy = (\<lambda>w. ge_busy le (sw_rest w)),
     ge_startup = (\<lambda>r. over_rest (ge_startup le r)), ge_seam_action = (\<lambda>rc. over_rest (ge_seam_action le rc)),
     ge_exhaustion_binds = (\<lambda>r w. ge_exhaustion_binds le r (sw_rest w)), ge_sync_configured = ge_sync_configured le,
     ge_owner_sync = over_rest (ge_owner_sync le), ge_execute_rung = (\<lambda>rung. through_rest (ge_execute_rung le rung)),
     ge_relation = (\<lambda>w. ge_relation le (sw_rest w)), ge_target = ge_target le, ge_uncommitted = (\<lambda>w. ge_uncommitted le (sw_rest w)),
     le_step = run_pipeline_step se, le_clear_residue = through_rest (le_clear_residue le),
     le_clock = (\<lambda>w. snd (snd (se_reads se (sw_rest w)))),
     le_controller = (\<lambda>w. case sw_recovery w of Some ctl \<Rightarrow> ctl | None \<Rightarrow> le_controller le (sw_rest w)),
     le_put_controller = (\<lambda>ctl w. w\<lparr>sw_recovery := Some ctl\<rparr>), le_connectivity = (\<lambda>w. le_connectivity le (sw_rest w)),
     le_await_online = through_rest (le_await_online le), le_has_record = (\<lambda>w. se_has_record se (sw_rest w)),
     le_epoch = le_epoch le, le_legacy_block = le_legacy_block le\<rparr>"

text \<open>The world of a run: a valid policy, and a controller that serves it.\<close>

definition run_world :: "'x step_env \<Rightarrow> 'x step_world \<Rightarrow> bool" where
  "run_world se w = (validate_policy (se_policy se) \<and> controlled (se_policy se) w)"

lemma run_world_rest [simp]:
  "run_world se (set_rest x w) = run_world se w" "run_world se (through_rest f w) = run_world se w"
  "run_world se (snd (over_rest g w)) = run_world se w" "run_world se (sh_world (snd (resolve_over_rest h r sh))) = run_world se (sh_world sh)"
  by (simp_all add: run_world_def through_rest_def over_rest_def resolve_over_rest_def Let_def case_prod_unfold)

lemma run_world_laws:
  assumes "run_world se w"
  shows "validate_policy (se_policy se)" "serves (se_policy se) (case sw_recovery w of Some ctl \<Rightarrow> ctl | None \<Rightarrow> fallback)"
    "serves (se_policy se) ctl \<Longrightarrow> run_world se (w\<lparr>sw_recovery := Some ctl\<rparr>)"
  using assms by (auto simp: run_world_def controlled_def split: option.splits)

interpretation whole: kept_answers "join_env se le" "run_world se" for se le
proof unfold_locales
  fix w s n w'
  assume w: "run_world se w" and h: "at_home (ge_policy (join_env se le)) s"
  then have v: "validate_policy (se_policy se)" "at_home (se_policy se) s" "controlled (se_policy se) w"
    by (simp_all add: run_world_def join_env_def)
  obtain r w1 where r: "run_pipeline_step se s w = (r, w1)" by (metis prod.exhaust)
  note l = step_lawful [OF v r]
  show "run_world se (snd (le_step (join_env se le) s w))" using l(1) v(1) r by (simp add: join_env_def run_world_def)
  show "travels (ge_policy (join_env se le)) s n" if "le_step (join_env se le) s w = (Inr (Inr n), w')"
    using step_lawful(2) [OF v, of _ w' n] that by (simp add: join_env_def)
qed (auto simp: join_env_def run_world_laws)

section \<open>What holds of a whole run\<close>

lemma travels_invariants:
  assumes "validate_policy p" "travels p s s'"
  shows "loops_within_caps p s \<Longrightarrow> loops_within_caps p s'" "history_bounded s \<Longrightarrow> history_bounded s'" "accounts_grow s s'"
proof -
  show "loops_within_caps p s'" if "loops_within_caps p s"
    using assms(2) that
    by (rule travels_keeps) (erule (1) estep_loops [OF assms(1)], simp add: loops_within_caps_iff get_loop_iteration_def)
  show "history_bounded s'" if "history_bounded s"
    using assms(2) that by (rule travels_keeps) (erule (1) estep_history, simp add: history_bounded_def)
  have "accounts_grow s s" by (simp add: accounts_grow_def)
  with assms(2) show "accounts_grow s s'"
    by (rule travels_keeps [where I = "accounts_grow s"]) (erule (1) estep_grow, simp add: accounts_grow_def get_outer_progress_def)
qed

text \<open>
  C14: Whatever Git, the agents, the workers, the resolver, the clocks and the network answer, and however long it runs, a
  run stays within its policy.  In every state the loop stands in, every phase the state names is one of the policy,
  every loop counter is within its cap, the fallover history within its bound, the accounts of outer progress,
  recovery cycles and timebox redirects have not shrunk since the start, and the controller is still the one that
  serves the policy.
\<close>

theorem whole_run_is_lawful:
  assumes "visits (join_env se le) s ctx s' ctx'" and "run_world se (world_of ctx)" and "at_home (se_policy se) s"
  shows "at_home (se_policy se) s' \<and> accounts_grow s s' \<and> controlled (se_policy se) (world_of ctx')
    \<and> (loops_within_caps (se_policy se) s \<longrightarrow> loops_within_caps (se_policy se) s')
    \<and> (history_bounded s \<longrightarrow> history_bounded s')"
proof -
  have p: "ge_policy (join_env se le) = se_policy se" by (simp add: join_env_def)
  have g: "whole.gets se le s s' ctx'" using whole.visits_gets [OF assms(1,2)] assms(3) p by simp
  then have t: "travels (se_policy se) s s'" and j: "run_world se (world_of ctx')" by (simp_all add: whole.gets_def p)
  have v: "validate_policy (se_policy se)" using j by (simp add: run_world_def)
  show ?thesis using travels_home [OF t assms(3)] travels_invariants [OF v t] j by (simp add: run_world_def)
qed

text \<open>Some passes of the loop after one another.\<close>

inductive passes_to :: "('w, 'e) loop_env_scheme \<Rightarrow> pstate \<Rightarrow> 'w retry_ctx \<Rightarrow> pstate \<Rightarrow> 'w retry_ctx \<Rightarrow> bool" for env s ctx where
  here: "passes_to env s ctx s ctx"
| onward: "passes_to env s ctx s1 ctx1 \<Longrightarrow> loop_pass env s1 ctx1 = Inr (Onward s2 ctx2) \<Longrightarrow> passes_to env s ctx s2 ctx2"

fun pass_state :: "'w pass \<Rightarrow> pstate" where
  "pass_state (Onward s _) = s"
| "pass_state (Leave s _ _) = s"

text \<open>Nothing spent comes back: caps are kept, spending grows, and what remains of a budget does not.\<close>

definition only_spends :: "pstate \<Rightarrow> pstate \<Rightarrow> bool" where
  "only_spends s s' =
     ((\<forall>c. get_outer_progress s c \<le> get_outer_progress s' c \<and> get_budget_remaining s' c \<le> get_budget_remaining s c)
      \<and> recovery_cycle_count s \<le> recovery_cycle_count s' \<and> cycle_timebox_redirects s \<le> cycle_timebox_redirects s'
      \<and> budget_caps s' = budget_caps s \<and> recovery_cycle_cap s' = recovery_cycle_cap s)"

lemma travels_frame:
  assumes "travels p s s'"
  shows "budget_caps s' = budget_caps s \<and> recovery_cycle_cap s' = recovery_cycle_cap s"
  using assms by (rule travels_keeps [where I = "\<lambda>x. budget_caps x = budget_caps s \<and> recovery_cycle_cap x = recovery_cycle_cap s"])
    (auto dest: estep_frame)

lemma travels_only_spends: "validate_policy p \<Longrightarrow> travels p s s' \<Longrightarrow> only_spends s s'"
  using travels_invariants(3) [of p s s'] travels_frame [of p s s']
  by (auto simp: only_spends_def accounts_grow_def get_budget_remaining_def get_outer_progress_def intro: max.coboundedI2 diff_left_mono)

lemma passes_to_visits: "passes_to env s ctx s1 ctx1 \<Longrightarrow> visits env s0 ctx0 s ctx \<Longrightarrow> visits env s0 ctx0 s1 ctx1"
  by (induction rule: passes_to.induct) (auto intro: visits.passes)

context kept_answers
begin

lemma passes_to_gets:
  assumes "passes_to env s ctx s1 ctx1" and "visits env s0 ctx0 s ctx" and "J (world_of ctx0)" "at_home p s0"
  shows "travels p s s1"
  using assms(1)
proof induction
  case (onward s1 ctx1 s2 ctx2)
  note g = visits_gets [OF passes_to_visits [OF onward.hyps(1) assms(2)] assms(3,4)]
  have "pass_gets s1 (Onward s2 ctx2)" using pass_ok [OF _ gets_home [OF g assms(4)] onward.hyps(2)] g by (simp add: gets_def)
  then show ?case using onward.IH travels_trans by (auto simp: pass_gets_def gets_def)
qed simp

lemma pass_travels:
  assumes "visits env s0 ctx0 s ctx" "J (world_of ctx0)" "at_home p s0" "loop_pass env s ctx = Inr ps"
  shows "travels p s (pass_state ps)"
proof -
  note g = visits_gets [OF assms(1-3)]
  have "pass_gets s ps" using pass_ok [OF _ gets_home [OF g assms(3)] assms(4)] g by (simp add: gets_def)
  then show ?thesis by (cases ps) (auto simp: pass_gets_def gets_def)
qed

end

text \<open>
  C9: The accounts of a run only grow.  Take any state the loop stands in, whatever the environment
  answered before, and any later state of the same run, up to and including the one it ends in.
  Between the two, and from the start of the run to the first, the progress of each budget counter,
  the number of recovery cycles and the number of timebox redirects have not decreased, the budget
  caps and the recovery cap are the same, and so what remains of a budget has not increased, although
  fan-outs in between seed and clear the work units.
\<close>

theorem run_accounts_only_grow:
  assumes "visits (join_env se le) s0 ctx0 s ctx" and "passes_to (join_env se le) s ctx s1 ctx1"
    and "loop_pass (join_env se le) s1 ctx1 = Inr ps"
    and "run_world se (world_of ctx0)" and "at_home (se_policy se) s0"
  shows "only_spends s0 s \<and> only_spends s s1 \<and> only_spends s (pass_state ps)"
proof -
  have p: "ge_policy (join_env se le) = se_policy se" by (simp add: join_env_def)
  have v: "validate_policy (se_policy se)" using assms(4) by (simp add: run_world_def)
  have 0: "travels (se_policy se) s0 s"
    using whole.visits_gets [OF assms(1,4)] assms(5) by (simp add: whole.gets_def p)
  have 1: "travels (se_policy se) s s1"
    using whole.passes_to_gets [OF assms(2,1,4)] assms(5) by (simp add: p)
  have 2: "travels (se_policy se) s1 (pass_state ps)"
    using whole.pass_travels [OF passes_to_visits [OF assms(2,1)] assms(4) _ assms(3)] assms(5) by (simp add: p)
  show ?thesis
    using travels_only_spends [OF v] 0 1 travels_trans [OF 1 2] by blast
qed

text \<open>
  C15: A run that exits with zero has earned it.  Either the loop ended by itself in the terminal phase, with no record
  held, nothing unresolved, nothing owed to the remote, every worker joined and nothing retained in the tree; or
  its last step answered zero, in a phase that ends the run, after every authority agreed that the run may
  succeed, once before the boundary integration and once more on what it answered, in the world the run
  ended in.
\<close>

theorem zero_exit_is_earned:
  assumes "inner_loop (join_env se le) s ctx = Some (Inr (s', early, ctx'))"
    and "run_world se (world_of ctx)" and "at_home (se_policy se) s"
    and "run_exit_code (join_env se le) (s', early, ctx') = 0"
  shows "early = None \<and> phase s' = terminal_phase (se_policy se) \<and> \<not> se_has_record se (sw_rest (world_of ctx'))
      \<and> \<not> integration_unresolved (rebase s') \<and> \<not> owed_publication (rebase s') \<and> fan_out_decision s' = Join_complete
      \<and> retained_integration_reason (se_tree se (sw_rest (world_of ctx'))) = None
    \<or> early = Some 0 \<and> (\<exists>n x. travels (se_policy se) s' n \<and> earned_success se n x (sw_rest (world_of ctx')))"
proof -
  have p: "ge_policy (join_env se le) = se_policy se" "le_step (join_env se le) = run_pipeline_step se" by (simp_all add: join_env_def)
  note ends = whole.run_ends_gets [OF assms(1,2)]
  show ?thesis
  proof (cases early)
    case None
    then show ?thesis using exit_code_honest [of "join_env se le" s' ctx'] assms(4) by (simp add: join_env_def live_retained_reason_def)
  next
    case (Some k)
    then have k: "early = Some 0" using assms(4) by (simp add: run_exit_code_def)
    have g: "whole.gets se le s s' ctx'" and "\<exists>w. run_world se w \<and> run_pipeline_step se s' w = (Inr (Inl 0), world_of ctx')"
      using ends(1) ends(2) [of 0] assms(3) k p by simp_all
    then obtain w where w: "run_world se w" and st: "run_pipeline_step se s' w = (Inr (Inl 0), world_of ctx')" by blast
    have h: "at_home (se_policy se) s'" using whole.gets_home [OF g] assms(3) p by simp
    show ?thesis using step_zero_earned [OF _ h _ st] w k by (simp add: run_world_def)
  qed
qed

section \<open>Two runs\<close>

definition calm_ctx :: "unit step_world retry_ctx" where
  "calm_ctx = \<lparr>rx_shared = \<lparr>sh_world = calm_world, sh_latest = None, sh_saved = []\<rparr>, rx_handoff_done = False, rx_trace = []\<rparr>"

definition calm_env :: "unit step_world loop_env" where
  "calm_env = join_env calm_step_env (resting_env finished_run)"

text \<open>A finished run that still owes the remote a push, and one that a conflict of the past holds up.\<close>

definition owing_run :: pstate where
  "owing_run = (blank_state ''complete'')\<lparr>policy_entry_phase := ''planning'',
     rebase := new_rebase_state\<lparr>last_publication_decision := Some (publication_value Publication_pending)\<rparr>\<rparr>"

definition stuck_run :: pstate where
  "stuck_run = (blank_state ''complete'')\<lparr>policy_entry_phase := ''planning'',
     rebase := new_rebase_state\<lparr>last_outcome := Some Conflict\<rparr>\<rparr>"

lemma calm_facts:
  "run_world calm_step_env (world_of calm_ctx)" "se_policy calm_step_env = default_policy"
  "at_home default_policy owing_run" "at_home default_policy stuck_run" "loops_within_caps default_policy owing_run"
proof -
  show p: "se_policy calm_step_env = default_policy" by (simp add: calm_step_env_def sample_bundle_def)
  have "controlled default_policy calm_world" by (simp add: controlled_def calm_world_def serves_def sample_controller_def)
  then show "run_world calm_step_env (world_of calm_ctx)" using default_policy_ok p by (simp add: run_world_def calm_ctx_def)
qed code_simp+

lemma owing_run_waits:
  "case start_loop calm_env owing_run calm_ctx of
     Inr (s, c) \<Rightarrow> (case loop_pass calm_env s c of Inr (Onward s' c') \<Rightarrow> phase s' = ''complete'' \<and> rx_trace c' = [Slept 5] | _ \<Rightarrow> False)
   | _ \<Rightarrow> False"
  by code_simp

lemma case_passE:
  assumes "case a of Inr (s, c) \<Rightarrow> (case f s c of Inr (Onward s' c') \<Rightarrow> P s' \<and> Q c' | _ \<Rightarrow> False) | _ \<Rightarrow> False"
  obtains s c s' c' where "a = Inr (s, c)" "f s c = Inr (Onward s' c')" "Q c'"
proof -
  obtain s c where a: "a = Inr (s, c)" using assms by (cases a) auto
  obtain ps where f: "f s c = Inr ps" using assms a by (cases "f s c") auto
  show thesis using assms a f that [OF a] by (cases ps) auto
qed

theorem whole_run_is_lawful_witness:
  "\<exists>s' ctx'. visits calm_env owing_run calm_ctx s' ctx' \<and> rx_trace ctx' = [Slept 5] \<and> at_home default_policy s'
     \<and> accounts_grow owing_run s' \<and> loops_within_caps default_policy s' \<and> controlled default_policy (world_of ctx')"
proof -
  obtain s c s' c' where 1: "start_loop calm_env owing_run calm_ctx = Inr (s, c)" and 2: "loop_pass calm_env s c = Inr (Onward s' c')"
      and t: "rx_trace c' = [Slept 5]"
    by (rule case_passE [OF owing_run_waits])
  have v: "visits calm_env owing_run calm_ctx s' c'" by (rule visits.passes [OF visits.enters [OF 1] 2])
  show ?thesis
    using whole_run_is_lawful [OF v [unfolded calm_env_def] calm_facts(1) calm_facts(3) [folded calm_facts(2)]] v t calm_facts by auto
qed

theorem run_accounts_only_grow_witness:
  "\<exists>s ctx s' ctx'. visits calm_env owing_run calm_ctx s ctx \<and> loop_pass calm_env s ctx = Inr (Onward s' ctx')
     \<and> rx_trace ctx' = [Slept 5] \<and> only_spends owing_run s \<and> only_spends s s'"
proof -
  obtain s c s' c' where 1: "start_loop calm_env owing_run calm_ctx = Inr (s, c)" and 2: "loop_pass calm_env s c = Inr (Onward s' c')"
      and t: "rx_trace c' = [Slept 5]"
    by (rule case_passE [OF owing_run_waits])
  note v = visits.enters [OF 1]
  show ?thesis
    using run_accounts_only_grow [OF v [unfolded calm_env_def] passes_to.here 2 [unfolded calm_env_def] calm_facts(1)
        calm_facts(3) [folded calm_facts(2)]] v 2 t by auto
qed

lemma stuck_run_exits:
  "map_option (map_sum id (\<lambda>(s, early, _). (phase s, early))) (inner_loop calm_env stuck_run calm_ctx) = Some (Inr (''complete'', Some 0))"
  by code_simp

theorem zero_exit_is_earned_witness:
  "\<exists>s' ctx' n x. inner_loop calm_env stuck_run calm_ctx = Some (Inr (s', Some 0, ctx'))
     \<and> travels default_policy s' n \<and> earned_success calm_step_env n x (sw_rest (world_of ctx'))"
proof -
  obtain s' c' where r: "inner_loop calm_env stuck_run calm_ctx = Some (Inr (s', Some 0, c'))"
    using stuck_run_exits by (cases "inner_loop calm_env stuck_run calm_ctx") (auto elim!: map_sum_InrE)
  have z: "run_exit_code (join_env calm_step_env (resting_env finished_run)) (s', Some 0, c') = 0" by (simp add: run_exit_code_def)
  show ?thesis
    using zero_exit_is_earned [OF r [unfolded calm_env_def] calm_facts(1) calm_facts(4) [folded calm_facts(2)] z] r calm_facts(2) by auto
qed

end
