(* ===== verification/Spec2Isabelle.thy ===== *)
theory Spec2Isabelle
  imports Routing_Properties Commit_Cleanup Ladder_Outcomes Direct_Retry Watchdog_Properties Post_Exit_Watchdog
    Child_Liveness Whole_Run
begin

text \<open>
  Ralph Workflow: a verification development of the pipeline core.

  \<^bold>\<open>The program.\<close>  Ralph Workflow drives coding agents through a policy-declared graph of
  phases (planning, analysis, development, commit, review and so on).  A run is a \<^verbatim>\<open>PipelineState\<close>
  moved by a pure reducer: the run loop executes an effect, turns its outcome into an event, and
  \<^verbatim>\<open>reduce(state, event, policy, recovery)\<close> answers the next state.  The reducer asks the policy
  for routes, the progress module for loop and budget accounting, the timebox module for expired
  cycles, the recovery controller for what to do about a failed agent, and the progression
  authority for whether a phase boundary may be crossed while an integration is open.  All paths
  below are under \<^verbatim>\<open>src/ralph-workflow/\<close>.

  \<^bold>\<open>The theories\<close>, in the order they build on each other:

  \<^item> \<open>Prelude\<close>: Python exceptions as a sum type (\<open>res\<close>, \<open>rbind\<close>, \<open>catch_value_error\<close>),
    insertion-ordered dictionaries as association lists (\<open>dget\<close>, \<open>dset\<close>, \<open>ddel\<close>), string helpers,
    clocks, JSON values, and the lemma collections.
  \<^item> \<open>Policy\<close>, \<open>Default_Policy\<close>: \<^verbatim>\<open>ralph/policy/models\<close> with every validator of
    \<^verbatim>\<open>PipelinePolicy\<close> as \<open>validate_policy\<close>, and the bundled \<^verbatim>\<open>policy/defaults/pipeline.toml\<close>.
    The cycle walk of the timebox validator is proved to compute graph reachability, and every
    target a validated policy can route to is known (\<open>route_intros\<close>).
  \<^item> \<open>Ledger\<close>: \<^verbatim>\<open>ralph/recovery/agent_failure_ledger.py\<close>, including snapshots and the migration
    of legacy history.
  \<^item> \<open>Unavailability\<close>: \<^verbatim>\<open>ralph/recovery/agent_unavailability_tracker.py\<close>; the locale
    \<open>unavailability_store\<close> is the store protocol the controller relies on, interpreted on the
    tracker.
  \<^item> \<open>Agent_Selection\<close>: \<^verbatim>\<open>ralph/recovery/agent_selection.py\<close>.
  \<^item> \<open>Rebase_State\<close>: \<^verbatim>\<open>ralph/pipeline/rebase_state.py\<close>, the integration facts the reducer reads.
  \<^item> \<open>Pipeline_State\<close>: \<^verbatim>\<open>ralph/pipeline/state.py\<close>, its sub-models, the events and the effects.
  \<^item> \<open>Progress\<close>, \<open>Cycle_Timing\<close>: \<^verbatim>\<open>handoffs.py\<close>, \<^verbatim>\<open>progress.py\<close> and \<^verbatim>\<open>cycle_timing.py\<close>.
  \<^item> \<open>Fan_Out\<close>: \<^verbatim>\<open>_fan_out_authority.py\<close>, refined to a status machine per work unit.
  \<^item> \<open>State_Machine\<close>: \<^verbatim>\<open>_terminal_authority.py\<close> and \<^verbatim>\<open>_pipeline_state_machine.py\<close>.
  \<^item> \<open>Recovery_Controller\<close>: \<^verbatim>\<open>ralph/recovery/controller.py\<close> and the records it exchanges.
  \<^item> \<open>Reducer\<close>: \<^verbatim>\<open>ralph/pipeline/reducer.py\<close> and \<^verbatim>\<open>loopback.py\<close>, every handler up to \<open>reduce\<close>.
  \<^item> \<open>Reducer_Steps\<close>: the elementary changes (\<open>estep\<close>) a reduction is made of, and the proof,
    handler by handler, that \<open>reduce\<close> makes no other (\<open>reduce_evolves\<close>).  The locale
    \<open>routing_frame\<close> states what routing cannot change; \<open>valid_run\<close> fixes a validated policy and
    a start state.
  \<^item> \<open>Run_Invariants\<close>: whole runs (\<open>reachable\<close>), and the locale \<open>run_invariant\<close> that lifts an
    invariant of the elementary changes to runs, interpreted for known phases, loop caps,
    growing accounts and the bounded history.
  \<^item> \<open>Routing_Properties\<close>: the routes a reduction takes: the spent cycle, the bypass, post-commit
    routing and the budget of failed commits.
  \<^item> \<open>Py_Text\<close>: the Python string operations the text-level modules use (strip, split, casing,
    line splitting, substring search), over \<open>string\<close>.
  \<^item> \<open>Worktree_Observation\<close>, \<open>Integration_Decision\<close>, \<open>Attempt_Ledger\<close>: the observation of a git
    worktree with its porcelain parser, the integration decision, and the ledger of integration
    attempts.
  \<^item> \<open>Integration_Owner\<close>: the loop that settles every open row; the locale \<open>settling\<close> is the
    contract of one settling pass, interpreted on the rows of the model (\<open>rows\<close>).
  \<^item> \<open>Integration_Ladder\<close>, \<open>Ladder_Contracts\<close>, \<open>Ladder_Outcomes\<close>: the escalation ladder of an
    integration, what each rung promises, and the outcomes it may record.
  \<^item> \<open>Work_Units\<close>: extraction and validation of work units and plan graphs; the locale \<open>admission\<close>
    is the interface of the two graph checks (\<open>units_adm\<close>, \<open>nodes_adm\<close>).
  \<^item> \<open>Commit_Paths\<close>, \<open>Commit_Cleanup\<close>: which paths a commit may stage, the ignore rules appended
    and what the cleanup phase deletes.
  \<^item> \<open>Effect_Router\<close>: from a state to the next effect.
  \<^item> \<open>Failure_Classifier\<close>: \<^verbatim>\<open>ralph/recovery/failure_classifier.py\<close>; \<open>failure_classifier\<close> is the
    function the recovery controller takes as its argument.
  \<^item> \<open>Direct_Retry\<close>: the retries made inside one agent invocation, below the reducer.
  \<^item> \<open>Timeout_Policy\<close>: \<^verbatim>\<open>ralph/agents/idle_watchdog/timeout_policy.py\<close>, every field, default and
    validator, and the ceilings derived from them.
  \<^item> \<open>Repetition_Tracker\<close>: \<^verbatim>\<open>repetition_tracker.py\<close>, the breaker for repeated errors and tool calls,
    with the expressions of its fingerprint as matchers.
  \<^item> \<open>Watchdog_Text\<close>: \<^verbatim>\<open>_sanitize.py\<close> and the parser of tool-call descriptions.
  \<^item> \<open>Idle_Watchdog\<close>, \<open>Watchdog_Verdict\<close>: the in-stream watchdog, its record and everything that
    writes it, then its evaluation: the gate with its classifier, the fire evaluators and the active
    and waiting branches.
  \<^item> \<open>Watchdog_Runs\<close>, \<open>Watchdog_Properties\<close>: lives of a watchdog as lists of operations; the locale
    \<open>watchdog_run\<close> lifts an invariant of the operations to lives and is interpreted for
    well-formedness (\<open>well\<close>) and for the reported events (\<open>told\<close>).
  \<^item> \<open>Post_Exit_Watchdog\<close>: the poll loop and the three waits after an agent's exit.
  \<^item> \<open>Child_Liveness\<close>: \<^verbatim>\<open>ralph/process/child_liveness.py\<close> and the production probe: the leases of
    child agents.
  \<^item> \<open>Dispatch_Gate\<close>: \<^verbatim>\<open>integration_resolution.py\<close>, \<^verbatim>\<open>auto_integrate_resolution_state.py\<close> and
    \<^verbatim>\<open>branch_relation.py\<close>: what the live tree shows, the verdict on it, containment and release.
  \<^item> \<open>Integration_Retry\<close>, \<open>Boundary_Gate\<close>, \<open>Run_Loop\<close>: \<^verbatim>\<open>run_loop.py\<close>: the wait for an integration with
    its handoff, the gates before a dispatch, and the loop with its startup and exit code.
  \<^item> \<open>Pipeline_Step\<close>: \<^verbatim>\<open>runner.py\<close>, \<^verbatim>\<open>_runner_session.py\<close>, \<^verbatim>\<open>_runner_state_helpers.py\<close> and \<^verbatim>\<open>fan_out.py\<close>: one step
    from the sampling of the timeboxes to the recovery of a crash, over \<open>step_env\<close> and \<open>step_world\<close>.
  \<^item> \<open>Step_Laws\<close>: every part of a step only \<open>travels\<close>, that is, makes the elementary changes of
    \<open>Reducer_Steps\<close> or regroups the units of a wave; what a step that answers zero has checked, and what a step over
    a blocked tree does.
  \<^item> \<open>Whole_Run\<close>: the loop over the step (\<open>join_env\<close>).  The locale \<open>kept_answers\<close> is what the loop relies on; it
    is interpreted with the laws of the step (\<open>whole\<close>).

  \<^bold>\<open>How the code is represented.\<close>  Frozen models are records and \<^verbatim>\<open>copy_with\<close> is record update;
  enums are datatypes; a raised exception is an \<open>Inl\<close>, so every early return and raise is a branch.
  Mutable objects (ledger, tracker, controller) are passed and returned.  Exceptions under
  classification live in an explicit store, since their cause and context links may be cyclic.
  Floats are reals.  Log lines are dropped; published failure events are kept in a list.  The
  controller takes the failure classifier as an argument and its theorems hold for every
  classifier; the one of the source is \<open>failure_classifier\<close>.  What git, the file system and an
  agent process answer are arguments of the definitions that call them.  The run loop takes all of them
  as one record of answers over an abstract world that every answer may change (\<open>loop_env\<close>, which
  extends \<open>gate_env\<close>, which extends \<open>retry_env\<close>); its theorems hold for every such record.  The pipeline step has
  such a record of its own (\<open>step_env\<close>), and \<open>join_env\<close> puts the step into the loop's.  A tick of
  the watchdog likewise carries what the strategy, the monitor, the corroborator and the network probe
  answer at that moment.

  \<^bold>\<open>Termination.\<close>  No definition uses fuel; the counters of \<open>boundary_climb\<close> and \<open>sync_rounds\<close> are the
  bounds of the source's own \<^verbatim>\<open>for\<close> loops.  The graph walks terminate because each step visits a
  declared phase not visited before; the measures count the unvisited declared phases.  Two loops may
  run forever and are partial functions: \<open>wait_loop\<close>, proved to return for a clock that advances by
  each wait, and \<open>loop_from\<close>, of which the theorems say what holds of a run that does end, of every
  single pass, and, by the relation \<open>visits\<close>, of every state of a run that never ends.

  \<^bold>\<open>What the theorems show.\<close>  For runs: phases stay inside the policy, loop counters stay within
  their caps, accounts only grow, the history is bounded, and no reduction leaves a phase while an
  integration is open.  For routing: a spent cycle never enters the phase it guards, exactly the
  exhausted loops are bypassed, a finished cycle is routed by the post-commit table, and a failing
  commit is retried three times and then failed, lock contention apart.  For the authorities: success is never reported over an open obligation,
  and the fan-out join follows the statuses of its units.  For recovery: the cycle cap ends runs,
  selection is by priority, cooldowns are bounded, doubled and served, demotion is permanent
  after the total limit, snapshots round-trip for names that give distinct keys, and migration never weakens an entry.  Several
  theorems record behaviour that differs from the documentation or the evident intent: a mixed
  chain of cooldowns fails its phase, the cap exit raises on sentinel texts, configuration
  failures are not counted, a held commit is charged twice, a git lock can end a run of the bundled
  policy, a running development timer hides a spent cycle, snapshot keys of different agents can collide, the
  conflict profile has no session ceiling, and a process monitor that raises defeats every fire of the watchdog.
  For integration: the owner loop
  settles every row in bounded rounds, escalations climb in order, preservation is verified before the
  last resort discards anything and each earlier rung touches only what its own guard allows, and only recordable outcomes are routed.  For agents: the router dispatches
  runnable work only, a failure is unavailability exactly when it names a reason, kills of the
  watchdog are charged to the agent, direct retries are bounded and futile failures are never
  repeated.  For commits: secrets are never staged and the cleanup deletes only what it may.
  For supervision: the session ceiling of the standard profile is absolute while the monitor answers, every other fire of the watchdog is justified by
  what the channels showed, a silent agent without children is killed after its deadline, an evaluation raises
  only what the strategy or the monitor raised, conflict supervision fires exactly on its cap and its idle timeout, stall
  events alternate, the breaker trips exactly on the repeats its limits name, text shown to an operator is
  redacted and bounded, the wait for descendants returns with the right verdict, and a child holds a run
  exactly as long as its lease while no heartbeat alone keeps a stale record.  For the run loop: the gate over a tree that answers opens exactly if no
  conflict is proven and no unreadable probe meets an open record, evidence of an unfinished integration survives until it lands, waits below the conflict cap neither
  change the course of a run nor spin, nothing is dispatched past the gates, and a run that ends reports the truth.
  For a whole run of loop and steps: every state it visits obeys the invariants of the reducer, spent
  budgets and iterations never come back, exit code zero is earned, and a step over a blocked tree does no work.

  \<^bold>\<open>What is not modelled.\<close>  The effect executors behind one step (prompts, agent processes, commits, workers), git
  itself and the mutations of the integration engine, the publication to a remote, the conflict budget,
  checkpoints other than the ledger's and their migration, the process manager, the readers and parsers of
  agent transcripts, the MCP server, the command line, displays, prompts and policy loading: they are
  input/output around this core, or answers of its environment.  A step's telemetry, visual captures and
  clearing of drains are left out, and an interrupt by the user is not an answer.  An exception inside a step takes
  the controller back to where the call that raised found it.  In \<open>reachable\<close> the run loop appears as
  arbitrary steps that may change the clocks, the controller of the same policy, all fields outside
  \<open>same_core\<close> and, as fan-out does, the work units, the worker states and the caps of budgets; in \<open>Run_Loop\<close> alone the step appears as an arbitrary answer, in \<open>Whole_Run\<close> as itself.

  \<^bold>\<open>Open ends.\<close>  The publication state machine, the conflict budget and the checkpoint migration of
  \<^verbatim>\<open>state.py\<close> are the next components.
\<close>

end
